(* ===== verification/Prelude.thy ===== *)
theory Prelude
  imports Main "HOL-Library.Char_ord" "HOL-Library.List_Lexorder" "HOL-Library.Product_Lexorder"
    "HOL-Library.Code_Target_Numeral"
begin

text \<open>
  The vocabulary every component of the development shares: the types that stand for the
  code's identifiers, times and machine integers; the list operations the Rust iterators
  perform (\<open>find\<close>, \<open>find_map\<close>, mutation through \<open>iter_mut().find\<close>, \<open>min_by_key\<close>,
  \<open>max_by_key\<close>); decimal printing; and the interface of an event-sourced aggregate, which is
  how the domain crate writes all of its state machines.
\<close>

named_theorems frame \<open>fields and observers that an operation leaves alone\<close>
named_theorems step_inv \<open>one-step preservation lemmas\<close>

section \<open>Identifiers, times, machine integers\<close>

text \<open>
  A \<open>Uuid\<close> is compared as 128 bits, most significant first, so it is a number here. A
  \<open>DateTime<Utc>\<close> is a number of nanoseconds since the epoch and a \<open>Duration\<close> is the
  difference of two of them.
\<close>

type_synonym uuid = nat
type_synonym time = int
type_synonym duration = int

definition seconds :: "nat \<Rightarrow> duration" where
  "seconds n = int n * 1000000000"

definition minutes :: "nat \<Rightarrow> duration" where
  "minutes n = seconds (60 * n)"

definition num_seconds :: "duration \<Rightarrow> int" where
  "num_seconds d = (if d < 0 then - ((- d) div 1000000000) else d div 1000000000)"

lemma num_seconds_seconds [simp]: "num_seconds (seconds n) = int n"
  by (simp add: num_seconds_def seconds_def)

lemma seconds_nonneg [simp]: "0 \<le> seconds n"
  by (simp add: seconds_def)

lemma seconds_mono: "m \<le> n \<Longrightarrow> seconds m \<le> seconds n"
  by (simp add: seconds_def)

text \<open>
  Unsigned integers are natural numbers. Subtraction that saturates is subtraction on \<^typ>\<open>nat\<close>.
  The other operations of a fixed width wrap, as the release build of the program does.
\<close>

definition u32_add :: "nat \<Rightarrow> nat \<Rightarrow> nat" where
  "u32_add a b = (a + b) mod 2 ^ 32"

definition u64_add :: "nat \<Rightarrow> nat \<Rightarrow> nat" where
  "u64_add a b = (a + b) mod 2 ^ 64"

definition u32_sub :: "nat \<Rightarrow> nat \<Rightarrow> nat" where
  "u32_sub a b = (a + (2 ^ 32 - b mod 2 ^ 32)) mod 2 ^ 32"

definition u64_saturating_mul :: "nat \<Rightarrow> nat \<Rightarrow> nat" where
  "u64_saturating_mul a b = min (a * b) (2 ^ 64 - 1)"

definition as_u32 :: "nat \<Rightarrow> nat" where
  "as_u32 n = n mod 2 ^ 32"

lemma u32_add_small [simp]: "a + b < 2 ^ 32 \<Longrightarrow> u32_add a b = a + b"
  by (simp add: u32_add_def)

lemma u64_add_small [simp]: "a + b < 2 ^ 64 \<Longrightarrow> u64_add a b = a + b"
  by (simp add: u64_add_def)

lemma as_u32_small [simp]: "n < 2 ^ 32 \<Longrightarrow> as_u32 n = n"
  by (simp add: as_u32_def)

lemma u32_sub_small: "b \<le> a \<Longrightarrow> a < 2 ^ 32 \<Longrightarrow> u32_sub a b = a - b"
  by (simp add: u32_sub_def mod_if)

section \<open>Lists, as the iterators read and change them\<close>

definition is_some_and :: "'a option \<Rightarrow> ('a \<Rightarrow> bool) \<Rightarrow> bool" where
  "is_some_and x p = (case x of None \<Rightarrow> False | Some a \<Rightarrow> p a)"

definition is_none_or :: "'a option \<Rightarrow> ('a \<Rightarrow> bool) \<Rightarrow> bool" where
  "is_none_or x p = (case x of None \<Rightarrow> True | Some a \<Rightarrow> p a)"

lemma is_some_and_simps [simp]:
  "is_some_and None p = False" "is_some_and (Some a) p = p a"
  by (simp_all add: is_some_and_def)

lemma is_none_or_simps [simp]:
  "is_none_or None p = True" "is_none_or (Some a) p = p a"
  by (simp_all add: is_none_or_def)

lemma is_some_and_iff: "is_some_and x p \<longleftrightarrow> (\<exists>a. x = Some a \<and> p a)"
  by (cases x) simp_all

lemma is_none_or_iff: "is_none_or x p \<longleftrightarrow> (\<forall>a. x = Some a \<longrightarrow> p a)"
  by (cases x) simp_all

fun find_map :: "('a \<Rightarrow> 'b option) \<Rightarrow> 'a list \<Rightarrow> 'b option" where
  "find_map f [] = None"
| "find_map f (x # xs) = (case f x of None \<Rightarrow> find_map f xs | Some y \<Rightarrow> Some y)"

fun update_first :: "('a \<Rightarrow> bool) \<Rightarrow> ('a \<Rightarrow> 'a) \<Rightarrow> 'a list \<Rightarrow> 'a list" where
  "update_first p f [] = []"
| "update_first p f (x # xs) = (if p x then f x # xs else x # update_first p f xs)"

definition last_opt :: "'a list \<Rightarrow> 'a option" where
  "last_opt xs = (if xs = [] then None else Some (last xs))"

definition first_opt :: "'a list \<Rightarrow> 'a option" where
  "first_opt xs = (case xs of [] \<Rightarrow> None | x # _ \<Rightarrow> Some x)"

definition or_else :: "'a option \<Rightarrow> 'a option \<Rightarrow> 'a option" where
  "or_else x y = (case x of None \<Rightarrow> y | Some a \<Rightarrow> Some a)"

lemma or_else_simps [simp]: "or_else None y = y" "or_else (Some a) y = Some a"
  by (simp_all add: or_else_def)

definition unwrap_or :: "'a option \<Rightarrow> 'a \<Rightarrow> 'a" where
  "unwrap_or x d = (case x of None \<Rightarrow> d | Some a \<Rightarrow> a)"

lemma unwrap_or_simps [simp]: "unwrap_or None d = d" "unwrap_or (Some a) d = a"
  by (simp_all add: unwrap_or_def)

lemma find_map_Some_iff:
  "find_map f xs = Some y \<Longrightarrow> \<exists>x\<in>set xs. f x = Some y"
  by (induction xs) (auto split: option.splits)

lemma find_map_None_iff: "find_map f xs = None \<longleftrightarrow> (\<forall>x\<in>set xs. f x = None)"
  by (induction xs) (auto split: option.splits)

lemma find_SomeD: "List.find p xs = Some x \<Longrightarrow> x \<in> set xs \<and> p x"
  by (auto simp: find_Some_iff)

lemma find_distinct_key:
  "distinct (map k xs) \<Longrightarrow> x \<in> set xs \<Longrightarrow> List.find (\<lambda>y. k y = k x) xs = Some x"
  by (induction xs) (auto simp: rev_image_eqI)

lemma map_update_first:
  "(\<And>x. k (f x) = k x) \<Longrightarrow> map k (update_first p f xs) = map k xs"
  by (induction xs) auto

lemma length_update_first [simp]: "length (update_first p f xs) = length xs"
  by (induction xs) auto

lemma set_update_firstD:
  "y \<in> set (update_first p f xs) \<Longrightarrow> y \<in> set xs \<or> (\<exists>x\<in>set xs. p x \<and> y = f x)"
  by (induction xs) (auto split: if_splits)

lemma update_first_distinct_key:
  "distinct (map k xs) \<Longrightarrow>
   update_first (\<lambda>x. k x = i) f xs = map (\<lambda>x. if k x = i then f x else x) xs"
proof (induction xs)
  case (Cons x xs)
  have "map (\<lambda>y. if k y = k x then f y else y) xs = xs"
    using Cons.prems by (intro map_idI) (auto simp: rev_image_eqI)
  with Cons show ?case by auto
qed simp

text \<open>The operator \<open>?\<close> and \<open>Result::and_then\<close>: an error ends the computation.\<close>

definition and_then :: "'e + 'a \<Rightarrow> ('a \<Rightarrow> 'e + 'b) \<Rightarrow> 'e + 'b" where
  "and_then r f = (case r of Inl e \<Rightarrow> Inl e | Inr a \<Rightarrow> f a)"

lemma and_then_simps [simp]: "and_then (Inl e) f = Inl e" "and_then (Inr a) f = f a"
  by (simp_all add: and_then_def)

lemma and_then_Inr: "and_then r f = Inr b \<longleftrightarrow> (\<exists>a. r = Inr a \<and> f a = Inr b)"
  by (cases r) simp_all

lemma and_then_Inl: "and_then r f = Inl e \<longleftrightarrow> r = Inl e \<or> (\<exists>a. r = Inr a \<and> f a = Inl e)"
  by (cases r) simp_all

text \<open>
  A loop that checks every element against the ones before it and stops at the first problem.
\<close>

fun first_error :: "(nat \<Rightarrow> 'a list \<Rightarrow> 'a \<Rightarrow> 'e option) \<Rightarrow> 'a list \<Rightarrow> 'a list \<Rightarrow> 'e option" where
  "first_error f before [] = None"
| "first_error f before (x # xs) =
     (case f (length before) before x of
        Some e \<Rightarrow> Some e
      | None \<Rightarrow> first_error f (before @ [x]) xs)"

lemma first_error_None:
  "first_error f before xs = None \<longleftrightarrow>
   (\<forall>i<length xs. f (length before + i) (before @ take i xs) (xs ! i) = None)"
proof (induction xs arbitrary: before)
  case (Cons x xs)
  show ?case
    by (auto simp: Cons All_less_Suc2 split: option.splits)
qed simp

section \<open>Selection by a key\<close>

text \<open>
  \<open>Iterator::min_by_key\<close> keeps the first of several minimal elements;
  \<open>Iterator::max_by_key\<close> the last of several maximal ones.
\<close>

definition min_by_key :: "('a \<Rightarrow> 'k::linorder) \<Rightarrow> 'a list \<Rightarrow> 'a option" where
  "min_by_key f xs =
     (case xs of [] \<Rightarrow> None | x # ys \<Rightarrow> Some (fold (\<lambda>y b. if f y < f b then y else b) ys x))"

definition max_by_key :: "('a \<Rightarrow> 'k::linorder) \<Rightarrow> 'a list \<Rightarrow> 'a option" where
  "max_by_key f xs =
     (case xs of [] \<Rightarrow> None | x # ys \<Rightarrow> Some (fold (\<lambda>y b. if f b \<le> f y then y else b) ys x))"

lemma min_fold_least:
  "fold (\<lambda>y b. if f y < f b then y else b) ys x \<in> insert x (set ys) \<and>
   (\<forall>z\<in>insert x (set ys). f (fold (\<lambda>y b. if f y < f b then y else b) ys x) \<le> f z)"
  for f :: "'a \<Rightarrow> 'k::linorder"
proof (induction ys arbitrary: x)
  case (Cons y ys)
  show ?case
  proof (cases "f y < f x")
    case True
    with Cons[of y] show ?thesis by (auto intro: order.trans)
  next
    case False
    with Cons[of x] show ?thesis by (auto intro: order.trans)
  qed
qed simp

lemma max_fold_greatest:
  "fold (\<lambda>y b. if f b \<le> f y then y else b) ys x \<in> insert x (set ys) \<and>
   (\<forall>z\<in>insert x (set ys). f z \<le> f (fold (\<lambda>y b. if f b \<le> f y then y else b) ys x))"
  for f :: "'a \<Rightarrow> 'k::linorder"
proof (induction ys arbitrary: x)
  case (Cons y ys)
  show ?case
  proof (cases "f x \<le> f y")
    case True
    with Cons[of y] show ?thesis by (auto intro: order.trans)
  next
    case False
    with Cons[of x] show ?thesis by (auto intro: order.trans)
  qed
qed simp

lemma min_by_key_None [simp]: "min_by_key f xs = None \<longleftrightarrow> xs = []"
  by (simp add: min_by_key_def split: list.splits)

lemma max_by_key_None [simp]: "max_by_key f xs = None \<longleftrightarrow> xs = []"
  by (simp add: max_by_key_def split: list.splits)

lemma min_by_key_SomeD:
  assumes "min_by_key f xs = Some x"
  shows "x \<in> set xs" "\<And>y. y \<in> set xs \<Longrightarrow> f x \<le> f y"
proof -
  from assms obtain z ys where xs: "xs = z # ys"
    and x: "x = fold (\<lambda>y b. if f y < f b then y else b) ys z"
    by (auto simp: min_by_key_def split: list.splits)
  show "x \<in> set xs" "\<And>y. y \<in> set xs \<Longrightarrow> f x \<le> f y"
    using min_fold_least[of f ys z] by (auto simp: xs x)
qed

lemma max_by_key_SomeD:
  assumes "max_by_key f xs = Some x"
  shows "x \<in> set xs" "\<And>y. y \<in> set xs \<Longrightarrow> f y \<le> f x"
proof -
  from assms obtain z ys where xs: "xs = z # ys"
    and x: "x = fold (\<lambda>y b. if f b \<le> f y then y else b) ys z"
    by (auto simp: max_by_key_def split: list.splits)
  show "x \<in> set xs" "\<And>y. y \<in> set xs \<Longrightarrow> f y \<le> f x"
    using max_fold_greatest[of f ys z] by (auto simp: xs x)
qed

section \<open>Printing\<close>

definition show_digit :: "nat \<Rightarrow> char" where
  "show_digit d = ''0123456789'' ! d"

fun show_nat :: "nat \<Rightarrow> string" where
  "show_nat n =
     (if n < 10 then [show_digit n] else show_nat (n div 10) @ [show_digit (n mod 10)])"

declare show_nat.simps [simp del]

definition show_int :: "int \<Rightarrow> string" where
  "show_int i = (if i < 0 then ''-'' @ show_nat (nat (- i)) else show_nat (nat i))"

fun join :: "string \<Rightarrow> string list \<Rightarrow> string" where
  "join sep [] = []"
| "join sep [x] = x"
| "join sep (x # y # ys) = x @ sep @ join sep (y # ys)"

definition trim_end_matches :: "char \<Rightarrow> string \<Rightarrow> string" where
  "trim_end_matches c s = rev (dropWhile (\<lambda>d. d = c) (rev s))"

text \<open>
  \<open>format!("{:.2}", f64::from(m) / 1000.0)\<close> for \<open>m\<close> a positive 32-bit integer: the quotient is the
  53-bit binary fraction nearest to it, and its exact value is then rounded to hundredths, both
  with ties to even. For such \<open>m\<close> the binary exponent is between -62 and -30.
\<close>

definition round_half_even :: "nat \<Rightarrow> nat \<Rightarrow> nat" where
  "round_half_even n d =
     (let q = n div d; r = n mod d in if 2 * r < d \<or> (2 * r = d \<and> even q) then q else q + 1)"

definition thousandths_shift :: "nat \<Rightarrow> nat" where
  "thousandths_shift m =
     (case List.find (\<lambda>s. 2 ^ 52 * 1000 \<le> m * 2 ^ s) [30..<63] of None \<Rightarrow> 62 | Some s \<Rightarrow> s)"

definition hundredths :: "nat \<Rightarrow> nat" where
  "hundredths m =
     (let s = thousandths_shift m in
      round_half_even (round_half_even (m * 2 ^ s) 1000 * 100) (2 ^ s))"

definition show_thousandths_2 :: "nat \<Rightarrow> string" where
  "show_thousandths_2 m =
     (let h = hundredths m in
      show_nat (h div 100) @ ''.'' @ show_nat (h div 10 mod 10) @ show_nat (h mod 10))"

section \<open>Event-sourced aggregates\<close>

text \<open>
  Every aggregate of the domain crate implements \<open>mire::Aggregate\<close> (\<open>apply\<close>: fold one
  event into the state) and its commands implement \<open>mire::Command\<close> (\<open>handle\<close>: from the
  state, either an error or the events that happened). The store appends the events of one
  command at a time, so a stream's state is a fold of the events of successful commands.
\<close>

definition fold_events :: "('s \<Rightarrow> 'e \<Rightarrow> 's) \<Rightarrow> 's \<Rightarrow> 'e list \<Rightarrow> 's" where
  "fold_events app s es = foldl app s es"

lemma fold_events_simps [simp]:
  "fold_events f s [] = s"
  "fold_events f s (e # es) = fold_events f (f s e) es"
  by (simp_all add: fold_events_def)

lemma fold_events_append [simp]:
  "fold_events f s (es @ fs) = fold_events f (fold_events f s es) fs"
  by (simp add: fold_events_def)

fun run_commands ::
  "('s \<Rightarrow> 'e \<Rightarrow> 's) \<Rightarrow> ('c \<Rightarrow> 's \<Rightarrow> 'err + 'e list) \<Rightarrow> 's \<Rightarrow> 'c list \<Rightarrow> 's" where
  "run_commands app hdl s [] = s"
| "run_commands app hdl s (c # cs) =
     (case hdl c s of
        Inl _ \<Rightarrow> run_commands app hdl s cs
      | Inr es \<Rightarrow> run_commands app hdl (fold_events app s es) cs)"

text \<open>The events a run appends to the stream.\<close>

fun run_events ::
  "('s \<Rightarrow> 'e \<Rightarrow> 's) \<Rightarrow> ('c \<Rightarrow> 's \<Rightarrow> 'err + 'e list) \<Rightarrow> 's \<Rightarrow> 'c list \<Rightarrow> 'e list" where
  "run_events app hdl s [] = []"
| "run_events app hdl s (c # cs) =
     (case hdl c s of
        Inl _ \<Rightarrow> run_events app hdl s cs
      | Inr es \<Rightarrow> es @ run_events app hdl (fold_events app s es) cs)"

lemma run_commands_events: "run_commands app hdl s cs = fold_events app s (run_events app hdl s cs)"
  by (induction cs arbitrary: s) (auto split: sum.splits)

lemma run_commands_append:
  "run_commands app hdl s (cs @ ds) = run_commands app hdl (run_commands app hdl s cs) ds"
  by (induction cs arbitrary: s) (auto split: sum.splits)

lemma run_commands_stuck:
  "(\<And>c es. hdl c s = Inr es \<Longrightarrow> es = []) \<Longrightarrow> run_commands app hdl s cs = s"
proof (induction cs)
  case (Cons c cs)
  then show ?case by (cases "hdl c s") fastforce+
qed simp

locale event_sourced =
  fixes apply_event :: "'s \<Rightarrow> 'e \<Rightarrow> 's"
    and handle :: "'c \<Rightarrow> 's \<Rightarrow> 'err + 'e list"
    and inv :: "'s \<Rightarrow> bool"
    and init :: 's
  assumes inv_init: "inv init"
    and inv_handle: "inv s \<Longrightarrow> handle c s = Inr es \<Longrightarrow> inv (fold_events apply_event s es)"
begin

lemma inv_run_from: "inv s \<Longrightarrow> inv (run_commands apply_event handle s cs)"
  by (induction cs arbitrary: s) (auto split: sum.splits intro: inv_handle)

lemma inv_run: "inv (run_commands apply_event handle init cs)"
  by (rule inv_run_from[OF inv_init])

text \<open>
  What holds until an event of a kind happens: a claim on the state that every command keeps
  unless one of its events is such an event holds at the end of a run without one.
\<close>

lemma holds_until:
  assumes step: "\<And>s c es. inv s \<Longrightarrow> P s \<Longrightarrow> handle c s = Inr es \<Longrightarrow> \<forall>e\<in>set es. \<not> ends e \<Longrightarrow>
      P (fold_events apply_event s es)"
    and "inv s" "P s" "\<forall>e\<in>set (run_events apply_event handle s cs). \<not> ends e"
  shows "P (run_commands apply_event handle s cs)"
  using assms(2-4)
proof (induction cs arbitrary: s)
  case (Cons c cs)
  then show ?case
    by (cases "handle c s") (auto intro: inv_handle step)
qed simp

end

text \<open>
  A locale for a quantity a stream's commands never change once it has a value (an owner, a
  name, an identity): the value survives every run.
\<close>

locale event_sourced_stable = event_sourced +
  fixes fact :: "'s \<Rightarrow> bool"
  assumes fact_handle:
    "inv s \<Longrightarrow> fact s \<Longrightarrow> handle c s = Inr es \<Longrightarrow> fact (fold_events apply_event s es)"
begin

lemma fact_run_from: "inv s \<Longrightarrow> fact s \<Longrightarrow> fact (run_commands apply_event handle s cs)"
proof (induction cs arbitrary: s)
  case (Cons c cs)
  then show ?case
    by (auto split: sum.splits intro: inv_handle fact_handle)
qed simp

end

end
