(* ===== verification/App_Spec.thy ===== *)
theory App_Spec
  imports Prelude
begin

text \<open>
  The data of \<open>grund-config\<close>'s \<open>app/spec.rs\<close>: what one release runs (\<open>AppSpec\<close>) and the
  settings of an app that are not per release (\<open>AppSettings\<close>), with the defaults the code
  fills in. Field names carry a short prefix, because Isabelle's record fields are global.
\<close>

section \<open>What one release runs\<close>

datatype protocol = Http | H2c | Tcp

record port_spec =
  port_name :: string
  port_number :: nat
  port_protocol :: protocol
  port_public :: bool

record env_var =
  env_name :: string
  env_value :: string

record secret_env =
  secret_env_name :: string
  secret_name :: string

datatype check_kind = Check_Http string | Check_Tcp

record check_spec =
  check_kind :: check_kind
  check_port :: nat
  check_interval_ms :: nat
  check_timeout_ms :: nat

record stop_spec =
  stop_signal :: string
  stop_grace_seconds :: nat

record volume_spec =
  vol_name :: string
  vol_path :: string
  vol_source :: "string option"
  vol_size_gib :: "nat option"
  vol_backup :: bool

record app_spec =
  spec_image :: string
  spec_command :: "string list"
  spec_ports :: "port_spec list"
  spec_memory_mib :: nat
  spec_cpu_millis :: nat
  spec_env :: "env_var list"
  spec_secrets :: "secret_env list"
  spec_check :: "check_spec option"
  spec_stop :: stop_spec
  spec_volumes :: "volume_spec list"

definition stop_default :: stop_spec where
  "stop_default = \<lparr>stop_signal = ''SIGTERM'', stop_grace_seconds = 30\<rparr>"

section \<open>Settings\<close>

record rollout_settings =
  max_surge :: nat
  max_unavailable :: nat
  min_ready_seconds :: nat
  ready_deadline_seconds :: nat
  drain_seconds :: nat

definition rollout_settings_default :: rollout_settings where
  "rollout_settings_default =
     \<lparr>max_surge = 1, max_unavailable = 0, min_ready_seconds = 10,
      ready_deadline_seconds = 300, drain_seconds = 30\<rparr>"

datatype machine_kind = Own | Hosted

definition machine_kind_as_str :: "machine_kind \<Rightarrow> string" where
  "machine_kind_as_str k = (case k of Own \<Rightarrow> ''own'' | Hosted \<Rightarrow> ''hosted'')"

text \<open>
  \<open>Labels\<close> is a \<open>BTreeMap\<close>: an association list kept sorted by key, each key once.
\<close>

type_synonym labels = "(string \<times> string) list"

record placement_rules =
  rule_labels :: labels
  rule_kind :: "machine_kind option"
  rule_spread_by :: "string option"
  rule_near :: "string list"
  rule_apart :: "string list"

definition placement_rules_default :: placement_rules where
  "placement_rules_default =
     \<lparr>rule_labels = [], rule_kind = None, rule_spread_by = None, rule_near = [], rule_apart = []\<rparr>"

record app_settings =
  set_copies :: nat
  set_rollout :: rollout_settings
  set_machines :: "string list"
  set_reschedule_after_seconds :: nat
  set_auto_rollback :: bool
  set_placement :: placement_rules

definition app_settings_default :: app_settings where
  "app_settings_default =
     \<lparr>set_copies = 1, set_rollout = rollout_settings_default, set_machines = [],
      set_reschedule_after_seconds = 120, set_auto_rollback = True,
      set_placement = placement_rules_default\<rparr>"

end
