(* ===== verification/App.thy ===== *)
theory App
  imports App_Spec
begin

text \<open>
  The app aggregate of \<open>grund-domain/src/app/mod.rs\<close>: an app, its numbered releases, where
  its copies run and the rollout in progress. \<open>app_apply\<close> is \<open>mire::Aggregate::apply\<close>,
  \<open>app_handle\<close> is \<open>mire::Command::handle\<close>; both are translated branch by branch.
\<close>

section \<open>Data\<close>

datatype release_source = Dashboard | Api | File | Rollback

record secret_version =
  sv_name :: string
  sv_version :: nat

record external_release =
  forest_organisation :: string
  ext_destination :: string
  ext_project :: string
  ext_intent_id :: uuid
  ext_artifact_id :: uuid
  ext_request_digest :: "nat list"

record release_request =
  req_id :: string
  req_fingerprint :: "nat list"

record release =
  rel_number :: nat
  rel_spec :: app_spec
  rel_image_digest :: string
  rel_platforms :: "string list"
  rel_exposed_ports :: "nat list option"
  rel_secret_versions :: "secret_version list"
  rel_source :: release_source
  rel_rollback_of :: "nat option"
  rel_note :: string
  rel_created_by :: uuid
  rel_created_at :: time
  rel_external_release :: "external_release option"
  rel_request :: "release_request option"

datatype place_reason = Scale | Rolling | ReplaceLost | Spread | Move

datatype drain_reason = Replaced | NoRoom | ScaledDown | NoRelease | LeaseEnded | DrainDeleted

datatype replica_state = Running | Draining

record replica =
  rep_id :: uuid
  rep_slot :: nat
  rep_release :: nat
  rep_machine :: uuid
  rep_placement :: nat
  rep_state :: replica_state
  rep_placed_at :: time
  rep_draining_since :: "time option"

record rollout =
  ro_id :: uuid
  ro_from :: "nat option"
  ro_to :: nat
  ro_started_at :: time
  ro_serial :: bool

record hosted_volume_loss =
  loss_volume :: uuid
  loss_name :: string
  loss_host_name :: string
  loss_at :: time
  loss_snapshot :: "string option"
  loss_empty_accepted :: bool

datatype app_event =
    App_Created uuid string app_settings uuid time
  | StackOwnershipAssigned uuid time
  | Configured app_settings uuid time
  | ReleaseCreated release
  | RolloutStarted uuid "nat option" nat time bool
  | ReplicaPlaced uuid nat nat uuid nat place_reason time
  | ReplicaDraining uuid drain_reason time
  | ReplicaRemoved uuid time
  | ReplicaLost uuid uuid time
  | RolloutSucceeded uuid time
  | RolloutFailed uuid string bool time
  | RolloutSuperseded uuid nat time
  | CurrentReleaseSet nat time
  | App_Deleted uuid time "time option"
  | App_Restored uuid time
  | App_Purged time
  | HostedVolumeLost uuid string string time "string option"
  | HostedVolumeEmptyAccepted uuid uuid time

record app =
  app_exists :: bool
  app_deleted :: bool
  app_purge_after :: "time option"
  app_organisation :: uuid
  app_name :: "string option"
  app_external_owner :: "(string \<times> string \<times> string) option"
  app_stack_owner :: "uuid option"
  app_settings :: app_settings
  app_releases :: "release list"
  app_current_release :: "nat option"
  app_rollout :: "rollout option"
  app_halted :: bool
  app_replicas :: "replica list"
  app_next_placement :: nat
  app_last_spread_move :: "time option"
  app_lost_volumes :: "hosted_volume_loss list"

definition app_default :: app where
  "app_default =
     \<lparr>app_exists = False, app_deleted = False, app_purge_after = None, app_organisation = 0,
      app_name = None, app_external_owner = None, app_stack_owner = None,
      app_settings = app_settings_default, app_releases = [], app_current_release = None,
      app_rollout = None, app_halted = False, app_replicas = [], app_next_placement = 0,
      app_last_spread_move = None, app_lost_volumes = []\<rparr>"

section \<open>Queries\<close>

definition app_target :: "app \<Rightarrow> nat option" where
  "app_target a =
     (if app_halted a \<or> app_deleted a then None
      else or_else (map_option ro_to (app_rollout a)) (app_current_release a))"

definition app_release :: "app \<Rightarrow> nat \<Rightarrow> release option" where
  "app_release a n = List.find (\<lambda>r. rel_number r = n) (app_releases a)"

definition app_latest_release :: "app \<Rightarrow> release option" where
  "app_latest_release a = last_opt (app_releases a)"

definition app_replica :: "app \<Rightarrow> uuid \<Rightarrow> replica option" where
  "app_replica a i = List.find (\<lambda>r. rep_id r = i) (app_replicas a)"

section \<open>Applying an event\<close>

definition owner_of :: "external_release \<Rightarrow> string \<times> string \<times> string" where
  "owner_of x = (forest_organisation x, ext_destination x, ext_project x)"

fun app_apply :: "app \<Rightarrow> app_event \<Rightarrow> app" where
  "app_apply a (App_Created org nm settings _ _) =
     a\<lparr>app_exists := True, app_organisation := org, app_name := Some nm, app_settings := settings\<rparr>"
| "app_apply a (StackOwnershipAssigned stack _) = a\<lparr>app_stack_owner := Some stack\<rparr>"
| "app_apply a (Configured settings _ _) = a\<lparr>app_settings := settings\<rparr>"
| "app_apply a (ReleaseCreated r) =
     (let a = (case rel_external_release r of
                 None \<Rightarrow> a
               | Some origin \<Rightarrow>
                   a\<lparr>app_external_owner :=
                       Some (case app_external_owner a of None \<Rightarrow> owner_of origin | Some ow \<Rightarrow> ow)\<rparr>)
      in a\<lparr>app_releases := app_releases a @ [r], app_halted := False\<rparr>)"
| "app_apply a (RolloutStarted i frm to started serial) =
     a\<lparr>app_rollout := Some \<lparr>ro_id = i, ro_from = frm, ro_to = to, ro_started_at = started,
                            ro_serial = serial\<rparr>\<rparr>"
| "app_apply a (ReplicaPlaced i slot rel machine pl reason at) =
     (let a = a\<lparr>app_replicas := app_replicas a @
                 [\<lparr>rep_id = i, rep_slot = slot, rep_release = rel, rep_machine = machine,
                   rep_placement = pl, rep_state = Running, rep_placed_at = at,
                   rep_draining_since = None\<rparr>],
                app_next_placement := max (app_next_placement a) (u64_add pl 1)\<rparr>
      in if reason = Spread then a\<lparr>app_last_spread_move := Some at\<rparr> else a)"
| "app_apply a (ReplicaDraining i _ at) =
     a\<lparr>app_replicas := update_first (\<lambda>r. rep_id r = i)
         (\<lambda>r. r\<lparr>rep_state := Draining, rep_draining_since := Some at\<rparr>) (app_replicas a)\<rparr>"
| "app_apply a (ReplicaRemoved i _) =
     a\<lparr>app_replicas := filter (\<lambda>r. rep_id r \<noteq> i) (app_replicas a)\<rparr>"
| "app_apply a (ReplicaLost i _ _) =
     a\<lparr>app_replicas := filter (\<lambda>r. rep_id r \<noteq> i) (app_replicas a)\<rparr>"
| "app_apply a (RolloutSucceeded _ _) = a\<lparr>app_rollout := None\<rparr>"
| "app_apply a (RolloutSuperseded _ _ _) = a\<lparr>app_rollout := None\<rparr>"
| "app_apply a (RolloutFailed _ _ rolled_back _) =
     a\<lparr>app_rollout := None, app_halted := \<not> rolled_back\<rparr>"
| "app_apply a (CurrentReleaseSet n _) = a\<lparr>app_current_release := Some n\<rparr>"
| "app_apply a (App_Deleted _ _ purge_after) =
     a\<lparr>app_deleted := True, app_purge_after := purge_after, app_rollout := None\<rparr>"
| "app_apply a (App_Restored _ _) =
     a\<lparr>app_deleted := False, app_purge_after := None, app_halted := False\<rparr>"
| "app_apply a (HostedVolumeLost v nm host at snap) =
     (if \<exists>l \<in> set (app_lost_volumes a). loss_volume l = v then a
      else a\<lparr>app_lost_volumes := app_lost_volumes a @
               [\<lparr>loss_volume = v, loss_name = nm, loss_host_name = host, loss_at = at,
                 loss_snapshot = snap, loss_empty_accepted = False\<rparr>]\<rparr>)"
| "app_apply a (HostedVolumeEmptyAccepted v _ _) =
     a\<lparr>app_lost_volumes := update_first (\<lambda>l. loss_volume l = v)
         (\<lambda>l. l\<lparr>loss_empty_accepted := True\<rparr>) (app_lost_volumes a)\<rparr>"
| "app_apply a (App_Purged _) = a\<lparr>app_purge_after := None\<rparr>"

declare app_apply.simps [simp del]

section \<open>Commands\<close>

record release_args =
  ra_actor :: uuid
  ra_spec :: app_spec
  ra_image_digest :: string
  ra_platforms :: "string list"
  ra_exposed_ports :: "nat list option"
  ra_secret_versions :: "secret_version list"
  ra_source :: release_source
  ra_external_release :: "external_release option"
  ra_request :: "release_request option"
  ra_rollback_of :: "nat option"
  ra_note :: string
  ra_rollout_id :: uuid
  ra_at :: time

datatype app_command =
    App_Create uuid uuid string app_settings time
  | AssignStack uuid time
  | Configure uuid app_settings time
  | Release release_args
  | Restart uuid nat "secret_version list" uuid time
  | App_Delete uuid time time
  | App_Restore uuid time
  | App_Purge time

datatype app_error =
    App_AlreadyExists
  | App_NotFound
  | ReleaseNotFound
  | TooManyReleases
  | ExternalOwnerConflict
  | RequestConflict
  | RestartRollout
  | RestartNoBase
  | RestartStale
  | App_StackOwned uuid

text \<open>The retained request with the same key, if any release carries one.\<close>

definition previous_request :: "app \<Rightarrow> release_request \<Rightarrow> release_request option" where
  "previous_request a rq =
     find_map (\<lambda>r. case rel_request r of
                     None \<Rightarrow> None
                   | Some old \<Rightarrow> if req_id old = req_id rq then Some old else None)
       (app_releases a)"

definition owner_conflict :: "app \<Rightarrow> release_args \<Rightarrow> bool" where
  "owner_conflict a x =
     (case ra_external_release x of
        None \<Rightarrow> False
      | Some origin \<Rightarrow>
          is_some_and (app_external_owner a)
            (\<lambda>(org, dest, proj). org \<noteq> forest_organisation origin \<or>
               dest \<noteq> ext_destination origin \<or> proj \<noteq> ext_project origin))"

definition next_release_number :: "app \<Rightarrow> nat" where
  "next_release_number a =
     (case last_opt (app_releases a) of None \<Rightarrow> 1 | Some r \<Rightarrow> u32_add (rel_number r) 1)"

definition new_release :: "release_args \<Rightarrow> nat \<Rightarrow> release" where
  "new_release x n =
     \<lparr>rel_number = n, rel_spec = ra_spec x, rel_image_digest = ra_image_digest x,
      rel_platforms = ra_platforms x, rel_exposed_ports = ra_exposed_ports x,
      rel_secret_versions = ra_secret_versions x, rel_source = ra_source x,
      rel_rollback_of = ra_rollback_of x, rel_note = ra_note x, rel_created_by = ra_actor x,
      rel_created_at = ra_at x, rel_external_release = ra_external_release x,
      rel_request = ra_request x\<rparr>"

definition make_release :: "release_args \<Rightarrow> app \<Rightarrow> app_error + app_event list" where
  "make_release x a =
     (if owner_conflict a x then Inl ExternalOwnerConflict
      else if is_some_and (ra_rollback_of x) (\<lambda>n. app_release a n = None)
        then Inl ReleaseNotFound
      else
        let number = next_release_number a in
        if number > 100000 then Inl TooManyReleases
        else Inr ([ReleaseCreated (new_release x number)]
               @ (case app_rollout a of
                    None \<Rightarrow> []
                  | Some ro \<Rightarrow> [RolloutSuperseded (ro_id ro) number (ra_at x)])
               @ [RolloutStarted (ra_rollout_id x) (app_current_release a) number (ra_at x)
                    False]))"

definition handle_release :: "release_args \<Rightarrow> app \<Rightarrow> app_error + app_event list" where
  "handle_release x a =
     (case ra_request x of
        None \<Rightarrow> make_release x a
      | Some rq \<Rightarrow>
          (case previous_request a rq of
             None \<Rightarrow> make_release x a
           | Some previous \<Rightarrow>
               if req_fingerprint previous = req_fingerprint rq then Inr []
               else Inl RequestConflict))"

definition serialise_rollout :: "app_event \<Rightarrow> app_event" where
  "serialise_rollout e =
     (case e of RolloutStarted i frm to at _ \<Rightarrow> RolloutStarted i frm to at True | _ \<Rightarrow> e)"

definition restart_args ::
  "uuid \<Rightarrow> nat \<Rightarrow> secret_version list \<Rightarrow> uuid \<Rightarrow> time \<Rightarrow> release \<Rightarrow> release_args" where
  "restart_args actor expected secrets rollout at running =
     \<lparr>ra_actor = actor, ra_spec = rel_spec running, ra_image_digest = rel_image_digest running,
      ra_platforms = rel_platforms running, ra_exposed_ports = rel_exposed_ports running,
      ra_secret_versions = secrets, ra_source = Dashboard, ra_external_release = None,
      ra_request = None, ra_rollback_of = Some expected, ra_note = ''Restart'',
      ra_rollout_id = rollout, ra_at = at\<rparr>"

definition handle_restart ::
  "uuid \<Rightarrow> nat \<Rightarrow> secret_version list \<Rightarrow> uuid \<Rightarrow> time \<Rightarrow> app \<Rightarrow> app_error + app_event list" where
  "handle_restart actor expected secrets rollout at a =
     (if app_rollout a \<noteq> None then Inl RestartRollout
      else if app_halted a \<or> app_current_release a = None then Inl RestartNoBase
      else if app_current_release a \<noteq> Some expected then Inl RestartStale
      else
        (case app_release a expected of
           None \<Rightarrow> Inl RestartNoBase
         | Some running \<Rightarrow>
             (case handle_release (restart_args actor expected secrets rollout at running) a of
                Inl e \<Rightarrow> Inl e
              | Inr es \<Rightarrow> Inr (map serialise_rollout es))))"

definition handle_delete :: "uuid \<Rightarrow> time \<Rightarrow> time \<Rightarrow> app \<Rightarrow> app_error + app_event list" where
  "handle_delete actor at purge_after a =
     Inr (App_Deleted actor at (Some purge_after)
            # map (\<lambda>r. ReplicaRemoved (rep_id r) at) (app_replicas a))"

definition handle_deleted :: "app_command \<Rightarrow> app \<Rightarrow> app_error + app_event list" where
  "handle_deleted c a =
     (case c of
        App_Restore actor at \<Rightarrow>
          if is_some_and (app_purge_after a) (\<lambda>due. at < due) then Inr [App_Restored actor at]
          else Inl App_NotFound
      | App_Purge at \<Rightarrow>
          if is_some_and (app_purge_after a) (\<lambda>due. at \<ge> due) then Inr [App_Purged at]
          else Inl App_NotFound
      | _ \<Rightarrow> Inl App_NotFound)"

text \<open>
  The commands of an app that exists and is not deleted. The code marks the \<open>Create\<close> branch
  unreachable, because \<open>handle\<close> has answered it before; so does \<open>app_handle\<close> below.
\<close>

definition handle_live :: "app_command \<Rightarrow> app \<Rightarrow> app_error + app_event list" where
  "handle_live c a =
     (case c of
        App_Create _ _ _ _ _ \<Rightarrow> Inl App_AlreadyExists
      | AssignStack stack at \<Rightarrow>
          (case app_stack_owner a of
             Some owner \<Rightarrow> if owner = stack then Inr [] else Inl (App_StackOwned owner)
           | None \<Rightarrow> Inr [StackOwnershipAssigned stack at])
      | Configure actor settings at \<Rightarrow>
          if app_settings a = settings then Inr [] else Inr [Configured settings actor at]
      | Restart actor expected secrets rollout at \<Rightarrow>
          handle_restart actor expected secrets rollout at a
      | Release x \<Rightarrow> handle_release x a
      | App_Delete actor at purge_after \<Rightarrow> handle_delete actor at purge_after a
      | App_Restore _ _ \<Rightarrow> Inl App_NotFound
      | App_Purge _ \<Rightarrow> Inl App_NotFound)"

definition app_handle :: "app_command \<Rightarrow> app \<Rightarrow> app_error + app_event list" where
  "app_handle c a =
     (case c of
        App_Create actor org nm settings at \<Rightarrow>
          if app_exists a then Inl App_AlreadyExists
          else Inr [App_Created org nm settings actor at]
      | _ \<Rightarrow>
          if \<not> app_exists a then Inl App_NotFound
          else if app_deleted a then handle_deleted c a
          else handle_live c a)"

end
