(* ===== verification/App_Inv.thy ===== *)
theory App_Inv
  imports App
begin

text \<open>
  What makes an app's stream consistent. \<open>app_wf\<close> is the invariant of the folded state:
  releases are numbered 1, 2, 3, ...; everything that names a release names one that exists; no
  replica or placement number occurs twice; an external owner owns every release it made; a
  request key names one release. \<open>event_ok\<close> says when an event may follow a state, and
  \<open>app_apply_wf\<close> that such an event keeps the invariant. The commands and the reconciler are then
  shown to emit only such events, one at a time, over the state they have built so far.
\<close>

section \<open>The invariant\<close>

definition release_numbers :: "app \<Rightarrow> nat list" where
  "release_numbers a = map rel_number (app_releases a)"

definition requests :: "app \<Rightarrow> release_request list" where
  "requests a = List.map_filter rel_request (app_releases a)"

definition releases_wf :: "app \<Rightarrow> bool" where
  "releases_wf a \<longleftrightarrow>
     release_numbers a = [1..<Suc (length (app_releases a))] \<and>
     length (app_releases a) \<le> 100000 \<and>
     distinct (map req_id (requests a)) \<and>
     (\<forall>r\<in>set (app_releases a). \<forall>x. rel_external_release r = Some x \<longrightarrow>
        app_external_owner a = Some (owner_of x))"

definition rollout_wf :: "app \<Rightarrow> bool" where
  "rollout_wf a \<longleftrightarrow>
     (\<forall>n. app_current_release a = Some n \<longrightarrow> n \<in> set (release_numbers a)) \<and>
     (\<forall>ro. app_rollout a = Some ro \<longrightarrow> ro_to ro \<in> set (release_numbers a) \<and>
        (\<forall>n. ro_from ro = Some n \<longrightarrow> n \<in> set (release_numbers a)))"

definition replica_wf :: "app \<Rightarrow> replica \<Rightarrow> bool" where
  "replica_wf a r \<longleftrightarrow>
     rep_release r \<in> set (release_numbers a) \<and>
     rep_placement r < app_next_placement a \<and>
     (rep_state r = Draining \<longleftrightarrow> rep_draining_since r \<noteq> None)"

definition replicas_wf :: "app \<Rightarrow> bool" where
  "replicas_wf a \<longleftrightarrow>
     distinct (map rep_id (app_replicas a)) \<and>
     distinct (map rep_placement (app_replicas a)) \<and>
     (\<forall>r\<in>set (app_replicas a). replica_wf a r)"

definition lifecycle_wf :: "app \<Rightarrow> bool" where
  "lifecycle_wf a \<longleftrightarrow>
     (\<not> app_exists a \<longrightarrow> app_releases a = [] \<and> \<not> app_deleted a) \<and>
     (app_deleted a \<longrightarrow> app_rollout a = None) \<and>
     (app_purge_after a \<noteq> None \<longrightarrow> app_deleted a) \<and>
     distinct (map loss_volume (app_lost_volumes a))"

definition app_wf :: "app \<Rightarrow> bool" where
  "app_wf a \<longleftrightarrow> releases_wf a \<and> rollout_wf a \<and> replicas_wf a \<and> lifecycle_wf a"

lemmas app_wf_defs =
  app_wf_def releases_wf_def rollout_wf_def replicas_wf_def replica_wf_def lifecycle_wf_def

lemma app_wf_default: "app_wf app_default"
  by (simp add: app_wf_defs app_default_def release_numbers_def requests_def map_filter_simps)

section \<open>Looking releases up\<close>

lemma app_release_SomeD:
  "app_release a n = Some r \<Longrightarrow> r \<in> set (app_releases a) \<and> rel_number r = n"
  by (auto simp: app_release_def dest: find_SomeD)

lemma app_release_None_iff: "app_release a n = None \<longleftrightarrow> n \<notin> set (release_numbers a)"
  by (auto simp: app_release_def release_numbers_def find_None_iff)

lemma app_release_SomeD': "app_release a n = Some r \<Longrightarrow> n \<in> set (release_numbers a)"
  using app_release_None_iff[of a n] by auto

lemma release_numbers_iff:
  "releases_wf a \<Longrightarrow> n \<in> set (release_numbers a) \<longleftrightarrow> 1 \<le> n \<and> n \<le> length (app_releases a)"
  by (auto simp: releases_wf_def)

lemma next_release_number_eq:
  assumes "releases_wf a"
  shows "next_release_number a = Suc (length (app_releases a))"
proof (cases "app_releases a = []")
  case True
  then show ?thesis by (simp add: next_release_number_def last_opt_def)
next
  case False
  let ?n = "length (app_releases a)"
  have "rel_number (last (app_releases a)) = last (release_numbers a)"
    using False by (simp add: release_numbers_def last_map)
  also have "\<dots> = last [1..<Suc ?n]"
    using assms by (simp only: releases_wf_def)
  also have "\<dots> = ?n"
    using False by (cases "app_releases a") simp_all
  finally have "rel_number (last (app_releases a)) = ?n" .
  moreover have "?n \<le> 100000" using assms by (simp add: releases_wf_def)
  ultimately show ?thesis
    using False by (simp add: next_release_number_def last_opt_def)
qed

lemma previous_request_None_iff:
  "previous_request a q = None \<longleftrightarrow> req_id q \<notin> req_id ` set (requests a)"
  by (auto simp: previous_request_def find_map_None_iff requests_def map_filter_def image_iff
      split: option.splits)

section \<open>Events that may follow a state\<close>

fun event_ok :: "app \<Rightarrow> app_event \<Rightarrow> bool" where
  "event_ok a (App_Created _ _ _ _ _) \<longleftrightarrow> \<not> app_exists a"
| "event_ok a (ReleaseCreated r) \<longleftrightarrow>
     app_exists a \<and> rel_number r = Suc (length (app_releases a)) \<and>
     length (app_releases a) < 100000 \<and>
     (\<forall>x. rel_external_release r = Some x \<longrightarrow>
        app_external_owner a = None \<or> app_external_owner a = Some (owner_of x)) \<and>
     (\<forall>q. rel_request r = Some q \<longrightarrow> req_id q \<notin> req_id ` set (requests a))"
| "event_ok a (RolloutStarted _ frm to _ _) \<longleftrightarrow>
     \<not> app_deleted a \<and> to \<in> set (release_numbers a) \<and>
     (\<forall>n. frm = Some n \<longrightarrow> n \<in> set (release_numbers a))"
| "event_ok a (ReplicaPlaced i _ rel _ pl _ _) \<longleftrightarrow>
     i \<notin> rep_id ` set (app_replicas a) \<and> rel \<in> set (release_numbers a) \<and>
     pl = app_next_placement a \<and> pl + 1 < 2 ^ 64"
| "event_ok a (CurrentReleaseSet n _) \<longleftrightarrow> n \<in> set (release_numbers a)"
| "event_ok a (App_Deleted _ _ _) \<longleftrightarrow> app_exists a"
| "event_ok a (ReplicaDraining i _ _) \<longleftrightarrow> i \<in> rep_id ` set (app_replicas a)"
| "event_ok a _ \<longleftrightarrow> True"

fun events_ok :: "app \<Rightarrow> app_event list \<Rightarrow> bool" where
  "events_ok a [] \<longleftrightarrow> True"
| "events_ok a (e # es) \<longleftrightarrow> event_ok a e \<and> events_ok (app_apply a e) es"

lemma events_ok_append [simp]:
  "events_ok a (es @ fs) \<longleftrightarrow> events_ok a es \<and> events_ok (fold_events app_apply a es) fs"
  by (induction es arbitrary: a) auto

text \<open>
  One equation per field of the state: what an event does to it. The components read the state
  through these, so \<open>app_apply\<close> itself is not unfolded again.
\<close>

lemma releases_apply:
  "app_releases (app_apply a e) =
     app_releases a @ (case e of ReleaseCreated r \<Rightarrow> [r] | _ \<Rightarrow> [])"
  by (cases e) (auto simp: app_apply.simps Let_def split: option.splits)

lemma release_numbers_apply:
  "release_numbers (app_apply a e) =
     release_numbers a @ (case e of ReleaseCreated r \<Rightarrow> [rel_number r] | _ \<Rightarrow> [])"
  by (simp add: release_numbers_def releases_apply split: app_event.splits)

lemma requests_apply:
  "requests (app_apply a e) =
     requests a @ (case e of ReleaseCreated r \<Rightarrow>
       (case rel_request r of None \<Rightarrow> [] | Some q \<Rightarrow> [q]) | _ \<Rightarrow> [])"
  by (simp add: requests_def releases_apply map_filter_def split: app_event.splits option.splits)

lemma external_owner_apply:
  "app_external_owner (app_apply a e) =
     (case e of ReleaseCreated r \<Rightarrow>
        (case rel_external_release r of
           None \<Rightarrow> app_external_owner a
         | Some x \<Rightarrow> Some (case app_external_owner a of None \<Rightarrow> owner_of x | Some w \<Rightarrow> w))
      | _ \<Rightarrow> app_external_owner a)"
  by (cases e) (auto simp: app_apply.simps Let_def split: option.splits)

lemma exists_apply:
  "app_exists (app_apply a e) \<longleftrightarrow>
     app_exists a \<or> (case e of App_Created _ _ _ _ _ \<Rightarrow> True | _ \<Rightarrow> False)"
  by (cases e) (auto simp: app_apply.simps Let_def split: option.splits)

lemma deleted_apply:
  "app_deleted (app_apply a e) \<longleftrightarrow>
     (case e of App_Deleted _ _ _ \<Rightarrow> True | App_Restored _ _ \<Rightarrow> False | _ \<Rightarrow> app_deleted a)"
  by (cases e) (auto simp: app_apply.simps Let_def split: option.splits)

lemma purge_after_apply:
  "app_purge_after (app_apply a e) =
     (case e of App_Deleted _ _ p \<Rightarrow> p | App_Restored _ _ \<Rightarrow> None | App_Purged _ \<Rightarrow> None
      | _ \<Rightarrow> app_purge_after a)"
  by (cases e) (auto simp: app_apply.simps Let_def split: option.splits)

lemma settings_apply:
  "app_settings (app_apply a e) =
     (case e of App_Created _ _ s _ _ \<Rightarrow> s | Configured s _ _ \<Rightarrow> s | _ \<Rightarrow> app_settings a)"
  by (cases e) (auto simp: app_apply.simps Let_def split: option.splits)

lemma current_release_apply:
  "app_current_release (app_apply a e) =
     (case e of CurrentReleaseSet n _ \<Rightarrow> Some n | _ \<Rightarrow> app_current_release a)"
  by (cases e) (auto simp: app_apply.simps Let_def split: option.splits)

lemma rollout_apply:
  "app_rollout (app_apply a e) =
     (case e of
        RolloutStarted i frm to started serial \<Rightarrow>
          Some \<lparr>ro_id = i, ro_from = frm, ro_to = to, ro_started_at = started, ro_serial = serial\<rparr>
      | RolloutSucceeded _ _ \<Rightarrow> None | RolloutSuperseded _ _ _ \<Rightarrow> None
      | RolloutFailed _ _ _ _ \<Rightarrow> None | App_Deleted _ _ _ \<Rightarrow> None
      | _ \<Rightarrow> app_rollout a)"
  by (cases e) (auto simp: app_apply.simps Let_def split: option.splits)

lemma halted_apply:
  "app_halted (app_apply a e) \<longleftrightarrow>
     (case e of ReleaseCreated _ \<Rightarrow> False | RolloutFailed _ _ back _ \<Rightarrow> \<not> back
      | App_Restored _ _ \<Rightarrow> False | _ \<Rightarrow> app_halted a)"
  by (cases e) (auto simp: app_apply.simps Let_def split: option.splits)

lemma next_placement_apply:
  "app_next_placement (app_apply a e) =
     (case e of ReplicaPlaced _ _ _ _ pl _ _ \<Rightarrow> max (app_next_placement a) (u64_add pl 1)
      | _ \<Rightarrow> app_next_placement a)"
  by (cases e) (auto simp: app_apply.simps Let_def split: option.splits)

lemma lost_volumes_apply:
  "map loss_volume (app_lost_volumes (app_apply a e)) =
     map loss_volume (app_lost_volumes a) @
     (case e of HostedVolumeLost v _ _ _ _ \<Rightarrow>
        (if v \<in> loss_volume ` set (app_lost_volumes a) then [] else [v]) | _ \<Rightarrow> [])"
  by (cases e) (auto simp: app_apply.simps Let_def map_update_first split: option.splits)

text \<open>What each event does to the list of replicas, in one place.\<close>

definition placed_replica :: "uuid \<Rightarrow> nat \<Rightarrow> nat \<Rightarrow> uuid \<Rightarrow> nat \<Rightarrow> time \<Rightarrow> replica" where
  "placed_replica i slot rel machine pl at =
     \<lparr>rep_id = i, rep_slot = slot, rep_release = rel, rep_machine = machine, rep_placement = pl,
      rep_state = Running, rep_placed_at = at, rep_draining_since = None\<rparr>"

lemma placed_replica_simps [simp]:
  "rep_id (placed_replica i slot rel machine pl at) = i"
  "rep_slot (placed_replica i slot rel machine pl at) = slot"
  "rep_release (placed_replica i slot rel machine pl at) = rel"
  "rep_machine (placed_replica i slot rel machine pl at) = machine"
  "rep_placement (placed_replica i slot rel machine pl at) = pl"
  "rep_state (placed_replica i slot rel machine pl at) = Running"
  "rep_placed_at (placed_replica i slot rel machine pl at) = at"
  "rep_draining_since (placed_replica i slot rel machine pl at) = None"
  by (simp_all add: placed_replica_def)

definition drained :: "time \<Rightarrow> replica \<Rightarrow> replica" where
  "drained at r = r\<lparr>rep_state := Draining, rep_draining_since := Some at\<rparr>"

lemma drained_simps [simp]:
  "rep_id (drained at r) = rep_id r" "rep_slot (drained at r) = rep_slot r"
  "rep_release (drained at r) = rep_release r" "rep_machine (drained at r) = rep_machine r"
  "rep_placement (drained at r) = rep_placement r" "rep_state (drained at r) = Draining"
  "rep_placed_at (drained at r) = rep_placed_at r" "rep_draining_since (drained at r) = Some at"
  by (simp_all add: drained_def)

lemma replicas_apply:
  "app_replicas (app_apply a e) =
     (case e of
        ReplicaPlaced i slot rel machine pl _ at \<Rightarrow>
          app_replicas a @ [placed_replica i slot rel machine pl at]
      | ReplicaDraining i _ at \<Rightarrow>
          update_first (\<lambda>r. rep_id r = i) (drained at) (app_replicas a)
      | ReplicaRemoved i _ \<Rightarrow> filter (\<lambda>r. rep_id r \<noteq> i) (app_replicas a)
      | ReplicaLost i _ _ \<Rightarrow> filter (\<lambda>r. rep_id r \<noteq> i) (app_replicas a)
      | _ \<Rightarrow> app_replicas a)"
  by (cases e) (auto simp: app_apply.simps Let_def placed_replica_def drained_def [abs_def] split: option.splits)

lemmas app_apply_fields =
  releases_apply release_numbers_apply requests_apply external_owner_apply exists_apply
  deleted_apply purge_after_apply settings_apply current_release_apply rollout_apply halted_apply
  next_placement_apply lost_volumes_apply replicas_apply

lemma releases_wf_apply: "releases_wf a \<Longrightarrow> event_ok a e \<Longrightarrow> releases_wf (app_apply a e)"
proof (cases "\<exists>r. e = ReleaseCreated r")
  case True
  assume wf: "releases_wf a" and ok: "event_ok a e"
  from True obtain r where e: "e = ReleaseCreated r" ..
  have "\<forall>s\<in>set (app_releases (app_apply a e)). \<forall>x. rel_external_release s = Some x \<longrightarrow>
      app_external_owner (app_apply a e) = Some (owner_of x)"
    using wf ok unfolding releases_wf_def releases_apply external_owner_apply
    by (auto simp: e split: option.splits)
  moreover have "distinct (map req_id (requests (app_apply a e)))"
    using wf ok by (auto simp: e releases_wf_def requests_apply split: option.splits)
  ultimately show ?thesis
    using wf ok by (simp add: e releases_wf_def release_numbers_apply releases_apply)
next
  case False
  assume wf: "releases_wf a"
  from False have "app_releases (app_apply a e) = app_releases a"
    "release_numbers (app_apply a e) = release_numbers a"
    "requests (app_apply a e) = requests a"
    "app_external_owner (app_apply a e) = app_external_owner a"
    by (cases e, auto simp: app_apply_fields)+
  with wf show ?thesis by (simp add: releases_wf_def)
qed

lemma rollout_wf_apply: "rollout_wf a \<Longrightarrow> event_ok a e \<Longrightarrow> rollout_wf (app_apply a e)"
  unfolding rollout_wf_def release_numbers_apply rollout_apply current_release_apply
  by (cases e) auto

lemma lifecycle_wf_apply: "app_wf a \<Longrightarrow> event_ok a e \<Longrightarrow> lifecycle_wf (app_apply a e)"
  unfolding lifecycle_wf_def lost_volumes_apply
  by (cases e) (auto simp: app_apply_fields app_wf_def lifecycle_wf_def rollout_wf_def
      release_numbers_def)

lemma replica_wf_mono:
  "replica_wf a r \<Longrightarrow> set (release_numbers a) \<subseteq> set (release_numbers b) \<Longrightarrow>
   app_next_placement a \<le> app_next_placement b \<Longrightarrow> replica_wf b r"
  by (auto simp: replica_wf_def)

lemma distinct_map_filter_key: "distinct (map f xs) \<Longrightarrow> distinct (map f (filter p xs))"
  by (induction xs) auto

lemma replicas_wf_apply:
  assumes wf: "replicas_wf a" and ok: "event_ok a e"
  shows "replicas_wf (app_apply a e)"
proof -
  have mono: "set (release_numbers a) \<subseteq> set (release_numbers (app_apply a e))"
    "app_next_placement a \<le> app_next_placement (app_apply a e)"
    by (auto simp: next_placement_apply release_numbers_apply split: app_event.splits)
  have old: "\<And>r. r \<in> set (app_replicas a) \<Longrightarrow> replica_wf (app_apply a e) r"
    using wf mono by (auto simp: replicas_wf_def intro: replica_wf_mono)
  have "distinct (map rep_id (app_replicas (app_apply a e)))"
    using wf ok unfolding replicas_apply replicas_wf_def
    by (cases e) (auto simp: map_update_first distinct_map_filter_key)
  moreover have "distinct (map rep_placement (app_replicas (app_apply a e)))"
    using wf ok unfolding replicas_apply replicas_wf_def
    by (cases e) (auto simp: map_update_first distinct_map_filter_key replica_wf_def)
  moreover have "replica_wf (app_apply a e) r" if r: "r \<in> set (app_replicas (app_apply a e))" for r
  proof (cases "r \<in> set (app_replicas a)")
    case False
    with r ok show ?thesis
      unfolding replicas_apply using old
      by (cases e)
        (auto dest!: set_update_firstD
          simp: replica_wf_def next_placement_apply release_numbers_apply)
  qed (rule old)
  ultimately show ?thesis by (simp add: replicas_wf_def)
qed

lemma app_apply_wf [step_inv]: "app_wf a \<Longrightarrow> event_ok a e \<Longrightarrow> app_wf (app_apply a e)"
  using releases_wf_apply rollout_wf_apply replicas_wf_apply lifecycle_wf_apply
  by (simp add: app_wf_def)

lemma events_ok_wf: "app_wf a \<Longrightarrow> events_ok a es \<Longrightarrow> app_wf (fold_events app_apply a es)"
  by (induction es arbitrary: a) (auto intro: app_apply_wf)

end
