(* ===== verification/App_Commands.thy ===== *)
theory App_Commands
  imports App_Inv
begin

text \<open>
  What the commands of an app do: every command's events may follow the state they were decided
  on, so the invariant holds in every state a stream of commands can reach; and, command by
  command, the behaviour its callers rely on (numbering, replay of a request, the external owner,
  the deletion window).
\<close>

definition app_inv :: "app \<Rightarrow> bool" where
  "app_inv a \<longleftrightarrow> app_wf a \<and> (app_deleted a \<longrightarrow> app_replicas a = [])"

section \<open>Events of a command\<close>

lemma handle_release_cases:
  assumes "handle_release x a = Inr es"
  obtains (replay) "es = []"
    | (new) "make_release x a = Inr es"
        "\<And>q. ra_request x = Some q \<Longrightarrow> previous_request a q = None"
  using assms by (auto simp: handle_release_def split: option.splits if_splits)

lemma make_release_InrD:
  assumes "make_release x a = Inr es"
  shows "\<not> owner_conflict a x"
    and "\<And>n. ra_rollback_of x = Some n \<Longrightarrow> app_release a n \<noteq> None"
    and "next_release_number a \<le> 100000"
    and "es = [ReleaseCreated (new_release x (next_release_number a))]
           @ (case app_rollout a of None \<Rightarrow> []
              | Some ro \<Rightarrow> [RolloutSuperseded (ro_id ro) (next_release_number a) (ra_at x)])
           @ [RolloutStarted (ra_rollout_id x) (app_current_release a) (next_release_number a)
                (ra_at x) False]"
  using assms by (auto simp: make_release_def Let_def split: if_splits)

lemma new_release_simps [simp]:
  "rel_number (new_release x n) = n" "rel_spec (new_release x n) = ra_spec x"
  "rel_image_digest (new_release x n) = ra_image_digest x"
  "rel_secret_versions (new_release x n) = ra_secret_versions x"
  "rel_external_release (new_release x n) = ra_external_release x"
  "rel_request (new_release x n) = ra_request x"
  "rel_rollback_of (new_release x n) = ra_rollback_of x"
  by (simp_all add: new_release_def)

lemma owner_conflict_iff:
  "owner_conflict a x \<longleftrightarrow>
     (\<exists>g w. ra_external_release x = Some g \<and> app_external_owner a = Some w \<and> w \<noteq> owner_of g)"
  by (auto simp: owner_conflict_def owner_of_def is_some_and_iff split: option.splits)

lemma make_release_ok:
  assumes wf: "app_wf a" and live: "app_exists a" "\<not> app_deleted a"
    and new: "\<And>q. ra_request x = Some q \<Longrightarrow> previous_request a q = None"
    and h: "make_release x a = Inr es"
  shows "events_ok a es"
proof -
  let ?n = "next_release_number a"
  have n: "?n = Suc (length (app_releases a))"
    using wf by (simp add: app_wf_def next_release_number_eq)
  have created: "event_ok a (ReleaseCreated (new_release x ?n))"
    using make_release_InrD[OF h] new n live
    by (cases "app_external_owner a") (auto simp: owner_conflict_iff previous_request_None_iff)
  have cur: "\<And>m. app_current_release a = Some m \<Longrightarrow> m \<in> set (release_numbers a)"
    using wf by (simp add: app_wf_def rollout_wf_def)
  show ?thesis
    unfolding make_release_InrD(4)[OF h] using created live cur
    by (auto simp: app_apply_fields split: option.splits)
qed

lemma handle_restart_InrD:
  assumes "handle_restart actor expected secrets ro at a = Inr es"
  obtains running where "app_rollout a = None" "app_current_release a = Some expected"
    "\<not> app_halted a" "app_release a expected = Some running"
    "es = [ReleaseCreated (new_release (restart_args actor expected secrets ro at running)
             (next_release_number a)),
           RolloutStarted ro (Some expected) (next_release_number a) at True]"
    "make_release (restart_args actor expected secrets ro at running) a =
       Inr [ReleaseCreated (new_release (restart_args actor expected secrets ro at running)
             (next_release_number a)),
           RolloutStarted ro (Some expected) (next_release_number a) at False]"
proof -
  from assms obtain running es0 where h: "app_rollout a = None" "\<not> app_halted a"
      "app_current_release a = Some expected" "app_release a expected = Some running"
    and rel: "handle_release (restart_args actor expected secrets ro at running) a = Inr es0"
    and es: "es = map serialise_rollout es0"
    by (auto simp: handle_restart_def split: if_splits option.splits sum.splits)
  have mk: "make_release (restart_args actor expected secrets ro at running) a = Inr es0"
    using rel by (simp add: handle_release_def restart_args_def)
  have es0: "es0 = [ReleaseCreated (new_release (restart_args actor expected secrets ro at running)
             (next_release_number a)),
           RolloutStarted ro (Some expected) (next_release_number a) at False]"
    using make_release_InrD(4)[OF mk] h by (simp add: restart_args_def)
  show thesis
    using that[of running] h mk es by (simp add: es0 serialise_rollout_def)
qed

lemma handle_release_ok:
  "app_wf a \<Longrightarrow> app_exists a \<Longrightarrow> \<not> app_deleted a \<Longrightarrow> handle_release x a = Inr es \<Longrightarrow>
   events_ok a es"
  by (erule handle_release_cases) (auto intro: make_release_ok)

lemma handle_restart_ok:
  assumes wf: "app_wf a" and live: "app_exists a" "\<not> app_deleted a"
    and h: "handle_restart actor expected secrets ro at a = Inr es"
  shows "events_ok a es"
proof -
  from h obtain running where es: "es = [ReleaseCreated (new_release
        (restart_args actor expected secrets ro at running) (next_release_number a)),
      RolloutStarted ro (Some expected) (next_release_number a) at True]"
    and mk: "make_release (restart_args actor expected secrets ro at running) a =
       Inr [ReleaseCreated (new_release (restart_args actor expected secrets ro at running)
             (next_release_number a)),
           RolloutStarted ro (Some expected) (next_release_number a) at False]"
    by (rule handle_restart_InrD)
  have "events_ok a [ReleaseCreated (new_release (restart_args actor expected secrets ro at running)
             (next_release_number a)),
           RolloutStarted ro (Some expected) (next_release_number a) at False]"
    by (rule make_release_ok[OF wf live _ mk]) (simp add: restart_args_def)
  then show ?thesis unfolding es events_ok.simps event_ok.simps by blast
qed

lemma events_ok_removals:
  "events_ok a (map (\<lambda>i. ReplicaRemoved i at) is)"
  by (induction "is" arbitrary: a) auto

lemma removals_replicas:
  "app_replicas (fold_events app_apply a (map (\<lambda>i. ReplicaRemoved i at) is)) =
     filter (\<lambda>r. rep_id r \<notin> set is) (app_replicas a)"
  by (induction "is" arbitrary: a) (auto simp: replicas_apply conj_commute)

lemma removals_frame [frame]:
  "app_deleted (fold_events app_apply a (map (\<lambda>i. ReplicaRemoved i at) is)) = app_deleted a"
  "app_purge_after (fold_events app_apply a (map (\<lambda>i. ReplicaRemoved i at) is)) = app_purge_after a"
  "app_exists (fold_events app_apply a (map (\<lambda>i. ReplicaRemoved i at) is)) = app_exists a"
  "app_releases (fold_events app_apply a (map (\<lambda>i. ReplicaRemoved i at) is)) = app_releases a"
  "app_current_release (fold_events app_apply a (map (\<lambda>i. ReplicaRemoved i at) is)) =
     app_current_release a"
  "app_settings (fold_events app_apply a (map (\<lambda>i. ReplicaRemoved i at) is)) = app_settings a"
  "app_rollout (fold_events app_apply a (map (\<lambda>i. ReplicaRemoved i at) is)) = app_rollout a"
  by (induction "is" arbitrary: a; simp add: app_apply_fields)+

lemma delete_events:
  "handle_delete actor at due a =
     Inr (App_Deleted actor at (Some due) # map (\<lambda>i. ReplicaRemoved i at) (map rep_id (app_replicas a)))"
  by (simp add: handle_delete_def)

lemma app_handle_cases:
  assumes "app_handle c a = Inr es"
  obtains (create) actor org nm s at where "c = App_Create actor org nm s at" "\<not> app_exists a"
      "es = [App_Created org nm s actor at]"
    | (deleted) "app_exists a" "app_deleted a" "handle_deleted c a = Inr es"
    | (live) "app_exists a" "\<not> app_deleted a" "handle_live c a = Inr es"
  using assms by (cases c) (auto simp: app_handle_def split: if_splits)

lemma handle_deleted_cases:
  assumes "handle_deleted c a = Inr es"
  obtains (restore) actor at due where "c = App_Restore actor at" "app_purge_after a = Some due"
      "at < due" "es = [App_Restored actor at]"
    | (purge) at due where "c = App_Purge at" "app_purge_after a = Some due" "due \<le> at"
      "es = [App_Purged at]"
  using assms
  by (cases c) (auto simp: handle_deleted_def is_some_and_iff split: if_splits option.splits)

lemma handle_live_cases:
  assumes "handle_live c a = Inr es"
  obtains (nothing) "es = []"
    | (assign) stack at where "c = AssignStack stack at" "app_stack_owner a = None"
        "es = [StackOwnershipAssigned stack at]"
    | (configure) actor s at where "c = Configure actor s at" "es = [Configured s actor at]"
    | (release) x where "c = Release x" "handle_release x a = Inr es"
    | (restart) actor n secrets ro at where "c = Restart actor n secrets ro at"
        "handle_restart actor n secrets ro at a = Inr es"
    | (delete) actor at due where "c = App_Delete actor at due"
        "handle_delete actor at due a = Inr es"
  using assms by (cases c) (auto simp: handle_live_def split: if_splits option.splits)

lemma handle_live_ok:
  assumes "app_wf a" "app_exists a" "\<not> app_deleted a" "handle_live c a = Inr es"
  shows "events_ok a es"
  using assms(4)
proof (cases rule: handle_live_cases)
  case (delete actor at due)
  then show ?thesis using assms by (auto simp: delete_events events_ok_removals simp del: map_map)
qed (use assms in \<open>auto intro: handle_release_ok handle_restart_ok\<close>)

lemma app_handle_ok [step_inv]: "app_wf a \<Longrightarrow> app_handle c a = Inr es \<Longrightarrow> events_ok a es"
  by (erule app_handle_cases)
    (auto intro: handle_live_ok elim!: handle_deleted_cases)

lemma replicas_release_events:
  "make_release x a = Inr es \<Longrightarrow> \<not> app_deleted a \<Longrightarrow>
   \<not> app_deleted (fold_events app_apply a es)"
  by (frule make_release_InrD(4)) (auto simp: app_apply_fields split: option.splits)

lemma handle_release_not_deleted:
  "handle_release x a = Inr es \<Longrightarrow> \<not> app_deleted a \<Longrightarrow>
   \<not> app_deleted (fold_events app_apply a es)"
  by (erule handle_release_cases) (auto dest: replicas_release_events)

lemma handle_restart_not_deleted:
  "handle_restart actor n secrets ro at a = Inr es \<Longrightarrow> \<not> app_deleted a \<Longrightarrow>
   \<not> app_deleted (fold_events app_apply a es)"
  by (erule handle_restart_InrD) (auto simp: app_apply_fields)

lemma app_handle_deleted_empty:
  assumes inv: "app_inv a" and h: "app_handle c a = Inr es"
    and del: "app_deleted (fold_events app_apply a es)"
  shows "app_replicas (fold_events app_apply a es) = []"
  using h
proof (cases rule: app_handle_cases)
  case create
  with inv del show ?thesis by (auto simp: app_inv_def app_wf_def lifecycle_wf_def app_apply_fields)
next
  case deleted
  from deleted(3) show ?thesis
    by (cases rule: handle_deleted_cases) (use inv deleted in \<open>auto simp: app_inv_def app_apply_fields\<close>)
next
  case live
  from live(3) show ?thesis
  proof (cases rule: handle_live_cases)
    case (delete actor at due)
    have "es = App_Deleted actor at (Some due)
             # map (\<lambda>i. ReplicaRemoved i at) (map rep_id (app_replicas a))"
      using delete by (simp add: delete_events)
    then show ?thesis
      by (simp add: removals_replicas replicas_apply filter_empty_conv del: map_map)
  qed (use live(2) del in \<open>auto simp: app_apply_fields
        dest: handle_release_not_deleted handle_restart_not_deleted\<close>)
qed

lemma app_handle_inv:
  "app_inv a \<Longrightarrow> app_handle c a = Inr es \<Longrightarrow> app_inv (fold_events app_apply a es)"
  using app_handle_deleted_empty[of a c es] app_handle_ok[of a c es] events_ok_wf[of a es]
  by (auto simp: app_inv_def)

lemma app_inv_default: "app_inv app_default"
  by (simp add: app_inv_def app_wf_default) (simp add: app_default_def)

interpretation app: event_sourced app_apply app_handle app_inv app_default
  by unfold_locales (auto intro: app_inv_default app_handle_inv)

end
