(* ===== verification/Text.thy ===== *)
theory Text
  imports Prelude
begin

text \<open>
  The string operations of Rust's \<open>str\<close> that the parsers use. A string is the list of its UTF-8
  bytes; \<open>len\<close>, \<open>bytes\<close>, \<open>starts_with\<close>, \<open>split\<close> and the ASCII tests read it as such, and \<open>trim\<close>
  strips the byte sequences of the characters with the property \<open>White_Space\<close> (a sequence at the
  start or the end of a valid string is always a whole character).
\<close>

section \<open>Bytes\<close>

lemma list_all_mono: "list_all P xs \<Longrightarrow> (\<And>x. P x \<Longrightarrow> Q x) \<Longrightarrow> list_all Q xs"
  by (auto simp: list_all_iff)

definition byte :: "char \<Rightarrow> nat" where
  "byte c = of_char c"

lemma byte_inject [simp]: "byte c = byte d \<longleftrightarrow> c = d"
  by (simp add: byte_def)

definition is_ascii_lowercase :: "char \<Rightarrow> bool" where
  "is_ascii_lowercase c \<longleftrightarrow> 97 \<le> byte c \<and> byte c \<le> 122"

definition is_ascii_uppercase :: "char \<Rightarrow> bool" where
  "is_ascii_uppercase c \<longleftrightarrow> 65 \<le> byte c \<and> byte c \<le> 90"

definition is_ascii_digit :: "char \<Rightarrow> bool" where
  "is_ascii_digit c \<longleftrightarrow> 48 \<le> byte c \<and> byte c \<le> 57"

definition is_ascii_alphabetic :: "char \<Rightarrow> bool" where
  "is_ascii_alphabetic c \<longleftrightarrow> is_ascii_lowercase c \<or> is_ascii_uppercase c"

definition is_ascii_alphanumeric :: "char \<Rightarrow> bool" where
  "is_ascii_alphanumeric c \<longleftrightarrow> is_ascii_alphabetic c \<or> is_ascii_digit c"

definition is_ascii_control :: "char \<Rightarrow> bool" where
  "is_ascii_control c \<longleftrightarrow> byte c < 32 \<or> byte c = 127"

text \<open>\<open>u8::is_ascii_whitespace\<close>: space, tab, line feed, form feed, carriage return.\<close>

definition is_ascii_whitespace :: "char \<Rightarrow> bool" where
  "is_ascii_whitespace c \<longleftrightarrow> byte c \<in> {32, 9, 10, 12, 13}"

definition ascii_lower :: "char \<Rightarrow> char" where
  "ascii_lower c = (if is_ascii_uppercase c then char_of (byte c + 32) else c)"

definition ascii_upper :: "char \<Rightarrow> char" where
  "ascii_upper c = (if is_ascii_lowercase c then char_of (byte c - 32) else c)"

definition to_ascii_lowercase :: "string \<Rightarrow> string" where
  "to_ascii_lowercase s = map ascii_lower s"

definition to_ascii_uppercase :: "string \<Rightarrow> string" where
  "to_ascii_uppercase s = map ascii_upper s"

definition is_ascii :: "string \<Rightarrow> bool" where
  "is_ascii s \<longleftrightarrow> list_all (\<lambda>c. byte c < 128) s"

lemma byte_char_of: "n < 256 \<Longrightarrow> byte (char_of n) = n"
  by (simp add: byte_def)

lemma eq_char_of: "c = char_of n \<longleftrightarrow> byte c = n mod 256" for n :: nat
proof
  assume "c = char_of n"
  then show "byte c = n mod 256" by (simp add: byte_def)
next
  assume "byte c = n mod 256"
  then have "char_of (of_char c :: nat) = (char_of (n mod 256) :: char)" by (simp add: byte_def)
  then show "c = char_of n" by (simp add: char_of_mod_256)
qed

lemma ascii_lower_not_upper [simp]: "\<not> is_ascii_uppercase (ascii_lower c)"
  by (auto simp: ascii_lower_def is_ascii_uppercase_def byte_char_of)

lemma ascii_lower_id: "\<not> is_ascii_uppercase c \<Longrightarrow> ascii_lower c = c"
  by (simp add: ascii_lower_def)

lemma ascii_upper_id: "\<not> is_ascii_lowercase c \<Longrightarrow> ascii_upper c = c"
  by (simp add: ascii_upper_def)

lemma to_ascii_lowercase_id: "list_all (\<lambda>c. \<not> is_ascii_uppercase c) s \<Longrightarrow> to_ascii_lowercase s = s"
  by (induction s) (auto simp: to_ascii_lowercase_def ascii_lower_id)

lemma to_ascii_lowercase_idem [simp]:
  "to_ascii_lowercase (to_ascii_lowercase s) = to_ascii_lowercase s"
  by (rule to_ascii_lowercase_id) (simp add: to_ascii_lowercase_def list_all_iff)

lemma ascii_upper_not_lower [simp]: "\<not> is_ascii_lowercase (ascii_upper c)"
  by (auto simp: ascii_upper_def is_ascii_lowercase_def byte_char_of)

lemma to_ascii_uppercase_idem [simp]:
  "to_ascii_uppercase (to_ascii_uppercase s) = to_ascii_uppercase s"
  by (simp add: to_ascii_uppercase_def ascii_upper_id)

lemma length_to_ascii [simp]:
  "length (to_ascii_lowercase s) = length s" "length (to_ascii_uppercase s) = length s"
  by (simp_all add: to_ascii_lowercase_def to_ascii_uppercase_def)

section \<open>Prefixes, suffixes and substrings\<close>

definition starts_with :: "string \<Rightarrow> string \<Rightarrow> bool" where
  "starts_with p s \<longleftrightarrow> take (length p) s = p"

definition strip_prefix :: "string \<Rightarrow> string \<Rightarrow> string option" where
  "strip_prefix p s = (if starts_with p s then Some (drop (length p) s) else None)"

definition ends_with :: "string \<Rightarrow> string \<Rightarrow> bool" where
  "ends_with p s \<longleftrightarrow> starts_with (rev p) (rev s)"

definition strip_suffix :: "string \<Rightarrow> string \<Rightarrow> string option" where
  "strip_suffix p s = map_option rev (strip_prefix (rev p) (rev s))"

fun contains_str :: "string \<Rightarrow> string \<Rightarrow> bool" where
  "contains_str p [] \<longleftrightarrow> p = []"
| "contains_str p (c # s) \<longleftrightarrow> starts_with p (c # s) \<or> contains_str p s"

lemma starts_with_iff: "starts_with p s \<longleftrightarrow> (\<exists>t. s = p @ t)"
  unfolding starts_with_def by (metis append_eq_conv_conj append_take_drop_id)

lemma strip_prefix_Some: "strip_prefix p s = Some t \<longleftrightarrow> s = p @ t"
  by (auto simp: strip_prefix_def starts_with_def) (metis append_take_drop_id)

lemma ends_with_iff: "ends_with p s \<longleftrightarrow> (\<exists>t. s = t @ p)"
  unfolding ends_with_def starts_with_iff by (metis rev_append rev_rev_ident)

lemma strip_suffix_Some: "strip_suffix p s = Some t \<longleftrightarrow> s = t @ p"
proof -
  have "strip_suffix p s = Some t \<longleftrightarrow> strip_prefix (rev p) (rev s) = Some (rev t)"
    by (auto simp: strip_suffix_def)
  also have "\<dots> \<longleftrightarrow> s = t @ p"
    unfolding strip_prefix_Some by (metis rev_append rev_rev_ident)
  finally show ?thesis .
qed

text \<open>A string between single quotes, as the messages show one.\<close>

definition quote :: "string \<Rightarrow> string" where
  "quote s = CHR 0x27 # s @ [CHR 0x27]"

section \<open>Trimming\<close>

text \<open>The UTF-8 bytes of the white space characters.\<close>

definition white_space :: "string list" where
  "white_space =
     map (\<lambda>n. [char_of n]) [9, 10, 11, 12, 13, 32 :: nat] @
     map (map char_of)
       ([[0xC2, 0x85], [0xC2, 0xA0], [0xE1, 0x9A, 0x80]] @
        map (\<lambda>n. [0xE2, 0x80, n]) ([0x80..<0x8B] @ [0xA8, 0xA9, 0xAF]) @
        [[0xE2, 0x81, 0x9F], [0xE3, 0x80, 0x80 :: nat]])"

function strip_start :: "string list \<Rightarrow> string \<Rightarrow> string" where
  "strip_start ws s =
     (case List.find (\<lambda>w. w \<noteq> [] \<and> starts_with w s) ws of
        None \<Rightarrow> s
      | Some w \<Rightarrow> strip_start ws (drop (length w) s))"
  by pat_completeness auto
termination
proof (relation "measure (\<lambda>(ws, s). length s)", goal_cases)
  case (2 ws s w)
  then have "w \<noteq> []" "starts_with w s" by (auto dest: find_SomeD)
  then show ?case by (cases s) (auto simp: starts_with_def)
qed simp

declare strip_start.simps [simp del]

definition trim_start :: "string \<Rightarrow> string" where
  "trim_start s = strip_start white_space s"

definition trim_end :: "string \<Rightarrow> string" where
  "trim_end s = rev (strip_start (map rev white_space) (rev s))"

definition trim :: "string \<Rightarrow> string" where
  "trim s = trim_end (trim_start s)"

definition stripped :: "string list \<Rightarrow> string \<Rightarrow> bool" where
  "stripped ws s \<longleftrightarrow> (\<forall>w\<in>set ws. w \<noteq> [] \<longrightarrow> \<not> starts_with w s)"

lemma strip_start_id: "stripped ws s \<Longrightarrow> strip_start ws s = s"
  by (subst strip_start.simps) (auto simp: stripped_def find_None_iff split: option.splits dest: find_SomeD)

lemma strip_start_stripped: "stripped ws (strip_start ws s)"
proof (induction ws s rule: strip_start.induct)
  case (1 ws s)
  show ?case
    by (subst strip_start.simps)
      (auto simp: stripped_def find_None_iff 1[unfolded stripped_def] split: option.splits)
qed

lemma strip_start_suffix: "\<exists>t. s = t @ strip_start ws s"
proof (induction ws s rule: strip_start.induct)
  case (1 ws s)
  show ?case
  proof (cases "List.find (\<lambda>w. w \<noteq> [] \<and> starts_with w s) ws")
    case None
    then show ?thesis by (subst strip_start.simps) simp
  next
    case (Some w)
    with 1 obtain t where "drop (length w) s = t @ strip_start ws (drop (length w) s)" by blast
    then have "s = (take (length w) s @ t) @ strip_start ws (drop (length w) s)"
      by (metis append_assoc append_take_drop_id)
    then have "\<exists>t. s = t @ strip_start ws (drop (length w) s)" by blast
    moreover have "strip_start ws s = strip_start ws (drop (length w) s)"
      using Some by (subst strip_start.simps) simp
    ultimately show ?thesis by simp
  qed
qed

lemma stripped_append: "stripped ws (s @ t) \<Longrightarrow> stripped ws s"
  by (auto simp: stripped_def starts_with_iff)

lemma trim_idem [simp]: "trim (trim s) = trim s"
proof -
  let ?t = "trim_start s"
  have "stripped white_space ?t" by (simp add: trim_start_def strip_start_stripped)
  moreover obtain u where "rev ?t = u @ strip_start (map rev white_space) (rev ?t)"
    using strip_start_suffix by blast
  then have "?t = trim_end ?t @ rev u" by (metis rev_append rev_rev_ident trim_end_def)
  ultimately have "stripped white_space (trim_end ?t)" by (metis stripped_append)
  then have "trim_start (trim_end ?t) = trim_end ?t" by (simp add: trim_start_def strip_start_id)
  moreover have "trim_end (trim_end ?t) = trim_end ?t"
    by (simp add: trim_end_def strip_start_id strip_start_stripped)
  ultimately show ?thesis by (simp add: trim_def)
qed

text \<open>A string that begins and ends with a visible ASCII character is left alone.\<close>

definition visible :: "char \<Rightarrow> bool" where
  "visible c \<longleftrightarrow> 33 \<le> byte c \<and> byte c < 127"

lemma white_space_edges:
  "w \<in> set white_space \<Longrightarrow> w \<noteq> [] \<and> \<not> visible (hd w) \<and> \<not> visible (last w)"
  unfolding white_space_def by (auto simp: visible_def byte_def)

lemma stripped_visible:
  assumes "s \<noteq> []" "visible (hd s)" "\<And>w. w \<in> set ws \<Longrightarrow> w \<noteq> [] \<and> \<not> visible (hd w)"
  shows "stripped ws s"
  using assms by (fastforce simp: stripped_def starts_with_iff)

lemma trim_id:
  assumes "s = [] \<or> visible (hd s) \<and> visible (last s)"
  shows "trim s = s"
proof (cases "s = []")
  case True
  have "stripped ws []" for ws by (auto simp: stripped_def starts_with_def)
  with True show ?thesis by (simp add: trim_def trim_start_def trim_end_def strip_start_id)
next
  case False
  then have v: "visible (hd s)" "visible (last s)" using assms by auto
  have "trim_start s = s"
    unfolding trim_start_def
    by (rule strip_start_id[OF stripped_visible]) (use False v white_space_edges in auto)
  moreover have "strip_start (map rev white_space) (rev s) = rev s"
    by (rule strip_start_id[OF stripped_visible])
      (use False v white_space_edges in \<open>auto simp: hd_rev\<close>)
  ultimately show ?thesis by (simp add: trim_def trim_end_def)
qed

lemma trim_visible: "list_all visible s \<Longrightarrow> trim s = s"
  by (rule trim_id) (auto simp: list_all_iff)

section \<open>Splitting and joining\<close>

text \<open>\<open>split\<close> at every byte of a kind: at least one part, the separators dropped.\<close>

fun split_by :: "(char \<Rightarrow> bool) \<Rightarrow> string \<Rightarrow> string list" where
  "split_by p [] = [[]]"
| "split_by p (c # s) =
     (if p c then [] # split_by p s
      else case split_by p s of [] \<Rightarrow> [[c]] | part # parts \<Rightarrow> (c # part) # parts)"

definition split :: "char \<Rightarrow> string \<Rightarrow> string list" where
  "split c s = split_by (\<lambda>d. d = c) s"

definition split_once :: "char \<Rightarrow> string \<Rightarrow> (string \<times> string) option" where
  "split_once c s =
     (if c \<in> set s then Some (takeWhile (\<lambda>d. d \<noteq> c) s, tl (dropWhile (\<lambda>d. d \<noteq> c) s)) else None)"

definition rsplit_once :: "char \<Rightarrow> string \<Rightarrow> (string \<times> string) option" where
  "rsplit_once c s = map_option (\<lambda>(a, b). (rev b, rev a)) (split_once c (rev s))"

lemma split_by_not_Nil [simp]: "split_by p s \<noteq> []"
  by (cases s) (auto split: list.splits)

lemma split_by_parts: "list_all (\<lambda>q. list_all (\<lambda>c. \<not> p c) q) (split_by p s)"
  by (induction s) (auto split: list.splits)

lemma split_by_chars: "x \<in> set s \<Longrightarrow> p x \<or> (\<exists>q\<in>set (split_by p s). x \<in> set q)"
  by (induction s) (auto split: list.splits)

lemma split_by_subset: "list_all P s \<Longrightarrow> list_all (list_all P) (split_by p s)"
  by (induction s) (auto split: list.splits)

lemma split_by_id: "(\<And>c. c \<in> set s \<Longrightarrow> \<not> p c) \<Longrightarrow> split_by p s = [s]"
  by (induction s) auto

lemma split_by_append:
  "(\<And>c. c \<in> set s \<Longrightarrow> \<not> p c) \<Longrightarrow> p d \<Longrightarrow> split_by p (s @ d # t) = s # split_by p t"
  by (induction s) auto

lemma join_Cons: "ps \<noteq> [] \<Longrightarrow> join sep (p # ps) = p @ sep @ join sep ps"
  by (cases ps) auto

lemma join_split: "join [c] (split c s) = s"
proof (induction s)
  case (Cons d s)
  show ?case
  proof (cases "d = c")
    case True
    with Cons show ?thesis by (simp add: split_def join_Cons)
  next
    case False
    obtain part parts where "split c s = part # parts" by (cases "split c s") (auto simp: split_def)
    with Cons False show ?thesis by (cases parts) (auto simp: split_def)
  qed
qed (simp add: split_def)

lemma split_once_Some:
  "split_once c s = Some (a, b) \<longleftrightarrow> s = a @ c # b \<and> c \<notin> set a"
proof
  assume "split_once c s = Some (a, b)"
  then have c: "c \<in> set s" and a: "a = takeWhile (\<lambda>d. d \<noteq> c) s" and b: "b = tl (dropWhile (\<lambda>d. d \<noteq> c) s)"
    by (auto simp: split_once_def split: if_splits)
  have ne: "dropWhile (\<lambda>d. d \<noteq> c) s \<noteq> []" using c by (auto simp: dropWhile_eq_Nil_conv)
  then have "hd (dropWhile (\<lambda>d. d \<noteq> c) s) = c" using hd_dropWhile[of "\<lambda>d. d \<noteq> c" s] by simp
  with ne have "dropWhile (\<lambda>d. d \<noteq> c) s = c # b" using b by (cases "dropWhile (\<lambda>d. d \<noteq> c) s") auto
  then have "s = a @ c # b" using a takeWhile_dropWhile_id by metis
  moreover have "c \<notin> set a" using a by (auto dest: set_takeWhileD)
  ultimately show "s = a @ c # b \<and> c \<notin> set a" by simp
next
  assume s: "s = a @ c # b \<and> c \<notin> set a"
  then have "takeWhile (\<lambda>d. d \<noteq> c) s = a" "dropWhile (\<lambda>d. d \<noteq> c) s = c # b"
    by (auto simp: takeWhile_append dropWhile_append)
  with s show "split_once c s = Some (a, b)" by (simp add: split_once_def)
qed

lemma split_once_None: "split_once c s = None \<longleftrightarrow> c \<notin> set s"
  by (simp add: split_once_def)

lemma rsplit_once_Some:
  "rsplit_once c s = Some (a, b) \<longleftrightarrow> s = a @ c # b \<and> c \<notin> set b"
proof -
  have "rsplit_once c s = Some (a, b) \<longleftrightarrow> split_once c (rev s) = Some (rev b, rev a)"
    by (auto simp: rsplit_once_def)
  also have "\<dots> \<longleftrightarrow> s = a @ c # b \<and> c \<notin> set b"
    unfolding split_once_Some by (metis append.assoc append_Cons append_Nil rev.simps(2) rev_append rev_rev_ident set_rev)
  finally show ?thesis .
qed

lemma rsplit_once_None: "rsplit_once c s = None \<longleftrightarrow> c \<notin> set s"
  by (simp add: rsplit_once_def split_once_None)

section \<open>Numbers\<close>

text \<open>The value of a run of decimal digits.\<close>

definition digits_value :: "string \<Rightarrow> nat" where
  "digits_value s = foldl (\<lambda>n b. 10 * n + (byte b - 48)) 0 s"

lemma show_digit_props: "d < 10 \<Longrightarrow> is_ascii_digit (show_digit d) \<and> byte (show_digit d) = 48 + d"
proof -
  have "list_all (\<lambda>d. is_ascii_digit (show_digit d) \<and> byte (show_digit d) = 48 + d) [0..<10]" by code_simp
  then show "d < 10 \<Longrightarrow> ?thesis" by (simp add: list_all_iff)
qed

lemma show_nat_digits: "list_all is_ascii_digit (show_nat n) \<and> show_nat n \<noteq> []"
proof (induction n rule: show_nat.induct)
  case (1 n)
  then show ?case by (subst (1 2) show_nat.simps) (auto simp: show_digit_props)
qed

lemma digits_value_show_nat: "digits_value (show_nat n) = n"
proof (induction n rule: show_nat.induct)
  case (1 n)
  then show ?case
    by (subst show_nat.simps) (auto simp: digits_value_def show_digit_props)
qed

end
