(* ===== verification/Names.thy ===== *)
theory Names
  imports Text
begin

text \<open>
  The grammar of names (\<open>grund-config/src/names.rs\<close>): usernames, which are also organisation
  slugs, and machine names; and the interface every constructor of a normalised string offers
  (\<open>normaliser\<close>): what it returns, it accepts again and returns unchanged.
\<close>

section \<open>Constructors that normalise\<close>

text \<open>
  The loop that reads a list of names: the first error ends it (\<open>report\<close> turns it and its index
  into the caller's error), and a name given twice is kept once.
\<close>

fun collect_names ::
  "(string \<Rightarrow> 'e + string) \<Rightarrow> (nat \<Rightarrow> 'e \<Rightarrow> 'f) \<Rightarrow> nat \<Rightarrow> string list \<Rightarrow> string list
     \<Rightarrow> 'f + string list" where
  "collect_names parse report i [] out = Inr out"
| "collect_names parse report i (s # ss) out =
     (case parse s of
        Inl e \<Rightarrow> Inl (report i e)
      | Inr n \<Rightarrow> collect_names parse report (i + 1) ss (if n \<in> set out then out else out @ [n]))"

locale normaliser =
  fixes parse :: "string \<Rightarrow> 'e + string"
  assumes parse_again: "parse s = Inr n \<Longrightarrow> parse n = Inr n"
begin

lemma collect_normal:
  "collect_names parse report i ss out = Inr ns \<Longrightarrow> list_all (\<lambda>n. parse n = Inr n) out \<Longrightarrow>
   distinct out \<Longrightarrow> list_all (\<lambda>n. parse n = Inr n) ns \<and> distinct ns"
proof (induction ss arbitrary: i out)
  case (Cons s ss)
  then obtain n where n: "parse s = Inr n" by (cases "parse s") auto
  let ?out = "if n \<in> set out then out else out @ [n]"
  have "collect_names parse report (i + 1) ss ?out = Inr ns" using Cons.prems(1) n by simp
  moreover have "list_all (\<lambda>n. parse n = Inr n) ?out" "distinct ?out"
    using Cons.prems(2,3) parse_again[OF n] by simp_all
  ultimately show ?case by (rule Cons.IH)
qed simp

lemma collect_again:
  "list_all (\<lambda>n. parse n = Inr n) ns \<Longrightarrow> distinct (out @ ns) \<Longrightarrow>
   collect_names parse report i ns out = Inr (out @ ns)"
  by (induction ns arbitrary: i out) auto

end

section \<open>Slugs\<close>

definition slug_byte :: "char \<Rightarrow> bool" where
  "slug_byte b \<longleftrightarrow> is_ascii_lowercase b \<or> is_ascii_digit b \<or> b = CHR ''-''"

definition slug_grammar :: "string \<Rightarrow> bool" where
  "slug_grammar name \<longleftrightarrow>
     list_all slug_byte name \<and> \<not> starts_with ''-'' name \<and> \<not> ends_with ''-'' name \<and>
     \<not> contains_str ''--'' name"

definition normal_form :: "string \<Rightarrow> string" where
  "normal_form input = to_ascii_lowercase (trim input)"

datatype name_error = NE_Length | NE_Characters | NE_Reserved | NE_MachineLength

text \<open>The en dash of the messages, in UTF-8.\<close>

definition en_dash :: string where
  "en_dash = [char_of (0xE2 :: nat), char_of (0x80 :: nat), char_of (0x93 :: nat)]"

definition name_error_text :: "name_error \<Rightarrow> string" where
  "name_error_text e =
     (case e of
        NE_Length \<Rightarrow> ''use 3 to 32 characters''
      | NE_Characters \<Rightarrow>
          ''use only letters a'' @ en_dash @ ''z, digits and single hyphens between them''
      | NE_Reserved \<Rightarrow> ''that name is reserved''
      | NE_MachineLength \<Rightarrow> ''use 1 to 32 characters'')"

definition RESERVED :: "string list" where
  "RESERVED =
     [''admin'', ''administrator'', ''api'', ''app'', ''apps'', ''auth'', ''billing'', ''dashboard'',
      ''dev'', ''docs'', ''grund'', ''health'', ''help'', ''info'', ''install'', ''invitations'',
      ''invite'', ''licenses'', ''login'', ''logout'', ''mail'', ''me'', ''new'', ''org'',
      ''notifications'', ''orgs'', ''reset'', ''root'', ''security'', ''sessions'', ''settings'',
      ''signin'', ''signup'', ''staff'', ''static'', ''status'', ''style-guide'', ''support'',
      ''system'', ''team'', ''verify'', ''www'']"

definition username_parse :: "string \<Rightarrow> name_error + string" where
  "username_parse input =
     (let name = normal_form input in
      if \<not> (3 \<le> length name \<and> length name \<le> 32) then Inl NE_Length
      else if \<not> slug_grammar name then Inl NE_Characters
      else if name \<in> set RESERVED then Inl NE_Reserved
      else Inr name)"

definition operator_admin :: string where
  "operator_admin = ''admin''"

definition machine_name_parse :: "string \<Rightarrow> name_error + string" where
  "machine_name_parse input =
     (let name = normal_form input in
      if \<not> (1 \<le> length name \<and> length name \<le> 32) then Inl NE_MachineLength
      else if \<not> slug_grammar name then Inl NE_Characters
      else Inr name)"

text \<open>
  The loop of \<open>suggest\<close> is over characters; the bytes of a character outside ASCII are none of
  them a letter or a digit, so the first of them pushes the hyphen and the others find it there.
\<close>

definition suggest_char :: "char \<Rightarrow> string \<Rightarrow> string" where
  "suggest_char c name =
     (let c = ascii_lower c in
      if is_ascii_lowercase c \<or> is_ascii_digit c then name @ [c]
      else if name \<noteq> [] \<and> \<not> ends_with ''-'' name then name @ ''-''
      else name)"

definition username_suggest :: "string \<Rightarrow> string option" where
  "username_suggest input =
     (let name = trim_end_matches CHR ''-'' (fold suggest_char (trim input) []);
          name = take 32 name
      in case username_parse (trim_end_matches CHR ''-'' name) of Inl _ \<Rightarrow> None | Inr n \<Rightarrow> Some n)"

section \<open>What a parsed name is\<close>

lemma slug_visible: "slug_byte c \<Longrightarrow> visible c \<and> \<not> is_ascii_uppercase c"
  by (auto simp: slug_byte_def visible_def is_ascii_lowercase_def is_ascii_digit_def
      is_ascii_uppercase_def byte_def)

lemma slug_normal:
  assumes "list_all slug_byte n"
  shows "normal_form n = n"
proof -
  have "list_all visible n" "list_all (\<lambda>c. \<not> is_ascii_uppercase c) n"
    using assms slug_visible by (auto simp: list_all_iff)
  then show ?thesis by (simp add: normal_form_def trim_visible to_ascii_lowercase_id)
qed

lemma username_parse_InrD:
  "username_parse s = Inr n \<Longrightarrow>
   3 \<le> length n \<and> length n \<le> 32 \<and> slug_grammar n \<and>
   n \<notin> set RESERVED"
  by (auto simp: username_parse_def Let_def split: if_splits)

lemma machine_name_parse_InrD:
  "machine_name_parse s = Inr n \<Longrightarrow>
   1 \<le> length n \<and> length n \<le> 32 \<and> slug_grammar n"
  by (auto simp: machine_name_parse_def Let_def split: if_splits)

interpretation username: normaliser username_parse
proof
  fix s n assume "username_parse s = Inr n"
  note parsed = username_parse_InrD[OF this]
  then have "normal_form n = n" by (intro slug_normal) (simp add: slug_grammar_def)
  with parsed show "username_parse n = Inr n" by (simp add: username_parse_def)
qed

interpretation machine_name: normaliser machine_name_parse
proof
  fix s n assume "machine_name_parse s = Inr n"
  note parsed = machine_name_parse_InrD[OF this]
  then have "normal_form n = n" by (intro slug_normal) (simp add: slug_grammar_def)
  with parsed show "machine_name_parse n = Inr n" by (simp add: machine_name_parse_def)
qed

end
