(* ===== verification/Maps.thy ===== *)
theory Maps
  imports Prelude
begin

text \<open>
  Rust's maps: \<open>BTreeMap\<close> sorted by key, and \<open>IndexMap\<close> and \<open>HashMap\<close> as lists of entries.
\<close>

section \<open>Sorted maps\<close>

text \<open>
  Rust's \<open>BTreeMap\<close>: an association list kept sorted by key, each key once. \<open>get\<close> is
  \<^const>\<open>map_of\<close>, \<open>values\<close> is the list of second components.
\<close>

fun bt_insert :: "'k::linorder \<Rightarrow> 'v \<Rightarrow> ('k \<times> 'v) list \<Rightarrow> ('k \<times> 'v) list" where
  "bt_insert k v [] = [(k, v)]"
| "bt_insert k v ((k', v') # ps) =
     (if k < k' then (k, v) # (k', v') # ps
      else if k = k' then (k, v) # ps
      else (k', v') # bt_insert k v ps)"

definition bt_remove :: "'k \<Rightarrow> ('k \<times> 'v) list \<Rightarrow> ('k \<times> 'v) list" where
  "bt_remove k ps = filter (\<lambda>(k', _). k' \<noteq> k) ps"

definition bt_sorted :: "('k::linorder \<times> 'v) list \<Rightarrow> bool" where
  "bt_sorted ps \<longleftrightarrow> sorted_wrt (<) (map fst ps)"

lemma bt_insert_keys: "fst ` set (bt_insert k v ps) = insert k (fst ` set ps)"
  by (induction k v ps rule: bt_insert.induct) (simp_all add: insert_commute)

lemma bt_insert_sorted: "bt_sorted ps \<Longrightarrow> bt_sorted (bt_insert k v ps)"
  unfolding bt_sorted_def
proof (induction ps)
  case (Cons p ps)
  obtain k' v' where p: "p = (k', v')" by force
  have "x \<in> insert k (fst ` set ps) \<Longrightarrow> k' < k \<Longrightarrow> k' < x" for x
    using Cons.prems by (auto simp: p)
  with Cons bt_insert_keys[of k v ps] show ?case
    by (fastforce simp: p not_less le_less dest: less_trans)
qed simp

lemma bt_insert_get: "map_of (bt_insert k v ps) = (map_of ps)(k \<mapsto> v)"
  by (induction ps) (auto simp: fun_eq_iff)

lemma bt_remove_get: "map_of (bt_remove k ps) = (map_of ps)(k := None)"
  by (induction ps) (auto simp: bt_remove_def fun_eq_iff)

lemma bt_insert_end: "\<forall>x\<in>fst ` set ps. x < k \<Longrightarrow> bt_insert k v ps = ps @ [(k, v)]"
  by (induction ps) (auto dest: less_asym)

lemma bt_insert_all: "P (k, v) \<Longrightarrow> list_all P ps \<Longrightarrow> list_all P (bt_insert k v ps)"
  by (induction ps) auto

lemma bt_sorted_distinct: "bt_sorted ps \<Longrightarrow> distinct (map fst ps)"
  by (simp add: bt_sorted_def strict_sorted_iff)

section \<open>Entries\<close>

text \<open>
  Maps as lists of entries with distinct keys: an \<open>IndexMap\<close> keeps the order of insertion, a
  \<open>HashMap\<close> has an order that nothing depends on. Inserting a known key replaces its value in place.
\<close>

fun im_insert :: "'k \<Rightarrow> 'v \<Rightarrow> ('k \<times> 'v) list \<Rightarrow> ('k \<times> 'v) list" where
  "im_insert k v [] = [(k, v)]"
| "im_insert k v ((k', v') # ps) = (if k = k' then (k, v) # ps else (k', v') # im_insert k v ps)"

definition im_collect :: "('k \<times> 'v) list \<Rightarrow> ('k \<times> 'v) list" where
  "im_collect ps = fold (\<lambda>(k, v). im_insert k v) ps []"

lemma im_insert_new: "k \<notin> fst ` set ps \<Longrightarrow> im_insert k v ps = ps @ [(k, v)]"
  by (induction ps) auto

lemma im_collect_distinct: "distinct (map fst ps) \<Longrightarrow> im_collect ps = ps"
proof -
  have "distinct (map fst (qs @ ps)) \<Longrightarrow> fold (\<lambda>(k, v). im_insert k v) ps qs = qs @ ps" for qs
  proof (induction ps arbitrary: qs)
    case (Cons p ps)
    obtain k v where p: "p = (k, v)" by fastforce
    have "im_insert k v qs = qs @ [(k, v)]" using Cons.prems by (intro im_insert_new) (auto simp: p)
    then show ?case using Cons.IH[of "qs @ [p]"] Cons.prems by (simp add: p)
  qed simp
  from this[of "[]"] show "distinct (map fst ps) \<Longrightarrow> im_collect ps = ps" by (simp add: im_collect_def)
qed

lemma im_insert_get: "map_of (im_insert k v ps) = (map_of ps)(k \<mapsto> v)"
  by (induction ps) (auto simp: fun_eq_iff)

lemma im_insert_keys: "fst ` set (im_insert k v ps) = insert k (fst ` set ps)"
  by (induction k v ps rule: im_insert.induct) (simp_all add: insert_commute)

lemma im_insert_mem: "x \<in> set (im_insert k v ps) \<Longrightarrow> x \<in> set ps \<or> x = (k, v)"
  by (induction ps) (auto split: if_splits)

lemma im_insert_distinct: "distinct (map fst ps) \<Longrightarrow> distinct (map fst (im_insert k v ps))"
  by (induction ps) (auto simp: im_insert_keys)

lemma im_insert_length:
  "length (im_insert k v ps) = (if k \<in> fst ` set ps then length ps else Suc (length ps))"
  by (induction k v ps rule: im_insert.induct) simp_all

lemma map_of_filter:
  "distinct (map fst ps) \<Longrightarrow>
   map_of (filter (\<lambda>(k, v). P k v) ps) k = (case map_of ps k of None \<Rightarrow> None | Some v \<Rightarrow> if P k v then Some v else None)"
  by (induction ps) (auto split: option.splits simp: map_of_eq_None_iff[THEN iffD2] image_iff)

end
