(* ===== verification/Labels.thy ===== *)
theory Labels
  imports App_Spec Names Maps
begin

text \<open>
  Machine labels (\<open>grund-config/src/labels.rs\<close>): \<open>key=value\<close> pairs, kept sorted by key in a
  \<open>BTreeMap\<close>; their grammar, the map built from pairs, and the text a person types and reads.
\<close>

section \<open>Reading\<close>

definition labels_get :: "labels \<Rightarrow> string \<Rightarrow> string option" where
  "labels_get ls k = map_of ls k"

definition labels_text :: "labels \<Rightarrow> string" where
  "labels_text ls = join '', '' (map (\<lambda>(k, v). k @ ''='' @ v) ls)"

section \<open>Keys, values, maps\<close>

definition MAX_LABELS :: nat where
  "MAX_LABELS = 16"

definition MAX_LABEL_CHARS :: nat where
  "MAX_LABEL_CHARS = 63"

datatype label_error = LabelKey | LabelValue | LabelTooMany

definition label_error_text :: "label_error \<Rightarrow> string" where
  "label_error_text e =
     (case e of
        LabelKey \<Rightarrow>
          ''a label key is 1 to 63 lowercase letters, digits, '' @ quote ''.'' @ '', '' @ quote ''-''
          @ '', '' @ quote ''_'' @ '' or '' @ quote ''/''
          @ '', starting and ending with a letter or digit''
      | LabelValue \<Rightarrow>
          ''a label value is at most 63 letters, digits, '' @ quote ''.'' @ '', '' @ quote ''-''
          @ '' or '' @ quote ''_''
      | LabelTooMany \<Rightarrow> ''use at most 16 labels'')"

definition label_edge :: "char \<Rightarrow> bool" where
  "label_edge c \<longleftrightarrow> is_ascii_lowercase c \<or> is_ascii_digit c"

definition label_key :: "string \<Rightarrow> label_error + string" where
  "label_key input =
     (let key = trim input in
      if 1 \<le> length key \<and> length key \<le> MAX_LABEL_CHARS \<and>
         is_some_and (first_opt key) label_edge \<and> is_some_and (last_opt key) label_edge \<and>
         list_all (\<lambda>c. label_edge c \<or> c \<in> set ''.-_/'') key
      then Inr key else Inl LabelKey)"

definition label_value :: "string \<Rightarrow> label_error + string" where
  "label_value input =
     (let value = trim input in
      if length value \<le> MAX_LABEL_CHARS \<and>
         list_all (\<lambda>c. is_ascii_alphanumeric c \<or> c \<in> set ''.-_'') value
      then Inr value else Inl LabelValue)"

fun labels_add :: "(string \<times> string) list \<Rightarrow> labels \<Rightarrow> label_error + labels" where
  "labels_add [] out = Inr out"
| "labels_add ((key, value) # pairs) out =
     (case label_key key of
        Inl e \<Rightarrow> Inl e
      | Inr k \<Rightarrow>
          (case label_value value of
             Inl e \<Rightarrow> Inl e
           | Inr v \<Rightarrow> labels_add pairs (bt_insert k v out)))"

definition labels_of :: "(string \<times> string) list \<Rightarrow> label_error + labels" where
  "labels_of pairs =
     (case labels_add pairs [] of
        Inl e \<Rightarrow> Inl e
      | Inr out \<Rightarrow> if length out > MAX_LABELS then Inl LabelTooMany else Inr out)"

definition parse_labels :: "string \<Rightarrow> label_error + labels" where
  "parse_labels text =
     labels_of
       (map (\<lambda>entry. case split_once CHR ''='' entry of None \<Rightarrow> (entry, []) | Some pair \<Rightarrow> pair)
         (filter (\<lambda>entry. entry \<noteq> [])
           (map trim (split_by (\<lambda>c. c = CHR '','' \<or> c = CHR 0x0A) text))))"

section \<open>What the map built from pairs is\<close>

definition labels_wf :: "labels \<Rightarrow> bool" where
  "labels_wf ls \<longleftrightarrow>
     sorted_wrt (<) (map fst ls) \<and> length ls \<le> MAX_LABELS \<and>
     list_all (\<lambda>(k, v). label_key k = Inr k \<and> label_value v = Inr v) ls"

lemma key_visible: "label_edge c \<or> c \<in> set ''.-_/'' \<Longrightarrow> visible c"
  by (auto simp: label_edge_def visible_def is_ascii_lowercase_def is_ascii_digit_def byte_def)

lemma value_visible: "is_ascii_alphanumeric c \<or> c \<in> set ''.-_'' \<Longrightarrow> visible c"
  by (auto simp: is_ascii_alphanumeric_def is_ascii_alphabetic_def visible_def
      is_ascii_lowercase_def is_ascii_uppercase_def is_ascii_digit_def byte_def)

lemma label_key_InrD: "label_key s = Inr k \<Longrightarrow> list_all (\<lambda>c. label_edge c \<or> c \<in> set ''.-_/'') k"
  by (auto simp: label_key_def Let_def split: if_splits)

lemma label_value_InrD:
  "label_value s = Inr v \<Longrightarrow> list_all (\<lambda>c. is_ascii_alphanumeric c \<or> c \<in> set ''.-_'') v"
  by (auto simp: label_value_def Let_def split: if_splits)

interpretation label_key: normaliser label_key
proof
  fix s k assume k: "label_key s = Inr k"
  have "trim k = k" by (rule trim_visible[OF list_all_mono[OF label_key_InrD[OF k] key_visible]])
  with k show "label_key k = Inr k" by (auto simp: label_key_def Let_def split: if_splits)
qed

interpretation label_value: normaliser label_value
proof
  fix s v assume v: "label_value s = Inr v"
  have "trim v = v" by (rule trim_visible[OF list_all_mono[OF label_value_InrD[OF v] value_visible]])
  with v show "label_value v = Inr v" by (auto simp: label_value_def Let_def split: if_splits)
qed

lemma labels_add_wf:
  "labels_add ps out = Inr ls \<Longrightarrow> sorted_wrt (<) (map fst out) \<Longrightarrow>
   list_all (\<lambda>(k, v). label_key k = Inr k \<and> label_value v = Inr v) out \<Longrightarrow>
   sorted_wrt (<) (map fst ls) \<and>
   list_all (\<lambda>(k, v). label_key k = Inr k \<and> label_value v = Inr v) ls"
proof (induction ps out rule: labels_add.induct)
  case (2 key value' pairs out)
  then obtain k v where kv: "label_key key = Inr k" "label_value value' = Inr v"
    by (auto split: sum.splits)
  have "sorted_wrt (<) (map fst (bt_insert k v out))"
    "list_all (\<lambda>(k, v). label_key k = Inr k \<and> label_value v = Inr v) (bt_insert k v out)"
    using 2(3,4) kv
    by (simp_all add: bt_insert_sorted[unfolded bt_sorted_def] bt_insert_all label_key.parse_again label_value.parse_again)
  with 2(1)[OF kv] 2(2) kv show ?case by simp
qed simp

lemma labels_of_wf: "labels_of ps = Inr ls \<Longrightarrow> labels_wf ls"
  using labels_add_wf[of ps "[]" ls] by (auto simp: labels_of_def labels_wf_def split: sum.splits if_splits)

lemma labels_add_sorted:
  "sorted_wrt (<) (map fst (out @ ls)) \<Longrightarrow>
   list_all (\<lambda>(k, v). label_key k = Inr k \<and> label_value v = Inr v) ls \<Longrightarrow>
   labels_add ls out = Inr (out @ ls)"
proof (induction ls arbitrary: out)
  case (Cons p ls)
  obtain k v where p: "p = (k, v)" by force
  have "bt_insert k v out = out @ [(k, v)]"
    by (rule bt_insert_end) (use Cons.prems(1) in \<open>auto simp: p sorted_wrt_append\<close>)
  with Cons show ?case by (simp add: p)
qed simp

lemma labels_of_again: "labels_wf ls \<Longrightarrow> labels_of ls = Inr ls"
  using labels_add_sorted[of "[]" ls] by (simp add: labels_of_def labels_wf_def)

section \<open>The text\<close>

lemma trim_space: "trim (CHR '' '' # s) = trim s"
proof -
  have "List.find (\<lambda>w. w \<noteq> [] \<and> starts_with w (CHR '' '' # s)) white_space = Some [CHR '' '']"
    by (simp add: white_space_def starts_with_def eq_char_of eq_commute[of "char_of n" for n] byte_def)
  then have "strip_start white_space (CHR '' '' # s) = strip_start white_space s"
    by (subst strip_start.simps) simp
  then show ?thesis by (simp add: trim_def trim_start_def)
qed

definition label_entry :: "string \<times> string \<Rightarrow> string" where
  "label_entry p = fst p @ ''='' @ snd p"

lemma split_join_entries:
  assumes "list_all (list_all (\<lambda>c. \<not> p c)) (e # es)" "p CHR '',''" "\<not> p CHR '' ''"
  shows "split_by p (join '', '' (e # es)) = e # map ((#) CHR '' '') es"
  using assms
proof (induction es arbitrary: e)
  case Nil
  then show ?case by (auto intro!: split_by_id simp: list_all_iff)
next
  case (Cons e' es)
  have "split_by p (e @ CHR '','' # CHR '' '' # join '', '' (e' # es)) =
      e # split_by p (CHR '' '' # join '', '' (e' # es))"
    using Cons.prems by (intro split_by_append) (auto simp: list_all_iff)
  with Cons show ?case by simp
qed

lemma parse_labels_entries:
  assumes "labels_wf ls"
  shows "map (\<lambda>entry. case split_once CHR ''='' entry of None \<Rightarrow> (entry, []) | Some pair \<Rightarrow> pair)
     (filter (\<lambda>entry. entry \<noteq> [])
       (map trim (split_by (\<lambda>c. c = CHR '','' \<or> c = CHR 0x0A) (labels_text ls)))) = ls"
proof (cases ls)
  case Nil
  have "trim [] = []" by (rule trim_id) simp
  with Nil show ?thesis by (simp add: labels_text_def)
next
  case (Cons p ps)
  let ?p = "\<lambda>c. c = CHR '','' \<or> c = CHR 0x0A"
  have ok: "label_key k = Inr k \<and> label_value v = Inr v" if "(k, v) \<in> set ls" for k v
    using assms that by (auto simp: labels_wf_def list_all_iff)
  have vis: "list_all visible (label_entry q)" if "q \<in> set ls" for q
  proof -
    obtain k v where q: "q = (k, v)" by force
    have kv: "label_key k = Inr k" "label_value v = Inr v" using ok[of k v] that q by auto
    have "list_all visible k" by (rule list_all_mono[OF label_key_InrD[OF kv(1)] key_visible])
    moreover have "list_all visible v" by (rule list_all_mono[OF label_value_InrD[OF kv(2)] value_visible])
    ultimately show ?thesis by (simp add: label_entry_def q visible_def byte_def)
  qed
  have sep: "list_all (\<lambda>c. \<not> ?p c) (label_entry q)" if "q \<in> set ls" for q
  proof -
    obtain k v where q: "q = (k, v)" by force
    have "list_all (\<lambda>c. label_edge c \<or> c \<in> set ''.-_/'') k"
      "list_all (\<lambda>c. is_ascii_alphanumeric c \<or> c \<in> set ''.-_'') v"
      using ok[of k v] that q label_key_InrD label_value_InrD by blast+
    then show ?thesis
      by (auto simp: label_entry_def q list_all_iff label_edge_def is_ascii_alphanumeric_def
          is_ascii_alphabetic_def is_ascii_lowercase_def is_ascii_uppercase_def is_ascii_digit_def byte_def)
  qed
  have "labels_text ls = join '', '' (map label_entry ls)"
    unfolding labels_text_def by (rule arg_cong[of _ _ "join '', ''"]) (auto simp: label_entry_def)
  moreover have "list_all (list_all (\<lambda>c. \<not> ?p c)) (map label_entry ls)"
    unfolding list_all_iff[of _ "map label_entry ls"] using sep by simp
  then have "split_by ?p (join '', '' (map label_entry ls)) =
      label_entry p # map ((#) CHR '' '') (map label_entry ps)"
    unfolding Cons list.map(2) by (rule split_join_entries) (simp_all add: byte_inject[symmetric] byte_def)
  moreover have "trim (label_entry q) = label_entry q" if "q \<in> set ls" for q
    by (rule trim_visible[OF vis[OF that]])
  ultimately have t: "map trim (split_by ?p (labels_text ls)) = map label_entry ls"
    using Cons by (auto simp: trim_space)
  have ne: "label_entry q \<noteq> []" for q by (simp add: label_entry_def)
  have "(case split_once CHR ''='' (label_entry q) of None \<Rightarrow> (label_entry q, []) | Some pair \<Rightarrow> pair) = q"
    if "q \<in> set ls" for q
  proof -
    obtain k v where q: "q = (k, v)" by force
    have "list_all (\<lambda>c. label_edge c \<or> c \<in> set ''.-_/'') k"
      using ok[of k v] that q label_key_InrD by blast
    then have "CHR ''='' \<notin> set k"
      by (auto simp: list_all_iff label_edge_def is_ascii_lowercase_def is_ascii_digit_def byte_def)
    then have "split_once CHR ''='' (label_entry q) = Some (k, v)"
      by (simp add: split_once_Some label_entry_def q)
    then show ?thesis by (simp add: q)
  qed
  then show ?thesis by (simp add: t filter_map comp_def ne map_idI)
qed

text \<open>
  Labels survive being shown and typed again: what was accepted, written as
  \<open>key=value, key=value\<close>, is read back as the same labels. What was accepted is sorted, within the
  limit, and every key and value is of the grammar.
\<close>

theorem labels_round_trip:
  assumes "labels_of pairs = Inr ls"
  shows "labels_wf ls \<and> parse_labels (labels_text ls) = Inr ls"
  using labels_of_wf[OF assms] by (simp add: parse_labels_def parse_labels_entries labels_of_again)

theorem labels_round_trip_witness:
  "parse_labels ''disk=ssd, zone=b'' = Inr [(''disk'', ''ssd''), (''zone'', ''b'')]"
proof -
  let ?ls = "[(''disk'', ''ssd''), (''zone'', ''b'')]"
  have "labels_of [(''zone'', ''a''), ('' disk'', ''ssd''), (''zone'', ''b'')] = Inr ?ls" by code_simp
  then have "parse_labels (labels_text ?ls) = Inr ?ls" by (rule conjunct2[OF labels_round_trip])
  then show ?thesis by (simp add: labels_text_def)
qed

end
