(* ===== verification/Placement.thy ===== *)
theory Placement
  imports App Labels
begin

text \<open>
  Where a new replica runs (\<open>grund-domain/src/app/placement.rs\<close>): filter the machines that can
  run it, then take the least score, spread first.
\<close>

section \<open>Machines as placement sees them\<close>

definition UNREACHABLE_AFTER :: duration where
  "UNREACHABLE_AFTER = seconds 30"

definition RESERVED_MEMORY_MIB :: nat where
  "RESERVED_MEMORY_MIB = 256"

definition RESERVED_CPU_MILLIS :: nat where
  "RESERVED_CPU_MILLIS = 250"

record machine_view =
  mv_id :: uuid
  mv_name :: string
  mv_last_seen :: "time option"
  mv_apps :: bool
  mv_arch :: string
  mv_memory_mib :: nat
  mv_cpu_millis :: nat
  mv_resources_allocatable :: bool
  mv_reserved_memory_mib :: nat
  mv_reserved_cpu_millis :: nat
  mv_max_replica_memory_mib :: nat
  mv_max_replica_cpu_millis :: nat
  mv_labels :: labels
  mv_cordoned :: bool
  mv_kind :: machine_kind
  mv_running_apps :: "string list"

definition mv_connected :: "machine_view \<Rightarrow> time \<Rightarrow> bool" where
  "mv_connected m now = is_some_and (mv_last_seen m) (\<lambda>seen. now - seen \<le> UNREACHABLE_AFTER)"

definition allocatable_memory_mib :: "machine_view \<Rightarrow> nat" where
  "allocatable_memory_mib m =
     (if mv_resources_allocatable m then mv_memory_mib m
      else mv_memory_mib m - RESERVED_MEMORY_MIB)"

definition allocatable_cpu_millis :: "machine_view \<Rightarrow> nat" where
  "allocatable_cpu_millis m =
     (if mv_resources_allocatable m then mv_cpu_millis m
      else mv_cpu_millis m - RESERVED_CPU_MILLIS)"

definition mv_domain :: "machine_view \<Rightarrow> string option \<Rightarrow> string" where
  "mv_domain m spread_by =
     (case Option.bind spread_by (labels_get (mv_labels m)) of None \<Rightarrow> '''' | Some v \<Rightarrow> v)"

definition allowed :: "app_settings \<Rightarrow> machine_view \<Rightarrow> bool" where
  "allowed settings m =
     (let rules = set_placement settings in
      \<not> mv_cordoned m \<and>
      (set_machines settings = [] \<or> mv_name m \<in> set (set_machines settings)) \<and>
      list_all (\<lambda>(k, v). labels_get (mv_labels m) k = Some v) (rule_labels rules) \<and>
      is_none_or (rule_kind rules) (\<lambda>k. k = mv_kind m))"

record usage =
  use_running :: nat
  use_memory_mib :: nat
  use_cpu_millis :: nat

definition usage_default :: usage where
  "usage_default = \<lparr>use_running = 0, use_memory_mib = 0, use_cpu_millis = 0\<rparr>"

section \<open>Why no machine can take a replica\<close>

datatype unplaceable =
    NoMachine
  | NoMatchingMachine
  | NoCapability
  | NoArchitecture
  | RefusedByMachine
  | InsufficientResources

text \<open>
  The derived order of the enum: a later reason means a machine got further through the filters.
\<close>

fun unplaceable_rank :: "unplaceable \<Rightarrow> nat" where
  "unplaceable_rank NoMachine = 0"
| "unplaceable_rank NoMatchingMachine = 1"
| "unplaceable_rank NoCapability = 2"
| "unplaceable_rank NoArchitecture = 3"
| "unplaceable_rank RefusedByMachine = 4"
| "unplaceable_rank InsufficientResources = 5"

lemma unplaceable_rank_inject: "unplaceable_rank u = unplaceable_rank v \<longleftrightarrow> u = v"
  by (cases u; cases v) simp_all

instantiation unplaceable :: linorder
begin

definition less_eq_unplaceable :: "unplaceable \<Rightarrow> unplaceable \<Rightarrow> bool" where
  "less_eq_unplaceable u v \<longleftrightarrow> unplaceable_rank u \<le> unplaceable_rank v"

definition less_unplaceable :: "unplaceable \<Rightarrow> unplaceable \<Rightarrow> bool" where
  "less_unplaceable u v \<longleftrightarrow> unplaceable_rank u < unplaceable_rank v"

instance
  by standard
    (auto simp: less_eq_unplaceable_def less_unplaceable_def unplaceable_rank_inject)

end

definition rules_words :: "app_settings \<Rightarrow> string option" where
  "rules_words settings =
     (let rules = set_placement settings;
          parts =
            (if set_machines settings = [] then []
             else [''named '' @ join '' or '' (set_machines settings)]) @
            (if rule_labels rules = [] then [] else [''labelled '' @ labels_text (rule_labels rules)]) @
            (case rule_kind rules of
               Some Own \<Rightarrow> [''of your own''] | Some Hosted \<Rightarrow> [''hosted by grund''] | None \<Rightarrow> [])
      in if parts = [] then None else Some (join '', '' parts))"

definition format_cpu :: "nat \<Rightarrow> string" where
  "format_cpu m =
     (if m mod 1000 = 0 then show_nat (m div 1000)
      else trim_end_matches CHR ''0'' (show_thousandths_2 m))"

definition unplaceable_message :: "unplaceable \<Rightarrow> release \<Rightarrow> app_settings \<Rightarrow> string" where
  "unplaceable_message u rel settings =
     (let size = show_nat (spec_memory_mib (rel_spec rel)) @ '' MiB of memory and ''
                   @ format_cpu (spec_cpu_millis (rel_spec rel)) @ '' CPU''
      in case u of
        NoMachine \<Rightarrow> ''Waiting for a machine.''
      | NoMatchingMachine \<Rightarrow>
          (case rules_words settings of
             Some words \<Rightarrow> ''Waiting for a machine '' @ words @ ''.''
           | None \<Rightarrow> ''Waiting for a machine in service.'')
      | NoCapability \<Rightarrow> ''Waiting for a machine that can run containers.''
      | NoArchitecture \<Rightarrow>
          ''Waiting for a machine the image runs on ('' @ join '', '' (rel_platforms rel) @ '').''
      | RefusedByMachine \<Rightarrow> ''Waiting for a machine that allows '' @ size @ '' per copy.''
      | InsufficientResources \<Rightarrow> ''Waiting for a machine with '' @ size @ '' free.'')"

section \<open>Filter, score, pick\<close>

datatype verdict = Skipped | Refused unplaceable | Candidate

text \<open>The body of the loop over the machines, up to \<open>candidates.push\<close>.\<close>

definition screen ::
  "release \<Rightarrow> app_settings \<Rightarrow> (uuid \<Rightarrow> usage) \<Rightarrow> time \<Rightarrow> machine_view \<Rightarrow> verdict" where
  "screen rel settings usage now m =
     (let memory = spec_memory_mib (rel_spec rel); cpu = spec_cpu_millis (rel_spec rel) in
      if \<not> mv_connected m now then Skipped
      else if \<not> allowed settings m then Refused NoMatchingMachine
      else if \<not> mv_apps m then Refused NoCapability
      else if rel_platforms rel \<noteq> [] \<and> mv_arch m \<notin> set (rel_platforms rel)
        then Refused NoArchitecture
      else if (mv_max_replica_memory_mib m > 0 \<and> memory > mv_max_replica_memory_mib m) \<or>
              (mv_max_replica_cpu_millis m > 0 \<and> cpu > mv_max_replica_cpu_millis m)
        then Refused RefusedByMachine
      else
        let used = usage (mv_id m);
            free_memory = allocatable_memory_mib m
                            - u64_add (mv_reserved_memory_mib m) (use_memory_mib used);
            free_cpu = allocatable_cpu_millis m
                            - u32_add (mv_reserved_cpu_millis m) (use_cpu_millis used)
        in if memory > free_memory \<or> cpu > free_cpu then Refused InsufficientResources
           else Candidate)"

definition furthest_step ::
  "(machine_view \<Rightarrow> verdict) \<Rightarrow> machine_view \<Rightarrow> unplaceable \<times> machine_view list
     \<Rightarrow> unplaceable \<times> machine_view list" where
  "furthest_step scr m acc =
     (case scr m of
        Skipped \<Rightarrow> acc
      | Refused u \<Rightarrow> (max (fst acc) u, snd acc)
      | Candidate \<Rightarrow> (fst acc, snd acc @ [m]))"

definition in_domain ::
  "app_settings \<Rightarrow> machine_view list \<Rightarrow> (uuid \<Rightarrow> usage) \<Rightarrow> string \<Rightarrow> nat" where
  "in_domain settings machines usage d =
     (let spread_by = rule_spread_by (set_placement settings) in
      case spread_by of
        None \<Rightarrow> 0
      | Some _ \<Rightarrow> as_u32 (sum_list (map (\<lambda>m. use_running (usage (mv_id m)))
                    (filter (\<lambda>m. mv_domain m spread_by = d) machines))))"

type_synonym score = "nat \<times> nat \<times> bool \<times> bool \<times> nat \<times> nat \<times> uuid"

definition place_score ::
  "app_settings \<Rightarrow> machine_view list \<Rightarrow> (uuid \<Rightarrow> usage) \<Rightarrow> uuid option \<Rightarrow> machine_view \<Rightarrow> score"
  where
  "place_score settings machines usage prefer m =
     (let rules = set_placement settings;
          used = usage (mv_id m);
          reserved = u64_add (mv_reserved_memory_mib m) (use_memory_mib used);
          share = u64_saturating_mul reserved 1000000 div max (allocatable_memory_mib m) 1;
          far = (rule_near rules \<noteq> [] \<and>
                 \<not> list_ex (\<lambda>a. a \<in> set (mv_running_apps m)) (rule_near rules));
          beside = length (filter (\<lambda>a. a \<in> set (mv_running_apps m)) (rule_apart rules))
      in (in_domain settings machines usage (mv_domain m (rule_spread_by rules)),
          use_running used, prefer \<noteq> Some (mv_id m), far, beside, share, mv_id m))"

definition place ::
  "release \<Rightarrow> app_settings \<Rightarrow> machine_view list \<Rightarrow> (uuid \<Rightarrow> usage) \<Rightarrow> uuid option \<Rightarrow> time
     \<Rightarrow> unplaceable + uuid" where
  "place rel settings machines usage prefer now =
     (case fold (furthest_step (screen rel settings usage now)) machines (NoMachine, []) of
        (furthest, candidates) \<Rightarrow>
          (case min_by_key (place_score settings machines usage prefer) candidates of
             None \<Rightarrow> Inl furthest
           | Some m \<Rightarrow> Inr (mv_id m)))"

section \<open>What a choice promises\<close>

definition fits ::
  "release \<Rightarrow> app_settings \<Rightarrow> (uuid \<Rightarrow> usage) \<Rightarrow> time \<Rightarrow> machine_view \<Rightarrow> bool" where
  "fits rel settings usage now m \<longleftrightarrow> screen rel settings usage now m = Candidate"

text \<open>
  The interface the reconciler relies on: a choice is one of the machines and fits; a refusal
  means that no machine fits.
\<close>

locale placer =
  fixes pick :: "'m list \<Rightarrow> 'u + 'i"
    and suits :: "'m \<Rightarrow> bool"
    and ident :: "'m \<Rightarrow> 'i"
  assumes pick_Inr: "pick ms = Inr i \<Longrightarrow> \<exists>m\<in>set ms. ident m = i \<and> suits m"
    and pick_Inl: "pick ms = Inl u \<Longrightarrow> \<not> (\<exists>m\<in>set ms. suits m)"
begin

lemma pick_ok_iff: "(\<exists>i. pick ms = Inr i) \<longleftrightarrow> (\<exists>m\<in>set ms. suits m)"
proof
  assume "\<exists>m\<in>set ms. suits m"
  then show "\<exists>i. pick ms = Inr i"
    using pick_Inl[of ms] by (cases "pick ms") auto
qed (auto dest: pick_Inr)

lemma pick_mono:
  "pick ms = Inr i \<Longrightarrow> set ms \<subseteq> set ns \<Longrightarrow> \<exists>j. pick ns = Inr j"
  using pick_Inr[of ms i] unfolding pick_ok_iff by blast

lemma pick_refused_anti:
  "pick ns = Inl u \<Longrightarrow> set ms \<subseteq> set ns \<Longrightarrow> \<exists>v. pick ms = Inl v"
  using pick_mono[of ms _ ns] by (cases "pick ms") auto

end

lemma furthest_fold:
  "fold (furthest_step scr) ms (u, cs) =
     (fold max (List.map_filter (\<lambda>m. case scr m of Refused v \<Rightarrow> Some v | _ \<Rightarrow> None) ms) u,
      cs @ filter (\<lambda>m. scr m = Candidate) ms)"
  by (induction ms arbitrary: u cs)
    (auto simp: furthest_step_def map_filter_def max.commute split: verdict.splits)

lemma place_Inr:
  assumes "place rel settings ms usage prefer now = Inr i"
  obtains m where "m \<in> set ms" "mv_id m = i" "fits rel settings usage now m"
    "\<And>m'. m' \<in> set ms \<Longrightarrow> fits rel settings usage now m' \<Longrightarrow>
       place_score settings ms usage prefer m \<le> place_score settings ms usage prefer m'"
proof -
  from assms obtain m where i: "mv_id m = i" and
    m: "min_by_key (place_score settings ms usage prefer)
          (filter (\<lambda>m. screen rel settings usage now m = Candidate) ms) = Some m"
    by (auto simp: place_def furthest_fold split: option.splits)
  show thesis
    using min_by_key_SomeD[OF m] i by (intro that[of m]) (auto simp: fits_def)
qed

lemma place_Inl:
  assumes "place rel settings ms usage prefer now = Inl u"
  shows "\<not> (\<exists>m\<in>set ms. fits rel settings usage now m)"
    and "u = fold max (List.map_filter
           (\<lambda>m. case screen rel settings usage now m of Refused v \<Rightarrow> Some v | _ \<Rightarrow> None) ms) NoMachine"
  using assms
  by (auto simp: place_def furthest_fold fits_def filter_empty_conv split: option.splits)

interpretation placement: placer
  "\<lambda>ms. place rel settings ms usage pref now" "fits rel settings usage now" mv_id
  for rel settings usage pref now
proof unfold_locales
  fix ms i
  assume "place rel settings ms usage pref now = Inr i"
  then show "\<exists>m\<in>set ms. mv_id m = i \<and> fits rel settings usage now m"
    by (rule place_Inr) blast
next
  fix ms u
  assume "place rel settings ms usage pref now = Inl u"
  then show "\<not> (\<exists>m\<in>set ms. fits rel settings usage now m)"
    by (rule place_Inl)
qed

text \<open>Of a fraction that rounds up to a whole, only the zeros are trimmed.\<close>

lemma format_cpu_leaves_the_point: "format_cpu 1999 = ''2.''" "format_cpu 1990 = ''1.99''"
  by code_simp+

end
