(* ===== verification/Reconcile.thy ===== *)
theory Reconcile
  imports App_Inv Placement
begin

text \<open>
  The app reconciler's decision (\<open>grund-domain/src/app/reconcile.rs\<close>): from an app, what its
  machines report and where it could run, the events that move it one step closer to running its
  target release on every slot. \<open>pass\<close> is the struct \<open>Pass\<close>: the working copy of the app, the
  events and waits decided so far, and the inputs of the pass. Every function that takes
  \<open>&mut Pass\<close> takes a \<open>pass\<close> and returns the next one. The closure \<open>new_id\<close> is the sequence of
  the values it returns, read at the number of calls made so far.
\<close>

section \<open>Inputs and outputs of a pass\<close>

definition SPREAD_MOVE_EVERY :: duration where
  "SPREAD_MOVE_EVERY = minutes 5"

definition EXITS_BEFORE_READY :: nat where
  "EXITS_BEFORE_READY = 3"

datatype observed =
    Obs_Pulling
  | Obs_Starting
  | Obs_Running
  | Obs_Exited
  | Obs_Failed
  | Obs_Refused
  | Obs_Stopping

definition observed_as_str :: "observed \<Rightarrow> string" where
  "observed_as_str x =
     (case x of Obs_Pulling \<Rightarrow> ''pulling'' | Obs_Starting \<Rightarrow> ''starting''
      | Obs_Running \<Rightarrow> ''running'' | Obs_Exited \<Rightarrow> ''exited'' | Obs_Failed \<Rightarrow> ''failed''
      | Obs_Refused \<Rightarrow> ''refused'' | Obs_Stopping \<Rightarrow> ''stopping'')"

definition observed_parse :: "string \<Rightarrow> observed option" where
  "observed_parse text =
     (if text = ''pulling'' then Some Obs_Pulling
      else if text = ''starting'' then Some Obs_Starting
      else if text = ''running'' then Some Obs_Running
      else if text = ''exited'' then Some Obs_Exited
      else if text = ''failed'' then Some Obs_Failed
      else if text = ''refused'' then Some Obs_Refused
      else if text = ''stopping'' then Some Obs_Stopping
      else None)"

record observation =
  ob_replica :: uuid
  ob_state :: observed
  ob_ready :: bool
  ob_ready_since :: "time option"
  ob_ever_ready :: bool
  ob_restarts :: nat
  ob_last_exit_code :: int
  ob_reason :: string
  ob_idle :: bool

record waiting =
  wait_slot :: nat
  wait_reason :: unplaceable
  wait_message :: string

record stack_policy =
  pol_exclusive :: bool
  pol_strict_surge :: bool
  pol_stopping :: bool
  pol_terminal_receipts :: "uuid list"

record decision =
  dec_events :: "app_event list"
  dec_waiting :: "waiting list"

record inputs =
  in_observations :: "observation list"
  in_machines :: "machine_view list"
  in_ended_leases :: "(uuid \<times> bool) list"
  in_stateful :: bool
  in_policy :: "stack_policy option"
  in_now :: time
  in_new_id :: "nat \<Rightarrow> uuid"

record pass =
  work :: app
  events :: "app_event list"
  waits :: "waiting list"
  ids_used :: nat

section \<open>Observers of a pass\<close>

definition emit :: "app_event \<Rightarrow> pass \<Rightarrow> pass" where
  "emit e p = p\<lparr>work := app_apply (work p) e, events := events p @ [e]\<rparr>"

definition pass_machine :: "inputs \<Rightarrow> uuid \<Rightarrow> machine_view option" where
  "pass_machine inp i = List.find (\<lambda>m. mv_id m = i) (in_machines inp)"

definition pass_observation :: "inputs \<Rightarrow> uuid \<Rightarrow> observation option" where
  "pass_observation inp i = List.find (\<lambda>ob. ob_replica ob = i) (in_observations inp)"

definition connected :: "inputs \<Rightarrow> uuid \<Rightarrow> bool" where
  "connected inp i = is_some_and (pass_machine inp i) (\<lambda>m. mv_connected m (in_now inp))"

definition available :: "inputs \<Rightarrow> app_settings \<Rightarrow> replica \<Rightarrow> bool" where
  "available inp settings r =
     (let min_ready = seconds (min_ready_seconds (set_rollout settings)) in
      rep_state r = Running \<and>
      connected inp (rep_machine r) \<and>
      is_some_and (pass_observation inp (rep_id r)) (\<lambda>ob.
        ob_ready ob \<and> ob_state ob = Obs_Running \<and>
        is_some_and (ob_ready_since ob) (\<lambda>since. in_now inp - since \<ge> min_ready)))"

definition ever_ready :: "inputs \<Rightarrow> replica \<Rightarrow> bool" where
  "ever_ready inp r = is_some_and (pass_observation inp (rep_id r)) ob_ever_ready"

definition running_of :: "replica list \<Rightarrow> replica list" where
  "running_of rs = filter (\<lambda>r. rep_state r = Running) rs"

definition running :: "pass \<Rightarrow> replica list" where
  "running p = running_of (app_replicas (work p))"

definition some_draining :: "pass \<Rightarrow> bool" where
  "some_draining p \<longleftrightarrow> (\<exists>r\<in>set (app_replicas (work p)). rep_state r = Draining)"

definition add_usage :: "app \<Rightarrow> replica \<Rightarrow> usage \<Rightarrow> usage" where
  "add_usage a r u =
     (let u = (if rep_state r = Running then u\<lparr>use_running := u32_add (use_running u) 1\<rparr> else u)
      in case app_release a (rep_release r) of
           None \<Rightarrow> u
         | Some rel \<Rightarrow>
             u\<lparr>use_memory_mib := u64_add (use_memory_mib u) (spec_memory_mib (rel_spec rel)),
               use_cpu_millis := u32_add (use_cpu_millis u) (spec_cpu_millis (rel_spec rel))\<rparr>)"

definition app_usage :: "app \<Rightarrow> uuid \<Rightarrow> usage" where
  "app_usage a i =
     fold (add_usage a) (filter (\<lambda>r. rep_machine r = i) (app_replicas a)) usage_default"

definition drain :: "inputs \<Rightarrow> uuid \<Rightarrow> drain_reason \<Rightarrow> pass \<Rightarrow> pass" where
  "drain inp i reason p = emit (ReplicaDraining i reason (in_now inp)) p"

definition is_exclusive :: "inputs \<Rightarrow> bool" where
  "is_exclusive inp = (in_stateful inp \<or> is_some_and (in_policy inp) pol_exclusive)"

definition strict_surge :: "inputs \<Rightarrow> bool" where
  "strict_surge inp = is_some_and (in_policy inp) pol_strict_surge"

definition strict_surge_full :: "inputs \<Rightarrow> pass \<Rightarrow> bool" where
  "strict_surge_full inp p =
     (let settings = app_settings (work p) in
      strict_surge inp \<and>
      length (filter (\<lambda>r. rep_slot r < set_copies settings) (app_replicas (work p)))
        \<ge> u32_add (set_copies settings) (max_surge (set_rollout settings)))"

definition pass_place ::
  "inputs \<Rightarrow> nat \<Rightarrow> release \<Rightarrow> place_reason \<Rightarrow> uuid option \<Rightarrow> pass
     \<Rightarrow> pass \<times> (unplaceable + uuid)" where
  "pass_place inp slot rel reason prefer p =
     (if strict_surge_full inp p then (p, Inl InsufficientResources)
      else
        case place rel (app_settings (work p)) (in_machines inp) (app_usage (work p)) prefer
               (in_now inp) of
          Inr i \<Rightarrow>
            ((emit (ReplicaPlaced (in_new_id inp (ids_used p)) slot (rel_number rel) i
                     (app_next_placement (work p)) reason (in_now inp)) p)
               \<lparr>ids_used := Suc (ids_used p)\<rparr>,
             Inr i)
        | Inl u \<Rightarrow> (p, Inl u))"

definition freed_usage :: "app \<Rightarrow> replica \<Rightarrow> uuid \<Rightarrow> usage" where
  "freed_usage a leaving i =
     (let u = app_usage a i in
      case app_release a (rep_release leaving) of
        Some rel \<Rightarrow>
          if i = rep_machine leaving then
            u\<lparr>use_running := use_running u - 1,
              use_memory_mib := use_memory_mib u - spec_memory_mib (rel_spec rel),
              use_cpu_millis := use_cpu_millis u - spec_cpu_millis (rel_spec rel)\<rparr>
          else u
      | None \<Rightarrow> u)"

definition fits_without :: "inputs \<Rightarrow> release \<Rightarrow> replica \<Rightarrow> pass \<Rightarrow> bool" where
  "fits_without inp rel leaving p =
     (case place rel (app_settings (work p)) (in_machines inp) (freed_usage (work p) leaving)
             (Some (rep_machine leaving)) (in_now inp) of
        Inr _ \<Rightarrow> True | Inl _ \<Rightarrow> False)"

definition wait :: "nat \<Rightarrow> unplaceable \<Rightarrow> release \<Rightarrow> pass \<Rightarrow> pass" where
  "wait slot reason rel p =
     p\<lparr>waits := waits p @
        [\<lparr>wait_slot = slot, wait_reason = reason,
          wait_message = unplaceable_message reason rel (app_settings (work p))\<rparr>]\<rparr>"

definition misplaced :: "inputs \<Rightarrow> pass \<Rightarrow> replica \<Rightarrow> bool" where
  "misplaced inp p r =
     is_some_and (pass_machine inp (rep_machine r)) (\<lambda>m. \<not> allowed (app_settings (work p)) m)"

definition slot_available :: "inputs \<Rightarrow> pass \<Rightarrow> nat \<Rightarrow> bool" where
  "slot_available inp p slot \<longleftrightarrow>
     list_ex (\<lambda>r. rep_slot r = slot \<and> available inp (app_settings (work p)) r) (running p)"

definition unavailable_slots :: "inputs \<Rightarrow> nat \<Rightarrow> pass \<Rightarrow> nat" where
  "unavailable_slots inp copies p =
     as_u32 (length (filter (\<lambda>slot. \<not> slot_available inp p slot) [0..<copies]))"

definition running_in_range :: "nat \<Rightarrow> pass \<Rightarrow> nat" where
  "running_in_range copies p = as_u32 (length (filter (\<lambda>r. rep_slot r < copies) (running p)))"

section \<open>Leases that ended, machines that are gone, drains that are done\<close>

lemma emit_work [simp]: "work (emit e p) = app_apply (work p) e"
  by (simp add: emit_def)

lemma drain_replicas_length [simp]:
  "length (app_replicas (work (drain inp i reason p))) = length (app_replicas (work p))"
  by (simp add: drain_def replicas_apply)

lemma remove_listed_shorter:
  "r \<in> set (app_replicas a) \<Longrightarrow>
   length (app_replicas (app_apply a (ReplicaRemoved (rep_id r) at))) < length (app_replicas a)"
  unfolding replicas_apply app_event.case by (rule length_filter_less) auto

lemma drain_keeps_listed:
  "r \<in> set (app_replicas (work p)) \<Longrightarrow>
   \<exists>s\<in>set (app_replicas (work (drain inp i reason p))). rep_id s = rep_id r"
proof -
  assume "r \<in> set (app_replicas (work p))"
  then have "rep_id r \<in> set (map rep_id (app_replicas (work p)))" by simp
  also have "map rep_id (app_replicas (work p)) =
      map rep_id (app_replicas (work (drain inp i reason p)))"
    by (simp add: drain_def replicas_apply map_update_first)
  finally show ?thesis by auto
qed

function drain_ended_leases_from :: "inputs \<Rightarrow> nat \<Rightarrow> pass \<Rightarrow> pass" where
  "drain_ended_leases_from inp index p =
     (if index < length (app_replicas (work p)) then
        let r = app_replicas (work p) ! index in
        case List.find (\<lambda>(machine, _). machine = rep_machine r) (in_ended_leases inp) of
          None \<Rightarrow> drain_ended_leases_from inp (index + 1) p
        | Some (_, detached) \<Rightarrow>
            let q = (if rep_state r = Running then drain inp (rep_id r) LeaseEnded p else p) in
            if detached \<and> in_policy inp = None
            then drain_ended_leases_from inp index (emit (ReplicaRemoved (rep_id r) (in_now inp)) q)
            else drain_ended_leases_from inp (index + 1) q
      else p)"
  by pat_completeness auto

termination
proof (relation "measure (\<lambda>(inp, index, p). length (app_replicas (work p)) - index)",
    goal_cases)
  case (3 inp index p r x a b q)
  then have r: "r \<in> set (app_replicas (work p))" by simp
  have "length (app_replicas (work q)) = length (app_replicas (work p))"
    using 3 by simp
  moreover have "q = drain inp (rep_id r) LeaseEnded p \<or> q = p"
    using 3 by simp
  then obtain s where "s \<in> set (app_replicas (work q))" "rep_id s = rep_id r"
    using drain_keeps_listed[OF r] r by blast
  ultimately show ?case
    using 3(1) remove_listed_shorter[of s "work q" "in_now inp"] by auto
qed auto

declare drain_ended_leases_from.simps [simp del]

definition drain_ended_leases :: "inputs \<Rightarrow> pass \<Rightarrow> pass" where
  "drain_ended_leases inp p = drain_ended_leases_from inp 0 p"

definition is_lost :: "inputs \<Rightarrow> pass \<Rightarrow> replica \<Rightarrow> bool" where
  "is_lost inp p r =
     (let after = seconds (set_reschedule_after_seconds (app_settings (work p))) in
      \<not> list_ex (\<lambda>(machine, _). machine = rep_machine r) (in_ended_leases inp) \<and>
      (case pass_machine inp (rep_machine r) of
         None \<Rightarrow> True
       | Some m \<Rightarrow>
           \<not> mv_connected m (in_now inp) \<and>
           is_none_or (mv_last_seen m) (\<lambda>seen. in_now inp - seen \<ge> after)))"

definition lose_replica :: "inputs \<Rightarrow> replica \<Rightarrow> pass \<times> nat set \<Rightarrow> pass \<times> nat set" where
  "lose_replica inp r acc =
     (emit (ReplicaLost (rep_id r) (rep_machine r) (in_now inp)) (fst acc),
      if rep_state r = Running then insert (rep_slot r) (snd acc) else snd acc)"

definition lose_replicas :: "inputs \<Rightarrow> pass \<Rightarrow> pass \<times> nat set" where
  "lose_replicas inp p =
     fold (lose_replica inp) (filter (is_lost inp p) (app_replicas (work p))) (p, {})"

definition has_ended :: "observation \<Rightarrow> bool" where
  "has_ended ob \<longleftrightarrow> ob_state ob = Obs_Exited \<or> ob_state ob = Obs_Failed \<or> ob_state ob = Obs_Refused"

definition drain_done :: "inputs \<Rightarrow> pass \<Rightarrow> replica \<Rightarrow> bool" where
  "drain_done inp p r =
     (let drain = seconds (drain_seconds (set_rollout (app_settings (work p)))) in
      case in_policy inp of
        Some policy \<Rightarrow> rep_id r \<in> set (pol_terminal_receipts policy)
      | None \<Rightarrow>
          if in_stateful inp then
            connected inp (rep_machine r) \<and>
            is_some_and (pass_observation inp (rep_id r)) has_ended
          else
            is_none_or (rep_draining_since r) (\<lambda>since. in_now inp - since \<ge> drain) \<or>
            is_some_and (pass_observation inp (rep_id r)) (\<lambda>ob. ob_idle ob \<or> has_ended ob))"

definition remove :: "inputs \<Rightarrow> uuid \<Rightarrow> pass \<Rightarrow> pass" where
  "remove inp i p = emit (ReplicaRemoved i (in_now inp)) p"

definition finish_drains :: "inputs \<Rightarrow> pass \<Rightarrow> pass" where
  "finish_drains inp p =
     fold (remove inp)
       (map rep_id (filter (drain_done inp p)
          (filter (\<lambda>r. rep_state r = Draining) (app_replicas (work p))))) p"

section \<open>A rollout that fails\<close>

definition span_words :: "duration \<Rightarrow> string" where
  "span_words span =
     (let s = num_seconds span in
      if s < 120 \<or> s mod 60 \<noteq> 0 then show_int s @ '' s'' else show_int (s div 60) @ '' min'')"

definition failure_reason :: "inputs \<Rightarrow> pass \<Rightarrow> release \<Rightarrow> replica \<Rightarrow> string option" where
  "failure_reason inp p rel r =
     (let machine = (case pass_machine inp (rep_machine r) of
                       None \<Rightarrow> ''its machine'' | Some m \<Rightarrow> mv_name m);
          ob = pass_observation inp (rep_id r);
          v = ''v'' @ show_nat (rel_number rel)
      in if is_some_and ob (\<lambda>ob. ob_state ob = Obs_Refused) then
           Some (v @ '' was refused by '' @ machine @ '': '' @ ob_reason (the ob))
         else if is_some_and ob (\<lambda>ob. ob_restarts ob \<ge> EXITS_BEFORE_READY \<and> \<not> ob_ever_ready ob) then
           Some (v @ '' didn't start: it exited '' @ show_nat (ob_restarts (the ob))
             @ '' times before it was ever ready (last exit code ''
             @ show_int (ob_last_exit_code (the ob)) @ '').'')
         else
           let settings = app_settings (work p);
               deadline = seconds (ready_deadline_seconds (set_rollout settings))
           in if in_now inp - rep_placed_at r < deadline \<or> available inp settings r \<or>
                 ever_ready inp r
              then None
              else
                let span = span_words deadline;
                    last = Option.bind ob (\<lambda>ob. if ob_reason ob = [] then None else Some (ob_reason ob));
                    because = (case last of None \<Rightarrow> [] | Some why \<Rightarrow> '': '' @ why)
                in Some (
                  if is_none_or ob (\<lambda>ob. ob_state ob = Obs_Pulling \<or> ob_state ob = Obs_Failed) then
                    v @ '' didn't start on '' @ machine @ '' within '' @ span @ because @ ''.''
                  else
                    case spec_check (rel_spec rel) of
                      Some check \<Rightarrow>
                        v @ '' didn't become ready: its check on ''
                        @ (case check_kind check of
                             Check_Http path \<Rightarrow>
                               path @ '' (port '' @ show_nat (check_port check) @ '')''
                           | Check_Tcp \<Rightarrow> ''port '' @ show_nat (check_port check))
                        @ '' failed for '' @ span
                        @ (case last of None \<Rightarrow> []
                           | Some why \<Rightarrow> '' (last answer: '' @ why @ '')'') @ ''.''
                    | None \<Rightarrow> v @ '' didn't keep running within '' @ span @ because @ ''.''))"

definition fail_rollout :: "inputs \<Rightarrow> string \<Rightarrow> pass \<Rightarrow> pass" where
  "fail_rollout inp reason p =
     (case app_rollout (work p) of
        None \<Rightarrow> p
      | Some ro \<Rightarrow>
          let rolled_back = set_auto_rollback (app_settings (work p));
              q = emit (RolloutFailed (ro_id ro) reason rolled_back (in_now inp)) p
          in if \<not> rolled_back then q
             else if in_stateful inp \<or> in_policy inp \<noteq> None then
               fold (\<lambda>i. drain inp i Replaced)
                 (map rep_id (filter (\<lambda>r. rep_release r = ro_to ro) (running q))) q
             else
               fold (remove inp)
                 (map rep_id (filter (\<lambda>r. rep_release r = ro_to ro \<and> \<not> ever_ready inp r)
                    (running q))) q)"

definition fail_rollout_on_a_bad_replica :: "inputs \<Rightarrow> pass \<Rightarrow> pass" where
  "fail_rollout_on_a_bad_replica inp p =
     (case app_rollout (work p) of
        None \<Rightarrow> p
      | Some ro \<Rightarrow>
          (case app_release (work p) (ro_to ro) of
             None \<Rightarrow> p
           | Some rel \<Rightarrow>
               if is_exclusive inp \<and> list_ex (\<lambda>r. \<not> connected inp (rep_machine r)) (running p)
               then p
               else
                 (case find_map (failure_reason inp p rel)
                         (filter (\<lambda>r. rep_release r = ro_to ro) (running p)) of
                    Some reason \<Rightarrow> fail_rollout inp reason p
                  | None \<Rightarrow> p)))"

section \<open>Converging on the target release\<close>

definition converge_target :: "pass \<Rightarrow> release option" where
  "converge_target p = Option.bind (app_target (work p)) (app_release (work p))"

definition is_serial :: "pass \<Rightarrow> bool" where
  "is_serial p = is_some_and (app_rollout (work p)) ro_serial"

definition serial_slot :: "inputs \<Rightarrow> release \<Rightarrow> nat \<Rightarrow> pass \<Rightarrow> nat option" where
  "serial_slot inp target copies p =
     List.find (\<lambda>slot.
       let here = filter (\<lambda>r. rep_slot r = slot) (app_replicas (work p)) in
       list_ex (\<lambda>r. rep_release r \<noteq> rel_number target) here \<or>
       \<not> list_ex (available inp (app_settings (work p))) here) [0..<copies]"

definition drain_scaled_down :: "inputs \<Rightarrow> nat \<Rightarrow> pass \<Rightarrow> pass" where
  "drain_scaled_down inp copies p =
     fold (\<lambda>r q. if rep_slot r \<ge> copies then drain inp (rep_id r) ScaledDown q else q)
       (running p) p"

definition in_slot :: "nat \<Rightarrow> pass \<Rightarrow> replica list" where
  "in_slot slot p =
     sort_key (\<lambda>r. - int (rep_placement r)) (filter (\<lambda>r. rep_slot r = slot) (running p))"

text \<open>The newest copy of the target is on a machine the placement no longer allows.\<close>

definition move_misplaced ::
  "inputs \<Rightarrow> release \<Rightarrow> nat \<Rightarrow> nat \<Rightarrow> nat \<Rightarrow> replica \<Rightarrow> pass \<Rightarrow> pass" where
  "move_misplaced inp target copies surge slot newest p =
     (if running_in_range copies p < u32_add copies surge then
        case pass_place inp slot target Move None p of
          (q, Inr _) \<Rightarrow> q
        | (q, Inl u) \<Rightarrow>
            let q = wait slot u target q;
                on = (case pass_machine inp (rep_machine newest) of
                        None \<Rightarrow> '''' | Some m \<Rightarrow> mv_name m)
            in q\<lparr>waits := butlast (waits q) @
                  [(last (waits q))\<lparr>wait_message :=
                     ''A copy on '' @ on @ '' must move. '' @ wait_message (last (waits q))\<rparr>]\<rparr>
      else p)"

text \<open>A copy of the target is running in the slot: the others leave when they may.\<close>

definition settle_newest :: "inputs \<Rightarrow> replica list \<Rightarrow> replica \<Rightarrow> pass \<Rightarrow> pass" where
  "settle_newest inp here newest p =
     (let avail = available inp (app_settings (work p));
          keep_other =
            (if avail newest then None
             else map_option rep_id
                    (List.find (\<lambda>r. rep_id r \<noteq> rep_id newest \<and> avail r) here))
      in fold (\<lambda>other q.
           if rep_id other \<noteq> rep_id newest \<and> Some (rep_id other) \<noteq> keep_other \<and>
              (avail newest \<or> \<not> avail other)
           then drain inp (rep_id other) Replaced q else q) here p)"

definition place_empty_slot ::
  "inputs \<Rightarrow> release \<Rightarrow> nat set \<Rightarrow> nat \<Rightarrow> pass \<Rightarrow> pass" where
  "place_empty_slot inp target lost slot p =
     (let reason = (if slot \<in> lost then ReplaceLost
                    else if app_rollout (work p) \<noteq> None then Rolling else Scale)
      in case pass_place inp slot target reason None p of
           (q, Inr _) \<Rightarrow> q
         | (q, Inl u) \<Rightarrow> wait slot u target q)"

text \<open>The slot runs an older release: surge beside it, or take it down first.\<close>

definition replace_old ::
  "inputs \<Rightarrow> release \<Rightarrow> nat \<Rightarrow> nat \<Rightarrow> nat \<Rightarrow> nat \<Rightarrow> replica \<Rightarrow> pass \<Rightarrow> pass" where
  "replace_old inp target copies surge unavailable slot old p =
     (if is_exclusive inp then
        (if connected inp (rep_machine old) then drain inp (rep_id old) Replaced p else p)
      else if running_in_range copies p < u32_add copies surge then
        (case pass_place inp slot target Rolling (Some (rep_machine old)) p of
           (q, Inr _) \<Rightarrow> q
         | (q, Inl u) \<Rightarrow>
             if u = InsufficientResources \<and> \<not> strict_surge inp \<and>
                (copies = 1 \<or> unavailable_slots inp copies q = 0) \<and>
                fits_without inp target old q
             then drain inp (rep_id old) NoRoom q
             else wait slot u target q)
      else if \<not> strict_surge inp \<and> unavailable > 0 \<and> unavailable_slots inp copies p < unavailable
        then drain inp (rep_id old) Replaced p
      else p)"

definition drain_others :: "inputs \<Rightarrow> uuid option \<Rightarrow> replica list \<Rightarrow> pass \<Rightarrow> pass" where
  "drain_others inp best here p =
     fold (\<lambda>other q. if Some (rep_id other) \<noteq> best then drain inp (rep_id other) Replaced q else q)
       here p"

definition converge_slot ::
  "inputs \<Rightarrow> release \<Rightarrow> nat \<Rightarrow> nat \<Rightarrow> nat \<Rightarrow> nat set \<Rightarrow> nat \<Rightarrow> pass \<Rightarrow> pass" where
  "converge_slot inp target copies surge unavailable lost slot p =
     (let here = in_slot slot p in
      if is_exclusive inp \<and> app_replicas (work p) \<noteq> [] \<and> some_draining p then p
      else
        case List.find (\<lambda>r. rep_release r = rel_number target) here of
          Some newest \<Rightarrow>
            if is_exclusive inp \<and> \<not> connected inp (rep_machine newest) then p
            else if is_exclusive inp \<and> misplaced inp p newest then p
            else if misplaced inp p newest then
              move_misplaced inp target copies surge slot newest p
            else settle_newest inp here newest p
        | None \<Rightarrow>
            let best = or_else (List.find (available inp (app_settings (work p))) here)
                         (first_opt here);
                q = drain_others inp (map_option rep_id best) here p
            in case best of
                 None \<Rightarrow> place_empty_slot inp target lost slot q
               | Some old \<Rightarrow> replace_old inp target copies surge unavailable slot old q)"

definition awaiting_capacity :: "pass \<Rightarrow> bool" where
  "awaiting_capacity p =
     (rule_kind (set_placement (app_settings (work p))) = Some Hosted \<and>
      list_all (\<lambda>w. wait_reason w = NoMachine \<or> wait_reason w = NoMatchingMachine \<or>
                    wait_reason w = InsufficientResources) (waits p))"

definition fail_unplaced_rollout :: "inputs \<Rightarrow> pass \<Rightarrow> pass" where
  "fail_unplaced_rollout inp p =
     (if in_stateful inp then p
      else
        case app_rollout (work p) of
          None \<Rightarrow> p
        | Some ro \<Rightarrow>
            let deadline = seconds (ready_deadline_seconds (set_rollout (app_settings (work p))))
            in case first_opt (waits p) of
                 None \<Rightarrow> p
               | Some w \<Rightarrow>
                   if in_now inp - ro_started_at ro \<ge> deadline \<and> \<not> awaiting_capacity p then
                     fail_rollout inp
                       (''v'' @ show_nat (ro_to ro) @ '' couldn't be placed for ''
                        @ span_words deadline @ '': '' @ wait_message w) p
                   else p)"

definition converge_slots ::
  "inputs \<Rightarrow> release \<Rightarrow> nat \<Rightarrow> nat \<Rightarrow> nat \<Rightarrow> nat set \<Rightarrow> bool \<Rightarrow> nat option \<Rightarrow> nat list
     \<Rightarrow> pass \<Rightarrow> pass" where
  "converge_slots inp target copies surge unavailable lost serial only slots p =
     fold (\<lambda>slot q. if serial \<and> only \<noteq> Some slot then q
                    else converge_slot inp target copies surge unavailable lost slot q) slots p"

definition converge :: "inputs \<Rightarrow> nat set \<Rightarrow> pass \<Rightarrow> pass" where
  "converge inp lost p =
     (case converge_target p of
        None \<Rightarrow> fold (\<lambda>i. drain inp i NoRelease) (map rep_id (running p)) p
      | Some target \<Rightarrow>
          let settings = app_settings (work p);
              copies = set_copies settings;
              serial = is_serial p;
              surge = (if serial then min (max_surge (set_rollout settings)) 1
                       else max_surge (set_rollout settings));
              unavailable = (if serial then min (max_unavailable (set_rollout settings)) 1
                             else max_unavailable (set_rollout settings))
          in if serial \<and> some_draining p then p
             else
               let only = (if serial then serial_slot inp target copies p else None)
               in fail_unplaced_rollout inp
                    (converge_slots inp target copies surge unavailable lost serial only
                       [0..<copies] (drain_scaled_down inp copies p)))"

section \<open>A rollout that is done, and the spread\<close>

definition rollout_done :: "inputs \<Rightarrow> rollout \<Rightarrow> pass \<Rightarrow> bool" where
  "rollout_done inp ro p =
     (let settings = app_settings (work p);
          copies = set_copies settings;
          every_slot_ready =
            list_all (\<lambda>slot. list_ex (\<lambda>r. rep_slot r = slot \<and> rep_release r = ro_to ro \<and>
               available inp settings r) (running p)) [0..<copies];
          only_target =
            list_all (\<lambda>r. rep_release r = ro_to ro \<and> rep_slot r < copies) (running p);
          drained =
            (\<not> ro_serial ro \<or>
             list_all (\<lambda>r. rep_state r \<noteq> Draining) (app_replicas (work p)))
      in every_slot_ready \<and> only_target \<and> drained)"

definition finish_rollout :: "inputs \<Rightarrow> pass \<Rightarrow> pass" where
  "finish_rollout inp p =
     (if in_policy inp \<noteq> None \<and> some_draining p then p
      else
        case app_rollout (work p) of
          None \<Rightarrow> p
        | Some ro \<Rightarrow>
            if rollout_done inp ro p then
              let q = emit (RolloutSucceeded (ro_id ro) (in_now inp)) p in
              if app_current_release (work q) \<noteq> Some (ro_to ro)
              then emit (CurrentReleaseSet (ro_to ro) (in_now inp)) q else q
            else p)"

definition domain_of :: "inputs \<Rightarrow> app_settings \<Rightarrow> uuid \<Rightarrow> string" where
  "domain_of inp settings i =
     (case pass_machine inp i of
        None \<Rightarrow> '''' | Some m \<Rightarrow> mv_domain m (rule_spread_by (set_placement settings)))"

definition count_on_machine :: "replica list \<Rightarrow> uuid \<Rightarrow> nat" where
  "count_on_machine rs i = length (filter (\<lambda>r. rep_machine r = i) rs)"

definition count_in_domain :: "inputs \<Rightarrow> app_settings \<Rightarrow> replica list \<Rightarrow> string \<Rightarrow> nat" where
  "count_in_domain inp settings rs d =
     length (filter (\<lambda>r. domain_of inp settings (rep_machine r) = d) rs)"

definition spread_source :: "inputs \<Rightarrow> app_settings \<Rightarrow> replica list \<Rightarrow> replica option" where
  "spread_source inp settings rs =
     max_by_key (\<lambda>r.
       (count_in_domain inp settings rs (domain_of inp settings (rep_machine r)),
        count_on_machine rs (rep_machine r), - int (rep_machine r), rep_slot r)) rs"

definition better_spread ::
  "inputs \<Rightarrow> app_settings \<Rightarrow> replica list \<Rightarrow> uuid \<Rightarrow> uuid \<Rightarrow> bool" where
  "better_spread inp settings rs source chosen =
     (let frm = domain_of inp settings source;
          to = domain_of inp settings chosen;
          zs = count_in_domain inp settings rs frm;
          zd = count_in_domain inp settings rs to;
          ms = count_on_machine rs source;
          md = count_on_machine rs chosen
      in if frm = to then ms \<ge> md + 2
         else zs > zd + 1 \<or> (zs = zd + 1 \<and> ms \<ge> md + 2))"

definition spread_settled :: "inputs \<Rightarrow> pass \<Rightarrow> bool" where
  "spread_settled inp p =
     (is_exclusive inp \<or> strict_surge_full inp p \<or>
      app_rollout (work p) \<noteq> None \<or> waits p \<noteq> [] \<or> events p \<noteq> [] \<or>
      is_some_and (app_last_spread_move (work p)) (\<lambda>at. in_now inp - at < SPREAD_MOVE_EVERY))"

definition repair_spread :: "inputs \<Rightarrow> pass \<Rightarrow> pass" where
  "repair_spread inp p =
     (if spread_settled inp p then p
      else
        case converge_target p of
          None \<Rightarrow> p
        | Some target \<Rightarrow>
            let settings = app_settings (work p); copies = set_copies settings; rs = running p in
            if as_u32 (length rs) \<noteq> copies \<or> unavailable_slots inp copies p > 0 \<or>
               list_ex (\<lambda>r. rep_release r \<noteq> rel_number target) rs
            then p
            else
              case spread_source inp settings rs of
                None \<Rightarrow> p
              | Some source \<Rightarrow>
                  (case place target settings (in_machines inp) (app_usage (work p)) None
                          (in_now inp) of
                     Inl _ \<Rightarrow> p
                   | Inr chosen \<Rightarrow>
                       if chosen = rep_machine source \<or>
                          \<not> better_spread inp settings rs (rep_machine source) chosen
                       then p
                       else
                         (emit (ReplicaPlaced (in_new_id inp (ids_used p)) (rep_slot source)
                             (rel_number target) chosen (app_next_placement (work p)) Spread
                             (in_now inp)) p)\<lparr>ids_used := Suc (ids_used p)\<rparr>))"

section \<open>One pass\<close>

definition start_pass :: "app \<Rightarrow> pass" where
  "start_pass a = \<lparr>work = a, events = [], waits = [], ids_used = 0\<rparr>"

definition policy_stopping :: "inputs \<Rightarrow> bool" where
  "policy_stopping inp = is_some_and (in_policy inp) pol_stopping"

definition lose_or_keep :: "inputs \<Rightarrow> pass \<Rightarrow> pass \<times> nat set" where
  "lose_or_keep inp p =
     (if in_stateful inp \<or> is_some_and (in_policy inp) (\<lambda>x. pol_exclusive x \<or> pol_stopping x)
      then (p, {}) else lose_replicas inp p)"

definition run_pass :: "inputs \<Rightarrow> app \<Rightarrow> pass" where
  "run_pass inp a =
     (let p = drain_ended_leases inp (start_pass a);
          (p, lost) = lose_or_keep inp p;
          p = finish_drains inp p
      in if policy_stopping inp
         then fold (\<lambda>i. drain inp i DrainDeleted) (map rep_id (running p)) p
         else if app_halted (work p) then p
         else
           let p = fail_rollout_on_a_bad_replica inp p in
           if app_halted (work p) then p
           else repair_spread inp (finish_rollout inp (converge inp lost p)))"

definition reconcile_with_policy :: "inputs \<Rightarrow> app \<Rightarrow> decision" where
  "reconcile_with_policy inp a =
     (if \<not> app_exists a \<or> app_deleted a then \<lparr>dec_events = [], dec_waiting = []\<rparr>
      else let p = run_pass inp a in \<lparr>dec_events = events p, dec_waiting = waits p\<rparr>)"

definition reconcile_with_volumes :: "inputs \<Rightarrow> app \<Rightarrow> decision" where
  "reconcile_with_volumes inp a = reconcile_with_policy (inp\<lparr>in_policy := None\<rparr>) a"

definition reconcile :: "inputs \<Rightarrow> app \<Rightarrow> decision" where
  "reconcile inp a =
     reconcile_with_volumes (inp\<lparr>in_ended_leases := [], in_stateful := False\<rparr>) a"

end
