(* ===== verification/Reconcile_Steps.thy ===== *)
theory Reconcile_Steps
  imports Reconcile
begin

text \<open>
  The reconciler as an abstract machine. \<open>pass_step\<close> lists the only things a pass may do, each
  with the guard under which the code does it; \<open>run_pass_steps\<close> shows that a whole pass is a
  sequence of such steps (a simulation of the code by the machine). What holds of every step then
  holds of every pass by rule induction.
\<close>

section \<open>The steps\<close>

definition place_event :: "inputs \<Rightarrow> nat \<Rightarrow> nat \<Rightarrow> uuid \<Rightarrow> place_reason \<Rightarrow> pass \<Rightarrow> app_event" where
  "place_event inp slot n i reason p =
     ReplicaPlaced (in_new_id inp (ids_used p)) slot n i (app_next_placement (work p)) reason
       (in_now inp)"

text \<open>
  When an exclusive app (one with volumes, or of an exclusive stack) gets a copy, nothing is
  leaving and every copy runs in another slot of the app's range.
\<close>

definition slot_clear :: "nat \<Rightarrow> pass \<Rightarrow> bool" where
  "slot_clear slot p \<longleftrightarrow>
     slot < set_copies (app_settings (work p)) \<and>
     (\<forall>r\<in>set (app_replicas (work p)).
        rep_state r = Running \<and> rep_slot r \<noteq> slot \<and>
        rep_slot r < set_copies (app_settings (work p)))"

definition succeed :: "inputs \<Rightarrow> rollout \<Rightarrow> pass \<Rightarrow> pass" where
  "succeed inp ro p =
     (let q = emit (RolloutSucceeded (ro_id ro) (in_now inp)) p in
      if app_current_release (work q) \<noteq> Some (ro_to ro)
      then emit (CurrentReleaseSet (ro_to ro) (in_now inp)) q else q)"

inductive pass_step :: "inputs \<Rightarrow> pass \<Rightarrow> pass \<Rightarrow> bool" for inp where
  draining: "r \<in> set (app_replicas (work p)) \<Longrightarrow> pass_step inp p (drain inp (rep_id r) reason p)"
| removing: "pass_step inp p (remove inp i p)"
| losing: "pass_step inp p (emit (ReplicaLost i m (in_now inp)) p)"
| waiting: "pass_step inp p (p\<lparr>waits := ws\<rparr>)"
| placing:
    "converge_target p = Some target \<Longrightarrow>
     place target (app_settings (work p)) (in_machines inp) (app_usage (work p)) prefer
       (in_now inp) = Inr i \<Longrightarrow>
     \<not> strict_surge_full inp p \<Longrightarrow>
     (is_exclusive inp \<Longrightarrow> slot_clear slot p) \<Longrightarrow>
     pass_step inp p
       ((emit (place_event inp slot (rel_number target) i reason p) p)\<lparr>ids_used := Suc (ids_used p)\<rparr>)"
| failing:
    "app_rollout (work p) = Some ro \<Longrightarrow>
     pass_step inp p (emit (RolloutFailed (ro_id ro) why
       (set_auto_rollback (app_settings (work p))) (in_now inp)) p)"
| succeeding:
    "app_rollout (work p) = Some ro \<Longrightarrow> rollout_done inp ro p \<Longrightarrow>
     pass_step inp p (succeed inp ro p)"

abbreviation pass_steps :: "inputs \<Rightarrow> pass \<Rightarrow> pass \<Rightarrow> bool" where
  "pass_steps inp \<equiv> (pass_step inp)\<^sup>*\<^sup>*"

lemmas pass_steps_trans = rtranclp_trans [of "pass_step inp" for inp]

lemma pass_step_steps: "pass_step inp p q \<Longrightarrow> pass_steps inp p q"
  by (rule r_into_rtranclp)

section \<open>What no step changes\<close>


lemma emit_simps [simp]:
  "events (emit e p) = events p @ [e]" "waits (emit e p) = waits p"
  "ids_used (emit e p) = ids_used p"
  by (simp_all add: emit_def)

lemma drain_simps [simp]:
  "work (drain inp i reason p) = app_apply (work p) (ReplicaDraining i reason (in_now inp))"
  "waits (drain inp i reason p) = waits p" "ids_used (drain inp i reason p) = ids_used p"
  "events (drain inp i reason p) = events p @ [ReplicaDraining i reason (in_now inp)]"
  by (simp_all add: drain_def)

lemma remove_simps [simp]:
  "work (remove inp i p) = app_apply (work p) (ReplicaRemoved i (in_now inp))"
  "waits (remove inp i p) = waits p" "ids_used (remove inp i p) = ids_used p"
  "events (remove inp i p) = events p @ [ReplicaRemoved i (in_now inp)]"
  by (simp_all add: remove_def)

lemma wait_simps [simp]:
  "work (wait slot u rel p) = work p" "events (wait slot u rel p) = events p"
  "ids_used (wait slot u rel p) = ids_used p"
  by (simp_all add: wait_def)

definition success_events :: "inputs \<Rightarrow> rollout \<Rightarrow> pass \<Rightarrow> app_event list" where
  "success_events inp ro p =
     RolloutSucceeded (ro_id ro) (in_now inp) #
     (if app_current_release (work p) \<noteq> Some (ro_to ro)
      then [CurrentReleaseSet (ro_to ro) (in_now inp)] else [])"

lemma succeed_simps [simp]:
  "events (succeed inp ro p) = events p @ success_events inp ro p"
  "work (succeed inp ro p) = fold_events app_apply (work p) (success_events inp ro p)"
  "waits (succeed inp ro p) = waits p" "ids_used (succeed inp ro p) = ids_used p"
  by (simp_all add: succeed_def success_events_def emit_def Let_def current_release_apply)

lemma succeed_fields:
  "app_rollout (work (succeed inp ro p)) = None"
  "app_current_release (work (succeed inp ro p)) = Some (ro_to ro)"
  "app_settings (work (succeed inp ro p)) = app_settings (work p)"
  "app_releases (work (succeed inp ro p)) = app_releases (work p)"
  "app_exists (work (succeed inp ro p)) = app_exists (work p)"
  "app_deleted (work (succeed inp ro p)) = app_deleted (work p)"
  "app_halted (work (succeed inp ro p)) = app_halted (work p)"
  "app_replicas (work (succeed inp ro p)) = app_replicas (work p)"
  "app_next_placement (work (succeed inp ro p)) = app_next_placement (work p)"
  by (auto simp: success_events_def app_apply_fields)

declare succeed_simps(2) [simp del]

lemma pass_step_frame:
  assumes "pass_step inp p q"
  shows "app_settings (work q) = app_settings (work p)"
    and "app_releases (work q) = app_releases (work p)"
    and "app_exists (work q) = app_exists (work p)"
    and "app_deleted (work q) = app_deleted (work p)"
    and "release_numbers (work q) = release_numbers (work p)"
  using assms
  by (cases rule: pass_step.cases;
      simp add: app_apply_fields place_event_def succeed_fields release_numbers_def)+

lemma pass_steps_frame [frame]:
  assumes "pass_steps inp p q"
  shows "app_settings (work q) = app_settings (work p)"
    and "app_releases (work q) = app_releases (work p)"
    and "app_exists (work q) = app_exists (work p)"
    and "app_deleted (work q) = app_deleted (work p)"
    and "release_numbers (work q) = release_numbers (work p)"
  using assms by (induction; simp add: pass_step_frame)+

lemma app_release_cong: "app_releases a = app_releases b \<Longrightarrow> app_release a n = app_release b n"
  by (simp add: app_release_def)

section \<open>Runs of drains and removals\<close>

text \<open>
  A run of drains and waits keeps the rollout, the target and the list of replica ids; that is
  all the loops of the code need to know while they drain copies they have listed before.
\<close>

definition same_target :: "pass \<Rightarrow> pass \<Rightarrow> bool" where
  "same_target p q \<longleftrightarrow>
     app_rollout (work q) = app_rollout (work p) \<and>
     app_current_release (work q) = app_current_release (work p) \<and>
     app_halted (work q) = app_halted (work p) \<and>
     app_deleted (work q) = app_deleted (work p) \<and>
     app_settings (work q) = app_settings (work p) \<and>
     app_releases (work q) = app_releases (work p)"

lemma same_target_refl [simp]: "same_target p p"
  by (simp add: same_target_def)

lemma same_target_trans [trans]: "same_target p q \<Longrightarrow> same_target q r \<Longrightarrow> same_target p r"
  by (simp add: same_target_def)

lemma same_target_converge: "same_target p q \<Longrightarrow> converge_target q = converge_target p"
proof -
  assume st: "same_target p q"
  then have "app_release (work q) = app_release (work p)"
    by (auto simp: same_target_def app_release_def)
  with st show ?thesis by (simp add: converge_target_def app_target_def same_target_def)
qed

definition same_ids :: "pass \<Rightarrow> pass \<Rightarrow> bool" where
  "same_ids p q \<longleftrightarrow>
     map rep_id (app_replicas (work q)) = map rep_id (app_replicas (work p)) \<and>
     map rep_slot (app_replicas (work q)) = map rep_slot (app_replicas (work p)) \<and>
     ids_used q = ids_used p \<and> app_next_placement (work q) = app_next_placement (work p)"

lemma same_ids_refl [simp]: "same_ids p p"
  by (simp add: same_ids_def)

lemma same_ids_trans [trans]: "same_ids p q \<Longrightarrow> same_ids q r \<Longrightarrow> same_ids p r"
  by (simp add: same_ids_def)

lemma drain_same [simp]:
  "same_target p (drain inp i reason p)" "same_ids p (drain inp i reason p)"
  by (simp_all add: same_target_def same_ids_def app_apply_fields map_update_first)

lemma wait_same [simp]: "same_target p (wait slot u rel p)" "same_ids p (wait slot u rel p)"
  by (simp_all add: same_target_def same_ids_def)

text \<open>The shape of every draining loop: drain the listed copies that meet a test.\<close>

definition drains :: "inputs \<Rightarrow> drain_reason \<Rightarrow> uuid list \<Rightarrow> pass \<Rightarrow> pass" where
  "drains inp reason is p = fold (\<lambda>i. drain inp i reason) is p"

lemma drains_simps [simp]:
  "drains inp reason [] p = p"
  "drains inp reason (i # is) p = drains inp reason is (drain inp i reason p)"
  by (simp_all add: drains_def)

lemma drains_same: "same_target p (drains inp reason is p) \<and> same_ids p (drains inp reason is p)"
proof (induction "is" arbitrary: p)
  case (Cons i "is")
  let ?q = "drain inp i reason p"
  have "same_target p ?q" "same_ids p ?q" by simp_all
  with Cons[of ?q] show ?case
    by (metis drains_simps(2) same_target_trans same_ids_trans)
qed simp

lemma drains_steps:
  "set is \<subseteq> rep_id ` set (app_replicas (work p)) \<Longrightarrow> pass_steps inp p (drains inp reason is p)"
proof (induction "is" arbitrary: p)
  case (Cons i "is")
  then obtain r where r: "r \<in> set (app_replicas (work p))" "rep_id r = i" by auto
  have "set (map rep_id (app_replicas (work (drain inp i reason p)))) =
      set (map rep_id (app_replicas (work p)))"
    by (simp add: replicas_apply map_update_first flip: set_map)
  with Cons have "pass_steps inp (drain inp i reason p) (drains inp reason is (drain inp i reason p))"
    by simp
  moreover have "pass_step inp p (drain inp i reason p)"
    using pass_step.draining[OF r(1)] r(2) by blast
  ultimately show ?case by (simp add: converse_rtranclp_into_rtranclp)
qed simp

lemma fold_filter_if:
  "fold (\<lambda>x s. if c x then f x s else s) xs s = fold f (filter c xs) s"
  by (induction xs arbitrary: s) auto

lemma drain_if_drains:
  "fold (\<lambda>r q. if c r then drain inp (rep_id r) reason q else q) rs p =
     drains inp reason (map rep_id (filter c rs)) p"
  by (simp add: fold_filter_if drains_def fold_map comp_def)

lemma removes_steps: "pass_steps inp p (fold (remove inp) is p)"
  by (induction "is" arbitrary: p) (auto intro: converse_rtranclp_into_rtranclp pass_step.removing)

lemma running_subset: "set (running p) \<subseteq> set (app_replicas (work p))"
  by (auto simp: running_def running_of_def)

lemma in_slot_subset: "set (in_slot slot p) \<subseteq> set (running p)"
  by (auto simp: in_slot_def)

section \<open>The phases of a pass are runs of steps\<close>

text \<open>A rule for the loop over the ended leases: what draining and removing keep, it keeps.\<close>

lemma drain_ended_leases_from_rule:
  assumes "P p"
    and "\<And>q r. P q \<Longrightarrow> r \<in> set (app_replicas (work q)) \<Longrightarrow> P (drain inp (rep_id r) LeaseEnded q)"
    and "\<And>q i. P q \<Longrightarrow> P (remove inp i q)"
  shows "P (drain_ended_leases_from inp index p)"
  using assms
proof (induction inp index p rule: drain_ended_leases_from.induct)
  case (1 inp index p)
  show ?case
  proof (cases "index < length (app_replicas (work p))")
    case True
    let ?r = "app_replicas (work p) ! index"
    let ?q = "if rep_state ?r = Running then drain inp (rep_id ?r) LeaseEnded p else p"
    have q: "P ?q" using "1.prems" True by simp
    then have rm: "P (emit (ReplicaRemoved (rep_id ?r) (in_now inp)) ?q)"
      using "1.prems"(3)[of ?q "rep_id ?r"] by (simp add: remove_def)
    show ?thesis
    proof (cases "List.find (\<lambda>(machine, _). machine = rep_machine ?r) (in_ended_leases inp)")
      case None
      with "1.IH"(1)[OF True refl None "1.prems"] True show ?thesis
        by (subst drain_ended_leases_from.simps) (simp add: Let_def)
    next
      case (Some md)
      obtain m detached where md: "md = (m, detached)" by (cases md)
      show ?thesis
        using "1.IH"(2)[OF True refl Some md[symmetric] refl _ rm "1.prems"(2,3)]
          "1.IH"(3)[OF True refl Some md[symmetric] refl _ q "1.prems"(2,3)] Some md True
        by (subst drain_ended_leases_from.simps) (simp add: Let_def)
    qed
  next
    case False
    with "1.prems"(1) show ?thesis by (subst drain_ended_leases_from.simps) simp
  qed
qed

lemma drain_ended_leases_from_steps: "pass_steps inp p (drain_ended_leases_from inp index p)"
  by (rule drain_ended_leases_from_rule)
    (auto intro: rtranclp.rtrancl_into_rtrancl pass_step.draining pass_step.removing)

lemma drain_ended_leases_steps: "pass_steps inp p (drain_ended_leases inp p)"
  by (simp add: drain_ended_leases_def drain_ended_leases_from_steps)

lemma lose_fold_steps: "pass_steps inp (fst acc) (fst (fold (lose_replica inp) rs acc))"
proof (induction rs arbitrary: acc)
  case (Cons r rs)
  have "pass_step inp (fst acc) (fst (lose_replica inp r acc))"
    by (simp add: lose_replica_def pass_step.losing)
  with Cons[of "lose_replica inp r acc"] show ?case
    by (simp add: converse_rtranclp_into_rtranclp)
qed simp

lemma lose_or_keep_steps: "pass_steps inp p (fst (lose_or_keep inp p))"
  using lose_fold_steps[of inp "(p, {})"] by (simp add: lose_or_keep_def lose_replicas_def)

lemma finish_drains_steps: "pass_steps inp p (finish_drains inp p)"
  by (simp add: finish_drains_def removes_steps)

lemma fail_rollout_steps: "pass_steps inp p (fail_rollout inp why p)"
proof (cases "app_rollout (work p)")
  case (Some ro)
  let ?q = "emit (RolloutFailed (ro_id ro) why (set_auto_rollback (app_settings (work p)))
              (in_now inp)) p"
  have f: "pass_steps inp p ?q" using pass_step.failing[OF Some] by blast
  have "pass_steps inp ?q (drains inp Replaced
      (map rep_id (filter (\<lambda>r. rep_release r = ro_to ro) (running ?q))) ?q)"
    by (rule drains_steps) (use running_subset[of ?q] in auto)
  with f Some removes_steps[of inp ?q] show ?thesis
    by (auto simp: fail_rollout_def Let_def drains_def intro: rtranclp_trans)
qed (simp add: fail_rollout_def)

lemma fail_bad_steps: "pass_steps inp p (fail_rollout_on_a_bad_replica inp p)"
  by (auto simp: fail_rollout_on_a_bad_replica_def fail_rollout_steps split: option.splits)

lemma fail_unplaced_steps: "pass_steps inp p (fail_unplaced_rollout inp p)"
  by (auto simp: fail_unplaced_rollout_def Let_def fail_rollout_steps split: option.splits)

lemma finish_rollout_cases:
  obtains (same) "finish_rollout inp p = p"
    | (done_now) ro where "app_rollout (work p) = Some ro" "rollout_done inp ro p"
        "in_policy inp = None \<or> \<not> some_draining p"
        "finish_rollout inp p = succeed inp ro p"
proof (cases "finish_rollout inp p = p")
  case False
  then obtain ro where ro: "app_rollout (work p) = Some ro" "rollout_done inp ro p"
    "in_policy inp = None \<or> \<not> some_draining p"
    by (auto simp: finish_rollout_def split: if_splits option.splits)
  then have "finish_rollout inp p = succeed inp ro p"
    by (auto simp: finish_rollout_def succeed_def)
  with ro show thesis by (rule done_now)
qed (rule same)

lemma finish_rollout_steps: "pass_steps inp p (finish_rollout inp p)"
  by (cases rule: finish_rollout_cases[of inp p]) (auto intro: pass_step.succeeding)

section \<open>Fresh replica ids\<close>

text \<open>
  \<open>new_id\<close> is \<open>Uuid::now_v7\<close>: each call returns a value it has not returned before and that no
  replica of the app has.
\<close>

definition fresh_ids :: "inputs \<Rightarrow> app \<Rightarrow> bool" where
  "fresh_ids inp a \<longleftrightarrow>
     inj (in_new_id inp) \<and> range (in_new_id inp) \<inter> rep_id ` set (app_replicas a) = {}"

lemma start_pass_simps [simp]:
  "work (start_pass a) = a" "events (start_pass a) = []" "waits (start_pass a) = []"
  "ids_used (start_pass a) = 0"
  by (simp_all add: start_pass_def)

lemma step_ids:
  assumes "pass_step inp p q" and fresh: "fresh_ids inp a"
    and "distinct (map rep_id (app_replicas (work p)))"
    and "rep_id ` set (app_replicas (work p)) \<subseteq>
           rep_id ` set (app_replicas a) \<union> in_new_id inp ` {..<ids_used p}"
  shows "distinct (map rep_id (app_replicas (work q)))"
    and "rep_id ` set (app_replicas (work q)) \<subseteq>
           rep_id ` set (app_replicas a) \<union> in_new_id inp ` {..<ids_used q}"
proof -
  have new: "in_new_id inp (ids_used p) \<notin> rep_id ` set (app_replicas (work p))"
  proof
    assume "in_new_id inp (ids_used p) \<in> rep_id ` set (app_replicas (work p))"
    then consider "in_new_id inp (ids_used p) \<in> rep_id ` set (app_replicas a)"
      | n where "n < ids_used p" "in_new_id inp (ids_used p) = in_new_id inp n"
      using assms(4) by blast
    then show False
      using fresh by cases (auto simp: fresh_ids_def dest: injD)
  qed
  have sub: "in_new_id inp ` {..<ids_used p} \<subseteq> in_new_id inp ` {..<Suc (ids_used p)}" by auto
  show "distinct (map rep_id (app_replicas (work q)))"
    using assms(1,3) new
    by (cases rule: pass_step.cases)
      (auto simp: replicas_apply map_update_first distinct_map_filter_key place_event_def
        succeed_fields)
  have upd: "rep_id ` set (update_first (\<lambda>r. rep_id r = i) (drained t) rs) = rep_id ` set rs" for i t rs
    by (simp add: map_update_first flip: set_map)
  show "rep_id ` set (app_replicas (work q)) \<subseteq>
           rep_id ` set (app_replicas a) \<union> in_new_id inp ` {..<ids_used q}"
    using assms(1,4) sub
    by (cases rule: pass_step.cases) (auto simp: replicas_apply upd place_event_def succeed_fields)
qed

lemma steps_ids:
  assumes "pass_steps inp (start_pass a) q" and "distinct (map rep_id (app_replicas a))"
    and "fresh_ids inp a"
  shows "distinct (map rep_id (app_replicas (work q)))"
    and "rep_id ` set (app_replicas (work q)) \<subseteq>
           rep_id ` set (app_replicas a) \<union> in_new_id inp ` {..<ids_used q}"
proof -
  from assms have "distinct (map rep_id (app_replicas (work q))) \<and>
      rep_id ` set (app_replicas (work q)) \<subseteq>
        rep_id ` set (app_replicas a) \<union> in_new_id inp ` {..<ids_used q}"
    by (induction rule: rtranclp_induct) (auto dest: step_ids[OF _ assms(3)])
  then show "distinct (map rep_id (app_replicas (work q)))"
    "rep_id ` set (app_replicas (work q)) \<subseteq>
        rep_id ` set (app_replicas a) \<union> in_new_id inp ` {..<ids_used q}" by simp_all
qed

section \<open>Converging and spreading\<close>

definition placed :: "inputs \<Rightarrow> nat \<Rightarrow> nat \<Rightarrow> uuid \<Rightarrow> place_reason \<Rightarrow> pass \<Rightarrow> pass" where
  "placed inp slot n i reason p =
     (emit (place_event inp slot n i reason p) p)\<lparr>ids_used := Suc (ids_used p)\<rparr>"

definition placed_copy :: "inputs \<Rightarrow> nat \<Rightarrow> nat \<Rightarrow> uuid \<Rightarrow> pass \<Rightarrow> replica" where
  "placed_copy inp slot n i p =
     placed_replica (in_new_id inp (ids_used p)) slot n i (app_next_placement (work p)) (in_now inp)"

lemma placed_copy_simps [simp]:
  "rep_slot (placed_copy inp slot n i p) = slot" "rep_release (placed_copy inp slot n i p) = n"
  "rep_machine (placed_copy inp slot n i p) = i" "rep_state (placed_copy inp slot n i p) = Running"
  "rep_id (placed_copy inp slot n i p) = in_new_id inp (ids_used p)"
  "rep_placed_at (placed_copy inp slot n i p) = in_now inp"
  by (simp_all add: placed_copy_def)

lemma placed_simps [simp]:
  "work (placed inp slot n i reason p) = app_apply (work p) (place_event inp slot n i reason p)"
  "events (placed inp slot n i reason p) = events p @ [place_event inp slot n i reason p]"
  "waits (placed inp slot n i reason p) = waits p"
  "ids_used (placed inp slot n i reason p) = Suc (ids_used p)"
  by (simp_all add: placed_def)

lemma placed_replicas:
  "app_replicas (work (placed inp slot n i reason p)) =
     app_replicas (work p) @ [placed_copy inp slot n i p]"
  by (simp add: replicas_apply place_event_def placed_copy_def)

lemma placed_running [simp]:
  "running (placed inp slot n i reason p) = running p @ [placed_copy inp slot n i p]"
  unfolding running_def placed_replicas by (simp add: running_of_def)

lemma placed_same [simp]: "same_target p (placed inp slot n i reason p)"
  by (simp add: same_target_def app_apply_fields place_event_def)

lemma pass_place_Inr:
  assumes "pass_place inp slot rel reason pr p = (q, Inr i)"
  shows "q = placed inp slot (rel_number rel) i reason p"
    and "place rel (app_settings (work p)) (in_machines inp) (app_usage (work p)) pr (in_now inp) = Inr i"
    and "\<not> strict_surge_full inp p"
  using assms
  by (auto simp: pass_place_def placed_def place_event_def split: if_splits sum.splits)

lemma pass_place_Inl: "pass_place inp slot rel reason pr p = (q, Inl u) \<Longrightarrow> q = p"
  by (auto simp: pass_place_def split: if_splits sum.splits)

lemma placed_step:
  assumes "pass_place inp slot target reason pr p = (q, Inr i)"
    and "converge_target p = Some target" and "is_exclusive inp \<Longrightarrow> slot_clear slot p"
  shows "pass_step inp p q"
  using pass_place_Inr[OF assms(1)] assms(2,3)
  by (auto simp: placed_def intro: pass_step.placing)

text \<open>Where the running copies are: a drain takes one out, a wait leaves them alone.\<close>

definition in_range :: "pass \<Rightarrow> bool" where
  "in_range p \<longleftrightarrow> (\<forall>r\<in>set (running p). rep_slot r < set_copies (app_settings (work p)))"

lemma running_drain: "set (running (drain inp i reason p)) \<subseteq> set (running p)"
  by (auto simp: running_def running_of_def replicas_apply dest: set_update_firstD)

lemma running_drains: "set (running (drains inp reason is p)) \<subseteq> set (running p)"
proof (induction "is" arbitrary: p)
  case (Cons i "is")
  then show ?case using running_drain[of inp i reason p] by fastforce
qed simp

lemma in_range_mono:
  "in_range p \<Longrightarrow> set (running q) \<subseteq> set (running p) \<Longrightarrow> same_target p q \<Longrightarrow> in_range q"
  by (auto simp: in_range_def same_target_def)

lemma in_range_drain [simp]: "in_range p \<Longrightarrow> in_range (drain inp i reason p)"
  by (rule in_range_mono[OF _ running_drain]) simp_all

lemma in_range_drains [simp]: "in_range p \<Longrightarrow> in_range (drains inp reason is p)"
  by (rule in_range_mono[OF _ running_drains]) (simp_all add: drains_same)

lemma in_range_wait [simp]: "in_range (wait slot u rel p) \<longleftrightarrow> in_range p"
  by (simp add: in_range_def running_def)

lemma in_range_placed [simp]:
  "in_range p \<Longrightarrow> slot < set_copies (app_settings (work p)) \<Longrightarrow>
   in_range (placed inp slot n i reason p)"
  by (auto simp: in_range_def app_apply_fields place_event_def)

lemma in_slot_iff: "r \<in> set (in_slot slot p) \<longleftrightarrow> r \<in> set (running p) \<and> rep_slot r = slot"
  by (auto simp: in_slot_def)

lemma slot_clearI:
  assumes "\<not> some_draining p" "in_slot slot p = []" "in_range p"
    and "slot < set_copies (app_settings (work p))"
  shows "slot_clear slot p"
proof -
  have "r \<in> set (running p)" if "r \<in> set (app_replicas (work p))" for r
    using assms(1) that by (cases "rep_state r") (auto simp: some_draining_def running_def running_of_def)
  then show ?thesis
    using assms in_slot_iff[of _ slot p]
    by (force simp: slot_clear_def in_range_def running_def running_of_def)
qed

text \<open>Which events a phase emits.\<close>

definition emits :: "(app_event \<Rightarrow> bool) \<Rightarrow> pass \<Rightarrow> pass \<Rightarrow> bool" where
  "emits P p q \<longleftrightarrow> (\<exists>es. events q = events p @ es \<and> list_all P es)"

fun is_leaving :: "app_event \<Rightarrow> bool" where
  "is_leaving (ReplicaDraining _ _ _) = True"
| "is_leaving (ReplicaRemoved _ _) = True"
| "is_leaving (ReplicaLost _ _ _) = True"
| "is_leaving _ = False"

fun is_placing :: "app_event \<Rightarrow> bool" where
  "is_placing (ReplicaPlaced _ _ _ _ _ _ _) = True"
| "is_placing _ = False"

fun is_failing :: "app_event \<Rightarrow> bool" where
  "is_failing (RolloutFailed _ _ _ _) = True"
| "is_failing _ = False"

lemma emitsI: "events q = events p @ es \<Longrightarrow> list_all P es \<Longrightarrow> emits P p q"
  by (auto simp: emits_def)

lemma emits_refl [simp]: "emits P p p"
  by (simp add: emits_def)

lemma emits_trans: "emits P p q \<Longrightarrow> emits P q r \<Longrightarrow> emits P p r"
  by (auto simp: emits_def)

lemma emits_mono: "emits P p q \<Longrightarrow> (\<And>e. P e \<Longrightarrow> Q e) \<Longrightarrow> emits Q p q"
  by (auto simp: emits_def list_all_iff)

lemma emits_mem: "emits P p q \<Longrightarrow> e \<in> set (events q) \<Longrightarrow> e \<in> set (events p) \<or> P e"
  by (auto simp: emits_def list_all_iff)

lemma emits_drain [simp]: "emits is_leaving p (drain inp i reason p)"
  by (simp add: emits_def)

lemma emits_remove [simp]: "emits is_leaving p (remove inp i p)"
  by (simp add: emits_def)

lemma emits_drains [simp]: "emits is_leaving p (drains inp reason is p)"
proof (induction "is" arbitrary: p)
  case (Cons i "is")
  from Cons[of "drain inp i reason p"] show ?case
    by (metis drains_simps(2) emits_drain emits_trans)
qed simp

lemma emits_removes [simp]: "emits is_leaving p (fold (remove inp) is p)"
proof (induction "is" arbitrary: p)
  case (Cons i "is")
  from Cons[of "remove inp i p"] show ?case
    by (metis emits_remove emits_trans fold_simps(2))
qed simp

text \<open>
  What a loop over the slots keeps: the target stays, and the running copies of an exclusive app
  stay in range; and what it emits: drains and placements.
\<close>

definition keeps :: "inputs \<Rightarrow> pass \<Rightarrow> pass \<Rightarrow> bool" where
  "keeps inp p q \<longleftrightarrow>
     pass_steps inp p q \<and> same_target p q \<and> (is_exclusive inp \<longrightarrow> in_range p \<longrightarrow> in_range q) \<and>
     emits (\<lambda>e. is_leaving e \<or> is_placing e) p q"

lemma keeps_emits: "keeps inp p q \<Longrightarrow> emits (\<lambda>e. is_leaving e \<or> is_placing e) p q"
  by (simp add: keeps_def)

lemma emits_leaving_or:
  "emits is_leaving p q \<Longrightarrow> emits (\<lambda>e. is_leaving e \<or> is_placing e) p q"
  by (erule emits_mono) simp

lemma emits_placed [simp]: "emits is_placing p (placed inp slot n i reason p)"
  by (simp add: emits_def place_event_def)

lemma emits_placing_or:
  "emits is_placing p q \<Longrightarrow> emits (\<lambda>e. is_leaving e \<or> is_placing e) p q"
  by (erule emits_mono) simp

lemma emits_same_events: "events q = events p \<Longrightarrow> emits P p q"
  by (simp add: emits_def)

lemma keeps_refl [simp]: "keeps inp p p"
  by (simp add: keeps_def)

lemma keeps_trans [trans]: "keeps inp p q \<Longrightarrow> keeps inp q r \<Longrightarrow> keeps inp p r"
  unfolding keeps_def by (blast intro: rtranclp_trans same_target_trans emits_trans)

lemma keeps_wait [simp]: "keeps inp p (wait slot u rel p)"
  using pass_step.waiting[of inp p] by (auto simp: keeps_def wait_def in_range_def running_def same_target_def emits_same_events)

lemma keeps_waits [simp]: "keeps inp p (p\<lparr>waits := ws\<rparr>)"
  using pass_step.waiting[of inp p] by (auto simp: keeps_def in_range_def running_def same_target_def emits_same_events)

lemma keeps_drain:
  "r \<in> set (running p) \<Longrightarrow> keeps inp p (drain inp (rep_id r) reason p)"
  using pass_step.draining[of r p inp reason] running_subset[of p]
  by (auto simp: keeps_def intro: emits_leaving_or)

lemma keeps_drains:
  "set is \<subseteq> rep_id ` set (running p) \<Longrightarrow> keeps inp p (drains inp reason is p)"
proof -
  assume "set is \<subseteq> rep_id ` set (running p)"
  then have "set is \<subseteq> rep_id ` set (app_replicas (work p))" using running_subset[of p] by blast
  then show ?thesis by (simp add: keeps_def drains_steps drains_same emits_leaving_or)
qed

lemma keeps_place:
  assumes "pass_place inp slot target reason pr p = (q, Inr i)"
    and "converge_target p = Some target"
    and "slot < set_copies (app_settings (work p))"
    and "is_exclusive inp \<Longrightarrow> slot_clear slot p"
  shows "keeps inp p q"
  using placed_step[OF assms(1,2)] assms pass_place_Inr(1)[OF assms(1)]
  by (auto simp: keeps_def intro: emits_placing_or)

lemma keeps_place_shared:
  "pass_place inp slot target reason pr p = (q, Inr i) \<Longrightarrow> converge_target p = Some target \<Longrightarrow>
   slot < set_copies (app_settings (work p)) \<Longrightarrow> \<not> is_exclusive inp \<Longrightarrow> keeps inp p q"
  by (rule keeps_place) auto

lemma move_misplaced_keeps:
  assumes "converge_target p = Some target" "slot < set_copies (app_settings (work p))"
    and "\<not> is_exclusive inp"
  shows "keeps inp p (move_misplaced inp target copies surge slot newest p)"
proof (cases "pass_place inp slot target Move None p")
  case (Pair q res)
  with assms show ?thesis
    by (cases res)
      (auto simp: move_misplaced_def Let_def dest: pass_place_Inl
        intro: keeps_trans[OF keeps_wait keeps_waits] keeps_place_shared)
qed

lemma place_empty_slot_keeps:
  assumes "converge_target p = Some target" "slot < set_copies (app_settings (work p))"
    and "is_exclusive inp \<Longrightarrow> slot_clear slot p"
  shows "keeps inp p (place_empty_slot inp target lost slot p)"
  using keeps_place[OF _ assms(1,2)] assms(3)
  by (auto simp: place_empty_slot_def Let_def dest: pass_place_Inl split: prod.splits sum.splits)

lemma replace_old_keeps:
  assumes "converge_target p = Some target" "slot < set_copies (app_settings (work p))"
    and "old \<in> set (running p)"
  shows "keeps inp p (replace_old inp target copies surge unavail slot old p)"
  using keeps_place_shared[OF _ assms(1,2)] keeps_drain[OF assms(3), of inp]
  by (auto simp: replace_old_def dest: pass_place_Inl split: prod.splits sum.splits)

definition settled_ids :: "inputs \<Rightarrow> app_settings \<Rightarrow> replica list \<Rightarrow> replica \<Rightarrow> uuid list" where
  "settled_ids inp settings here newest =
     (let avail = available inp settings;
          keep_other =
            (if avail newest then None
             else map_option rep_id
                    (List.find (\<lambda>r. rep_id r \<noteq> rep_id newest \<and> avail r) here))
      in map rep_id (filter (\<lambda>other.
           rep_id other \<noteq> rep_id newest \<and> Some (rep_id other) \<noteq> keep_other \<and>
           (avail newest \<or> \<not> avail other)) here))"

lemma settle_newest_drains:
  "settle_newest inp here newest p =
     drains inp Replaced (settled_ids inp (app_settings (work p)) here newest) p"
  by (simp add: settle_newest_def settled_ids_def Let_def drain_if_drains)

lemma settled_ids_subset: "set (settled_ids inp settings here newest) \<subseteq> rep_id ` set here"
  by (auto simp: settled_ids_def Let_def)

lemma drain_others_drains:
  "drain_others inp best here p =
     drains inp Replaced (map rep_id (filter (\<lambda>r. Some (rep_id r) \<noteq> best) here)) p"
  by (simp add: drain_others_def drain_if_drains)

lemma update_first_unchanged:
  "(\<And>x. x \<in> set xs \<Longrightarrow> \<not> p x) \<Longrightarrow> update_first p f xs = xs"
  by (induction xs) auto

lemma mem_update_first: "x \<in> set xs \<Longrightarrow> \<not> p x \<Longrightarrow> x \<in> set (update_first p f xs)"
  by (induction xs) auto

lemma running_drain_mem:
  "r \<in> set (running p) \<Longrightarrow> rep_id r \<noteq> i \<Longrightarrow> r \<in> set (running (drain inp i reason p))"
  by (auto simp: running_def running_of_def replicas_apply intro: mem_update_first)

lemma running_drains_mem:
  "r \<in> set (running p) \<Longrightarrow> rep_id r \<notin> set is \<Longrightarrow> r \<in> set (running (drains inp reason is p))"
  by (induction "is" arbitrary: p) (auto simp: running_drain_mem)

lemma running_drain_gone:
  assumes r: "r \<in> set (running (drain inp i reason p))"
    and d: "distinct (map rep_id (app_replicas (work p)))"
  shows "rep_id r \<noteq> i"
proof -
  have eq: "app_replicas (work (drain inp i reason p)) =
      map (\<lambda>x. if rep_id x = i then drained (in_now inp) x else x) (app_replicas (work p))"
    by (simp add: replicas_apply update_first_distinct_key[OF d])
  from r have "r \<in> set (app_replicas (work (drain inp i reason p)))" "rep_state r = Running"
    by (auto simp: running_def running_of_def simp del: drain_simps)
  then have mem: "r \<in> (\<lambda>x. if rep_id x = i then drained (in_now inp) x else x) ` set (app_replicas (work p))"
    and run: "rep_state r = Running"
    unfolding eq by (simp_all only: set_map)
  from mem obtain x where "r = (if rep_id x = i then drained (in_now inp) x else x)" ..
  with run show ?thesis by (cases "rep_id x = i") simp_all
qed

lemma running_drains_gone:
  "r \<in> set (running (drains inp reason is p)) \<Longrightarrow> distinct (map rep_id (app_replicas (work p))) \<Longrightarrow>
   rep_id r \<notin> set is"
proof (induction "is" arbitrary: p)
  case (Cons i "is")
  have d: "distinct (map rep_id (app_replicas (work (drain inp i reason p))))"
    using Cons.prems(2) by (simp add: replicas_apply map_update_first)
  have r: "r \<in> set (running (drains inp reason is (drain inp i reason p)))"
    using Cons.prems(1) by simp
  then have "r \<in> set (running (drain inp i reason p))" using running_drains by blast
  then have "rep_id r \<noteq> i"
    by (rule running_drain_gone[OF _ Cons.prems(2)])
  with Cons.IH[OF r d] show ?case by simp
qed simp

definition best_of :: "inputs \<Rightarrow> app_settings \<Rightarrow> replica list \<Rightarrow> replica option" where
  "best_of inp settings here = or_else (List.find (available inp settings) here) (first_opt here)"

lemma best_of_mem: "best_of inp settings here = Some b \<Longrightarrow> b \<in> set here"
  by (auto simp: best_of_def or_else_def first_opt_def dest: find_SomeD split: option.splits list.splits)

lemma best_of_None [simp]: "best_of inp settings here = None \<longleftrightarrow> here = []"
  by (auto simp: best_of_def or_else_def first_opt_def split: option.splits list.splits)

lemma converge_slot_keeps:
  assumes tgt: "converge_target p = Some target"
    and slot: "slot < set_copies (app_settings (work p))"
    and range: "is_exclusive inp \<Longrightarrow> in_range p"
  shows "keeps inp p (converge_slot inp target copies surge unavail lost slot p)"
proof (cases "is_exclusive inp \<and> app_replicas (work p) \<noteq> [] \<and> some_draining p")
  case False
  let ?here = "in_slot slot p"
  show ?thesis
  proof (cases "List.find (\<lambda>r. rep_release r = rel_number target) ?here")
    case (Some newest)
    have "keeps inp p (settle_newest inp ?here newest p)"
      unfolding settle_newest_drains
      using in_slot_subset[of slot p] settled_ids_subset by (intro keeps_drains) blast
    then show ?thesis
      using False Some move_misplaced_keeps[OF tgt slot, of inp]
      by (auto simp: converge_slot_def Let_def)
  next
    case None
    let ?best = "best_of inp (app_settings (work p)) ?here"
    let ?q = "drain_others inp (map_option rep_id ?best) ?here p"
    have q: "keeps inp p ?q"
      unfolding drain_others_drains using in_slot_subset[of slot p] by (intro keeps_drains) auto
    have tq: "converge_target ?q = Some target" and sq: "slot < set_copies (app_settings (work ?q))"
      using q tgt slot same_target_converge[of p ?q] by (auto simp: keeps_def same_target_def)
    show ?thesis
    proof (cases ?best)
      case None
      then have here: "?here = []" by simp
      then have "?q = p" by (simp add: drain_others_def)
      moreover have "slot_clear slot p" if "is_exclusive inp"
        using that False here range slot
        using slot_clearI[of p slot]
        by (cases "app_replicas (work p) = []") (auto simp: slot_clear_def)
      ultimately show ?thesis
        using False here place_empty_slot_keeps[OF tgt slot, of inp lost]
        by (simp add: converge_slot_def Let_def best_of_def first_opt_def)
    next
      case (Some old)
      have mem: "old \<in> set (running p)"
        using best_of_mem[OF Some] in_slot_subset by blast
      have "old \<in> set (running ?q)"
        unfolding drain_others_drains by (rule running_drains_mem[OF mem]) (auto simp: Some)
      from replace_old_keeps[OF tq sq this, of inp copies surge unavail] q
      have "keeps inp p (replace_old inp target copies surge unavail slot old ?q)"
        by (blast intro: keeps_trans)
      with False None Some show ?thesis
        by (simp add: converge_slot_def Let_def best_of_def)
    qed
  qed
qed (simp add: converge_slot_def Let_def)

lemma converge_slots_keeps:
  assumes "converge_target p = Some target"
    and "set slots \<subseteq> {..<set_copies (app_settings (work p))}"
    and "is_exclusive inp \<Longrightarrow> in_range p"
  shows "keeps inp p (converge_slots inp target copies surge unavail lost serial only slots p)"
  using assms
proof (induction slots arbitrary: p)
  case (Cons slot slots)
  let ?q = "if serial \<and> only \<noteq> Some slot then p
            else converge_slot inp target copies surge unavail lost slot p"
  have q: "keeps inp p ?q"
    using Cons.prems converge_slot_keeps[of p target slot inp] by auto
  then have "converge_target ?q = Some target"
    "set slots \<subseteq> {..<set_copies (app_settings (work ?q))}" "is_exclusive inp \<Longrightarrow> in_range ?q"
    using Cons.prems same_target_converge[of p ?q] by (auto simp: keeps_def same_target_def)
  from Cons.IH[OF this] q
  have "keeps inp p (converge_slots inp target copies surge unavail lost serial only slots ?q)"
    by (blast intro: keeps_trans)
  then show ?case by (simp add: converge_slots_def)
qed (simp add: converge_slots_def)

lemma scaled_down_drains:
  "drain_scaled_down inp copies p =
     drains inp ScaledDown (map rep_id (filter (\<lambda>r. rep_slot r \<ge> copies) (running p))) p"
  by (simp add: drain_scaled_down_def drain_if_drains)

lemma keeps_scaled_down: "keeps inp p (drain_scaled_down inp copies p)"
  unfolding scaled_down_drains by (rule keeps_drains) auto

lemma scaled_down_in_range:
  assumes "distinct (map rep_id (app_replicas (work p)))"
  shows "in_range (drain_scaled_down inp (set_copies (app_settings (work p))) p)"
proof -
  let ?copies = "set_copies (app_settings (work p))"
  let ?is = "map rep_id (filter (\<lambda>r. rep_slot r \<ge> ?copies) (running p))"
  have "rep_slot r < ?copies" if r: "r \<in> set (running (drains inp ScaledDown ?is p))" for r
    using r running_drains[of inp ScaledDown ?is p] running_drains_gone[OF r assms] by fastforce
  then show ?thesis
    using keeps_scaled_down[of inp p ?copies]
    by (auto simp: scaled_down_drains in_range_def keeps_def same_target_def)
qed

lemma converge_steps:
  assumes "distinct (map rep_id (app_replicas (work p)))"
  shows "pass_steps inp p (converge inp lost p)"
proof (cases "converge_target p")
  case None
  have "pass_steps inp p (drains inp NoRelease (map rep_id (running p)) p)"
    using running_subset[of p] by (intro drains_steps) auto
  then show ?thesis by (simp add: converge_def None drains_def)
next
  case (Some target)
  let ?copies = "set_copies (app_settings (work p))"
  let ?q = "drain_scaled_down inp ?copies p"
  have q: "keeps inp p ?q" by (rule keeps_scaled_down)
  then have t: "converge_target ?q = Some target" "set_copies (app_settings (work ?q)) = ?copies"
    using Some same_target_converge[of p ?q] by (auto simp: keeps_def same_target_def)
  have "keeps inp p (converge_slots inp target ?copies surge unavail lost serial only [0..<?copies] ?q)"
    for surge unavail serial only
    using converge_slots_keeps[OF t(1), of "[0..<?copies]" inp] q t(2) scaled_down_in_range[OF assms, of inp]
    by (fastforce intro: keeps_trans)
  then have "pass_steps inp p (fail_unplaced_rollout inp
      (converge_slots inp target ?copies surge unavail lost serial only [0..<?copies] ?q))"
    for surge unavail serial only
    unfolding keeps_def using fail_unplaced_steps by (meson rtranclp_trans)
  then show ?thesis by (simp add: converge_def Some Let_def)
qed

lemma repair_spread_cases:
  obtains (same) "repair_spread inp p = p"
    | (moved) target source i where
        "\<not> spread_settled inp p" "converge_target p = Some target"
        "as_u32 (length (running p)) = set_copies (app_settings (work p))"
        "unavailable_slots inp (set_copies (app_settings (work p))) p = 0"
        "\<And>r. r \<in> set (running p) \<Longrightarrow> rep_release r = rel_number target"
        "spread_source inp (app_settings (work p)) (running p) = Some source"
        "place target (app_settings (work p)) (in_machines inp) (app_usage (work p)) None
           (in_now inp) = Inr i"
        "i \<noteq> rep_machine source"
        "better_spread inp (app_settings (work p)) (running p) (rep_machine source) i"
        "repair_spread inp p = placed inp (rep_slot source) (rel_number target) i Spread p"
proof (cases "repair_spread inp p = p")
  case False
  then obtain target source i where *:
    "\<not> spread_settled inp p" "converge_target p = Some target"
    "as_u32 (length (running p)) = set_copies (app_settings (work p))"
    "unavailable_slots inp (set_copies (app_settings (work p))) p = 0"
    "\<not> list_ex (\<lambda>r. rep_release r \<noteq> rel_number target) (running p)"
    "spread_source inp (app_settings (work p)) (running p) = Some source"
    "place target (app_settings (work p)) (in_machines inp) (app_usage (work p)) None
       (in_now inp) = Inr i"
    "i \<noteq> rep_machine source"
    "better_spread inp (app_settings (work p)) (running p) (rep_machine source) i"
    by (auto simp: repair_spread_def Let_def split: if_splits option.splits sum.splits)
  then have "repair_spread inp p = placed inp (rep_slot source) (rel_number target) i Spread p"
    by (simp add: repair_spread_def Let_def placed_def place_event_def)
  with * show thesis by (intro moved) (auto simp: list_ex_iff)
qed (rule same)

lemma repair_spread_steps: "pass_steps inp p (repair_spread inp p)"
proof (cases rule: repair_spread_cases[of inp p])
  case (moved target source i)
  have "\<not> strict_surge_full inp p" "\<not> is_exclusive inp"
    using moved(1) by (auto simp: spread_settled_def)
  then have "pass_step inp p (placed inp (rep_slot source) (rel_number target) i Spread p)"
    unfolding placed_def using moved(2,7) by (intro pass_step.placing) auto
  with moved show ?thesis by auto
qed simp

section \<open>The whole pass\<close>

text \<open>The pass as a chain of named phases, so that properties can follow it phase by phase.\<close>

definition after_losses :: "inputs \<Rightarrow> app \<Rightarrow> pass" where
  "after_losses inp a =
     finish_drains inp (fst (lose_or_keep inp (drain_ended_leases inp (start_pass a))))"

definition lost_slots :: "inputs \<Rightarrow> app \<Rightarrow> nat set" where
  "lost_slots inp a = snd (lose_or_keep inp (drain_ended_leases inp (start_pass a)))"

definition after_failure :: "inputs \<Rightarrow> app \<Rightarrow> pass" where
  "after_failure inp a = fail_rollout_on_a_bad_replica inp (after_losses inp a)"

definition after_converge :: "inputs \<Rightarrow> app \<Rightarrow> pass" where
  "after_converge inp a = converge inp (lost_slots inp a) (after_failure inp a)"

lemma run_pass_phases:
  "run_pass inp a =
     (let p = after_losses inp a in
      if policy_stopping inp then drains inp DrainDeleted (map rep_id (running p)) p
      else if app_halted (work p) then p
      else if app_halted (work (after_failure inp a)) then after_failure inp a
      else repair_spread inp (finish_rollout inp (after_converge inp a)))"
  by (simp add: run_pass_def after_losses_def lost_slots_def after_failure_def after_converge_def
      drains_def Let_def split: prod.splits)

lemma after_losses_steps: "pass_steps inp (start_pass a) (after_losses inp a)"
  unfolding after_losses_def
  by (rule rtranclp_trans[OF drain_ended_leases_steps
        rtranclp_trans[OF lose_or_keep_steps finish_drains_steps]])

lemma after_failure_steps: "pass_steps inp (start_pass a) (after_failure inp a)"
  unfolding after_failure_def by (rule rtranclp_trans[OF after_losses_steps fail_bad_steps])

lemma after_converge_steps:
  assumes "distinct (map rep_id (app_replicas a))" "fresh_ids inp a"
  shows "pass_steps inp (start_pass a) (after_converge inp a)"
  unfolding after_converge_def
  using after_failure_steps steps_ids(1)[OF after_failure_steps assms]
  by (blast intro: rtranclp_trans converge_steps)

theorem run_pass_steps:
  assumes "app_wf a" "fresh_ids inp a"
  shows "pass_steps inp (start_pass a) (run_pass inp a)"
proof -
  have ids: "distinct (map rep_id (app_replicas a))"
    using assms by (simp add: app_wf_def replicas_wf_def)
  have finished: "pass_steps inp (start_pass a)
      (repair_spread inp (finish_rollout inp (after_converge inp a)))"
    using after_converge_steps[OF ids assms(2)] finish_rollout_steps repair_spread_steps
    by (meson rtranclp_trans)
  let ?p = "after_losses inp a"
  have "pass_steps inp ?p (drains inp DrainDeleted (map rep_id (running ?p)) ?p)"
    using running_subset[of ?p] by (intro drains_steps) auto
  then have "pass_steps inp (start_pass a) (drains inp DrainDeleted (map rep_id (running ?p)) ?p)"
    by (rule rtranclp_trans[OF after_losses_steps])
  with finished after_losses_steps after_failure_steps show ?thesis
    by (simp add: run_pass_phases Let_def)
qed

end
