(* ===== verification/Reconcile_Safety.thy ===== *)
theory Reconcile_Safety
  imports Reconcile_Steps
begin

text \<open>
  What holds of every pass of the reconciler because it holds of every step: the events fold to
  the working copy and may follow the app one by one, so the app stays well formed; an exclusive
  app never has two copies for one slot nor more copies than it should; a strict surge limit is
  never passed; a copy is placed only where it fits, and only of a release the app should run.
\<close>

section \<open>The events fold to a consistent app\<close>

lemma step_folds:
  assumes "pass_step inp p q"
  shows "\<exists>es. events q = events p @ es \<and> work q = fold_events app_apply (work p) es"
  using assms by (cases rule: pass_step.cases) (auto simp: fold_events_def succeed_simps(2))

lemma steps_fold:
  assumes "pass_steps inp (start_pass a) q"
  shows "work q = fold_events app_apply a (events q)"
  using assms
proof (induction rule: rtranclp_induct)
  case (step p q)
  from step_folds[OF step.hyps(2)] step.IH show ?case by auto
qed simp

lemma run_pass_fold:
  "app_wf a \<Longrightarrow> fresh_ids inp a \<Longrightarrow>
   work (run_pass inp a) = fold_events app_apply a (events (run_pass inp a))"
  by (rule steps_fold[OF run_pass_steps])

lemma target_listed: "converge_target p = Some rel \<Longrightarrow> rel_number rel \<in> set (release_numbers (work p))"
  by (auto simp: converge_target_def bind_eq_Some_conv release_numbers_def dest: app_release_SomeD)

lemma converge_target_number:
  "converge_target p = Some rel \<Longrightarrow> app_target (work p) = Some (rel_number rel)"
  by (auto simp: converge_target_def bind_eq_Some_conv dest: app_release_SomeD)

lemma new_id_unused:
  assumes "fresh_ids inp a"
    and "rep_id ` set (app_replicas (work p)) \<subseteq>
           rep_id ` set (app_replicas a) \<union> in_new_id inp ` {..<ids_used p}"
  shows "in_new_id inp (ids_used p) \<notin> rep_id ` set (app_replicas (work p))"
proof
  assume "in_new_id inp (ids_used p) \<in> rep_id ` set (app_replicas (work p))"
  then consider "in_new_id inp (ids_used p) \<in> rep_id ` set (app_replicas a)"
    | n where "n < ids_used p" "in_new_id inp (ids_used p) = in_new_id inp n"
    using assms(2) by blast
  then show False
    using assms(1) by cases (auto simp: fresh_ids_def dest: injD)
qed

lemma step_ids_used: "pass_step inp p q \<Longrightarrow> ids_used p \<le> ids_used q"
  by (cases rule: pass_step.cases) auto

lemma step_next_placement:
  assumes "pass_step inp p q"
    and "app_next_placement (work p) \<le> n + ids_used p" "n + ids_used q < 2 ^ 64"
  shows "app_next_placement (work q) \<le> n + ids_used q"
  using assms
  by (cases rule: pass_step.cases)
    (auto simp: next_placement_apply place_event_def succeed_fields)

lemma step_events_ok:
  assumes st: "pass_step inp p q" and fresh: "fresh_ids inp a"
    and ids: "rep_id ` set (app_replicas (work p)) \<subseteq>
           rep_id ` set (app_replicas a) \<union> in_new_id inp ` {..<ids_used p}"
    and wf: "rollout_wf (work p)"
    and bound: "app_next_placement (work p) + 1 < 2 ^ 64 \<or> ids_used q = ids_used p"
  shows "\<exists>es. events q = events p @ es \<and> work q = fold_events app_apply (work p) es \<and>
    events_ok (work p) es"
  using st
proof (cases rule: pass_step.cases)
  case (placing target pr i slot reason)
  have "app_next_placement (work p) + 1 < 2 ^ 64" using bound placing by auto
  then have "event_ok (work p) (place_event inp slot (rel_number target) i reason p)"
    using new_id_unused[OF fresh ids] target_listed[OF placing(2)]
    by (simp add: place_event_def)
  with placing show ?thesis
    by (intro exI[of _ "[place_event inp slot (rel_number target) i reason p]"]) simp
next
  case (succeeding ro)
  then have "ro_to ro \<in> set (release_numbers (work p))"
    using wf by (simp add: rollout_wf_def)
  then have "events_ok (work p) (success_events inp ro p)"
    by (simp add: success_events_def release_numbers_apply)
  with succeeding show ?thesis
    by (intro exI[of _ "success_events inp ro p"]) (simp add: succeed_simps(2))
qed auto

lemma steps_consistent:
  assumes "pass_steps inp (start_pass a) q" and wf: "app_wf a" and fresh: "fresh_ids inp a"
    and "app_next_placement a + ids_used q < 2 ^ 64"
  shows "events_ok a (events q) \<and> work q = fold_events app_apply a (events q) \<and>
    app_next_placement (work q) \<le> app_next_placement a + ids_used q"
  using assms(1,4)
proof (induction rule: rtranclp_induct)
  case (step p q)
  have mono: "ids_used p \<le> ids_used q" by (rule step_ids_used[OF step.hyps(2)])
  with step.prems have IH: "events_ok a (events p)" "work p = fold_events app_apply a (events p)"
    "app_next_placement (work p) \<le> app_next_placement a + ids_used p"
    using step.IH by auto
  have d: "distinct (map rep_id (app_replicas a))" using wf by (simp add: app_wf_def replicas_wf_def)
  have "app_next_placement (work p) + 1 < 2 ^ 64 \<or> ids_used q = ids_used p"
    using IH(3) mono step.prems by linarith
  moreover have "rollout_wf (work p)"
    using events_ok_wf[OF wf IH(1)] IH(2) by (simp add: app_wf_def)
  ultimately
  obtain es where "events q = events p @ es" "work q = fold_events app_apply (work p) es"
    "events_ok (work p) es"
    using step_events_ok[OF step.hyps(2) fresh steps_ids(2)[OF step.hyps(1) d fresh]] by blast
  with IH step_next_placement[OF step.hyps(2) IH(3) step.prems] show ?case by simp
qed simp

text \<open>A pass asks for at most one id per slot, and one for the spread.\<close>

lemma pass_place_ids:
  "pass_place inp slot rel reason pr p = (q, res) \<Longrightarrow> ids_used q \<le> Suc (ids_used p)"
  by (auto simp: pass_place_def split: if_splits sum.splits)

lemma drains_ids [simp]: "ids_used (drains inp reason is p) = ids_used p"
  using drains_same[of p inp reason "is"] by (simp add: same_ids_def)

lemma removes_ids [simp]: "ids_used (fold (remove inp) is p) = ids_used p"
  by (induction "is" arbitrary: p) auto

lemma drain_others_ids [simp]: "ids_used (drain_others inp best here p) = ids_used p"
  by (simp add: drain_others_drains)

lemma settle_ids [simp]: "ids_used (settle_newest inp here newest p) = ids_used p"
  by (simp add: settle_newest_drains)

lemma converge_slot_ids:
  "ids_used (converge_slot inp target copies surge unavail lost slot p) \<le> Suc (ids_used p)"
proof -
  have m: "ids_used (move_misplaced inp target copies surge slot newest p) \<le> Suc (ids_used p)"
    for newest
    by (auto simp: move_misplaced_def Let_def dest: pass_place_ids split: prod.splits sum.splits)
  have e: "ids_used (place_empty_slot inp target lost slot q) \<le> Suc (ids_used q)" for q
    by (auto simp: place_empty_slot_def Let_def dest: pass_place_ids split: prod.splits sum.splits)
  have r: "ids_used (replace_old inp target copies surge unavail slot old q) \<le> Suc (ids_used q)"
    for old q
    by (auto simp: replace_old_def dest: pass_place_ids split: prod.splits sum.splits)
  let ?q = "\<lambda>b. drain_others inp b (in_slot slot p) p"
  have "ids_used (place_empty_slot inp target lost slot (?q b)) \<le> Suc (ids_used p)"
    "ids_used (replace_old inp target copies surge unavail slot old (?q b)) \<le> Suc (ids_used p)"
    for b old
    using e[of "?q b"] r[of old "?q b"] by simp_all
  with m show ?thesis by (auto simp: converge_slot_def Let_def split: option.splits)
qed

lemma converge_slots_ids:
  "ids_used (converge_slots inp target copies surge unavail lost serial only slots p)
     \<le> ids_used p + length slots"
proof (induction slots arbitrary: p)
  case (Cons slot slots)
  let ?q = "if serial \<and> only \<noteq> Some slot then p
            else converge_slot inp target copies surge unavail lost slot p"
  have "ids_used ?q \<le> Suc (ids_used p)"
    using converge_slot_ids[of inp target copies surge unavail lost slot p] by simp
  with Cons[of ?q] show ?case by (simp add: converge_slots_def)
qed (simp add: converge_slots_def)

lemma fail_rollout_ids [simp]: "ids_used (fail_rollout inp why p) = ids_used p"
  by (simp add: fail_rollout_def Let_def drains_def[symmetric] split: option.splits)

lemma converge_ids: "ids_used (converge inp lost p) \<le> ids_used p + set_copies (app_settings (work p))"
proof (cases "converge_target p")
  case None
  then show ?thesis by (simp add: converge_def drains_def[symmetric])
next
  case (Some target)
  have "ids_used (fail_unplaced_rollout inp q) = ids_used q" for q
    by (auto simp: fail_unplaced_rollout_def Let_def split: option.splits)
  then show ?thesis
    using converge_slots_ids[of inp target _ _ _ lost _ _ "[0..<set_copies (app_settings (work p))]"
        "drain_scaled_down inp (set_copies (app_settings (work p))) p"]
    by (auto simp: converge_def Some Let_def scaled_down_drains)
qed

lemma drain_leases_ids: "ids_used (drain_ended_leases_from inp index p) = ids_used p"
  by (rule drain_ended_leases_from_rule) simp_all

lemma lose_fold_ids: "ids_used (fst (fold (lose_replica inp) rs acc)) = ids_used (fst acc)"
  by (induction rs arbitrary: acc) (auto simp: lose_replica_def)

lemma after_losses_ids [simp]: "ids_used (after_losses inp a) = 0"
  by (simp add: after_losses_def finish_drains_def lose_or_keep_def lose_replicas_def
      drain_ended_leases_def drain_leases_ids lose_fold_ids)

lemma after_failure_ids [simp]: "ids_used (after_failure inp a) = 0"
  by (simp add: after_failure_def fail_rollout_on_a_bad_replica_def split: option.splits)

lemma run_pass_ids: "ids_used (run_pass inp a) \<le> set_copies (app_settings a) + 1"
proof -
  have "ids_used (after_converge inp a) \<le> set_copies (app_settings a)"
    using converge_ids[of inp "lost_slots inp a" "after_failure inp a"]
      pass_steps_frame(1)[OF after_failure_steps[of inp a]]
    by (simp add: after_converge_def)
  moreover have "ids_used (finish_rollout inp q) = ids_used q" for q
    by (auto simp: finish_rollout_def Let_def split: option.splits)
  moreover have "ids_used (repair_spread inp q) \<le> Suc (ids_used q)" for q
    by (cases rule: repair_spread_cases[of inp q]) auto
  ultimately have "ids_used (repair_spread inp (finish_rollout inp (after_converge inp a)))
      \<le> set_copies (app_settings a) + 1"
    by (metis Suc_eq_plus1 Suc_le_mono order_trans)
  then show ?thesis by (auto simp: run_pass_phases Let_def)
qed

text \<open>
  Room for the placement numbers of one pass: the counter is 64 bits wide, and a pass uses at
  most one number per slot and one for the spread.
\<close>

definition placements_left :: "app \<Rightarrow> bool" where
  "placements_left a \<longleftrightarrow> app_next_placement a + set_copies (app_settings a) + 1 < 2 ^ 64"

lemma run_pass_consistent:
  assumes "app_wf a" "fresh_ids inp a" "placements_left a"
  shows "events_ok a (events (run_pass inp a))"
    and "work (run_pass inp a) = fold_events app_apply a (events (run_pass inp a))"
    and "app_wf (work (run_pass inp a))"
proof -
  have "app_next_placement a + ids_used (run_pass inp a) < 2 ^ 64"
    using run_pass_ids[of inp a] assms(3) by (simp add: placements_left_def)
  with steps_consistent[OF run_pass_steps[OF assms(1,2)] assms(1,2)]
  show ok: "events_ok a (events (run_pass inp a))"
    and f: "work (run_pass inp a) = fold_events app_apply a (events (run_pass inp a))" by auto
  show "app_wf (work (run_pass inp a))"
    unfolding f by (rule events_ok_wf[OF assms(1) ok])
qed

text \<open>The app after the decision of a pass has been appended to its stream.\<close>

definition reconciled :: "inputs \<Rightarrow> app \<Rightarrow> app" where
  "reconciled inp a = fold_events app_apply a (dec_events (reconcile_with_policy inp a))"

lemma reconciled_cases:
  assumes "app_wf a" "fresh_ids inp a"
  obtains (idle) "\<not> app_exists a \<or> app_deleted a" "reconciled inp a = a"
      "dec_events (reconcile_with_policy inp a) = []"
    | (pass) "app_exists a" "\<not> app_deleted a" "reconciled inp a = work (run_pass inp a)"
      "dec_events (reconcile_with_policy inp a) = events (run_pass inp a)"
  using run_pass_fold[OF assms]
  by (cases "\<not> app_exists a \<or> app_deleted a")
    (auto simp: reconciled_def reconcile_with_policy_def Let_def)

section \<open>Exclusive apps\<close>

definition distinct_slots :: "app \<Rightarrow> bool" where
  "distinct_slots a \<longleftrightarrow> distinct (map rep_slot (app_replicas a))"

lemma clear_slot_room:
  assumes "slot_clear slot p" "distinct_slots (work p)"
  shows "length (app_replicas (work p)) < set_copies (app_settings (work p))"
proof -
  let ?n = "set_copies (app_settings (work p))"
  have sub: "insert slot (set (map rep_slot (app_replicas (work p)))) \<subseteq> {..<?n}"
    using assms(1) by (auto simp: slot_clear_def)
  have "slot \<notin> set (map rep_slot (app_replicas (work p)))"
    using assms(1) by (auto simp: slot_clear_def)
  then have "card (insert slot (set (map rep_slot (app_replicas (work p))))) =
      Suc (length (app_replicas (work p)))"
    using assms(2) distinct_card[of "map rep_slot (app_replicas (work p))"]
    by (simp add: distinct_slots_def del: set_map)
  with card_mono[OF finite_lessThan sub] show ?thesis by simp
qed

lemma step_exclusive:
  assumes "pass_step inp p q" and "is_exclusive inp" and "distinct_slots (work p)"
  shows "distinct_slots (work q)"
    and "length (app_replicas (work q)) \<le>
           max (length (app_replicas (work p))) (set_copies (app_settings (work p)))"
proof -
  show "distinct_slots (work q)"
    using assms
    by (cases rule: pass_step.cases)
      (auto simp: distinct_slots_def replicas_apply map_update_first distinct_map_filter_key
        place_event_def succeed_fields slot_clear_def)
  show "length (app_replicas (work q)) \<le>
           max (length (app_replicas (work p))) (set_copies (app_settings (work p)))"
    using assms(1)
  proof (cases rule: pass_step.cases)
    case (placing target pr i slot reason)
    then have "length (app_replicas (work p)) < set_copies (app_settings (work p))"
      using clear_slot_room assms(2,3) by blast
    with placing show ?thesis by (simp add: replicas_apply place_event_def)
  qed (auto simp: replicas_apply succeed_fields le_max_iff_disj)
qed

lemma steps_exclusive:
  assumes "pass_steps inp p q" "is_exclusive inp" "distinct_slots (work p)"
  shows "distinct_slots (work q) \<and>
    length (app_replicas (work q)) \<le>
      max (length (app_replicas (work p))) (set_copies (app_settings (work p)))"
  using assms
proof (induction rule: rtranclp_induct)
  case (step q r)
  then have IH: "distinct_slots (work q)"
    "length (app_replicas (work q)) \<le>
      max (length (app_replicas (work p))) (set_copies (app_settings (work p)))" by simp_all
  with step_exclusive[OF step.hyps(2) step.prems(1) IH(1)] pass_steps_frame(1)[OF step.hyps(1)]
  show ?case by auto
qed simp

section \<open>Strict surge\<close>

definition copies_in_range :: "app \<Rightarrow> nat" where
  "copies_in_range a =
     length (filter (\<lambda>r. rep_slot r < set_copies (app_settings a)) (app_replicas a))"

definition surge_limit :: "app \<Rightarrow> nat" where
  "surge_limit a =
     u32_add (set_copies (app_settings a)) (max_surge (set_rollout (app_settings a)))"

lemma length_filter_update_first:
  "(\<And>x. c (f x) = c x) \<Longrightarrow> length (filter c (update_first p f xs)) = length (filter c xs)"
  by (induction xs) auto

lemma length_filter_filter_le: "length (filter c (filter d xs)) \<le> length (filter c xs)"
  by (induction xs) auto

lemma copies_in_range_removal:
  assumes "app_replicas b = filter d (app_replicas a)" "app_settings b = app_settings a"
  shows "copies_in_range b \<le> copies_in_range a"
  unfolding copies_in_range_def assms by (rule length_filter_filter_le)

lemma step_strict_surge:
  assumes "pass_step inp p q" "strict_surge inp"
  shows "copies_in_range (work q) \<le> max (copies_in_range (work p)) (surge_limit (work p))"
  using assms
proof (cases rule: pass_step.cases)
  case (placing target pr i slot reason)
  then have "copies_in_range (work p) < surge_limit (work p)"
    using assms(2) by (simp add: strict_surge_full_def Let_def copies_in_range_def surge_limit_def)
  with placing show ?thesis
    by (simp add: copies_in_range_def replicas_apply settings_apply place_event_def)
next
  case (removing i)
  then have "copies_in_range (work q) \<le> copies_in_range (work p)"
    by (intro copies_in_range_removal) (auto simp: replicas_apply settings_apply)
  then show ?thesis by simp
next
  case (losing i)
  then have "copies_in_range (work q) \<le> copies_in_range (work p)"
    by (intro copies_in_range_removal) (auto simp: replicas_apply settings_apply)
  then show ?thesis by simp
qed (auto simp: copies_in_range_def replicas_apply settings_apply succeed_fields
      length_filter_update_first le_max_iff_disj)

lemma steps_strict_surge:
  assumes "pass_steps inp p q" "strict_surge inp"
  shows "copies_in_range (work q) \<le> max (copies_in_range (work p)) (surge_limit (work p))"
  using assms
proof (induction rule: rtranclp_induct)
  case (step q r)
  have "surge_limit (work q) = surge_limit (work p)"
    using pass_steps_frame(1)[OF step.hyps(1)] by (simp add: surge_limit_def)
  with step_strict_surge[OF step.hyps(2) step.prems] step.IH[OF step.prems] show ?case by linarith
qed simp

section \<open>Where copies are placed, and of which release\<close>

lemma fitsD:
  assumes "fits rel settings usage now m"
  shows "mv_connected m now" "allowed settings m" "mv_apps m"
    "rel_platforms rel = [] \<or> mv_arch m \<in> set (rel_platforms rel)"
    "mv_max_replica_memory_mib m = 0 \<or>
       spec_memory_mib (rel_spec rel) \<le> mv_max_replica_memory_mib m"
    "mv_max_replica_cpu_millis m = 0 \<or>
       spec_cpu_millis (rel_spec rel) \<le> mv_max_replica_cpu_millis m"
    "spec_memory_mib (rel_spec rel) + u64_add (mv_reserved_memory_mib m)
       (use_memory_mib (usage (mv_id m))) \<le> allocatable_memory_mib m \<or>
     spec_memory_mib (rel_spec rel) = 0"
    "spec_cpu_millis (rel_spec rel) + u32_add (mv_reserved_cpu_millis m)
       (use_cpu_millis (usage (mv_id m))) \<le> allocatable_cpu_millis m \<or>
     spec_cpu_millis (rel_spec rel) = 0"
  using assms unfolding fits_def screen_def Let_def by (auto split: if_splits)

text \<open>Everything about the machine but what the app itself uses there.\<close>

definition suitable :: "inputs \<Rightarrow> app_settings \<Rightarrow> release \<Rightarrow> uuid \<Rightarrow> bool" where
  "suitable inp settings rel i \<longleftrightarrow>
     (\<exists>m\<in>set (in_machines inp). mv_id m = i \<and> mv_connected m (in_now inp) \<and>
        allowed settings m \<and> mv_apps m \<and>
        (rel_platforms rel = [] \<or> mv_arch m \<in> set (rel_platforms rel)) \<and>
        (mv_max_replica_memory_mib m = 0 \<or>
           spec_memory_mib (rel_spec rel) \<le> mv_max_replica_memory_mib m) \<and>
        (mv_max_replica_cpu_millis m = 0 \<or>
           spec_cpu_millis (rel_spec rel) \<le> mv_max_replica_cpu_millis m))"

definition goal_releases :: "app \<Rightarrow> nat set" where
  "goal_releases a =
     {n. app_current_release a = Some n \<or> (\<exists>ro. app_rollout a = Some ro \<and> ro_to ro = n)}"

definition placed_well :: "inputs \<Rightarrow> app \<Rightarrow> app_event \<Rightarrow> bool" where
  "placed_well inp a e =
     (case e of
        ReplicaPlaced i slot n machine pl reason at \<Rightarrow>
          n \<in> goal_releases a \<and>
          (\<exists>rel. app_release a n = Some rel \<and> suitable inp (app_settings a) rel machine)
      | _ \<Rightarrow> True)"

lemma goal_apply:
  "pass_step inp p q \<Longrightarrow> goal_releases (work q) \<subseteq> goal_releases (work p)"
  by (cases rule: pass_step.cases)
    (auto simp: goal_releases_def app_apply_fields place_event_def succeed_fields)

lemma steps_goal: "pass_steps inp p q \<Longrightarrow> goal_releases (work q) \<subseteq> goal_releases (work p)"
  by (induction rule: rtranclp_induct) (auto dest: goal_apply)

lemma target_goal: "app_target a = Some n \<Longrightarrow> n \<in> goal_releases a"
  by (auto simp: app_target_def goal_releases_def or_else_def split: if_splits option.splits)

lemma placing_suitable:
  assumes "place rel settings (in_machines inp) usage pr (in_now inp) = Inr i"
  shows "suitable inp settings rel i"
  using assms
proof (rule place_Inr)
  fix m
  assume "m \<in> set (in_machines inp)" "mv_id m = i" "fits rel settings usage (in_now inp) m"
  then show ?thesis unfolding suitable_def by (intro bexI[of _ m] conjI) (auto dest: fitsD)
qed

lemma step_placed_well:
  assumes st: "pass_step inp p q" and fr: "pass_steps inp (start_pass a) p"
    and "\<forall>e\<in>set (events p). placed_well inp a e"
  shows "\<forall>e\<in>set (events q). placed_well inp a e"
  using st
proof (cases rule: pass_step.cases)
  case (placing target pr i slot reason)
  have "rel_number target \<in> goal_releases a"
    using target_goal[OF converge_target_number[OF placing(2)]] steps_goal[OF fr] by auto
  moreover have "app_release a (rel_number target) = Some target"
    using placing(2) pass_steps_frame(2)[OF fr]
    by (auto simp: converge_target_def bind_eq_Some_conv app_release_def dest: find_SomeD)
  moreover have "suitable inp (app_settings a) target i"
    using placing_suitable[OF placing(3)] pass_steps_frame(1)[OF fr] by simp
  ultimately show ?thesis
    using assms(3) placing by (auto simp: placed_well_def place_event_def)
qed (use assms(3) in \<open>auto simp: placed_well_def success_events_def\<close>)

lemma steps_placed_well:
  assumes "pass_steps inp (start_pass a) q"
  shows "\<forall>e\<in>set (events q). placed_well inp a e"
  using assms
proof (induction rule: rtranclp_induct)
  case (step q r)
  then show ?case using step_placed_well by blast
qed simp

section \<open>A rollout that succeeds\<close>

lemma emits_lose:
  "emits is_leaving (fst acc) (fst (fold (lose_replica inp) rs acc))"
proof (induction rs arbitrary: acc)
  case (Cons r rs)
  have "emits is_leaving (fst acc) (fst (lose_replica inp r acc))"
    by (simp add: lose_replica_def emits_def)
  with Cons[of "lose_replica inp r acc"] show ?case by (auto intro: emits_trans)
qed simp

lemma emits_leases: "emits is_leaving p (drain_ended_leases_from inp index p)"
  by (rule drain_ended_leases_from_rule[where P = "emits is_leaving p"])
    (auto intro: emits_trans[OF _ emits_drain] emits_trans[OF _ emits_remove])

lemma after_losses_emits: "emits is_leaving (start_pass a) (after_losses inp a)"
proof -
  have "emits is_leaving (start_pass a) (drain_ended_leases inp (start_pass a))"
    by (simp add: drain_ended_leases_def emits_leases)
  moreover have "emits is_leaving p (fst (lose_or_keep inp p))" for p
    using emits_lose[of "(p, {})"] by (simp add: lose_or_keep_def lose_replicas_def)
  moreover have "emits is_leaving p (finish_drains inp p)" for p
    by (simp add: finish_drains_def)
  ultimately show ?thesis unfolding after_losses_def by (meson emits_trans)
qed

lemma fail_rollout_cases:
  assumes "app_rollout (work p) = Some ro"
    "q = emit (RolloutFailed (ro_id ro) why (set_auto_rollback (app_settings (work p)))
           (in_now inp)) p"
  obtains "fail_rollout inp why p = q"
    | "is" where "fail_rollout inp why p = drains inp Replaced is q"
    | "is" where "fail_rollout inp why p = fold (remove inp) is q"
proof -
  define A B where "A = map rep_id (filter (\<lambda>r. rep_release r = ro_to ro) (running q))"
    and "B = map rep_id (filter (\<lambda>r. rep_release r = ro_to ro \<and> \<not> ever_ready inp r) (running q))"
  have "fail_rollout inp why p =
      (if \<not> set_auto_rollback (app_settings (work p)) then q
       else if in_stateful inp \<or> in_policy inp \<noteq> None then drains inp Replaced A q
       else fold (remove inp) B q)"
    unfolding fail_rollout_def Let_def assms option.case drains_def A_def B_def ..
  with that show thesis by (metis (full_types))
qed

lemma fail_rollout_emits: "emits (\<lambda>e. is_leaving e \<or> is_failing e) p (fail_rollout inp why p)"
proof (cases "app_rollout (work p)")
  case (Some ro)
  let ?q = "emit (RolloutFailed (ro_id ro) why (set_auto_rollback (app_settings (work p)))
              (in_now inp)) p"
  have q: "emits (\<lambda>e. is_leaving e \<or> is_failing e) p ?q" by (simp add: emits_def)
  show ?thesis
    using Some refl[of ?q]
  proof (cases rule: fail_rollout_cases[case_names kept drained removed])
    case kept
    with q show ?thesis by simp
  next
    case (drained "is")
    have "emits (\<lambda>e. is_leaving e \<or> is_failing e) ?q (drains inp Replaced is ?q)"
      by (rule emits_mono[OF emits_drains]) simp
    with q drained show ?thesis by (simp only:) (rule emits_trans)
  next
    case (removed "is")
    have "emits (\<lambda>e. is_leaving e \<or> is_failing e) ?q (fold (remove inp) is ?q)"
      by (rule emits_mono[OF emits_removes]) simp
    with q removed show ?thesis by (simp only:) (rule emits_trans)
  qed
qed (simp add: fail_rollout_def)

definition before_success :: "app_event \<Rightarrow> bool" where
  "before_success e \<longleftrightarrow> is_leaving e \<or> is_placing e \<or> is_failing e"

lemma fail_emits_before:
  "emits before_success p (fail_rollout inp why p)"
  "emits before_success p (fail_unplaced_rollout inp p)"
  "emits before_success p (fail_rollout_on_a_bad_replica inp p)"
proof -
  have f: "emits before_success p (fail_rollout inp why p)" for why
    by (rule emits_mono[OF fail_rollout_emits]) (auto simp: before_success_def)
  then show "emits before_success p (fail_rollout inp why p)" .
  show "emits before_success p (fail_unplaced_rollout inp p)"
    "emits before_success p (fail_rollout_on_a_bad_replica inp p)"
    by (simp_all add: fail_unplaced_rollout_def fail_rollout_on_a_bad_replica_def f Let_def
        split: option.splits)
qed

lemma converge_emits:
  assumes "distinct (map rep_id (app_replicas (work p)))"
  shows "emits before_success p (converge inp lost p)"
proof (cases "converge_target p")
  case None
  then show ?thesis
    by (simp add: converge_def drains_def[symmetric])
      (rule emits_mono[OF emits_drains], simp add: before_success_def)
next
  case (Some target)
  let ?copies = "set_copies (app_settings (work p))"
  let ?q = "drain_scaled_down inp ?copies p"
  have q: "keeps inp p ?q" by (rule keeps_scaled_down)
  then have t: "converge_target ?q = Some target" "set_copies (app_settings (work ?q)) = ?copies"
    using Some same_target_converge[of p ?q] by (auto simp: keeps_def same_target_def)
  have "keeps inp p (converge_slots inp target ?copies surge unavail lost serial only [0..<?copies] ?q)"
    for surge unavail serial only
    using converge_slots_keeps[OF t(1), of "[0..<?copies]" inp] q t(2) scaled_down_in_range[OF assms, of inp]
    by (fastforce intro: keeps_trans)
  then have "emits before_success p
      (converge_slots inp target ?copies surge unavail lost serial only [0..<?copies] ?q)"
    for surge unavail serial only
    by (rule emits_mono[OF keeps_emits]) (auto simp: before_success_def)
  then have "emits before_success p (fail_unplaced_rollout inp
      (converge_slots inp target ?copies surge unavail lost serial only [0..<?copies] ?q))"
    for surge unavail serial only
    by (rule emits_trans[OF _ fail_emits_before(2)])
  then show ?thesis by (simp add: converge_def Some Let_def)
qed

lemma after_failure_emits: "emits before_success (start_pass a) (after_failure inp a)"
  unfolding after_failure_def
  by (rule emits_trans[OF emits_mono[OF after_losses_emits] fail_emits_before(3)])
    (simp add: before_success_def)

lemma after_converge_emits:
  assumes "app_wf a" "fresh_ids inp a"
  shows "emits before_success (start_pass a) (after_converge inp a)"
proof -
  have "distinct (map rep_id (app_replicas a))"
    using assms(1) by (simp add: app_wf_def replicas_wf_def)
  then show ?thesis
    unfolding after_converge_def
    using emits_trans[OF after_failure_emits converge_emits] steps_ids(1)[OF after_failure_steps] assms(2)
    by blast
qed

text \<open>A success can only come from \<open>finish_rollout\<close>, and nothing is decided after it.\<close>

lemma success_from_finish:
  assumes wf: "app_wf a" and fresh: "fresh_ids inp a"
    and e: "RolloutSucceeded i t \<in> set (events (run_pass inp a))"
  obtains ro where "app_rollout (work (after_converge inp a)) = Some ro"
    "rollout_done inp ro (after_converge inp a)"
    "run_pass inp a = succeed inp ro (after_converge inp a)"
proof -
  have no: "\<not> before_success (RolloutSucceeded i t)" by (simp add: before_success_def)
  let ?l = "after_losses inp a"
  have l: "emits before_success (start_pass a) ?l"
    by (rule emits_mono[OF after_losses_emits]) (simp add: before_success_def)
  have "emits before_success ?l (drains inp DrainDeleted is ?l)" for "is"
    by (rule emits_mono[OF emits_drains]) (simp add: before_success_def)
  then have "RolloutSucceeded i t \<notin> set (events (drains inp DrainDeleted is ?l))" for "is"
    using emits_mem[OF emits_trans[OF l], of "drains inp DrainDeleted is ?l"] no by auto
  moreover have "RolloutSucceeded i t \<notin> set (events ?l)" using emits_mem[OF l] no by auto
  moreover have "RolloutSucceeded i t \<notin> set (events (after_failure inp a))"
    using emits_mem[OF after_failure_emits] no by auto
  ultimately have rp: "run_pass inp a = repair_spread inp (finish_rollout inp (after_converge inp a))"
    using e by (auto simp: run_pass_phases Let_def split: if_splits)
  have c: "RolloutSucceeded i t \<notin> set (events (after_converge inp a))"
    using emits_mem[OF after_converge_emits[OF wf fresh]] no by auto
  show thesis
  proof (cases rule: finish_rollout_cases[of inp "after_converge inp a"])
    case same
    then show thesis using e c rp
      by (cases rule: repair_spread_cases[of inp "after_converge inp a"])
        (auto simp: place_event_def)
  next
    case (done_now ro)
    have "spread_settled inp (succeed inp ro (after_converge inp a))"
      by (simp add: spread_settled_def success_events_def)
    with done_now rp show thesis by (intro that[of ro]) (simp_all add: repair_spread_def)
  qed
qed

end
