(* ===== verification/App_Stream.thy ===== *)
theory App_Stream
  imports App_Commands Reconcile_Safety
begin

text \<open>
  The whole life of an app's stream. Four writers append to it: the commands of
  \<open>app/mod.rs\<close>, the passes of the reconciler (\<open>services/apps.rs\<close> runs one and appends its
  events), the volumes service (\<open>services/volumes.rs\<close>: a hosted volume was lost, an empty one was
  accepted) and the stack worker (\<open>services/stacks/worker.rs\<close>, \<open>delete_child\<close>: the deadline of
  an app deleted earlier is moved out). \<open>app_stream\<close> lets them interleave in any order; the
  properties below hold of every stream it can produce.
\<close>

definition app_of :: "app_event list \<Rightarrow> app" where
  "app_of h = fold_events app_apply app_default h"

lemma app_of_append [simp]: "app_of (h @ es) = fold_events app_apply (app_of h) es"
  by (simp add: app_of_def)

lemma app_of_Nil [simp]: "app_of [] = app_default"
  by (simp add: app_of_def)

inductive app_stream :: "app_event list \<Rightarrow> bool" where
  start: "app_stream []"
| command: "app_stream h \<Longrightarrow> app_handle c (app_of h) = Inr es \<Longrightarrow> app_stream (h @ es)"
| pass: "app_stream h \<Longrightarrow> fresh_ids inp (app_of h) \<Longrightarrow> placements_left (app_of h) \<Longrightarrow>
    app_stream (h @ dec_events (reconcile_with_policy inp (app_of h)))"
| volume_lost: "app_stream h \<Longrightarrow> app_stream (h @ [HostedVolumeLost v nm host at snap])"
| empty_accepted: "app_stream h \<Longrightarrow> app_stream (h @ [HostedVolumeEmptyAccepted v actor at])"
| deadline: "app_stream h \<Longrightarrow> app_deleted (app_of h) \<Longrightarrow> app_purge_after (app_of h) = Some due \<Longrightarrow>
    due < later \<Longrightarrow> app_stream (h @ [App_Deleted actor at (Some later)])"

section \<open>Every writer appends what may follow\<close>

lemma reconcile_ok:
  assumes "app_wf a" "fresh_ids inp a" "placements_left a"
  shows "events_ok a (dec_events (reconcile_with_policy inp a))"
  using reconciled_cases[OF assms(1,2)] run_pass_consistent(1)[OF assms] by (metis events_ok.simps(1))

lemma app_stream_induct [consumes 1, case_names start step]:
  assumes "app_stream h" "P []"
    and "\<And>h es. app_stream h \<Longrightarrow> app_inv (app_of h) \<Longrightarrow> events_ok (app_of h) es \<Longrightarrow> P h \<Longrightarrow> P (h @ es)"
  shows "P h \<and> app_inv (app_of h)"
  using assms(1)
proof induction
  case start
  then show ?case using assms(2) app_inv_default by simp
next
  case (command h c es)
  then show ?case using assms(3) app_handle_ok app_handle_inv by (auto simp: app_inv_def)
next
  case (pass h inp)
  let ?es = "dec_events (reconcile_with_policy inp (app_of h))"
  have wf: "app_wf (app_of h)" and inv: "app_inv (app_of h)" using pass by (auto simp: app_inv_def)
  have ok: "events_ok (app_of h) ?es" by (rule reconcile_ok[OF wf pass.hyps(2,3)])
  have "app_replicas (app_of (h @ ?es)) = []" if "app_deleted (app_of (h @ ?es))"
  proof (cases "app_deleted (app_of h) \<or> \<not> app_exists (app_of h)")
    case True
    then have "?es = []" by (auto simp: reconcile_with_policy_def Let_def)
    with that inv show ?thesis by (simp add: app_inv_def)
  next
    case False
    then have "app_of (h @ ?es) = work (run_pass inp (app_of h))"
      by (cases rule: reconciled_cases[OF wf pass.hyps(2)]) (simp_all add: reconciled_def)
    then have "\<not> app_deleted (app_of (h @ ?es))"
      using False pass_steps_frame(4)[OF run_pass_steps[OF wf pass.hyps(2)]] by simp
    with that show ?thesis by simp
  qed
  then show ?case
    using assms(3)[OF pass.hyps(1) inv ok] pass.IH events_ok_wf[OF wf ok] by (simp add: app_inv_def)
next
  case (volume_lost h v nm host at snap)
  then have "events_ok (app_of h) [HostedVolumeLost v nm host at snap]" by simp
  with volume_lost assms(3)[OF volume_lost.hyps(1)] show ?case
    by (simp add: app_inv_def app_apply_wf app_apply_fields)
next
  case (empty_accepted h v actor at)
  then have "events_ok (app_of h) [HostedVolumeEmptyAccepted v actor at]" by simp
  with empty_accepted assms(3)[OF empty_accepted.hyps(1)] show ?case
    by (simp add: app_inv_def app_apply_wf app_apply_fields)
next
  case (deadline h due later actor at)
  then have "app_exists (app_of h)" by (auto simp: app_inv_def app_wf_def lifecycle_wf_def)
  then have "events_ok (app_of h) [App_Deleted actor at (Some later)]" by simp
  with deadline assms(3)[OF deadline.hyps(1)] show ?case
    by (simp add: app_inv_def app_apply_wf app_apply_fields)
qed

end
