(* ===== verification/App_Props.thy ===== *)
theory App_Props
  imports App_Stream
begin

text \<open>
  The properties of an app's stream and of its commands, over the invariant of \<open>App_Inv\<close>, the
  case analyses of \<open>App_Commands\<close> and the streams of \<open>App_Stream\<close>.
\<close>

section \<open>Placement and release numbers over a whole stream\<close>

definition placements :: "app_event list \<Rightarrow> nat list" where
  "placements h =
     List.map_filter (\<lambda>e. case e of ReplicaPlaced _ _ _ _ pl _ _ \<Rightarrow> Some pl | _ \<Rightarrow> None) h"

definition releases_made :: "app_event list \<Rightarrow> release list" where
  "releases_made h =
     List.map_filter (\<lambda>e. case e of ReleaseCreated r \<Rightarrow> Some r | _ \<Rightarrow> None) h"

lemma history_simps [simp]:
  "placements [] = []" "releases_made [] = []"
  "placements (e # h) =
     (case e of ReplicaPlaced _ _ _ _ pl _ _ \<Rightarrow> pl # placements h | _ \<Rightarrow> placements h)"
  "releases_made (e # h) =
     (case e of ReleaseCreated r \<Rightarrow> r # releases_made h | _ \<Rightarrow> releases_made h)"
  "placements (h @ g) = placements h @ placements g"
  "releases_made (h @ g) = releases_made h @ releases_made g"
  by (simp_all add: placements_def releases_made_def map_filter_def split: app_event.splits)

lemma events_ok_placements:
  "events_ok a es \<Longrightarrow>
   sorted_wrt (<) (placements es) \<and> (\<forall>pl\<in>set (placements es). app_next_placement a \<le> pl \<and>
     pl < app_next_placement (fold_events app_apply a es)) \<and>
   app_next_placement a \<le> app_next_placement (fold_events app_apply a es)"
proof (induction es arbitrary: a)
  case (Cons e es)
  then have IH: "sorted_wrt (<) (placements es)"
    "\<forall>pl\<in>set (placements es). app_next_placement (app_apply a e) \<le> pl \<and>
       pl < app_next_placement (fold_events app_apply (app_apply a e) es)"
    "app_next_placement (app_apply a e) \<le> app_next_placement (fold_events app_apply (app_apply a e) es)"
    by auto
  have e: "app_next_placement a \<le> app_next_placement (app_apply a e)"
    by (auto simp: next_placement_apply split: app_event.splits)
  show ?case
  proof (cases "\<exists>i s r m pl re at. e = ReplicaPlaced i s r m pl re at")
    case True
    then obtain i s r m pl re at where "e = ReplicaPlaced i s r m pl re at" by blast
    with IH Cons.prems show ?thesis by (fastforce simp: next_placement_apply)
  next
    case False
    then have "placements (e # es) = placements es" by (cases e) auto
    with IH e show ?thesis by auto
  qed
qed simp

lemma releases_made_fold:
  "app_releases (fold_events app_apply a es) = app_releases a @ releases_made es"
  by (induction es arbitrary: a) (auto simp: releases_apply split: app_event.splits)

lemma app_stream_inv: "app_stream h \<Longrightarrow> app_inv (app_of h)"
  using app_stream_induct[of h "\<lambda>_. True"] by blast

lemma app_stream_events_ok: "app_stream h \<Longrightarrow> events_ok app_default h"
  using app_stream_induct[of h "events_ok app_default"] by (fastforce simp: app_of_def)

section \<open>Samples for the witnesses\<close>

definition sample_spec :: app_spec where
  "sample_spec =
     \<lparr>spec_image = ''registry.example/web:1'', spec_command = [], spec_ports = [],
      spec_memory_mib = 256, spec_cpu_millis = 250, spec_env = [], spec_secrets = [],
      spec_check = None, spec_stop = stop_default, spec_volumes = []\<rparr>"

definition sample_args :: "release_args" where
  "sample_args =
     \<lparr>ra_actor = 7, ra_spec = sample_spec, ra_image_digest = ''sha256:aa'', ra_platforms = [],
      ra_exposed_ports = None, ra_secret_versions = [], ra_source = Api,
      ra_external_release = None, ra_request = Some \<lparr>req_id = ''r1'', req_fingerprint = [1, 2]\<rparr>,
      ra_rollback_of = None, ra_note = [], ra_rollout_id = 50, ra_at = 1000\<rparr>"

definition sample_app :: app where
  "sample_app = run_commands app_apply app_handle app_default
     [App_Create 7 1 ''web'' app_settings_default 1000, Release sample_args]"


definition sample_history :: "app_event list" where
  "sample_history =
     [App_Created 1 ''web'' app_settings_default 7 1000,
      ReleaseCreated (new_release sample_args 1), RolloutStarted 50 None 1 1000 False]"

lemma sample_history_stream: "app_stream sample_history"
proof -
  have 1: "app_stream ([] @ [App_Created 1 ''web'' app_settings_default 7 1000])"
    by (rule app_stream.command[OF app_stream.start,
          of "App_Create 7 1 ''web'' app_settings_default 1000"])
      (simp add: app_handle_def app_default_def)
  have "app_handle (Release sample_args) (app_of ([] @ [App_Created 1 ''web'' app_settings_default 7 1000])) =
      Inr [ReleaseCreated (new_release sample_args 1), RolloutStarted 50 None 1 1000 False]"
    by code_simp
  from app_stream.command[OF 1 this] show ?thesis by (simp add: sample_history_def)
qed

lemma sample_app_inv: "app_inv sample_app"
  unfolding sample_app_def by (rule app.inv_run)

section \<open>Streams\<close>

text \<open>
  C1: in every stream the four writers can produce, each event follows the state built before it
  (\<open>event_ok\<close>), and the app is consistent: releases are numbered 1, 2, 3, ... without a gap, every
  release that is current, rolled out or run by a replica exists, no two replicas share an id or a
  placement number, one owner made all external releases, request keys are distinct, and a deleted
  app has neither replicas nor a rollout.
\<close>

theorem stream_consistent:
  assumes "app_stream h"
  shows "events_ok app_default h \<and> app_wf (app_of h) \<and>
    (app_deleted (app_of h) \<longrightarrow> app_replicas (app_of h) = [])"
  using app_stream_events_ok[OF assms] app_stream_inv[OF assms] by (simp add: app_inv_def)

theorem stream_consistent_witness:
  "app_stream sample_history \<and> app_wf (app_of sample_history)"
  using stream_consistent[OF sample_history_stream] sample_history_stream by blast

text \<open>
  placement numbers fence: along a whole stream (not only among the replicas of one moment)
  they strictly increase, so no number is ever given to a second placement; and releases are
  numbered in the order they were made, from 1.
\<close>

theorem stream_numbers_increase:
  assumes "app_stream h"
  shows "sorted_wrt (<) (placements h) \<and>
    map rel_number (releases_made h) = [1..<Suc (length (releases_made h))]"
proof -
  have "app_releases (app_of h) = releases_made h"
    by (simp add: app_of_def releases_made_fold) (simp add: app_default_def)
  then show ?thesis
    using events_ok_placements[OF app_stream_events_ok[OF assms]] app_stream_inv[OF assms]
    by (simp add: app_inv_def app_wf_def releases_wf_def release_numbers_def)
qed

theorem stream_numbers_increase_witness:
  "map rel_number (releases_made sample_history) = [1..<Suc (length (releases_made sample_history))]"
  using stream_numbers_increase[OF sample_history_stream] by blast

section \<open>Requests and releases\<close>

text \<open>What a release request that was accepted leaves behind, and what keeps it.\<close>

definition requested :: "release_request \<Rightarrow> app \<Rightarrow> bool" where
  "requested q a \<longleftrightarrow> q \<in> set (requests a)"

lemma requested_mono: "requested q a \<Longrightarrow> requested q (fold_events app_apply a es)"
  by (induction es arbitrary: a) (auto simp: requested_def requests_apply)

interpretation request: event_sourced_stable app_apply app_handle app_inv app_default "requested q"
  by unfold_locales (rule requested_mono)

lemma previous_request_SomeD:
  "previous_request a q = Some old \<Longrightarrow> old \<in> set (requests a) \<and> req_id old = req_id q"
  unfolding previous_request_def
  by (drule find_map_Some_iff)
    (force simp: requests_def map_filter_def split: option.splits if_splits)

lemma requested_previous:
  assumes "releases_wf a" "requested q a" "req_id q' = req_id q"
  shows "previous_request a q' = Some q"
proof -
  have "previous_request a q' \<noteq> None"
    using assms(2,3) by (auto simp: previous_request_None_iff requested_def)
  then obtain old where old: "previous_request a q' = Some old" by blast
  with assms show ?thesis
    by (auto simp: releases_wf_def requested_def distinct_map dest!: previous_request_SomeD
        dest: inj_onD)
qed

lemma accepted_requested:
  assumes "releases_wf a" "handle_release x a = Inr es" "ra_request x = Some q"
  obtains q0 where "requested q0 (fold_events app_apply a es)" "req_id q0 = req_id q"
    "req_fingerprint q0 = req_fingerprint q"
proof (cases "previous_request a q")
  case None
  with assms have "make_release x a = Inr es" by (simp add: handle_release_def)
  from make_release_InrD(4)[OF this] assms(3) have "requested q (fold_events app_apply a es)"
    by (auto simp: requested_def requests_apply split: option.splits)
  then show thesis using that by blast
next
  case (Some q0)
  with assms(2,3) have es: "es = []" "req_fingerprint q0 = req_fingerprint q"
    by (auto simp: handle_release_def split: if_splits)
  from Some have "req_id q0 = req_id q" "requested q0 a"
    by (auto simp: requested_def dest: previous_request_SomeD)
  with es that show thesis by simp
qed

text \<open>
  C5: a release request is executed once. After a release with key \<open>k\<close> and fingerprint \<open>f\<close> was
  accepted, and whatever commands follow (accepted or refused), a release that carries the same
  key and the same fingerprint changes nothing, and one with another fingerprint is refused.
\<close>

theorem release_request_once:
  assumes "app_inv a" and "app_handle (Release x) a = Inr es" and "ra_request x = Some q"
    and "b = run_commands app_apply app_handle (fold_events app_apply a es) cs"
    and "app_exists b" "\<not> app_deleted b"
    and "ra_request y = Some q'" "req_id q' = req_id q"
  shows "app_handle (Release y) b =
    (if req_fingerprint q' = req_fingerprint q then Inr [] else Inl RequestConflict)"
proof -
  have h: "handle_release x a = Inr es"
    using assms(2) by (auto simp: app_handle_def handle_deleted_def handle_live_def split: if_splits)
  have wf: "releases_wf a" using assms(1) by (simp add: app_inv_def app_wf_def)
  obtain q0 where q0: "requested q0 (fold_events app_apply a es)" "req_id q0 = req_id q"
    "req_fingerprint q0 = req_fingerprint q"
    using accepted_requested[OF wf h assms(3)] .
  have inv: "app_inv (fold_events app_apply a es)" using app_handle_inv[OF assms(1,2)] .
  have "requested q0 b" unfolding assms(4) by (rule request.fact_run_from[OF inv q0(1)])
  moreover have "releases_wf b"
    unfolding assms(4) using app.inv_run_from[OF inv] by (simp add: app_inv_def app_wf_def)
  ultimately have "previous_request b q' = Some q0"
    using requested_previous q0(2) assms(8) by metis
  then show ?thesis
    using assms(5,6,7) q0(3) by (simp add: app_handle_def handle_live_def handle_release_def)
qed

definition sample_created :: app where
  "sample_created = run_commands app_apply app_handle app_default
     [App_Create 7 1 ''web'' app_settings_default 1000]"

lemma sample_created_inv: "app_inv sample_created"
  unfolding sample_created_def by (rule app.inv_run)

theorem release_request_once_witness:
  "app_handle (Release sample_args)
     (run_commands app_apply app_handle sample_app [Configure 7 app_settings_default 1100]) = Inr []"
proof -
  have e: "app_handle (Release sample_args) sample_created =
      Inr [ReleaseCreated (new_release sample_args 1), RolloutStarted 50 None 1 1000 False]"
    by code_simp
  have f: "fold_events app_apply sample_created
      [ReleaseCreated (new_release sample_args 1), RolloutStarted 50 None 1 1000 False] = sample_app"
    by code_simp
  let ?b = "run_commands app_apply app_handle sample_app [Configure 7 app_settings_default 1100]"
  have b: "app_exists ?b" "\<not> app_deleted ?b" by code_simp+
  have q: "ra_request sample_args = Some \<lparr>req_id = ''r1'', req_fingerprint = [1, 2]\<rparr>"
    by (simp add: sample_args_def)
  from release_request_once[OF sample_created_inv e q refl b[folded f] q refl]
  show ?thesis by (simp only: f simp_thms if_True)
qed

section \<open>Restart\<close>

text \<open>
  a restart is refused exactly in these cases, in this order: a rollout is running; the app is
  halted or has no current release; another release is current than the caller saw; the numbers
  are used up. Otherwise it makes one new release with the spec and image of the current one and
  the fresh secrets, and starts a serial rollout from the current release to it: the app then
  targets the new release, and the old one stays current until the rollout ends.
\<close>

theorem restart_outcome:
  assumes "app_inv a" "app_exists a" "\<not> app_deleted a"
  shows "case app_handle (Restart actor n secrets ro at) a of
      Inl e \<Rightarrow>
        (e = RestartRollout \<and> app_rollout a \<noteq> None) \<or>
        (e = RestartNoBase \<and> app_rollout a = None \<and> (app_halted a \<or> app_current_release a = None)) \<or>
        (e = RestartStale \<and> app_rollout a = None \<and> \<not> app_halted a \<and>
           app_current_release a \<noteq> None \<and> app_current_release a \<noteq> Some n) \<or>
        (e = TooManyReleases \<and> length (app_releases a) = 100000)
    | Inr es \<Rightarrow>
        (\<exists>old new. app_current_release a = Some n \<and> app_release a n = Some old \<and>
           app_releases (fold_events app_apply a es) = app_releases a @ [new] \<and>
           rel_number new = Suc (length (app_releases a)) \<and> rel_spec new = rel_spec old \<and>
           rel_image_digest new = rel_image_digest old \<and> rel_secret_versions new = secrets \<and>
           app_target (fold_events app_apply a es) = Some (rel_number new) \<and>
           app_current_release (fold_events app_apply a es) = Some n \<and>
           (\<exists>r. app_rollout (fold_events app_apply a es) = Some r \<and> ro_serial r \<and>
              ro_from r = Some n \<and> ro_to r = rel_number new) \<and>
           app_replicas (fold_events app_apply a es) = app_replicas a)"
proof -
  have wf: "releases_wf a" and cur: "\<And>m. app_current_release a = Some m \<Longrightarrow> app_release a m \<noteq> None"
    using assms(1) by (auto simp: app_inv_def app_wf_def rollout_wf_def app_release_None_iff)
  have h: "app_handle (Restart actor n secrets ro at) a = handle_restart actor n secrets ro at a"
    using assms(2,3) by (simp add: app_handle_def handle_live_def)
  note next_n = next_release_number_eq[OF wf]
  have len: "length (app_releases a) \<le> 100000" using wf by (simp add: releases_wf_def)
  show ?thesis
  proof (cases "handle_restart actor n secrets ro at a")
    case (Inl e)
    then show ?thesis
      using cur[of n] len
      by (auto simp: h handle_restart_def handle_release_def make_release_def restart_args_def
          Let_def next_n owner_conflict_def split: if_splits option.splits sum.splits)
  next
    case (Inr es)
    then show ?thesis
    proof (rule handle_restart_InrD)
      fix running
      let ?new = "new_release (restart_args actor n secrets ro at running) (next_release_number a)"
      assume "app_rollout a = None" "app_current_release a = Some n" "\<not> app_halted a"
        and r: "app_release a n = Some running"
        and es: "es = [ReleaseCreated ?new,
          RolloutStarted ro (Some n) (next_release_number a) at True]"
      then show ?thesis
        unfolding h Inr es sum.case
        by (intro exI[of _ running] exI[of _ ?new])
          (use assms(3) in \<open>auto simp: app_apply_fields next_n app_target_def or_else_def restart_args_def\<close>)
    qed
  qed
qed

definition sample_running :: app where
  "sample_running = fold_events app_apply sample_app
     [RolloutSucceeded 50 2000, CurrentReleaseSet 1 2000]"

lemma sample_running_inv: "app_inv sample_running"
proof -
  have "release_numbers sample_app = [1]" by code_simp
  then have "events_ok sample_app [RolloutSucceeded 50 2000, CurrentReleaseSet 1 2000]"
    by (simp add: release_numbers_apply)
  then have "app_wf sample_running"
    unfolding sample_running_def using sample_app_inv events_ok_wf by (simp only: app_inv_def)
  moreover have "\<not> app_deleted sample_running" by code_simp
  ultimately show ?thesis by (simp add: app_inv_def)
qed

theorem restart_outcome_witness:
  "app_current_release sample_running = Some 1 \<and>
   (case app_handle (Restart 7 1 [] 60 3000) sample_running of Inl e \<Rightarrow> False | Inr es \<Rightarrow> True)"
proof -
  have l: "app_exists sample_running" "\<not> app_deleted sample_running" by code_simp+
  have n: "app_rollout sample_running = None" "\<not> app_halted sample_running"
    "app_current_release sample_running = Some 1" "length (app_releases sample_running) = 1"
    by code_simp+
  show ?thesis
    using restart_outcome[OF sample_running_inv l, where actor = 7 and n = 1 and secrets = "[]" and ro = 60 and at = 3000] n
    by (auto split: sum.splits)
qed

section \<open>Deletion, restoration, purge\<close>

text \<open>
  C10: deleting an app takes every replica and the rollout away at once and keeps its releases,
  its current release and its settings; until the deadline it can be restored and not purged,
  from the deadline on it can be purged and not restored (so exactly one of the two at any time),
  and every other command finds no app.
\<close>

theorem delete_window:
  assumes "app_exists a" "\<not> app_deleted a"
  shows "\<exists>es b. app_handle (App_Delete actor at due) a = Inr es \<and> fold_events app_apply a es = b \<and>
    app_deleted b \<and> app_replicas b = [] \<and> app_rollout b = None \<and>
    app_releases b = app_releases a \<and> app_current_release b = app_current_release a \<and>
    app_settings b = app_settings a \<and>
    app_handle (App_Restore u t) b =
      (if t < due then Inr [App_Restored u t] else Inl App_NotFound) \<and>
    app_handle (App_Purge t) b = (if t < due then Inl App_NotFound else Inr [App_Purged t]) \<and>
    app_handle (Release x) b = Inl App_NotFound \<and>
    app_handle (Configure u s t) b = Inl App_NotFound \<and>
    app_handle (AssignStack u t) b = Inl App_NotFound \<and>
    app_handle (Restart u n secrets ro t) b = Inl App_NotFound \<and>
    app_handle (App_Delete u t t2) b = Inl App_NotFound \<and>
    app_handle (App_Create u u2 nm s t) b = Inl App_AlreadyExists"
proof -
  let ?es = "App_Deleted actor at (Some due)
    # map (\<lambda>i. ReplicaRemoved i at) (map rep_id (app_replicas a))"
  have h: "app_handle (App_Delete actor at due) a = Inr ?es"
    using assms by (simp only: app_handle_def handle_live_def app_command.case delete_events if_False if_True
        simp_thms)
  show ?thesis
    by (rule exI[of _ ?es], rule exI[of _ "fold_events app_apply a ?es"])
      (use assms h in \<open>simp add: removals_frame removals_replicas app_apply_fields filter_empty_conv
        app_handle_def handle_deleted_def del: map_map\<close>)
qed

theorem delete_window_witness:
  "app_exists sample_app \<and>
   (\<exists>es. app_handle (App_Delete 7 5000 9000) sample_app = Inr es \<and>
      app_handle (App_Restore 7 8999) (fold_events app_apply sample_app es) = Inr [App_Restored 7 8999])"
proof -
  have "app_exists sample_app" "\<not> app_deleted sample_app" by code_simp+
  with delete_window[of sample_app 7 5000 9000 7 8999] show ?thesis by fastforce
qed

text \<open>
  a purge is final. Once a deleted app has been purged, no sequence of commands changes
  anything any more: it is never restored, recreated, released to or purged again.
\<close>

theorem purge_is_final:
  assumes "app_handle (App_Purge at) a = Inr es"
  shows "run_commands app_apply app_handle (fold_events app_apply a es) cs = fold_events app_apply a es"
proof -
  have "app_exists a" "app_deleted a" "es = [App_Purged at]"
    using assms by (auto simp: app_handle_def handle_live_def handle_deleted_def split: if_splits)
  then have b: "app_exists (fold_events app_apply a es)" "app_deleted (fold_events app_apply a es)"
    "app_purge_after (fold_events app_apply a es) = None" by (simp_all add: app_apply_fields)
  have "\<exists>e. app_handle c (fold_events app_apply a es) = Inl e" for c
    using b by (cases c) (simp_all add: app_handle_def handle_deleted_def)
  then show ?thesis
    by (induction cs) (auto split: sum.splits, metis Inl_Inr_False)
qed

definition sample_deleted :: app where
  "sample_deleted = run_commands app_apply app_handle sample_app [App_Delete 7 5000 9000]"

theorem purge_is_final_witness:
  "run_commands app_apply app_handle (fold_events app_apply sample_deleted [App_Purged 9000])
     [App_Restore 7 1, App_Create 7 1 ''web'' app_settings_default 1] =
   fold_events app_apply sample_deleted [App_Purged 9000]"
proof -
  have "app_handle (App_Purge 9000) sample_deleted = Inr [App_Purged 9000]" by code_simp
  then show ?thesis by (rule purge_is_final)
qed

section \<open>The external owner\<close>

text \<open>
  an app belongs to the first external destination that released to it: whatever commands
  follow, the owner stays, and a release from another destination is refused.
\<close>

lemma owner_mono:
  "app_external_owner a = Some w \<Longrightarrow> app_external_owner (fold_events app_apply a es) = Some w"
proof (induction es arbitrary: a)
  case (Cons e es)
  then have "app_external_owner (app_apply a e) = Some w"
    by (auto simp: external_owner_apply split: app_event.splits option.splits)
  with Cons.IH show ?case by simp
qed simp

interpretation owner: event_sourced_stable app_apply app_handle app_inv app_default
  "\<lambda>a. app_external_owner a = Some w"
  by unfold_locales (rule owner_mono)

theorem external_owner_keeps:
  assumes "app_inv a" "app_handle (Release x) a = Inr es" "es \<noteq> []"
    and "ra_external_release x = Some origin"
    and b: "b = run_commands app_apply app_handle (fold_events app_apply a es) cs"
  shows "app_external_owner b = Some (owner_of origin) \<and>
    (app_exists b \<and> \<not> app_deleted b \<and> ra_external_release y = Some other \<and>
       owner_of other \<noteq> owner_of origin \<and> ra_request y = None \<longrightarrow>
     app_handle (Release y) b = Inl ExternalOwnerConflict)"
proof -
  have h: "handle_release x a = Inr es"
    using assms(2) by (auto simp: app_handle_def handle_deleted_def handle_live_def split: if_splits)
  then have mk: "make_release x a = Inr es" using assms(3) by (elim handle_release_cases) auto
  have "app_external_owner (fold_events app_apply a es) = Some (owner_of origin)"
    unfolding make_release_InrD(4)[OF mk]
    using make_release_InrD(1)[OF mk] assms(4)
    by (auto simp: external_owner_apply owner_conflict_iff split: option.splits)
  then have "app_external_owner b = Some (owner_of origin)"
    unfolding b by (rule owner.fact_run_from[OF app_handle_inv[OF assms(1,2)]])
  then show ?thesis
    by (auto simp: app_handle_def handle_live_def handle_release_def make_release_def owner_conflict_iff)
qed

definition sample_origin :: external_release where
  "sample_origin = \<lparr>forest_organisation = ''acme'', ext_destination = ''prod'', ext_project = ''web'',
     ext_intent_id = 1, ext_artifact_id = 2, ext_request_digest = []\<rparr>"

definition sample_external :: release_args where
  "sample_external = sample_args\<lparr>ra_external_release := Some sample_origin, ra_request := None\<rparr>"

theorem external_owner_keeps_witness:
  "app_external_owner (run_commands app_apply app_handle
     (fold_events app_apply sample_created
        [ReleaseCreated (new_release sample_external 1), RolloutStarted 50 None 1 1000 False])
     [App_Delete 7 5000 9000, App_Restore 7 6000]) = Some (''acme'', ''prod'', ''web'')"
proof -
  have "app_handle (Release sample_external) sample_created =
      Inr [ReleaseCreated (new_release sample_external 1), RolloutStarted 50 None 1 1000 False]"
    by code_simp
  moreover have "ra_external_release sample_external = Some sample_origin"
    by (simp add: sample_external_def)
  ultimately show ?thesis
    using external_owner_keeps[OF sample_created_inv _ _ _ refl, of sample_external _ sample_origin]
    by (simp only: list.distinct simp_thms owner_of_def sample_origin_def external_release.select_convs)
qed

end
