(* ===== verification/Reconcile_Avail.thy ===== *)
theory Reconcile_Avail
  imports Reconcile_Safety
begin

text \<open>
  What converging takes away from a running app. A slot is served when an available copy runs in
  it; the lemmas follow the served slots through the steps of \<open>converge_slot\<close> and bound how many
  of them one pass can leave unserved.
\<close>

definition served :: "inputs \<Rightarrow> pass \<Rightarrow> nat set" where
  "served inp p = {slot. slot_available inp p slot}"

definition unserved :: "inputs \<Rightarrow> nat \<Rightarrow> pass \<Rightarrow> nat" where
  "unserved inp copies p = card ({..<copies} - served inp p)"

lemma served_iff:
  "slot \<in> served inp p \<longleftrightarrow>
     (\<exists>r\<in>set (running p). rep_slot r = slot \<and> available inp (app_settings (work p)) r)"
  by (auto simp: served_def slot_available_def list_ex_iff)

lemma unserved_unavailable: "copies < 2 ^ 32 \<Longrightarrow> unavailable_slots inp copies p = unserved inp copies p"
proof -
  assume c: "copies < 2 ^ 32"
  have "length (filter (\<lambda>slot. \<not> slot_available inp p slot) [0..<copies]) =
      card (set (filter (\<lambda>slot. \<not> slot_available inp p slot) [0..<copies]))"
    by (rule distinct_card[symmetric]) simp
  also have "set (filter (\<lambda>slot. \<not> slot_available inp p slot) [0..<copies]) = {..<copies} - served inp p"
    by (auto simp: served_def)
  finally have l: "length (filter (\<lambda>slot. \<not> slot_available inp p slot) [0..<copies]) = unserved inp copies p"
    by (simp add: unserved_def)
  have "unserved inp copies p \<le> copies"
    unfolding unserved_def by (metis Diff_subset card_lessThan card_mono finite_lessThan)
  with c l show ?thesis by (simp add: unavailable_slots_def)
qed

lemma unserved_mono:
  "served inp p \<inter> {..<copies} \<subseteq> served inp q \<Longrightarrow> unserved inp copies q \<le> unserved inp copies p"
  unfolding unserved_def by (intro card_mono) auto

lemma unserved_Suc:
  assumes "served inp p - {slot} \<subseteq> served inp q"
  shows "unserved inp copies q \<le> Suc (unserved inp copies p)"
proof -
  have "{..<copies} - served inp q \<subseteq> insert slot ({..<copies} - served inp p)" using assms by auto
  then have "card ({..<copies} - served inp q) \<le> card (insert slot ({..<copies} - served inp p))"
    by (intro card_mono) auto
  also have "\<dots> \<le> Suc (card ({..<copies} - served inp p))"
    by (simp add: card_insert_if)
  finally show ?thesis by (simp add: unserved_def)
qed

lemma unserved_le: "unserved inp copies p \<le> copies"
  unfolding unserved_def by (metis Diff_subset card_lessThan card_mono finite_lessThan)

section \<open>Served slots through the steps\<close>

text \<open>Draining, by id: a slot stays served if an available copy of it is not among the drained.\<close>

lemma served_drains:
  assumes "slot \<in> served inp p"
    and "\<And>r. r \<in> set (running p) \<Longrightarrow> rep_slot r = slot \<Longrightarrow>
      available inp (app_settings (work p)) r \<Longrightarrow>
      \<exists>s\<in>set (running p). rep_slot s = slot \<and> available inp (app_settings (work p)) s \<and>
        rep_id s \<notin> set is"
  shows "slot \<in> served inp (drains inp reason is p)"
proof -
  obtain s where "s \<in> set (running p)" "rep_slot s = slot"
    "available inp (app_settings (work p)) s" "rep_id s \<notin> set is"
    using assms by (auto simp: served_iff)
  moreover have "app_settings (work (drains inp reason is p)) = app_settings (work p)"
    using drains_same[of p inp reason "is"] by (simp add: same_target_def)
  ultimately show ?thesis
    unfolding served_iff by (metis running_drains_mem)
qed

lemma served_placed: "served inp p \<subseteq> served inp (placed inp slot n i reason p)"
  by (auto simp: served_iff placed_def settings_apply place_event_def running_def running_of_def
      replicas_apply)

lemma served_wait [simp]: "served inp (wait slot u rel p) = served inp p"
  by (auto simp: served_iff running_def)

lemma unserved_wait [simp]: "unserved inp copies (wait slot u rel p) = unserved inp copies p"
  by (simp add: unserved_def)

lemma id_slot:
  "distinct (map rep_id (app_replicas (work p))) \<Longrightarrow> r \<in> set (running p) \<Longrightarrow> s \<in> set (running p) \<Longrightarrow>
   rep_id r = rep_id s \<Longrightarrow> r = s"
  using running_subset[of p] by (auto simp: distinct_map inj_on_def)

lemma served_drains_other:
  assumes "distinct (map rep_id (app_replicas (work p)))"
    and "set is \<subseteq> rep_id ` set (in_slot slot p)" and "slot' \<noteq> slot" "slot' \<in> served inp p"
  shows "slot' \<in> served inp (drains inp reason is p)"
proof (rule served_drains[OF assms(4)])
  fix r
  assume r: "r \<in> set (running p)" "rep_slot r = slot'" "available inp (app_settings (work p)) r"
  have "rep_id r \<notin> set is"
  proof
    assume "rep_id r \<in> set is"
    then obtain s where "s \<in> set (in_slot slot p)" "rep_id s = rep_id r" using assms(2) by auto
    then have "s = r" "rep_slot s = slot"
      using id_slot[OF assms(1) r(1), of s] by (auto simp: in_slot_iff)
    with r(2) assms(3) show False by simp
  qed
  with r show "\<exists>s\<in>set (running p). rep_slot s = slot' \<and>
      available inp (app_settings (work p)) s \<and> rep_id s \<notin> set is" by blast
qed

lemma served_drain:
  assumes "distinct (map rep_id (app_replicas (work p)))" "old \<in> set (running p)"
  shows "served inp p - {rep_slot old} \<subseteq> served inp (drain inp (rep_id old) reason p)"
proof
  fix slot assume "slot \<in> served inp p - {rep_slot old}"
  moreover have "drain inp (rep_id old) reason p = drains inp reason [rep_id old] p" by simp
  moreover have "set [rep_id old] \<subseteq> rep_id ` set (in_slot (rep_slot old) p)"
    using assms(2) by (simp add: in_slot_iff)
  ultimately show "slot \<in> served inp (drain inp (rep_id old) reason p)"
    using served_drains_other[OF assms(1)] by (metis DiffD1 DiffD2 singletonI)
qed

lemma served_settle:
  assumes d: "distinct (map rep_id (app_replicas (work p)))"
    and newest: "newest \<in> set (in_slot slot p)"
  shows "served inp p \<subseteq> served inp (settle_newest inp (in_slot slot p) newest p)"
proof
  fix s assume s: "s \<in> served inp p"
  let ?avail = "available inp (app_settings (work p))"
  let ?is = "settled_ids inp (app_settings (work p)) (in_slot slot p) newest"
  show "s \<in> served inp (settle_newest inp (in_slot slot p) newest p)"
  proof (cases "s = slot")
    case False
    with s show ?thesis
      unfolding settle_newest_drains
      using served_drains_other[OF d] settled_ids_subset by metis
  next
    case True
    show ?thesis
      unfolding settle_newest_drains
    proof (rule served_drains[OF s])
      fix r assume r: "r \<in> set (running p)" "rep_slot r = s" "?avail r"
      show "\<exists>t\<in>set (running p). rep_slot t = s \<and> ?avail t \<and> rep_id t \<notin> set ?is"
      proof (cases "?avail newest")
        case yes: True
        with newest True show ?thesis
          by (intro bexI[of _ newest]) (auto simp: settled_ids_def Let_def in_slot_iff)
      next
        case False
        have "rep_id r \<notin> set ?is"
        proof
          assume "rep_id r \<in> set ?is"
          then obtain t where "t \<in> set (in_slot slot p)" "\<not> ?avail t" "rep_id t = rep_id r"
            using False by (auto simp: settled_ids_def Let_def)
          with id_slot[OF d] r show False by (metis in_slot_iff)
        qed
        with r show ?thesis by blast
      qed
    qed
  qed
qed

lemma served_drain_others:
  assumes d: "distinct (map rep_id (app_replicas (work p)))"
    and best: "best_of inp (app_settings (work p)) (in_slot slot p) = best"
  shows "served inp p \<subseteq> served inp (drain_others inp (map_option rep_id best) (in_slot slot p) p)"
proof
  fix s assume s: "s \<in> served inp p"
  let ?avail = "available inp (app_settings (work p))"
  let ?is = "map rep_id (filter (\<lambda>r. Some (rep_id r) \<noteq> map_option rep_id best) (in_slot slot p))"
  show "s \<in> served inp (drain_others inp (map_option rep_id best) (in_slot slot p) p)"
  proof (cases "s = slot")
    case False
    with s show ?thesis
      unfolding drain_others_drains by (intro served_drains_other[OF d, of _ slot]) auto
  next
    case True
    then obtain r where r: "r \<in> set (in_slot slot p)" "?avail r"
      using s by (auto simp: served_iff in_slot_iff)
    then obtain b where b: "List.find ?avail (in_slot slot p) = Some b"
      by (metis find_None_iff option.exhaust)
    then have "best = Some b" using best by (simp add: best_of_def or_else_def)
    moreover have "b \<in> set (running p)" "rep_slot b = s" "?avail b"
      using find_SomeD[OF b] True by (auto simp: in_slot_iff)
    ultimately show ?thesis
      unfolding drain_others_drains by (intro served_drains[OF s] bexI[of _ b]) auto
  qed
qed

lemma served_pass_place: "pass_place inp slot rel reason pr p = (q, res) \<Longrightarrow> served inp p \<subseteq> served inp q"
  by (cases res) (auto dest!: pass_place_Inl pass_place_Inr(1) simp: served_placed[THEN subsetD])

lemma served_place_empty: "served inp p \<subseteq> served inp (place_empty_slot inp target lost slot p)"
  by (auto simp: place_empty_slot_def Let_def dest: served_pass_place split: prod.splits sum.splits)

lemma served_move: "served inp p \<subseteq> served inp (move_misplaced inp target copies surge slot newest p)"
proof -
  have w: "served inp (q\<lparr>waits := ws\<rparr>) = served inp q" for q ws
    by (simp add: served_iff running_def set_eq_iff)
  show ?thesis
    unfolding move_misplaced_def Let_def
    by (auto simp: w dest: served_pass_place split: prod.splits sum.splits)
qed

section \<open>How much one slot may give up\<close>

definition may_give :: "inputs \<Rightarrow> nat \<Rightarrow> nat \<Rightarrow> pass \<Rightarrow> pass \<Rightarrow> bool" where
  "may_give inp copies unavail p q \<longleftrightarrow>
     unserved inp copies q \<le> max (unserved inp copies p) (max 1 unavail) \<and>
     (strict_surge inp \<longrightarrow> served inp p \<inter> {..<copies} \<subseteq> served inp q)"

lemma may_give_range:
  "served inp p \<inter> {..<copies} \<subseteq> served inp q \<Longrightarrow> may_give inp copies unavail p q"
  using unserved_mono[of inp p copies q] by (auto simp: may_give_def)

lemma may_give_served: "served inp p \<subseteq> served inp q \<Longrightarrow> may_give inp copies unavail p q"
  by (rule may_give_range) auto

lemma may_give_trans:
  "may_give inp copies unavail p q \<Longrightarrow> may_give inp copies unavail q r \<Longrightarrow>
   may_give inp copies unavail p r"
  by (auto simp: may_give_def)

lemma may_give_replace_old:
  assumes d: "distinct (map rep_id (app_replicas (work p)))" and old: "old \<in> set (running p)"
    and "\<not> is_exclusive inp" "copies < 2 ^ 32"
  shows "may_give inp copies unavail p (replace_old inp target copies surge unavail slot old p)"
proof -
  have drained: "unserved inp copies (drain inp (rep_id old) reason p) \<le> Suc (unserved inp copies p)"
    for reason by (rule unserved_Suc[OF served_drain[OF d old]])
  note u = unserved_unavailable[OF assms(4)]
  show ?thesis
  proof (cases "running_in_range copies p < u32_add copies surge")
    case True
    obtain q res where pl: "pass_place inp slot target Rolling (Some (rep_machine old)) p = (q, res)"
      by fastforce
    show ?thesis
    proof (cases res)
      case (Inr i)
      then show ?thesis
        using True assms(3) pl by (auto simp: replace_old_def intro: may_give_served dest: served_pass_place)
    next
      case (Inl v)
      then have q: "q = p" using pl by (auto dest: pass_place_Inl)
      have "unserved inp copies (drain inp (rep_id old) NoRoom p) \<le> 1"
        if "copies = 1 \<or> unserved inp copies p = 0"
        using that drained[of NoRoom] unserved_le[of inp copies "drain inp (rep_id old) NoRoom p"] by auto
      then show ?thesis
        using True assms(3) pl Inl q
        by (auto simp: replace_old_def u may_give_def)
    qed
  next
    case False
    then show ?thesis
      using assms(3) drained[of Replaced] by (auto simp: replace_old_def u may_give_def)
  qed
qed

lemma may_give_slot:
  assumes d: "distinct (map rep_id (app_replicas (work p)))"
    and ex: "\<not> is_exclusive inp" and c: "copies < 2 ^ 32"
  shows "may_give inp copies unavail p (converge_slot inp target copies surge unavail lost slot p)"
proof (cases "List.find (\<lambda>r. rep_release r = rel_number target) (in_slot slot p)")
  case (Some newest)
  then have "newest \<in> set (in_slot slot p)" by (auto dest: find_SomeD)
  from served_settle[OF d this, of inp] served_move[of inp p target copies surge slot newest] Some ex
  show ?thesis by (auto simp: converge_slot_def Let_def intro!: may_give_served)
next
  case None
  let ?best = "best_of inp (app_settings (work p)) (in_slot slot p)"
  let ?q = "drain_others inp (map_option rep_id ?best) (in_slot slot p) p"
  have q: "may_give inp copies unavail p ?q"
    by (rule may_give_served[OF served_drain_others[OF d refl]])
  have dq: "distinct (map rep_id (app_replicas (work ?q)))"
    using d drains_same[of p inp Replaced] unfolding drain_others_drains same_ids_def by simp
  have "may_give inp copies unavail ?q
      (case ?best of None \<Rightarrow> place_empty_slot inp target lost slot ?q
       | Some old \<Rightarrow> replace_old inp target copies surge unavail slot old ?q)"
  proof (cases ?best)
    case (Some old)
    have mem: "old \<in> set (running p)" using best_of_mem[OF Some] in_slot_subset by blast
    have "old \<in> set (running ?q)"
      unfolding drain_others_drains by (rule running_drains_mem[OF mem]) (auto simp: Some)
    with Some may_give_replace_old[OF dq _ ex c] show ?thesis by simp
  next
    case no: None
    show ?thesis unfolding no option.case by (rule may_give_served[OF served_place_empty])
  qed
  from may_give_trans[OF q this] show ?thesis
    using None ex unfolding converge_slot_def Let_def best_of_def by simp
qed

lemma may_give_slots:
  assumes "converge_target p = Some target"
    and "set slots \<subseteq> {..<set_copies (app_settings (work p))}"
    and ex: "\<not> is_exclusive inp" and c: "copies < 2 ^ 32"
    and "pass_steps inp (start_pass a) p" "distinct (map rep_id (app_replicas a))" "fresh_ids inp a"
  shows "may_give inp copies unavail p
    (converge_slots inp target copies surge unavail lost serial only slots p)"
  using assms(1,2,5)
proof (induction slots arbitrary: p)
  case Nil
  then show ?case by (simp add: converge_slots_def may_give_served)
next
  case (Cons slot slots)
  let ?q = "if serial \<and> only \<noteq> Some slot then p
            else converge_slot inp target copies surge unavail lost slot p"
  have q: "keeps inp p ?q"
    using Cons.prems ex converge_slot_keeps[of p target slot inp] by auto
  then have st: "pass_steps inp (start_pass a) ?q"
    using Cons.prems(3) rtranclp_trans unfolding keeps_def by metis
  have "distinct (map rep_id (app_replicas (work p)))"
    by (rule steps_ids(1)[OF Cons.prems(3) assms(6,7)])
  then have "may_give inp copies unavail p ?q"
    using may_give_slot[OF _ ex c] may_give_served[of inp p p] by auto
  moreover have "converge_target ?q = Some target"
    "set slots \<subseteq> {..<set_copies (app_settings (work ?q))}"
    using q Cons.prems same_target_converge[of p ?q] by (auto simp: keeps_def same_target_def)
  ultimately have "may_give inp copies unavail p
      (converge_slots inp target copies surge unavail lost serial only slots ?q)"
    using Cons.IH[OF _ _ st] by (blast intro: may_give_trans)
  then show ?case by (simp add: converge_slots_def)
qed

section \<open>Through the phases of a pass\<close>

lemma no_ended_leases:
  "in_ended_leases inp = [] \<Longrightarrow> drain_ended_leases_from inp index p = p"
  by (induction inp index p rule: drain_ended_leases_from.induct)
    (subst drain_ended_leases_from.simps, simp add: Let_def)

lemma lose_fold_replicas:
  "app_replicas (work (fst (fold (lose_replica inp) rs acc))) =
     filter (\<lambda>r. rep_id r \<notin> rep_id ` set rs) (app_replicas (work (fst acc)))"
  by (induction rs arbitrary: acc) (auto simp: lose_replica_def replicas_apply conj_commute)

lemma removes_replicas:
  "app_replicas (work (fold (remove inp) is p)) =
     filter (\<lambda>r. rep_id r \<notin> set is) (app_replicas (work p))"
  by (induction "is" arbitrary: p) (auto simp: replicas_apply conj_commute)

text \<open>Taking out copies that were not available leaves every served slot served.\<close>

lemma served_removal:
  assumes "app_replicas (work q) = filter (\<lambda>r. rep_id r \<notin> rep_id ` set rs) (app_replicas (work p))"
    and "app_settings (work q) = app_settings (work p)"
    and "set rs \<subseteq> set (app_replicas (work p))" "distinct (map rep_id (app_replicas (work p)))"
    and "\<And>r. r \<in> set rs \<Longrightarrow> \<not> available inp (app_settings (work p)) r"
  shows "served inp p \<subseteq> served inp q"
proof
  fix slot assume "slot \<in> served inp p"
  then obtain r where r: "r \<in> set (running p)" "rep_slot r = slot"
    "available inp (app_settings (work p)) r" by (auto simp: served_iff)
  have "rep_id r \<notin> rep_id ` set rs"
  proof
    assume "rep_id r \<in> rep_id ` set rs"
    then obtain s where "s \<in> set rs" "rep_id s = rep_id r" by auto
    moreover have "r \<in> set (app_replicas (work p))" using r(1) running_subset by blast
    ultimately have "s = r" using assms(3,4) by (metis distinct_map inj_onD subsetD)
    with \<open>s \<in> set rs\<close> assms(5) r(3) show False by blast
  qed
  with r show "slot \<in> served inp q"
    unfolding served_iff running_def running_of_def assms(1,2) by auto
qed

lemma lost_unavailable:
  "in_ended_leases inp = [] \<Longrightarrow> is_lost inp p r \<Longrightarrow> \<not> available inp settings r"
  by (auto simp: is_lost_def available_def connected_def is_some_and_iff Let_def split: option.splits)

lemma served_losses:
  assumes "in_ended_leases inp = []" and d: "distinct (map rep_id (app_replicas a))"
  shows "served inp (start_pass a) \<subseteq> served inp (after_losses inp a)"
proof -
  let ?p = "start_pass a"
  let ?q = "fst (lose_or_keep inp ?p)"
  have leases: "drain_ended_leases inp ?p = ?p"
    by (simp add: drain_ended_leases_def no_ended_leases[OF assms(1)])
  have "served inp ?p \<subseteq> served inp (fst (lose_replicas inp ?p))"
    by (rule served_removal[where rs = "filter (is_lost inp ?p) (app_replicas a)"])
      (use d lose_fold_replicas[of inp _ "(?p, {})"] lost_unavailable[OF assms(1)]
        pass_steps_frame(1)[OF lose_fold_steps[of inp "(?p, {})"]]
        in \<open>auto simp: lose_replicas_def\<close>)
  then have q: "served inp ?p \<subseteq> served inp ?q" by (simp add: lose_or_keep_def)
  have dq: "distinct (map rep_id (app_replicas (work ?q)))"
    using d lose_fold_replicas[of inp _ "(?p, {})"]
    by (simp add: lose_or_keep_def lose_replicas_def distinct_map_filter_key)
  have "served inp ?q \<subseteq> served inp (finish_drains inp ?q)"
    by (rule served_removal[where rs = "filter (drain_done inp ?q)
          (filter (\<lambda>r. rep_state r = Draining) (app_replicas (work ?q)))"])
      (use dq pass_steps_frame(1)[OF finish_drains_steps[of inp ?q]]
        in \<open>auto simp: finish_drains_def removes_replicas available_def\<close>)
  with q show ?thesis by (simp add: after_losses_def leases)
qed

lemma steps_events: "pass_steps inp p q \<Longrightarrow> set (events p) \<subseteq> set (events q)"
proof (induction rule: rtranclp_induct)
  case (step q r)
  from step_folds[OF step.hyps(2)] step.IH show ?case by auto
qed simp

lemma fail_rollout_says:
  "fail_rollout inp why p = p \<or> (\<exists>i w b t. RolloutFailed i w b t \<in> set (events (fail_rollout inp why p)))"
proof (cases "app_rollout (work p)")
  case (Some ro)
  let ?q = "emit (RolloutFailed (ro_id ro) why (set_auto_rollback (app_settings (work p)))
              (in_now inp)) p"
  have "events ?q = events p @ [RolloutFailed (ro_id ro) why
      (set_auto_rollback (app_settings (work p))) (in_now inp)]" by simp
  moreover have "set (events ?q) \<subseteq> set (events (fail_rollout inp why p))"
    using Some refl[of ?q]
  proof (cases rule: fail_rollout_cases[case_names kept drained removed])
    case (drained "is")
    then show ?thesis
      using emits_drains[of ?q inp Replaced "is"] by (auto simp: emits_def)
  next
    case (removed "is")
    then show ?thesis
      using emits_removes[of ?q inp "is"] by (auto simp: emits_def)
  qed simp
  ultimately show ?thesis by auto
qed (simp add: fail_rollout_def)

lemma fail_says:
  "fail_rollout_on_a_bad_replica inp p = p \<or>
     (\<exists>i w b t. RolloutFailed i w b t \<in> set (events (fail_rollout_on_a_bad_replica inp p)))"
  "fail_unplaced_rollout inp p = p \<or>
     (\<exists>i w b t. RolloutFailed i w b t \<in> set (events (fail_unplaced_rollout inp p)))"
  using fail_rollout_says
  by (auto simp: fail_rollout_on_a_bad_replica_def fail_unplaced_rollout_def Let_def
      split: option.splits)

definition goes_on :: "inputs \<Rightarrow> app \<Rightarrow> bool" where
  "goes_on inp a \<longleftrightarrow> (\<forall>i w b t. RolloutFailed i w b t \<notin> set (events (run_pass inp a)))"

lemma served_same_replicas:
  "app_replicas (work q) = app_replicas (work p) \<Longrightarrow> app_settings (work q) = app_settings (work p) \<Longrightarrow>
   served inp q = served inp p"
  by (auto simp: served_iff running_def)

lemma served_after: "served inp p \<subseteq> served inp (repair_spread inp (finish_rollout inp p))"
proof -
  have "served inp (finish_rollout inp p) = served inp p"
    by (cases rule: finish_rollout_cases[of inp p])
      (auto simp: succeed_fields intro!: served_same_replicas)
  moreover have "served inp q \<subseteq> served inp (repair_spread inp q)" for q
    by (cases rule: repair_spread_cases[of inp q]) (use served_placed in \<open>auto split: if_splits\<close>)
  ultimately show ?thesis by blast
qed

lemma served_scaled_down:
  assumes d: "distinct (map rep_id (app_replicas (work p)))"
  shows "served inp p \<inter> {..<copies} \<subseteq> served inp (drain_scaled_down inp copies p)"
proof
  fix slot assume s: "slot \<in> served inp p \<inter> {..<copies}"
  then obtain r where r: "r \<in> set (running p)" "rep_slot r = slot"
    "available inp (app_settings (work p)) r" by (auto simp: served_iff)
  have "rep_id r \<notin> rep_id ` {t \<in> set (running p). copies \<le> rep_slot t}"
    using id_slot[OF d r(1)] s r(2) by auto
  with r have "rep_slot r = slot \<and> available inp (app_settings (work p)) r \<and>
      rep_id r \<notin> set (map rep_id (filter (\<lambda>r. rep_slot r \<ge> copies) (running p)))" by auto
  with s r(1) show "slot \<in> served inp (drain_scaled_down inp copies p)"
    unfolding scaled_down_drains by (intro served_drains) blast+
qed

lemma may_give_converge:
  assumes tgt: "converge_target p = Some target"
    and ex: "\<not> is_exclusive inp" and c: "set_copies (app_settings (work p)) < 2 ^ 32"
    and st: "pass_steps inp (start_pass a) p" and d: "distinct (map rep_id (app_replicas a))"
    and fresh: "fresh_ids inp a"
    and ok: "\<And>i w b t. RolloutFailed i w b t \<notin> set (events (converge inp lost p))"
  shows "may_give inp (set_copies (app_settings (work p)))
    (max_unavailable (set_rollout (app_settings (work p)))) p (converge inp lost p)"
proof -
  let ?copies = "set_copies (app_settings (work p))"
  let ?mu = "max_unavailable (set_rollout (app_settings (work p)))"
  let ?q = "drain_scaled_down inp ?copies p"
  have keep: "keeps inp p ?q" by (rule keeps_scaled_down)
  then have t: "converge_target ?q = Some target" "set_copies (app_settings (work ?q)) = ?copies"
    using tgt same_target_converge[of p ?q] by (auto simp: keeps_def same_target_def)
  have sq: "pass_steps inp (start_pass a) ?q" using st keep by (auto simp: keeps_def)
  have dp: "distinct (map rep_id (app_replicas (work p)))" by (rule steps_ids(1)[OF st d fresh])
  have pq: "may_give inp ?copies un p ?q" for un
    by (rule may_give_range[OF served_scaled_down[OF dp]])
  have slots: "may_give inp ?copies un ?q
      (converge_slots inp target ?copies surge un lost serial only [0..<?copies] ?q)"
    for surge un serial only
    by (rule may_give_slots[OF t(1) _ ex c sq d fresh]) (auto simp: t(2))
  let ?un = "if is_serial p then min ?mu 1 else ?mu"
  let ?surge = "if is_serial p then min (max_surge (set_rollout (app_settings (work p)))) 1
                else max_surge (set_rollout (app_settings (work p)))"
  let ?only = "if is_serial p then serial_slot inp target ?copies p else None"
  let ?r = "converge_slots inp target ?copies ?surge ?un lost (is_serial p) ?only [0..<?copies] ?q"
  have "converge inp lost p = p \<or> converge inp lost p = fail_unplaced_rollout inp ?r"
    by (simp add: converge_def tgt Let_def)
  then have "converge inp lost p = p \<or> converge inp lost p = ?r"
    using fail_says(2)[of inp ?r] ok by metis
  moreover have "may_give inp ?copies ?un p ?r" by (rule may_give_trans[OF pq slots])
  moreover have "may_give inp ?copies ?un p p" by (rule may_give_served) simp
  ultimately have "may_give inp ?copies ?un p (converge inp lost p)" by metis
  moreover have "may_give inp ?copies ?mu p x" if "may_give inp ?copies ?un p x" for x
    using that by (auto simp: may_give_def split: if_splits)
  ultimately show ?thesis by blast
qed

lemma leaving_target:
  "list_all is_leaving es \<Longrightarrow> app_target (fold_events app_apply a es) = app_target a"
proof (induction es arbitrary: a)
  case (Cons e es)
  then have "app_target (app_apply a e) = app_target a"
    by (cases e) (auto simp: app_target_def app_apply_fields)
  with Cons show ?case by simp
qed simp

lemma after_losses_target:
  assumes "app_wf a" "app_target a \<noteq> None"
  shows "\<exists>target. converge_target (after_losses inp a) = Some target"
proof -
  let ?l = "after_losses inp a"
  have "list_all is_leaving (events ?l)" using after_losses_emits[of a inp] by (auto simp: emits_def)
  then have "app_target (work ?l) = app_target a"
    using steps_fold[OF after_losses_steps] leaving_target by metis
  moreover obtain n where n: "app_target a = Some n" using assms(2) by blast
  then have "n \<in> set (release_numbers a)"
    using assms(1)
    by (auto simp: app_target_def or_else_def app_wf_def rollout_wf_def split: if_splits option.splits)
  then have "app_release a n \<noteq> None" by (simp add: app_release_None_iff)
  moreover have "app_release (work ?l) n = app_release a n"
    by (rule app_release_cong) (simp add: pass_steps_frame(2)[OF after_losses_steps])
  ultimately show ?thesis using n by (auto simp: converge_target_def)
qed

theorem run_pass_may_give:
  assumes wf: "app_wf a" and fresh: "fresh_ids inp a"
    and leases: "in_ended_leases inp = []" and ex: "\<not> is_exclusive inp" "\<not> policy_stopping inp"
    and target: "app_target a \<noteq> None" and c: "set_copies (app_settings a) < 2 ^ 32"
    and ok: "goes_on inp a"
  shows "may_give inp (set_copies (app_settings a)) (max_unavailable (set_rollout (app_settings a)))
    (start_pass a) (run_pass inp a)"
proof -
  have d: "distinct (map rep_id (app_replicas a))" using wf by (simp add: app_wf_def replicas_wf_def)
  let ?l = "after_losses inp a"
  have l: "served inp (start_pass a) \<subseteq> served inp ?l" by (rule served_losses[OF leases d])
  show ?thesis
  proof (cases "app_halted (work ?l) \<or> app_halted (work (after_failure inp a))")
    case True
    have "run_pass inp a = ?l \<or> run_pass inp a = after_failure inp a"
      using True ex(2) by (auto simp: run_pass_phases Let_def)
    moreover have "after_failure inp a = ?l" if "run_pass inp a = after_failure inp a"
      using fail_says(1)[of inp ?l] ok that by (metis goes_on_def after_failure_def)
    ultimately show ?thesis using l by (metis may_give_served)
  next
    case False
    let ?f = "after_failure inp a" and ?c = "after_converge inp a"
    have rp: "run_pass inp a = repair_spread inp (finish_rollout inp ?c)"
      using False ex(2) by (auto simp: run_pass_phases Let_def)
    have "set (events ?c) \<subseteq> set (events (run_pass inp a))"
      unfolding rp by (rule steps_events[OF rtranclp_trans[OF finish_rollout_steps repair_spread_steps]])
    then have okc: "\<And>i w b t. RolloutFailed i w b t \<notin> set (events ?c)" using ok by (auto simp: goes_on_def)
    have df: "distinct (map rep_id (app_replicas (work ?f)))"
      by (rule steps_ids(1)[OF after_failure_steps d fresh])
    have "set (events ?f) \<subseteq> set (events ?c)"
      unfolding after_converge_def by (rule steps_events[OF converge_steps[OF df]])
    then have fl: "?f = ?l" using fail_says(1)[of inp ?l] okc unfolding after_failure_def by blast
    have set_l: "app_settings (work ?l) = app_settings a"
      using pass_steps_frame(1)[OF after_losses_steps] by simp
    obtain tgt where "converge_target ?l = Some tgt" using after_losses_target[OF wf target] by blast
    from may_give_converge[OF this ex(1) _ after_losses_steps d fresh, of "lost_slots inp a"] okc fl c set_l
    have "may_give inp (set_copies (app_settings a))
        (max_unavailable (set_rollout (app_settings a))) ?l ?c"
      by (simp add: after_converge_def)
    then show ?thesis
      unfolding rp
      by (meson may_give_trans may_give_served l served_after)
  qed
qed

section \<open>An app at rest\<close>

text \<open>One available copy of the release in every slot, none elsewhere, nothing in progress.\<close>

definition at_rest :: "inputs \<Rightarrow> app \<Rightarrow> bool" where
  "at_rest inp a \<longleftrightarrow>
     app_exists a \<and> \<not> app_deleted a \<and> \<not> app_halted a \<and> app_rollout a = None \<and>
     in_ended_leases inp = [] \<and> \<not> policy_stopping inp \<and>
     (\<exists>n. app_current_release a = Some n \<and>
        (\<forall>r\<in>set (app_replicas a). rep_release r = n \<and> available inp (app_settings a) r \<and>
           rep_slot r < set_copies (app_settings a) \<and> \<not> misplaced inp (start_pass a) r)) \<and>
     distinct (map rep_slot (app_replicas a)) \<and>
     {..<set_copies (app_settings a)} \<subseteq> rep_slot ` set (app_replicas a)"

lemma filter_key_single:
  "distinct (map f xs) \<Longrightarrow> x \<in> set xs \<Longrightarrow> filter (\<lambda>y. f y = f x) xs = [x]"
proof (induction xs)
  case (Cons z zs)
  then show ?case
    by (cases "z = x") (auto simp: filter_empty_conv, metis image_eqI)
qed simp

lemma rest_running: "at_rest inp a \<Longrightarrow> running (start_pass a) = app_replicas a"
  by (auto simp: at_rest_def running_def running_of_def available_def Let_def filter_id_conv)

lemma rest_losses: "at_rest inp a \<Longrightarrow> after_losses inp a = start_pass a"
proof -
  assume r: "at_rest inp a"
  then have e: "in_ended_leases inp = []" by (simp add: at_rest_def)
  have "filter (is_lost inp (start_pass a)) (app_replicas a) = []"
    using r lost_unavailable[OF e] by (auto simp: at_rest_def filter_empty_conv)
  then have l: "fst (lose_or_keep inp (start_pass a)) = start_pass a"
    by (simp add: lose_or_keep_def lose_replicas_def)
  have "filter (\<lambda>r. rep_state r = Draining) (app_replicas a) = []"
    using r by (auto simp: at_rest_def filter_empty_conv available_def Let_def)
  then have "finish_drains inp (start_pass a) = start_pass a" by (simp add: finish_drains_def)
  with l show ?thesis by (simp add: after_losses_def drain_ended_leases_def no_ended_leases[OF e])
qed

lemma rest_slot:
  assumes r: "at_rest inp a" and slot: "slot < set_copies (app_settings a)"
    and target: "app_current_release a = Some (rel_number target)"
  shows "converge_slot inp target copies surge unavail lost slot (start_pass a) = start_pass a"
proof -
  let ?p = "start_pass a"
  from r slot have "slot \<in> rep_slot ` set (app_replicas a)" by (auto simp: at_rest_def)
  then obtain c where c: "c \<in> set (app_replicas a)" "slot = rep_slot c" by auto
  have "filter (\<lambda>y. rep_slot y = rep_slot c) (app_replicas a) = [c]"
    using r c(1) by (intro filter_key_single) (auto simp: at_rest_def)
  then have here: "in_slot slot ?p = [c]" by (simp add: in_slot_def rest_running[OF r] c(2))
  have "rep_release c = rel_number target" "available inp (app_settings a) c" "\<not> misplaced inp ?p c"
    "\<not> some_draining ?p"
    using r target c(1)
    by (auto simp: at_rest_def some_draining_def available_def Let_def)
  then show ?thesis
    by (simp add: converge_slot_def here settle_newest_def available_def Let_def)
qed

lemma rest_converge:
  assumes r: "at_rest inp a" and wf: "app_wf a"
  shows "converge inp lost (start_pass a) = start_pass a"
proof -
  let ?p = "start_pass a"
  from r obtain n where n: "app_current_release a = Some n" by (auto simp: at_rest_def)
  then have "app_release a n \<noteq> None"
    using wf by (simp add: app_release_None_iff app_wf_def rollout_wf_def)
  then obtain target where rel: "app_release a n = Some target" by blast
  then have num: "rel_number target = n" by (auto dest: app_release_SomeD)
  have tgt: "converge_target ?p = Some target"
    using r rel n by (simp add: converge_target_def at_rest_def app_target_def or_else_def)
  have ser: "\<not> is_serial ?p" using r by (simp add: is_serial_def at_rest_def)
  have "filter (\<lambda>r. set_copies (app_settings a) \<le> rep_slot r) (app_replicas a) = []"
    using r by (auto simp: filter_empty_conv at_rest_def)
  then have "drain_scaled_down inp (set_copies (app_settings a)) ?p = ?p"
    using scaled_down_drains[of inp "set_copies (app_settings a)" ?p] by (simp add: rest_running[OF r])
  moreover have "converge_slots inp target copies surge unavail lost False None slots ?p = ?p"
    if "set slots \<subseteq> {..<set_copies (app_settings a)}" for copies surge unavail slots
    using that rest_slot[OF r] n num by (induction slots) (auto simp: converge_slots_def)
  ultimately show ?thesis
    using r ser by (simp add: converge_def tgt Let_def fail_unplaced_rollout_def at_rest_def subset_eq)
qed

lemma rest_run_pass:
  assumes r: "at_rest inp a" and wf: "app_wf a"
  shows "run_pass inp a = repair_spread inp (start_pass a)"
proof -
  have "after_failure inp a = start_pass a"
    using r by (simp add: after_failure_def rest_losses fail_rollout_on_a_bad_replica_def at_rest_def)
  then have "after_converge inp a = start_pass a"
    using rest_converge[OF r wf] by (simp add: after_converge_def)
  moreover have "finish_rollout inp (start_pass a) = start_pass a"
    using r by (simp add: finish_rollout_def at_rest_def)
  ultimately show ?thesis
    using r \<open>after_failure inp a = start_pass a\<close>
    by (simp add: run_pass_phases Let_def rest_losses at_rest_def)
qed

end
