(* ===== verification/Reconcile_Props.thy ===== *)
theory Reconcile_Props
  imports App_Props Reconcile_Avail
begin

text \<open>
  The properties of the placement and of one reconcile pass, each for every app that satisfies
  the invariant, every report of its machines and every instant.
\<close>

section \<open>Samples for the witnesses\<close>

definition sample_machine :: machine_view where
  "sample_machine =
     \<lparr>mv_id = 9, mv_name = ''m1'', mv_last_seen = Some 2000, mv_apps = True, mv_arch = ''x86_64'',
      mv_memory_mib = 4096, mv_cpu_millis = 4000, mv_resources_allocatable = False,
      mv_reserved_memory_mib = 0, mv_reserved_cpu_millis = 0, mv_max_replica_memory_mib = 0,
      mv_max_replica_cpu_millis = 0, mv_labels = [], mv_cordoned = False, mv_kind = Own,
      mv_running_apps = []\<rparr>"

definition sample_inputs :: inputs where
  "sample_inputs =
     \<lparr>in_observations = [], in_machines = [sample_machine], in_ended_leases = [],
      in_stateful = False, in_policy = None, in_now = 2000, in_new_id = (\<lambda>n. 1000 + n)\<rparr>"

definition ready_observation :: "uuid \<Rightarrow> observation" where
  "ready_observation i =
     \<lparr>ob_replica = i, ob_state = Obs_Running, ob_ready = True, ob_ready_since = Some 0,
      ob_ever_ready = True, ob_restarts = 0, ob_last_exit_code = 0, ob_reason = [],
      ob_idle = False\<rparr>"

text \<open>The second pass of the sample: its one copy, placed by the first, is ready.\<close>

definition sample_placed :: app where
  "sample_placed = reconciled sample_inputs sample_app"

definition ready_inputs :: inputs where
  "ready_inputs = sample_inputs\<lparr>in_observations := [ready_observation 1000],
     in_machines := [sample_machine\<lparr>mv_last_seen := Some 50000000000\<rparr>], in_now := 50000000000,
     in_new_id := (\<lambda>n. 2000 + n)\<rparr>"

lemma sample_wf: "app_wf sample_app"
  using sample_app_inv by (simp add: app_inv_def)

lemma sample_fresh: "fresh_ids sample_inputs sample_app"
proof -
  have "app_replicas sample_app = []" by code_simp
  then show ?thesis by (auto simp: fresh_ids_def sample_inputs_def inj_def)
qed

lemma sample_left: "placements_left sample_app"
  by code_simp

lemma sample_placed_wf: "app_wf sample_placed"
  unfolding sample_placed_def
  using reconciled_cases[OF sample_wf sample_fresh]
    run_pass_consistent(3)[OF sample_wf sample_fresh sample_left] sample_wf by metis

lemma ready_fresh: "fresh_ids ready_inputs sample_placed"
proof -
  have "map rep_id (app_replicas sample_placed) = [1000]" by code_simp
  then have "rep_id ` set (app_replicas sample_placed) = {1000}" by (metis list.set_map list.simps(15) empty_set)
  then show ?thesis by (auto simp: fresh_ids_def ready_inputs_def inj_def)
qed

section \<open>Placement\<close>

text \<open>
  C7: the placement returns a machine exactly when one fits (connected, allowed by the rules,
  running apps, of a platform of the image, within its caps, with the memory and CPU left). The
  machine returned fits and no fitting one has a smaller score (spread first, then load, then the
  preferred machine, then the id); a refusal is the reason of the machine that got furthest.
\<close>

theorem place_correct:
  "case place rel settings ms usage pref now of
     Inr i \<Rightarrow>
       (\<exists>m\<in>set ms. mv_id m = i \<and> fits rel settings usage now m \<and>
          (\<forall>m'\<in>set ms. fits rel settings usage now m' \<longrightarrow>
             place_score settings ms usage pref m \<le> place_score settings ms usage pref m'))
   | Inl u \<Rightarrow>
       (\<forall>m\<in>set ms. \<not> fits rel settings usage now m) \<and>
       u = Max (insert NoMachine
             {v. \<exists>m\<in>set ms. screen rel settings usage now m = Refused v})"
proof (cases "place rel settings ms usage pref now")
  case (Inr i)
  then obtain m where "m \<in> set ms" "mv_id m = i" "fits rel settings usage now m"
    "\<And>m'. m' \<in> set ms \<Longrightarrow> fits rel settings usage now m' \<Longrightarrow>
       place_score settings ms usage pref m \<le> place_score settings ms usage pref m'"
    by (elim place_Inr) blast
  then show ?thesis by (auto simp: Inr)
next
  case (Inl u)
  have "fold max xs y = Max (insert y (set xs))" for xs and y :: unplaceable
    by (metis Max.set_eq_fold list.simps(15))
  moreover have "set (List.map_filter
      (\<lambda>m. case screen rel settings usage now m of Refused v \<Rightarrow> Some v | _ \<Rightarrow> None) ms) =
      {v. \<exists>m\<in>set ms. screen rel settings usage now m = Refused v}"
    by (force simp: map_filter_def split: option.splits verdict.splits)
  ultimately show ?thesis using place_Inl[OF Inl] by (simp add: Inl)
qed

theorem place_correct_witness:
  "\<exists>m\<in>set [sample_machine, sample_machine\<lparr>mv_id := 4, mv_cordoned := True\<rparr>].
     mv_id m = 9 \<and> fits (new_release sample_args 1) app_settings_default (\<lambda>_. usage_default) 2000 m"
proof -
  have p: "place (new_release sample_args 1) app_settings_default
      [sample_machine, sample_machine\<lparr>mv_id := 4, mv_cordoned := True\<rparr>] (\<lambda>_. usage_default)
      None 2000 = Inr 9" by code_simp
  have "\<exists>m\<in>set [sample_machine, sample_machine\<lparr>mv_id := 4, mv_cordoned := True\<rparr>].
      mv_id m = 9 \<and> fits (new_release sample_args 1) app_settings_default (\<lambda>_. usage_default) 2000 m"
    using place_correct[where rel = "new_release sample_args 1" and settings = app_settings_default
      and ms = "[sample_machine, sample_machine\<lparr>mv_id := 4, mv_cordoned := True\<rparr>]"
      and usage = "\<lambda>_. usage_default" and pref = None and now = 2000]
    unfolding p sum.case by blast
  then show ?thesis .
qed

text \<open>
  no machine is overcommitted by a placement. Where the sums of reservations and usage are
  below the width of their types, the machine a copy is placed on still has, beside what is
  reserved and used, the memory and the CPU the copy asks for; and it is connected, allowed, not
  cordoned, of a platform of the image and within the per-copy caps.
\<close>

theorem place_within_capacity:
  assumes "place rel settings ms usage pref now = Inr i"
    and "\<And>m. m \<in> set ms \<Longrightarrow>
      mv_reserved_memory_mib m + use_memory_mib (usage (mv_id m)) < 2 ^ 64 \<and>
      mv_reserved_cpu_millis m + use_cpu_millis (usage (mv_id m)) < 2 ^ 32"
  shows "\<exists>m\<in>set ms. mv_id m = i \<and> mv_connected m now \<and> allowed settings m \<and> \<not> mv_cordoned m \<and>
    mv_apps m \<and> (rel_platforms rel = [] \<or> mv_arch m \<in> set (rel_platforms rel)) \<and>
    (mv_max_replica_memory_mib m = 0 \<or>
       spec_memory_mib (rel_spec rel) \<le> mv_max_replica_memory_mib m) \<and>
    (spec_memory_mib (rel_spec rel) = 0 \<or>
       mv_reserved_memory_mib m + use_memory_mib (usage i) + spec_memory_mib (rel_spec rel)
         \<le> allocatable_memory_mib m) \<and>
    (spec_cpu_millis (rel_spec rel) = 0 \<or>
       mv_reserved_cpu_millis m + use_cpu_millis (usage i) + spec_cpu_millis (rel_spec rel)
         \<le> allocatable_cpu_millis m)"
proof -
  from assms(1) obtain m where m: "m \<in> set ms" "mv_id m = i" "fits rel settings usage now m"
    by (elim place_Inr)
  have "u64_add (mv_reserved_memory_mib m) (use_memory_mib (usage i)) =
      mv_reserved_memory_mib m + use_memory_mib (usage i)"
    "u32_add (mv_reserved_cpu_millis m) (use_cpu_millis (usage i)) =
      mv_reserved_cpu_millis m + use_cpu_millis (usage i)"
    using assms(2)[OF m(1)] m(2) by simp_all
  with fitsD[OF m(3)] m show ?thesis
    by (intro bexI[of _ m]) (auto simp: allowed_def Let_def)
qed

theorem place_within_capacity_witness:
  "place (new_release sample_args 1) app_settings_default [sample_machine] (\<lambda>_. usage_default)
     None 2000 = Inr 9 \<and>
   (\<exists>m\<in>set [sample_machine]. mv_id m = 9 \<and> mv_connected m 2000)"
proof -
  have p: "place (new_release sample_args 1) app_settings_default [sample_machine] (\<lambda>_. usage_default)
     None 2000 = Inr 9" by code_simp
  have "\<exists>m\<in>set [sample_machine]. mv_id m = 9 \<and> mv_connected m 2000"
    using place_within_capacity[OF p] by (auto simp: sample_machine_def usage_default_def)
  with p show ?thesis by simp
qed

section \<open>Every pass\<close>

text \<open>
  C8: the decision of a pass is consistent with the app it was made for: its events may follow
  the app one by one, folding them gives the state the pass worked on, and that state satisfies
  the invariant; with fewer than \<open>2^64\<close> placements used, none of its numbers wraps.
\<close>

theorem reconcile_consistent:
  assumes "app_wf a" "fresh_ids inp a" "placements_left a"
  shows "events_ok a (dec_events (reconcile_with_policy inp a)) \<and> app_wf (reconciled inp a) \<and>
    (app_exists a \<and> \<not> app_deleted a \<longrightarrow> reconciled inp a = work (run_pass inp a))"
  using reconcile_ok[OF assms] reconciled_cases[OF assms(1,2)] run_pass_consistent(3)[OF assms]
  by (metis assms(1))

theorem reconcile_consistent_witness:
  "app_wf (reconciled sample_inputs sample_app) \<and> app_exists sample_app"
proof -
  have "app_exists sample_app" by code_simp
  with reconcile_consistent[OF sample_wf sample_fresh sample_left] show ?thesis by blast
qed

text \<open>
  An app whose passes are all exclusive: the stream of \<open>App_Stream\<close>, with every writer, in which the
  reconciler runs only for an app that has volumes of its own or whose stack asks for exclusive copies.
\<close>

inductive exclusive_stream :: "app_event list \<Rightarrow> bool" where
  begins: "exclusive_stream []"
| commanded: "exclusive_stream h \<Longrightarrow> app_handle c (app_of h) = Inr es \<Longrightarrow> exclusive_stream (h @ es)"
| passed: "exclusive_stream h \<Longrightarrow> fresh_ids inp (app_of h) \<Longrightarrow> placements_left (app_of h) \<Longrightarrow>
    is_exclusive inp \<Longrightarrow> exclusive_stream (h @ dec_events (reconcile_with_policy inp (app_of h)))"
| lost: "exclusive_stream h \<Longrightarrow> exclusive_stream (h @ [HostedVolumeLost v nm host at snap])"
| emptied: "exclusive_stream h \<Longrightarrow> exclusive_stream (h @ [HostedVolumeEmptyAccepted v actor at])"
| postponed: "exclusive_stream h \<Longrightarrow> app_deleted (app_of h) \<Longrightarrow> app_purge_after (app_of h) = Some due \<Longrightarrow>
    due < later \<Longrightarrow> exclusive_stream (h @ [App_Deleted actor at (Some later)])"

lemma exclusive_stream_stream: "exclusive_stream h \<Longrightarrow> app_stream h"
  by (induction rule: exclusive_stream.induct) (auto intro: app_stream.intros)

lemma command_replicas:
  assumes "app_handle c a = Inr es"
  shows "app_replicas (fold_events app_apply a es) \<in> {app_replicas a, []}"
  using assms
proof (cases rule: app_handle_cases)
  case live
  from live(3) show ?thesis
  proof (cases rule: handle_live_cases)
    case (release x)
    from release(2) show ?thesis
      by (cases rule: handle_release_cases)
        (auto dest!: make_release_InrD(4) simp: app_apply_fields split: option.splits)
  next
    case (restart actor n secrets ro at)
    from restart(2) show ?thesis by (elim handle_restart_InrD) (simp add: app_apply_fields)
  next
    case (delete actor at due)
    then have "es = App_Deleted actor at (Some due)
             # map (\<lambda>i. ReplicaRemoved i at) (map rep_id (app_replicas a))"
      by (simp add: delete_events)
    then show ?thesis
      by (simp add: removals_replicas replicas_apply filter_empty_conv del: map_map)
  qed (auto simp: app_apply_fields)
qed (auto simp: app_apply_fields elim!: handle_deleted_cases)

lemma exclusive_pass:
  assumes "app_wf a" "fresh_ids inp a" "is_exclusive inp" "distinct (map rep_slot (app_replicas a))"
  shows "distinct (map rep_slot (app_replicas (reconciled inp a))) \<and>
    length (app_replicas (reconciled inp a)) \<le>
      max (length (app_replicas a)) (set_copies (app_settings a))"
proof (cases rule: reconciled_cases[OF assms(1,2)])
  case 2
  then show ?thesis
    using steps_exclusive[OF run_pass_steps[OF assms(1,2)] assms(3)] assms(4)
    by (simp add: distinct_slots_def)
qed (use assms(4) in simp_all)

lemma exclusive_stream_slots:
  "exclusive_stream h \<Longrightarrow> distinct (map rep_slot (app_replicas (app_of h)))"
proof (induction rule: exclusive_stream.induct)
  case begins
  then show ?case by (simp add: app_default_def)
next
  case (commanded h c es)
  with command_replicas[OF commanded.hyps(2)] show ?case by auto
next
  case (passed h inp)
  then have "app_wf (app_of h)"
    using app_stream_inv[OF exclusive_stream_stream] by (simp add: app_inv_def)
  from exclusive_pass[OF this passed.hyps(2,4) passed.IH] show ?case by (simp add: reconciled_def)
qed (simp_all add: app_apply_fields)

text \<open>
  C3: one pass of the reconciler over an app that is exclusive in it (it has volumes of its own, or
  its stack asks for exclusive copies) never adds a second copy to a slot: if no slot had two copies
  before the pass none has after it, draining copies counted, and the pass leaves no more copies than
  there were or than the app should have. So in every history of an app in which each pass is exclusive,
  whatever commands and other writers come between the passes, no slot ever has two copies. (An app that
  was in surge when it became exclusive may have two in a slot, until passes drain one.)
\<close>

theorem reconcile_exclusive:
  assumes "app_wf a" "fresh_ids inp a" "is_exclusive inp" "distinct (map rep_slot (app_replicas a))"
  shows "distinct (map rep_slot (app_replicas (reconciled inp a))) \<and>
    length (app_replicas (reconciled inp a)) \<le>
      max (length (app_replicas a)) (set_copies (app_settings a)) \<and>
    (\<forall>h. exclusive_stream h \<longrightarrow> distinct (map rep_slot (app_replicas (app_of h))))"
  using exclusive_pass[OF assms] exclusive_stream_slots by blast

definition stateful_inputs :: inputs where
  "stateful_inputs = sample_inputs\<lparr>in_stateful := True\<rparr>"

definition stateful_history :: "app_event list" where
  "stateful_history = sample_history @ [ReplicaPlaced 1000 0 1 9 0 Rolling 2000]"

lemma stateful_fresh: "fresh_ids stateful_inputs sample_app"
  using sample_fresh by (simp add: fresh_ids_def stateful_inputs_def)

lemma stateful_stream: "exclusive_stream stateful_history"
proof -
  have app: "app_of sample_history = sample_app" by code_simp
  have 1: "exclusive_stream ([] @ [App_Created 1 ''web'' app_settings_default 7 1000])"
    by (rule exclusive_stream.commanded[OF exclusive_stream.begins,
          of "App_Create 7 1 ''web'' app_settings_default 1000"])
      (simp add: app_handle_def app_default_def)
  have "app_handle (Release sample_args) (app_of ([] @ [App_Created 1 ''web'' app_settings_default 7 1000])) =
      Inr [ReleaseCreated (new_release sample_args 1), RolloutStarted 50 None 1 1000 False]"
    by code_simp
  from exclusive_stream.commanded[OF 1 this] have 2: "exclusive_stream sample_history"
    by (simp add: sample_history_def)
  have "dec_events (reconcile_with_policy stateful_inputs sample_app) =
      [ReplicaPlaced 1000 0 1 9 0 Rolling 2000]" by code_simp
  with exclusive_stream.passed[OF 2, of stateful_inputs] stateful_fresh sample_left show ?thesis
    by (simp add: app stateful_history_def stateful_inputs_def is_exclusive_def)
qed

theorem reconcile_exclusive_witness:
  "length (app_replicas (reconciled stateful_inputs sample_app)) \<le> 1 \<and>
   map rep_slot (app_replicas (app_of stateful_history)) = [0] \<and>
   distinct (map rep_slot (app_replicas (app_of stateful_history)))"
proof -
  have "app_replicas sample_app = []" "set_copies (app_settings sample_app) = 1" by code_simp+
  moreover have "map rep_slot (app_replicas (app_of stateful_history)) = [0]" by code_simp
  ultimately show ?thesis
    using reconcile_exclusive[OF sample_wf stateful_fresh] stateful_stream
    by (simp add: is_exclusive_def stateful_inputs_def)
qed

text \<open>
  with a strict surge limit, the copies in the slots of an app, draining ones included, never
  pass copies plus surge: a pass that begins within the limit ends within it.
\<close>

theorem reconcile_strict_surge:
  assumes "app_wf a" "fresh_ids inp a" "strict_surge inp" "copies_in_range a \<le> surge_limit a"
  shows "copies_in_range (reconciled inp a) \<le> surge_limit a"
proof (cases rule: reconciled_cases[OF assms(1,2)])
  case 2
  then show ?thesis
    using steps_strict_surge[OF run_pass_steps[OF assms(1,2)] assms(3)] assms(4) by simp
qed (use assms(4) in simp_all)

definition strict_policy :: stack_policy where
  "strict_policy = \<lparr>pol_exclusive = False, pol_strict_surge = True, pol_stopping = False,
     pol_terminal_receipts = []\<rparr>"

theorem reconcile_strict_surge_witness:
  "copies_in_range (reconciled (sample_inputs\<lparr>in_policy := Some strict_policy\<rparr>) sample_app) \<le> 2"
proof -
  have "copies_in_range sample_app = 0" "surge_limit sample_app = 2" by code_simp+
  moreover have "fresh_ids (sample_inputs\<lparr>in_policy := Some strict_policy\<rparr>) sample_app"
    using sample_fresh by (simp add: fresh_ids_def)
  ultimately show ?thesis
    using reconcile_strict_surge[OF sample_wf, of "sample_inputs\<lparr>in_policy := Some strict_policy\<rparr>"]
    by (simp add: strict_surge_def strict_policy_def)
qed

text \<open>
  C6: a pass places copies only of a release the app should run (its current one or the target of
  its rollout), and only on a machine of the inputs that is connected, allowed by the rules,
  running apps, of a platform of that release's image and within the machine's per-copy caps.
\<close>

theorem reconcile_placed_well:
  assumes "app_wf a" "fresh_ids inp a" "e \<in> set (dec_events (reconcile_with_policy inp a))"
  shows "placed_well inp a e"
proof (cases rule: reconciled_cases[OF assms(1,2)])
  case 2
  then show ?thesis using steps_placed_well[OF run_pass_steps[OF assms(1,2)]] assms(3) by simp
qed (use assms(3) in simp_all)

theorem reconcile_placed_well_witness:
  "\<exists>rel. app_release sample_app 1 = Some rel \<and>
     suitable sample_inputs (app_settings sample_app) rel 9"
proof -
  have "ReplicaPlaced 1000 0 1 9 0 Rolling 2000 \<in>
      set (dec_events (reconcile_with_policy sample_inputs sample_app))" by code_simp
  from reconcile_placed_well[OF sample_wf sample_fresh this] show ?thesis
    by (simp add: placed_well_def)
qed

section \<open>The end of a rollout\<close>

lemma step_rollout:
  "pass_step inp p q \<Longrightarrow> app_rollout (work q) = Some ro \<Longrightarrow> app_rollout (work p) = Some ro"
  by (cases rule: pass_step.cases) (auto simp: app_apply_fields place_event_def succeed_fields)

lemma steps_rollout:
  "pass_steps inp p q \<Longrightarrow> app_rollout (work q) = Some ro \<Longrightarrow> app_rollout (work p) = Some ro"
  by (induction rule: rtranclp_induct) (auto dest: step_rollout)

text \<open>
  C4: a rollout succeeds only when it is done. If a pass decides so, then in the app it leaves
  every slot runs an available copy of the rollout's release (connected, ready, and ready for at
  least the minimum), nothing else runs, no rollout is left and that release is the current one;
  a serial rollout also waits until nothing drains.
\<close>

theorem rollout_succeeds_when_done:
  assumes wf: "app_wf a" and fresh: "fresh_ids inp a"
    and e: "RolloutSucceeded i t \<in> set (dec_events (reconcile_with_policy inp a))"
  shows "\<exists>ro b. app_rollout a = Some ro \<and> i = ro_id ro \<and> b = reconciled inp a \<and>
    app_rollout b = None \<and> app_current_release b = Some (ro_to ro) \<and>
    (\<forall>slot<set_copies (app_settings a). \<exists>r\<in>set (app_replicas b).
       rep_slot r = slot \<and> rep_release r = ro_to ro \<and> available inp (app_settings a) r) \<and>
    (\<forall>r\<in>set (app_replicas b). rep_state r = Running \<longrightarrow>
       rep_release r = ro_to ro \<and> rep_slot r < set_copies (app_settings a)) \<and>
    (ro_serial ro \<longrightarrow> (\<forall>r\<in>set (app_replicas b). rep_state r \<noteq> Draining))"
proof (cases rule: reconciled_cases[OF wf fresh])
  case 1
  with e show ?thesis by simp
next
  case 2
  from e have "RolloutSucceeded i t \<in> set (events (run_pass inp a))" by (simp add: 2(4))
  with wf fresh obtain ro where ro: "app_rollout (work (after_converge inp a)) = Some ro"
    "rollout_done inp ro (after_converge inp a)"
    "run_pass inp a = succeed inp ro (after_converge inp a)" by (rule success_from_finish)
  let ?p = "after_converge inp a"
  have "distinct (map rep_id (app_replicas a))" using wf by (simp add: app_wf_def replicas_wf_def)
  note st = after_converge_steps[OF this fresh]
  have "emits before_success (start_pass a) ?p" by (rule after_converge_emits[OF wf fresh])
  then have "RolloutSucceeded i t \<notin> set (events ?p)"
    using emits_mem by (fastforce simp: before_success_def)
  then have "i = ro_id ro"
    using e by (auto simp: 2(4) ro(3) success_events_def split: if_splits)
  moreover have "app_rollout a = Some ro" using steps_rollout[OF st ro(1)] by simp
  moreover have "app_settings (work ?p) = app_settings a" using pass_steps_frame(1)[OF st] by simp
  ultimately show ?thesis
    using ro(2)
    by (auto simp: 2(3) ro(3) succeed_fields rollout_done_def Let_def list_all_iff list_ex_iff
        running_def running_of_def)
qed

theorem rollout_succeeds_when_done_witness:
  "app_current_release (reconciled ready_inputs sample_placed) = Some 1 \<and>
   app_rollout (reconciled ready_inputs sample_placed) = None"
proof -
  have "RolloutSucceeded 50 50000000000 \<in> set (dec_events (reconcile_with_policy ready_inputs sample_placed))"
    by code_simp
  moreover have "map_option ro_to (app_rollout sample_placed) = Some 1" by code_simp
  ultimately show ?thesis
    using rollout_succeeds_when_done[OF sample_placed_wf ready_fresh] by auto
qed

section \<open>Availability\<close>

definition serving :: "inputs \<Rightarrow> app \<Rightarrow> nat \<Rightarrow> bool" where
  "serving inp a slot \<longleftrightarrow>
     (\<exists>r\<in>set (app_replicas a). rep_slot r = slot \<and> available inp (app_settings a) r)"

definition down_slots :: "inputs \<Rightarrow> app \<Rightarrow> nat" where
  "down_slots inp a = card {slot. slot < set_copies (app_settings a) \<and> \<not> serving inp a slot}"

lemma served_serving: "slot \<in> served inp p \<longleftrightarrow> serving inp (work p) slot"
  by (auto simp: served_iff serving_def running_def running_of_def available_def Let_def)

lemma unserved_down_slots: "unserved inp (set_copies (app_settings (work p))) p = down_slots inp (work p)"
  unfolding unserved_def down_slots_def by (rule arg_cong[of _ _ card]) (auto simp: served_serving)

text \<open>
  C2: one pass takes capacity away only within the rollout's limits. Take an app that exists, is not
  deleted and has a target, in a pass in which no lease ends, its copies are not exclusive, its stack is
  not stopping and no rollout fails. Then after the pass the number of slots without an available copy
  is at most the greatest of 1, \<open>max_unavailable\<close>, and that number before the pass: slots that were
  down for other reasons may stay down, and when more than the limit were down the pass takes none. And
  with a strict surge limit every slot that was served before still is. (The 1 is the drain that makes
  room on a full machine, \<open>NoRoom\<close>.)
\<close>

theorem reconcile_keeps_serving:
  assumes "app_wf a" "fresh_ids inp a" "app_exists a" "\<not> app_deleted a"
    and "in_ended_leases inp = []" "\<not> is_exclusive inp" "\<not> policy_stopping inp"
    and "app_target a \<noteq> None" "set_copies (app_settings a) < 2 ^ 32"
    and "\<forall>i w b t. RolloutFailed i w b t \<notin> set (dec_events (reconcile_with_policy inp a))"
  shows "down_slots inp (reconciled inp a) \<le>
      max (down_slots inp a) (max 1 (max_unavailable (set_rollout (app_settings a)))) \<and>
    (strict_surge inp \<longrightarrow> (\<forall>slot<set_copies (app_settings a).
       serving inp a slot \<longrightarrow> serving inp (reconciled inp a) slot))"
proof -
  have r: "reconciled inp a = work (run_pass inp a)"
    "dec_events (reconcile_with_policy inp a) = events (run_pass inp a)"
    by (rule reconciled_cases[OF assms(1,2)]; use assms(3,4) in simp)+
  then have "goes_on inp a" using assms(10) by (simp add: goes_on_def)
  from run_pass_may_give[OF assms(1,2,5,6,7,8,9) this]
  have m: "may_give inp (set_copies (app_settings a))
      (max_unavailable (set_rollout (app_settings a))) (start_pass a) (run_pass inp a)" .
  have s: "app_settings (work (run_pass inp a)) = app_settings a"
    using pass_steps_frame(1)[OF run_pass_steps[OF assms(1,2)]] by simp
  show ?thesis
    using m unserved_down_slots[of inp "start_pass a"] unserved_down_slots[of inp "run_pass inp a"]
    by (auto simp: may_give_def r s served_serving subset_eq)
qed

text \<open>Three copies that all serve, in the middle of a rollout that may take one of them.\<close>

definition busy_settings :: app_settings where
  "busy_settings = app_settings_default\<lparr>set_copies := 3,
     set_rollout := rollout_settings_default\<lparr>max_surge := 0, max_unavailable := 1\<rparr>\<rparr>"

definition busy_history :: "app_event list" where
  "busy_history =
     [App_Created 1 ''web'' busy_settings 7 1000, ReleaseCreated (new_release sample_args 1),
      RolloutStarted 50 None 1 1000 False, ReplicaPlaced 500 0 1 9 0 Rolling 1000,
      ReplicaPlaced 501 1 1 9 1 Rolling 1000, ReplicaPlaced 502 2 1 9 2 Rolling 1000,
      CurrentReleaseSet 1 1500, RolloutSucceeded 50 1500,
      ReleaseCreated (new_release (sample_args\<lparr>ra_request := None\<rparr>) 2),
      RolloutStarted 51 (Some 1) 2 1900 False]"

definition busy_app :: app where
  "busy_app = fold_events app_apply app_default busy_history"

definition busy_inputs :: "stack_policy option \<Rightarrow> inputs" where
  "busy_inputs policy =
     ready_inputs\<lparr>in_observations := map ready_observation [500, 501, 502], in_policy := policy\<rparr>"

lemma busy_wf: "app_wf busy_app"
  unfolding busy_app_def
proof (rule events_ok_wf[OF app_wf_default])
  show "events_ok app_default busy_history"
    by (simp add: busy_history_def app_apply_fields app_default_def release_numbers_apply
        requests_apply sample_args_def) (simp add: release_numbers_def requests_def)
qed

lemma busy_facts:
  "app_exists busy_app" "\<not> app_deleted busy_app" "app_target busy_app = Some 2"
  "app_settings busy_app = busy_settings" "map rep_id (app_replicas busy_app) = [500, 501, 502]"
  by code_simp+

lemma busy_fresh: "fresh_ids (busy_inputs policy) busy_app"
proof -
  have "rep_id ` set (app_replicas busy_app) = set [500, 501, 502]"
    by (metis busy_facts(5) list.set_map)
  then show ?thesis by (auto simp: fresh_ids_def busy_inputs_def ready_inputs_def inj_def)
qed

lemma busy_pass:
  "dec_events (reconcile_with_policy (busy_inputs None) busy_app) =
     [ReplicaDraining 500 Replaced 50000000000, ReplicaPlaced 2000 1 2 9 3 Rolling 50000000000]"
  "list_all (serving (busy_inputs None) busy_app) [0..<3]"
  "\<not> serving (busy_inputs None) (reconciled (busy_inputs None) busy_app) 0"
  "\<not> list_ex (\<lambda>e. case e of RolloutFailed _ _ _ _ \<Rightarrow> True | _ \<Rightarrow> False)
     (dec_events (reconcile_with_policy (busy_inputs (Some strict_policy)) busy_app))"
  "list_all (serving (busy_inputs (Some strict_policy)) busy_app) [0..<3]"
  by code_simp+

lemma no_failure:
  "\<not> list_ex (\<lambda>e. case e of RolloutFailed _ _ _ _ \<Rightarrow> True | _ \<Rightarrow> False) es \<Longrightarrow>
   RolloutFailed i w b t \<notin> set es"
  by (auto simp: list_ex_iff)

theorem reconcile_keeps_serving_witness:
  "down_slots (busy_inputs None) busy_app = 0 \<and>
   \<not> serving (busy_inputs None) (reconciled (busy_inputs None) busy_app) 0 \<and>
   down_slots (busy_inputs None) (reconciled (busy_inputs None) busy_app) \<le> 1 \<and>
   list_all (serving (busy_inputs (Some strict_policy))
      (reconciled (busy_inputs (Some strict_policy)) busy_app)) [0..<3]"
proof -
  have settings: "set_copies (app_settings busy_app) = 3"
    "max_unavailable (set_rollout (app_settings busy_app)) = 1"
    by (simp_all add: busy_facts(4) busy_settings_def)
  have served: "serving (busy_inputs None) busy_app slot"
    "serving (busy_inputs (Some strict_policy)) busy_app slot" if "slot < 3" for slot
    using busy_pass(2,5) that by (auto simp: list_all_iff)
  have down: "down_slots (busy_inputs None) busy_app = 0"
    using served(1) by (simp add: down_slots_def settings)
  have loose: "down_slots (busy_inputs None) (reconciled (busy_inputs None) busy_app) \<le> 1"
    using reconcile_keeps_serving[OF busy_wf busy_fresh[of None] busy_facts(1,2)] busy_facts(3)
      busy_pass(1) down
    by (simp add: settings busy_inputs_def ready_inputs_def sample_inputs_def is_exclusive_def
        policy_stopping_def)
  have "\<forall>slot<3. serving (busy_inputs (Some strict_policy)) busy_app slot \<longrightarrow>
      serving (busy_inputs (Some strict_policy)) (reconciled (busy_inputs (Some strict_policy)) busy_app) slot"
    using reconcile_keeps_serving[OF busy_wf busy_fresh[of "Some strict_policy"] busy_facts(1,2)]
      busy_facts(3) no_failure[OF busy_pass(4)]
    by (simp add: settings busy_inputs_def ready_inputs_def sample_inputs_def is_exclusive_def
        policy_stopping_def strict_surge_def strict_policy_def)
  with served(2) down loose busy_pass(3) show ?thesis by (simp add: list_all_iff)
qed

text \<open>
  C9: the reconciler comes to rest. When every slot has exactly one copy, of the current release,
  available and on a machine the rules allow, and nothing is in progress, a pass decides nothing
  but, at most, one move that improves the spread; and not even that within five minutes of the
  last move or for exclusive copies.
\<close>

theorem reconcile_rests:
  assumes "app_wf a" "at_rest inp a"
  shows "dec_waiting (reconcile_with_policy inp a) = [] \<and>
    (dec_events (reconcile_with_policy inp a) = [] \<or>
     (\<exists>i slot n machine pl at. dec_events (reconcile_with_policy inp a) =
        [ReplicaPlaced i slot n machine pl Spread at])) \<and>
    (is_exclusive inp \<or>
     (\<exists>at. app_last_spread_move a = Some at \<and> in_now inp - at < minutes 5) \<longrightarrow>
       dec_events (reconcile_with_policy inp a) = [])"
proof -
  have rp: "run_pass inp a = repair_spread inp (start_pass a)" by (rule rest_run_pass[OF assms(2,1)])
  have d: "reconcile_with_policy inp a =
      \<lparr>dec_events = events (run_pass inp a), dec_waiting = waits (run_pass inp a)\<rparr>"
    using assms(2) by (simp add: reconcile_with_policy_def at_rest_def Let_def)
  show ?thesis
  proof (cases rule: repair_spread_cases[of inp "start_pass a"])
    case same
    then show ?thesis by (simp add: d rp)
  next
    case (moved target source i)
    then show ?thesis
      by (auto simp: d rp place_event_def spread_settled_def SPREAD_MOVE_EVERY_def is_some_and_iff)
  qed
qed

definition sample_resting :: app where
  "sample_resting = app_apply sample_running (ReplicaPlaced 1000 0 1 9 0 Rolling 2000)"

lemma sample_resting_wf: "app_wf sample_resting"
proof -
  have "release_numbers sample_running = [1]" "app_replicas sample_running = []"
    "app_next_placement sample_running = 0" by code_simp+
  then show ?thesis
    unfolding sample_resting_def
    using sample_running_inv by (intro app_apply_wf) (simp_all add: app_inv_def)
qed

theorem reconcile_rests_witness:
  "at_rest ready_inputs sample_resting \<and>
   dec_waiting (reconcile_with_policy ready_inputs sample_resting) = []"
proof -
  have "app_current_release sample_resting = Some 1 \<and> list_all (\<lambda>r. rep_release r = 1 \<and>
      available ready_inputs (app_settings sample_resting) r \<and>
      rep_slot r < set_copies (app_settings sample_resting) \<and>
      \<not> misplaced ready_inputs (start_pass sample_resting) r) (app_replicas sample_resting)"
    by code_simp
  moreover have "app_exists sample_resting \<and> \<not> app_deleted sample_resting \<and> \<not> app_halted sample_resting"
    "Option.is_none (app_rollout sample_resting)" "map rep_slot (app_replicas sample_resting) = [0]"
    "in_ended_leases ready_inputs = [] \<and> \<not> policy_stopping ready_inputs"
    "set_copies (app_settings sample_resting) = 1"
    by code_simp+
  ultimately have "at_rest ready_inputs sample_resting"
    by (auto simp: at_rest_def list_all_iff Option.is_none_def lessThan_Suc)
  with reconcile_rests[OF sample_resting_wf this] show ?thesis by blast
qed

section \<open>A pass over what did not change\<close>

text \<open>A second pass over the same inputs may decide again: an excess copy whose process ended is drained
  by the first pass and removed by the second.\<close>

definition sample_excess :: app where
  "sample_excess = app_apply sample_resting (ReplicaPlaced 1001 1 1 9 1 Rolling 2000)"

definition excess_inputs :: inputs where
  "excess_inputs = ready_inputs\<lparr>in_observations :=
     in_observations ready_inputs @ [(ready_observation 1001)\<lparr>ob_state := Obs_Exited, ob_ready := False\<rparr>]\<rparr>"

lemma pass_decides_again:
  "dec_events (reconcile_with_policy excess_inputs sample_excess) = [ReplicaDraining 1001 ScaledDown 50000000000]"
  "dec_events (reconcile_with_policy excess_inputs (reconciled excess_inputs sample_excess)) =
     [ReplicaRemoved 1001 50000000000]"
  by code_simp+

end
