(* ===== verification/Volume.thy ===== *)
theory Volume
  imports Prelude
begin

text \<open>
  The volume aggregate of \<open>grund-domain/src/volume.rs\<close>: an app-owned volume, its placement on a
  machine, the attachment of a hosted block drive to a slot of that machine, its deletion window
  and its loss. Prefixes follow the code's aliases \<open>S\<close>, \<open>E\<close>, \<open>C\<close>: \<open>VS_\<close> for a status,
  \<open>VE_\<close> for an event, \<open>VC_\<close> for a command.
\<close>

datatype volume_status =
    VS_Requested | VS_Available | VS_AwaitingBackend | VS_Lost | VS_DetachingBackend
  | VS_Attached | VS_PendingDeletion | VS_Deleting | VS_Deleted

datatype volume_event =
    VE_Requested uuid uuid string string "string option" bool "nat option" time
  | VE_RestoreReserved uuid time
  | VE_Placed uuid time
  | VE_Attached uuid string time
  | VE_BackendPlacementPrepared uuid nat time
  | VE_BackendAttached uuid time
  | VE_BackendReceiptInvalidated uuid time
  | VE_BackendDetachmentStarted uuid time
  | VE_BackendDetached uuid time
  | VE_Detached time
  | VE_BackupPolicySet bool time
  | VE_DeleteRequested "uuid option" time "time option"
  | VE_Restored time volume_status
  | VE_PurgeRequested time "uuid option" "string option"
  | VE_Deleted time
  | VE_Lost uuid string time "string option"
  | VE_EmptyReplacementAccepted time uuid
  | VE_LostVolumeAbandoned time

record volume =
  v_organisation :: "uuid option"
  v_app :: "uuid option"
  v_name :: string
  v_path :: string
  v_source :: "string option"
  v_size_gib :: "nat option"
  v_slot :: "nat option"
  v_detachment_pending :: bool
  v_backup :: bool
  v_machine :: "uuid option"
  v_status :: "volume_status option"
  v_requested_at :: "time option"
  v_purge_after :: "time option"
  v_lost_host :: "uuid option"
  v_lost_host_name :: "string option"
  v_lost_at :: "time option"
  v_lost_snapshot :: "string option"
  v_empty_accepted :: bool

definition volume_default :: volume where
  "volume_default =
     \<lparr>v_organisation = None, v_app = None, v_name = [], v_path = [], v_source = None,
      v_size_gib = None, v_slot = None, v_detachment_pending = False, v_backup = False,
      v_machine = None, v_status = None, v_requested_at = None, v_purge_after = None,
      v_lost_host = None, v_lost_host_name = None, v_lost_at = None, v_lost_snapshot = None,
      v_empty_accepted = False\<rparr>"

text \<open>The status after a step of a detachment: a volume being deleted stays so.\<close>

definition unless_deleting :: "volume_status \<Rightarrow> volume \<Rightarrow> volume_status option" where
  "unless_deleting s v =
     (if v_status v \<noteq> Some VS_PendingDeletion \<and> v_status v \<noteq> Some VS_Deleting then Some s
      else v_status v)"

fun volume_apply :: "volume \<Rightarrow> volume_event \<Rightarrow> volume" where
  "volume_apply v (VE_Requested org ap nm path source backup gib at) =
     v\<lparr>v_organisation := Some org, v_app := Some ap, v_name := nm, v_path := path,
       v_source := source, v_backup := backup, v_size_gib := gib, v_requested_at := Some at,
       v_status := Some VS_Requested\<rparr>"
| "volume_apply v (VE_RestoreReserved machine _) = v\<lparr>v_machine := Some machine\<rparr>"
| "volume_apply v (VE_Placed machine _) =
     v\<lparr>v_machine := Some machine, v_status := Some VS_Available\<rparr>"
| "volume_apply v (VE_BackendPlacementPrepared machine slot _) =
     v\<lparr>v_machine := Some machine, v_slot := Some slot, v_status := Some VS_AwaitingBackend\<rparr>"
| "volume_apply v (VE_BackendAttached _ _) = v\<lparr>v_status := Some VS_Attached\<rparr>"
| "volume_apply v (VE_BackendReceiptInvalidated _ _) = v\<lparr>v_status := Some VS_AwaitingBackend\<rparr>"
| "volume_apply v (VE_BackendDetachmentStarted _ _) =
     v\<lparr>v_detachment_pending := True, v_status := unless_deleting VS_DetachingBackend v\<rparr>"
| "volume_apply v (VE_BackendDetached _ _) =
     v\<lparr>v_detachment_pending := False, v_slot := None, v_status := unless_deleting VS_Available v\<rparr>"
| "volume_apply v (VE_Attached machine path _) =
     v\<lparr>v_machine := Some machine, v_path := path, v_status := Some VS_Attached\<rparr>"
| "volume_apply v (VE_Detached _) = v\<lparr>v_status := Some VS_Available\<rparr>"
| "volume_apply v (VE_BackupPolicySet backup _) = v\<lparr>v_backup := backup\<rparr>"
| "volume_apply v (VE_DeleteRequested _ _ purge_after) =
     v\<lparr>v_purge_after := purge_after,
       v_status := Some (if purge_after \<noteq> None then VS_PendingDeletion else VS_Deleting)\<rparr>"
| "volume_apply v (VE_Restored _ status) = v\<lparr>v_status := Some status, v_purge_after := None\<rparr>"
| "volume_apply v (VE_PurgeRequested _ _ _) = v\<lparr>v_status := Some VS_Deleting, v_purge_after := None\<rparr>"
| "volume_apply v (VE_Lost host nm at snapshot) =
     v\<lparr>v_lost_host := Some host, v_lost_host_name := Some nm, v_lost_at := Some at,
       v_lost_snapshot := snapshot, v_slot := None, v_detachment_pending := False,
       v_status := Some VS_Lost\<rparr>"
| "volume_apply v (VE_EmptyReplacementAccepted _ _) = v\<lparr>v_empty_accepted := True\<rparr>"
| "volume_apply v (VE_LostVolumeAbandoned _) = v\<lparr>v_status := Some VS_Deleted\<rparr>"
| "volume_apply v (VE_Deleted _) = v\<lparr>v_status := Some VS_Deleted\<rparr>"

datatype volume_command =
    VC_Request uuid uuid string string "string option" bool "nat option" time
  | VC_ReserveRestore uuid time
  | VC_Place uuid time
  | VC_PrepareBackend uuid nat time
  | VC_ConfirmBackendAttachment uuid time
  | VC_InvalidateBackendAttachment uuid time
  | VC_BeginBackendDetachment uuid time
  | VC_ConfirmBackendDetachment uuid time
  | VC_Attach uuid string time
  | VC_Detach time
  | VC_Delete time time
  | VC_Restore time
  | VC_Purge time
  | VC_PurgeNow uuid string time
  | VC_FinalizeWithoutErasure time
  | VC_ConfirmDeleted uuid time
  | VC_ConfirmBackendDeleted uuid time
  | VC_DeclareLost uuid string "string option" time
  | VC_AcceptEmptyReplacement uuid time
  | VC_AbandonLost time

datatype volume_error =
    Vol_NotFound | Vol_SourceChanged | Vol_WrongOwner | Vol_Deleting | Vol_WriterPresent
  | Vol_MachineChanged | Vol_Attached | Vol_InvalidAcknowledgement | Vol_BackendNotReady
  | Vol_SizeChanged | Vol_InvalidSize | Vol_Lost

type_synonym volume_result = "volume_error + volume_event list"

definition is_lost_volume :: "volume \<Rightarrow> bool" where
  "is_lost_volume v = (v_lost_host v \<noteq> None)"

definition status_in :: "volume_status set \<Rightarrow> volume \<Rightarrow> bool" where
  "status_in ss v = is_some_and (v_status v) (\<lambda>s. s \<in> ss)"

definition request_volume ::
  "uuid \<Rightarrow> uuid \<Rightarrow> string \<Rightarrow> string \<Rightarrow> string option \<Rightarrow> bool \<Rightarrow> nat option \<Rightarrow> time
     \<Rightarrow> volume \<Rightarrow> volume_result" where
  "request_volume org ap nm path source backup gib at v =
     (if is_some_and gib (\<lambda>n. \<not> (1 \<le> n \<and> n \<le> 4096)) \<or> (gib \<noteq> None \<and> source \<noteq> None)
        then Inl Vol_InvalidSize
      else if is_lost_volume v then Inl Vol_Lost
      else if v_status v \<noteq> None then
        (if status_in {VS_PendingDeletion, VS_Deleting, VS_Deleted} v then Inl Vol_Deleting
         else if v_organisation v \<noteq> Some org \<or> v_app v \<noteq> Some ap \<or> v_name v \<noteq> nm
           then Inl Vol_WrongOwner
         else if v_source v \<noteq> source then Inl Vol_SourceChanged
         else if v_size_gib v \<noteq> gib then Inl Vol_SizeChanged
         else if v_backup v \<noteq> backup then Inr [VE_BackupPolicySet backup at]
         else Inr [])
      else Inr [VE_Requested org ap nm path source backup gib at])"

definition reserve_restore :: "uuid \<Rightarrow> time \<Rightarrow> volume \<Rightarrow> volume_result" where
  "reserve_restore machine at v =
     (if is_lost_volume v then Inl Vol_Lost
      else if v_status v = Some VS_Requested \<and> v_machine v = None
        then Inr [VE_RestoreReserved machine at]
      else if v_status v = Some VS_Requested \<and> v_machine v = Some machine then Inr []
      else Inl Vol_MachineChanged)"

definition place_volume :: "uuid \<Rightarrow> time \<Rightarrow> volume \<Rightarrow> volume_result" where
  "place_volume machine at v =
     (if is_lost_volume v then Inl Vol_Lost
      else if v_status v = None \<or> status_in {VS_PendingDeletion, VS_Deleting, VS_Deleted} v
        then Inl Vol_Deleting
      else if is_some_and (v_machine v) (\<lambda>existing. existing \<noteq> machine)
        then Inl Vol_MachineChanged
      else if v_status v = Some VS_Requested then Inr [VE_Placed machine at]
      else Inr [])"

definition prepare_backend :: "uuid \<Rightarrow> nat \<Rightarrow> time \<Rightarrow> volume \<Rightarrow> volume_result" where
  "prepare_backend machine slot at v =
     (if is_lost_volume v then Inl Vol_Lost
      else if v_size_gib v = None \<or> \<not> (1 \<le> slot \<and> slot \<le> 4) then Inl Vol_BackendNotReady
      else if v_status v = Some VS_Available \<and> \<not> v_detachment_pending v
        then Inr [VE_BackendPlacementPrepared machine slot at]
      else if status_in {VS_AwaitingBackend, VS_Attached} v \<and> v_machine v = Some machine \<and>
          v_slot v = Some slot
        then Inr []
      else if status_in {VS_AwaitingBackend, VS_Attached, VS_DetachingBackend} v
        then Inl Vol_WriterPresent
      else Inl Vol_BackendNotReady)"

text \<open>The machine must be the volume's, and the volume a hosted block volume.\<close>

definition wrong_backend :: "uuid \<Rightarrow> volume \<Rightarrow> bool" where
  "wrong_backend machine v = (v_machine v \<noteq> Some machine \<or> v_size_gib v = None)"

definition confirm_backend_attachment :: "uuid \<Rightarrow> time \<Rightarrow> volume \<Rightarrow> volume_result" where
  "confirm_backend_attachment machine at v =
     (if wrong_backend machine v then Inl Vol_MachineChanged
      else if v_status v = Some VS_AwaitingBackend \<and> v_slot v \<noteq> None \<and> \<not> v_detachment_pending v
        then Inr [VE_BackendAttached machine at]
      else if v_status v = Some VS_Attached \<and> v_slot v \<noteq> None then Inr []
      else Inl Vol_BackendNotReady)"

definition invalidate_backend_attachment :: "uuid \<Rightarrow> time \<Rightarrow> volume \<Rightarrow> volume_result" where
  "invalidate_backend_attachment machine at v =
     (if wrong_backend machine v then Inl Vol_MachineChanged
      else if v_status v = Some VS_Attached \<and> v_slot v \<noteq> None \<and> \<not> v_detachment_pending v
        then Inr [VE_BackendReceiptInvalidated machine at]
      else if v_status v = Some VS_AwaitingBackend then Inr []
      else Inl Vol_BackendNotReady)"

definition begin_backend_detachment :: "uuid \<Rightarrow> time \<Rightarrow> volume \<Rightarrow> volume_result" where
  "begin_backend_detachment machine at v =
     (if wrong_backend machine v then Inl Vol_MachineChanged
      else if status_in {VS_Attached, VS_AwaitingBackend, VS_PendingDeletion, VS_Deleting} v \<and>
          v_slot v \<noteq> None \<and> \<not> v_detachment_pending v
        then Inr [VE_BackendDetachmentStarted machine at]
      else if status_in {VS_DetachingBackend, VS_PendingDeletion, VS_Deleting} v \<and>
          (v_detachment_pending v \<or> v_slot v = None)
        then Inr []
      else Inl Vol_BackendNotReady)"

definition confirm_backend_detachment :: "uuid \<Rightarrow> time \<Rightarrow> volume \<Rightarrow> volume_result" where
  "confirm_backend_detachment machine at v =
     (if wrong_backend machine v then Inl Vol_MachineChanged
      else if status_in {VS_DetachingBackend, VS_PendingDeletion, VS_Deleting} v \<and>
          v_detachment_pending v \<and> v_slot v \<noteq> None
        then Inr [VE_BackendDetached machine at]
      else if status_in {VS_Available, VS_PendingDeletion, VS_Deleting} v \<and> v_slot v = None
        then Inr []
      else Inl Vol_BackendNotReady)"

definition attach_volume :: "uuid \<Rightarrow> string \<Rightarrow> time \<Rightarrow> volume \<Rightarrow> volume_result" where
  "attach_volume machine path at v =
     (if is_lost_volume v then Inl Vol_Lost
      else if v_size_gib v \<noteq> None then Inl Vol_BackendNotReady
      else if v_status v = None then Inl Vol_NotFound
      else if status_in {VS_PendingDeletion, VS_Deleting, VS_Deleted} v then Inl Vol_Deleting
      else if is_some_and (v_machine v) (\<lambda>existing. existing \<noteq> machine)
        then Inl Vol_MachineChanged
      else if v_status v = Some VS_Attached \<and> v_path v \<noteq> path
        then Inr [VE_Attached machine path at]
      else if v_status v = Some VS_Attached then Inr []
      else Inr [VE_Attached machine path at])"

definition detach_volume :: "time \<Rightarrow> volume \<Rightarrow> volume_result" where
  "detach_volume at v =
     (if v_size_gib v \<noteq> None then Inl Vol_BackendNotReady
      else if is_lost_volume v then Inl Vol_Lost
      else if v_status v = None then Inl Vol_NotFound
      else if status_in {VS_PendingDeletion, VS_Deleting, VS_Deleted} v then Inl Vol_Deleting
      else if v_status v = Some VS_Attached then Inr [VE_Detached at]
      else Inr [])"

definition delete_volume :: "time \<Rightarrow> time \<Rightarrow> volume \<Rightarrow> volume_result" where
  "delete_volume at purge_after v =
     (let request = [VE_DeleteRequested (v_machine v) at (Some purge_after)] in
      if v_status v = Some VS_Lost then Inr request
      else if v_status v = None then Inl Vol_NotFound
      else if status_in {VS_Deleting, VS_Deleted} v then Inr []
      else if v_status v = Some VS_PendingDeletion \<and>
          is_some_and (v_purge_after v) (\<lambda>deadline. deadline \<ge> purge_after)
        then Inr []
      else Inr request)"

definition restored_status :: "volume \<Rightarrow> volume_status" where
  "restored_status v =
     (if v_detachment_pending v then VS_DetachingBackend
      else if v_size_gib v \<noteq> None \<and> v_slot v \<noteq> None then VS_AwaitingBackend
      else if v_machine v \<noteq> None then VS_Available
      else VS_Requested)"

definition restore_volume :: "time \<Rightarrow> volume \<Rightarrow> volume_result" where
  "restore_volume at v =
     (if is_lost_volume v then Inl Vol_Lost
      else if v_status v = Some VS_PendingDeletion \<and>
          is_some_and (v_purge_after v) (\<lambda>deadline. at < deadline)
        then Inr [VE_Restored at (restored_status v)]
      else Inl Vol_Deleting)"

definition purge_volume :: "time \<Rightarrow> volume \<Rightarrow> volume_result" where
  "purge_volume at v =
     (if status_in {VS_PendingDeletion, VS_Lost} v \<and>
         is_some_and (v_purge_after v) (\<lambda>deadline. at \<ge> deadline)
        then Inr [VE_PurgeRequested at None None]
      else Inl Vol_InvalidAcknowledgement)"

definition purge_volume_now :: "uuid \<Rightarrow> string \<Rightarrow> time \<Rightarrow> volume \<Rightarrow> volume_result" where
  "purge_volume_now actor reason at v =
     (if status_in {VS_PendingDeletion, VS_Lost} v \<and> v_purge_after v \<noteq> None
        then Inr [VE_PurgeRequested at (Some actor) (Some reason)]
      else Inl Vol_Deleting)"

text \<open>The three ways a volume that is being deleted ends.\<close>

definition end_deletion :: "bool \<Rightarrow> time \<Rightarrow> volume \<Rightarrow> volume_result" where
  "end_deletion allowed at v =
     (if v_status v = Some VS_Deleted then Inr []
      else if v_status v = Some VS_Deleting \<and> allowed then Inr [VE_Deleted at]
      else Inl Vol_InvalidAcknowledgement)"

definition finalize_without_erasure :: "time \<Rightarrow> volume \<Rightarrow> volume_result" where
  "finalize_without_erasure at v =
     end_deletion (v_machine v = None \<or> (v_size_gib v = None \<and> v_source v \<noteq> None)) at v"

definition confirm_deleted :: "uuid \<Rightarrow> time \<Rightarrow> volume \<Rightarrow> volume_result" where
  "confirm_deleted machine at v =
     end_deletion (v_machine v = Some machine \<and> v_source v = None \<and> v_size_gib v = None) at v"

definition confirm_backend_deleted :: "uuid \<Rightarrow> time \<Rightarrow> volume \<Rightarrow> volume_result" where
  "confirm_backend_deleted machine at v =
     end_deletion (v_size_gib v \<noteq> None \<and> v_machine v = Some machine \<and> v_slot v = None \<and>
       \<not> v_detachment_pending v) at v"

definition declare_lost :: "uuid \<Rightarrow> string \<Rightarrow> string option \<Rightarrow> time \<Rightarrow> volume \<Rightarrow> volume_result" where
  "declare_lost host nm snapshot at v =
     (if v_size_gib v = None \<or> v_machine v = None then Inl Vol_BackendNotReady
      else
        case v_status v of
          Some VS_Deleted \<Rightarrow> Inr []
        | Some VS_Lost \<Rightarrow> if v_lost_host v = Some host then Inr [] else Inl Vol_Lost
        | Some _ \<Rightarrow> Inr [VE_Lost host nm at snapshot]
        | None \<Rightarrow> Inl Vol_NotFound)"

definition accept_empty_replacement :: "uuid \<Rightarrow> time \<Rightarrow> volume \<Rightarrow> volume_result" where
  "accept_empty_replacement actor at v =
     (if v_status v = Some VS_Lost \<and> \<not> v_empty_accepted v
        then Inr [VE_EmptyReplacementAccepted at actor]
      else if v_status v = Some VS_Lost then Inr []
      else Inl Vol_Lost)"

definition abandon_lost :: "time \<Rightarrow> volume \<Rightarrow> volume_result" where
  "abandon_lost at v =
     (if v_status v = Some VS_Deleting \<and> is_lost_volume v then Inr [VE_LostVolumeAbandoned at]
      else if v_status v = Some VS_Deleted then Inr []
      else Inl Vol_Lost)"

text \<open>The commands a lost volume refuses before anything else is looked at.\<close>

fun refused_when_lost :: "volume_command \<Rightarrow> bool" where
  "refused_when_lost (VC_PrepareBackend _ _ _) = True"
| "refused_when_lost (VC_ConfirmBackendAttachment _ _) = True"
| "refused_when_lost (VC_InvalidateBackendAttachment _ _) = True"
| "refused_when_lost (VC_BeginBackendDetachment _ _) = True"
| "refused_when_lost (VC_ConfirmBackendDetachment _ _) = True"
| "refused_when_lost (VC_ConfirmBackendDeleted _ _) = True"
| "refused_when_lost (VC_FinalizeWithoutErasure _) = True"
| "refused_when_lost _ = False"

definition volume_handle :: "volume_command \<Rightarrow> volume \<Rightarrow> volume_result" where
  "volume_handle c v =
     (if is_lost_volume v \<and> refused_when_lost c then Inl Vol_Lost
      else
        case c of
          VC_Request org ap nm path source backup gib at \<Rightarrow>
            request_volume org ap nm path source backup gib at v
        | VC_ReserveRestore machine at \<Rightarrow> reserve_restore machine at v
        | VC_Place machine at \<Rightarrow> place_volume machine at v
        | VC_PrepareBackend machine slot at \<Rightarrow> prepare_backend machine slot at v
        | VC_ConfirmBackendAttachment machine at \<Rightarrow> confirm_backend_attachment machine at v
        | VC_InvalidateBackendAttachment machine at \<Rightarrow> invalidate_backend_attachment machine at v
        | VC_BeginBackendDetachment machine at \<Rightarrow> begin_backend_detachment machine at v
        | VC_ConfirmBackendDetachment machine at \<Rightarrow> confirm_backend_detachment machine at v
        | VC_Attach machine path at \<Rightarrow> attach_volume machine path at v
        | VC_Detach at \<Rightarrow> detach_volume at v
        | VC_Delete at purge_after \<Rightarrow> delete_volume at purge_after v
        | VC_Restore at \<Rightarrow> restore_volume at v
        | VC_Purge at \<Rightarrow> purge_volume at v
        | VC_PurgeNow actor reason at \<Rightarrow> purge_volume_now actor reason at v
        | VC_FinalizeWithoutErasure at \<Rightarrow> finalize_without_erasure at v
        | VC_ConfirmDeleted machine at \<Rightarrow> confirm_deleted machine at v
        | VC_ConfirmBackendDeleted machine at \<Rightarrow> confirm_backend_deleted machine at v
        | VC_DeclareLost host nm snapshot at \<Rightarrow> declare_lost host nm snapshot at v
        | VC_AcceptEmptyReplacement actor at \<Rightarrow> accept_empty_replacement actor at v
        | VC_AbandonLost at \<Rightarrow> abandon_lost at v)"

lemmas volume_handlers =
  request_volume_def reserve_restore_def place_volume_def prepare_backend_def wrong_backend_def
  confirm_backend_attachment_def invalidate_backend_attachment_def begin_backend_detachment_def
  confirm_backend_detachment_def attach_volume_def detach_volume_def delete_volume_def
  restore_volume_def purge_volume_def purge_volume_now_def end_deletion_def
  finalize_without_erasure_def confirm_deleted_def confirm_backend_deleted_def declare_lost_def
  accept_empty_replacement_def abandon_lost_def

end
