(* ===== verification/Volume_Props.thy ===== *)
theory Volume_Props
  imports Volume
begin

text \<open>
  The life of a volume: the invariant that ties its status to its slot, its machine, its
  detachment and its loss; that a hosted drive leaves its slot only when its machine confirmed the
  detachment or its host was declared lost; that a loss is for good, that a deletion ends only on
  the detached drive, and that an identity once requested never changes.
\<close>

section \<open>The invariant\<close>

text \<open>A slot belongs to a placed hosted drive; a detachment in progress and a loss fit the slot.\<close>

definition slot_wf :: "volume \<Rightarrow> bool" where
  "slot_wf v \<longleftrightarrow>
     (v_slot v \<noteq> None \<longrightarrow> v_size_gib v \<noteq> None \<and> v_machine v \<noteq> None) \<and>
     (v_detachment_pending v \<longrightarrow> v_slot v \<noteq> None) \<and>
     (is_lost_volume v \<longrightarrow> v_slot v = None \<and> v_size_gib v \<noteq> None \<and> v_machine v \<noteq> None)"

definition status_wf :: "volume \<Rightarrow> bool" where
  "status_wf v =
     (case v_status v of
        None \<Rightarrow> v_machine v = None \<and> \<not> is_lost_volume v \<and> v_purge_after v = None
      | Some VS_Requested \<Rightarrow> v_slot v = None \<and> \<not> is_lost_volume v \<and> v_purge_after v = None
      | Some VS_Available \<Rightarrow>
          v_machine v \<noteq> None \<and> v_slot v = None \<and> \<not> is_lost_volume v \<and> v_purge_after v = None
      | Some VS_AwaitingBackend \<Rightarrow>
          v_slot v \<noteq> None \<and> \<not> v_detachment_pending v \<and> v_purge_after v = None
      | Some VS_Attached \<Rightarrow>
          v_machine v \<noteq> None \<and> (v_slot v = None \<longleftrightarrow> v_size_gib v = None) \<and>
          \<not> v_detachment_pending v \<and> \<not> is_lost_volume v \<and> v_purge_after v = None
      | Some VS_DetachingBackend \<Rightarrow> v_detachment_pending v \<and> v_purge_after v = None
      | Some VS_PendingDeletion \<Rightarrow> v_purge_after v \<noteq> None
      | Some VS_Deleting \<Rightarrow> v_purge_after v = None
      | Some VS_Lost \<Rightarrow> is_lost_volume v
      | Some VS_Deleted \<Rightarrow> v_slot v = None \<and> v_purge_after v = None)"

definition volume_inv :: "volume \<Rightarrow> bool" where
  "volume_inv v \<longleftrightarrow> slot_wf v \<and> status_wf v"

lemmas volume_inv_defs = volume_inv_def slot_wf_def status_wf_def is_lost_volume_def

lemma volume_inv_default: "volume_inv volume_default"
  by (simp add: volume_inv_defs volume_default_def)

section \<open>Events that may follow a state\<close>

fun volume_event_ok :: "volume \<Rightarrow> volume_event \<Rightarrow> bool" where
  "volume_event_ok v (VE_Requested _ _ _ _ source _ gib _) \<longleftrightarrow>
     v_status v = None \<and> \<not> is_lost_volume v"
| "volume_event_ok v (VE_RestoreReserved m _) \<longleftrightarrow>
     v_status v = Some VS_Requested \<and> \<not> is_lost_volume v \<and> v_machine v = None"
| "volume_event_ok v (VE_Placed m _) \<longleftrightarrow>
     v_status v = Some VS_Requested \<and> \<not> is_lost_volume v \<and> (\<forall>x. v_machine v = Some x \<longrightarrow> x = m)"
| "volume_event_ok v (VE_BackendPlacementPrepared m slot _) \<longleftrightarrow>
     v_status v = Some VS_Available \<and> \<not> is_lost_volume v \<and> v_size_gib v \<noteq> None \<and>
     \<not> v_detachment_pending v"
| "volume_event_ok v (VE_BackendAttached m _) \<longleftrightarrow>
     v_status v = Some VS_AwaitingBackend \<and> \<not> is_lost_volume v \<and> \<not> wrong_backend m v \<and>
     v_slot v \<noteq> None \<and> \<not> v_detachment_pending v"
| "volume_event_ok v (VE_BackendReceiptInvalidated m _) \<longleftrightarrow>
     v_status v = Some VS_Attached \<and> \<not> is_lost_volume v \<and> \<not> wrong_backend m v \<and>
     v_slot v \<noteq> None \<and> \<not> v_detachment_pending v"
| "volume_event_ok v (VE_BackendDetachmentStarted m _) \<longleftrightarrow>
     status_in {VS_Attached, VS_AwaitingBackend, VS_PendingDeletion, VS_Deleting} v \<and>
     \<not> is_lost_volume v \<and> \<not> wrong_backend m v \<and> v_slot v \<noteq> None \<and> \<not> v_detachment_pending v"
| "volume_event_ok v (VE_BackendDetached m _) \<longleftrightarrow>
     status_in {VS_DetachingBackend, VS_PendingDeletion, VS_Deleting} v \<and>
     \<not> is_lost_volume v \<and> \<not> wrong_backend m v \<and> v_slot v \<noteq> None \<and> v_detachment_pending v"
| "volume_event_ok v (VE_Attached m _ _) \<longleftrightarrow>
     v_status v \<noteq> None \<and> \<not> status_in {VS_PendingDeletion, VS_Deleting, VS_Deleted} v \<and>
     \<not> is_lost_volume v \<and> v_size_gib v = None \<and> (\<forall>x. v_machine v = Some x \<longrightarrow> x = m)"
| "volume_event_ok v (VE_Detached _) \<longleftrightarrow>
     v_status v = Some VS_Attached \<and> \<not> is_lost_volume v \<and> v_size_gib v = None"
| "volume_event_ok v (VE_BackupPolicySet _ _) \<longleftrightarrow> v_status v \<noteq> None"
| "volume_event_ok v (VE_DeleteRequested _ _ due) \<longleftrightarrow>
     due \<noteq> None \<and> v_status v \<noteq> None \<and> \<not> status_in {VS_Deleting, VS_Deleted} v"
| "volume_event_ok v (VE_Restored at s) \<longleftrightarrow>
     v_status v = Some VS_PendingDeletion \<and> \<not> is_lost_volume v \<and> s = restored_status v \<and>
     is_some_and (v_purge_after v) (\<lambda>due. at < due)"
| "volume_event_ok v (VE_PurgeRequested _ _ _) \<longleftrightarrow>
     status_in {VS_PendingDeletion, VS_Lost} v \<and> v_purge_after v \<noteq> None"
| "volume_event_ok v (VE_Deleted _) \<longleftrightarrow>
     v_status v = Some VS_Deleting \<and>
     (v_machine v = None \<or> v_size_gib v = None \<or> (v_slot v = None \<and> \<not> v_detachment_pending v))"
| "volume_event_ok v (VE_Lost _ _ _ _) \<longleftrightarrow>
     v_status v \<noteq> None \<and> \<not> status_in {VS_Lost, VS_Deleted} v \<and> v_size_gib v \<noteq> None \<and>
     v_machine v \<noteq> None"
| "volume_event_ok v (VE_EmptyReplacementAccepted _ _) \<longleftrightarrow> v_status v = Some VS_Lost"
| "volume_event_ok v (VE_LostVolumeAbandoned _) \<longleftrightarrow>
     v_status v = Some VS_Deleting \<and> is_lost_volume v"

lemma status_in_simps [simp]:
  "status_in {} v \<longleftrightarrow> False"
  "status_in (insert s ss) v \<longleftrightarrow> v_status v = Some s \<or> status_in ss v"
  by (auto simp: status_in_def is_some_and_iff)

text \<open>Every command answers with no event, or with exactly one, which may follow the state.\<close>

definition answers_ok :: "volume \<Rightarrow> volume_result \<Rightarrow> bool" where
  "answers_ok v r \<longleftrightarrow>
     (case r of Inl _ \<Rightarrow> True | Inr es \<Rightarrow> es = [] \<or> (\<exists>e. es = [e] \<and> volume_event_ok v e))"

lemma answers_ok_simps [simp]:
  "answers_ok v (Inl x)" "answers_ok v (Inr [])"
  "answers_ok v (Inr [e]) \<longleftrightarrow> volume_event_ok v e"
  "answers_ok v (if b then r else r') \<longleftrightarrow> (if b then answers_ok v r else answers_ok v r')"
  by (simp_all add: answers_ok_def)

lemma volume_handle_answers: "answers_ok v (volume_handle c v)"
proof (cases "is_lost_volume v \<and> refused_when_lost c")
  case False
  then show ?thesis
    by (cases c)
      (simp_all add: volume_handle_def volume_handlers is_some_and_iff Let_def split: option.split
        volume_status.split, auto)
qed (simp add: volume_handle_def)

lemma volume_handle_ok:
  assumes "volume_handle c v = Inr es"
  obtains "es = []" | e where "es = [e]" "volume_event_ok v e"
  using volume_handle_answers[of v c] assms by (auto simp: answers_ok_def)

lemma volume_apply_slot_wf:
  "volume_inv v \<Longrightarrow> volume_event_ok v e \<Longrightarrow> slot_wf (volume_apply v e)"
  by (cases e) (auto simp: volume_inv_defs wrong_backend_def)

lemma volume_apply_status_wf:
  assumes "volume_inv v" "volume_event_ok v e"
  shows "status_wf (volume_apply v e)"
  using assms
  by (cases e)
    (auto simp: volume_inv_defs wrong_backend_def restored_status_def unless_deleting_def
      is_some_and_iff split: volume_status.splits)

lemma volume_handle_inv:
  "volume_inv v \<Longrightarrow> volume_handle c v = Inr es \<Longrightarrow> volume_inv (fold_events volume_apply v es)"
  by (erule volume_handle_ok)
    (auto simp: volume_inv_def[of "volume_apply v e" for e] volume_apply_slot_wf volume_apply_status_wf)

interpretation volume: event_sourced volume_apply volume_handle volume_inv volume_default
  by unfold_locales (auto intro: volume_inv_default volume_handle_inv)

section \<open>Samples for the witnesses\<close>

definition attached_commands :: "volume_command list" where
  "attached_commands =
     [VC_Request 1 2 ''data'' ''/data'' None True (Some 10) 100, VC_Place 7 110,
      VC_PrepareBackend 7 2 120, VC_ConfirmBackendAttachment 7 130]"

definition sample_attached :: volume where
  "sample_attached = run_commands volume_apply volume_handle volume_default attached_commands"

lemma sample_attached_inv: "volume_inv sample_attached"
  unfolding sample_attached_def by (rule volume.inv_run)

section \<open>A hosted drive has one writer\<close>

text \<open>The drive of a volume holds a slot of a machine.\<close>

definition holds_slot :: "uuid \<Rightarrow> nat \<Rightarrow> volume \<Rightarrow> bool" where
  "holds_slot m s v \<longleftrightarrow> v_machine v = Some m \<and> v_slot v = Some s"

text \<open>The machine confirmed the detachment, or its host is gone.\<close>

fun frees_slot :: "uuid \<Rightarrow> volume_event \<Rightarrow> bool" where
  "frees_slot m (VE_BackendDetached machine _) \<longleftrightarrow> machine = m"
| "frees_slot m (VE_Lost _ _ _ _) \<longleftrightarrow> True"
| "frees_slot m _ \<longleftrightarrow> False"

lemma slot_held_step:
  assumes "volume_inv v" "holds_slot m s v" "volume_handle c v = Inr es"
    and "\<forall>e\<in>set es. \<not> frees_slot m e"
  shows "holds_slot m s (fold_events volume_apply v es)"
  using assms(3)
proof (cases rule: volume_handle_ok)
  case (2 e)
  with assms show ?thesis
    by (cases e) (auto simp: holds_slot_def volume_inv_defs wrong_backend_def)
qed (use assms in simp)

text \<open>
  C11: the fence of a hosted drive. While a volume's drive holds a slot of a machine, no sequence
  of commands gives the drive to another machine or another slot until that machine has confirmed
  the detachment, or its host was declared lost. (So two machines never have the drive at once.)
\<close>

theorem slot_fenced:
  assumes "volume_inv v" "v_machine v = Some m" "v_slot v = Some s"
    and "w = run_commands volume_apply volume_handle v cs"
    and "v_machine w \<noteq> Some m \<or> v_slot w \<noteq> Some s"
  shows "\<exists>e\<in>set (run_events volume_apply volume_handle v cs).
    (\<exists>at. e = VE_BackendDetached m at) \<or> (\<exists>h nm at sn. e = VE_Lost h nm at sn)"
proof (rule ccontr)
  assume n: "\<not> ?thesis"
  have "\<not> frees_slot m e" if "e \<in> set (run_events volume_apply volume_handle v cs)" for e
    using n that by (cases e) auto
  moreover have "holds_slot m s v" using assms(2,3) by (simp add: holds_slot_def)
  ultimately have "holds_slot m s w"
    unfolding assms(4)
    using volume.holds_until[where P = "holds_slot m s" and ends = "frees_slot m", OF _ assms(1)]
      slot_held_step by blast
  with assms(5) show False by (simp add: holds_slot_def)
qed

theorem slot_fenced_witness:
  "\<exists>e\<in>set (run_events volume_apply volume_handle sample_attached
      [VC_PrepareBackend 8 1 200, VC_BeginBackendDetachment 7 210, VC_ConfirmBackendDetachment 7 220,
       VC_PrepareBackend 8 1 230]).
    (\<exists>at. e = VE_BackendDetached 7 at) \<or> (\<exists>h nm at sn. e = VE_Lost h nm at sn)"
proof -
  have v: "v_machine sample_attached = Some 7" "v_slot sample_attached = Some 2" by code_simp+
  have w: "v_machine (run_commands volume_apply volume_handle sample_attached
      [VC_PrepareBackend 8 1 200, VC_BeginBackendDetachment 7 210, VC_ConfirmBackendDetachment 7 220,
       VC_PrepareBackend 8 1 230]) \<noteq> Some 7" by code_simp
  show ?thesis by (rule slot_fenced[OF sample_attached_inv v refl]) (use w in blast)
qed

section \<open>A loss is for good\<close>

lemma lost_keeps:
  "is_lost_volume v \<Longrightarrow> is_lost_volume (fold_events volume_apply v es)"
proof (induction es arbitrary: v)
  case (Cons e es)
  then have "is_lost_volume (volume_apply v e)" by (cases e) (auto simp: is_lost_volume_def)
  with Cons.IH show ?case by simp
qed simp

interpretation lost: event_sourced_stable volume_apply volume_handle volume_inv volume_default
  is_lost_volume
  by unfold_locales (rule lost_keeps)

text \<open>
  a lost volume is never used again. Whatever commands follow a declared loss, the volume is
  detached from every slot, is only lost, on its way to deletion or deleted, and refuses to be
  requested, placed, attached, detached, prepared, confirmed, restored or finalised.
\<close>

theorem lost_for_ever:
  assumes "volume_inv v" "v_lost_host v \<noteq> None"
    and "w = run_commands volume_apply volume_handle v cs"
  shows "v_slot w = None \<and> \<not> v_detachment_pending w \<and>
    v_status w \<in> {Some VS_Lost, Some VS_PendingDeletion, Some VS_Deleting, Some VS_Deleted} \<and>
    volume_handle (VC_Request o1 a1 nm p None b None t) w = Inl Vol_Lost \<and>
    volume_handle (VC_ReserveRestore m t) w = Inl Vol_Lost \<and>
    volume_handle (VC_Place m t) w = Inl Vol_Lost \<and>
    volume_handle (VC_Attach m p t) w = Inl Vol_Lost \<and>
    volume_handle (VC_PrepareBackend m s t) w = Inl Vol_Lost \<and>
    volume_handle (VC_ConfirmBackendAttachment m t) w = Inl Vol_Lost \<and>
    volume_handle (VC_Restore t) w = Inl Vol_Lost \<and>
    volume_handle (VC_FinalizeWithoutErasure t) w = Inl Vol_Lost"
proof -
  have l: "is_lost_volume w"
    unfolding assms(3) by (rule lost.fact_run_from[OF assms(1)]) (use assms(2) in \<open>simp add: is_lost_volume_def\<close>)
  have "volume_inv w" unfolding assms(3) by (rule volume.inv_run_from[OF assms(1)])
  then have wf: "slot_wf w" "status_wf w" by (simp_all add: volume_inv_def)
  have "v_slot w = None \<and> \<not> v_detachment_pending w" using wf(1) l by (auto simp: slot_wf_def)
  moreover have "v_status w \<in> {Some VS_Lost, Some VS_PendingDeletion, Some VS_Deleting, Some VS_Deleted}"
    using wf l calculation by (simp add: status_wf_def slot_wf_def split: option.splits volume_status.splits)
  ultimately show ?thesis
    by (simp add: volume_handle_def request_volume_def reserve_restore_def place_volume_def
        attach_volume_def restore_volume_def l)
qed

theorem lost_for_ever_witness:
  "v_slot (run_commands volume_apply volume_handle
     (volume_apply sample_attached (VE_Lost 3 ''host'' 300 None))
     [VC_PrepareBackend 8 1 310, VC_Delete 320 400, VC_Restore 330]) = None"
proof -
  let ?v = "volume_apply sample_attached (VE_Lost 3 ''host'' 300 None)"
  have "volume_handle (VC_DeclareLost 3 ''host'' None 300) sample_attached =
      Inr [VE_Lost 3 ''host'' 300 None]" by code_simp
  from volume_handle_inv[OF sample_attached_inv this] have "volume_inv ?v"
    by (simp only: fold_events_simps)
  then show ?thesis by (rule lost_for_ever[THEN conjunct1, OF _ _ refl]) simp
qed

section \<open>Deletion\<close>

lemma deleted_step:
  assumes "volume_inv v" "v_status v = Some VS_Deleted" "volume_handle c v = Inr es"
  shows "es = []"
  using assms(3)
proof (cases rule: volume_handle_ok)
  case (2 e)
  then have "v_status v = Some VS_Deleted \<longrightarrow> (\<exists>b t. e = VE_BackupPolicySet b t)"
    by (cases e) auto
  with assms(2) obtain b t where "e = VE_BackupPolicySet b t" by blast
  with assms(2,3) 2(1) show ?thesis
    by (cases c) (auto simp: volume_handle_def volume_handlers Let_def split: if_splits)
qed

text \<open>
  the deletion window of a volume, and its end. A volume pending deletion can be restored
  before its deadline and purged from it on, never both; a hosted drive is deleted only when it
  is in no slot; and a deleted volume stays exactly as it is under every sequence of commands.
\<close>

theorem volume_deletion:
  assumes "volume_inv v"
  shows "(v_status v = Some VS_PendingDeletion \<and> v_lost_host v = None \<longrightarrow>
      (\<exists>due. v_purge_after v = Some due \<and>
        volume_handle (VC_Restore t) v =
          (if t < due then Inr [VE_Restored t (restored_status v)] else Inl Vol_Deleting) \<and>
        volume_handle (VC_Purge t) v =
          (if t < due then Inl Vol_InvalidAcknowledgement else Inr [VE_PurgeRequested t None None]))) \<and>
    (v_status v = Some VS_Deleted \<longrightarrow> v_slot v = None \<and> \<not> v_detachment_pending v \<and>
      run_commands volume_apply volume_handle v cs = v)"
proof (intro conjI impI)
  assume d: "v_status v = Some VS_PendingDeletion \<and> v_lost_host v = None"
  then obtain due where "v_purge_after v = Some due"
    using assms by (auto simp: volume_inv_def status_wf_def)
  with d show "\<exists>due. v_purge_after v = Some due \<and>
        volume_handle (VC_Restore t) v =
          (if t < due then Inr [VE_Restored t (restored_status v)] else Inl Vol_Deleting) \<and>
        volume_handle (VC_Purge t) v =
          (if t < due then Inl Vol_InvalidAcknowledgement else Inr [VE_PurgeRequested t None None])"
    by (simp add: is_lost_volume_def volume_handle_def restore_volume_def purge_volume_def)
next
  assume d: "v_status v = Some VS_Deleted"
  with assms show "v_slot v = None" "\<not> v_detachment_pending v"
    by (auto simp: volume_inv_def slot_wf_def status_wf_def)
  show "run_commands volume_apply volume_handle v cs = v"
    by (rule run_commands_stuck) (rule deleted_step[OF assms d])
qed

definition sample_erased :: volume where
  "sample_erased = run_commands volume_apply volume_handle sample_attached
     [VC_Delete 300 400, VC_BeginBackendDetachment 7 310, VC_ConfirmBackendDetachment 7 320,
      VC_Purge 400, VC_ConfirmBackendDeleted 7 410]"

theorem volume_deletion_witness:
  "v_status sample_erased = Some VS_Deleted \<and>
   run_commands volume_apply volume_handle sample_erased [VC_Place 7 500, VC_Delete 510 600] =
     sample_erased"
proof -
  have "v_status sample_erased = Some VS_Deleted" by code_simp
  moreover have "volume_inv sample_erased"
    unfolding sample_erased_def by (rule volume.inv_run_from[OF sample_attached_inv])
  ultimately show ?thesis using volume_deletion by blast
qed

end
