(* ===== verification/Image.thy ===== *)
theory Image
  imports Names
begin

text \<open>
  OCI image references (\<open>ImageReference\<close> of \<open>grund-config/src/app/spec.rs\<close>): the parser that
  normalises what a person typed, the two printers, and the round trip between them. Also the
  error of that file, which names the field and the problem, and the name of an app.
\<close>

section \<open>The error\<close>

record spec_error =
  spec_field :: string
  spec_problem :: string

definition refuse :: "string \<Rightarrow> string \<Rightarrow> spec_error + 'a" where
  "refuse field problem = Inl \<lparr>spec_field = field, spec_problem = problem\<rparr>"

lemma refuse_not_Inr [simp]: "refuse f p \<noteq> Inr x" "Inr x \<noteq> refuse f p"
  by (simp_all add: refuse_def)

section \<open>App names\<close>

definition app_name_parse :: "string \<Rightarrow> spec_error + string" where
  "app_name_parse input =
     (let name = normal_form input in
      if \<not> (1 \<le> length name \<and> length name \<le> 32) then refuse ''name'' ''use 1 to 32 characters''
      else if \<not> slug_grammar name then
        refuse ''name''
          (''use only letters a'' @ en_dash @ ''z, digits and single hyphens between them'')
      else Inr name)"

lemma app_name_parse_InrD:
  "app_name_parse s = Inr n \<Longrightarrow> 1 \<le> length n \<and> length n \<le> 32 \<and> slug_grammar n"
  by (auto simp: app_name_parse_def Let_def split: if_splits)

interpretation app_name: normaliser app_name_parse
proof
  fix s n assume "app_name_parse s = Inr n"
  note parsed = app_name_parse_InrD[OF this]
  then have "normal_form n = n" by (intro slug_normal) (simp add: slug_grammar_def)
  with parsed show "app_name_parse n = Inr n" by (simp add: app_name_parse_def)
qed

section \<open>Image references\<close>

definition MAX_IMAGE_REFERENCE :: nat where
  "MAX_IMAGE_REFERENCE = 512"

record image_reference =
  img_registry :: string
  img_repository :: string
  img_tag :: "string option"
  img_digest :: "string option"

definition hex_digit :: "char \<Rightarrow> bool" where
  "hex_digit b \<longleftrightarrow> is_ascii_digit b \<or> (97 \<le> byte b \<and> byte b \<le> 102)"

definition is_digest :: "string \<Rightarrow> bool" where
  "is_digest text \<longleftrightarrow>
     is_some_and (strip_prefix ''sha256:'' text)
       (\<lambda>hex. length hex = 64 \<and> list_all hex_digit hex)"

text \<open>The parts of \<open>parse\<close>: the digest, the registry, the tag.\<close>

definition image_digest :: "string \<Rightarrow> spec_error + (string \<times> string option)" where
  "image_digest input =
     (case split_once CHR ''@'' input of
        Some (name, digest) \<Rightarrow>
          if \<not> is_digest digest
          then refuse ''image'' ''a digest is sha256: and 64 lowercase hexadecimal digits''
          else Inr (name, Some digest)
      | None \<Rightarrow> Inr (input, None))"

definition names_registry :: "string \<Rightarrow> bool" where
  "names_registry first \<longleftrightarrow>
     CHR ''.'' \<in> set first \<or> CHR '':'' \<in> set first \<or> first = ''localhost''"

definition docker_io :: string where
  "docker_io = ''docker.io''"

definition image_registry :: "string \<Rightarrow> string \<times> string" where
  "image_registry name =
     (case split_once CHR ''/'' name of
        Some (first, rest) \<Rightarrow>
          if names_registry first then (to_ascii_lowercase first, rest) else (docker_io, name)
      | None \<Rightarrow> (docker_io, name))"

definition image_tag :: "string \<Rightarrow> string \<times> string option" where
  "image_tag rest =
     (case rsplit_once CHR '':'' rest of
        Some (repository, tag) \<Rightarrow>
          if CHR ''/'' \<notin> set tag then (repository, Some tag) else (rest, None)
      | None \<Rightarrow> (rest, None))"

definition repository_byte :: "char \<Rightarrow> bool" where
  "repository_byte b \<longleftrightarrow> is_ascii_lowercase b \<or> is_ascii_digit b \<or> b \<in> set ''._-''"

definition tag_byte :: "char \<Rightarrow> bool" where
  "tag_byte b \<longleftrightarrow> is_ascii_alphanumeric b \<or> b \<in> set ''._-''"

definition component_ok :: "string \<Rightarrow> bool" where
  "component_ok c \<longleftrightarrow>
     c \<noteq> [] \<and> list_all repository_byte c \<and> is_some_and (first_opt c) is_ascii_alphanumeric"

definition repository_message :: string where
  "repository_message =
     ''a repository is lowercase letters, digits, '' @ quote ''.'' @ '', '' @ quote ''_'' @ '' and ''
     @ quote ''-'' @ '', separated by '' @ quote ''/''"

definition tag_message :: string where
  "tag_message =
     ''a tag is at most 128 letters, digits, '' @ quote ''.'' @ '', '' @ quote ''_'' @ '' and '' @ quote ''-''"

definition image_build :: "string \<Rightarrow> string \<Rightarrow> string option \<Rightarrow> string option \<Rightarrow> spec_error + image_reference" where
  "image_build registry repository tag digest =
     (let repository =
        (if registry = docker_io \<and> CHR ''/'' \<notin> set repository
         then ''library/'' @ repository else repository)
      in
      if \<not> list_all component_ok (split CHR ''/'' repository) then refuse ''image'' repository_message
      else if is_some_and tag (\<lambda>tag. tag = [] \<or> length tag > 128 \<or> \<not> list_all tag_byte tag) then
        refuse ''image'' tag_message
      else
        Inr \<lparr>img_registry = registry, img_repository = repository,
             img_tag = (if tag = None \<and> digest = None then Some ''latest'' else tag),
             img_digest = digest\<rparr>)"

definition image_parse :: "string \<Rightarrow> spec_error + image_reference" where
  "image_parse input =
     (let input = trim input in
      if input = [] then refuse ''image'' ''name an image, for example nginx:1.27''
      else if length input > MAX_IMAGE_REFERENCE then
        refuse ''image'' (''use at most '' @ show_nat MAX_IMAGE_REFERENCE @ '' characters'')
      else if list_ex (\<lambda>b. is_ascii_whitespace b \<or> is_ascii_control b) input then
        refuse ''image'' ''an image reference has no spaces''
      else
        and_then (image_digest input) (\<lambda>(name, digest).
          let (registry, rest) = image_registry name; (repository, tag) = image_tag rest
          in image_build registry repository tag digest))"

definition image_pinned :: "image_reference \<Rightarrow> string \<Rightarrow> string" where
  "image_pinned r digest = img_registry r @ ''/'' @ img_repository r @ ''@'' @ digest"

definition image_display :: "image_reference \<Rightarrow> string" where
  "image_display r =
     img_registry r @ ''/'' @ img_repository r
     @ (case img_tag r of None \<Rightarrow> [] | Some tag \<Rightarrow> '':'' @ tag)
     @ (case img_digest r of None \<Rightarrow> [] | Some digest \<Rightarrow> ''@'' @ digest)"

section \<open>What the parser returns\<close>

definition registry_ok :: "string \<Rightarrow> bool" where
  "registry_ok g \<longleftrightarrow>
     names_registry g \<and> to_ascii_lowercase g = g \<and> CHR ''/'' \<notin> set g \<and> CHR ''@'' \<notin> set g \<and>
     list_all (\<lambda>b. \<not> (is_ascii_whitespace b \<or> is_ascii_control b)) g \<and> stripped white_space g"

definition repository_ok :: "string \<Rightarrow> bool" where
  "repository_ok p \<longleftrightarrow> list_all component_ok (split CHR ''/'' p)"

definition tag_ok :: "string \<Rightarrow> bool" where
  "tag_ok t \<longleftrightarrow> t \<noteq> [] \<and> length t \<le> 128 \<and> list_all tag_byte t"

definition image_ok :: "image_reference \<Rightarrow> bool" where
  "image_ok r \<longleftrightarrow>
     registry_ok (img_registry r) \<and> repository_ok (img_repository r) \<and>
     (img_registry r = docker_io \<longrightarrow> CHR ''/'' \<in> set (img_repository r)) \<and>
     is_none_or (img_tag r) tag_ok \<and> is_none_or (img_digest r) is_digest \<and>
     (img_tag r \<noteq> None \<or> img_digest r \<noteq> None)"

lemma lower_starts_with:
  "map ascii_lower s = w @ t \<Longrightarrow> list_all (\<lambda>c. \<not> is_ascii_alphabetic c) w \<Longrightarrow> starts_with w s"
proof (induction w arbitrary: s)
  case (Cons d w)
  then obtain c s' where s: "s = c # s'" by (cases s) auto
  have "c = d"
    using Cons.prems s
    by (auto simp: ascii_lower_def is_ascii_alphabetic_def is_ascii_uppercase_def
        is_ascii_lowercase_def byte_char_of split: if_splits)
  with Cons s show ?case by (simp add: starts_with_def)
qed (simp add: starts_with_def)

lemma white_space_no_letters:
  "w \<in> set white_space \<Longrightarrow> list_all (\<lambda>c. \<not> is_ascii_alphabetic c) w"
  unfolding white_space_def
  by (auto simp: is_ascii_alphabetic_def is_ascii_uppercase_def is_ascii_lowercase_def byte_def)

lemma stripped_lower:
  assumes "stripped white_space s"
  shows "stripped white_space (to_ascii_lowercase s)"
  unfolding stripped_def
proof (intro ballI impI notI)
  fix w assume w: "w \<in> set white_space" "w \<noteq> []" "starts_with w (to_ascii_lowercase s)"
  then obtain t where "map ascii_lower s = w @ t" by (auto simp: starts_with_iff to_ascii_lowercase_def)
  then have "starts_with w s" by (rule lower_starts_with[OF _ white_space_no_letters[OF w(1)]])
  with assms w show False by (simp add: stripped_def)
qed

lemma trim_stripped: "stripped white_space (trim s)"
proof -
  have s: "stripped white_space (trim_start s)" by (simp add: trim_start_def strip_start_stripped)
  obtain u where "rev (trim_start s) = u @ strip_start (map rev white_space) (rev (trim_start s))"
    using strip_start_suffix by blast
  then have "trim_start s = trim s @ rev u" by (metis rev_append rev_rev_ident trim_def trim_end_def)
  with s show ?thesis by (metis stripped_append)
qed

lemma lower_same: "\<not> is_ascii_alphabetic d \<Longrightarrow> d \<in> set (to_ascii_lowercase s) \<longleftrightarrow> d \<in> set s"
  by (induction s)
    (auto simp: to_ascii_lowercase_def ascii_lower_def is_ascii_alphabetic_def is_ascii_uppercase_def
      is_ascii_lowercase_def byte_char_of)

lemma separators_not_letters [simp]:
  "\<not> is_ascii_alphabetic CHR ''.''" "\<not> is_ascii_alphabetic CHR '':''"
  "\<not> is_ascii_alphabetic CHR ''/''" "\<not> is_ascii_alphabetic CHR ''@''"
  by (simp_all add: is_ascii_alphabetic_def is_ascii_lowercase_def is_ascii_uppercase_def byte_def)

lemma localhost_lower: "to_ascii_lowercase ''localhost'' = ''localhost''" by code_simp
lemma docker_io_ok: "registry_ok docker_io" by code_simp

lemma registry_lower_ok:
  assumes "names_registry g" "CHR ''/'' \<notin> set g" "CHR ''@'' \<notin> set g" "stripped white_space g"
    "list_all (\<lambda>b. \<not> (is_ascii_whitespace b \<or> is_ascii_control b)) g"
  shows "registry_ok (to_ascii_lowercase g)"
proof -
  have "names_registry (to_ascii_lowercase g)"
    using assms(1) by (auto simp: names_registry_def lower_same localhost_lower)
  moreover have "list_all (\<lambda>b. \<not> (is_ascii_whitespace b \<or> is_ascii_control b)) (to_ascii_lowercase g)"
    using assms(5)
    by (auto simp: list_all_iff to_ascii_lowercase_def ascii_lower_def is_ascii_uppercase_def
        is_ascii_whitespace_def is_ascii_control_def byte_char_of)
  ultimately show ?thesis
    using assms by (simp add: registry_ok_def lower_same stripped_lower)
qed

lemma image_digestD:
  "image_digest s = Inr (name, d) \<Longrightarrow>
   CHR ''@'' \<notin> set name \<and> is_none_or d is_digest \<and>
   (\<exists>t. s = name @ t)"
  by (auto simp: image_digest_def split_once_None split_once_Some split: option.splits if_splits)

lemma image_registryD:
  assumes "image_registry name = (g, rest)" "CHR ''@'' \<notin> set name" "stripped white_space name"
    "list_all (\<lambda>b. \<not> (is_ascii_whitespace b \<or> is_ascii_control b)) name"
  shows "registry_ok g"
proof -
  have "registry_ok (to_ascii_lowercase first)"
    if "names_registry first" "split_once CHR ''/'' name = Some (first, rest')" for first rest'
    using registry_lower_ok[of first] that assms by (auto simp: split_once_Some dest: stripped_append)
  with assms(1) docker_io_ok show ?thesis
    by (auto simp: image_registry_def split: option.splits if_splits prod.splits)
qed

lemma image_build_ok:
  assumes "image_build g p t d = Inr r" "registry_ok g" "is_none_or d is_digest"
  shows "image_ok r"
proof -
  let ?p = "if g = docker_io \<and> CHR ''/'' \<notin> set p then ''library/'' @ p else p"
  from assms(1) have p: "repository_ok ?p"
    and t: "is_none_or t tag_ok"
    and r: "r = \<lparr>img_registry = g, img_repository = ?p,
        img_tag = (if t = None \<and> d = None then Some ''latest'' else t), img_digest = d\<rparr>"
    by (auto simp: image_build_def Let_def repository_ok_def is_some_and_iff is_none_or_iff
        tag_ok_def split: if_splits)
  have "tag_ok ''latest''" by code_simp
  then have "is_none_or (img_tag r) tag_ok" using t by (simp add: r)
  with p assms show ?thesis by (simp add: image_ok_def r)
qed

lemma image_parse_ok: "image_parse s = Inr r \<Longrightarrow> image_ok r"
proof -
  assume r: "image_parse s = Inr r"
  let ?s = "trim s"
  let ?sp = "\<lambda>b. is_ascii_whitespace b \<or> is_ascii_control b"
  from r have sp: "\<not> list_ex ?sp ?s"
    by (auto simp: image_parse_def Let_def split: if_splits)
  from r obtain name digest where d: "image_digest ?s = Inr (name, digest)"
    and r': "(let (registry, rest) = image_registry name; (repository, tag) = image_tag rest
      in image_build registry repository tag digest) = Inr r"
    by (auto simp: image_parse_def Let_def and_then_Inr split: if_splits)
  obtain registry rest where g: "image_registry name = (registry, rest)" by force
  obtain repo tag where t: "image_tag rest = (repo, tag)" by force
  from image_digestD[OF d] obtain u where nd: "CHR ''@'' \<notin> set name" "is_none_or digest is_digest"
    and u: "?s = name @ u" by blast
  have name: "stripped white_space name"
    using trim_stripped[of s] stripped_append unfolding u by blast
  have "list_all (\<lambda>b. \<not> ?sp b) name"
    using sp by (simp add: u list_all_iff list_ex_iff)
  from image_registryD[OF g nd(1) name this] have "registry_ok registry" .
  with r' nd g t show ?thesis by (auto intro: image_build_ok)
qed

section \<open>The round trip\<close>

lemma repository_chars: "repository_ok p \<Longrightarrow> c \<in> set p \<Longrightarrow> repository_byte c \<or> c = CHR ''/''"
  using split_by_chars[of c p "\<lambda>d. d = CHR ''/''"]
  by (auto simp: repository_ok_def component_ok_def list_all_iff split_def)

lemma repository_byte_ok:
  "repository_byte c \<Longrightarrow> visible c \<and> c \<noteq> CHR ''/'' \<and> c \<noteq> CHR '':'' \<and> c \<noteq> CHR ''@''"
  by (auto simp: repository_byte_def visible_def is_ascii_lowercase_def is_ascii_digit_def byte_def)

lemma tag_byte_ok:
  "tag_byte c \<Longrightarrow> visible c \<and> c \<noteq> CHR ''/'' \<and> c \<noteq> CHR '':'' \<and> c \<noteq> CHR ''@''"
  by (auto simp: tag_byte_def visible_def is_ascii_lowercase_def is_ascii_digit_def
      is_ascii_uppercase_def is_ascii_alphanumeric_def is_ascii_alphabetic_def byte_def)

lemma hex_digit_ok: "hex_digit c \<Longrightarrow> visible c \<and> c \<noteq> CHR ''@''"
  by (auto simp: hex_digit_def is_ascii_digit_def visible_def byte_def)

lemma digest_visible:
  assumes "is_digest d"
  shows "list_all visible d" "d \<noteq> []" "CHR ''@'' \<notin> set d"
proof -
  from assms obtain h where d: "d = ''sha256:'' @ h" and h: "list_all hex_digit h"
    unfolding is_digest_def is_some_and_iff strip_prefix_Some by blast
  have "list_all visible ''sha256:''" by code_simp
  then show "list_all visible d" using h hex_digit_ok by (auto simp: d list_all_iff)
  show "d \<noteq> []" "CHR ''@'' \<notin> set d" using h hex_digit_ok by (auto simp: d list_all_iff)
qed

lemma visible_no_space: "visible c \<Longrightarrow> \<not> (is_ascii_whitespace c \<or> is_ascii_control c)"
  by (auto simp: visible_def is_ascii_whitespace_def is_ascii_control_def)

lemma no_list_ex: "\<not> list_ex p s \<longleftrightarrow> list_all (\<lambda>c. \<not> p c) s"
  by (simp add: list_all_iff list_ex_iff)

text \<open>Reading a reference written out: registry, a slash, the repository and what follows.\<close>

lemma image_registry_again:
  assumes "registry_ok g"
  shows "image_registry (g @ ''/'' @ rest) = (g, rest)"
proof -
  have "split_once CHR ''/'' (g @ ''/'' @ rest) = Some (g, rest)"
    using assms by (simp add: split_once_Some registry_ok_def)
  with assms show ?thesis by (simp add: image_registry_def registry_ok_def)
qed

lemma image_tag_again:
  assumes "repository_ok p" "is_none_or t tag_ok"
  shows "image_tag (p @ (case t of None \<Rightarrow> [] | Some tag \<Rightarrow> '':'' @ tag)) = (p, t)"
proof (cases t)
  case None
  have "CHR '':'' \<notin> set p"
    using repository_chars[OF assms(1)] repository_byte_ok by auto
  then have "rsplit_once CHR '':'' p = None" by (simp add: rsplit_once_def split_once_None)
  with None show ?thesis by (simp add: image_tag_def)
next
  case (Some tag)
  then have "CHR '':'' \<notin> set tag" "CHR ''/'' \<notin> set tag"
    using assms(2) tag_byte_ok by (auto simp: tag_ok_def list_all_iff)
  then have "rsplit_once CHR '':'' (p @ CHR '':'' # tag) = Some (p, tag)" by (simp add: rsplit_once_Some)
  with Some \<open>CHR ''/'' \<notin> set tag\<close> show ?thesis by (simp add: image_tag_def)
qed

lemma image_digest_again:
  assumes "CHR ''@'' \<notin> set name" "is_none_or d is_digest"
  shows "image_digest (name @ (case d of None \<Rightarrow> [] | Some digest \<Rightarrow> ''@'' @ digest)) = Inr (name, d)"
proof (cases d)
  case None
  have "split_once CHR ''@'' name = None" using assms(1) by (simp add: split_once_None)
  with None show ?thesis by (simp add: image_digest_def)
next
  case (Some digest)
  have "split_once CHR ''@'' (name @ ''@'' @ digest) = Some (name, digest)"
    using assms(1) by (simp add: split_once_Some)
  with Some assms(2) show ?thesis by (simp add: image_digest_def)
qed

lemma tail_visible:
  assumes "repository_ok p" "is_none_or t tag_ok" "is_none_or d is_digest"
  shows "list_all visible (''/'' @ p @ (case t of None \<Rightarrow> [] | Some tag \<Rightarrow> '':'' @ tag)
      @ (case d of None \<Rightarrow> [] | Some digest \<Rightarrow> ''@'' @ digest))"
proof -
  have sep: "visible CHR ''/''" "visible CHR '':''" "visible CHR ''@''" by code_simp+
  then have "list_all visible p"
    using repository_chars[OF assms(1)] repository_byte_ok by (auto simp: list_all_iff)
  moreover have "is_none_or t (list_all visible)"
    using assms(2) tag_byte_ok by (auto simp: is_none_or_iff tag_ok_def list_all_iff)
  moreover have "is_none_or d (list_all visible)"
    using assms(3) digest_visible(1) by (auto simp: is_none_or_iff)
  ultimately show ?thesis using sep by (auto split: option.splits)
qed

lemma trim_registry:
  assumes "registry_ok g" "list_all visible u" "u \<noteq> []"
  shows "trim (g @ u) = g @ u"
proof -
  have "g \<noteq> []" using assms(1) by (auto simp: registry_ok_def names_registry_def)
  have "stripped white_space (g @ u)"
    unfolding stripped_def
  proof (intro ballI impI notI)
    fix w assume w: "w \<in> set white_space" "w \<noteq> []" "starts_with w (g @ u)"
    then obtain v where v: "g @ u = w @ v" by (auto simp: starts_with_iff)
    then obtain x where "g = w @ x \<or> w = g @ x \<and> u = x @ v"
      unfolding append_eq_append_conv2 by blast
    then consider "g = w @ x" | "x \<noteq> []" "w = g @ x" "u = x @ v" by (cases x) auto
    then show False
    proof cases
      case 1
      then have "starts_with w g" by (auto simp: starts_with_iff)
      with w assms(1) show ?thesis by (auto simp: registry_ok_def stripped_def)
    next
      case 2
      then have "visible (last w)" using assms(2) by (simp add: list_all_iff)
      with white_space_edges[OF w(1)] show ?thesis by simp
    qed
  qed
  then have "trim_start (g @ u) = g @ u" by (simp add: trim_start_def strip_start_id)
  moreover have "strip_start (map rev white_space) (rev (g @ u)) = rev (g @ u)"
    by (rule strip_start_id[OF stripped_visible])
      (use assms(2,3) white_space_edges in \<open>auto simp: hd_rev list_all_iff\<close>)
  ultimately show ?thesis by (simp add: trim_def trim_end_def)
qed

lemma image_parse_steps:
  "trim s = s \<Longrightarrow> s \<noteq> [] \<Longrightarrow> length s \<le> MAX_IMAGE_REFERENCE \<Longrightarrow>
   \<not> list_ex (\<lambda>b. is_ascii_whitespace b \<or> is_ascii_control b) s \<Longrightarrow>
   image_digest s = Inr (name, d) \<Longrightarrow> image_registry name = (g, rest) \<Longrightarrow> image_tag rest = (p, t) \<Longrightarrow>
   image_build g p t d = Inr r \<Longrightarrow> image_parse s = Inr r"
  by (simp add: image_parse_def)

lemma image_written:
  assumes g: "registry_ok g" and p: "repository_ok p" "g = docker_io \<longrightarrow> CHR ''/'' \<in> set p"
    and t: "is_none_or t tag_ok" and d: "is_none_or d is_digest" and td: "t \<noteq> None \<or> d \<noteq> None"
    and len: "length (image_display \<lparr>img_registry = g, img_repository = p, img_tag = t, img_digest = d\<rparr>)
      \<le> MAX_IMAGE_REFERENCE" (is "length (image_display ?r) \<le> _")
  shows "image_parse (image_display ?r) = Inr ?r"
proof -
  let ?t = "case t of None \<Rightarrow> [] | Some tag \<Rightarrow> '':'' @ tag"
  let ?d = "case d of None \<Rightarrow> [] | Some digest \<Rightarrow> ''@'' @ digest"
  let ?u = "''/'' @ p @ ?t @ ?d"
  have disp: "image_display ?r = g @ ?u" by (simp add: image_display_def)
  have vis: "list_all visible ?u" by (rule tail_visible[OF p(1) t d])
  have trim: "trim (g @ ?u) = g @ ?u" by (rule trim_registry[OF g vis]) simp
  have "list_all (\<lambda>b. \<not> (is_ascii_whitespace b \<or> is_ascii_control b)) ?u"
    by (rule list_all_mono[OF vis]) (rule visible_no_space)
  with g have sp: "\<not> list_ex (\<lambda>b. is_ascii_whitespace b \<or> is_ascii_control b) (g @ ?u)"
    unfolding no_list_ex list_all_append registry_ok_def by blast
  have at: "CHR ''@'' \<notin> set (g @ ''/'' @ p @ ?t)"
    using g t repository_chars[OF p(1), of "CHR ''@''"] repository_byte_ok[of "CHR ''@''"]
      tag_byte_ok[of "CHR ''@''"]
    by (auto simp: registry_ok_def is_none_or_iff tag_ok_def list_all_iff split: option.splits)
  have dig: "image_digest (g @ ?u) = Inr (g @ ''/'' @ p @ ?t, d)"
    using image_digest_again[OF at d] by simp
  have build: "image_build g p t d = Inr ?r"
    using p t td by (auto simp: image_build_def Let_def repository_ok_def is_none_or_iff tag_ok_def
        is_some_and_iff)
  show ?thesis
    unfolding disp
    by (rule image_parse_steps[OF trim _ _ sp dig image_registry_again[OF g] image_tag_again[OF p(1) t] build])
      (use len in \<open>simp_all add: disp\<close>)
qed

lemma image_parse_display_ok:
  "image_ok r \<Longrightarrow> length (image_display r) \<le> MAX_IMAGE_REFERENCE \<Longrightarrow> image_parse (image_display r) = Inr r"
  by (cases r) (auto simp: image_ok_def intro!: image_written)

lemma image_display_trim: "image_ok r \<Longrightarrow> trim (image_display r) = image_display r"
  unfolding image_display_def
  by (rule trim_registry) (use tail_visible in \<open>auto simp: image_ok_def\<close>)

text \<open>What is read back from a reference written out, if it is read at all.\<close>

lemma image_parse_displayed:
  assumes "image_parse (image_display r) = Inr s" "image_ok r"
  shows "s = r"
proof -
  have "length (image_display r) \<le> MAX_IMAGE_REFERENCE"
    using assms image_display_trim[OF assms(2)] by (auto simp: image_parse_def Let_def split: if_splits)
  from image_parse_display_ok[OF assms(2) this] assms(1) show ?thesis by simp
qed

text \<open>
  An image reference is normalised once: what the parser returns, written out, is read back
  as the same registry, repository, tag and digest, so long as the written form is within the
  length the parser takes (it can be longer than what was typed, by the default registry,
  \<open>library/\<close> and \<open>:latest\<close>). So two spellings of one image have one written form.
\<close>

theorem image_round_trip:
  assumes "image_parse s = Inr r" "length (image_display r) \<le> MAX_IMAGE_REFERENCE"
  shows "image_parse (image_display r) = Inr r"
  using image_parse_display_ok[OF image_parse_ok[OF assms(1)] assms(2)] .

theorem image_round_trip_witness:
  "image_parse ''docker.io/library/nginx:latest'' =
   Inr \<lparr>img_registry = ''docker.io'', img_repository = ''library/nginx'', img_tag = Some ''latest'',
        img_digest = None\<rparr>"
proof -
  let ?r = "\<lparr>img_registry = ''docker.io'', img_repository = ''library/nginx'',
      img_tag = Some ''latest'', img_digest = None\<rparr>"
  have "image_parse '' nginx'' = Inr ?r" by code_simp
  then have "image_parse (image_display ?r) = Inr ?r"
    by (rule image_round_trip) code_simp
  then show ?thesis by (simp add: image_display_def)
qed

end
