(* ===== verification/Spec_Check.thy ===== *)
theory Spec_Check
  imports App_Spec Image
begin

text \<open>
  \<open>AppSpec::validate\<close> of \<open>grund-config/src/app/spec.rs\<close>: the limits, the loops over ports,
  variables, secrets and volumes, the defaults filled in, in the order of the code; then what a
  spec that came out of it is (\<open>spec_ok\<close>), written as the limits the code's comments state.
\<close>

section \<open>Limits and words\<close>

definition MAX_PORTS :: nat where "MAX_PORTS = 8"
definition MAX_PUBLIC_PORTS :: nat where "MAX_PUBLIC_PORTS = 2"
definition MAX_ENV :: nat where "MAX_ENV = 128"
definition MAX_ENV_BYTES :: nat where "MAX_ENV_BYTES = 32 * 1024"
definition MAX_SECRETS :: nat where "MAX_SECRETS = 50"
definition MAX_COMMAND_ARGS :: nat where "MAX_COMMAND_ARGS = 64"
definition MAX_COMMAND_BYTES :: nat where "MAX_COMMAND_BYTES = 8 * 1024"

definition STOP_SIGNALS :: "string list" where
  "STOP_SIGNALS = [''SIGTERM'', ''SIGINT'', ''SIGQUIT'', ''SIGUSR1'', ''SIGUSR2'', ''SIGHUP'']"

definition protocol_as_str :: "protocol \<Rightarrow> string" where
  "protocol_as_str p = (case p of Http \<Rightarrow> ''http'' | H2c \<Rightarrow> ''h2c'' | Tcp \<Rightarrow> ''tcp'')"

definition protocol_parse :: "string \<Rightarrow> protocol option" where
  "protocol_parse text =
     (if text = ''http'' then Some Http else if text = ''h2c'' then Some H2c
      else if text = ''tcp'' then Some Tcp else None)"

text \<open>A field with an index, \<open>format!("ports[{i}]")\<close>.\<close>

definition indexed :: "string \<Rightarrow> nat \<Rightarrow> string" where
  "indexed field i = field @ ''['' @ show_nat i @ '']''"

definition problem :: "string \<Rightarrow> string \<Rightarrow> spec_error option" where
  "problem field text = Some \<lparr>spec_field = field, spec_problem = text\<rparr>"

lemma problem_not_None [simp]: "problem f t \<noteq> None"
  by (simp add: problem_def)

text \<open>The first problem ends the validation.\<close>

definition unless :: "spec_error option \<Rightarrow> spec_error + 'a \<Rightarrow> spec_error + 'a" where
  "unless p r = (case p of Some e \<Rightarrow> Inl e | None \<Rightarrow> r)"

lemma unless_Inr [simp]: "unless p r = Inr x \<longleftrightarrow> p = None \<and> r = Inr x"
  by (simp add: unless_def split: option.splits)

definition NUL :: char where
  "NUL = CHR 0x00"

section \<open>The parts\<close>

definition command_problem :: "string list \<Rightarrow> spec_error option" where
  "command_problem command =
     (if length command > MAX_COMMAND_ARGS \<or> sum_list (map length command) > MAX_COMMAND_BYTES
      then problem ''command''
        (''use at most '' @ show_nat MAX_COMMAND_ARGS @ '' arguments and ''
         @ show_nat MAX_COMMAND_BYTES @ '' bytes'')
      else if list_ex (\<lambda>a. NUL \<in> set a) command
      then problem ''command'' ''an argument cannot contain a NUL byte''
      else None)"

definition port_name_ok :: "string \<Rightarrow> bool" where
  "port_name_ok name \<longleftrightarrow>
     1 \<le> length name \<and> length name \<le> 15 \<and> is_some_and (first_opt name) is_ascii_lowercase \<and>
     list_all slug_byte name"

definition port_problem :: "nat \<Rightarrow> port_spec list \<Rightarrow> port_spec \<Rightarrow> spec_error option" where
  "port_problem i before port =
     (if \<not> port_name_ok (port_name port) then
        problem (indexed ''ports'' i @ ''.name'')
          (''use 1 to 15 of a'' @ en_dash @ ''z, 0'' @ en_dash @ ''9 and '' @ quote ''-''
           @ '', starting with a letter'')
      else if port_number port = 0 then problem (indexed ''ports'' i @ ''.port'') ''use 1 to 65535''
      else if list_ex (\<lambda>p. port_name p = port_name port \<or> port_number p = port_number port) before
      then problem (indexed ''ports'' i) ''each port needs its own name and number''
      else None)"

definition ports_problem :: "port_spec list \<Rightarrow> spec_error option" where
  "ports_problem ports =
     (if length ports > MAX_PORTS then
        problem ''ports'' (''declare at most '' @ show_nat MAX_PORTS @ '' ports'')
      else if length (filter port_public ports) > MAX_PUBLIC_PORTS then
        problem ''ports'' (''at most '' @ show_nat MAX_PUBLIC_PORTS @ '' ports can be public'')
      else first_error port_problem [] ports)"

definition env_name_ok :: "string \<Rightarrow> bool" where
  "env_name_ok name \<longleftrightarrow>
     name \<noteq> [] \<and> length name \<le> 128 \<and>
     is_some_and (first_opt name) (\<lambda>b. is_ascii_alphabetic b \<or> b = CHR ''_'') \<and>
     list_all (\<lambda>b. is_ascii_alphanumeric b \<or> b = CHR ''_'') name"

definition secret_name_ok :: "string \<Rightarrow> bool" where
  "secret_name_ok name \<longleftrightarrow>
     1 \<le> length name \<and> length name \<le> 63 \<and>
     is_some_and (first_opt name) (\<lambda>b. is_ascii_lowercase b \<or> is_ascii_digit b) \<and>
     list_all slug_byte name"

definition variable_message :: string where
  "variable_message =
     ''a variable is letters, digits and '' @ quote ''_'' @ '', not starting with a digit''"

definition env_var_problem :: "nat \<Rightarrow> env_var list \<Rightarrow> env_var \<Rightarrow> spec_error option" where
  "env_var_problem i before var =
     (if \<not> env_name_ok (env_name var) then problem (indexed ''env'' i @ ''.name'') variable_message
      else if NUL \<in> set (env_value var) then
        problem (indexed ''env'' i @ ''.value'') ''a value cannot contain a NUL byte''
      else if list_ex (\<lambda>e. env_name e = env_name var) before then
        problem (indexed ''env'' i @ ''.name'') ''each variable once''
      else None)"

definition env_problem :: "env_var list \<Rightarrow> spec_error option" where
  "env_problem env =
     (if length env > MAX_ENV \<or>
         sum_list (map (\<lambda>e. length (env_name e) + length (env_value e)) env) > MAX_ENV_BYTES
      then problem ''env'' (''use at most '' @ show_nat MAX_ENV @ '' variables and 32 KiB together'')
      else first_error env_var_problem [] env)"

definition secret_problem ::
  "env_var list \<Rightarrow> nat \<Rightarrow> secret_env list \<Rightarrow> secret_env \<Rightarrow> spec_error option" where
  "secret_problem env i before secret =
     (if \<not> env_name_ok (secret_env_name secret) then
        problem (indexed ''secrets'' i @ ''.env'') variable_message
      else if \<not> secret_name_ok (secret_name secret) then
        problem (indexed ''secrets'' i @ ''.secret'')
          (''a secret'' @ [CHR 0x27] @ ''s name is a'' @ en_dash @ ''z, 0'' @ en_dash @ ''9 and ''
           @ quote ''-'' @ '', at most 63'')
      else if list_ex (\<lambda>e. env_name e = secret_env_name secret) env \<or>
              list_ex (\<lambda>s. secret_env_name s = secret_env_name secret) before then
        problem (indexed ''secrets'' i @ ''.env'') ''each variable once''
      else None)"

definition secrets_problem :: "env_var list \<Rightarrow> secret_env list \<Rightarrow> spec_error option" where
  "secrets_problem env secrets =
     (if length secrets > MAX_SECRETS then
        problem ''secrets'' (''name at most '' @ show_nat MAX_SECRETS @ '' secrets'')
      else first_error (secret_problem env) [] secrets)"

definition check_path_ok :: "string \<Rightarrow> bool" where
  "check_path_ok path \<longleftrightarrow>
     starts_with ''/'' path \<and> length path \<le> 512 \<and>
     \<not> list_ex (\<lambda>b. is_ascii_whitespace b \<or> is_ascii_control b) path"

definition check_kind_ok :: "check_kind \<Rightarrow> bool" where
  "check_kind_ok kind = (case kind of Check_Http path \<Rightarrow> check_path_ok path | Check_Tcp \<Rightarrow> True)"

text \<open>The block \<open>if let Some(check) = &mut self.check\<close>.\<close>

definition fill_check_port :: "port_spec list \<Rightarrow> check_spec \<Rightarrow> spec_error + check_spec" where
  "fill_check_port ports check =
     (if check_port check = 0 then
        (case ports of
           port # _ \<Rightarrow> Inr (check\<lparr>check_port := port_number port\<rparr>)
         | [] \<Rightarrow> refuse ''check.port'' ''a check needs a port: declare one, or name it'')
      else Inr check)"

definition fill_check_times :: "check_spec \<Rightarrow> check_spec" where
  "fill_check_times check =
     (let check = (if check_interval_ms check = 0 then check\<lparr>check_interval_ms := 2000\<rparr> else check)
      in if check_timeout_ms check = 0
         then check\<lparr>check_timeout_ms := max (min 1000 (check_interval_ms check - 1)) 100\<rparr>
         else check)"

definition fill_check :: "port_spec list \<Rightarrow> check_spec \<Rightarrow> spec_error + check_spec" where
  "fill_check ports check =
     and_then (fill_check_port ports check) (\<lambda>check.
       if \<not> list_ex (\<lambda>p. port_number p = check_port check) ports then
         refuse ''check.port'' (''check one of the app'' @ [CHR 0x27] @ ''s ports'')
       else if \<not> check_kind_ok (check_kind check) then
         refuse ''check.http_path''
           (''a path starts with '' @ quote ''/'' @ '', has no spaces, and is at most 512 bytes'')
       else
         let check = fill_check_times check in
         if \<not> (500 \<le> check_interval_ms check \<and> check_interval_ms check \<le> 60000) then
           refuse ''check.interval_ms'' ''use 500 to 60000''
         else if \<not> (100 \<le> check_timeout_ms check \<and> check_timeout_ms check \<le> 30000) \<or>
                 check_timeout_ms check \<ge> check_interval_ms check then
           refuse ''check.timeout_ms'' ''use 100 to 30000, below the interval''
         else Inr check)"

definition fill_checks :: "port_spec list \<Rightarrow> check_spec option \<Rightarrow> spec_error + check_spec option" where
  "fill_checks ports check =
     (case check of
        None \<Rightarrow> Inr None
      | Some c \<Rightarrow> and_then (fill_check ports c) (\<lambda>c. Inr (Some c)))"

definition safe_volume_path :: "string \<Rightarrow> bool" where
  "safe_volume_path path \<longleftrightarrow>
     length path \<le> 4096 \<and> starts_with ''/'' path \<and> path \<noteq> ''/'' \<and>
     \<not> list_ex is_ascii_control path \<and>
     list_all (\<lambda>part. part \<noteq> [] \<and> part \<noteq> ''.'' \<and> part \<noteq> ''..'') (drop 1 (split CHR ''/'' path))"

definition paths_overlap :: "string \<Rightarrow> string \<Rightarrow> bool" where
  "paths_overlap a b \<longleftrightarrow>
     a = b \<or> is_some_and (strip_prefix b a) (starts_with ''/'') \<or>
     is_some_and (strip_prefix a b) (starts_with ''/'')"

definition sources_overlap :: "string option \<Rightarrow> string option \<Rightarrow> bool" where
  "sources_overlap a b \<longleftrightarrow>
     (case (a, b) of (Some a, Some b) \<Rightarrow> paths_overlap a b | _ \<Rightarrow> False)"

definition prior_problem :: "nat \<Rightarrow> volume_spec \<Rightarrow> volume_spec \<Rightarrow> spec_error option" where
  "prior_problem i volume prior =
     (if vol_name volume = vol_name prior then
        problem (indexed ''volumes'' i @ ''.name'') ''each volume name only once''
      else if paths_overlap (vol_path volume) (vol_path prior) then
        problem (indexed ''volumes'' i @ ''.path'') ''container mount paths cannot overlap''
      else if sources_overlap (vol_source volume) (vol_source prior) then
        problem (indexed ''volumes'' i @ ''.source'')
          ''existing host directories cannot overlap within an app''
      else None)"

definition own_name :: "string \<Rightarrow> bool" where
  "own_name name \<longleftrightarrow> (case app_name_parse name of Inl _ \<Rightarrow> False | Inr n \<Rightarrow> n = name)"

definition size_ok :: "volume_spec \<Rightarrow> bool" where
  "size_ok v \<longleftrightarrow>
     \<not> (is_some_and (vol_size_gib v) (\<lambda>size. \<not> (1 \<le> size \<and> size \<le> 4096)) \<or>
        (vol_size_gib v \<noteq> None \<and> vol_source v \<noteq> None))"

definition directory_message :: "string \<Rightarrow> string" where
  "directory_message what =
     ''use an absolute '' @ what @ '' directory without '' @ quote ''.'' @ '', '' @ quote ''..''
     @ '', empty components or control bytes''"

definition volume_problem :: "nat \<Rightarrow> volume_spec list \<Rightarrow> volume_spec \<Rightarrow> spec_error option" where
  "volume_problem i before volume =
     (if \<not> own_name (vol_name volume) then
        problem (indexed ''volumes'' i @ ''.name'')
          ''use 1 to 32 lowercase letters, digits and single hyphens between them''
      else if \<not> safe_volume_path (vol_path volume) then
        problem (indexed ''volumes'' i @ ''.path'') (directory_message ''container'')
      else if is_some_and (vol_source volume) (\<lambda>source. \<not> safe_volume_path source) then
        problem (indexed ''volumes'' i @ ''.source'') (directory_message ''existing host'')
      else if \<not> size_ok volume then
        problem (indexed ''volumes'' i @ ''.size_gib'')
          ''use 1 to 4096 GiB for app-owned blocks, without an existing host source''
      else find_map (prior_problem i volume) before)"

definition volumes_problem :: "volume_spec list \<Rightarrow> spec_error option" where
  "volumes_problem volumes =
     (if list_ex (\<lambda>v. vol_size_gib v \<noteq> None) volumes \<and>
         (length volumes > 4 \<or> list_ex (\<lambda>v. vol_size_gib v = None) volumes) then
        problem ''volumes''
          ''hosted releases require one to four block volumes and cannot mix own-machine directories''
      else first_error volume_problem [] volumes)"

definition fill_stop :: "stop_spec \<Rightarrow> spec_error + stop_spec" where
  "fill_stop stop =
     (let signal = (if stop_signal stop = [] then ''SIGTERM'' else stop_signal stop);
          signal = to_ascii_uppercase signal;
          signal = (if starts_with ''SIG'' signal then signal else ''SIG'' @ signal)
      in
      if signal \<notin> set STOP_SIGNALS then
        refuse ''stop.signal'' (''use one of '' @ join '', '' STOP_SIGNALS)
      else
        let grace = (if stop_grace_seconds stop = 0 then 30 else stop_grace_seconds stop) in
        if grace > 300 then refuse ''stop.grace_seconds'' ''use at most 300''
        else Inr \<lparr>stop_signal = signal, stop_grace_seconds = grace\<rparr>)"

definition fill_memory :: "nat \<Rightarrow> spec_error + nat" where
  "fill_memory mib =
     (let mib = (if mib = 0 then 512 else mib) in
      if \<not> (16 \<le> mib \<and> mib \<le> 262144) then refuse ''resources.memory_mib'' ''use 16 to 262144 MiB''
      else Inr mib)"

definition fill_cpu :: "nat \<Rightarrow> spec_error + nat" where
  "fill_cpu millis =
     (let millis = (if millis = 0 then 1000 else millis) in
      if \<not> (10 \<le> millis \<and> millis \<le> 64000)
      then refuse ''resources.cpu_millis'' ''use 10 to 64000 (0.01 to 64 CPUs)''
      else Inr millis)"

section \<open>The whole\<close>

definition spec_validate :: "app_spec \<Rightarrow> spec_error + app_spec" where
  "spec_validate s =
     and_then (image_parse (spec_image s)) (\<lambda>_.
     let s = s\<lparr>spec_image := trim (spec_image s)\<rparr> in
     unless (command_problem (spec_command s)) (
     unless (ports_problem (spec_ports s)) (
     and_then (fill_memory (spec_memory_mib s)) (\<lambda>mib.
     let s = s\<lparr>spec_memory_mib := mib\<rparr> in
     and_then (fill_cpu (spec_cpu_millis s)) (\<lambda>millis.
     let s = s\<lparr>spec_cpu_millis := millis\<rparr> in
     unless (env_problem (spec_env s)) (
     unless (secrets_problem (spec_env s) (spec_secrets s)) (
     and_then (fill_checks (spec_ports s) (spec_check s)) (\<lambda>check.
     let s = s\<lparr>spec_check := check\<rparr> in
     unless (volumes_problem (spec_volumes s)) (
     and_then (fill_stop (spec_stop s)) (\<lambda>stop.
     Inr (s\<lparr>spec_stop := stop\<rparr>)))))))))))"

section \<open>What a validated spec is\<close>

definition check_ok :: "port_spec list \<Rightarrow> check_spec \<Rightarrow> bool" where
  "check_ok ports c \<longleftrightarrow>
     (\<exists>p\<in>set ports. port_number p = check_port c) \<and> check_kind_ok (check_kind c) \<and>
     500 \<le> check_interval_ms c \<and> check_interval_ms c \<le> 60000 \<and>
     100 \<le> check_timeout_ms c \<and> check_timeout_ms c \<le> 30000 \<and>
     check_timeout_ms c < check_interval_ms c"

definition ports_ok :: "port_spec list \<Rightarrow> bool" where
  "ports_ok ports \<longleftrightarrow>
     length ports \<le> 8 \<and> length (filter port_public ports) \<le> 2 \<and>
     (\<forall>p\<in>set ports. port_name_ok (port_name p) \<and> 0 < port_number p) \<and>
     distinct (map port_name ports) \<and> distinct (map port_number ports)"

definition variables_ok :: "env_var list \<Rightarrow> secret_env list \<Rightarrow> bool" where
  "variables_ok env secrets \<longleftrightarrow>
     length env \<le> 128 \<and> sum_list (map (\<lambda>e. length (env_name e) + length (env_value e)) env) \<le> 32768 \<and>
     length secrets \<le> 50 \<and>
     (\<forall>e\<in>set env. env_name_ok (env_name e) \<and> NUL \<notin> set (env_value e)) \<and>
     (\<forall>s\<in>set secrets. env_name_ok (secret_env_name s) \<and> secret_name_ok (secret_name s)) \<and>
     distinct (map env_name env @ map secret_env_name secrets)"

definition volume_ok :: "volume_spec \<Rightarrow> bool" where
  "volume_ok v \<longleftrightarrow>
     app_name_parse (vol_name v) = Inr (vol_name v) \<and> safe_volume_path (vol_path v) \<and>
     is_none_or (vol_source v) safe_volume_path \<and> size_ok v"

definition volumes_ok :: "volume_spec list \<Rightarrow> bool" where
  "volumes_ok vs \<longleftrightarrow>
     (\<forall>v\<in>set vs. volume_ok v) \<and>
     ((\<forall>v\<in>set vs. vol_size_gib v = None) \<or> length vs \<le> 4 \<and> (\<forall>v\<in>set vs. vol_size_gib v \<noteq> None)) \<and>
     sorted_wrt (\<lambda>v w. vol_name v \<noteq> vol_name w \<and> \<not> paths_overlap (vol_path v) (vol_path w) \<and>
       \<not> sources_overlap (vol_source v) (vol_source w)) vs"

definition spec_ok :: "app_spec \<Rightarrow> bool" where
  "spec_ok s \<longleftrightarrow>
     (\<exists>r. image_parse (spec_image s) = Inr r) \<and> trim (spec_image s) = spec_image s \<and>
     length (spec_command s) \<le> 64 \<and> sum_list (map length (spec_command s)) \<le> 8192 \<and>
     (\<forall>a\<in>set (spec_command s). NUL \<notin> set a) \<and>
     ports_ok (spec_ports s) \<and>
     16 \<le> spec_memory_mib s \<and> spec_memory_mib s \<le> 262144 \<and>
     10 \<le> spec_cpu_millis s \<and> spec_cpu_millis s \<le> 64000 \<and>
     variables_ok (spec_env s) (spec_secrets s) \<and>
     is_none_or (spec_check s) (check_ok (spec_ports s)) \<and>
     volumes_ok (spec_volumes s) \<and>
     stop_signal (spec_stop s) \<in> set STOP_SIGNALS \<and>
     1 \<le> stop_grace_seconds (spec_stop s) \<and> stop_grace_seconds (spec_stop s) \<le> 300"

section \<open>The loops\<close>

lemma first_error_pairs:
  assumes "\<And>i before x. f i before x = None \<longleftrightarrow> ok x \<and> (\<forall>y\<in>set before. \<not> clash y x)"
  shows "first_error f before xs = None \<longleftrightarrow>
    (\<forall>x\<in>set xs. ok x \<and> (\<forall>y\<in>set before. \<not> clash y x)) \<and> sorted_wrt (\<lambda>y x. \<not> clash y x) xs"
proof (induction xs arbitrary: before)
  case (Cons x xs)
  show ?case
  proof (cases "f (length before) before x")
    case None
    then have "ok x \<and> (\<forall>y\<in>set before. \<not> clash y x)" using assms by simp
    with None Cons show ?thesis by auto
  next
    case (Some e)
    then have "\<not> (ok x \<and> (\<forall>y\<in>set before. \<not> clash y x))"
      using assms[of "length before" before x] by simp
    with Some show ?thesis by auto
  qed
qed simp

lemmas first_error_whole = first_error_pairs[where before = "[]", simplified]

lemma sorted_wrt_distinct: "sorted_wrt (\<lambda>x y. k x \<noteq> k y) xs \<longleftrightarrow> distinct (map k xs)"
  by (induction xs) (auto simp: image_iff)

lemma sorted_wrt_conj:
  "sorted_wrt (\<lambda>x y. P x y \<and> Q x y) xs \<longleftrightarrow> sorted_wrt P xs \<and> sorted_wrt Q xs"
  by (induction xs) auto

lemma command_problem_None:
  "command_problem cs = None \<longleftrightarrow>
   length cs \<le> 64 \<and> sum_list (map length cs) \<le> 8192 \<and> (\<forall>a\<in>set cs. NUL \<notin> set a)"
  by (auto simp: command_problem_def MAX_COMMAND_ARGS_def MAX_COMMAND_BYTES_def list_ex_iff)

lemma ports_problem_None: "ports_problem ps = None \<longleftrightarrow> ports_ok ps"
proof -
  have "first_error port_problem [] ps = None \<longleftrightarrow>
      (\<forall>p\<in>set ps. port_name_ok (port_name p) \<and> 0 < port_number p) \<and>
      sorted_wrt (\<lambda>q p. \<not> (port_name q = port_name p \<or> port_number q = port_number p)) ps"
    by (rule first_error_whole[where ok = "\<lambda>p. port_name_ok (port_name p) \<and> 0 < port_number p"
          and clash = "\<lambda>q p. port_name q = port_name p \<or> port_number q = port_number p"])
      (auto simp: port_problem_def list_ex_iff)
  then show ?thesis
    by (auto simp: ports_problem_def ports_ok_def MAX_PORTS_def MAX_PUBLIC_PORTS_def sorted_wrt_conj
        sorted_wrt_distinct)
qed

lemma variables_None:
  "env_problem env = None \<and> secrets_problem env ss = None \<longleftrightarrow> variables_ok env ss"
proof -
  have "first_error env_var_problem [] env = None \<longleftrightarrow>
      (\<forall>e\<in>set env. env_name_ok (env_name e) \<and> NUL \<notin> set (env_value e)) \<and>
      sorted_wrt (\<lambda>d e. \<not> env_name d = env_name e) env"
    by (rule first_error_whole[where ok = "\<lambda>e. env_name_ok (env_name e) \<and> NUL \<notin> set (env_value e)"
          and clash = "\<lambda>d e. env_name d = env_name e"])
      (auto simp: env_var_problem_def list_ex_iff)
  moreover have "first_error (secret_problem env) [] ss = None \<longleftrightarrow>
      (\<forall>s\<in>set ss. env_name_ok (secret_env_name s) \<and> secret_name_ok (secret_name s) \<and>
          (\<forall>e\<in>set env. env_name e \<noteq> secret_env_name s)) \<and>
      sorted_wrt (\<lambda>t s. \<not> secret_env_name t = secret_env_name s) ss"
    by (rule first_error_whole[where ok = "\<lambda>s. env_name_ok (secret_env_name s) \<and>
            secret_name_ok (secret_name s) \<and> (\<forall>e\<in>set env. env_name e \<noteq> secret_env_name s)"
          and clash = "\<lambda>t s. secret_env_name t = secret_env_name s"])
      (auto simp: secret_problem_def list_ex_iff)
  ultimately show ?thesis
    by (auto simp: env_problem_def secrets_problem_def variables_ok_def MAX_ENV_def MAX_ENV_BYTES_def
        MAX_SECRETS_def sorted_wrt_distinct)
qed

lemma own_name_iff: "own_name n \<longleftrightarrow> app_name_parse n = Inr n"
  by (auto simp: own_name_def split: sum.splits)

lemma paths_overlap_sym: "paths_overlap a b \<longleftrightarrow> paths_overlap b a"
  by (auto simp: paths_overlap_def)

lemma sources_overlap_sym: "sources_overlap a b \<longleftrightarrow> sources_overlap b a"
  by (auto simp: sources_overlap_def paths_overlap_sym split: option.splits)

definition volumes_clash :: "volume_spec \<Rightarrow> volume_spec \<Rightarrow> bool" where
  "volumes_clash w v \<longleftrightarrow>
     vol_name w = vol_name v \<or> paths_overlap (vol_path w) (vol_path v) \<or>
     sources_overlap (vol_source w) (vol_source v)"

lemma volume_problem_None:
  "volume_problem i before v = None \<longleftrightarrow> volume_ok v \<and> (\<forall>w\<in>set before. \<not> volumes_clash w v)"
proof -
  have "prior_problem i v w = None \<longleftrightarrow> \<not> volumes_clash w v" for w
    using paths_overlap_sym[of "vol_path w" "vol_path v"]
      sources_overlap_sym[of "vol_source w" "vol_source v"]
    by (auto simp: prior_problem_def volumes_clash_def)
  then show ?thesis
    by (auto simp: volume_problem_def volume_ok_def own_name_iff find_map_None_iff is_some_and_iff
        is_none_or_iff)
qed

lemma volumes_problem_None: "volumes_problem vs = None \<longleftrightarrow> volumes_ok vs"
proof -
  have "first_error volume_problem [] vs = None \<longleftrightarrow>
      (\<forall>v\<in>set vs. volume_ok v) \<and> sorted_wrt (\<lambda>w v. \<not> volumes_clash w v) vs"
    by (rule first_error_whole) (rule volume_problem_None)
  moreover have "sorted_wrt (\<lambda>w v. \<not> volumes_clash w v) vs \<longleftrightarrow>
      sorted_wrt (\<lambda>v w. vol_name v \<noteq> vol_name w \<and> \<not> paths_overlap (vol_path v) (vol_path w) \<and>
        \<not> sources_overlap (vol_source v) (vol_source w)) vs"
    unfolding volumes_clash_def by simp
  moreover have "(list_ex (\<lambda>v. vol_size_gib v \<noteq> None) vs \<and>
        (length vs > 4 \<or> list_ex (\<lambda>v. vol_size_gib v = None) vs)) \<longleftrightarrow>
      \<not> ((\<forall>v\<in>set vs. vol_size_gib v = None) \<or> length vs \<le> 4 \<and> (\<forall>v\<in>set vs. vol_size_gib v \<noteq> None))"
    unfolding list_ex_iff by (meson not_less)
  ultimately show ?thesis
    unfolding volumes_problem_def volumes_ok_def by (simp del: not_None_eq)
qed

section \<open>The defaults\<close>

lemma fill_check_times_keeps [simp]:
  "check_port (fill_check_times c) = check_port c" "check_kind (fill_check_times c) = check_kind c"
  by (simp_all add: fill_check_times_def Let_def)

lemma fill_checks_ok:
  "fill_checks ports c = Inr c' \<Longrightarrow> is_none_or c' (check_ok ports)"
  by (auto simp: fill_checks_def fill_check_def and_then_Inr check_ok_def Let_def list_ex_iff
      split: option.splits if_splits)

lemma fill_checks_again:
  assumes "is_none_or c (check_ok ports)" "ports_ok ports"
  shows "fill_checks ports c = Inr c"
proof (cases c)
  case (Some k)
  with assms(1) have k: "check_ok ports k" by simp
  then have "check_port k \<noteq> 0" using assms(2) by (fastforce simp: check_ok_def ports_ok_def)
  then have "fill_check_port ports k = Inr k" by (simp add: fill_check_port_def)
  moreover have "fill_check_times k = k" using k by (simp add: fill_check_times_def check_ok_def)
  moreover have "list_ex (\<lambda>p. port_number p = check_port k) ports"
    using k by (simp add: check_ok_def list_ex_iff)
  ultimately have "fill_check ports k = Inr k"
    using k by (simp add: fill_check_def check_ok_def Let_def)
  with Some show ?thesis by (simp add: fill_checks_def)
qed (simp add: fill_checks_def)

lemma fill_stop_ok:
  "fill_stop p = Inr q \<Longrightarrow>
   stop_signal q \<in> set STOP_SIGNALS \<and> 1 \<le> stop_grace_seconds q \<and> stop_grace_seconds q \<le> 300"
  by (auto simp: fill_stop_def Let_def split: if_splits)

lemma stop_signals_again:
  "s \<in> set STOP_SIGNALS \<Longrightarrow> s \<noteq> [] \<and> to_ascii_uppercase s = s \<and> starts_with ''SIG'' s"
proof -
  have "list_all (\<lambda>s. s \<noteq> [] \<and> to_ascii_uppercase s = s \<and> starts_with ''SIG'' s) STOP_SIGNALS"
    by code_simp
  then show "s \<in> set STOP_SIGNALS \<Longrightarrow> ?thesis" by (auto simp: list_all_iff)
qed

lemma fill_stop_again:
  assumes "stop_signal q \<in> set STOP_SIGNALS" "1 \<le> stop_grace_seconds q" "stop_grace_seconds q \<le> 300"
  shows "fill_stop q = Inr q"
  using assms stop_signals_again[OF assms(1)] by (simp add: fill_stop_def Let_def)

lemmas fill_resources = fill_memory_def fill_cpu_def Let_def

section \<open>Properties\<close>

lemma spec_validate_ok: "spec_validate s = Inr t \<Longrightarrow> spec_ok t"
proof -
  assume v: "spec_validate s = Inr t"
  then obtain r mib millis check stop where
    r: "image_parse (spec_image s) = Inr r" and
    m: "fill_memory (spec_memory_mib s) = Inr mib" "fill_cpu (spec_cpu_millis s) = Inr millis" and
    c: "fill_checks (spec_ports s) (spec_check s) = Inr check" and p: "fill_stop (spec_stop s) = Inr stop" and
    n: "command_problem (spec_command s) = None" "ports_problem (spec_ports s) = None"
      "env_problem (spec_env s) = None" "secrets_problem (spec_env s) (spec_secrets s) = None"
      "volumes_problem (spec_volumes s) = None" and
    t: "t = s\<lparr>spec_image := trim (spec_image s), spec_memory_mib := mib, spec_cpu_millis := millis,
        spec_check := check, spec_stop := stop\<rparr>"
    by (auto simp: spec_validate_def and_then_Inr Let_def)
  have "image_parse (trim (spec_image s)) = Inr r" using r by (simp add: image_parse_def)
  moreover have "16 \<le> mib \<and> mib \<le> 262144" "10 \<le> millis \<and> millis \<le> 64000"
    using m by (auto simp: fill_resources split: if_splits)
  moreover have "variables_ok (spec_env s) (spec_secrets s)" using variables_None n by blast
  ultimately show ?thesis
    using n fill_checks_ok[OF c] fill_stop_ok[OF p]
    by (simp add: spec_ok_def t command_problem_None ports_problem_None volumes_problem_None)
qed

lemma spec_validate_again: "spec_ok t \<Longrightarrow> spec_validate t = Inr t"
proof -
  assume t: "spec_ok t"
  then obtain r where r: "image_parse (spec_image t) = Inr r" "trim (spec_image t) = spec_image t"
    by (auto simp: spec_ok_def)
  have v: "env_problem (spec_env t) = None" "secrets_problem (spec_env t) (spec_secrets t) = None"
    using t variables_None[of "spec_env t" "spec_secrets t"] by (auto simp: spec_ok_def)
  have c: "fill_checks (spec_ports t) (spec_check t) = Inr (spec_check t)"
    "fill_stop (spec_stop t) = Inr (spec_stop t)"
    using t fill_checks_again fill_stop_again by (auto simp: spec_ok_def)
  have m: "fill_memory (spec_memory_mib t) = Inr (spec_memory_mib t)"
    "fill_cpu (spec_cpu_millis t) = Inr (spec_cpu_millis t)"
    using t by (auto simp: spec_ok_def fill_resources)
  have "command_problem (spec_command t) = None" "ports_problem (spec_ports t) = None"
    "volumes_problem (spec_volumes t) = None"
    using t by (auto simp: spec_ok_def command_problem_None ports_problem_None volumes_problem_None)
  with r v c m show ?thesis by (simp add: spec_validate_def unless_def)
qed

lemma spec_validate_keeps:
  "spec_validate s = Inr t \<Longrightarrow>
   spec_command t = spec_command s \<and> spec_ports t = spec_ports s \<and> spec_env t = spec_env s \<and>
   spec_secrets t = spec_secrets s \<and> spec_volumes t = spec_volumes s"
  by (auto simp: spec_validate_def and_then_Inr Let_def)

text \<open>
  C12: What \<open>AppSpec::validate\<close> accepts is within every limit of the file, wherever it came from:
  sizes, counts, the grammar of every name, no NUL in a process argument or variable, variables
  and ports unique, volume mounts and host sources disjoint, a check of one of the ports that
  fits its interval, a known stop signal. Nothing a person listed is dropped or changed on the
  way, and validating the result again returns it unchanged.
\<close>

theorem spec_validated:
  assumes "spec_validate s = Inr t"
  shows "spec_ok t \<and> spec_validate t = Inr t \<and>
    spec_command t = spec_command s \<and> spec_ports t = spec_ports s \<and> spec_env t = spec_env s \<and>
    spec_secrets t = spec_secrets s \<and> spec_volumes t = spec_volumes s"
  using spec_validate_ok[OF assms] spec_validate_again spec_validate_keeps[OF assms] by simp

definition demo_spec :: app_spec where
  "demo_spec =
     \<lparr>spec_image = ''nginx'', spec_command = [],
      spec_ports = [\<lparr>port_name = ''http'', port_number = 80, port_protocol = Http, port_public = True\<rparr>],
      spec_memory_mib = 0, spec_cpu_millis = 0, spec_env = [], spec_secrets = [], spec_check = None,
      spec_stop = \<lparr>stop_signal = ''int'', stop_grace_seconds = 0\<rparr>,
      spec_volumes = [\<lparr>vol_name = ''data'', vol_path = ''/data'', vol_source = None,
        vol_size_gib = Some 8, vol_backup = True\<rparr>]\<rparr>"

theorem spec_validated_witness:
  "\<exists>t. spec_validate demo_spec = Inr t \<and> spec_ok t \<and> spec_memory_mib t = 512 \<and>
     stop_signal (spec_stop t) = ''SIGINT''"
proof -
  let ?t = "demo_spec\<lparr>spec_memory_mib := 512, spec_cpu_millis := 1000,
      spec_stop := \<lparr>stop_signal = ''SIGINT'', stop_grace_seconds = 30\<rparr>\<rparr>"
  have v: "spec_validate demo_spec = Inr ?t" by code_simp
  then have "spec_ok ?t" using spec_validated[of demo_spec ?t] by blast
  with v show ?thesis by (intro exI[of _ ?t]) simp
qed

text \<open>
  The limits are exact: a spec is its own validation if and only if it is within all of them,
  so nothing within the limits is refused.
\<close>

theorem spec_validate_exact: "spec_validate t = Inr t \<longleftrightarrow> spec_ok t"
  using spec_validate_ok spec_validate_again by blast

end
