(* ===== verification/Settings.thy ===== *)
theory Settings
  imports App_Spec Image Labels
begin

text \<open>
  The settings of an app (\<open>AppSettings\<close> and \<open>PlacementRules\<close> of
  \<open>grund-config/src/app/spec.rs\<close>): the validation of what was asked for, the settings written
  back as input, and the change of the number of copies; then what validated settings are.
\<close>

section \<open>The input\<close>

definition MAX_COPIES :: nat where "MAX_COPIES = 20"
definition MAX_RELATED_APPS :: nat where "MAX_RELATED_APPS = 10"

record settings_input =
  inp_copies :: "nat option"
  inp_max_surge :: "nat option"
  inp_max_unavailable :: "nat option"
  inp_min_ready_seconds :: "nat option"
  inp_ready_deadline_seconds :: "nat option"
  inp_drain_seconds :: "nat option"
  inp_machines :: "string list"
  inp_reschedule_after_seconds :: "nat option"
  inp_auto_rollback :: "bool option"
  inp_labels :: "(string \<times> string) list"
  inp_kind :: string
  inp_spread_by :: string
  inp_near :: "string list"
  inp_apart :: "string list"

definition settings_input_default :: settings_input where
  "settings_input_default =
     \<lparr>inp_copies = None, inp_max_surge = None, inp_max_unavailable = None,
      inp_min_ready_seconds = None, inp_ready_deadline_seconds = None, inp_drain_seconds = None,
      inp_machines = [], inp_reschedule_after_seconds = None, inp_auto_rollback = None,
      inp_labels = [], inp_kind = [], inp_spread_by = [], inp_near = [], inp_apart = []\<rparr>"

definition positive_or :: "nat option \<Rightarrow> nat \<Rightarrow> nat" where
  "positive_or x d = (case x of None \<Rightarrow> d | Some n \<Rightarrow> if 0 < n then n else d)"

section \<open>Placement rules\<close>

definition machine_kind_parse :: "string \<Rightarrow> machine_kind option" where
  "machine_kind_parse text =
     (let t = trim text in
      if t = ''own'' then Some Own else if t = ''hosted'' then Some Hosted else None)"

definition placement_rules_is_default :: "placement_rules \<Rightarrow> bool" where
  "placement_rules_is_default rules \<longleftrightarrow> rules = placement_rules_default"

definition rules_kind :: "string \<Rightarrow> spec_error + machine_kind option" where
  "rules_kind text =
     (let text = trim text in
      if text = [] then Inr None
      else case machine_kind_parse text of
          None \<Rightarrow> refuse ''placement.kind'' ''use own or hosted''
        | Some k \<Rightarrow> Inr (Some k))"

definition rules_spread_by :: "string \<Rightarrow> spec_error + string option" where
  "rules_spread_by text =
     (let text = trim text in
      if text = [] then Inr None
      else case label_key text of
          Inl e \<Rightarrow> refuse ''placement.spread_by'' (label_error_text e)
        | Inr k \<Rightarrow> Inr (Some k))"

definition related_report :: "string \<Rightarrow> nat \<Rightarrow> spec_error \<Rightarrow> spec_error" where
  "related_report field i e =
     \<lparr>spec_field = ''placement.'' @ field @ ''['' @ show_nat i @ '']'', spec_problem = spec_problem e\<rparr>"

definition related :: "string \<Rightarrow> string list \<Rightarrow> spec_error + string list" where
  "related field names =
     and_then (collect_names app_name_parse (related_report field) 0 names []) (\<lambda>out.
       if length out > MAX_RELATED_APPS then
         refuse (''placement.'' @ field) (''name at most '' @ show_nat MAX_RELATED_APPS @ '' apps'')
       else Inr out)"

definition rules_labels :: "(string \<times> string) list \<Rightarrow> spec_error + labels" where
  "rules_labels pairs =
     (case labels_of pairs of
        Inl e \<Rightarrow> refuse ''placement.labels'' (label_error_text e)
      | Inr ls \<Rightarrow> Inr ls)"

definition placement_rules_validate :: "settings_input \<Rightarrow> spec_error + placement_rules" where
  "placement_rules_validate input =
     and_then (rules_labels (inp_labels input)) (\<lambda>labels.
     and_then (rules_kind (inp_kind input)) (\<lambda>kind.
     and_then (rules_spread_by (inp_spread_by input)) (\<lambda>spread_by.
     and_then (related ''near'' (inp_near input)) (\<lambda>near.
     and_then (related ''apart'' (inp_apart input)) (\<lambda>apart.
     case List.find (\<lambda>n. n \<in> set apart) near of
       Some both \<Rightarrow>
         refuse ''placement.apart'' (both @ '' is also in near; name it in one of them'')
     | None \<Rightarrow>
         Inr \<lparr>rule_labels = labels, rule_kind = kind, rule_spread_by = spread_by,
              rule_near = near, rule_apart = apart\<rparr>)))))"

section \<open>Settings\<close>

definition machines_report :: "nat \<Rightarrow> name_error \<Rightarrow> spec_error" where
  "machines_report i e =
     \<lparr>spec_field = ''machines['' @ show_nat i @ '']'', spec_problem = name_error_text e\<rparr>"

definition settings_rollout :: "settings_input \<Rightarrow> rollout_settings" where
  "settings_rollout input =
     (let defaults = rollout_settings_default in
      \<lparr>max_surge = unwrap_or (inp_max_surge input) (max_surge defaults),
       max_unavailable = unwrap_or (inp_max_unavailable input) (max_unavailable defaults),
       min_ready_seconds = unwrap_or (inp_min_ready_seconds input) (min_ready_seconds defaults),
       ready_deadline_seconds =
         positive_or (inp_ready_deadline_seconds input) (ready_deadline_seconds defaults),
       drain_seconds = unwrap_or (inp_drain_seconds input) (drain_seconds defaults)\<rparr>)"

definition settings_validate :: "settings_input \<Rightarrow> spec_error + app_settings" where
  "settings_validate input =
     (let defaults = app_settings_default;
          copies = positive_or (inp_copies input) (set_copies defaults) in
      if copies > MAX_COPIES then refuse ''copies'' (''use 1 to '' @ show_nat MAX_COPIES) else
      let rollout = settings_rollout input in
      if max_surge rollout > copies then
        refuse ''rollout.max_surge'' ''use at most the number of copies''
      else if max_unavailable rollout \<ge> max copies 1 \<and> max_unavailable rollout > 0 then
        refuse ''rollout.max_unavailable'' ''use fewer than the number of copies''
      else if max_surge rollout = 0 \<and> max_unavailable rollout = 0 then
        refuse ''rollout''
          ''max_surge and max_unavailable cannot both be 0: nothing could be replaced''
      else if min_ready_seconds rollout > 600 then
        refuse ''rollout.min_ready_seconds'' ''use at most 600''
      else if \<not> (10 \<le> ready_deadline_seconds rollout \<and> ready_deadline_seconds rollout \<le> 1800) then
        refuse ''rollout.ready_deadline_seconds'' ''use 10 to 1800''
      else if drain_seconds rollout > 300 then refuse ''rollout.drain_seconds'' ''use at most 300''
      else
      let after = positive_or (inp_reschedule_after_seconds input) (set_reschedule_after_seconds defaults) in
      if \<not> (30 \<le> after \<and> after \<le> 3600) then refuse ''reschedule_after_seconds'' ''use 30 to 3600''
      else
        and_then (collect_names machine_name_parse machines_report 0 (inp_machines input) []) (\<lambda>machines.
        if length machines > 50 then refuse ''machines'' ''name at most 50 machines''
        else
          and_then (placement_rules_validate input) (\<lambda>placement.
          Inr \<lparr>set_copies = copies, set_rollout = rollout, set_machines = machines,
               set_reschedule_after_seconds = after,
               set_auto_rollback = unwrap_or (inp_auto_rollback input) True,
               set_placement = placement\<rparr>)))"

definition as_input :: "app_settings \<Rightarrow> settings_input" where
  "as_input s =
     \<lparr>inp_copies = Some (set_copies s),
      inp_max_surge = Some (max_surge (set_rollout s)),
      inp_max_unavailable = Some (max_unavailable (set_rollout s)),
      inp_min_ready_seconds = Some (min_ready_seconds (set_rollout s)),
      inp_ready_deadline_seconds = Some (ready_deadline_seconds (set_rollout s)),
      inp_drain_seconds = Some (drain_seconds (set_rollout s)),
      inp_machines = set_machines s,
      inp_reschedule_after_seconds = Some (set_reschedule_after_seconds s),
      inp_auto_rollback = Some (set_auto_rollback s),
      inp_labels = rule_labels (set_placement s),
      inp_kind = unwrap_or (map_option machine_kind_as_str (rule_kind (set_placement s))) [],
      inp_spread_by = unwrap_or (rule_spread_by (set_placement s)) [],
      inp_near = rule_near (set_placement s),
      inp_apart = rule_apart (set_placement s)\<rparr>"

definition with_copies :: "app_settings \<Rightarrow> nat \<Rightarrow> spec_error + app_settings" where
  "with_copies s copies =
     (if \<not> (1 \<le> copies \<and> copies \<le> MAX_COPIES) then
        refuse ''copies'' (''use 1 to '' @ show_nat MAX_COPIES)
      else
        let input = (as_input s)\<lparr>inp_copies := Some copies\<rparr>;
            input = (if is_some_and (inp_max_surge input) (\<lambda>m. m > copies)
              then input\<lparr>inp_max_surge := Some (min copies (max (max_surge (set_rollout s)) 1))\<rparr>
              else input);
            input = (if is_some_and (inp_max_unavailable input) (\<lambda>u. u \<ge> copies)
              then input\<lparr>inp_max_unavailable := Some (copies - 1)\<rparr>
              else input)
        in settings_validate input)"

section \<open>What validated settings are\<close>

definition names_ok :: "(string \<Rightarrow> 'e + string) \<Rightarrow> string list \<Rightarrow> bool" where
  "names_ok parse ns \<longleftrightarrow> list_all (\<lambda>n. parse n = Inr n) ns \<and> distinct ns"

definition placement_ok :: "placement_rules \<Rightarrow> bool" where
  "placement_ok p \<longleftrightarrow>
     labels_wf (rule_labels p) \<and> is_none_or (rule_spread_by p) (\<lambda>k. label_key k = Inr k) \<and>
     names_ok app_name_parse (rule_near p) \<and> length (rule_near p) \<le> 10 \<and>
     names_ok app_name_parse (rule_apart p) \<and> length (rule_apart p) \<le> 10 \<and>
     set (rule_near p) \<inter> set (rule_apart p) = {}"

definition rollout_ok :: "nat \<Rightarrow> rollout_settings \<Rightarrow> bool" where
  "rollout_ok copies r \<longleftrightarrow>
     max_surge r \<le> copies \<and> max_unavailable r < copies \<and>
     (max_surge r \<noteq> 0 \<or> max_unavailable r \<noteq> 0) \<and>
     min_ready_seconds r \<le> 600 \<and> 10 \<le> ready_deadline_seconds r \<and>
     ready_deadline_seconds r \<le> 1800 \<and> drain_seconds r \<le> 300"

definition settings_ok :: "app_settings \<Rightarrow> bool" where
  "settings_ok s \<longleftrightarrow>
     1 \<le> set_copies s \<and> set_copies s \<le> 20 \<and> rollout_ok (set_copies s) (set_rollout s) \<and>
     30 \<le> set_reschedule_after_seconds s \<and> set_reschedule_after_seconds s \<le> 3600 \<and>
     names_ok machine_name_parse (set_machines s) \<and> length (set_machines s) \<le> 50 \<and>
     placement_ok (set_placement s)"

lemma positive_or_pos: "0 < d \<Longrightarrow> 0 < positive_or x d"
  by (simp add: positive_or_def split: option.splits)

lemma positive_or_id [simp]: "0 < n \<Longrightarrow> positive_or (Some n) d = n"
  by (simp add: positive_or_def)

lemma related_ok: "related f names = Inr out \<Longrightarrow> names_ok app_name_parse out \<and> length out \<le> 10"
  using app_name.collect_normal[of "related_report f" 0 names "[]" out]
  by (auto simp: related_def and_then_Inr names_ok_def MAX_RELATED_APPS_def split: if_splits)

lemma related_again:
  "names_ok app_name_parse ns \<Longrightarrow> length ns \<le> 10 \<Longrightarrow> related f ns = Inr ns"
  using app_name.collect_again[of ns "[]" "related_report f" 0]
  by (simp add: related_def names_ok_def MAX_RELATED_APPS_def)

lemma placement_rules_validate_ok:
  assumes "placement_rules_validate input = Inr p"
  shows "placement_ok p"
proof -
  from assms obtain ls k sp near apart where
    ls: "rules_labels (inp_labels input) = Inr ls" and sp: "rules_spread_by (inp_spread_by input) = Inr sp" and
    rel: "related ''near'' (inp_near input) = Inr near" "related ''apart'' (inp_apart input) = Inr apart" and
    dj: "List.find (\<lambda>n. n \<in> set apart) near = None" and
    p: "p = \<lparr>rule_labels = ls, rule_kind = k, rule_spread_by = sp, rule_near = near, rule_apart = apart\<rparr>"
    by (auto simp: placement_rules_validate_def and_then_Inr split: option.splits)
  have "labels_wf ls" using ls labels_of_wf by (auto simp: rules_labels_def split: sum.splits)
  moreover have "is_none_or sp (\<lambda>k. label_key k = Inr k)"
    using sp label_key.parse_again
    by (auto simp: rules_spread_by_def Let_def split: sum.splits if_splits)
  ultimately show ?thesis
    using related_ok rel dj by (auto simp: placement_ok_def p find_None_iff)
qed

lemma rules_spread_by_again:
  assumes "is_none_or sp (\<lambda>k. label_key k = Inr k)"
  shows "rules_spread_by (unwrap_or sp []) = Inr sp"
proof (cases sp)
  case None
  have "trim [] = []" by (rule trim_id) simp
  with None show ?thesis by (simp add: rules_spread_by_def)
next
  case (Some k)
  with assms have k: "label_key k = Inr k" by simp
  then have "trim k = k" "k \<noteq> []" by (auto simp: label_key_def Let_def split: if_splits)
  with k Some show ?thesis by (simp add: rules_spread_by_def)
qed

lemma rules_kind_again: "rules_kind (unwrap_or (map_option machine_kind_as_str k) []) = Inr k"
proof -
  have "rules_kind [] = Inr None" "rules_kind ''own'' = Inr (Some Own)"
    "rules_kind ''hosted'' = Inr (Some Hosted)" by code_simp+
  then show ?thesis
    by (cases k) (auto simp: machine_kind_as_str_def split: machine_kind.splits)
qed

lemma placement_rules_validate_again:
  assumes "placement_ok (set_placement s)"
  shows "placement_rules_validate ((as_input s)\<lparr>inp_copies := c, inp_max_surge := ms, inp_max_unavailable := mu\<rparr>)
    = Inr (set_placement s)"
proof -
  let ?p = "set_placement s"
  have "rules_labels (rule_labels ?p) = Inr (rule_labels ?p)"
    using assms labels_of_again by (simp add: rules_labels_def placement_ok_def)
  moreover have "related ''near'' (rule_near ?p) = Inr (rule_near ?p)"
    "related ''apart'' (rule_apart ?p) = Inr (rule_apart ?p)"
    using assms related_again by (simp_all add: placement_ok_def)
  moreover have "List.find (\<lambda>n. n \<in> set (rule_apart ?p)) (rule_near ?p) = None"
    using assms by (auto simp: placement_ok_def find_None_iff)
  ultimately show ?thesis
    using assms rules_spread_by_again rules_kind_again
    by (simp add: placement_rules_validate_def as_input_def placement_ok_def)
qed

lemma settings_validate_ok:
  assumes "settings_validate input = Inr s"
  shows "settings_ok s"
proof -
  let ?c = "positive_or (inp_copies input) 1"
  let ?r = "settings_rollout input"
  let ?a = "positive_or (inp_reschedule_after_seconds input) 120"
  from assms obtain ms p where
    c: "?c \<le> 20" and r: "max_surge ?r \<le> ?c"
      "\<not> (max_unavailable ?r \<ge> max ?c 1 \<and> max_unavailable ?r > 0)"
      "\<not> (max_surge ?r = 0 \<and> max_unavailable ?r = 0)" "min_ready_seconds ?r \<le> 600"
      "10 \<le> ready_deadline_seconds ?r" "ready_deadline_seconds ?r \<le> 1800" "drain_seconds ?r \<le> 300" and
    a: "30 \<le> ?a" "?a \<le> 3600" and
    ms: "collect_names machine_name_parse machines_report 0 (inp_machines input) [] = Inr ms" "length ms \<le> 50" and
    p: "placement_rules_validate input = Inr p" and
    s: "s = \<lparr>set_copies = ?c, set_rollout = ?r, set_machines = ms, set_reschedule_after_seconds = ?a,
               set_auto_rollback = unwrap_or (inp_auto_rollback input) True, set_placement = p\<rparr>"
    by (auto simp: settings_validate_def Let_def app_settings_default_def MAX_COPIES_def and_then_Inr not_less
        split: if_splits)
  have "1 \<le> ?c" using positive_or_pos[of 1] by (simp add: Suc_le_eq)
  moreover have "rollout_ok ?c ?r" using r \<open>1 \<le> ?c\<close> by (auto simp: rollout_ok_def)
  moreover have "names_ok machine_name_parse ms"
    using machine_name.collect_normal[OF ms(1)] by (simp add: names_ok_def)
  ultimately show ?thesis
    using c a ms(2) placement_rules_validate_ok[OF p] by (simp add: settings_ok_def s)
qed

section \<open>Writing settings back\<close>

lemma settings_validate_scaled:
  assumes s: "settings_ok s" and c: "1 \<le> c" "c \<le> 20"
    and r: "rollout_ok c ((set_rollout s)\<lparr>max_surge := m, max_unavailable := u\<rparr>)"
  shows "settings_validate
      ((as_input s)\<lparr>inp_copies := Some c, inp_max_surge := Some m, inp_max_unavailable := Some u\<rparr>) =
    Inr (s\<lparr>set_copies := c, set_rollout := (set_rollout s)\<lparr>max_surge := m, max_unavailable := u\<rparr>\<rparr>)"
proof -
  let ?i = "(as_input s)\<lparr>inp_copies := Some c, inp_max_surge := Some m, inp_max_unavailable := Some u\<rparr>"
  have "0 < ready_deadline_seconds (set_rollout s)" using r by (simp add: rollout_ok_def)
  then have ro: "settings_rollout ?i = (set_rollout s)\<lparr>max_surge := m, max_unavailable := u\<rparr>"
    by (simp add: settings_rollout_def as_input_def Let_def)
  have ms: "collect_names machine_name_parse machines_report 0 (set_machines s) [] = Inr (set_machines s)"
    using s machine_name.collect_again[of "set_machines s" "[]"] by (simp add: settings_ok_def names_ok_def)
  have p: "placement_rules_validate ?i = Inr (set_placement s)"
    using s by (intro placement_rules_validate_again) (simp add: settings_ok_def)
  have after: "0 < set_reschedule_after_seconds s" using s by (simp add: settings_ok_def)
  have fields: "inp_copies ?i = Some c" "inp_machines ?i = set_machines s"
    "inp_reschedule_after_seconds ?i = Some (set_reschedule_after_seconds s)"
    "inp_auto_rollback ?i = Some (set_auto_rollback s)"
    by (simp_all add: as_input_def)
  show ?thesis
    unfolding settings_validate_def ro fields p ms
    using s r c after by (auto simp: settings_ok_def rollout_ok_def MAX_COPIES_def Let_def)
qed

lemma with_copies_input:
  assumes "1 \<le> n" "n \<le> 20"
  shows "with_copies s n = settings_validate ((as_input s)\<lparr>inp_copies := Some n,
      inp_max_surge := Some (min (max_surge (set_rollout s)) n),
      inp_max_unavailable := Some (min (max_unavailable (set_rollout s)) (n - 1))\<rparr>)"
proof -
  have "(if m > n then min n (max m 1) else m) = min m n" for m using assms by auto
  moreover have "(if u \<ge> n then n - 1 else u) = min u (n - 1)" for u using assms by auto
  moreover have "(as_input s)\<lparr>inp_copies := c\<rparr> = (as_input s)\<lparr>inp_copies := c,
      inp_max_surge := Some (max_surge (set_rollout s)),
      inp_max_unavailable := Some (max_unavailable (set_rollout s))\<rparr>" for c
    by (simp add: as_input_def)
  ultimately show ?thesis
    using assms unfolding with_copies_def MAX_COPIES_def Let_def
    by (auto simp: as_input_def)
qed

lemma settings_written_back:
  assumes "settings_validate input = Inr s"
  shows "settings_validate (as_input s) = Inr s"
proof -
  have s: "settings_ok s" by (rule settings_validate_ok[OF assms])
  let ?r = "set_rollout s"
  have "settings_validate ((as_input s)\<lparr>inp_copies := Some (set_copies s),
      inp_max_surge := Some (max_surge ?r), inp_max_unavailable := Some (max_unavailable ?r)\<rparr>) =
      Inr (s\<lparr>set_copies := set_copies s,
        set_rollout := ?r\<lparr>max_surge := max_surge ?r, max_unavailable := max_unavailable ?r\<rparr>\<rparr>)"
    by (rule settings_validate_scaled[OF s]) (use s in \<open>auto simp: settings_ok_def\<close>)
  then show ?thesis by (simp add: as_input_def)
qed

text \<open>
  The settings of an app survive being written back: what \<open>validate\<close> returned is within every
  limit, and its \<open>as_input\<close> validates to exactly the same settings, placement rules included.
  So reading settings out and storing them again changes nothing.
\<close>

theorem settings_round_trip:
  assumes "settings_validate input = Inr s"
  shows "settings_ok s \<and> settings_validate (as_input s) = Inr s"
  using settings_validate_ok[OF assms] settings_written_back[OF assms] by blast

definition demo_input :: settings_input where
  "demo_input = settings_input_default\<lparr>inp_copies := Some 3, inp_max_surge := Some 0,
     inp_max_unavailable := Some 1, inp_machines := [''Alpha'', ''beta'', ''alpha''],
     inp_labels := [(''zone'', ''a'')], inp_kind := ''own'', inp_near := [''db'']\<rparr>"

definition demo_settings :: app_settings where
  "demo_settings =
     \<lparr>set_copies = 3, set_rollout = rollout_settings_default\<lparr>max_surge := 0, max_unavailable := 1\<rparr>,
      set_machines = [''alpha'', ''beta''], set_reschedule_after_seconds = 120,
      set_auto_rollback = True,
      set_placement = \<lparr>rule_labels = [(''zone'', ''a'')], rule_kind = Some Own, rule_spread_by = None,
        rule_near = [''db''], rule_apart = []\<rparr>\<rparr>"

lemma demo_settings_validated: "settings_validate demo_input = Inr demo_settings" by code_simp

theorem settings_round_trip_witness:
  "settings_validate (as_input demo_settings) = Inr demo_settings \<and>
   set_machines demo_settings = [''alpha'', ''beta'']"
  using settings_round_trip[OF demo_settings_validated] by (simp add: demo_settings_def)

text \<open>
  Scaling validated settings to any allowed number of copies succeeds and changes only what it
  must: the surge and the unavailability are lowered to what the new number permits. The one
  exception is an app that replaces copies in place (surge 0) scaled to a single copy.
\<close>

theorem scaling_keeps_settings:
  assumes "settings_validate input = Inr s" "1 \<le> n" "n \<le> 20"
    and "\<not> (max_surge (set_rollout s) = 0 \<and> n = 1)"
  shows "with_copies s n = Inr (s\<lparr>set_copies := n, set_rollout := (set_rollout s)
     \<lparr>max_surge := min (max_surge (set_rollout s)) n,
      max_unavailable := min (max_unavailable (set_rollout s)) (n - 1)\<rparr>\<rparr>)"
  unfolding with_copies_input[OF assms(2,3)]
  by (rule settings_validate_scaled[OF settings_validate_ok[OF assms(1)] assms(2,3)])
    (use settings_validate_ok[OF assms(1)] assms in \<open>auto simp: settings_ok_def rollout_ok_def min_def\<close>)

theorem scaling_keeps_settings_witness:
  "with_copies demo_settings 2 = Inr (demo_settings\<lparr>set_copies := 2\<rparr>)"
  using scaling_keeps_settings[OF demo_settings_validated, of 2]
  by (simp add: demo_settings_def rollout_settings_default_def)

text \<open>
  An app that replaces copies in place (surge 0) cannot be scaled to one copy: \<open>with_copies\<close>
  lowers its unavailability to 0 and then refuses the pair it made.
\<close>

theorem scaling_in_place_to_one:
  assumes "settings_validate input = Inr s" "max_surge (set_rollout s) = 0"
  shows "with_copies s 1 = refuse ''rollout''
    ''max_surge and max_unavailable cannot both be 0: nothing could be replaced''"
proof -
  have s: "settings_ok s" by (rule settings_validate_ok[OF assms(1)])
  let ?i = "(as_input s)\<lparr>inp_copies := Some 1, inp_max_surge := Some 0, inp_max_unavailable := Some 0\<rparr>"
  have "with_copies s 1 = settings_validate ?i"
    using assms(2) with_copies_input[of 1 s] by simp
  also have "\<dots> = refuse ''rollout''
      ''max_surge and max_unavailable cannot both be 0: nothing could be replaced''"
    by (simp add: settings_validate_def Let_def settings_rollout_def as_input_def MAX_COPIES_def)
  finally show ?thesis .
qed

theorem scaling_in_place_to_one_witness:
  "with_copies demo_settings 1 = refuse ''rollout''
     ''max_surge and max_unavailable cannot both be 0: nothing could be replaced''"
  using scaling_in_place_to_one[OF demo_settings_validated] by (simp add: demo_settings_def)

end
