(* ===== verification/Domain_Name.thy ===== *)
theory Domain_Name
  imports Names
begin

text \<open>
  The name of a custom domain (\<open>DomainName\<close> of \<open>grund-domain/src/custom_domain.rs\<close>): its parser,
  the place of the verification record, and the test whether a name is under another.
\<close>

section \<open>The code\<close>

definition VERIFICATION_LABEL :: string where
  "VERIFICATION_LABEL = ''_grund''"

definition MAX_NAME_BYTES :: nat where
  "MAX_NAME_BYTES = 253"

datatype domain_name_error =
  DN_Empty | DN_TooLong | DN_NotAscii | DN_Wildcard | DN_NotAName | DN_OneLabel | DN_BadLabel | DN_BadTld

definition dns_label_ok :: "string \<Rightarrow> bool" where
  "dns_label_ok label \<longleftrightarrow>
     1 \<le> length label \<and> length label \<le> 63 \<and> list_all slug_byte label \<and>
     \<not> starts_with ''-'' label \<and> \<not> ends_with ''-'' label"

definition tld_ok :: "string \<Rightarrow> bool" where
  "tld_ok tld \<longleftrightarrow> 2 \<le> length tld \<and> (list_all is_ascii_lowercase tld \<or> starts_with ''xn--'' tld)"

definition without_root :: "string \<Rightarrow> string" where
  "without_root s = (case strip_suffix ''.'' s of None \<Rightarrow> s | Some t \<Rightarrow> t)"

definition domain_name_parse :: "string \<Rightarrow> domain_name_error + string" where
  "domain_name_parse input =
     (let name = without_root (trim input) in
      if name = [] then Inl DN_Empty
      else if \<not> is_ascii name then Inl DN_NotAscii
      else if CHR ''*'' \<in> set name then Inl DN_Wildcard
      else if list_ex (\<lambda>c. c \<in> set ''/:@ ?#'') name then Inl DN_NotAName
      else if length name > MAX_NAME_BYTES then Inl DN_TooLong
      else
        let name = to_ascii_lowercase name; labels = split CHR ''.'' name in
        if length labels < 2 then Inl DN_OneLabel
        else if \<not> list_all dns_label_ok labels then Inl DN_BadLabel
        else if \<not> tld_ok (last labels) then Inl DN_BadTld
        else Inr name)"

definition verification_name :: "string \<Rightarrow> string" where
  "verification_name name = VERIFICATION_LABEL @ ''.'' @ name"

definition is_within :: "string \<Rightarrow> string \<Rightarrow> bool" where
  "is_within name parent \<longleftrightarrow>
     (let parent = to_ascii_lowercase (trim_end_matches CHR ''.'' parent) in
      parent \<noteq> [] \<and>
      (name = parent \<or> is_some_and (strip_suffix parent name) (\<lambda>rest. ends_with ''.'' rest)))"

section \<open>What a parsed name is\<close>

definition domain_name_ok :: "string \<Rightarrow> bool" where
  "domain_name_ok n \<longleftrightarrow>
     length n \<le> MAX_NAME_BYTES \<and> 2 \<le> length (split CHR ''.'' n) \<and>
     list_all dns_label_ok (split CHR ''.'' n) \<and> tld_ok (last (split CHR ''.'' n))"

lemma domain_name_parse_ok: "domain_name_parse s = Inr n \<Longrightarrow> domain_name_ok n"
  by (auto simp: domain_name_parse_def domain_name_ok_def Let_def split: if_splits)

lemma split_chars: "c \<in> set s \<Longrightarrow> c = d \<or> (\<exists>q\<in>set (split d s). c \<in> set q)"
  unfolding split_def by (rule split_by_chars)

lemma domain_name_chars:
  assumes "domain_name_ok n" "c \<in> set n"
  shows "slug_byte c \<or> c = CHR ''.''"
  using split_chars[OF assms(2), of "CHR ''.''"] assms(1)
  by (auto simp: domain_name_ok_def dns_label_ok_def list_all_iff)

lemma split_append: "split c (s @ c # t) = split c s @ split c t"
  by (induction s) (auto simp: split_def split: list.splits)

lemma domain_name_no_dot_end:
  assumes "domain_name_ok n"
  shows "\<not> ends_with ''.'' n" "n \<noteq> []"
proof -
  have ne: "list_all (\<lambda>l. l \<noteq> []) (split CHR ''.'' n)"
    using assms by (auto simp: domain_name_ok_def dns_label_ok_def list_all_iff)
  show "\<not> ends_with ''.'' n"
  proof
    assume "ends_with ''.'' n"
    then obtain t where "n = t @ ''.''" by (auto simp: ends_with_iff)
    then have "[] \<in> set (split CHR ''.'' n)" by (simp add: split_append) (simp add: split_def)
    with ne show False by (auto simp: list_all_iff)
  qed
  show "n \<noteq> []"
    using assms by (auto simp: domain_name_ok_def split_def)
qed

lemma domain_name_again:
  assumes "domain_name_ok n"
  shows "domain_name_parse n = Inr n"
proof -
  note chars = domain_name_chars[OF assms]
  have "list_all visible n"
    using chars slug_visible by (fastforce simp: list_all_iff visible_def byte_def)
  then have "trim n = n" by (rule trim_visible)
  moreover have "strip_suffix ''.'' n = None"
    using domain_name_no_dot_end(1)[OF assms] strip_suffix_Some[of "''.''" n]
    by (cases "strip_suffix ''.'' n") (auto simp: ends_with_iff)
  moreover have "to_ascii_lowercase n = n"
    by (rule to_ascii_lowercase_id)
      (use chars slug_visible in \<open>fastforce simp: list_all_iff is_ascii_uppercase_def byte_def\<close>)
  moreover have "is_ascii n"
    using \<open>list_all visible n\<close> by (auto simp: is_ascii_def list_all_iff visible_def)
  moreover have "CHR ''*'' \<notin> set n" "\<not> list_ex (\<lambda>c. c \<in> set ''/:@ ?#'') n"
    by (auto simp: list_ex_iff slug_byte_def is_ascii_lowercase_def is_ascii_digit_def byte_def dest!: chars)
  ultimately show ?thesis
    using assms domain_name_no_dot_end(2)[OF assms]
    by (simp add: domain_name_parse_def without_root_def domain_name_ok_def Let_def)
qed

interpretation domain_name: normaliser domain_name_parse
  by unfold_locales (rule domain_name_again[OF domain_name_parse_ok])

section \<open>A name under another\<close>

lemma trim_end_matches_id: "\<not> ends_with [c] s \<Longrightarrow> trim_end_matches c s = s"
  by (cases s rule: rev_cases) (auto simp: trim_end_matches_def ends_with_iff)

lemma is_within_parsed:
  assumes "domain_name_ok p"
  shows "is_within n p \<longleftrightarrow> n = p \<or> (\<exists>t. n = t @ ''.'' @ p)"
proof -
  have "trim_end_matches CHR ''.'' p = p"
    by (rule trim_end_matches_id) (rule domain_name_no_dot_end[OF assms])
  moreover have "to_ascii_lowercase p = p"
    by (rule to_ascii_lowercase_id)
      (use domain_name_chars[OF assms] slug_visible in
        \<open>fastforce simp: list_all_iff is_ascii_uppercase_def byte_def\<close>)
  ultimately show ?thesis
    using domain_name_no_dot_end(2)[OF assms]
    by (auto simp: is_within_def Let_def is_some_and_iff strip_suffix_Some ends_with_iff)
qed

lemma split_suffix:
  assumes "split c n = ls @ split c p" "ls \<noteq> []"
  shows "\<exists>t. n = t @ [c] @ p"
proof -
  have "n = join [c] (ls @ split c p)" using join_split[of c n] assms(1) by simp
  also have "\<dots> = join [c] ls @ [c] @ join [c] (split c p)"
    using assms(2)
  proof (induction ls)
    case (Cons l ls)
    have "split c p \<noteq> []" by (simp add: split_def)
    with Cons show ?case by (cases "ls = []") (simp_all add: join_Cons)
  qed simp
  finally show ?thesis by (auto simp: join_split)
qed

text \<open>
  \<open>is_within\<close> decides DNS ancestry: a name is within a domain exactly when its labels end with
  the domain's labels. A string that merely ends alike (\<open>notexample.com\<close>, \<open>example.com\<close>) is not.
\<close>

theorem is_within_labels:
  assumes "domain_name_parse s = Inr parent"
  shows "is_within n parent \<longleftrightarrow>
    (\<exists>ls. split CHR ''.'' n = ls @ split CHR ''.'' parent)"
proof -
  have "is_within n parent \<longleftrightarrow> n = parent \<or> (\<exists>t. n = t @ ''.'' @ parent)"
    by (rule is_within_parsed[OF domain_name_parse_ok[OF assms]])
  also have "\<dots> \<longleftrightarrow> (\<exists>ls. split CHR ''.'' n = ls @ split CHR ''.'' parent)"
  proof
    assume "n = parent \<or> (\<exists>t. n = t @ ''.'' @ parent)"
    then show "\<exists>ls. split CHR ''.'' n = ls @ split CHR ''.'' parent"
      by (auto simp: split_append)
  next
    assume "\<exists>ls. split CHR ''.'' n = ls @ split CHR ''.'' parent"
    then obtain ls where ls: "split CHR ''.'' n = ls @ split CHR ''.'' parent" by blast
    show "n = parent \<or> (\<exists>t. n = t @ ''.'' @ parent)"
    proof (cases "ls = []")
      case True
      then have "join ''.'' (split CHR ''.'' n) = join ''.'' (split CHR ''.'' parent)" using ls by simp
      then show ?thesis by (simp add: join_split)
    qed (use split_suffix[OF ls] in auto)
  qed
  finally show ?thesis .
qed

theorem is_within_labels_witness:
  "is_within ''shop.example.com'' ''example.com'' \<and> \<not> is_within ''notexample.com'' ''example.com''"
proof -
  have p: "domain_name_parse '' Example.COM. '' = Inr ''example.com''" by code_simp
  have "split CHR ''.'' ''shop.example.com'' = [''shop''] @ split CHR ''.'' ''example.com''" by code_simp
  moreover have "split CHR ''.'' ''notexample.com'' = [''notexample'', ''com'']"
    "split CHR ''.'' ''example.com'' = [''example'', ''com'']" by code_simp+
  ultimately show ?thesis
    unfolding is_within_labels[OF p] by (auto simp: append_eq_Cons_conv)
qed

end
