(* ===== verification/Custom_Domain.thy ===== *)
theory Custom_Domain
  imports Domain_Name
begin

text \<open>
  The custom domain aggregate (\<open>grund-domain/src/custom_domain.rs\<close>): a name an organisation
  added, its proof of ownership, the namespace it offers for app addresses, and the app it is
  bound to; with the addresses generated under a verified parent.
\<close>

section \<open>State and events\<close>

datatype domain_event =
  DE_Added uuid string string uuid time
| DE_Verified uuid time
| DE_AppDomainEnabled uuid time
| DE_GeneratedFromParent uuid string uuid time uuid time
| DE_GeneratedReassigned uuid uuid uuid time
| DE_AppDomainAllocationSet bool uuid time
| DE_Bound uuid uuid time
| DE_Unbound uuid uuid time
| DE_Removed uuid time

record domain =
  d_exists :: bool
  d_organisation :: uuid
  d_name :: "string option"
  d_token :: string
  d_verified_at :: "time option"
  d_app :: "uuid option"
  d_removed :: bool
  d_is_app_domain :: bool
  d_parent_id :: "uuid option"
  d_parent :: "string option"
  d_managed_app :: "uuid option"
  d_assignment_disabled :: bool

definition domain_default :: domain where
  "domain_default =
     \<lparr>d_exists = False, d_organisation = 0, d_name = None, d_token = [], d_verified_at = None,
      d_app = None, d_removed = False, d_is_app_domain = False, d_parent_id = None, d_parent = None,
      d_managed_app = None, d_assignment_disabled = False\<rparr>"

record app_domain_authority =
  auth_organisation :: uuid
  auth_parent_id :: uuid
  auth_parent :: string
  auth_verified_at :: time

datatype domain_error =
  Dom_AlreadyExists | Dom_NotFound | Dom_NotVerified | Dom_InvalidAuthority | Dom_ManagedAppMismatch
| Dom_InvalidGeneratedName

fun domain_apply :: "domain \<Rightarrow> domain_event \<Rightarrow> domain" where
  "domain_apply d (DE_Added organisation name token _ _) =
     d\<lparr>d_exists := True, d_organisation := organisation, d_name := Some name, d_token := token\<rparr>"
| "domain_apply d (DE_Verified _ at) = d\<lparr>d_verified_at := Some at\<rparr>"
| "domain_apply d (DE_AppDomainEnabled _ _) = d\<lparr>d_is_app_domain := True\<rparr>"
| "domain_apply d (DE_GeneratedFromParent parent_id parent app _ _ _) =
     d\<lparr>d_parent_id := Some parent_id, d_parent := Some parent, d_managed_app := Some app\<rparr>"
| "domain_apply d (DE_GeneratedReassigned _ app _ _) =
     (let d = d\<lparr>d_managed_app := Some app\<rparr>
      in if d_app d \<noteq> None then d\<lparr>d_app := Some app\<rparr> else d)"
| "domain_apply d (DE_AppDomainAllocationSet enabled _ _) = d\<lparr>d_assignment_disabled := \<not> enabled\<rparr>"
| "domain_apply d (DE_Bound app _ _) = d\<lparr>d_app := Some app\<rparr>"
| "domain_apply d (DE_Unbound _ _ _) = d\<lparr>d_app := None\<rparr>"
| "domain_apply d (DE_Removed _ _) = d\<lparr>d_removed := True, d_app := None\<rparr>"

text \<open>The parent's authority, captured by the service before it generates a name.\<close>

definition capture_authority :: "domain \<Rightarrow> uuid \<Rightarrow> domain_error + app_domain_authority" where
  "capture_authority d parent_id =
     (if \<not> d_exists d \<or> d_removed d then Inl Dom_NotFound
      else case d_verified_at d of
        None \<Rightarrow> Inl Dom_NotVerified
      | Some at \<Rightarrow>
          if \<not> d_is_app_domain d \<or> d_parent_id d \<noteq> None then Inl Dom_InvalidAuthority
          else case d_name d of
            None \<Rightarrow> Inl Dom_InvalidAuthority
          | Some name \<Rightarrow>
              Inr \<lparr>auth_organisation = d_organisation d, auth_parent_id = parent_id,
                   auth_parent = name, auth_verified_at = at\<rparr>)"

section \<open>Commands\<close>

datatype domain_command =
  DC_Add uuid uuid string string time
| DC_EnableAppDomain uuid time
| DC_Generate uuid uuid string string app_domain_authority uuid time
| DC_Verify uuid time
| DC_Bind uuid uuid time
| DC_ReassignGenerated uuid uuid uuid time
| DC_Unbind uuid time
| DC_UnbindForAppDeletion uuid time
| DC_Remove uuid time

type_synonym domain_result = "domain_error + domain_event list"

definition add_domain :: "uuid \<Rightarrow> uuid \<Rightarrow> string \<Rightarrow> string \<Rightarrow> time \<Rightarrow> domain \<Rightarrow> domain_result" where
  "add_domain actor organisation name token at d =
     (if d_exists d then Inl Dom_AlreadyExists else Inr [DE_Added organisation name token actor at])"

definition generated_label :: "string \<Rightarrow> string \<Rightarrow> string option" where
  "generated_label name parent = Option.bind (strip_suffix parent name) (strip_suffix ''.'')"

definition generated_label_ok :: "string \<Rightarrow> bool" where
  "generated_label_ok label \<longleftrightarrow>
     label \<noteq> [] \<and> CHR ''.'' \<notin> set label \<and> label \<notin> {''_grund'', ''_acme-challenge'', ''*''}"

definition generate_domain ::
  "uuid \<Rightarrow> uuid \<Rightarrow> string \<Rightarrow> string \<Rightarrow> app_domain_authority \<Rightarrow> uuid \<Rightarrow> time \<Rightarrow> domain \<Rightarrow> domain_result" where
  "generate_domain actor organisation name token authority app at d =
     (if d_exists d then Inl Dom_AlreadyExists
      else if auth_organisation authority \<noteq> organisation then Inl Dom_InvalidAuthority
      else if \<not> is_some_and (generated_label name (auth_parent authority)) generated_label_ok
      then Inl Dom_InvalidGeneratedName
      else Inr
        [DE_Added organisation name token actor at,
         DE_GeneratedFromParent (auth_parent_id authority) (auth_parent authority) app
           (auth_verified_at authority) actor at,
         DE_Verified actor at,
         DE_Bound app actor at])"

definition enable_app_domain :: "uuid \<Rightarrow> time \<Rightarrow> domain \<Rightarrow> domain_result" where
  "enable_app_domain actor at d =
     (if d_parent_id d \<noteq> None then Inl Dom_InvalidAuthority
      else if d_verified_at d = None then Inl Dom_NotVerified
      else if d_is_app_domain d then Inr []
      else Inr [DE_AppDomainEnabled actor at])"

definition verify_domain :: "uuid \<Rightarrow> time \<Rightarrow> domain \<Rightarrow> domain_result" where
  "verify_domain actor at d =
     (case d_verified_at d of Some _ \<Rightarrow> Inr [] | None \<Rightarrow> Inr [DE_Verified actor at])"

definition reassign_generated :: "uuid \<Rightarrow> uuid \<Rightarrow> uuid \<Rightarrow> time \<Rightarrow> domain \<Rightarrow> domain_result" where
  "reassign_generated actor expected app at d =
     (if d_parent_id d = None \<or> d_managed_app d \<noteq> Some expected \<or>
         is_some_and (d_app d) (\<lambda>bound. bound \<noteq> expected)
      then Inl Dom_ManagedAppMismatch
      else if expected = app then Inr []
      else Inr [DE_GeneratedReassigned expected app actor at])"

definition bind_domain :: "uuid \<Rightarrow> uuid \<Rightarrow> time \<Rightarrow> domain \<Rightarrow> domain_result" where
  "bind_domain actor app at d =
     (if d_verified_at d = None then Inl Dom_NotVerified
      else if is_some_and (d_managed_app d) (\<lambda>managed. managed \<noteq> app)
      then Inl Dom_ManagedAppMismatch
      else Inr
        ((if d_assignment_disabled d then [DE_AppDomainAllocationSet True actor at] else []) @
         (if d_app d \<noteq> Some app then [DE_Bound app actor at] else [])))"

definition unbinding :: "uuid \<Rightarrow> time \<Rightarrow> domain \<Rightarrow> domain_event list" where
  "unbinding actor at d = (case d_app d of Some app \<Rightarrow> [DE_Unbound app actor at] | None \<Rightarrow> [])"

definition opting_out :: "uuid \<Rightarrow> time \<Rightarrow> domain \<Rightarrow> domain_event list" where
  "opting_out actor at d =
     (if d_parent_id d \<noteq> None \<and> \<not> d_assignment_disabled d
      then [DE_AppDomainAllocationSet False actor at] else [])"

definition domain_handle_live :: "domain_command \<Rightarrow> domain \<Rightarrow> domain_result" where
  "domain_handle_live c d =
     (case c of
        DC_EnableAppDomain actor at \<Rightarrow> enable_app_domain actor at d
      | DC_Verify actor at \<Rightarrow> verify_domain actor at d
      | DC_ReassignGenerated actor expected app at \<Rightarrow> reassign_generated actor expected app at d
      | DC_Bind actor app at \<Rightarrow> bind_domain actor app at d
      | DC_Unbind actor at \<Rightarrow> Inr (unbinding actor at d @ opting_out actor at d)
      | DC_UnbindForAppDeletion actor at \<Rightarrow> Inr (unbinding actor at d)
      | DC_Remove actor at \<Rightarrow>
          Inr (unbinding actor at d @ opting_out actor at d @ [DE_Removed actor at])
      | DC_Add _ _ _ _ _ \<Rightarrow> Inl Dom_AlreadyExists
      | DC_Generate _ _ _ _ _ _ _ \<Rightarrow> Inl Dom_AlreadyExists)"

text \<open>Adding and generating return early; the two last cases above are never reached.\<close>

definition domain_handle :: "domain_command \<Rightarrow> domain \<Rightarrow> domain_result" where
  "domain_handle c d =
     (case c of
        DC_Add actor organisation name token at \<Rightarrow> add_domain actor organisation name token at d
      | DC_Generate actor organisation name token authority app at \<Rightarrow>
          generate_domain actor organisation name token authority app at d
      | _ \<Rightarrow>
          if \<not> d_exists d \<or> d_removed d then Inl Dom_NotFound else domain_handle_live c d)"

lemmas domain_handlers =
  domain_handle_def domain_handle_live_def add_domain_def generate_domain_def enable_app_domain_def
  verify_domain_def reassign_generated_def bind_domain_def unbinding_def opting_out_def

section \<open>The invariant\<close>

definition domain_fresh :: "domain \<Rightarrow> bool" where
  "domain_fresh d \<longleftrightarrow>
     d_verified_at d = None \<and> d_app d = None \<and> \<not> d_removed d \<and> \<not> d_is_app_domain d \<and>
     d_parent_id d = None \<and> d_managed_app d = None \<and> \<not> d_assignment_disabled d"

definition domain_inv :: "domain \<Rightarrow> bool" where
  "domain_inv d \<longleftrightarrow>
     (\<not> d_exists d \<longrightarrow> domain_fresh d) \<and>
     (d_exists d \<longleftrightarrow> d_name d \<noteq> None) \<and>
     (d_parent_id d = None \<longleftrightarrow> d_managed_app d = None) \<and>
     (d_parent_id d \<noteq> None \<longrightarrow> d_verified_at d \<noteq> None \<and> \<not> d_is_app_domain d) \<and>
     (d_is_app_domain d \<longrightarrow> d_verified_at d \<noteq> None) \<and>
     (\<forall>app. d_app d = Some app \<longrightarrow>
        d_verified_at d \<noteq> None \<and> \<not> d_removed d \<and> \<not> d_assignment_disabled d \<and>
        (d_managed_app d = None \<or> d_managed_app d = Some app)) \<and>
     (d_assignment_disabled d \<longrightarrow> d_parent_id d \<noteq> None)"

lemma domain_inv_handle:
  assumes "domain_inv d" "domain_handle c d = Inr es"
  shows "domain_inv (fold_events domain_apply d es)"
  using assms
  by (cases c; clarsimp simp: domain_handlers domain_inv_def domain_fresh_def is_some_and_iff Let_def
      split: if_splits option.splits)

interpretation custom_domain: event_sourced domain_apply domain_handle domain_inv domain_default
  by unfold_locales (simp add: domain_inv_def domain_fresh_def domain_default_def, rule domain_inv_handle)

section \<open>Properties\<close>

text \<open>What a stream of commands leaves, from the domain as it is before its first event.\<close>

definition domain_after :: "domain_command list \<Rightarrow> domain" where
  "domain_after cs = run_commands domain_apply domain_handle domain_default cs"

lemma domain_after_inv: "domain_inv (domain_after cs)"
  unfolding domain_after_def by (rule custom_domain.inv_run)

text \<open>The name of a generated domain is one label below its parent's.\<close>

definition generated_name_ok :: "domain \<Rightarrow> bool" where
  "generated_name_ok d \<longleftrightarrow>
     is_none_or (d_parent d) (\<lambda>parent.
       is_some_and (d_name d) (\<lambda>name.
         is_some_and (generated_label name parent) generated_label_ok)) \<and>
     (\<not> d_exists d \<longrightarrow> d_parent d = None)"

interpretation generated_name: event_sourced_stable domain_apply domain_handle domain_inv domain_default
  generated_name_ok
proof
  fix d c es
  assume "generated_name_ok d" "domain_handle c d = Inr es"
  then show "generated_name_ok (fold_events domain_apply d es)"
    by (cases c; clarsimp simp: domain_handlers generated_name_ok_def is_none_or_iff is_some_and_iff Let_def
      split: if_splits option.splits)
qed

text \<open>
  C17: A domain serves an app only while it is verified and not removed, and a domain generated
  under a parent serves only the app it was generated for. A generated name is the parent's name
  with exactly one label before it, never one the platform reserves, and does not offer a
  namespace of its own.
\<close>

theorem domain_serves_rightly:
  "is_none_or (d_app (domain_after cs)) (\<lambda>app.
     d_verified_at (domain_after cs) \<noteq> None \<and> \<not> d_removed (domain_after cs) \<and>
     d_managed_app (domain_after cs) \<in> {None, Some app} \<and>
     (d_parent_id (domain_after cs) = None \<longleftrightarrow> d_managed_app (domain_after cs) = None)) \<and>
   generated_name_ok (domain_after cs)"
proof
  show "generated_name_ok (domain_after cs)"
    unfolding domain_after_def
    by (rule generated_name.fact_run_from)
      (simp_all add: domain_inv_def domain_fresh_def domain_default_def generated_name_ok_def)
qed (use domain_after_inv[of cs] in \<open>auto simp: domain_inv_def is_none_or_iff\<close>)

fun is_reassignment :: "domain_event \<Rightarrow> bool" where
  "is_reassignment (DE_GeneratedReassigned _ _ _ _) = True"
| "is_reassignment _ = False"

definition managed_by :: "uuid \<Rightarrow> domain \<Rightarrow> bool" where
  "managed_by app d \<longleftrightarrow> d_exists d \<and> d_managed_app d = Some app"

lemma managed_by_step:
  "domain_inv d \<Longrightarrow> managed_by a d \<Longrightarrow> domain_handle c d = Inr es \<Longrightarrow>
   \<forall>e\<in>set es. \<not> is_reassignment e \<Longrightarrow> managed_by a (fold_events domain_apply d es)"
  by (cases c; clarsimp simp: domain_handlers managed_by_def Let_def split: if_splits option.splits)

lemma reassignment_expected:
  "domain_handle c d = Inr es \<Longrightarrow> e \<in> set es \<Longrightarrow> is_reassignment e \<Longrightarrow>
   \<exists>actor app at. c = DC_ReassignGenerated actor (the (d_managed_app d)) app at"
  by (cases c; auto simp: domain_handlers split: if_splits option.splits)

text \<open>
  A generated address cannot be taken over. Whatever is asked of it, it stays with the app it
  was generated for and is bound to that app or to none, until a reassignment happens; and a
  reassignment happens only to a caller who names the app that has it.
\<close>

theorem generated_stays:
  assumes "d_managed_app (domain_after cs) = Some app"
    and "\<forall>e\<in>set (run_events domain_apply domain_handle (domain_after cs) ds). \<not> is_reassignment e"
  shows "d_managed_app (domain_after (cs @ ds)) = Some app \<and>
    d_app (domain_after (cs @ ds)) \<in> {None, Some app} \<and>
    (\<forall>actor expected new at. expected \<noteq> app \<longrightarrow>
       domain_handle (DC_ReassignGenerated actor expected new at) (domain_after (cs @ ds))
         \<in> {Inl Dom_NotFound, Inl Dom_ManagedAppMismatch})"
proof -
  let ?d = "domain_after cs"
  have inv: "domain_inv ?d" by (rule domain_after_inv)
  then have "managed_by app ?d" using assms(1) by (auto simp: managed_by_def domain_inv_def domain_fresh_def)
  then have "managed_by app (run_commands domain_apply domain_handle ?d ds)"
    using assms(2)
    by (intro custom_domain.holds_until[where P = "managed_by app" and ends = is_reassignment, OF _ inv])
      (auto intro: managed_by_step)
  moreover have "domain_after (cs @ ds) = run_commands domain_apply domain_handle ?d ds"
    by (simp add: domain_after_def run_commands_append)
  ultimately have m: "managed_by app (domain_after (cs @ ds))" by simp
  moreover have "d_app (domain_after (cs @ ds)) \<in> {None, Some app}"
    using domain_after_inv[of "cs @ ds"] m by (cases "d_app (domain_after (cs @ ds))") (auto simp: domain_inv_def managed_by_def)
  ultimately show ?thesis
    by (auto simp: managed_by_def domain_handlers)
qed

definition demo_authority :: app_domain_authority where
  "demo_authority =
     \<lparr>auth_organisation = 1, auth_parent_id = 5, auth_parent = ''apps.example.com'', auth_verified_at = 0\<rparr>"

definition demo_generate :: domain_command where
  "demo_generate = DC_Generate 9 1 ''shop.apps.example.com'' ''t'' demo_authority 7 10"

theorem generated_stays_witness:
  "d_app (domain_after [demo_generate, DC_Bind 9 8 11, DC_Unbind 9 12, DC_ReassignGenerated 9 8 6 13]) = None \<and>
   d_managed_app (domain_after [demo_generate, DC_Bind 9 8 11, DC_Unbind 9 12, DC_ReassignGenerated 9 8 6 13]) = Some 7"
proof -
  have 1: "d_managed_app (domain_after [demo_generate]) = Some 7" by code_simp
  have 2: "list_all (\<lambda>e. \<not> is_reassignment e) (run_events domain_apply domain_handle (domain_after [demo_generate])
      [DC_Bind 9 8 11, DC_Unbind 9 12, DC_ReassignGenerated 9 8 6 13])" by code_simp
  have 3: "d_app (domain_after [demo_generate, DC_Bind 9 8 11, DC_Unbind 9 12, DC_ReassignGenerated 9 8 6 13]) = None"
    by code_simp
  show ?thesis
    using generated_stays[OF 1 2[unfolded list_all_iff]] 3 by simp
qed

end
