(* ===== verification/Organisation.thy ===== *)
theory Organisation
  imports Prelude
begin

text \<open>
  The organisation aggregate (\<open>grund-domain/src/organisation.rs\<close>): members and their roles,
  invitations with their expiry, renaming, and the deletion that waits on billing.
\<close>

section \<open>Roles\<close>

datatype role = Member | Admin | Owner

fun role_rank :: "role \<Rightarrow> nat" where
  "role_rank Member = 0"
| "role_rank Admin = 1"
| "role_rank Owner = 2"

lemma role_rank_inject [simp]: "role_rank r = role_rank s \<longleftrightarrow> r = s"
  by (cases r; cases s) simp_all

instantiation role :: linorder
begin

definition less_eq_role :: "role \<Rightarrow> role \<Rightarrow> bool" where
  "less_eq_role r s \<longleftrightarrow> role_rank r \<le> role_rank s"

definition less_role :: "role \<Rightarrow> role \<Rightarrow> bool" where
  "less_role r s \<longleftrightarrow> role_rank r < role_rank s"

instance
  by standard (auto simp: less_eq_role_def less_role_def dest: antisym)

end

definition role_as_str :: "role \<Rightarrow> string" where
  "role_as_str r = (case r of Owner \<Rightarrow> ''owner'' | Admin \<Rightarrow> ''admin'' | Member \<Rightarrow> ''member'')"

definition role_parse :: "string \<Rightarrow> role option" where
  "role_parse text =
     (if text = ''owner'' then Some Owner else if text = ''admin'' then Some Admin
      else if text = ''member'' then Some Member else None)"

definition manages_members :: "role \<Rightarrow> bool" where
  "manages_members r \<longleftrightarrow> r \<ge> Admin"

lemma manages_members_iff: "manages_members r \<longleftrightarrow> r = Admin \<or> r = Owner"
  by (cases r) (simp_all add: manages_members_def less_eq_role_def)

section \<open>State and events\<close>

definition INVITATION_TTL :: duration where
  "INVITATION_TTL = seconds (7 * 86400)"

definition MAX_PENDING_INVITATIONS :: nat where
  "MAX_PENDING_INVITATIONS = 50"

datatype organisation_kind = Personal | Shared | Instance

definition organisation_kind_as_str :: "organisation_kind \<Rightarrow> string" where
  "organisation_kind_as_str k =
     (case k of Personal \<Rightarrow> ''personal'' | Shared \<Rightarrow> ''shared'' | Instance \<Rightarrow> ''instance'')"

datatype departure = Removed | Left_it
datatype withdrawal = Revoked | Replaced | Declined

datatype organisation_event =
  OE_Created string organisation_kind uuid time
| OE_MemberAdded uuid role time
| OE_MemberRoleChanged uuid role uuid time
| OE_MemberRemoved uuid departure uuid time
| OE_InvitationIssued uuid string role uuid time time
| OE_InvitationWithdrawn uuid withdrawal uuid time
| OE_InvitationAccepted uuid uuid time
| OE_Renamed string string uuid time
| OE_DeletionRequested uuid uuid uuid time
| OE_DeletionCancelled uuid string "uuid option" time
| OE_Deleted uuid uuid time

record member =
  mem_account :: uuid
  mem_role :: role

record pending_invitation =
  inv_id :: uuid
  inv_email_digest :: string
  inv_role :: role
  inv_expires_at :: time

record pending_deletion =
  del_request :: uuid
  del_requested_by :: uuid

record organisation =
  org_exists :: bool
  org_slug :: "string option"
  org_members :: "member list"
  org_invitations :: "pending_invitation list"
  org_deleted :: bool
  org_pending_deletion :: "pending_deletion option"

definition organisation_default :: organisation where
  "organisation_default =
     \<lparr>org_exists = False, org_slug = None, org_members = [], org_invitations = [],
      org_deleted = False, org_pending_deletion = None\<rparr>"

definition role_of :: "organisation \<Rightarrow> uuid \<Rightarrow> role option" where
  "role_of org account = map_option mem_role (List.find (\<lambda>m. mem_account m = account) (org_members org))"

definition owners :: "organisation \<Rightarrow> nat" where
  "owners org = length (filter (\<lambda>m. mem_role m = Owner) (org_members org))"

definition open_invitation :: "organisation \<Rightarrow> uuid \<Rightarrow> time \<Rightarrow> pending_invitation option" where
  "open_invitation org i at =
     List.find (\<lambda>v. inv_id v = i \<and> inv_expires_at v > at) (org_invitations org)"

definition open_invitations :: "organisation \<Rightarrow> time \<Rightarrow> pending_invitation list" where
  "open_invitations org at = filter (\<lambda>v. inv_expires_at v > at) (org_invitations org)"

text \<open>Adding a member who is one already changes the role, and so does a role change.\<close>

definition put_member :: "uuid \<Rightarrow> role \<Rightarrow> member list \<Rightarrow> member list" where
  "put_member account r ms =
     (if list_ex (\<lambda>m. mem_account m = account) ms
      then update_first (\<lambda>m. mem_account m = account) (\<lambda>m. m\<lparr>mem_role := r\<rparr>) ms
      else ms @ [\<lparr>mem_account = account, mem_role = r\<rparr>])"

fun organisation_apply :: "organisation \<Rightarrow> organisation_event \<Rightarrow> organisation" where
  "organisation_apply org (OE_Created slug _ _ _) = org\<lparr>org_exists := True, org_slug := Some slug\<rparr>"
| "organisation_apply org (OE_MemberAdded account r _) =
     org\<lparr>org_members := put_member account r (org_members org)\<rparr>"
| "organisation_apply org (OE_MemberRoleChanged account r _ _) =
     org\<lparr>org_members := put_member account r (org_members org)\<rparr>"
| "organisation_apply org (OE_MemberRemoved account _ _ _) =
     org\<lparr>org_members := filter (\<lambda>m. mem_account m \<noteq> account) (org_members org)\<rparr>"
| "organisation_apply org (OE_InvitationIssued i digest r _ issued expires) =
     org\<lparr>org_invitations := filter (\<lambda>v. inv_expires_at v > issued) (org_invitations org) @
        [\<lparr>inv_id = i, inv_email_digest = digest, inv_role = r, inv_expires_at = expires\<rparr>]\<rparr>"
| "organisation_apply org (OE_InvitationWithdrawn i _ _ _) =
     org\<lparr>org_invitations := filter (\<lambda>v. inv_id v \<noteq> i) (org_invitations org)\<rparr>"
| "organisation_apply org (OE_InvitationAccepted i _ _) =
     org\<lparr>org_invitations := filter (\<lambda>v. inv_id v \<noteq> i) (org_invitations org)\<rparr>"
| "organisation_apply org (OE_Renamed _ new_slug _ _) = org\<lparr>org_slug := Some new_slug\<rparr>"
| "organisation_apply org (OE_DeletionRequested request _ by _) =
     org\<lparr>org_pending_deletion := Some \<lparr>del_request = request, del_requested_by = by\<rparr>\<rparr>"
| "organisation_apply org (OE_DeletionCancelled _ _ _ _) = org\<lparr>org_pending_deletion := None\<rparr>"
| "organisation_apply org (OE_Deleted _ _ _) =
     org\<lparr>org_deleted := True, org_pending_deletion := None, org_members := [], org_invitations := []\<rparr>"

section \<open>Commands\<close>

datatype organisation_command =
  OC_Create string organisation_kind uuid time
| OC_Invite uuid uuid string role time
| OC_RevokeInvitation uuid uuid time
| OC_DeclineInvitation uuid uuid string time
| OC_AcceptInvitation uuid uuid string time
| OC_ChangeRole uuid uuid role time
| OC_RemoveMember uuid uuid time
| OC_Rename uuid string time
| OC_RequestDeletion uuid uuid uuid time
| OC_CancelDeletion uuid "uuid option" string time
| OC_Delete uuid time

datatype organisation_error =
  Org_AlreadyExists | Org_NotFound | Org_NotAllowed | Org_NoSuchMember | Org_LastOwner
| Org_NoSuchInvitation | Org_WrongAddress | Org_AlreadyMember | Org_TooManyInvitations
| Org_OwnerByInvitation

type_synonym organisation_result = "organisation_error + organisation_event list"

definition owning :: "organisation \<Rightarrow> uuid \<Rightarrow> organisation_error + unit" where
  "owning org actor = (if role_of org actor = Some Owner then Inr () else Inl Org_NotAllowed)"

definition managing :: "organisation \<Rightarrow> uuid \<Rightarrow> organisation_error + role" where
  "managing org actor =
     (case role_of org actor of
        Some r \<Rightarrow> if manages_members r then Inr r else Inl Org_NotAllowed
      | None \<Rightarrow> Inl Org_NotAllowed)"

definition create_organisation ::
  "string \<Rightarrow> organisation_kind \<Rightarrow> uuid \<Rightarrow> time \<Rightarrow> organisation \<Rightarrow> organisation_result" where
  "create_organisation slug kind owner at org =
     (if org_exists org then Inl Org_AlreadyExists
      else Inr [OE_Created slug kind owner at, OE_MemberAdded owner Owner at])"

definition invite ::
  "uuid \<Rightarrow> uuid \<Rightarrow> string \<Rightarrow> role \<Rightarrow> time \<Rightarrow> organisation \<Rightarrow> organisation_result" where
  "invite actor i digest r at org =
     and_then (managing org actor) (\<lambda>_.
       if r = Owner then Inl Org_OwnerByInvitation
       else
         let replaced =
           map inv_id (filter (\<lambda>v. inv_email_digest v = digest) (open_invitations org at));
           n = length (open_invitations org at) - length replaced
         in
         if n \<ge> MAX_PENDING_INVITATIONS then Inl Org_TooManyInvitations
         else Inr
           (map (\<lambda>j. OE_InvitationWithdrawn j Replaced actor at) replaced @
            [OE_InvitationIssued i digest r actor at (at + INVITATION_TTL)]))"

definition revoke_invitation :: "uuid \<Rightarrow> uuid \<Rightarrow> time \<Rightarrow> organisation \<Rightarrow> organisation_result" where
  "revoke_invitation actor i at org =
     and_then (managing org actor) (\<lambda>_.
       if open_invitation org i at = None then Inl Org_NoSuchInvitation
       else Inr [OE_InvitationWithdrawn i Revoked actor at])"

definition decline_invitation ::
  "uuid \<Rightarrow> uuid \<Rightarrow> string \<Rightarrow> time \<Rightarrow> organisation \<Rightarrow> organisation_result" where
  "decline_invitation i account digest at org =
     (case open_invitation org i at of
        None \<Rightarrow> Inl Org_NoSuchInvitation
      | Some v \<Rightarrow>
          if inv_email_digest v \<noteq> digest then Inl Org_WrongAddress
          else Inr [OE_InvitationWithdrawn i Declined account at])"

definition accept_invitation ::
  "uuid \<Rightarrow> uuid \<Rightarrow> string \<Rightarrow> time \<Rightarrow> organisation \<Rightarrow> organisation_result" where
  "accept_invitation i account digest at org =
     (case open_invitation org i at of
        None \<Rightarrow> Inl Org_NoSuchInvitation
      | Some v \<Rightarrow>
          if inv_email_digest v \<noteq> digest then Inl Org_WrongAddress
          else if role_of org account \<noteq> None then Inl Org_AlreadyMember
          else Inr [OE_InvitationAccepted i account at, OE_MemberAdded account (inv_role v) at])"

definition change_role ::
  "uuid \<Rightarrow> uuid \<Rightarrow> role \<Rightarrow> time \<Rightarrow> organisation \<Rightarrow> organisation_result" where
  "change_role actor account r at org =
     and_then (managing org actor) (\<lambda>actor_role.
       case role_of org account of
         None \<Rightarrow> Inl Org_NoSuchMember
       | Some current \<Rightarrow>
           if current = r then Inr []
           else if (current = Owner \<or> r = Owner) \<and> actor_role \<noteq> Owner then Inl Org_NotAllowed
           else if current = Owner \<and> owners org = 1 then Inl Org_LastOwner
           else Inr [OE_MemberRoleChanged account r actor at])"

definition remove_departure :: "uuid \<Rightarrow> uuid \<Rightarrow> role \<Rightarrow> organisation \<Rightarrow> organisation_error + departure" where
  "remove_departure actor account current org =
     (if actor = account then Inr Left_it
      else and_then (managing org actor) (\<lambda>actor_role.
        if current = Owner \<and> actor_role \<noteq> Owner then Inl Org_NotAllowed else Inr Removed))"

definition remove_member :: "uuid \<Rightarrow> uuid \<Rightarrow> time \<Rightarrow> organisation \<Rightarrow> organisation_result" where
  "remove_member actor account at org =
     (case role_of org account of
        None \<Rightarrow> Inl Org_NoSuchMember
      | Some current \<Rightarrow>
          and_then (remove_departure actor account current org) (\<lambda>departure.
            if current = Owner \<and> owners org = 1 then Inl Org_LastOwner
            else Inr [OE_MemberRemoved account departure actor at]))"

definition rename_organisation :: "uuid \<Rightarrow> string \<Rightarrow> time \<Rightarrow> organisation \<Rightarrow> organisation_result" where
  "rename_organisation actor slug at org =
     and_then (owning org actor) (\<lambda>_.
       case org_slug org of
         None \<Rightarrow> Inl Org_NotFound
       | Some old \<Rightarrow> if old = slug then Inr [] else Inr [OE_Renamed old slug actor at])"

definition request_deletion ::
  "uuid \<Rightarrow> uuid \<Rightarrow> uuid \<Rightarrow> time \<Rightarrow> organisation \<Rightarrow> organisation_result" where
  "request_deletion actor organisation_id request at org =
     and_then (owning org actor) (\<lambda>_.
       if org_pending_deletion org \<noteq> None then Inr []
       else Inr [OE_DeletionRequested request organisation_id actor at])"

definition cancel_deletion ::
  "uuid \<Rightarrow> uuid option \<Rightarrow> string \<Rightarrow> time \<Rightarrow> organisation \<Rightarrow> organisation_result" where
  "cancel_deletion request actor reason at org =
     and_then (case actor of Some a \<Rightarrow> owning org a | None \<Rightarrow> Inr ()) (\<lambda>_.
       if is_some_and (org_pending_deletion org) (\<lambda>p. del_request p = request)
       then Inr [OE_DeletionCancelled request reason actor at] else Inr [])"

definition delete_organisation :: "uuid \<Rightarrow> time \<Rightarrow> organisation \<Rightarrow> organisation_result" where
  "delete_organisation request at org =
     (case org_pending_deletion org of
        Some p \<Rightarrow>
          if del_request p = request then Inr [OE_Deleted request (del_requested_by p) at] else Inr []
      | None \<Rightarrow> Inr [])"

definition organisation_handle :: "organisation_command \<Rightarrow> organisation \<Rightarrow> organisation_result" where
  "organisation_handle c org =
     (case c of
        OC_Create slug kind owner at \<Rightarrow> create_organisation slug kind owner at org
      | _ \<Rightarrow>
          if \<not> org_exists org \<or> org_deleted org then Inl Org_NotFound
          else case c of
            OC_Create slug kind owner at \<Rightarrow> create_organisation slug kind owner at org
          | OC_Invite actor i digest r at \<Rightarrow> invite actor i digest r at org
          | OC_RevokeInvitation actor i at \<Rightarrow> revoke_invitation actor i at org
          | OC_DeclineInvitation i account digest at \<Rightarrow> decline_invitation i account digest at org
          | OC_AcceptInvitation i account digest at \<Rightarrow> accept_invitation i account digest at org
          | OC_ChangeRole actor account r at \<Rightarrow> change_role actor account r at org
          | OC_RemoveMember actor account at \<Rightarrow> remove_member actor account at org
          | OC_Rename actor slug at \<Rightarrow> rename_organisation actor slug at org
          | OC_RequestDeletion actor i request at \<Rightarrow> request_deletion actor i request at org
          | OC_CancelDeletion request actor reason at \<Rightarrow> cancel_deletion request actor reason at org
          | OC_Delete request at \<Rightarrow> delete_organisation request at org)"

end
