(* ===== verification/Organisation_Props.thy ===== *)
theory Organisation_Props
  imports Organisation
begin

text \<open>
  What holds of an organisation whatever its members do: it has an owner, nobody acts beyond their
  role (each change of a role, an invitation, the name and the deletion was warranted by the actor's
  role or the addressee's own answer), and invitations stay bounded and give no ownership.
\<close>

section \<open>Roles as a map\<close>

definition role_map :: "member list \<Rightarrow> uuid \<rightharpoonup> role" where
  "role_map ms = map_of (map (\<lambda>m. (mem_account m, mem_role m)) ms)"

lemma role_of_map: "role_of org = role_map (org_members org)"
proof
  have "map_option mem_role (List.find (\<lambda>m. mem_account m = a) ms) = role_map ms a" for a ms
    unfolding role_map_def by (induction ms) auto
  then show "role_of org a = role_map (org_members org) a" for a by (simp add: role_of_def)
qed

lemma role_map_put: "role_map (put_member a r ms) = (role_map ms)(a \<mapsto> r)"
proof
  fix x
  show "role_map (put_member a r ms) x = ((role_map ms)(a \<mapsto> r)) x"
  proof (cases "list_ex (\<lambda>m. mem_account m = a) ms")
    case True
    then show ?thesis
      unfolding put_member_def role_map_def by (induction ms) auto
  next
    case False
    then show ?thesis
      unfolding put_member_def role_map_def by (induction ms) auto
  qed
qed

lemma role_map_filter: "role_map (filter (\<lambda>m. mem_account m \<noteq> a) ms) = (role_map ms)(a := None)"
  unfolding role_map_def by (induction ms) auto

lemma role_map_Nil [simp]: "role_map [] = Map.empty"
  by (simp add: role_map_def)

lemma put_member_accounts: "set (map mem_account (put_member a r ms)) = insert a (mem_account ` set ms)"
  unfolding put_member_def by (induction ms) auto

lemma put_member_distinct:
  "distinct (map mem_account ms) \<Longrightarrow> distinct (map mem_account (put_member a r ms))"
  unfolding put_member_def
  by (simp add: map_update_first) (auto simp: list_ex_iff)

lemma owners_card:
  assumes "distinct (map mem_account (org_members org))"
  shows "owners org = card {a. role_of org a = Some Owner}"
proof -
  let ?os = "filter (\<lambda>m. mem_role m = Owner) (org_members org)"
  have "{a. role_of org a = Some Owner} = mem_account ` set ?os"
    using assms unfolding role_of_map role_map_def
    by (auto simp: map_of_eq_Some_iff comp_def image_iff)
  also have "card \<dots> = length (map mem_account ?os)"
    using distinct_card[of "map mem_account ?os"] distinct_map_filter[OF assms, of "\<lambda>m. mem_role m = Owner"]
    by simp
  finally show ?thesis by (simp add: owners_def)
qed

lemma another_owner:
  assumes "distinct (map mem_account (org_members org))" "role_of org a = Some Owner" "owners org \<noteq> 1"
  shows "\<exists>b. b \<noteq> a \<and> role_of org b = Some Owner"
proof (rule ccontr)
  assume "\<not> ?thesis"
  then have "{b. role_of org b = Some Owner} = {a}" using assms(2) by auto
  then show False using owners_card[OF assms(1)] assms(3) by simp
qed

section \<open>The invariant\<close>

definition members_wf :: "organisation \<Rightarrow> bool" where
  "members_wf org \<longleftrightarrow>
     distinct (map mem_account (org_members org)) \<and>
     (if org_exists org \<and> \<not> org_deleted org then \<exists>a. role_of org a = Some Owner
      else org_members org = [] \<and> org_invitations org = [])"

definition invitations_wf :: "organisation \<Rightarrow> bool" where
  "invitations_wf org \<longleftrightarrow>
     length (org_invitations org) \<le> MAX_PENDING_INVITATIONS \<and>
     (\<forall>v\<in>set (org_invitations org). inv_role v \<noteq> Owner)"

definition organisation_inv :: "organisation \<Rightarrow> bool" where
  "organisation_inv org \<longleftrightarrow>
     members_wf org \<and> invitations_wf org \<and> (org_exists org \<longleftrightarrow> org_slug org \<noteq> None) \<and>
     (\<not> org_exists org \<longrightarrow> \<not> org_deleted org \<and> org_pending_deletion org = None)"

lemma open_invitation_in: "open_invitation org i at = Some v \<Longrightarrow> v \<in> set (org_invitations org) \<and> inv_id v = i \<and> inv_expires_at v > at"
  by (auto simp: open_invitation_def dest: find_SomeD)

lemma withdrawn_fold:
  "fold_events organisation_apply org (map (\<lambda>j. OE_InvitationWithdrawn j w by at) js) =
   org\<lparr>org_invitations := filter (\<lambda>v. inv_id v \<notin> set js) (org_invitations org)\<rparr>"
  by (induction js arbitrary: org) (auto simp: conj_commute)

lemma filter_length_mono:
  "(\<And>x. x \<in> set xs \<Longrightarrow> P x \<Longrightarrow> Q x) \<Longrightarrow> length (filter P xs) \<le> length (filter Q xs)"
  by (induction xs) (auto simp: le_SucI)

lemma invite_bound:
  assumes "length (filter (\<lambda>v. inv_expires_at v > at) vs) -
      length (filter (\<lambda>v. inv_email_digest v = d) (filter (\<lambda>v. inv_expires_at v > at) vs)) < n"
  shows "length (filter (\<lambda>v. inv_expires_at v > at)
      (filter (\<lambda>v. inv_id v \<notin> set (map inv_id (filter (\<lambda>v. inv_email_digest v = d)
        (filter (\<lambda>v. inv_expires_at v > at) vs)))) vs)) < n"
proof -
  let ?o = "filter (\<lambda>v. inv_expires_at v > at) vs"
  let ?r = "filter (\<lambda>v. inv_email_digest v = d) ?o"
  have "filter (\<lambda>v. inv_expires_at v > at) (filter (\<lambda>v. inv_id v \<notin> set (map inv_id ?r)) vs) =
      filter (\<lambda>v. inv_id v \<notin> set (map inv_id ?r)) ?o"
    by (simp add: conj_commute)
  moreover have "length (filter (\<lambda>v. inv_id v \<notin> set (map inv_id ?r)) ?o) \<le>
      length (filter (\<lambda>v. \<not> inv_email_digest v = d) ?o)"
    by (rule filter_length_mono) (auto simp: rev_image_eqI)
  moreover have "length (filter (\<lambda>v. \<not> inv_email_digest v = d) ?o) = length ?o - length ?r"
    using sum_length_filter_compl[of "\<lambda>v. inv_email_digest v = d" ?o] by simp
  ultimately show ?thesis using assms by simp
qed

lemmas role_maps = role_of_map role_map_put role_map_filter

lemma live_members:
  "members_wf org \<Longrightarrow> org_exists org \<Longrightarrow> \<not> org_deleted org \<Longrightarrow>
   distinct (map mem_account (org_members org)) \<and> (\<exists>a. role_of org a = Some Owner)"
  by (simp add: members_wf_def)

lemma members_wf_put:
  assumes "members_wf org" "r = Owner \<or> role_of org a \<noteq> Some Owner \<or> owners org \<noteq> 1"
    "org_exists org" "\<not> org_deleted org"
  shows "members_wf (org\<lparr>org_members := put_member a r (org_members org)\<rparr>)"
proof -
  note live = live_members[OF assms(1,3,4)]
  have "\<exists>b. ((role_map (org_members org))(a \<mapsto> r)) b = Some Owner"
  proof (cases "r = Owner")
    case False
    then have "\<exists>b. b \<noteq> a \<and> role_of org b = Some Owner"
      using another_owner[OF conjunct1[OF live], of a] assms(2) live by metis
    then show ?thesis by (auto simp: role_of_map)
  qed auto
  then show ?thesis
    using assms live by (simp add: members_wf_def role_maps put_member_distinct)
qed

lemma members_wf_filter:
  assumes "members_wf org" "role_of org a \<noteq> Some Owner \<or> owners org \<noteq> 1"
    "org_exists org" "\<not> org_deleted org"
  shows "members_wf (org\<lparr>org_members := filter (\<lambda>m. mem_account m \<noteq> a) (org_members org)\<rparr>)"
proof -
  note live = live_members[OF assms(1,3,4)]
  have "\<exists>b. b \<noteq> a \<and> role_of org b = Some Owner"
    using another_owner[OF conjunct1[OF live], of a] assms(2) live by metis
  then show ?thesis
    using assms live by (auto simp: members_wf_def role_maps distinct_map_filter)
qed

lemma members_wf_other:
  "org_members org' = org_members org \<Longrightarrow> org_exists org' = org_exists org \<Longrightarrow>
   org_deleted org' = org_deleted org \<Longrightarrow> org_exists org \<Longrightarrow> \<not> org_deleted org \<Longrightarrow>
   members_wf org \<Longrightarrow> members_wf org'"
  by (simp add: members_wf_def role_of_map)

lemma invitations_wf_filter:
  assumes "invitations_wf org"
  shows "invitations_wf (org\<lparr>org_invitations := filter p (org_invitations org)\<rparr>)"
  using assms le_trans[OF length_filter_le[of p "org_invitations org"]]
  by (simp add: invitations_wf_def)

text \<open>The commands on a live organisation, one at a time.\<close>

definition live_inv :: "organisation \<Rightarrow> bool" where
  "live_inv org \<longleftrightarrow>
     org_exists org \<and> \<not> org_deleted org \<and> members_wf org \<and> invitations_wf org \<and> org_slug org \<noteq> None"

definition after_ok :: "organisation \<Rightarrow> organisation_event list \<Rightarrow> bool" where
  "after_ok org es \<longleftrightarrow> organisation_inv (fold_events organisation_apply org es)"

lemma live_organisation_inv: "live_inv org \<Longrightarrow> organisation_inv org"
  by (auto simp: live_inv_def organisation_inv_def)

lemma after_withdrawn: "live_inv org \<Longrightarrow> after_ok org [OE_InvitationWithdrawn i w by at]"
  using invitations_wf_filter[of org] members_wf_other[of _ org]
  by (auto simp: after_ok_def live_inv_def organisation_inv_def)

lemma after_invite:
  assumes "live_inv org" "invite actor i d r at org = Inr es"
  shows "after_ok org es"
proof -
  let ?rs = "map inv_id (filter (\<lambda>v. inv_email_digest v = d) (open_invitations org at))"
  have n: "length (open_invitations org at) - length ?rs < MAX_PENDING_INVITATIONS" and r: "r \<noteq> Owner"
    and es: "es = map (\<lambda>j. OE_InvitationWithdrawn j Replaced actor at) ?rs @
        [OE_InvitationIssued i d r actor at (at + INVITATION_TTL)]"
    using assms(2) by (auto simp: invite_def and_then_Inr Let_def split: if_splits)
  let ?kept = "filter (\<lambda>v. inv_expires_at v > at) (filter (\<lambda>v. inv_id v \<notin> set ?rs) (org_invitations org))"
  have "length ?kept < MAX_PENDING_INVITATIONS"
    using invite_bound[of at "org_invitations org" d] n by (simp add: open_invitations_def)
  moreover have "\<forall>v\<in>set ?kept. inv_role v \<noteq> Owner"
    using assms(1) by (auto simp: live_inv_def invitations_wf_def)
  moreover have "fold_events organisation_apply org es = org\<lparr>org_invitations := ?kept @
      [\<lparr>inv_id = i, inv_email_digest = d, inv_role = r, inv_expires_at = at + INVITATION_TTL\<rparr>]\<rparr>"
    unfolding es fold_events_append withdrawn_fold by simp
  moreover have "members_wf (fold_events organisation_apply org es)"
    unfolding calculation(3) by (rule members_wf_other[of _ org]) (use assms(1) in \<open>simp_all add: live_inv_def\<close>)
  ultimately show ?thesis
    using assms(1) r
    by (auto simp: after_ok_def live_inv_def organisation_inv_def invitations_wf_def Suc_le_eq)
qed

lemma after_accept:
  assumes "live_inv org" "accept_invitation i a d at org = Inr es"
  shows "after_ok org es"
proof -
  from assms(2) obtain v where v: "open_invitation org i at = Some v" "role_of org a = None"
    and es: "es = [OE_InvitationAccepted i a at, OE_MemberAdded a (inv_role v) at]"
    by (auto simp: accept_invitation_def split: option.splits if_splits)
  let ?org = "org\<lparr>org_invitations := filter (\<lambda>v. inv_id v \<noteq> i) (org_invitations org)\<rparr>"
  have wf: "members_wf ?org" "invitations_wf ?org" "role_of ?org a = None"
    using assms(1) v(2) invitations_wf_filter members_wf_other[of ?org org]
    by (auto simp: live_inv_def role_of_map)
  have "members_wf (?org\<lparr>org_members := put_member a (inv_role v) (org_members ?org)\<rparr>)"
    by (rule members_wf_put[OF wf(1)]) (use wf(3) assms(1) in \<open>auto simp: live_inv_def\<close>)
  with wf(2) show ?thesis
    using assms(1) by (simp add: after_ok_def es live_inv_def organisation_inv_def invitations_wf_def)
qed

lemma after_change_role:
  assumes "live_inv org" "change_role actor a r at org = Inr es"
  shows "after_ok org es"
proof -
  from assms(2) obtain ar where "managing org actor = Inr ar" and
    c: "(case role_of org a of None \<Rightarrow> Inl Org_NoSuchMember
       | Some current \<Rightarrow>
           if current = r then Inr []
           else if (current = Owner \<or> r = Owner) \<and> ar \<noteq> Owner then Inl Org_NotAllowed
           else if current = Owner \<and> owners org = 1 then Inl Org_LastOwner
           else Inr [OE_MemberRoleChanged a r actor at]) = Inr es"
    unfolding change_role_def and_then_Inr by blast
  then have "es = [] \<or> es = [OE_MemberRoleChanged a r actor at] \<and> (role_of org a \<noteq> Some Owner \<or> owners org \<noteq> 1)"
    by (simp split: option.splits if_splits)
  then consider "es = []" |
    "es = [OE_MemberRoleChanged a r actor at]" "r = Owner \<or> role_of org a \<noteq> Some Owner \<or> owners org \<noteq> 1"
    by blast
  then show ?thesis
  proof cases
    case 1
    with live_organisation_inv[OF assms(1)] show ?thesis by (simp add: after_ok_def)
  next
    case 2
    have "members_wf (org\<lparr>org_members := put_member a r (org_members org)\<rparr>)"
      by (rule members_wf_put[OF _ 2(2)]) (use assms(1) in \<open>simp_all add: live_inv_def\<close>)
    with 2(1) assms(1) show ?thesis
      by (simp add: after_ok_def live_inv_def organisation_inv_def invitations_wf_def)
  qed
qed

lemma after_remove_member:
  assumes "live_inv org" "remove_member actor a at org = Inr es"
  shows "after_ok org es"
proof -
  from assms(2) obtain d where "es = [OE_MemberRemoved a d actor at]"
    "role_of org a \<noteq> Some Owner \<or> owners org \<noteq> 1"
    by (auto simp: remove_member_def and_then_Inr split: option.splits if_splits)
  moreover from this assms(1)
  have "members_wf (org\<lparr>org_members := filter (\<lambda>m. mem_account m \<noteq> a) (org_members org)\<rparr>)"
    by (intro members_wf_filter) (simp_all add: live_inv_def)
  ultimately show ?thesis
    using assms(1) by (simp add: after_ok_def live_inv_def organisation_inv_def invitations_wf_def)
qed

lemmas small_handlers =
  revoke_invitation_def decline_invitation_def rename_organisation_def request_deletion_def
  cancel_deletion_def delete_organisation_def

lemma after_others:
  assumes "live_inv org"
  shows "after_ok org []" "after_ok org [OE_Renamed s s' by at]"
    "after_ok org [OE_DeletionRequested q i by at]" "after_ok org [OE_DeletionCancelled q t who at]"
    "after_ok org [OE_Deleted q by at]"
  using assms members_wf_other[of _ org]
  by (auto simp: after_ok_def live_inv_def organisation_inv_def invitations_wf_def members_wf_def role_of_map)

lemma organisation_inv_handle:
  assumes "organisation_inv org" "organisation_handle c org = Inr es"
  shows "organisation_inv (fold_events organisation_apply org es)"
proof (cases "org_exists org \<and> \<not> org_deleted org")
  case True
  then have "live_inv org" using assms(1) by (auto simp: live_inv_def organisation_inv_def)
  note after = after_invite[OF this] after_accept[OF this] after_change_role[OF this]
    after_remove_member[OF this] after_others[OF this] after_withdrawn[OF this]
  have "after_ok org es"
    using assms(2) True after
    by (cases c) (auto simp: organisation_handle_def create_organisation_def small_handlers and_then_Inr
        split: option.splits if_splits)
  then show ?thesis by (simp add: after_ok_def)
next
  case False
  then have "\<not> org_exists org \<and> (\<exists>slug kind a at. c = OC_Create slug kind a at \<and>
      es = [OE_Created slug kind a at, OE_MemberAdded a Owner at])"
    using assms(2) by (cases c) (auto simp: organisation_handle_def create_organisation_def split: if_splits)
  then show ?thesis
    using assms(1) False
    by (auto simp: organisation_inv_def members_wf_def invitations_wf_def role_maps put_member_distinct)
qed

interpretation organisation: event_sourced organisation_apply organisation_handle organisation_inv
  organisation_default
proof
  show "organisation_inv organisation_default"
    by (simp add: organisation_inv_def organisation_default_def members_wf_def invitations_wf_def)
qed (rule organisation_inv_handle)

section \<open>Properties\<close>

definition organisation_after :: "organisation_command list \<Rightarrow> organisation" where
  "organisation_after cs = run_commands organisation_apply organisation_handle organisation_default cs"

text \<open>
  C14: Whatever its members ask, in whatever order: a living organisation has an owner, so it can
  always be governed; nobody is a member twice; at most 50 invitations are pending, even though the
  time of each request is the caller's; none of them makes an owner; and a deleted organisation
  keeps no member and no invitation.
\<close>

theorem organisation_governed:
  "(if org_exists (organisation_after cs) \<and> \<not> org_deleted (organisation_after cs)
    then \<exists>a. role_of (organisation_after cs) a = Some Owner
    else org_members (organisation_after cs) = [] \<and> org_invitations (organisation_after cs) = []) \<and>
   distinct (map mem_account (org_members (organisation_after cs))) \<and>
   length (org_invitations (organisation_after cs)) \<le> 50 \<and>
   list_all (\<lambda>v. inv_role v \<noteq> Owner) (org_invitations (organisation_after cs))"
  using organisation.inv_run[of cs, folded organisation_after_def]
  by (simp add: organisation_inv_def members_wf_def invitations_wf_def MAX_PENDING_INVITATIONS_def
      list_all_iff)

text \<open>What one command may do to the roles: how a role is granted, and how one is lost.\<close>

definition grants :: "organisation \<Rightarrow> organisation_command \<Rightarrow> uuid \<Rightarrow> role \<Rightarrow> bool" where
  "grants org c account r \<longleftrightarrow>
     (case c of
        OC_Create _ _ owner _ \<Rightarrow> \<not> org_exists org \<and> account = owner \<and> r = Owner
      | OC_AcceptInvitation i a digest at \<Rightarrow>
          a = account \<and> role_of org account = None \<and>
          is_some_and (open_invitation org i at) (\<lambda>v. inv_email_digest v = digest \<and> inv_role v = r)
      | OC_ChangeRole actor a s _ \<Rightarrow>
          a = account \<and> s = r \<and> role_of org account \<noteq> None \<and>
          is_some_and (role_of org actor) (\<lambda>ar. ar \<ge> Admin \<and> ar \<ge> r \<and>
            is_some_and (role_of org account) (\<lambda>current. ar \<ge> current))
      | _ \<Rightarrow> False)"

definition takes :: "organisation \<Rightarrow> organisation_command \<Rightarrow> uuid \<Rightarrow> role \<Rightarrow> bool" where
  "takes org c account r \<longleftrightarrow>
     (case c of
        OC_RemoveMember actor a _ \<Rightarrow>
          a = account \<and>
          (actor = account \<or> is_some_and (role_of org actor) (\<lambda>ar. ar \<ge> Admin \<and> ar \<ge> r))
      | OC_Delete request _ \<Rightarrow> is_some_and (org_pending_deletion org) (\<lambda>p. del_request p = request)
      | _ \<Rightarrow> False)"

text \<open>
  And what it may do to the rest: who makes an invitation, who ends one, who renames, and who plans,
  calls off and carries out the deletion.
\<close>

definition holds :: "organisation \<Rightarrow> uuid \<Rightarrow> role \<Rightarrow> bool" where
  "holds org actor r \<longleftrightarrow> is_some_and (role_of org actor) (\<lambda>ar. ar \<ge> r)"

definition offers :: "organisation \<Rightarrow> organisation_command \<Rightarrow> pending_invitation \<Rightarrow> bool" where
  "offers org c v \<longleftrightarrow>
     (case c of
        OC_Invite actor i digest r at \<Rightarrow>
          holds org actor Admin \<and> holds org actor r \<and> r \<noteq> Owner \<and>
          v = \<lparr>inv_id = i, inv_email_digest = digest, inv_role = r, inv_expires_at = at + INVITATION_TTL\<rparr>
      | _ \<Rightarrow> False)"

definition withdraws :: "organisation \<Rightarrow> organisation_command \<Rightarrow> pending_invitation \<Rightarrow> bool" where
  "withdraws org c v \<longleftrightarrow>
     (case c of
        OC_Invite actor _ digest _ at \<Rightarrow>
          holds org actor Admin \<and>
          (inv_expires_at v \<le> at \<or>
           list_ex (\<lambda>w. inv_id w = inv_id v \<and> inv_email_digest w = digest) (open_invitations org at))
      | OC_RevokeInvitation actor i at \<Rightarrow>
          holds org actor Admin \<and> inv_id v = i \<and> open_invitation org i at \<noteq> None
      | OC_DeclineInvitation i _ digest at \<Rightarrow>
          inv_id v = i \<and> is_some_and (open_invitation org i at) (\<lambda>w. inv_email_digest w = digest)
      | OC_AcceptInvitation i _ digest at \<Rightarrow>
          inv_id v = i \<and> is_some_and (open_invitation org i at) (\<lambda>w. inv_email_digest w = digest)
      | OC_Delete request _ \<Rightarrow> is_some_and (org_pending_deletion org) (\<lambda>p. del_request p = request)
      | _ \<Rightarrow> False)"

definition renames :: "organisation \<Rightarrow> organisation_command \<Rightarrow> string option \<Rightarrow> bool" where
  "renames org c slug \<longleftrightarrow>
     (case c of
        OC_Create s _ _ _ \<Rightarrow> \<not> org_exists org \<and> slug = Some s
      | OC_Rename actor s _ \<Rightarrow> holds org actor Owner \<and> slug = Some s
      | _ \<Rightarrow> False)"

definition plans_deletion ::
  "organisation \<Rightarrow> organisation_command \<Rightarrow> pending_deletion option \<Rightarrow> bool" where
  "plans_deletion org c pending \<longleftrightarrow>
     (case c of
        OC_RequestDeletion actor _ request _ \<Rightarrow>
          holds org actor Owner \<and> org_pending_deletion org = None \<and>
          pending = Some \<lparr>del_request = request, del_requested_by = actor\<rparr>
      | OC_CancelDeletion request actor _ _ \<Rightarrow>
          pending = None \<and> is_some_and (org_pending_deletion org) (\<lambda>p. del_request p = request) \<and>
          (case actor of None \<Rightarrow> True | Some a \<Rightarrow> holds org a Owner)
      | OC_Delete request _ \<Rightarrow>
          pending = None \<and> is_some_and (org_pending_deletion org) (\<lambda>p. del_request p = request)
      | _ \<Rightarrow> False)"

definition deletes :: "organisation \<Rightarrow> organisation_command \<Rightarrow> bool" where
  "deletes org c \<longleftrightarrow>
     (case c of
        OC_Delete request _ \<Rightarrow>
          org_exists org \<and> \<not> org_deleted org \<and>
          is_some_and (org_pending_deletion org) (\<lambda>p. del_request p = request)
      | _ \<Rightarrow> False)"

definition acts_on_living :: "organisation \<Rightarrow> organisation_command \<Rightarrow> bool" where
  "acts_on_living org c \<longleftrightarrow>
     (case c of
        OC_Create _ _ _ _ \<Rightarrow> \<not> org_exists org
      | _ \<Rightarrow> org_exists org \<and> \<not> org_deleted org)"

text \<open>
  An invitation that was issued by right: one of the commands so far was an invitation to this
  address, for this role and until this time, of somebody who then was at least an admin, and it was
  accepted by the organisation.
\<close>

definition invited :: "organisation_command list \<Rightarrow> pending_invitation \<Rightarrow> bool" where
  "invited cs v \<longleftrightarrow>
     (\<exists>pre c post. cs = pre @ c # post \<and> offers (organisation_after pre) c v \<and>
        (\<exists>es. organisation_handle c (organisation_after pre) = Inr es))"

lemma managing_Inr: "managing org actor = Inr ar \<longleftrightarrow> role_of org actor = Some ar \<and> ar \<ge> Admin"
  by (auto simp: managing_def manages_members_def split: option.splits)

lemma invite_Inr:
  assumes "invite actor i d r at org = Inr es"
  shows "\<exists>js. es = map (\<lambda>j. OE_InvitationWithdrawn j Replaced actor at) js @
      [OE_InvitationIssued i d r actor at (at + INVITATION_TTL)] \<and>
    js = map inv_id (filter (\<lambda>v. inv_email_digest v = d) (open_invitations org at)) \<and>
    holds org actor Admin \<and> r \<noteq> Owner"
  using assms unfolding invite_def and_then_Inr managing_Inr Let_def
  by (auto simp: holds_def is_some_and_iff split: if_splits simp del: map_map)

lemma Owner_top [simp]:
  "(r :: role) \<le> Owner" "r \<noteq> Owner \<Longrightarrow> r \<le> Admin" "Owner \<le> r \<longleftrightarrow> r = Owner"
  by (cases r; simp add: less_eq_role_def)+

lemma change_role_Inr:
  assumes "change_role actor a r at org = Inr es"
  shows "es = [] \<or> es = [OE_MemberRoleChanged a r actor at] \<and> grants org (OC_ChangeRole actor a r at) a r"
proof -
  from assms obtain ar where ar: "managing org actor = Inr ar" and
    c: "(case role_of org a of None \<Rightarrow> Inl Org_NoSuchMember
       | Some current \<Rightarrow>
           if current = r then Inr []
           else if (current = Owner \<or> r = Owner) \<and> ar \<noteq> Owner then Inl Org_NotAllowed
           else if current = Owner \<and> owners org = 1 then Inl Org_LastOwner
           else Inr [OE_MemberRoleChanged a r actor at]) = Inr es"
    unfolding change_role_def and_then_Inr by blast
  have "current \<le> ar \<and> r \<le> ar" if "\<not> ((current = Owner \<or> r = Owner) \<and> ar \<noteq> Owner)" for current
    using that ar[unfolded managing_Inr] by (cases "ar = Owner") (auto intro: order.trans[OF Owner_top(2)])
  with c ar show ?thesis
    by (auto simp: grants_def managing_Inr split: option.splits if_splits)
qed

lemma remove_member_Inr:
  assumes "remove_member actor a at org = Inr es"
  shows "\<exists>d r. es = [OE_MemberRemoved a d actor at] \<and> role_of org a = Some r \<and>
    takes org (OC_RemoveMember actor a at) a r"
proof -
  from assms obtain r d where r: "role_of org a = Some r" and d: "remove_departure actor a r org = Inr d"
    and es: "es = [OE_MemberRemoved a d actor at]"
    by (auto simp: remove_member_def and_then_Inr split: option.splits if_splits)
  have "takes org (OC_RemoveMember actor a at) a r"
  proof (cases "actor = a")
    case False
    with d obtain ar where ar: "role_of org actor = Some ar" "ar \<ge> Admin" "r = Owner \<longrightarrow> ar = Owner"
      by (auto simp: remove_departure_def and_then_Inr managing_Inr split: if_splits)
    have "r \<le> ar"
    proof (cases "r = Owner")
      case True
      with ar show ?thesis by simp
    next
      case False
      from order.trans[OF Owner_top(2)[OF False] ar(2)] show ?thesis .
    qed
    with ar show ?thesis by (simp add: takes_def)
  qed (simp add: takes_def)
  with r es show ?thesis by blast
qed

lemma owning_Inr: "owning org actor = Inr u \<longleftrightarrow> holds org actor Owner"
  by (auto simp: owning_def holds_def is_some_and_iff split: if_splits)

lemma roles_warranted:
  assumes "organisation_handle c org = Inr es"
  shows "(\<forall>a r. role_of (fold_events organisation_apply org es) a = Some r \<and> role_of org a \<noteq> Some r \<longrightarrow>
            grants org c a r) \<and>
    (\<forall>a r. role_of org a = Some r \<and> role_of (fold_events organisation_apply org es) a = None \<longrightarrow>
            takes org c a r)"
proof (cases c)
  case (OC_Invite actor i d r at)
  then have "invite actor i d r at org = Inr es"
    using assms by (simp add: organisation_handle_def split: if_splits)
  from invite_Inr[OF this] obtain js where
    "es = map (\<lambda>j. OE_InvitationWithdrawn j Replaced actor at) js @
      [OE_InvitationIssued i d r actor at (at + INVITATION_TTL)]" by blast
  then have "org_members (fold_events organisation_apply org es) = org_members org"
    by (simp add: withdrawn_fold)
  then show ?thesis by (auto simp: role_of_map)
next
  case (OC_AcceptInvitation i b d at)
  then show ?thesis
    using assms by (auto simp: organisation_handle_def accept_invitation_def grants_def role_maps
        split: if_splits option.splits)
next
  case (OC_ChangeRole actor b r at)
  then have "change_role actor b r at org = Inr es"
    using assms by (simp add: organisation_handle_def split: if_splits)
  from change_role_Inr[OF this] show ?thesis
    using OC_ChangeRole by (auto simp: role_maps split: if_splits)
next
  case (OC_RemoveMember actor b at)
  then have "remove_member actor b at org = Inr es"
    using assms by (simp add: organisation_handle_def split: if_splits)
  from remove_member_Inr[OF this] show ?thesis
    using OC_RemoveMember by (auto simp: role_maps split: if_splits)
qed (use assms in \<open>auto simp: organisation_handle_def create_organisation_def small_handlers and_then_Inr
    role_maps grants_def takes_def split: if_splits option.splits\<close>)

lemma invitations_warranted:
  assumes "organisation_handle c org = Inr es"
  shows "(\<forall>v. v \<in> set (org_invitations (fold_events organisation_apply org es)) \<and>
            v \<notin> set (org_invitations org) \<longrightarrow> offers org c v) \<and>
    (\<forall>v. v \<in> set (org_invitations org) \<and>
            v \<notin> set (org_invitations (fold_events organisation_apply org es)) \<longrightarrow> withdraws org c v)"
proof (cases c)
  case (OC_Invite actor i d r at)
  then have "invite actor i d r at org = Inr es"
    using assms by (simp add: organisation_handle_def split: if_splits)
  from invite_Inr[OF this] obtain js where
    es: "es = map (\<lambda>j. OE_InvitationWithdrawn j Replaced actor at) js @
      [OE_InvitationIssued i d r actor at (at + INVITATION_TTL)]" and
    js: "js = map inv_id (filter (\<lambda>v. inv_email_digest v = d) (open_invitations org at))" and
    right: "holds org actor Admin" "r \<noteq> Owner" by blast
  have "holds org actor r"
    using right by (auto simp: holds_def is_some_and_iff intro: order.trans[OF Owner_top(2)])
  have again: "list_ex (\<lambda>w. inv_id w = j \<and> inv_email_digest w = d) (open_invitations org at)"
    if "j \<in> set js" for j
    using that by (auto simp: js list_ex_iff)
  from right \<open>holds org actor r\<close> show ?thesis
    unfolding OC_Invite es
    by (auto simp: withdrawn_fold offers_def withdraws_def again)
next
  case (OC_ChangeRole actor b r at)
  then have "change_role actor b r at org = Inr es"
    using assms by (simp add: organisation_handle_def split: if_splits)
  from change_role_Inr[OF this] show ?thesis by auto
next
  case (OC_RemoveMember actor b at)
  then have "remove_member actor b at org = Inr es"
    using assms by (simp add: organisation_handle_def split: if_splits)
  from remove_member_Inr[OF this] show ?thesis by auto
qed (use assms in \<open>auto simp: organisation_handle_def create_organisation_def small_handlers
    accept_invitation_def and_then_Inr managing_Inr withdraws_def holds_def is_some_and_iff
    split: if_splits option.splits\<close>)

lemma rest_warranted:
  assumes "organisation_handle c org = Inr es"
  defines "after \<equiv> fold_events organisation_apply org es"
  shows "(org_slug after \<noteq> org_slug org \<longrightarrow> renames org c (org_slug after)) \<and>
    (org_pending_deletion after \<noteq> org_pending_deletion org \<longrightarrow>
       plans_deletion org c (org_pending_deletion after)) \<and>
    (org_deleted after \<noteq> org_deleted org \<longrightarrow> deletes org c) \<and>
    (after \<noteq> org \<longrightarrow> acts_on_living org c)"
proof (cases c)
  case (OC_Invite actor i d r at)
  then have "invite actor i d r at org = Inr es" and "acts_on_living org c"
    using assms by (simp_all add: organisation_handle_def acts_on_living_def split: if_splits)
  moreover from invite_Inr[OF this(1)] obtain js where
    "es = map (\<lambda>j. OE_InvitationWithdrawn j Replaced actor at) js @
      [OE_InvitationIssued i d r actor at (at + INVITATION_TTL)]" by blast
  ultimately show ?thesis by (simp add: after_def withdrawn_fold)
next
  case (OC_ChangeRole actor b r at)
  then have "change_role actor b r at org = Inr es" and "acts_on_living org c"
    using assms by (simp_all add: organisation_handle_def acts_on_living_def split: if_splits)
  from change_role_Inr[OF this(1)] this(2) show ?thesis by (auto simp: after_def)
next
  case (OC_RemoveMember actor b at)
  then have "remove_member actor b at org = Inr es" and "acts_on_living org c"
    using assms by (simp_all add: organisation_handle_def acts_on_living_def split: if_splits)
  from remove_member_Inr[OF this(1)] this(2) show ?thesis by (auto simp: after_def)
qed (use assms in \<open>auto simp: organisation_handle_def create_organisation_def small_handlers
    accept_invitation_def and_then_Inr owning_Inr renames_def plans_deletion_def deletes_def
    acts_on_living_def split: if_splits option.splits\<close>)

lemma invitations_of_runs:
  "v \<in> set (org_invitations (organisation_after cs)) \<Longrightarrow> invited cs v"
proof (induction cs rule: rev_induct)
  case Nil
  then show ?case by (simp add: organisation_after_def organisation_default_def)
next
  case (snoc c cs)
  have older: "invited (cs @ [c]) v" if "invited cs v"
    using that unfolding invited_def by (metis append.assoc append_Cons)
  show ?case
  proof (cases "organisation_handle c (organisation_after cs)")
    case (Inl e)
    with snoc older show ?thesis by (simp add: organisation_after_def run_commands_append)
  next
    case (Inr es)
    with snoc(2) have "v \<in> set (org_invitations (fold_events organisation_apply (organisation_after cs) es))"
      by (simp add: organisation_after_def run_commands_append)
    moreover have "invited (cs @ [c]) v" if "offers (organisation_after cs) c v"
      using that Inr unfolding invited_def by blast
    ultimately show ?thesis
      using conjunct1[OF invitations_warranted[OF Inr]] snoc(1) older by blast
  qed
qed

text \<open>
  C13: Nobody acts beyond their role. If an account holds a role after a command that it did not
  hold before, the command created the organisation for its owner, or the account accepted an open
  invitation to its own address that named this role, or an admin or owner whose role is at least
  both the old and the new one changed it. If an account stops being a member, it left, or somebody
  of at least its role (and at least an admin) removed it, or the organisation was deleted upon the
  pending request. An invitation appears only because an admin or owner made it, for seven days and
  for a role that is not above their own and not ownership; it goes only when an admin or owner
  revokes it, invites its address again or invites anybody after its end, when its addressee
  declines or accepts it while it is open, or with the organisation. So every invitation that is
  there after any run of commands, and that may be accepted, was issued by somebody who at that time
  was at least an admin. Only an owner renames the organisation; only an owner requests its deletion,
  when none is pending; a request is called off by its own number (by an owner, where somebody does
  it), and only the request that is pending deletes. Nothing changes an organisation that does not
  exist, except its creation, nor one that is deleted.
\<close>

theorem roles_by_right:
  assumes "organisation_handle c org = Inr es"
  shows "(\<forall>a r. role_of (fold_events organisation_apply org es) a = Some r \<and> role_of org a \<noteq> Some r \<longrightarrow>
            grants org c a r) \<and>
    (\<forall>a r. role_of org a = Some r \<and> role_of (fold_events organisation_apply org es) a = None \<longrightarrow>
            takes org c a r) \<and>
    (\<forall>v. v \<in> set (org_invitations (fold_events organisation_apply org es)) \<and>
            v \<notin> set (org_invitations org) \<longrightarrow> offers org c v) \<and>
    (\<forall>v. v \<in> set (org_invitations org) \<and>
            v \<notin> set (org_invitations (fold_events organisation_apply org es)) \<longrightarrow> withdraws org c v) \<and>
    (\<forall>cs v. org = organisation_after cs \<and> v \<in> set (org_invitations org) \<longrightarrow> invited cs v) \<and>
    (org_slug (fold_events organisation_apply org es) \<noteq> org_slug org \<longrightarrow>
       renames org c (org_slug (fold_events organisation_apply org es))) \<and>
    (org_pending_deletion (fold_events organisation_apply org es) \<noteq> org_pending_deletion org \<longrightarrow>
       plans_deletion org c (org_pending_deletion (fold_events organisation_apply org es))) \<and>
    (org_deleted (fold_events organisation_apply org es) \<noteq> org_deleted org \<longrightarrow> deletes org c) \<and>
    (fold_events organisation_apply org es \<noteq> org \<longrightarrow> acts_on_living org c)"
  using roles_warranted[OF assms] invitations_warranted[OF assms] rest_warranted[OF assms]
    invitations_of_runs by blast

definition demo_commands :: "organisation_command list" where
  "demo_commands =
     [OC_Create ''acme'' Shared 1 0, OC_Invite 1 7 ''d2'' Admin 0, OC_AcceptInvitation 7 2 ''d2'' 1,
      OC_Invite 2 8 ''d3'' Member 2, OC_AcceptInvitation 8 3 ''d3'' 3, OC_Invite 2 9 ''d4'' Admin 4]"

definition demo_org :: organisation where
  "demo_org = organisation_after demo_commands"

definition demo_invitation :: pending_invitation where
  "demo_invitation =
     \<lparr>inv_id = 9, inv_email_digest = ''d4'', inv_role = Admin, inv_expires_at = 4 + INVITATION_TTL\<rparr>"

lemma demo_steps:
  "organisation_handle (OC_ChangeRole 2 3 Owner 4) demo_org = Inl Org_NotAllowed"
  "organisation_handle (OC_Invite 3 9 ''d4'' Member 5) demo_org = Inl Org_NotAllowed"
  "organisation_handle (OC_ChangeRole 2 3 Admin 4) demo_org = Inr [OE_MemberRoleChanged 3 Admin 2 4]"
  "organisation_handle (OC_RemoveMember 2 3 4) demo_org = Inr [OE_MemberRemoved 3 Removed 2 4]"
  "organisation_handle (OC_RevokeInvitation 1 9 5) demo_org = Inr [OE_InvitationWithdrawn 9 Revoked 1 5]"
  "organisation_handle (OC_Rename 1 ''acne'' 5) demo_org = Inr [OE_Renamed ''acme'' ''acne'' 1 5]"
  by code_simp+

theorem roles_by_right_witness:
  "grants demo_org (OC_ChangeRole 2 3 Admin 4) 3 Admin \<and>
   takes demo_org (OC_RemoveMember 2 3 4) 3 Member \<and>
   withdraws demo_org (OC_RevokeInvitation 1 9 5) demo_invitation \<and>
   invited demo_commands demo_invitation \<and>
   renames demo_org (OC_Rename 1 ''acne'' 5) (Some ''acne'')"
proof -
  have "role_of (fold_events organisation_apply demo_org [OE_MemberRoleChanged 3 Admin 2 4]) 3 = Some Admin"
    and member: "role_of demo_org 3 = Some Member" by code_simp+
  with roles_by_right[OF demo_steps(3)] have 1: "grants demo_org (OC_ChangeRole 2 3 Admin 4) 3 Admin" by simp
  have "role_of (fold_events organisation_apply demo_org [OE_MemberRemoved 3 Removed 2 4]) 3 = None"
    by code_simp
  with roles_by_right[OF demo_steps(4)] member have 2: "takes demo_org (OC_RemoveMember 2 3 4) 3 Member"
    by simp
  have "demo_invitation \<in> set (org_invitations demo_org)"
    "demo_invitation \<notin> set (org_invitations
      (fold_events organisation_apply demo_org [OE_InvitationWithdrawn 9 Revoked 1 5]))" by code_simp+
  with roles_by_right[OF demo_steps(5)]
  have 3: "withdraws demo_org (OC_RevokeInvitation 1 9 5) demo_invitation"
    and 4: "invited demo_commands demo_invitation" by (simp_all add: demo_org_def)
  have "org_slug (fold_events organisation_apply demo_org [OE_Renamed ''acme'' ''acne'' 1 5]) = Some ''acne''"
    "org_slug demo_org = Some ''acme''" by code_simp+
  with roles_by_right[OF demo_steps(6)] have "renames demo_org (OC_Rename 1 ''acne'' 5) (Some ''acne'')"
    by simp
  with 1 2 3 4 show ?thesis by blast
qed

end
