(* ===== verification/Machine.thy ===== *)
theory Machine
  imports Labels
begin

text \<open>
  The machine aggregate and the rules of registration (\<open>grund-domain/src/machine.rs\<close>): tokens, the
  message a machine signs to register, the ports it declares, the pool it is in, its leases and
  the keys it has used.
\<close>

section \<open>Keys and tokens\<close>

definition TOKEN_TTL :: duration where "TOKEN_TTL = minutes 10"
definition TOKEN_TTL_MAX :: duration where "TOKEN_TTL_MAX = minutes 15"
definition MAX_OPEN_TOKENS :: int where "MAX_OPEN_TOKENS = 20"
definition MAX_REPLAYS :: int where "MAX_REPLAYS = 5"
definition CLOCK_SKEW :: duration where "CLOCK_SKEW = seconds 300"
definition MAX_MACHINES_PER_ORGANISATION :: int where "MAX_MACHINES_PER_ORGANISATION = 50"

definition PREFIX_ENROLL :: string where "PREFIX_ENROLL = ''grund-enroll-v1'' @ [CHR 0x0A]"
definition PREFIX_LEASE_GRANT :: string where "PREFIX_LEASE_GRANT = ''grund-lease-grant-v1'' @ [CHR 0x0A]"
definition PREFIX_DESIRED_STATE :: string where "PREFIX_DESIRED_STATE = ''grund-desired-state-v1'' @ [CHR 0x0A]"
definition PREFIX_NET_MEMBERSHIP :: string where "PREFIX_NET_MEMBERSHIP = ''grund-net-membership-v1'' @ [CHR 0x0A]"

datatype key_purpose = KP_Instance | KP_Management | KP_Organisation | KP_Network

definition key_purpose_as_str :: "key_purpose \<Rightarrow> string" where
  "key_purpose_as_str p =
     (case p of KP_Instance \<Rightarrow> ''instance'' | KP_Management \<Rightarrow> ''management''
      | KP_Organisation \<Rightarrow> ''organisation'' | KP_Network \<Rightarrow> ''network'')"

definition key_purpose_parse :: "string \<Rightarrow> key_purpose option" where
  "key_purpose_parse text =
     (if text = ''instance'' then Some KP_Instance else if text = ''management'' then Some KP_Management
      else if text = ''organisation'' then Some KP_Organisation
      else if text = ''network'' then Some KP_Network else None)"

datatype token_kind = TK_Management | TK_Organisation

definition TOKEN_SECRET_CHARS :: nat where "TOKEN_SECRET_CHARS = 52"

definition token_kind_prefix :: "token_kind \<Rightarrow> string" where
  "token_kind_prefix k = (case k of TK_Management \<Rightarrow> ''grund_reg_'' | TK_Organisation \<Rightarrow> ''grund_join_'')"

definition token_kind_as_str :: "token_kind \<Rightarrow> string" where
  "token_kind_as_str k = (case k of TK_Management \<Rightarrow> ''management'' | TK_Organisation \<Rightarrow> ''organisation'')"

definition base32_byte :: "char \<Rightarrow> bool" where
  "base32_byte b \<longleftrightarrow> is_ascii_lowercase b \<or> (50 \<le> byte b \<and> byte b \<le> 55)"

definition token_kind_of :: "string \<Rightarrow> token_kind option" where
  "token_kind_of token =
     List.find (\<lambda>kind. is_some_and (strip_prefix (token_kind_prefix kind) token)
         (\<lambda>secret. length secret = TOKEN_SECRET_CHARS \<and> list_all base32_byte secret))
       [TK_Management, TK_Organisation]"

definition enrollment_message :: "string \<Rightarrow> int \<Rightarrow> string \<Rightarrow> string" where
  "enrollment_message origin signed_at token_sha256_hex =
     PREFIX_ENROLL @ origin @ [CHR 0x0A] @ show_int signed_at @ [CHR 0x0A] @ token_sha256_hex"

text \<open>A byte in two lowercase hexadecimal digits.\<close>

definition hex_byte :: "nat \<Rightarrow> string" where
  "hex_byte b = [''0123456789abcdef'' ! (b div 16 mod 16), ''0123456789abcdef'' ! (b mod 16)]"

definition machine_key_from_bytes :: "nat list \<Rightarrow> string option" where
  "machine_key_from_bytes bytes =
     (if length bytes = 32 then Some (concat (map hex_byte bytes)) else None)"

section \<open>Ports\<close>

definition MAX_DECLARED_PORTS :: nat where "MAX_DECLARED_PORTS = 64"

datatype transport = Transport_Tcp | Transport_Udp

definition transport_as_str :: "transport \<Rightarrow> string" where
  "transport_as_str t = (case t of Transport_Tcp \<Rightarrow> ''tcp'' | Transport_Udp \<Rightarrow> ''udp'')"

record network_port =
  np_transport :: transport
  np_port :: nat

datatype ports_error = Ports_Zero | Ports_TooMany

text \<open>The derived order: TCP before UDP, then by number.\<close>

definition port_order :: "network_port \<Rightarrow> nat \<times> nat" where
  "port_order p = ((case np_transport p of Transport_Tcp \<Rightarrow> 0 | Transport_Udp \<Rightarrow> 1), np_port p)"

definition declared_ports :: "network_port list \<Rightarrow> ports_error + network_port list" where
  "declared_ports ports =
     (if list_ex (\<lambda>p. np_port p = 0) ports then Inl Ports_Zero
      else
        let ports = remdups_adj (sort_key port_order ports) in
        if length ports > MAX_DECLARED_PORTS then Inl Ports_TooMany else Inr ports)"

section \<open>State and events\<close>

datatype pool = Pool_Management | Pool_Organisation uuid

definition pool_as_str :: "pool \<Rightarrow> string" where
  "pool_as_str p = (case p of Pool_Management \<Rightarrow> ''management'' | Pool_Organisation _ \<Rightarrow> ''organisation'')"

datatype machine_state = MS_Available | MS_Leased | MS_Returning | MS_Active | MS_Revoked

definition machine_state_as_str :: "machine_state \<Rightarrow> string" where
  "machine_state_as_str s =
     (case s of MS_Available \<Rightarrow> ''available'' | MS_Leased \<Rightarrow> ''leased'' | MS_Returning \<Rightarrow> ''returning''
      | MS_Active \<Rightarrow> ''active'' | MS_Revoked \<Rightarrow> ''revoked'')"

definition machine_state_parse :: "string \<Rightarrow> machine_state option" where
  "machine_state_parse text =
     (if text = ''available'' then Some MS_Available else if text = ''leased'' then Some MS_Leased
      else if text = ''returning'' then Some MS_Returning else if text = ''active'' then Some MS_Active
      else if text = ''revoked'' then Some MS_Revoked else None)"

record machine_facts =
  fact_hostname :: string
  fact_arch :: string
  fact_cpu_model :: string
  fact_cpus :: int
  fact_memory_mib :: int
  fact_disk_gib :: int
  fact_os :: string
  fact_kernel :: string
  fact_agent_version :: string
  fact_fleet_machine_id :: string

datatype authority = Auth_Operator | Auth_Organisation uuid

datatype machine_event =
  ME_Registered pool string string uuid string machine_facts time "string option"
| ME_Leased uuid uuid string uuid time
| ME_LeaseEnded uuid uuid uuid time
| ME_Reregistered string string uuid machine_facts time
| ME_Revoked uuid time
| ME_ProviderLinked string time
| ME_PortsDeclared "network_port list" uuid time
| ME_LabelsSet labels uuid time
| ME_Cordoned uuid time
| ME_Uncordoned uuid time

record lease =
  lease_id :: uuid
  lease_organisation :: uuid
  lease_name :: string

record machine =
  mach_exists :: bool
  mach_pool :: "pool option"
  mach_name :: "string option"
  mach_key :: "string option"
  mach_retired_keys :: "string list"
  mach_state :: "machine_state option"
  mach_lease :: "lease option"
  mach_provider_id :: "string option"
  mach_ports :: "network_port list"
  mach_labels :: labels
  mach_cordoned :: bool

definition machine_default :: machine where
  "machine_default =
     \<lparr>mach_exists = False, mach_pool = None, mach_name = None, mach_key = None, mach_retired_keys = [],
      mach_state = None, mach_lease = None, mach_provider_id = None, mach_ports = [],
      mach_labels = [], mach_cordoned = False\<rparr>"

definition machine_organisation :: "machine \<Rightarrow> uuid option" where
  "machine_organisation m =
     (case (mach_state m, mach_pool m, mach_lease m) of
        (Some MS_Active, Some (Pool_Organisation organisation), _) \<Rightarrow> Some organisation
      | (Some MS_Leased, _, Some l) \<Rightarrow> Some (lease_organisation l)
      | _ \<Rightarrow> None)"

definition key_used :: "machine \<Rightarrow> string \<Rightarrow> bool" where
  "key_used m key \<longleftrightarrow> mach_key m = Some key \<or> key \<in> set (mach_retired_keys m)"

fun machine_apply :: "machine \<Rightarrow> machine_event \<Rightarrow> machine" where
  "machine_apply m (ME_Registered pool name key _ _ _ _ provider) =
     m\<lparr>mach_provider_id := provider, mach_exists := True, mach_pool := Some pool,
       mach_name := Some name, mach_key := Some key,
       mach_state := Some (case pool of Pool_Management \<Rightarrow> MS_Available | Pool_Organisation _ \<Rightarrow> MS_Active)\<rparr>"
| "machine_apply m (ME_Leased l organisation name _ _) =
     m\<lparr>mach_state := Some MS_Leased,
       mach_lease := Some \<lparr>lease_id = l, lease_organisation = organisation, lease_name = name\<rparr>\<rparr>"
| "machine_apply m (ME_LeaseEnded _ _ _ _) =
     m\<lparr>mach_state := Some MS_Returning, mach_lease := None, mach_ports := [], mach_labels := [],
       mach_cordoned := False\<rparr>"
| "machine_apply m (ME_Reregistered key retired _ _ _) =
     m\<lparr>mach_retired_keys := mach_retired_keys m @ [retired], mach_key := Some key,
       mach_state := Some MS_Available\<rparr>"
| "machine_apply m (ME_ProviderLinked provider _) = m\<lparr>mach_provider_id := Some provider\<rparr>"
| "machine_apply m (ME_Revoked _ _) =
     m\<lparr>mach_retired_keys :=
         mach_retired_keys m @ (case mach_key m of Some key \<Rightarrow> [key] | None \<Rightarrow> []),
       mach_key := None, mach_state := Some MS_Revoked, mach_lease := None, mach_ports := []\<rparr>"
| "machine_apply m (ME_PortsDeclared ports _ _) = m\<lparr>mach_ports := ports\<rparr>"
| "machine_apply m (ME_LabelsSet labels _ _) = m\<lparr>mach_labels := labels\<rparr>"
| "machine_apply m (ME_Cordoned _ _) = m\<lparr>mach_cordoned := True\<rparr>"
| "machine_apply m (ME_Uncordoned _ _) = m\<lparr>mach_cordoned := False\<rparr>"

section \<open>Commands\<close>

datatype machine_command =
  MC_Register pool string string uuid string machine_facts "string option" time
| MC_Lease uuid uuid uuid string time
| MC_EndLease uuid time
| MC_Reregister string uuid machine_facts time
| MC_LinkProvider string time
| MC_Revoke uuid authority time
| MC_DeclarePorts uuid uuid "network_port list" time
| MC_SetLabels uuid uuid labels time
| MC_SetInService uuid uuid bool time

datatype machine_error =
  Mach_AlreadyExists | Mach_NotFound | Mach_NotAvailable | Mach_NotLeased | Mach_NotReturning
| Mach_KeyReused | Mach_NotAllowed | Mach_ProviderConflict

type_synonym machine_result = "machine_error + machine_event list"

definition lease_machine :: "uuid \<Rightarrow> uuid \<Rightarrow> uuid \<Rightarrow> string \<Rightarrow> time \<Rightarrow> machine_state \<Rightarrow> machine_result" where
  "lease_machine actor l organisation name at state =
     (if state \<noteq> MS_Available then Inl Mach_NotAvailable
      else Inr [ME_Leased l organisation name actor at])"

definition end_lease :: "uuid \<Rightarrow> time \<Rightarrow> machine \<Rightarrow> machine_result" where
  "end_lease actor at m =
     (case mach_lease m of
        None \<Rightarrow> Inl Mach_NotLeased
      | Some l \<Rightarrow> Inr [ME_LeaseEnded (lease_id l) (lease_organisation l) actor at])"

definition reregister ::
  "string \<Rightarrow> uuid \<Rightarrow> machine_facts \<Rightarrow> time \<Rightarrow> machine_state \<Rightarrow> machine \<Rightarrow> machine_result" where
  "reregister key token facts at state m =
     (if state \<noteq> MS_Returning then Inl Mach_NotReturning
      else if key_used m key then Inl Mach_KeyReused
      else case mach_key m of
          None \<Rightarrow> Inl Mach_NotFound
        | Some retired \<Rightarrow> Inr [ME_Reregistered key retired token facts at])"

definition link_provider :: "string \<Rightarrow> time \<Rightarrow> machine \<Rightarrow> machine_result" where
  "link_provider provider at m =
     (case mach_provider_id m of
        Some existing \<Rightarrow> if existing = provider then Inr [] else Inl Mach_ProviderConflict
      | None \<Rightarrow> Inr [ME_ProviderLinked provider at])"

definition may_revoke :: "authority \<Rightarrow> pool option \<Rightarrow> bool" where
  "may_revoke who pool \<longleftrightarrow>
     (case (who, pool) of
        (Auth_Operator, Some Pool_Management) \<Rightarrow> True
      | (Auth_Organisation asker, Some (Pool_Organisation organisation)) \<Rightarrow> asker = organisation
      | _ \<Rightarrow> False)"

definition revoke_machine :: "uuid \<Rightarrow> authority \<Rightarrow> time \<Rightarrow> machine_state \<Rightarrow> machine \<Rightarrow> machine_result" where
  "revoke_machine actor who at state m =
     (if state = MS_Revoked then Inr []
      else if \<not> may_revoke who (mach_pool m) then Inl Mach_NotAllowed
      else Inr [ME_Revoked actor at])"

definition declare_ports :: "uuid \<Rightarrow> uuid \<Rightarrow> network_port list \<Rightarrow> time \<Rightarrow> machine \<Rightarrow> machine_result" where
  "declare_ports actor organisation ports at m =
     (if machine_organisation m \<noteq> Some organisation then Inl Mach_NotAllowed
      else if mach_ports m = ports then Inr []
      else Inr [ME_PortsDeclared ports actor at])"

definition set_labels :: "uuid \<Rightarrow> uuid \<Rightarrow> labels \<Rightarrow> time \<Rightarrow> machine \<Rightarrow> machine_result" where
  "set_labels actor organisation labels at m =
     (if machine_organisation m \<noteq> Some organisation then Inl Mach_NotAllowed
      else if mach_labels m = labels then Inr []
      else Inr [ME_LabelsSet labels actor at])"

definition set_in_service :: "uuid \<Rightarrow> uuid \<Rightarrow> bool \<Rightarrow> time \<Rightarrow> machine \<Rightarrow> machine_result" where
  "set_in_service actor organisation in_service at m =
     (if machine_organisation m \<noteq> Some organisation then Inl Mach_NotAllowed
      else case (mach_cordoned m, in_service) of
          (False, False) \<Rightarrow> Inr [ME_Cordoned actor at]
        | (True, True) \<Rightarrow> Inr [ME_Uncordoned actor at]
        | _ \<Rightarrow> Inr [])"

definition machine_handle :: "machine_command \<Rightarrow> machine \<Rightarrow> machine_result" where
  "machine_handle c m =
     (case c of
        MC_Register pool name key token minted_by facts provider at \<Rightarrow>
          if mach_exists m then Inl Mach_AlreadyExists
          else Inr [ME_Registered pool name key token minted_by facts at provider]
      | _ \<Rightarrow>
          if \<not> mach_exists m then Inl Mach_NotFound
          else case mach_state m of
            None \<Rightarrow> Inl Mach_NotFound
          | Some state \<Rightarrow>
              (case c of
                 MC_Lease actor l organisation name at \<Rightarrow> lease_machine actor l organisation name at state
               | MC_EndLease actor at \<Rightarrow> end_lease actor at m
               | MC_Reregister key token facts at \<Rightarrow> reregister key token facts at state m
               | MC_LinkProvider provider at \<Rightarrow> link_provider provider at m
               | MC_Revoke actor who at \<Rightarrow> revoke_machine actor who at state m
               | MC_DeclarePorts actor organisation ports at \<Rightarrow> declare_ports actor organisation ports at m
               | MC_SetLabels actor organisation labels at \<Rightarrow> set_labels actor organisation labels at m
               | MC_SetInService actor organisation in_service at \<Rightarrow>
                   set_in_service actor organisation in_service at m
               | MC_Register _ _ _ _ _ _ _ _ \<Rightarrow> Inl Mach_AlreadyExists))"

text \<open>The last case is never reached: a registration has returned before.\<close>

lemmas machine_handlers =
  machine_handle_def lease_machine_def end_lease_def reregister_def link_provider_def revoke_machine_def
  declare_ports_def set_labels_def set_in_service_def

end
