(* ===== verification/Machine_Props.thy ===== *)
theory Machine_Props
  imports Machine
begin

text \<open>
  The life of a machine: the invariant that ties its pool, its state, its lease and its keys; that
  a key seen by one lessee never serves another; and that a proof of enrollment is bound to the
  instance, the time and the token.
\<close>

section \<open>The invariant\<close>

definition keys_wf :: "machine \<Rightarrow> bool" where
  "keys_wf m \<longleftrightarrow>
     distinct (mach_retired_keys m) \<and>
     is_none_or (mach_key m) (\<lambda>k. k \<notin> set (mach_retired_keys m))"

definition unlet :: "machine \<Rightarrow> bool" where
  "unlet m \<longleftrightarrow> mach_lease m = None \<and> mach_ports m = []"

definition life_wf :: "machine \<Rightarrow> bool" where
  "life_wf m \<longleftrightarrow>
     (case mach_state m of
        None \<Rightarrow> \<not> mach_exists m \<and> mach_key m = None \<and> mach_retired_keys m = [] \<and> mach_pool m = None \<and>
          unlet m \<and> mach_labels m = [] \<and> \<not> mach_cordoned m
      | Some MS_Available \<Rightarrow>
          mach_pool m = Some Pool_Management \<and> mach_key m \<noteq> None \<and> unlet m \<and> mach_labels m = [] \<and>
          \<not> mach_cordoned m
      | Some MS_Leased \<Rightarrow>
          mach_pool m = Some Pool_Management \<and> mach_key m \<noteq> None \<and> mach_lease m \<noteq> None
      | Some MS_Returning \<Rightarrow>
          mach_pool m = Some Pool_Management \<and> mach_key m \<noteq> None \<and> unlet m \<and> mach_labels m = [] \<and>
          \<not> mach_cordoned m
      | Some MS_Active \<Rightarrow>
          mach_pool m \<noteq> None \<and> mach_pool m \<noteq> Some Pool_Management \<and> mach_key m \<noteq> None \<and>
          mach_lease m = None
      | Some MS_Revoked \<Rightarrow> mach_pool m \<noteq> None \<and> mach_key m = None \<and> unlet m) \<and>
     (mach_exists m \<longleftrightarrow> mach_state m \<noteq> None)"

definition machine_inv :: "machine \<Rightarrow> bool" where
  "machine_inv m \<longleftrightarrow> keys_wf m \<and> life_wf m"

lemmas machine_inv_defs = machine_inv_def keys_wf_def life_wf_def unlet_def

lemma machine_organisation_Some:
  "machine_organisation m = Some organisation \<Longrightarrow> mach_state m = Some MS_Active \<or> mach_state m = Some MS_Leased"
  by (auto simp: machine_organisation_def split: option.splits machine_state.splits pool.splits)

text \<open>What each event that a command emits finds.\<close>

definition machine_event_ok :: "machine \<Rightarrow> machine_event \<Rightarrow> bool" where
  "machine_event_ok m e \<longleftrightarrow>
     (case e of
        ME_Registered _ _ _ _ _ _ _ _ \<Rightarrow> \<not> mach_exists m
      | ME_Leased _ _ _ _ _ \<Rightarrow> mach_state m = Some MS_Available
      | ME_LeaseEnded l organisation _ _ \<Rightarrow>
          mach_exists m \<and> is_some_and (mach_lease m) (\<lambda>x. lease_id x = l \<and> lease_organisation x = organisation)
      | ME_Reregistered key retired _ _ _ \<Rightarrow>
          mach_state m = Some MS_Returning \<and> mach_key m = Some retired \<and> \<not> key_used m key
      | ME_Revoked _ _ \<Rightarrow> mach_exists m \<and> mach_state m \<noteq> Some MS_Revoked
      | ME_ProviderLinked _ _ \<Rightarrow> mach_exists m
      | _ \<Rightarrow> mach_state m = Some MS_Active \<or> mach_state m = Some MS_Leased)"

lemma machine_handle_events:
  "machine_handle c m = Inr es \<Longrightarrow> es = [] \<or> (\<exists>e. es = [e] \<and> machine_event_ok m e)"
  by (cases c; clarsimp simp: machine_handlers machine_event_ok_def split: if_splits option.splits;
      auto dest: machine_organisation_Some split: if_splits bool.splits)

lemma machine_inv_step:
  assumes "machine_inv m" "machine_event_ok m e"
  shows "machine_inv (machine_apply m e)"
proof (cases e)
  case (ME_LeaseEnded l organisation who at)
  then show ?thesis
    using assms by (cases "mach_state m"; cases "the (mach_state m)"; clarsimp simp: machine_inv_defs machine_event_ok_def is_some_and_iff)
next
  case (ME_Revoked who at)
  then show ?thesis
    using assms by (cases "mach_key m"; cases "mach_state m"; cases "the (mach_state m)"; clarsimp simp: machine_inv_defs machine_event_ok_def is_none_or_iff)
qed (use assms in \<open>clarsimp simp: machine_inv_defs machine_event_ok_def key_used_def is_none_or_iff
    split: pool.splits option.splits machine_state.splits; fastforce?\<close>)+

interpretation machine: event_sourced machine_apply machine_handle machine_inv machine_default
proof
  show "machine_inv machine_default" by (simp add: machine_inv_defs machine_default_def)
  fix m c es assume "machine_inv m" "machine_handle c m = Inr es"
  with machine_handle_events[of c m es] show "machine_inv (fold_events machine_apply m es)"
    by (auto intro: machine_inv_step)
qed

definition machine_after :: "machine_command list \<Rightarrow> machine" where
  "machine_after cs = run_commands machine_apply machine_handle machine_default cs"

lemma machine_after_inv: "machine_inv (machine_after cs)"
  unfolding machine_after_def by (rule machine.inv_run)

lemma machine_after_append:
  "machine_after (cs @ ds) = run_commands machine_apply machine_handle (machine_after cs) ds"
  by (simp add: machine_after_def run_commands_append)

text \<open>
  C15: A machine is in one pool for its whole life and in at most one organisation at a time: its
  own, or the lessee's while it is on lease. A machine nobody has (available or returning) is
  clean: no lease, no open port, no label, in service. A revoked machine has no key, no lease and
  no open port, and belongs to no organisation. It never uses a key twice.
\<close>

theorem machine_life:
  "(case mach_state (machine_after cs) of
      None \<Rightarrow> \<not> mach_exists (machine_after cs) \<and> machine_organisation (machine_after cs) = None
    | Some MS_Active \<Rightarrow> (\<exists>g. mach_pool (machine_after cs) = Some (Pool_Organisation g) \<and>
        machine_organisation (machine_after cs) = Some g)
    | Some MS_Leased \<Rightarrow> mach_pool (machine_after cs) = Some Pool_Management \<and>
        (\<exists>l. mach_lease (machine_after cs) = Some l \<and>
          machine_organisation (machine_after cs) = Some (lease_organisation l))
    | Some MS_Revoked \<Rightarrow> mach_key (machine_after cs) = None \<and> mach_lease (machine_after cs) = None \<and>
        mach_ports (machine_after cs) = [] \<and> machine_organisation (machine_after cs) = None
    | Some _ \<Rightarrow> mach_pool (machine_after cs) = Some Pool_Management \<and>
        mach_lease (machine_after cs) = None \<and> mach_ports (machine_after cs) = [] \<and>
        mach_labels (machine_after cs) = [] \<and> \<not> mach_cordoned (machine_after cs) \<and>
        machine_organisation (machine_after cs) = None) \<and>
   distinct (mach_retired_keys (machine_after cs)) \<and>
   is_none_or (mach_key (machine_after cs)) (\<lambda>k. k \<notin> set (mach_retired_keys (machine_after cs)))"
proof -
  let ?m = "machine_after cs"
  have inv: "keys_wf ?m" "life_wf ?m" using machine_after_inv[of cs] by (simp_all add: machine_inv_def)
  show ?thesis
    using inv
    by (cases "mach_state ?m"; cases "the (mach_state ?m)"; cases "mach_pool ?m"; cases "the (mach_pool ?m)";
        cases "mach_lease ?m"; simp add: life_wf_def unlet_def keys_wf_def machine_organisation_def)
qed

text \<open>A key whose lease has ended: retired, or still held by a machine that waits to be wiped.\<close>

definition spent_key :: "string \<Rightarrow> machine \<Rightarrow> bool" where
  "spent_key k m \<longleftrightarrow>
     k \<in> set (mach_retired_keys m) \<or> mach_state m = Some MS_Returning \<and> mach_key m = Some k"

interpretation spent: event_sourced_stable machine_apply machine_handle machine_inv machine_default
  "spent_key k" for k
proof
  fix m c es assume m: "machine_inv m" "spent_key k m" "machine_handle c m = Inr es"
  have "spent_key k (machine_apply m e)" if "machine_event_ok m e" for e
    using that m(1,2)
    by (cases e; cases "mach_state m"; cases "the (mach_state m)";
        clarsimp simp: spent_key_def machine_event_ok_def machine_inv_defs)
  with machine_handle_events[OF m(3)] m(2) show "spent_key k (fold_events machine_apply m es)" by auto
qed

text \<open>
  A key that served one lessee never serves another. Once a lease ended, whatever happens to
  the machine afterwards, as long as it still has the key of that lease it is only waiting to be
  wiped: to be available or leased again it has registered under a key it never used before.
\<close>

theorem lease_key_retired:
  assumes "mach_state (machine_after cs) = Some MS_Leased" "mach_key (machine_after cs) = Some k"
  shows "mach_key (machine_after (cs @ MC_EndLease actor at # ds)) = Some k \<longrightarrow>
      mach_state (machine_after (cs @ MC_EndLease actor at # ds)) = Some MS_Returning"
    (is "_ (machine_after ?cs) = _ \<longrightarrow> _")
proof
  assume k: "mach_key (machine_after ?cs) = Some k"
  have inv: "machine_inv (machine_after cs)" by (rule machine_after_inv)
  then obtain l where l: "mach_lease (machine_after cs) = Some l" "mach_exists (machine_after cs)"
    using assms(1) by (auto simp: machine_inv_def life_wf_def)
  have handled: "machine_handle (MC_EndLease actor at) (machine_after cs) =
      Inr [ME_LeaseEnded (lease_id l) (lease_organisation l) actor at]"
    using l assms(1) by (simp add: machine_handlers)
  let ?ended = "machine_apply (machine_after cs) (ME_LeaseEnded (lease_id l) (lease_organisation l) actor at)"
  have "machine_inv ?ended" using machine.inv_handle[OF inv handled] by simp
  moreover have "spent_key k ?ended" using assms(2) by (simp add: spent_key_def)
  ultimately have "spent_key k (run_commands machine_apply machine_handle ?ended ds)"
    by (rule spent.fact_run_from)
  then have "spent_key k (machine_after ?cs)"
    unfolding machine_after_append by (simp add: handled)
  with k machine_after_inv[of ?cs] show "mach_state (machine_after ?cs) = Some MS_Returning"
    by (auto simp: spent_key_def machine_inv_def keys_wf_def)
qed

definition demo_facts :: machine_facts where
  "demo_facts = \<lparr>fact_hostname = [], fact_arch = [], fact_cpu_model = [], fact_cpus = 1, fact_memory_mib = 1,
     fact_disk_gib = 1, fact_os = [], fact_kernel = [], fact_agent_version = [], fact_fleet_machine_id = []\<rparr>"

definition demo_leased :: "machine_command list" where
  "demo_leased = [MC_Register Pool_Management ''m'' ''k1'' 1 ''op'' demo_facts None 0, MC_Lease 9 5 70 ''web'' 1]"

theorem lease_key_retired_witness:
  "mach_key (machine_after (demo_leased @ MC_EndLease 9 2 # [MC_Lease 9 6 80 ''db'' 3])) = Some ''k1'' \<and>
   mach_state (machine_after (demo_leased @ MC_EndLease 9 2 # [MC_Lease 9 6 80 ''db'' 3])) = Some MS_Returning"
proof -
  have "mach_state (machine_after demo_leased) = Some MS_Leased" "mach_key (machine_after demo_leased) = Some ''k1''"
    by code_simp+
  note retired = lease_key_retired[OF this]
  have "mach_key (machine_after (demo_leased @ MC_EndLease 9 2 # [MC_Lease 9 6 80 ''db'' 3])) = Some ''k1''"
    by code_simp
  with retired show ?thesis by blast
qed

section \<open>Enrollment\<close>

lemma show_nat_inject: "show_nat m = show_nat n \<longleftrightarrow> m = n"
proof (induction m arbitrary: n rule: show_nat.induct)
  case (1 m)
  have digit: "show_digit a = show_digit b \<longleftrightarrow> a = b" if "a < 10" "b < 10" for a b
    using show_digit_props[OF that(1)] show_digit_props[OF that(2)] by (metis add_left_cancel)
  have short: "length (show_nat k) = 1 \<longleftrightarrow> k < 10" for k
    by (subst show_nat.simps) (use show_nat_digits[of "k div 10"] in auto)
  show ?case
  proof (cases "m < 10 \<and> n < 10")
    case True
    then show ?thesis by (simp add: show_nat.simps[of m] show_nat.simps[of n] digit)
  next
    case False
    show ?thesis
    proof (cases "m < 10 \<or> n < 10")
      case True
      then have "length (show_nat m) \<noteq> length (show_nat n)" using False short by metis
      then show ?thesis by auto
    next
      case big: False
      then have "show_nat m = show_nat n \<longleftrightarrow> m div 10 = n div 10 \<and> m mod 10 = n mod 10"
        using 1[of "n div 10"] by (simp add: show_nat.simps[of m] show_nat.simps[of n] digit)
      also have "\<dots> \<longleftrightarrow> m = n" by (metis div_mult_mod_eq)
      finally show ?thesis .
    qed
  qed
qed

lemma show_int_inject: "show_int i = show_int j \<longleftrightarrow> i = j"
proof -
  have "CHR ''-'' \<notin> set (show_nat k)" for k
    using show_nat_digits[of k] by (auto simp: list_all_iff is_ascii_digit_def byte_def)
  then have "''-'' @ a \<noteq> show_nat k" for a k by (metis append_Cons list.set_intros(1))
  then show ?thesis
    by (auto simp: show_int_def show_nat_inject dest: sym split: if_splits)
qed

lemma show_int_no_newline: "CHR 0x0A \<notin> set (show_int i)"
  using show_nat_digits[of "nat i"] show_nat_digits[of "nat (- i)"]
  by (auto simp: show_int_def list_all_iff is_ascii_digit_def byte_def)

text \<open>
  A proof of enrollment cannot be replayed: the message a machine signs determines the
  instance's origin (which has no line break), the time and the digest of the token, so two
  messages are equal only for the same instance, time and token.
\<close>

theorem enrollment_binds:
  assumes "enrollment_message origin t digest = enrollment_message origin' t' digest'"
    and "CHR 0x0A \<notin> set origin" "CHR 0x0A \<notin> set origin'"
  shows "origin = origin' \<and> t = t' \<and> digest = digest'"
proof -
  let ?tail = "show_int t @ [CHR 0x0A] @ digest" and ?tail' = "show_int t' @ [CHR 0x0A] @ digest'"
  have "origin @ CHR 0x0A # ?tail = origin' @ CHR 0x0A # ?tail'"
    using assms(1) by (simp add: enrollment_message_def)
  with assms(2,3) have "split_once CHR 0x0A (origin' @ CHR 0x0A # ?tail') = Some (origin, ?tail)"
    "split_once CHR 0x0A (origin' @ CHR 0x0A # ?tail') = Some (origin', ?tail')"
    unfolding split_once_Some by simp_all
  then have o: "origin = origin'" and "?tail = ?tail'" by simp_all
  then have "split_once CHR 0x0A ?tail' = Some (show_int t, digest)"
    "split_once CHR 0x0A ?tail' = Some (show_int t', digest')"
    unfolding split_once_Some using show_int_no_newline by simp_all
  then have "show_int t = show_int t'" "digest = digest'" by simp_all
  with o show ?thesis by (simp add: show_int_inject)
qed

theorem enrollment_binds_witness:
  "enrollment_message ''https://a.example'' 17 ''00ff'' = PREFIX_ENROLL @ ''https://a.example'' @ [CHR 0x0A] @
     ''17'' @ [CHR 0x0A] @ ''00ff'' \<and>
   enrollment_message ''https://a.example'' 17 ''00ff'' \<noteq> enrollment_message ''https://a.example'' 18 ''00ff''"
proof
  show "enrollment_message ''https://a.example'' 17 ''00ff'' = PREFIX_ENROLL @ ''https://a.example'' @ [CHR 0x0A] @
     ''17'' @ [CHR 0x0A] @ ''00ff''"
    by code_simp
  show "enrollment_message ''https://a.example'' 17 ''00ff'' \<noteq> enrollment_message ''https://a.example'' 18 ''00ff''"
  proof
    assume "enrollment_message ''https://a.example'' 17 ''00ff'' = enrollment_message ''https://a.example'' 18 ''00ff''"
    then have "(17 :: int) = 18" by (rule enrollment_binds[THEN conjunct2, THEN conjunct1]) simp_all
    then show False by simp
  qed
qed

end
