(* ===== verification/Account.thy ===== *)
theory Account
  imports Prelude
begin

text \<open>
  The account aggregate (\<open>grund-domain/src/account.rs\<close>): a person's security history, from the
  registration on.
\<close>

section \<open>The code\<close>

datatype registration_method = RM_Password | RM_Social string | RM_SetupLink
datatype password_change_reason = PC_Reset

datatype account_event =
  AC_Registered string uuid registration_method time
| AC_EmailVerified string time
| AC_PasswordChanged password_change_reason time
| AC_IdentityLinked string uuid time

datatype account_status = NonExistent | Active

record linked_identity =
  li_provider :: string
  li_identity :: uuid

record account =
  acc_status :: account_status
  acc_username :: "string option"
  acc_organisation :: "uuid option"
  acc_email_digest :: "string option"
  acc_identities :: "linked_identity list"
  acc_password_changes :: nat

definition account_default :: account where
  "account_default =
     \<lparr>acc_status = NonExistent, acc_username = None, acc_organisation = None, acc_email_digest = None,
      acc_identities = [], acc_password_changes = 0\<rparr>"

definition is_email_verified :: "account \<Rightarrow> bool" where
  "is_email_verified a \<longleftrightarrow> acc_email_digest a \<noteq> None"

definition has_identity :: "uuid \<Rightarrow> account \<Rightarrow> bool" where
  "has_identity i a \<longleftrightarrow> list_ex (\<lambda>l. li_identity l = i) (acc_identities a)"

definition u32_saturating_add :: "nat \<Rightarrow> nat \<Rightarrow> nat" where
  "u32_saturating_add m n = min (m + n) (2 ^ 32 - 1)"

fun account_apply :: "account \<Rightarrow> account_event \<Rightarrow> account" where
  "account_apply a (AC_Registered username organisation _ _) =
     a\<lparr>acc_status := Active, acc_username := Some username, acc_organisation := Some organisation\<rparr>"
| "account_apply a (AC_EmailVerified digest _) = a\<lparr>acc_email_digest := Some digest\<rparr>"
| "account_apply a (AC_PasswordChanged _ _) =
     a\<lparr>acc_password_changes := u32_saturating_add (acc_password_changes a) 1\<rparr>"
| "account_apply a (AC_IdentityLinked provider i _) =
     (if has_identity i a then a
      else a\<lparr>acc_identities := acc_identities a @ [\<lparr>li_provider = provider, li_identity = i\<rparr>]\<rparr>)"

datatype account_command =
  AM_Register string uuid registration_method time
| AM_VerifyEmail string time
| AM_ChangePassword password_change_reason time
| AM_LinkIdentity string uuid time

datatype account_error = Acc_AlreadyRegistered | Acc_NotFound

definition account_handle :: "account_command \<Rightarrow> account \<Rightarrow> account_error + account_event list" where
  "account_handle c a =
     (let exists = (acc_status a = Active) in
      case c of
        AM_Register username organisation registration at \<Rightarrow>
          if exists then Inl Acc_AlreadyRegistered
          else Inr [AC_Registered username organisation registration at]
      | _ \<Rightarrow>
          if \<not> exists then Inl Acc_NotFound
          else case c of
            AM_VerifyEmail digest at \<Rightarrow>
              if acc_email_digest a = Some digest then Inr [] else Inr [AC_EmailVerified digest at]
          | AM_ChangePassword reason at \<Rightarrow> Inr [AC_PasswordChanged reason at]
          | AM_LinkIdentity provider i at \<Rightarrow>
              if has_identity i a then Inr [] else Inr [AC_IdentityLinked provider i at]
          | AM_Register _ _ _ _ \<Rightarrow> Inl Acc_AlreadyRegistered)"

section \<open>Its history\<close>

definition account_inv :: "account \<Rightarrow> bool" where
  "account_inv a \<longleftrightarrow>
     distinct (map li_identity (acc_identities a)) \<and> acc_password_changes a < 2 ^ 32 \<and>
     (acc_status a = NonExistent \<longrightarrow> a = account_default) \<and>
     (acc_status a = Active \<longrightarrow> acc_username a \<noteq> None \<and> acc_organisation a \<noteq> None)"

interpretation account: event_sourced account_apply account_handle account_inv account_default
proof
  show "account_inv account_default" by (simp add: account_inv_def account_default_def)
  fix a c es assume "account_inv a" "account_handle c a = Inr es"
  then show "account_inv (fold_events account_apply a es)"
    by (cases c; clarsimp simp: account_handle_def Let_def account_inv_def has_identity_def list_ex_iff
        u32_saturating_add_def account_default_def split: if_splits; auto simp: min_def)
qed

text \<open>What a registered account never loses: its name, its organisation, an identity, a verification.\<close>

definition account_keeps :: "account \<Rightarrow> account \<Rightarrow> bool" where
  "account_keeps a b \<longleftrightarrow>
     acc_status b = Active \<and> acc_username b = acc_username a \<and> acc_organisation b = acc_organisation a \<and>
     (is_email_verified a \<longrightarrow> is_email_verified b) \<and>
     set (acc_identities a) \<subseteq> set (acc_identities b) \<and>
     acc_password_changes a \<le> acc_password_changes b"

interpretation account_history: event_sourced_stable account_apply account_handle account_inv
  account_default "account_keeps a" for a
proof
  fix b c es assume "account_inv b" "account_keeps a b" "account_handle c b = Inr es"
  then show "account_keeps a (fold_events account_apply b es)"
    by (cases c; clarsimp simp: account_handle_def Let_def account_keeps_def has_identity_def list_ex_iff
        is_email_verified_def account_inv_def u32_saturating_add_def split: if_splits; auto)
qed

definition account_after :: "account_command list \<Rightarrow> account" where
  "account_after cs = run_commands account_apply account_handle account_default cs"

text \<open>
  An account only gains: once registered, whatever is asked of it afterwards, its username and
  organisation stay what the registration made them (a second registration is refused), a verified
  address stays verified, every linked identity stays linked and is linked once, and the count of
  password changes does not go back.
\<close>

theorem account_only_gains:
  assumes "acc_status (account_after cs) = Active"
  shows "account_keeps (account_after cs) (account_after (cs @ ds)) \<and>
    distinct (map li_identity (acc_identities (account_after (cs @ ds))))"
proof
  have "account_inv (account_after (cs @ ds))"
    unfolding account_after_def by (rule account.inv_run)
  then show "distinct (map li_identity (acc_identities (account_after (cs @ ds))))"
    by (simp add: account_inv_def)
  have "account_keeps (account_after cs)
      (run_commands account_apply account_handle (account_after cs) ds)"
    by (rule account_history.fact_run_from)
      (use assms account.inv_run in \<open>simp_all add: account_keeps_def account_after_def\<close>)
  then show "account_keeps (account_after cs) (account_after (cs @ ds))"
    by (simp add: account_after_def run_commands_append)
qed

theorem account_only_gains_witness:
  "acc_username (account_after ([AM_Register ''kasper'' 4 RM_Password 0, AM_LinkIdentity ''github'' 8 1] @
      [AM_Register ''other'' 5 RM_Password 2, AM_LinkIdentity ''github'' 8 3])) = Some ''kasper''"
proof -
  let ?cs = "[AM_Register ''kasper'' 4 RM_Password 0, AM_LinkIdentity ''github'' 8 1]"
  have a: "acc_status (account_after ?cs) = Active" "acc_username (account_after ?cs) = Some ''kasper''"
    by code_simp+
  show ?thesis
    using account_only_gains[OF a(1), of "[AM_Register ''other'' 5 RM_Password 2, AM_LinkIdentity ''github'' 8 3]"] a(2)
    by (simp add: account_keeps_def)
qed

end
