(* ===== verification/Stack.thy ===== *)
theory Stack
  imports App Maps
begin

text \<open>
  The stack aggregate (\<open>grund-domain/src/stack.rs\<close>): the immutable revisions of a bundle of
  services, and the one durable operation that is in progress.
\<close>

section \<open>Revisions and operations\<close>

record service =
  svc_app :: uuid
  svc_app_name :: string
  svc_release :: release
  svc_settings :: app_settings
  svc_depends_on :: "string list"
  svc_exclusive :: bool
  svc_template :: "string option"

record revision =
  rev_number :: nat
  rev_yaml :: string
  rev_services :: "(string \<times> service) list"
  rev_public_service :: "string option"
  rev_public_port :: "string option"
  rev_created_at :: time
  rev_created_by :: uuid
  rev_rollback_of :: "nat option"

datatype stack_kind = Deploy | Restart_stack | Rollback_stack | Delete_stack | Restore_stack

datatype stack_step = Step_Pending | Step_Applying | Step_Stopping

record operation =
  op_id :: uuid
  op_kind :: stack_kind
  op_target_revision :: nat
  op_previous_revision :: nat
  op_order :: "string list"
  op_cursor :: nat
  op_step :: stack_step
  op_started_at :: time
  op_deadline :: time
  op_compensating :: bool
  op_failure :: "string option"
  op_releases :: "(string \<times> nat) list"
  op_halting :: bool

text \<open>The release a service's executions run: the operation's, the bundle's, or the current one of the
  app where it is the same in all but its number.\<close>

definition same_release :: "release \<Rightarrow> release \<Rightarrow> bool" where
  "same_release a b \<longleftrightarrow>
     rel_spec a = rel_spec b \<and> rel_image_digest a = rel_image_digest b \<and>
     rel_secret_versions a = rel_secret_versions b"

definition current_execution :: "service \<Rightarrow> app \<Rightarrow> nat" where
  "current_execution s a =
     (case app_current_release a of
        Some n \<Rightarrow>
          if is_some_and (app_release a n) (\<lambda>r. same_release r (svc_release s)) then n
          else rel_number (svc_release s)
      | None \<Rightarrow> rel_number (svc_release s))"

definition execution_release :: "service \<Rightarrow> string \<Rightarrow> operation option \<Rightarrow> app \<Rightarrow> nat" where
  "execution_release s name operation a =
     (case operation of
        Some op \<Rightarrow>
          (case map_of (op_releases op) name of
             Some n \<Rightarrow> n
           | None \<Rightarrow>
               if name \<in> set (op_order op) then rel_number (svc_release s) else current_execution s a)
      | None \<Rightarrow> current_execution s a)"

section \<open>State and events\<close>

datatype stack_status =
  SS_NonExistent | SS_Waiting | SS_Deploying | SS_Ready | SS_Degraded | SS_RollingBack | SS_Halted
| SS_Deleting | SS_Deleted

definition stack_status_as_str :: "stack_status \<Rightarrow> string" where
  "stack_status_as_str s =
     (case s of
        SS_NonExistent \<Rightarrow> ''non_existent'' | SS_Waiting \<Rightarrow> ''waiting'' | SS_Deploying \<Rightarrow> ''deploying''
      | SS_Ready \<Rightarrow> ''ready'' | SS_Degraded \<Rightarrow> ''degraded'' | SS_RollingBack \<Rightarrow> ''rolling_back''
      | SS_Halted \<Rightarrow> ''halted'' | SS_Deleting \<Rightarrow> ''deleting'' | SS_Deleted \<Rightarrow> ''deleted'')"

record stack =
  st_exists :: bool
  st_organisation :: uuid
  st_name :: string
  st_revisions :: "(nat \<times> revision) list"
  st_desired_revision :: nat
  st_applied_revision :: nat
  st_machine :: "uuid option"
  st_operation :: "operation option"
  st_status :: stack_status
  st_failure :: "string option"
  st_purge_after :: "time option"

definition stack_default :: stack where
  "stack_default =
     \<lparr>st_exists = False, st_organisation = 0, st_name = [], st_revisions = [], st_desired_revision = 0,
      st_applied_revision = 0, st_machine = None, st_operation = None, st_status = SS_NonExistent,
      st_failure = None, st_purge_after = None\<rparr>"

datatype stack_event =
  SE_Created uuid string
| SE_RevisionRequested revision operation
| SE_OperationRequested operation
| SE_OperationAdvanced operation stack_status "uuid option" "string option"
| SE_OperationCompleted nat stack_status "time option" "string option"
| SE_HealthChanged stack_status

fun stack_apply :: "stack \<Rightarrow> stack_event \<Rightarrow> stack" where
  "stack_apply s (SE_Created organisation name) =
     s\<lparr>st_exists := True, st_organisation := organisation, st_name := name, st_status := SS_Waiting\<rparr>"
| "stack_apply s (SE_RevisionRequested revision operation) =
     s\<lparr>st_desired_revision := rev_number revision,
       st_revisions := bt_insert (rev_number revision) revision (st_revisions s),
       st_operation := Some operation,
       st_status := (if op_kind operation = Rollback_stack then SS_RollingBack else SS_Waiting),
       st_failure := None\<rparr>"
| "stack_apply s (SE_OperationRequested operation) =
     s\<lparr>st_status :=
         (case op_kind operation of
            Delete_stack \<Rightarrow> SS_Deleting | Rollback_stack \<Rightarrow> SS_RollingBack | _ \<Rightarrow> SS_Waiting),
       st_operation := Some operation, st_failure := None\<rparr>"
| "stack_apply s (SE_OperationAdvanced operation status machine failure) =
     s\<lparr>st_operation := Some operation, st_status := status, st_machine := machine, st_failure := failure\<rparr>"
| "stack_apply s (SE_OperationCompleted applied status purge_after failure) =
     (let s = s\<lparr>st_applied_revision := applied, st_operation := None, st_status := status,
                st_purge_after := purge_after, st_failure := failure\<rparr>
      in if status = SS_Deleted then s\<lparr>st_machine := None\<rparr> else s)"
| "stack_apply s (SE_HealthChanged status) = s\<lparr>st_status := status\<rparr>"

section \<open>Commands\<close>

datatype stack_command =
  SC_Create uuid string
| SC_Revise revision operation
| SC_Operate operation time
| SC_Compensate uuid revision operation
| SC_Advance operation stack_status "uuid option" "string option"
| SC_Complete uuid nat stack_status "time option" "string option"
| SC_Health stack_status

datatype stack_error = Stack_NotFound | Stack_Exists | Stack_Busy | Stack_Conflict | Stack_Invalid

type_synonym stack_result = "stack_error + stack_event list"

definition services_bounded :: "revision \<Rightarrow> bool" where
  "services_bounded r \<longleftrightarrow> rev_services r \<noteq> [] \<and> length (rev_services r) \<le> 10"

text \<open>Whether a name had another app in an earlier revision.\<close>

definition identity_changed :: "stack \<Rightarrow> revision \<Rightarrow> bool" where
  "identity_changed s r \<longleftrightarrow>
     list_ex (\<lambda>(name, service).
       list_ex (\<lambda>(_, old). is_some_and (map_of (rev_services old) name) (\<lambda>o'. svc_app o' \<noteq> svc_app service))
         (st_revisions s))
       (rev_services r)"

definition revise :: "revision \<Rightarrow> operation \<Rightarrow> stack \<Rightarrow> stack_result" where
  "revise revision operation s =
     (if st_operation s \<noteq> None then Inl Stack_Busy
      else if st_status s = SS_Deleted \<or>
              rev_number revision \<noteq> u32_add (st_desired_revision s) 1 \<or>
              op_target_revision operation \<noteq> rev_number revision \<or> \<not> services_bounded revision
      then Inl Stack_Invalid
      else if identity_changed s revision then Inl Stack_Invalid
      else Inr [SE_RevisionRequested revision operation])"

definition another_operation :: "uuid \<Rightarrow> stack \<Rightarrow> bool" where
  "another_operation i s \<longleftrightarrow> is_none_or (st_operation s) (\<lambda>op. op_id op \<noteq> i)"

definition compensate :: "uuid \<Rightarrow> revision \<Rightarrow> operation \<Rightarrow> stack \<Rightarrow> stack_result" where
  "compensate i revision operation s =
     (if another_operation i s \<or> op_id operation \<noteq> i then Inl Stack_Conflict
      else if \<not> op_compensating operation \<or>
              rev_number revision \<noteq> u32_add (st_desired_revision s) 1 \<or>
              rev_number revision \<noteq> op_target_revision operation \<or> \<not> services_bounded revision
      then Inl Stack_Invalid
      else Inr [SE_RevisionRequested revision operation])"

definition operate :: "operation \<Rightarrow> time \<Rightarrow> stack \<Rightarrow> stack_result" where
  "operate operation at s =
     (if is_some_and (st_operation s)
         (\<lambda>current. op_kind operation \<noteq> Delete_stack \<or> op_id current = op_id operation)
      then Inl Stack_Busy
      else if op_kind operation = Restore_stack \<and>
              (st_status s \<noteq> SS_Deleted \<or> \<not> is_some_and (st_purge_after s) (\<lambda>due. at < due))
      then Inl Stack_NotFound
      else if op_kind operation \<noteq> Restore_stack \<and> st_status s = SS_Deleted then Inl Stack_NotFound
      else Inr [SE_OperationRequested operation])"

definition advance ::
  "operation \<Rightarrow> stack_status \<Rightarrow> uuid option \<Rightarrow> string option \<Rightarrow> stack \<Rightarrow> stack_result" where
  "advance operation status machine failure s =
     (case st_operation s of
        None \<Rightarrow> Inl Stack_Conflict
      | Some current \<Rightarrow>
          if op_id current \<noteq> op_id operation then Inl Stack_Conflict
          else if current = operation \<and> st_status s = status \<and> st_machine s = machine \<and>
                  st_failure s = failure
          then Inr []
          else Inr [SE_OperationAdvanced operation status machine failure])"

definition complete_operation ::
  "uuid \<Rightarrow> nat \<Rightarrow> stack_status \<Rightarrow> time option \<Rightarrow> string option \<Rightarrow> stack \<Rightarrow> stack_result" where
  "complete_operation i applied status purge_after failure s =
     (if another_operation i s then Inl Stack_Conflict
      else Inr [SE_OperationCompleted applied status purge_after failure])"

definition change_health :: "stack_status \<Rightarrow> stack \<Rightarrow> stack_result" where
  "change_health status s =
     (if st_operation s \<noteq> None \<or> status \<notin> {SS_Ready, SS_Degraded} \<or>
         st_status s \<notin> {SS_Ready, SS_Degraded}
      then Inl Stack_Invalid
      else if st_status s = status then Inr [] else Inr [SE_HealthChanged status])"

definition stack_handle :: "stack_command \<Rightarrow> stack \<Rightarrow> stack_result" where
  "stack_handle c s =
     (case c of
        SC_Create organisation name \<Rightarrow>
          if st_exists s then Inl Stack_Exists else Inr [SE_Created organisation name]
      | _ \<Rightarrow>
          if \<not> st_exists s then Inl Stack_NotFound
          else case c of
            SC_Create _ _ \<Rightarrow> Inl Stack_Invalid
          | SC_Revise revision operation \<Rightarrow> revise revision operation s
          | SC_Compensate i revision operation \<Rightarrow> compensate i revision operation s
          | SC_Operate operation at \<Rightarrow> operate operation at s
          | SC_Advance operation status machine failure \<Rightarrow> advance operation status machine failure s
          | SC_Complete i applied status purge_after failure \<Rightarrow>
              complete_operation i applied status purge_after failure s
          | SC_Health status \<Rightarrow> change_health status s)"

lemmas stack_handlers =
  stack_handle_def revise_def compensate_def operate_def advance_def complete_operation_def
  change_health_def

lemma stack_handle_single: "stack_handle c s = Inr es \<Longrightarrow> es = [] \<or> (\<exists>e. es = [e])"
  by (cases c) (auto simp: stack_handlers split: if_splits option.splits)

section \<open>The revisions\<close>

text \<open>
  Revisions are numbered from 1 in 32 bits. A revision 0 would mean that the numbers have run out;
  until then they are 1 to the desired one, each once.
\<close>

definition numbers_left :: "stack \<Rightarrow> bool" where
  "numbers_left s \<longleftrightarrow> map_of (st_revisions s) 0 = None"

definition revisions_wf :: "stack \<Rightarrow> bool" where
  "revisions_wf s \<longleftrightarrow>
     map fst (st_revisions s) = [1..<Suc (st_desired_revision s)] \<and> st_desired_revision s < 2 ^ 32 \<and>
     list_all (\<lambda>(n, r). rev_number r = n \<and> services_bounded r) (st_revisions s)"

definition stack_inv :: "stack \<Rightarrow> bool" where
  "stack_inv s \<longleftrightarrow>
     (numbers_left s \<longrightarrow> revisions_wf s) \<and> (st_operation s \<noteq> None \<longrightarrow> st_exists s)"

lemma numbers_left_insert: "numbers_left (s\<lparr>st_revisions := bt_insert n r (st_revisions s)\<rparr>) \<longleftrightarrow> numbers_left s \<and> n \<noteq> 0"
  by (auto simp: numbers_left_def bt_insert_get)

lemma revisions_wf_insert:
  assumes "revisions_wf s" "rev_number r = u32_add (st_desired_revision s) 1" "rev_number r \<noteq> 0"
    "services_bounded r"
  shows "bt_insert (rev_number r) r (st_revisions s) = st_revisions s @ [(rev_number r, r)] \<and>
    rev_number r = Suc (st_desired_revision s) \<and> Suc (st_desired_revision s) < 2 ^ 32"
proof -
  have "Suc (st_desired_revision s) < 2 ^ 32"
  proof (rule ccontr)
    assume "\<not> ?thesis"
    then have "Suc (st_desired_revision s) = 2 ^ 32" using assms(1) by (simp add: revisions_wf_def)
    then have "u32_add (st_desired_revision s) 1 = 0" by (simp add: u32_add_def)
    with assms show False by simp
  qed
  then have n: "rev_number r = Suc (st_desired_revision s)" using assms(2) by simp
  have "set (map fst (st_revisions s)) = {1..<Suc (st_desired_revision s)}"
    using assms(1) unfolding revisions_wf_def by (simp only: set_upt)
  then have "\<forall>x\<in>fst ` set (st_revisions s). x < rev_number r" using n by simp
  then have "bt_insert (rev_number r) r (st_revisions s) = st_revisions s @ [(rev_number r, r)]"
    by (rule bt_insert_end)
  with n \<open>Suc (st_desired_revision s) < 2 ^ 32\<close> show ?thesis by blast
qed

lemma numbers_left_after:
  assumes "numbers_left (stack_apply s (SE_RevisionRequested r op))"
  shows "numbers_left s" "rev_number r \<noteq> 0"
  using assms by (auto simp: numbers_left_def bt_insert_get split: if_splits)

lemma stack_inv_revision:
  assumes "stack_inv s" "rev_number r = u32_add (st_desired_revision s) 1" "services_bounded r" "st_exists s"
  shows "stack_inv (stack_apply s (SE_RevisionRequested r op))"
proof -
  let ?s = "stack_apply s (SE_RevisionRequested r op)"
  have "revisions_wf ?s" if "numbers_left ?s"
  proof -
    have "numbers_left s" "rev_number r \<noteq> 0"
      using that by (rule numbers_left_after)+
    with assms have wf: "revisions_wf s" by (simp add: stack_inv_def)
    let ?d = "st_desired_revision s"
    from revisions_wf_insert[OF wf assms(2) \<open>rev_number r \<noteq> 0\<close> assms(3)]
    have n: "rev_number r = Suc ?d" "Suc ?d < 2 ^ 32"
      and ins: "bt_insert (rev_number r) r (st_revisions s) = st_revisions s @ [(rev_number r, r)]"
      by blast+
    have revs: "st_revisions ?s = st_revisions s @ [(rev_number r, r)]"
      by (simp only: stack_apply.simps ins) simp
    have "[1..<Suc (Suc ?d)] = [1..<Suc ?d] @ [Suc ?d]" by (rule upt_Suc_append) simp
    then have "map fst (st_revisions ?s) = [1..<Suc (st_desired_revision ?s)]"
      using wf n(1) unfolding revs revisions_wf_def by (simp del: upt_Suc)
    then show ?thesis
      using wf n assms(3) unfolding revisions_wf_def revs by simp
  qed
  with assms(4) show ?thesis by (simp add: stack_inv_def)
qed

definition stack_event_ok :: "stack \<Rightarrow> stack_event \<Rightarrow> bool" where
  "stack_event_ok s e \<longleftrightarrow>
     (case e of
        SE_Created _ _ \<Rightarrow> \<not> st_exists s
      | SE_RevisionRequested r _ \<Rightarrow>
          st_exists s \<and> rev_number r = u32_add (st_desired_revision s) 1 \<and> services_bounded r
      | _ \<Rightarrow> st_exists s)"

lemma stack_handle_events:
  "stack_handle c s = Inr es \<Longrightarrow> es = [] \<or> (\<exists>e. es = [e] \<and> stack_event_ok s e)"
  by (cases c) (auto simp: stack_handlers stack_event_ok_def split: if_splits option.splits)

lemma stack_inv_step: "stack_inv s \<Longrightarrow> stack_event_ok s e \<Longrightarrow> stack_inv (stack_apply s e)"
proof (cases e)
  case (SE_RevisionRequested r op)
  then show "stack_inv s \<Longrightarrow> stack_event_ok s e \<Longrightarrow> ?thesis"
    using stack_inv_revision by (simp add: stack_event_ok_def del: stack_apply.simps)
qed (auto simp: stack_inv_def stack_event_ok_def numbers_left_def revisions_wf_def Let_def)

interpretation stack: event_sourced stack_apply stack_handle stack_inv stack_default
proof
  show "stack_inv stack_default" by (simp add: stack_inv_def stack_default_def revisions_wf_def)
  fix s c es assume "stack_inv s" "stack_handle c s = Inr es"
  with stack_handle_events[of c s es] show "stack_inv (fold_events stack_apply s es)"
    by (auto intro: stack_inv_step)
qed

text \<open>A revision that was recorded stays as it was, until the numbers run out.\<close>

definition keeps_revision :: "nat \<Rightarrow> revision \<Rightarrow> stack \<Rightarrow> bool" where
  "keeps_revision n r s \<longleftrightarrow> numbers_left s \<longrightarrow> map_of (st_revisions s) n = Some r"

lemma keeps_revision_insert:
  assumes "stack_inv s" "keeps_revision n r s" "stack_event_ok s (SE_RevisionRequested q op)"
  shows "keeps_revision n r (stack_apply s (SE_RevisionRequested q op))"
  unfolding keeps_revision_def
proof
  assume "numbers_left (stack_apply s (SE_RevisionRequested q op))"
  then have left: "numbers_left s" "rev_number q \<noteq> 0"
    by (auto simp: numbers_left_def bt_insert_get split: if_splits)
  with assms(1) have wf: "revisions_wf s" by (simp add: stack_inv_def)
  have "rev_number q = u32_add (st_desired_revision s) 1" "services_bounded q"
    using assms(3) by (simp_all add: stack_event_ok_def)
  from revisions_wf_insert[OF wf this(1) left(2) this(2)]
  have q: "rev_number q = Suc (st_desired_revision s)" by blast
  have kept: "map_of (st_revisions s) n = Some r" using assms(2) left by (simp add: keeps_revision_def)
  then have "n \<in> set (map fst (st_revisions s))" by (force dest: map_of_SomeD)
  then have "n \<in> {1..<Suc (st_desired_revision s)}"
    using wf unfolding revisions_wf_def by (simp only: set_upt)
  then have "n \<le> st_desired_revision s" by simp
  with q kept show "map_of (st_revisions (stack_apply s (SE_RevisionRequested q op))) n = Some r"
    by (simp add: bt_insert_get)
qed

interpretation recorded: event_sourced_stable stack_apply stack_handle stack_inv stack_default
  "keeps_revision n r" for n r
proof
  fix s c es assume s: "stack_inv s" "keeps_revision n r s" "stack_handle c s = Inr es"
  have "keeps_revision n r (stack_apply s e)" if "stack_event_ok s e" for e
  proof (cases e)
    case (SE_RevisionRequested q op)
    then show ?thesis using keeps_revision_insert[OF s(1,2)] that by blast
  qed (use s(2) in \<open>simp_all add: keeps_revision_def numbers_left_def Let_def\<close>)
  with stack_handle_events[OF s(3)] s(2) show "keeps_revision n r (fold_events stack_apply s es)" by auto
qed

section \<open>Properties\<close>

definition stack_after :: "stack_command list \<Rightarrow> stack" where
  "stack_after cs = run_commands stack_apply stack_handle stack_default cs"

text \<open>
  C16: Revisions are immutable and numbered without gaps: whatever is asked of a stack, a revision
  it recorded is never changed or dropped, the recorded numbers are exactly 1 to the desired one,
  and each revision has 1 to 10 services. (A number is 32 bits wide; the claim ends when the
  numbers have run out, which a revision numbered 0 would show.)
\<close>

theorem revisions_immutable:
  assumes "map_of (st_revisions (stack_after cs)) n = Some r"
    and "map_of (st_revisions (stack_after (cs @ ds))) 0 = None"
  shows "map_of (st_revisions (stack_after (cs @ ds))) n = Some r \<and>
    map fst (st_revisions (stack_after (cs @ ds))) = [1..<Suc (st_desired_revision (stack_after (cs @ ds)))] \<and>
    rev_number r = n \<and> 1 \<le> length (rev_services r) \<and> length (rev_services r) \<le> 10"
proof -
  have inv: "stack_inv (stack_after ds')" for ds' unfolding stack_after_def by (rule stack.inv_run)
  have "keeps_revision n r (run_commands stack_apply stack_handle (stack_after cs) ds)"
    by (rule recorded.fact_run_from[OF inv]) (use assms(1) in \<open>simp add: keeps_revision_def\<close>)
  moreover have "run_commands stack_apply stack_handle (stack_after cs) ds = stack_after (cs @ ds)"
    by (simp add: stack_after_def run_commands_append)
  ultimately have kept: "map_of (st_revisions (stack_after (cs @ ds))) n = Some r"
    using assms(2) by (simp add: keeps_revision_def numbers_left_def)
  have wf: "revisions_wf (stack_after (cs @ ds))"
    using inv[of "cs @ ds"] assms(2) by (simp add: stack_inv_def numbers_left_def)
  then have "rev_number r = n \<and> services_bounded r"
    using map_of_SomeD[OF kept] by (auto simp: revisions_wf_def list_all_iff)
  with kept wf show ?thesis
    by (cases "rev_services r") (auto simp: revisions_wf_def services_bounded_def)
qed

text \<open>
  One operation at a time: while an operation is in progress, every command that is accepted
  leaves that operation in progress (advanced, or compensated under the same id), or completes it
  by its id, or supersedes it by a deletion. Anything else is refused.
\<close>

theorem operations_serial:
  assumes "st_operation s = Some op" "stack_handle c s = Inr es"
  shows "case st_operation (fold_events stack_apply s es) of
      None \<Rightarrow> (\<exists>applied status purge_after failure.
        c = SC_Complete (op_id op) applied status purge_after failure)
    | Some next_op \<Rightarrow> op_id next_op = op_id op \<or>
        op_kind next_op = Delete_stack \<and> (\<exists>at. c = SC_Operate next_op at)"
  using assms
  by (cases c) (auto simp: stack_handlers another_operation_def Let_def split: if_splits)

definition demo_operation :: "nat \<Rightarrow> stack_kind \<Rightarrow> nat \<Rightarrow> operation" where
  "demo_operation i kind target =
     \<lparr>op_id = i, op_kind = kind, op_target_revision = target, op_previous_revision = 0, op_order = [],
      op_cursor = 0, op_step = Step_Pending, op_started_at = 0, op_deadline = 100, op_compensating = False,
      op_failure = None, op_releases = [], op_halting = False\<rparr>"

theorem operations_serial_witness:
  "stack_handle (SC_Operate (demo_operation 6 Restart_stack 1) 5)
     (stack_default\<lparr>st_exists := True, st_operation := Some (demo_operation 5 Deploy 1)\<rparr>) = Inl Stack_Busy \<and>
   op_kind (demo_operation 7 Delete_stack 1) = Delete_stack"
proof
  let ?s = "stack_default\<lparr>st_exists := True, st_operation := Some (demo_operation 5 Deploy 1)\<rparr>"
  show "stack_handle (SC_Operate (demo_operation 6 Restart_stack 1) 5) ?s = Inl Stack_Busy" by code_simp
  have "st_operation ?s = Some (demo_operation 5 Deploy 1)" by simp
  moreover have "stack_handle (SC_Operate (demo_operation 7 Delete_stack 1) 5) ?s =
      Inr [SE_OperationRequested (demo_operation 7 Delete_stack 1)]"
    by (simp add: stack_handlers demo_operation_def stack_default_def)
  ultimately show "op_kind (demo_operation 7 Delete_stack 1) = Delete_stack"
    using operations_serial[of ?s "demo_operation 5 Deploy 1" "SC_Operate (demo_operation 7 Delete_stack 1) 5"]
    by (force simp: demo_operation_def)
qed

definition demo_release :: release where
  "demo_release =
     \<lparr>rel_number = 1,
      rel_spec = \<lparr>spec_image = ''nginx'', spec_command = [], spec_ports = [], spec_memory_mib = 512,
        spec_cpu_millis = 1000, spec_env = [], spec_secrets = [], spec_check = None,
        spec_stop = stop_default, spec_volumes = []\<rparr>,
      rel_image_digest = ''sha256:0'', rel_platforms = [], rel_exposed_ports = None,
      rel_secret_versions = [], rel_source = Api, rel_rollback_of = None, rel_note = [],
      rel_created_by = 1, rel_created_at = 0, rel_external_release = None, rel_request = None\<rparr>"

definition demo_revision :: "string \<Rightarrow> revision" where
  "demo_revision yaml =
     \<lparr>rev_number = 1, rev_yaml = yaml,
      rev_services = [(''web'', \<lparr>svc_app = 7, svc_app_name = ''web'', svc_release = demo_release,
        svc_settings = app_settings_default, svc_depends_on = [], svc_exclusive = False, svc_template = None\<rparr>)],
      rev_public_service = None, rev_public_port = None, rev_created_at = 0, rev_created_by = 1,
      rev_rollback_of = None\<rparr>"

theorem revisions_immutable_witness:
  "map_of (st_revisions (stack_after ([SC_Create 1 ''s'', SC_Revise (demo_revision ''a'') (demo_operation 5 Deploy 1)] @
     [SC_Complete 5 1 SS_Ready None None, SC_Revise (demo_revision ''b'') (demo_operation 6 Deploy 1)]))) 1 =
   Some (demo_revision ''a'')"
proof -
  let ?cs = "[SC_Create 1 ''s'', SC_Revise (demo_revision ''a'') (demo_operation 5 Deploy 1)]"
  let ?ds = "[SC_Complete 5 1 SS_Ready None None, SC_Revise (demo_revision ''b'') (demo_operation 6 Deploy 1)]"
  have run: "map_of (st_revisions (stack_after ?cs)) 1 = Some (demo_revision ''a'')"
    "map_of (st_revisions (stack_after (?cs @ ?ds))) 0 = None"
    by (simp_all add: stack_after_def stack_handlers services_bounded_def identity_changed_def
        another_operation_def demo_revision_def demo_operation_def stack_default_def)
  show ?thesis using revisions_immutable[OF run] by blast
qed

end
