(* ===== verification/Public_Build.thy ===== *)
theory Public_Build
  imports Text
begin

text \<open>
  What the rollout of agents names (\<open>grund-domain/src/agent_updates.rs\<close>): the public build of a
  forge (\<open>PublicBuild\<close>), its exact revision and its immutable package, which is either the
  package of \<open>main\<close> at that revision or the tag of a release. Also the errors of the rollout.
\<close>

datatype update_error =
  UE_NotInitialized | UE_InvalidBuild | UE_Paused | UE_SlotOccupied | UE_NoTarget | UE_StaleFence
| UE_InvalidPhase | UE_Expired | UE_InvalidAttempt | UE_SameBoot | UE_GenerationExhausted
| UE_MigrationConflict | UE_MigrationClosed | UE_LifecycleBlocked | UE_ProviderPermitRequired
| UE_RequestConflict | UE_UnsafeVm | UE_Irreversible | UE_VmUpdateConflict

record public_build =
  pb_revision :: string
  pb_package :: string

section \<open>Revisions and packages\<close>

definition lower_hex :: "char \<Rightarrow> bool" where
  "lower_hex b \<longleftrightarrow> is_ascii_digit b \<or> (97 \<le> byte b \<and> byte b \<le> 102)"

definition valid_revision :: "string \<Rightarrow> bool" where
  "valid_revision revision \<longleftrightarrow> length revision = 40 \<and> list_all lower_hex revision"

text \<open>\<open>parse::<u64>\<close> refuses a run of digits past 64 bits.\<close>

definition valid_number :: "string \<Rightarrow> bool" where
  "valid_number number \<longleftrightarrow>
     number \<noteq> [] \<and> (length number = 1 \<or> \<not> starts_with ''0'' number) \<and>
     list_all is_ascii_digit number \<and> digits_value number < 2 ^ 64"

text \<open>\<open>str::split_once\<close> with a string: the parts around its first occurrence.\<close>

fun split_once_str :: "string \<Rightarrow> string \<Rightarrow> (string \<times> string) option" where
  "split_once_str p [] = (if p = [] then Some ([], []) else None)"
| "split_once_str p (c # s) =
     (if starts_with p (c # s) then Some ([], drop (length p) (c # s))
      else map_option (\<lambda>(a, b). (c # a, b)) (split_once_str p s))"

definition tag_base :: "string \<Rightarrow> string option" where
  "tag_base tag =
     (case split_once_str ''-alpha.'' tag of
        Some (base, alpha) \<Rightarrow> if valid_number alpha \<and> alpha \<noteq> ''0'' then Some base else None
      | None \<Rightarrow> Some tag)"

definition valid_tag :: "string \<Rightarrow> bool" where
  "valid_tag package =
     (case strip_prefix ''v'' package of
        None \<Rightarrow> False
      | Some tag \<Rightarrow>
          (case tag_base tag of
             None \<Rightarrow> False
           | Some base \<Rightarrow>
               let parts = split CHR ''.'' base
               in length parts = 3 \<and> list_all valid_number parts))"

section \<open>Public builds\<close>

definition build_validate :: "public_build \<Rightarrow> update_error + unit" where
  "build_validate b =
     (if \<not> valid_revision (pb_revision b) then Inl UE_InvalidBuild
      else if strip_prefix ''main-'' (pb_package b) = Some (pb_revision b) \<or> valid_tag (pb_package b)
      then Inr ()
      else Inl UE_InvalidBuild)"

definition build_new :: "string \<Rightarrow> string \<Rightarrow> update_error + public_build" where
  "build_new revision package =
     (let build = \<lparr>pb_revision = revision, pb_package = package\<rparr>
      in and_then (build_validate build) (\<lambda>_. Inr build))"

definition public_revision :: "string \<Rightarrow> update_error + string" where
  "public_revision revision =
     (let public = (case split_once CHR ''+'' revision of
                      Some (private, public) \<Rightarrow>
                        if valid_revision private then Inr public else Inl UE_InvalidBuild
                    | None \<Rightarrow> Inr revision)
      in and_then public (\<lambda>public. if valid_revision public then Inr public else Inl UE_InvalidBuild))"

definition build_from_revision :: "string \<Rightarrow> string \<Rightarrow> update_error + public_build" where
  "build_from_revision build_revision package =
     and_then (public_revision build_revision) (\<lambda>revision. build_new revision package)"

definition build_main :: "string \<Rightarrow> update_error + public_build" where
  "build_main build_revision =
     and_then (public_revision build_revision) (\<lambda>revision. build_new revision (''main-'' @ revision))"

section \<open>Facts\<close>

text \<open>The public half of a hosted revision, and only it, is what the rollout offers.\<close>

lemma valid_revision_no_plus: "valid_revision r \<Longrightarrow> CHR ''+'' \<notin> set r"
  by (auto simp: valid_revision_def lower_hex_def list_all_iff is_ascii_digit_def byte_def)

lemma public_revision_plain: "valid_revision r \<Longrightarrow> public_revision r = Inr r"
  using split_once_None[of "CHR ''+''" r] valid_revision_no_plus[of r]
  by (simp add: public_revision_def)

lemma public_revision_hosted:
  assumes "valid_revision private" "valid_revision public"
  shows "public_revision (private @ ''+'' @ public) = Inr public"
proof -
  have "split_once CHR ''+'' (private @ ''+'' @ public) = Some (private, public)"
    unfolding split_once_Some using valid_revision_no_plus[OF assms(1)] by simp
  with assms show ?thesis by (simp add: public_revision_def)
qed

lemma public_revision_valid: "public_revision r = Inr p \<Longrightarrow> valid_revision p"
  by (auto simp: public_revision_def and_then_Inr split: option.splits if_splits)

lemma build_main_complete: "valid_revision r \<Longrightarrow> build_main r = Inr \<lparr>pb_revision = r, pb_package = ''main-'' @ r\<rparr>"
  using strip_prefix_Some[of "''main-''" "''main-'' @ r" r]
  by (simp add: build_main_def public_revision_plain build_new_def build_validate_def)

end
