(* ===== verification/Vm_Attempt.thy ===== *)
theory Vm_Attempt
  imports Public_Build
begin

text \<open>
  The replacement of a virtual machine, as data (\<open>grund-domain/src/agent_updates/vm.rs\<close>): images and
  targets, the phases and instructions of one attempt, the evidence the host and the guest send, and
  the methods of \<open>VmAttempt\<close>. The methods that borrow the attempt mutably return it changed.
\<close>

section \<open>Images and targets\<close>

record image_identity =
  ii_kernel_sha256 :: string
  ii_rootfs_sha256 :: string

record vm_target =
  tg_kernel_url :: string
  tg_kernel_sha256 :: string
  tg_rootfs_url :: string
  tg_rootfs_sha256 :: string

definition vm_digest :: "string \<Rightarrow> bool" where
  "vm_digest value \<longleftrightarrow> length value = 64 \<and> list_all lower_hex value"

definition target_identity :: "vm_target \<Rightarrow> image_identity" where
  "target_identity t = \<lparr>ii_kernel_sha256 = tg_kernel_sha256 t, ii_rootfs_sha256 = tg_rootfs_sha256 t\<rparr>"

definition target_matches :: "vm_target \<Rightarrow> image_identity \<Rightarrow> bool" where
  "target_matches t img \<longleftrightarrow>
     tg_kernel_sha256 t = ii_kernel_sha256 img \<and> tg_rootfs_sha256 t = ii_rootfs_sha256 img"

definition url_ok :: "string \<Rightarrow> bool" where
  "url_ok url \<longleftrightarrow>
     starts_with ''https://'' url \<and> length url \<le> 2048 \<and>
     \<not> list_ex (\<lambda>b. is_ascii_whitespace b \<or> is_ascii_control b \<or> b \<in> set ''@?#'') url \<and>
     CHR ''/'' \<in> set (drop 8 url)"

definition target_valid :: "vm_target \<Rightarrow> bool" where
  "target_valid t \<longleftrightarrow>
     vm_digest (tg_kernel_sha256 t) \<and> vm_digest (tg_rootfs_sha256 t) \<and>
     list_all url_ok [tg_kernel_url t, tg_rootfs_url t]"

section \<open>Phases, instructions, evidence\<close>

datatype vm_phase =
  VP_Preparing | VP_Prepared | VP_Draining | VP_Quiescing | VP_Quiesced | VP_Starting
| VP_CandidateRunning | VP_Verifying | VP_Committing | VP_Committed | VP_Releasing | VP_Succeeded
| VP_RollingBack | VP_RolledBack | VP_Cancelling | VP_Cancelled | VP_Failed

definition vm_phase_as_str :: "vm_phase \<Rightarrow> string" where
  "vm_phase_as_str p =
     (case p of
        VP_Preparing \<Rightarrow> ''preparing'' | VP_Prepared \<Rightarrow> ''prepared'' | VP_Draining \<Rightarrow> ''draining''
      | VP_Quiescing \<Rightarrow> ''quiescing'' | VP_Quiesced \<Rightarrow> ''quiesced'' | VP_Starting \<Rightarrow> ''starting''
      | VP_CandidateRunning \<Rightarrow> ''candidate_running'' | VP_Verifying \<Rightarrow> ''verifying''
      | VP_Committing \<Rightarrow> ''committing'' | VP_Committed \<Rightarrow> ''committed''
      | VP_Releasing \<Rightarrow> ''releasing'' | VP_Succeeded \<Rightarrow> ''succeeded''
      | VP_RollingBack \<Rightarrow> ''rolling_back'' | VP_RolledBack \<Rightarrow> ''rolled_back''
      | VP_Cancelling \<Rightarrow> ''cancelling'' | VP_Cancelled \<Rightarrow> ''cancelled'' | VP_Failed \<Rightarrow> ''failed'')"

definition vm_terminal :: "vm_phase \<Rightarrow> bool" where
  "vm_terminal p \<longleftrightarrow> p \<in> {VP_Succeeded, VP_RolledBack, VP_Cancelled}"

datatype vm_action =
  VA_Prepare | VA_Quiesce | VA_StartCandidate | VA_Commit | VA_Rollback | VA_ReleaseOld

datatype vm_failure = VF_Cancelled | VF_Timeout | VF_HostFailed | VF_HealthFailed | VF_Uncertain

record vm_operation =
  vo_sequence :: nat
  vo_action :: vm_action
  vo_launch_nonce :: uuid
  vo_deadline :: time
  vo_document_generation :: "int option"

record vm_fence =
  vf_attempt_id :: uuid
  vf_attempt_sequence :: nat
  vf_vm_id :: uuid
  vf_host_machine_id :: uuid
  vf_host_registration_key :: string
  vf_operation_sequence :: nat
  vf_action :: vm_action
  vf_launch_nonce :: uuid
  vf_document_generation :: int

record process_identity =
  pi_process_id :: nat
  pi_start_time_ticks :: nat
  pi_host_boot_id :: uuid

definition is_nil :: "uuid \<Rightarrow> bool" where
  "is_nil u \<longleftrightarrow> u = 0"

text \<open>The version of a \<open>Uuid\<close> is the high half of its seventh byte.\<close>

definition version_num :: "uuid \<Rightarrow> nat" where
  "version_num u = u div 2 ^ 76 mod 16"

definition process_valid :: "process_identity \<Rightarrow> bool" where
  "process_valid p \<longleftrightarrow> 0 < pi_process_id p \<and> 0 < pi_start_time_ticks p \<and> \<not> is_nil (pi_host_boot_id p)"

record guest_boot_proof =
  gp_guest_machine_id :: uuid
  gp_guest_registration_key :: string
  gp_attempt_id :: uuid
  gp_attempt_sequence :: nat
  gp_launch_sequence :: nat
  gp_launch_nonce :: uuid
  gp_document_generation :: int
  gp_guest_document_generation :: int
  gp_current_guest_document_generation :: int
  gp_os_boot_id :: uuid
  gp_pid1_context :: uuid
  gp_image :: image_identity
  gp_runtime_ready :: bool
  gp_cpu_probe :: bool
  gp_memory_probe :: bool
  gp_attachment_probe :: bool
  gp_probe_failed :: bool
  gp_observed_at :: time

record drain_proof =
  dp_guest_machine_id :: uuid
  dp_guest_registration_key :: string
  dp_host_registration_key :: string
  dp_document_generation :: int
  dp_guest_document_generation :: int
  dp_current_guest_document_generation :: int
  dp_drained :: bool
  dp_has_allocations :: bool
  dp_has_local_volumes :: bool
  dp_observed_at :: time

record vm_request =
  rq_id :: uuid
  rq_vm_id :: uuid
  rq_organisation_id :: uuid
  rq_host_machine_id :: uuid
  rq_guest_machine_id :: uuid
  rq_host_registration_key :: string
  rq_guest_registration_key :: string
  rq_request_hash :: string
  rq_fingerprint :: string
  rq_source :: image_identity
  rq_target :: vm_target
  rq_expected_update_version :: int
  rq_original_in_service :: bool
  rq_old_os_boot_id :: "uuid option"
  rq_launch_nonce :: uuid
  rq_deadline :: time

record vm_attempt =
  vm_id_of :: uuid
  vm_vm_id :: uuid
  vm_organisation_id :: uuid
  vm_host_machine_id :: uuid
  vm_guest_machine_id :: uuid
  vm_host_registration_key :: string
  vm_guest_registration_key :: string
  vm_sequence :: nat
  vm_request_hash :: string
  vm_fingerprint :: string
  vm_source :: image_identity
  vm_target_of :: vm_target
  vm_expected_update_version :: int
  vm_original_in_service :: bool
  vm_phase_of :: vm_phase
  vm_offered_at :: time
  vm_authorized_at :: "time option"
  vm_deadline :: time
  vm_operation_of :: vm_operation
  vm_last_document_generation :: int
  vm_used_launch_nonces :: "uuid option list"
  vm_old_process :: "process_identity option"
  vm_candidate_process :: "process_identity option"
  vm_rollback_process :: "process_identity option"
  vm_old_os_boot_id :: "uuid option"
  vm_root_fenced :: bool
  vm_old_process_exited :: bool
  vm_candidate_launch :: "vm_operation option"
  vm_guest_boot_proof :: "guest_boot_proof option"
  vm_failure_of :: "vm_failure option"
  vm_committed_at :: "time option"
  vm_committed_restart_at :: "time option"
  vm_committed_recovery_deadline :: "time option"
  vm_committed_previous_process :: "process_identity option"
  vm_committed_previous_boot :: "guest_boot_proof option"
  vm_committed_health_required_after :: "time option"
  vm_candidate_boot_identity :: "(uuid \<times> uuid) option"
  vm_last_guest_document_generation :: int
  vm_completed_at :: "time option"

datatype host_evidence =
  HE_Prepared image_identity process_identity
| HE_Quiesced process_identity bool bool
| HE_CandidateRunning process_identity image_identity bool
| HE_Committed "process_identity option"
| HE_Released
| HE_RolledBack process_identity image_identity bool bool
| HE_StagingCancelled process_identity
| HE_Uncertain

section \<open>Time windows and counters\<close>

definition bounded :: "time \<Rightarrow> time \<Rightarrow> nat \<Rightarrow> bool" where
  "bounded at deadline n \<longleftrightarrow> at < deadline \<and> deadline \<le> at + minutes n"

definition fresh :: "time \<Rightarrow> time \<Rightarrow> time \<Rightarrow> bool" where
  "fresh at observed since \<longleftrightarrow> since \<le> observed \<and> observed \<le> at \<and> at - observed \<le> seconds 30"

text \<open>\<open>checked_add(1)\<close> on a \<open>u64\<close>, kept within the non-negative half of an \<open>i64\<close>.\<close>

definition next_counter :: "nat \<Rightarrow> update_error + nat" where
  "next_counter n = (if n + 1 \<le> 2 ^ 63 - 1 then Inr (n + 1) else Inl UE_GenerationExhausted)"

lemma next_counter_Inr: "next_counter n = Inr m \<longleftrightarrow> m = n + 1 \<and> n + 1 \<le> 2 ^ 63 - 1"
  by (auto simp: next_counter_def)

section \<open>The methods of an attempt\<close>

definition vm_fence_of :: "vm_attempt \<Rightarrow> vm_fence option" where
  "vm_fence_of a =
     map_option
       (\<lambda>g. \<lparr>vf_attempt_id = vm_id_of a, vf_attempt_sequence = vm_sequence a, vf_vm_id = vm_vm_id a,
             vf_host_machine_id = vm_host_machine_id a,
             vf_host_registration_key = vm_host_registration_key a,
             vf_operation_sequence = vo_sequence (vm_operation_of a),
             vf_action = vo_action (vm_operation_of a),
             vf_launch_nonce = vo_launch_nonce (vm_operation_of a), vf_document_generation = g\<rparr>)
       (vo_document_generation (vm_operation_of a))"

definition vm_matches :: "vm_attempt \<Rightarrow> vm_fence \<Rightarrow> bool" where
  "vm_matches a fence \<longleftrightarrow>
     vm_id_of a = vf_attempt_id fence \<and> vm_sequence a = vf_attempt_sequence fence \<and>
     vm_vm_id a = vf_vm_id fence \<and> vm_host_machine_id a = vf_host_machine_id fence \<and>
     vm_host_registration_key a = vf_host_registration_key fence \<and>
     vo_sequence (vm_operation_of a) = vf_operation_sequence fence \<and>
     vo_action (vm_operation_of a) = vf_action fence \<and>
     vo_launch_nonce (vm_operation_of a) = vf_launch_nonce fence \<and>
     vo_document_generation (vm_operation_of a) = Some (vf_document_generation fence)"

definition can_cancel :: "vm_attempt \<Rightarrow> bool" where
  "can_cancel a \<longleftrightarrow>
     vm_committed_at a = None \<and>
     vm_phase_of a \<notin> {VP_Committing, VP_RollingBack, VP_Cancelling, VP_Failed} \<and>
     \<not> vm_terminal (vm_phase_of a)"

definition health_since :: "vm_attempt \<Rightarrow> time" where
  "health_since a =
     max (unwrap_or (vm_committed_health_required_after a) (vm_offered_at a))
         (unwrap_or (vm_authorized_at a) (vm_offered_at a))"

definition vm_healthy :: "vm_attempt \<Rightarrow> time \<Rightarrow> bool" where
  "vm_healthy a at \<longleftrightarrow>
     vm_candidate_process a \<noteq> None \<and>
     is_none_or (vm_committed_recovery_deadline a) (\<lambda>deadline. at < deadline) \<and>
     is_some_and (vm_guest_boot_proof a) (\<lambda>proof. fresh at (gp_observed_at proof) (health_since a))"

definition vm_unavailable :: "vm_attempt \<Rightarrow> time \<Rightarrow> vm_failure \<Rightarrow> vm_attempt" where
  "vm_unavailable a at failure =
     a\<lparr>vm_guest_boot_proof := None,
       vm_committed_previous_boot :=
         (if vm_guest_boot_proof a \<noteq> None \<and>
             (vm_committed_restart_at a = None \<or> vm_committed_previous_boot a = None)
          then vm_guest_boot_proof a else vm_committed_previous_boot a),
       vm_committed_health_required_after :=
         Some (max (unwrap_or (vm_committed_health_required_after a) at) at),
       vm_failure_of := Some failure\<rparr>"

definition nonce_refused :: "vm_attempt \<Rightarrow> uuid \<Rightarrow> bool" where
  "nonce_refused a nonce \<longleftrightarrow> is_nil nonce \<or> Some nonce \<in> set (vm_used_launch_nonces a)"

fun free_slot :: "uuid option list \<Rightarrow> nat option" where
  "free_slot [] = None"
| "free_slot (x # xs) = (if x = None then Some 0 else map_option Suc (free_slot xs))"

definition vm_next :: "vm_attempt \<Rightarrow> vm_action \<Rightarrow> uuid \<Rightarrow> time \<Rightarrow> update_error + vm_attempt" where
  "vm_next a action nonce deadline =
     (if nonce_refused a nonce then Inl UE_StaleFence
      else case free_slot (vm_used_launch_nonces a) of
        None \<Rightarrow> Inl UE_GenerationExhausted
      | Some slot \<Rightarrow>
          and_then (next_counter (vo_sequence (vm_operation_of a)))
            (\<lambda>sequence. Inr (a\<lparr>
               vm_operation_of :=
                 \<lparr>vo_sequence = sequence, vo_action = action, vo_launch_nonce = nonce,
                  vo_deadline = deadline, vo_document_generation = None\<rparr>,
               vm_used_launch_nonces := (vm_used_launch_nonces a)[slot := Some nonce]\<rparr>)))"

definition vm_instruction :: "vm_attempt \<Rightarrow> vm_action \<Rightarrow> update_error + vm_attempt" where
  "vm_instruction a action =
     and_then (next_counter (vo_sequence (vm_operation_of a)))
       (\<lambda>sequence. Inr (a\<lparr>vm_operation_of :=
          (vm_operation_of a)\<lparr>vo_sequence := sequence, vo_action := action,
                              vo_document_generation := None\<rparr>\<rparr>))"

section \<open>Launch nonces\<close>

text \<open>The nonces used so far fill the four slots from the left, and no nonce is used twice.\<close>

definition nonces_used :: "uuid option list \<Rightarrow> nat \<Rightarrow> bool" where
  "nonces_used xs n \<longleftrightarrow>
     length xs = 4 \<and> n \<le> 4 \<and> None \<notin> set (take n xs) \<and> set (drop n xs) \<subseteq> {None} \<and>
     distinct (take n xs)"

lemma free_slot_after: "None \<notin> set us \<Longrightarrow> free_slot (us @ None # vs) = Some (length us)"
proof (induction us)
  case (Cons x us)
  then show ?case by (cases x) auto
qed simp

lemma free_slot_None: "free_slot xs = None \<longleftrightarrow> None \<notin> set xs"
  by (induction xs) auto

lemma nonces_used_free: "nonces_used xs n \<Longrightarrow> free_slot xs = (if n < 4 then Some n else None)"
proof -
  assume u: "nonces_used xs n"
  show ?thesis
  proof (cases "n < 4")
    case True
    with u have len: "length (drop n xs) = Suc (3 - n)" by (auto simp: nonces_used_def)
    then obtain y ys where d: "drop n xs = y # ys" by (cases "drop n xs") auto
    with u have "y = None" by (auto simp: nonces_used_def)
    then have "xs = take n xs @ None # ys" using d by (metis append_take_drop_id)
    moreover have "length (take n xs) = n" using True u by (simp add: nonces_used_def)
    ultimately show ?thesis
      using free_slot_after[of "take n xs" ys] u True by (simp add: nonces_used_def)
  next
    case False
    with u have "take n xs = xs" by (simp add: nonces_used_def)
    with u False show ?thesis by (simp add: nonces_used_def free_slot_None)
  qed
qed

lemma nonces_used_insert:
  assumes "nonces_used xs n" "n < 4" "Some u \<notin> set xs"
  shows "nonces_used (xs[n := Some u]) (Suc n)"
proof -
  have len: "length xs = 4" using assms(1) by (simp add: nonces_used_def)
  have "take (Suc n) (xs[n := Some u]) = take n xs @ [Some u]"
    using assms(2) len by (simp add: take_Suc_conv_app_nth)
  moreover have "drop (Suc n) (xs[n := Some u]) = drop (Suc n) xs"
    using len by simp
  moreover have "set (drop (Suc n) xs) \<subseteq> set (drop n xs)"
    by (rule set_drop_subset_set_drop) simp
  moreover have "Some u \<notin> set (take n xs)"
    using assms(3) set_take_subset[of n xs] by blast
  ultimately show ?thesis
    using assms(1,2) len by (auto simp: nonces_used_def)
qed

lemma vm_next_Inr:
  "vm_next a action nonce deadline = Inr b \<Longrightarrow>
   \<exists>slot. \<not> nonce_refused a nonce \<and> free_slot (vm_used_launch_nonces a) = Some slot \<and>
     b = a\<lparr>vm_operation_of :=
             \<lparr>vo_sequence = Suc (vo_sequence (vm_operation_of a)), vo_action = action,
              vo_launch_nonce = nonce, vo_deadline = deadline, vo_document_generation = None\<rparr>,
           vm_used_launch_nonces := (vm_used_launch_nonces a)[slot := Some nonce]\<rparr>"
  by (auto simp: vm_next_def and_then_Inr next_counter_Inr split: if_splits option.splits)

lemma vm_instruction_Inr:
  "vm_instruction a action = Inr b \<Longrightarrow>
   b = a\<lparr>vm_operation_of := (vm_operation_of a)\<lparr>
           vo_sequence := Suc (vo_sequence (vm_operation_of a)), vo_action := action,
           vo_document_generation := None\<rparr>\<rparr>"
  by (auto simp: vm_instruction_def and_then_Inr next_counter_Inr)

lemma vm_next_possible:
  assumes "nonces_used (vm_used_launch_nonces a) n" "n < 4" "\<not> nonce_refused a nonce"
    "vo_sequence (vm_operation_of a) + 1 \<le> 2 ^ 63 - 1"
  shows "\<exists>b. vm_next a action nonce deadline = Inr b"
  using assms nonces_used_free[OF assms(1)] by (simp add: vm_next_def next_counter_def)

end
