(* ===== verification/Agent_Updates.thy ===== *)
theory Agent_Updates
  imports Vm_Attempt Maps
begin

text \<open>
  The rollout of agents over an instance (\<open>grund-domain/src/agent_updates.rs\<close>): one slot, held by
  the replacement of one executable or of one virtual machine, with the rollout's target, its pause,
  the migrations that hold machines, and the reservation of a provider that is still to be released.
  This theory has the state, its events and the commands on executables, targets and migrations.
\<close>

section \<open>Attempts on an executable\<close>

datatype update_phase =
  UP_Offered | UP_Authorized | UP_HealthVerified | UP_Succeeded | UP_RolledBack | UP_Failed

datatype update_failure =
  UF_Download | UF_Verification | UF_Restart | UF_Health | UF_Timeout | UF_Offline | UF_LocalState
| UF_RegistrationChanged

definition update_failure_as_str :: "update_failure \<Rightarrow> string" where
  "update_failure_as_str f =
     (case f of
        UF_Download \<Rightarrow> ''download'' | UF_Verification \<Rightarrow> ''verification'' | UF_Restart \<Rightarrow> ''restart''
      | UF_Health \<Rightarrow> ''health'' | UF_Timeout \<Rightarrow> ''timeout'' | UF_Offline \<Rightarrow> ''offline''
      | UF_LocalState \<Rightarrow> ''local_state'' | UF_RegistrationChanged \<Rightarrow> ''registration_changed'')"

definition update_failure_parse :: "string \<Rightarrow> update_failure option" where
  "update_failure_parse code =
     (if code = ''download'' then Some UF_Download
      else if code = ''verification'' then Some UF_Verification
      else if code = ''restart'' then Some UF_Restart
      else if code = ''health'' then Some UF_Health
      else if code = ''timeout'' then Some UF_Timeout
      else if code = ''offline'' then Some UF_Offline
      else if code = ''local_state'' then Some UF_LocalState
      else if code = ''registration_changed'' then Some UF_RegistrationChanged
      else None)"

lemma update_failure_round_trip: "update_failure_parse (update_failure_as_str f) = Some f"
  by (cases f) (simp_all add: update_failure_parse_def update_failure_as_str_def)

record update_fence =
  uf_attempt_id :: uuid
  uf_machine_id :: uuid
  uf_registration_key :: string
  uf_generation :: nat

record provider_fence =
  pf_provider_machine_id :: string
  pf_controller_id :: uuid
  pf_attempt_id :: uuid
  pf_sequence :: nat

record attempt =
  at_id :: uuid
  at_machine_id :: uuid
  at_sequence :: nat
  at_provider_fence :: "provider_fence option"
  at_registration_key :: string
  at_generation :: nat
  at_previous_revision :: string
  at_target :: public_build
  at_phase :: update_phase
  at_offered_at :: time
  at_expires_at :: time
  at_authorized_at :: "time option"
  at_authorized_boot_id :: "uuid option"
  at_boot_id :: "uuid option"
  at_failure :: "update_failure option"

definition attempt_fence :: "attempt \<Rightarrow> update_fence" where
  "attempt_fence a =
     \<lparr>uf_attempt_id = at_id a, uf_machine_id = at_machine_id a,
      uf_registration_key = at_registration_key a, uf_generation = at_generation a\<rparr>"

definition attempt_matches :: "attempt \<Rightarrow> update_fence \<Rightarrow> bool" where
  "attempt_matches a fence \<longleftrightarrow>
     at_id a = uf_attempt_id fence \<and> at_machine_id a = uf_machine_id fence \<and>
     at_registration_key a = uf_registration_key fence \<and> at_generation a = uf_generation fence"

lemma attempt_matches_fence: "attempt_matches a fence \<longleftrightarrow> fence = attempt_fence a"
  by (cases fence) (auto simp: attempt_matches_def attempt_fence_def)

record completed_attempt =
  ca_id :: uuid
  ca_machine_id :: uuid
  ca_registration_key :: string
  ca_generation :: nat
  ca_phase :: update_phase
  ca_boot_id :: "uuid option"

definition completed_from :: "attempt \<Rightarrow> completed_attempt" where
  "completed_from a =
     \<lparr>ca_id = at_id a, ca_machine_id = at_machine_id a, ca_registration_key = at_registration_key a,
      ca_generation = at_generation a, ca_phase = at_phase a, ca_boot_id = at_boot_id a\<rparr>"

definition completed_matches :: "completed_attempt \<Rightarrow> update_fence \<Rightarrow> bool" where
  "completed_matches a fence \<longleftrightarrow>
     ca_id a = uf_attempt_id fence \<and> ca_machine_id a = uf_machine_id fence \<and>
     ca_registration_key a = uf_registration_key fence \<and> ca_generation a = uf_generation fence"

section \<open>The slot\<close>

datatype active_update = Vm_Active vm_attempt | Exec_Active attempt

datatype completed_update = Vm_Completed_Update vm_attempt | Exec_Completed completed_attempt

fun active_executable :: "active_update \<Rightarrow> attempt option" where
  "active_executable (Exec_Active a) = Some a"
| "active_executable (Vm_Active _) = None"

fun active_vm :: "active_update \<Rightarrow> vm_attempt option" where
  "active_vm (Vm_Active a) = Some a"
| "active_vm (Exec_Active _) = None"

fun active_id :: "active_update \<Rightarrow> uuid" where
  "active_id (Exec_Active a) = at_id a"
| "active_id (Vm_Active a) = vm_id_of a"

fun owns_machine :: "active_update \<Rightarrow> uuid \<Rightarrow> bool" where
  "owns_machine (Exec_Active a) m \<longleftrightarrow> at_machine_id a = m"
| "owns_machine (Vm_Active a) m \<longleftrightarrow> vm_guest_machine_id a = m \<or> vm_host_machine_id a = m"

fun active_authorized :: "active_update \<Rightarrow> bool" where
  "active_authorized (Exec_Active a) \<longleftrightarrow> at_authorized_at a \<noteq> None"
| "active_authorized (Vm_Active a) \<longleftrightarrow> vm_authorized_at a \<noteq> None"

fun active_failed :: "active_update \<Rightarrow> bool" where
  "active_failed (Exec_Active a) \<longleftrightarrow> at_phase a = UP_Failed"
| "active_failed (Vm_Active a) \<longleftrightarrow> vm_phase_of a = VP_Failed \<or> vm_failure_of a \<noteq> None"

fun completed_executable :: "completed_update \<Rightarrow> completed_attempt option" where
  "completed_executable (Exec_Completed a) = Some a"
| "completed_executable (Vm_Completed_Update _) = None"

fun completed_vm :: "completed_update \<Rightarrow> vm_attempt option" where
  "completed_vm (Vm_Completed_Update a) = Some a"
| "completed_vm (Exec_Completed _) = None"

fun completed_id :: "completed_update \<Rightarrow> uuid" where
  "completed_id (Exec_Completed a) = ca_id a"
| "completed_id (Vm_Completed_Update a) = vm_id_of a"

section \<open>State and events\<close>

record agent_updates =
  au_initialized :: bool
  au_generation :: nat
  au_target :: "public_build option"
  au_paused :: bool
  au_active :: "active_update option"
  au_last_completed :: "completed_update option"
  au_attempt_sequence :: nat
  au_migration_holds :: "(uuid \<times> uuid) list"
  au_closed_migrations :: "(uuid \<times> uuid) list"
  au_pending_provider_release :: "provider_fence option"

definition agent_updates_default :: agent_updates where
  "agent_updates_default =
     \<lparr>au_initialized = False, au_generation = 0, au_target = None, au_paused = False,
      au_active = None, au_last_completed = None, au_attempt_sequence = 0, au_migration_holds = [],
      au_closed_migrations = [], au_pending_provider_release = None\<rparr>"

datatype update_event =
  EV_Initialized time
| EV_TargetSelected nat public_build time
| EV_RolloutPaused time
| EV_RolloutResumed time
| EV_AttemptOffered attempt time
| EV_AttemptAuthorized attempt time
| EV_CandidateHealthVerified attempt time
| EV_AttemptSucceeded attempt time
| EV_AttemptRolledBack attempt time
| EV_AttemptFailed attempt time
| EV_OfferCancelled attempt time
| EV_MigrationHeld uuid uuid time
| EV_MigrationCleared uuid uuid time
| EV_ProviderReservationRequested attempt time
| EV_ProviderReleaseAcknowledged provider_fence time
| EV_VmTransitioned vm_attempt time
| EV_VmDocumentPublished vm_attempt time
| EV_VmCommitConfirmed vm_attempt time
| EV_VmRecoveryRequested vm_attempt time
| EV_VmUncertain vm_attempt time
| EV_VmCompleted vm_attempt time

text \<open>The map entry of a closed migration: the greatest one closed so far.\<close>

definition close_migration :: "uuid \<Rightarrow> uuid \<Rightarrow> (uuid \<times> uuid) list \<Rightarrow> (uuid \<times> uuid) list" where
  "close_migration machine migration closed =
     bt_insert machine
       (case map_of closed machine of None \<Rightarrow> migration | Some c \<Rightarrow> max c migration) closed"

text \<open>The five events that put a VM attempt in the slot differ in whether they pause the rollout.\<close>

definition put_vm :: "vm_attempt \<Rightarrow> bool \<Rightarrow> agent_updates \<Rightarrow> agent_updates" where
  "put_vm attempt recovery s =
     s\<lparr>au_attempt_sequence := max (au_attempt_sequence s) (vm_sequence attempt),
       au_active := Some (Vm_Active attempt),
       au_paused :=
         (if recovery \<or> (vm_committed_at attempt \<noteq> None \<and> vm_failure_of attempt \<noteq> None) then True
          else au_paused s)\<rparr>"

fun updates_apply :: "agent_updates \<Rightarrow> update_event \<Rightarrow> agent_updates" where
  "updates_apply s (EV_Initialized _) = s\<lparr>au_initialized := True\<rparr>"
| "updates_apply s (EV_TargetSelected generation target _) =
     s\<lparr>au_generation := generation, au_target := Some target\<rparr>"
| "updates_apply s (EV_RolloutPaused _) = s\<lparr>au_paused := True\<rparr>"
| "updates_apply s (EV_RolloutResumed _) = s\<lparr>au_paused := False\<rparr>"
| "updates_apply s (EV_MigrationHeld machine migration _) =
     s\<lparr>au_migration_holds := bt_insert machine migration (au_migration_holds s)\<rparr>"
| "updates_apply s (EV_MigrationCleared machine migration _) =
     s\<lparr>au_migration_holds :=
         (if map_of (au_migration_holds s) machine = Some migration
          then bt_remove machine (au_migration_holds s) else au_migration_holds s),
       au_closed_migrations := close_migration machine migration (au_closed_migrations s)\<rparr>"
| "updates_apply s (EV_ProviderReleaseAcknowledged reservation _) =
     (if au_pending_provider_release s = Some reservation then s\<lparr>au_pending_provider_release := None\<rparr>
      else s)"
| "updates_apply s (EV_AttemptOffered attempt _) =
     s\<lparr>au_attempt_sequence := max (au_attempt_sequence s) (at_sequence attempt),
       au_active := Some (Exec_Active attempt)\<rparr>"
| "updates_apply s (EV_ProviderReservationRequested attempt _) =
     s\<lparr>au_active := Some (Exec_Active attempt)\<rparr>"
| "updates_apply s (EV_AttemptAuthorized attempt _) = s\<lparr>au_active := Some (Exec_Active attempt)\<rparr>"
| "updates_apply s (EV_CandidateHealthVerified attempt _) =
     s\<lparr>au_active := Some (Exec_Active attempt)\<rparr>"
| "updates_apply s (EV_AttemptFailed attempt _) =
     s\<lparr>au_active := Some (Exec_Active attempt), au_paused := True\<rparr>"
| "updates_apply s (EV_AttemptSucceeded attempt _) =
     s\<lparr>au_active := None, au_last_completed := Some (Exec_Completed (completed_from attempt)),
       au_pending_provider_release := at_provider_fence attempt\<rparr>"
| "updates_apply s (EV_AttemptRolledBack attempt _) =
     s\<lparr>au_active := None, au_last_completed := Some (Exec_Completed (completed_from attempt)),
       au_paused := True, au_pending_provider_release := at_provider_fence attempt\<rparr>"
| "updates_apply s (EV_OfferCancelled attempt _) =
     s\<lparr>au_active := None, au_pending_provider_release := at_provider_fence attempt\<rparr>"
| "updates_apply s (EV_VmTransitioned attempt _) = put_vm attempt False s"
| "updates_apply s (EV_VmDocumentPublished attempt _) = put_vm attempt False s"
| "updates_apply s (EV_VmCommitConfirmed attempt _) = put_vm attempt False s"
| "updates_apply s (EV_VmRecoveryRequested attempt _) = put_vm attempt True s"
| "updates_apply s (EV_VmUncertain attempt _) = put_vm attempt True s"
| "updates_apply s (EV_VmCompleted attempt _) =
     s\<lparr>au_active := None, au_last_completed := Some (Vm_Completed_Update attempt),
       au_paused := (if vm_phase_of attempt \<noteq> VP_Succeeded then True else au_paused s)\<rparr>"

section \<open>Commands on migrations, providers, targets and the pause\<close>

type_synonym update_result = "update_error + update_event list"

definition current_attempt :: "agent_updates \<Rightarrow> update_fence \<Rightarrow> update_error + attempt" where
  "current_attempt s fence =
     (case Option.bind (au_active s) active_executable of
        Some a \<Rightarrow> if attempt_matches a fence then Inr a else Inl UE_StaleFence
      | None \<Rightarrow> Inl UE_StaleFence)"

definition already_completed :: "agent_updates \<Rightarrow> update_fence \<Rightarrow> update_phase \<Rightarrow> uuid \<Rightarrow> bool" where
  "already_completed s fence phase boot \<longleftrightarrow>
     is_some_and (Option.bind (au_last_completed s) completed_executable)
       (\<lambda>a. completed_matches a fence \<and> ca_phase a = phase \<and> ca_boot_id a = Some boot)"

definition is_held :: "agent_updates \<Rightarrow> uuid \<Rightarrow> bool" where
  "is_held s machine \<longleftrightarrow> map_of (au_migration_holds s) machine \<noteq> None"

definition is_closed :: "agent_updates \<Rightarrow> uuid \<Rightarrow> uuid \<Rightarrow> bool" where
  "is_closed s machine migration \<longleftrightarrow>
     is_some_and (map_of (au_closed_migrations s) machine) (\<lambda>closed. migration \<le> closed)"

definition hold_migration :: "uuid \<Rightarrow> uuid \<Rightarrow> time \<Rightarrow> agent_updates \<Rightarrow> update_result" where
  "hold_migration machine migration at s =
     (if is_nil machine \<or> version_num migration \<noteq> 7 then Inl UE_InvalidAttempt
      else if is_closed s machine migration then Inl UE_MigrationClosed
      else case map_of (au_migration_holds s) machine of
        Some current \<Rightarrow> if current = migration then Inr [] else Inl UE_MigrationConflict
      | None \<Rightarrow>
          if is_some_and (au_active s) (\<lambda>a. owns_machine a machine \<and> active_authorized a)
          then Inl UE_LifecycleBlocked
          else if is_some_and (au_active s) (\<lambda>a. active_vm a \<noteq> None \<and> owns_machine a machine)
          then Inl UE_VmUpdateConflict
          else Inr [EV_MigrationHeld machine migration at])"

definition clear_migration :: "uuid \<Rightarrow> uuid \<Rightarrow> time \<Rightarrow> agent_updates \<Rightarrow> update_result" where
  "clear_migration machine migration at s =
     (if is_nil machine \<or> version_num migration \<noteq> 7 then Inl UE_InvalidAttempt
      else if map_of (au_migration_holds s) machine \<noteq> Some migration \<and> is_closed s machine migration
      then Inr []
      else Inr [EV_MigrationCleared machine migration at])"

definition reserve_provider ::
  "update_fence \<Rightarrow> string \<Rightarrow> uuid \<Rightarrow> time \<Rightarrow> agent_updates \<Rightarrow> update_result" where
  "reserve_provider fence provider_machine controller at s =
     and_then (current_attempt s fence) (\<lambda>active.
       if at_phase active \<noteq> UP_Offered \<or> au_paused s \<or> is_held s (at_machine_id active)
       then Inl UE_LifecycleBlocked
       else if at_expires_at active \<le> at then Inl UE_Expired
       else if provider_machine = [] \<or> is_nil controller \<or> at_sequence active = 0
       then Inl UE_InvalidAttempt
       else
         let reservation =
               \<lparr>pf_provider_machine_id = provider_machine, pf_controller_id = controller,
                pf_attempt_id = at_id active, pf_sequence = at_sequence active\<rparr>
         in case at_provider_fence active of
              Some current \<Rightarrow> if current = reservation then Inr [] else Inl UE_StaleFence
            | None \<Rightarrow>
                Inr [EV_ProviderReservationRequested (active\<lparr>at_provider_fence := Some reservation\<rparr>) at])"

definition acknowledge_release :: "provider_fence \<Rightarrow> time \<Rightarrow> agent_updates \<Rightarrow> update_result" where
  "acknowledge_release reservation at s =
     (if au_pending_provider_release s \<noteq> Some reservation then Inr []
      else Inr [EV_ProviderReleaseAcknowledged reservation at])"

definition select_target :: "public_build \<Rightarrow> time \<Rightarrow> agent_updates \<Rightarrow> update_result" where
  "select_target target at s =
     and_then (build_validate target) (\<lambda>_.
       if au_target s = Some target then Inr []
       else if au_active s \<noteq> None then Inl UE_SlotOccupied
       else and_then (next_counter (au_generation s))
              (\<lambda>generation. Inr [EV_TargetSelected generation target at]))"

definition pause_rollout :: "time \<Rightarrow> agent_updates \<Rightarrow> update_result" where
  "pause_rollout at s = (if au_paused s then Inr [] else Inr [EV_RolloutPaused at])"

definition resume_rollout :: "time \<Rightarrow> agent_updates \<Rightarrow> update_result" where
  "resume_rollout at s =
     (if \<not> au_paused s then Inr []
      else if is_some_and (au_active s) active_failed then Inl UE_InvalidPhase
      else Inr [EV_RolloutResumed at])"

section \<open>Commands on an executable\<close>

definition same_offer ::
  "attempt \<Rightarrow> uuid \<Rightarrow> uuid \<Rightarrow> string \<Rightarrow> nat \<Rightarrow> string \<Rightarrow> time \<Rightarrow> bool" where
  "same_offer active i machine key generation previous expires \<longleftrightarrow>
     at_id active = i \<and> at_machine_id active = machine \<and> at_registration_key active = key \<and>
     at_generation active = generation \<and> at_previous_revision active = previous \<and>
     at_expires_at active = expires"

definition offer_valid ::
  "uuid \<Rightarrow> uuid \<Rightarrow> string \<Rightarrow> string \<Rightarrow> public_build \<Rightarrow> time \<Rightarrow> time \<Rightarrow> agent_updates \<Rightarrow> bool" where
  "offer_valid i machine key previous target at expires s \<longleftrightarrow>
     \<not> is_nil i \<and> \<not> is_nil machine \<and> length key = 64 \<and> list_all lower_hex key \<and>
     valid_revision previous \<and> previous \<noteq> pb_revision target \<and> at < expires \<and>
     \<not> is_some_and (au_last_completed s) (\<lambda>a. completed_id a = i)"

definition offer_update ::
  "uuid \<Rightarrow> uuid \<Rightarrow> string \<Rightarrow> nat \<Rightarrow> string \<Rightarrow> time \<Rightarrow> time \<Rightarrow> agent_updates \<Rightarrow> update_result" where
  "offer_update i machine key generation previous at expires s =
     (if generation \<noteq> au_generation s then Inl UE_StaleFence
      else case au_active s of
        Some slot \<Rightarrow>
          (case active_executable slot of
             None \<Rightarrow> Inl UE_SlotOccupied
           | Some active \<Rightarrow>
               if same_offer active i machine key generation previous expires then Inr []
               else Inl UE_SlotOccupied)
      | None \<Rightarrow>
          if au_paused s then Inl UE_Paused
          else if au_pending_provider_release s \<noteq> None \<or> is_held s machine then Inl UE_LifecycleBlocked
          else and_then (next_counter (au_attempt_sequence s)) (\<lambda>sequence.
            case au_target s of
              None \<Rightarrow> Inl UE_NoTarget
            | Some target \<Rightarrow>
                if \<not> offer_valid i machine key previous target at expires s then Inl UE_InvalidAttempt
                else Inr [EV_AttemptOffered
                  \<lparr>at_id = i, at_machine_id = machine, at_sequence = sequence,
                   at_provider_fence = None, at_registration_key = key, at_generation = generation,
                   at_previous_revision = previous, at_target = target, at_phase = UP_Offered,
                   at_offered_at = at, at_expires_at = expires, at_authorized_at = None,
                   at_authorized_boot_id = None, at_boot_id = None, at_failure = None\<rparr> at]))"

definition begin_update ::
  "update_fence \<Rightarrow> uuid \<Rightarrow> provider_fence option \<Rightarrow> time \<Rightarrow> agent_updates \<Rightarrow> update_result" where
  "begin_update fence boot permit at s =
     and_then (current_attempt s fence) (\<lambda>active.
       if at_authorized_at active \<noteq> None \<and> at_authorized_boot_id active = Some boot then Inr []
       else if au_paused s then Inl UE_Paused
       else if is_held s (at_machine_id active) then Inl UE_LifecycleBlocked
       else if at_provider_fence active \<noteq> permit then Inl UE_ProviderPermitRequired
       else if uf_generation fence \<noteq> au_generation s then Inl UE_StaleFence
       else if at_phase active \<noteq> UP_Offered then Inl UE_InvalidPhase
       else if at_expires_at active \<le> at then Inl UE_Expired
       else if at < at_offered_at active \<or> is_nil boot then Inl UE_InvalidAttempt
       else Inr [EV_AttemptAuthorized
              (active\<lparr>at_phase := UP_Authorized, at_authorized_at := Some at,
                      at_authorized_boot_id := Some boot, at_boot_id := Some boot\<rparr>) at])"

definition before_authorized :: "time \<Rightarrow> attempt \<Rightarrow> bool" where
  "before_authorized at active \<longleftrightarrow> is_some_and (at_authorized_at active) (\<lambda>authorized. at < authorized)"

definition report_health :: "update_fence \<Rightarrow> uuid \<Rightarrow> time \<Rightarrow> agent_updates \<Rightarrow> update_result" where
  "report_health fence boot at s =
     and_then (current_attempt s fence) (\<lambda>active.
       if at_phase active = UP_HealthVerified \<and> at_boot_id active = Some boot then Inr []
       else if at_phase active \<notin> {UP_Authorized, UP_Failed} \<or> at_authorized_at active = None
       then Inl UE_InvalidPhase
       else if is_nil boot \<or> before_authorized at active then Inl UE_InvalidAttempt
       else if at_authorized_boot_id active = Some boot then Inl UE_SameBoot
       else Inr [EV_CandidateHealthVerified
              (active\<lparr>at_phase := UP_HealthVerified, at_boot_id := Some boot\<rparr>) at])"

definition commit_update :: "update_fence \<Rightarrow> uuid \<Rightarrow> time \<Rightarrow> agent_updates \<Rightarrow> update_result" where
  "commit_update fence boot at s =
     (if already_completed s fence UP_Succeeded boot then Inr []
      else and_then (current_attempt s fence) (\<lambda>active.
        if at_phase active \<noteq> UP_HealthVerified \<or> at_boot_id active \<noteq> Some boot
        then Inl UE_InvalidPhase
        else if before_authorized at active then Inl UE_InvalidAttempt
        else Inr [EV_AttemptSucceeded (active\<lparr>at_phase := UP_Succeeded\<rparr>) at]))"

definition rollback_update :: "update_fence \<Rightarrow> uuid \<Rightarrow> time \<Rightarrow> agent_updates \<Rightarrow> update_result" where
  "rollback_update fence boot at s =
     (if already_completed s fence UP_RolledBack boot then Inr []
      else and_then (current_attempt s fence) (\<lambda>active.
        if at_authorized_at active = None \<or>
           at_phase active \<notin> {UP_Authorized, UP_HealthVerified, UP_Failed}
        then Inl UE_InvalidPhase
        else if is_nil boot \<or> before_authorized at active then Inl UE_InvalidAttempt
        else if at_boot_id active = Some boot \<or> at_authorized_boot_id active = Some boot
        then Inl UE_SameBoot
        else Inr [EV_AttemptRolledBack
               (active\<lparr>at_phase := UP_RolledBack, at_boot_id := Some boot\<rparr>) at]))"

definition fail_update :: "update_fence \<Rightarrow> update_failure \<Rightarrow> time \<Rightarrow> agent_updates \<Rightarrow> update_result" where
  "fail_update fence failure at s =
     and_then (current_attempt s fence) (\<lambda>active.
       if at_phase active = UP_Failed \<and> at_failure active = Some failure then Inr []
       else if at < at_offered_at active then Inl UE_InvalidAttempt
       else Inr [EV_AttemptFailed (active\<lparr>at_phase := UP_Failed, at_failure := Some failure\<rparr>) at])"

definition cancel_offer :: "update_fence \<Rightarrow> time \<Rightarrow> agent_updates \<Rightarrow> update_result" where
  "cancel_offer fence at s =
     and_then (current_attempt s fence) (\<lambda>active.
       if at_authorized_at active \<noteq> None then Inl UE_InvalidPhase
       else if at < at_offered_at active then Inl UE_InvalidAttempt
       else Inr [EV_OfferCancelled active at])"

end
