(* ===== verification/Vm_Commands.thy ===== *)
theory Vm_Commands
  imports Agent_Updates
begin

text \<open>
  The commands of a virtual machine's replacement (\<open>impl mire::Command for vm::Command\<close>), each
  handler as the code has it: the request that takes the slot, the documents published to the host,
  draining, the instructions, the host's evidence, the guest's proofs, the commit, and the way back.
\<close>

datatype vm_command =
  VC_Request vm_request time
| VC_DocumentPublished uuid nat int time
| VC_BeginDrain uuid time
| VC_AuthorizeQuiesce uuid drain_proof uuid time time
| VC_StartCandidate uuid uuid time
| VC_RestartCommitted uuid uuid time time
| VC_HostAcknowledged vm_fence host_evidence time
| VC_VerifyGuest uuid guest_boot_proof time
| VC_InvalidateGuest uuid time
| VC_Commit uuid time
| VC_ReleaseOld uuid time
| VC_Cancel uuid uuid time time
| VC_Fail uuid vm_failure uuid time time

definition vm_current :: "agent_updates \<Rightarrow> uuid \<Rightarrow> time \<Rightarrow> update_error + vm_attempt" where
  "vm_current s i at =
     (case Option.bind (au_active s) active_vm of
        None \<Rightarrow> Inl UE_StaleFence
      | Some a \<Rightarrow>
          if vm_id_of a \<noteq> i then Inl UE_StaleFence
          else if at < vm_offered_at a then Inl UE_InvalidAttempt
          else Inr a)"

text \<open>What the handler records for a command that falls through to its end.\<close>

definition transitioned :: "vm_attempt \<Rightarrow> time \<Rightarrow> update_result" where
  "transitioned attempt at = Inr [EV_VmTransitioned (attempt\<lparr>vm_completed_at := None\<rparr>) at]"

section \<open>The request\<close>

definition replayed_request :: "vm_request \<Rightarrow> vm_attempt \<Rightarrow> update_result" where
  "replayed_request r a =
     (if vm_fingerprint a = rq_fingerprint r \<and> vm_organisation_id a = rq_organisation_id r \<and>
         vm_vm_id a = rq_vm_id r
      then Inr [] else Inl UE_RequestConflict)"

definition known_request :: "vm_request \<Rightarrow> vm_attempt option \<Rightarrow> vm_attempt option" where
  "known_request r a =
     (if is_some_and a (\<lambda>a. vm_request_hash a = rq_request_hash r) then a else None)"

definition request_valid :: "vm_request \<Rightarrow> time \<Rightarrow> bool" where
  "request_valid r at \<longleftrightarrow>
     version_num (rq_id r) = 7 \<and>
     \<not> list_ex is_nil [rq_vm_id r, rq_organisation_id r, rq_host_machine_id r,
                       rq_guest_machine_id r, rq_launch_nonce r] \<and>
     rq_host_machine_id r \<noteq> rq_guest_machine_id r \<and>
     vm_digest (rq_host_registration_key r) \<and> vm_digest (rq_guest_registration_key r) \<and>
     vm_digest (rq_request_hash r) \<and> vm_digest (rq_fingerprint r) \<and>
     vm_digest (ii_kernel_sha256 (rq_source r)) \<and> vm_digest (ii_rootfs_sha256 (rq_source r)) \<and>
     target_valid (rq_target r) \<and> \<not> target_matches (rq_target r) (rq_source r) \<and>
     0 \<le> rq_expected_update_version r \<and> bounded at (rq_deadline r) 15 \<and>
     \<not> is_some_and (rq_old_os_boot_id r) is_nil"

definition new_vm_attempt :: "vm_request \<Rightarrow> nat \<Rightarrow> time \<Rightarrow> vm_attempt" where
  "new_vm_attempt r sequence at =
     \<lparr>vm_id_of = rq_id r, vm_vm_id = rq_vm_id r, vm_organisation_id = rq_organisation_id r,
      vm_host_machine_id = rq_host_machine_id r, vm_guest_machine_id = rq_guest_machine_id r,
      vm_host_registration_key = rq_host_registration_key r,
      vm_guest_registration_key = rq_guest_registration_key r, vm_sequence = sequence,
      vm_request_hash = rq_request_hash r, vm_fingerprint = rq_fingerprint r,
      vm_source = rq_source r, vm_target_of = rq_target r,
      vm_expected_update_version = rq_expected_update_version r,
      vm_original_in_service = rq_original_in_service r, vm_phase_of = VP_Preparing,
      vm_offered_at = at, vm_authorized_at = None, vm_deadline = rq_deadline r,
      vm_operation_of =
        \<lparr>vo_sequence = 1, vo_action = VA_Prepare, vo_launch_nonce = rq_launch_nonce r,
         vo_deadline = rq_deadline r, vo_document_generation = None\<rparr>,
      vm_last_document_generation = 0,
      vm_used_launch_nonces = [Some (rq_launch_nonce r), None, None, None],
      vm_old_process = None, vm_candidate_process = None, vm_rollback_process = None,
      vm_old_os_boot_id = rq_old_os_boot_id r, vm_root_fenced = False,
      vm_old_process_exited = False, vm_candidate_launch = None, vm_guest_boot_proof = None,
      vm_failure_of = None, vm_committed_at = None, vm_committed_restart_at = None,
      vm_committed_recovery_deadline = None, vm_committed_previous_process = None,
      vm_committed_previous_boot = None, vm_committed_health_required_after = None,
      vm_candidate_boot_identity = None, vm_last_guest_document_generation = 0,
      vm_completed_at = None\<rparr>"

definition request_vm :: "vm_request \<Rightarrow> time \<Rightarrow> agent_updates \<Rightarrow> update_result" where
  "request_vm r at s =
     (case known_request r (Option.bind (au_active s) active_vm) of
        Some a \<Rightarrow> replayed_request r a
      | None \<Rightarrow>
      case known_request r (Option.bind (au_last_completed s) completed_vm) of
        Some a \<Rightarrow> replayed_request r a
      | None \<Rightarrow>
          if au_active s \<noteq> None \<or> au_pending_provider_release s \<noteq> None then Inl UE_SlotOccupied
          else if au_paused s then Inl UE_Paused
          else if is_held s (rq_host_machine_id r) \<or> is_held s (rq_guest_machine_id r)
          then Inl UE_MigrationConflict
          else if \<not> request_valid r at then Inl UE_InvalidAttempt
          else and_then (next_counter (au_attempt_sequence s))
                 (\<lambda>sequence. transitioned (new_vm_attempt r sequence at) at))"

section \<open>Documents, draining and launches\<close>

definition document_published :: "uuid \<Rightarrow> nat \<Rightarrow> int \<Rightarrow> time \<Rightarrow> agent_updates \<Rightarrow> update_result" where
  "document_published i sequence generation at s =
     and_then (vm_current s i at) (\<lambda>a.
       if vo_sequence (vm_operation_of a) \<noteq> sequence then Inl UE_StaleFence
       else if vo_document_generation (vm_operation_of a) = Some generation then Inr []
       else if generation \<le> vm_last_document_generation a then Inl UE_StaleFence
       else
         let published = (vm_operation_of a)\<lparr>vo_document_generation := Some generation\<rparr>
         in Inr [EV_VmDocumentPublished
              (a\<lparr>vm_last_document_generation := generation, vm_operation_of := published,
                 vm_candidate_launch :=
                   (if vo_action published = VA_StartCandidate \<and> vm_candidate_launch a = None
                    then Some published else vm_candidate_launch a)\<rparr>) at])"

definition begin_drain :: "uuid \<Rightarrow> time \<Rightarrow> agent_updates \<Rightarrow> update_result" where
  "begin_drain i at s =
     and_then (vm_current s i at) (\<lambda>a.
       if vm_phase_of a = VP_Draining then Inr []
       else if au_paused s then Inl UE_Paused
       else if vm_phase_of a \<noteq> VP_Prepared then Inl UE_InvalidPhase
       else if vm_deadline a \<le> at then Inl UE_Expired
       else transitioned (a\<lparr>vm_phase_of := VP_Draining\<rparr>) at)"

definition drain_safe :: "vm_attempt \<Rightarrow> drain_proof \<Rightarrow> time \<Rightarrow> bool" where
  "drain_safe a proof at \<longleftrightarrow>
     dp_drained proof \<and> \<not> dp_has_allocations proof \<and> \<not> dp_has_local_volumes proof \<and>
     dp_guest_machine_id proof = vm_guest_machine_id a \<and>
     dp_guest_registration_key proof = vm_guest_registration_key a \<and>
     dp_host_registration_key proof = vm_host_registration_key a \<and>
     0 < dp_guest_document_generation proof \<and>
     dp_guest_document_generation proof = dp_current_guest_document_generation proof \<and>
     Some (dp_document_generation proof) = vo_document_generation (vm_operation_of a) \<and>
     fresh at (dp_observed_at proof) (vm_offered_at a)"

definition authorize_quiesce ::
  "uuid \<Rightarrow> drain_proof \<Rightarrow> uuid \<Rightarrow> time \<Rightarrow> time \<Rightarrow> agent_updates \<Rightarrow> update_result" where
  "authorize_quiesce i proof nonce deadline at s =
     and_then (vm_current s i at) (\<lambda>a.
       if au_paused s then Inl UE_Paused
       else if is_held s (vm_host_machine_id a) \<or> is_held s (vm_guest_machine_id a)
       then Inl UE_MigrationConflict
       else if vm_phase_of a \<noteq> VP_Draining then Inl UE_InvalidPhase
       else if vm_deadline a \<le> at \<or> \<not> bounded at deadline 15 then Inl UE_Expired
       else if \<not> drain_safe a proof at then Inl UE_UnsafeVm
       else
         and_then
           (vm_next (a\<lparr>vm_last_guest_document_generation := dp_guest_document_generation proof,
                       vm_authorized_at := Some at, vm_deadline := deadline\<rparr>)
              VA_Quiesce nonce deadline)
           (\<lambda>a. transitioned (a\<lparr>vm_phase_of := VP_Quiescing\<rparr>) at))"

definition start_candidate :: "uuid \<Rightarrow> uuid \<Rightarrow> time \<Rightarrow> agent_updates \<Rightarrow> update_result" where
  "start_candidate i nonce at s =
     and_then (vm_current s i at) (\<lambda>a.
       if vm_phase_of a \<noteq> VP_Quiesced \<or> \<not> vm_root_fenced a \<or> \<not> vm_old_process_exited a
       then Inl UE_InvalidPhase
       else if vm_deadline a \<le> at then Inl UE_Expired
       else and_then (vm_next a VA_StartCandidate nonce (vm_deadline a))
              (\<lambda>a. transitioned (a\<lparr>vm_phase_of := VP_Starting\<rparr>) at))"

definition restart_committed :: "uuid \<Rightarrow> uuid \<Rightarrow> time \<Rightarrow> time \<Rightarrow> agent_updates \<Rightarrow> update_result" where
  "restart_committed i nonce deadline at s =
     and_then (vm_current s i at) (\<lambda>a.
       if vm_committed_at a = None then Inl UE_InvalidPhase
       else if vm_committed_restart_at a \<noteq> None then
         if vo_launch_nonce (vm_operation_of a) = nonce \<and>
            vm_committed_recovery_deadline a = Some deadline
         then Inr [] else Inl UE_InvalidPhase
       else if vm_phase_of a \<notin> {VP_Committed, VP_Releasing} \<or> \<not> bounded at deadline 5
       then Inl UE_InvalidPhase
       else if nonce_refused a nonce then Inl UE_StaleFence
       else
         and_then
           (vm_next
              (vm_unavailable
                 (a\<lparr>vm_committed_previous_process := vm_candidate_process a,
                    vm_candidate_process := None\<rparr>) at VF_HostFailed)
              VA_StartCandidate nonce deadline)
           (\<lambda>a. Inr [EV_VmRecoveryRequested
              (a\<lparr>vm_committed_restart_at := Some at, vm_committed_recovery_deadline := Some deadline,
                 vm_candidate_launch := None, vm_candidate_boot_identity := None,
                 vm_phase_of := VP_Starting\<rparr>) at]))"

section \<open>What the host acknowledges\<close>

definition host_prepared :: "vm_attempt \<Rightarrow> image_identity \<Rightarrow> process_identity \<Rightarrow> time \<Rightarrow> update_result" where
  "host_prepared a img old at =
     (if vm_phase_of a = VP_Prepared \<and> vm_old_process a = Some old \<and> target_matches (vm_target_of a) img
      then Inr []
      else if vm_phase_of a \<noteq> VP_Preparing \<or> \<not> target_matches (vm_target_of a) img \<or> \<not> process_valid old
      then Inl UE_UnsafeVm
      else transitioned (a\<lparr>vm_old_process := Some old, vm_phase_of := VP_Prepared\<rparr>) at)"

definition host_quiesced ::
  "vm_attempt \<Rightarrow> process_identity \<Rightarrow> bool \<Rightarrow> bool \<Rightarrow> time \<Rightarrow> update_result" where
  "host_quiesced a old exited fenced at =
     (if vm_phase_of a = VP_Quiesced \<and> vm_old_process a = Some old \<and> exited \<and> fenced then Inr []
      else if vm_phase_of a \<noteq> VP_Quiescing \<or> vm_old_process a \<noteq> Some old \<or> \<not> exited \<or> \<not> fenced
      then Inl UE_UnsafeVm
      else transitioned
             (a\<lparr>vm_old_process_exited := True, vm_root_fenced := True, vm_phase_of := VP_Quiesced\<rparr>) at)"

definition host_candidate_running ::
  "vm_attempt \<Rightarrow> process_identity \<Rightarrow> image_identity \<Rightarrow> bool \<Rightarrow> time \<Rightarrow> update_result" where
  "host_candidate_running a process img fresh_start at =
     (if vm_phase_of a = VP_CandidateRunning \<and> vm_candidate_process a = Some process \<and>
         target_matches (vm_target_of a) img \<and> fresh_start
      then Inr []
      else if vm_phase_of a \<noteq> VP_Starting \<or> \<not> process_valid process \<or>
              vm_old_process a = Some process \<or> vm_committed_previous_process a = Some process \<or>
              \<not> target_matches (vm_target_of a) img \<or> \<not> fresh_start \<or> \<not> vm_root_fenced a \<or>
              \<not> vm_old_process_exited a
      then Inl UE_UnsafeVm
      else transitioned
             (a\<lparr>vm_candidate_process := Some process, vm_phase_of := VP_CandidateRunning\<rparr>) at)"

definition host_committed :: "vm_attempt \<Rightarrow> process_identity option \<Rightarrow> time \<Rightarrow> update_result" where
  "host_committed a process at =
     (if vo_action (vm_operation_of a) \<noteq> VA_Commit then Inl UE_InvalidPhase
      else if vm_committed_at a \<noteq> None \<and> vm_phase_of a = VP_Committed then
        (case process of
           None \<Rightarrow>
             if vm_failure_of a \<noteq> None \<and> vm_guest_boot_proof a = None then Inr []
             else Inr [EV_VmUncertain (vm_unavailable a at VF_HostFailed) at]
         | Some p \<Rightarrow> if vm_candidate_process a = Some p then Inr [] else Inl UE_UnsafeVm)
      else if vm_phase_of a \<noteq> VP_Committing \<or>
              is_some_and process (\<lambda>p. vm_candidate_process a \<noteq> Some p)
      then Inl UE_UnsafeVm
      else
        let b = a\<lparr>vm_committed_at := Some at, vm_phase_of := VP_Committed\<rparr>
        in Inr [EV_VmCommitConfirmed
             (if process = None then vm_unavailable b at VF_HostFailed else b) at])"

definition host_released :: "vm_attempt \<Rightarrow> time \<Rightarrow> update_result" where
  "host_released a at =
     (if vm_phase_of a \<noteq> VP_Releasing \<or> vm_committed_at a = None then Inl UE_InvalidPhase
      else if \<not> vm_healthy a at then
        if vm_failure_of a = Some VF_Uncertain \<and> vm_guest_boot_proof a = None then Inr []
        else Inr [EV_VmUncertain (vm_unavailable a at VF_Uncertain) at]
      else Inr [EV_VmCompleted (a\<lparr>vm_phase_of := VP_Succeeded, vm_completed_at := Some at\<rparr>) at])"

definition host_rolled_back ::
  "vm_attempt \<Rightarrow> process_identity \<Rightarrow> image_identity \<Rightarrow> bool \<Rightarrow> bool \<Rightarrow> time \<Rightarrow> update_result" where
  "host_rolled_back a process img exited restored at =
     (if vm_phase_of a \<noteq> VP_RollingBack \<or> vm_committed_at a \<noteq> None \<or> \<not> process_valid process \<or>
         vm_old_process a = Some process \<or> vm_candidate_process a = Some process \<or>
         img \<noteq> vm_source a \<or> \<not> exited \<or> \<not> restored
      then Inl UE_UnsafeVm
      else Inr [EV_VmCompleted
             (a\<lparr>vm_rollback_process := Some process, vm_phase_of := VP_RolledBack,
                vm_completed_at := Some at\<rparr>) at])"

definition host_staging_cancelled :: "vm_attempt \<Rightarrow> process_identity \<Rightarrow> time \<Rightarrow> update_result" where
  "host_staging_cancelled a old at =
     (if vm_phase_of a \<noteq> VP_Cancelling \<or> vm_authorized_at a \<noteq> None \<or>
         is_some_and (vm_old_process a) (\<lambda>p. p \<noteq> old) \<or> \<not> process_valid old
      then Inl UE_UnsafeVm
      else Inr [EV_VmCompleted
             (a\<lparr>vm_old_process := Some old, vm_phase_of := VP_Cancelled,
                vm_completed_at := Some at\<rparr>) at])"

text \<open>The state after a report that nobody knows what happened, by the host or by the clock.\<close>

definition vm_uncertain :: "vm_attempt \<Rightarrow> time \<Rightarrow> update_result" where
  "vm_uncertain a at =
     (if vm_failure_of a = Some VF_Uncertain \<and>
         (vm_committed_at a = None \<or> vm_guest_boot_proof a = None)
      then Inr []
      else Inr [EV_VmUncertain
             (if vm_committed_at a \<noteq> None then vm_unavailable a at VF_Uncertain
              else a\<lparr>vm_failure_of := Some VF_Uncertain\<rparr>) at])"

definition host_evidence_step :: "vm_attempt \<Rightarrow> host_evidence \<Rightarrow> time \<Rightarrow> update_result" where
  "host_evidence_step a evidence at =
     (case evidence of
        HE_Prepared img old \<Rightarrow> host_prepared a img old at
      | HE_Quiesced old exited fenced \<Rightarrow> host_quiesced a old exited fenced at
      | HE_CandidateRunning process img fresh_start \<Rightarrow>
          host_candidate_running a process img fresh_start at
      | HE_Committed process \<Rightarrow> host_committed a process at
      | HE_Released \<Rightarrow> host_released a at
      | HE_RolledBack process img exited restored \<Rightarrow>
          host_rolled_back a process img exited restored at
      | HE_StagingCancelled old \<Rightarrow> host_staging_cancelled a old at
      | HE_Uncertain \<Rightarrow> vm_uncertain a at)"

definition replayed_evidence :: "vm_attempt \<Rightarrow> host_evidence \<Rightarrow> bool" where
  "replayed_evidence a evidence =
     (case evidence of
        HE_Released \<Rightarrow> vm_phase_of a = VP_Succeeded
      | HE_StagingCancelled old \<Rightarrow> vm_phase_of a = VP_Cancelled \<and> vm_old_process a = Some old
      | HE_RolledBack process img exited restored \<Rightarrow>
          vm_phase_of a = VP_RolledBack \<and> vm_rollback_process a = Some process \<and>
          img = vm_source a \<and> exited \<and> restored
      | _ \<Rightarrow> False)"

definition host_acknowledged :: "vm_fence \<Rightarrow> host_evidence \<Rightarrow> time \<Rightarrow> agent_updates \<Rightarrow> update_result" where
  "host_acknowledged fence evidence at s =
     (if is_some_and (Option.bind (au_last_completed s) completed_vm)
           (\<lambda>a. vm_matches a fence \<and> replayed_evidence a evidence)
      then Inr []
      else and_then (vm_current s (vf_attempt_id fence) at) (\<lambda>a.
        if \<not> vm_matches a fence then Inl UE_StaleFence
        else if vo_deadline (vm_operation_of a) \<le> at \<and>
                vo_action (vm_operation_of a) \<notin> {VA_Commit, VA_ReleaseOld, VA_Rollback} \<and>
                evidence \<noteq> HE_Uncertain
        then Inl UE_Expired
        else host_evidence_step a evidence at))"

section \<open>What the guest proves\<close>

definition invalidate_guest :: "uuid \<Rightarrow> time \<Rightarrow> agent_updates \<Rightarrow> update_result" where
  "invalidate_guest i at s =
     and_then (vm_current s i at) (\<lambda>a.
       if vm_guest_boot_proof a = None then Inr []
       else transitioned (a\<lparr>vm_guest_boot_proof := None\<rparr>) at)"

text \<open>The proof is of this attempt's latest launch, and its documents are current.\<close>

definition proof_identity :: "vm_attempt \<Rightarrow> vm_operation \<Rightarrow> guest_boot_proof \<Rightarrow> bool" where
  "proof_identity a launch proof \<longleftrightarrow>
     gp_guest_machine_id proof = vm_guest_machine_id a \<and>
     gp_guest_registration_key proof = vm_guest_registration_key a \<and>
     gp_attempt_id proof = vm_id_of a \<and> gp_attempt_sequence proof = vm_sequence a \<and>
     gp_launch_sequence proof = vo_sequence launch \<and>
     gp_launch_nonce proof = vo_launch_nonce launch \<and>
     Some (gp_document_generation proof) = vo_document_generation launch \<and>
     0 < gp_guest_document_generation proof \<and>
     gp_guest_document_generation proof = gp_current_guest_document_generation proof \<and>
     vm_last_guest_document_generation a \<le> gp_guest_document_generation proof"

text \<open>The boot is the one seen before, and no boot of an earlier process.\<close>

definition proof_boot :: "vm_attempt \<Rightarrow> guest_boot_proof \<Rightarrow> bool" where
  "proof_boot a proof \<longleftrightarrow>
     \<not> is_some_and (vm_candidate_boot_identity a)
         (\<lambda>identity. identity \<noteq> (gp_os_boot_id proof, gp_pid1_context proof)) \<and>
     \<not> is_some_and (vm_guest_boot_proof a)
         (\<lambda>old. gp_observed_at proof < gp_observed_at old \<or>
                gp_guest_document_generation proof < gp_guest_document_generation old \<or>
                gp_os_boot_id proof \<noteq> gp_os_boot_id old \<or>
                gp_pid1_context proof \<noteq> gp_pid1_context old) \<and>
     \<not> (vm_committed_restart_at a \<noteq> None \<and>
        is_some_and (vm_committed_previous_boot a)
          (\<lambda>old. gp_os_boot_id proof = gp_os_boot_id old \<or>
                 gp_pid1_context proof = gp_pid1_context old)) \<and>
     \<not> is_nil (gp_os_boot_id proof) \<and> \<not> is_nil (gp_pid1_context proof) \<and>
     vm_old_os_boot_id a \<noteq> Some (gp_os_boot_id proof)"

definition proof_healthy :: "vm_attempt \<Rightarrow> guest_boot_proof \<Rightarrow> time \<Rightarrow> bool" where
  "proof_healthy a proof at \<longleftrightarrow>
     target_matches (vm_target_of a) (gp_image proof) \<and> gp_runtime_ready proof \<and>
     gp_cpu_probe proof \<and> gp_memory_probe proof \<and> gp_attachment_probe proof \<and>
     \<not> gp_probe_failed proof \<and> fresh at (gp_observed_at proof) (health_since a) \<and>
     vm_old_process_exited a \<and> vm_candidate_process a \<noteq> None"

definition verify_guest :: "uuid \<Rightarrow> guest_boot_proof \<Rightarrow> time \<Rightarrow> agent_updates \<Rightarrow> update_result" where
  "verify_guest i proof at s =
     and_then (vm_current s i at) (\<lambda>a.
       let committed_observation =
             vm_committed_at a \<noteq> None \<and> vm_phase_of a \<in> {VP_Committed, VP_Releasing};
           deadline = (if vm_committed_at a \<noteq> None then vm_committed_recovery_deadline a
                       else Some (vm_deadline a))
       in if vm_guest_boot_proof a = Some proof then Inr []
          else if (vm_phase_of a \<notin> {VP_CandidateRunning, VP_Verifying} \<and> \<not> committed_observation) \<or>
                  is_some_and deadline (\<lambda>deadline. deadline \<le> at)
          then Inl UE_InvalidPhase
          else case vm_candidate_launch a of
            None \<Rightarrow> Inl UE_StaleFence
          | Some launch \<Rightarrow>
              if \<not> proof_identity a launch proof \<or> \<not> proof_boot a proof \<or> \<not> proof_healthy a proof at
              then Inl UE_UnsafeVm
              else transitioned
                (a\<lparr>vm_candidate_boot_identity := Some (gp_os_boot_id proof, gp_pid1_context proof),
                   vm_last_guest_document_generation := gp_guest_document_generation proof,
                   vm_guest_boot_proof := Some proof,
                   vm_phase_of :=
                     (if vm_committed_at a \<noteq> None then
                        if vm_phase_of a = VP_Releasing then VP_Releasing else VP_Committed
                      else VP_Verifying)\<rparr>) at)"

section \<open>Commit and release\<close>

definition commit_vm :: "uuid \<Rightarrow> time \<Rightarrow> agent_updates \<Rightarrow> update_result" where
  "commit_vm i at s =
     and_then (vm_current s i at) (\<lambda>a.
       if vm_committed_at a \<noteq> None then Inl UE_Irreversible
       else if vm_phase_of a = VP_Committing then Inr []
       else if vm_phase_of a \<noteq> VP_Verifying \<or> vm_guest_boot_proof a = None \<or> vm_deadline a \<le> at
       then Inl UE_InvalidPhase
       else if \<not> is_some_and (vm_guest_boot_proof a)
                 (\<lambda>proof. fresh at (gp_observed_at proof)
                            (unwrap_or (vm_authorized_at a) (vm_offered_at a)))
       then Inl UE_UnsafeVm
       else and_then (vm_instruction a VA_Commit)
              (\<lambda>a. transitioned (a\<lparr>vm_phase_of := VP_Committing\<rparr>) at))"

definition release_old :: "uuid \<Rightarrow> time \<Rightarrow> agent_updates \<Rightarrow> update_result" where
  "release_old i at s =
     and_then (vm_current s i at) (\<lambda>a.
       if vm_phase_of a = VP_Releasing then Inr []
       else if vm_phase_of a \<noteq> VP_Committed \<or> vm_committed_at a = None then Inl UE_InvalidPhase
       else if \<not> vm_healthy a at then Inl UE_UnsafeVm
       else and_then (vm_instruction a VA_ReleaseOld)
              (\<lambda>a. transitioned (a\<lparr>vm_phase_of := VP_Releasing\<rparr>) at))"

section \<open>The way back\<close>

definition past_return :: "vm_attempt \<Rightarrow> bool" where
  "past_return a \<longleftrightarrow>
     vm_committed_at a \<noteq> None \<or> vo_action (vm_operation_of a) \<in> {VA_Commit, VA_ReleaseOld}"

definition rollback_vm :: "vm_attempt \<Rightarrow> vm_failure \<Rightarrow> uuid \<Rightarrow> time \<Rightarrow> time \<Rightarrow> update_result" where
  "rollback_vm a failure nonce deadline at =
     (if past_return a then Inl UE_Irreversible
      else if vm_phase_of a \<in> {VP_RollingBack, VP_Cancelling} then
        if vo_launch_nonce (vm_operation_of a) = nonce \<and> vo_deadline (vm_operation_of a) = deadline
        then Inr [] else Inl UE_StaleFence
      else if \<not> bounded at deadline 5 then Inl UE_InvalidAttempt
      else if nonce_refused a nonce then Inl UE_StaleFence
      else and_then (vm_next a VA_Rollback nonce deadline)
        (\<lambda>a. Inr [EV_VmRecoveryRequested
           (a\<lparr>vm_failure_of := Some failure,
              vm_phase_of := (if vm_authorized_at a \<noteq> None then VP_RollingBack else VP_Cancelling)\<rparr>)
           at]))"

definition cancel_vm :: "uuid \<Rightarrow> uuid \<Rightarrow> time \<Rightarrow> time \<Rightarrow> agent_updates \<Rightarrow> update_result" where
  "cancel_vm i nonce deadline at s =
     and_then (vm_current s i at) (\<lambda>a. rollback_vm a VF_Cancelled nonce deadline at)"

definition fail_vm ::
  "uuid \<Rightarrow> vm_failure \<Rightarrow> uuid \<Rightarrow> time \<Rightarrow> time \<Rightarrow> agent_updates \<Rightarrow> update_result" where
  "fail_vm i failure nonce deadline at s =
     and_then (vm_current s i at) (\<lambda>a.
       if failure = VF_Timeout \<and> at < vo_deadline (vm_operation_of a) then Inl UE_InvalidAttempt
       else if past_return a \<or> failure = VF_Uncertain \<or>
               (failure = VF_Timeout \<and> vm_phase_of a \<in> {VP_RollingBack, VP_Cancelling})
       then vm_uncertain a at
       else rollback_vm a failure nonce deadline at)"

definition vm_handle :: "vm_command \<Rightarrow> agent_updates \<Rightarrow> update_result" where
  "vm_handle c s =
     (if \<not> au_initialized s then Inl UE_NotInitialized
      else case c of
        VC_Request r at \<Rightarrow> request_vm r at s
      | VC_DocumentPublished i sequence generation at \<Rightarrow> document_published i sequence generation at s
      | VC_BeginDrain i at \<Rightarrow> begin_drain i at s
      | VC_AuthorizeQuiesce i proof nonce deadline at \<Rightarrow> authorize_quiesce i proof nonce deadline at s
      | VC_StartCandidate i nonce at \<Rightarrow> start_candidate i nonce at s
      | VC_RestartCommitted i nonce deadline at \<Rightarrow> restart_committed i nonce deadline at s
      | VC_HostAcknowledged fence evidence at \<Rightarrow> host_acknowledged fence evidence at s
      | VC_VerifyGuest i proof at \<Rightarrow> verify_guest i proof at s
      | VC_InvalidateGuest i at \<Rightarrow> invalidate_guest i at s
      | VC_Commit i at \<Rightarrow> commit_vm i at s
      | VC_ReleaseOld i at \<Rightarrow> release_old i at s
      | VC_Cancel i nonce deadline at \<Rightarrow> cancel_vm i nonce deadline at s
      | VC_Fail i failure nonce deadline at \<Rightarrow>
          if failure = VF_Cancelled then cancel_vm i nonce deadline at s
          else fail_vm i failure nonce deadline at s)"

section \<open>The commands of the rollout\<close>

datatype update_command =
  UC_Vm vm_command
| UC_Initialize time
| UC_Select public_build time
| UC_Pause time
| UC_Resume time
| UC_Offer uuid uuid string nat string time time
| UC_Begin update_fence uuid "provider_fence option" time
| UC_HoldMigration uuid uuid time
| UC_ClearMigration uuid uuid time
| UC_ReserveProvider update_fence string uuid time
| UC_AcknowledgeProviderRelease provider_fence time
| UC_Health update_fence uuid time
| UC_Commit update_fence uuid time
| UC_Rollback update_fence uuid time
| UC_Fail update_fence update_failure time
| UC_Cancel update_fence time

definition initialized_handle :: "update_command \<Rightarrow> agent_updates \<Rightarrow> update_result" where
  "initialized_handle c s =
     (case c of
        UC_Initialize _ \<Rightarrow> Inr []
      | UC_Vm _ \<Rightarrow> Inl UE_InvalidAttempt
      | UC_HoldMigration machine migration at \<Rightarrow> hold_migration machine migration at s
      | UC_ClearMigration machine migration at \<Rightarrow> clear_migration machine migration at s
      | UC_ReserveProvider fence provider controller at \<Rightarrow> reserve_provider fence provider controller at s
      | UC_AcknowledgeProviderRelease reservation at \<Rightarrow> acknowledge_release reservation at s
      | UC_Select target at \<Rightarrow> select_target target at s
      | UC_Pause at \<Rightarrow> pause_rollout at s
      | UC_Resume at \<Rightarrow> resume_rollout at s
      | UC_Offer i machine key generation previous at expires \<Rightarrow>
          offer_update i machine key generation previous at expires s
      | UC_Begin fence boot permit at \<Rightarrow> begin_update fence boot permit at s
      | UC_Health fence boot at \<Rightarrow> report_health fence boot at s
      | UC_Commit fence boot at \<Rightarrow> commit_update fence boot at s
      | UC_Rollback fence boot at \<Rightarrow> rollback_update fence boot at s
      | UC_Fail fence failure at \<Rightarrow> fail_update fence failure at s
      | UC_Cancel fence at \<Rightarrow> cancel_offer fence at s)"

definition updates_handle :: "update_command \<Rightarrow> agent_updates \<Rightarrow> update_result" where
  "updates_handle c s =
     (case c of
        UC_Vm command \<Rightarrow> vm_handle command s
      | UC_Initialize at \<Rightarrow> Inr (if au_initialized s then [] else [EV_Initialized at])
      | _ \<Rightarrow> if \<not> au_initialized s then Inl UE_NotInitialized else initialized_handle c s)"

end
