(* ===== verification/Updates_Inv.thy ===== *)
theory Updates_Inv
  imports Vm_Commands
begin

text \<open>
  The well-formedness of the rollout: what is known of a VM's replacement in each of its phases, what
  is known of an attempt on an executable, and that every command keeps it. Every command records at
  most one event, and the event satisfies a guard that names what it may do to the slot.
\<close>

section \<open>A VM's replacement, phase by phase\<close>

definition proof_sound :: "vm_attempt \<Rightarrow> guest_boot_proof \<Rightarrow> bool" where
  "proof_sound a p \<longleftrightarrow>
     gp_guest_machine_id p = vm_guest_machine_id a \<and>
     gp_guest_registration_key p = vm_guest_registration_key a \<and>
     gp_attempt_id p = vm_id_of a \<and> gp_attempt_sequence p = vm_sequence a \<and>
     target_matches (vm_target_of a) (gp_image p) \<and> gp_runtime_ready p \<and> gp_cpu_probe p \<and>
     gp_memory_probe p \<and> gp_attachment_probe p \<and> \<not> gp_probe_failed p \<and>
     \<not> is_nil (gp_os_boot_id p) \<and> vm_old_os_boot_id a \<noteq> Some (gp_os_boot_id p)"

definition vm_staged :: "vm_attempt \<Rightarrow> bool" where
  "vm_staged a \<longleftrightarrow>
     vm_authorized_at a = None \<and> vm_committed_at a = None \<and> vm_committed_restart_at a = None \<and>
     vo_sequence (vm_operation_of a) = 1 \<and> vo_action (vm_operation_of a) = VA_Prepare \<and>
     nonces_used (vm_used_launch_nonces a) 1 \<and> vm_guest_boot_proof a = None"

definition vm_moved :: "vm_attempt \<Rightarrow> nat \<Rightarrow> bool" where
  "vm_moved a n \<longleftrightarrow>
     vm_authorized_at a \<noteq> None \<and> vm_committed_at a = None \<and> vm_committed_restart_at a = None \<and>
     vo_sequence (vm_operation_of a) = n \<and>
     vo_action (vm_operation_of a) \<notin> {VA_Commit, VA_ReleaseOld} \<and>
     nonces_used (vm_used_launch_nonces a) n \<and> vm_old_process a \<noteq> None"

definition vm_final :: "vm_attempt \<Rightarrow> bool" where
  "vm_final a \<longleftrightarrow>
     vm_authorized_at a \<noteq> None \<and> vm_committed_at a \<noteq> None \<and>
     nonces_used (vm_used_launch_nonces a) (if vm_committed_restart_at a = None then 3 else 4)"

definition vm_stopped :: "vm_attempt \<Rightarrow> bool" where
  "vm_stopped a \<longleftrightarrow> vm_root_fenced a \<and> vm_old_process_exited a \<and> vm_old_process a \<noteq> None"

definition vm_candidate :: "vm_attempt \<Rightarrow> bool" where
  "vm_candidate a \<longleftrightarrow>
     is_some_and (vm_candidate_process a) (\<lambda>p. process_valid p \<and> vm_old_process a \<noteq> Some p)"

definition vm_launched :: "vm_attempt \<Rightarrow> bool" where
  "vm_launched a \<longleftrightarrow>
     vm_stopped a \<and> vm_guest_boot_proof a = None \<and>
     (if vm_committed_at a = None then vm_moved a 3
      else vm_final a \<and> vm_committed_restart_at a \<noteq> None)"

fun phase_facts :: "vm_phase \<Rightarrow> vm_attempt \<Rightarrow> bool" where
  "phase_facts VP_Preparing a \<longleftrightarrow> vm_staged a"
| "phase_facts VP_Prepared a \<longleftrightarrow> vm_staged a \<and> vm_old_process a \<noteq> None"
| "phase_facts VP_Draining a \<longleftrightarrow> vm_staged a \<and> vm_old_process a \<noteq> None"
| "phase_facts VP_Quiescing a \<longleftrightarrow> vm_moved a 2 \<and> vm_guest_boot_proof a = None"
| "phase_facts VP_Quiesced a \<longleftrightarrow> vm_moved a 2 \<and> vm_stopped a \<and> vm_guest_boot_proof a = None"
| "phase_facts VP_Starting a \<longleftrightarrow> vm_launched a"
| "phase_facts VP_CandidateRunning a \<longleftrightarrow> vm_launched a \<and> vm_candidate a"
| "phase_facts VP_Verifying a \<longleftrightarrow> vm_moved a 3 \<and> vm_stopped a \<and> vm_candidate a"
| "phase_facts VP_Committing a \<longleftrightarrow>
     vm_authorized_at a \<noteq> None \<and> vm_committed_at a = None \<and> vm_committed_restart_at a = None \<and>
     vo_action (vm_operation_of a) = VA_Commit \<and> nonces_used (vm_used_launch_nonces a) 3 \<and>
     vm_stopped a \<and> vm_candidate a"
| "phase_facts VP_Committed a \<longleftrightarrow> vm_final a \<and> vm_stopped a \<and> vm_candidate a"
| "phase_facts VP_Releasing a \<longleftrightarrow> vm_final a \<and> vm_stopped a \<and> vm_candidate a"
| "phase_facts VP_RollingBack a \<longleftrightarrow>
     vm_authorized_at a \<noteq> None \<and> vm_committed_at a = None \<and> vm_old_process a \<noteq> None"
| "phase_facts VP_Cancelling a \<longleftrightarrow>
     vm_authorized_at a = None \<and> vm_committed_at a = None \<and> vm_guest_boot_proof a = None"
| "phase_facts _ a \<longleftrightarrow> False"

definition vm_inv :: "vm_attempt \<Rightarrow> bool" where
  "vm_inv a \<longleftrightarrow>
     phase_facts (vm_phase_of a) a \<and> is_none_or (vm_old_process a) process_valid \<and>
     is_none_or (vm_guest_boot_proof a) (proof_sound a)"

lemmas vm_facts = vm_staged_def vm_moved_def vm_final_def vm_stopped_def vm_candidate_def vm_launched_def

section \<open>How far an update has come\<close>

datatype update_stage = Revocable_Offer | Authorised | Irrevocable

definition vm_stage :: "vm_attempt \<Rightarrow> update_stage" where
  "vm_stage a =
     (if vm_committed_at a \<noteq> None then Irrevocable
      else if vm_authorized_at a \<noteq> None then Authorised else Revocable_Offer)"

definition same_vm :: "vm_attempt \<Rightarrow> vm_attempt \<Rightarrow> bool" where
  "same_vm a b \<longleftrightarrow>
     vm_id_of b = vm_id_of a \<and> vm_sequence b = vm_sequence a \<and> vm_vm_id b = vm_vm_id a \<and>
     vm_host_machine_id b = vm_host_machine_id a \<and> vm_guest_machine_id b = vm_guest_machine_id a \<and>
     vm_source b = vm_source a \<and> vm_target_of b = vm_target_of a \<and>
     vm_offered_at b = vm_offered_at a"

text \<open>What a completed replacement is: the new machine proven, the old one restored, or nothing done.\<close>

definition completes_safely :: "vm_attempt \<Rightarrow> time \<Rightarrow> bool" where
  "completes_safely a at \<longleftrightarrow>
     (case vm_phase_of a of
        VP_Succeeded \<Rightarrow>
          vm_committed_at a \<noteq> None \<and> vm_stopped a \<and> vm_candidate a \<and> vm_healthy a at \<and>
          is_some_and (vm_guest_boot_proof a) (proof_sound a)
      | VP_RolledBack \<Rightarrow>
          vm_committed_at a = None \<and> vm_authorized_at a \<noteq> None \<and>
          is_some_and (vm_rollback_process a)
            (\<lambda>p. process_valid p \<and> vm_old_process a \<noteq> Some p \<and> vm_candidate_process a \<noteq> Some p)
      | VP_Cancelled \<Rightarrow>
          vm_committed_at a = None \<and> vm_authorized_at a = None \<and>
          is_some_and (vm_old_process a) process_valid
      | _ \<Rightarrow> False)"

text \<open>What an event of a replacement may do to the attempt in the slot.\<close>

definition vm_change :: "vm_attempt \<Rightarrow> vm_attempt \<Rightarrow> bool" where
  "vm_change a b \<longleftrightarrow> vm_inv b \<and> same_vm a b \<and> vm_stage b = vm_stage a"

fun vm_step_ok :: "vm_attempt \<Rightarrow> update_event \<Rightarrow> bool" where
  "vm_step_ok a (EV_VmTransitioned b at) \<longleftrightarrow>
     vm_inv b \<and> same_vm a b \<and> vm_phase_of b \<noteq> VP_Preparing \<and>
     (if vm_phase_of b = VP_Quiescing then vm_stage a = Revocable_Offer \<and> vm_stage b = Authorised
      else vm_stage b = vm_stage a)"
| "vm_step_ok a (EV_VmDocumentPublished b at) \<longleftrightarrow> vm_change a b"
| "vm_step_ok a (EV_VmRecoveryRequested b at) \<longleftrightarrow> vm_change a b"
| "vm_step_ok a (EV_VmUncertain b at) \<longleftrightarrow> vm_change a b"
| "vm_step_ok a (EV_VmCommitConfirmed b at) \<longleftrightarrow>
     vm_inv b \<and> same_vm a b \<and> vm_stage a = Authorised \<and> vm_stage b = Irrevocable"
| "vm_step_ok a (EV_VmCompleted b at) \<longleftrightarrow>
     same_vm a b \<and> completes_safely b at \<and> vm_stage b = vm_stage a"
| "vm_step_ok a _ \<longleftrightarrow> False"

text \<open>A result that is an error, nothing, or one event that is allowed.\<close>

definition vm_result_ok :: "vm_attempt \<Rightarrow> update_result \<Rightarrow> bool" where
  "vm_result_ok a r \<longleftrightarrow>
     (case r of Inl _ \<Rightarrow> True | Inr es \<Rightarrow> es = [] \<or> (\<exists>e. es = [e] \<and> vm_step_ok a e))"

lemma vm_result_ok_simps [simp]:
  "vm_result_ok a (Inl e)" "vm_result_ok a (Inr [])" "vm_result_ok a (Inr [ev]) \<longleftrightarrow> vm_step_ok a ev"
  by (simp_all add: vm_result_ok_def)

lemma vm_result_ok_and_then:
  "(\<And>x. r = Inr x \<Longrightarrow> vm_result_ok a (f x)) \<Longrightarrow> vm_result_ok a (and_then r f)"
  by (cases r) auto

lemma vm_result_ok_transitioned [simp]:
  "vm_result_ok a (transitioned b at) \<longleftrightarrow> vm_step_ok a (EV_VmTransitioned (b\<lparr>vm_completed_at := None\<rparr>) at)"
  by (simp add: transitioned_def)

lemma same_vm_refl [simp]: "same_vm a a"
  by (simp add: same_vm_def)

section \<open>The phases the handlers leave alone\<close>

text \<open>Facts of a phase do not speak of documents, failures and times of completion.\<close>

lemma phase_facts_frame [simp]:
  "phase_facts ph (a\<lparr>vm_completed_at := x\<rparr>) = phase_facts ph a"
  "phase_facts ph (a\<lparr>vm_failure_of := y\<rparr>) = phase_facts ph a"
  "phase_facts ph (a\<lparr>vm_phase_of := q\<rparr>) = phase_facts ph a"
  by (cases ph; simp add: vm_facts)+

lemma document_facts:
  "phase_facts ph a \<Longrightarrow> phase_facts ph (a\<lparr>vm_last_document_generation := g,
     vm_operation_of := (vm_operation_of a)\<lparr>vo_document_generation := Some g\<rparr>,
     vm_candidate_launch := l\<rparr>)"
  by (cases ph) (auto simp: vm_facts split: if_splits)

lemma no_proof_facts: "phase_facts ph a \<Longrightarrow> phase_facts ph (a\<lparr>vm_guest_boot_proof := None\<rparr>)"
  by (cases ph) (auto simp: vm_facts split: if_splits)

lemma unavailable_facts:
  "phase_facts ph a \<Longrightarrow> vm_committed_at a \<noteq> None \<Longrightarrow> phase_facts ph (vm_unavailable a at f)"
  by (cases ph) (auto simp: vm_facts vm_unavailable_def split: if_splits)

lemma proof_sound_frame [simp]:
  "proof_sound (a\<lparr>vm_completed_at := x\<rparr>) = proof_sound a"
  "proof_sound (a\<lparr>vm_failure_of := f\<rparr>) = proof_sound a"
  "proof_sound (a\<lparr>vm_phase_of := q\<rparr>) = proof_sound a"
  "proof_sound (a\<lparr>vm_operation_of := oper\<rparr>) = proof_sound a"
  "proof_sound (a\<lparr>vm_used_launch_nonces := xs\<rparr>) = proof_sound a"
  "proof_sound (a\<lparr>vm_last_document_generation := g\<rparr>) = proof_sound a"
  "proof_sound (a\<lparr>vm_candidate_launch := l\<rparr>) = proof_sound a"
  "proof_sound (a\<lparr>vm_committed_at := c\<rparr>) = proof_sound a"
  by (auto simp: proof_sound_def fun_eq_iff)

lemma unavailable_fields [simp]:
  "vm_guest_boot_proof (vm_unavailable a at f) = None"
  "vm_id_of (vm_unavailable a at f) = vm_id_of a"
  "vm_sequence (vm_unavailable a at f) = vm_sequence a"
  "vm_vm_id (vm_unavailable a at f) = vm_vm_id a"
  "vm_host_machine_id (vm_unavailable a at f) = vm_host_machine_id a"
  "vm_guest_machine_id (vm_unavailable a at f) = vm_guest_machine_id a"
  "vm_guest_registration_key (vm_unavailable a at f) = vm_guest_registration_key a"
  "vm_source (vm_unavailable a at f) = vm_source a"
  "vm_target_of (vm_unavailable a at f) = vm_target_of a"
  "vm_offered_at (vm_unavailable a at f) = vm_offered_at a"
  "vm_authorized_at (vm_unavailable a at f) = vm_authorized_at a"
  "vm_committed_at (vm_unavailable a at f) = vm_committed_at a"
  "vm_committed_restart_at (vm_unavailable a at f) = vm_committed_restart_at a"
  "vm_root_fenced (vm_unavailable a at f) = vm_root_fenced a"
  "vm_old_process_exited (vm_unavailable a at f) = vm_old_process_exited a"
  "vm_candidate_process (vm_unavailable a at f) = vm_candidate_process a"
  "vm_rollback_process (vm_unavailable a at f) = vm_rollback_process a"
  "vm_old_os_boot_id (vm_unavailable a at f) = vm_old_os_boot_id a"
  "vm_operation_of (vm_unavailable a at f) = vm_operation_of a"
  "vm_used_launch_nonces (vm_unavailable a at f) = vm_used_launch_nonces a"
  "vm_old_process (vm_unavailable a at f) = vm_old_process a"
  "vm_phase_of (vm_unavailable a at f) = vm_phase_of a"
  by (simp_all add: vm_unavailable_def)

section \<open>Every handler of a replacement\<close>

lemma uncertain_ok: "vm_inv a \<Longrightarrow> vm_result_ok a (vm_uncertain a at)"
  by (cases "vm_committed_at a")
    (auto simp: vm_uncertain_def vm_change_def vm_inv_def unavailable_facts same_vm_def vm_stage_def)

lemma vm_inv_next:
  assumes "vm_next a action nonce deadline = Inr b" "nonces_used (vm_used_launch_nonces a) n" "n < 4"
  shows "\<exists>xs. b = a\<lparr>vm_operation_of :=
             \<lparr>vo_sequence = Suc (vo_sequence (vm_operation_of a)), vo_action = action,
              vo_launch_nonce = nonce, vo_deadline = deadline, vo_document_generation = None\<rparr>,
           vm_used_launch_nonces := xs\<rparr> \<and> nonces_used xs (Suc n)"
proof -
  from vm_next_Inr[OF assms(1)] obtain slot where
    "Some nonce \<notin> set (vm_used_launch_nonces a)" "free_slot (vm_used_launch_nonces a) = Some slot"
    and b: "b = a\<lparr>vm_operation_of :=
             \<lparr>vo_sequence = Suc (vo_sequence (vm_operation_of a)), vo_action = action,
              vo_launch_nonce = nonce, vo_deadline = deadline, vo_document_generation = None\<rparr>,
           vm_used_launch_nonces := (vm_used_launch_nonces a)[slot := Some nonce]\<rparr>"
    by (auto simp: nonce_refused_def)
  with nonces_used_free[OF assms(2)] assms(3) nonces_used_insert[OF assms(2,3)] show ?thesis by auto
qed

lemma rollback_ok:
  assumes "vm_inv a"
  shows "vm_result_ok a (rollback_vm a failure nonce deadline at)"
proof (cases "past_return a \<or> vm_phase_of a \<in> {VP_RollingBack, VP_Cancelling} \<or> \<not> bounded at deadline 5 \<or>
              nonce_refused a nonce")
  case True
  then show ?thesis by (auto simp: rollback_vm_def)
next
  case False
  have "vm_step_ok a (EV_VmRecoveryRequested
           (b\<lparr>vm_failure_of := Some failure,
              vm_phase_of := (if vm_authorized_at b \<noteq> None then VP_RollingBack else VP_Cancelling)\<rparr>) at)"
    if "vm_next a VA_Rollback nonce deadline = Inr b" for b
    using vm_next_Inr[OF that] assms False
    by (cases "vm_phase_of a")
      (auto simp: vm_change_def vm_inv_def vm_facts same_vm_def vm_stage_def past_return_def
        split: if_splits)
  with False show ?thesis
    by (auto simp: rollback_vm_def intro!: vm_result_ok_and_then)
qed

lemma document_ok:
  assumes "vm_inv a" "vm_current s i at = Inr a"
  shows "vm_result_ok a (document_published i sequence generation at s)"
  using assms document_facts[of "vm_phase_of a" a]
  by (auto simp: document_published_def Let_def vm_change_def vm_inv_def same_vm_def vm_stage_def)

lemma begin_drain_ok:
  assumes "vm_inv a" "vm_current s i at = Inr a"
  shows "vm_result_ok a (begin_drain i at s)"
  using assms by (auto simp: begin_drain_def vm_inv_def same_vm_def vm_stage_def)

lemma authorize_ok:
  assumes "vm_inv a" "vm_current s i at = Inr a"
  shows "vm_result_ok a (authorize_quiesce i proof nonce deadline at s)"
proof -
  let ?b = "a\<lparr>vm_last_guest_document_generation := dp_guest_document_generation proof,
              vm_authorized_at := Some at, vm_deadline := deadline\<rparr>"
  have "vm_step_ok a (EV_VmTransitioned (c\<lparr>vm_phase_of := VP_Quiescing, vm_completed_at := None\<rparr>) at)"
    if "vm_next ?b VA_Quiesce nonce deadline = Inr c" "vm_phase_of a = VP_Draining" for c
  proof -
    have "nonces_used (vm_used_launch_nonces ?b) 1"
      using assms(1) that(2) by (simp add: vm_inv_def vm_staged_def)
    from vm_inv_next[OF that(1) this] show ?thesis
      using assms(1) that(2)
      by (auto simp: vm_inv_def vm_facts same_vm_def vm_stage_def numeral_2_eq_2)
  qed
  with assms(2) show ?thesis
    by (auto simp: authorize_quiesce_def intro!: vm_result_ok_and_then)
qed

lemma start_ok:
  assumes "vm_inv a" "vm_current s i at = Inr a"
  shows "vm_result_ok a (start_candidate i nonce at s)"
proof -
  have "vm_step_ok a (EV_VmTransitioned (c\<lparr>vm_phase_of := VP_Starting, vm_completed_at := None\<rparr>) at)"
    if "vm_next a VA_StartCandidate nonce (vm_deadline a) = Inr c" "vm_phase_of a = VP_Quiesced" for c
  proof -
    have "nonces_used (vm_used_launch_nonces a) 2"
      using assms(1) that(2) by (simp add: vm_inv_def vm_moved_def)
    from vm_inv_next[OF that(1) this] show ?thesis
      using assms(1) that(2) by (auto simp: vm_inv_def vm_facts same_vm_def vm_stage_def)
  qed
  with assms(2) show ?thesis
    by (auto simp: start_candidate_def intro!: vm_result_ok_and_then)
qed

lemma restart_ok:
  assumes "vm_inv a" "vm_current s i at = Inr a"
  shows "vm_result_ok a (restart_committed i nonce deadline at s)"
proof -
  let ?b = "vm_unavailable (a\<lparr>vm_committed_previous_process := vm_candidate_process a,
                              vm_candidate_process := None\<rparr>) at VF_HostFailed"
  have "vm_step_ok a (EV_VmRecoveryRequested
      (c\<lparr>vm_committed_restart_at := Some at, vm_committed_recovery_deadline := Some deadline,
         vm_candidate_launch := None, vm_candidate_boot_identity := None,
         vm_phase_of := VP_Starting\<rparr>) at)"
    if "vm_next ?b VA_StartCandidate nonce deadline = Inr c" "vm_committed_restart_at a = None"
      "vm_phase_of a \<in> {VP_Committed, VP_Releasing}" for c
  proof -
    have "nonces_used (vm_used_launch_nonces ?b) 3"
      using assms(1) that(2,3) by (auto simp: vm_inv_def vm_final_def)
    from vm_inv_next[OF that(1) this] show ?thesis
      using assms(1) that(2,3)
      by (auto simp: vm_change_def vm_inv_def vm_facts same_vm_def vm_stage_def vm_unavailable_def)
  qed
  with assms(2) show ?thesis
    by (auto simp: restart_committed_def intro!: vm_result_ok_and_then)
qed

lemma healthy_frame [simp]:
  "vm_healthy (a\<lparr>vm_phase_of := q\<rparr>) = vm_healthy a"
  "vm_healthy (a\<lparr>vm_completed_at := x\<rparr>) = vm_healthy a"
  by (auto simp: vm_healthy_def health_since_def fun_eq_iff)

lemma healthy_proof: "vm_healthy a at \<Longrightarrow> vm_guest_boot_proof a \<noteq> None"
  by (auto simp: vm_healthy_def is_some_and_iff)

lemma evidence_ok:
  assumes "vm_inv a"
  shows "vm_result_ok a (host_evidence_step a evidence at)"
proof (cases evidence)
  case (HE_Prepared img old)
  with assms show ?thesis
    by (auto simp: host_evidence_step_def host_prepared_def vm_inv_def vm_facts same_vm_def vm_stage_def)
next
  case (HE_Quiesced old exited fenced)
  with assms show ?thesis
    by (auto simp: host_evidence_step_def host_quiesced_def vm_inv_def vm_facts same_vm_def vm_stage_def)
next
  case (HE_CandidateRunning process img fresh_start)
  with assms show ?thesis
    by (auto simp: host_evidence_step_def host_candidate_running_def vm_inv_def vm_facts same_vm_def
        vm_stage_def split: if_splits)
next
  case (HE_Committed process)
  with assms show ?thesis
    by (cases process)
      (auto simp: host_evidence_step_def host_committed_def Let_def vm_change_def vm_inv_def
        unavailable_facts vm_facts vm_stage_def same_vm_def vm_unavailable_def)
next
  case HE_Released
  with assms healthy_proof[of a at] show ?thesis
    by (auto simp: host_evidence_step_def host_released_def vm_change_def vm_inv_def
        completes_safely_def vm_facts vm_stage_def same_vm_def vm_unavailable_def)
next
  case (HE_RolledBack process img exited restored)
  with assms show ?thesis
    by (auto simp: host_evidence_step_def host_rolled_back_def completes_safely_def vm_inv_def vm_stage_def
        same_vm_def)
next
  case (HE_StagingCancelled old)
  with assms show ?thesis
    by (auto simp: host_evidence_step_def host_staging_cancelled_def completes_safely_def vm_inv_def
        vm_stage_def same_vm_def)
next
  case HE_Uncertain
  with assms show ?thesis by (simp add: host_evidence_step_def uncertain_ok)
qed

lemma acknowledged_ok:
  assumes "vm_inv a" "vm_current s (vf_attempt_id fence) at = Inr a"
  shows "vm_result_ok a (host_acknowledged fence evidence at s)"
  using assms by (simp add: host_acknowledged_def evidence_ok)

lemma invalidate_ok:
  assumes "vm_inv a" "vm_current s i at = Inr a"
  shows "vm_result_ok a (invalidate_guest i at s)"
  using assms no_proof_facts[of "vm_phase_of a" a]
  by (cases "vm_phase_of a")
    (auto simp: invalidate_guest_def vm_inv_def same_vm_def vm_stage_def vm_facts split: if_splits)

lemma verify_ok:
  assumes "vm_inv a" "vm_current s i at = Inr a"
  shows "vm_result_ok a (verify_guest i proof at s)"
proof (cases "vm_guest_boot_proof a = Some proof \<or>
    (vm_phase_of a \<notin> {VP_CandidateRunning, VP_Verifying} \<and>
     \<not> (vm_committed_at a \<noteq> None \<and> vm_phase_of a \<in> {VP_Committed, VP_Releasing}))")
  case True
  with assms(2) show ?thesis by (auto simp: verify_guest_def Let_def)
next
  case False
  let ?b = "a\<lparr>vm_candidate_boot_identity := Some (gp_os_boot_id proof, gp_pid1_context proof),
              vm_last_guest_document_generation := gp_guest_document_generation proof,
              vm_guest_boot_proof := Some proof,
              vm_phase_of :=
                (if vm_committed_at a \<noteq> None then
                   if vm_phase_of a = VP_Releasing then VP_Releasing else VP_Committed
                 else VP_Verifying), vm_completed_at := None\<rparr>"
  have "vm_step_ok a (EV_VmTransitioned ?b at)"
    if "proof_identity a launch proof" "proof_boot a proof" "proof_healthy a proof at" for launch
  proof -
    have "proof_sound ?b proof"
      using that by (auto simp: proof_sound_def proof_identity_def proof_boot_def proof_healthy_def)
    then show ?thesis
      using assms(1) False
      by (cases "vm_phase_of a") (auto simp: vm_inv_def vm_facts same_vm_def vm_stage_def split: if_splits)
  qed
  with assms(2) show ?thesis
    by (auto simp: verify_guest_def Let_def split: option.splits)
qed

lemma commit_ok:
  assumes "vm_inv a" "vm_current s i at = Inr a"
  shows "vm_result_ok a (commit_vm i at s)"
proof -
  have "vm_step_ok a (EV_VmTransitioned (c\<lparr>vm_phase_of := VP_Committing, vm_completed_at := None\<rparr>) at)"
    if "vm_instruction a VA_Commit = Inr c" "vm_phase_of a = VP_Verifying" for c
    using vm_instruction_Inr[OF that(1)] assms(1) that(2)
    by (auto simp: vm_inv_def vm_facts same_vm_def vm_stage_def)
  with assms(2) show ?thesis by (auto simp: commit_vm_def intro!: vm_result_ok_and_then)
qed

lemma release_ok:
  assumes "vm_inv a" "vm_current s i at = Inr a"
  shows "vm_result_ok a (release_old i at s)"
proof -
  have "vm_step_ok a (EV_VmTransitioned (c\<lparr>vm_phase_of := VP_Releasing, vm_completed_at := None\<rparr>) at)"
    if "vm_instruction a VA_ReleaseOld = Inr c" "vm_phase_of a = VP_Committed" for c
    using vm_instruction_Inr[OF that(1)] assms(1) that(2)
    by (auto simp: vm_inv_def vm_facts same_vm_def vm_stage_def)
  with assms(2) show ?thesis by (auto simp: release_old_def intro!: vm_result_ok_and_then)
qed

lemma cancel_vm_ok:
  assumes "vm_inv a" "vm_current s i at = Inr a"
  shows "vm_result_ok a (cancel_vm i nonce deadline at s)"
  using assms by (simp add: cancel_vm_def rollback_ok)

lemma fail_vm_ok:
  assumes "vm_inv a" "vm_current s i at = Inr a"
  shows "vm_result_ok a (fail_vm i failure nonce deadline at s)"
  using assms by (simp add: fail_vm_def rollback_ok uncertain_ok)

lemmas vm_handlers_ok =
  document_ok begin_drain_ok authorize_ok start_ok restart_ok acknowledged_ok verify_ok invalidate_ok
  commit_ok release_ok cancel_vm_ok fail_vm_ok

text \<open>A command that finds no replacement with its identity in the slot is refused.\<close>

lemma vm_current_Inr:
  "vm_current s i at = Inr a \<longleftrightarrow> au_active s = Some (Vm_Active a) \<and> vm_id_of a = i \<and> vm_offered_at a \<le> at"
proof (cases "au_active s")
  case (Some u)
  then show ?thesis by (cases u) (auto simp: vm_current_def)
qed (simp add: vm_current_def)

section \<open>An attempt on an executable\<close>

definition exec_inv :: "attempt \<Rightarrow> bool" where
  "exec_inv a \<longleftrightarrow>
     at_phase a \<notin> {UP_Succeeded, UP_RolledBack} \<and>
     (at_phase a = UP_Offered \<longrightarrow> at_authorized_at a = None) \<and>
     (at_phase a \<in> {UP_Authorized, UP_HealthVerified} \<longrightarrow> at_authorized_at a \<noteq> None) \<and>
     (at_authorized_at a = None \<longrightarrow> at_authorized_boot_id a = None) \<and>
     (at_phase a = UP_HealthVerified \<longrightarrow>
       at_boot_id a \<noteq> None \<and> at_boot_id a \<noteq> Some 0 \<and> at_boot_id a \<noteq> at_authorized_boot_id a)"

definition exec_stage :: "attempt \<Rightarrow> update_stage" where
  "exec_stage a = (if at_authorized_at a \<noteq> None then Authorised else Revocable_Offer)"

definition same_exec :: "attempt \<Rightarrow> attempt \<Rightarrow> bool" where
  "same_exec a b \<longleftrightarrow>
     at_id b = at_id a \<and> at_machine_id b = at_machine_id a \<and> at_sequence b = at_sequence a \<and>
     at_target b = at_target a"

lemma same_exec_refl [simp]: "same_exec a a"
  by (simp add: same_exec_def)

fun exec_step_ok :: "attempt \<Rightarrow> update_event \<Rightarrow> bool" where
  "exec_step_ok a (EV_ProviderReservationRequested b at) \<longleftrightarrow>
     exec_inv b \<and> same_exec a b \<and> exec_stage b = exec_stage a"
| "exec_step_ok a (EV_AttemptAuthorized b at) \<longleftrightarrow>
     exec_inv b \<and> same_exec a b \<and> exec_stage a = Revocable_Offer \<and> exec_stage b = Authorised"
| "exec_step_ok a (EV_CandidateHealthVerified b at) \<longleftrightarrow>
     exec_inv b \<and> same_exec a b \<and> exec_stage b = exec_stage a"
| "exec_step_ok a (EV_AttemptFailed b at) \<longleftrightarrow>
     exec_inv b \<and> same_exec a b \<and> exec_stage b = exec_stage a"
| "exec_step_ok a (EV_AttemptSucceeded b at) \<longleftrightarrow>
     same_exec a b \<and> exec_stage a = Authorised \<and>
     at_boot_id b \<noteq> None \<and> at_boot_id b \<noteq> Some 0 \<and> at_boot_id b \<noteq> at_authorized_boot_id b"
| "exec_step_ok a (EV_AttemptRolledBack b at) \<longleftrightarrow> same_exec a b \<and> exec_stage a = Authorised"
| "exec_step_ok a (EV_OfferCancelled b at) \<longleftrightarrow> same_exec a b \<and> exec_stage a = Revocable_Offer"
| "exec_step_ok a _ \<longleftrightarrow> False"

section \<open>The rollout\<close>

text \<open>
  The attempt in the slot is the one that was numbered last. A machine that an authorised update, or
  any replacement of a VM, owns is held by no migration.
\<close>

fun active_ok :: "active_update \<Rightarrow> bool" where
  "active_ok (Vm_Active a) \<longleftrightarrow> vm_inv a"
| "active_ok (Exec_Active a) \<longleftrightarrow> exec_inv a"

fun active_sequence :: "active_update \<Rightarrow> nat" where
  "active_sequence (Vm_Active a) = vm_sequence a"
| "active_sequence (Exec_Active a) = at_sequence a"

definition excludes_migration :: "active_update \<Rightarrow> bool" where
  "excludes_migration u \<longleftrightarrow> active_authorized u \<or> active_vm u \<noteq> None"

definition updates_inv :: "agent_updates \<Rightarrow> bool" where
  "updates_inv s \<longleftrightarrow>
     (case au_active s of
        None \<Rightarrow> True
      | Some u \<Rightarrow>
          au_initialized s \<and> active_ok u \<and> active_sequence u = au_attempt_sequence s \<and>
          (excludes_migration u \<longrightarrow> (\<forall>m. owns_machine u m \<longrightarrow> \<not> is_held s m)))"

text \<open>What each event may do to the slot, given the state it is recorded in.\<close>

fun updates_event_ok :: "agent_updates \<Rightarrow> update_event \<Rightarrow> bool" where
  "updates_event_ok s (EV_Initialized at) \<longleftrightarrow> \<not> au_initialized s"
| "updates_event_ok s (EV_TargetSelected generation target at) \<longleftrightarrow>
     au_active s = None \<and> build_validate target = Inr () \<and> generation = Suc (au_generation s)"
| "updates_event_ok s (EV_RolloutPaused at) \<longleftrightarrow> True"
| "updates_event_ok s (EV_RolloutResumed at) \<longleftrightarrow> \<not> is_some_and (au_active s) active_failed"
| "updates_event_ok s (EV_MigrationHeld machine migration at) \<longleftrightarrow>
     \<not> is_closed s machine migration \<and> \<not> is_held s machine \<and>
     \<not> is_some_and (au_active s) (\<lambda>u. excludes_migration u \<and> owns_machine u machine)"
| "updates_event_ok s (EV_MigrationCleared machine migration at) \<longleftrightarrow> True"
| "updates_event_ok s (EV_ProviderReleaseAcknowledged reservation at) \<longleftrightarrow>
     au_pending_provider_release s = Some reservation"
| "updates_event_ok s (EV_AttemptOffered a at) \<longleftrightarrow>
     au_initialized s \<and> au_active s = None \<and> \<not> au_paused s \<and> exec_inv a \<and> exec_stage a = Revocable_Offer \<and>
     at_sequence a = Suc (au_attempt_sequence s) \<and> au_target s = Some (at_target a)"
| "updates_event_ok s (EV_AttemptAuthorized b at) \<longleftrightarrow>
     \<not> au_paused s \<and> \<not> is_held s (at_machine_id b) \<and>
     (\<exists>a. au_active s = Some (Exec_Active a) \<and> exec_step_ok a (EV_AttemptAuthorized b at))"
| "updates_event_ok s (EV_VmTransitioned b at) \<longleftrightarrow>
     (if vm_phase_of b = VP_Preparing then
        au_initialized s \<and> au_active s = None \<and> \<not> au_paused s \<and> vm_inv b \<and>
        vm_stage b = Revocable_Offer \<and> vm_sequence b = Suc (au_attempt_sequence s) \<and>
        \<not> is_held s (vm_host_machine_id b) \<and> \<not> is_held s (vm_guest_machine_id b)
      else \<exists>a. au_active s = Some (Vm_Active a) \<and> vm_step_ok a (EV_VmTransitioned b at))"
| "updates_event_ok s e \<longleftrightarrow>
     (case au_active s of
        None \<Rightarrow> False
      | Some (Vm_Active a) \<Rightarrow> vm_step_ok a e
      | Some (Exec_Active a) \<Rightarrow> exec_step_ok a e)"

end
