(* ===== verification/Updates_Run.thy ===== *)
theory Updates_Run
  imports Updates_Inv
begin

text \<open>
  Every command of the rollout records at most one event, the event is allowed, and an allowed event
  keeps the rollout well-formed: the aggregate is an instance of \<open>event_sourced\<close>. And every fact that
  a command adds to a replacement, and every end it gives an update, is from what it brought.
\<close>

section \<open>Every handler records an allowed event\<close>

definition result_ok :: "agent_updates \<Rightarrow> update_result \<Rightarrow> bool" where
  "result_ok s r \<longleftrightarrow>
     (case r of Inl _ \<Rightarrow> True | Inr es \<Rightarrow> es = [] \<or> (\<exists>e. es = [e] \<and> updates_event_ok s e))"

lemma result_ok_simps [simp]:
  "result_ok s (Inl e)" "result_ok s (Inr [])" "result_ok s (Inr [ev]) \<longleftrightarrow> updates_event_ok s ev"
  by (simp_all add: result_ok_def)

lemma result_ok_and_then:
  "(\<And>x. r = Inr x \<Longrightarrow> result_ok s (f x)) \<Longrightarrow> result_ok s (and_then r f)"
  by (cases r) auto

lemma current_attempt_Inr:
  "current_attempt s fence = Inr a \<longleftrightarrow> au_active s = Some (Exec_Active a) \<and> fence = attempt_fence a"
proof (cases "au_active s")
  case (Some u)
  then show ?thesis by (cases u) (auto simp: current_attempt_def attempt_matches_fence)
qed (simp add: current_attempt_def)

lemma vm_step_allowed:
  assumes "au_active s = Some (Vm_Active a)" "vm_step_ok a e"
  shows "updates_event_ok s e"
  using assms by (cases e) auto

lemma vm_result_allowed:
  assumes "au_active s = Some (Vm_Active a)" "vm_result_ok a r"
  shows "result_ok s r"
  using assms(2) vm_step_allowed[OF assms(1)] by (auto simp: vm_result_ok_def result_ok_def split: sum.splits)

lemma request_ok: "au_initialized s \<Longrightarrow> result_ok s (request_vm r at s)"
proof (cases "request_valid r at")
  case True
  assume "au_initialized s"
  with True show ?thesis
    by (auto simp: request_vm_def replayed_request_def and_then_def next_counter_def transitioned_def
        new_vm_attempt_def vm_inv_def vm_facts vm_stage_def nonces_used_def split: option.splits sum.splits if_splits)
next
  case False
  then show ?thesis by (auto simp: request_vm_def replayed_request_def split: option.splits)
qed

lemma hold_ok: "result_ok s (hold_migration machine migration at s)"
  by (cases "au_active s")
    (auto simp: hold_migration_def is_held_def excludes_migration_def split: option.splits)

lemma clear_ok: "result_ok s (clear_migration machine migration at s)"
  by (simp add: clear_migration_def)

lemma target_ok: "result_ok s (select_target target at s)"
  by (auto simp: select_target_def next_counter_def intro!: result_ok_and_then)

lemma pause_ok: "result_ok s (pause_rollout at s)" "result_ok s (resume_rollout at s)"
  by (simp_all add: pause_rollout_def resume_rollout_def)

lemma acknowledge_ok: "result_ok s (acknowledge_release reservation at s)"
  by (simp add: acknowledge_release_def)

lemma offer_ok: "au_initialized s \<Longrightarrow> result_ok s (offer_update i machine key generation previous at expires s)"
  by (auto simp: offer_update_def next_counter_def exec_inv_def exec_stage_def
      intro!: result_ok_and_then split: option.splits if_splits)

lemmas exec_handlers =
  reserve_provider_def begin_update_def report_health_def commit_update_def rollback_update_def
  fail_update_def cancel_offer_def

lemma exec_ok:
  assumes "updates_inv s"
  shows "result_ok s (reserve_provider fence provider controller at s)"
    "result_ok s (begin_update fence boot permit at s)"
    "result_ok s (report_health fence boot at s)"
    "result_ok s (commit_update fence boot at s)"
    "result_ok s (rollback_update fence boot at s)"
    "result_ok s (fail_update fence failure at s)"
    "result_ok s (cancel_offer fence at s)"
proof -
  have inv: "exec_inv a" if "au_active s = Some (Exec_Active a)" for a
    using assms that by (simp add: updates_inv_def)
  show "result_ok s (reserve_provider fence provider controller at s)"
    using inv by (auto simp: reserve_provider_def current_attempt_Inr Let_def exec_inv_def exec_stage_def
        same_exec_def intro!: result_ok_and_then split: option.splits)
  show "result_ok s (begin_update fence boot permit at s)"
    using inv by (auto simp: begin_update_def current_attempt_Inr exec_inv_def exec_stage_def same_exec_def
        intro!: result_ok_and_then)
  show "result_ok s (report_health fence boot at s)"
    using inv by (auto simp: report_health_def current_attempt_Inr exec_inv_def exec_stage_def same_exec_def
        is_nil_def intro!: result_ok_and_then)
  show "result_ok s (commit_update fence boot at s)"
    using inv by (auto simp: commit_update_def current_attempt_Inr exec_inv_def exec_stage_def same_exec_def
        intro!: result_ok_and_then)
  show "result_ok s (rollback_update fence boot at s)"
    using inv by (auto simp: rollback_update_def current_attempt_Inr exec_stage_def same_exec_def
        intro!: result_ok_and_then)
  show "result_ok s (fail_update fence failure at s)"
    using inv by (auto simp: fail_update_def current_attempt_Inr exec_inv_def exec_stage_def same_exec_def
        intro!: result_ok_and_then)
  show "result_ok s (cancel_offer fence at s)"
    using inv by (auto simp: cancel_offer_def current_attempt_Inr exec_inv_def exec_stage_def same_exec_def
        intro!: result_ok_and_then)
qed

text \<open>A command on the replacement in the slot: an error, or the handler's result on that attempt.\<close>

lemma vm_command_ok:
  assumes "updates_inv s" "\<And>a. vm_inv a \<Longrightarrow> vm_current s i at = Inr a \<Longrightarrow> vm_result_ok a r"
    "\<And>e. vm_current s i at = Inl e \<Longrightarrow> r = Inl e \<or> r = Inr []"
  shows "result_ok s r"
proof (cases "vm_current s i at")
  case (Inr a)
  then have "au_active s = Some (Vm_Active a)" "vm_inv a"
    using assms(1) by (auto simp: vm_current_Inr updates_inv_def)
  with Inr assms(2) show ?thesis by (auto intro: vm_result_allowed)
qed (use assms(3) in fastforce)

lemma vm_bodies_ok:
  assumes "updates_inv s"
  shows "result_ok s (document_published i n g at s)"
    "result_ok s (begin_drain i at s)"
    "result_ok s (authorize_quiesce i proof nonce deadline at s)"
    "result_ok s (start_candidate i nonce at s)"
    "result_ok s (restart_committed i nonce deadline at s)"
    "result_ok s (verify_guest i guest at s)"
    "result_ok s (invalidate_guest i at s)"
    "result_ok s (commit_vm i at s)"
    "result_ok s (release_old i at s)"
    "result_ok s (cancel_vm i nonce deadline at s)"
    "result_ok s (fail_vm i failure nonce deadline at s)"
    "result_ok s (host_acknowledged fence evidence at s)"
  by (rule vm_command_ok[OF assms, of i at]; (erule vm_handlers_ok, assumption)?; simp add: document_published_def begin_drain_def authorize_quiesce_def start_candidate_def restart_committed_def verify_guest_def
      invalidate_guest_def commit_vm_def release_old_def cancel_vm_def fail_vm_def)+
    (rule vm_command_ok[OF assms, of "vf_attempt_id fence" at]; (erule acknowledged_ok, assumption)?;
      simp add: host_acknowledged_def)

lemma vm_handle_ok:
  assumes "updates_inv s"
  shows "result_ok s (vm_handle c s)"
proof (cases "au_initialized s")
  case True
  show ?thesis
    by (cases c) (simp_all add: vm_handle_def True request_ok[OF True] vm_bodies_ok[OF assms])
qed (simp add: vm_handle_def)

lemma updates_handle_ok:
  assumes "updates_inv s"
  shows "result_ok s (updates_handle c s)"
  using vm_handle_ok[OF assms] exec_ok[OF assms]
  by (cases c)
    (simp_all add: updates_handle_def initialized_handle_def hold_ok clear_ok target_ok pause_ok
      acknowledge_ok offer_ok)

lemma updates_handle_event:
  assumes "updates_inv s" "updates_handle c s = Inr es"
  shows "es = [] \<or> (\<exists>e. es = [e] \<and> updates_event_ok s e)"
  using updates_handle_ok[OF assms(1), of c] assms(2) by (simp add: result_ok_def)

section \<open>An allowed event keeps the rollout well-formed\<close>

lemma excludes_vm [simp]: "excludes_migration (Vm_Active a)"
  by (simp add: excludes_migration_def)

lemma excludes_exec [simp]: "excludes_migration (Exec_Active a) \<longleftrightarrow> exec_stage a = Authorised"
  by (auto simp: excludes_migration_def exec_stage_def)

lemma held_after:
  "is_held (updates_apply s (EV_MigrationHeld m g at)) n \<longleftrightarrow> n = m \<or> is_held s n"
  "is_held (updates_apply s (EV_MigrationCleared m g at)) n \<Longrightarrow> is_held s n"
  by (auto simp: is_held_def bt_insert_get bt_remove_get split: if_splits)

lemma held_frame [simp]:
  "is_held (s\<lparr>au_active := u\<rparr>) = is_held s" "is_held (s\<lparr>au_paused := p\<rparr>) = is_held s"
  "is_held (s\<lparr>au_attempt_sequence := n\<rparr>) = is_held s" "is_held (put_vm a r s) = is_held s"
  by (simp_all add: is_held_def put_vm_def fun_eq_iff)

lemma updates_inv_vm:
  assumes "updates_inv s" "au_active s = Some (Vm_Active a)" "vm_inv b" "same_vm a b"
  shows "updates_inv (put_vm b r s)"
  using assms by (auto simp: updates_inv_def put_vm_def same_vm_def is_held_def)

lemma updates_inv_exec:
  assumes "updates_inv s" "au_active s = Some (Exec_Active a)" "exec_inv b" "same_exec a b"
    "exec_stage b = exec_stage a \<or> \<not> is_held s (at_machine_id b)"
  shows "updates_inv (s\<lparr>au_active := Some (Exec_Active b)\<rparr>)"
  using assms by (auto simp: updates_inv_def same_exec_def)

lemma updates_inv_paused [simp]: "updates_inv (s\<lparr>au_paused := p\<rparr>) = updates_inv s"
  by (simp add: updates_inv_def split: option.splits)

lemma updates_inv_free: "au_active s = None \<Longrightarrow> updates_inv s"
  by (simp add: updates_inv_def)

lemma migration_inv:
  assumes "updates_inv s"
  shows "updates_event_ok s (EV_MigrationHeld m g at) \<Longrightarrow> updates_inv (updates_apply s (EV_MigrationHeld m g at))"
    "updates_inv (updates_apply s (EV_MigrationCleared m g at))"
proof -
  assume ok: "updates_event_ok s (EV_MigrationHeld m g at)"
  show "updates_inv (updates_apply s (EV_MigrationHeld m g at))"
    using assms ok held_after(1)[of s m g at]
    by (cases "au_active s") (auto simp: updates_inv_def)
next
  show "updates_inv (updates_apply s (EV_MigrationCleared m g at))"
    using assms held_after(2)[of s m g at]
    by (cases "au_active s") (auto simp: updates_inv_def)
qed

lemma updates_event_inv:
  assumes inv: "updates_inv s" and ok: "updates_event_ok s e"
  shows "updates_inv (updates_apply s e)"
proof (cases e)
  case (EV_MigrationHeld m g at)
  with assms migration_inv(1) show ?thesis by blast
next
  case (EV_MigrationCleared m g at)
  with assms migration_inv(2) show ?thesis by blast
next
  case (EV_VmTransitioned b at)
  show ?thesis
  proof (cases "vm_phase_of b = VP_Preparing")
    case True
    with ok EV_VmTransitioned show ?thesis by (auto simp: updates_inv_def put_vm_def is_held_def)
  next
    case False
    with ok EV_VmTransitioned inv show ?thesis by (auto intro: updates_inv_vm split: if_splits)
  qed
next
  case (EV_AttemptOffered a at)
  with ok show ?thesis by (auto simp: updates_inv_def)
next
  case (EV_AttemptAuthorized b at)
  with assms show ?thesis by (auto intro: updates_inv_exec)
next
  case (EV_AttemptFailed b at)
  with assms updates_inv_exec[of s _ b] show ?thesis
    by (auto split: option.splits active_update.splits)
next
  case (EV_CandidateHealthVerified b at)
  with assms updates_inv_exec[of s _ b] show ?thesis
    by (auto split: option.splits active_update.splits)
next
  case (EV_ProviderReservationRequested b at)
  with assms updates_inv_exec[of s _ b] show ?thesis
    by (auto split: option.splits active_update.splits)
next
  case (EV_VmDocumentPublished b at)
  with assms show ?thesis
    by (auto simp: vm_change_def intro: updates_inv_vm split: option.splits active_update.splits)
next
  case (EV_VmRecoveryRequested b at)
  with assms show ?thesis
    by (auto simp: vm_change_def intro: updates_inv_vm split: option.splits active_update.splits)
next
  case (EV_VmUncertain b at)
  with assms show ?thesis
    by (auto simp: vm_change_def intro: updates_inv_vm split: option.splits active_update.splits)
next
  case (EV_VmCommitConfirmed b at)
  with assms show ?thesis by (auto intro: updates_inv_vm split: option.splits active_update.splits)
qed (use assms in \<open>auto simp: updates_inv_def is_held_def split: option.splits\<close>)

lemma updates_inv_default: "updates_inv agent_updates_default"
  by (simp add: updates_inv_def agent_updates_default_def)

interpretation updates: event_sourced updates_apply updates_handle updates_inv agent_updates_default
proof
  fix s c es
  assume "updates_inv s" "updates_handle c s = Inr es"
  with updates_handle_event[OF this] updates_event_inv[of s]
  show "updates_inv (fold_events updates_apply s es)" by auto
qed (rule updates_inv_default)

section \<open>What each step of a replacement was told\<close>

text \<open>
  A report of the host on the operation in force: it carries the attempt's fence, and only where the
  operation moves on or back may it come after the operation's deadline.
\<close>

definition reported :: "update_command \<Rightarrow> vm_attempt \<Rightarrow> host_evidence \<Rightarrow> bool" where
  "reported c a evidence \<longleftrightarrow>
     (\<exists>fence at. c = UC_Vm (VC_HostAcknowledged fence evidence at) \<and> vm_matches a fence \<and>
        (at < vo_deadline (vm_operation_of a) \<or>
         vo_action (vm_operation_of a) \<in> {VA_Commit, VA_ReleaseOld, VA_Rollback}))"

text \<open>A proof of the guest's boot that the command brought, of the launch in force.\<close>

definition proven :: "update_command \<Rightarrow> vm_attempt \<Rightarrow> guest_boot_proof \<Rightarrow> bool" where
  "proven c a proof \<longleftrightarrow>
     (\<exists>launch at. c = UC_Vm (VC_VerifyGuest (vm_id_of a) proof at) \<and>
        vm_candidate_launch a = Some launch \<and> proof_identity a launch proof \<and> proof_boot a proof \<and>
        proof_healthy a proof at)"

definition drained :: "update_command \<Rightarrow> vm_attempt \<Rightarrow> bool" where
  "drained c a \<longleftrightarrow>
     (\<exists>proof nonce deadline at.
        c = UC_Vm (VC_AuthorizeQuiesce (vm_id_of a) proof nonce deadline at) \<and> drain_safe a proof at)"

text \<open>
  Where the facts of the attempt come from: each one that is new in \<open>b\<close> was in the report, the proof
  or the drain that the command brought.
\<close>

definition facts_told :: "update_command \<Rightarrow> vm_attempt \<Rightarrow> vm_attempt \<Rightarrow> bool" where
  "facts_told c a b \<longleftrightarrow>
     (vm_old_process b = vm_old_process a \<or>
      (\<exists>img old. vm_old_process b = Some old \<and> target_matches (vm_target_of a) img \<and>
         vm_phase_of a = VP_Preparing \<and> vm_phase_of b = VP_Prepared \<and> reported c a (HE_Prepared img old)) \<or>
      vm_phase_of b = VP_Cancelled) \<and>
     (vm_old_process_exited b = vm_old_process_exited a \<and> vm_root_fenced b = vm_root_fenced a \<or>
      (\<exists>old. vm_old_process a = Some old \<and> vm_old_process b = Some old \<and> vm_phase_of b = VP_Quiesced \<and>
         reported c a (HE_Quiesced old True True))) \<and>
     (vm_candidate_process b = vm_candidate_process a \<or> vm_candidate_process b = None \<or>
      (\<exists>p img. vm_candidate_process b = Some p \<and> target_matches (vm_target_of a) img \<and>
         reported c a (HE_CandidateRunning p img True))) \<and>
     (vm_guest_boot_proof b = vm_guest_boot_proof a \<or> vm_guest_boot_proof b = None \<or>
      (\<exists>proof. vm_guest_boot_proof b = Some proof \<and> proven c a proof)) \<and>
     (vm_authorized_at b = vm_authorized_at a \<or> drained c a) \<and>
     (vm_committed_at b = vm_committed_at a \<or>
      (\<exists>p. reported c a (HE_Committed p) \<and> (p = None \<or> p = vm_candidate_process a)))"

text \<open>And what it was that ended it.\<close>

definition end_told :: "update_command \<Rightarrow> vm_attempt \<Rightarrow> vm_attempt \<Rightarrow> bool" where
  "end_told c a b \<longleftrightarrow>
     (vm_phase_of b = VP_Succeeded \<longrightarrow> vm_phase_of a = VP_Releasing \<and> reported c a HE_Released) \<and>
     (vm_phase_of b = VP_RolledBack \<longrightarrow> vm_phase_of a = VP_RollingBack \<and>
        (\<exists>p. vm_rollback_process b = Some p \<and> reported c a (HE_RolledBack p (vm_source a) True True))) \<and>
     (vm_phase_of b = VP_Cancelled \<longrightarrow> vm_phase_of a = VP_Cancelling \<and>
        (\<exists>old. vm_old_process b = Some old \<and> reported c a (HE_StagingCancelled old)))"

definition vm_told :: "update_command \<Rightarrow> vm_attempt \<Rightarrow> vm_attempt \<Rightarrow> bool" where
  "vm_told c a b \<longleftrightarrow>
     vm_host_registration_key b = vm_host_registration_key a \<and>
     (vm_phase_of b = VP_Preparing \<longrightarrow> vm_phase_of a = VP_Preparing) \<and>
     facts_told c a b \<and> end_told c a b"

fun vm_recorded :: "update_event \<Rightarrow> vm_attempt option" where
  "vm_recorded (EV_VmTransitioned b _) = Some b"
| "vm_recorded (EV_VmDocumentPublished b _) = Some b"
| "vm_recorded (EV_VmCommitConfirmed b _) = Some b"
| "vm_recorded (EV_VmRecoveryRequested b _) = Some b"
| "vm_recorded (EV_VmUncertain b _) = Some b"
| "vm_recorded (EV_VmCompleted b _) = Some b"
| "vm_recorded _ = None"

definition result_told :: "update_command \<Rightarrow> vm_attempt \<Rightarrow> update_result \<Rightarrow> bool" where
  "result_told c a r \<longleftrightarrow>
     (\<forall>es. r = Inr es \<longrightarrow> (\<forall>e\<in>set es. \<forall>b. vm_recorded e = Some b \<longrightarrow> vm_told c a b))"

lemma result_told_simps [simp]:
  "result_told c a (Inl e)" "result_told c a (Inr [])"
  "result_told c a (Inr [ev]) \<longleftrightarrow> (\<forall>b. vm_recorded ev = Some b \<longrightarrow> vm_told c a b)"
  "result_told c a (transitioned b at) \<longleftrightarrow> vm_told c a (b\<lparr>vm_completed_at := None\<rparr>)"
  by (auto simp: result_told_def transitioned_def)

lemma result_told_and_then:
  "(\<And>x. r = Inr x \<Longrightarrow> result_told c a (f x)) \<Longrightarrow> result_told c a (and_then r f)"
  by (cases r) auto

lemmas told_defs = vm_told_def facts_told_def end_told_def

lemma live_phase:
  "vm_inv a \<Longrightarrow> vm_phase_of a \<noteq> VP_Succeeded \<and> vm_phase_of a \<noteq> VP_RolledBack \<and> vm_phase_of a \<noteq> VP_Cancelled"
  by (auto simp: vm_inv_def)

lemma rollback_told: "vm_inv a \<Longrightarrow> result_told c a (rollback_vm a failure nonce deadline at)"
  by (auto simp: rollback_vm_def told_defs dest!: vm_next_Inr intro!: result_told_and_then)

lemma uncertain_told: "vm_inv a \<Longrightarrow> result_told c a (vm_uncertain a at)"
  by (auto simp: vm_uncertain_def vm_unavailable_def told_defs live_phase)

lemma evidence_told:
  assumes "vm_inv a" "\<And>evidence'. evidence' = evidence \<Longrightarrow> evidence' \<noteq> HE_Uncertain \<Longrightarrow> reported c a evidence'"
  shows "result_told c a (host_evidence_step a evidence at)"
proof (cases evidence)
  case (HE_Prepared img old)
  with assms(2) show ?thesis
    by (auto simp: host_evidence_step_def host_prepared_def told_defs)
next
  case (HE_Quiesced old exited fenced)
  with assms(2) show ?thesis
    by (auto simp: host_evidence_step_def host_quiesced_def told_defs)
next
  case (HE_CandidateRunning process img fresh_start)
  with assms(2) show ?thesis
    by (auto simp: host_evidence_step_def host_candidate_running_def told_defs)
next
  case (HE_Committed process)
  with assms(2) live_phase[OF assms(1)] show ?thesis
    by (cases process)
      (auto simp: host_evidence_step_def host_committed_def Let_def vm_unavailable_def told_defs)
next
  case HE_Released
  with assms(2) live_phase[OF assms(1)] show ?thesis
    by (auto simp: host_evidence_step_def host_released_def vm_unavailable_def told_defs)
next
  case (HE_RolledBack process img exited restored)
  with assms(2) show ?thesis
    by (auto simp: host_evidence_step_def host_rolled_back_def told_defs)
next
  case (HE_StagingCancelled old)
  with assms(2) show ?thesis
    by (auto simp: host_evidence_step_def host_staging_cancelled_def told_defs)
next
  case HE_Uncertain
  with assms(1) show ?thesis by (simp add: host_evidence_step_def uncertain_told)
qed

lemma acknowledged_told:
  assumes "vm_inv a" "vm_current s (vf_attempt_id fence) at = Inr a"
    "c = UC_Vm (VC_HostAcknowledged fence evidence at)"
  shows "result_told c a (host_acknowledged fence evidence at s)"
proof -
  have "reported c a evidence'"
    if "evidence' = evidence" "vm_matches a fence" "evidence \<noteq> HE_Uncertain"
      "\<not> (vo_deadline (vm_operation_of a) \<le> at \<and>
          vo_action (vm_operation_of a) \<notin> {VA_Commit, VA_ReleaseOld, VA_Rollback} \<and>
          evidence \<noteq> HE_Uncertain)" for evidence'
    using that assms(3) by (auto simp: reported_def)
  with assms(1,2) evidence_told[OF assms(1)] show ?thesis
    by (auto simp: host_acknowledged_def)
qed

lemma verify_told:
  assumes "vm_inv a" "vm_current s i at = Inr a" "c = UC_Vm (VC_VerifyGuest i proof at)"
  shows "result_told c a (verify_guest i proof at s)"
proof -
  have "vm_id_of a = i" using assms(2) by (simp add: vm_current_Inr)
  then have proven: "proven c a proof"
    if "vm_candidate_launch a = Some launch" "proof_identity a launch proof" "proof_boot a proof"
      "proof_healthy a proof at" for launch
    using that assms(3) by (auto simp: proven_def)
  with assms(2) live_phase[OF assms(1)] show ?thesis
    by (auto simp: verify_guest_def Let_def told_defs split: option.splits)
qed

lemma authorize_told:
  assumes "vm_inv a" "vm_current s i at = Inr a" "c = UC_Vm (VC_AuthorizeQuiesce i proof nonce deadline at)"
  shows "result_told c a (authorize_quiesce i proof nonce deadline at s)"
proof -
  have "vm_id_of a = i" using assms(2) by (simp add: vm_current_Inr)
  then have "drained c a" if "drain_safe a proof at"
    using that assms(3) by (auto simp: drained_def)
  with assms(2) show ?thesis
    by (auto simp: authorize_quiesce_def told_defs dest!: vm_next_Inr intro!: result_told_and_then)
qed

lemma others_told:
  assumes "vm_inv a" "vm_current s i at = Inr a"
  shows "result_told c a (document_published i sequence generation at s)"
    "result_told c a (begin_drain i at s)"
    "result_told c a (start_candidate i nonce at s)"
    "result_told c a (restart_committed i nonce deadline at s)"
    "result_told c a (invalidate_guest i at s)"
    "result_told c a (commit_vm i at s)"
    "result_told c a (release_old i at s)"
    "result_told c a (cancel_vm i nonce deadline at s)"
    "result_told c a (fail_vm i failure nonce deadline at s)"
  using assms(2) live_phase[OF assms(1)]
  by (auto simp: document_published_def Let_def begin_drain_def start_candidate_def restart_committed_def
      invalidate_guest_def commit_vm_def release_old_def cancel_vm_def fail_vm_def told_defs
      vm_unavailable_def rollback_told[OF assms(1)] uncertain_told[OF assms(1)]
      dest!: vm_next_Inr vm_instruction_Inr intro!: result_told_and_then)

lemma request_told:
  assumes "request_vm r at s = Inr es" "e \<in> set es" "vm_recorded e = Some b"
  shows "au_active s = None \<and> (\<exists>n. b = new_vm_attempt r n at)"
  using assms
  by (auto simp: request_vm_def replayed_request_def and_then_Inr transitioned_def new_vm_attempt_def
      split: option.splits if_splits)

lemma told_by_command:
  assumes "vm_current s i at = Inr a'" "au_active s = Some (Vm_Active a)" "result_told c a' r"
    "r = Inr es" "e \<in> set es" "vm_recorded e = Some b"
  shows "vm_told c a b"
  using assms by (auto simp: vm_current_Inr result_told_def)

lemma unheard:
  assumes "vm_current s i at = Inl e"
  shows "document_published i sequence generation at s = Inl e"
    "begin_drain i at s = Inl e" "authorize_quiesce i drain nonce deadline at s = Inl e"
    "start_candidate i nonce at s = Inl e" "restart_committed i nonce deadline at s = Inl e"
    "verify_guest i proof at s = Inl e" "invalidate_guest i at s = Inl e" "commit_vm i at s = Inl e"
    "release_old i at s = Inl e" "cancel_vm i nonce deadline at s = Inl e"
    "fail_vm i failure nonce deadline at s = Inl e"
    "vf_attempt_id fence = i \<Longrightarrow> host_acknowledged fence evidence at s = Inr es \<Longrightarrow> es = []"
  using assms
  by (simp_all add: document_published_def begin_drain_def authorize_quiesce_def start_candidate_def
      restart_committed_def verify_guest_def invalidate_guest_def commit_vm_def release_old_def
      cancel_vm_def fail_vm_def host_acknowledged_def split: if_splits)

text \<open>The identity a command on a replacement names, and when it is given.\<close>

fun command_on :: "vm_command \<Rightarrow> (uuid \<times> time) option" where
  "command_on (VC_Request r at) = None"
| "command_on (VC_DocumentPublished i _ _ at) = Some (i, at)"
| "command_on (VC_BeginDrain i at) = Some (i, at)"
| "command_on (VC_AuthorizeQuiesce i _ _ _ at) = Some (i, at)"
| "command_on (VC_StartCandidate i _ at) = Some (i, at)"
| "command_on (VC_RestartCommitted i _ _ at) = Some (i, at)"
| "command_on (VC_HostAcknowledged fence _ at) = Some (vf_attempt_id fence, at)"
| "command_on (VC_VerifyGuest i _ at) = Some (i, at)"
| "command_on (VC_InvalidateGuest i at) = Some (i, at)"
| "command_on (VC_Commit i at) = Some (i, at)"
| "command_on (VC_ReleaseOld i at) = Some (i, at)"
| "command_on (VC_Cancel i _ _ at) = Some (i, at)"
| "command_on (VC_Fail i _ _ _ at) = Some (i, at)"

lemma vm_handle_unheard:
  assumes "command_on vc = Some (i, at)" "vm_current s i at = Inl err" "vm_handle vc s = Inr es"
  shows "es = []"
  using assms(3) unheard[OF assms(2)] assms(1)
  by (cases vc) (auto simp: vm_handle_def split: if_splits)

lemma vm_handle_told:
  assumes "command_on vc = Some (i, at)" "vm_current s i at = Inr a" "vm_inv a"
  shows "result_told (UC_Vm vc) a (vm_handle vc s)"
proof (cases "au_initialized s")
  case True
  note told = others_told[OF assms(3,2)] acknowledged_told[OF assms(3)] verify_told[OF assms(3)]
    authorize_told[OF assms(3)]
  show ?thesis
    using assms(1,2) True by (cases vc) (simp_all add: vm_handle_def told)
qed (simp add: vm_handle_def)

lemma exec_records_none:
  assumes "updates_inv s" "updates_handle c s = Inr es" "e \<in> set es" "vm_recorded e = Some b"
  shows "\<exists>vc. c = UC_Vm vc"
proof (rule ccontr)
  assume "\<nexists>vc. c = UC_Vm vc"
  with assms(2-4) show False
    by (cases c)
      (auto simp: updates_handle_def initialized_handle_def hold_migration_def clear_migration_def
        acknowledge_release_def select_target_def pause_rollout_def resume_rollout_def offer_update_def
        exec_handlers Let_def and_then_Inr split: if_splits option.splits)
qed

lemma vm_events_told:
  assumes "updates_inv s" "updates_handle c s = Inr es" "e \<in> set es" "vm_recorded e = Some b"
  shows "(\<exists>a. au_active s = Some (Vm_Active a) \<and> vm_told c a b) \<or>
    (au_active s = None \<and> (\<exists>r n at. b = new_vm_attempt r n at))"
proof -
  obtain vc where c: "c = UC_Vm vc" using exec_records_none[OF assms] by blast
  then have r: "vm_handle vc s = Inr es" using assms(2) by (simp add: updates_handle_def)
  show ?thesis
  proof (cases "command_on vc")
    case None
    then obtain r at where "vc = VC_Request r at" by (cases vc) auto
    with r request_told[of r at s es e b] assms(3,4) show ?thesis
      by (auto simp: vm_handle_def split: if_splits)
  next
    case (Some p)
    obtain i at where p: "command_on vc = Some (i, at)" using Some by (cases p) auto
    show ?thesis
    proof (cases "vm_current s i at")
      case (Inl err)
      with vm_handle_unheard[OF p Inl r] assms(3) show ?thesis by simp
    next
      case (Inr a)
      then have a: "au_active s = Some (Vm_Active a)" "vm_inv a"
        using assms(1) by (auto simp: vm_current_Inr updates_inv_def)
      from vm_handle_told[OF p Inr a(2)] r assms(3,4) have "vm_told c a b"
        by (auto simp: result_told_def c)
      with a(1) show ?thesis by blast
    qed
  qed
qed

section \<open>What ended an attempt on an executable\<close>

fun exec_end_told :: "update_command \<Rightarrow> attempt \<Rightarrow> update_event \<Rightarrow> bool" where
  "exec_end_told c a (EV_AttemptSucceeded b at) \<longleftrightarrow>
     (\<exists>boot. c = UC_Commit (attempt_fence a) boot at \<and> at_phase a = UP_HealthVerified \<and>
        at_boot_id a = Some boot \<and> at_boot_id b = Some boot \<and> \<not> before_authorized at a)"
| "exec_end_told c a (EV_AttemptRolledBack b at) \<longleftrightarrow>
     (\<exists>boot. c = UC_Rollback (attempt_fence a) boot at \<and> at_authorized_at a \<noteq> None \<and>
        \<not> is_nil boot \<and> at_boot_id a \<noteq> Some boot \<and> at_authorized_boot_id a \<noteq> Some boot \<and>
        at_boot_id b = Some boot \<and> \<not> before_authorized at a)"
| "exec_end_told c a (EV_OfferCancelled b at) \<longleftrightarrow>
     c = UC_Cancel (attempt_fence a) at \<and> at_authorized_at a = None \<and> b = a"
| "exec_end_told c a _ \<longleftrightarrow> True"

fun exec_ends :: "update_event \<Rightarrow> bool" where
  "exec_ends (EV_AttemptSucceeded b at) = True"
| "exec_ends (EV_AttemptRolledBack b at) = True"
| "exec_ends (EV_OfferCancelled b at) = True"
| "exec_ends _ = False"

lemma vm_ends_no_exec:
  assumes "updates_inv s" "vm_handle vc s = Inr es" "e \<in> set es"
  shows "\<not> exec_ends e"
proof (cases "command_on vc")
  case None
  then obtain r at where "vc = VC_Request r at" by (cases vc) auto
  with assms(2,3) show ?thesis
    by (auto simp: vm_handle_def request_vm_def replayed_request_def and_then_Inr transitioned_def
        split: option.splits if_splits)
next
  case (Some p)
  obtain i at where p: "command_on vc = Some (i, at)" using Some by (cases p) auto
  show ?thesis
  proof (cases "vm_current s i at")
    case (Inl err)
    with vm_handle_unheard[OF p Inl assms(2)] assms(3) show ?thesis by simp
  next
    case (Inr a)
    then have a: "au_active s = Some (Vm_Active a)" by (simp add: vm_current_Inr)
    have "updates_event_ok s e"
      using vm_handle_ok[OF assms(1), of vc] assms(2,3) by (auto simp: result_ok_def)
    with a show ?thesis by (cases e) auto
  qed
qed

lemma exec_ends_told:
  assumes "updates_inv s" "updates_handle c s = Inr es" "e \<in> set es" "exec_ends e"
  shows "\<exists>a. au_active s = Some (Exec_Active a) \<and> exec_end_told c a e"
proof (cases c)
  case (UC_Vm vc)
  then have "vm_handle vc s = Inr es" using assms(2) by (simp add: updates_handle_def)
  from vm_ends_no_exec[OF assms(1) this assms(3)] assms(4) show ?thesis by simp
qed (use assms(2-) in \<open>auto simp: updates_handle_def initialized_handle_def hold_migration_def clear_migration_def
        acknowledge_release_def select_target_def pause_rollout_def resume_rollout_def offer_update_def
        exec_handlers Let_def and_then_Inr current_attempt_Inr split: if_splits option.splits\<close>)

end
