(* ===== verification/Updates_Props.thy ===== *)
theory Updates_Props
  imports Updates_Run
begin

text \<open>
  What the rollout promises. An abstract rollout is a counter and one holder with the stage it has
  reached; the events of every run of the aggregate are a run of it. From that follow that a commit
  is final; from the invariants that a replacement ends proven, restored or untouched, on reports that
  the run really was given for it, that no migration and no update share a machine, and that the way
  back is open until the commit.
\<close>

section \<open>The abstract rollout\<close>

datatype rollout_outcome = Succeeded_Update | RolledBack_Update | Cancelled_Update

datatype rollout_action =
  Take nat uuid bool
| Authorise nat uuid
| Commit_Final nat uuid
| End_Update nat uuid rollout_outcome
| Stay

record rollout =
  ro_count :: nat
  ro_holder :: "(uuid \<times> bool \<times> update_stage) option"

text \<open>
  Attempts are numbered from 1, one at a time. An offer can be cancelled; once it is authorised it
  ends by success or by going back; the replacement of a VM (marked) succeeds only after its commit,
  and after its commit it can only succeed.
\<close>

fun may_end :: "bool \<Rightarrow> update_stage \<Rightarrow> rollout_outcome \<Rightarrow> bool" where
  "may_end is_vm Revocable_Offer p \<longleftrightarrow> p = Cancelled_Update"
| "may_end is_vm Authorised p \<longleftrightarrow> p = RolledBack_Update \<or> (p = Succeeded_Update \<and> \<not> is_vm)"
| "may_end is_vm Irrevocable p \<longleftrightarrow> p = Succeeded_Update"

fun rollout_do :: "rollout \<Rightarrow> rollout_action \<Rightarrow> rollout option" where
  "rollout_do r (Take n i is_vm) =
     (if ro_holder r = None \<and> n = Suc (ro_count r)
      then Some \<lparr>ro_count = n, ro_holder = Some (i, is_vm, Revocable_Offer)\<rparr> else None)"
| "rollout_do r (Authorise n i) =
     (case ro_holder r of
        Some (j, is_vm, Revocable_Offer) \<Rightarrow>
          if n = ro_count r \<and> i = j then Some (r\<lparr>ro_holder := Some (i, is_vm, Authorised)\<rparr>) else None
      | _ \<Rightarrow> None)"
| "rollout_do r (Commit_Final n i) =
     (case ro_holder r of
        Some (j, True, Authorised) \<Rightarrow>
          if n = ro_count r \<and> i = j then Some (r\<lparr>ro_holder := Some (i, True, Irrevocable)\<rparr>) else None
      | _ \<Rightarrow> None)"
| "rollout_do r (End_Update n i p) =
     (case ro_holder r of
        Some (j, is_vm, stage) \<Rightarrow>
          if n = ro_count r \<and> i = j \<and> may_end is_vm stage p then Some (r\<lparr>ro_holder := None\<rparr>) else None
      | _ \<Rightarrow> None)"
| "rollout_do r Stay = Some r"

fun rollout_run :: "rollout \<Rightarrow> rollout_action list \<Rightarrow> rollout option" where
  "rollout_run r [] = Some r"
| "rollout_run r (x # xs) = Option.bind (rollout_do r x) (\<lambda>r. rollout_run r xs)"

lemma rollout_run_append:
  "rollout_run r (xs @ ys) = Option.bind (rollout_run r xs) (\<lambda>r. rollout_run r ys)"
  by (induction xs arbitrary: r) (auto split: Option.bind_split)

text \<open>The number an action is about, and the order in which attempts can be acted on.\<close>

fun action_number :: "rollout_action \<Rightarrow> nat option" where
  "action_number (Take n i v) = Some n"
| "action_number (Authorise n i) = Some n"
| "action_number (Commit_Final n i) = Some n"
| "action_number (End_Update n i p) = Some n"
| "action_number Stay = None"

definition next_number :: "rollout \<Rightarrow> nat" where
  "next_number r = (if ro_holder r = None then Suc (ro_count r) else ro_count r)"

lemma rollout_do_number:
  "rollout_do r x = Some r' \<Longrightarrow>
   next_number r \<le> next_number r' \<and> (\<forall>n. action_number x = Some n \<longrightarrow> next_number r \<le> n)"
  by (cases x) (auto simp: next_number_def split: option.splits update_stage.splits bool.splits if_splits)

lemma rollout_run_number:
  "rollout_run r xs = Some r' \<Longrightarrow> x \<in> set xs \<Longrightarrow> action_number x = Some n \<Longrightarrow> next_number r \<le> n"
proof (induction xs arbitrary: r)
  case (Cons y ys)
  then obtain q where q: "rollout_do r y = Some q" "rollout_run q ys = Some r'"
    by (auto simp: bind_eq_Some_conv)
  from Cons.prems(2) consider "x = y" | "x \<in> set ys" by auto
  then show ?case
    by cases (use rollout_do_number[OF q(1)] Cons.IH[OF q(2) _ Cons.prems(3)] Cons.prems(3) in auto)
qed simp

lemma rollout_end_number:
  "rollout_do r (End_Update n i p) = Some r' \<Longrightarrow> n < next_number r'"
  by (auto simp: next_number_def split: option.splits update_stage.splits bool.splits if_splits)

lemma irrevocable_ends:
  assumes "rollout_run r xs = Some r'" "ro_holder r = Some (i, True, Irrevocable)"
    "End_Update (ro_count r) j p \<in> set xs"
  shows "p = Succeeded_Update \<and> j = i"
  using assms
proof (induction xs arbitrary: r)
  case (Cons y ys)
  then obtain q where q: "rollout_do r y = Some q" "rollout_run q ys = Some r'"
    by (auto simp: bind_eq_Some_conv)
  show ?case
  proof (cases y)
    case (End_Update n k p')
    with q(1) Cons.prems(2) have "n = ro_count r" "k = i" "p' = Succeeded_Update" "next_number q = Suc n"
      by (auto simp: next_number_def split: if_splits)
    moreover have "End_Update (ro_count r) j p \<notin> set ys"
      using rollout_run_number[OF q(2), of "End_Update (ro_count r) j p" "ro_count r"] calculation by auto
    ultimately show ?thesis using Cons.prems(3) End_Update by auto
  qed (use Cons q in auto)
qed simp

lemma commit_then_success:
  assumes "rollout_run r xs = Some r'" "Commit_Final n i \<in> set xs" "End_Update n j p \<in> set xs"
  shows "p = Succeeded_Update \<and> j = i"
  using assms
proof (induction xs arbitrary: r)
  case (Cons y ys)
  then obtain q where q: "rollout_do r y = Some q" "rollout_run q ys = Some r'"
    by (auto simp: bind_eq_Some_conv)
  from Cons.prems(2,3) consider "y = Commit_Final n i" | "y = End_Update n j p" "Commit_Final n i \<in> set ys"
    | "Commit_Final n i \<in> set ys" "End_Update n j p \<in> set ys" by auto
  then show ?case
  proof cases
    case 1
    with q(1) have "ro_holder q = Some (i, True, Irrevocable)" "ro_count q = n"
      by (auto split: option.splits update_stage.splits bool.splits if_splits)
    with irrevocable_ends[OF q(2)] 1 Cons.prems(3) show ?thesis by auto
  next
    case 2
    with rollout_end_number[of r n j p q] q(1) rollout_run_number[OF q(2) 2(2)] show ?thesis by auto
  next
    case 3
    with Cons.IH[OF q(2)] show ?thesis by blast
  qed
qed simp

section \<open>The aggregate implements it\<close>

definition rollout_of :: "agent_updates \<Rightarrow> rollout" where
  "rollout_of s =
     \<lparr>ro_count = au_attempt_sequence s,
      ro_holder =
        (case au_active s of
           None \<Rightarrow> None
         | Some (Vm_Active a) \<Rightarrow> Some (vm_id_of a, True, vm_stage a)
         | Some (Exec_Active a) \<Rightarrow> Some (at_id a, False, exec_stage a))\<rparr>"

definition vm_outcome :: "vm_attempt \<Rightarrow> rollout_outcome" where
  "vm_outcome a =
     (case vm_phase_of a of
        VP_Succeeded \<Rightarrow> Succeeded_Update
      | VP_RolledBack \<Rightarrow> RolledBack_Update
      | _ \<Rightarrow> Cancelled_Update)"

fun action_of :: "update_event \<Rightarrow> rollout_action" where
  "action_of (EV_AttemptOffered a _) = Take (at_sequence a) (at_id a) False"
| "action_of (EV_AttemptAuthorized a _) = Authorise (at_sequence a) (at_id a)"
| "action_of (EV_AttemptSucceeded a _) = End_Update (at_sequence a) (at_id a) Succeeded_Update"
| "action_of (EV_AttemptRolledBack a _) = End_Update (at_sequence a) (at_id a) RolledBack_Update"
| "action_of (EV_OfferCancelled a _) = End_Update (at_sequence a) (at_id a) Cancelled_Update"
| "action_of (EV_VmTransitioned a _) =
     (if vm_phase_of a = VP_Preparing then Take (vm_sequence a) (vm_id_of a) True
      else if vm_phase_of a = VP_Quiescing then Authorise (vm_sequence a) (vm_id_of a)
      else Stay)"
| "action_of (EV_VmCommitConfirmed a _) = Commit_Final (vm_sequence a) (vm_id_of a)"
| "action_of (EV_VmCompleted a _) = End_Update (vm_sequence a) (vm_id_of a) (vm_outcome a)"
| "action_of _ = Stay"

lemma vm_completed_outcome:
  assumes "completes_safely b at"
  shows "may_end True (vm_stage b) (vm_outcome b)"
  using assms by (auto simp: completes_safely_def vm_outcome_def vm_stage_def split: vm_phase.splits)

lemma rollout_of_put_vm:
  assumes "au_active s = Some (Vm_Active a)" "same_vm a b" "vm_sequence a = au_attempt_sequence s"
  shows "rollout_of (put_vm b r s) = (rollout_of s)\<lparr>ro_holder := Some (vm_id_of a, True, vm_stage b)\<rparr>"
  using assms by (simp add: rollout_of_def put_vm_def same_vm_def)

lemma rollout_keeps:
  assumes "au_active s = Some (Vm_Active a)" "vm_sequence a = au_attempt_sequence s" "vm_change a b"
  shows "rollout_of (put_vm b r s) = rollout_of s"
  using rollout_of_put_vm[OF assms(1) _ assms(2), of b r] assms(1,3)
  by (simp add: vm_change_def rollout_of_def)

lemma rollout_event_vm:
  assumes "au_active s = Some (Vm_Active a)" "vm_sequence a = au_attempt_sequence s" "vm_step_ok a e"
  shows "rollout_do (rollout_of s) (action_of e) = Some (rollout_of (updates_apply s e))"
proof (cases e)
  case (EV_VmTransitioned b at)
  with assms rollout_of_put_vm[OF assms(1) _ assms(2), of b False] show ?thesis
    by (auto simp: rollout_of_def same_vm_def split: if_splits)
next
  case (EV_VmCommitConfirmed b at)
  with assms rollout_of_put_vm[OF assms(1) _ assms(2), of b False] show ?thesis
    by (auto simp: rollout_of_def same_vm_def)
next
  case (EV_VmCompleted b at)
  with assms vm_completed_outcome[of b at] show ?thesis
    by (auto simp: rollout_of_def same_vm_def)
qed (use assms rollout_keeps[OF assms(1,2)] in auto)

lemma rollout_event_exec:
  assumes "au_active s = Some (Exec_Active a)" "at_sequence a = au_attempt_sequence s" "exec_step_ok a e"
  shows "rollout_do (rollout_of s) (action_of e) = Some (rollout_of (updates_apply s e))"
  using assms by (cases e) (auto simp: rollout_of_def same_exec_def)

lemma rollout_event:
  assumes "updates_inv s" "updates_event_ok s e"
  shows "rollout_do (rollout_of s) (action_of e) = Some (rollout_of (updates_apply s e))"
proof -
  have vm: ?thesis if "au_active s = Some (Vm_Active a)" "vm_step_ok a e" for a
    using rollout_event_vm[OF that(1) _ that(2)] assms(1) that by (simp add: updates_inv_def)
  have exec: ?thesis if "au_active s = Some (Exec_Active a)" "exec_step_ok a e" for a
    using rollout_event_exec[OF that(1) _ that(2)] assms(1) that by (simp add: updates_inv_def)
  have other: ?thesis if "action_of e = Stay" "rollout_of (updates_apply s e) = rollout_of s"
    using that by simp
  show ?thesis
  proof (cases e)
    case (EV_VmTransitioned b at)
    show ?thesis
    proof (cases "vm_phase_of b = VP_Preparing")
      case True
      with EV_VmTransitioned assms(2) show ?thesis by (auto simp: rollout_of_def put_vm_def)
    next
      case False
      with EV_VmTransitioned assms(2) obtain a where
        "au_active s = Some (Vm_Active a)" "vm_step_ok a e" by auto
      then show ?thesis by (rule vm)
    qed
  next
    case (EV_AttemptOffered b at)
    with assms(2) show ?thesis by (auto simp: rollout_of_def)
  next
    case (EV_AttemptAuthorized b at)
    with assms(2) exec show ?thesis by auto
  qed (use assms(2) vm exec other in \<open>auto simp: rollout_of_def split: option.splits active_update.splits\<close>)
qed

lemma rollout_events:
  "updates_inv s \<Longrightarrow>
   rollout_run (rollout_of s) (map action_of (run_events updates_apply updates_handle s cs)) =
   Some (rollout_of (run_commands updates_apply updates_handle s cs))"
proof (induction cs arbitrary: s)
  case (Cons c cs)
  show ?case
  proof (cases "updates_handle c s")
    case (Inr es)
    from updates_handle_event[OF Cons.prems Inr] consider "es = []" | e where "es = [e]" "updates_event_ok s e"
      by blast
    then show ?thesis
      by cases (use Cons Inr in \<open>auto simp: rollout_event updates_event_inv\<close>)
  qed (use Cons in simp)
qed simp

section \<open>Properties\<close>

abbreviation updates_run :: "update_command list \<Rightarrow> agent_updates" where
  "updates_run cs \<equiv> run_commands updates_apply updates_handle agent_updates_default cs"

abbreviation updates_log :: "update_command list \<Rightarrow> update_event list" where
  "updates_log cs \<equiv> run_events updates_apply updates_handle agent_updates_default cs"

text \<open>
  C18: The rollout's events are a run of the abstract rollout, whatever commands it is given: attempts
  are numbered in order and one at a time, and each takes, authorises, commits and ends in the order
  and with the outcomes of the abstract rollout.
\<close>

theorem rollout_refines:
  "rollout_run (rollout_of agent_updates_default) (map action_of (updates_log cs)) =
   Some (rollout_of (updates_run cs))"
  by (rule rollout_events[OF updates_inv_default])

text \<open>A small instance of an environment in which both kinds of update run.\<close>

definition sample_hex :: "nat \<Rightarrow> char \<Rightarrow> string" where
  "sample_hex n c = replicate n c"

definition sample_target :: vm_target where
  "sample_target =
     \<lparr>tg_kernel_url = ''https://h/k'', tg_kernel_sha256 = sample_hex 64 CHR ''b'',
      tg_rootfs_url = ''https://h/r'', tg_rootfs_sha256 = sample_hex 64 CHR ''b''\<rparr>"

definition sample_new_image :: image_identity where
  "sample_new_image = target_identity sample_target"

definition sample_request :: vm_request where
  "sample_request =
     \<lparr>rq_id = 7 * 2 ^ 76, rq_vm_id = 1, rq_organisation_id = 2, rq_host_machine_id = 3,
      rq_guest_machine_id = 4, rq_host_registration_key = sample_hex 64 CHR ''a'',
      rq_guest_registration_key = sample_hex 64 CHR ''c'', rq_request_hash = sample_hex 64 CHR ''d'',
      rq_fingerprint = sample_hex 64 CHR ''e'',
      rq_source = \<lparr>ii_kernel_sha256 = sample_hex 64 CHR ''a'', ii_rootfs_sha256 = sample_hex 64 CHR ''a''\<rparr>,
      rq_target = sample_target, rq_expected_update_version = 0, rq_original_in_service = True,
      rq_old_os_boot_id = Some 50, rq_launch_nonce = 11, rq_deadline = 600000000000\<rparr>"

definition sample_fence :: "nat \<Rightarrow> vm_action \<Rightarrow> uuid \<Rightarrow> int \<Rightarrow> vm_fence" where
  "sample_fence n action nonce g =
     \<lparr>vf_attempt_id = 7 * 2 ^ 76, vf_attempt_sequence = 1, vf_vm_id = 1, vf_host_machine_id = 3,
      vf_host_registration_key = sample_hex 64 CHR ''a'', vf_operation_sequence = n, vf_action = action,
      vf_launch_nonce = nonce, vf_document_generation = g\<rparr>"

definition sample_process :: "nat \<Rightarrow> process_identity" where
  "sample_process n = \<lparr>pi_process_id = n, pi_start_time_ticks = 1, pi_host_boot_id = 9\<rparr>"

definition sample_drain :: drain_proof where
  "sample_drain =
     \<lparr>dp_guest_machine_id = 4, dp_guest_registration_key = sample_hex 64 CHR ''c'',
      dp_host_registration_key = sample_hex 64 CHR ''a'', dp_document_generation = 1,
      dp_guest_document_generation = 1, dp_current_guest_document_generation = 1, dp_drained = True,
      dp_has_allocations = False, dp_has_local_volumes = False, dp_observed_at = 4\<rparr>"

definition sample_proof :: guest_boot_proof where
  "sample_proof =
     \<lparr>gp_guest_machine_id = 4, gp_guest_registration_key = sample_hex 64 CHR ''c'',
      gp_attempt_id = 7 * 2 ^ 76, gp_attempt_sequence = 1, gp_launch_sequence = 3, gp_launch_nonce = 13,
      gp_document_generation = 3, gp_guest_document_generation = 1,
      gp_current_guest_document_generation = 1, gp_os_boot_id = 51, gp_pid1_context = 52,
      gp_image = sample_new_image, gp_runtime_ready = True, gp_cpu_probe = True, gp_memory_probe = True,
      gp_attachment_probe = True, gp_probe_failed = False, gp_observed_at = 12\<rparr>"

text \<open>A replacement from its request to its success, in six parts.\<close>

definition sample_staging :: "update_command list" where
  "sample_staging =
     [UC_Initialize 0, UC_Vm (VC_Request sample_request 0),
      UC_Vm (VC_DocumentPublished (7 * 2 ^ 76) 1 1 1),
      UC_Vm (VC_HostAcknowledged (sample_fence 1 VA_Prepare 11 1) (HE_Prepared sample_new_image (sample_process 1)) 2),
      UC_Vm (VC_BeginDrain (7 * 2 ^ 76) 3)]"

definition sample_switching :: "update_command list" where
  "sample_switching =
     [UC_Vm (VC_AuthorizeQuiesce (7 * 2 ^ 76) sample_drain 12 600000000000 5),
      UC_Vm (VC_DocumentPublished (7 * 2 ^ 76) 2 2 6),
      UC_Vm (VC_HostAcknowledged (sample_fence 2 VA_Quiesce 12 2) (HE_Quiesced (sample_process 1) True True) 7),
      UC_Vm (VC_StartCandidate (7 * 2 ^ 76) 13 8),
      UC_Vm (VC_DocumentPublished (7 * 2 ^ 76) 3 3 9),
      UC_Vm (VC_HostAcknowledged (sample_fence 3 VA_StartCandidate 13 3)
               (HE_CandidateRunning (sample_process 2) sample_new_image True) 10)]"

definition sample_committing :: "update_command list" where
  "sample_committing =
     [UC_Vm (VC_VerifyGuest (7 * 2 ^ 76) sample_proof 13),
      UC_Vm (VC_Commit (7 * 2 ^ 76) 14),
      UC_Vm (VC_DocumentPublished (7 * 2 ^ 76) 4 4 15),
      UC_Vm (VC_HostAcknowledged (sample_fence 4 VA_Commit 13 4) (HE_Committed (Some (sample_process 2))) 16)]"

definition sample_release :: "update_command list" where
  "sample_release =
     [UC_Vm (VC_ReleaseOld (7 * 2 ^ 76) 17),
      UC_Vm (VC_DocumentPublished (7 * 2 ^ 76) 5 5 18),
      UC_Vm (VC_HostAcknowledged (sample_fence 5 VA_ReleaseOld 13 5) HE_Released 19)]"

definition sample_to_candidate :: "update_command list" where
  "sample_to_candidate = sample_staging @ sample_switching"

definition sample_to_success :: "update_command list" where
  "sample_to_success = sample_to_candidate @ sample_committing @ sample_release"

lemma sample_log:
  "let log = updates_log sample_to_success
   in list_ex (\<lambda>e. case e of EV_VmCommitConfirmed a at \<Rightarrow> vm_sequence a = 1 | _ \<Rightarrow> False) log \<and>
      list_ex (\<lambda>e. case e of EV_VmCompleted a at \<Rightarrow> vm_sequence a = 1 | _ \<Rightarrow> False) log"
  by code_simp

lemmas sample_replacement_ends = conjunct1[OF sample_log[unfolded Let_def]] conjunct2[OF sample_log[unfolded Let_def]]

lemma confirmed_in_log:
  "list_ex (\<lambda>e. case e of EV_VmCommitConfirmed a at \<Rightarrow> P a | _ \<Rightarrow> False) es \<Longrightarrow>
   \<exists>a t. EV_VmCommitConfirmed a t \<in> set es \<and> P a"
proof (induction es)
  case (Cons e es)
  then show ?case by (cases e) auto
qed simp

lemma completed_in_log:
  "list_ex (\<lambda>e. case e of EV_VmCompleted a at \<Rightarrow> P a | _ \<Rightarrow> False) es \<Longrightarrow>
   \<exists>a t. EV_VmCompleted a t \<in> set es \<and> P a"
proof (induction es)
  case (Cons e es)
  then show ?case by (cases e) auto
qed simp

text \<open>
  C19: The commit of a VM's replacement is final: if a run confirms the commit of an attempt and
  completes the attempt of that number, it completes it by success, under the same identity.
\<close>

theorem vm_commit_is_final:
  assumes "EV_VmCommitConfirmed a t \<in> set (updates_log cs)" "EV_VmCompleted b t' \<in> set (updates_log cs)"
    "vm_sequence b = vm_sequence a"
  shows "vm_phase_of b = VP_Succeeded \<and> vm_id_of b = vm_id_of a"
proof -
  have "Commit_Final (vm_sequence a) (vm_id_of a) \<in> set (map action_of (updates_log cs))"
    using imageI[OF assms(1), of action_of] by simp
  moreover have "End_Update (vm_sequence a) (vm_id_of b) (vm_outcome b) \<in> set (map action_of (updates_log cs))"
    using imageI[OF assms(2), of action_of] assms(3) by simp
  ultimately have "vm_outcome b = Succeeded_Update \<and> vm_id_of b = vm_id_of a"
    by (rule commit_then_success[OF rollout_events[OF updates_inv_default]])
  then show ?thesis by (simp add: vm_outcome_def split: vm_phase.splits)
qed

theorem vm_commit_is_final_witness:
  "\<exists>a t b t'. EV_VmCommitConfirmed a t \<in> set (updates_log sample_to_success) \<and>
     EV_VmCompleted b t' \<in> set (updates_log sample_to_success) \<and>
     vm_sequence b = vm_sequence a \<and> vm_phase_of b = VP_Succeeded"
proof -
  from confirmed_in_log[OF sample_replacement_ends(1)] completed_in_log[OF sample_replacement_ends(2)]
  obtain a t b t' where a: "EV_VmCommitConfirmed a t \<in> set (updates_log sample_to_success)" "vm_sequence a = 1"
    and b: "EV_VmCompleted b t' \<in> set (updates_log sample_to_success)" "vm_sequence b = 1"
    by blast
  from a(2) b(2) have eq: "vm_sequence b = vm_sequence a" by simp
  from vm_commit_is_final[OF a(1) b(1) eq] have "vm_phase_of b = VP_Succeeded" by (rule conjunct1)
  with a(1) b(1) eq show ?thesis by blast
qed

lemma run_events_all:
  assumes "\<And>s e. updates_inv s \<Longrightarrow> updates_event_ok s e \<Longrightarrow> P e" "updates_inv s"
  shows "list_all P (run_events updates_apply updates_handle s cs)"
  using assms(2)
proof (induction cs arbitrary: s)
  case (Cons c cs)
  show ?case
  proof (cases "updates_handle c s")
    case (Inr es)
    from updates_handle_event[OF Cons.prems Inr] consider "es = []" | e where "es = [e]" "updates_event_ok s e"
      by blast
    then show ?thesis
      by cases (use Cons Inr assms(1) in \<open>auto simp: updates_event_inv\<close>)
  qed (use Cons in simp)
qed simp

section \<open>What a run was told of a replacement\<close>

text \<open>
  Among the commands of the run: a report of the host under the attempt's fence, a proof of the guest's
  boot that was verified for it, and a drain of its guest that was proven.
\<close>

definition heard :: "update_command list \<Rightarrow> vm_attempt \<Rightarrow> host_evidence \<Rightarrow> bool" where
  "heard cs a evidence \<longleftrightarrow>
     (\<exists>fence at. UC_Vm (VC_HostAcknowledged fence evidence at) \<in> set cs \<and>
        vf_attempt_id fence = vm_id_of a \<and> vf_attempt_sequence fence = vm_sequence a \<and>
        vf_vm_id fence = vm_vm_id a \<and> vf_host_machine_id fence = vm_host_machine_id a \<and>
        vf_host_registration_key fence = vm_host_registration_key a)"

definition saw_proof :: "update_command list \<Rightarrow> vm_attempt \<Rightarrow> guest_boot_proof \<Rightarrow> bool" where
  "saw_proof cs a proof \<longleftrightarrow> (\<exists>at. UC_Vm (VC_VerifyGuest (vm_id_of a) proof at) \<in> set cs)"

definition saw_drain :: "update_command list \<Rightarrow> vm_attempt \<Rightarrow> bool" where
  "saw_drain cs a \<longleftrightarrow>
     (\<exists>proof nonce deadline at.
        UC_Vm (VC_AuthorizeQuiesce (vm_id_of a) proof nonce deadline at) \<in> set cs \<and>
        dp_drained proof \<and> \<not> dp_has_allocations proof \<and> \<not> dp_has_local_volumes proof \<and>
        dp_guest_machine_id proof = vm_guest_machine_id a)"

text \<open>Every fact of the attempt is from such a command.\<close>

definition heard_stop :: "update_command list \<Rightarrow> vm_attempt \<Rightarrow> bool" where
  "heard_stop cs a \<longleftrightarrow>
     (\<exists>old. vm_old_process a = Some old \<and> heard cs a (HE_Quiesced old True True))"

definition vm_history :: "update_command list \<Rightarrow> vm_attempt \<Rightarrow> bool" where
  "vm_history cs a \<longleftrightarrow>
     (\<forall>old. vm_old_process a = Some old \<longrightarrow>
        (\<exists>img. target_matches (vm_target_of a) img \<and> heard cs a (HE_Prepared img old))) \<and>
     (vm_old_process_exited a \<or> vm_root_fenced a \<longrightarrow> vm_phase_of a \<noteq> VP_Preparing \<and> heard_stop cs a) \<and>
     (\<forall>p. vm_candidate_process a = Some p \<longrightarrow>
        (\<exists>img. target_matches (vm_target_of a) img \<and> heard cs a (HE_CandidateRunning p img True))) \<and>
     (\<forall>proof. vm_guest_boot_proof a = Some proof \<longrightarrow> saw_proof cs a proof) \<and>
     (vm_authorized_at a \<noteq> None \<longrightarrow> saw_drain cs a) \<and>
     (vm_committed_at a \<noteq> None \<longrightarrow> (\<exists>p. heard cs a (HE_Committed p)))"

text \<open>And so is what it ended with.\<close>

definition vouched :: "update_command list \<Rightarrow> vm_attempt \<Rightarrow> bool" where
  "vouched cs a \<longleftrightarrow>
     (case vm_phase_of a of
        VP_Succeeded \<Rightarrow> vm_history cs a \<and> heard cs a HE_Released
      | VP_RolledBack \<Rightarrow>
          vm_history cs a \<and>
          (\<exists>p. vm_rollback_process a = Some p \<and> heard cs a (HE_RolledBack p (vm_source a) True True))
      | VP_Cancelled \<Rightarrow>
          (\<exists>old. vm_old_process a = Some old \<and> heard cs a (HE_StagingCancelled old))
      | _ \<Rightarrow> False)"

lemma heard_mono: "heard cs a ev \<Longrightarrow> set cs \<subseteq> set ds \<Longrightarrow> heard ds a ev"
  unfolding heard_def by blast

lemma history_mono:
  assumes "vm_history cs a" "set cs \<subseteq> set ds"
  shows "vm_history ds a"
proof -
  have "heard_stop cs a \<Longrightarrow> heard_stop ds a" "\<And>proof. saw_proof cs a proof \<Longrightarrow> saw_proof ds a proof"
    "saw_drain cs a \<Longrightarrow> saw_drain ds a"
    using assms(2) heard_mono[of cs a _ ds] unfolding heard_stop_def saw_proof_def saw_drain_def by blast+
  with assms heard_mono[of cs a _ ds] show ?thesis unfolding vm_history_def by blast
qed

lemma vouched_mono: "vouched cs a \<Longrightarrow> set cs \<subseteq> set ds \<Longrightarrow> vouched ds a"
  using heard_mono[of cs a _ ds] history_mono[of cs a ds]
  by (auto simp: vouched_def split: vm_phase.splits)

text \<open>The same attempt: who reports on it, and which launches are its own.\<close>

lemma heard_same:
  assumes "same_vm a b" "vm_host_registration_key b = vm_host_registration_key a"
  shows "heard cs b = heard cs a" "saw_proof cs b = saw_proof cs a" "saw_drain cs b = saw_drain cs a"
  using assms by (simp_all add: heard_def saw_proof_def saw_drain_def same_vm_def fun_eq_iff)

lemma reported_heard: "reported c a ev \<Longrightarrow> heard (cs @ [c]) a ev"
  by (auto simp: reported_def heard_def vm_matches_def)

text \<open>One step: what was known stays heard, and what is new is in the command.\<close>

lemma history_old:
  assumes "vm_history ds a" "facts_told c a b" "vm_phase_of b \<noteq> VP_Cancelled" "vm_old_process b = Some p"
    "\<And>ev. reported c a ev \<Longrightarrow> heard ds a ev"
  shows "\<exists>img. target_matches (vm_target_of a) img \<and> heard ds a (HE_Prepared img p)"
proof (cases "vm_old_process b = vm_old_process a")
  case True
  with assms(1,4) show ?thesis unfolding vm_history_def by simp
next
  case False
  with assms(2-4) obtain img where
    "target_matches (vm_target_of a) img" "reported c a (HE_Prepared img p)"
    unfolding facts_told_def by auto
  with assms(5) show ?thesis by blast
qed

lemma history_stop:
  assumes "vm_history ds a" "facts_told c a b" "vm_phase_of b \<noteq> VP_Cancelled"
    "vm_phase_of b = VP_Preparing \<longrightarrow> vm_phase_of a = VP_Preparing"
    "\<And>ev. reported c a ev \<Longrightarrow> heard ds a ev" "vm_old_process_exited b \<or> vm_root_fenced b"
  shows "vm_phase_of b \<noteq> VP_Preparing \<and>
    (\<exists>p. vm_old_process b = Some p \<and> heard ds a (HE_Quiesced p True True))"
proof (cases "vm_old_process_exited b = vm_old_process_exited a \<and> vm_root_fenced b = vm_root_fenced a")
  case True
  with assms(6) have "vm_old_process_exited a \<or> vm_root_fenced a" by simp
  with assms(1) have a: "vm_phase_of a \<noteq> VP_Preparing" "heard_stop ds a"
    unfolding vm_history_def by blast+
  with assms(2,3) have "vm_old_process b = vm_old_process a" unfolding facts_told_def by metis
  with a assms(4) show ?thesis unfolding heard_stop_def by auto
next
  case False
  with assms(2) obtain p where "vm_old_process b = Some p" "vm_phase_of b = VP_Quiesced"
    "reported c a (HE_Quiesced p True True)" unfolding facts_told_def by blast
  with assms(5) show ?thesis by auto
qed

lemma history_candidate:
  assumes "vm_history ds a" "facts_told c a b" "vm_candidate_process b = Some p"
    "\<And>ev. reported c a ev \<Longrightarrow> heard ds a ev"
  shows "\<exists>img. target_matches (vm_target_of a) img \<and> heard ds a (HE_CandidateRunning p img True)"
proof (cases "vm_candidate_process b = vm_candidate_process a")
  case True
  with assms(1,3) show ?thesis unfolding vm_history_def by simp
next
  case False
  with assms(2,3) obtain img where
    "target_matches (vm_target_of a) img" "reported c a (HE_CandidateRunning p img True)"
    unfolding facts_told_def by auto
  with assms(4) show ?thesis by blast
qed

lemma history_instructed:
  assumes "vm_history ds a" "facts_told c a b" "c \<in> set ds" "\<And>ev. reported c a ev \<Longrightarrow> heard ds a ev"
  shows "\<forall>q. vm_guest_boot_proof b = Some q \<longrightarrow> saw_proof ds a q"
    "vm_authorized_at b \<noteq> None \<longrightarrow> saw_drain ds a"
    "vm_committed_at b \<noteq> None \<longrightarrow> (\<exists>p. heard ds a (HE_Committed p))"
proof -
  have told: "vm_guest_boot_proof b = vm_guest_boot_proof a \<or> vm_guest_boot_proof b = None \<or>
      (\<exists>q. vm_guest_boot_proof b = Some q \<and> proven c a q)"
    "vm_authorized_at b = vm_authorized_at a \<or> drained c a"
    "vm_committed_at b = vm_committed_at a \<or> (\<exists>p. reported c a (HE_Committed p))"
    using assms(2) unfolding facts_told_def by blast+
  have old: "\<forall>q. vm_guest_boot_proof a = Some q \<longrightarrow> saw_proof ds a q"
    "vm_authorized_at a \<noteq> None \<longrightarrow> saw_drain ds a"
    "vm_committed_at a \<noteq> None \<longrightarrow> (\<exists>p. heard ds a (HE_Committed p))"
    using assms(1) unfolding vm_history_def by blast+
  have boot: "proven c a q \<longrightarrow> saw_proof ds a q" for q
    using assms(3) by (auto simp: proven_def saw_proof_def)
  have drain: "drained c a \<longrightarrow> saw_drain ds a"
    using assms(3) by (auto simp: drained_def saw_drain_def drain_safe_def)
  show "\<forall>q. vm_guest_boot_proof b = Some q \<longrightarrow> saw_proof ds a q"
    using told(1) old(1) boot by auto
  show "vm_authorized_at b \<noteq> None \<longrightarrow> saw_drain ds a"
    using told(2) old(2) drain by auto
  show "vm_committed_at b \<noteq> None \<longrightarrow> (\<exists>p. heard ds a (HE_Committed p))"
    using told(3) old(3) assms(4) by auto
qed

lemma history_step:
  assumes "vm_history cs a" "vm_told c a b" "same_vm a b" "vm_phase_of b \<noteq> VP_Cancelled"
  shows "vm_history (cs @ [c]) b"
proof -
  have key: "vm_host_registration_key b = vm_host_registration_key a" and told: "facts_told c a b"
    and prep: "vm_phase_of b = VP_Preparing \<longrightarrow> vm_phase_of a = VP_Preparing"
    using assms(2) by (simp_all add: vm_told_def)
  have target: "vm_target_of b = vm_target_of a" using assms(3) by (simp add: same_vm_def)
  have old: "vm_history (cs @ [c]) a" by (rule history_mono[OF assms(1)]) auto
  have new: "c \<in> set (cs @ [c])" by simp
  have prepared: "\<exists>img. target_matches (vm_target_of a) img \<and> heard (cs @ [c]) a (HE_Prepared img p)"
    if "vm_old_process b = Some p" for p
    by (rule history_old[OF old told assms(4) that reported_heard])
  have stop: "vm_phase_of b \<noteq> VP_Preparing \<and>
      (\<exists>p. vm_old_process b = Some p \<and> heard (cs @ [c]) a (HE_Quiesced p True True))"
    if "vm_old_process_exited b \<or> vm_root_fenced b"
    by (rule history_stop[OF old told assms(4) prep reported_heard that])
  have candidate: "\<exists>img. target_matches (vm_target_of a) img \<and>
      heard (cs @ [c]) a (HE_CandidateRunning p img True)"
    if "vm_candidate_process b = Some p" for p
    by (rule history_candidate[OF old told that reported_heard])
  from prepared stop candidate history_instructed[OF old told new reported_heard] show ?thesis
    unfolding vm_history_def heard_stop_def heard_same[OF assms(3) key] target by blast
qed

lemma new_history: "vm_history cs (new_vm_attempt r n at)"
  by (simp add: vm_history_def new_vm_attempt_def)

lemma step_same_vm:
  assumes "updates_event_ok s e" "au_active s = Some (Vm_Active a)" "vm_recorded e = Some b"
  shows "same_vm a b \<and> (vm_phase_of b \<in> {VP_Succeeded, VP_RolledBack, VP_Cancelled} \<longrightarrow> (\<exists>at. e = EV_VmCompleted b at))"
  using assms by (cases e) (auto simp: vm_change_def vm_inv_def split: if_splits)

lemma vouched_step:
  assumes "vm_history cs a" "vm_told c a b" "same_vm a b" "completes_safely b at"
  shows "vouched (cs @ [c]) b"
proof -
  have key: "vm_host_registration_key b = vm_host_registration_key a" and e: "end_told c a b"
    using assms(2) by (simp_all add: vm_told_def)
  have source: "vm_source b = vm_source a" using assms(3) by (simp add: same_vm_def)
  have "vm_phase_of b \<in> {VP_Succeeded, VP_RolledBack, VP_Cancelled}"
    using assms(4) by (auto simp: completes_safely_def split: vm_phase.splits)
  with e history_step[OF assms(1-3)] reported_heard[of c a _ cs] source show ?thesis
    unfolding vouched_def end_told_def heard_same[OF assms(3) key] by auto
qed

lemma run_events_snoc:
  "run_events app hdl s (cs @ [c]) =
   run_events app hdl s cs @ (case hdl c (run_commands app hdl s cs) of Inl _ \<Rightarrow> [] | Inr es \<Rightarrow> es)"
  by (induction cs arbitrary: s) (auto split: sum.splits)

lemma run_snoc:
  "updates_run (cs @ [c]) =
   (case updates_handle c (updates_run cs) of
      Inl _ \<Rightarrow> updates_run cs
    | Inr es \<Rightarrow> fold_events updates_apply (updates_run cs) es)"
  by (simp add: run_commands_append split: sum.splits)

text \<open>The attempt in the slot after an allowed event is the one that was there, or the one recorded.\<close>

lemma slot_after:
  assumes "updates_event_ok s e" "au_active (updates_apply s e) = Some (Vm_Active b)"
  shows "au_active s = Some (Vm_Active b) \<or> vm_recorded e = Some b"
  using assms by (cases e) (auto simp: put_vm_def split: if_splits)

lemma history_run:
  "au_active (updates_run cs) = Some (Vm_Active a) \<Longrightarrow> vm_history cs a"
proof (induction cs arbitrary: a rule: rev_induct)
  case Nil
  then show ?case by (simp add: agent_updates_default_def)
next
  case (snoc c cs)
  let ?s = "updates_run cs"
  have inv: "updates_inv ?s" and inv': "updates_inv (updates_run (cs @ [c]))" by (rule updates.inv_run)+
  have kept: "vm_history (cs @ [c]) a" if "au_active ?s = Some (Vm_Active a)"
    by (rule history_mono[OF snoc(1)[OF that]]) auto
  show ?case
  proof (cases "updates_handle c ?s")
    case (Inl err)
    with snoc(2) kept show ?thesis by (simp add: run_commands_append)
  next
    case (Inr es)
    from updates_handle_event[OF inv Inr] consider "es = []" | e where "es = [e]" "updates_event_ok ?s e" by blast
    then show ?thesis
    proof cases
      case 1
      with Inr snoc(2) kept show ?thesis by (simp add: run_commands_append)
    next
      case 2
      with Inr snoc(2) have after: "au_active (updates_apply ?s e) = Some (Vm_Active a)"
        by (simp add: run_commands_append)
      from slot_after[OF 2(2) this] show ?thesis
      proof
        assume rec: "vm_recorded e = Some a"
        have live: "vm_phase_of a \<noteq> VP_Cancelled"
          using updates_event_inv[OF inv 2(2)] after by (auto simp: updates_inv_def live_phase)
        from vm_events_told[OF inv Inr, of e a] 2(1) rec consider
          b where "au_active ?s = Some (Vm_Active b)" "vm_told c b a" | r n at where "a = new_vm_attempt r n at"
          by auto
        then show ?thesis
        proof cases
          case (1 b)
          with step_same_vm[OF 2(2) 1(1) rec] history_step[OF snoc(1)[OF 1(1)] 1(2) _ live] show ?thesis
            by blast
        qed (simp add: new_history)
      qed (rule kept)
    qed
  qed
qed

lemma completed_vouched:
  "EV_VmCompleted b at \<in> set (updates_log cs) \<Longrightarrow> vouched cs b"
proof (induction cs rule: rev_induct)
  case (snoc c cs)
  let ?s = "updates_run cs"
  have inv: "updates_inv ?s" by (rule updates.inv_run)
  show ?case
  proof (cases "EV_VmCompleted b at \<in> set (updates_log cs)")
    case True
    from vouched_mono[OF snoc(1)[OF this], of "cs @ [c]"] show ?thesis by auto
  next
    case False
    with snoc(2) obtain es where es: "updates_handle c ?s = Inr es" "EV_VmCompleted b at \<in> set es"
      by (cases "updates_handle c ?s") (auto simp: run_events_snoc)
    with updates_handle_event[OF inv es(1)] have ok: "updates_event_ok ?s (EV_VmCompleted b at)" by auto
    then obtain a where a: "au_active ?s = Some (Vm_Active a)" "same_vm a b" "completes_safely b at"
      by (auto split: option.splits active_update.splits)
    from vm_events_told[OF inv es(1,2)] a(1) have "vm_told c a b" by auto
    from vouched_step[OF history_run[OF a(1)] this a(2,3)] show ?thesis .
  qed
qed simp

text \<open>
  C20: No update ends on trust. A VM's replacement succeeds only when the old process is gone, the new
  one is another process and a fresh boot proof of the target image holds; it is rolled back only before
  its commit and to a process that is neither of the two; it is cancelled only when the old machine was
  never stopped. And each of the facts this rests on was told by those who know it, in a command of the
  run that bears the attempt's fence: the host reported the old process that it prepared, that exactly
  that process exited and its root was fenced, the candidate freshly started from the target image, the
  commit, and for a success the release; the guest's own proof was verified and its drain proven. For a
  rollback the host reported a process that runs the source image, that the candidate exited and that
  the baseline is restored; for a cancellation the old process. An executable's update succeeds only by
  a commit on the boot whose health was verified, which is not the boot it was authorised in; it is
  rolled back only when it was authorised, on a boot that is neither of the two; and an offer is
  cancelled only before it is authorised.
\<close>

theorem updates_end_safely:
  "list_all
     (\<lambda>e. case e of
        EV_VmCompleted a at \<Rightarrow> completes_safely a at \<and> vouched cs a
      | EV_AttemptSucceeded a at \<Rightarrow>
          at_boot_id a \<noteq> None \<and> at_boot_id a \<noteq> Some 0 \<and> at_boot_id a \<noteq> at_authorized_boot_id a
      | _ \<Rightarrow> True)
     (updates_log cs) \<and>
   (\<forall>c es e. updates_handle c (updates_run cs) = Inr es \<and> e \<in> set es \<and> exec_ends e \<longrightarrow>
      (\<exists>a. au_active (updates_run cs) = Some (Exec_Active a) \<and> exec_end_told c a e))"
proof
  have "list_all
     (\<lambda>e. case e of
        EV_VmCompleted a at \<Rightarrow> completes_safely a at
      | EV_AttemptSucceeded a at \<Rightarrow>
          at_boot_id a \<noteq> None \<and> at_boot_id a \<noteq> Some 0 \<and> at_boot_id a \<noteq> at_authorized_boot_id a
      | _ \<Rightarrow> True)
     (updates_log cs)"
  proof (rule run_events_all[OF _ updates_inv_default])
    fix s e
    assume "updates_event_ok s e"
    then show "case e of
        EV_VmCompleted a at \<Rightarrow> completes_safely a at
      | EV_AttemptSucceeded a at \<Rightarrow>
          at_boot_id a \<noteq> None \<and> at_boot_id a \<noteq> Some 0 \<and> at_boot_id a \<noteq> at_authorized_boot_id a
      | _ \<Rightarrow> True"
      by (cases e) (auto split: option.splits active_update.splits)
  qed
  then show "list_all
     (\<lambda>e. case e of
        EV_VmCompleted a at \<Rightarrow> completes_safely a at \<and> vouched cs a
      | EV_AttemptSucceeded a at \<Rightarrow>
          at_boot_id a \<noteq> None \<and> at_boot_id a \<noteq> Some 0 \<and> at_boot_id a \<noteq> at_authorized_boot_id a
      | _ \<Rightarrow> True)
     (updates_log cs)"
    using completed_vouched[of _ _ cs] by (auto simp: list_all_iff split: update_event.splits)
qed (use exec_ends_told[OF updates.inv_run] in blast)

text \<open>An attempt on an executable whose candidate was verified, on its way back.\<close>

definition sample_build :: public_build where
  "sample_build =
     \<lparr>pb_revision = sample_hex 40 CHR ''b'', pb_package = ''main-'' @ sample_hex 40 CHR ''b''\<rparr>"

definition sample_exec_fence :: update_fence where
  "sample_exec_fence =
     \<lparr>uf_attempt_id = 5, uf_machine_id = 6, uf_registration_key = sample_hex 64 CHR ''a'',
      uf_generation = 1\<rparr>"

definition sample_verified :: "update_command list" where
  "sample_verified =
     [UC_Initialize 0, UC_Select sample_build 1,
      UC_Offer 5 6 (sample_hex 64 CHR ''a'') 1 (sample_hex 40 CHR ''a'') 2 100,
      UC_Begin sample_exec_fence 50 None 3, UC_Health sample_exec_fence 51 4]"

lemma sample_rollback:
  "map (\<lambda>boot. updates_handle (UC_Rollback sample_exec_fence boot 5) (updates_run sample_verified)) [50, 51] =
     [Inl UE_SameBoot, Inl UE_SameBoot]"
  "case updates_handle (UC_Rollback sample_exec_fence 52 5) (updates_run sample_verified) of
     Inl _ \<Rightarrow> False | Inr es \<Rightarrow> list_ex exec_ends es"
  by code_simp+

theorem updates_end_safely_witness:
  "(\<exists>b at. EV_VmCompleted b at \<in> set (updates_log sample_to_success) \<and> vouched sample_to_success b \<and>
      completes_safely b at) \<and>
   (\<exists>a e. au_active (updates_run sample_verified) = Some (Exec_Active a) \<and>
      exec_ends e \<and> exec_end_told (UC_Rollback sample_exec_fence 52 5) a e)"
proof
  from completed_in_log[OF sample_replacement_ends(2)] obtain b t where
    b: "EV_VmCompleted b t \<in> set (updates_log sample_to_success)" by blast
  with conjunct1[OF updates_end_safely[of sample_to_success]]
  have "vouched sample_to_success b \<and> completes_safely b t" by (force simp: list_all_iff)
  with b show "\<exists>b at. EV_VmCompleted b at \<in> set (updates_log sample_to_success) \<and>
      vouched sample_to_success b \<and> completes_safely b at" by blast
next
  from sample_rollback(2) obtain es e where
    "updates_handle (UC_Rollback sample_exec_fence 52 5) (updates_run sample_verified) = Inr es"
    "e \<in> set es" "exec_ends e"
    by (auto simp: list_ex_iff split: sum.splits)
  with conjunct2[OF updates_end_safely[of sample_verified]]
  show "\<exists>a e. au_active (updates_run sample_verified) = Some (Exec_Active a) \<and>
      exec_ends e \<and> exec_end_told (UC_Rollback sample_exec_fence 52 5) a e" by blast
qed

text \<open>
  C21: No machine is migrated and updated at once: the machines of an authorised update, and both
  machines of a VM's replacement from its request on, are held by no migration.
\<close>

theorem update_excludes_migration:
  assumes "au_active (updates_run cs) = Some u" "active_authorized u \<or> active_vm u \<noteq> None"
    "owns_machine u m"
  shows "map_of (au_migration_holds (updates_run cs)) m = None"
  using updates.inv_run[of cs] assms
  by (auto simp: updates_inv_def excludes_migration_def is_held_def)

lemma sample_staged:
  "is_some_and (au_active (updates_run sample_staging)) (\<lambda>u. active_vm u \<noteq> None \<and> owns_machine u 3)"
  by code_simp

theorem update_excludes_migration_witness:
  "map_of (au_migration_holds (updates_run sample_staging)) 3 = None"
proof -
  from sample_staged obtain u where
    "au_active (updates_run sample_staging) = Some u" "active_vm u \<noteq> None" "owns_machine u 3"
    by (auto simp: is_some_and_iff)
  then show ?thesis by (intro update_excludes_migration) auto
qed

text \<open>
  The way back is open exactly as long as \<open>can_cancel\<close> says: in every state of a run, a cancellation
  with a fresh nonce and a deadline in its window starts the recovery if and only if the attempt can be
  cancelled. The four nonces of an attempt never run out before it.
\<close>

theorem cancel_possible_iff:
  assumes "au_active (updates_run cs) = Some (Vm_Active a)" "vm_offered_at a \<le> at"
    "\<not> nonce_refused a nonce" "bounded at deadline 5"
  shows "(\<exists>b. updates_handle (UC_Vm (VC_Cancel (vm_id_of a) nonce deadline at)) (updates_run cs) =
              Inr [EV_VmRecoveryRequested b at]) \<longleftrightarrow> can_cancel a"
proof -
  let ?s = "updates_run cs"
  have inv: "vm_inv a" "au_initialized ?s"
    using updates.inv_run[of cs] assms(1) by (auto simp: updates_inv_def)
  have handle: "updates_handle (UC_Vm (VC_Cancel (vm_id_of a) nonce deadline at)) ?s =
      rollback_vm a VF_Cancelled nonce deadline at"
    using inv(2) assms(1,2) vm_current_Inr[of ?s "vm_id_of a" at a]
    by (simp add: updates_handle_def vm_handle_def cancel_vm_def)
  have phases: "can_cancel a \<longleftrightarrow> \<not> past_return a \<and> vm_phase_of a \<notin> {VP_RollingBack, VP_Cancelling}"
    using inv(1) unfolding can_cancel_def past_return_def vm_terminal_def vm_inv_def
    by (cases "vm_phase_of a") (auto simp: vm_facts split: if_splits)
  have step: "\<exists>b. vm_next a VA_Rollback nonce deadline = Inr b" if "can_cancel a"
  proof -
    have "\<exists>n. nonces_used (vm_used_launch_nonces a) n \<and> n < 4 \<and> vo_sequence (vm_operation_of a) = n"
      using inv(1) that unfolding can_cancel_def vm_terminal_def vm_inv_def
      by (cases "vm_phase_of a") (auto simp: vm_facts split: if_splits)
    with vm_next_possible[OF _ _ assms(3)] show ?thesis by auto
  qed
  show ?thesis
    using step phases assms(3,4) unfolding handle rollback_vm_def by (auto split: if_splits)
qed

lemma sample_switched:
  "is_some_and (Option.bind (au_active (updates_run sample_to_candidate)) active_vm)
     (\<lambda>a. vm_offered_at a \<le> 11 \<and> \<not> nonce_refused a 14 \<and> can_cancel a \<and> bounded 11 60000000000 5)"
  by code_simp

theorem cancel_possible_iff_witness:
  "\<exists>(a :: vm_attempt) b. updates_handle (UC_Vm (VC_Cancel (vm_id_of a) 14 60000000000 11))
           (updates_run sample_to_candidate) = Inr [EV_VmRecoveryRequested b 11]"
proof -
  from sample_switched obtain u a where
    "au_active (updates_run sample_to_candidate) = Some u" "active_vm u = Some a"
    and a: "vm_offered_at a \<le> 11" "\<not> nonce_refused a 14" "can_cancel a" "bounded 11 60000000000 5"
    by (auto simp: is_some_and_iff bind_eq_Some_conv)
  then have "au_active (updates_run sample_to_candidate) = Some (Vm_Active a)"
    by (cases u) auto
  from cancel_possible_iff[OF this a(1,2,4), THEN iffD2, OF a(3)] show ?thesis by (rule exI[where x = a])
qed

end
