(* ===== verification/F64.thy ===== *)
theory F64
  imports Text
begin

text \<open>
  The arithmetic on \<open>f64\<close> that the app file uses. A finite number that is not negative is
  \<open>n / 2^d\<close>; quotients and products are the nearest 53-bit fraction, ties to even. The exponent is
  not bounded: the code only compares and rounds to integers, where numbers below the smallest
  normal one all become 0 and numbers past \<open>2^64\<close> all saturate.
\<close>

datatype f64 = F64 nat nat | F64_Negative | F64_Infinite | F64_NaN

fun bit_length :: "nat \<Rightarrow> nat" where
  "bit_length n = (if n = 0 then 0 else Suc (bit_length (n div 2)))"

declare bit_length.simps [simp del]

lemma bit_length_bounds: "0 < n \<Longrightarrow> 2 ^ (bit_length n - 1) \<le> n \<and> n < 2 ^ bit_length n \<and> 0 < bit_length n"
proof (induction n rule: bit_length.induct)
  case (1 n)
  have b: "bit_length n = Suc (bit_length (n div 2))" using 1(2) by (simp add: bit_length.simps)
  show ?case
  proof (cases "n div 2 = 0")
    case True
    then have "n = 1" using 1(2) by simp
    then show ?thesis by (simp add: bit_length.simps[of "Suc 0"] bit_length.simps[of 0])
  next
    case False
    let ?m = "n div 2"
    from 1(1) 1(2) False have m: "2 ^ (bit_length ?m - 1) \<le> ?m" "?m < 2 ^ bit_length ?m" "0 < bit_length ?m"
      by auto
    have "(2::nat) ^ bit_length ?m = 2 * 2 ^ (bit_length ?m - 1)"
      using m(3) by (metis Suc_pred' power_Suc)
    with m have "2 ^ bit_length ?m \<le> n" by linarith
    moreover have "n < 2 * 2 ^ bit_length ?m" using m(2) by linarith
    ultimately show ?thesis by (simp add: b)
  qed
qed

text \<open>The fraction \<open>p / q\<close> scaled by a power of two, and the power that gives it 53 bits.\<close>

definition scaled :: "nat \<Rightarrow> nat \<Rightarrow> int \<Rightarrow> nat \<times> nat" where
  "scaled p q s = (p * 2 ^ nat s, q * 2 ^ nat (- s))"

definition f64_scale :: "nat \<Rightarrow> nat \<Rightarrow> int" where
  "f64_scale p q =
     (let s = 53 + int (bit_length q) - int (bit_length p); (a, b) = scaled p q s
      in if a < 2 ^ 53 * b then s else s - 1)"

definition f64_ratio :: "nat \<Rightarrow> nat \<Rightarrow> f64" where
  "f64_ratio p q =
     (if p = 0 then F64 0 0
      else let s = f64_scale p q; (a, b) = scaled p q s; n = round_half_even a b
           in F64 (n * 2 ^ nat (- s)) (nat s))"

fun f64_times :: "f64 \<Rightarrow> nat \<Rightarrow> f64" where
  "f64_times (F64 n d) k = f64_ratio (n * k) (2 ^ d)"
| "f64_times x k = x"

text \<open>\<open>x.round() as uN\<close>: half away from zero, then saturating.\<close>

fun f64_round_to :: "nat \<Rightarrow> f64 \<Rightarrow> nat" where
  "f64_round_to w (F64 n d) = min ((2 * n + 2 ^ d) div (2 * 2 ^ d)) (2 ^ w - 1)"
| "f64_round_to w F64_Infinite = 2 ^ w - 1"
| "f64_round_to w _ = 0"

fun f64_positive_upto :: "f64 \<Rightarrow> nat \<Rightarrow> bool" where
  "f64_positive_upto (F64 n d) k \<longleftrightarrow> 0 < n \<and> n \<le> k * 2 ^ d"
| "f64_positive_upto x k \<longleftrightarrow> False"

text \<open>
  \<open>str::parse::<f64>\<close> of a run of digits and points: digits with at most one point among them.
\<close>

definition f64_parse :: "string \<Rightarrow> f64 option" where
  "f64_parse text =
     (let (whole, fraction) = (case split_once CHR ''.'' text of None \<Rightarrow> (text, []) | Some p \<Rightarrow> p)
      in if whole @ fraction \<noteq> [] \<and> list_all is_ascii_digit (whole @ fraction)
         then Some (f64_ratio (digits_value (whole @ fraction)) (10 ^ length fraction)) else None)"

section \<open>The rounding error\<close>

lemma two_powers: "(2::int) ^ 53 = 9007199254740992" "(2::int) ^ 52 = 4503599627370496" "(2::int) ^ 50 = 1125899906842624"
  by simp_all

lemma round_half_even_error:
  assumes "0 < b"
  shows "2 * \<bar>int (round_half_even a b) * int b - int a\<bar> \<le> int b"
proof -
  have "int a = int (a div b) * int b + int (a mod b)"
    by (metis div_mult_mod_eq of_nat_add of_nat_mult)
  moreover have "int (a mod b) < int b" using assms by simp
  ultimately show ?thesis
    by (auto simp: round_half_even_def Let_def algebra_simps)
qed

lemma round_half_even_exact: "0 < b \<Longrightarrow> round_half_even (k * b) b = k"
  by (simp add: round_half_even_def)

lemma scaled_step:
  "scaled p q s = (a, b) \<Longrightarrow> scaled p q (s - 1) = (a', b') \<Longrightarrow> 2 ^ 53 * b \<le> a \<Longrightarrow> 2 ^ 52 * b' \<le> a'"
proof (cases "0 < s")
  case True
  assume h: "scaled p q s = (a, b)" "scaled p q (s - 1) = (a', b')" "2 ^ 53 * b \<le> a"
  have "nat s = Suc (nat (s - 1))" using True by simp
  with h True show ?thesis by (auto simp: scaled_def)
next
  case False
  assume h: "scaled p q s = (a, b)" "scaled p q (s - 1) = (a', b')" "2 ^ 53 * b \<le> a"
  have "nat (- (s - 1)) = Suc (nat (- s))" using False by simp
  with h False show ?thesis by (auto simp: scaled_def)
qed

lemma scaled_start:
  assumes "0 < p" "0 < q" "scaled p q (53 + int (bit_length q) - int (bit_length p)) = (a, b)"
  shows "2 ^ 52 * b \<le> a"
proof -
  note p = bit_length_bounds[OF assms(1)] and q = bit_length_bounds[OF assms(2)]
  let ?x = "bit_length p" and ?y = "bit_length q"
  have p1: "(2::nat) ^ ?x \<le> 2 * p"
  proof -
    have "(2::nat) ^ ?x = 2 * 2 ^ (?x - 1)" using p by (metis Suc_pred' power_Suc)
    then show ?thesis using p by linarith
  qed
  show ?thesis
  proof (cases "?x \<le> 53 + ?y")
    case True
    then obtain s where s: "53 + ?y = ?x + s" using le_Suc_ex by blast
    then have n: "53 + int ?y - int ?x = int s" by linarith
    then have ab: "a = p * 2 ^ s" "b = q" using assms(3) by (auto simp: scaled_def)
    have "2 * (2 ^ 52 * q) = 2 ^ 53 * q" by simp
    also have "\<dots> \<le> 2 ^ 53 * 2 ^ ?y" using q by simp
    also have "\<dots> = 2 ^ ?x * 2 ^ s" using s by (metis power_add)
    also have "\<dots> \<le> 2 * p * 2 ^ s" using p1 by simp
    finally show ?thesis using ab by simp
  next
    case False
    then obtain t where t: "?x = 53 + ?y + t" by (metis le_Suc_ex linear)
    then have n: "53 + int ?y - int ?x = - int t" by linarith
    then have ab: "a = p" "b = q * 2 ^ t" using assms(3) by (auto simp: scaled_def)
    have "2 * (2 ^ 52 * (q * 2 ^ t)) = 2 ^ 53 * q * 2 ^ t" by simp
    also have "\<dots> \<le> 2 ^ 53 * 2 ^ ?y * 2 ^ t" using q by simp
    also have "\<dots> = 2 ^ ?x" using t by (simp add: power_add)
    also have "\<dots> \<le> 2 * p" by (rule p1)
    finally show ?thesis using ab by simp
  qed
qed

lemma f64_scale_bits:
  assumes "0 < p" "0 < q" "scaled p q (f64_scale p q) = (a, b)"
  shows "2 ^ 52 * b \<le> a"
proof -
  let ?s = "53 + int (bit_length q) - int (bit_length p)"
  obtain a0 b0 where s: "scaled p q ?s = (a0, b0)" by fastforce
  note start = scaled_start[OF assms(1,2) s]
  show ?thesis
  proof (cases "a0 < 2 ^ 53 * b0")
    case True
    with s start assms(3) show ?thesis by (simp add: f64_scale_def)
  next
    case False
    with s assms(3) have "scaled p q (?s - 1) = (a, b)" by (simp add: f64_scale_def)
    from scaled_step[OF s this] False show ?thesis by simp
  qed
qed

text \<open>The quotient is off by at most one part in \<open>2^53\<close>.\<close>

lemma f64_ratio_error:
  assumes "f64_ratio p q = F64 n d" "0 < p" "0 < q"
  shows "2 ^ 53 * \<bar>int (n * q) - int (p * 2 ^ d)\<bar> \<le> int (p * 2 ^ d)"
proof -
  obtain a b where ab: "scaled p q (f64_scale p q) = (a, b)" by fastforce
  let ?s = "f64_scale p q" and ?r = "round_half_even a b"
  have n: "n = ?r * 2 ^ nat (- ?s)" "d = nat ?s"
    using assms ab by (auto simp: f64_ratio_def Let_def)
  have big: "2 ^ 52 * b \<le> a" by (rule f64_scale_bits[OF assms(2,3) ab])
  have "0 < b" using ab assms(3) by (auto simp: scaled_def)
  note err = round_half_even_error[OF this, of a]
  have eq: "int (n * q) = int ?r * int b" "int (p * 2 ^ d) = int a"
    using ab n by (auto simp: scaled_def)
  have "int a \<ge> 2 ^ 52 * int b" using big by (metis of_nat_le_iff of_nat_mult of_nat_numeral of_nat_power)
  with err show ?thesis unfolding eq two_powers by linarith
qed

lemma f64_ratio_shape: "\<exists>n d. f64_ratio p q = F64 n d"
  by (auto simp: f64_ratio_def Let_def split: prod.splits)

text \<open>Integers below \<open>2^53\<close> are exact.\<close>

lemma f64_ratio_integer:
  assumes "0 < p" "p < 2 ^ 53"
  shows "\<exists>d. f64_ratio p 1 = F64 (p * 2 ^ d) d"
proof -
  let ?s = "f64_scale p 1"
  have "bit_length 1 = 1" by (simp add: bit_length.simps[of "Suc 0"] bit_length.simps[of 0])
  have "bit_length p \<le> 53"
  proof (rule ccontr)
    assume "\<not> ?thesis"
    then have "53 \<le> bit_length p - 1" by simp
    then have "(2::nat) ^ 53 \<le> 2 ^ (bit_length p - 1)" by (rule power_increasing) simp
    with bit_length_bounds[OF assms(1)] assms(2) show False by linarith
  qed
  then have "0 \<le> ?s" using \<open>bit_length 1 = 1\<close> by (auto simp: f64_scale_def Let_def split: prod.splits)
  then have "scaled p 1 ?s = (p * 2 ^ nat ?s, 1)" "nat (- ?s) = 0" by (simp_all add: scaled_def)
  then show ?thesis
    using assms(1) round_half_even_exact[of 1 "p * 2 ^ nat ?s"] by (auto simp: f64_ratio_def Let_def)
qed

lemma round_close:
  assumes "4 * \<bar>int n - int m * 2 ^ d\<bar> < 2 ^ d"
  shows "(2 * n + 2 ^ d) div (2 * 2 ^ d) = m"
proof (rule div_nat_eqI)
  define x where "x = int n - int m * 2 ^ d"
  have x: "2 * int n + 2 ^ d = int m * (2 * 2 ^ d) + 2 * x + 2 ^ d" by (simp add: x_def algebra_simps)
  have close: "4 * \<bar>x\<bar> < 2 ^ d" using assms by (simp add: x_def)
  have "int (m * (2 * 2 ^ d)) \<le> int (2 * n + 2 ^ d)"
    using close unfolding of_nat_mult of_nat_add of_nat_power of_nat_numeral x by linarith
  then show "2 * 2 ^ d * m \<le> 2 * n + 2 ^ d" by (simp only: of_nat_le_iff mult.commute)
  have y: "int (Suc m) * (2 * 2 ^ d) = int m * (2 * 2 ^ d) + 2 * 2 ^ d" by (simp add: algebra_simps)
  have "int (2 * n + 2 ^ d) < int (Suc m * (2 * 2 ^ d))"
    using close unfolding of_nat_mult of_nat_add of_nat_power of_nat_numeral x y by linarith
  then show "2 * n + 2 ^ d < 2 * 2 ^ d * Suc m" by (simp only: of_nat_less_iff mult.commute)
qed

text \<open>A number of thousandths survives the division by 1000 and the multiplication back.\<close>

lemma thousandths_round_trip:
  assumes "0 < m" "m \<le> 64000"
  shows "f64_positive_upto (f64_ratio m 1000) 64 \<and>
    f64_round_to 32 (f64_times (f64_ratio m 1000) 1000) = m"
proof -
  obtain n d where r: "f64_ratio m 1000 = F64 n d" using f64_ratio_shape by blast
  define N M D where "N = int n" and "M = int m" and "D = (2::int) ^ d"
  have D: "0 < D" by (simp add: D_def)
  have M: "0 < M" "M \<le> 64000" using assms by (simp_all add: M_def)
  define E where "E = N * 1000 - M * D"
  have NE: "N * 1000 = M * D + E" by (simp add: E_def)
  have e1: "2 ^ 53 * \<bar>E\<bar> \<le> M * D"
    using f64_ratio_error[OF r assms(1)] by (simp add: E_def N_def M_def D_def)
  have MD: "0 < M * D" "M * D \<le> 64000 * D" using M D by simp_all
  have pos: "0 < N" using NE e1 MD unfolding two_powers by linarith
  have "N \<le> 64 * D"
  proof (cases "m = 64000")
    case True
    moreover have "f64_ratio 64000 1000 = F64 (64 * 2 ^ 46) 46" by code_simp
    ultimately show ?thesis using r by (simp add: N_def D_def)
  next
    case False
    then have "M + 1 \<le> 64000" using assms(2) by (simp add: M_def)
    then have "(M + 1) * D \<le> 64000 * D" using D by (intro mult_right_mono) simp_all
    then have "M * D + D \<le> 64000 * D" by (simp add: algebra_simps)
    with NE e1 MD show ?thesis unfolding two_powers by linarith
  qed
  then have "int n \<le> int (64 * 2 ^ d)" by (simp add: N_def D_def)
  then have upto: "f64_positive_upto (f64_ratio m 1000) 64"
    using pos r by (simp add: N_def del: of_nat_mult)
  obtain n' d' where r': "f64_ratio (n * 1000) (2 ^ d) = F64 n' d'" using f64_ratio_shape by blast
  define N' D' where "N' = int n'" and "D' = (2::int) ^ d'"
  have D': "0 < D'" by (simp add: D'_def)
  define E' where "E' = N' * D - N * 1000 * D'"
  have e2: "2 ^ 53 * \<bar>E'\<bar> \<le> N * 1000 * D'"
    using f64_ratio_error[OF r'] pos by (simp add: E'_def N_def N'_def D_def D'_def)
  define F where "F = E * D'"
  have "2 ^ 53 * \<bar>E\<bar> * D' \<le> M * D * D'" using e1 D' by (intro mult_right_mono) simp_all
  then have e3: "2 ^ 53 * \<bar>F\<bar> \<le> M * D * D'" using D' by (simp add: F_def abs_mult)
  have NF: "N * 1000 * D' = M * D * D' + F" by (simp add: F_def NE algebra_simps)
  have "M * (D * D') \<le> 64000 * (D * D')" "0 < D * D'" using M D D' by simp_all
  then have W: "M * D * D' \<le> 64000 * (D * D')" "0 < D * D'" by (simp_all add: mult.assoc)
  define X where "X = N' - M * D'"
  have XD: "X * D = E' + F" using NF by (simp add: X_def E'_def algebra_simps)
  have "4 * g < w" if "9007199254740992 * e \<le> y" "9007199254740992 * f \<le> z" "z \<le> 64000 * w" "0 < w"
    "y = z + x" "x \<le> f" "g \<le> e + f" for e f g w x y z :: int
    using that by linarith
  from this[OF e2[unfolded two_powers] e3[unfolded two_powers] W NF abs_ge_self abs_triangle_ineq]
  have "4 * \<bar>X * D\<bar> < D * D'" unfolding XD .
  then have "(4 * \<bar>X\<bar>) * D < D' * D" using D by (simp add: abs_mult mult_ac)
  then have "4 * \<bar>X\<bar> < D'" using D by (simp only: mult_less_cancel_right)
  then have "(2 * n' + 2 ^ d') div (2 * 2 ^ d') = m"
    by (intro round_close) (simp add: X_def M_def N'_def D'_def)
  then have "f64_round_to 32 (f64_times (f64_ratio m 1000) 1000) = m"
    using r r' assms(2) by simp
  with upto show ?thesis by blast
qed

text \<open>So does a whole number of units, and its multiple.\<close>

lemma integer_times:
  assumes "0 < p" "0 < k" "p * k < 2 ^ 50"
  shows "f64_round_to 64 (f64_times (f64_ratio p 1) k) = p * k"
proof -
  have "p \<le> p * k" using assms(2) by simp
  then have "p < 2 ^ 50" using assms(3) by linarith
  then have "p < 2 ^ 53" by simp
  then obtain d where d: "f64_ratio p 1 = F64 (p * 2 ^ d) d" using f64_ratio_integer[OF assms(1)] by blast
  obtain n' d' where r: "f64_ratio (p * 2 ^ d * k) (2 ^ d) = F64 n' d'" using f64_ratio_shape by blast
  define N' K D D' where "N' = int n'" and "K = int (p * k)" and "D = (2::int) ^ d" and "D' = (2::int) ^ d'"
  have "int (p * k) < int (2 ^ 50)" using assms(3) by (simp only: of_nat_less_iff)
  then have pos: "0 < D" "0 < D'" "K < 2 ^ 50" by (simp_all add: D_def D'_def K_def)
  define X where "X = N' - K * D'"
  have "2 ^ 53 * \<bar>X * D\<bar> \<le> (K * D') * D"
    using f64_ratio_error[OF r] assms by (simp add: X_def N'_def K_def D_def D'_def algebra_simps)
  then have "(2 ^ 53 * \<bar>X\<bar>) * D \<le> (K * D') * D" using pos by (simp add: abs_mult mult_ac)
  then have "2 ^ 53 * \<bar>X\<bar> \<le> K * D'" using pos by (simp only: mult_le_cancel_right)
  moreover have "K * D' \<le> 2 ^ 50 * D'" using pos by (intro mult_right_mono) simp_all
  ultimately have "4 * \<bar>X\<bar> < D'" using pos unfolding two_powers by linarith
  then have "(2 * n' + 2 ^ d') div (2 * 2 ^ d') = p * k"
    by (intro round_close) (simp add: X_def N'_def K_def D'_def)
  moreover have "p * k \<le> 2 ^ 64 - 1" using assms(3) by simp
  ultimately show ?thesis using d r by (simp add: min_absorb1)
qed

lemma f64_parse_show_nat: "f64_parse (show_nat n) = Some (f64_ratio n 1)"
proof -
  have "CHR ''.'' \<notin> set (show_nat n)"
    using show_nat_digits[of n] by (auto simp: list_all_iff is_ascii_digit_def byte_def)
  then have "split_once CHR ''.'' (show_nat n) = None" by (simp add: split_once_None)
  then show ?thesis
    using show_nat_digits[of n] by (simp add: f64_parse_def digits_value_show_nat)
qed

end
