(* ===== verification/App_File.thy ===== *)
theory App_File
  imports F64 Maps Spec_Check Settings
begin

text \<open>
  One app in \<open>grund.yaml\<close> (\<open>grund-config/src/app/file.rs\<close>): the types of the file, the way from a
  declared app to a validated spec and settings (\<open>normalize\<close>), and the way back for the dashboard's
  Copy and Download (\<open>file_app\<close>). An \<open>IndexMap\<close> is its entries in the order of insertion.
\<close>

section \<open>Maps of the file\<close>

text \<open>The visitor \<open>unique_map\<close>: the entries as they come, each name once.\<close>

fun unique_entries :: "(string \<times> 'v) list \<Rightarrow> (string \<times> 'v) list \<Rightarrow> string + (string \<times> 'v) list" where
  "unique_entries seen [] = Inr seen"
| "unique_entries seen ((name, v) # rest) =
     (if name \<in> fst ` set seen then Inl (''duplicate name '' @ quote name)
      else unique_entries (im_insert name v seen) rest)"

lemma unique_entries_distinct:
  "unique_entries seen ps = Inr qs \<Longrightarrow> distinct (map fst seen) \<Longrightarrow> qs = seen @ ps \<and> distinct (map fst qs)"
proof (induction seen ps rule: unique_entries.induct)
  case (2 seen name v rest)
  then have "name \<notin> fst ` set seen" by (auto split: if_splits)
  then have i: "im_insert name v seen = seen @ [(name, v)]" by (rule im_insert_new)
  have "distinct (map fst (im_insert name v seen))" using 2(3) \<open>name \<notin> fst ` set seen\<close> by (simp add: i)
  moreover have "unique_entries (im_insert name v seen) rest = Inr qs"
    using 2(2) \<open>name \<notin> fst ` set seen\<close> by simp
  ultimately have "qs = im_insert name v seen @ rest \<and> distinct (map fst qs)"
    by (rule 2(1)[OF \<open>name \<notin> fst ` set seen\<close>, rotated])
  then show ?case unfolding i by (metis append.assoc append_Cons append_Nil)
qed simp

section \<open>The types of the file\<close>

datatype file_backup = Backup_Off | Backup_Daily

record file_volume =
  fv_path :: string
  fv_source :: "string option"
  fv_size_gib :: "nat option"
  fv_backup :: "file_backup option"

datatype file_protocol = File_Http | File_H2c | File_Tcp

record file_port =
  fp_name :: string
  fp_port :: nat
  fp_protocol :: "file_protocol option"
  fp_public :: bool

datatype memory = Mib nat | Mem_Text string

record file_resources =
  fres_memory :: "memory option"
  fres_cpu :: "f64 option"

record file_check =
  fc_http :: "string option"
  fc_tcp :: "nat option"
  fc_port :: "nat option"
  fc_interval_ms :: "nat option"
  fc_timeout_ms :: "nat option"

record file_stop =
  fs_signal :: "string option"
  fs_grace :: "nat option"

datatype file_machine_kind = File_Own | File_Hosted

record file_placement =
  fpl_labels :: "(string \<times> string) list"
  fpl_kind :: "file_machine_kind option"
  fpl_spread_by :: "string option"
  fpl_near :: "string list"
  fpl_apart :: "string list"

definition file_placement_default :: file_placement where
  "file_placement_default =
     \<lparr>fpl_labels = [], fpl_kind = None, fpl_spread_by = None, fpl_near = [], fpl_apart = []\<rparr>"

record file_release =
  fr_max_surge :: "nat option"
  fr_max_unavailable :: "nat option"
  fr_min_ready :: "nat option"
  fr_ready_deadline :: "nat option"
  fr_drain :: "nat option"

record file_app =
  fa_image :: string
  fa_command :: "string list"
  fa_copies :: "nat option"
  fa_machines :: "string list"
  fa_placement :: "file_placement option"
  fa_reschedule_after :: "nat option"
  fa_auto_rollback :: "bool option"
  fa_ports :: "file_port list"
  fa_resources :: "file_resources option"
  fa_env :: "(string \<times> string) list"
  fa_secrets :: "(string \<times> string) list"
  fa_check :: "file_check option"
  fa_stop :: "file_stop option"
  fa_release :: "file_release option"
  fa_volumes :: "(string \<times> file_volume) list"

record declared =
  dec_name :: string
  dec_spec :: app_spec
  dec_settings :: settings_input

section \<open>From the file\<close>

definition memory_message :: string where
  "memory_message = ''write it as 512 MiB or 4 GiB''"

definition memory_factor :: "string \<Rightarrow> nat option" where
  "memory_factor unit =
     (if unit \<in> {[], ''MiB'', ''M'', ''MB''} then Some 1
      else if unit \<in> {''GiB'', ''G'', ''GB''} then Some 1024 else None)"

definition memory_mib :: "string \<Rightarrow> memory \<Rightarrow> spec_error + nat" where
  "memory_mib name memory =
     (let field = ''apps.'' @ name @ ''.resources.memory'' in
      case memory of
        Mib mib \<Rightarrow> Inr mib
      | Mem_Text text \<Rightarrow>
          let text = trim text;
              number = takeWhile (\<lambda>c. is_ascii_digit c \<or> c = CHR ''.'') text;
              unit = drop (length number) text
          in case f64_parse number of
               None \<Rightarrow> refuse field memory_message
             | Some x \<Rightarrow>
                 (case memory_factor (trim unit) of
                    None \<Rightarrow> refuse field memory_message
                  | Some factor \<Rightarrow> Inr (f64_round_to 64 (f64_times x factor))))"

definition file_protocol_of :: "file_protocol option \<Rightarrow> protocol" where
  "file_protocol_of p = (case p of None \<Rightarrow> Http | Some File_Http \<Rightarrow> Http | Some File_H2c \<Rightarrow> H2c | Some File_Tcp \<Rightarrow> Tcp)"

definition port_of_file :: "file_port \<Rightarrow> port_spec" where
  "port_of_file p =
     \<lparr>port_name = fp_name p, port_number = fp_port p, port_protocol = file_protocol_of (fp_protocol p),
      port_public = fp_public p\<rparr>"

definition resources_of_file :: "string \<Rightarrow> file_resources option \<Rightarrow> spec_error + nat \<times> nat" where
  "resources_of_file name resources =
     (case resources of
        None \<Rightarrow> Inr (0, 0)
      | Some r \<Rightarrow>
          and_then (case fres_memory r of None \<Rightarrow> Inr 0 | Some m \<Rightarrow> memory_mib name m) (\<lambda>memory.
          case fres_cpu r of
            None \<Rightarrow> Inr (memory, 0)
          | Some cpu \<Rightarrow>
              if f64_positive_upto cpu 64 then Inr (memory, f64_round_to 32 (f64_times cpu 1000))
              else refuse (''apps.'' @ name @ ''.resources.cpu'') ''use 0.01 to 64''))"

definition check_of_file :: "string \<Rightarrow> file_check option \<Rightarrow> spec_error + check_spec option" where
  "check_of_file name check =
     (case check of
        None \<Rightarrow> Inr None
      | Some c \<Rightarrow>
          and_then
            (case (fc_http c, fc_tcp c) of
               (Some path, None) \<Rightarrow> Inr (Check_Http path)
             | (None, Some _) \<Rightarrow> Inr Check_Tcp
             | _ \<Rightarrow> refuse (''apps.'' @ name @ ''.check'') ''give exactly one of http: /path or tcp: <port>'')
            (\<lambda>kind. Inr (Some
               \<lparr>check_kind = kind, check_port = unwrap_or (or_else (fc_tcp c) (fc_port c)) 0,
                check_interval_ms = unwrap_or (fc_interval_ms c) 0,
                check_timeout_ms = unwrap_or (fc_timeout_ms c) 0\<rparr>)))"

definition stop_of_file :: "file_stop option \<Rightarrow> stop_spec" where
  "stop_of_file stop =
     (case stop of
        None \<Rightarrow> \<lparr>stop_signal = [], stop_grace_seconds = 0\<rparr>
      | Some s \<Rightarrow>
          \<lparr>stop_signal = unwrap_or (fs_signal s) [], stop_grace_seconds = unwrap_or (fs_grace s) 0\<rparr>)"

definition volume_of_file :: "string \<times> file_volume \<Rightarrow> volume_spec" where
  "volume_of_file = (\<lambda>(name, v).
     \<lparr>vol_name = name, vol_path = fv_path v, vol_source = fv_source v, vol_size_gib = fv_size_gib v,
      vol_backup = (fv_backup v = Some Backup_Daily)\<rparr>)"

definition placement_input :: "file_placement option \<Rightarrow> settings_input" where
  "placement_input placement =
     (case placement of
        None \<Rightarrow> settings_input_default
      | Some p \<Rightarrow>
          settings_input_default\<lparr>
            inp_labels := fpl_labels p,
            inp_kind := (case fpl_kind p of Some File_Own \<Rightarrow> ''own'' | Some File_Hosted \<Rightarrow> ''hosted'' | None \<Rightarrow> []),
            inp_spread_by := unwrap_or (fpl_spread_by p) [], inp_near := fpl_near p,
            inp_apart := fpl_apart p\<rparr>)"

definition settings_of_file :: "file_app \<Rightarrow> settings_input" where
  "settings_of_file app =
     (let release = fa_release app in
      (placement_input (fa_placement app))\<lparr>
        inp_copies := fa_copies app,
        inp_max_surge := Option.bind release fr_max_surge,
        inp_max_unavailable := Option.bind release fr_max_unavailable,
        inp_min_ready_seconds := Option.bind release fr_min_ready,
        inp_ready_deadline_seconds := Option.bind release fr_ready_deadline,
        inp_drain_seconds := Option.bind release fr_drain,
        inp_machines := fa_machines app,
        inp_reschedule_after_seconds := fa_reschedule_after app,
        inp_auto_rollback := fa_auto_rollback app\<rparr>)"

definition spec_of_file :: "file_app \<Rightarrow> nat \<Rightarrow> nat \<Rightarrow> check_spec option \<Rightarrow> app_spec" where
  "spec_of_file app memory cpu check =
     \<lparr>spec_image = fa_image app, spec_command = fa_command app, spec_ports = map port_of_file (fa_ports app),
      spec_memory_mib = memory, spec_cpu_millis = cpu,
      spec_env = map (\<lambda>(name, v). \<lparr>env_name = name, env_value = v\<rparr>) (fa_env app),
      spec_secrets = map (\<lambda>(env, secret). \<lparr>secret_env_name = env, secret_name = secret\<rparr>) (fa_secrets app),
      spec_check = check, spec_stop = stop_of_file (fa_stop app),
      spec_volumes = map volume_of_file (fa_volumes app)\<rparr>"

text \<open>An error of the validators, under the app's name.\<close>

definition in_app :: "string \<Rightarrow> spec_error + 'a \<Rightarrow> spec_error + 'a" where
  "in_app name r =
     (case r of
        Inl e \<Rightarrow> Inl \<lparr>spec_field = ''apps.'' @ name @ ''.'' @ spec_field e, spec_problem = spec_problem e\<rparr>
      | Inr x \<Rightarrow> Inr x)"

definition block_mismatch :: "app_spec \<Rightarrow> settings_input \<Rightarrow> bool" where
  "block_mismatch spec settings \<longleftrightarrow>
     (let block = list_ex (\<lambda>v. vol_size_gib v \<noteq> None) (spec_volumes spec) in
      spec_volumes spec \<noteq> [] \<and>
      ((inp_kind settings = ''hosted'' \<and> \<not> block) \<or> (inp_kind settings = ''own'' \<and> block)))"

definition normalize_app :: "string \<Rightarrow> file_app \<Rightarrow> spec_error + declared" where
  "normalize_app name app =
     and_then (resources_of_file name (fa_resources app)) (\<lambda>(memory, cpu).
     and_then (check_of_file name (fa_check app)) (\<lambda>check.
     and_then (in_app name (spec_validate (spec_of_file app memory cpu check))) (\<lambda>spec.
     let settings = settings_of_file app in
     and_then (in_app name (settings_validate settings)) (\<lambda>_.
     if spec_volumes spec \<noteq> [] \<and> unwrap_or (inp_copies settings) 1 \<noteq> 1 then
       refuse (''apps.'' @ name @ ''.copies'') ''volumes require exactly one copy''
     else if block_mismatch spec settings then
       refuse (''apps.'' @ name @ ''.placement.kind'')
         ''hosted machines use sized block volumes; own machines use directories''
     else Inr \<lparr>dec_name = name, dec_spec = spec, dec_settings = settings\<rparr>))))"

section \<open>Back to the file\<close>

definition then_some :: "bool \<Rightarrow> 'a \<Rightarrow> 'a option" where
  "then_some b x = (if b then Some x else None)"

lemma then_some_simps [simp]: "then_some True x = Some x" "then_some False x = None"
  by (simp_all add: then_some_def)

definition file_placement_of :: "placement_rules \<Rightarrow> file_placement option" where
  "file_placement_of rules =
     then_some (\<not> placement_rules_is_default rules)
       \<lparr>fpl_labels = im_collect (rule_labels rules),
        fpl_kind = map_option (\<lambda>k. case k of Own \<Rightarrow> File_Own | Hosted \<Rightarrow> File_Hosted) (rule_kind rules),
        fpl_spread_by = rule_spread_by rules, fpl_near = rule_near rules, fpl_apart = rule_apart rules\<rparr>"

definition file_release_of :: "rollout_settings \<Rightarrow> file_release option" where
  "file_release_of r =
     (let d = rollout_settings_default;
          release =
            \<lparr>fr_max_surge = then_some (max_surge r \<noteq> max_surge d) (max_surge r),
             fr_max_unavailable = then_some (max_unavailable r \<noteq> max_unavailable d) (max_unavailable r),
             fr_min_ready = then_some (min_ready_seconds r \<noteq> min_ready_seconds d) (min_ready_seconds r),
             fr_ready_deadline =
               then_some (ready_deadline_seconds r \<noteq> ready_deadline_seconds d) (ready_deadline_seconds r),
             fr_drain = then_some (drain_seconds r \<noteq> drain_seconds d) (drain_seconds r)\<rparr>
      in then_some (fr_max_surge release \<noteq> None \<or> fr_max_unavailable release \<noteq> None \<or>
           fr_min_ready release \<noteq> None \<or> fr_ready_deadline release \<noteq> None \<or> fr_drain release \<noteq> None)
         release)"

definition file_port_of :: "port_spec \<Rightarrow> file_port" where
  "file_port_of p =
     \<lparr>fp_name = port_name p, fp_port = port_number p,
      fp_protocol =
        (case port_protocol p of Http \<Rightarrow> None | H2c \<Rightarrow> Some File_H2c | Tcp \<Rightarrow> Some File_Tcp),
      fp_public = port_public p\<rparr>"

definition file_resources_of :: "nat \<Rightarrow> nat \<Rightarrow> file_resources option" where
  "file_resources_of memory cpu =
     then_some (memory \<noteq> 512 \<or> cpu \<noteq> 1000)
       \<lparr>fres_memory = Some (if memory mod 1024 = 0 then Mem_Text (show_nat (memory div 1024) @ '' GiB'')
                            else Mem_Text (show_nat memory @ '' MiB'')),
        fres_cpu = Some (f64_ratio cpu 1000)\<rparr>"

definition file_check_of :: "port_spec list \<Rightarrow> check_spec \<Rightarrow> file_check" where
  "file_check_of ports c =
     \<lparr>fc_http = (case check_kind c of Check_Http path \<Rightarrow> Some path | Check_Tcp \<Rightarrow> None),
      fc_tcp = then_some (check_kind c = Check_Tcp) (check_port c),
      fc_port =
        (case check_kind c of
           Check_Http _ \<Rightarrow>
             if map_option port_number (first_opt ports) \<noteq> Some (check_port c) then Some (check_port c) else None
         | _ \<Rightarrow> None),
      fc_interval_ms = then_some (check_interval_ms c \<noteq> 2000) (check_interval_ms c),
      fc_timeout_ms = then_some (check_timeout_ms c \<noteq> 1000) (check_timeout_ms c)\<rparr>"

definition file_stop_of :: "stop_spec \<Rightarrow> file_stop option" where
  "file_stop_of s =
     then_some (s \<noteq> stop_default)
       \<lparr>fs_signal = then_some (stop_signal s \<noteq> ''SIGTERM'') (stop_signal s),
        fs_grace = then_some (stop_grace_seconds s \<noteq> 30) (stop_grace_seconds s)\<rparr>"

definition file_volume_of :: "volume_spec \<Rightarrow> string \<times> file_volume" where
  "file_volume_of v =
     (vol_name v, \<lparr>fv_path = vol_path v, fv_source = vol_source v, fv_size_gib = vol_size_gib v,
                   fv_backup = then_some (vol_backup v) Backup_Daily\<rparr>)"

definition file_app_of :: "app_spec \<Rightarrow> app_settings \<Rightarrow> file_app" where
  "file_app_of spec settings =
     \<lparr>fa_image = spec_image spec, fa_command = spec_command spec,
      fa_copies = then_some (set_copies settings \<noteq> 1) (set_copies settings),
      fa_machines = set_machines settings,
      fa_placement = file_placement_of (set_placement settings),
      fa_reschedule_after =
        then_some (set_reschedule_after_seconds settings \<noteq> set_reschedule_after_seconds app_settings_default)
          (set_reschedule_after_seconds settings),
      fa_auto_rollback = then_some (\<not> set_auto_rollback settings) False,
      fa_ports = map file_port_of (spec_ports spec),
      fa_resources = file_resources_of (spec_memory_mib spec) (spec_cpu_millis spec),
      fa_env = im_collect (map (\<lambda>e. (env_name e, env_value e)) (spec_env spec)),
      fa_secrets = im_collect (map (\<lambda>s. (secret_env_name s, secret_name s)) (spec_secrets spec)),
      fa_check = map_option (file_check_of (spec_ports spec)) (spec_check spec),
      fa_stop = file_stop_of (spec_stop spec),
      fa_release = file_release_of (set_rollout settings),
      fa_volumes = im_collect (map file_volume_of (spec_volumes spec))\<rparr>"

end
