(* ===== verification/App_File_Props.thy ===== *)
theory App_File_Props
  imports App_File
begin

text \<open>
  The file an app is written to declares that app: reading it back gives the same spec and the same
  settings, whatever defaults were left out.
\<close>

section \<open>Resources\<close>

lemma digit_visible: "is_ascii_digit c \<Longrightarrow> visible c"
  by (simp add: is_ascii_digit_def visible_def)

lemma takeWhile_prefix: "list_all P xs \<Longrightarrow> \<not> P y \<Longrightarrow> takeWhile P (xs @ y # ys) = xs"
  by (induction xs) auto

lemma memory_mib_text:
  assumes "0 < n" "n * k < 2 ^ 50" "memory_factor unit = Some k" "unit = ''MiB'' \<or> unit = ''GiB''"
  shows "memory_mib name (Mem_Text (show_nat n @ '' '' @ unit)) = Inr (n * k)"
proof -
  let ?p = "\<lambda>c. is_ascii_digit c \<or> c = CHR ''.''"
  have digits: "list_all is_ascii_digit (show_nat n)" "show_nat n \<noteq> []" using show_nat_digits by blast+
  have "list_all visible unit" using assms(4) by (auto simp: visible_def byte_def)
  then have unit: "trim ('' '' @ unit) = unit" using trim_space[of unit] by (simp add: trim_visible)
  have "0 < k" using assms(3) by (auto simp: memory_factor_def split: if_splits)
  have "visible (hd (show_nat n))" using digits digit_visible by (cases "show_nat n") auto
  then have "trim (show_nat n @ '' '' @ unit) = show_nat n @ '' '' @ unit"
    using digits assms(4) by (intro trim_id) (auto simp: visible_def byte_def)
  moreover have "list_all ?p (show_nat n)" using digits(1) by (simp add: list_all_iff)
  then have "takeWhile ?p (show_nat n @ '' '' @ unit) = show_nat n"
    using takeWhile_prefix[of ?p "show_nat n" "CHR '' ''" unit]
    by (simp add: is_ascii_digit_def byte_def)
  ultimately show ?thesis
    using assms unit integer_times[OF assms(1) \<open>0 < k\<close> assms(2)]
    by (simp add: memory_mib_def f64_parse_show_nat)
qed

lemma file_resources_back:
  assumes "16 \<le> m" "m \<le> 262144" "10 \<le> c" "c \<le> 64000"
  obtains m' c' where "resources_of_file name (file_resources_of m c) = Inr (m', c')"
    "fill_memory m' = Inr m" "fill_cpu c' = Inr c"
proof (cases "m = 512 \<and> c = 1000")
  case True
  then have "resources_of_file name (file_resources_of m c) = Inr (0, 0)"
    by (simp add: file_resources_of_def resources_of_file_def)
  with True that show ?thesis by (simp add: fill_resources)
next
  case False
  have cpu: "f64_positive_upto (f64_ratio c 1000) 64"
    "f64_round_to 32 (f64_times (f64_ratio c 1000) 1000) = c"
    using thousandths_round_trip[of c] assms by auto
  have "memory_mib name (if m mod 1024 = 0 then Mem_Text (show_nat (m div 1024) @ '' GiB'')
      else Mem_Text (show_nat m @ '' MiB'')) = Inr m"
  proof (cases "m mod 1024 = 0")
    case True
    then have d: "m div 1024 * 1024 = m" by (metis mult.commute mult_div_mod_eq add.right_neutral)
    then have "0 < m div 1024" using assms(1) by (cases "m div 1024") auto
    then show ?thesis
      using True d assms(2) memory_mib_text[of "m div 1024" 1024 "''GiB''" name] by (simp add: memory_factor_def)
  next
    case False
    then show ?thesis
      using assms memory_mib_text[of m 1 "''MiB''" name] by (simp add: memory_factor_def)
  qed
  then have "resources_of_file name (file_resources_of m c) = Inr (m, c)"
    using False cpu by (auto simp: file_resources_of_def resources_of_file_def)
  moreover have "fill_memory m = Inr m" "fill_cpu c = Inr c" using assms by (simp_all add: fill_resources)
  ultimately show ?thesis by (rule that)
qed

section \<open>The other parts\<close>

lemma file_check_back:
  assumes "is_none_or c (check_ok ports)" "ports_ok ports"
  obtains c' where "check_of_file name (map_option (file_check_of ports) c) = Inr c'"
    "fill_checks ports c' = Inr c"
proof (cases c)
  case None
  with that show ?thesis by (simp add: check_of_file_def fill_checks_def)
next
  case (Some k)
  with assms(1) have k: "check_ok ports k" by simp
  then have pos: "0 < check_port k" using assms(2) by (fastforce simp: check_ok_def ports_ok_def)
  have port: "list_ex (\<lambda>p. port_number p = check_port k) ports"
    using k by (simp add: check_ok_def list_ex_iff)
  let ?f = "file_check_of ports k"
  let ?d = "\<lparr>check_kind = check_kind k, check_port = unwrap_or (or_else (fc_tcp ?f) (fc_port ?f)) 0,
      check_interval_ms = unwrap_or (fc_interval_ms ?f) 0, check_timeout_ms = unwrap_or (fc_timeout_ms ?f) 0\<rparr>"
  have "check_of_file name (map_option (file_check_of ports) c) = Inr (Some ?d)"
    using Some by (cases "check_kind k") (simp_all add: check_of_file_def file_check_of_def)
  moreover have "fill_check_port ports ?d = Inr (?d\<lparr>check_port := check_port k\<rparr>)"
    using pos port
    by (cases "check_kind k"; cases ports)
      (auto simp: fill_check_port_def file_check_of_def first_opt_def)
  moreover have "fill_check_times (?d\<lparr>check_port := check_port k\<rparr>) = k"
    using k by (auto simp: fill_check_times_def check_ok_def file_check_of_def then_some_def Let_def)
  ultimately show ?thesis
    using that Some k port by (simp add: fill_checks_def fill_check_def check_ok_def Let_def)
qed

lemma file_stop_back:
  assumes "stop_signal s \<in> set STOP_SIGNALS" "1 \<le> stop_grace_seconds s" "stop_grace_seconds s \<le> 300"
  shows "fill_stop (stop_of_file (file_stop_of s)) = Inr s"
proof -
  have stop: "stop_of_file (file_stop_of s) =
      \<lparr>stop_signal = (if stop_signal s = ''SIGTERM'' then [] else stop_signal s),
       stop_grace_seconds = (if stop_grace_seconds s = 30 then 0 else stop_grace_seconds s)\<rparr>"
    by (simp add: stop_of_file_def file_stop_of_def stop_default_def then_some_def)
  have "stop_signal s \<noteq> []" using stop_signals_again[OF assms(1)] by blast
  then have "fill_stop (stop_of_file (file_stop_of s)) = fill_stop s"
    unfolding stop by (simp add: fill_stop_def Let_def)
  then show ?thesis using fill_stop_again[OF assms] by simp
qed

lemma file_ports_back: "map port_of_file (map file_port_of ports) = ports"
proof -
  have "port_of_file (file_port_of p) = p" for p :: port_spec
    by (cases p) (auto simp: port_of_file_def file_port_of_def file_protocol_of_def split: protocol.splits)
  then show ?thesis by (simp add: map_idI)
qed

lemma file_volumes_back:
  assumes "distinct (map vol_name vs)"
  shows "map volume_of_file (im_collect (map file_volume_of vs)) = vs"
proof -
  have "map fst (map file_volume_of vs) = map vol_name vs" by (simp add: file_volume_of_def)
  with assms have "im_collect (map file_volume_of vs) = map file_volume_of vs"
    by (metis im_collect_distinct)
  moreover have "volume_of_file (file_volume_of v) = v" for v :: volume_spec
    by (cases v) (simp add: volume_of_file_def file_volume_of_def then_some_def)
  ultimately show ?thesis by (simp add: map_idI)
qed

lemma file_env_back:
  assumes "distinct (map env_name es)"
  shows "map (\<lambda>(name, v). \<lparr>env_name = name, env_value = v\<rparr>)
    (im_collect (map (\<lambda>e. (env_name e, env_value e)) es)) = es"
  using assms im_collect_distinct[of "map (\<lambda>e. (env_name e, env_value e)) es"]
  by (simp add: comp_def map_idI)

lemma file_secrets_back:
  assumes "distinct (map secret_env_name es)"
  shows "map (\<lambda>(env, secret). \<lparr>secret_env_name = env, secret_name = secret\<rparr>)
    (im_collect (map (\<lambda>s. (secret_env_name s, secret_name s)) es)) = es"
  using assms im_collect_distinct[of "map (\<lambda>s. (secret_env_name s, secret_name s)) es"]
  by (simp add: comp_def map_idI)

section \<open>The spec\<close>

text \<open>The defaults fill in what the file leaves out of a validated spec.\<close>

lemma spec_validate_filled:
  assumes t: "spec_ok t" and m: "fill_memory mib = Inr (spec_memory_mib t)" "fill_cpu millis = Inr (spec_cpu_millis t)"
    and c: "fill_checks (spec_ports t) check = Inr (spec_check t)" "fill_stop stop = Inr (spec_stop t)"
  shows "spec_validate (t\<lparr>spec_memory_mib := mib, spec_cpu_millis := millis, spec_check := check,
    spec_stop := stop\<rparr>) = Inr t"
proof -
  from t obtain r where r: "image_parse (spec_image t) = Inr r" "trim (spec_image t) = spec_image t"
    by (auto simp: spec_ok_def)
  have v: "env_problem (spec_env t) = None" "secrets_problem (spec_env t) (spec_secrets t) = None"
    using t variables_None[of "spec_env t" "spec_secrets t"] by (auto simp: spec_ok_def)
  have "command_problem (spec_command t) = None" "ports_problem (spec_ports t) = None"
    "volumes_problem (spec_volumes t) = None"
    using t by (auto simp: spec_ok_def command_problem_None ports_problem_None volumes_problem_None)
  with r v c m show ?thesis by (simp add: spec_validate_def unless_def)
qed

lemma spec_of_file_back:
  assumes "spec_ok t"
  shows "spec_of_file (file_app_of t s) mib millis check =
    t\<lparr>spec_memory_mib := mib, spec_cpu_millis := millis, spec_check := check,
      spec_stop := stop_of_file (file_stop_of (spec_stop t))\<rparr>"
proof -
  have "distinct (map env_name (spec_env t))" "distinct (map secret_env_name (spec_secrets t))"
    using assms by (auto simp: spec_ok_def variables_ok_def)
  moreover have "distinct (map vol_name (spec_volumes t))"
    using assms by (simp add: spec_ok_def volumes_ok_def sorted_wrt_conj sorted_wrt_distinct)
  ultimately show ?thesis
    by (simp add: spec_of_file_def file_app_of_def file_ports_back file_env_back file_secrets_back
        file_volumes_back del: map_map)
qed

section \<open>The settings\<close>

lemma settings_validate_cong:
  assumes "positive_or (inp_copies i) 1 = positive_or (inp_copies j) 1" "settings_rollout i = settings_rollout j"
    "inp_machines i = inp_machines j"
    "positive_or (inp_reschedule_after_seconds i) 120 = positive_or (inp_reschedule_after_seconds j) 120"
    "unwrap_or (inp_auto_rollback i) True = unwrap_or (inp_auto_rollback j) True"
    "inp_labels i = inp_labels j" "inp_kind i = inp_kind j" "inp_spread_by i = inp_spread_by j"
    "inp_near i = inp_near j" "inp_apart i = inp_apart j"
  shows "settings_validate i = settings_validate j"
proof -
  have "placement_rules_validate i = placement_rules_validate j"
    using assms by (simp add: placement_rules_validate_def)
  with assms show ?thesis
    by (simp add: settings_validate_def app_settings_default_def Let_def cong: if_cong)
qed

lemma settings_of_file_fields [simp]:
  "inp_copies (settings_of_file f) = fa_copies f"
  "inp_max_surge (settings_of_file f) = Option.bind (fa_release f) fr_max_surge"
  "inp_max_unavailable (settings_of_file f) = Option.bind (fa_release f) fr_max_unavailable"
  "inp_min_ready_seconds (settings_of_file f) = Option.bind (fa_release f) fr_min_ready"
  "inp_ready_deadline_seconds (settings_of_file f) = Option.bind (fa_release f) fr_ready_deadline"
  "inp_drain_seconds (settings_of_file f) = Option.bind (fa_release f) fr_drain"
  "inp_machines (settings_of_file f) = fa_machines f"
  "inp_reschedule_after_seconds (settings_of_file f) = fa_reschedule_after f"
  "inp_auto_rollback (settings_of_file f) = fa_auto_rollback f"
  "inp_labels (settings_of_file f) = inp_labels (placement_input (fa_placement f))"
  "inp_kind (settings_of_file f) = inp_kind (placement_input (fa_placement f))"
  "inp_spread_by (settings_of_file f) = inp_spread_by (placement_input (fa_placement f))"
  "inp_near (settings_of_file f) = inp_near (placement_input (fa_placement f))"
  "inp_apart (settings_of_file f) = inp_apart (placement_input (fa_placement f))"
  by (simp_all add: settings_of_file_def Let_def)

lemma file_placement_back:
  assumes "im_collect (rule_labels p) = rule_labels p"
  shows "inp_labels (placement_input (file_placement_of p)) = rule_labels p"
    "inp_spread_by (placement_input (file_placement_of p)) = unwrap_or (rule_spread_by p) []"
    "inp_near (placement_input (file_placement_of p)) = rule_near p"
    "inp_apart (placement_input (file_placement_of p)) = rule_apart p"
  using assms by (auto simp: file_placement_of_def placement_rules_is_default_def then_some_def
      placement_input_def placement_rules_default_def settings_input_default_def)

lemma file_kind_back:
  "inp_kind (placement_input (file_placement_of p)) = unwrap_or (map_option machine_kind_as_str (rule_kind p)) []"
  by (auto simp: file_placement_of_def placement_rules_is_default_def then_some_def placement_input_def
      placement_rules_default_def settings_input_default_def machine_kind_as_str_def
      split: option.splits machine_kind.splits)

lemma file_rollout_back:
  assumes "0 < ready_deadline_seconds (set_rollout s)"
  shows "settings_rollout (settings_of_file (file_app_of t s)) = set_rollout s"
proof -
  let ?r = "set_rollout s" and ?f = "file_release_of (set_rollout s)"
  have "unwrap_or (Option.bind ?f fr_max_surge) 1 = max_surge ?r"
    "unwrap_or (Option.bind ?f fr_max_unavailable) 0 = max_unavailable ?r"
    "unwrap_or (Option.bind ?f fr_min_ready) 10 = min_ready_seconds ?r"
    "positive_or (Option.bind ?f fr_ready_deadline) 300 = ready_deadline_seconds ?r"
    "unwrap_or (Option.bind ?f fr_drain) 30 = drain_seconds ?r"
    using assms
    by (auto simp: file_release_of_def rollout_settings_default_def then_some_def positive_or_def Let_def)
  then show ?thesis
    by (simp add: settings_rollout_def file_app_of_def rollout_settings_default_def)
qed

lemma file_settings_back:
  assumes "settings_ok s" "settings_validate (as_input s) = Inr s"
  shows "settings_validate (settings_of_file (file_app_of t s)) = Inr s"
proof -
  let ?p = "set_placement s"
  have pos: "0 < set_copies s" "0 < set_reschedule_after_seconds s" "0 < ready_deadline_seconds (set_rollout s)"
    using assms(1) by (auto simp: settings_ok_def rollout_ok_def)
  have "distinct (map fst (rule_labels ?p))"
    using assms(1) by (simp add: settings_ok_def placement_ok_def labels_wf_def strict_sorted_iff)
  then have labels: "im_collect (rule_labels ?p) = rule_labels ?p" by (rule im_collect_distinct)
  have default: "positive_or (then_some (n \<noteq> d) n) d = n" if "0 < n" for n d
    using that by (simp add: positive_or_def then_some_def)
  have "settings_validate (settings_of_file (file_app_of t s)) = settings_validate (as_input s)"
  proof (rule settings_validate_cong)
    show "settings_rollout (settings_of_file (file_app_of t s)) = settings_rollout (as_input s)"
      using file_rollout_back[OF pos(3)] pos(3) by (simp add: settings_rollout_def as_input_def Let_def)
    show "positive_or (inp_copies (settings_of_file (file_app_of t s))) 1 = positive_or (inp_copies (as_input s)) 1"
      using default[OF pos(1), of 1] pos(1) by (simp add: file_app_of_def as_input_def)
    show "positive_or (inp_reschedule_after_seconds (settings_of_file (file_app_of t s))) 120 =
        positive_or (inp_reschedule_after_seconds (as_input s)) 120"
      using default[OF pos(2), of 120] pos(2) by (simp add: file_app_of_def as_input_def app_settings_default_def)
    show "unwrap_or (inp_auto_rollback (settings_of_file (file_app_of t s))) True =
        unwrap_or (inp_auto_rollback (as_input s)) True"
      by (simp add: file_app_of_def as_input_def then_some_def)
  qed (simp_all add: file_app_of_def as_input_def file_placement_back[OF labels] file_kind_back)
  with assms(2) show ?thesis by simp
qed

section \<open>The round trip\<close>

lemma file_declares:
  assumes "spec_validate given = Inr spec" "settings_validate input = Inr settings"
    "spec_volumes spec = [] \<or>
     set_copies settings = 1 \<and> \<not> block_mismatch spec (as_input settings)"
  shows "\<exists>d. normalize_app name (file_app_of spec settings) = Inr d \<and> dec_name d = name \<and>
    dec_spec d = spec \<and> settings_validate (dec_settings d) = Inr settings"
proof -
  have spec: "spec_ok spec" by (rule spec_validate_ok[OF assms(1)])
  have settings: "settings_ok settings" "settings_validate (as_input settings) = Inr settings"
    using settings_validate_ok[OF assms(2)] settings_written_back[OF assms(2)] by blast+
  let ?f = "file_app_of spec settings" and ?i = "settings_of_file (file_app_of spec settings)"
  obtain m c where r: "resources_of_file name (fa_resources ?f) = Inr (m, c)"
    "fill_memory m = Inr (spec_memory_mib spec)" "fill_cpu c = Inr (spec_cpu_millis spec)"
    using file_resources_back[of "spec_memory_mib spec" "spec_cpu_millis spec" name] spec
    by (auto simp: spec_ok_def file_app_of_def)
  obtain k where k: "check_of_file name (fa_check ?f) = Inr k" "fill_checks (spec_ports spec) k = Inr (spec_check spec)"
    using file_check_back[of "spec_check spec" "spec_ports spec" name] spec
    by (auto simp: spec_ok_def file_app_of_def)
  have stop: "fill_stop (stop_of_file (file_stop_of (spec_stop spec))) = Inr (spec_stop spec)"
    using spec by (intro file_stop_back) (auto simp: spec_ok_def)
  have v: "spec_validate (spec_of_file ?f m c k) = Inr spec"
    unfolding spec_of_file_back[OF spec] by (rule spec_validate_filled[OF spec r(2,3) k(2) stop])
  have s: "settings_validate ?i = Inr settings" by (rule file_settings_back[OF settings])
  have "inp_kind ?i = inp_kind (as_input settings)"
    by (simp add: file_app_of_def file_kind_back as_input_def)
  then have kind: "block_mismatch spec ?i = block_mismatch spec (as_input settings)"
    by (simp only: block_mismatch_def)
  have "unwrap_or (inp_copies ?i) 1 = 1" if "set_copies settings = 1"
    using that by (simp add: file_app_of_def)
  then have "spec_volumes spec = [] \<or> unwrap_or (inp_copies ?i) 1 = 1 \<and> \<not> block_mismatch spec ?i"
    unfolding kind using assms(3) by blast
  moreover have "\<not> block_mismatch spec ?i" if "spec_volumes spec = []"
    using that by (simp add: block_mismatch_def)
  ultimately show ?thesis
    using r(1) k(1) v s by (auto simp: normalize_app_def in_app_def)
qed

text \<open>
  C22: The file that the dashboard writes for an app declares that app: reading it back gives the spec
  it was written from and settings that validate to the ones it was written from, although every
  setting at its default is left out, memory is text with a unit and the CPUs a floating-point number.
\<close>

theorem file_round_trip:
  assumes "spec_validate given = Inr spec" "settings_validate input = Inr settings"
    "spec_volumes spec = [] \<or>
     set_copies settings = 1 \<and> \<not> block_mismatch spec (as_input settings)"
  shows "\<exists>d. normalize_app name (file_app_of spec settings) = Inr d \<and> dec_name d = name \<and>
    dec_spec d = spec \<and> settings_validate (dec_settings d) = Inr settings"
  by (rule file_declares[OF assms])

theorem file_round_trip_witness:
  "\<exists>t s d. spec_validate demo_spec = Inr t \<and> settings_validate settings_input_default = Inr s \<and>
     normalize_app ''db'' (file_app_of t s) = Inr d \<and> dec_spec d = t \<and>
     settings_validate (dec_settings d) = Inr s"
proof -
  let ?t = "demo_spec\<lparr>spec_memory_mib := 512, spec_cpu_millis := 1000,
      spec_stop := \<lparr>stop_signal = ''SIGINT'', stop_grace_seconds = 30\<rparr>\<rparr>"
  have t: "spec_validate demo_spec = Inr ?t" by code_simp
  have s: "settings_validate settings_input_default = Inr app_settings_default" by code_simp
  have "set_copies app_settings_default = 1 \<and> \<not> block_mismatch ?t (as_input app_settings_default)"
    by code_simp
  then show ?thesis
    using file_round_trip[OF t s, of "''db''"] t s by blast
qed

end
