(* ===== verification/Stack_Service.thy ===== *)
theory Stack_Service
  imports App_File
begin

text \<open>
  Stack files (\<open>grund-config/src/stack.rs\<close>): the types, a service as the file gives it, connection
  references, and the checks of one service on its own. The deserialiser of YAML fields is outside;
  what the file's own code does with the decoded fields is \<open>service_of_input\<close>.
\<close>

section \<open>The types\<close>

text \<open>\<open>stack::MAX_FILE_BYTES\<close>; the app file has its own, smaller one.\<close>

definition STACK_FILE_BYTES :: nat where "STACK_FILE_BYTES = 1024 * 1024"
definition MAX_SERVICES :: nat where "MAX_SERVICES = 10"

record public_target =
  pt_service :: string
  pt_port :: string

datatype restart = Rolling | Exclusive

record stack_service =
  sv_template :: "string option"
  sv_data_volume :: "string option"
  sv_depends_on :: "string list"
  sv_restart :: "restart option"
  sv_app :: file_app

type_synonym services = "(string \<times> stack_service) list"

record stack_definition =
  sd_name :: string
  sd_machines :: "string list"
  sd_placement :: "file_placement option"
  sd_public :: "public_target option"
  sd_services :: services

record connection_ref =
  ref_env :: string
  ref_service :: string
  ref_output :: string

section \<open>A service as the file gives it\<close>

record private_port =
  pp_name :: string
  pp_port :: nat
  pp_protocol :: "file_protocol option"

record service_input =
  si_template :: "string option"
  si_data_volume :: "string option"
  si_image :: "string option"
  si_command :: "string list option"
  si_env :: "(string \<times> string) list option"
  si_secrets :: "(string \<times> string) list option"
  si_check :: "file_check option"
  si_depends_on :: "string list"
  si_restart :: "restart option"
  si_ports :: "private_port list option"
  si_app :: file_app

record hard_placement =
  hp_labels :: "(string \<times> string) list"
  hp_kind :: "file_machine_kind option"

definition optional_placement :: "hard_placement \<Rightarrow> file_placement option" where
  "optional_placement p =
     Some (file_placement_default\<lparr>fpl_labels := hp_labels p, fpl_kind := hp_kind p\<rparr>)"

definition port_of_private :: "private_port \<Rightarrow> file_port" where
  "port_of_private p =
     \<lparr>fp_name = pp_name p, fp_port = pp_port p, fp_protocol = pp_protocol p, fp_public = False\<rparr>"

definition service_of_input :: "service_input \<Rightarrow> string + stack_service" where
  "service_of_input i =
     (if si_template i \<noteq> None \<and>
         (si_image i \<noteq> None \<or> si_command i \<noteq> None \<or> si_env i \<noteq> None \<or> si_secrets i \<noteq> None \<or>
          si_check i \<noteq> None \<or> si_ports i \<noteq> None)
      then Inl ''template image, command, ports, env, secrets and readiness come from the catalogue''
      else Inr
        \<lparr>sv_template = si_template i, sv_data_volume = si_data_volume i, sv_depends_on = si_depends_on i,
         sv_restart = si_restart i,
         sv_app = (si_app i)\<lparr>
           fa_image := unwrap_or (si_image i) [], fa_command := unwrap_or (si_command i) [],
           fa_env := unwrap_or (si_env i) [], fa_secrets := unwrap_or (si_secrets i) [],
           fa_check := si_check i, fa_ports := map port_of_private (unwrap_or (si_ports i) [])\<rparr>\<rparr>)"

text \<open>A loop whose body may fail.\<close>

fun try_each :: "('a \<Rightarrow> 'e + unit) \<Rightarrow> 'a list \<Rightarrow> 'e + unit" where
  "try_each f [] = Inr ()"
| "try_each f (x # xs) = and_then (f x) (\<lambda>_. try_each f xs)"

lemma try_each_Inr: "try_each f xs = Inr () \<longleftrightarrow> list_all (\<lambda>x. f x = Inr ()) xs"
  by (induction xs) (auto simp: and_then_Inr)

section \<open>Names and references\<close>

definition stack_name_message :: string where
  "stack_name_message =
     ''start with a lowercase letter; use lowercase letters, digits and single hyphens, at most 32 characters''"

definition stack_name :: "string \<Rightarrow> string \<Rightarrow> spec_error + unit" where
  "stack_name name field =
     (case app_name_parse name of
        Inl error \<Rightarrow> refuse field (spec_problem error)
      | Inr parsed \<Rightarrow>
          if parsed \<noteq> name \<or> \<not> is_some_and (first_opt name) is_ascii_lowercase
          then refuse field stack_name_message
          else Inr ())"

definition ref_open :: string where "ref_open = ''${{''"
definition ref_close :: string where "ref_close = ''}}''"
definition ref_escape :: string where "ref_escape = ''$${{''"

definition outputs :: "string list" where
  "outputs = [''url'', ''host'', ''port'', ''access_key_id'', ''secret_access_key'', ''region'']"

definition reference :: "string \<Rightarrow> string \<Rightarrow> string \<Rightarrow> spec_error + connection_ref option" where
  "reference env val field =
     (if starts_with ref_escape val \<or> \<not> contains_str ref_open val then Inr None
      else case Option.bind (strip_prefix ref_open val) (strip_suffix ref_close) of
        None \<Rightarrow>
          refuse field ''a connection reference must be the complete value, such as ${{ postgres.url }}''
      | Some expression \<Rightarrow>
          (case split_once CHR ''.'' (trim expression) of
             None \<Rightarrow> refuse field ''use ${{ service.url }}, ${{ service.host }} or ${{ service.port }}''
           | Some (service, output) \<Rightarrow>
               and_then (stack_name service field) (\<lambda>_.
               if output \<notin> set outputs then
                 refuse field
                   ''the connection output must be url, host, port, access_key_id, secret_access_key or region''
               else Inr (Some \<lparr>ref_env = env, ref_service = service, ref_output = output\<rparr>))))"

section \<open>One service\<close>

definition service_restart :: "stack_service \<Rightarrow> app_spec \<Rightarrow> restart" where
  "service_restart s spec =
     unwrap_or (sv_restart s) (if spec_volumes spec = [] then Rolling else Exclusive)"

text \<open>\<open>max_surge\<close> or \<open>max_unavailable\<close> given.\<close>

definition sets_rollout :: "file_app \<Rightarrow> bool" where
  "sets_rollout app \<longleftrightarrow>
     is_some_and (fa_release app) (\<lambda>r. fr_max_surge r \<noteq> None \<or> fr_max_unavailable r \<noteq> None)"

definition several_copies :: "file_app \<Rightarrow> bool" where
  "several_copies app \<longleftrightarrow> is_some_and (fa_copies app) (\<lambda>n. n \<noteq> 1)"

text \<open>What a template service may say about its volume: the backup policy of \<open>data\<close>.\<close>

definition overlay_only :: "string \<times> file_volume \<Rightarrow> bool" where
  "overlay_only = (\<lambda>(key, v). \<not> (key \<noteq> ''data'' \<or> fv_path v \<noteq> [] \<or> fv_source v \<noteq> None \<or> fv_size_gib v \<noteq> None))"

definition template_validate :: "stack_service \<Rightarrow> string \<Rightarrow> spec_error + unit" where
  "template_validate s field =
     (let app = sv_app s in
      if fa_image app \<noteq> [] \<or> fa_command app \<noteq> [] \<or> fa_ports app \<noteq> [] \<or> fa_env app \<noteq> [] \<or>
         fa_secrets app \<noteq> [] \<or> fa_check app \<noteq> None then
        refuse field ''template command, ports, env, secrets and readiness come from the catalogue''
      else if several_copies app then
        refuse (field @ ''.copies'') ''template services require exactly one copy''
      else
        (case List.find (\<lambda>v. \<not> overlay_only v) (fa_volumes app) of
           Some (key, _) \<Rightarrow>
             refuse (field @ ''.volumes.'' @ key)
               ''templates allow only volumes.data.backup as a policy overlay''
         | None \<Rightarrow> Inr ()))"

definition exclusive_validate :: "file_app \<Rightarrow> string \<Rightarrow> spec_error + unit" where
  "exclusive_validate app field =
     (if several_copies app then
        refuse (field @ ''.copies'') ''exclusive restart requires exactly one copy''
      else if sets_rollout app then
        refuse (field @ ''.release'') ''exclusive restart does not accept max_surge or max_unavailable''
      else Inr ())"

definition owns_volumes :: "stack_service \<Rightarrow> bool" where
  "owns_volumes s \<longleftrightarrow> sv_template s = None \<and> fa_volumes (sv_app s) \<noteq> []"

definition service_validate :: "stack_service \<Rightarrow> string \<Rightarrow> spec_error + unit" where
  "service_validate s field =
     (let app = sv_app s in
      if (fa_image app = []) = (sv_template s = None) then
        refuse field ''give exactly one of image or template''
      else if is_some_and (sv_template s) (\<lambda>key. trim key = []) then
        refuse (field @ ''.template'') ''name a catalogue template''
      else if is_some_and (sv_data_volume s) (\<lambda>v. sv_template s = None \<or> app_name_parse v \<noteq> Inr v) then
        refuse (field @ ''.data_volume'')
          ''select an app-owned volume name only for a stateful template''
      else if fa_machines app \<noteq> [] \<or> fa_placement app \<noteq> None \<or> fa_reschedule_after app \<noteq> None \<or>
         fa_auto_rollback app \<noteq> None then
        refuse field ''placement, rescheduling and rollback are controlled by the stack''
      else if list_ex fp_public (fa_ports app) then
        refuse (field @ ''.ports'') ''use stack.public instead of service public ports''
      else if fa_copies app = Some 0 then refuse (field @ ''.copies'') ''use 1 to 20 copies''
      else
        and_then (if sv_template s \<noteq> None then template_validate s field else Inr ()) (\<lambda>_.
        if owns_volumes s \<and> sv_restart s = Some Rolling then
          refuse (field @ ''.restart'') ''volume owners require exclusive restart''
        else if sv_restart s = Some Exclusive \<or> owns_volumes s then exclusive_validate app field
        else Inr ()))"

end
