(* ===== verification/Stack_File.thy ===== *)
theory Stack_File
  imports Stack_Service
begin

text \<open>
  A whole stack file (\<open>impl Definition\<close> of \<open>grund-config/src/stack.rs\<close>): the expansion of one service
  to a validated app, the checks of the definition and its dependency graph. The number of bytes that
  \<open>serde_json\<close> writes for a value is a parameter, as the lengths of the chunks it writes.
\<close>

section \<open>The size of the expansion\<close>

text \<open>\<open>Limit\<close>, the writer that counts: whether all chunks fit.\<close>

fun limit_writes :: "nat \<Rightarrow> nat list \<Rightarrow> bool" where
  "limit_writes written [] \<longleftrightarrow> True"
| "limit_writes written (n # ns) \<longleftrightarrow>
     (let written = min (written + n) (2 ^ 64 - 1) in written \<le> STACK_FILE_BYTES \<and> limit_writes written ns)"

definition validate_expanded :: "nat list \<Rightarrow> spec_error + unit" where
  "validate_expanded chunks =
     (if limit_writes 0 chunks then Inr () else refuse ''stack'' ''expanded stack exceeds 1 MiB'')"

type_synonym expansion = "app_spec \<times> app_settings \<times> connection_ref list"

section \<open>The app of a service\<close>

definition overlay_resources :: "app_spec \<Rightarrow> file_resources option \<Rightarrow> file_resources option \<Rightarrow> file_resources option" where
  "overlay_resources spec overlay target =
     (case overlay of
        None \<Rightarrow> target
      | Some r \<Rightarrow>
          let t = unwrap_or target
                \<lparr>fres_memory = Some (Mib (spec_memory_mib spec)),
                 fres_cpu = Some (f64_ratio (spec_cpu_millis spec) 1000)\<rparr>
          in Some \<lparr>fres_memory = or_else (fres_memory r) (fres_memory t),
                   fres_cpu = or_else (fres_cpu r) (fres_cpu t)\<rparr>)"

definition overlay_stop :: "app_spec \<Rightarrow> file_stop option \<Rightarrow> file_stop option \<Rightarrow> file_stop option" where
  "overlay_stop spec overlay target =
     (case overlay of
        None \<Rightarrow> target
      | Some s \<Rightarrow>
          Some \<lparr>fs_signal = or_else (fs_signal s) (Some (stop_signal (spec_stop spec))),
                fs_grace = or_else (fs_grace s) (Some (stop_grace_seconds (spec_stop spec)))\<rparr>)"

fun overlay_volumes ::
  "string \<Rightarrow> (string \<times> file_volume) list \<Rightarrow> (string \<times> file_volume) list \<Rightarrow>
   spec_error + (string \<times> file_volume) list" where
  "overlay_volumes field [] volumes = Inr volumes"
| "overlay_volumes field ((key, overlay) # overlays) volumes =
     (if map_of volumes key = None then
        refuse (field @ ''.volumes.'' @ key) ''the catalogue template has no data volume''
      else overlay_volumes field overlays
        (map (\<lambda>(k, v). (k, if k = key \<and> fv_backup overlay \<noteq> None
                           then v\<lparr>fv_backup := fv_backup overlay\<rparr> else v)) volumes))"

definition select_volume ::
  "string \<Rightarrow> string option \<Rightarrow> (string \<times> file_volume) list \<Rightarrow> spec_error + (string \<times> file_volume) list" where
  "select_volume field selected volumes =
     (case selected of
        None \<Rightarrow> Inr volumes
      | Some name \<Rightarrow>
          (case map_of volumes ''data'' of
             None \<Rightarrow> refuse (field @ ''.data_volume'') ''the catalogue template has no data volume''
           | Some volume \<Rightarrow> Inr (im_insert name volume (filter (\<lambda>(k, _). k \<noteq> ''data'') volumes))))"

text \<open>A template's app: the catalogue's spec with what the service may overlay.\<close>

definition template_app :: "stack_service \<Rightarrow> string \<Rightarrow> app_spec \<Rightarrow> spec_error + file_app" where
  "template_app s field catalogue =
     and_then (spec_validate catalogue) (\<lambda>spec.
     let app = file_app_of spec app_settings_default in
     and_then (overlay_volumes field (fa_volumes (sv_app s)) (fa_volumes app)) (\<lambda>volumes.
     and_then (select_volume field (sv_data_volume s) volumes) (\<lambda>volumes.
     Inr (app\<lparr>fa_resources := overlay_resources spec (fa_resources (sv_app s)) (fa_resources app),
              fa_copies := fa_copies (sv_app s),
              fa_stop := overlay_stop spec (fa_stop (sv_app s)) (fa_stop app),
              fa_release := fa_release (sv_app s),
              fa_volumes := volumes,
              fa_ports := map (\<lambda>p. p\<lparr>fp_public := False\<rparr>) (fa_ports app)\<rparr>))))"

definition service_app :: "stack_service \<Rightarrow> string \<Rightarrow> app_spec option \<Rightarrow> spec_error + file_app" where
  "service_app s field catalogue =
     (case (sv_template s, catalogue) of
        (None, None) \<Rightarrow> Inr (sv_app s)
      | (Some _, Some spec) \<Rightarrow> template_app s field spec
      | (Some _, None) \<Rightarrow>
          refuse (field @ ''.template'') ''the server must resolve an enabled catalogue template''
      | (None, Some _) \<Rightarrow> refuse field ''an image service cannot receive a catalogue spec'')"

section \<open>The expansion of one service\<close>

text \<open>\<open>str::replacen\<close> with a count of one.\<close>

fun replace_first :: "string \<Rightarrow> string \<Rightarrow> string \<Rightarrow> string" where
  "replace_first p t [] = (if p = [] then t else [])"
| "replace_first p t (c # s) =
     (if starts_with p (c # s) then t @ drop (length p) (c # s) else c # replace_first p t s)"

definition map_field :: "(string \<Rightarrow> string) \<Rightarrow> spec_error + 'a \<Rightarrow> spec_error + 'a" where
  "map_field f r =
     (case r of
        Inl e \<Rightarrow> Inl \<lparr>spec_field = f (spec_field e), spec_problem = spec_problem e\<rparr>
      | Inr x \<Rightarrow> Inr x)"

definition stack_settings :: "stack_definition \<Rightarrow> settings_input \<Rightarrow> settings_input" where
  "stack_settings d input =
     (let placement = placement_input (sd_placement d) in
      input\<lparr>inp_machines := sd_machines d, inp_labels := inp_labels placement,
            inp_kind := inp_kind placement, inp_auto_rollback := Some False\<rparr>)"

definition restart_problem ::
  "string \<Rightarrow> restart \<Rightarrow> file_app \<Rightarrow> app_spec \<Rightarrow> app_settings \<Rightarrow> spec_error option" where
  "restart_problem field restart app spec settings =
     (if spec_volumes spec \<noteq> [] \<and> restart \<noteq> Exclusive then
        problem (field @ ''.restart'') ''volume owners require exclusive restart''
      else if restart = Exclusive \<and> set_copies settings \<noteq> 1 then
        problem (field @ ''.copies'') ''exclusive restart requires exactly one copy''
      else if restart = Exclusive \<and> sets_rollout app then
        problem (field @ ''.release'') ''exclusive restart does not accept max_surge or max_unavailable''
      else if restart = Rolling \<and> max_surge (set_rollout settings) = 0 then
        problem (field @ ''.release.max_surge'') ''rolling stack services require max_surge of at least 1''
      else None)"

definition sibling_message :: string where
  "sibling_message = ''connection references require an existing sibling and an explicit depends_on entry''"

definition sibling :: "services \<Rightarrow> stack_service \<Rightarrow> connection_ref \<Rightarrow> bool" where
  "sibling services s r \<longleftrightarrow> map_of services (ref_service r) \<noteq> None \<and> ref_service r \<in> set (sv_depends_on s)"

definition unescape :: "string \<Rightarrow> string" where
  "unescape val = (if starts_with ref_escape val then tl val else val)"

fun expand_env ::
  "services \<Rightarrow> stack_service \<Rightarrow> string \<Rightarrow> env_var list \<Rightarrow> spec_error + env_var list \<times> connection_ref list" where
  "expand_env services s field [] = Inr ([], [])"
| "expand_env services s field (e # es) =
     (let at = field @ ''.env.'' @ env_name e in
      and_then (reference (env_name e) (env_value e) at) (\<lambda>r.
      case r of
        Some ref \<Rightarrow>
          if \<not> sibling services s ref then refuse at sibling_message
          else and_then (expand_env services s field es) (\<lambda>(vs, refs). Inr (e # vs, ref # refs))
      | None \<Rightarrow>
          and_then (expand_env services s field es) (\<lambda>(vs, refs).
            Inr (e\<lparr>env_value := unescape (env_value e)\<rparr> # vs, refs))))"

definition literals :: "env_var list \<Rightarrow> connection_ref list \<Rightarrow> env_var list" where
  "literals env refs = filter (\<lambda>e. \<not> list_ex (\<lambda>r. ref_env r = env_name e) refs) env"

definition selected :: "stack_definition \<Rightarrow> string \<Rightarrow> port_spec \<Rightarrow> bool" where
  "selected d service port \<longleftrightarrow>
     is_some_and (sd_public d) (\<lambda>p. pt_service p = service \<and> pt_port p = port_name port)"

definition validate_public :: "stack_definition \<Rightarrow> string \<Rightarrow> app_spec \<Rightarrow> spec_error + unit" where
  "validate_public d service spec =
     (if is_some_and (sd_public d) (\<lambda>p. pt_service p = service \<and>
           \<not> list_ex (\<lambda>port. port_name port = pt_port p \<and> port_protocol port \<in> {Http, H2c}) (spec_ports spec))
      then refuse ''stack.public.port'' ''select a declared HTTP or h2c port''
      else Inr ())"

definition expand_service ::
  "(expansion \<Rightarrow> nat list) \<Rightarrow> stack_definition \<Rightarrow> string \<Rightarrow> app_spec option \<Rightarrow> spec_error + expansion" where
  "expand_service json d name catalogue =
     (let field = ''stack.services.'' @ name in
      case map_of (sd_services d) name of
        None \<Rightarrow> refuse field ''service is not declared''
      | Some s \<Rightarrow>
          and_then (service_validate s field) (\<lambda>_.
          and_then (service_app s field catalogue) (\<lambda>app.
          and_then (map_field (replace_first (''apps.'' @ name) field) (normalize_app name app)) (\<lambda>declared.
          and_then
            (map_field (\<lambda>f. field @ ''.'' @ f) (settings_validate (stack_settings d (dec_settings declared))))
            (\<lambda>settings.
          let spec = dec_spec declared in
          unless (restart_problem field (service_restart s spec) app spec settings)
            (and_then (expand_env (sd_services d) s field (spec_env spec)) (\<lambda>(env, refs).
             let spec = spec\<lparr>spec_env := literals env refs\<rparr> in
             and_then (validate_public d name spec) (\<lambda>_.
             let spec = spec\<lparr>spec_ports := map (\<lambda>p. p\<lparr>port_public := selected d name p\<rparr>) (spec_ports spec)\<rparr> in
             and_then (validate_expanded (json (spec, settings, refs))) (\<lambda>_.
             Inr (spec, settings, refs))))))))))"

section \<open>The checks of a definition\<close>

fun dependencies_ok :: "services \<Rightarrow> string \<Rightarrow> string list \<Rightarrow> string list \<Rightarrow> bool" where
  "dependencies_ok services own seen [] \<longleftrightarrow> True"
| "dependencies_ok services own seen (d # ds) \<longleftrightarrow>
     \<not> (d = own \<or> map_of services d = None \<or> d \<in> set seen) \<and> dependencies_ok services own (d # seen) ds"

definition env_reference_check ::
  "services \<Rightarrow> stack_service \<Rightarrow> string \<Rightarrow> string \<times> string \<Rightarrow> spec_error + unit" where
  "env_reference_check services s field = (\<lambda>(env, val).
     let at = field @ ''.env.'' @ env in
     and_then (reference env val at) (\<lambda>r.
     if is_some_and r (\<lambda>ref. \<not> sibling services s ref) then refuse at sibling_message else Inr ()))"

definition service_check :: "(expansion \<Rightarrow> nat list) \<Rightarrow> stack_definition \<Rightarrow> string \<times> stack_service \<Rightarrow> spec_error + unit" where
  "service_check json d = (\<lambda>(name, s).
     let field = ''stack.services.'' @ name in
     and_then (stack_name name field) (\<lambda>_.
     and_then (service_validate s field) (\<lambda>_.
     if \<not> dependencies_ok (sd_services d) name [] (sv_depends_on s) then
       refuse (field @ ''.depends_on'') ''name distinct sibling services, never the service itself''
     else
       and_then (try_each (env_reference_check (sd_services d) s field) (fa_env (sv_app s))) (\<lambda>_.
       if sv_template s = None then and_then (expand_service json d name None) (\<lambda>_. Inr ())
       else Inr ()))))"

definition placement_check :: "stack_definition \<Rightarrow> spec_error + unit" where
  "placement_check d =
     (if is_some_and (sd_placement d) (\<lambda>p. fpl_kind p = Some File_Hosted) then
        refuse ''stack.placement.kind''
          (''stacks run on one existing machine; hosted machine rental for stacks isn'' @
           [CHR 0x27] @ ''t available yet'')
      else if is_some_and (sd_placement d)
          (\<lambda>p. fpl_spread_by p \<noteq> None \<or> fpl_near p \<noteq> [] \<or> fpl_apart p \<noteq> []) then
        refuse ''stack.placement'' ''only kind and labels are allowed for co-located stacks''
      else
        and_then
          (map_field (\<lambda>f. ''stack.'' @ f)
            (settings_validate ((placement_input (sd_placement d))\<lparr>inp_machines := sd_machines d\<rparr>)))
          (\<lambda>_. Inr ()))"

text \<open>
  The dependency graph: passes over the services in the order of the file, each marking those whose
  dependencies are marked, until every service is marked or a pass marks none. The loop has no
  bound in the code; here it may also not return.
\<close>

definition ready_pass :: "services \<Rightarrow> string set \<Rightarrow> string set" where
  "ready_pass services ready =
     fold (\<lambda>(name, s) ready.
       if list_all (\<lambda>d. d \<in> ready) (sv_depends_on s) then insert name ready else ready) services ready"

partial_function (option) ready_loop :: "services \<Rightarrow> string set \<Rightarrow> bool option" where
  "ready_loop services ready =
     (let previous = card ready; ready = ready_pass services ready in
      if card ready = length services then Some True
      else if card ready = previous then Some False
      else ready_loop services ready)"

declare ready_loop.simps [code]

definition public_check :: "(expansion \<Rightarrow> nat list) \<Rightarrow> stack_definition \<Rightarrow> spec_error + unit" where
  "public_check json d =
     (case sd_public d of
        None \<Rightarrow> Inr ()
      | Some public \<Rightarrow>
          (case map_of (sd_services d) (pt_service public) of
             None \<Rightarrow> refuse ''stack.public.service'' ''name a declared service''
           | Some s \<Rightarrow>
               if sv_template s = None then
                 and_then (expand_service json d (pt_service public) None) (\<lambda>(spec, _, _).
                   validate_public d (pt_service public) spec)
               else if pt_port public = [] then refuse ''stack.public.port'' ''name an HTTP or h2c port''
               else Inr ()))"

definition declaration_check :: "(expansion \<Rightarrow> nat list) \<Rightarrow> stack_definition \<Rightarrow> spec_error + unit" where
  "declaration_check json d =
     and_then (stack_name (sd_name d) ''stack.name'') (\<lambda>_.
     if sd_name d = ''machines'' then
       refuse ''stack.name'' ''machines is reserved for machine DNS names''
     else if sd_services d = [] \<or> length (sd_services d) > MAX_SERVICES then
       refuse ''stack.services'' ''declare between 1 and 10 services''
     else
       and_then (placement_check d) (\<lambda>_. try_each (service_check json d) (sd_services d)))"

definition definition_validate ::
  "(expansion \<Rightarrow> nat list) \<Rightarrow> (stack_definition \<Rightarrow> nat list) \<Rightarrow> stack_definition \<Rightarrow> (spec_error + unit) option" where
  "definition_validate json raw d =
     (case declaration_check json d of
        Inl e \<Rightarrow> Some (Inl e)
      | Inr _ \<Rightarrow>
          (case ready_loop (sd_services d) {} of
             None \<Rightarrow> None
           | Some False \<Rightarrow> Some (refuse ''stack.services'' ''dependency graph contains a cycle'')
           | Some True \<Rightarrow>
               Some (and_then (public_check json d) (\<lambda>_. validate_expanded (raw d)))))"

end
