(* ===== verification/Stack_File_Props.thy ===== *)
theory Stack_File_Props
  imports Stack_File
begin

text \<open>
  Stack files: the dependency check always returns and accepts exactly the graphs that can be started
  in some order, and an accepted service expands to a valid app placed like its siblings.
\<close>

section \<open>Start orders\<close>

text \<open>An order in which every service comes after the ones it depends on.\<close>

fun start_order :: "services \<Rightarrow> string list \<Rightarrow> string list \<Rightarrow> bool" where
  "start_order services started [] \<longleftrightarrow> True"
| "start_order services started (n # ns) \<longleftrightarrow>
     is_some_and (map_of services n) (\<lambda>s. list_all (\<lambda>d. d \<in> set started) (sv_depends_on s)) \<and>
     start_order services (n # started) ns"

definition startable :: "services \<Rightarrow> string list \<Rightarrow> bool" where
  "startable services order \<longleftrightarrow>
     distinct order \<and> set order = fst ` set services \<and> start_order services [] order"

lemma start_order_append:
  "start_order services started (xs @ ys) \<longleftrightarrow>
   start_order services started xs \<and> start_order services (rev xs @ started) ys"
  by (induction xs arbitrary: started) simp_all

text \<open>The services marked so far can be started in some order.\<close>

definition grounded :: "services \<Rightarrow> string set \<Rightarrow> bool" where
  "grounded services ready \<longleftrightarrow> (\<exists>order. distinct order \<and> set order = ready \<and> start_order services [] order)"

lemma grounded_empty: "grounded services {}"
  by (auto simp: grounded_def intro: exI[of _ "[]"])

lemma grounded_insert:
  assumes "grounded services ready" "map_of services n = Some s" "set (sv_depends_on s) \<subseteq> ready"
  shows "grounded services (insert n ready)"
proof (cases "n \<in> ready")
  case True
  with assms(1) show ?thesis by (simp add: insert_absorb)
next
  case False
  obtain order where o: "distinct order" "set order = ready" "start_order services [] order"
    using assms(1) by (auto simp: grounded_def)
  have "start_order services [] (order @ [n])"
    using o assms by (auto simp: start_order_append list_all_iff)
  with o False show ?thesis by (auto simp: grounded_def intro!: exI[of _ "order @ [n]"])
qed

section \<open>The passes\<close>

lemma ready_pass_Cons:
  "ready_pass ((n, s) # services) ready =
   ready_pass services (if list_all (\<lambda>d. d \<in> ready) (sv_depends_on s) then insert n ready else ready)"
  by (simp add: ready_pass_def)

lemma ready_pass_bounds: "ready \<subseteq> ready_pass services ready \<and> ready_pass services ready \<subseteq> ready \<union> fst ` set services"
proof (induction services arbitrary: ready)
  case (Cons p services)
  obtain n s where p: "p = (n, s)" by fastforce
  show ?case
    using Cons[of "insert n ready"] Cons[of ready] by (auto simp: p ready_pass_Cons)
qed (simp add: ready_pass_def)

lemma ready_pass_marks:
  "(n, s) \<in> set services \<Longrightarrow> set (sv_depends_on s) \<subseteq> ready \<Longrightarrow> n \<in> ready_pass services ready"
proof (induction services arbitrary: ready)
  case (Cons p services)
  obtain m t where p: "p = (m, t)" by fastforce
  let ?r = "if list_all (\<lambda>d. d \<in> ready) (sv_depends_on t) then insert m ready else ready"
  show ?case
  proof (cases "(n, s) = p")
    case True
    then have "n \<in> ?r" using Cons.prems by (auto simp: p list_all_iff)
    then show ?thesis using ready_pass_bounds[of ?r services] by (auto simp: p ready_pass_Cons)
  next
    case False
    have "set (sv_depends_on s) \<subseteq> ?r" using Cons.prems by auto
    with Cons False show ?thesis by (auto simp: p ready_pass_Cons)
  qed
qed simp

lemma ready_pass_grounded:
  assumes "distinct (map fst services)" "grounded services ready"
  shows "grounded services (ready_pass services ready)"
proof -
  have "set rest \<subseteq> set services \<Longrightarrow> grounded services r \<Longrightarrow> grounded services (ready_pass rest r)" for rest r
  proof (induction rest arbitrary: r)
    case (Cons p rest)
    obtain n s where p: "p = (n, s)" by fastforce
    have "map_of services n = Some s" using Cons.prems(1) assms(1) by (auto simp: p)
    then have "grounded services (if list_all (\<lambda>d. d \<in> r) (sv_depends_on s) then insert n r else r)"
      using Cons.prems(2) grounded_insert by (auto simp: list_all_iff subset_iff)
    with Cons show ?case by (auto simp: p ready_pass_Cons)
  qed (simp add: ready_pass_def)
  then show ?thesis using assms(2) by simp
qed

text \<open>When a pass marks nothing new, no order can continue past the marked services.\<close>

lemma stuck_order:
  assumes "ready_pass services ready = ready" "start_order services started order" "set started \<subseteq> ready"
  shows "set order \<subseteq> ready"
  using assms(2,3)
proof (induction order arbitrary: started)
  case (Cons n order)
  then obtain s where s: "map_of services n = Some s" "set (sv_depends_on s) \<subseteq> set started"
    by (auto simp: is_some_and_def list_all_iff split: option.splits)
  then have "n \<in> ready"
    using ready_pass_marks[of n s services ready] Cons.prems assms(1) by (auto dest: map_of_SomeD)
  then show ?case using Cons.IH[of "n # started"] Cons.prems by simp
qed simp

lemma ready_loop_decides:
  assumes "distinct (map fst services)"
  shows "ready \<subseteq> fst ` set services \<Longrightarrow> grounded services ready \<Longrightarrow>
    ready_loop services ready = Some (\<exists>order. startable services order)"
proof (induction "length services - card ready" arbitrary: ready rule: less_induct)
  case less
  let ?names = "fst ` set services" and ?next = "ready_pass services ready"
  have fin: "finite ?names" "card ?names = length services"
    using distinct_card[OF assms] by simp_all
  have sub: "ready \<subseteq> ?next" "?next \<subseteq> ?names" using ready_pass_bounds[of ready services] less.prems(1) by auto
  have finite: "finite ?next" "finite ready"
    using finite_subset[OF sub(2) fin(1)] finite_subset[OF less.prems(1) fin(1)] by simp_all
  have ground: "grounded services ?next" by (rule ready_pass_grounded[OF assms less.prems(2)])
  consider (all) "card ?next = length services" | (stuck) "card ?next \<noteq> length services" "card ?next = card ready"
    | (more) "card ?next \<noteq> length services" "card ?next \<noteq> card ready" by blast
  then show ?case
  proof cases
    case all
    then have "?next = ?names" using fin sub(2) by (simp add: card_subset_eq)
    with ground have "\<exists>order. startable services order" by (auto simp: grounded_def startable_def)
    with all show ?thesis by (simp add: ready_loop.simps)
  next
    case stuck
    have same: "?next = ready" using card_subset_eq[OF finite(1) sub(1)] stuck(2) by simp
    have "\<not> startable services order" for order
    proof
      assume o: "startable services order"
      then have "?names \<subseteq> ready" using stuck_order[OF same, of "[]" order] by (simp add: startable_def)
      then have "?next = ?names" using sub same by blast
      with stuck(1) fin show False by simp
    qed
    with stuck show ?thesis by (simp add: ready_loop.simps)
  next
    case more
    have "card ready < card ?next" using more(2) card_mono[OF finite(1) sub(1)] by simp
    moreover have "card ?next \<le> length services" using card_mono[OF fin(1) sub(2)] fin(2) by simp
    ultimately have "length services - card ?next < length services - card ready" by simp
    from less.hyps[OF this sub(2) ground] more show ?thesis by (simp add: ready_loop.simps[of services ready])
  qed
qed

text \<open>
  C23: Checking a stack file always comes to an end, although the loop over the dependencies has no
  bound: a definition whose services have distinct names is accepted when its declarations are in
  order, its services can be started in some order in which each comes after those it depends on,
  and its public port and its size are in order; it is refused for a cycle exactly when there is no
  such order.
\<close>

theorem stack_validation_returns:
  assumes "distinct (map fst (sd_services d))"
  shows "definition_validate json raw d = Some
    (and_then (declaration_check json d) (\<lambda>_.
     if \<exists>order. startable (sd_services d) order
     then and_then (public_check json d) (\<lambda>_. validate_expanded (raw d))
     else refuse ''stack.services'' ''dependency graph contains a cycle''))"
  using ready_loop_decides[OF assms, of "{}"] grounded_empty
  by (cases "\<exists>order. startable (sd_services d) order")
    (simp_all add: definition_validate_def and_then_def split: sum.splits)

section \<open>The environment of an expansion\<close>

text \<open>A value as expanded: as written, or without the escape.\<close>

definition expands_to :: "env_var \<Rightarrow> env_var \<Rightarrow> bool" where
  "expands_to v e \<longleftrightarrow>
     env_name v = env_name e \<and> (env_value v = env_value e \<or> env_value v = tl (env_value e))"

lemma expand_env_Inr:
  "expand_env services s field es = Inr (vs, refs) \<Longrightarrow>
   list_all2 expands_to vs es \<and> list_all (sibling services s) refs"
proof (induction es arbitrary: vs refs)
  case (Cons e es)
  then obtain r where r: "reference (env_name e) (env_value e) (field @ ''.env.'' @ env_name e) = Inr r"
    by (auto simp: and_then_Inr Let_def)
  with Cons show ?case
    by (cases r) (auto simp: and_then_Inr Let_def expands_to_def unescape_def split: if_splits)
qed simp

lemma expands_to_variables:
  assumes "list_all2 expands_to vs es"
  shows "map env_name vs = map env_name es \<and>
    sum_list (map (\<lambda>e. length (env_name e) + length (env_value e)) (filter P vs))
      \<le> sum_list (map (\<lambda>e. length (env_name e) + length (env_value e)) es) \<and>
    (\<forall>v\<in>set vs. \<exists>e\<in>set es. env_name v = env_name e \<and> set (env_value v) \<subseteq> set (env_value e))"
  using assms
proof (induction rule: list_all2_induct)
  case (Cons v vs e es)
  have "set (tl xs) \<subseteq> set xs" "length (tl xs) \<le> length xs" for xs :: string
    by (cases xs; auto)+
  with Cons show ?case by (fastforce simp: expands_to_def)
qed simp

lemma variables_ok_expanded:
  assumes ok: "variables_ok env secrets" and vs: "list_all2 expands_to vs env"
  shows "variables_ok (literals vs refs) secrets"
proof -
  note e = expands_to_variables[OF vs, of "\<lambda>e. \<not> list_ex (\<lambda>r. ref_env r = env_name e) refs"]
  have "set (map env_name (literals vs refs)) \<subseteq> set (map env_name vs)" by (auto simp: literals_def)
  with e have names: "set (map env_name (literals vs refs)) \<subseteq> set (map env_name env)" by simp
  have "length (literals vs refs) \<le> length env"
    using list_all2_lengthD[OF vs] length_filter_le[of _ vs] by (simp add: literals_def)
  moreover have "distinct (map env_name vs)" using ok e by (simp add: variables_ok_def)
  then have "distinct (map env_name (literals vs refs))"
    unfolding literals_def by (rule distinct_map_filter)
  moreover have "\<forall>v\<in>set (literals vs refs). env_name_ok (env_name v) \<and> NUL \<notin> set (env_value v)"
  proof
    fix v assume "v \<in> set (literals vs refs)"
    then have "v \<in> set vs" by (simp add: literals_def)
    then obtain x where "x \<in> set env" "env_name v = env_name x" "set (env_value v) \<subseteq> set (env_value x)"
      using e by blast
    then show "env_name_ok (env_name v) \<and> NUL \<notin> set (env_value v)"
      using ok by (auto simp: variables_ok_def)
  qed
  moreover have "sum_list (map (\<lambda>e. length (env_name e) + length (env_value e)) (literals vs refs)) \<le> 32768"
    using ok e by (auto simp: literals_def variables_ok_def)
  moreover have "set (map env_name (literals vs refs)) \<inter> set (map secret_env_name secrets) = {}"
    using ok names unfolding variables_ok_def distinct_append by blast
  ultimately show ?thesis using ok unfolding variables_ok_def distinct_append by simp
qed

section \<open>The ports of an expansion\<close>

lemma ports_ok_selected:
  assumes "ports_ok ports"
  shows "ports_ok (map (\<lambda>p. p\<lparr>port_public := selected d name p\<rparr>) ports) \<and>
    length (filter port_public (map (\<lambda>p. p\<lparr>port_public := selected d name p\<rparr>) ports)) \<le> 1"
proof -
  let ?f = "\<lambda>p. p\<lparr>port_public := selected d name p\<rparr>"
  have keep: "map port_name (map ?f ports) = map port_name ports"
    "map port_number (map ?f ports) = map port_number ports" by (simp_all add: o_def)
  have few: "distinct (map port_name ps) \<Longrightarrow> length (filter (selected d name) ps) \<le> 1" for ps
  proof (induction ps)
    case (Cons p ps)
    have "filter (selected d name) ps = []" if "selected d name p"
      using that Cons.prems by (auto simp: selected_def is_some_and_def filter_empty_conv split: option.splits)
    with Cons show ?case by auto
  qed simp
  have "length (filter port_public (map ?f ports)) = length (filter (selected d name) ports)"
    by (simp add: filter_map o_def)
  moreover have "\<dots> \<le> 1" using few assms by (simp add: ports_ok_def)
  ultimately show ?thesis using assms keep by (auto simp: ports_ok_def simp del: map_map)
qed

lemma check_ok_selected:
  "check_ok (map (\<lambda>p. p\<lparr>port_public := f p\<rparr>) ports) = check_ok ports"
  by (auto simp: check_ok_def fun_eq_iff)

section \<open>The steps of an expansion\<close>

lemma map_field_Inr [simp]: "map_field f r = Inr x \<longleftrightarrow> r = Inr x"
  by (simp add: map_field_def split: sum.splits)

lemma expand_service_steps:
  assumes "expand_service json d name catalogue = Inr (spec, settings, refs)"
  obtains s app dec env where
    "map_of (sd_services d) name = Some s"
    "service_validate s (''stack.services.'' @ name) = Inr ()"
    "service_app s (''stack.services.'' @ name) catalogue = Inr app"
    "normalize_app name app = Inr dec"
    "settings_validate (stack_settings d (dec_settings dec)) = Inr settings"
    "restart_problem (''stack.services.'' @ name) (service_restart s (dec_spec dec)) app (dec_spec dec) settings = None"
    "expand_env (sd_services d) s (''stack.services.'' @ name) (spec_env (dec_spec dec)) = Inr (env, refs)"
    "validate_public d name ((dec_spec dec)\<lparr>spec_env := literals env refs\<rparr>) = Inr ()"
    "spec = (dec_spec dec)\<lparr>spec_env := literals env refs,
       spec_ports := map (\<lambda>p. p\<lparr>port_public := selected d name p\<rparr>) (spec_ports (dec_spec dec))\<rparr>"
  using assms unfolding expand_service_def Let_def
  by (auto simp: and_then_Inr split: option.splits)

lemma in_app_Inr [simp]: "in_app name r = Inr x \<longleftrightarrow> r = Inr x"
  by (simp add: in_app_def split: sum.splits)

lemma normalize_app_steps:
  assumes "normalize_app name app = Inr dec"
  shows "spec_ok (dec_spec dec) \<and> dec_settings dec = settings_of_file app"
proof -
  obtain m c k s t where "spec_validate (spec_of_file app m c k) = Inr s" "dec_spec dec = s"
    "dec_settings dec = settings_of_file app"
    using assms unfolding normalize_app_def Let_def
    by (auto simp: and_then_Inr split: if_splits)
  then show ?thesis using spec_validate_ok by blast
qed

lemma spec_ok_expanded:
  assumes ok: "spec_ok spec" and env: "list_all2 expands_to vs (spec_env spec)"
  shows "spec_ok (spec\<lparr>spec_env := literals vs refs,
    spec_ports := map (\<lambda>p. p\<lparr>port_public := selected d name p\<rparr>) (spec_ports spec)\<rparr>)"
  using ok variables_ok_expanded[OF _ env, of "spec_secrets spec" refs] ports_ok_selected[of "spec_ports spec" d name]
  by (auto simp: spec_ok_def check_ok_selected)

lemma service_validate_placement:
  "service_validate s field = Inr () \<Longrightarrow> fa_placement (sv_app s) = None"
  by (auto simp: service_validate_def Let_def split: if_splits)

lemma template_app_placement: "template_app s field c = Inr app \<Longrightarrow> fa_placement app = None"
  by (auto simp: template_app_def and_then_Inr Let_def file_app_of_def file_placement_of_def
      app_settings_default_def placement_rules_is_default_def)

lemma service_app_placement:
  "service_validate s field = Inr () \<Longrightarrow> service_app s field c = Inr app \<Longrightarrow> fa_placement app = None"
  by (auto simp: service_app_def service_validate_placement template_app_placement split: option.splits)

section \<open>Expansions\<close>

text \<open>
  C25: An expanded service is a valid app: its spec is within every limit of an app although
  references are taken out of its environment, escapes resolved and its public ports replaced, and
  its settings are valid and never roll back on their own. A service with volumes runs one copy. At
  most one of its ports is public, the HTTP port the stack selects, and every connection reference
  names a service of the stack that it declares to depend on.
\<close>

theorem expansion_valid:
  assumes "expand_service json d name catalogue = Inr (spec, settings, refs)"
  shows "spec_ok spec \<and> settings_ok settings \<and> \<not> set_auto_rollback settings \<and>
    (spec_volumes spec \<noteq> [] \<longrightarrow> set_copies settings = 1) \<and>
    length (filter port_public (spec_ports spec)) \<le> 1 \<and>
    (\<forall>p\<in>set (spec_ports spec). port_public p \<longleftrightarrow> selected d name p) \<and>
    (\<exists>s. map_of (sd_services d) name = Some s \<and> list_all (sibling (sd_services d) s) refs)"
proof -
  obtain s app dec env where s: "map_of (sd_services d) name = Some s"
    "normalize_app name app = Inr dec"
    "settings_validate (stack_settings d (dec_settings dec)) = Inr settings"
    "restart_problem (''stack.services.'' @ name) (service_restart s (dec_spec dec)) app (dec_spec dec) settings = None"
    "expand_env (sd_services d) s (''stack.services.'' @ name) (spec_env (dec_spec dec)) = Inr (env, refs)"
    and spec: "spec = (dec_spec dec)\<lparr>spec_env := literals env refs,
       spec_ports := map (\<lambda>p. p\<lparr>port_public := selected d name p\<rparr>) (spec_ports (dec_spec dec))\<rparr>"
    by (rule expand_service_steps[OF assms]; rule that; assumption)
  have dec: "spec_ok (dec_spec dec)" using normalize_app_steps[OF s(2)] by simp
  have env: "list_all2 expands_to env (spec_env (dec_spec dec))" "list_all (sibling (sd_services d) s) refs"
    using expand_env_Inr[OF s(5)] by simp_all
  have "set_auto_rollback settings = False"
    using s(3) by (auto simp: settings_validate_def stack_settings_def and_then_Inr Let_def split: if_splits)
  moreover have "spec_volumes spec \<noteq> [] \<longrightarrow> set_copies settings = 1"
    using s(4) by (auto simp: spec restart_problem_def split: if_splits)
  moreover have "length (filter port_public (spec_ports spec)) \<le> 1"
    using ports_ok_selected[of "spec_ports (dec_spec dec)" d name] dec by (simp add: spec spec_ok_def)
  moreover have "\<forall>p\<in>set (spec_ports spec). port_public p \<longleftrightarrow> selected d name p"
    by (auto simp: spec selected_def)
  moreover have "spec_ok spec" unfolding spec by (rule spec_ok_expanded[OF dec env(1)])
  ultimately show ?thesis using settings_validate_ok[OF s(3)] s(1) env(2) by simp
qed

text \<open>
  The services of a stack are placed alike: any two expansions of one definition, of image or of
  catalogue services, carry the same candidate machines and the same placement rules, which are the
  stack's labels and kind and nothing else.
\<close>

theorem services_placed_alike:
  assumes "expand_service json d a ca = Inr (sa, ta, ra)" "expand_service json d b cb = Inr (sb, tb, rb)"
  shows "set_machines ta = set_machines tb \<and> set_placement ta = set_placement tb \<and>
    rule_spread_by (set_placement ta) = None \<and> rule_near (set_placement ta) = [] \<and>
    rule_apart (set_placement ta) = []"
proof -
  define i where "i = stack_settings d settings_input_default"
  have *: "(\<exists>ms. collect_names machine_name_parse machines_report 0 (sd_machines d) [] = Inr ms \<and> set_machines t = ms) \<and>
      placement_rules_validate i = Inr (set_placement t)"
    if e: "expand_service json d n c = Inr (sp, t, r)" for n c sp t r
  proof -
    obtain s app dec where s: "service_validate s (''stack.services.'' @ n) = Inr ()"
      "service_app s (''stack.services.'' @ n) c = Inr app" "normalize_app n app = Inr dec"
      "settings_validate (stack_settings d (dec_settings dec)) = Inr t"
      by (rule expand_service_steps[OF e]; rule that; assumption)
    have "fa_placement app = None" by (rule service_app_placement[OF s(1,2)])
    then have "placement_rules_validate (stack_settings d (dec_settings dec)) = placement_rules_validate i"
      using normalize_app_steps[OF s(3)]
      by (simp add: placement_rules_validate_def stack_settings_def settings_of_file_def placement_input_def
          settings_input_default_def i_def Let_def)
    then show ?thesis
      using s(4) by (auto simp: settings_validate_def stack_settings_def and_then_Inr Let_def split: if_splits)
  qed
  have "rule_spread_by p = None \<and> rule_near p = [] \<and> rule_apart p = []"
    if "placement_rules_validate i = Inr p" for p
    using that by (auto simp: placement_rules_validate_def i_def stack_settings_def settings_input_default_def
        Let_def and_then_Inr rules_spread_by_def related_def trim_id split: option.splits if_splits)
  with *[OF assms(1)] *[OF assms(2)] show ?thesis by auto
qed

section \<open>Accepted stacks\<close>

lemma dependencies_ok_not_own: "dependencies_ok services own seen ds \<Longrightarrow> own \<notin> set ds"
  by (induction ds arbitrary: seen) auto

lemma startable_before:
  assumes "startable services order" "map_of services n = Some s"
  shows "\<exists>before after. order = before @ n # after \<and> set (sv_depends_on s) \<subseteq> set before"
proof -
  have "n \<in> set order" using assms by (force simp: startable_def dest: map_of_SomeD)
  then obtain before after where o: "order = before @ n # after" by (meson split_list)
  then have "set (sv_depends_on s) \<subseteq> set before"
    using assms by (auto simp: startable_def start_order_append is_some_and_def list_all_iff)
  with o show ?thesis by blast
qed

lemma expansion_siblings:
  "expand_service json d name c = Inr (spec, settings, refs) \<Longrightarrow>
   \<exists>s. map_of (sd_services d) name = Some s \<and> (\<forall>r\<in>set refs. ref_service r \<in> set (sv_depends_on s))"
  by (erule expand_service_steps) (auto dest!: expand_env_Inr simp: list_all_iff sibling_def)

lemma declared_services_expand:
  assumes "declaration_check json d = Inr ()" "(name, s) \<in> set (sd_services d)" "sv_template s = None"
  shows "\<exists>e. expand_service json d name None = Inr e"
proof -
  have "service_check json d (name, s) = Inr ()"
    using assms by (auto simp: declaration_check_def and_then_Inr try_each_Inr list_all_iff split: if_splits)
  then show ?thesis using assms(3) by (auto simp: service_check_def and_then_Inr Let_def split: if_splits)
qed

text \<open>
  C24: An accepted stack can be deployed: there is one order of its services in which every connection
  reference of an expanded service, whatever the catalogue supplied, points to a service that comes
  earlier, and every image service expands.
\<close>

theorem accepted_stack_starts:
  assumes "distinct (map fst (sd_services d))" "definition_validate json raw d = Some (Inr ())"
  shows "\<exists>order. startable (sd_services d) order \<and>
    (\<forall>name catalogue spec settings refs.
       expand_service json d name catalogue = Inr (spec, settings, refs) \<longrightarrow>
       (\<exists>before after. order = before @ name # after \<and> (\<forall>r\<in>set refs. ref_service r \<in> set before))) \<and>
    (\<forall>(name, s)\<in>set (sd_services d). sv_template s = None \<longrightarrow> (\<exists>e. expand_service json d name None = Inr e))"
proof -
  have ok: "declaration_check json d = Inr ()" "ready_loop (sd_services d) {} = Some True"
    using assms(2) by (auto simp: definition_validate_def split: sum.splits option.splits bool.splits)
  then obtain order where order: "startable (sd_services d) order"
    using ready_loop_decides[OF assms(1), of "{}"] grounded_empty by auto
  have "\<exists>before after. order = before @ name # after \<and> (\<forall>r\<in>set refs. ref_service r \<in> set before)"
    if "expand_service json d name c = Inr (spec, settings, refs)" for name c spec settings refs
    using expansion_siblings[OF that] startable_before[OF order] by blast
  then show ?thesis using order declared_services_expand[OF ok(1)] by blast
qed

section \<open>Literal values\<close>

lemma contains_str_iff: "contains_str p s \<longleftrightarrow> (\<exists>a b. s = a @ p @ b)"
proof (induction s)
  case (Cons c s)
  have "(\<exists>a b. c # s = a @ p @ b) \<longleftrightarrow> (\<exists>b. c # s = p @ b) \<or> (\<exists>a b. s = a @ p @ b)"
    by (metis append_Cons append_Nil list.exhaust list.inject)
  with Cons show ?case by (simp add: starts_with_iff)
qed auto

lemma reference_literal:
  "reference env w field = Inr None \<longleftrightarrow> starts_with ref_escape w \<or> \<not> contains_str ref_open w"
  by (auto simp: reference_def and_then_Inr split: option.splits prod.splits if_splits)

lemma escape_open: "ref_escape = CHR ''$'' # ref_open"
  by (simp add: ref_escape_def ref_open_def)

text \<open>
  The literal values a stack file can give a variable are exactly those that hold no opening
  \<open>${{\<close>, as they are, and those that begin with one, behind one more dollar sign.
\<close>

theorem literal_values:
  "(\<exists>w. reference env w field = Inr None \<and> unescape w = v) \<longleftrightarrow>
   \<not> contains_str ref_open v \<or> starts_with ref_open v"
proof
  assume "\<exists>w. reference env w field = Inr None \<and> unescape w = v"
  then obtain w where w: "starts_with ref_escape w \<or> \<not> contains_str ref_open w" "unescape w = v"
    by (auto simp: reference_literal)
  show "\<not> contains_str ref_open v \<or> starts_with ref_open v"
  proof (cases "starts_with ref_escape w")
    case True
    then have "starts_with ref_open (tl w)" by (auto simp: starts_with_iff escape_open)
    with True w(2) show ?thesis by (simp add: unescape_def)
  next
    case False
    with w show ?thesis by (simp add: unescape_def)
  qed
next
  assume v: "\<not> contains_str ref_open v \<or> starts_with ref_open v"
  show "\<exists>w. reference env w field = Inr None \<and> unescape w = v"
  proof (cases "starts_with ref_open v")
    case True
    then have "starts_with ref_escape (CHR ''$'' # v)" by (auto simp: starts_with_iff escape_open)
    then show ?thesis
      by (intro exI[of _ "CHR ''$'' # v"]) (simp add: reference_literal unescape_def)
  next
    case False
    with v have no: "\<not> contains_str ref_open v" by simp
    then have "\<not> starts_with ref_escape v"
      by (auto simp: contains_str_iff starts_with_iff escape_open) (metis append_Cons append_Nil)
    with no show ?thesis by (intro exI[of _ v]) (simp add: reference_literal unescape_def)
  qed
qed

section \<open>A stack\<close>

definition demo_service :: "string list \<Rightarrow> (string \<times> string) list \<Rightarrow> stack_service" where
  "demo_service deps env =
     \<lparr>sv_template = None, sv_data_volume = None, sv_depends_on = deps, sv_restart = None,
      sv_app = \<lparr>fa_image = ''nginx'', fa_command = [], fa_copies = None, fa_machines = [],
        fa_placement = None, fa_reschedule_after = None, fa_auto_rollback = None,
        fa_ports = [\<lparr>fp_name = ''http'', fp_port = 80, fp_protocol = None, fp_public = False\<rparr>],
        fa_resources = None, fa_env = env, fa_secrets = [], fa_check = None, fa_stop = None,
        fa_release = None, fa_volumes = []\<rparr>\<rparr>"

definition demo_stack :: stack_definition where
  "demo_stack =
     \<lparr>sd_name = ''shop'', sd_machines = [], sd_placement = None,
      sd_public = Some \<lparr>pt_service = ''web'', pt_port = ''http''\<rparr>,
      sd_services = [(''web'', demo_service [''db''] [(''DB'', ''${{ db.url }}''), (''RAW'', ''$${{x}}'')]),
                     (''db'', demo_service [] [])]\<rparr>"

definition demo_web :: expansion where
  "demo_web =
     (case expand_service (\<lambda>_. []) demo_stack ''web'' None of
        Inr e \<Rightarrow> e | Inl _ \<Rightarrow> (demo_spec, app_settings_default, []))"

lemma demo_stack_declared: "declaration_check (\<lambda>_. []) demo_stack = Inr ()"
  by code_simp

lemma demo_web_expands: "expand_service (\<lambda>_. []) demo_stack ''web'' None = Inr demo_web"
  by code_simp

lemma demo_web_parts:
  "snd (snd demo_web) = [\<lparr>ref_env = ''DB'', ref_service = ''db'', ref_output = ''url''\<rparr>] \<and>
   spec_env (fst demo_web) = [\<lparr>env_name = ''RAW'', env_value = ''${{x}}''\<rparr>]"
  by code_simp

lemma demo_web_Inr:
  "expand_service (\<lambda>_. []) demo_stack ''web'' None = Inr (fst demo_web, fst (snd demo_web), snd (snd demo_web))"
  using demo_web_expands by simp

lemma demo_stack_names: "distinct (map fst (sd_services demo_stack))" by code_simp

lemma demo_stack_startable: "startable (sd_services demo_stack) [''db'', ''web'']" by code_simp

theorem stack_validation_returns_witness:
  "definition_validate (\<lambda>_. []) (\<lambda>_. []) demo_stack = Some (Inr ())"
proof -
  have "public_check (\<lambda>_. []) demo_stack = Inr ()" "validate_expanded [] = Inr ()" by code_simp+
  then show ?thesis
    using stack_validation_returns[OF demo_stack_names, of "\<lambda>_. []" "\<lambda>_. []"] demo_stack_startable
      demo_stack_declared by auto
qed

text \<open>The same by the loop itself.\<close>

lemma demo_stack_accepted: "definition_validate (\<lambda>_. []) (\<lambda>_. []) demo_stack = Some (Inr ())"
proof -
  have "ready_loop (sd_services demo_stack) {} = Some True"
    using ready_loop_decides[OF demo_stack_names, of "{}"] grounded_empty demo_stack_startable by auto
  moreover have "public_check (\<lambda>_. []) demo_stack = Inr ()" "validate_expanded [] = Inr ()" by code_simp+
  ultimately show ?thesis using demo_stack_declared by (simp add: definition_validate_def)
qed

theorem expansion_valid_witness:
  "spec_ok (fst demo_web) \<and> settings_ok (fst (snd demo_web)) \<and>
   spec_env (fst demo_web) = [\<lparr>env_name = ''RAW'', env_value = ''${{x}}''\<rparr>]"
  using expansion_valid[OF demo_web_Inr] demo_web_parts by simp

theorem services_placed_alike_witness:
  "\<exists>settings. expand_service (\<lambda>_. []) demo_stack ''db'' None = Inr settings \<and>
     set_machines (fst (snd settings)) = set_machines (fst (snd demo_web)) \<and>
     set_placement (fst (snd settings)) = set_placement (fst (snd demo_web))"
proof -
  obtain e where e: "expand_service (\<lambda>_. []) demo_stack ''db'' None = Inr e"
    using declared_services_expand[OF demo_stack_declared, of "''db''"]
    by (auto simp: demo_stack_def demo_service_def)
  then have "expand_service (\<lambda>_. []) demo_stack ''db'' None = Inr (fst e, fst (snd e), snd (snd e))" by simp
  from services_placed_alike[OF this demo_web_Inr] e show ?thesis by blast
qed

theorem accepted_stack_starts_witness:
  "\<exists>order. startable (sd_services demo_stack) order \<and> (\<exists>before after. order = before @ ''web'' # after \<and>
     (\<forall>r\<in>set (snd (snd demo_web)). ref_service r \<in> set before))"
  using accepted_stack_starts[OF demo_stack_names demo_stack_accepted] demo_web_Inr by blast

end
