(* ===== verification/Grund_File.thy ===== *)
theory Grund_File
  imports App_File_Props Stack_File_Props
begin

text \<open>
  The file as a whole (\<open>grund-config/src/app/file.rs\<close>, \<open>stack.rs\<close> and \<open>yaml.rs\<close>): what a document
  declares, and reading it for an app deploy or a stack deploy. The YAML library is a parameter: its
  reader gives a decoded document or a refusal with a path, a position and a message, its writer the
  text of a file.
\<close>

section \<open>Refusals of the YAML reader\<close>

record yaml_error =
  ye_path :: string
  ye_line :: "nat option"
  ye_column :: "nat option"
  ye_message :: string

definition yaml_problem :: "yaml_error \<Rightarrow> string" where
  "yaml_problem e =
     (case (ye_line e, ye_column e) of
        (Some line, Some column) \<Rightarrow>
          ''line '' @ show_nat line @ '', column '' @ show_nat column @ '': '' @ ye_message e
      | _ \<Rightarrow> ye_message e)"

text \<open>\<open>from_str\<close> drops the path of an error about the file as a whole.\<close>

definition yaml_path :: "string \<Rightarrow> string" where
  "yaml_path path = (if path = ''.'' then [] else path)"

section \<open>The document\<close>

definition MAX_FILE_BYTES :: nat where "MAX_FILE_BYTES = 64 * 1024"
definition FILE_NAME :: string where "FILE_NAME = ''grund.yaml''"

record grund_file =
  gf_apps :: "(string \<times> file_app) list"
  gf_stack :: "stack_definition option"

text \<open>The decoded top level: the keys that were given, and \<open>GrundFile::deserialize\<close> on them.\<close>

record document =
  doc_apps :: "(string \<times> file_app) list option"
  doc_stack :: "stack_definition option"

definition file_of_document :: "document \<Rightarrow> string + grund_file" where
  "file_of_document d =
     (case (doc_apps d, doc_stack d) of
        (Some apps, None) \<Rightarrow> Inr \<lparr>gf_apps = apps, gf_stack = None\<rparr>
      | (None, Some stack) \<Rightarrow> Inr \<lparr>gf_apps = [], gf_stack = Some stack\<rparr>
      | (None, None) \<Rightarrow> Inl ''the file declares no apps or stack; declare exactly one of apps or stack''
      | _ \<Rightarrow> Inl ''declare exactly one of apps or stack'')"

definition volume_path :: "string \<Rightarrow> string + string" where
  "volume_path path = (if path = [] then Inl ''a volume path cannot be empty'' else Inr path)"

text \<open>
  The reader: the library's decoding of the text (with the path the error is at), and an error of
  the code's own \<open>deserialize\<close> at the place the library reports for it.
\<close>

record yaml_reader =
  decode :: "string \<Rightarrow> yaml_error + document"
  report :: "string \<Rightarrow> string \<Rightarrow> yaml_error"

definition from_str :: "yaml_reader \<Rightarrow> string \<Rightarrow> yaml_error + grund_file" where
  "from_str y text =
     (case decode y text of
        Inl e \<Rightarrow> Inl (e\<lparr>ye_path := yaml_path (ye_path e)\<rparr>)
      | Inr d \<Rightarrow>
          (case file_of_document d of
             Inl message \<Rightarrow> Inl ((report y text message)\<lparr>ye_path := yaml_path (ye_path (report y text message))\<rparr>)
           | Inr file \<Rightarrow> Inr file))"

section \<open>Reading\<close>

definition read_file :: "yaml_reader \<Rightarrow> string \<Rightarrow> spec_error + grund_file" where
  "read_file y text =
     (if length text > STACK_FILE_BYTES then refuse FILE_NAME ''use at most 1 MiB''
      else case from_str y text of
          Inl e \<Rightarrow> refuse (if ye_path e = [] then FILE_NAME else ye_path e) (yaml_problem e)
        | Inr file \<Rightarrow> Inr file)"

definition stack_message :: string where
  "stack_message = ''this file declares a stack; use grund stack deploy''"

definition parse_app :: "yaml_reader \<Rightarrow> string \<Rightarrow> string \<Rightarrow> spec_error + declared" where
  "parse_app y text name =
     (if length text > MAX_FILE_BYTES then
        if length text \<le> STACK_FILE_BYTES \<and>
           (case read_file y text of Inl _ \<Rightarrow> False | Inr file \<Rightarrow> gf_stack file \<noteq> None)
        then refuse ''stack'' stack_message
        else refuse FILE_NAME ''use at most 64 KiB''
      else
        and_then (read_file y text) (\<lambda>file.
        if gf_stack file \<noteq> None then refuse ''stack'' stack_message
        else case map_of (gf_apps file) name of
            Some app \<Rightarrow> normalize_app name app
          | None \<Rightarrow>
              refuse FILE_NAME
                (if gf_apps file = [] then
                   ''the file declares no apps; add '' @ name @ '' under apps:''
                 else
                   ''the file declares no app '' @ name @ '' under apps:; it declares '' @
                   join '', '' (map fst (gf_apps file)))))"

definition stack_parse ::
  "yaml_reader \<Rightarrow> (expansion \<Rightarrow> nat list) \<Rightarrow> (stack_definition \<Rightarrow> nat list) \<Rightarrow> string \<Rightarrow>
   (spec_error + stack_definition) option" where
  "stack_parse y json raw text =
     (if length text > STACK_FILE_BYTES then Some (refuse FILE_NAME ''use at most 1 MiB'')
      else case read_file y text of
          Inl e \<Rightarrow> Some (Inl e)
        | Inr file \<Rightarrow>
            (case gf_stack file of
               None \<Rightarrow> Some (refuse ''stack'' ''this file declares apps; use grund app deploy'')
             | Some d \<Rightarrow>
                 map_option (\<lambda>r. and_then r (\<lambda>_. Inr d)) (definition_validate json raw d)))"

definition declared_names :: "yaml_reader \<Rightarrow> string \<Rightarrow> string list" where
  "declared_names y text =
     (case read_file y text of Inl _ \<Rightarrow> [] | Inr file \<Rightarrow> map fst (gf_apps file))"

section \<open>Writing\<close>

definition NEWLINE :: string where "NEWLINE = [char_of (10 :: nat)]"

definition render_app ::
  "(grund_file \<Rightarrow> string) \<Rightarrow> string \<Rightarrow> app_spec \<Rightarrow> app_settings \<Rightarrow> string \<Rightarrow> string" where
  "render_app to_yaml name spec settings schema_url =
     (let body = to_yaml \<lparr>gf_apps = [(name, file_app_of spec settings)], gf_stack = None\<rparr> in
      ''# yaml-language-server: $schema='' @ schema_url @ NEWLINE @
      ''# '' @ name @ '', as its newest release runs. Defaults are left out.'' @ NEWLINE @ body)"

text \<open>\<open>data_volume_yaml_line\<close>: the line without the line break the writer ends with.\<close>

definition data_volume_yaml_line :: "(string \<Rightarrow> string) \<Rightarrow> string \<Rightarrow> string" where
  "data_volume_yaml_line selection name = trim_end (selection name)"

section \<open>One text is a file of apps or a stack\<close>

lemma file_of_document_one:
  "file_of_document d = Inr file \<Longrightarrow> gf_stack file = None \<or> gf_apps file = []"
  by (auto simp: file_of_document_def split: option.splits)

lemma read_file_bytes: "read_file y text = Inr file \<Longrightarrow> length text \<le> STACK_FILE_BYTES"
  by (auto simp: read_file_def split: if_splits)

lemma parse_app_Inr:
  "parse_app y text name = Inr declared \<longleftrightarrow>
   length text \<le> MAX_FILE_BYTES \<and> (\<exists>file app. read_file y text = Inr file \<and> gf_stack file = None \<and>
     map_of (gf_apps file) name = Some app \<and> normalize_app name app = Inr declared)"
  by (auto simp: parse_app_def and_then_Inr split: option.splits if_splits)

lemma stack_parse_Inr:
  "stack_parse y json raw text = Some (Inr d) \<longleftrightarrow>
   (\<exists>file. read_file y text = Inr file \<and> gf_stack file = Some d \<and>
     definition_validate json raw d = Some (Inr ()))"
  by (auto simp: stack_parse_def and_then_Inr dest: read_file_bytes split: option.splits sum.splits)

text \<open>
  A text is a file of apps or a stack and never both: if it parses as a stack, every app deploy
  of it is refused with the advice to deploy the stack, whatever its size, and it declares no app
  names; if it parses as an app, the stack deploy is refused.
\<close>

theorem one_kind_of_file:
  "(stack_parse y json raw text = Some (Inr d) \<longrightarrow>
     parse_app y text name = refuse ''stack'' stack_message \<and> declared_names y text = []) \<and>
   (parse_app y text name = Inr declared \<longrightarrow>
     stack_parse y json raw text = Some (refuse ''stack'' ''this file declares apps; use grund app deploy'') \<and>
     name \<in> set (declared_names y text))"
proof (intro conjI impI)
  assume "stack_parse y json raw text = Some (Inr d)"
  then obtain doc where f: "read_file y text = Inr doc" "gf_stack doc = Some d"
    by (auto simp: stack_parse_Inr)
  then have "gf_apps doc = []"
    using file_of_document_one by (fastforce simp: read_file_def from_str_def split: if_splits sum.splits)
  then show "parse_app y text name = refuse ''stack'' stack_message" "declared_names y text = []"
    using f read_file_bytes[OF f(1)] by (auto simp: parse_app_def declared_names_def)
next
  assume "parse_app y text name = Inr declared"
  then obtain doc app where f: "read_file y text = Inr doc" "gf_stack doc = None"
    "map_of (gf_apps doc) name = Some app" by (auto simp: parse_app_Inr)
  then show "stack_parse y json raw text = Some (refuse ''stack'' ''this file declares apps; use grund app deploy'')"
    "name \<in> set (declared_names y text)"
    using read_file_bytes[OF f(1)]
    by (auto simp: stack_parse_def declared_names_def image_iff dest!: map_of_SomeD intro!: bexI)
qed

definition demo_reader :: yaml_reader where
  "demo_reader =
     \<lparr>decode = (\<lambda>text. if text = ''stack''
        then Inr \<lparr>doc_apps = None, doc_stack = Some demo_stack\<rparr>
        else Inr \<lparr>doc_apps = Some [(''web'', sv_app (demo_service [] []))], doc_stack = None\<rparr>),
      report = (\<lambda>text message. \<lparr>ye_path = [], ye_line = None, ye_column = None, ye_message = message\<rparr>)\<rparr>"

theorem one_kind_of_file_witness:
  "parse_app demo_reader ''stack'' ''web'' = refuse ''stack'' stack_message \<and>
   (\<exists>declared. parse_app demo_reader ''apps'' ''web'' = Inr declared) \<and>
   stack_parse demo_reader (\<lambda>_. []) (\<lambda>_. []) ''apps'' =
     Some (refuse ''stack'' ''this file declares apps; use grund app deploy'')"
proof -
  have s: "read_file demo_reader ''stack'' = Inr \<lparr>gf_apps = [], gf_stack = Some demo_stack\<rparr>"
    by code_simp
  have "stack_parse demo_reader (\<lambda>_. []) (\<lambda>_. []) ''stack'' = Some (Inr demo_stack)"
    by (simp add: stack_parse_Inr s demo_stack_accepted)
  moreover have "case parse_app demo_reader ''apps'' ''web'' of Inl _ \<Rightarrow> False | Inr _ \<Rightarrow> True" by code_simp
  then obtain declared where "parse_app demo_reader ''apps'' ''web'' = Inr declared"
    by (auto split: sum.splits)
  ultimately show ?thesis
    using one_kind_of_file[of demo_reader "\<lambda>_. []" "\<lambda>_. []" "''stack''" demo_stack "''web''"]
      one_kind_of_file[of demo_reader "\<lambda>_. []" "\<lambda>_. []" "''apps''" demo_stack "''web''" declared]
    by blast
qed

end
