(* ===== verification/Catalogue.thy ===== *)
theory Catalogue
  imports App_File_Props
begin

text \<open>
  The premade apps (\<open>grund-domain/src/app/templates.rs\<close>, with the two start scripts it includes) and
  the discovery of newer images for a running release (\<open>app/updates.rs\<close>).
\<close>

section \<open>Templates\<close>

definition QUOTE :: char where "QUOTE = CHR 0x27"
definition BACKSLASH :: char where "BACKSLASH = CHR 0x5C"

record template_storage =
  ts_path :: string
  ts_size_gib :: nat

record template =
  tpl_key :: string
  tpl_title :: string
  tpl_summary :: string
  tpl_image :: string
  tpl_command :: "string list"
  tpl_env :: "(string \<times> string) list"
  tpl_secret_variables :: "string list"
  tpl_ports :: "(string \<times> nat \<times> protocol) list"
  tpl_publishable :: "string option"
  tpl_check :: "(string \<times> string) option"
  tpl_memory_mib :: nat
  tpl_cpu_millis :: nat
  tpl_storage :: "template_storage option"
  tpl_unavailable :: "string option"

text \<open>A file as its lines, each with its line break.\<close>

definition text_lines :: "string list \<Rightarrow> string" where
  "text_lines ls = concat (map (\<lambda>l. l @ [char_of (10 :: nat)]) ls)"

definition NATS_IMAGE :: string where
  "NATS_IMAGE = ''nats:2.10-alpine@sha256:b83efabe3e7def1e0a4a31ec6e078999bb17c80363f881df35edc70fcb6bb927''"

definition WHOAMI_IMAGE :: string where
  "WHOAMI_IMAGE = ''traefik/whoami:v1.11.0@sha256:200689790a0a0ea48ca45992e0450bc26ccab5307375b41c84dfc4f2475937ab''"

definition NGINX_IMAGE :: string where
  "NGINX_IMAGE = ''nginx:1.27-alpine@sha256:65645c7bb6a0661892a8b03b89d0743208a18dd2f3f17a54ef4b76fb8e2f2a10''"

definition POSTGRES_IMAGE :: string where
  "POSTGRES_IMAGE = ''postgres:17.11-alpine@sha256:b0f9560a2de083e2cc7382e75f808c7381a32852a7ec49117deedb300e552b24''"

definition REDIS_IMAGE :: string where
  "REDIS_IMAGE = ''redis:7.4.11-alpine@sha256:858f009f9709ce576febc734aa78b8f6d624b82571f9ddb6bda4377c833b3499''"

definition SEAWEEDFS_IMAGE :: string where
  "SEAWEEDFS_IMAGE = ''chrislusf/seaweedfs:4.48@sha256:4e61d15fd35994cb1e43e1e553dff106794841fd9a99ade2fc8c8bfce4d7872d''"

definition POSTGRES_START :: string where
  \<open>POSTGRES_START = text_lines
  [''set -eu'',
   '': "${PGDATA:?PGDATA must be set}"'',
   ''chown postgres:postgres /var/lib/postgresql/data'',
   ''if [ -s "$PGDATA/PG_VERSION" ]; then'',
   ''    if [ ! -s "$PGDATA/postgresql.conf" ]; then'',
   ''        cp "$(pg_config --sharedir)/postgresql.conf.sample" "$PGDATA/postgresql.conf"'',
   ''    fi'',
   ''    if [ ! -e "$PGDATA/pg_hba.conf" ]; then'',
   ''        printf '' @ [QUOTE] @ ''%s'' @ [BACKSLASH] @ ''n'' @ [QUOTE] @ '' '' @ [QUOTE] @ ''local all all scram-sha-256'' @ [QUOTE] @ '' > "$PGDATA/pg_hba.conf"'',
   ''    fi'',
   ''    if ! grep -Fqx '' @ [QUOTE] @ ''host all all all scram-sha-256'' @ [QUOTE] @ '' "$PGDATA/pg_hba.conf"; then'',
   ''        printf '' @ [QUOTE] @ [BACKSLASH] @ ''n%s'' @ [BACKSLASH] @ ''n'' @ [QUOTE] @ '' '' @ [QUOTE] @ ''host all all all scram-sha-256'' @ [QUOTE] @ '' >> "$PGDATA/pg_hba.conf"'',
   ''    fi'',
   ''    if [ ! -e "$PGDATA/pg_ident.conf" ]; then'',
   ''        : > "$PGDATA/pg_ident.conf"'',
   ''    fi'',
   ''    chown postgres:postgres "$PGDATA/postgresql.conf" "$PGDATA/pg_hba.conf" "$PGDATA/pg_ident.conf"'',
   ''    chmod 0600 "$PGDATA/postgresql.conf" "$PGDATA/pg_hba.conf" "$PGDATA/pg_ident.conf"'',
   ''fi'',
   ''exec /usr/local/bin/docker-entrypoint.sh postgres -c '' @ [QUOTE] @ ''listen_addresses=*'' @ [QUOTE]]\<close>

definition SEAWEEDFS_START :: string where
  \<open>SEAWEEDFS_START = text_lines
  ['': "${S3_ACCESS_KEY_ID:?S3_ACCESS_KEY_ID must be set}"'',
   '': "${S3_SECRET_ACCESS_KEY:?S3_SECRET_ACCESS_KEY must be set}"'',
   ''# Native AWS environment credentials log the access key at normal verbosity.'',
   ''unset AWS_ACCESS_KEY_ID AWS_SECRET_ACCESS_KEY'',
   ''umask 077'',
   ''config="$(mktemp /tmp/grund-s3.XXXXXX)"'',
   ''awk '' @ [QUOTE],
   ''function quote(value, result, i, c, n) {'',
   ''    result = "'' @ [BACKSLASH] @ ''""'',
   ''    for (i = 1; i <= length(value); i++) {'',
   ''        c = substr(value, i, 1)'',
   ''        if (c == "'' @ [BACKSLASH] @ [BACKSLASH] @ ''" || c == "'' @ [BACKSLASH] @ ''"") result = result "'' @ [BACKSLASH] @ [BACKSLASH] @ ''" c'',
   ''        else if ((n = index(controls, c)) > 0) result = result sprintf("'' @ [BACKSLASH] @ [BACKSLASH] @ ''u%04x", n)'',
   ''        else result = result c'',
   ''    }'',
   ''    return result "'' @ [BACKSLASH] @ ''""'',
   ''}'',
   ''BEGIN {'',
   ''    for (i = 1; i < 32; i++) controls = controls sprintf("%c", i)'',
   ''    printf "{'' @ [BACKSLASH] @ ''"identities'' @ [BACKSLASH] @ ''":[{'' @ [BACKSLASH] @ ''"name'' @ [BACKSLASH] @ ''":'' @ [BACKSLASH] @ ''"grund'' @ [BACKSLASH] @ ''",'' @ [BACKSLASH] @ ''"credentials'' @ [BACKSLASH] @ ''":[{'' @ [BACKSLASH] @ ''"accessKey'' @ [BACKSLASH] @ ''":%s,'' @ [BACKSLASH] @ ''"secretKey'' @ [BACKSLASH] @ ''":%s}],'' @ [BACKSLASH] @ ''"actions'' @ [BACKSLASH] @ ''":['' @ [BACKSLASH] @ ''"Admin'' @ [BACKSLASH] @ ''"]}]}'' @ [BACKSLASH] @ ''n", quote(ENVIRON["S3_ACCESS_KEY_ID"]), quote(ENVIRON["S3_SECRET_ACCESS_KEY"])'',
   ''}'' @ [QUOTE] @ '' > "$config"'',
   ''chown seaweed:seaweed "$config"'',
   ''# S3 gRPC shares this bind; grund forwards only declared port 8333.'',
   ''exec /entrypoint.sh server '' @ [BACKSLASH],
   ''    -s3 -s3.config="$config" -dir=/data '' @ [BACKSLASH],
   ''    -ip=127.0.0.1 -ip.bind=127.0.0.1 -s3.ip.bind=127.0.0.1 '' @ [BACKSLASH],
   ''    -master.volumeSizeLimitMB=1024 -volume.max=0 -volume.index=leveldb '' @ [BACKSLASH],
   ''    -master.telemetry=false -s3.iam=false -s3.port.iceberg=0 -s3.port.lance=0 '' @ [BACKSLASH],
   ''    -s3.autoCreateBucket=false -s3.allowDeleteBucketNotEmpty=false'']\<close>

definition nats_template :: template where
  \<open>nats_template =
     \<lparr>tpl_key = ''nats'', tpl_title = ''NATS'',
      tpl_summary = ''A messaging server for your apps, without persistence: JetStream needs storage.'',
      tpl_image = NATS_IMAGE, tpl_command = [],
      tpl_env = [],
      tpl_secret_variables = [],
      tpl_ports = [(''client'', 4222, Tcp), (''monitor'', 8222, Http)],
      tpl_publishable = None, tpl_check = Some (''monitor'', ''/healthz''),
      tpl_memory_mib = 256, tpl_cpu_millis = 500, tpl_storage = None, tpl_unavailable = None\<rparr>\<close>

definition whoami_template :: template where
  \<open>whoami_template =
     \<lparr>tpl_key = ''whoami'', tpl_title = ''whoami'',
      tpl_summary = ''Traefik'' @ [QUOTE] @ ''s tiny web server that answers with the request it got. Good for a first deploy.'',
      tpl_image = WHOAMI_IMAGE, tpl_command = [],
      tpl_env = [],
      tpl_secret_variables = [],
      tpl_ports = [(''http'', 80, Http)],
      tpl_publishable = Some ''http'', tpl_check = Some (''http'', ''/health''),
      tpl_memory_mib = 64, tpl_cpu_millis = 100, tpl_storage = None, tpl_unavailable = None\<rparr>\<close>

definition nginx_template :: template where
  \<open>nginx_template =
     \<lparr>tpl_key = ''nginx'', tpl_title = ''nginx'',
      tpl_summary = ''A web server showing its welcome page, ready to serve your own files from an image built on it.'',
      tpl_image = NGINX_IMAGE, tpl_command = [],
      tpl_env = [],
      tpl_secret_variables = [],
      tpl_ports = [(''http'', 80, Http)],
      tpl_publishable = Some ''http'', tpl_check = Some (''http'', ''/''),
      tpl_memory_mib = 128, tpl_cpu_millis = 250, tpl_storage = None, tpl_unavailable = None\<rparr>\<close>

definition postgres_template :: template where
  \<open>postgres_template =
     \<lparr>tpl_key = ''postgres'', tpl_title = ''PostgreSQL'',
      tpl_summary = ''A relational database.'',
      tpl_image = POSTGRES_IMAGE, tpl_command = [''/bin/sh'', ''-ec'', POSTGRES_START],
      tpl_env = [(''POSTGRES_USER'', ''grund''), (''POSTGRES_DB'', ''grund''), (''PGDATA'', ''/var/lib/postgresql/data/pgdata'')],
      tpl_secret_variables = [''POSTGRES_PASSWORD''],
      tpl_ports = [(''postgres'', 5432, Tcp)],
      tpl_publishable = None, tpl_check = None,
      tpl_memory_mib = 512, tpl_cpu_millis = 500, tpl_storage = Some \<lparr>ts_path = ''/var/lib/postgresql/data'', ts_size_gib = 10\<rparr>, tpl_unavailable = None\<rparr>\<close>

definition redis_template :: template where
  \<open>redis_template =
     \<lparr>tpl_key = ''redis'', tpl_title = ''Redis'',
      tpl_summary = ''A password-protected in-memory store. Abrupt power loss can lose about one second of writes.'',
      tpl_image = REDIS_IMAGE, tpl_command = [''/bin/sh'', ''-ec'',
      ''exec /usr/local/bin/docker-entrypoint.sh redis-server --dir /data --appendonly yes --appendfsync everysec --requirepass "${REDIS_PASSWORD:?REDIS_PASSWORD must be set}"''],
      tpl_env = [],
      tpl_secret_variables = [''REDIS_PASSWORD''],
      tpl_ports = [(''redis'', 6379, Tcp)],
      tpl_publishable = None, tpl_check = None,
      tpl_memory_mib = 256, tpl_cpu_millis = 500, tpl_storage = Some \<lparr>ts_path = ''/data'', ts_size_gib = 1\<rparr>, tpl_unavailable = None\<rparr>\<close>

definition seaweedfs_template :: template where
  \<open>seaweedfs_template =
     \<lparr>tpl_key = ''seaweedfs'', tpl_title = ''SeaweedFS'',
      tpl_summary = ''S3-compatible object storage.'',
      tpl_image = SEAWEEDFS_IMAGE, tpl_command = [''/bin/sh'', ''-ec'', SEAWEEDFS_START],
      tpl_env = [],
      tpl_secret_variables = [''S3_ACCESS_KEY_ID'', ''S3_SECRET_ACCESS_KEY''],
      tpl_ports = [(''s3'', 8333, Http)],
      tpl_publishable = None, tpl_check = None,
      tpl_memory_mib = 512, tpl_cpu_millis = 500, tpl_storage = Some \<lparr>ts_path = ''/data'', ts_size_gib = 10\<rparr>, tpl_unavailable = None\<rparr>\<close>

definition CATALOGUE :: "template list" where
  "CATALOGUE =
     [nats_template, whoami_template, nginx_template, postgres_template, redis_template, seaweedfs_template]"

definition find_template :: "string \<Rightarrow> template option" where
  "find_template key = List.find (\<lambda>t. tpl_key t = key) CATALOGUE"

definition template_check :: "template \<Rightarrow> check_spec option" where
  "template_check t =
     (let check = (\<lambda>kind port. \<lparr>check_kind = kind, check_port = port, check_interval_ms = 0, check_timeout_ms = 0\<rparr>) in
      case tpl_check t of
        Some (name, path) \<Rightarrow>
          map_option (\<lambda>(_, port, _). check (Check_Http path) port) (List.find (\<lambda>(n, _, _). n = name) (tpl_ports t))
      | None \<Rightarrow> map_option (\<lambda>(_, port, _). check Check_Tcp port) (first_opt (tpl_ports t)))"

definition template_port :: "template \<Rightarrow> bool \<Rightarrow> string \<times> nat \<times> protocol \<Rightarrow> port_spec" where
  "template_port t public = (\<lambda>(name, port, protocol).
     \<lparr>port_name = name, port_number = port, port_protocol = protocol,
      port_public = (public \<and> tpl_publishable t = Some name)\<rparr>)"

definition template_volume :: "template_storage \<Rightarrow> volume_spec" where
  "template_volume storage =
     \<lparr>vol_name = ''data'', vol_path = ts_path storage, vol_source = None, vol_size_gib = None,
      vol_backup = False\<rparr>"

definition template_spec :: "template \<Rightarrow> bool \<Rightarrow> app_spec option" where
  "template_spec t public =
     (if tpl_unavailable t \<noteq> None then None
      else Some
        \<lparr>spec_image = tpl_image t, spec_command = tpl_command t,
         spec_ports = map (template_port t public) (tpl_ports t),
         spec_memory_mib = tpl_memory_mib t, spec_cpu_millis = tpl_cpu_millis t,
         spec_env = map (\<lambda>(name, v). \<lparr>env_name = name, env_value = v\<rparr>) (tpl_env t),
         spec_secrets = [], spec_check = template_check t, spec_stop = stop_default,
         spec_volumes = map template_volume (case tpl_storage t of None \<Rightarrow> [] | Some s \<Rightarrow> [s])\<rparr>)"

section \<open>Image updates\<close>

datatype update_state = NotChecked | Current | Available | Pinned | Update_Error
datatype candidate_kind = Tag_Kind | Catalogue_Kind

record update_candidate =
  cand_reference :: string
  cand_digest :: string
  cand_kind :: candidate_kind
  cand_label :: string

record image_update =
  iu_base_release :: nat
  iu_current_image :: string
  iu_current_digest :: string
  iu_checked_at :: "time option"
  iu_state :: update_state
  iu_reason :: string
  iu_candidates :: "update_candidate list"

definition not_checked :: "nat \<Rightarrow> string \<Rightarrow> string \<Rightarrow> image_update" where
  "not_checked number img digest =
     \<lparr>iu_base_release = number, iu_current_image = img, iu_current_digest = digest,
      iu_checked_at = None, iu_state = NotChecked, iu_reason = ''not_checked'', iu_candidates = []\<rparr>"

fun catalogue_references ::
  "image_reference \<Rightarrow> template list \<Rightarrow> spec_error + (image_reference \<times> candidate_kind \<times> string) list" where
  "catalogue_references current [] = Inr []"
| "catalogue_references current (t # ts) =
     and_then (image_parse (tpl_image t)) (\<lambda>reference.
     and_then (catalogue_references current ts) (\<lambda>rest.
     Inr (if img_registry reference = img_registry current \<and> img_repository reference = img_repository current
          then (reference, Catalogue_Kind, tpl_title t @ '' catalogue image suggestion'') # rest
          else rest)))"

definition discovery_references ::
  "string \<Rightarrow> spec_error + (image_reference \<times> candidate_kind \<times> string) list" where
  "discovery_references img =
     and_then (image_parse img) (\<lambda>current.
     and_then (catalogue_references current (filter (\<lambda>t. tpl_unavailable t = None) CATALOGUE)) (\<lambda>references.
     Inr ((if img_tag current \<noteq> None then [(current\<lparr>img_digest := None\<rparr>, Tag_Kind, ''Same tag'')] else [])
          @ references)))"

definition updated_spec :: "app_spec \<Rightarrow> update_candidate \<Rightarrow> spec_error + app_spec" where
  "updated_spec base candidate =
     and_then (image_parse (spec_image base)) (\<lambda>original.
     and_then (image_parse (cand_reference candidate)) (\<lambda>reference.
     let reference =
       (if img_digest original \<noteq> None \<or> cand_kind candidate = Catalogue_Kind
        then reference\<lparr>img_digest := Some (cand_digest candidate)\<rparr> else reference)
     in spec_validate (base\<lparr>spec_image := image_display reference\<rparr>)))"

section \<open>The catalogue is sound\<close>

definition pinned_and_tagged :: "string \<Rightarrow> bool" where
  "pinned_and_tagged img \<longleftrightarrow>
     (case image_parse img of Inl _ \<Rightarrow> False | Inr r \<Rightarrow> img_digest r \<noteq> None \<and> img_tag r \<noteq> None)"

definition sound_spec :: "template \<Rightarrow> app_spec \<Rightarrow> bool" where
  "sound_spec t v \<longleftrightarrow>
     pinned_and_tagged (spec_image v) \<and>
     list_all (\<lambda>p. port_public p \<longrightarrow> tpl_publishable t = Some (port_name p)) (spec_ports v) \<and>
     list_all (\<lambda>x. x \<notin> env_name ` set (spec_env v)) (tpl_secret_variables t)"

definition sound_template :: "template \<Rightarrow> bool \<Rightarrow> bool" where
  "sound_template t public \<longleftrightarrow>
     app_name_parse (tpl_key t) = Inr (tpl_key t) \<and>
     (case template_spec t public of
        None \<Rightarrow> False
      | Some s \<Rightarrow> (case spec_validate s of Inl _ \<Rightarrow> False | Inr v \<Rightarrow> sound_spec t v))"

text \<open>The command is checked on its own: the start scripts are long.\<close>

definition bare :: "template \<Rightarrow> template" where
  "bare t = t\<lparr>tpl_command := []\<rparr>"

definition bare_sound :: "template \<Rightarrow> bool" where
  "bare_sound t \<longleftrightarrow> sound_template (bare t) True \<and> sound_template (bare t) False"

lemma spec_validate_command:
  "spec_validate s = Inr v \<Longrightarrow> command_problem cmd = None \<Longrightarrow>
   spec_validate (s\<lparr>spec_command := cmd\<rparr>) = Inr (v\<lparr>spec_command := cmd\<rparr>)"
  by (auto simp: spec_validate_def and_then_Inr Let_def unless_def split: option.splits)

lemma bare_simps [simp]:
  "tpl_command (bare t) = []" "tpl_key (bare t) = tpl_key t" "tpl_publishable (bare t) = tpl_publishable t"
  "tpl_secret_variables (bare t) = tpl_secret_variables t" "template_check (bare t) = template_check t"
  "template_port (bare t) = template_port t"
  by (simp_all add: bare_def template_check_def template_port_def fun_eq_iff split: option.splits)

lemma template_spec_bare:
  "template_spec t public = map_option (\<lambda>s. s\<lparr>spec_command := tpl_command t\<rparr>) (template_spec (bare t) public)"
  by (simp add: template_spec_def) (simp add: bare_def)

lemma sound_bare:
  assumes "bare_sound t" "command_problem (tpl_command t) = None"
  shows "sound_template t public"
proof -
  have "sound_template (bare t) public" using assms(1) by (cases public) (auto simp: bare_sound_def)
  then obtain s v where s: "template_spec (bare t) public = Some s" "spec_validate s = Inr v" "sound_spec (bare t) v"
    "app_name_parse (tpl_key t) = Inr (tpl_key t)"
    by (auto simp: sound_template_def split: option.splits sum.splits)
  have "template_spec t public = Some (s\<lparr>spec_command := tpl_command t\<rparr>)"
    using s(1) by (simp add: template_spec_bare[of t])
  moreover have "sound_spec t (v\<lparr>spec_command := tpl_command t\<rparr>)"
    using s(3) by (simp add: sound_spec_def)
  ultimately show ?thesis
    using s(4) spec_validate_command[OF s(2) assms(2)] by (simp add: sound_template_def)
qed

lemma nats_bare: "bare_sound nats_template" by code_simp
lemma whoami_bare: "bare_sound whoami_template" by code_simp
lemma nginx_bare: "bare_sound nginx_template" by code_simp
lemma postgres_bare: "bare_sound postgres_template" by code_simp
lemma redis_bare: "bare_sound redis_template" by code_simp
lemma seaweedfs_bare: "bare_sound seaweedfs_template" by code_simp

lemma catalogue_commands: "list_all (\<lambda>t. command_problem (tpl_command t) = None) CATALOGUE"
  by code_simp

lemma templates_sound: "list_all (\<lambda>t. sound_template t public) CATALOGUE"
proof -
  have "list_all bare_sound CATALOGUE"
    by (simp add: CATALOGUE_def nats_bare whoami_bare nginx_bare postgres_bare redis_bare seaweedfs_bare)
  then show ?thesis using catalogue_commands sound_bare by (auto simp: list_all_iff)
qed

lemma find_template_in: "find_template key = Some t \<Longrightarrow> t \<in> set CATALOGUE \<and> tpl_key t = key"
  by (auto simp: find_template_def dest: find_SomeD)

text \<open>
  Every app of the catalogue can be deployed, published or not: its key is an app name, its spec
  passes the validation of apps, its image keeps a tag and is pinned by a digest, only its
  publishable port is ever public, no generated secret is given as a plain variable; and the file
  written for it declares it.
\<close>

theorem catalogue_deploys:
  assumes "find_template key = Some t"
  shows "\<exists>s v d. template_spec t public = Some s \<and> spec_validate s = Inr v \<and> sound_spec t v \<and>
    app_name_parse key = Inr key \<and>
    normalize_app key (file_app_of v app_settings_default) = Inr d \<and> dec_spec d = v \<and>
    settings_validate (dec_settings d) = Inr app_settings_default"
proof -
  have "sound_template t public"
    using find_template_in[OF assms] templates_sound by (auto simp: list_all_iff)
  then obtain s v where s: "template_spec t public = Some s" "spec_validate s = Inr v" "sound_spec t v"
    "app_name_parse key = Inr key"
    using find_template_in[OF assms] by (auto simp: sound_template_def split: option.splits sum.splits)
  have d: "settings_validate settings_input_default = Inr app_settings_default" by code_simp
  have "set_copies app_settings_default = 1" "inp_kind (as_input app_settings_default) = []" by code_simp+
  then have "set_copies app_settings_default = 1 \<and> \<not> block_mismatch v (as_input app_settings_default)"
    by (simp add: block_mismatch_def)
  then show ?thesis using file_declares[OF s(2) d, of key] s by blast
qed

theorem catalogue_deploys_witness:
  "\<exists>t s v. find_template ''postgres'' = Some t \<and> template_spec t False = Some s \<and>
     spec_validate s = Inr v \<and> sound_spec t v"
proof -
  have "find_template ''postgres'' \<noteq> None" by code_simp
  then obtain t where t: "find_template ''postgres'' = Some t" by blast
  from catalogue_deploys[OF t, of False] t show ?thesis by blast
qed

section \<open>Updates change the image only\<close>

lemma spec_validate_other_image:
  assumes "spec_ok base" "spec_validate (base\<lparr>spec_image := img\<rparr>) = Inr t"
  shows "t = base\<lparr>spec_image := trim img\<rparr> \<and> (\<exists>r. image_parse img = Inr r)"
proof -
  obtain r where r: "image_parse img = Inr r" using assms(2) by (auto simp: spec_validate_def and_then_Inr)
  have trimmed: "image_parse (trim img) = image_parse img" by (simp add: image_parse_def)
  have "spec_ok (base\<lparr>spec_image := trim img\<rparr>)" using assms(1) r trimmed by (auto simp: spec_ok_def)
  then have "spec_validate (base\<lparr>spec_image := trim img\<rparr>) = Inr (base\<lparr>spec_image := trim img\<rparr>)"
    by (rule spec_validate_again)
  moreover have "spec_validate (base\<lparr>spec_image := trim img\<rparr>) = spec_validate (base\<lparr>spec_image := img\<rparr>)"
    by (simp add: spec_validate_def trimmed Let_def)
  ultimately show ?thesis using assms(2) r by simp
qed

lemma catalogue_references_Inr:
  "list_all (\<lambda>t. pinned_and_tagged (tpl_image t)) ts \<Longrightarrow> \<exists>rs. catalogue_references c ts = Inr rs"
  by (induction ts) (auto simp: pinned_and_tagged_def split: sum.splits)

lemma catalogue_references_same:
  "catalogue_references c ts = Inr rs \<Longrightarrow> list_all (\<lambda>t. pinned_and_tagged (tpl_image t)) ts \<Longrightarrow>
   (r, k, l) \<in> set rs \<Longrightarrow>
   img_registry r = img_registry c \<and> img_repository r = img_repository c \<and> k = Catalogue_Kind \<and>
   img_digest r \<noteq> None"
  by (induction ts arbitrary: rs)
    (auto simp: and_then_Inr pinned_and_tagged_def split: if_splits sum.splits)

lemma nats_pinned: "pinned_and_tagged NATS_IMAGE" by code_simp
lemma whoami_pinned: "pinned_and_tagged WHOAMI_IMAGE" by code_simp
lemma nginx_pinned: "pinned_and_tagged NGINX_IMAGE" by code_simp
lemma postgres_pinned: "pinned_and_tagged POSTGRES_IMAGE" by code_simp
lemma redis_pinned: "pinned_and_tagged REDIS_IMAGE" by code_simp
lemma seaweedfs_pinned: "pinned_and_tagged SEAWEEDFS_IMAGE" by code_simp

lemma catalogue_images: "list_all (\<lambda>t. pinned_and_tagged (tpl_image t)) CATALOGUE"
  by (simp add: CATALOGUE_def nats_template_def nats_pinned whoami_template_def whoami_pinned nginx_template_def nginx_pinned postgres_template_def postgres_pinned redis_template_def redis_pinned seaweedfs_template_def seaweedfs_pinned)

text \<open>
  Discovery finds references for every image that parses, all of the image's own registry and
  repository: its tag with the digest removed, to be resolved again, and the catalogue's images,
  each pinned.
\<close>

theorem discovery_same_repository:
  assumes "image_parse img = Inr current"
  shows "\<exists>rs. discovery_references img = Inr rs \<and>
    list_all (\<lambda>(r, kind, _). img_registry r = img_registry current \<and>
      img_repository r = img_repository current \<and>
      (kind = Tag_Kind \<longrightarrow> img_tag r = img_tag current \<and> img_digest r = None) \<and>
      (kind = Catalogue_Kind \<longrightarrow> img_digest r \<noteq> None)) rs"
proof -
  let ?ts = "filter (\<lambda>t. tpl_unavailable t = None) CATALOGUE"
  have ts: "list_all (\<lambda>t. pinned_and_tagged (tpl_image t)) ?ts"
    using catalogue_images by (auto simp: list_all_iff)
  then obtain rs where rs: "catalogue_references current ?ts = Inr rs"
    using catalogue_references_Inr by blast
  show ?thesis
    using catalogue_references_same[OF rs ts] assms rs
    by (auto simp: discovery_references_def list_all_iff)
qed

theorem discovery_same_repository_witness:
  "\<exists>rs. discovery_references ''nginx:1.26'' = Inr rs \<and>
     list_all (\<lambda>(r, _, _). img_repository r = ''library/nginx'') rs"
proof -
  have "image_parse ''nginx:1.26'' =
      Inr \<lparr>img_registry = ''docker.io'', img_repository = ''library/nginx'', img_tag = Some ''1.26'', img_digest = None\<rparr>"
    by code_simp
  from discovery_same_repository[OF this] show ?thesis by (auto simp: list_all_iff)
qed

text \<open>
  An approved update changes the image and nothing else of a valid spec. The new image is of the
  candidate's registry, repository and tag; when the running image was pinned, or the candidate is
  from the catalogue, it is pinned to exactly the digest that was approved.
\<close>

theorem update_changes_only_the_image:
  assumes "spec_ok base" "updated_spec base candidate = Inr spec" "is_digest (cand_digest candidate)"
  shows "\<exists>original reference new.
    image_parse (spec_image base) = Inr original \<and>
    image_parse (cand_reference candidate) = Inr reference \<and>
    spec = base\<lparr>spec_image := spec_image spec\<rparr> \<and> spec_ok spec \<and>
    image_parse (spec_image spec) = Inr new \<and>
    img_registry new = img_registry reference \<and> img_repository new = img_repository reference \<and>
    img_tag new = img_tag reference \<and>
    img_digest new =
      (if img_digest original \<noteq> None \<or> cand_kind candidate = Catalogue_Kind
       then Some (cand_digest candidate) else img_digest reference)"
proof -
  obtain original reference where o: "image_parse (spec_image base) = Inr original"
    "image_parse (cand_reference candidate) = Inr reference"
    using assms(2) by (auto simp: updated_spec_def and_then_Inr)
  define new where "new = (if img_digest original \<noteq> None \<or> cand_kind candidate = Catalogue_Kind
    then reference\<lparr>img_digest := Some (cand_digest candidate)\<rparr> else reference)"
  have v: "spec_validate (base\<lparr>spec_image := image_display new\<rparr>) = Inr spec"
    using assms(2) o by (simp add: updated_spec_def new_def)
  obtain r where r: "spec = base\<lparr>spec_image := trim (image_display new)\<rparr>" "image_parse (image_display new) = Inr r"
    using spec_validate_other_image[OF assms(1) v] by blast
  have "image_ok new" using image_parse_ok[OF o(2)] assms(3) by (auto simp: new_def image_ok_def)
  from image_parse_displayed[OF r(2) this] have "r = new" .
  moreover have "image_parse (spec_image spec) = Inr r" using r by (simp add: image_parse_def)
  ultimately show ?thesis
    using o r spec_validate_ok[OF v] by (auto simp: new_def)
qed

theorem update_changes_only_the_image_witness:
  "\<exists>base spec new. updated_spec base
       \<lparr>cand_reference = NGINX_IMAGE, cand_digest = drop 18 NGINX_IMAGE, cand_kind = Catalogue_Kind, cand_label = []\<rparr>
     = Inr spec \<and> spec = base\<lparr>spec_image := spec_image spec\<rparr> \<and> image_parse (spec_image spec) = Inr new \<and>
     img_digest new = Some (drop 18 NGINX_IMAGE)"
proof -
  let ?base = "demo_spec\<lparr>spec_memory_mib := 512, spec_cpu_millis := 1000,
      spec_stop := \<lparr>stop_signal = ''SIGINT'', stop_grace_seconds = 30\<rparr>\<rparr>"
  let ?c = "\<lparr>cand_reference = NGINX_IMAGE, cand_digest = drop 18 NGINX_IMAGE, cand_kind = Catalogue_Kind,
      cand_label = []\<rparr>"
  have "spec_validate demo_spec = Inr ?base" by code_simp
  then have ok: "spec_ok ?base" by (rule spec_validate_ok)
  have "\<not> (case updated_spec ?base ?c of Inl _ \<Rightarrow> True | Inr _ \<Rightarrow> False)" by code_simp
  then obtain spec where s: "updated_spec ?base ?c = Inr spec" by (auto split: sum.splits)
  have "is_digest (cand_digest ?c)" by code_simp
  from update_changes_only_the_image[OF ok s this] obtain new where
    "spec = ?base\<lparr>spec_image := spec_image spec\<rparr>" "image_parse (spec_image spec) = Inr new"
    "img_digest new = Some (cand_digest ?c)" by auto
  with s show ?thesis by (intro exI[of _ ?base] exI[of _ spec] exI[of _ new]) simp
qed

end
