(* ===== verification/Net_Bytes.thy ===== *)
theory Net_Bytes
  imports Prelude "HOL-Library.Word"
begin

text \<open>
  Bytes on the private network: octets as 8-bit words, an \<open>Ipv6Addr\<close> as its sixteen octets, and the
  big-endian encodings of \<open>u16\<close> and \<open>u64\<close>.
\<close>

unbundle bit_operations_syntax

type_synonym octet = "8 word"
type_synonym ipv6 = "octet list"

text \<open>\<open>u16::from_be_bytes\<close>.\<close>

definition be16 :: "octet \<Rightarrow> octet \<Rightarrow> nat" where
  "be16 a b = 256 * unat a + unat b"

text \<open>\<open>slice.get(at..at + n)\<close>.\<close>

definition get_range :: "'a list \<Rightarrow> nat \<Rightarrow> nat \<Rightarrow> 'a list option" where
  "get_range xs from n = (if from + n \<le> length xs then Some (take n (drop from xs)) else None)"

text \<open>\<open>to_be_bytes\<close> and \<open>from_be_bytes\<close>, for any number of bytes.\<close>

fun be_bytes :: "nat \<Rightarrow> 'a::len word \<Rightarrow> octet list" where
  "be_bytes 0 w = []"
| "be_bytes (Suc k) w = be_bytes k (drop_bit 8 w) @ [ucast w]"

definition of_be_bytes :: "octet list \<Rightarrow> 'a::len word" where
  "of_be_bytes bs = foldl (\<lambda>w b. push_bit 8 w OR ucast b) 0 bs"

lemma length_be_bytes [simp]: "length (be_bytes k w) = k"
  by (induction k w rule: be_bytes.induct) simp_all

lemma low_byte: "ucast (ucast w :: octet) = take_bit 8 (w :: 'a::len word)"
  by (rule bit_word_eqI) (auto simp: bit_simps)

lemma one_more_byte: "push_bit 8 (take_bit (8 * k) (drop_bit 8 w)) OR take_bit 8 w = take_bit (8 * Suc k) (w :: 'a::len word)"
proof (rule bit_word_eqI)
  fix n assume "n < LENGTH('a)"
  then show "bit (push_bit 8 (take_bit (8 * k) (drop_bit 8 w)) OR take_bit 8 w) n = bit (take_bit (8 * Suc k) w) n"
    by (cases "n < 8") (auto simp: bit_simps)
qed

lemma of_be_bytes_take: "of_be_bytes (be_bytes k w) = take_bit (8 * k) (w :: 'a::len word)"
proof (induction k w rule: be_bytes.induct)
  case (2 k w)
  have "of_be_bytes (be_bytes (Suc k) w) = push_bit 8 (of_be_bytes (be_bytes k (drop_bit 8 w)) :: 'a word) OR ucast (ucast w :: octet)"
    by (simp add: of_be_bytes_def)
  also have "\<dots> = take_bit (8 * Suc k) w" unfolding 2 low_byte by (rule one_more_byte)
  finally show ?case .
qed (simp add: of_be_bytes_def)

definition u16_bytes :: "16 word \<Rightarrow> octet list" where
  "u16_bytes i = be_bytes 2 i"

definition u16_of_bytes :: "octet \<Rightarrow> octet \<Rightarrow> 16 word" where
  "u16_of_bytes a b = of_be_bytes [a, b]"

definition u64_bytes :: "64 word \<Rightarrow> octet list" where
  "u64_bytes w = be_bytes 8 w"

definition u64_of_bytes :: "octet list \<Rightarrow> 64 word" where
  "u64_of_bytes bs = of_be_bytes bs"

lemma u16_bytes_list: "u16_bytes i = [ucast (drop_bit 8 i), ucast i]"
  by (simp add: u16_bytes_def numeral_2_eq_2)

lemma take_bit_full: "LENGTH('a) \<le> n \<Longrightarrow> take_bit n (w :: 'a::len word) = w"
  by (rule bit_word_eqI) (simp add: bit_simps)

lemma u16_round_trip: "u16_of_bytes (ucast (drop_bit 8 i)) (ucast i) = i"
  using of_be_bytes_take[of 2 i] unfolding u16_bytes_def[symmetric] u16_bytes_list
  by (simp add: u16_of_bytes_def take_bit_full)

lemma u64_round_trip: "u64_of_bytes (u64_bytes w) = w"
  by (simp add: u64_of_bytes_def u64_bytes_def of_be_bytes_take take_bit_full)

lemma u16_bytes_inject: "u16_bytes a = u16_bytes b \<longleftrightarrow> a = b"
  unfolding u16_bytes_list by (metis list.inject u16_round_trip)

lemma length_bytes [simp]: "length (u16_bytes i) = 2" "length (u64_bytes w) = 8"
  by (simp_all add: u16_bytes_def u64_bytes_def)

end
