(* ===== verification/Net_Filter.thy ===== *)
theory Net_Filter
  imports Maps Net_Bytes
begin

text \<open>
  The private network's inbound filter (\<open>grund-net/src/filter.rs\<close>): IPv6 headers read byte by byte,
  the flows a machine started, and what an inbound packet is. An \<open>Instant\<close> is a time, the table
  of flows its entries.
\<close>

section \<open>Time\<close>

text \<open>\<open>Instant::duration_since\<close>, which saturates.\<close>

definition since :: "time \<Rightarrow> time \<Rightarrow> duration" where
  "since now seen = max 0 (now - seen)"

section \<open>The filter\<close>

definition TCP_IDLE :: duration where "TCP_IDLE = seconds (60 * 60)"
definition UDP_IDLE :: duration where "UDP_IDLE = seconds 120"
definition MAX_FLOWS :: nat where "MAX_FLOWS = 65536"
definition TCP :: octet where "TCP = 6"
definition UDP :: octet where "UDP = 17"
definition ICMPV6 :: octet where "ICMPV6 = 58"

datatype transport = Tcp_Port | Udp_Port

record port =
  pt_transport :: transport
  pt_number :: nat

datatype inbound = Declared | Reply | Icmp | Closed

definition admitted :: "inbound \<Rightarrow> bool" where
  "admitted i \<longleftrightarrow> i \<noteq> Closed"

record flow =
  fl_transport :: octet
  fl_local_port :: nat
  fl_remote :: ipv6
  fl_remote_port :: nat

type_synonym flows = "(flow \<times> time) list"

record parsed =
  pa_transport :: octet
  pa_src :: ipv6
  pa_dst :: ipv6
  pa_src_port :: nat
  pa_dst_port :: nat
  pa_icmp_type :: octet

text \<open>The loop over the extension headers: each is at least eight bytes long.\<close>

function parse_headers :: "octet list \<Rightarrow> ipv6 \<Rightarrow> ipv6 \<Rightarrow> octet \<Rightarrow> nat \<Rightarrow> parsed option" where
  "parse_headers packet src dst header pos =
     (if header \<in> {0, 43, 60} then
        (case get_range packet pos 2 of
           None \<Rightarrow> None
         | Some h \<Rightarrow> parse_headers packet src dst (h ! 0) (pos + (unat (h ! 1) + 1) * 8))
      else if header = TCP \<or> header = UDP then
        (case get_range packet pos 4 of
           None \<Rightarrow> None
         | Some p \<Rightarrow> Some
             \<lparr>pa_transport = header, pa_src = src, pa_dst = dst, pa_src_port = be16 (p ! 0) (p ! 1),
              pa_dst_port = be16 (p ! 2) (p ! 3), pa_icmp_type = 0\<rparr>)
      else if header = ICMPV6 then
        (case get_range packet pos 1 of
           None \<Rightarrow> None
         | Some t \<Rightarrow> Some
             \<lparr>pa_transport = ICMPV6, pa_src = src, pa_dst = dst, pa_src_port = 0, pa_dst_port = 0,
              pa_icmp_type = t ! 0\<rparr>)
      else None)"
  by pat_completeness auto
termination
  by (relation "measure (\<lambda>(packet, _, _, _, pos). length packet - pos)")
    (auto simp: get_range_def split: if_splits)

declare parse_headers.simps [simp del]

definition parse_packet :: "octet list \<Rightarrow> parsed option" where
  "parse_packet packet =
     (if length packet < 40 \<or> drop_bit 4 (packet ! 0) \<noteq> 6 then None
      else parse_headers packet (take 16 (drop 8 packet)) (take 16 (drop 24 packet)) (packet ! 6) 40)"

definition idle :: "octet \<Rightarrow> duration" where
  "idle tr = (if tr = TCP then TCP_IDLE else UDP_IDLE)"

definition carries_ports :: "parsed \<Rightarrow> bool" where
  "carries_ports p \<longleftrightarrow> pa_transport p = TCP \<or> pa_transport p = UDP"

definition make_room :: "time \<Rightarrow> flows \<Rightarrow> flows" where
  "make_room now fs =
     (let fs = filter (\<lambda>(f, seen). since now seen < idle (fl_transport f)) fs in
      if length fs \<ge> MAX_FLOWS then
        let ages = sort (map snd fs); cut = ages ! (length ages div 2) in
        filter (\<lambda>(_, seen). seen > cut) fs
      else fs)"

definition outbound_flow :: "parsed \<Rightarrow> flow" where
  "outbound_flow p =
     \<lparr>fl_transport = pa_transport p, fl_local_port = pa_src_port p, fl_remote = pa_dst p,
      fl_remote_port = pa_dst_port p\<rparr>"

definition inbound_flow :: "parsed \<Rightarrow> flow" where
  "inbound_flow p =
     \<lparr>fl_transport = pa_transport p, fl_local_port = pa_dst_port p, fl_remote = pa_src p,
      fl_remote_port = pa_src_port p\<rparr>"

definition note_outbound :: "octet list \<Rightarrow> time \<Rightarrow> flows \<Rightarrow> flows" where
  "note_outbound packet now fs =
     (case parse_packet packet of
        None \<Rightarrow> fs
      | Some p \<Rightarrow>
          if \<not> carries_ports p then fs
          else
            let f = outbound_flow p in
            im_insert f now (if length fs \<ge> MAX_FLOWS \<and> map_of fs f = None then make_room now fs else fs))"

definition icmp_passes :: "octet \<Rightarrow> bool" where
  "icmp_passes t \<longleftrightarrow> 1 \<le> t \<and> t \<le> 4 \<or> t = 128 \<or> t = 129"

definition declared_port :: "port list \<Rightarrow> parsed \<Rightarrow> bool" where
  "declared_port declared p \<longleftrightarrow>
     (let tr = (if pa_transport p = TCP then Tcp_Port else Udp_Port) in
      list_ex (\<lambda>d. pt_transport d = tr \<and> pt_number d = pa_dst_port p) declared)"

definition inbound_packet :: "octet list \<Rightarrow> port list \<Rightarrow> time \<Rightarrow> flows \<Rightarrow> inbound" where
  "inbound_packet packet declared now fs =
     (case parse_packet packet of
        None \<Rightarrow> Closed
      | Some p \<Rightarrow>
          if pa_transport p = ICMPV6 then (if icmp_passes (pa_icmp_type p) then Icmp else Closed)
          else if declared_port declared p then Declared
          else if is_some_and (map_of fs (inbound_flow p)) (\<lambda>seen. since now seen < idle (pa_transport p))
          then Reply else Closed)"

section \<open>The table of flows\<close>

text \<open>The table after the packets a machine sent, each with its time.\<close>

definition flows_after :: "(octet list \<times> time) list \<Rightarrow> flows" where
  "flows_after sent = fold (\<lambda>(packet, t). note_outbound packet t) sent []"

definition started :: "(octet list \<times> time) list \<Rightarrow> flow \<Rightarrow> time \<Rightarrow> bool" where
  "started sent f t \<longleftrightarrow>
     (\<exists>packet p. (packet, t) \<in> set sent \<and> parse_packet packet = Some p \<and> carries_ports p \<and> outbound_flow p = f)"

lemma flows_after_snoc: "flows_after (sent @ [(packet, t)]) = note_outbound packet t (flows_after sent)"
  by (simp add: flows_after_def)

text \<open>At most half of the values are larger than the one in the middle.\<close>

lemma larger_than_middle:
  fixes xs :: "'a :: linorder list"
  assumes "xs \<noteq> []"
  shows "2 * length (filter (\<lambda>x. x > sort xs ! (length xs div 2)) xs) \<le> length xs"
proof -
  let ?s = "sort xs" and ?n = "length xs div 2"
  let ?P = "\<lambda>x. x > ?s ! ?n"
  have n: "?n < length ?s" using assms by (cases xs) auto
  have "length (filter ?P xs) = length (filter ?P ?s)"
    by (metis filter_sort length_sort)
  also have "filter ?P ?s = filter ?P (take (Suc ?n) ?s) @ filter ?P (drop (Suc ?n) ?s)"
    by (metis append_take_drop_id filter_append)
  also have "filter ?P (take (Suc ?n) ?s) = []"
  proof -
    have "\<not> ?P x" if "x \<in> set (take (Suc ?n) ?s)" for x
    proof -
      obtain i where "i < Suc ?n" "i < length ?s" "x = ?s ! i"
        using \<open>x \<in> set (take (Suc ?n) ?s)\<close> by (auto simp: in_set_conv_nth)
      then show ?thesis using sorted_nth_mono[of ?s i ?n] n by simp
    qed
    then show ?thesis by (auto simp: filter_empty_conv)
  qed
  finally have "length (filter ?P xs) \<le> length ?s - Suc ?n" by (metis append_Nil length_drop length_filter_le)
  then show ?thesis by simp
qed

lemma make_room_length:
  assumes "length fs \<le> MAX_FLOWS"
  shows "length (make_room now fs) < MAX_FLOWS"
proof -
  let ?f = "filter (\<lambda>(f, seen). since now seen < idle (fl_transport f)) fs"
  let ?cut = "sort (map snd ?f) ! (length (map snd ?f) div 2)"
  have small: "length (filter (\<lambda>(_, seen). seen > c) ps) = length (filter (\<lambda>x. x > c) (map snd ps))"
    for c and ps :: flows
    by (induction ps) auto
  have le: "length ?f \<le> MAX_FLOWS" using assms length_filter_le le_trans by blast
  show ?thesis
  proof (cases "length ?f < MAX_FLOWS")
    case True
    then show ?thesis by (simp add: make_room_def Let_def)
  next
    case False
    then have "map snd ?f \<noteq> []" by (auto simp: MAX_FLOWS_def)
    from larger_than_middle[OF this]
    have "2 * length (filter (\<lambda>(_, seen). seen > ?cut) ?f) \<le> length ?f" by (simp only: small length_map)
    moreover have "make_room now fs = filter (\<lambda>(_, seen). seen > ?cut) ?f"
      using False unfolding make_room_def Let_def length_sort by (simp only: not_less if_True length_map)
    ultimately show ?thesis using le False by (simp only: MAX_FLOWS_def)
  qed
qed

lemma make_room_subset: "set (make_room now fs) \<subseteq> set fs"
  by (auto simp: make_room_def Let_def)

lemma distinct_map_filter_fst: "distinct (map fst ps) \<Longrightarrow> distinct (map fst (filter P ps))"
  by (induction ps) auto

lemma make_room_distinct: "distinct (map fst fs) \<Longrightarrow> distinct (map fst (make_room now fs))"
  by (simp add: make_room_def Let_def distinct_map_filter_fst)

lemma note_outbound_bounded:
  assumes "length fs \<le> MAX_FLOWS" "distinct (map fst fs)"
  shows "length (note_outbound packet t fs) \<le> MAX_FLOWS \<and> distinct (map fst (note_outbound packet t fs))"
  using assms make_room_length[OF assms(1), of t] make_room_distinct[OF assms(2), of t]
  by (auto simp: note_outbound_def Let_def im_insert_length im_insert_distinct map_of_eq_None_iff
      split: option.splits)

lemma note_outbound_mem:
  "(f, t') \<in> set (note_outbound packet t fs) \<Longrightarrow>
   (f, t') \<in> set fs \<or> (t' = t \<and> (\<exists>p. parse_packet packet = Some p \<and> carries_ports p \<and> outbound_flow p = f))"
proof -
  have ins: "(a, b) \<in> set (im_insert k v ps) \<Longrightarrow> (a, b) \<in> set ps \<or> (a = k \<and> b = v)"
    for a b k v and ps :: flows
    by (induction ps) (auto split: if_splits)
  show "(f, t') \<in> set (note_outbound packet t fs) \<Longrightarrow> ?thesis"
    using make_room_subset[of t fs]
    by (auto simp: note_outbound_def Let_def split: option.splits if_splits dest!: ins)
qed

lemma flows_after_mem: "(f, t) \<in> set (flows_after sent) \<Longrightarrow> started sent f t"
proof (induction sent arbitrary: f t rule: rev_induct)
  case (snoc x sent)
  obtain packet s where x: "x = (packet, s)" by fastforce
  consider "(f, t) \<in> set (flows_after sent)"
    | "t = s" "\<exists>p. parse_packet packet = Some p \<and> carries_ports p \<and> outbound_flow p = f"
    using note_outbound_mem[of f t packet s "flows_after sent"] snoc.prems by (auto simp: x flows_after_snoc)
  then show ?case
  proof cases
    case 1
    then show ?thesis using snoc.IH by (fastforce simp: started_def)
  next
    case 2
    then show ?thesis by (auto simp: x started_def)
  qed
qed (simp add: flows_after_def)

lemma icmp_types: "icmp_passes t \<Longrightarrow> t \<in> {1, 2, 3, 4, 128, 129}"
proof -
  have "unat t = 1 \<or> unat t = 2 \<or> unat t = 3 \<or> unat t = 4" if "1 \<le> t" "t \<le> 4"
    using that by (simp add: word_le_nat_alt) linarith
  then show "icmp_passes t \<Longrightarrow> ?thesis"
    unfolding icmp_passes_def by (auto simp: word_unat_eq_iff)
qed

lemma inbound_admitted:
  assumes "admitted (inbound_packet packet declared now fs)" "\<And>f t. (f, t) \<in> set fs \<Longrightarrow> started sent f t"
  shows "\<exists>p. parse_packet packet = Some p \<and>
    (pa_transport p = ICMPV6 \<and> pa_icmp_type p \<in> {1, 2, 3, 4, 128, 129} \<or>
     declared_port declared p \<or>
     (\<exists>t. started sent (inbound_flow p) t \<and> since now t < idle (pa_transport p)))"
proof -
  obtain p where p: "parse_packet packet = Some p"
    using assms(1) by (auto simp: inbound_packet_def admitted_def split: option.splits)
  consider "pa_transport p = ICMPV6" "icmp_passes (pa_icmp_type p)" | "declared_port declared p"
    | t where "map_of fs (inbound_flow p) = Some t" "since now t < idle (pa_transport p)"
    using assms(1) p by (auto simp: inbound_packet_def admitted_def is_some_and_iff split: if_splits)
  then show ?thesis
  proof cases
    case 1
    then show ?thesis using p icmp_types by blast
  next
    case 3
    then have "started sent (inbound_flow p) t" using assms(2) map_of_SomeD by metis
    with 3(2) p show ?thesis by blast
  qed (use p in blast)
qed

section \<open>Properties\<close>

text \<open>
  The table of flows never holds more than its limit, each flow once, whatever the machine sends
  and at whatever times.
\<close>

theorem flow_table_bounded:
  "length (flows_after sent) \<le> MAX_FLOWS \<and> distinct (map fst (flows_after sent))"
proof (induction sent rule: rev_induct)
  case (snoc x sent)
  then show ?case using note_outbound_bounded by (cases x) (simp add: flows_after_snoc)
qed (simp add: flows_after_def)

text \<open>
  The network is closed by default. Whatever a machine has sent, an inbound packet is admitted
  only if its headers can be read and it is one of: ICMPv6 of a type that IPv6 needs or an echo; to a
  declared port over the declared transport; or a reply, from exactly the address and port the
  machine sent to, back to the port it sent from, over the same transport, while the flow is not idle.
\<close>

theorem closed_by_default:
  assumes "admitted (inbound_packet packet declared now (flows_after sent))"
  shows "\<exists>p. parse_packet packet = Some p \<and>
    (pa_transport p = ICMPV6 \<and> pa_icmp_type p \<in> {1, 2, 3, 4, 128, 129} \<or>
     declared_port declared p \<or>
     (\<exists>t. started sent (inbound_flow p) t \<and> since now t < idle (pa_transport p)))"
  by (rule inbound_admitted[OF assms flows_after_mem])

text \<open>
  Replies get in: right after a machine sends a packet with ports, and until the flow is idle, a
  packet with the addresses and ports swapped is admitted, however full the table was.
\<close>

theorem replies_pass:
  assumes "parse_packet out = Some q" "carries_ports q" "parse_packet packet = Some p"
    "pa_transport p = pa_transport q" "pa_src p = pa_dst q" "pa_src_port p = pa_dst_port q"
    "pa_dst_port p = pa_src_port q" "since now t < idle (pa_transport q)"
  shows "admitted (inbound_packet packet declared now (note_outbound out t fs))"
proof -
  have "inbound_flow p = outbound_flow q" using assms by (simp add: inbound_flow_def outbound_flow_def)
  moreover have "map_of (note_outbound out t fs) (outbound_flow q) = Some t"
    using assms(1,2) by (simp add: note_outbound_def Let_def im_insert_get)
  moreover have "pa_transport p \<noteq> ICMPV6"
    using assms(2,4) by (auto simp: carries_ports_def TCP_def UDP_def ICMPV6_def)
  ultimately show ?thesis using assms(3,4,8) by (simp add: inbound_packet_def admitted_def)
qed

section \<open>Two packets\<close>

definition demo_host :: "octet \<Rightarrow> ipv6" where
  "demo_host n = [0xfd, 0x12, 0x34, 0x56, 0x78, 0x9a, 0, n, 0, 0, 0, 0, 0, 0, 0, 1]"

definition demo_packet :: "ipv6 \<Rightarrow> ipv6 \<Rightarrow> octet list \<Rightarrow> octet list" where
  "demo_packet src dst ports = [0x60, 0, 0, 0, 0, 4, 6, 64] @ src @ dst @ ports"

text \<open>From port 51000 of one member to port 5432 of another, and back.\<close>

definition demo_out :: "octet list" where
  "demo_out = demo_packet (demo_host 1) (demo_host 2) [0xc7, 0x38, 0x15, 0x38]"

definition demo_reply :: "octet list" where
  "demo_reply = demo_packet (demo_host 2) (demo_host 1) [0x15, 0x38, 0xc7, 0x38]"

lemma demo_parsed:
  "parse_packet demo_out = Some \<lparr>pa_transport = TCP, pa_src = demo_host 1, pa_dst = demo_host 2,
     pa_src_port = 51000, pa_dst_port = 5432, pa_icmp_type = 0\<rparr>"
  "parse_packet demo_reply = Some \<lparr>pa_transport = TCP, pa_src = demo_host 2, pa_dst = demo_host 1,
     pa_src_port = 5432, pa_dst_port = 51000, pa_icmp_type = 0\<rparr>"
  by code_simp+

lemma replies_pass_admits:
  "admitted (inbound_packet demo_reply [] (seconds 5) (note_outbound demo_out 0 []))"
  by code_simp

theorem replies_pass_witness:
  "admitted (inbound_packet demo_reply [] (seconds 5) (note_outbound demo_out 0 []))"
  by (rule replies_pass[OF demo_parsed(1) _ demo_parsed(2)])
    (simp_all add: carries_ports_def since_def idle_def TCP_IDLE_def seconds_def)

theorem closed_by_default_witness:
  "started [(demo_out, 0)] (inbound_flow \<lparr>pa_transport = TCP, pa_src = demo_host 2, pa_dst = demo_host 1,
     pa_src_port = 5432, pa_dst_port = 51000, pa_icmp_type = 0\<rparr>) 0"
proof -
  have "flows_after [(demo_out, 0)] = note_outbound demo_out 0 []" by (simp add: flows_after_def)
  then have "admitted (inbound_packet demo_reply [] (seconds 5) (flows_after [(demo_out, 0)]))"
    using replies_pass_admits by simp
  from closed_by_default[OF this] obtain t where
    t: "started [(demo_out, 0)] (inbound_flow \<lparr>pa_transport = TCP, pa_src = demo_host 2, pa_dst = demo_host 1,
      pa_src_port = 5432, pa_dst_port = 51000, pa_icmp_type = 0\<rparr>) t"
    by (auto simp: demo_parsed TCP_def ICMPV6_def declared_port_def)
  then have "t = 0" by (auto simp: started_def)
  with t show ?thesis by simp
qed

end
