(* ===== verification/Net_Frame.thy ===== *)
theory Net_Frame
  imports Net_Filter
begin

text \<open>
  How an IP packet travels in QUIC datagrams (\<open>grund-net/src/frame.rs\<close>): whole behind one byte, or
  in two parts behind four, put back together within 50 ms.
\<close>

unbundle bit_operations_syntax

section \<open>Framing\<close>

definition REASSEMBLY_TIMEOUT :: duration where "REASSEMBLY_TIMEOUT = 50 * 1000000"
definition WHOLE :: octet where "WHOLE = 0"
definition PART :: octet where "PART = 1"
definition PART_HEADER :: nat where "PART_HEADER = 4"

definition part_datagram :: "16 word \<Rightarrow> octet \<Rightarrow> octet list \<Rightarrow> octet list" where
  "part_datagram i index part = PART # u16_bytes i @ index # part"

text \<open>The framer's state is the id it used last.\<close>

definition frame_packet :: "octet list \<Rightarrow> nat \<Rightarrow> 16 word \<Rightarrow> octet list list \<times> 16 word" where
  "frame_packet packet max_datagram next_id =
     (if length packet < max_datagram then ([WHOLE # packet], next_id)
      else
        let room = max_datagram - PART_HEADER in
        if room = 0 \<or> length packet > room * 2 then ([], next_id)
        else
          let next_id = next_id + 1 in
          ([part_datagram next_id 0 (take room packet), part_datagram next_id 1 (drop room packet)], next_id))"

section \<open>Reassembly\<close>

type_synonym halves = "octet list option \<times> octet list option"

record reassembler =
  ra_waiting :: "(16 word \<times> time \<times> halves) list"
  ra_expired :: nat

definition put_half :: "bool \<Rightarrow> octet list \<Rightarrow> halves \<Rightarrow> halves" where
  "put_half second part h = (if second then (fst h, Some part) else (Some part, snd h))"

definition still_waiting :: "time \<Rightarrow> (16 word \<times> time \<times> halves) list \<Rightarrow> (16 word \<times> time \<times> halves) list" where
  "still_waiting now ws = filter (\<lambda>(_, t, _). since now t < REASSEMBLY_TIMEOUT) ws"

definition push_part :: "16 word \<Rightarrow> bool \<Rightarrow> octet list \<Rightarrow> time \<Rightarrow> reassembler \<Rightarrow> octet list option \<times> reassembler" where
  "push_part i second part now r =
     (let waiting = still_waiting now (ra_waiting r);
          expired = u64_add (ra_expired r) (length (ra_waiting r) - length waiting);
          (t, h) = unwrap_or (map_of waiting i) (now, None, None);
          h = put_half second part h
      in case h of
           (Some a, Some b) \<Rightarrow>
             (Some (a @ b), \<lparr>ra_waiting = filter (\<lambda>(k, _). k \<noteq> i) waiting, ra_expired = expired\<rparr>)
         | _ \<Rightarrow> (None, \<lparr>ra_waiting = im_insert i (t, h) waiting, ra_expired = expired\<rparr>))"

definition push_datagram :: "octet list \<Rightarrow> time \<Rightarrow> reassembler \<Rightarrow> octet list option \<times> reassembler" where
  "push_datagram d now r =
     (case d of
        [] \<Rightarrow> (None, r)
      | kind # rest \<Rightarrow>
          if kind = WHOLE then (Some rest, r)
          else if kind = PART \<and> length d > PART_HEADER then
            push_part (u16_of_bytes (d ! 1) (d ! 2)) (d ! 3 AND 1 = 1) (drop PART_HEADER d) now r
          else (None, r))"

section \<open>Parts\<close>

lemma push_datagram_part:
  "part \<noteq> [] \<Longrightarrow> index \<in> {0, 1} \<Longrightarrow>
   push_datagram (part_datagram i index part) now r = push_part i (index = 1) part now r"
  by (auto simp: push_datagram_def part_datagram_def u16_bytes_list WHOLE_def PART_def PART_HEADER_def
      u16_round_trip)

lemma push_whole: "push_datagram (WHOLE # packet) now r = (Some packet, r)"
  by (simp add: push_datagram_def)

section \<open>What is waiting\<close>

text \<open>The id of a datagram that carries a part.\<close>

definition part_id :: "octet list \<Rightarrow> 16 word option" where
  "part_id d = (if length d > PART_HEADER \<and> d ! 0 = PART then Some (u16_of_bytes (d ! 1) (d ! 2)) else None)"

definition waits_for :: "reassembler \<Rightarrow> 16 word \<Rightarrow> (time \<times> halves) option" where
  "waits_for r i = map_of (ra_waiting r) i"

definition distinct_ids :: "reassembler \<Rightarrow> bool" where
  "distinct_ids r \<longleftrightarrow> distinct (map fst (ra_waiting r))"

lemma still_waiting_get:
  "distinct (map fst ws) \<Longrightarrow>
   map_of (still_waiting now ws) i =
     (case map_of ws i of None \<Rightarrow> None
      | Some (t, h) \<Rightarrow> if since now t < REASSEMBLY_TIMEOUT then Some (t, h) else None)"
  unfolding still_waiting_def
  using map_of_filter[of ws "\<lambda>_ (t, _). since now t < REASSEMBLY_TIMEOUT" i]
  by (auto split: option.splits)

lemma filter_other_get: "j \<noteq> i \<Longrightarrow> map_of (filter (\<lambda>(k, _). k \<noteq> i) ws) j = map_of ws j"
  by (induction ws) auto

lemma still_waiting_distinct: "distinct (map fst ws) \<Longrightarrow> distinct (map fst (still_waiting now ws))"
  by (simp add: still_waiting_def distinct_map_filter_fst)

lemma push_part_distinct: "distinct_ids r \<Longrightarrow> distinct_ids (snd (push_part i second part now r))"
  unfolding distinct_ids_def push_part_def Let_def
  by (auto simp: still_waiting_distinct distinct_map_filter_fst im_insert_distinct split: prod.splits option.splits)

lemma push_datagram_distinct: "distinct_ids r \<Longrightarrow> distinct_ids (snd (push_datagram d now r))"
  by (auto simp: push_datagram_def push_part_distinct split: list.splits)

text \<open>A part of another packet leaves what waits for this one, while it is young.\<close>

lemma push_part_other:
  assumes "distinct_ids r" "j \<noteq> i" "waits_for r i = Some (t, h)" "since now t < REASSEMBLY_TIMEOUT"
  shows "waits_for (snd (push_part j second part now r)) i = Some (t, h)"
proof -
  have "map_of (still_waiting now (ra_waiting r)) i = Some (t, h)"
    using assms by (simp add: still_waiting_get distinct_ids_def waits_for_def)
  then show ?thesis
    using assms(2)
    by (auto simp: push_part_def waits_for_def Let_def im_insert_get filter_other_get split: prod.splits option.splits)
qed

lemma push_datagram_other:
  assumes "distinct_ids r" "part_id d \<noteq> Some i" "waits_for r i = Some (t, h)" "since now t < REASSEMBLY_TIMEOUT"
  shows "waits_for (snd (push_datagram d now r)) i = Some (t, h)"
  using push_part_other[OF assms(1) _ assms(3,4)] assms(2,3)
  by (auto simp: push_datagram_def part_id_def simp del: split_paired_All split: list.splits if_splits)

definition push_all :: "(octet list \<times> time) list \<Rightarrow> reassembler \<Rightarrow> reassembler" where
  "push_all ds r = fold (\<lambda>(d, now) r. snd (push_datagram d now r)) ds r"

lemma push_all_other:
  "distinct_ids r \<Longrightarrow> waits_for r i = Some (t, h) \<Longrightarrow>
   list_all (\<lambda>(d, now). part_id d \<noteq> Some i \<and> since now t < REASSEMBLY_TIMEOUT) ds \<Longrightarrow>
   distinct_ids (push_all ds r) \<and> waits_for (push_all ds r) i = Some (t, h)"
  by (induction ds arbitrary: r)
    (auto simp: push_all_def push_datagram_distinct push_datagram_other)

lemma push_part_first:
  assumes "distinct_ids r" "waits_for r i = None"
  shows "waits_for (snd (push_part i second part now r)) i = Some (now, put_half second part (None, None))"
  using assms still_waiting_get[of "ra_waiting r" now i]
  by (auto simp: push_part_def waits_for_def distinct_ids_def put_half_def Let_def im_insert_get)

lemma push_part_second:
  assumes "distinct_ids r" "waits_for r i = Some (t, put_half second part (None, None))"
    "since now t < REASSEMBLY_TIMEOUT"
  shows "fst (push_part i (\<not> second) other now r) = Some (if second then other @ part else part @ other)"
  using assms still_waiting_get[of "ra_waiting r" now i]
  by (auto simp: push_part_def waits_for_def distinct_ids_def put_half_def Let_def)

text \<open>
  Two halves of one packet, in either order, with whatever other datagrams between them, are put
  together as long as the second comes in time.
\<close>

lemma halves_meet:
  assumes r: "distinct_ids r" "waits_for r i = None"
    and between: "list_all (\<lambda>(d, now). part_id d \<noteq> Some i \<and> since now t < REASSEMBLY_TIMEOUT) between"
    and now: "since now t < REASSEMBLY_TIMEOUT"
  shows "fst (push_part i (\<not> second) other now (push_all between (snd (push_part i second part t r))))
    = Some (if second then other @ part else part @ other)"
proof -
  let ?r = "snd (push_part i second part t r)"
  have w: "distinct_ids ?r" "waits_for ?r i = Some (t, put_half second part (None, None))"
    using push_part_distinct[OF r(1)] push_part_first[OF r] by simp_all
  with push_all_other[OF w between] push_part_second[OF _ _ now] show ?thesis by blast
qed

section \<open>Properties\<close>

text \<open>
  C26: A packet arrives as it was sent. The framer's datagrams fit the path; a whole packet is
  delivered by its one datagram; a split packet is delivered exactly, by the later of its two
  datagrams, in whichever order they come and whatever other datagrams come between, unless more
  than 50 ms pass or another half waits under its id. At the tunnel's MTU of 1280 and the smallest
  datagram limit seen, 1162, a packet is never dropped.
\<close>

theorem packets_arrive:
  assumes "frame_packet packet limit next_id = (ds, i)" "distinct_ids r" "waits_for r i = None"
    and "list_all (\<lambda>(d, now). part_id d \<noteq> Some i \<and> since now t < REASSEMBLY_TIMEOUT) between"
    and "since now t < REASSEMBLY_TIMEOUT"
  shows "list_all (\<lambda>d. length d \<le> limit) ds \<and>
    (length packet \<le> 1280 \<and> 1162 \<le> limit \<longrightarrow> ds \<noteq> []) \<and>
    (\<forall>d. ds = [d] \<longrightarrow> fst (push_datagram d t r) = Some packet) \<and>
    (\<forall>a b. ds = [a, b] \<longrightarrow>
       fst (push_datagram b now (push_all between (snd (push_datagram a t r)))) = Some packet \<and>
       fst (push_datagram a now (push_all between (snd (push_datagram b t r)))) = Some packet)"
proof -
  let ?room = "limit - PART_HEADER"
  consider (whole) "length packet < limit" "ds = [WHOLE # packet]"
    | (none) "\<not> length packet < limit" "?room = 0 \<or> length packet > ?room * 2" "ds = []"
    | (split) "\<not> length packet < limit" "?room \<noteq> 0" "length packet \<le> ?room * 2"
      "ds = [part_datagram i 0 (take ?room packet), part_datagram i 1 (drop ?room packet)]"
    using assms(1) by (auto simp: frame_packet_def Let_def split: if_splits)
  then show ?thesis
  proof cases
    case whole
    then show ?thesis by (simp add: push_whole)
  next
    case none
    then show ?thesis by (auto simp: PART_HEADER_def)
  next
    case split
    have ne: "take ?room packet \<noteq> []" "drop ?room packet \<noteq> []"
      using split by (auto simp: PART_HEADER_def)
    have "length (part_datagram i k p) = length p + 4" for k p by (simp add: part_datagram_def u16_bytes_list)
    moreover have "?room + 4 = limit" using split(2) by (simp add: PART_HEADER_def)
    ultimately have "list_all (\<lambda>d. length d \<le> limit) ds" using split by simp
    moreover have "fst (push_part i True (drop ?room packet) now
        (push_all between (snd (push_part i False (take ?room packet) t r)))) = Some packet"
      using halves_meet[OF assms(2-5), of False] by simp
    moreover have "fst (push_part i False (take ?room packet) now
        (push_all between (snd (push_part i True (drop ?room packet) t r)))) = Some packet"
      using halves_meet[OF assms(2-5), of True] by simp
    ultimately show ?thesis using split(4) ne by (simp add: push_datagram_part)
  qed
qed

theorem packets_arrive_witness:
  "fst (push_datagram [1, 0, 1, 0, 1, 2, 3, 4] 20000000 (push_all [([0, 5], 10000000)]
     (snd (push_datagram [1, 0, 1, 1, 5, 6, 7, 8] 0 \<lparr>ra_waiting = [], ra_expired = 0\<rparr>))))
   = Some [1, 2, 3, 4, 5, 6, 7, 8]"
proof -
  have f: "frame_packet [1, 2, 3, 4, 5, 6, 7, 8 :: octet] 8 0 =
      ([[1, 0, 1, 0, 1, 2, 3, 4], [1, 0, 1, 1, 5, 6, 7, 8]], 1)" by code_simp
  show ?thesis
    using packets_arrive[OF f, of "\<lparr>ra_waiting = [], ra_expired = 0\<rparr>" 0 "[([0, 5], 10000000)]" 20000000]
    by (simp add: distinct_ids_def waits_for_def part_id_def PART_HEADER_def since_def REASSEMBLY_TIMEOUT_def)
qed

end
