(* ===== verification/Net_Membership.thy ===== *)
theory Net_Membership
  imports Net_Filter Text
begin

text \<open>
  The membership list of a private network (\<open>grund-net/src/membership.rs\<close>): what a list may hold,
  how a machine takes one from its signed bytes, and the lookups by address, name and key. The
  Ed25519 verifier, SHA-256, the JSON decoder and the parsers of endpoint ids and relay URLs are
  parameters; a slot is a \<open>u16\<close>, a slice of an address its octets.
\<close>

section \<open>The types\<close>

definition SIGNING_PREFIX :: "octet list" where
  "SIGNING_PREFIX = map of_char (''grund-net-membership-v1'' @ [char_of (10 :: nat)])"

definition REPLICA_ADDRESS_PREFIX :: "octet list" where
  "REPLICA_ADDRESS_PREFIX = map of_char (''grund-replica-address-v1'' @ [char_of (10 :: nat)])"

definition MAX_DIRECT_ADDRS :: nat where "MAX_DIRECT_ADDRS = 8"
definition MAX_APP_PORTS :: nat where "MAX_APP_PORTS = 16"
definition MAX_MEMBER_PORTS :: nat where "MAX_MEMBER_PORTS = 64"

record net_relay =
  rl_url :: string
  rl_region :: "string option"

record app_replica =
  ar_app :: string
  ar_replica_id :: string
  ar_address :: ipv6
  ar_ports :: "port list"
  ar_ready :: bool
  ar_aliases :: "string list"
  ar_open :: bool

record net_member =
  nm_machine_id :: string
  nm_endpoint_id :: string
  nm_slot :: "16 word"
  nm_name :: "string option"
  nm_ports :: "port list"
  nm_relay_url :: "string option"
  nm_apps :: "app_replica list"
  nm_direct_addrs :: "string list"

record membership_list =
  ml_network_id :: string
  ml_epoch :: nat
  ml_prefix :: ipv6
  ml_issued_at :: int
  ml_members :: "net_member list"
  ml_relays :: "net_relay list"

datatype membership_error =
    BadSignature
  | Malformed string
  | BadPrefix ipv6
  | ReservedSlot string
  | DuplicateSlot "16 word"
  | BadEndpointId string
  | DuplicateEndpointId string
  | BadName string
  | DuplicateName string
  | BadPorts string
  | BadRelay string
  | BadApp string

record signed_list =
  sl_body :: "octet list"
  sl_signature :: "octet list"

section \<open>Addresses\<close>

text \<open>The interface identifier, kept above the machine's and the resolver's.\<close>

definition replica_iid :: "octet list \<Rightarrow> 64 word" where
  "replica_iid digest =
     (let iid = u64_of_bytes (take 8 digest) in if iid \<le> 0xffff then iid OR push_bit 63 1 else iid)"

definition replica_address :: "(octet list \<Rightarrow> octet list) \<Rightarrow> ipv6 \<Rightarrow> 16 word \<Rightarrow> string \<Rightarrow> ipv6" where
  "replica_address sha prefix slot replica_id =
     take 6 prefix @ u16_bytes slot @ u64_bytes (replica_iid (sha (REPLICA_ADDRESS_PREFIX @ map of_char replica_id)))"

definition member_address :: "membership_list \<Rightarrow> 16 word \<Rightarrow> ipv6" where
  "member_address l slot = take 6 (ml_prefix l) @ u16_bytes slot @ take 7 (drop 8 (ml_prefix l)) @ [1]"

definition address_slot :: "ipv6 \<Rightarrow> 16 word" where
  "address_slot a = u16_of_bytes (a ! 6) (a ! 7)"

definition address_iid :: "ipv6 \<Rightarrow> 64 word" where
  "address_iid a = u64_of_bytes (drop 8 a)"

section \<open>The rules of a list\<close>

definition is_label :: "string \<Rightarrow> bool" where
  "is_label name \<longleftrightarrow>
     1 \<le> length name \<and> length name \<le> 63 \<and>
     list_all (\<lambda>b. is_ascii_lowercase b \<or> is_ascii_digit b \<or> b = CHR ''-'') name \<and>
     \<not> starts_with ''-'' name \<and> \<not> ends_with ''-'' name"

text \<open>A parsed URL is its scheme and its host.\<close>

definition is_relay_url :: "(string \<Rightarrow> (string \<times> string option) option) \<Rightarrow> string \<Rightarrow> bool" where
  "is_relay_url parse_url url =
     (case parse_url url of
        None \<Rightarrow> False
      | Some (scheme, host) \<Rightarrow>
          scheme = ''https'' \<or>
          (scheme = ''http'' \<and> host \<in> {Some ''localhost'', Some ''127.0.0.1'', Some ''[::1]''}))"

fun members_check ::
  "(string \<Rightarrow> 'k option) \<Rightarrow> 16 word list \<Rightarrow> 'k list \<Rightarrow> string list \<Rightarrow> net_member list \<Rightarrow> membership_error option" where
  "members_check parse_id slots keys names [] = None"
| "members_check parse_id slots keys names (m # ms) =
     (if nm_slot m = 0 then Some (ReservedSlot (nm_machine_id m))
      else if nm_slot m \<in> set slots then Some (DuplicateSlot (nm_slot m))
      else
        case parse_id (nm_endpoint_id m) of
          None \<Rightarrow> Some (BadEndpointId (nm_machine_id m))
        | Some key \<Rightarrow>
            if key \<in> set keys then Some (DuplicateEndpointId (nm_endpoint_id m))
            else if length (nm_direct_addrs m) > MAX_DIRECT_ADDRS then Some (BadPorts (nm_machine_id m))
            else if length (nm_ports m) > MAX_MEMBER_PORTS \<or> list_ex (\<lambda>p. pt_number p = 0) (nm_ports m)
            then Some (BadPorts (nm_machine_id m))
            else
              case nm_name m of
                None \<Rightarrow> members_check parse_id (nm_slot m # slots) (key # keys) names ms
              | Some name \<Rightarrow>
                  if \<not> is_label name then Some (BadName (nm_machine_id m))
                  else if name \<in> set names then Some (DuplicateName name)
                  else members_check parse_id (nm_slot m # slots) (key # keys) (name # names) ms)"

definition alias_ok :: "string \<Rightarrow> bool" where
  "alias_ok a =
     (case split_once CHR ''.'' a of
        None \<Rightarrow> False
      | Some (service, stack) \<Rightarrow> \<not> (\<not> is_label service \<or> \<not> is_label stack \<or> stack = ''machines''))"

definition replica_ok :: "ipv6 \<Rightarrow> ipv6 list \<Rightarrow> net_member \<Rightarrow> app_replica \<Rightarrow> bool" where
  "replica_ok prefix addresses m r \<longleftrightarrow>
     (let a = ar_address r in
      take 6 a = take 6 prefix \<and> address_slot a = nm_slot m \<and>
      \<not> address_iid a \<le> 0xffff \<and> a \<notin> set addresses \<and> is_label (ar_app r) \<and>
      \<not> list_ex (\<lambda>alias. \<not> alias_ok alias) (ar_aliases r) \<and>
      \<not> length (ar_ports r) > MAX_APP_PORTS \<and> \<not> list_ex (\<lambda>p. pt_number p = 0) (ar_ports r))"

fun replicas_check :: "ipv6 \<Rightarrow> ipv6 list \<Rightarrow> (net_member \<times> app_replica) list \<Rightarrow> membership_error option" where
  "replicas_check prefix addresses [] = None"
| "replicas_check prefix addresses ((m, r) # rest) =
     (if \<not> replica_ok prefix addresses m r then Some (BadApp (nm_machine_id m))
      else replicas_check prefix (ar_address r # addresses) rest)"

definition all_replicas :: "membership_list \<Rightarrow> (net_member \<times> app_replica) list" where
  "all_replicas l = concat (map (\<lambda>m. map (Pair m) (nm_apps m)) (ml_members l))"

definition relays_check :: "(string \<Rightarrow> (string \<times> string option) option) \<Rightarrow> membership_list \<Rightarrow> membership_error option" where
  "relays_check parse_url l =
     (case List.find (\<lambda>r. \<not> is_relay_url parse_url (rl_url r)) (ml_relays l) of
        Some r \<Rightarrow> Some (BadRelay (rl_url r))
      | None \<Rightarrow>
          find_map (\<lambda>m.
            case nm_relay_url m of
              None \<Rightarrow> None
            | Some url \<Rightarrow> if list_ex (\<lambda>r. rl_url r = url) (ml_relays l) then None else Some (BadRelay url))
            (ml_members l))"

definition list_problem ::
  "(string \<Rightarrow> 'k option) \<Rightarrow> (string \<Rightarrow> (string \<times> string option) option) \<Rightarrow> membership_list \<Rightarrow> membership_error option" where
  "list_problem parse_id parse_url l =
     (let p = ml_prefix l in
      if p ! 0 \<noteq> 0xfd \<or> list_ex (\<lambda>b. b \<noteq> 0) (drop 6 p) then Some (BadPrefix p)
      else or_else (members_check parse_id [] [] [] (ml_members l))
        (or_else (replicas_check p [] (all_replicas l)) (relays_check parse_url l)))"

section \<open>Signed lists\<close>

definition signed_message :: "octet list \<Rightarrow> octet list" where
  "signed_message body = SIGNING_PREFIX @ body"

definition sign_bytes :: "(octet list \<Rightarrow> octet list) \<Rightarrow> octet list \<Rightarrow> signed_list" where
  "sign_bytes sign body = \<lparr>sl_body = body, sl_signature = sign (signed_message body)\<rparr>"

definition sign_list :: "(membership_list \<Rightarrow> octet list) \<Rightarrow> (octet list \<Rightarrow> octet list) \<Rightarrow> membership_list \<Rightarrow> signed_list" where
  "sign_list encode sign l = sign_bytes sign (encode l)"

text \<open>\<open>verifies message signature\<close>: the signature parses and verifies with the network's key.\<close>

definition verify_list ::
  "(octet list \<Rightarrow> octet list \<Rightarrow> bool) \<Rightarrow> (octet list \<Rightarrow> string + membership_list) \<Rightarrow>
   (string \<Rightarrow> 'k option) \<Rightarrow> (string \<Rightarrow> (string \<times> string option) option) \<Rightarrow>
   signed_list \<Rightarrow> membership_error + membership_list" where
  "verify_list verifies decode parse_id parse_url s =
     (if \<not> verifies (signed_message (sl_body s)) (sl_signature s) then Inl BadSignature
      else
        case decode (sl_body s) of
          Inl e \<Rightarrow> Inl (Malformed e)
        | Inr l \<Rightarrow>
            (case list_problem parse_id parse_url l of Some e \<Rightarrow> Inl e | None \<Rightarrow> Inr l))"

section \<open>Lookups\<close>

definition member_for :: "membership_list \<Rightarrow> ipv6 \<Rightarrow> net_member option" where
  "member_for l addr =
     (if take 6 addr \<noteq> take 6 (ml_prefix l) then None
      else List.find (\<lambda>m. nm_slot m = address_slot addr) (ml_members l))"

definition eq_ignore_ascii_case :: "string \<Rightarrow> string \<Rightarrow> bool" where
  "eq_ignore_ascii_case a b \<longleftrightarrow> to_ascii_lowercase a = to_ascii_lowercase b"

definition member_by_name :: "membership_list \<Rightarrow> string \<Rightarrow> net_member option" where
  "member_by_name l name =
     List.find (\<lambda>m. is_some_and (nm_name m) (\<lambda>n. eq_ignore_ascii_case n name)) (ml_members l)"

definition member_by_id :: "(string \<Rightarrow> 'k option) \<Rightarrow> membership_list \<Rightarrow> 'k \<Rightarrow> net_member option" where
  "member_by_id parse_id l key = List.find (\<lambda>m. parse_id (nm_endpoint_id m) = Some key) (ml_members l)"

definition replica_at :: "membership_list \<Rightarrow> ipv6 \<Rightarrow> (net_member \<times> app_replica) option" where
  "replica_at l addr =
     Option.bind (member_for l addr) (\<lambda>m.
       map_option (Pair m) (List.find (\<lambda>r. ar_address r = addr) (nm_apps m)))"

definition answers_to :: "app_replica \<Rightarrow> string \<Rightarrow> bool" where
  "answers_to r name \<longleftrightarrow>
     eq_ignore_ascii_case (ar_app r) name \<or> list_ex (\<lambda>alias. eq_ignore_ascii_case alias name) (ar_aliases r)"

definition knows_app_name :: "membership_list \<Rightarrow> string \<Rightarrow> bool" where
  "knows_app_name l name \<longleftrightarrow> list_ex (\<lambda>r. answers_to r name) (concat (map nm_apps (ml_members l)))"

text \<open>Addresses are ordered by their octets.\<close>

definition ready_addresses :: "membership_list \<Rightarrow> string \<Rightarrow> ipv6 list" where
  "ready_addresses l app =
     sort (map ar_address (filter (\<lambda>r. ar_ready r \<and> answers_to r app) (concat (map nm_apps (ml_members l)))))"

definition opens_any_replica :: "membership_list \<Rightarrow> bool" where
  "opens_any_replica l \<longleftrightarrow> list_ex (\<lambda>m. list_ex ar_open (nm_apps m)) (ml_members l)"

section \<open>What a checked list is\<close>

definition named :: "net_member list \<Rightarrow> string list" where
  "named ms = List.map_filter nm_name ms"

lemma named_simps [simp]:
  "named [] = []" "named (m # ms) = (case nm_name m of None \<Rightarrow> named ms | Some n \<Rightarrow> n # named ms)"
  by (auto simp: named_def map_filter_simps split: option.splits)

lemma members_check_None:
  "members_check parse_id slots keys names ms = None \<Longrightarrow>
   distinct (map nm_slot ms) \<and> set (map nm_slot ms) \<inter> set slots = {} \<and>
   distinct (named ms) \<and> set (named ms) \<inter> set names = {} \<and> list_all is_label (named ms) \<and>
   (\<exists>ks. map (parse_id \<circ> nm_endpoint_id) ms = map Some ks \<and> distinct ks \<and> set ks \<inter> set keys = {})"
proof (induction ms arbitrary: slots keys names)
  case (Cons m ms)
  from Cons.prems obtain key where key: "parse_id (nm_endpoint_id m) = Some key" "key \<notin> set keys"
    "nm_slot m \<notin> set slots"
    by (auto split: if_splits option.splits)
  obtain names' where rest: "members_check parse_id (nm_slot m # slots) (key # keys) names' ms = None"
    and names': "(nm_name m = None \<and> names' = names) \<or>
      (\<exists>n. nm_name m = Some n \<and> is_label n \<and> n \<notin> set names \<and> names' = n # names)"
    using Cons.prems key by (auto split: if_splits option.splits)
  obtain ks where ks: "map (parse_id \<circ> nm_endpoint_id) ms = map Some ks" "distinct ks" "set ks \<inter> set (key # keys) = {}"
    using Cons.IH[OF rest] by blast
  then have "map (parse_id \<circ> nm_endpoint_id) (m # ms) = map Some (key # ks) \<and> distinct (key # ks) \<and>
      set (key # ks) \<inter> set keys = {}"
    using key by auto
  moreover have "distinct (map nm_slot (m # ms)) \<and> set (map nm_slot (m # ms)) \<inter> set slots = {}"
    using Cons.IH[OF rest] key by auto
  moreover have "distinct (named (m # ms)) \<and> set (named (m # ms)) \<inter> set names = {} \<and> list_all is_label (named (m # ms))"
    using Cons.IH[OF rest] names' by (auto split: option.splits)
  ultimately show ?case by blast
qed simp

lemma replicas_check_None:
  "replicas_check prefix addresses rs = None \<Longrightarrow>
   distinct (map (ar_address \<circ> snd) rs) \<and> (\<forall>(m, r)\<in>set rs. \<exists>as. replica_ok prefix as m r)"
proof -
  have "replicas_check prefix addresses rs = None \<Longrightarrow>
      distinct (map (ar_address \<circ> snd) rs) \<and> set (map (ar_address \<circ> snd) rs) \<inter> set addresses = {} \<and>
      (\<forall>(m, r)\<in>set rs. \<exists>as. replica_ok prefix as m r)"
  proof (induction rs arbitrary: addresses)
    case (Cons x rs)
    obtain m r where x: "x = (m, r)" by fastforce
    with Cons.prems have r: "replica_ok prefix addresses m r" "replicas_check prefix (ar_address r # addresses) rs = None"
      by (auto split: if_splits)
    from r(1) have "ar_address r \<notin> set addresses" by (simp add: replica_ok_def Let_def)
    with Cons.IH[OF r(2)] r(1) show ?case by (auto simp: x)
  qed simp
  then show "replicas_check prefix addresses rs = None \<Longrightarrow> ?thesis" by blast
qed

text \<open>An \<open>Ipv6Addr\<close> has sixteen octets.\<close>

definition octets_ok :: "membership_list \<Rightarrow> bool" where
  "octets_ok l \<longleftrightarrow> length (ml_prefix l) = 16 \<and> list_all (\<lambda>(m, r). length (ar_address r) = 16) (all_replicas l)"

lemma list_problem_None:
  assumes "list_problem parse_id parse_url l = None"
  shows "distinct (map nm_slot (ml_members l))" "distinct (named (ml_members l))"
    "list_all is_label (named (ml_members l))"
    "\<exists>ks. map (parse_id \<circ> nm_endpoint_id) (ml_members l) = map Some ks \<and> distinct ks"
    "distinct (map (ar_address \<circ> snd) (all_replicas l))"
    "\<forall>(m, r)\<in>set (all_replicas l). \<exists>as. replica_ok (ml_prefix l) as m r"
    "list_all (\<lambda>b. b = 0) (drop 6 (ml_prefix l))"
proof -
  have c: "members_check parse_id [] [] [] (ml_members l) = None" "replicas_check (ml_prefix l) [] (all_replicas l) = None"
    "\<not> list_ex (\<lambda>b. b \<noteq> 0) (drop 6 (ml_prefix l))"
    using assms by (auto simp: list_problem_def Let_def or_else_def split: if_splits option.splits)
  show "distinct (map nm_slot (ml_members l))" "distinct (named (ml_members l))"
    "list_all is_label (named (ml_members l))"
    "\<exists>ks. map (parse_id \<circ> nm_endpoint_id) (ml_members l) = map Some ks \<and> distinct ks"
    using members_check_None[OF c(1)] by blast+
  show "distinct (map (ar_address \<circ> snd) (all_replicas l))"
    "\<forall>(m, r)\<in>set (all_replicas l). \<exists>as. replica_ok (ml_prefix l) as m r"
    using replicas_check_None[OF c(2)] by blast+
  show "list_all (\<lambda>b. b = 0) (drop 6 (ml_prefix l))" using c(3) by (simp add: list_all_iff list_ex_iff)
qed

section \<open>Addresses find their owner\<close>

lemma zero_host: "list_all (\<lambda>b. b = 0) (drop 6 p) \<Longrightarrow> length p = 16 \<Longrightarrow> take 7 (drop 8 p) = replicate 7 (0 :: octet)"
proof (rule nth_equalityI)
  assume p: "list_all (\<lambda>b. b = 0) (drop 6 p)" "length p = 16"
  fix i assume "i < length (take 7 (drop 8 p))"
  then show "take 7 (drop 8 p) ! i = replicate 7 0 ! i"
    using p unfolding list_all_length by (auto dest!: spec[of _ "i + 2"] simp: add.commute)
qed simp

lemma member_address_parts:
  assumes "length (ml_prefix l) = 16"
  shows "take 6 (member_address l slot) = take 6 (ml_prefix l)" "address_slot (member_address l slot) = slot"
    "drop 8 (member_address l slot) = take 7 (drop 8 (ml_prefix l)) @ [1]"
  using assms by (simp_all add: member_address_def address_slot_def nth_append u16_bytes_list u16_round_trip)

lemma machine_iid: "u64_of_bytes (replicate 7 0 @ [1]) \<le> 0xffff"
  by code_simp

lemma named_unique:
  "distinct (named ms) \<Longrightarrow> list_all is_label (named ms) \<Longrightarrow> m \<in> set ms \<Longrightarrow> nm_name m = Some n \<Longrightarrow>
   List.find (\<lambda>m. is_some_and (nm_name m) (\<lambda>x. eq_ignore_ascii_case x n)) ms = Some m"
proof -
  have lower: "to_ascii_lowercase x = x" if "is_label x" for x
    using that by (intro to_ascii_lowercase_id)
      (auto simp: is_label_def list_all_iff is_ascii_lowercase_def is_ascii_uppercase_def is_ascii_digit_def byte_def)
  have mem: "nm_name x = Some y \<Longrightarrow> x \<in> set ms \<Longrightarrow> y \<in> set (named ms)" for x y and ms
    by (induction ms) (auto split: option.splits)
  show "distinct (named ms) \<Longrightarrow> list_all is_label (named ms) \<Longrightarrow> m \<in> set ms \<Longrightarrow> nm_name m = Some n \<Longrightarrow> ?thesis"
  proof (induction ms)
    case (Cons x ms)
    have n: "is_label n" using mem[OF Cons.prems(4,3)] Cons.prems(2) by (auto simp: list_all_iff)
    show ?case
    proof (cases "x = m")
      case True
      then show ?thesis using Cons.prems by (simp add: eq_ignore_ascii_case_def)
    next
      case False
      then have m: "m \<in> set ms" using Cons.prems by simp
      have "\<not> is_some_and (nm_name x) (\<lambda>y. eq_ignore_ascii_case y n)"
        using Cons.prems(1,2) mem[OF Cons.prems(4) m] lower[OF n] lower
        by (auto simp: eq_ignore_ascii_case_def is_some_and_iff split: option.splits)
      moreover have "distinct (named ms)" "list_all is_label (named ms)"
        using Cons.prems(1,2) by (auto split: option.splits)
      ultimately show ?thesis using Cons.IH m Cons.prems(4) by simp
    qed
  qed simp
qed

lemma all_replicas_mem: "m \<in> set (ml_members l) \<Longrightarrow> r \<in> set (nm_apps m) \<Longrightarrow> (m, r) \<in> set (all_replicas l)"
  by (auto simp: all_replicas_def)

lemma distinct_member_replicas:
  assumes "distinct (map (ar_address \<circ> snd) (all_replicas l))" "m \<in> set (ml_members l)"
  shows "distinct (map ar_address (nm_apps m))"
proof -
  obtain before after where "ml_members l = before @ m # after" using split_list[OF assms(2)] by blast
  with assms(1) show ?thesis by (simp add: all_replicas_def comp_def)
qed

text \<open>
  In a list that passes its checks, addresses and names find their owner and nothing else: the
  machine address of a member's slot belongs to that member and to no replica, its name and its key
  find it, and the address of each of its replicas finds exactly that replica on that member.
\<close>

theorem lookups_exact:
  assumes "list_problem parse_id parse_url l = None" "octets_ok l" "m \<in> set (ml_members l)"
  shows "member_for l (member_address l (nm_slot m)) = Some m \<and>
    replica_at l (member_address l (nm_slot m)) = None \<and>
    (\<forall>n. nm_name m = Some n \<longrightarrow> member_by_name l n = Some m) \<and>
    (\<exists>key. parse_id (nm_endpoint_id m) = Some key \<and> member_by_id parse_id l key = Some m) \<and>
    (\<forall>r\<in>set (nm_apps m). replica_at l (ar_address r) = Some (m, r))"
proof -
  note ok = list_problem_None[OF assms(1)]
  have p: "length (ml_prefix l) = 16" using assms(2) by (simp add: octets_ok_def)
  note parts = member_address_parts[OF p]
  have slot: "List.find (\<lambda>x. nm_slot x = nm_slot m) (ml_members l) = Some m"
    by (rule find_distinct_key[OF ok(1) assms(3)])
  have own: "member_for l (member_address l (nm_slot m)) = Some m"
    using slot by (simp add: member_for_def parts)
  have reserved: "ar_address r \<noteq> member_address l s" if "r \<in> set (nm_apps m)" for r s
  proof
    assume "ar_address r = member_address l s"
    then have "address_iid (ar_address r) \<le> 0xffff"
      using zero_host[OF ok(7) p] machine_iid by (simp add: address_iid_def parts)
    then show False
      using ok(6) all_replicas_mem[OF assms(3) that] by (fastforce simp: replica_ok_def Let_def)
  qed
  have "replica_at l (ar_address r) = Some (m, r)" if r: "r \<in> set (nm_apps m)" for r
  proof -
    obtain as where "replica_ok (ml_prefix l) as m r" using ok(6) all_replicas_mem[OF assms(3) r] by blast
    then have "member_for l (ar_address r) = Some m"
      using slot by (simp add: member_for_def replica_ok_def Let_def)
    moreover have "List.find (\<lambda>x. ar_address x = ar_address r) (nm_apps m) = Some r"
      by (rule find_distinct_key[OF distinct_member_replicas[OF ok(5) assms(3)] r])
    ultimately show ?thesis by (simp add: replica_at_def)
  qed
  moreover have "replica_at l (member_address l (nm_slot m)) = None"
    using own reserved by (auto simp: replica_at_def find_None_iff)
  moreover have "member_by_name l n = Some m" if "nm_name m = Some n" for n
    unfolding member_by_name_def by (rule named_unique[OF ok(2,3) assms(3) that])
  moreover have "\<exists>key. parse_id (nm_endpoint_id m) = Some key \<and> member_by_id parse_id l key = Some m"
  proof -
    obtain ks where ks: "map (parse_id \<circ> nm_endpoint_id) (ml_members l) = map Some ks" "distinct ks"
      using ok(4) by blast
    then have "distinct (map (parse_id \<circ> nm_endpoint_id) (ml_members l))" by (simp add: distinct_map)
    moreover obtain key where key: "parse_id (nm_endpoint_id m) = Some key"
      using ks(1) assms(3) by (metis (no_types, lifting) comp_apply imageE image_eqI list.set_map)
    ultimately show ?thesis
      using find_distinct_key[OF _ assms(3), of "parse_id \<circ> nm_endpoint_id"] by (simp add: member_by_id_def)
  qed
  ultimately show ?thesis using own by blast
qed

text \<open>
  The address made for a replica is always one the list accepts: in its member's /64, and never
  the machine's, the resolver's or another reserved one, whatever the hash of its id is.
\<close>

theorem replica_addresses_fit:
  assumes "length (ml_prefix l) = 16"
  shows "replica_ok (ml_prefix l) addresses m (r\<lparr>ar_address := replica_address sha (ml_prefix l) (nm_slot m) i\<rparr>) \<longleftrightarrow>
    replica_address sha (ml_prefix l) (nm_slot m) i \<notin> set addresses \<and> is_label (ar_app r) \<and>
    list_all alias_ok (ar_aliases r) \<and> length (ar_ports r) \<le> 16 \<and> list_all (\<lambda>p. pt_number p \<noteq> 0) (ar_ports r)"
proof -
  let ?a = "replica_address sha (ml_prefix l) (nm_slot m) i"
  let ?iid = "\<lambda>d. u64_of_bytes (take 8 d)"
  have "take 6 ?a = take 6 (ml_prefix l)" "address_slot ?a = nm_slot m"
    using assms by (simp_all add: replica_address_def address_slot_def nth_append u16_bytes_list u16_round_trip)
  moreover have "\<not> address_iid ?a \<le> 0xffff"
  proof -
    have big: "\<not> x OR push_bit 63 1 \<le> 0xffff" for x :: "64 word"
    proof -
      have "(push_bit 63 1 :: 64 word) \<le> x OR push_bit 63 1" by (rule le_word_or1)
      moreover have "(0xffff :: 64 word) < push_bit 63 1" by code_simp
      ultimately have "0xffff < x OR push_bit 63 1" by (rule less_le_trans[rotated])
      then show ?thesis unfolding not_le .
    qed
    have "address_iid ?a = replica_iid (sha (REPLICA_ADDRESS_PREFIX @ map of_char i))"
      using assms by (simp add: replica_address_def address_iid_def u64_round_trip)
    then show ?thesis using big by (simp add: replica_iid_def Let_def)
  qed
  ultimately show ?thesis
    by (auto simp: replica_ok_def Let_def MAX_APP_PORTS_def list_all_iff list_ex_iff)
qed

section \<open>A network\<close>

definition demo_member :: "string \<Rightarrow> 16 word \<Rightarrow> app_replica list \<Rightarrow> net_member" where
  "demo_member name slot apps =
     \<lparr>nm_machine_id = ''m_'' @ name, nm_endpoint_id = name, nm_slot = slot, nm_name = Some name, nm_ports = [],
      nm_relay_url = None, nm_apps = apps, nm_direct_addrs = []\<rparr>"

definition demo_replica :: "string \<Rightarrow> ipv6 \<Rightarrow> app_replica" where
  "demo_replica app address =
     \<lparr>ar_app = app, ar_replica_id = ''r1'', ar_address = address, ar_ports = [], ar_ready = True,
      ar_aliases = [''web.shop''], ar_open = False\<rparr>"

definition demo_web_address :: ipv6 where
  "demo_web_address = [0xfd, 0x12, 0x34, 0x56, 0x78, 0x9a, 0, 1, 1, 2, 3, 4, 5, 6, 7, 8]"

definition demo_list :: membership_list where
  "demo_list =
     \<lparr>ml_network_id = ''net'', ml_epoch = 3, ml_prefix = [0xfd, 0x12, 0x34, 0x56, 0x78, 0x9a, 0, 0, 0, 0, 0, 0, 0, 0, 0, 0],
      ml_issued_at = 1790000000, ml_members = [demo_member ''a'' 1 [demo_replica ''web'' demo_web_address], demo_member ''b'' 2 []],
      ml_relays = []\<rparr>"

lemma demo_list_ok: "list_problem Some (\<lambda>_. None) demo_list = None" "octets_ok demo_list"
  by code_simp+

theorem lookups_exact_witness:
  "replica_at demo_list demo_web_address =
     Some (demo_member ''a'' 1 [demo_replica ''web'' demo_web_address], demo_replica ''web'' demo_web_address) \<and>
   member_by_name demo_list ''a'' = Some (demo_member ''a'' 1 [demo_replica ''web'' demo_web_address])"
  using lookups_exact[OF demo_list_ok, of "demo_member ''a'' 1 [demo_replica ''web'' demo_web_address]"]
  by (simp add: demo_list_def demo_member_def demo_replica_def)

theorem replica_addresses_fit_witness:
  "replica_ok (ml_prefix demo_list) [] (demo_member ''b'' 2 [])
     (demo_replica ''web'' []\<lparr>ar_address := replica_address (\<lambda>_. replicate 32 0) (ml_prefix demo_list) 2 ''r2''\<rparr>)"
proof -
  have "length (ml_prefix demo_list) = 16" "is_label ''web''" "alias_ok ''web.shop''" by code_simp+
  then show ?thesis
    using replica_addresses_fit[where l = demo_list and addresses = "[]" and m = "demo_member ''b'' 2 []" and
        r = "demo_replica ''web'' []" and sha = "\<lambda>_. replicate 32 0" and i = "''r2''"]
    by (simp add: demo_member_def demo_replica_def)
qed

end
