(* ===== verification/Net_Dns.thy ===== *)
theory Net_Dns
  imports Net_Membership
begin

text \<open>
  The stub resolver for \<open>grund.internal\<close> (\<open>grund-net/src/dns.rs\<close>): reading a query, the answer from
  the membership list and the bytes of the reply. The sockets, the forwarding to the machine's own
  resolvers and the reading of \<open>resolv.conf\<close> are left out.
\<close>

unbundle bit_operations_syntax

section \<open>The protocol\<close>

definition MAX_APP_ANSWERS :: nat where "MAX_APP_ANSWERS = 16"
definition ZONE :: string where "ZONE = ''grund.internal''"
definition MACHINES :: string where "MACHINES = ''machines.grund.internal''"
definition TTL :: "octet list" where "TTL = [0, 0, 0, 5]"
definition RESOLVER_HOST :: "16 word" where "RESOLVER_HOST = 0x53"
definition TYPE_A :: nat where "TYPE_A = 1"
definition TYPE_AAAA :: nat where "TYPE_AAAA = 28"
definition TYPE_ANY :: nat where "TYPE_ANY = 255"
definition CLASS_IN :: nat where "CLASS_IN = 1"
definition CLASS_ANY :: nat where "CLASS_ANY = 255"

datatype rcode = NoError | FormErr | ServFail | NxDomain | NotImp | Refused

definition rcode_octet :: "rcode \<Rightarrow> octet" where
  "rcode_octet r = (case r of NoError \<Rightarrow> 0 | FormErr \<Rightarrow> 1 | ServFail \<Rightarrow> 2 | NxDomain \<Rightarrow> 3 | NotImp \<Rightarrow> 4 | Refused \<Rightarrow> 5)"

datatype dns_outcome = Dns_Reply "octet list" | Forward | Ignore

definition resolver_address :: "membership_list \<Rightarrow> 16 word \<Rightarrow> ipv6" where
  "resolver_address l slot = take 14 (member_address l slot) @ u16_bytes RESOLVER_HOST"

section \<open>The question\<close>

definition of_octet :: "octet \<Rightarrow> char" where
  "of_octet b = char_of (unat b)"

record question =
  q_name :: string
  q_type :: nat
  q_class :: nat
  q_end :: nat

definition label_octet :: "octet \<Rightarrow> bool" where
  "label_octet b \<longleftrightarrow> 33 \<le> b \<and> b \<le> 126 \<and> b \<noteq> 46"

text \<open>The loop over the labels: the name and the position after it.\<close>

function parse_labels_at :: "octet list \<Rightarrow> nat \<Rightarrow> string list \<Rightarrow> (string list \<times> nat) option" where
  "parse_labels_at query pos labels =
     (case get_range query pos 1 of
        None \<Rightarrow> None
      | Some h \<Rightarrow>
          let len = unat (h ! 0); pos = pos + 1 in
          if len = 0 then Some (labels, pos)
          else if len > 63 then None
          else
            case get_range query pos len of
              None \<Rightarrow> None
            | Some label \<Rightarrow>
                if \<not> list_all label_octet label then None
                else if pos + len > 12 + 255 then None
                else parse_labels_at query (pos + len) (labels @ [map of_octet label]))"
  by pat_completeness auto
termination
  by (relation "measure (\<lambda>(query, pos, _). length query - pos)")
    (auto simp: get_range_def split: if_splits)

declare parse_labels_at.simps [simp del]

definition parse_question :: "octet list \<Rightarrow> question option" where
  "parse_question query =
     (case parse_labels_at query 12 [] of
        None \<Rightarrow> None
      | Some (labels, pos) \<Rightarrow>
          (case get_range query pos 4 of
             None \<Rightarrow> None
           | Some fixed \<Rightarrow> Some
               \<lparr>q_name = join ''.'' labels, q_type = be16 (fixed ! 0) (fixed ! 1),
                q_class = be16 (fixed ! 2) (fixed ! 3), q_end = pos + 4\<rparr>))"

section \<open>The reply\<close>

definition aaaa_record :: "ipv6 \<Rightarrow> octet list" where
  "aaaa_record address = [0xc0, 0x0c, 0, 28, 0, 1] @ TTL @ [0, 16] @ address"

definition dns_reply :: "octet list \<Rightarrow> question option \<Rightarrow> rcode \<Rightarrow> ipv6 list \<Rightarrow> octet list" where
  "dns_reply query question rcode aaaa =
     (let rd = query ! 2 AND 1;
          authoritative = (if question \<noteq> None \<and> rcode \<noteq> ServFail then 4 else 0)
      in take 2 query @ [0x80 OR authoritative OR rd, 0x80 OR rcode_octet rcode]
         @ [0, if question \<noteq> None then 1 else 0] @ u16_bytes (of_nat (length aaaa)) @ [0, 0, 0, 0]
         @ (case question of
              None \<Rightarrow> []
            | Some q \<Rightarrow> take (q_end q - 12) (drop 12 query) @ concat (map aaaa_record aaaa)))"

text \<open>The answer to a question about a name of the zone, from the list the machine holds.\<close>

definition zone_answer :: "membership_list \<Rightarrow> question \<Rightarrow> string \<Rightarrow> rcode \<times> ipv6 list" where
  "zone_answer l q name =
     (let wanted = (q_type q = TYPE_AAAA \<or> q_type q = TYPE_ANY) in
      if q_class q \<noteq> CLASS_IN \<and> q_class q \<noteq> CLASS_ANY then (Refused, [])
      else if name = ZONE \<or> name = MACHINES then (NoError, [])
      else
        case Option.bind (strip_suffix (''.'' @ ZONE) name)
            (\<lambda>relative. if ends_with ''.machines'' relative then None else Some relative) of
          Some app \<Rightarrow>
            if \<not> knows_app_name l app then (NxDomain, [])
            else (NoError, if wanted then take MAX_APP_ANSWERS (ready_addresses l app) else [])
        | None \<Rightarrow>
            (case Option.bind (strip_suffix (''.'' @ MACHINES) name)
                (\<lambda>label. if CHR ''.'' \<in> set label then None else member_by_name l label) of
               None \<Rightarrow> (NxDomain, [])
             | Some m \<Rightarrow> (NoError, if wanted then [member_address l (nm_slot m)] else [])))"

definition in_zone :: "string \<Rightarrow> bool" where
  "in_zone name \<longleftrightarrow> name = ZONE \<or> ends_with (''.'' @ ZONE) name"

definition dns_answer :: "octet list \<Rightarrow> membership_list option \<Rightarrow> dns_outcome" where
  "dns_answer query list =
     (if length query < 12 then Ignore
      else if query ! 2 AND 0x80 \<noteq> 0 then Ignore
      else if drop_bit 3 (query ! 2) AND 0x0f \<noteq> 0 then Dns_Reply (dns_reply query None NotImp [])
      else if be16 (query ! 4) (query ! 5) \<noteq> 1 then Dns_Reply (dns_reply query None FormErr [])
      else
        case parse_question query of
          None \<Rightarrow> Dns_Reply (dns_reply query None FormErr [])
        | Some q \<Rightarrow>
            let name = to_ascii_lowercase (q_name q) in
            if \<not> in_zone name then Forward
            else
              case list of
                None \<Rightarrow> Dns_Reply (dns_reply query (Some q) ServFail [])
              | Some l \<Rightarrow>
                  (let (rcode, aaaa) = zone_answer l q name in Dns_Reply (dns_reply query (Some q) rcode aaaa)))"

definition dns_failure :: "octet list \<Rightarrow> rcode \<Rightarrow> octet list option" where
  "dns_failure query rcode = map_option (\<lambda>q. dns_reply query (Some q) rcode []) (parse_question query)"

section \<open>Where a question ends\<close>

lemma parse_labels_at_end:
  "parse_labels_at query pos labels = Some (ls, e) \<Longrightarrow> pos \<le> 267 \<Longrightarrow> pos < e \<and> e \<le> 268 \<and> e \<le> length query"
proof (induction query pos labels rule: parse_labels_at.induct)
  case (1 query pos labels)
  obtain h where h: "get_range query pos 1 = Some h"
    using 1(2) by (subst (asm) parse_labels_at.simps) (auto split: option.splits)
  then have pos: "pos + 1 \<le> length query" by (simp add: get_range_def split: if_splits)
  show ?case
  proof (cases "unat (h ! 0) = 0")
    case True
    then have "e = pos + 1" using 1(2) h by (subst (asm) parse_labels_at.simps) simp
    then show ?thesis using pos 1(3) by simp
  next
    case False
    let ?len = "unat (h ! 0)"
    obtain label where l: "?len \<le> 63" "get_range query (pos + 1) ?len = Some label" "list_all label_octet label"
      "pos + 1 + ?len \<le> 267" "parse_labels_at query (pos + 1 + ?len) (labels @ [map of_octet label]) = Some (ls, e)"
      using 1(2) h False
      by (subst (asm) parse_labels_at.simps) (auto simp: Let_def split: option.splits if_splits)
    show ?thesis
      using 1(1)[OF h refl refl False _ l(2) _ _ l(5)] l by auto
  qed
qed

lemma parse_question_end:
  assumes "parse_question query = Some q"
  shows "17 \<le> q_end q \<and> q_end q \<le> 272 \<and> q_end q \<le> length query"
proof -
  obtain ls e f where e: "parse_labels_at query 12 [] = Some (ls, e)" "get_range query e 4 = Some f" "q_end q = e + 4"
    using assms by (auto simp: parse_question_def split: option.splits)
  from parse_labels_at_end[OF e(1)] have "12 < e" "e \<le> 268" by simp_all
  with e(2,3) show ?thesis by (auto simp: get_range_def split: if_splits)
qed

lemma length_aaaa: "list_all (\<lambda>a. length a = 16) aaaa \<Longrightarrow> length (concat (map aaaa_record aaaa)) = 28 * length aaaa"
  by (induction aaaa) (auto simp: aaaa_record_def TTL_def)

lemma length_dns_reply:
  "12 \<le> length query \<Longrightarrow> length (dns_reply query None rcode []) = 12"
  "parse_question query = Some q \<Longrightarrow> list_all (\<lambda>a. length a = 16) aaaa \<Longrightarrow>
   length (dns_reply query (Some q) rcode aaaa) = q_end q + 28 * length aaaa"
  using parse_question_end[of query q] by (auto simp: dns_reply_def Let_def length_aaaa)

section \<open>What is answered\<close>

definition answered :: "membership_list \<Rightarrow> ipv6 \<Rightarrow> bool" where
  "answered l a \<longleftrightarrow>
     (\<exists>m\<in>set (ml_members l). a = member_address l (nm_slot m)) \<or>
     (\<exists>(m, r)\<in>set (all_replicas l). ar_ready r \<and> a = ar_address r)"

lemma ready_addresses_answered: "list_all (answered l) (ready_addresses l app)"
  by (fastforce simp: ready_addresses_def list_all_iff answered_def all_replicas_def)

lemma member_by_name_mem: "member_by_name l n = Some m \<Longrightarrow> m \<in> set (ml_members l)"
  by (auto simp: member_by_name_def dest: find_SomeD)

lemma list_all_take: "list_all P xs \<Longrightarrow> list_all P (take n xs)"
  by (auto simp: list_all_iff dest: in_set_takeD)

lemma zone_answer_answered:
  "zone_answer l q name = (rcode, aaaa) \<Longrightarrow> list_all (answered l) aaaa \<and> length aaaa \<le> 16"
proof -
  have few: "length (take MAX_APP_ANSWERS xs) \<le> 16" for xs :: "ipv6 list" by (simp add: MAX_APP_ANSWERS_def)
  have member: "list_all (answered l) [member_address l (nm_slot m)]" if "member_by_name l n = Some m" for m n
    using member_by_name_mem[OF that] by (auto simp: answered_def)
  show "zone_answer l q name = (rcode, aaaa) \<Longrightarrow> ?thesis"
    unfolding zone_answer_def Let_def
    using few member list_all_take[OF ready_addresses_answered]
    by (auto split: if_splits option.splits simp: bind_eq_Some_conv)
qed

definition parts_of_query :: "octet list \<Rightarrow> bool" where
  "parts_of_query query \<longleftrightarrow>
     \<not> length query < 12 \<and> query ! 2 AND 0x80 = 0 \<and> drop_bit 3 (query ! 2) AND 0x0f = 0 \<and>
     be16 (query ! 4) (query ! 5) = 1"

lemma dns_answer_reply:
  assumes "dns_answer query list = Dns_Reply bytes"
  obtains (question) q rcode aaaa where "parse_question query = Some q" "bytes = dns_reply query (Some q) rcode aaaa"
      "length aaaa \<le> 16" "\<forall>l. list = Some l \<longrightarrow> list_all (answered l) aaaa" "list = None \<longrightarrow> aaaa = []"
    | (bare) rcode where "12 \<le> length query" "bytes = dns_reply query None rcode []"
proof (cases "parts_of_query query \<and> parse_question query \<noteq> None")
  case False
  then have "12 \<le> length query \<and> (\<exists>rcode. bytes = dns_reply query None rcode [])"
    using assms by (auto simp: dns_answer_def parts_of_query_def split: if_splits)
  then show thesis using bare by blast
next
  case True
  then obtain q where q: "parse_question query = Some q" by blast
  with True assms have "in_zone (to_ascii_lowercase (q_name q))"
    by (auto simp: dns_answer_def parts_of_query_def Let_def split: if_splits)
  with True q assms have a: "(case list of None \<Rightarrow> Dns_Reply (dns_reply query (Some q) ServFail [])
      | Some l \<Rightarrow> (let (rcode, aaaa) = zone_answer l q (to_ascii_lowercase (q_name q))
          in Dns_Reply (dns_reply query (Some q) rcode aaaa))) = Dns_Reply bytes"
    by (simp add: dns_answer_def parts_of_query_def Let_def)
  show thesis
  proof (cases list)
    case None
    with a question[OF q, of ServFail "[]"] show thesis by simp
  next
    case (Some l)
    obtain rcode aaaa where z: "zone_answer l q (to_ascii_lowercase (q_name q)) = (rcode, aaaa)" by fastforce
    with a Some have "bytes = dns_reply query (Some q) rcode aaaa" by simp
    with question[OF q, of rcode aaaa] zone_answer_answered[OF z] Some show thesis by simp
  qed
qed

section \<open>Properties\<close>

text \<open>
  The resolver answers from the membership list and from nothing else: every address in a reply
  is the machine address of a member or the address of a ready replica, at most sixteen of them, and
  none without a list; it never forwards a name of its own zone.
\<close>

theorem answers_from_the_list:
  assumes "parse_question query = Some q"
  shows "(dns_answer query list = Dns_Reply bytes \<longrightarrow>
      (\<exists>rcode aaaa. length aaaa \<le> 16 \<and> (list = None \<longrightarrow> aaaa = []) \<and>
        (\<forall>l. list = Some l \<longrightarrow> list_all (answered l) aaaa) \<and>
        bytes \<in> {dns_reply query (Some q) rcode aaaa, dns_reply query None rcode []})) \<and>
    (dns_answer query list = Forward \<longrightarrow> \<not> in_zone (to_ascii_lowercase (q_name q)))"
proof (intro conjI impI)
  assume "dns_answer query list = Dns_Reply bytes"
  then show "\<exists>rcode aaaa. length aaaa \<le> 16 \<and> (list = None \<longrightarrow> aaaa = []) \<and>
      (\<forall>l. list = Some l \<longrightarrow> list_all (answered l) aaaa) \<and>
      bytes \<in> {dns_reply query (Some q) rcode aaaa, dns_reply query None rcode []}"
  proof (cases rule: dns_answer_reply)
    case (question q' rcode aaaa)
    with assms show ?thesis by auto
  next
    case (bare rcode)
    then show ?thesis by (intro exI[of _ rcode] exI[of _ "[]"]) simp
  qed
next
  assume "dns_answer query list = Forward"
  then show "\<not> in_zone (to_ascii_lowercase (q_name q))"
    using assms by (auto simp: dns_answer_def Let_def split: if_splits option.splits prod.splits)
qed

text \<open>
  The length of a reply: at most 720 bytes, and at most the 512 of a UDP reply when the question
  ends within 64 bytes.
\<close>

theorem reply_length:
  assumes "dns_answer query (Some l) = Dns_Reply bytes" "octets_ok l"
  shows "length bytes \<le> 720 \<and>
    (\<forall>q. parse_question query = Some q \<and> q_end q \<le> 64 \<longrightarrow> length bytes \<le> 512)"
  using assms(1)
proof (cases rule: dns_answer_reply)
  case (question q rcode aaaa)
  have "length a = 16" if "answered l a" for a
    using that assms(2) by (auto simp: answered_def octets_ok_def list_all_iff member_address_def)
  then have "list_all (\<lambda>a. length a = 16) aaaa" using question(4) by (auto simp: list_all_iff)
  then have "length bytes = q_end q + 28 * length aaaa"
    using length_dns_reply(2)[OF question(1)] question(2) by simp
  then show ?thesis using question(1,3) parse_question_end[OF question(1)] by auto
next
  case (bare rcode)
  then show ?thesis by (simp add: length_dns_reply)
qed

section \<open>Questions about a name\<close>

definition name_bytes :: "string list \<Rightarrow> octet list" where
  "name_bytes ls = concat (map (\<lambda>s. of_nat (length s) # map of_char s) ls) @ [0]"

text \<open>A query with one question, in the class IN.\<close>

definition dns_query :: "octet \<Rightarrow> octet \<Rightarrow> string list \<Rightarrow> octet \<Rightarrow> octet list" where
  "dns_query i j ls qtype = [i, j, 1, 0, 0, 1, 0, 0, 0, 0, 0, 0] @ name_bytes ls @ [0, qtype, 0, 1]"

definition wire_label :: "string \<Rightarrow> bool" where
  "wire_label s \<longleftrightarrow> 1 \<le> length s \<and> length s \<le> 63 \<and> list_all (\<lambda>c. label_octet (of_char c)) s"

lemma of_octet_of_char: "of_octet (of_char c) = c"
proof -
  have "unat (of_nat (of_char c) :: octet) = of_char c" by (simp add: unat_of_nat)
  then show ?thesis by (simp add: of_octet_def of_nat_of_char)
qed

lemma get_range_append:
  "get_range (pre @ xs @ rest) (length pre) (length xs) = Some xs"
  "get_range (pre @ x # rest) (length pre) 1 = Some [x]"
  by (simp_all add: get_range_def)

lemma parse_step:
  "get_range query pos 1 = Some h \<Longrightarrow> unat (h ! 0) = n \<Longrightarrow> 0 < n \<Longrightarrow> n \<le> 63 \<Longrightarrow>
   get_range query (pos + 1) n = Some label \<Longrightarrow> list_all label_octet label \<Longrightarrow> pos + 1 + n \<le> 267 \<Longrightarrow>
   parse_labels_at query pos acc = parse_labels_at query (pos + 1 + n) (acc @ [map of_octet label])"
  by (subst parse_labels_at.simps) simp

lemma parse_name_bytes:
  "list_all wire_label ls \<Longrightarrow> length pre + length (name_bytes ls) \<le> 268 \<Longrightarrow>
   parse_labels_at (pre @ name_bytes ls @ rest) (length pre) acc = Some (acc @ ls, length pre + length (name_bytes ls))"
proof (induction ls arbitrary: pre acc)
  case Nil
  show ?case
    by (subst parse_labels_at.simps) (simp add: name_bytes_def get_range_def)
next
  case (Cons s ls)
  let ?len = "of_nat (length s) :: octet" and ?b = "map of_char s :: octet list"
  let ?tail = "name_bytes ls @ rest"
  have split: "pre @ name_bytes (s # ls) @ rest = pre @ ?len # ?b @ ?tail" by (simp add: name_bytes_def)
  have s: "1 \<le> length s" "length s \<le> 63" "list_all label_octet ?b" and ls: "list_all wire_label ls"
    using Cons.prems(1) by (auto simp: wire_label_def list_all_iff)
  have len: "unat ?len = length s" using s by (simp add: unat_of_nat)
  have size: "length (name_bytes (s # ls)) = 1 + length s + length (name_bytes ls)" "1 \<le> length (name_bytes ls)"
    by (simp_all add: name_bytes_def)
  have h: "get_range (pre @ ?len # ?b @ ?tail) (length pre) 1 = Some [?len]" by (simp add: get_range_def)
  have b: "get_range (pre @ ?len # ?b @ ?tail) (length pre + 1) (length s) = Some ?b"
    using get_range_append(1)[of "pre @ [?len]" ?b ?tail] by simp
  have chars: "map of_octet ?b = s" by (simp add: of_octet_of_char comp_def)
  have "parse_labels_at (pre @ ?len # ?b @ ?tail) (length pre) acc =
      parse_labels_at (pre @ ?len # ?b @ ?tail) (length pre + 1 + length s) (acc @ [s])"
    using parse_step[OF h _ _ s(2) b s(3), of acc] s len Cons.prems(2) size chars by (cases "s = []") simp_all
  also have "\<dots> = Some (acc @ s # ls, length pre + 1 + length s + length (name_bytes ls))"
    using Cons.IH[OF ls, of "pre @ ?len # ?b" "acc @ [s]"] Cons.prems(2) size by simp
  finally show ?case using size unfolding split by simp
qed

lemma parse_query:
  assumes "list_all wire_label ls" "length (name_bytes ls) \<le> 256"
  shows "parse_question (dns_query i j ls t) = Some
    \<lparr>q_name = join ''.'' ls, q_type = unat t, q_class = 1, q_end = 16 + length (name_bytes ls)\<rparr>"
proof -
  define pre where "pre = ([i, j, 1, 0, 0, 1, 0, 0, 0, 0, 0, 0] :: octet list)"
  have pre: "length pre = 12" by (simp add: pre_def)
  have q: "dns_query i j ls t = pre @ name_bytes ls @ [0, t, 0, 1]" by (simp add: dns_query_def pre_def)
  have "parse_labels_at (dns_query i j ls t) 12 [] = Some (ls, 12 + length (name_bytes ls))"
    using parse_name_bytes[OF assms(1), of pre "[0, t, 0, 1]" "[]"] assms(2) by (simp add: q pre)
  moreover have "get_range (dns_query i j ls t) (12 + length (name_bytes ls)) 4 = Some [0, t, 0, 1]"
    by (simp add: get_range_def q pre)
  ultimately show ?thesis by (simp add: parse_question_def be16_def)
qed

lemma dns_query_answer:
  assumes "list_all wire_label ls" "length (name_bytes ls) \<le> 256"
    "in_zone (to_ascii_lowercase (join ''.'' ls))"
  shows "dns_answer (dns_query i j ls t) (Some l) =
    (let q = \<lparr>q_name = join ''.'' ls, q_type = unat t, q_class = 1, q_end = 16 + length (name_bytes ls)\<rparr>;
         (rcode, aaaa) = zone_answer l q (to_ascii_lowercase (join ''.'' ls))
     in Dns_Reply (dns_reply (dns_query i j ls t) (Some q) rcode aaaa))"
proof -
  have "\<not> length (dns_query i j ls t) < 12" "dns_query i j ls t ! 2 = 1" "dns_query i j ls t ! 4 = 0"
    "dns_query i j ls t ! 5 = 1"
    by (simp_all add: dns_query_def)
  then show ?thesis
    using parse_query[OF assms(1,2)] assms(3) by (simp add: dns_answer_def be16_def Let_def)
qed

text \<open>Names as the resolver's own zone has them.\<close>

definition machine_name :: "string \<Rightarrow> string list" where
  "machine_name n = [n, ''machines'', ''grund'', ''internal'']"

lemma label_wire: "is_label s \<Longrightarrow> wire_label s"
proof -
  have "label_octet (of_char c)" if "is_ascii_lowercase c \<or> is_ascii_digit c \<or> c = CHR ''-''" for c
  proof -
    have "byte c = unat (of_char c :: octet)"
    proof -
      have "unat (of_nat (of_char c) :: octet) = of_char c" by (simp add: unat_of_nat)
      then show ?thesis by (simp add: byte_def of_nat_of_char)
    qed
    moreover have "byte CHR ''-'' = 45" by (simp add: byte_def)
    then have "48 \<le> byte c \<and> byte c \<le> 57 \<or> 97 \<le> byte c \<and> byte c \<le> 122 \<or> byte c = 45"
      using that by (auto simp: is_ascii_lowercase_def is_ascii_digit_def)
    ultimately show ?thesis by (auto simp: label_octet_def word_le_nat_alt word_unat_eq_iff)
  qed
  then show "is_label s \<Longrightarrow> ?thesis" by (auto simp: is_label_def wire_label_def list_all_iff)
qed

lemma label_lower: "is_label s \<Longrightarrow> to_ascii_lowercase s = s"
  by (intro to_ascii_lowercase_id)
    (auto simp: is_label_def list_all_iff is_ascii_lowercase_def is_ascii_uppercase_def is_ascii_digit_def byte_def)

lemma label_no_dot: "is_label s \<Longrightarrow> CHR ''.'' \<notin> set s"
  by (auto simp: is_label_def list_all_iff is_ascii_lowercase_def is_ascii_digit_def byte_def)

lemma zone_machine:
  assumes "is_label n" "member_by_name l n = Some m" "q_class q = 1" "q_type q = 28"
  shows "zone_answer l q (n @ ''.machines.grund.internal'') = (NoError, [member_address l (nm_slot m)])"
proof -
  have ne: "n \<noteq> []" using assms(1) by (auto simp: is_label_def)
  have zone: "strip_suffix (''.'' @ ZONE) (n @ ''.machines.grund.internal'') = Some (n @ ''.machines'')"
    unfolding strip_suffix_Some by (simp add: ZONE_def)
  have mach: "strip_suffix (''.'' @ MACHINES) (n @ ''.machines.grund.internal'') = Some n"
    unfolding strip_suffix_Some by (simp add: MACHINES_def)
  have "ends_with ''.machines'' (n @ ''.machines'')" by (auto simp: ends_with_iff)
  moreover have "n @ ''.machines.grund.internal'' \<noteq> ZONE" "n @ ''.machines.grund.internal'' \<noteq> MACHINES"
    using ne by (auto simp: ZONE_def MACHINES_def dest!: arg_cong[of _ _ length])
  ultimately show ?thesis
    using assms label_no_dot[OF assms(1)]
    by (simp add: zone_answer_def Let_def zone zone[simplified] mach mach[simplified] CLASS_IN_def TYPE_AAAA_def)
qed

text \<open>
  A member is found by its name: the AAAA query for \<open>name.machines.grund.internal\<close> is answered,
  authoritatively and with no error, with the one machine address of the member of that name.
\<close>

theorem member_names_answer:
  assumes "list_problem parse_id parse_url l = None" "octets_ok l" "m \<in> set (ml_members l)" "nm_name m = Some n"
  shows "\<exists>q. dns_answer (dns_query i j (machine_name n) 28) (Some l) =
      Dns_Reply (dns_reply (dns_query i j (machine_name n) 28) (Some q) NoError [member_address l (nm_slot m)]) \<and>
    parse_question (dns_query i j (machine_name n) 28) = Some q \<and> q_name q = n @ ''.machines.grund.internal''"
proof -
  have mem: "n \<in> set (named ms)" if "m \<in> set ms" for ms
    using that assms(4) by (induction ms) (auto split: option.splits)
  have label: "is_label n" using list_problem_None(3)[OF assms(1)] mem[OF assms(3)] by (simp add: list_all_iff)
  have found: "member_by_name l n = Some m" using lookups_exact[OF assms(1-3)] assms(4) by blast
  have wire: "list_all wire_label (machine_name n)"
    using label label_wire by (auto simp: machine_name_def intro!: label_wire) (code_simp+)
  have size: "length (name_bytes (machine_name n)) \<le> 256"
    using label by (simp add: name_bytes_def machine_name_def is_label_def)
  have name: "join ''.'' (machine_name n) = n @ ''.machines.grund.internal''" by (simp add: machine_name_def)
  have lower: "to_ascii_lowercase (n @ ''.machines.grund.internal'') = n @ ''.machines.grund.internal''"
  proof -
    have "to_ascii_lowercase ''.machines.grund.internal'' = ''.machines.grund.internal''" by code_simp
    then show ?thesis using label_lower[OF label] by (simp add: to_ascii_lowercase_def)
  qed
  have zone: "in_zone (n @ ''.machines.grund.internal'')"
    unfolding in_zone_def ends_with_iff by (auto simp: ZONE_def intro: exI[of _ "n @ ''.machines''"])
  define q where "q = \<lparr>q_name = n @ ''.machines.grund.internal'', q_type = unat (28 :: octet), q_class = 1,
    q_end = 16 + length (name_bytes (machine_name n))\<rparr>"
  have "zone_answer l q (n @ ''.machines.grund.internal'') = (NoError, [member_address l (nm_slot m)])"
    by (rule zone_machine[OF label found]) (simp_all add: q_def)
  then show ?thesis
    using dns_query_answer[OF wire size, of i j 28 l] parse_query[OF wire size, of i j 28] zone
    by (intro exI[of _ q]) (simp add: name lower q_def Let_def)
qed

theorem member_names_answer_witness:
  "\<exists>q. dns_answer (dns_query 7 7 (machine_name ''b'') 28) (Some demo_list) =
     Dns_Reply (dns_reply (dns_query 7 7 (machine_name ''b'') 28) (Some q) NoError
       [[0xfd, 0x12, 0x34, 0x56, 0x78, 0x9a, 0, 2, 0, 0, 0, 0, 0, 0, 0, 1]])"
proof -
  have "demo_member ''b'' 2 [] \<in> set (ml_members demo_list)" "nm_name (demo_member ''b'' 2 []) = Some ''b''"
    by (simp_all add: demo_list_def demo_member_def)
  moreover have "member_address demo_list (nm_slot (demo_member ''b'' 2 [])) =
      [0xfd, 0x12, 0x34, 0x56, 0x78, 0x9a, 0, 2, 0, 0, 0, 0, 0, 0, 0, 1]" by code_simp
  ultimately show ?thesis using member_names_answer[OF demo_list_ok, of _ "''b''" 7 7] by metis
qed

theorem reply_length_witness:
  "\<exists>bytes. dns_answer (dns_query 7 7 (machine_name ''b'') 28) (Some demo_list) = Dns_Reply bytes \<and> length bytes \<le> 512"
proof -
  let ?query = "dns_query 7 7 (machine_name ''b'') 28"
  have "case dns_answer ?query (Some demo_list) of Dns_Reply _ \<Rightarrow> True | _ \<Rightarrow> False" by code_simp
  then obtain bytes where b: "dns_answer ?query (Some demo_list) = Dns_Reply bytes"
    by (auto split: dns_outcome.splits)
  have "list_all wire_label (machine_name ''b'')" "length (name_bytes (machine_name ''b'')) = 27" by code_simp+
  then have "\<exists>q. parse_question ?query = Some q \<and> q_end q \<le> 64" by (simp add: parse_query)
  with reply_length[OF b demo_list_ok(2)] b show ?thesis by blast
qed

theorem answers_from_the_list_witness:
  "\<exists>bytes rcode aaaa q. dns_answer (dns_query 7 7 (machine_name ''b'') 28) (Some demo_list) = Dns_Reply bytes \<and>
     list_all (answered demo_list) aaaa \<and>
     bytes \<in> {dns_reply (dns_query 7 7 (machine_name ''b'') 28) (Some q) rcode aaaa,
       dns_reply (dns_query 7 7 (machine_name ''b'') 28) None rcode []}"
proof -
  let ?query = "dns_query 7 7 (machine_name ''b'') 28"
  have "case dns_answer ?query (Some demo_list) of Dns_Reply _ \<Rightarrow> True | _ \<Rightarrow> False" by code_simp
  then obtain bytes where b: "dns_answer ?query (Some demo_list) = Dns_Reply bytes"
    by (auto split: dns_outcome.splits)
  have "list_all wire_label (machine_name ''b'')" "length (name_bytes (machine_name ''b'')) = 27" by code_simp+
  then obtain q where q: "parse_question ?query = Some q" by (simp add: parse_query)
  from answers_from_the_list[OF q, of "Some demo_list" bytes] b show ?thesis by blast
qed

section \<open>The limit of sixteen is one too many for the longest app names\<close>

text \<open>
  Sixteen addresses for an app name of 32 characters, the longest there is, make a reply of 513 bytes.
\<close>

lemma reply_over_512:
  assumes "length app = 32" "is_label app" "list_all (\<lambda>a. length a = 16) aaaa" "length aaaa = MAX_APP_ANSWERS"
  shows "\<exists>q. parse_question (dns_query i j [app, ''grund'', ''internal''] 28) = Some q \<and>
    length (dns_reply (dns_query i j [app, ''grund'', ''internal''] 28) (Some q) NoError aaaa) = 513"
proof -
  let ?ls = "[app, ''grund'', ''internal'']"
  have w: "list_all wire_label ?ls" using label_wire[OF assms(2)] by simp code_simp
  have n: "length (name_bytes ?ls) = 49" using assms(1) by (simp add: name_bytes_def)
  have p: "parse_question (dns_query i j ?ls 28) = Some
      \<lparr>q_name = join ''.'' ?ls, q_type = unat (28 :: octet), q_class = 1, q_end = 65\<rparr>"
    using parse_query[OF w, of i j 28] n by simp
  show ?thesis
    using length_dns_reply(2)[OF p assms(3)] assms(4) p by (simp add: MAX_APP_ANSWERS_def)
qed

end
