(* ===== verification/Net_Mesh.thy ===== *)
theory Net_Mesh
  imports Net_Dns Net_Frame
begin

text \<open>
  One machine's side of the private network (\<open>grund-net/src/mesh.rs\<close>): the list in force, the peers
  and their connections, and the way of a packet from the machine's device, from a replica's device
  and from a member. Each task of the code (the TUN readers, \<open>receive\<close>, \<open>dial\<close>, the ticking
  watchdogs) is a handler of one input, which returns the new state and what it does to the world.
  A connection is its \<open>stable_id\<close>; what iroh says of it (its path, its datagram limit, what it
  received) is an argument, whether it is closed is state.
\<close>

section \<open>Constants\<close>

definition DIAL_TIMEOUT :: duration where "DIAL_TIMEOUT = seconds 10"
definition HINTED_DIAL_TIMEOUT :: duration where "HINTED_DIAL_TIMEOUT = seconds 3"
definition SILENT_LIMIT :: duration where "SILENT_LIMIT = seconds 5"
definition RELAYED_BEFORE_PROBE :: duration where "RELAYED_BEFORE_PROBE = seconds 3"

definition probe_backoff :: "nat \<Rightarrow> duration" where
  "probe_backoff n =
     seconds (if n = 0 then 5 else if n = 1 then 10 else if n = 2 then 20 else if n = 3 then 40 else 60)"

section \<open>The state\<close>

datatype origin = From_Host | From_Replica | From_Member

definition opens_every_port :: "bool \<Rightarrow> bool \<Rightarrow> origin \<Rightarrow> bool" where
  "opens_every_port is_open local_project from \<longleftrightarrow> is_open \<and> local_project \<and> from = From_Replica"

record mesh_view =
  vw_list :: membership_list
  vw_slot :: "16 word"

record peer =
  pr_connections :: "nat list"
  pr_dialing :: bool
  pr_framer :: "16 word"
  pr_heard :: "(nat \<times> nat \<times> time) list"
  pr_hint_failed :: bool
  pr_relayed_since :: "time option"
  pr_next_probe :: "time option"
  pr_probes :: nat
  pr_probing :: bool

definition new_peer :: peer where
  "new_peer =
     \<lparr>pr_connections = [], pr_dialing = False, pr_framer = 0, pr_heard = [], pr_hint_failed = False,
      pr_relayed_since = None, pr_next_probe = None, pr_probes = 0, pr_probing = False\<rparr>"

datatype counter =
    Tun_In | Sent_Whole | Sent_Split | Dropped_No_Member | Dropped_Bad_Source_Out
  | Dropped_While_Dialing | Dropped_Send | Received | Dropped_Spoofed_In | Dropped_Not_For_Us
  | Refused_Non_Members | Lists_Applied | Lists_Refused_Stale | Endpoints_Attached | Closed_Silent
  | Dropped_Closed_In | Admitted_Replies | Replica_Out | Replica_In | Replica_Egress
  | Dropped_Replica_Spoofed | Dropped_Replica_Closed | Probes_Sent | Probes_Failed | Probes_Answered
  | Greetings_Sent

text \<open>The replicas carried are their addresses with the flows of their filters.\<close>

record ('k, 'r) mesh =
  me_own :: 'k
  me_local_project :: bool
  me_relays :: "'r list"
  me_endpoint :: bool
  me_view :: "mesh_view option"
  me_tun :: bool
  me_running :: bool
  me_peers :: "('k \<times> peer) list"
  me_flows :: flows
  me_replicas :: "(ipv6 \<times> flows) list"
  me_closed :: "nat list"
  me_reassemblers :: "(nat \<times> reassembler) list"
  me_counters :: "counter \<Rightarrow> 64 word"

definition new_mesh :: "'k \<Rightarrow> bool \<Rightarrow> 'r list \<Rightarrow> ('k, 'r) mesh" where
  "new_mesh own local_project relays =
     \<lparr>me_own = own, me_local_project = local_project, me_relays = relays, me_endpoint = False, me_view = None,
      me_tun = False, me_running = True, me_peers = [], me_flows = [], me_replicas = [], me_closed = [], me_reassemblers = [],
      me_counters = (\<lambda>_. 0)\<rparr>"

text \<open>The parsers of iroh: endpoint ids, URLs and relay URLs.\<close>

record ('k, 'r) net_parsers =
  np_id :: "string \<Rightarrow> 'k option"
  np_url :: "string \<Rightarrow> (string \<times> string option) option"
  np_relay :: "string \<Rightarrow> 'r option"

text \<open>What iroh says of the connections.\<close>

datatype net_path = Direct_Path | Relay_Path | Other_Path

record net_now =
  nn_path :: "nat \<Rightarrow> net_path option"
  nn_received :: "nat \<Rightarrow> nat"
  nn_max_datagram :: "nat \<Rightarrow> nat option"
  nn_refuses :: "nat \<Rightarrow> octet list \<Rightarrow> bool"

datatype 'k effect =
    To_Tun "octet list"
  | To_Replica ipv6 "octet list"
  | To_Egress ipv6 "octet list"
  | Send_Datagram nat "octet list"
  | Start_Dial 'k
  | Start_Probe 'k
  | Close nat nat

definition tally :: "counter \<Rightarrow> ('k, 'r) mesh \<Rightarrow> ('k, 'r) mesh" where
  "tally c m = m\<lparr>me_counters := (me_counters m)(c := me_counters m c + 1)\<rparr>"

section \<open>Lookups\<close>

definition ipv6_addrs :: "octet list \<Rightarrow> (ipv6 \<times> ipv6) option" where
  "ipv6_addrs packet =
     (if length packet < 40 \<or> drop_bit 4 (packet ! 0) \<noteq> 6 then None
      else Some (take 16 (drop 8 packet), take 16 (drop 24 packet)))"

definition is_member :: "('k, 'r) net_parsers \<Rightarrow> ('k, 'r) mesh \<Rightarrow> 'k \<Rightarrow> bool" where
  "is_member np m key \<longleftrightarrow>
     is_some_and (me_view m) (\<lambda>v. vw_slot v \<noteq> 0 \<and> member_by_id (np_id np) (vw_list v) key \<noteq> None)"

definition own_ports :: "('k, 'r) mesh \<Rightarrow> port list" where
  "own_ports m =
     (case me_view m of
        None \<Rightarrow> []
      | Some v \<Rightarrow>
          (case List.find (\<lambda>x. nm_slot x = vw_slot v) (ml_members (vw_list v)) of
             None \<Rightarrow> [] | Some x \<Rightarrow> nm_ports x))"

definition live :: "('k, 'r) mesh \<Rightarrow> nat list \<Rightarrow> nat list" where
  "live m cs = filter (\<lambda>c. c \<notin> set (me_closed m)) cs"

definition peer_of :: "('k, 'r) mesh \<Rightarrow> 'k \<Rightarrow> peer" where
  "peer_of m key = unwrap_or (map_of (me_peers m) key) new_peer"

definition put_peer :: "'k \<Rightarrow> peer \<Rightarrow> ('k, 'r) mesh \<Rightarrow> ('k, 'r) mesh" where
  "put_peer key p m = m\<lparr>me_peers := im_insert key p (me_peers m)\<rparr>"

definition selected_is_relay :: "net_now \<Rightarrow> nat \<Rightarrow> bool option" where
  "selected_is_relay nn c = map_option (\<lambda>p. p = Relay_Path) (nn_path nn c)"

section \<open>Lists\<close>

datatype apply_error = Bad_List membership_error | Not_Newer nat nat | Other_Network | Slot_Changed "16 word" "16 word"

text \<open>\<open>close_all\<close> on some peers: their connections close with code 1.\<close>

definition close_peers :: "('k \<times> peer) list \<Rightarrow> ('k, 'r) mesh \<Rightarrow> ('k, 'r) mesh \<times> 'k effect list" where
  "close_peers ps m =
     (let cs = concat (map (pr_connections \<circ> snd) ps) in
      (m\<lparr>me_closed := cs @ me_closed m\<rparr>, map (\<lambda>c. Close c 1) cs))"

definition apply_list ::
  "('k, 'r) net_parsers \<Rightarrow> membership_list \<Rightarrow> ('k, 'r) mesh \<Rightarrow> apply_error option \<times> ('k, 'r) mesh \<times> 'k effect list" where
  "apply_list np l m =
     (case list_problem (np_id np) (np_url np) l of
        Some e \<Rightarrow> (Some (Bad_List e), m, [])
      | None \<Rightarrow>
          if is_some_and (me_view m) (\<lambda>v. ml_epoch l \<le> ml_epoch (vw_list v))
          then (Some (Not_Newer (ml_epoch l) (ml_epoch (vw_list (the (me_view m))))), tally Lists_Refused_Stale m, [])
          else if is_some_and (me_view m) (\<lambda>v.
              ml_network_id l \<noteq> ml_network_id (vw_list v) \<or> ml_prefix l \<noteq> ml_prefix (vw_list v))
          then (Some Other_Network, m, [])
          else
            case member_by_id (np_id np) l (me_own m) of
              None \<Rightarrow>
                let (m', es) = close_peers (me_peers m) m in
                (None, m'\<lparr>me_peers := [], me_view := Some \<lparr>vw_list = l, vw_slot = 0\<rparr>\<rparr>, es)
            | Some self \<Rightarrow>
                if is_some_and (me_view m) (\<lambda>v. vw_slot v \<noteq> 0 \<and> vw_slot v \<noteq> nm_slot self)
                then (Some (Slot_Changed (vw_slot (the (me_view m))) (nm_slot self)), m, [])
                else
                  let stays = (\<lambda>p. member_by_id (np_id np) l (fst p) \<noteq> None);
                      (m', es) = close_peers (filter (\<lambda>p. \<not> stays p) (me_peers m)) m in
                  (None,
                   tally Lists_Applied
                     (m'\<lparr>me_peers := filter stays (me_peers m), me_view := Some \<lparr>vw_list = l, vw_slot = nm_slot self\<rparr>\<rparr>),
                   es))"

text \<open>
  \<open>run\<close>: the first list that names this machine makes the TUN device and is applied; from then on
  each list is. Where the first is refused \<open>run\<close> ends; a later one that is refused is only logged.
\<close>

definition take_list :: "('k, 'r) net_parsers \<Rightarrow> membership_list \<Rightarrow> ('k, 'r) mesh \<Rightarrow> ('k, 'r) mesh \<times> 'k effect list" where
  "take_list np l m =
     (if \<not> me_running m then (m, [])
      else if me_tun m then snd (apply_list np l m)
      else if member_by_id (np_id np) l (me_own m) \<noteq> None then
        let (e, m', es) = apply_list np l (m\<lparr>me_tun := True\<rparr>) in (m'\<lparr>me_running := e = None\<rparr>, es)
      else (m, []))"

section \<open>Delivery\<close>

definition to_machine :: "octet list \<Rightarrow> port list \<Rightarrow> time \<Rightarrow> ('k, 'r) mesh \<Rightarrow> ('k, 'r) mesh \<times> 'k effect list" where
  "to_machine packet ports now m =
     (case inbound_packet packet ports now (me_flows m) of
        Closed \<Rightarrow> (tally Dropped_Closed_In m, [])
      | Reply \<Rightarrow> (tally Received (tally Admitted_Replies m), [To_Tun packet])
      | _ \<Rightarrow> (tally Received m, [To_Tun packet]))"

definition replica_ports :: "('k, 'r) mesh \<Rightarrow> ipv6 \<Rightarrow> origin \<Rightarrow> port list \<times> bool" where
  "replica_ports m dst from =
     (case me_view m of
        None \<Rightarrow> ([], False)
      | Some v \<Rightarrow>
          (case replica_at (vw_list v) dst of
             None \<Rightarrow> ([], False)
           | Some (_, r) \<Rightarrow> (ar_ports r, opens_every_port (ar_open r) (me_local_project m) from)))"

definition to_replica ::
  "octet list \<Rightarrow> ipv6 \<Rightarrow> flows \<Rightarrow> origin \<Rightarrow> time \<Rightarrow> ('k, 'r) mesh \<Rightarrow> ('k, 'r) mesh \<times> 'k effect list" where
  "to_replica packet dst fs from now m =
     (let (ports, is_open) = replica_ports m dst from in
      if from = From_Host \<or> is_open then (tally Replica_In m, [To_Replica dst packet])
      else
        case inbound_packet packet ports now fs of
          Closed \<Rightarrow> (tally Dropped_Replica_Closed m, [])
        | Reply \<Rightarrow> (tally Replica_In (tally Admitted_Replies m), [To_Replica dst packet])
        | _ \<Rightarrow> (tally Replica_In m, [To_Replica dst packet]))"

definition deliver_local ::
  "octet list \<Rightarrow> ipv6 \<Rightarrow> origin \<Rightarrow> time \<Rightarrow> ('k, 'r) mesh \<Rightarrow> ('k, 'r) mesh \<times> 'k effect list" where
  "deliver_local packet dst from now m =
     (case map_of (me_replicas m) dst of
        Some fs \<Rightarrow> to_replica packet dst fs from now m
      | None \<Rightarrow>
          if \<not> me_tun m then (m, [])
          else
            let resolver = map_option (\<lambda>v. resolver_address (vw_list v) (vw_slot v)) (me_view m);
                dns = (if from = From_Replica \<and> Some dst = resolver
                       then [\<lparr>pt_transport = Udp_Port, pt_number = 53\<rparr>, \<lparr>pt_transport = Tcp_Port, pt_number = 53\<rparr>]
                       else [])
            in to_machine packet (own_ports m @ dns) now m)"

section \<open>Sending to members\<close>

definition send_datagrams :: "net_now \<Rightarrow> nat \<Rightarrow> octet list list \<Rightarrow> ('k, 'r) mesh \<Rightarrow> ('k, 'r) mesh" where
  "send_datagrams nn c ds m = fold (\<lambda>d m. if nn_refuses nn c d then tally Dropped_Send m else m) ds m"

definition send_packet ::
  "net_now \<Rightarrow> 'k \<Rightarrow> octet list \<Rightarrow> ('k, 'r) mesh \<Rightarrow> ('k, 'r) mesh \<times> 'k effect list" where
  "send_packet nn target packet m =
     (let p = peer_of m target;
          p = p\<lparr>pr_connections := live m (pr_connections p)\<rparr>
      in case last_opt (pr_connections p) of
           None \<Rightarrow>
             (put_peer target (p\<lparr>pr_dialing := True\<rparr>) (tally Dropped_While_Dialing m),
              if pr_dialing p then [] else [Start_Dial target])
         | Some c \<Rightarrow>
             let (ds, next_id) = frame_packet packet (unwrap_or (nn_max_datagram nn c) 0) (pr_framer p);
                 sent = (if length ds = 1 then Sent_Whole else if length ds = 2 then Sent_Split else Dropped_Send)
             in (send_datagrams nn c ds (tally sent (put_peer target (p\<lparr>pr_framer := next_id\<rparr>) m)),
                 map (Send_Datagram c) ds))"

section \<open>Packets from the devices\<close>

definition note_own :: "octet list \<Rightarrow> time \<Rightarrow> ('k, 'r) mesh \<Rightarrow> ('k, 'r) mesh" where
  "note_own packet now m = m\<lparr>me_flows := note_outbound packet now (me_flows m)\<rparr>"

text \<open>One packet read by \<open>tun_to_peers\<close>.\<close>

definition tun_packet ::
  "('k, 'r) net_parsers \<Rightarrow> net_now \<Rightarrow> octet list \<Rightarrow> time \<Rightarrow> ('k, 'r) mesh \<Rightarrow> ('k, 'r) mesh \<times> 'k effect list" where
  "tun_packet np nn packet now m =
     (let m = tally Tun_In m in
      case ipv6_addrs packet of
        None \<Rightarrow> (tally Dropped_No_Member m, [])
      | Some (src, dst) \<Rightarrow>
          case me_view m of
            None \<Rightarrow> (tally Dropped_No_Member m, [])
          | Some v \<Rightarrow>
              if vw_slot v = 0 then (tally Dropped_No_Member m, [])
              else if map_option nm_slot (member_for (vw_list v) src) \<noteq> Some (vw_slot v)
              then (tally Dropped_Bad_Source_Out m, [])
              else
                case member_for (vw_list v) dst of
                  None \<Rightarrow> (tally Dropped_No_Member m, [])
                | Some x \<Rightarrow>
                    if nm_slot x = vw_slot v then deliver_local packet dst From_Host now (note_own packet now m)
                    else
                      case np_id np (nm_endpoint_id x) of
                        None \<Rightarrow> (tally Dropped_No_Member m, [])
                      | Some target \<Rightarrow> send_packet nn target packet (note_own packet now m))"

definition note_replica :: "ipv6 \<Rightarrow> octet list \<Rightarrow> time \<Rightarrow> ('k, 'r) mesh \<Rightarrow> ('k, 'r) mesh" where
  "note_replica a packet now m =
     (case map_of (me_replicas m) a of
        None \<Rightarrow> m
      | Some fs \<Rightarrow> m\<lparr>me_replicas := im_insert a (note_outbound packet now fs) (me_replicas m)\<rparr>)"

definition in_network :: "membership_list \<Rightarrow> ipv6 \<Rightarrow> bool" where
  "in_network l dst \<longleftrightarrow> take 6 (ml_prefix l) = take 6 dst"

definition to_egress :: "ipv6 \<Rightarrow> octet list \<Rightarrow> ('k, 'r) mesh \<Rightarrow> ('k, 'r) mesh \<times> 'k effect list" where
  "to_egress a packet m = (tally Replica_Egress m, [To_Egress a packet])"

text \<open>One packet read by \<open>carry_replica\<close> from the device of the replica at \<open>a\<close>.\<close>

definition replica_packet ::
  "('k, 'r) net_parsers \<Rightarrow> net_now \<Rightarrow> ipv6 \<Rightarrow> octet list \<Rightarrow> time \<Rightarrow> ('k, 'r) mesh \<Rightarrow> ('k, 'r) mesh \<times> 'k effect list" where
  "replica_packet np nn a packet now m =
     (if map_of (me_replicas m) a = None \<or> packet = [] then (m, [])
      else if drop_bit 4 (packet ! 0) = 4 then to_egress a packet m
      else
        case ipv6_addrs packet of
          None \<Rightarrow> (m, [])
        | Some (src, dst) \<Rightarrow>
            if src \<noteq> a then (tally Dropped_Replica_Spoofed m, [])
            else
              case me_view m of
                None \<Rightarrow> to_egress a packet m
              | Some v \<Rightarrow>
                  if \<not> in_network (vw_list v) dst then to_egress a packet m
                  else
                    let m = note_replica a packet now (tally Replica_Out m);
                        target = Option.bind (member_for (vw_list v) dst)
                          (\<lambda>x. if nm_slot x \<noteq> vw_slot v then np_id np (nm_endpoint_id x) else None)
                    in case target of
                         Some key \<Rightarrow> send_packet nn key packet m
                       | None \<Rightarrow> deliver_local packet dst From_Replica now m)"

section \<open>Packets from members\<close>

datatype verdict = Deliver | Spoofed | Not_For_Us | Not_Member

definition verdict_on :: "('k, 'r) net_parsers \<Rightarrow> 'k \<Rightarrow> octet list \<Rightarrow> mesh_view option \<Rightarrow> verdict" where
  "verdict_on np sender packet view =
     (case view of
        None \<Rightarrow> Not_Member
      | Some v \<Rightarrow>
          (case member_by_id (np_id np) (vw_list v) sender of
             None \<Rightarrow> Not_Member
           | Some x \<Rightarrow>
               (case ipv6_addrs packet of
                  None \<Rightarrow> Spoofed
                | Some (src, dst) \<Rightarrow>
                    if map_option nm_slot (member_for (vw_list v) src) \<noteq> Some (nm_slot x) then Spoofed
                    else if map_option nm_slot (member_for (vw_list v) dst) \<noteq> Some (vw_slot v) then Not_For_Us
                    else Deliver)))"

definition deliver_received :: "octet list \<Rightarrow> time \<Rightarrow> ('k, 'r) mesh \<Rightarrow> ('k, 'r) mesh \<times> 'k effect list" where
  "deliver_received packet now m =
     (case ipv6_addrs packet of
        Some (_, dst) \<Rightarrow>
          if map_of (me_replicas m) dst \<noteq> None then deliver_local packet dst From_Member now m
          else to_machine packet (own_ports m) now m
      | None \<Rightarrow> to_machine packet (own_ports m) now m)"

text \<open>One datagram read by \<open>receive\<close> from connection \<open>c\<close>, opened by \<open>sender\<close>.\<close>

definition member_datagram ::
  "('k, 'r) net_parsers \<Rightarrow> nat \<Rightarrow> 'k \<Rightarrow> octet list \<Rightarrow> time \<Rightarrow> ('k, 'r) mesh \<Rightarrow> ('k, 'r) mesh \<times> 'k effect list" where
  "member_datagram np c sender d now m =
     (if \<not> me_tun m \<or> c \<in> set (me_closed m) then (m, [])
      else
        let (packet, ra) = push_datagram d now (unwrap_or (map_of (me_reassemblers m) c) \<lparr>ra_waiting = [], ra_expired = 0\<rparr>);
            m = m\<lparr>me_reassemblers := im_insert c ra (me_reassemblers m)\<rparr>
        in case packet of
             None \<Rightarrow> (m, [])
           | Some packet \<Rightarrow>
               (case verdict_on np sender packet (me_view m) of
                  Deliver \<Rightarrow> deliver_received packet now m
                | Spoofed \<Rightarrow> (tally Dropped_Spoofed_In m, [])
                | Not_For_Us \<Rightarrow> (tally Dropped_Not_For_Us m, [])
                | Not_Member \<Rightarrow> (m\<lparr>me_closed := c # me_closed m\<rparr>, [Close c 1])))"

section \<open>Connections\<close>

definition admit :: "('k, 'r) net_parsers \<Rightarrow> nat \<Rightarrow> 'k \<Rightarrow> ('k, 'r) mesh \<Rightarrow> ('k, 'r) mesh \<times> 'k effect list" where
  "admit np c key m =
     (if \<not> is_member np m key
      then (tally Refused_Non_Members (m\<lparr>me_closed := c # me_closed m\<rparr>), [Close c 1])
      else
        let p = peer_of m key in
        (put_peer key (p\<lparr>pr_connections := live m (pr_connections p) @ [c]\<rparr>) m, []))"

definition dial_through :: "'r list \<Rightarrow> 'r option \<Rightarrow> bool \<Rightarrow> 'r list" where
  "dial_through relays hint hint_failed =
     (case hint of
        Some h \<Rightarrow> if \<not> hint_failed \<and> h \<in> set relays then [h] else relays
      | None \<Rightarrow> relays)"

definition relay_hint :: "('k, 'r) net_parsers \<Rightarrow> ('k, 'r) mesh \<Rightarrow> 'k \<Rightarrow> 'r option" where
  "relay_hint np m target =
     Option.bind (me_view m) (\<lambda>v.
       Option.bind (member_by_id (np_id np) (vw_list v) target) (\<lambda>x.
         Option.bind (nm_relay_url x) (np_relay np)))"

definition dial_relays :: "('k, 'r) net_parsers \<Rightarrow> ('k, 'r) mesh \<Rightarrow> 'k \<Rightarrow> 'r list" where
  "dial_relays np m target =
     dial_through (me_relays m) (relay_hint np m target)
       (is_some_and (map_of (me_peers m) target) pr_hint_failed)"

definition dial_timeout :: "('k, 'r) net_parsers \<Rightarrow> ('k, 'r) mesh \<Rightarrow> 'k \<Rightarrow> duration" where
  "dial_timeout np m target =
     (if length (dial_relays np m target) = 1 \<and> length (me_relays m) > 1
      then HINTED_DIAL_TIMEOUT else DIAL_TIMEOUT)"

text \<open>The end of a dial: the connection it made, if any.\<close>

definition dialled :: "('k, 'r) net_parsers \<Rightarrow> 'k \<Rightarrow> nat option \<Rightarrow> ('k, 'r) mesh \<Rightarrow> ('k, 'r) mesh \<times> 'k effect list" where
  "dialled np target result m =
     (let m = (case map_of (me_peers m) target of
                 None \<Rightarrow> m
               | Some p \<Rightarrow> put_peer target (p\<lparr>pr_dialing := False, pr_hint_failed := result = None\<rparr>) m)
      in case result of None \<Rightarrow> (m, []) | Some c \<Rightarrow> admit np c target m)"

definition attach_endpoint :: "'k \<Rightarrow> ('k, 'r) mesh \<Rightarrow> ('k, 'r) mesh \<times> 'k effect list" where
  "attach_endpoint key m =
     (if key \<noteq> me_own m then (m, [])
      else if me_endpoint m then
        let (m', es) = close_peers (me_peers m) m in (tally Endpoints_Attached (m'\<lparr>me_peers := []\<rparr>), es)
      else (tally Endpoints_Attached (m\<lparr>me_endpoint := True\<rparr>), []))"

section \<open>Watchdogs\<close>

text \<open>One peer in a tick of \<open>close_silent_connections\<close>: what it heard, and the connections to close.\<close>

fun heard_of :: "net_now \<Rightarrow> time \<Rightarrow> nat list \<Rightarrow> (nat \<times> nat \<times> time) list \<Rightarrow> (nat \<times> nat \<times> time) list \<times> nat list" where
  "heard_of nn now [] heard = (heard, [])"
| "heard_of nn now (c # cs) heard =
     (let received = nn_received nn c;
          (n, t) = unwrap_or (map_of heard c) (received, now);
          entry = (if received \<noteq> n then (received, now) else (n, t));
          (heard', silent) = heard_of nn now cs (im_insert c entry heard)
      in (heard', if received = n \<and> since now t \<ge> SILENT_LIMIT then c # silent else silent))"

definition silent_peer :: "net_now \<Rightarrow> time \<Rightarrow> ('k, 'r) mesh \<Rightarrow> peer \<Rightarrow> peer \<times> nat list" where
  "silent_peer nn now m p =
     (let cs = live m (pr_connections p);
          (heard, silent) = heard_of nn now cs (filter (\<lambda>(c, _). c \<in> set cs) (pr_heard p))
      in (p\<lparr>pr_connections := filter (\<lambda>c. c \<notin> set silent) cs, pr_heard := heard\<rparr>, silent))"

definition silent_tick :: "net_now \<Rightarrow> time \<Rightarrow> ('k, 'r) mesh \<Rightarrow> ('k, 'r) mesh \<times> 'k effect list" where
  "silent_tick nn now m =
     (let ps = map (\<lambda>(key, p). (key, silent_peer nn now m p)) (me_peers m);
          silent = concat (map (snd \<circ> snd) ps)
      in (((tally Closed_Silent ^^ length silent) m)
            \<lparr>me_peers := map (\<lambda>(key, p, _). (key, p)) ps, me_closed := silent @ me_closed m\<rparr>,
          map (\<lambda>c. Close c 2) silent))"

text \<open>One peer in a tick of \<open>probe_relayed_peers\<close>: whether it is due.\<close>

definition relayed_peer :: "net_now \<Rightarrow> time \<Rightarrow> ('k, 'r) mesh \<Rightarrow> peer \<Rightarrow> peer \<times> bool" where
  "relayed_peer nn now m p =
     (let p = p\<lparr>pr_connections := live m (pr_connections p)\<rparr> in
      if Option.bind (last_opt (pr_connections p)) (selected_is_relay nn) = Some True then
        let t = unwrap_or (pr_relayed_since p) now in
        (p\<lparr>pr_relayed_since := Some t\<rparr>,
         \<not> pr_probing p \<and> since now t \<ge> RELAYED_BEFORE_PROBE \<and>
         (case pr_next_probe p of None \<Rightarrow> True | Some n \<Rightarrow> n \<le> now))
      else (p\<lparr>pr_relayed_since := None, pr_next_probe := None, pr_probes := 0\<rparr>, False))"

definition probe_peer :: "time \<Rightarrow> peer \<Rightarrow> peer" where
  "probe_peer now p =
     p\<lparr>pr_probing := True, pr_next_probe := Some (now + probe_backoff (pr_probes p)), pr_probes := u32_add (pr_probes p) 1\<rparr>"

definition probe_tick :: "net_now \<Rightarrow> time \<Rightarrow> ('k, 'r) mesh \<Rightarrow> ('k, 'r) mesh \<times> 'k effect list" where
  "probe_tick nn now m =
     (let ps = map (\<lambda>(key, p). (key, relayed_peer nn now m p)) (me_peers m);
          fires = (\<lambda>(_, _, due). me_endpoint m \<and> due)
      in (m\<lparr>me_peers := map (\<lambda>(key, p, due). (key, if me_endpoint m \<and> due then probe_peer now p else p)) ps\<rparr>,
          map (\<lambda>(key, _). Start_Probe key) (filter fires ps)))"

text \<open>A probe is counted as sent when it starts and its end is told to its peer.\<close>

definition probe_started :: "('k, 'r) mesh \<Rightarrow> ('k, 'r) mesh" where
  "probe_started m = tally Probes_Sent m"

definition probe_done :: "'k \<Rightarrow> bool \<Rightarrow> ('k, 'r) mesh \<Rightarrow> ('k, 'r) mesh" where
  "probe_done target ok m =
     (let m = (if ok then m else tally Probes_Failed m) in
      case map_of (me_peers m) target of
        None \<Rightarrow> m | Some p \<Rightarrow> put_peer target (p\<lparr>pr_probing := False\<rparr>) m)"

definition greet_targets :: "('k, 'r) net_parsers \<Rightarrow> ('k, 'r) mesh \<Rightarrow> 'k list" where
  "greet_targets np m =
     (case me_view m of
        None \<Rightarrow> []
      | Some v \<Rightarrow>
          filter (\<lambda>key. key \<noteq> me_own m)
            (List.map_filter (\<lambda>x. if nm_direct_addrs x = [] then None else np_id np (nm_endpoint_id x))
              (ml_members (vw_list v))))"

fun greet_all :: "'k list \<Rightarrow> ('k, 'r) mesh \<Rightarrow> ('k, 'r) mesh \<times> 'k effect list" where
  "greet_all [] m = (m, [])"
| "greet_all (key # keys) m =
     (let p = peer_of m key;
          p = p\<lparr>pr_connections := live m (pr_connections p)\<rparr>
      in if pr_probing p \<or> pr_connections p \<noteq> [] then greet_all keys (put_peer key p m)
         else
           let (m', es) = greet_all keys (tally Greetings_Sent (put_peer key (p\<lparr>pr_probing := True\<rparr>) m))
           in (m', Start_Probe key # es))"

definition greet_unconnected :: "('k, 'r) net_parsers \<Rightarrow> ('k, 'r) mesh \<Rightarrow> ('k, 'r) mesh \<times> 'k effect list" where
  "greet_unconnected np m = (if \<not> me_endpoint m then (m, []) else greet_all (greet_targets np m) m)"

text \<open>\<open>Prober::accept\<close>.\<close>

definition accept_probe :: "('k, 'r) net_parsers \<Rightarrow> nat \<Rightarrow> 'k \<Rightarrow> ('k, 'r) mesh \<Rightarrow> ('k, 'r) mesh \<times> 'k effect list" where
  "accept_probe np c key m =
     (if is_member np m key then (tally Probes_Answered m, [])
      else (tally Refused_Non_Members (m\<lparr>me_closed := c # me_closed m\<rparr>), [Close c 1]))"

definition waiting_on_relay :: "net_now \<Rightarrow> ('k, 'r) mesh \<Rightarrow> bool" where
  "waiting_on_relay nn m \<longleftrightarrow>
     list_ex (\<lambda>(_, p).
       pr_dialing p \<or>
       is_some_and (last_opt (live m (pr_connections p))) (\<lambda>c. selected_is_relay nn c \<noteq> Some False)) (me_peers m)"

definition has_direct_path :: "net_now \<Rightarrow> ('k, 'r) mesh \<Rightarrow> bool" where
  "has_direct_path nn m \<longleftrightarrow>
     list_ex (\<lambda>(_, p). list_ex (\<lambda>c. selected_is_relay nn c = Some False) (live m (pr_connections p))) (me_peers m)"

section \<open>The mesh\<close>

datatype ('k, 'r) mesh_input =
    Take_List membership_list
  | Attach_Endpoint 'k
  | Set_Relays "'r list"
  | Attach_Replica ipv6
  | Detach_Replica ipv6
  | Tun_Packet net_now "octet list" time
  | Replica_Packet net_now ipv6 "octet list" time
  | Member_Datagram nat 'k "octet list" time
  | Incoming nat 'k
  | Dialled 'k "nat option"
  | Peer_Closes nat
  | Silent_Tick net_now time
  | Probe_Tick net_now time
  | Greet
  | Probe_Started
  | Probe_Done 'k bool
  | Incoming_Probe nat 'k

fun mesh_handle ::
  "('k, 'r) net_parsers \<Rightarrow> ('k, 'r) mesh_input \<Rightarrow> ('k, 'r) mesh \<Rightarrow> ('k, 'r) mesh \<times> 'k effect list" where
  "mesh_handle np (Take_List l) m = take_list np l m"
| "mesh_handle np (Attach_Endpoint key) m = attach_endpoint key m"
| "mesh_handle np (Set_Relays rs) m = (m\<lparr>me_relays := rs\<rparr>, [])"
| "mesh_handle np (Attach_Replica a) m = (m\<lparr>me_replicas := im_insert a [] (me_replicas m)\<rparr>, [])"
| "mesh_handle np (Detach_Replica a) m = (m\<lparr>me_replicas := filter (\<lambda>(b, _). b \<noteq> a) (me_replicas m)\<rparr>, [])"
| "mesh_handle np (Tun_Packet nn packet now) m = tun_packet np nn packet now m"
| "mesh_handle np (Replica_Packet nn a packet now) m = replica_packet np nn a packet now m"
| "mesh_handle np (Member_Datagram c key d now) m = member_datagram np c key d now m"
| "mesh_handle np (Incoming c key) m = admit np c key m"
| "mesh_handle np (Dialled key result) m = dialled np key result m"
| "mesh_handle np (Peer_Closes c) m = (m\<lparr>me_closed := c # me_closed m\<rparr>, [])"
| "mesh_handle np (Silent_Tick nn now) m = silent_tick nn now m"
| "mesh_handle np (Probe_Tick nn now) m = probe_tick nn now m"
| "mesh_handle np Greet m = greet_unconnected np m"
| "mesh_handle np Probe_Started m = (probe_started m, [])"
| "mesh_handle np (Probe_Done key ok) m = (probe_done key ok m, [])"
| "mesh_handle np (Incoming_Probe c key) m = accept_probe np c key m"

definition mesh_after :: "('k, 'r) net_parsers \<Rightarrow> ('k, 'r) mesh_input list \<Rightarrow> ('k, 'r) mesh \<Rightarrow> ('k, 'r) mesh" where
  "mesh_after np inputs m = fold (\<lambda>i m. fst (mesh_handle np i m)) inputs m"

end
