(* ===== verification/Net_Mesh_Props.thy ===== *)
theory Net_Mesh_Props
  imports Net_Mesh
begin

text \<open>
  What the mesh keeps over every sequence of inputs: the list in force is a checked one and only moves
  forward, the flow tables hold only what this machine's devices sent, and so nothing reaches a device
  but packets of members and of the machine's own replicas that the filters let in.
\<close>

section \<open>What an operation leaves alone\<close>

lemma tally_frame [simp]:
  "me_view (tally c m) = me_view m" "me_own (tally c m) = me_own m" "me_flows (tally c m) = me_flows m"
  "me_replicas (tally c m) = me_replicas m" "me_peers (tally c m) = me_peers m" "me_tun (tally c m) = me_tun m"
  "me_local_project (tally c m) = me_local_project m" "me_closed (tally c m) = me_closed m"
  by (simp_all add: tally_def)

lemma tally_pow_frame [simp]:
  "me_view ((tally c ^^ n) m) = me_view m" "me_own ((tally c ^^ n) m) = me_own m"
  "me_flows ((tally c ^^ n) m) = me_flows m" "me_replicas ((tally c ^^ n) m) = me_replicas m"
  by (induction n) simp_all

lemma put_peer_frame [simp]:
  "me_view (put_peer k p m) = me_view m" "me_own (put_peer k p m) = me_own m"
  "me_flows (put_peer k p m) = me_flows m" "me_replicas (put_peer k p m) = me_replicas m"
  by (simp_all add: put_peer_def)

text \<open>The device side of a mesh: its key, its list and its flow tables.\<close>

definition device_side :: "('k, 'r) mesh \<Rightarrow> 'k \<times> mesh_view option \<times> flows \<times> (ipv6 \<times> flows) list" where
  "device_side m = (me_own m, me_view m, me_flows m, me_replicas m)"

lemma device_side_tally [simp]: "device_side (tally c m) = device_side m"
  "device_side ((tally c ^^ n) m) = device_side m" "device_side (put_peer k p m) = device_side m"
  by (simp_all add: device_side_def)

lemma device_side_update [simp]:
  "device_side (m\<lparr>me_relays := a\<rparr>) = device_side m" "device_side (m\<lparr>me_endpoint := b\<rparr>) = device_side m"
  "device_side (m\<lparr>me_tun := b\<rparr>) = device_side m" "device_side (m\<lparr>me_running := b\<rparr>) = device_side m"
  "device_side (m\<lparr>me_peers := ps\<rparr>) = device_side m" "device_side (m\<lparr>me_closed := cs\<rparr>) = device_side m"
  "device_side (m\<lparr>me_reassemblers := rs\<rparr>) = device_side m"
  by (simp_all add: device_side_def)

lemma device_side_send [simp]: "device_side (fst (send_packet nn k p m)) = device_side m"
proof -
  have "device_side (send_datagrams nn c ds m) = device_side m" for c ds and m :: "('a, 'b) mesh"
    by (induction ds arbitrary: m) (simp_all add: send_datagrams_def)
  then show ?thesis by (simp add: send_packet_def Let_def split: option.split prod.split)
qed

lemma device_side_to_machine [simp]: "device_side (fst (to_machine p ports now m)) = device_side m"
  by (simp add: to_machine_def split: inbound.split)

lemma device_side_to_replica [simp]: "device_side (fst (to_replica p dst fs from now m)) = device_side m"
  by (simp add: to_replica_def split: inbound.split prod.split)

lemma device_side_deliver [simp]: "device_side (fst (deliver_local p dst from now m)) = device_side m"
  by (simp add: deliver_local_def Let_def split: option.split)

lemma device_side_received [simp]: "device_side (fst (deliver_received p now m)) = device_side m"
  by (simp add: deliver_received_def split: option.split prod.split)

lemma device_side_member [simp]: "device_side (fst (member_datagram np c k d now m)) = device_side m"
  by (simp add: member_datagram_def Let_def split: option.split prod.split verdict.split)

lemma device_side_admit [simp]: "device_side (fst (admit np c k m)) = device_side m"
  by (simp add: admit_def Let_def)

lemma device_side_dialled [simp]: "device_side (fst (dialled np k r m)) = device_side m"
  by (simp add: dialled_def Let_def split: option.split)

lemma device_side_attach [simp]: "device_side (fst (attach_endpoint k m)) = device_side m"
  by (simp add: attach_endpoint_def close_peers_def Let_def)

lemma device_side_silent [simp]: "device_side (fst (silent_tick nn now m)) = device_side m"
proof -
  have "silent_tick nn now m = (m', es) \<Longrightarrow>
    \<exists>n ps cs. m' = ((tally Closed_Silent ^^ n) m)\<lparr>me_peers := ps, me_closed := cs\<rparr>" for m' es
    by (auto simp: silent_tick_def Let_def)
  then obtain n ps cs where "fst (silent_tick nn now m) = ((tally Closed_Silent ^^ n) m)\<lparr>me_peers := ps, me_closed := cs\<rparr>"
    by (metis fst_conv surj_pair)
  then show ?thesis by (simp add: device_side_def)
qed

lemma device_side_probe [simp]:
  "device_side (fst (probe_tick nn now m)) = device_side m" "device_side (probe_started m) = device_side m"
  "device_side (probe_done k ok m) = device_side m"
  by (simp_all add: probe_tick_def probe_started_def probe_done_def Let_def split: option.split)

lemma device_side_greet [simp]: "device_side (fst (greet_unconnected np m)) = device_side m"
proof -
  have "device_side (fst (greet_all ks m)) = device_side m" for ks and m :: "('a, 'b) mesh"
    by (induction ks arbitrary: m) (simp_all add: Let_def case_prod_beta)
  then show ?thesis by (simp add: greet_unconnected_def)
qed

lemma device_side_accept_probe [simp]: "device_side (fst (accept_probe np c k m)) = device_side m"
  by (simp add: accept_probe_def)

lemma device_sideD:
  "device_side m' = device_side m \<Longrightarrow>
   me_own m' = me_own m \<and> me_view m' = me_view m \<and> me_flows m' = me_flows m \<and> me_replicas m' = me_replicas m"
  by (simp add: device_side_def)

section \<open>The list in force\<close>

text \<open>A view is a checked list with the slot it gives this machine, zero where it gives none.\<close>

definition view_ok :: "('k, 'r) net_parsers \<Rightarrow> 'k \<Rightarrow> mesh_view \<Rightarrow> bool" where
  "view_ok np own v \<longleftrightarrow>
     list_problem (np_id np) (np_url np) (vw_list v) = None \<and>
     vw_slot v = (case member_by_id (np_id np) (vw_list v) own of None \<Rightarrow> 0 | Some x \<Rightarrow> nm_slot x)"

definition follows_view :: "mesh_view \<Rightarrow> mesh_view \<Rightarrow> bool" where
  "follows_view v w \<longleftrightarrow>
     w = v \<or>
     ml_epoch (vw_list v) < ml_epoch (vw_list w) \<and> ml_network_id (vw_list w) = ml_network_id (vw_list v) \<and>
     ml_prefix (vw_list w) = ml_prefix (vw_list v)"

lemma follows_view_trans: "follows_view u v \<Longrightarrow> follows_view v w \<Longrightarrow> follows_view u w"
  by (auto simp: follows_view_def)

text \<open>What a list can do: nothing to the view, or the next view.\<close>

lemma close_peers_side: "device_side (fst (close_peers ps m)) = device_side m"
  by (simp add: close_peers_def Let_def)

lemma apply_list_view:
  assumes "apply_list np l m = (e, m', es)"
  shows "me_own m' = me_own m \<and> me_flows m' = me_flows m \<and> me_replicas m' = me_replicas m \<and>
    (me_view m' = me_view m \<or>
     (\<exists>w. me_view m' = Some w \<and> vw_list w = l \<and> view_ok np (me_own m) w \<and>
       (\<forall>v. me_view m = Some v \<longrightarrow> follows_view v w \<and> v \<noteq> w \<and> (vw_slot v = 0 \<or> vw_slot w = 0 \<or> vw_slot w = vw_slot v))))"
proof -
  have "fst (close_peers ps m) = m\<lparr>me_closed := concat (map (pr_connections \<circ> snd) ps) @ me_closed m\<rparr>" for ps
    by (simp add: close_peers_def Let_def)
  note close = this prod.collapse[of "close_peers _ m", symmetric]
  consider "me_own m' = me_own m" "me_view m' = me_view m" "me_flows m' = me_flows m" "me_replicas m' = me_replicas m"
    | "list_problem (np_id np) (np_url np) l = None"
      "\<not> is_some_and (me_view m) (\<lambda>v. ml_epoch l \<le> ml_epoch (vw_list v))"
      "\<not> is_some_and (me_view m) (\<lambda>v. ml_network_id l \<noteq> ml_network_id (vw_list v) \<or> ml_prefix l \<noteq> ml_prefix (vw_list v))"
      "member_by_id (np_id np) l (me_own m) = None" "me_view m' = Some \<lparr>vw_list = l, vw_slot = 0\<rparr>"
      "me_own m' = me_own m" "me_flows m' = me_flows m" "me_replicas m' = me_replicas m"
    | self where "list_problem (np_id np) (np_url np) l = None"
      "\<not> is_some_and (me_view m) (\<lambda>v. ml_epoch l \<le> ml_epoch (vw_list v))"
      "\<not> is_some_and (me_view m) (\<lambda>v. ml_network_id l \<noteq> ml_network_id (vw_list v) \<or> ml_prefix l \<noteq> ml_prefix (vw_list v))"
      "member_by_id (np_id np) l (me_own m) = Some self"
      "\<not> is_some_and (me_view m) (\<lambda>v. vw_slot v \<noteq> 0 \<and> vw_slot v \<noteq> nm_slot self)"
      "me_view m' = Some \<lparr>vw_list = l, vw_slot = nm_slot self\<rparr>"
      "me_own m' = me_own m" "me_flows m' = me_flows m" "me_replicas m' = me_replicas m"
    using assms unfolding apply_list_def Let_def
    by (auto simp: close_peers_def Let_def split: option.splits if_splits)
  then show ?thesis
  proof cases
    case 2
    then show ?thesis by (cases "me_view m") (auto simp: view_ok_def follows_view_def)
  next
    case 3
    then show ?thesis by (cases "me_view m") (auto simp: view_ok_def follows_view_def)
  qed simp
qed

lemma take_list_apply:
  "\<exists>m0 e m1 es. take_list np l m = (m, []) \<or>
     (device_side m0 = device_side m \<and> apply_list np l m0 = (e, m1, es) \<and> device_side (fst (take_list np l m)) = device_side m1)"
proof (cases "\<not> me_running m \<or> \<not> me_tun m \<and> member_by_id (np_id np) l (me_own m) = None")
  case True
  then show ?thesis by (auto simp: take_list_def)
next
  case False
  show ?thesis
  proof (cases "me_tun m")
    case True
    obtain e m1 es where "apply_list np l m = (e, m1, es)" using prod_cases3 by blast
    with False True show ?thesis by (auto simp: take_list_def)
  next
    case tun: False
    obtain e m1 es where "apply_list np l (m\<lparr>me_tun := True\<rparr>) = (e, m1, es)" using prod_cases3 by blast
    with False tun have "take_list np l m = (m1\<lparr>me_running := e = None\<rparr>, es)" by (simp add: take_list_def)
    then show ?thesis
      using \<open>apply_list np l (m\<lparr>me_tun := True\<rparr>) = (e, m1, es)\<close>
      by (intro exI[of _ "m\<lparr>me_tun := True\<rparr>"] exI[of _ e] exI[of _ m1] exI[of _ es]) simp
  qed
qed


lemma handle_device_side:
  assumes "\<nexists>l. i = Take_List l" "\<nexists>a. i = Attach_Replica a" "\<nexists>a. i = Detach_Replica a"
    "\<nexists>nn p t. i = Tun_Packet nn p t" "\<nexists>nn a p t. i = Replica_Packet nn a p t"
  shows "device_side (fst (mesh_handle np i m)) = device_side m"
  using assms by (cases i) simp_all

lemma tun_packet_side:
  "device_side (fst (tun_packet np nn p t m)) \<in> {device_side m, device_side (note_own p t m)}"
  by (simp add: tun_packet_def Let_def split: option.split prod.split)
    (simp add: device_side_def note_own_def tally_def)

lemma replica_packet_side:
  "device_side (fst (replica_packet np nn a p t m)) \<in> {device_side m, device_side (note_replica a p t m)}"
proof -
  have "device_side (note_replica a p t (tally Replica_Out m)) = device_side (note_replica a p t m)"
    by (simp add: device_side_def note_replica_def split: option.split)
  then show ?thesis
    by (auto simp: replica_packet_def to_egress_def Let_def split: option.split prod.split)
qed

lemma handle_view:
  "me_own (fst (mesh_handle np i m)) = me_own m \<and>
   (me_view (fst (mesh_handle np i m)) = me_view m \<or>
    (\<exists>w. me_view (fst (mesh_handle np i m)) = Some w \<and> view_ok np (me_own m) w \<and>
      (\<forall>v. me_view m = Some v \<longrightarrow> follows_view v w \<and> v \<noteq> w \<and> (vw_slot v = 0 \<or> vw_slot w = 0 \<or> vw_slot w = vw_slot v))))"
proof (cases i)
  case (Take_List l)
  obtain m0 e m1 es where "take_list np l m = (m, []) \<or>
     (device_side m0 = device_side m \<and> apply_list np l m0 = (e, m1, es) \<and> device_side (fst (take_list np l m)) = device_side m1)"
    using take_list_apply by blast
  then show ?thesis
  proof
    assume "device_side m0 = device_side m \<and> apply_list np l m0 = (e, m1, es) \<and> device_side (fst (take_list np l m)) = device_side m1"
    then have "apply_list np l m0 = (e, m1, es)" "me_own m0 = me_own m" "me_view m0 = me_view m"
      "me_own (fst (take_list np l m)) = me_own m1" "me_view (fst (take_list np l m)) = me_view m1"
      by (simp_all add: device_side_def)
    with apply_list_view[OF this(1)] show ?thesis by (auto simp: Take_List)
  qed (simp add: Take_List)
next
  case (Tun_Packet nn p t)
  then show ?thesis using tun_packet_side[of np nn p t m] by (auto simp: device_side_def note_own_def)
next
  case (Replica_Packet nn a p t)
  then show ?thesis
    using replica_packet_side[of np nn a p t m] by (auto simp: device_side_def note_replica_def split: option.splits)
qed (use handle_device_side[of i np m] in \<open>simp_all add: device_side_def\<close>)

section \<open>Histories\<close>

lemma mesh_after_simps [simp]:
  "mesh_after np [] m = m" "mesh_after np (xs @ ys) m = mesh_after np ys (mesh_after np xs m)"
  "mesh_after np [i] m = fst (mesh_handle np i m)"
  by (simp_all add: mesh_after_def)

lemma mesh_after_own: "me_own (mesh_after np xs m) = me_own m"
  by (induction xs rule: rev_induct) (simp_all add: handle_view)

lemma mesh_after_view_ok:
  "me_view (mesh_after np xs (new_mesh own local relays)) = Some v \<Longrightarrow> view_ok np own v"
proof (induction xs arbitrary: v rule: rev_induct)
  case (snoc i xs)
  then show ?case
    using handle_view[of np i "mesh_after np xs (new_mesh own local relays)"] mesh_after_own[of np xs "new_mesh own local relays"]
    by (auto simp: new_mesh_def)
qed (simp add: new_mesh_def)

lemma mesh_after_follows:
  "me_view m = Some v \<Longrightarrow> \<exists>w. me_view (mesh_after np xs m) = Some w \<and> follows_view v w"
proof (induction xs rule: rev_induct)
  case Nil
  then show ?case by (simp add: follows_view_def)
next
  case (snoc i xs)
  then obtain w where w: "me_view (mesh_after np xs m) = Some w" "follows_view v w" by blast
  with handle_view[of np i "mesh_after np xs m"] show ?case
    by (auto simp: follows_view_def dest: follows_view_trans)
qed

text \<open>What this machine's device, and the device of the replica at \<open>a\<close>, sent.\<close>

definition tun_sent :: "('k, 'r) mesh_input list \<Rightarrow> (octet list \<times> time) list" where
  "tun_sent xs = List.map_filter (\<lambda>i. case i of Tun_Packet _ p t \<Rightarrow> Some (p, t) | _ \<Rightarrow> None) xs"

definition replica_sent :: "ipv6 \<Rightarrow> ('k, 'r) mesh_input list \<Rightarrow> (octet list \<times> time) list" where
  "replica_sent a xs =
     List.map_filter (\<lambda>i. case i of Replica_Packet _ b p t \<Rightarrow> if b = a then Some (p, t) else None | _ \<Rightarrow> None) xs"

definition flows_started :: "('k, 'r) mesh_input list \<Rightarrow> ('k, 'r) mesh \<Rightarrow> bool" where
  "flows_started xs m \<longleftrightarrow>
     (\<forall>(f, t)\<in>set (me_flows m). started (tun_sent xs) f t) \<and>
     (\<forall>(a, fs)\<in>set (me_replicas m). \<forall>(f, t)\<in>set fs. started (replica_sent a xs) f t)"

lemma sent_append:
  "tun_sent (xs @ ys) = tun_sent xs @ tun_sent ys" "replica_sent a (xs @ ys) = replica_sent a xs @ replica_sent a ys"
  by (simp_all add: tun_sent_def replica_sent_def map_filter_def)

lemma started_more: "started sent f t \<Longrightarrow> started (sent @ later) f t"
  by (auto simp: started_def)

lemma flows_started_more: "flows_started xs m \<Longrightarrow> flows_started (xs @ ys) m"
  unfolding flows_started_def sent_append by (blast intro: started_more)

lemma flows_started_side: "device_side m' = device_side m \<Longrightarrow> flows_started xs m' = flows_started xs m"
  by (simp add: flows_started_def device_side_def)

lemma started_note:
  assumes "(f, t) \<in> set (note_outbound p s fs)" "\<forall>(f, t)\<in>set fs. started sent f t" "(p, s) \<in> set sent'" "set sent \<subseteq> set sent'"
  shows "started sent' f t"
  using note_outbound_mem[OF assms(1)] assms(2-4) by (fastforce simp: started_def)

lemma note_own_started:
  assumes "flows_started xs m"
  shows "flows_started (xs @ [Tun_Packet nn p t]) (note_own p t m)"
proof -
  have "(p, t) \<in> set (tun_sent (xs @ [Tun_Packet nn p t]))" "set (tun_sent xs) \<subseteq> set (tun_sent (xs @ [Tun_Packet nn p t]))"
    by (auto simp: tun_sent_def map_filter_def)
  with assms flows_started_more[OF assms] show ?thesis
    unfolding flows_started_def note_own_def by (auto intro: started_note)
qed

lemma note_replica_started:
  assumes "flows_started xs m"
  shows "flows_started (xs @ [Replica_Packet nn a p t]) (note_replica a p t m)"
proof (cases "map_of (me_replicas m) a")
  case None
  then show ?thesis using flows_started_more[OF assms] by (simp add: note_replica_def)
next
  case (Some fs)
  let ?ys = "xs @ [Replica_Packet nn a p t]"
  have new: "(p, t) \<in> set (replica_sent a ?ys)" "set (replica_sent a xs) \<subseteq> set (replica_sent a ?ys)"
    by (auto simp: replica_sent_def map_filter_def)
  have old: "\<forall>(f, t)\<in>set fs. started (replica_sent a xs) f t"
    using assms map_of_SomeD[OF Some] by (auto simp: flows_started_def)
  have m: "\<forall>(f, t)\<in>set (me_flows m). started (tun_sent ?ys) f t"
    "\<forall>(b, gs)\<in>set (me_replicas m). \<forall>(f, t)\<in>set gs. started (replica_sent b ?ys) f t"
    using flows_started_more[OF assms] unfolding flows_started_def by blast+
  have "started (replica_sent b ?ys) f u"
    if "(b, gs) \<in> set (im_insert a (note_outbound p t fs) (me_replicas m))" "(f, u) \<in> set gs" for b gs f u
    using im_insert_mem[OF that(1)] that(2) m(2) started_note[OF _ old new] by auto
  then have "\<forall>(b, gs)\<in>set (im_insert a (note_outbound p t fs) (me_replicas m)). \<forall>(f, u)\<in>set gs. started (replica_sent b ?ys) f u"
    by blast
  with m(1) show ?thesis by (simp add: flows_started_def note_replica_def Some)
qed

lemma handle_started:
  assumes "flows_started xs m"
  shows "flows_started (xs @ [i]) (fst (mesh_handle np i m))"
proof (cases i)
  case (Take_List l)
  obtain m0 e m1 es where "take_list np l m = (m, []) \<or>
     (device_side m0 = device_side m \<and> apply_list np l m0 = (e, m1, es) \<and> device_side (fst (take_list np l m)) = device_side m1)"
    using take_list_apply by blast
  then have "me_flows (fst (take_list np l m)) = me_flows m \<and> me_replicas (fst (take_list np l m)) = me_replicas m"
    using apply_list_view[of np l m0 e m1 es] by (auto simp: device_side_def)
  then show ?thesis using flows_started_more[OF assms] by (simp add: Take_List flows_started_def)
next
  case (Attach_Replica a)
  then show ?thesis
    using flows_started_more[OF assms, of "[i]"] by (auto simp: flows_started_def dest!: im_insert_mem)
next
  case (Detach_Replica a)
  then show ?thesis
    using flows_started_more[OF assms, of "[i]"] by (auto simp: flows_started_def)
next
  case (Tun_Packet nn p t)
  then show ?thesis
    using tun_packet_side[of np nn p t m] flows_started_side flows_started_more[OF assms] note_own_started[OF assms]
    by (metis empty_iff insert_iff mesh_handle.simps(6))
next
  case (Replica_Packet nn a p t)
  then show ?thesis
    using replica_packet_side[of np nn a p t m] flows_started_side flows_started_more[OF assms] note_replica_started[OF assms]
    by (metis empty_iff insert_iff mesh_handle.simps(7))
qed (use handle_device_side[of i np m] flows_started_side flows_started_more[OF assms] in blast)+

lemma mesh_after_started: "flows_started xs (mesh_after np xs (new_mesh own local relays))"
proof (induction xs rule: rev_induct)
  case (snoc i xs)
  then show ?case using handle_started by simp
qed (simp add: flows_started_def new_mesh_def)

section \<open>Deliveries\<close>

text \<open>What a filter lets in, in terms of what was sent.\<close>

definition let_in :: "octet list \<Rightarrow> port list \<Rightarrow> (octet list \<times> time) list \<Rightarrow> time \<Rightarrow> bool" where
  "let_in packet ports sent now \<longleftrightarrow>
     (\<exists>q. parse_packet packet = Some q \<and>
       (pa_transport q = ICMPV6 \<and> pa_icmp_type q \<in> {1, 2, 3, 4, 128, 129} \<or> declared_port ports q \<or>
        (\<exists>t. started sent (inbound_flow q) t \<and> since now t < idle (pa_transport q))))"

lemma admitted_let_in:
  "admitted (inbound_packet packet ports now fs) \<Longrightarrow> \<forall>(f, t)\<in>set fs. started sent f t \<Longrightarrow> let_in packet ports sent now"
  unfolding let_in_def by (rule inbound_admitted) auto

lemma to_machine_effect:
  "e \<in> set (snd (to_machine p ports now m)) \<Longrightarrow> e = To_Tun p \<and> admitted (inbound_packet p ports now (me_flows m))"
  by (auto simp: to_machine_def admitted_def split: inbound.splits)

lemma to_replica_effect:
  "e \<in> set (snd (to_replica p dst fs from now m)) \<Longrightarrow>
   e = To_Replica dst p \<and>
   (from = From_Host \<or> snd (replica_ports m dst from) \<or>
    admitted (inbound_packet p (fst (replica_ports m dst from)) now fs))"
  by (auto simp: to_replica_def admitted_def case_prod_beta split: inbound.splits if_splits)

lemma no_open_for_members: "\<not> snd (replica_ports m dst From_Member)"
  by (simp add: replica_ports_def opens_every_port_def split: option.split prod.split)

lemma member_for_SomeD:
  "member_for l a = Some x \<Longrightarrow> x \<in> set (ml_members l) \<and> take 6 a = take 6 (ml_prefix l) \<and> nm_slot x = address_slot a"
  by (auto simp: member_for_def find_Some_iff split: if_splits)

lemma member_for_slotD:
  "map_option nm_slot (member_for l a) = Some s \<Longrightarrow> take 6 a = take 6 (ml_prefix l) \<and> address_slot a = s"
  by (auto dest: member_for_SomeD)

lemma member_by_id_SomeD: "member_by_id pid l k = Some x \<Longrightarrow> x \<in> set (ml_members l) \<and> pid (nm_endpoint_id x) = Some k"
  by (auto simp: member_by_id_def find_Some_iff)

text \<open>The sender and the addresses of a packet a member may deliver here.\<close>

definition from_member :: "('k, 'r) net_parsers \<Rightarrow> 'k \<Rightarrow> octet list \<Rightarrow> mesh_view \<Rightarrow> bool" where
  "from_member np sender packet v \<longleftrightarrow>
     (\<exists>x src dst. x \<in> set (ml_members (vw_list v)) \<and> np_id np (nm_endpoint_id x) = Some sender \<and>
       ipv6_addrs packet = Some (src, dst) \<and>
       take 6 src = take 6 (ml_prefix (vw_list v)) \<and> address_slot src = nm_slot x \<and>
       take 6 dst = take 6 (ml_prefix (vw_list v)) \<and> address_slot dst = vw_slot v)"

lemma verdict_deliver:
  assumes "verdict_on np sender p view = Deliver"
  shows "\<exists>v. view = Some v \<and> from_member np sender p v"
proof -
  obtain v where v: "view = Some v" using assms by (cases view) (simp_all add: verdict_on_def)
  obtain x where x: "member_by_id (np_id np) (vw_list v) sender = Some x"
    using assms v by (cases "member_by_id (np_id np) (vw_list v) sender") (simp_all add: verdict_on_def)
  obtain src dst where a: "ipv6_addrs p = Some (src, dst)"
    using assms v x by (cases "ipv6_addrs p") (auto simp: verdict_on_def)
  from assms v x a have "map_option nm_slot (member_for (vw_list v) src) = Some (nm_slot x)"
    "map_option nm_slot (member_for (vw_list v) dst) = Some (vw_slot v)"
    by (simp_all add: verdict_on_def split: if_splits)
  from this[THEN member_for_slotD] have "from_member np sender p v"
    using member_by_id_SomeD[OF x] a unfolding from_member_def by blast
  with v show ?thesis by blast
qed

lemma member_datagram_effect:
  assumes "e \<in> set (snd (member_datagram np c sender d now m))"
  obtains (close) "e = Close c 1"
    | (tun) p where "e = To_Tun p" "verdict_on np sender p (me_view m) = Deliver"
        "admitted (inbound_packet p (own_ports m) now (me_flows m))"
    | (replica) p src a fs where "e = To_Replica a p" "verdict_on np sender p (me_view m) = Deliver"
        "ipv6_addrs p = Some (src, a)" "map_of (me_replicas m) a = Some fs"
        "admitted (inbound_packet p (fst (replica_ports m a From_Member)) now fs)"
proof -
  define ra where "ra = push_datagram d now (unwrap_or (map_of (me_reassemblers m) c) \<lparr>ra_waiting = [], ra_expired = 0\<rparr>)"
  let ?m = "m\<lparr>me_reassemblers := im_insert c (snd ra) (me_reassemblers m)\<rparr>"
  have same: "own_ports ?m = own_ports m" "replica_ports ?m b w = replica_ports m b w" for b w
    by (simp_all add: own_ports_def replica_ports_def split: option.split prod.split)
  have handled: "snd (member_datagram np c sender d now m) =
    (if \<not> me_tun m \<or> c \<in> set (me_closed m) then []
     else case fst ra of None \<Rightarrow> []
       | Some p \<Rightarrow> (case verdict_on np sender p (me_view m) of
           Deliver \<Rightarrow> snd (deliver_received p now ?m) | Not_Member \<Rightarrow> [Close c 1] | _ \<Rightarrow> []))"
    unfolding member_datagram_def ra_def[symmetric]
    by (simp add: Let_def case_prod_beta split: option.split verdict.split)
  obtain p where p: "fst ra = Some p" using assms by (cases "fst ra") (simp_all add: handled split: if_splits)
  consider "e = Close c 1"
    | "verdict_on np sender p (me_view m) = Deliver" "e \<in> set (snd (deliver_received p now ?m))"
    using assms p by (cases "verdict_on np sender p (me_view m)") (simp_all add: handled split: if_splits)
  then show thesis
  proof cases
    case 2
    from 2(1) obtain src a where a: "ipv6_addrs p = Some (src, a)"
      by (auto simp: verdict_on_def split: option.splits)
    show thesis
    proof (cases "map_of (me_replicas m) a")
      case None
      then have "e \<in> set (snd (to_machine p (own_ports m) now ?m))" using 2(2) a by (simp add: deliver_received_def same)
      then show thesis using to_machine_effect tun 2(1) by fastforce
    next
      case (Some fs)
      then have "e \<in> set (snd (to_replica p a fs From_Member now ?m))"
        using 2(2) a by (simp add: deliver_received_def deliver_local_def)
      from to_replica_effect[OF this] show thesis
        using replica[OF _ 2(1) a Some] no_open_for_members by (auto simp: same)
    qed
  qed (rule close)
qed

text \<open>The ports the list in force declares for the replica at an address.\<close>

definition listed_ports :: "mesh_view \<Rightarrow> ipv6 \<Rightarrow> port list" where
  "listed_ports v a = (case replica_at (vw_list v) a of None \<Rightarrow> [] | Some (_, r) \<Rightarrow> ar_ports r)"

text \<open>The ports open on the machine to a replica's packet for \<open>dst\<close>: the resolver's too.\<close>

definition ports_for_replica :: "('k, 'r) mesh \<Rightarrow> mesh_view \<Rightarrow> ipv6 \<Rightarrow> port list" where
  "ports_for_replica m v dst =
     own_ports m @
     (if dst = resolver_address (vw_list v) (vw_slot v)
      then [\<lparr>pt_transport = Udp_Port, pt_number = 53\<rparr>, \<lparr>pt_transport = Tcp_Port, pt_number = 53\<rparr>] else [])"

lemma send_packet_effect:
  assumes "e \<in> set (snd (send_packet nn key p m))"
  shows "e = Start_Dial key \<or> (\<exists>c d. e = Send_Datagram c d \<and> c \<in> set (live m (pr_connections (peer_of m key))))"
proof (cases "last_opt (live m (pr_connections (peer_of m key)))")
  case None
  then show ?thesis using assms by (simp add: send_packet_def Let_def split: if_splits)
next
  case (Some c)
  then have "c \<in> set (live m (pr_connections (peer_of m key)))" by (auto simp: last_opt_def split: if_splits)
  then show ?thesis using assms Some by (auto simp: send_packet_def Let_def split: prod.splits)
qed

lemma note_replica_frame:
  "me_view (note_replica a p t m) = me_view m" "me_peers (note_replica a p t m) = me_peers m"
  "me_closed (note_replica a p t m) = me_closed m" "me_flows (note_replica a p t m) = me_flows m"
  "me_local_project (note_replica a p t m) = me_local_project m" "me_tun (note_replica a p t m) = me_tun m"
  by (simp_all add: note_replica_def split: option.split)

lemma live_note: "live (note_replica a p t (tally c m)) cs = live m cs" "peer_of (note_replica a p t (tally c m)) k = peer_of m k"
  "own_ports (note_replica a p t (tally c m)) = own_ports m"
  "replica_ports (note_replica a p t (tally c m)) b w = replica_ports m b w"
  by (simp_all add: live_def peer_of_def own_ports_def replica_ports_def note_replica_frame split: option.split prod.split)

text \<open>Where the packet of a replica goes.\<close>

lemma replica_packet_effect:
  assumes "e \<in> set (snd (replica_packet np nn a p now m))"
  obtains (outside) "e = To_Egress a p"
      "drop_bit 4 (p ! 0) = 4 \<or> (\<exists>dst. ipv6_addrs p = Some (a, dst) \<and> (\<forall>v. me_view m = Some v \<longrightarrow> \<not> in_network (vw_list v) dst))"
    | (member) v dst x key where "me_view m = Some v" "ipv6_addrs p = Some (a, dst)" "in_network (vw_list v) dst"
      "member_for (vw_list v) dst = Some x" "nm_slot x \<noteq> vw_slot v" "np_id np (nm_endpoint_id x) = Some key"
      "e = Start_Dial key \<or> (\<exists>c d. e = Send_Datagram c d \<and> c \<in> set (live m (pr_connections (peer_of m key))))"
    | (here) v dst where "me_view m = Some v" "ipv6_addrs p = Some (a, dst)" "in_network (vw_list v) dst"
      "e \<in> set (snd (deliver_local p dst From_Replica now (note_replica a p now (tally Replica_Out m))))"
proof -
  let ?m = "note_replica a p now (tally Replica_Out m)"
  have p: "\<not> (map_of (me_replicas m) a = None \<or> p = [])"
  proof
    assume "map_of (me_replicas m) a = None \<or> p = []"
    then have "replica_packet np nn a p now m = (m, [])" unfolding replica_packet_def by (rule if_P)
    with assms show False by simp
  qed
  show thesis
  proof (cases "drop_bit 4 (p ! 0) = 4")
    case True
    then show thesis using assms p outside by (simp add: replica_packet_def to_egress_def)
  next
    case v6: False
    note open_def = replica_packet_def if_not_P[OF p] if_not_P[OF v6]
    obtain dst where a: "ipv6_addrs p = Some (a, dst)"
      using assms unfolding open_def by (auto split: option.splits if_splits)
    show thesis
    proof (cases "me_view m")
      case None
      then show thesis using assms a outside unfolding open_def by (simp add: to_egress_def)
    next
      case (Some v)
      show thesis
      proof (cases "in_network (vw_list v) dst")
        case False
        then show thesis using assms a Some outside unfolding open_def by (simp add: to_egress_def)
      next
        case True
        let ?t = "Option.bind (member_for (vw_list v) dst)
          (\<lambda>x. if nm_slot x \<noteq> vw_slot v then np_id np (nm_endpoint_id x) else None)"
        show thesis
        proof (cases ?t)
          case None
          then have "e \<in> set (snd (deliver_local p dst From_Replica now ?m))"
            using assms a Some True unfolding open_def by (simp add: Let_def)
          then show thesis using here Some a True by blast
        next
          case (Some key)
          then obtain x where x: "member_for (vw_list v) dst = Some x" "nm_slot x \<noteq> vw_slot v"
            "np_id np (nm_endpoint_id x) = Some key"
            by (auto simp: bind_eq_Some_conv split: if_splits)
          have "e \<in> set (snd (send_packet nn key p ?m))"
            using assms a \<open>me_view m = Some v\<close> True Some unfolding open_def by (simp add: Let_def)
          from send_packet_effect[OF this] show thesis
            using member[OF \<open>me_view m = Some v\<close> a True x] by (simp add: live_note)
        qed
      qed
    qed
  qed
qed

section \<open>Properties\<close>

text \<open>
  C27: Only members reach this machine, and only where it lets them in. Whatever happened before, a
  packet that a member's datagram puts on this machine's device or on a replica's comes from a key on
  the checked list in force, carries a source address in the /64 of exactly that member and a
  destination in this machine's /64, and the closed-by-default filter let it in: it is ICMPv6 that
  IPv6 needs, to a port the list declares for this machine or that replica, or a reply to a live flow
  that this machine's device, or that replica's, really sent.
\<close>

theorem only_members_reach_this_machine:
  assumes "m = mesh_after np inputs (new_mesh own local relays)"
    "e \<in> set (snd (mesh_handle np (Member_Datagram c sender d now) m))" "e = To_Tun p \<or> e = To_Replica a p"
  shows "\<exists>v. me_view m = Some v \<and> view_ok np own v \<and> from_member np sender p v \<and>
    (e = To_Tun p \<and> let_in p (own_ports m) (tun_sent inputs) now \<or>
     e = To_Replica a p \<and> let_in p (listed_ports v a) (replica_sent a inputs) now)"
proof -
  note started = mesh_after_started[of inputs np own local relays, folded assms(1), unfolded flows_started_def]
  have e: "e \<in> set (snd (member_datagram np c sender d now m))" using assms(2) by simp
  show ?thesis
  proof (cases rule: member_datagram_effect[OF e])
    case (2 q)
    obtain v where v: "me_view m = Some v" "from_member np sender q v" using verdict_deliver[OF 2(2)] by blast
    have "let_in q (own_ports m) (tun_sent inputs) now" by (rule admitted_let_in[OF 2(3) conjunct1[OF started]])
    moreover have "view_ok np own v" by (rule mesh_after_view_ok[OF v(1)[unfolded assms(1)]])
    ultimately show ?thesis using 2(1) v assms(3) by auto
  next
    case (3 q src b fs)
    obtain v where v: "me_view m = Some v" "from_member np sender q v" using verdict_deliver[OF 3(2)] by blast
    have "fst (replica_ports m b From_Member) = listed_ports v b"
      using v by (simp add: replica_ports_def listed_ports_def split: option.split prod.split)
    moreover have "\<forall>(f, t)\<in>set fs. started (replica_sent b inputs) f t"
      using bspec[OF conjunct2[OF started] map_of_SomeD[OF 3(4)]] by simp
    ultimately have "let_in q (listed_ports v b) (replica_sent b inputs) now" using admitted_let_in[OF 3(5)] by simp
    moreover have "view_ok np own v" by (rule mesh_after_view_ok[OF v(1)[unfolded assms(1)]])
    ultimately show ?thesis using 3(1) v assms(3) by auto
  qed (use assms(3) in simp)
qed

text \<open>
  C28: The network only moves forward. Once a mesh has a list it always has one; a later list in force
  is the same one or has a larger epoch, of the same network and prefix, so an old list replayed by
  anyone changes nothing. Each list in force passes every check and the mesh speaks for exactly the
  slot it gives this machine's key, or for none.
\<close>

theorem lists_move_forward:
  assumes "me_view (mesh_after np xs (new_mesh own local relays)) = Some v"
  shows "view_ok np own v \<and>
    (\<exists>w. me_view (mesh_after np (xs @ ys) (new_mesh own local relays)) = Some w \<and> follows_view v w \<and> view_ok np own w)"
  using mesh_after_follows[OF assms, of np ys] mesh_after_view_ok assms
  by (metis mesh_after_simps(2))

text \<open>
  C29: A replica speaks only for itself and only inside its network. Whatever happened before, what
  the mesh does with a packet from the device of the replica at \<open>a\<close> is one of these: it leaves through
  the replica's own egress, and then it is IPv4 or for an address outside the private network; or its
  source is \<open>a\<close>, and it goes to the listed member that owns the destination, over a live connection
  to that member's key; or it stays here, on the machine's device or that of the replica it is for,
  and their filters let it in (all of a replica only where the project is local and the list opens it).
\<close>

theorem replicas_speak_for_themselves:
  assumes "m = mesh_after np inputs (new_mesh own local relays)"
    "e \<in> set (snd (mesh_handle np (Replica_Packet nn a p now) m))"
  shows "e = To_Egress a p \<and>
      (drop_bit 4 (p ! 0) = 4 \<or>
       (\<exists>dst. ipv6_addrs p = Some (a, dst) \<and> (\<forall>v. me_view m = Some v \<longrightarrow> \<not> in_network (vw_list v) dst))) \<or>
    (\<exists>v dst. me_view m = Some v \<and> ipv6_addrs p = Some (a, dst) \<and> in_network (vw_list v) dst \<and>
      ((\<exists>x key. x \<in> set (ml_members (vw_list v)) \<and> nm_slot x = address_slot dst \<and> nm_slot x \<noteq> vw_slot v \<and>
          np_id np (nm_endpoint_id x) = Some key \<and>
          (e = Start_Dial key \<or> (\<exists>c d. e = Send_Datagram c d \<and> c \<in> set (live m (pr_connections (peer_of m key)))))) \<or>
       e = To_Tun p \<and> let_in p (ports_for_replica m v dst) (tun_sent inputs) now \<or>
       e = To_Replica dst p \<and>
         (me_local_project m \<and> opens_any_replica (vw_list v) \<or>
          let_in p (listed_ports v dst) (replica_sent dst (inputs @ [Replica_Packet nn a p now])) now)))"
proof -
  let ?m = "note_replica a p now (tally Replica_Out m)"
  have m: "flows_started inputs m" unfolding assms(1) by (rule mesh_after_started)
  then have "flows_started inputs (tally Replica_Out m)" by (simp add: flows_started_def)
  note started = note_replica_started[OF this, of nn a p now, unfolded flows_started_def]
  from assms(2) have "e \<in> set (snd (replica_packet np nn a p now m))" by simp
  then show ?thesis
  proof (cases rule: replica_packet_effect)
    case (member v dst x key)
    then show ?thesis using member_for_SomeD[OF member(4)] by blast
  next
    case (here v dst)
    have "e = To_Tun p \<and> let_in p (ports_for_replica m v dst) (tun_sent inputs) now"
      if none: "map_of (me_replicas ?m) dst = None"
    proof -
      have "e \<in> set (snd (to_machine p (ports_for_replica m v dst) now ?m))"
        using here none
        by (simp add: deliver_local_def ports_for_replica_def live_note note_replica_frame Let_def split: if_splits)
      then have "e = To_Tun p" "admitted (inbound_packet p (ports_for_replica m v dst) now (me_flows m))"
        by (auto dest!: to_machine_effect simp: note_replica_frame)
      with admitted_let_in[OF this(2)] m show ?thesis unfolding flows_started_def by blast
    qed
    moreover have "e = To_Replica dst p \<and>
        (me_local_project m \<and> opens_any_replica (vw_list v) \<or>
          let_in p (listed_ports v dst) (replica_sent dst (inputs @ [Replica_Packet nn a p now])) now)"
      if fs: "map_of (me_replicas ?m) dst = Some fs" for fs
    proof -
      have "e \<in> set (snd (to_replica p dst fs From_Replica now ?m))" using here fs by (simp add: deliver_local_def)
      from to_replica_effect[OF this] have e: "e = To_Replica dst p"
        "snd (replica_ports m dst From_Replica) \<or> admitted (inbound_packet p (fst (replica_ports m dst From_Replica)) now fs)"
        by (auto simp: live_note)
      have "fst (replica_ports m dst From_Replica) = listed_ports v dst"
        using here(1) by (simp add: replica_ports_def listed_ports_def split: option.split prod.split)
      moreover have "\<forall>(f, t)\<in>set fs. started (replica_sent dst (inputs @ [Replica_Packet nn a p now])) f t"
        using bspec[OF conjunct2[OF started] map_of_SomeD[OF fs]] by simp
      moreover have "me_local_project m \<and> opens_any_replica (vw_list v)" if "snd (replica_ports m dst From_Replica)"
        using that here(1)
        by (auto simp: replica_ports_def opens_every_port_def opens_any_replica_def replica_at_def list_ex_iff
            find_Some_iff bind_eq_Some_conv split: option.splits dest!: member_for_SomeD)
          (blast intro: nth_mem)
      ultimately show ?thesis using e admitted_let_in by metis
    qed
    ultimately show ?thesis using here(1-3) by (cases "map_of (me_replicas ?m) dst") blast+
  qed blast
qed

section \<open>A machine at work\<close>

text \<open>Keys and relays are their texts; nothing refuses a datagram.\<close>

definition demo_parsers :: "(string, string) net_parsers" where
  "demo_parsers = \<lparr>np_id = Some, np_url = (\<lambda>_. None), np_relay = Some\<rparr>"

definition demo_now :: net_now where
  "demo_now =
     \<lparr>nn_path = (\<lambda>_. Some Direct_Path), nn_received = (\<lambda>_. 0), nn_max_datagram = (\<lambda>_. Some 1200),
      nn_refuses = (\<lambda>_ _. False)\<rparr>"

definition demo_mesh :: "(string, string) mesh" where
  "demo_mesh = new_mesh ''a'' False []"

definition demo_inputs :: "(string, string) mesh_input list" where
  "demo_inputs = [Take_List demo_list, Attach_Replica demo_web_address, Tun_Packet demo_now demo_out 0, Dialled ''b'' (Some 7)]"

lemma demo_reply_arrives:
  "To_Tun demo_reply \<in> set (snd (mesh_handle demo_parsers (Member_Datagram 7 ''b'' (WHOLE # demo_reply) (seconds 5))
     (mesh_after demo_parsers demo_inputs demo_mesh)))"
  by code_simp

theorem only_members_reach_this_machine_witness:
  "\<exists>v. me_view (mesh_after demo_parsers demo_inputs demo_mesh) = Some v \<and> from_member demo_parsers ''b'' demo_reply v"
  using only_members_reach_this_machine[OF refl demo_reply_arrives[unfolded demo_mesh_def] disjI1[OF refl]]
  unfolding demo_mesh_def by blast

text \<open>An older list is put to a mesh that has the newer one.\<close>

lemma demo_view: "me_view (mesh_after demo_parsers demo_inputs demo_mesh) = Some \<lparr>vw_list = demo_list, vw_slot = 1\<rparr>"
  by code_simp

theorem lists_move_forward_witness:
  "\<exists>w. me_view (mesh_after demo_parsers (demo_inputs @ [Take_List (demo_list\<lparr>ml_epoch := 2\<rparr>)]) demo_mesh) = Some w \<and>
     follows_view \<lparr>vw_list = demo_list, vw_slot = 1\<rparr> w"
  using lists_move_forward[OF demo_view[unfolded demo_mesh_def]] unfolding demo_mesh_def by blast

definition demo_replica_packet :: "octet list" where
  "demo_replica_packet = demo_packet demo_web_address (demo_host 2) [0xc7, 0x38, 0x15, 0x38]"

lemma demo_replica_sends:
  "Send_Datagram 7 (WHOLE # demo_replica_packet) \<in> set (snd (mesh_handle demo_parsers
     (Replica_Packet demo_now demo_web_address demo_replica_packet (seconds 5))
     (mesh_after demo_parsers demo_inputs demo_mesh)))"
  by code_simp

theorem replicas_speak_for_themselves_witness:
  "\<exists>v dst. me_view (mesh_after demo_parsers demo_inputs demo_mesh) = Some v \<and>
     ipv6_addrs demo_replica_packet = Some (demo_web_address, dst) \<and> in_network (vw_list v) dst"
  using replicas_speak_for_themselves[OF refl demo_replica_sends[unfolded demo_mesh_def]]
  unfolding demo_mesh_def by blast

end
