(* ===== verification/Gate_Routes.thy ===== *)
theory Gate_Routes
  imports Maps Net_Filter Text
begin

text \<open>
  What the gate routes to (\<open>grund-agent/src/gate/routes.rs\<close>): the table built from the agent's
  document, the apps loop's view of the local copies and the copies elsewhere, and the choice of a
  copy. A \<open>CopyState\<close> is shared by every table that names the copy, so it lives in a store and a
  candidate holds its place there.
\<close>

section \<open>The document\<close>

text \<open>The parts of a \<open>Replica\<close> of \<open>agent.proto\<close> that the gate reads.\<close>

record doc_port =
  dp_name :: string
  dp_port :: nat
  dp_protocol :: string
  dp_public :: bool

record doc_replica =
  dr_replica_id :: string
  dr_app :: string
  dr_ports :: "doc_port list"
  dr_hostnames :: "string list"
  dr_draining :: bool
  dr_stopping :: bool
  dr_exclusive :: bool

record desired_state =
  ds_generation :: nat
  ds_replicas :: "doc_replica list"
  ds_entry_keys :: "string list"

datatype ip_addr = V4 "octet list" | V6 ipv6

record endpoint_port =
  ep_name :: string
  ep_port :: nat
  ep_protocol :: string

record replica_endpoint =
  re_replica_id :: string
  re_app :: string
  re_address :: "ip_addr option"
  re_ports :: "endpoint_port list"
  re_ready :: bool
  re_draining :: bool

record remote_copy =
  rc_replica_id :: string
  rc_app :: string
  rc_machine_id :: string
  rc_address :: ip_addr
  rc_ports :: "nat list"
  rc_ready :: bool

text \<open>\<open>u16::try_from\<close>.\<close>

definition try_u16 :: "nat \<Rightarrow> nat option" where
  "try_u16 n = (if n \<le> 65535 then Some n else None)"

definition endpoint_ports :: "doc_port list \<Rightarrow> endpoint_port list" where
  "endpoint_ports ps =
     List.map_filter (\<lambda>p. map_option (\<lambda>n. \<lparr>ep_name = dp_name p, ep_port = n, ep_protocol = dp_protocol p\<rparr>)
       (try_u16 (dp_port p))) ps"

text \<open>The reports are the ids of the replicas observed, each with whether it is ready.\<close>

definition endpoints_from :: "desired_state option \<Rightarrow> (string \<times> bool) list \<Rightarrow> replica_endpoint list" where
  "endpoints_from doc reports =
     (case doc of
        None \<Rightarrow> []
      | Some d \<Rightarrow>
          map (\<lambda>r. \<lparr>re_replica_id = dr_replica_id r, re_app = dr_app r, re_address = None,
                    re_ports = endpoint_ports (dr_ports r),
                    re_ready = list_ex (\<lambda>(i, ready). i = dr_replica_id r \<and> ready) reports,
                    re_draining = (dr_stopping r \<or> dr_draining r)\<rparr>) (ds_replicas d))"

section \<open>Copies\<close>

definition EJECTION :: duration where "EJECTION = seconds 2"

datatype upstream = Http1 | H2c

record copy_state =
  cs_replica_id :: string
  cs_inflight :: nat
  cs_ejected_until :: "time option"
  cs_closing :: bool

record copies =
  cp_known :: "(string \<times> nat) list"
  cp_store :: "copy_state list"

definition new_copy :: "string \<Rightarrow> copy_state" where
  "new_copy i = \<lparr>cs_replica_id = i, cs_inflight = 0, cs_ejected_until = None, cs_closing = False\<rparr>"

definition update_copy :: "nat \<Rightarrow> (copy_state \<Rightarrow> copy_state) \<Rightarrow> copies \<Rightarrow> copies" where
  "update_copy k f c = c\<lparr>cp_store := (cp_store c)[k := f (cp_store c ! k)]\<rparr>"

definition eject :: "time \<Rightarrow> copy_state \<Rightarrow> copy_state" where
  "eject now s = s\<lparr>cs_ejected_until := Some (now + EJECTION)\<rparr>"

definition ejected :: "time \<Rightarrow> copy_state \<Rightarrow> bool" where
  "ejected now s \<longleftrightarrow> is_some_and (cs_ejected_until s) (\<lambda>t. now < t)"

definition clear_ejection :: "copy_state \<Rightarrow> copy_state" where
  "clear_ejection s = s\<lparr>cs_ejected_until := None\<rparr>"

definition copies_get :: "string \<Rightarrow> copies \<Rightarrow> nat \<times> copies" where
  "copies_get i c =
     (case map_of (cp_known c) i of
        Some k \<Rightarrow> (k, c)
      | None \<Rightarrow>
          (length (cp_store c),
           \<lparr>cp_known = im_insert i (length (cp_store c)) (cp_known c), cp_store = cp_store c @ [new_copy i]\<rparr>))"

definition copies_retain :: "string list \<Rightarrow> copies \<Rightarrow> copies" where
  "copies_retain keep c =
     (let gone = map snd (filter (\<lambda>(i, _). i \<notin> set keep) (cp_known c)) in
      \<lparr>cp_known = filter (\<lambda>(i, _). i \<in> set keep) (cp_known c),
       cp_store = cp_store (fold (\<lambda>k. update_copy k (\<lambda>s. s\<lparr>cs_closing := True\<rparr>)) gone c)\<rparr>)"

definition copies_idle :: "string list \<Rightarrow> copies \<Rightarrow> string list" where
  "copies_idle draining c =
     filter (\<lambda>i. case map_of (cp_known c) i of None \<Rightarrow> True | Some k \<Rightarrow> cs_inflight (cp_store c ! k) = 0) draining"

section \<open>Routes\<close>

datatype target = Local string ip_addr nat | Remote ip_addr nat

record candidate =
  ca_copy :: nat
  ca_target :: target
  ca_upstream :: upstream
  ca_local :: bool
  ca_ready :: bool
  ca_draining :: bool
  ca_no_drain_fallback :: bool

record app_route =
  ro_app :: string
  ro_hostnames :: "string list"
  ro_platform_host :: "string option"
  ro_local :: "candidate list"
  ro_remote :: "candidate list"

definition serves :: "app_route \<Rightarrow> string \<Rightarrow> bool" where
  "serves r host \<longleftrightarrow> list_ex (\<lambda>h. to_ascii_lowercase h = to_ascii_lowercase host) (ro_hostnames r)"

definition copy_of :: "copies \<Rightarrow> candidate \<Rightarrow> copy_state" where
  "copy_of c x = cp_store c ! ca_copy x"

definition usable :: "copies \<Rightarrow> time \<Rightarrow> candidate \<Rightarrow> bool" where
  "usable c now x \<longleftrightarrow> ca_ready x \<and> \<not> ca_draining x \<and> \<not> ejected now (copy_of c x)"

definition drains :: "copies \<Rightarrow> time \<Rightarrow> candidate \<Rightarrow> bool" where
  "drains c now x \<longleftrightarrow> ca_ready x \<and> ca_draining x \<and> \<not> ca_no_drain_fallback x \<and> \<not> ejected now (copy_of c x)"

definition ready_local :: "copies \<Rightarrow> time \<Rightarrow> app_route \<Rightarrow> nat" where
  "ready_local c now r = length (filter (usable c now) (ro_local r))"

definition ready_remote :: "copies \<Rightarrow> time \<Rightarrow> app_route \<Rightarrow> bool" where
  "ready_remote c now r \<longleftrightarrow> list_ex (usable c now) (ro_remote r)"

definition draining_fallback :: "copies \<Rightarrow> time \<Rightarrow> app_route \<Rightarrow> bool" where
  "draining_fallback c now r \<longleftrightarrow> list_ex (drains c now) (ro_local r)"

text \<open>The better of two random choices; \<open>random i n\<close> is the \<open>i\<close>th draw below \<open>n\<close>.\<close>

definition two_choices :: "copies \<Rightarrow> (nat \<Rightarrow> nat \<Rightarrow> nat) \<Rightarrow> candidate list \<Rightarrow> candidate" where
  "two_choices c random xs =
     (if length xs = 1 then xs ! 0
      else
        let a = xs ! random 0 (length xs); b = xs ! random 1 (length xs) in
        if cs_inflight (copy_of c a) \<le> cs_inflight (copy_of c b) then a else b)"

definition pick ::
  "copies \<Rightarrow> time \<Rightarrow> (nat \<Rightarrow> nat \<Rightarrow> nat) \<Rightarrow> string list \<Rightarrow> app_route \<Rightarrow> candidate option" where
  "pick c now random tried r =
     (let fresh = (\<lambda>x. cs_replica_id (copy_of c x) \<notin> set tried);
          here = filter fresh (filter (usable c now) (ro_local r));
          elsewhere = filter fresh (filter (usable c now) (ro_remote r));
          draining = filter fresh (filter (drains c now) (ro_local r))
      in if here \<noteq> [] then Some (two_choices c random here)
         else if elsewhere \<noteq> [] then Some (two_choices c random elsewhere)
         else if draining \<noteq> [] then Some (two_choices c random draining)
         else None)"

section \<open>The table\<close>

record table =
  ta_by_host :: "(string \<times> app_route) list"
  ta_apps :: "app_route list"

definition app_for :: "table \<Rightarrow> string \<Rightarrow> app_route option" where
  "app_for t host = map_of (ta_by_host t) (to_ascii_lowercase host)"

record building =
  bu_hostnames :: "string list"
  bu_platform_host :: "string option"
  bu_local :: "candidate list"
  bu_published :: "(nat \<times> upstream) option"

definition new_building :: building where
  "new_building = \<lparr>bu_hostnames = [], bu_platform_host = None, bu_local = [], bu_published = None\<rparr>"

definition upstream_of :: "string \<Rightarrow> upstream option" where
  "upstream_of protocol =
     (if protocol = ''http'' \<or> protocol = [] then Some Http1
      else if protocol = ''h2c'' then Some H2c else None)"

definition published :: "doc_port list \<Rightarrow> (nat \<times> upstream) option" where
  "published ports =
     find_map (\<lambda>p. Option.bind (upstream_of (dp_protocol p)) (\<lambda>u. map_option (\<lambda>n. (n, u)) (try_u16 (dp_port p))))
       (filter dp_public ports)"

fun add_hosts :: "string list \<Rightarrow> string list \<Rightarrow> string list" where
  "add_hosts hosts [] = hosts"
| "add_hosts hosts (h # hs) =
     (let h = to_ascii_lowercase h in add_hosts (if h \<in> set hosts then hosts else hosts @ [h]) hs)"

definition named_building :: "doc_replica \<Rightarrow> nat \<times> upstream \<Rightarrow> building \<Rightarrow> building" where
  "named_building r pu b =
     b\<lparr>bu_hostnames := add_hosts (bu_hostnames b) (dr_hostnames r),
       bu_platform_host :=
         (if bu_platform_host b = None then map_option to_ascii_lowercase (first_opt (dr_hostnames r))
          else bu_platform_host b),
       bu_published := (if bu_published b = None then Some pu else bu_published b)\<rparr>"

definition local_candidate :: "doc_replica \<Rightarrow> nat \<times> upstream \<Rightarrow> nat \<Rightarrow> ip_addr \<Rightarrow> replica_endpoint \<Rightarrow> candidate" where
  "local_candidate r pu k address view =
     \<lparr>ca_copy = k, ca_target = Local (dr_replica_id r) address (fst pu), ca_upstream = snd pu, ca_local = True,
      ca_ready = re_ready view, ca_draining = (dr_stopping r \<or> dr_draining r \<or> re_draining view),
      ca_no_drain_fallback = (dr_exclusive r \<or> dr_stopping r)\<rparr>"

record build_state =
  bs_keep :: "string list"
  bs_apps :: "(string \<times> building) list"
  bs_copies :: copies

text \<open>One replica of the document in the first loop of \<open>build\<close>.\<close>

definition build_replica :: "replica_endpoint list \<Rightarrow> doc_replica \<Rightarrow> build_state \<Rightarrow> build_state" where
  "build_replica views r s =
     (case published (dr_ports r) of
        None \<Rightarrow> s
      | Some pu \<Rightarrow>
          let entry = named_building r pu (unwrap_or (map_of (bs_apps s) (dr_app r)) new_building);
              s = s\<lparr>bs_keep := dr_replica_id r # bs_keep s\<rparr>;
              view = List.find (\<lambda>e. re_replica_id e = dr_replica_id r) views
          in case Option.bind view re_address of
               None \<Rightarrow> s\<lparr>bs_apps := bt_insert (dr_app r) entry (bs_apps s)\<rparr>
             | Some address \<Rightarrow>
                 let (k, c) = copies_get (dr_replica_id r) (bs_copies s);
                     ready = is_some_and view re_ready;
                     c = (if \<not> ready then update_copy k clear_ejection c else c);
                     x = local_candidate r pu k address (the view)
                 in s\<lparr>bs_apps := bt_insert (dr_app r) (entry\<lparr>bu_local := bu_local entry @ [x]\<rparr>) (bs_apps s),
                      bs_copies := c\<rparr>)"

fun remote_candidates ::
  "nat \<times> upstream \<Rightarrow> remote_copy list \<Rightarrow> copies \<Rightarrow> candidate list \<times> copies" where
  "remote_candidates pu [] c = ([], c)"
| "remote_candidates pu (r # rs) c =
     (let (k, c) = copies_get (rc_replica_id r) c;
          x = \<lparr>ca_copy = k, ca_target = Remote (rc_address r) (fst pu), ca_upstream = snd pu, ca_local = False,
               ca_ready = True, ca_draining = False, ca_no_drain_fallback = False\<rparr>;
          (xs, c) = remote_candidates pu rs c
      in (x # xs, c))"

text \<open>One app in its second loop.\<close>

definition build_app ::
  "remote_copy list \<Rightarrow> string \<times> building \<Rightarrow> table \<times> string list \<times> copies \<Rightarrow> table \<times> string list \<times> copies" where
  "build_app remote ab s =
     (let (app, b) = ab; (t, keep, c) = s;
          pu = unwrap_or (bu_published b) (80, Http1);
          rs = filter (\<lambda>r. rc_app r = app \<and> rc_ready r \<and> fst pu \<in> set (rc_ports r)) remote;
          (xs, c) = remote_candidates pu rs c;
          route = \<lparr>ro_app = app, ro_hostnames = bu_hostnames b, ro_platform_host = bu_platform_host b,
                   ro_local = bu_local b, ro_remote = xs\<rparr>
      in (\<lparr>ta_by_host = fold (\<lambda>h. im_insert h route) (bu_hostnames b) (ta_by_host t), ta_apps = ta_apps t @ [route]\<rparr>,
          map rc_replica_id rs @ keep, c))"

definition build_table ::
  "desired_state option \<Rightarrow> replica_endpoint list \<Rightarrow> remote_copy list \<Rightarrow> copies \<Rightarrow> table \<times> copies" where
  "build_table doc views remote c =
     (let rs = (case doc of None \<Rightarrow> [] | Some d \<Rightarrow> ds_replicas d);
          s = fold (build_replica views) rs \<lparr>bs_keep = [], bs_apps = [], bs_copies = c\<rparr>;
          (t, keep, c) = fold (build_app remote) (bs_apps s) (\<lparr>ta_by_host = [], ta_apps = []\<rparr>, bs_keep s, bs_copies s)
      in (t, copies_retain keep c))"

end
