(* ===== verification/Net_Egress.thy ===== *)
theory Net_Egress
  imports Gate_Routes
begin

text \<open>
  A replica's way to the internet (\<open>grund-net/src/egress.rs\<close>): which destinations the agent opens a
  socket to for it, and the tasks that do so for the flows of TCP and the datagrams of UDP. The
  userspace stack that terminates the flows is outside; what it hands over are the inputs.
\<close>

section \<open>Addresses\<close>

text \<open>The tests of \<open>Ipv4Addr\<close> and \<open>Ipv6Addr\<close>, over the octets.\<close>

definition v4_loopback :: "octet list \<Rightarrow> bool" where "v4_loopback a \<longleftrightarrow> a ! 0 = 127"
definition v4_unspecified :: "octet list \<Rightarrow> bool" where "v4_unspecified a \<longleftrightarrow> a = [0, 0, 0, 0]"
definition v4_link_local :: "octet list \<Rightarrow> bool" where "v4_link_local a \<longleftrightarrow> a ! 0 = 169 \<and> a ! 1 = 254"
definition v4_multicast :: "octet list \<Rightarrow> bool" where "v4_multicast a \<longleftrightarrow> 224 \<le> a ! 0 \<and> a ! 0 \<le> 239"
definition v4_broadcast :: "octet list \<Rightarrow> bool" where "v4_broadcast a \<longleftrightarrow> a = [255, 255, 255, 255]"

definition v6_loopback :: "ipv6 \<Rightarrow> bool" where "v6_loopback a \<longleftrightarrow> a = replicate 15 0 @ [1]"
definition v6_unspecified :: "ipv6 \<Rightarrow> bool" where "v6_unspecified a \<longleftrightarrow> a = replicate 16 0"
definition v6_multicast :: "ipv6 \<Rightarrow> bool" where "v6_multicast a \<longleftrightarrow> a ! 0 = 0xFF"

definition to_ipv4_mapped :: "ipv6 \<Rightarrow> octet list option" where
  "to_ipv4_mapped a = (if take 12 a = replicate 10 0 @ [0xFF, 0xFF] then Some (drop 12 a) else None)"

definition first_segment :: "ipv6 \<Rightarrow> 16 word" where
  "first_segment a = or (push_bit 8 (ucast (a ! 0))) (ucast (a ! 1))"

definition allowed_v4 :: "octet list \<Rightarrow> bool" where
  "allowed_v4 a \<longleftrightarrow>
     \<not> (v4_loopback a \<or> v4_unspecified a \<or> v4_link_local a \<or> v4_multicast a \<or> v4_broadcast a \<or> a ! 0 = 0)"

definition egress_allowed :: "ip_addr \<Rightarrow> bool" where
  "egress_allowed addr =
     (case addr of
        V4 a \<Rightarrow> allowed_v4 a
      | V6 a \<Rightarrow>
          (case to_ipv4_mapped a of
             Some v4 \<Rightarrow> allowed_v4 v4
           | None \<Rightarrow>
               \<not> (v6_loopback a \<or> v6_unspecified a \<or> v6_multicast a \<or>
                  and (first_segment a) 0xFFC0 = 0xFE80 \<or> and (first_segment a) 0xFF00 = 0xFD00)))"

section \<open>The tasks\<close>

type_synonym socket_addr = "ip_addr \<times> nat"

record egress_counters =
  ec_tcp_flows :: nat
  ec_udp_flows :: nat
  ec_refused :: nat
  ec_failed :: nat
  ec_dropped :: nat

text \<open>What the tasks hold: the flows of UDP that are open, by replica and destination, the counters, and
  the destinations a socket of the host was opened to, in order.\<close>

record egress =
  eg_open :: "(socket_addr \<times> socket_addr) list"
  eg_counts :: egress_counters
  eg_sockets :: "socket_addr list"

definition new_egress :: egress where
  "new_egress =
     \<lparr>eg_open = [],
      eg_counts = \<lparr>ec_tcp_flows = 0, ec_udp_flows = 0, ec_refused = 0, ec_failed = 0, ec_dropped = 0\<rparr>,
      eg_sockets = []\<rparr>"

definition count :: "(egress_counters \<Rightarrow> egress_counters) \<Rightarrow> egress \<Rightarrow> egress" where
  "count f e = e\<lparr>eg_counts := f (eg_counts e)\<rparr>"

text \<open>\<open>carry_tcp\<close>; \<open>connects\<close> is whether the host's socket connects in time.\<close>

definition carry_tcp :: "socket_addr \<Rightarrow> bool \<Rightarrow> egress \<Rightarrow> egress" where
  "carry_tcp destination connects e =
     (if \<not> egress_allowed (fst destination) then count (ec_refused_update Suc) e
      else let e = count (ec_tcp_flows_update Suc) e;
               e = e\<lparr>eg_sockets := eg_sockets e @ [destination]\<rparr>
           in if connects then e else count (ec_failed_update Suc) e)"

text \<open>\<open>carry_udp\<close>; \<open>opens\<close> is whether the socket binds and connects.\<close>

definition carry_udp :: "socket_addr \<Rightarrow> bool \<Rightarrow> egress \<Rightarrow> egress" where
  "carry_udp destination opens e =
     (let e = count (ec_udp_flows_update Suc) e
      in if opens then e\<lparr>eg_sockets := eg_sockets e @ [destination]\<rparr>
         else count (ec_failed_update Suc) e)"

text \<open>The task of the datagrams: the flows in \<open>closed\<close> ended, a known flow takes the datagram, and a new
  one is opened where it is allowed.\<close>

definition udp_datagram ::
  "(socket_addr \<times> socket_addr) list \<Rightarrow> socket_addr \<Rightarrow> socket_addr \<Rightarrow> bool \<Rightarrow> egress \<Rightarrow> egress" where
  "udp_datagram closed replica destination opens e =
     (let e = e\<lparr>eg_open := filter (\<lambda>f. f \<notin> set closed) (eg_open e)\<rparr>
      in if (replica, destination) \<in> set (eg_open e) then e
         else if \<not> egress_allowed (fst destination) then count (ec_refused_update Suc) e
         else carry_udp destination opens (e\<lparr>eg_open := (replica, destination) # eg_open e\<rparr>))"

definition egress_send :: "bool \<Rightarrow> egress \<Rightarrow> egress" where
  "egress_send queue_full e = (if queue_full then count (ec_dropped_update Suc) e else e)"

datatype egress_input =
  Sent bool
| Tcp_Stream socket_addr bool
| Udp_Datagram "(socket_addr \<times> socket_addr) list" socket_addr socket_addr bool

fun egress_step :: "egress \<Rightarrow> egress_input \<Rightarrow> egress" where
  "egress_step e (Sent queue_full) = egress_send queue_full e"
| "egress_step e (Tcp_Stream destination connects) = carry_tcp destination connects e"
| "egress_step e (Udp_Datagram closed replica destination opens) = udp_datagram closed replica destination opens e"

section \<open>Where a replica never gets\<close>

lemma segment_high:
  fixes a b :: octet
  shows "and (or (push_bit 8 (ucast a)) (ucast b)) 0xFF00 = (push_bit 8 (ucast a) :: 16 word)"
proof -
  have m: "(0xFF00 :: 16 word) = push_bit 8 (mask 8)" by (simp add: mask_eq_exp_minus_1)
  show ?thesis
    unfolding m by (rule bit_word_eqI) (auto simp: bit_simps dest: bit_imp_le_length)
qed

lemma egress_sockets_allowed:
  assumes "list_all (\<lambda>s. egress_allowed (fst s)) (eg_sockets e)"
  shows "list_all (\<lambda>s. egress_allowed (fst s)) (eg_sockets (egress_step e i))"
  using assms
  by (cases i) (auto simp: egress_send_def carry_tcp_def udp_datagram_def carry_udp_def count_def Let_def)

text \<open>Whatever the replica sends, no socket of the host is opened to the loopback or the link-local
  addresses of either family, also not through an address of IPv6 that stands for one of IPv4.\<close>

lemma egress_never_inside:
  assumes "(addr, port) \<in> set (eg_sockets (foldl egress_step new_egress inputs))"
  shows "addr \<noteq> V4 (127 # rest)" "addr \<noteq> V4 (169 # 254 # rest)"
    and "addr \<noteq> V6 (replicate 15 0 @ [1])" "addr \<noteq> V6 (replicate 10 0 @ [0xFF, 0xFF, 127] @ rest)"
    and "addr \<noteq> V6 (replicate 10 0 @ [0xFF, 0xFF, 169, 254] @ rest)" "addr \<noteq> V6 (0xFD # rest)"
proof -
  have "list_all (\<lambda>s. egress_allowed (fst s)) (eg_sockets (foldl egress_step e inputs))"
    if "list_all (\<lambda>s. egress_allowed (fst s)) (eg_sockets e)" for e
    using that by (induction inputs arbitrary: e) (simp_all add: egress_sockets_allowed)
  from this[of new_egress] have a: "egress_allowed addr"
    using assms by (auto simp: new_egress_def list_all_iff)
  show "addr \<noteq> V4 (127 # rest)" "addr \<noteq> V4 (169 # 254 # rest)"
    using a by (auto simp: egress_allowed_def allowed_v4_def v4_loopback_def v4_link_local_def)
  have "\<not> egress_allowed (V6 (replicate 15 0 @ [1]))" by code_simp
  then show "addr \<noteq> V6 (replicate 15 0 @ [1])" using a by auto
  show "addr \<noteq> V6 (replicate 10 0 @ [0xFF, 0xFF, 127] @ rest)"
    "addr \<noteq> V6 (replicate 10 0 @ [0xFF, 0xFF, 169, 254] @ rest)"
    using a by (auto simp: egress_allowed_def to_ipv4_mapped_def allowed_v4_def v4_loopback_def v4_link_local_def)
  show "addr \<noteq> V6 (0xFD # rest)"
  proof
    assume addr: "addr = V6 (0xFD # rest)"
    have "hd (take 12 (0xFD # rest)) \<noteq> hd (replicate 10 0 @ [0xFF, 0xFF :: octet])" by simp
    then have "to_ipv4_mapped (0xFD # rest) = None" unfolding to_ipv4_mapped_def by metis
    moreover have "and (first_segment (0xFD # rest)) 0xFF00 = 0xFD00"
      unfolding first_segment_def segment_high by simp
    ultimately show False using a by (simp add: addr egress_allowed_def)
  qed
qed

end
