(* ===== verification/Gate_Budget.thy ===== *)
theory Gate_Budget
  imports Maps F64
begin

text \<open>
  The retry budget of the gate (\<open>grund-agent/src/gate/budget.rs\<close>): per app, the requests and retries
  of this window and the one before, weighed by how much of it still counts. The weighing is on
  \<open>f64\<close>, whose sums, products and quotients round to the nearest 53-bit fraction.
\<close>

section \<open>Sums, products and comparisons of \<open>f64\<close>\<close>

fun f64_add :: "f64 \<Rightarrow> f64 \<Rightarrow> f64" where
  "f64_add (F64 n d) (F64 k e) = f64_ratio (n * 2 ^ e + k * 2 ^ d) (2 ^ (d + e))"
| "f64_add x y = F64_NaN"

fun f64_mul :: "f64 \<Rightarrow> f64 \<Rightarrow> f64" where
  "f64_mul (F64 n d) (F64 k e) = f64_ratio (n * k) (2 ^ (d + e))"
| "f64_mul x y = F64_NaN"

fun f64_div :: "f64 \<Rightarrow> f64 \<Rightarrow> f64" where
  "f64_div (F64 n d) (F64 k e) = f64_ratio (n * 2 ^ e) (2 ^ d * k)"
| "f64_div x y = F64_NaN"

fun f64_less :: "f64 \<Rightarrow> f64 \<Rightarrow> bool" where
  "f64_less (F64 n d) (F64 k e) \<longleftrightarrow> n * 2 ^ e < k * 2 ^ d"
| "f64_less x y \<longleftrightarrow> False"

definition f64_max :: "f64 \<Rightarrow> f64 \<Rightarrow> f64" where
  "f64_max x y = (if f64_less x y then y else x)"

text \<open>\<open>(1.0 - x).clamp(0.0, 1.0)\<close> for \<open>x\<close> not negative: the difference is never above one.\<close>

fun f64_rest :: "f64 \<Rightarrow> f64" where
  "f64_rest (F64 n d) = f64_ratio (2 ^ d - n) (2 ^ d)"
| "f64_rest x = F64_NaN"

text \<open>\<open>n as f64\<close>, and \<open>Duration::as_secs_f64\<close>.\<close>

definition f64_of_nat :: "nat \<Rightarrow> f64" where
  "f64_of_nat n = f64_ratio n 1"

definition as_secs_f64 :: "duration \<Rightarrow> f64" where
  "as_secs_f64 d =
     f64_add (f64_of_nat (nat (d div 1000000000)))
       (f64_div (f64_of_nat (nat (d mod 1000000000))) (f64_of_nat 1000000000))"

section \<open>The budget\<close>

definition MAX_RETRIES_PER_REQUEST :: nat where "MAX_RETRIES_PER_REQUEST = 2"
definition RETRY_SHARE :: f64 where "RETRY_SHARE = f64_ratio 2 10"
definition WINDOW :: duration where "WINDOW = seconds 10"
definition MIN_RETRIES :: nat where "MIN_RETRIES = 10"

record window =
  wi_started :: time
  wi_requests :: nat
  wi_retries :: nat
  wi_previous_requests :: nat
  wi_previous_retries :: nat

definition new_window :: "time \<Rightarrow> window" where
  "new_window now =
     \<lparr>wi_started = now, wi_requests = 0, wi_retries = 0, wi_previous_requests = 0, wi_previous_retries = 0\<rparr>"

definition since_start :: "time \<Rightarrow> window \<Rightarrow> duration" where
  "since_start now w = max 0 (now - wi_started w)"

definition roll :: "time \<Rightarrow> window \<Rightarrow> window" where
  "roll now w =
     (if since_start now w \<ge> WINDOW * 2 then new_window now
      else if since_start now w \<ge> WINDOW then
        \<lparr>wi_started = wi_started w + WINDOW, wi_requests = 0, wi_retries = 0,
         wi_previous_requests = wi_requests w, wi_previous_retries = wi_retries w\<rparr>
      else w)"

definition sliding_weight :: "time \<Rightarrow> window \<Rightarrow> f64" where
  "sliding_weight now w = f64_rest (f64_div (as_secs_f64 (since_start now w)) (as_secs_f64 WINDOW))"

definition sliding :: "time \<Rightarrow> window \<Rightarrow> f64 \<times> f64" where
  "sliding now w =
     (let weight = sliding_weight now w in
      (f64_add (f64_of_nat (wi_requests w)) (f64_mul (f64_of_nat (wi_previous_requests w)) weight),
       f64_add (f64_of_nat (wi_retries w)) (f64_mul (f64_of_nat (wi_previous_retries w)) weight)))"

type_synonym budget = "(string \<times> window) list"

definition window_of :: "budget \<Rightarrow> string \<Rightarrow> time \<Rightarrow> window" where
  "window_of b app now = roll now (unwrap_or (map_of b app) (new_window now))"

definition budget_request :: "string \<Rightarrow> time \<Rightarrow> budget \<Rightarrow> budget" where
  "budget_request app now b =
     (let w = window_of b app now in im_insert app (w\<lparr>wi_requests := u64_add (wi_requests w) 1\<rparr>) b)"

definition retry_allowed :: "time \<Rightarrow> window \<Rightarrow> bool" where
  "retry_allowed now w \<longleftrightarrow>
     (let (requests, retries) = sliding now w;
          allowed = f64_max (f64_mul requests RETRY_SHARE) (f64_of_nat MIN_RETRIES)
      in \<not> f64_less allowed (f64_add retries (f64_of_nat 1)))"

definition budget_retry :: "string \<Rightarrow> time \<Rightarrow> budget \<Rightarrow> bool \<times> budget" where
  "budget_retry app now b =
     (let w = window_of b app now in
      if \<not> retry_allowed now w then (False, im_insert app w b)
      else (True, im_insert app (w\<lparr>wi_retries := u64_add (wi_retries w) 1\<rparr>) b))"

section \<open>Rounding and whole numbers\<close>

text \<open>Rounding never takes a quotient past a whole number that a fraction of 53 bits can hold.\<close>

lemma round_half_even_ge: "0 < b \<Longrightarrow> c * b \<le> a \<Longrightarrow> c \<le> round_half_even a b"
proof -
  assume "0 < b" "c * b \<le> a"
  then have "c \<le> a div b" by (simp add: less_eq_div_iff_mult_less_eq)
  also have "\<dots> \<le> round_half_even a b" by (simp add: round_half_even_def Let_def)
  finally show ?thesis .
qed

lemma round_half_even_le: "0 < b \<Longrightarrow> a \<le> c * b \<Longrightarrow> round_half_even a b \<le> c"
proof -
  assume b: "0 < b" "a \<le> c * b"
  show ?thesis
  proof (cases "a = c * b")
    case True
    then show ?thesis using round_half_even_exact[OF b(1), of c] by simp
  next
    case False
    then have "a div b < c" using b by (simp add: div_less_iff_less_mult)
    moreover have "round_half_even a b \<le> a div b + 1" by (simp add: round_half_even_def Let_def)
    ultimately show ?thesis by linarith
  qed
qed

lemma f64_ratio_cases:
  assumes "f64_ratio p q = F64 n d" "0 < p" "0 < q"
  obtains (fine) s where "d = s" "n = round_half_even (p * 2 ^ s) q"
    | (coarse) t where "d = 0" "n = round_half_even p (q * 2 ^ t) * 2 ^ t" "2 ^ 52 * (q * 2 ^ t) \<le> p" "0 < t"
proof -
  let ?s = "f64_scale p q"
  show thesis
  proof (cases "0 \<le> ?s")
    case True
    then have "scaled p q ?s = (p * 2 ^ nat ?s, q)" "nat (- ?s) = 0" by (simp_all add: scaled_def)
    then have "f64_ratio p q = F64 (round_half_even (p * 2 ^ nat ?s) q) (nat ?s)"
      using assms(2,3) by (simp add: f64_ratio_def Let_def)
    then show thesis using fine[of "nat ?s"] assms(1) by simp
  next
    case False
    then have s: "scaled p q ?s = (p, q * 2 ^ nat (- ?s))" "nat ?s = 0" by (simp_all add: scaled_def)
    then have "d = 0" "n = round_half_even p (q * 2 ^ nat (- ?s)) * 2 ^ nat (- ?s)"
      using assms by (simp_all add: f64_ratio_def Let_def)
    moreover have "2 ^ 52 * (q * 2 ^ nat (- ?s)) \<le> p" using f64_scale_bits[OF assms(2,3) s(1)] .
    moreover have "0 < nat (- ?s)" using False by simp
    ultimately show thesis using coarse by blast
  qed
qed

lemma f64_ratio_ge:
  assumes "f64_ratio p q = F64 n d" "0 < q" "k * q \<le> p" "k < 2 ^ 52"
  shows "k * 2 ^ d \<le> n"
proof (cases "p = 0")
  case True
  with assms show ?thesis by simp
next
  case False
  then have p: "0 < p" by simp
  show ?thesis
  proof (cases rule: f64_ratio_cases[OF assms(1) p assms(2)])
    case (1 s)
    have "(k * 2 ^ s) * q \<le> p * 2 ^ s" using mult_right_mono[OF assms(3), of "2 ^ s"] by (simp add: mult_ac)
    then show ?thesis using round_half_even_ge[OF assms(2)] 1 by simp
  next
    case (2 t)
    have "2 ^ 52 \<le> round_half_even p (q * 2 ^ t)" using assms(2) 2(3) by (intro round_half_even_ge) simp_all
    then have "2 ^ 52 * 1 \<le> round_half_even p (q * 2 ^ t) * 2 ^ t" by (intro mult_mono) simp_all
    then show ?thesis using 2 assms(4) by simp
  qed
qed

lemma f64_ratio_le:
  assumes "f64_ratio p q = F64 n d" "0 < q" "p \<le> k * q" "k < 2 ^ 52"
  shows "n \<le> k * 2 ^ d"
proof (cases "p = 0")
  case True
  with assms(1) show ?thesis by (simp add: f64_ratio_def)
next
  case False
  then have p: "0 < p" by simp
  show ?thesis
  proof (cases rule: f64_ratio_cases[OF assms(1) p assms(2)])
    case (1 s)
    have "p * 2 ^ s \<le> (k * 2 ^ s) * q" using mult_right_mono[OF assms(3), of "2 ^ s"] by (simp add: mult_ac)
    then show ?thesis using round_half_even_le[OF assms(2)] 1 by simp
  next
    case (2 t)
    have "2 ^ 52 * q * 1 \<le> 2 ^ 52 * q * 2 ^ t" by (intro mult_left_mono) simp_all
    then have "2 ^ 52 * q \<le> 2 ^ 52 * (q * 2 ^ t)" by (simp only: mult_1_right mult.assoc)
    with 2(3) assms(3) have "2 ^ 52 * q \<le> k * q" by linarith
    moreover have "k * q < 2 ^ 52 * q" using assms(2,4) by (rule mult_strict_right_mono[rotated])
    ultimately show ?thesis by linarith
  qed
qed

text \<open>So a float lies between whole numbers.\<close>

definition f64_between :: "nat \<Rightarrow> f64 \<Rightarrow> nat \<Rightarrow> bool" where
  "f64_between k x l \<longleftrightarrow> (\<exists>n d. x = F64 n d \<and> k * 2 ^ d \<le> n \<and> n \<le> l * 2 ^ d)"

lemma f64_between_ratio: "0 < q \<Longrightarrow> k * q \<le> p \<Longrightarrow> p \<le> l * q \<Longrightarrow> l < 2 ^ 52 \<Longrightarrow> f64_between k (f64_ratio p q) l"
proof -
  assume h: "0 < q" "k * q \<le> p" "p \<le> l * q" "l < 2 ^ 52"
  then have "k * q \<le> l * q" by linarith
  then have "k < 2 ^ 52" using h(1,4) by simp
  moreover obtain n d where "f64_ratio p q = F64 n d" using f64_ratio_shape by blast
  ultimately show ?thesis using f64_ratio_ge f64_ratio_le h unfolding f64_between_def by blast
qed

lemma f64_between_nat: "n < 2 ^ 52 \<Longrightarrow> f64_between n (f64_of_nat n) n"
  unfolding f64_of_nat_def by (rule f64_between_ratio) simp_all

lemma f64_between_add:
  assumes "f64_between a x b" "f64_between c y e" "b + e < 2 ^ 52"
  shows "f64_between (a + c) (f64_add x y) (b + e)"
proof -
  obtain n d m f where x: "x = F64 n d" "a * 2 ^ d \<le> n" "n \<le> b * 2 ^ d"
    and y: "y = F64 m f" "c * 2 ^ f \<le> m" "m \<le> e * 2 ^ f"
    using assms(1,2) by (auto simp: f64_between_def)
  have "a * 2 ^ d * 2 ^ f \<le> n * 2 ^ f" "c * 2 ^ f * 2 ^ d \<le> m * 2 ^ d"
    "n * 2 ^ f \<le> b * 2 ^ d * 2 ^ f" "m * 2 ^ d \<le> e * 2 ^ f * 2 ^ d"
    using x y by (auto intro: mult_right_mono)
  moreover have split: "(i + j) * 2 ^ (d + f) = i * 2 ^ d * 2 ^ f + j * 2 ^ f * 2 ^ d" for i j :: nat
    by (simp add: power_add algebra_simps)
  ultimately have "(a + c) * 2 ^ (d + f) \<le> n * 2 ^ f + m * 2 ^ d" "n * 2 ^ f + m * 2 ^ d \<le> (b + e) * 2 ^ (d + f)"
    unfolding split by linarith+
  then show ?thesis using x(1) y(1) assms(3) by (simp add: f64_between_ratio)
qed

lemma f64_between_mul:
  assumes "f64_between a x b" "f64_between c y e" "b * e < 2 ^ 52"
  shows "f64_between (a * c) (f64_mul x y) (b * e)"
proof -
  obtain n d m f where x: "x = F64 n d" "a * 2 ^ d \<le> n" "n \<le> b * 2 ^ d"
    and y: "y = F64 m f" "c * 2 ^ f \<le> m" "m \<le> e * 2 ^ f"
    using assms(1,2) by (auto simp: f64_between_def)
  have "a * 2 ^ d * (c * 2 ^ f) \<le> n * m" "n * m \<le> b * 2 ^ d * (e * 2 ^ f)"
    using x y by (auto intro: mult_mono)
  then have "a * c * 2 ^ (d + f) \<le> n * m" "n * m \<le> b * e * 2 ^ (d + f)"
    by (simp_all add: power_add algebra_simps)
  then show ?thesis using x(1) y(1) assms(3) by (simp add: f64_between_ratio)
qed

section \<open>The share\<close>

lemma as_secs_shape: "\<exists>n d. as_secs_f64 x = F64 n d"
proof -
  have "\<exists>n d. f64_div (f64_ratio a b) (f64_ratio a' b') = F64 n d" for a b a' b'
    using f64_ratio_shape by (metis f64_div.simps(1))
  then show ?thesis unfolding as_secs_f64_def f64_of_nat_def using f64_ratio_shape by (metis f64_add.simps(1))
qed

lemma weight_at_most_one: "f64_between 0 (sliding_weight now w) 1"
proof -
  obtain n d n' d' where "as_secs_f64 (since_start now w) = F64 n d" "as_secs_f64 WINDOW = F64 n' d'"
    using as_secs_shape by metis
  moreover obtain m e where m: "f64_ratio (n * 2 ^ d') (2 ^ d * n') = F64 m e" using f64_ratio_shape by blast
  ultimately have "sliding_weight now w = f64_ratio (2 ^ e - m) (2 ^ e)" by (simp add: sliding_weight_def)
  then show ?thesis by (simp add: f64_between_ratio)
qed

lemma sliding_between:
  assumes "wi_requests w + wi_previous_requests w < 2 ^ 50" "wi_retries w + wi_previous_retries w < 2 ^ 50"
    "sliding now w = (requests, retries)"
  shows "f64_between 0 requests (wi_requests w + wi_previous_requests w)"
    "f64_between (wi_retries w) retries (wi_retries w + wi_previous_retries w)"
proof -
  have s: "f64_between a (f64_add (f64_of_nat a) (f64_mul (f64_of_nat b) (sliding_weight now w))) (a + b)"
    if "a + b < 2 ^ 50" for a b
  proof -
    have "f64_between (b * 0) (f64_mul (f64_of_nat b) (sliding_weight now w)) (b * 1)"
      using that by (intro f64_between_mul f64_between_nat weight_at_most_one) simp_all
    moreover have "f64_between a (f64_of_nat a) a" using that by (intro f64_between_nat) simp
    ultimately have "f64_between (a + b * 0) (f64_add (f64_of_nat a) (f64_mul (f64_of_nat b) (sliding_weight now w))) (a + b * 1)"
      using that by (intro f64_between_add) simp_all
    then show ?thesis by simp
  qed
  have "f64_between 0 x l" if "f64_between k x l" for k x l using that by (auto simp: f64_between_def)
  then show "f64_between 0 requests (wi_requests w + wi_previous_requests w)"
    "f64_between (wi_retries w) retries (wi_retries w + wi_previous_retries w)"
    using s[OF assms(1)] s[OF assms(2)] assms(3) by (auto simp: sliding_def Let_def)
qed

lemma share_value: "RETRY_SHARE = F64 7205759403792794 55"
  unfolding RETRY_SHARE_def by code_simp

text \<open>A fifth of at most \<open>t\<close>, in floats, is at least a whole number only where it is in numbers.\<close>

lemma share_exact:
  assumes "f64_between 0 x t" "t < 2 ^ 50" "f64_mul x RETRY_SHARE = F64 n d" "k * 2 ^ d \<le> n"
  shows "5 * k \<le> t"
proof (cases "k = 0")
  case False
  obtain m e where x: "x = F64 m e" "m \<le> t * 2 ^ e" using assms(1) by (auto simp: f64_between_def)
  let ?N = "7205759403792794 :: nat"
  have r: "f64_ratio (m * ?N) (2 ^ (e + 55)) = F64 n d" using assms(3) x(1) by (simp add: share_value)
  have "0 < m"
  proof (rule ccontr)
    assume "\<not> 0 < m"
    then have "n = 0" using r by (simp add: f64_ratio_def)
    with assms(4) False show False by simp
  qed
  then have err: "2 ^ 53 * \<bar>int (n * 2 ^ (e + 55)) - int (m * ?N * 2 ^ d)\<bar> \<le> int (m * ?N * 2 ^ d)"
    by (intro f64_ratio_error[OF r]) simp_all
  have close: "A * Y \<le> (A + 1) * Z" if "int A * \<bar>int Y - int Z\<bar> \<le> int Z" for A Y Z :: nat
  proof -
    have "int A * (int Y - int Z) \<le> int A * \<bar>int Y - int Z\<bar>" by (intro mult_left_mono) simp_all
    with that have "int (A * Y) \<le> int ((A + 1) * Z)" by (simp add: algebra_simps)
    then show ?thesis by (simp only: of_nat_le_iff)
  qed
  have "2 ^ 53 * (n * 2 ^ (e + 55)) \<le> (2 ^ 53 + 1) * (m * ?N * 2 ^ d)"
    by (rule close) (use err in simp)
  moreover have "2 ^ 53 * (k * 2 ^ d * 2 ^ (e + 55)) \<le> 2 ^ 53 * (n * 2 ^ (e + 55))"
    using assms(4) by (intro mult_le_mono le_refl)
  moreover have "(2 ^ 53 + 1) * (m * ?N * 2 ^ d) \<le> (2 ^ 53 + 1) * (t * 2 ^ e * ?N * 2 ^ d)"
    using x(2) by (intro mult_le_mono le_refl)
  ultimately have "2 ^ 53 * (k * 2 ^ d * (2 ^ e * 2 ^ 55)) \<le> (2 ^ 53 + 1) * (t * 2 ^ e * ?N * 2 ^ d)"
    unfolding power_add by linarith
  moreover have "A * B * k \<le> C * N * t" if "A * (k * D * (E * B)) \<le> C * (t * E * N * D)" "0 < D" "0 < E"
    for A B C D E N :: nat
  proof -
    have "(A * B * k) * (D * E) \<le> (C * N * t) * (D * E)" using that(1) by (simp only: mult_ac)
    then show ?thesis using that(2,3) by (simp only: mult_le_cancel2) simp
  qed
  ultimately have le: "2 ^ 53 * 2 ^ 55 * k \<le> (2 ^ 53 + 1) * ?N * t" by simp
  show ?thesis
  proof (rule ccontr)
    assume "\<not> 5 * k \<le> t"
    then have "t + 1 \<le> 5 * k" by simp
    then have "2 ^ 53 * 2 ^ 55 * (t + 1) \<le> 5 * (2 ^ 53 * 2 ^ 55 * k)" by simp
    with le have "2 ^ 53 * 2 ^ 55 * (t + 1) \<le> 5 * ((2 ^ 53 + 1) * ?N * t)" by linarith
    with assms(2) show False by simp
  qed
qed simp

lemma retry_allowed_share:
  assumes "retry_allowed now w" "wi_requests w + wi_previous_requests w < 2 ^ 50" "wi_retries w + wi_previous_retries w < 2 ^ 50"
  shows "wi_retries w + 1 \<le> MIN_RETRIES \<or> 5 * (wi_retries w + 1) \<le> wi_requests w + wi_previous_requests w"
proof -
  obtain rq rt where s: "sliding now w = (rq, rt)" by fastforce
  note b = sliding_between[OF assms(2,3) s]
  have one: "f64_between (wi_retries w + 1) (f64_add rt (f64_of_nat 1)) (wi_retries w + wi_previous_retries w + 1)"
    using assms(3) by (intro f64_between_add b f64_between_nat) simp_all
  then obtain n d where n: "f64_add rt (f64_of_nat 1) = F64 n d" "(wi_retries w + 1) * 2 ^ d \<le> n"
    by (auto simp: f64_between_def)
  have ten: "f64_between 10 (f64_of_nat MIN_RETRIES) 10" using f64_between_nat[of 10] by (simp add: MIN_RETRIES_def)
  then obtain m e where m: "f64_of_nat MIN_RETRIES = F64 m e" "m \<le> 10 * 2 ^ e" by (auto simp: f64_between_def)
  obtain k l where rq: "rq = F64 k l" using b(1) by (auto simp: f64_between_def)
  then obtain a f where a: "f64_mul rq RETRY_SHARE = F64 a f" using f64_ratio_shape by (metis f64_mul.simps(1) share_value)
  have "\<not> f64_less (f64_max (F64 a f) (F64 m e)) (F64 n d)"
    using assms(1) s a m(1) n(1) by (simp add: retry_allowed_def Let_def)
  then consider "n * 2 ^ f \<le> a * 2 ^ d" | "n * 2 ^ e \<le> m * 2 ^ d" by (auto simp: f64_max_def split: if_splits)
  then show ?thesis
  proof cases
    case 1
    have "(wi_retries w + 1) * 2 ^ d * 2 ^ f \<le> n * 2 ^ f" using n(2) by (rule mult_right_mono) simp
    with 1 have "(wi_retries w + 1) * 2 ^ f * 2 ^ d \<le> a * 2 ^ d" by (simp only: mult.assoc mult.commute[of "2 ^ d" "2 ^ f"])
    then have "(wi_retries w + 1) * 2 ^ f \<le> a" by simp
    then show ?thesis using share_exact[OF b(1) assms(2) a] by blast
  next
    case 2
    have "(wi_retries w + 1) * 2 ^ d * 2 ^ e \<le> n * 2 ^ e" using n(2) by (rule mult_right_mono) simp
    also have "\<dots> \<le> m * 2 ^ d" by (rule 2)
    also have "\<dots> \<le> 10 * 2 ^ e * 2 ^ d" using m(2) by (rule mult_right_mono) simp
    finally have "(wi_retries w + 1) * (2 ^ d * 2 ^ e) \<le> 10 * (2 ^ d * 2 ^ e)" by (simp only: mult_ac)
    moreover have "0 < (2::nat) ^ d * 2 ^ e" by simp
    ultimately have "wi_retries w + 1 \<le> 10" by (metis mult_le_cancel2)
    then show ?thesis by (simp add: MIN_RETRIES_def)
  qed
qed

section \<open>Every window of every history\<close>

declare ball_Un [simp]

lemma last_is_latest: "sorted (map f xs) \<Longrightarrow> x \<in> set xs \<Longrightarrow> f x \<le> f (last xs)"
  by (induction xs rule: rev_induct) (auto simp: sorted_append)

datatype budget_call = Count_Request string time | Ask string time

text \<open>The calls in order, with the retries granted.\<close>

definition budget_call :: "budget_call \<Rightarrow> budget \<times> (string \<times> time) list \<Rightarrow> budget \<times> (string \<times> time) list" where
  "budget_call c s =
     (case c of
        Count_Request app t \<Rightarrow> (budget_request app t (fst s), snd s)
      | Ask app t \<Rightarrow>
          (let (ok, b) = budget_retry app t (fst s) in (b, if ok then snd s @ [(app, t)] else snd s)))"

definition budget_run :: "budget_call list \<Rightarrow> budget \<times> (string \<times> time) list" where
  "budget_run cs = fold budget_call cs ([], [])"

definition call_time :: "budget_call \<Rightarrow> time" where
  "call_time c = (case c of Count_Request _ t \<Rightarrow> t | Ask _ t \<Rightarrow> t)"

definition requests_of :: "string \<Rightarrow> budget_call list \<Rightarrow> time list" where
  "requests_of app cs =
     List.map_filter (\<lambda>c. case c of Count_Request a t \<Rightarrow> if a = app then Some t else None | Ask _ _ \<Rightarrow> None) cs"

definition granted_of :: "string \<Rightarrow> (string \<times> time) list \<Rightarrow> time list" where
  "granted_of app g = map snd (filter (\<lambda>(a, _). a = app) g)"

definition many_from :: "time \<Rightarrow> time list \<Rightarrow> nat" where
  "many_from t ts = length (filter (\<lambda>u. t \<le> u) ts)"

definition many_between :: "time \<Rightarrow> time \<Rightarrow> time list \<Rightarrow> nat" where
  "many_between t t' ts = length (filter (\<lambda>u. t \<le> u \<and> u < t') ts)"

lemma many_none: "\<forall>u\<in>set ts. u < t \<Longrightarrow> many_from t ts = 0 \<and> many_between t t' ts = 0"
  by (auto simp: many_from_def many_between_def filter_empty_conv)

lemma many_snoc: "many_from t (ts @ [u]) = many_from t ts + (if t \<le> u then 1 else 0)"
  "many_between t t' (ts @ [u]) = many_between t t' ts + (if t \<le> u \<and> u < t' then 1 else 0)"
  by (simp_all add: many_from_def many_between_def)

lemma many_le: "many_from t ts \<le> length ts" "many_between t t' ts \<le> length ts"
  by (simp_all add: many_from_def many_between_def)

lemma many_split: "t \<le> t' \<Longrightarrow> many_from t ts = many_from t' ts + many_between t t' ts"
  by (induction ts) (auto simp: many_from_def many_between_def)

text \<open>A window and the times it stands for, of requests and of retries.\<close>

definition within_share :: "window \<Rightarrow> bool" where
  "within_share w \<longleftrightarrow> wi_retries w \<le> 10 \<or> 5 * wi_retries w \<le> wi_requests w + wi_previous_requests w"

definition window_counts :: "window \<Rightarrow> time list \<Rightarrow> time list \<Rightarrow> time \<Rightarrow> bool" where
  "window_counts w rs gs now \<longleftrightarrow>
     wi_started w \<le> now \<and> (\<forall>t\<in>set rs \<union> set gs. t < wi_started w + WINDOW \<and> t \<le> now) \<and>
     wi_requests w = many_from (wi_started w) rs \<and> wi_retries w = many_from (wi_started w) gs \<and>
     wi_previous_requests w = many_between (wi_started w - WINDOW) (wi_started w) rs \<and>
     wi_previous_retries w = many_between (wi_started w - WINDOW) (wi_started w) gs \<and> within_share w"

lemma window_pos: "WINDOW = 10000000000"
  by (simp add: WINDOW_def seconds_def)

lemma many_all_between:
  "\<forall>u\<in>set ts. u < t + WINDOW \<Longrightarrow> many_between t (t + WINDOW) ts = many_from t ts"
  by (induction ts) (auto simp: many_from_def many_between_def)

lemma new_window_counts:
  "\<forall>t\<in>set rs \<union> set gs. t < now - WINDOW \<Longrightarrow> window_counts (new_window now) rs gs now"
proof -
  assume h: "\<forall>t\<in>set rs \<union> set gs. t < now - WINDOW"
  have "\<forall>t\<in>set rs \<union> set gs. t < now"
  proof
    fix t assume "t \<in> set rs \<union> set gs"
    with h have "t < now - WINDOW" by blast
    then show "t < now" by (simp add: window_pos)
  qed
  with h show ?thesis
    using many_none[of rs now] many_none[of gs now] many_none[of rs "now - WINDOW" now] many_none[of gs "now - WINDOW" now]
    by (auto simp: window_counts_def new_window_def within_share_def window_pos)
qed

lemma roll_counts:
  assumes "window_counts w rs gs t" "t \<le> now"
  shows "window_counts (roll now w) rs gs now \<and> now < wi_started (roll now w) + WINDOW"
proof -
  have since: "since_start now w = now - wi_started w" using assms by (simp add: since_start_def window_counts_def)
  have before: "\<forall>u\<in>set rs \<union> set gs. u < wi_started w + WINDOW \<and> u \<le> now"
    using assms unfolding window_counts_def by (meson order_trans)
  consider "wi_started w + 2 * WINDOW \<le> now" | "wi_started w + WINDOW \<le> now" "now < wi_started w + 2 * WINDOW"
    | "now < wi_started w + WINDOW" by linarith
  then show ?thesis
  proof cases
    case 1
    then have "roll now w = new_window now" by (simp add: roll_def since)
    moreover have "\<forall>u\<in>set rs \<union> set gs. u < now - WINDOW" using before 1 by auto
    ultimately show ?thesis using new_window_counts[of rs gs now] by (simp add: new_window_def window_pos)
  next
    case 2
    let ?s = "wi_started w + WINDOW"
    have "many_from ?s rs = 0" "many_from ?s gs = 0" using before many_none[of rs ?s] many_none[of gs ?s] by auto
    moreover have "many_between (wi_started w) ?s rs = many_from (wi_started w) rs"
      "many_between (wi_started w) ?s gs = many_from (wi_started w) gs"
      using before by (intro many_all_between; blast)+
    ultimately show ?thesis
      using 2 before assms by (auto simp: roll_def since window_counts_def within_share_def window_pos)
  next
    case 3
    then have "roll now w = w" by (simp add: roll_def since window_pos)
    with 3 before assms show ?thesis by (auto simp: window_counts_def)
  qed
qed

lemma window_counts_bounds:
  assumes "window_counts w rs gs now" "length rs + length gs < 2 ^ 50"
  shows "wi_requests w + wi_previous_requests w \<le> length rs" "wi_retries w + wi_previous_retries w \<le> length gs"
proof -
  have "many_from t xs + many_between (t - WINDOW) t xs \<le> length xs" for t xs
    using many_split[of "t - WINDOW" t xs] many_le(1)[of "t - WINDOW" xs] by (simp add: window_pos)
  then show "wi_requests w + wi_previous_requests w \<le> length rs" "wi_retries w + wi_previous_retries w \<le> length gs"
    using assms(1) by (simp_all add: window_counts_def)
qed

lemma count_request:
  assumes "window_counts w rs gs now" "now < wi_started w + WINDOW" "length rs + length gs < 2 ^ 50"
  shows "window_counts (w\<lparr>wi_requests := u64_add (wi_requests w) 1\<rparr>) (rs @ [now]) gs now"
proof -
  have "wi_requests w < 2 ^ 50" using window_counts_bounds[OF assms(1,3)] assms(3) by linarith
  then have "u64_add (wi_requests w) 1 = wi_requests w + 1" by (simp add: u64_add_def)
  then show ?thesis using assms(1,2) by (auto simp: window_counts_def many_snoc within_share_def)
qed

lemma count_retry:
  assumes "window_counts w rs gs now" "now < wi_started w + WINDOW" "length rs + length gs < 2 ^ 50" "retry_allowed now w"
  shows "window_counts (w\<lparr>wi_retries := u64_add (wi_retries w) 1\<rparr>) rs (gs @ [now]) now"
proof -
  note b = window_counts_bounds[OF assms(1,3)]
  then have "wi_requests w + wi_previous_requests w < 2 ^ 50" "wi_retries w + wi_previous_retries w < 2 ^ 50"
    using assms(3) by linarith+
  from retry_allowed_share[OF assms(4) this]
  have "wi_retries w + 1 \<le> 10 \<or> 5 * (wi_retries w + 1) \<le> wi_requests w + wi_previous_requests w"
    by (simp add: MIN_RETRIES_def)
  moreover have "u64_add (wi_retries w) 1 = wi_retries w + 1"
    using b(2) assms(3) by (simp add: u64_add_def)
  ultimately show ?thesis using assms(1,2) by (auto simp: window_counts_def many_snoc within_share_def)
qed

definition budget_counts :: "budget_call list \<Rightarrow> budget \<times> (string \<times> time) list \<Rightarrow> time \<Rightarrow> bool" where
  "budget_counts cs s now \<longleftrightarrow>
     (\<forall>app. (map_of (fst s) app = None \<longrightarrow> requests_of app cs = [] \<and> granted_of app (snd s) = []) \<and>
       (\<forall>w. map_of (fst s) app = Some w \<longrightarrow> window_counts w (requests_of app cs) (granted_of app (snd s)) now))"

lemma requests_snoc:
  "requests_of app (cs @ [c]) =
     requests_of app cs @ (case c of Count_Request a t \<Rightarrow> if a = app then [t] else [] | Ask _ _ \<Rightarrow> [])"
  by (simp add: requests_of_def map_filter_def split: budget_call.split)

lemma granted_snoc: "granted_of app (g @ [(a, t)]) = granted_of app g @ (if a = app then [t] else [])"
  by (simp add: granted_of_def)

lemma window_counts_later: "window_counts w rs gs t \<Longrightarrow> t \<le> now \<Longrightarrow> window_counts w rs gs now"
  unfolding window_counts_def by (meson order_trans)

lemma window_of_counts:
  assumes "budget_counts cs s t" "t \<le> now"
  shows "window_counts (window_of (fst s) app now) (requests_of app cs) (granted_of app (snd s)) now \<and>
    now < wi_started (window_of (fst s) app now) + WINDOW"
proof (cases "map_of (fst s) app")
  case None
  then have "requests_of app cs = []" "granted_of app (snd s) = []"
    using assms(1) by (simp_all add: budget_counts_def)
  then have "window_counts (new_window now) (requests_of app cs) (granted_of app (snd s)) now"
    by (simp add: new_window_counts)
  from roll_counts[OF this order_refl] show ?thesis using None by (simp add: window_of_def)
next
  case (Some w)
  then have "window_counts w (requests_of app cs) (granted_of app (snd s)) t"
    using assms(1) by (simp add: budget_counts_def)
  from roll_counts[OF this assms(2)] show ?thesis using Some by (simp add: window_of_def)
qed

lemma granted_length: "length (snd (budget_run cs)) + length (requests_of app cs) \<le> length cs"
proof (induction cs rule: rev_induct)
  case (snoc c cs)
  then show ?case
    by (cases c) (auto simp: budget_run_def budget_call_def requests_snoc case_prod_beta Let_def)
qed (simp add: budget_run_def requests_of_def)

lemma granted_of_length: "length (granted_of app g) \<le> length g"
  by (simp add: granted_of_def)

lemma budget_run_snoc: "budget_run (cs @ [c]) = budget_call c (budget_run cs)"
  by (simp add: budget_run_def)

lemma budget_call_counts:
  assumes "budget_counts cs (budget_run cs) t" "t \<le> call_time c" "length cs < 2 ^ 50"
  shows "budget_counts (cs @ [c]) (budget_run (cs @ [c])) (call_time c)"
proof -
  let ?s = "budget_run cs"
  have short: "length (requests_of app cs) + length (granted_of app (snd ?s)) < 2 ^ 50" for app
    using granted_length[of cs app] granted_of_length[of app "snd ?s"] assms(3) by linarith
  have others: "map_of (fst ?s) app = None \<Longrightarrow> requests_of app cs = [] \<and> granted_of app (snd ?s) = []"
    "map_of (fst ?s) app = Some w \<Longrightarrow> window_counts w (requests_of app cs) (granted_of app (snd ?s)) (call_time c)" for app w
    using assms(1,2) window_counts_later unfolding budget_counts_def by blast+
  show ?thesis
  proof (cases c)
    case (Count_Request app now)
    let ?w = "window_of (fst ?s) app now"
    have "window_counts ?w (requests_of app cs) (granted_of app (snd ?s)) now \<and> now < wi_started ?w + WINDOW"
      using window_of_counts assms(1,2) Count_Request by (simp add: call_time_def)
    then have "window_counts (?w\<lparr>wi_requests := u64_add (wi_requests ?w) 1\<rparr>) (requests_of app cs @ [now]) (granted_of app (snd ?s)) now"
      using count_request short by blast
    then show ?thesis using others
      by (simp add: budget_counts_def budget_run_snoc budget_call_def budget_request_def requests_snoc im_insert_get
          Count_Request call_time_def Let_def split: budget_call.split)
  next
    case (Ask app now)
    let ?w = "window_of (fst ?s) app now"
    have w: "window_counts ?w (requests_of app cs) (granted_of app (snd ?s)) now" "now < wi_started ?w + WINDOW"
      using window_of_counts assms(1,2) Ask by (simp_all add: call_time_def)
    show ?thesis
    proof (cases "retry_allowed now ?w")
      case True
      then have "window_counts (?w\<lparr>wi_retries := u64_add (wi_retries ?w) 1\<rparr>) (requests_of app cs) (granted_of app (snd ?s) @ [now]) now"
        using count_retry w short by blast
      then show ?thesis using others True
        by (simp add: budget_counts_def budget_run_snoc budget_call_def budget_retry_def requests_snoc granted_snoc
            im_insert_get Ask call_time_def Let_def)
    next
      case False
      then show ?thesis using others w
        by (simp add: budget_counts_def budget_run_snoc budget_call_def budget_retry_def requests_snoc
            im_insert_get Ask call_time_def Let_def)
    qed
  qed
qed

lemma budget_run_counts:
  "sorted (map call_time cs) \<Longrightarrow> length cs < 2 ^ 50 \<Longrightarrow> \<forall>c\<in>set cs. call_time c \<le> now \<Longrightarrow> cs = [] \<or> now = call_time (last cs) \<Longrightarrow>
   budget_counts cs (budget_run cs) now"
proof (induction cs arbitrary: now rule: rev_induct)
  case Nil
  show ?case by (simp add: budget_counts_def budget_run_def requests_of_def granted_of_def)
next
  case (snoc c cs)
  have "budget_counts cs (budget_run cs) (if cs = [] then now else call_time (last cs))"
    using snoc.prems by (intro snoc.IH) (auto simp: sorted_append last_is_latest)
  moreover have "(if cs = [] then now else call_time (last cs)) \<le> call_time c" "now = call_time c"
    using snoc.prems by (auto simp: sorted_append)
  ultimately show ?case using budget_call_counts snoc.prems(2) by (metis Suc_lessD length_append_singleton)
qed

text \<open>
  C30: The retries the gate grants an app are its share of the requests. In every history of calls
  with a clock that does not go back, and for the window the app is in, the retries granted since the
  window began are at most ten, or at most a fifth of the requests counted since ten seconds before
  it; the sums on \<open>f64\<close> never let one more through.
\<close>

theorem retries_within_share:
  assumes "sorted (map call_time cs)" "length cs < 2 ^ 50" "map_of (fst (budget_run cs)) app = Some w"
  shows "let n = many_from (wi_started w) (granted_of app (snd (budget_run cs))) in
    n \<le> 10 \<or> 5 * n \<le> many_from (wi_started w - seconds 10) (requests_of app cs)"
proof -
  let ?now = "call_time (last cs)"
  have "\<forall>c\<in>set cs. call_time c \<le> ?now" using last_is_latest[OF assms(1)] by blast
  then have "budget_counts cs (budget_run cs) ?now" by (intro budget_run_counts assms) simp_all
  then have w: "window_counts w (requests_of app cs) (granted_of app (snd (budget_run cs))) ?now"
    using assms(3) by (simp add: budget_counts_def)
  have "many_from (wi_started w - seconds 10) (requests_of app cs) =
      many_from (wi_started w) (requests_of app cs) + many_between (wi_started w - WINDOW) (wi_started w) (requests_of app cs)"
    using many_split[of "wi_started w - WINDOW" "wi_started w"] by (simp add: WINDOW_def)
  with w show ?thesis by (auto simp: window_counts_def within_share_def Let_def)
qed

text \<open>One request of an app and a retry: the floats are computed by the simplifier.\<close>

definition demo_calls :: "budget_call list" where
  "demo_calls = [Count_Request ''shop'' 0, Ask ''shop'' 0]"

definition demo_window :: window where
  "demo_window =
     \<lparr>wi_started = 0, wi_requests = 1, wi_retries = 0, wi_previous_requests = 0, wi_previous_retries = 0\<rparr>"

lemmas f64_compute = f64_of_nat_def f64_ratio_def f64_scale_def scaled_def round_half_even_def bit_length.simps Let_def

lemma demo_floats:
  "f64_of_nat 1 = F64 4503599627370496 52" "f64_of_nat 0 = F64 0 0" "f64_of_nat 10 = F64 5629499534213120 49"
  "f64_add (F64 4503599627370496 52) (F64 0 0) = F64 4503599627370496 52" "f64_add (F64 0 0) (F64 0 0) = F64 0 0"
  "f64_add (F64 0 0) (F64 4503599627370496 52) = F64 4503599627370496 52"
  "f64_mul (F64 4503599627370496 52) RETRY_SHARE = F64 7205759403792794 55"
  "\<not> f64_less (F64 5629499534213120 49) (F64 4503599627370496 52)"
  by (simp_all add: f64_compute share_value)

lemma demo_weight: "f64_mul (F64 0 0) (sliding_weight now w) = F64 0 0"
  using weight_at_most_one[of now w] by (auto simp: f64_between_def f64_compute)

lemma demo_retry_allowed: "retry_allowed 0 demo_window"
proof -
  have "f64_less (F64 7205759403792794 55) (F64 5629499534213120 49)" by simp
  then show ?thesis
    by (simp add: retry_allowed_def sliding_def demo_window_def demo_floats demo_weight MIN_RETRIES_def f64_max_def
        del: One_nat_def f64_less.simps f64_add.simps f64_mul.simps)
qed

lemma demo_calls_window:
  "map_of (fst (budget_run demo_calls)) ''shop'' = Some (demo_window\<lparr>wi_retries := 1\<rparr>)"
proof -
  have r: "budget_request ''shop'' 0 [] = [(''shop'', demo_window)]"
    by (simp add: budget_request_def window_of_def roll_def new_window_def since_start_def window_pos demo_window_def u64_add_def)
  have "window_of [(''shop'', demo_window)] ''shop'' 0 = demo_window"
    by (simp add: window_of_def roll_def since_start_def window_pos demo_window_def)
  then have "budget_retry ''shop'' 0 [(''shop'', demo_window)] = (True, [(''shop'', demo_window\<lparr>wi_retries := 1\<rparr>)])"
    using demo_retry_allowed by (simp add: budget_retry_def u64_add_def Let_def) (simp add: demo_window_def)
  then show ?thesis by (simp add: budget_run_def demo_calls_def budget_call_def r)
qed

theorem retries_within_share_witness:
  "many_from 0 (granted_of ''shop'' (snd (budget_run demo_calls))) \<le> 10 \<or>
   5 * many_from 0 (granted_of ''shop'' (snd (budget_run demo_calls))) \<le> many_from (- seconds 10) (requests_of ''shop'' demo_calls)"
proof -
  have "sorted (map call_time demo_calls)" by (simp add: demo_calls_def call_time_def)
  moreover have "length demo_calls = 2" by (simp add: demo_calls_def)
  then have "length demo_calls < 2 ^ 50" by simp
  moreover have "wi_started (demo_window\<lparr>wi_retries := 1\<rparr>) = 0" by (simp add: demo_window_def)
  ultimately show ?thesis
    using retries_within_share[OF _ _ demo_calls_window] unfolding Let_def by simp
qed

end
