(* ===== verification/Entry_Wire.thy ===== *)
theory Entry_Wire
  imports Net_Bytes
begin

text \<open>
  The framing of an entry stream (\<open>grund-entry/src/lib.rs\<close>): the header an edge sends and the gate's
  answer. The JSON encoder and decoder are parameters; a reader is the bytes still to come.
\<close>

definition MAX_HEADER_BYTES :: nat where "MAX_HEADER_BYTES = 4096"

record entry_tls =
  et_version :: string
  et_cipher :: string

record entry_header =
  eh_host :: string
  eh_alpn :: string
  eh_client :: string
  eh_tls :: entry_tls

datatype entry_answer = Accept_Entry "16 word" | No_Ready_Copy | Not_Placed_Here | Gate_Draining

datatype entry_error = Too_Large nat | Malformed_Header string | Unknown_Answer octet | End_Of_Stream

definition encode_answer :: "entry_answer \<Rightarrow> octet list" where
  "encode_answer a =
     (case a of
        Accept_Entry ready \<Rightarrow> 0 # u16_bytes ready
      | No_Ready_Copy \<Rightarrow> 1 # u16_bytes 0
      | Not_Placed_Here \<Rightarrow> 2 # u16_bytes 0
      | Gate_Draining \<Rightarrow> 3 # u16_bytes 0)"

definition decode_answer :: "octet list \<Rightarrow> entry_error + entry_answer" where
  "decode_answer bs =
     (let ready = u16_of_bytes (bs ! 1) (bs ! 2) in
      if bs ! 0 = 0 then Inr (Accept_Entry ready)
      else if bs ! 0 = 1 then Inr No_Ready_Copy
      else if bs ! 0 = 2 then Inr Not_Placed_Here
      else if bs ! 0 = 3 then Inr Gate_Draining
      else Inl (Unknown_Answer (bs ! 0)))"

definition answer_word :: "entry_answer \<Rightarrow> string" where
  "answer_word a =
     (case a of Accept_Entry _ \<Rightarrow> ''accept'' | No_Ready_Copy \<Rightarrow> ''no_ready_copy''
      | Not_Placed_Here \<Rightarrow> ''not_placed_here'' | Gate_Draining \<Rightarrow> ''draining'')"

definition encode_header :: "(entry_header \<Rightarrow> octet list) \<Rightarrow> entry_header \<Rightarrow> entry_error + octet list" where
  "encode_header to_json h =
     (let body = to_json h in
      if length body > MAX_HEADER_BYTES then Inl (Too_Large (length body))
      else Inr (u16_bytes (of_nat (length body)) @ body))"

text \<open>\<open>read_exact\<close>: the bytes read and the rest of the stream.\<close>

definition read_exact :: "nat \<Rightarrow> octet list \<Rightarrow> entry_error + octet list \<times> octet list" where
  "read_exact n stream = (if length stream < n then Inl End_Of_Stream else Inr (take n stream, drop n stream))"

definition read_header ::
  "(octet list \<Rightarrow> string + entry_header) \<Rightarrow> octet list \<Rightarrow> entry_error + entry_header \<times> octet list" where
  "read_header of_json stream =
     (case read_exact 2 stream of
        Inl e \<Rightarrow> Inl e
      | Inr (l, stream) \<Rightarrow>
          let len = unat (u16_of_bytes (l ! 0) (l ! 1)) in
          if len > MAX_HEADER_BYTES then Inl (Too_Large len)
          else
            case read_exact len stream of
              Inl e \<Rightarrow> Inl e
            | Inr (body, stream) \<Rightarrow>
                (case of_json body of
                   Inl e \<Rightarrow> Inl (Malformed_Header e)
                 | Inr h \<Rightarrow>
                     if eh_host h = [] \<or> length (eh_host h) > 253 then Inl (Malformed_Header ''no host'')
                     else Inr (h, stream)))"

definition write_answer :: "entry_answer \<Rightarrow> octet list \<Rightarrow> octet list" where
  "write_answer a written = written @ encode_answer a"

definition read_answer :: "octet list \<Rightarrow> entry_error + entry_answer \<times> octet list" where
  "read_answer stream =
     (case read_exact 3 stream of
        Inl e \<Rightarrow> Inl e
      | Inr (bs, stream) \<Rightarrow> (case decode_answer bs of Inl e \<Rightarrow> Inl e | Inr a \<Rightarrow> Inr (a, stream)))"

text \<open>What one end writes the other reads, whatever follows on the stream.\<close>

lemma answer_read_back: "read_answer (write_answer a [] @ rest) = Inr (a, rest)"
  by (cases a)
    (simp_all add: read_answer_def write_answer_def read_exact_def encode_answer_def decode_answer_def
      u16_bytes_list u16_round_trip)

lemma header_read_back:
  assumes "of_json (to_json h) = Inr h" "eh_host h \<noteq> []" "length (eh_host h) \<le> 253"
    "encode_header to_json h = Inr bs"
  shows "read_header of_json (bs @ rest) = Inr (h, rest)"
proof -
  let ?n = "length (to_json h)"
  have n: "?n \<le> MAX_HEADER_BYTES" and bs: "bs = u16_bytes (of_nat ?n) @ to_json h"
    using assms(4) by (auto simp: encode_header_def Let_def split: if_splits)
  then have "unat (of_nat ?n :: 16 word) = ?n"
    by (simp add: unat_of_nat MAX_HEADER_BYTES_def take_bit_nat_eq_self)
  with n assms(1-3) show ?thesis
    by (simp add: read_header_def bs read_exact_def u16_bytes_list u16_round_trip Let_def)
qed

end
