(* ===== verification/Gate.thy ===== *)
theory Gate
  imports Gate_Routes Gate_Budget Entry_Wire
begin

text \<open>
  The gate (\<open>grund-agent/src/gate/mod.rs\<close>): who may open an entry stream, the headers of a request
  on its way to a copy, and the attempts at answering one. A \<open>HeaderMap\<close> is a list of pairs, names
  in lower case; HTTP itself and the sockets are hyper's. What happens to the gate while a request
  waits is a list of events, so that every interleaving with updates and other requests is covered.
\<close>

section \<open>Headers\<close>

type_synonym headers = "(string \<times> string) list"

text \<open>What hyper tells of a header value: whether it is text, whether text is a value, an authority.\<close>

record http_lib =
  hl_text :: "string \<Rightarrow> bool"
  hl_value :: "string \<Rightarrow> bool"
  hl_authority :: "string \<Rightarrow> string option"
  hl_socket_ip :: "string \<Rightarrow> string option"

definition hm_remove :: "string \<Rightarrow> headers \<Rightarrow> headers" where
  "hm_remove name hs = filter (\<lambda>(n, _). n \<noteq> name) hs"

definition hm_insert :: "string \<Rightarrow> string \<Rightarrow> headers \<Rightarrow> headers" where
  "hm_insert name v hs = hm_remove name hs @ [(name, v)]"

definition hm_all :: "string \<Rightarrow> headers \<Rightarrow> string list" where
  "hm_all name hs = map snd (filter (\<lambda>(n, _). n = name) hs)"

definition HOP_BY_HOP :: "string list" where
  "HOP_BY_HOP =
     [''connection'', ''keep-alive'', ''proxy-connection'', ''proxy-authenticate'', ''proxy-authorization'',
      ''te'', ''trailer'', ''transfer-encoding'', ''upgrade'']"

definition FORWARDING :: "string list" where
  "FORWARDING =
     [''forwarded'', ''x-forwarded-for'', ''x-forwarded-proto'', ''x-forwarded-host'', ''x-forwarded-port'',
      ''x-forwarded-server'', ''x-real-ip'']"

definition connection_named :: "http_lib \<Rightarrow> headers \<Rightarrow> string list" where
  "connection_named hl hs =
     filter (\<lambda>v. v \<noteq> [])
       (map (to_ascii_lowercase \<circ> trim)
         (concat (map (split CHR '','') (filter (hl_text hl) (hm_all ''connection'' hs)))))"

text \<open>A name the \<open>Connection\<close> header lists that is no header name is no name in the map either.\<close>

definition strip_hop_by_hop :: "http_lib \<Rightarrow> bool \<Rightarrow> headers \<Rightarrow> headers" where
  "strip_hop_by_hop hl keep_upgrade hs =
     (let upgrade = first_opt (hm_all ''upgrade'' hs);
          stripped = fold hm_remove (HOP_BY_HOP @ connection_named hl hs) hs
      in case upgrade of
           Some u \<Rightarrow>
             if keep_upgrade then hm_insert ''connection'' ''upgrade'' (hm_insert ''upgrade'' u stripped) else stripped
         | None \<Rightarrow> stripped)"

definition set_header :: "http_lib \<Rightarrow> string \<Rightarrow> string \<Rightarrow> headers \<Rightarrow> headers" where
  "set_header hl name v hs = (if hl_value hl v then hm_insert name v hs else hs)"

definition client_ip :: "http_lib \<Rightarrow> string \<Rightarrow> string" where
  "client_ip hl client = unwrap_or (hl_socket_ip hl client) client"

definition forwarded_for :: "string \<Rightarrow> string" where
  "forwarded_for ip = (if CHR '':'' \<in> set ip then quote (''['' @ ip @ '']'') else ip)"

definition forwarded :: "http_lib \<Rightarrow> string \<Rightarrow> string \<Rightarrow> headers" where
  "forwarded hl client host =
     [(''x-forwarded-for'', client_ip hl client), (''x-forwarded-proto'', ''https''), (''x-forwarded-host'', host),
      (''forwarded'', ''for='' @ forwarded_for (client_ip hl client) @ '';proto=https;host='' @ host)]"

definition set_forwarding :: "http_lib \<Rightarrow> string \<Rightarrow> string \<Rightarrow> headers \<Rightarrow> headers" where
  "set_forwarding hl client host hs =
     fold (\<lambda>(n, v). set_header hl n v) (forwarded hl client host) (fold hm_remove FORWARDING hs)"

definition request_host :: "http_lib \<Rightarrow> string option \<Rightarrow> headers \<Rightarrow> string option" where
  "request_host hl authority hs =
     Option.bind
       (case authority of
          Some a \<Rightarrow> Some a
        | None \<Rightarrow>
            Option.bind (first_opt (hm_all ''host'' hs)) (\<lambda>v. if hl_text hl v then hl_authority hl v else None))
       (\<lambda>raw.
          let host = to_ascii_lowercase (rev (dropWhile (\<lambda>c. c = CHR ''.'') (rev raw))) in
          if host \<noteq> [] then Some host else None)"

definition wants_upgrade :: "http_lib \<Rightarrow> bool \<Rightarrow> headers \<Rightarrow> bool" where
  "wants_upgrade hl is_http11 hs \<longleftrightarrow>
     is_http11 \<and> hm_all ''upgrade'' hs \<noteq> [] \<and>
     list_ex (\<lambda>v. list_ex (\<lambda>t. to_ascii_lowercase (trim t) = ''upgrade'') (split CHR '','' v))
       (filter (hl_text hl) (hm_all ''connection'' hs))"

definition idempotent :: "string \<Rightarrow> bool" where
  "idempotent method \<longleftrightarrow> method \<in> {''GET'', ''HEAD'', ''OPTIONS'', ''PUT'', ''DELETE''}"

text \<open>The head of a request as \<open>route\<close> passes it on.\<close>

definition prepare_headers ::
  "http_lib \<Rightarrow> bool \<Rightarrow> string \<Rightarrow> string \<Rightarrow> string \<Rightarrow> headers \<Rightarrow> headers" where
  "prepare_headers hl upgrade client host new_id hs =
     (let hs = set_forwarding hl client host (strip_hop_by_hop hl upgrade hs);
          hs = (if hm_all ''x-request-id'' hs = [] then hm_insert ''x-request-id'' new_id hs else hs)
      in set_header hl ''host'' host hs)"

text \<open>And of a response on its way back, in \<open>finish\<close>.\<close>

definition finish_headers :: "http_lib \<Rightarrow> app_route \<Rightarrow> candidate \<Rightarrow> bool \<Rightarrow> string \<Rightarrow> headers \<Rightarrow> headers" where
  "finish_headers hl app x is_http11 host hs =
     (let hs = strip_hop_by_hop hl False hs;
          hs = (if ro_platform_host app = Some host \<and> hm_all ''strict-transport-security'' hs = []
                then hm_insert ''strict-transport-security'' ''max-age=31536000'' hs else hs)
      in if \<not> ca_local x \<and> is_http11 then hm_insert ''connection'' ''close'' hs else hs)"

section \<open>The gate\<close>

record gate =
  ga_table :: table
  ga_generation :: nat
  ga_copies :: copies
  ga_entry_keys :: "string list"
  ga_draining :: bool
  ga_inflight :: nat
  ga_budget :: budget
  ga_requests :: nat
  ga_misdirected :: nat
  ga_retried :: nat
  ga_remote :: nat
  ga_failed :: nat

definition new_gate :: gate where
  "new_gate =
     \<lparr>ga_table = \<lparr>ta_by_host = [], ta_apps = []\<rparr>, ga_generation = 0, ga_copies = \<lparr>cp_known = [], cp_store = []\<rparr>,
      ga_entry_keys = [], ga_draining = False, ga_inflight = 0, ga_budget = [], ga_requests = 0,
      ga_misdirected = 0, ga_retried = 0, ga_remote = 0, ga_failed = 0\<rparr>"

definition gate_update ::
  "desired_state option \<Rightarrow> replica_endpoint list \<Rightarrow> remote_copy list \<Rightarrow> gate \<Rightarrow> gate" where
  "gate_update doc views remote g =
     (let (t, c) = build_table doc views remote (ga_copies g) in
      g\<lparr>ga_table := t, ga_copies := c,
        ga_generation := (case doc of None \<Rightarrow> 0 | Some d \<Rightarrow> ds_generation d),
        ga_entry_keys := (case doc of None \<Rightarrow> [] | Some d \<Rightarrow> map to_ascii_lowercase (ds_entry_keys d))\<rparr>)"

definition is_entry_key :: "gate \<Rightarrow> string \<Rightarrow> bool" where
  "is_entry_key g i \<longleftrightarrow> to_ascii_lowercase i \<in> set (ga_entry_keys g)"

definition gate_idle :: "desired_state option \<Rightarrow> gate \<Rightarrow> string list" where
  "gate_idle doc g =
     (if (case doc of None \<Rightarrow> 0 | Some d \<Rightarrow> ds_generation d) \<noteq> ga_generation g then []
      else
        copies_idle
          (case doc of None \<Rightarrow> [] | Some d \<Rightarrow> map dr_replica_id (filter dr_draining (ds_replicas d))) (ga_copies g))"

definition gate_admit :: "string \<Rightarrow> time \<Rightarrow> gate \<Rightarrow> entry_answer" where
  "gate_admit host now g =
     (if ga_draining g then Gate_Draining
      else
        case app_for (ga_table g) host of
          None \<Rightarrow> Not_Placed_Here
        | Some app \<Rightarrow>
            let ready = ready_local (ga_copies g) now app in
            if ready = 0 \<and> (ready_remote (ga_copies g) now app \<or> \<not> draining_fallback (ga_copies g) now app)
            then No_Ready_Copy
            else Accept_Entry (of_nat (min ready 65535)))"

text \<open>\<open>InFlight::new\<close> and its drop.\<close>

definition begin_flight :: "nat \<Rightarrow> gate \<Rightarrow> gate" where
  "begin_flight k g =
     g\<lparr>ga_copies := update_copy k (\<lambda>s. s\<lparr>cs_inflight := cs_inflight s + 1\<rparr>) (ga_copies g),
       ga_inflight := ga_inflight g + 1\<rparr>"

definition end_flight :: "nat \<Rightarrow> gate \<Rightarrow> gate" where
  "end_flight k g =
     g\<lparr>ga_copies := update_copy k (\<lambda>s. s\<lparr>cs_inflight := cs_inflight s - 1\<rparr>) (ga_copies g),
       ga_inflight := ga_inflight g - 1\<rparr>"

definition eject_copy :: "nat \<Rightarrow> time \<Rightarrow> gate \<Rightarrow> gate" where
  "eject_copy k now g = g\<lparr>ga_copies := update_copy k (eject now) (ga_copies g)\<rparr>"

definition note_request :: "string \<Rightarrow> time \<Rightarrow> gate \<Rightarrow> gate" where
  "note_request app now g = g\<lparr>ga_budget := budget_request app now (ga_budget g)\<rparr>"

definition may_retry :: "string \<Rightarrow> time \<Rightarrow> gate \<Rightarrow> bool \<times> gate" where
  "may_retry app now g = (let (ok, b) = budget_retry app now (ga_budget g) in (ok, g\<lparr>ga_budget := b\<rparr>))"

text \<open>What other tasks do.\<close>

datatype gate_event =
    Update "desired_state option" "replica_endpoint list" "remote_copy list"
  | Begin_Flight nat
  | End_Flight nat
  | Eject nat time
  | Note_Request string time
  | Ask_Retry string time
  | Drain_Gate

fun gate_does :: "gate_event \<Rightarrow> gate \<Rightarrow> gate" where
  "gate_does (Update doc views remote) g = gate_update doc views remote g"
| "gate_does (Begin_Flight k) g = begin_flight k g"
| "gate_does (End_Flight k) g = end_flight k g"
| "gate_does (Eject k now) g = eject_copy k now g"
| "gate_does (Note_Request app now) g = note_request app now g"
| "gate_does (Ask_Retry app now) g = snd (may_retry app now g)"
| "gate_does Drain_Gate g = g\<lparr>ga_draining := True\<rparr>"

definition gate_after :: "gate_event list \<Rightarrow> gate \<Rightarrow> gate" where
  "gate_after evs g = fold gate_does evs g"

section \<open>Attempts\<close>

datatype 'a sent = Answered 'a | Timed_Out | Connect_Failed | Broken

datatype 'a gate_response = Status nat | Passed_On candidate 'a | Upgraded candidate 'a

text \<open>
  The world of one request, attempt by attempt: the time before and after it, the random draws, what
  other tasks do while the gate waits, and how the attempt ends; then whether the handshake on a
  connection of its own succeeds and which answers switch protocols.
\<close>

record 'a gate_world =
  gw_now :: "nat \<Rightarrow> time"
  gw_then :: "nat \<Rightarrow> time"
  gw_random :: "nat \<Rightarrow> nat \<Rightarrow> nat \<Rightarrow> nat"
  gw_others :: "nat \<Rightarrow> gate_event list"
  gw_sent :: "nat \<Rightarrow> candidate \<Rightarrow> 'a sent"
  gw_handshake :: bool
  gw_switches :: "'a \<Rightarrow> bool"

text \<open>One attempt, for the record: the route and what the gate knew when it picked, and its end.\<close>

record 'a attempt =
  at_route :: app_route
  at_copies :: copies
  at_now :: time
  at_candidate :: candidate
  at_sent :: "'a sent"

type_synonym 'a attempts = "'a attempt list"

definition failed :: "gate \<Rightarrow> gate" where
  "failed g = g\<lparr>ga_failed := u64_add (ga_failed g) 1\<rparr>"

text \<open>\<open>finish\<close> counts the answers of copies elsewhere; the flight ends with the body.\<close>

definition note_remote :: "candidate \<Rightarrow> gate \<Rightarrow> gate" where
  "note_remote x g = (if ca_local x then g else g\<lparr>ga_remote := u64_add (ga_remote g) 1\<rparr>)"

text \<open>\<open>forward_buffered\<close>; the last component is the log of the attempts.\<close>

function forward_buffered ::
  "'a gate_world \<Rightarrow> app_route \<Rightarrow> string \<Rightarrow> bool \<Rightarrow> string list \<Rightarrow> bool \<Rightarrow> app_route \<Rightarrow> gate \<Rightarrow>
   'a gate_response \<times> gate \<times> 'a attempts" where
  "forward_buffered w app host retryable tried resent current g =
     (let i = length tried; now = gw_now w i in
      case pick (ga_copies g) now (gw_random w i) tried current of
        None \<Rightarrow> (Status 503, failed g, [])
      | Some x \<Rightarrow>
          let copy = cs_replica_id (copy_of (ga_copies g) x);
              g1 = gate_after (gw_others w i) (begin_flight (ca_copy x) g);
              sent = gw_sent w i x;
              entry = \<lparr>at_route = current, at_copies = ga_copies g, at_now = now, at_candidate = x, at_sent = sent\<rparr>
          in case sent of
               Answered r \<Rightarrow>
                 (Passed_On x r, note_remote x g1, [entry])
             | Timed_Out \<Rightarrow> (Status 504, end_flight (ca_copy x) (failed g1), [entry])
             | failure \<Rightarrow>
                 let again = (failure = Connect_Failed \<or> retryable \<and> \<not> resent);
                     resent' = (resent \<or> failure = Broken \<and> again);
                     g2 = end_flight (ca_copy x) (eject_copy (ca_copy x) (gw_then w i) g1)
                 in if \<not> again \<or> length tried + 1 > MAX_RETRIES_PER_REQUEST then (Status 502, failed g2, [entry])
                    else
                      let (ok, g3) = may_retry (ro_app app) (gw_then w i) g2 in
                      if \<not> ok then (Status 502, failed g3, [entry])
                      else
                        let g4 = g3\<lparr>ga_retried := u64_add (ga_retried g3) 1\<rparr>;
                            current' = unwrap_or (app_for (ga_table g4) host) current;
                            (r, g', log) =
                              forward_buffered w app host retryable (tried @ [copy]) resent' current' g4
                        in (r, g', entry # log))"
  by pat_completeness auto
termination
  by (relation "measure (\<lambda>(_, _, _, _, tried, _). 3 - length tried)") (auto simp: MAX_RETRIES_PER_REQUEST_def)

declare forward_buffered.simps [simp del]

text \<open>\<open>connect_for\<close>, for a streamed body or an upgrade: the copy reached, if any.\<close>

function connect_for ::
  "'a gate_world \<Rightarrow> app_route \<Rightarrow> string list \<Rightarrow> gate \<Rightarrow> candidate option \<times> gate \<times> 'a attempts" where
  "connect_for w app tried g =
     (let i = length tried; now = gw_now w i in
      case pick (ga_copies g) now (gw_random w i) tried app of
        None \<Rightarrow> (None, g, [])
      | Some x \<Rightarrow>
          let copy = cs_replica_id (copy_of (ga_copies g) x);
              g1 = gate_after (gw_others w i) g;
              sent = gw_sent w i x;
              entry = \<lparr>at_route = app, at_copies = ga_copies g, at_now = now, at_candidate = x, at_sent = sent\<rparr>
          in if sent \<noteq> Connect_Failed then (Some x, g1, [entry])
             else
               let g2 = eject_copy (ca_copy x) (gw_then w i) g1 in
               if length tried + 1 > MAX_RETRIES_PER_REQUEST then (None, g2, [entry])
               else
                 let (ok, g3) = may_retry (ro_app app) (gw_then w i) g2 in
                 if \<not> ok then (None, g3, [entry])
                 else
                   let (r, g', log) =
                     connect_for w app (tried @ [copy]) (g3\<lparr>ga_retried := u64_add (ga_retried g3) 1\<rparr>)
                   in (r, g', entry # log))"
  by pat_completeness auto
termination
  by (relation "measure (\<lambda>(_, _, tried, _). 3 - length tried)") (auto simp: MAX_RETRIES_PER_REQUEST_def)

declare connect_for.simps [simp del]

text \<open>\<open>forward_streaming\<close>: once a byte of the body may be gone nothing is tried again.\<close>

definition forward_streaming ::
  "'a gate_world \<Rightarrow> app_route \<Rightarrow> gate \<Rightarrow> 'a gate_response \<times> gate \<times> 'a attempts" where
  "forward_streaming w app g =
     (case connect_for w app [] g of
        (None, g, log) \<Rightarrow> (Status 503, failed g, log)
      | (Some x, g, log) \<Rightarrow>
          if \<not> gw_handshake w then (Status 502, g, log)
          else
            (case gw_sent w (length log - 1) x of
               Answered r \<Rightarrow> (Passed_On x r, note_remote x (begin_flight (ca_copy x) g), log)
             | Timed_Out \<Rightarrow> (Status 504, failed g, log)
             | _ \<Rightarrow> (Status 502, failed g, log)))"

definition forward_upgrade ::
  "'a gate_world \<Rightarrow> app_route \<Rightarrow> gate \<Rightarrow> 'a gate_response \<times> gate \<times> 'a attempts" where
  "forward_upgrade w app g =
     (case connect_for w app [] g of
        (None, g, log) \<Rightarrow> (Status 503, g, log)
      | (Some x, g, log) \<Rightarrow>
          if \<not> gw_handshake w then (Status 502, g, log)
          else
            (case gw_sent w (length log - 1) x of
               Answered r \<Rightarrow>
                 if gw_switches w r then (Upgraded x r, begin_flight (ca_copy x) g, log)
                 else (Passed_On x r, note_remote x (begin_flight (ca_copy x) g), log)
             | Timed_Out \<Rightarrow> (Status 504, g, log)
             | _ \<Rightarrow> (Status 502, g, log)))"

section \<open>A request\<close>

text \<open>A body: absent, small enough to buffer (the bytes, if they arrive), or streamed.\<close>

datatype request_body = No_Body | Small_Body "octet list option" | Large_Body

record request =
  rq_authority :: "string option"
  rq_http11 :: bool
  rq_method :: string
  rq_headers :: headers
  rq_body :: request_body

definition MISDIRECTED :: nat where "MISDIRECTED = 421"

definition gate_route ::
  "http_lib \<Rightarrow> 'a gate_world \<Rightarrow> string \<Rightarrow> request \<Rightarrow> gate \<Rightarrow> 'a gate_response \<times> gate \<times> 'a attempts" where
  "gate_route hl w client_host rq g =
     (let g = g\<lparr>ga_requests := u64_add (ga_requests g) 1\<rparr>;
          host = unwrap_or (request_host hl (rq_authority rq) (rq_headers rq)) []
      in case app_for (ga_table g) client_host of
           None \<Rightarrow> (Status MISDIRECTED, g, [])
         | Some app \<Rightarrow>
             if \<not> serves app host
             then (Status MISDIRECTED, g\<lparr>ga_misdirected := u64_add (ga_misdirected g) 1\<rparr>, [])
             else
               let g = note_request (ro_app app) (gw_now w 0) g;
                   upgrade = wants_upgrade hl (rq_http11 rq) (rq_headers rq);
                   buffered = (\<lambda>bytes.
                     if upgrade \<and> bytes = [] then forward_upgrade w app g
                     else forward_buffered w app host (idempotent (rq_method rq)) [] False app g)
               in case rq_body rq of
                    No_Body \<Rightarrow> buffered []
                  | Small_Body (Some bytes) \<Rightarrow> buffered bytes
                  | Small_Body None \<Rightarrow> (Status 400, g, [])
                  | Large_Body \<Rightarrow> forward_streaming w app g)"

end
