(* ===== verification/Gate_Props.thy ===== *)
theory Gate_Props
  imports Gate
begin

text \<open>
  What the gate promises: the head of a request carries the gate's own word on where it comes from, a
  request reaches only copies of an app that serves its host, is tried a bounded number of times and
  again only where that is safe, and an accepted entry stream has a copy to answer it.
\<close>

section \<open>Headers\<close>

lemma hm_all_remove: "hm_all n (hm_remove m hs) = (if n = m then [] else hm_all n hs)"
  by (auto simp: hm_all_def hm_remove_def filter_empty_conv intro!: arg_cong[where f = "map snd"] filter_cong)

lemma hm_all_insert: "hm_all n (hm_insert m v hs) = (if n = m then [v] else hm_all n hs)"
  by (simp add: hm_insert_def hm_all_def hm_remove_def)
    (auto simp: filter_empty_conv intro!: arg_cong[where f = "map snd"] filter_cong)

lemma hm_all_set: "hm_all n (set_header hl m v hs) = (if n = m \<and> hl_value hl v then [v] else hm_all n hs)"
  by (simp add: set_header_def hm_all_insert)

lemma hm_all_remove_all: "hm_all n (fold hm_remove ms hs) = (if n \<in> set ms then [] else hm_all n hs)"
  by (induction ms arbitrary: hs) (simp_all add: hm_all_remove)

text \<open>What is left of a header the stripping is about.\<close>

lemma stripped_headers:
  "n \<in> set HOP_BY_HOP \<union> set (connection_named hl hs) \<Longrightarrow>
   hm_all n (strip_hop_by_hop hl up hs) =
     (if up \<and> hm_all ''upgrade'' hs \<noteq> [] \<and> n = ''connection'' then [''upgrade'']
      else if up \<and> hm_all ''upgrade'' hs \<noteq> [] \<and> n = ''upgrade'' then [hd (hm_all ''upgrade'' hs)] else [])"
  by (cases "hm_all ''upgrade'' hs")
    (auto simp: strip_hop_by_hop_def Let_def hm_all_insert hm_all_remove_all first_opt_def)

lemma set_forwarding_all:
  "hm_all n (set_forwarding hl client host hs) =
     (case map_of (forwarded hl client host) n of
        Some v \<Rightarrow> if hl_value hl v then [v] else []
      | None \<Rightarrow> if n \<in> set FORWARDING then [] else hm_all n hs)"
  by (simp add: set_forwarding_def forwarded_def hm_all_set hm_all_remove FORWARDING_def)

text \<open>
  C32: An app can believe the forwarding headers of a request. Whatever headers the client sent, each
  forwarding header the gate passes on holds exactly the gate's value, made of the client's address as
  the edge saw it, the host and the scheme, or is absent where the gate sets none or its value is no
  header value; and no hop-by-hop header, nor any header the client's \<open>Connection\<close> names, is passed on,
  but for those of a wanted upgrade and the ones the gate sets itself.
\<close>

theorem headers_are_the_gates:
  assumes "n \<in> set FORWARDING \<union> set HOP_BY_HOP \<union> set (connection_named hl hs)"
    "n \<noteq> ''host''" "n \<noteq> ''x-request-id''"
  shows "hm_all n (prepare_headers hl up client host new_id hs) =
    (case map_of (forwarded hl client host) n of
       Some v \<Rightarrow> if hl_value hl v then [v] else []
     | None \<Rightarrow>
         if n \<in> {''connection'', ''upgrade''} \<and> up \<and> hm_all ''upgrade'' hs \<noteq> []
         then [if n = ''connection'' then ''upgrade'' else hd (hm_all ''upgrade'' hs)] else [])"
proof -
  let ?s = "strip_hop_by_hop hl up hs"
  have all: "hm_all n (prepare_headers hl up client host new_id hs) = hm_all n (set_forwarding hl client host ?s)"
    using assms(2,3) by (simp add: prepare_headers_def Let_def hm_all_set hm_all_insert)
  show ?thesis
  proof (cases "map_of (forwarded hl client host) n")
    case None
    show ?thesis
    proof (cases "n \<in> set FORWARDING")
      case True
      then have "n \<notin> {''connection'', ''upgrade''}" by (auto simp: FORWARDING_def)
      then show ?thesis unfolding all set_forwarding_all using None True by simp
    next
      case False
      then show ?thesis
        unfolding all set_forwarding_all using None assms(1) stripped_headers[of n hl hs up] by auto
    qed
  qed (simp add: all set_forwarding_all)
qed

section \<open>The routes of a table\<close>

text \<open>Every route is filed under names it serves.\<close>

definition hosts_ok :: "table \<Rightarrow> bool" where
  "hosts_ok t \<longleftrightarrow> (\<forall>(h, r)\<in>set (ta_by_host t). h \<in> set (ro_hostnames r))"

lemma insert_hosts:
  "(h, r) \<in> set (fold (\<lambda>h. im_insert h route) hs ps) \<Longrightarrow> (h, r) \<in> set ps \<or> r = route \<and> h \<in> set hs"
  by (induction hs arbitrary: ps) (auto dest!: im_insert_mem)

lemma build_app_hosts: "hosts_ok (fst s) \<Longrightarrow> hosts_ok (fst (build_app remote ab s))"
  by (auto simp: build_app_def hosts_ok_def Let_def case_prod_beta dest!: insert_hosts)

lemma build_table_hosts: "hosts_ok (fst (build_table doc views remote c))"
proof -
  have "hosts_ok (fst s) \<Longrightarrow> hosts_ok (fst (fold (build_app remote) apps s))" for apps s
    by (induction apps arbitrary: s) (simp_all add: build_app_hosts)
  moreover have "hosts_ok \<lparr>ta_by_host = [], ta_apps = []\<rparr>" by (simp add: hosts_ok_def)
  ultimately show ?thesis by (simp add: build_table_def Let_def case_prod_beta)
qed

lemma app_for_serves: "hosts_ok t \<Longrightarrow> app_for t host = Some r \<Longrightarrow> serves r host"
  by (auto simp: hosts_ok_def app_for_def serves_def list_ex_iff dest!: map_of_SomeD intro!: bexI[of _ "to_ascii_lowercase host"])

lemma gate_does_hosts: "hosts_ok (ga_table g) \<Longrightarrow> hosts_ok (ga_table (gate_does e g))"
proof (cases e)
  case (Update doc views remote)
  then show ?thesis using build_table_hosts by (simp add: gate_update_def case_prod_beta)
qed (simp_all add: begin_flight_def end_flight_def eject_copy_def note_request_def may_retry_def case_prod_beta)

lemma gate_after_hosts: "hosts_ok (ga_table g) \<Longrightarrow> hosts_ok (ga_table (gate_after evs g))"
  unfolding gate_after_def by (induction evs arbitrary: g) (simp_all add: gate_does_hosts)

lemma new_gate_hosts: "hosts_ok (ga_table new_gate)"
  by (simp add: new_gate_def hosts_ok_def)

lemma table_frame [simp]:
  "ga_table (begin_flight k g) = ga_table g" "ga_table (end_flight k g) = ga_table g"
  "ga_table (eject_copy k t g) = ga_table g" "ga_table (failed g) = ga_table g"
  "ga_table (note_request a t g) = ga_table g" "ga_table (snd (may_retry a t g)) = ga_table g"
  "ga_table (note_remote x g) = ga_table g"
  by (simp_all add: begin_flight_def end_flight_def eject_copy_def failed_def note_request_def may_retry_def
      note_remote_def case_prod_beta)

section \<open>Picking\<close>

definition draws :: "(nat \<Rightarrow> nat \<Rightarrow> nat) \<Rightarrow> bool" where
  "draws random \<longleftrightarrow> (\<forall>i n. 0 < n \<longrightarrow> random i n < n)"

lemma two_choices_mem: "xs \<noteq> [] \<Longrightarrow> draws random \<Longrightarrow> two_choices c random xs \<in> set xs"
  by (auto simp: two_choices_def draws_def Let_def)

text \<open>A copy may be picked: it answers as far as the gate knows and was not tried.\<close>

definition pickable :: "copies \<Rightarrow> time \<Rightarrow> app_route \<Rightarrow> candidate \<Rightarrow> bool" where
  "pickable c now r x \<longleftrightarrow>
     x \<in> set (ro_local r) \<and> (usable c now x \<or> drains c now x) \<or> x \<in> set (ro_remote r) \<and> usable c now x"

lemma pick_Some:
  assumes "pick c now random tried r = Some x" "draws random"
  shows "pickable c now r x \<and> cs_replica_id (copy_of c x) \<notin> set tried"
proof -
  let ?fresh = "\<lambda>x. cs_replica_id (copy_of c x) \<notin> set tried"
  obtain xs where xs: "x = two_choices c random xs" "xs \<noteq> []"
    "xs \<in> {filter ?fresh (filter (usable c now) (ro_local r)), filter ?fresh (filter (usable c now) (ro_remote r)),
      filter ?fresh (filter (drains c now) (ro_local r))}"
    using assms(1) by (auto simp: pick_def Let_def simp del: filter_filter split: if_splits)
  then have "x \<in> set xs" using two_choices_mem assms(2) by blast
  with xs(3) show ?thesis by (auto simp: pickable_def)
qed

section \<open>Attempts\<close>

definition attempt_copy :: "'a attempt \<Rightarrow> string" where
  "attempt_copy e = cs_replica_id (copy_of (at_copies e) (at_candidate e))"

text \<open>One turn of the loop: nothing to try, the last attempt, or an attempt and the rest.\<close>

lemma forward_buffered_turn:
  assumes "forward_buffered w app host retryable tried resent current g = (r, g', log)"
  obtains (none) "log = []" "r = Status 503"
    | (final) x where "pick (ga_copies g) (gw_now w (length tried)) (gw_random w (length tried)) tried current = Some x"
        "log = [\<lparr>at_route = current, at_copies = ga_copies g, at_now = gw_now w (length tried), at_candidate = x,
                 at_sent = gw_sent w (length tried) x\<rparr>]"
        "r = (case gw_sent w (length tried) x of Answered a \<Rightarrow> Passed_On x a | Timed_Out \<Rightarrow> Status 504 | _ \<Rightarrow> Status 502)"
    | (again) x s resent' g4 log' where
        "pick (ga_copies g) (gw_now w (length tried)) (gw_random w (length tried)) tried current = Some x"
        "s = gw_sent w (length tried) x" "s = Connect_Failed \<and> resent' = resent \<or> s = Broken \<and> retryable \<and> \<not> resent \<and> resent'"
        "length tried + 1 \<le> 2" "hosts_ok (ga_table g) \<Longrightarrow> hosts_ok (ga_table g4)"
        "forward_buffered w app host retryable (tried @ [cs_replica_id (copy_of (ga_copies g) x)]) resent'
           (unwrap_or (app_for (ga_table g4) host) current) g4 = (r, g', log')"
        "log = \<lparr>at_route = current, at_copies = ga_copies g, at_now = gw_now w (length tried), at_candidate = x,
                at_sent = s\<rparr> # log'"
proof -
  let ?i = "length tried"
  show thesis
  proof (cases "pick (ga_copies g) (gw_now w ?i) (gw_random w ?i) tried current")
    case None
    then have "log = []" "r = Status 503" using assms by (simp_all add: forward_buffered.simps[of w] Let_def)
    then show thesis by (rule none)
  next
    case (Some x)
    let ?s = "gw_sent w ?i x" and ?g1 = "gate_after (gw_others w ?i) (begin_flight (ca_copy x) g)"
    let ?again = "?s = Connect_Failed \<or> retryable \<and> \<not> resent" and ?resent = "resent \<or> ?s = Broken \<and> (?s = Connect_Failed \<or> retryable \<and> \<not> resent)"
    let ?g2 = "end_flight (ca_copy x) (eject_copy (ca_copy x) (gw_then w ?i) ?g1)"
    let ?ask = "may_retry (ro_app app) (gw_then w ?i) ?g2"
    let ?g4 = "(snd ?ask)\<lparr>ga_retried := u64_add (ga_retried (snd ?ask)) 1\<rparr>"
    let ?e = "\<lparr>at_route = current, at_copies = ga_copies g, at_now = gw_now w ?i, at_candidate = x, at_sent = ?s\<rparr>"
    let ?rest = "forward_buffered w app host retryable (tried @ [cs_replica_id (copy_of (ga_copies g) x)]) ?resent
      (unwrap_or (app_for (ga_table ?g4) host) current) ?g4"
    show thesis
    proof (cases "(?s = Connect_Failed \<or> ?s = Broken) \<and> ?again \<and> \<not> ?i + 1 > MAX_RETRIES_PER_REQUEST \<and> fst ?ask")
      case True
      then have "(r, g', log) = (fst ?rest, fst (snd ?rest), ?e # snd (snd ?rest))"
        using assms Some by (subst (asm) forward_buffered.simps) (auto simp: Let_def case_prod_beta split: sent.splits)
      then have "?rest = (r, g', snd (snd ?rest))" "log = ?e # snd (snd ?rest)" by simp_all
      moreover have "hosts_ok (ga_table g) \<Longrightarrow> hosts_ok (ga_table ?g4)"
        using gate_after_hosts[of "begin_flight (ca_copy x) g" "gw_others w ?i"] by simp
      ultimately show thesis
        using again[OF Some refl _ _ _ \<open>?rest = _\<close>] True by (auto simp: MAX_RETRIES_PER_REQUEST_def)
    next
      case False
      then have "log = [?e]" "r = (case ?s of Answered a \<Rightarrow> Passed_On x a | Timed_Out \<Rightarrow> Status 504 | _ \<Rightarrow> Status 502)"
        using assms Some
        by (subst (asm) forward_buffered.simps, auto simp: Let_def case_prod_beta split: sent.splits if_splits)+
      with Some show thesis by (rule final)
    qed
  qed
qed

text \<open>The same for \<open>connect_for\<close>.\<close>

lemma connect_for_turn:
  assumes "connect_for w app tried g = (r, g', log)"
  obtains (none) "log = []" "r = None"
    | (final) x where "pick (ga_copies g) (gw_now w (length tried)) (gw_random w (length tried)) tried app = Some x"
        "log = [\<lparr>at_route = app, at_copies = ga_copies g, at_now = gw_now w (length tried), at_candidate = x,
                 at_sent = gw_sent w (length tried) x\<rparr>]"
        "r = (if gw_sent w (length tried) x = Connect_Failed then None else Some x)"
    | (again) x g4 log' where
        "pick (ga_copies g) (gw_now w (length tried)) (gw_random w (length tried)) tried app = Some x"
        "length tried + 1 \<le> 2"
        "connect_for w app (tried @ [cs_replica_id (copy_of (ga_copies g) x)]) g4 = (r, g', log')"
        "log = \<lparr>at_route = app, at_copies = ga_copies g, at_now = gw_now w (length tried), at_candidate = x,
                at_sent = Connect_Failed\<rparr> # log'"
proof -
  let ?i = "length tried"
  show thesis
  proof (cases "pick (ga_copies g) (gw_now w ?i) (gw_random w ?i) tried app")
    case None
    then have "log = []" "r = None" using assms by (simp_all add: connect_for.simps[of w] Let_def)
    then show thesis by (rule none)
  next
    case (Some x)
    let ?s = "gw_sent w ?i x" and ?g1 = "gate_after (gw_others w ?i) g"
    let ?ask = "may_retry (ro_app app) (gw_then w ?i) (eject_copy (ca_copy x) (gw_then w ?i) ?g1)"
    let ?g4 = "(snd ?ask)\<lparr>ga_retried := u64_add (ga_retried (snd ?ask)) 1\<rparr>"
    let ?e = "\<lparr>at_route = app, at_copies = ga_copies g, at_now = gw_now w ?i, at_candidate = x, at_sent = ?s\<rparr>"
    let ?rest = "connect_for w app (tried @ [cs_replica_id (copy_of (ga_copies g) x)]) ?g4"
    show thesis
    proof (cases "?s = Connect_Failed \<and> \<not> ?i + 1 > MAX_RETRIES_PER_REQUEST \<and> fst ?ask")
      case True
      then have "(r, g', log) = (fst ?rest, fst (snd ?rest), ?e # snd (snd ?rest))"
        using assms Some by (subst (asm) connect_for.simps) (auto simp: Let_def case_prod_beta)
      then have "?rest = (r, g', snd (snd ?rest))" "log = ?e # snd (snd ?rest)" by simp_all
      then show thesis using again[OF Some _ \<open>?rest = _\<close>] True by (auto simp: MAX_RETRIES_PER_REQUEST_def)
    next
      case False
      then have "log = [?e]" "r = (if ?s = Connect_Failed then None else Some x)"
        using assms Some
        by (subst (asm) connect_for.simps, auto simp: Let_def case_prod_beta split: if_splits)+
      with Some show thesis by (rule final)
    qed
  qed
qed

text \<open>
  What holds of the attempts at one request for \<open>host\<close>: a bounded number, on different copies that the
  gate could pick and that belong to an app serving the host; each but the last failed, and at most
  \<open>broken\<close> of those after the connection stood.
\<close>

definition attempts_ok :: "string \<Rightarrow> string list \<Rightarrow> nat \<Rightarrow> 'a attempts \<Rightarrow> bool" where
  "attempts_ok host tried broken log \<longleftrightarrow>
     length log + length tried \<le> 3 \<and> distinct (map attempt_copy log) \<and>
     set (map attempt_copy log) \<inter> set tried = {} \<and>
     list_all (\<lambda>e. serves (at_route e) host \<and> pickable (at_copies e) (at_now e) (at_route e) (at_candidate e)) log \<and>
     list_all (\<lambda>e. at_sent e \<in> {Connect_Failed, Broken}) (butlast log) \<and>
     length (filter (\<lambda>e. at_sent e = Broken) (butlast log)) \<le> broken"

lemma attempts_ok_none: "length tried \<le> 3 \<Longrightarrow> attempts_ok host tried broken []"
  by (simp add: attempts_ok_def)

lemma attempts_ok_last:
  assumes "pick (at_copies e) (at_now e) random tried (at_route e) = Some (at_candidate e)" "draws random"
    "serves (at_route e) host" "length tried \<le> 2"
  shows "attempts_ok host tried broken [e]"
  using pick_Some[OF assms(1,2)] assms(3,4) by (simp add: attempts_ok_def attempt_copy_def)

lemma attempts_ok_again:
  assumes "pick (at_copies e) (at_now e) random tried (at_route e) = Some (at_candidate e)" "draws random"
    "serves (at_route e) host" "attempts_ok host (tried @ [attempt_copy e]) broken' log"
    "at_sent e = Connect_Failed \<and> broken' \<le> broken \<or> at_sent e = Broken \<and> broken' + 1 \<le> broken"
  shows "attempts_ok host tried broken (e # log)"
  using pick_Some[OF assms(1,2)] assms(3-5) by (cases log) (auto simp: attempts_ok_def attempt_copy_def)

definition last_answered :: "'a gate_response \<Rightarrow> 'a attempts \<Rightarrow> bool" where
  "last_answered r log \<longleftrightarrow>
     (case r of
        Status _ \<Rightarrow> True
      | Passed_On x a \<Rightarrow> log \<noteq> [] \<and> at_candidate (last log) = x \<and> at_sent (last log) = Answered a
      | Upgraded x a \<Rightarrow> log \<noteq> [] \<and> at_candidate (last log) = x \<and> at_sent (last log) = Answered a)"

lemma forward_buffered_attempts:
  assumes "forward_buffered w app host retryable tried resent current g = (r, g', log)" "\<forall>i. draws (gw_random w i)"
    "hosts_ok (ga_table g)" "serves current host" "length tried \<le> 2"
  shows "attempts_ok host tried (if retryable \<and> \<not> resent then 1 else 0) log \<and> last_answered r log"
  using assms
proof (induction "3 - length tried" arbitrary: tried resent current g r g' log rule: less_induct)
  case less
  note d = less.prems(2)[rule_format, of "length tried"]
  show ?case
  proof (cases rule: forward_buffered_turn[OF less.prems(1)])
    case 1
    then show ?thesis using less.prems(5) by (simp add: attempts_ok_none last_answered_def)
  next
    case (2 x)
    have "attempts_ok host tried (if retryable \<and> \<not> resent then 1 else 0) log"
      unfolding 2(2) by (rule attempts_ok_last[OF _ d]) (use 2(1) less.prems(4,5) in simp_all)
    moreover have "last_answered r log" using 2 by (simp add: last_answered_def split: sent.split)
    ultimately show ?thesis ..
  next
    case (3 x s resent' g4 log')
    let ?e = "\<lparr>at_route = current, at_copies = ga_copies g, at_now = gw_now w (length tried), at_candidate = x, at_sent = s\<rparr>"
    have "serves (unwrap_or (app_for (ga_table g4) host) current) host"
      using 3(5)[OF less.prems(3)] app_for_serves less.prems(4) by (cases "app_for (ga_table g4) host") simp_all
    then have ih: "attempts_ok host (tried @ [attempt_copy ?e]) (if retryable \<and> \<not> resent' then 1 else 0) log'" "last_answered r log'"
      using less.hyps[OF _ 3(6) less.prems(2) 3(5)[OF less.prems(3)]] 3(4) by (simp_all add: attempt_copy_def)
    have "attempts_ok host tried (if retryable \<and> \<not> resent then 1 else 0) (?e # log')"
      by (rule attempts_ok_again[OF _ d _ ih(1)]) (use 3(1,3) less.prems(4) in auto)
    moreover have "last_answered r (?e # log')" using ih(2) by (auto simp: last_answered_def split: gate_response.splits)
    ultimately show ?thesis using 3(7) by simp
  qed
qed

lemma connect_for_attempts:
  assumes "connect_for w app tried g = (r, g', log)" "\<forall>i. draws (gw_random w i)" "serves app host" "length tried \<le> 2"
  shows "attempts_ok host tried 0 log \<and>
    (\<forall>x. r = Some x \<longrightarrow> log \<noteq> [] \<and> at_candidate (last log) = x \<and> at_sent (last log) = gw_sent w (length tried + length log - 1) x)"
  using assms
proof (induction "3 - length tried" arbitrary: tried g r g' log rule: less_induct)
  case less
  note d = less.prems(2)[rule_format, of "length tried"]
  show ?case
  proof (cases rule: connect_for_turn[OF less.prems(1)])
    case 1
    then show ?thesis using less.prems(4) by (simp add: attempts_ok_none)
  next
    case (2 x)
    have "attempts_ok host tried 0 log"
      unfolding 2(2) by (rule attempts_ok_last[OF _ d]) (use 2(1) less.prems(3,4) in simp_all)
    then show ?thesis using 2(2,3) by simp
  next
    case (3 x g4 log')
    let ?e = "\<lparr>at_route = app, at_copies = ga_copies g, at_now = gw_now w (length tried), at_candidate = x, at_sent = Connect_Failed\<rparr>"
    have ih: "attempts_ok host (tried @ [attempt_copy ?e]) 0 log'"
      "\<forall>x. r = Some x \<longrightarrow> log' \<noteq> [] \<and> at_candidate (last log') = x \<and> at_sent (last log') = gw_sent w (length tried + length log') x"
      using less.hyps[OF _ 3(3) less.prems(2,3)] 3(2) by (simp_all add: attempt_copy_def)
    have "attempts_ok host tried 0 (?e # log')"
      by (rule attempts_ok_again[OF _ d _ ih(1)]) (use 3(1) less.prems(3) in auto)
    then show ?thesis using ih(2) 3(4) by auto
  qed
qed

section \<open>A request\<close>

definition asked_host :: "http_lib \<Rightarrow> request \<Rightarrow> string" where
  "asked_host hl rq = unwrap_or (request_host hl (rq_authority rq) (rq_headers rq)) []"

lemma streaming_attempts:
  assumes "forward_streaming w app g = (r, g', log) \<or> forward_upgrade w app g = (r, g', log)"
    "\<forall>i. draws (gw_random w i)" "serves app host"
  shows "attempts_ok host [] 0 log \<and> last_answered r log"
proof -
  obtain x g1 log1 where c: "connect_for w app [] g = (x, g1, log1)" using prod_cases3 by blast
  note ok = connect_for_attempts[OF c assms(2,3)]
  have "log = log1"
    using assms(1) c by (auto simp: forward_streaming_def forward_upgrade_def split: option.splits sent.splits if_splits)
  moreover have "last_answered r log1"
  proof (cases x)
    case None
    then show ?thesis using assms(1) c by (auto simp: forward_streaming_def forward_upgrade_def last_answered_def)
  next
    case (Some y)
    then have "log1 \<noteq> []" "at_candidate (last log1) = y" "at_sent (last log1) = gw_sent w (length log1 - 1) y"
      using ok by simp_all
    then show ?thesis using assms(1) c Some
      by (auto simp: forward_streaming_def forward_upgrade_def last_answered_def split: sent.splits if_splits)
  qed
  ultimately show ?thesis using ok by simp
qed

text \<open>
  C31: A request stays with its host and is tried a bounded number of times. At a gate in any state it
  can reach, whatever other tasks do meanwhile, the attempts at a request are at most three, on
  different copies, each of which the gate knew as ready when it picked it and which belongs to an app
  that serves the host asked for, also when the routes changed between two attempts. It is tried again
  only after a failure, after one that may have reached the app at most once and only for an idempotent
  method whose body is buffered, and an answer passed on is that of the last copy tried.
\<close>

theorem requests_stay_with_their_host:
  assumes "g = gate_after evs new_gate" "\<forall>i. draws (gw_random w i)" "gate_route hl w client_host rq g = (r, g', log)"
  shows "attempts_ok (asked_host hl rq) [] (if idempotent (rq_method rq) \<and> rq_body rq \<noteq> Large_Body then 1 else 0) log \<and>
    last_answered r log"
proof -
  let ?g = "g\<lparr>ga_requests := u64_add (ga_requests g) 1\<rparr>"
  have none: "attempts_ok (asked_host hl rq) [] n [] \<and> last_answered (Status k) []" for n k
    by (simp add: attempts_ok_none last_answered_def)
  have more: "attempts_ok h t n l \<Longrightarrow> n \<le> m \<Longrightarrow> attempts_ok h t m l" for h t n m and l :: "'a attempts"
    by (auto simp: attempts_ok_def)
  have hosts: "hosts_ok (ga_table g)" unfolding assms(1) by (rule gate_after_hosts[OF new_gate_hosts])
  show ?thesis
  proof (cases "app_for (ga_table g) client_host")
    case None
    then show ?thesis using assms(3) none by (auto simp: gate_route_def Let_def)
  next
    case (Some app)
    show ?thesis
    proof (cases "serves app (asked_host hl rq)")
      case False
      then show ?thesis using assms(3) Some none by (auto simp: gate_route_def asked_host_def Let_def)
    next
      case True
      let ?n = "note_request (ro_app app) (gw_now w 0) ?g"
      consider "forward_streaming w app ?n = (r, g', log) \<or> forward_upgrade w app ?n = (r, g', log)"
        | "forward_buffered w app (asked_host hl rq) (idempotent (rq_method rq)) [] False app ?n = (r, g', log)"
          "rq_body rq \<noteq> Large_Body"
        | "log = []" "r = Status 400"
        using assms(3) Some True
        by (auto simp: gate_route_def asked_host_def[symmetric] Let_def split: request_body.splits option.splits if_splits)
      then show ?thesis
      proof cases
        case 1
        from streaming_attempts[OF this assms(2) True] show ?thesis using more by fastforce
      next
        case 2
        have "hosts_ok (ga_table ?n)" using hosts by simp
        from forward_buffered_attempts[OF 2(1) assms(2) this True] show ?thesis using 2(2) by simp
      next
        case 3
        show ?thesis unfolding 3 by (rule none)
      qed
    qed
  qed
qed

text \<open>
  An accepted stream has a copy here to answer it: whenever the gate accepts an entry stream for a
  host, a request for it at that moment is given to a copy on this machine that is ready, or that
  drains while nothing else is, and the number of ready copies it reports is the true one up to 65535.
\<close>

theorem accepted_stream_has_a_copy:
  assumes "gate_admit host now g = Accept_Entry n" "draws random"
  shows "\<exists>app x. app_for (ga_table g) host = Some app \<and> pick (ga_copies g) now random [] app = Some x \<and>
    x \<in> set (ro_local app) \<and> pickable (ga_copies g) now app x \<and>
    unat n = min (ready_local (ga_copies g) now app) 65535"
proof -
  obtain app where app: "app_for (ga_table g) host = Some app"
    using assms(1) by (auto simp: gate_admit_def split: if_splits option.splits)
  let ?c = "ga_copies g"
  have n: "n = of_nat (min (ready_local ?c now app) 65535)"
    and ok: "\<not> (ready_local ?c now app = 0 \<and> (ready_remote ?c now app \<or> \<not> draining_fallback ?c now app))"
    using assms(1) app by (auto simp: gate_admit_def Let_def split: if_splits)
  have "\<exists>x. pick ?c now random [] app = Some x \<and> x \<in> set (ro_local app)"
  proof (cases "filter (usable ?c now) (ro_local app) = []")
    case False
    from two_choices_mem[OF this assms(2), of ?c] have "two_choices ?c random (filter (usable ?c now) (ro_local app)) \<in> set (ro_local app)"
      by simp
    with False show ?thesis by (simp add: pick_def)
  next
    case True
    then have "filter (usable ?c now) (ro_remote app) = []" "filter (drains ?c now) (ro_local app) \<noteq> []"
      using ok by (auto simp: ready_local_def ready_remote_def draining_fallback_def list_ex_iff filter_empty_conv)
    moreover from two_choices_mem[OF this(2) assms(2), of ?c]
    have "two_choices ?c random (filter (drains ?c now) (ro_local app)) \<in> set (ro_local app)" by simp
    ultimately show ?thesis using True by (simp add: pick_def)
  qed
  then obtain x where x: "pick ?c now random [] app = Some x" "x \<in> set (ro_local app)" by blast
  moreover have "pickable ?c now app x" using pick_Some[OF x(1) assms(2)] by blast
  moreover have "unat n = min (ready_local ?c now app) 65535"
    unfolding n by (simp add: unat_of_nat take_bit_nat_eq_self)
  ultimately show ?thesis using app by blast
qed

section \<open>A gate at work\<close>

definition demo_lib :: http_lib where
  "demo_lib = \<lparr>hl_text = (\<lambda>_. True), hl_value = (\<lambda>_. True), hl_authority = Some, hl_socket_ip = (\<lambda>_. None)\<rparr>"

definition demo_document :: desired_state where
  "demo_document =
     \<lparr>ds_generation = 4,
      ds_replicas =
        [\<lparr>dr_replica_id = ''r1'', dr_app = ''web'',
          dr_ports = [\<lparr>dp_name = ''http'', dp_port = 8080, dp_protocol = ''http'', dp_public = True\<rparr>],
          dr_hostnames = [''Web.example''], dr_draining = False, dr_stopping = False, dr_exclusive = False\<rparr>],
      ds_entry_keys = []\<rparr>"

definition demo_view :: replica_endpoint where
  "demo_view =
     \<lparr>re_replica_id = ''r1'', re_app = ''web'', re_address = Some (V4 [10, 0, 0, 2]), re_ports = [], re_ready = True,
      re_draining = False\<rparr>"

definition demo_gate :: gate where
  "demo_gate = gate_after [Update (Some demo_document) [demo_view] []] new_gate"

definition demo_request :: request where
  "demo_request =
     \<lparr>rq_authority = None, rq_http11 = True, rq_method = ''GET'',
      rq_headers = [(''host'', ''web.Example.''), (''x-forwarded-for'', ''192.0.2.1''), (''connection'', ''close'')],
      rq_body = No_Body\<rparr>"

definition demo_world :: "nat gate_world" where
  "demo_world =
     \<lparr>gw_now = (\<lambda>_. 0), gw_then = (\<lambda>_. 0), gw_random = (\<lambda>_ _ _. 0), gw_others = (\<lambda>_. []),
      gw_sent = (\<lambda>_ _. Answered 200), gw_handshake = True, gw_switches = (\<lambda>_. False)\<rparr>"

lemma demo_draws: "draws (\<lambda>_ _. 0)" "\<forall>i. draws (gw_random demo_world i)"
  by (simp_all add: draws_def demo_world_def)

theorem headers_are_the_gates_witness:
  "hm_all ''x-forwarded-for''
     (prepare_headers demo_lib False ''203.0.113.9:51234'' ''web.example'' ''id'' (rq_headers demo_request)) =
   [''203.0.113.9:51234'']"
proof -
  have "''x-forwarded-for'' \<in> set FORWARDING \<union> set HOP_BY_HOP \<union> set (connection_named demo_lib (rq_headers demo_request))"
    by (simp add: FORWARDING_def)
  from headers_are_the_gates[OF this] show ?thesis by (simp add: forwarded_def demo_lib_def client_ip_def)
qed

lemma demo_answer: "fst (gate_route demo_lib demo_world ''web.example'' demo_request demo_gate) =
    Passed_On (hd (ro_local (the (app_for (ga_table demo_gate) ''web.example'')))) 200"
  by code_simp

theorem requests_stay_with_their_host_witness:
  "attempts_ok (asked_host demo_lib demo_request) [] 1 (snd (snd (gate_route demo_lib demo_world ''web.example'' demo_request demo_gate))) \<and>
   snd (snd (gate_route demo_lib demo_world ''web.example'' demo_request demo_gate)) \<noteq> []"
proof -
  obtain r g' log where r: "gate_route demo_lib demo_world ''web.example'' demo_request demo_gate = (r, g', log)"
    using prod_cases3 by blast
  have "idempotent (rq_method demo_request) \<and> rq_body demo_request \<noteq> Large_Body"
    by (simp add: demo_request_def idempotent_def)
  with requests_stay_with_their_host[OF demo_gate_def demo_draws(2) r] r demo_answer show ?thesis
    by (auto simp: last_answered_def)
qed

lemma demo_accept: "gate_admit ''web.example'' 0 demo_gate = Accept_Entry 1"
  by code_simp

theorem accepted_stream_has_a_copy_witness:
  "\<exists>app x. app_for (ga_table demo_gate) ''web.example'' = Some app \<and>
     pick (ga_copies demo_gate) 0 (\<lambda>_ _. 0) [] app = Some x \<and> x \<in> set (ro_local app)"
  using accepted_stream_has_a_copy[OF demo_accept demo_draws(1)] by blast

end
