(* ===== verification/Agent_Record.thy ===== *)
theory Agent_Record
  imports Net_Bytes Text
begin

text \<open>
  What a registered machine keeps (\<open>grund-agent/src/join.rs\<close>): its identity, the keys it pinned and
  its place in a private network, as they are read from what the instance answers. The crates for
  signatures, digests and hexadecimal text are parameters, the fields of \<open>crypto\<close>.
\<close>

section \<open>The crates\<close>

text \<open>\<open>hex::decode\<close> and \<open>hex::encode\<close>, \<open>Sha256::digest\<close>, and of \<open>ed25519_dalek\<close>
  \<open>VerifyingKey::from_bytes\<close>, \<open>Signature::from_slice\<close> and \<open>verify_strict\<close> of a key, a message and a
  signature.\<close>

record crypto =
  unhex :: "string \<Rightarrow> octet list option"
  hexed :: "octet list \<Rightarrow> string"
  sha256 :: "octet list \<Rightarrow> octet list"
  key_parses :: "octet list \<Rightarrow> bool"
  signature_parses :: "octet list \<Rightarrow> bool"
  verify_strict :: "octet list \<Rightarrow> octet list \<Rightarrow> octet list \<Rightarrow> bool"

text \<open>The bytes of a string of ASCII text, as a byte string literal has them.\<close>

definition byte_literal :: "string \<Rightarrow> octet list" where
  "byte_literal s = map (\<lambda>c. word_of_nat (byte c)) s"

section \<open>The record\<close>

record pinned_key =
  pk_key_id :: string
  pk_public_key :: string
  pk_purpose :: string

record network_record =
  nr_network_id :: string
  nr_key :: pinned_key
  nr_prefix :: string
  nr_slot :: nat
  nr_relay_urls :: "string list"

record machine_record =
  mr_machine_id :: string
  mr_name :: string
  mr_pool :: string
  mr_organisation_id :: string
  mr_instance_url :: string
  mr_instance_key :: pinned_key
  mr_trust_key :: pinned_key
  mr_heartbeat_interval_seconds :: int
  mr_registered_at_unix :: int
  mr_network :: "network_record option"

section \<open>What the instance answers\<close>

text \<open>The messages of \<open>agent.proto\<close>. An enum that holds a number the agent does not know is
  \<open>None\<close>, as \<open>as_known\<close> gives it.\<close>

datatype key_purpose = KP_Unspecified | KP_Instance | KP_Management | KP_Organisation | KP_Network

record public_key =
  pub_key_id :: string
  pub_public_key :: "octet list"
  pub_purpose :: "key_purpose option"

record network_message =
  nm_network_id :: string
  nm_key :: "public_key option"
  nm_prefix :: string
  nm_slot :: nat
  nm_relay_urls :: "string list"

datatype pool = Pool_Unspecified | Pool_Management | Pool_Organisation

record enrolled =
  en_machine_id :: string
  en_machine_name :: string
  en_pool :: "pool option"
  en_organisation_id :: string
  en_instance_key :: "public_key option"
  en_trust_key :: "public_key option"
  en_heartbeat_interval_seconds :: int
  en_network :: "network_message option"

definition purpose_of :: "key_purpose option \<Rightarrow> string + string" where
  "purpose_of p =
     (case p of
        Some KP_Instance \<Rightarrow> Inr ''instance''
      | Some KP_Management \<Rightarrow> Inr ''management''
      | Some KP_Organisation \<Rightarrow> Inr ''organisation''
      | Some KP_Network \<Rightarrow> Inr ''network''
      | _ \<Rightarrow> Inl ''the instance answered a key with no purpose'')"

definition pinned :: "crypto \<Rightarrow> public_key option \<Rightarrow> string + pinned_key" where
  "pinned x key =
     (case key of
        None \<Rightarrow> Inl ''the instance answered without a key to pin''
      | Some k \<Rightarrow>
          if length (pub_public_key k) \<noteq> 32 then Inl ''a pinned key is 32 bytes''
          else and_then (purpose_of (pub_purpose k)) (\<lambda>purpose.
            Inr \<lparr>pk_key_id = pub_key_id k, pk_public_key = hexed x (pub_public_key k),
                 pk_purpose = purpose\<rparr>))"

definition kept_network :: "crypto \<Rightarrow> network_message \<Rightarrow> string + network_record" where
  "kept_network x network =
     and_then (pinned x (nm_key network)) (\<lambda>key.
       if pk_purpose key \<noteq> ''network'' then Inl ''a network is given a network key''
       else if nm_slot network < 1 \<or> 65535 < nm_slot network
       then Inl ''a network slot is between 1 and 65535''
       else Inr \<lparr>nr_network_id = nm_network_id network, nr_key = key, nr_prefix = nm_prefix network,
                 nr_slot = nm_slot network, nr_relay_urls = nm_relay_urls network\<rparr>)"

text \<open>\<open>Option::map(..).transpose()\<close>.\<close>

definition transpose_map :: "('a \<Rightarrow> string + 'b) \<Rightarrow> 'a option \<Rightarrow> string + 'b option" where
  "transpose_map f x =
     (case x of None \<Rightarrow> Inr None | Some a \<Rightarrow> and_then (f a) (\<lambda>b. Inr (Some b)))"

definition pool_of :: "pool option \<Rightarrow> string + string" where
  "pool_of p =
     (case p of
        Some Pool_Management \<Rightarrow> Inr ''management''
      | Some Pool_Organisation \<Rightarrow> Inr ''organisation''
      | _ \<Rightarrow> Inl ''the instance answered no pool'')"

definition record_of :: "crypto \<Rightarrow> int \<Rightarrow> string \<Rightarrow> enrolled \<Rightarrow> string + machine_record" where
  "record_of x unix_now origin response =
     and_then (pool_of (en_pool response)) (\<lambda>pool.
     and_then (pinned x (en_instance_key response)) (\<lambda>instance_key.
     and_then (pinned x (en_trust_key response)) (\<lambda>trust_key.
     and_then (transpose_map (kept_network x) (en_network response)) (\<lambda>network.
       Inr \<lparr>mr_machine_id = en_machine_id response, mr_name = en_machine_name response,
            mr_pool = pool, mr_organisation_id = en_organisation_id response,
            mr_instance_url = origin, mr_instance_key = instance_key, mr_trust_key = trust_key,
            mr_heartbeat_interval_seconds = en_heartbeat_interval_seconds response,
            mr_registered_at_unix = unix_now, mr_network = network\<rparr>))))"

text \<open>\<open>VerifyingKey\<close> of a pinned key: 32 bytes in hexadecimal that are a key.\<close>

definition pinned_bytes :: "crypto \<Rightarrow> pinned_key \<Rightarrow> octet list option" where
  "pinned_bytes x k =
     (case unhex x (pk_public_key k) of
        None \<Rightarrow> None
      | Some bytes \<Rightarrow> if length bytes = 32 \<and> key_parses x bytes then Some bytes else None)"

text \<open>What every check of a signature in the agent does: the bytes are a signature, and it is one of
  the key over the message.\<close>

definition signed_by :: "crypto \<Rightarrow> octet list \<Rightarrow> octet list \<Rightarrow> octet list \<Rightarrow> bool" where
  "signed_by x key message sig \<longleftrightarrow> signature_parses x sig \<and> verify_strict x key message sig"

lemma pinned_ok: "pinned x k = Inr p \<Longrightarrow> pk_purpose p \<in> {''instance'', ''management'', ''organisation'', ''network''}"
  by (auto simp: pinned_def purpose_of_def and_then_Inr split: option.splits key_purpose.splits if_splits)

lemma kept_network_ok:
  "kept_network x n = Inr r \<Longrightarrow> pk_purpose (nr_key r) = ''network'' \<and> 1 \<le> nr_slot r \<and> nr_slot r < 2 ^ 16"
  by (auto simp: kept_network_def and_then_Inr split: if_splits)

lemma transpose_map_Inr:
  "transpose_map f x = Inr y \<longleftrightarrow>
     (x = None \<and> y = None) \<or> (\<exists>a b. x = Some a \<and> f a = Inr b \<and> y = Some b)"
  by (auto simp: transpose_map_def and_then_Inr split: option.splits)

end
