(* ===== verification/Agent_Document.thy ===== *)
theory Agent_Document
  imports Agent_Record Image
begin

text \<open>
  The desired state the agent takes from the instance (\<open>verify\<close>, \<open>check_features\<close>, \<open>consider\<close> and
  \<open>current\<close> of \<open>grund-agent/src/agent.rs\<close>) and what the machine's owner lets it run
  (\<open>grund-agent/src/policy.rs\<close>). The decoder of protocol buffers and the crates for signatures are
  parameters.
\<close>

section \<open>The document\<close>

text \<open>The parts of \<open>agent.proto\<close> the checks read. An unset message field is \<open>None\<close>.\<close>

record image_message =
  im_reference :: string
  im_digest :: string

record env_var =
  ev_name :: string
  ev_value :: string

record secret_ref =
  sr_name :: string
  sr_version :: nat

record secret_env =
  se_env :: string
  se_secret :: string

record volume_mount =
  vm_volume_id :: string
  vm_name :: string
  vm_path :: string
  vm_source :: string
  vm_block_device :: bool
  vm_copy_up :: bool

datatype check_kind = Http_Path string | Tcp_Check bool | Exec_Check "string list"

record replica_check =
  rk_kind :: "check_kind option"
  rk_port :: nat
  rk_interval_ms :: nat
  rk_timeout_ms :: nat
  rk_retries :: nat

datatype restart_mode = Restart_Unspecified | Restart_Always | Restart_On_Failure | Restart_Never

record restart_policy =
  rp_mode :: "restart_mode option"
  rp_max_retries :: nat

record replica_stop =
  rs_signal :: string
  rs_grace_seconds :: nat

record replica_message =
  rm_replica_id :: string
  rm_app :: string
  rm_app_id :: string
  rm_image :: "image_message option"
  rm_command :: "string list"
  rm_env :: "env_var list"
  rm_memory_mib :: nat
  rm_cpu_millis :: nat
  rm_draining :: bool
  rm_secrets :: "secret_ref list"
  rm_check :: "replica_check option"
  rm_stop :: "replica_stop option"
  rm_secret_env :: "secret_env list"
  rm_volumes :: "volume_mount list"
  rm_exclusive :: bool
  rm_stopping :: bool
  rm_drain_seconds :: "nat option"
  rm_operation_id :: string
  rm_stack_search :: string
  rm_entrypoint :: "string list option"
  rm_cmd :: "string list option"
  rm_working_dir :: "string option"
  rm_user :: "string option"
  rm_restart :: "restart_policy option"

record document =
  do_machine_id :: string
  do_organisation_id :: string
  do_generation :: nat
  do_required_features :: "string list"
  do_replicas :: "replica_message list"

record signed_document =
  sgn_key_id :: string
  sgn_payload :: "octet list"
  sgn_signature :: "octet list"

section \<open>Checking a document\<close>

definition KNOWN_FEATURES :: "string list" where
  "KNOWN_FEATURES =
     [''machines'', ''replicas'', ''volumes'', ''block-volumes'', ''stack-services'',
      ''process-overrides'', ''restart-policy'', ''exec-checks'', ''volume-copy-up'']"

definition MAX_DOCUMENT_BYTES :: nat where "MAX_DOCUMENT_BYTES = 1024 * 1024"

datatype refusal =
  TooLarge | BadSignature | Malformed | WrongMachine | Older | UnknownFeature string
| MissingBlockFeature | MissingStackFeature | MissingProcessFeature | MissingRestartFeature
| MissingExecCheckFeature | MissingCopyUpFeature | NoTrustKey | UnknownKey | Same | Equivocation

fun refusal_text :: "refusal \<Rightarrow> string" where
  "refusal_text TooLarge = ''document larger than 1 MiB''"
| "refusal_text BadSignature = ''document signature does not verify''"
| "refusal_text Malformed = ''document does not decode''"
| "refusal_text WrongMachine = ''document is for another machine or organisation''"
| "refusal_text Older = ''document is not newer than the one applied''"
| "refusal_text (UnknownFeature name) = ''document requires unknown feature '' @ name"
| "refusal_text MissingBlockFeature = ''document mounts a block volume without requiring block-volumes''"
| "refusal_text MissingStackFeature = ''document coordinates stack services without requiring stack-services''"
| "refusal_text MissingProcessFeature = ''document overrides a process entrypoint, cmd, working directory or user without requiring process-overrides''"
| "refusal_text MissingRestartFeature = ''document sets a restart policy without requiring restart-policy''"
| "refusal_text MissingExecCheckFeature = ''document sets an exec check or check retries without requiring exec-checks''"
| "refusal_text MissingCopyUpFeature = ''document asks for a volume copy-up without requiring volume-copy-up''"
| "refusal_text NoTrustKey = ''this machine pinned no organisation key''"
| "refusal_text UnknownKey = ''document is signed by a key this machine did not pin''"
| "refusal_text Same = ''document is the one applied''"
| "refusal_text Equivocation = ''EQUIVOCATION: a second, different document for the generation already applied; the instance signed two''"

text \<open>What of a replica needs which feature.\<close>

definition uses_block :: "replica_message \<Rightarrow> bool" where
  "uses_block r \<longleftrightarrow> list_ex vm_block_device (rm_volumes r)"

definition uses_stack :: "replica_message \<Rightarrow> bool" where
  "uses_stack r \<longleftrightarrow>
     rm_exclusive r \<or> rm_stopping r \<or> rm_drain_seconds r \<noteq> None \<or> rm_operation_id r \<noteq> [] \<or>
     rm_stack_search r \<noteq> []"

definition uses_process :: "replica_message \<Rightarrow> bool" where
  "uses_process r \<longleftrightarrow>
     rm_entrypoint r \<noteq> None \<or> rm_cmd r \<noteq> None \<or> rm_working_dir r \<noteq> None \<or> rm_user r \<noteq> None"

definition is_exec :: "check_kind option \<Rightarrow> bool" where
  "is_exec k = (case k of Some (Exec_Check args) \<Rightarrow> True | _ \<Rightarrow> False)"

definition uses_exec_check :: "replica_message \<Rightarrow> bool" where
  "uses_exec_check r \<longleftrightarrow> is_some_and (rm_check r) (\<lambda>c. rk_retries c \<noteq> 0 \<or> is_exec (rk_kind c))"

definition uses_copy_up :: "replica_message \<Rightarrow> bool" where
  "uses_copy_up r \<longleftrightarrow> list_ex vm_copy_up (rm_volumes r)"

definition lacks :: "document \<Rightarrow> (replica_message \<Rightarrow> bool) \<Rightarrow> string \<Rightarrow> bool" where
  "lacks d uses feature \<longleftrightarrow>
     list_ex uses (do_replicas d) \<and> \<not> list_ex (\<lambda>f. f = feature) (do_required_features d)"

definition check_features :: "document \<Rightarrow> refusal + unit" where
  "check_features d =
     (case List.find (\<lambda>f. f \<notin> set KNOWN_FEATURES) (do_required_features d) of
        Some unknown \<Rightarrow> Inl (UnknownFeature unknown)
      | None \<Rightarrow>
          if lacks d uses_block ''block-volumes'' then Inl MissingBlockFeature
          else if lacks d uses_stack ''stack-services'' then Inl MissingStackFeature
          else if lacks d uses_process ''process-overrides'' then Inl MissingProcessFeature
          else if lacks d (\<lambda>r. rm_restart r \<noteq> None) ''restart-policy'' then Inl MissingRestartFeature
          else if lacks d uses_exec_check ''exec-checks'' then Inl MissingExecCheckFeature
          else if lacks d uses_copy_up ''volume-copy-up'' then Inl MissingCopyUpFeature
          else Inr ())"

record applied =
  ap_generation :: nat
  ap_payload :: string

definition applied_default :: applied where
  "applied_default = \<lparr>ap_generation = 0, ap_payload = []\<rparr>"

text \<open>The key a machine trusts for documents: of the purpose of an organisation.\<close>

definition trust_key :: "crypto \<Rightarrow> machine_record \<Rightarrow> octet list option" where
  "trust_key x rec =
     (if pk_purpose (mr_trust_key rec) \<noteq> ''organisation'' then None
      else pinned_bytes x (mr_trust_key rec))"

definition DOCUMENT_PREFIX :: "octet list" where
  "DOCUMENT_PREFIX = byte_literal (''grund-desired-state-v1'' @ [CHR 0x0A])"

definition same_payload :: "crypto \<Rightarrow> applied \<Rightarrow> octet list \<Rightarrow> bool" where
  "same_payload x applied payload =
     (case unhex x (ap_payload applied) of
        None \<Rightarrow> False
      | Some kept \<Rightarrow> sha256 x kept = sha256 x payload)"

definition verify_document ::
  "crypto \<Rightarrow> (octet list \<Rightarrow> document option) \<Rightarrow> machine_record \<Rightarrow> octet list \<Rightarrow> signed_document \<Rightarrow>
   applied \<Rightarrow> refusal + document" where
  "verify_document x decode rec trust s applied =
     (if MAX_DOCUMENT_BYTES < length (sgn_payload s) then Inl TooLarge
      else if sgn_key_id s \<noteq> pk_key_id (mr_trust_key rec) then Inl UnknownKey
      else if \<not> signed_by x trust (DOCUMENT_PREFIX @ sgn_payload s) (sgn_signature s)
      then Inl BadSignature
      else case decode (sgn_payload s) of
        None \<Rightarrow> Inl Malformed
      | Some d \<Rightarrow>
          if do_machine_id d \<noteq> mr_machine_id rec \<or> do_organisation_id d \<noteq> mr_organisation_id rec
          then Inl WrongMachine
          else if do_generation d < ap_generation applied then Inl Older
          else if do_generation d = ap_generation applied \<and> 0 < ap_generation applied
          then Inl (if same_payload x applied (sgn_payload s) then Same else Equivocation)
          else and_then (check_features d) (\<lambda>_. Inr d))"

section \<open>Taking documents\<close>

text \<open>The agent's state: what it applied last, in memory and in \<open>applied.json\<close>, and the document the
  loop of the apps works on. A file that is there and does not parse counts as the default.\<close>

record agent_documents =
  ad_applied :: applied
  ad_kept :: "applied option"
  ad_desired :: "document option"

definition read_applied :: "applied option option \<Rightarrow> applied" where
  "read_applied file = (case file of Some (Some a) \<Rightarrow> a | _ \<Rightarrow> applied_default)"

definition current :: "crypto \<Rightarrow> (octet list \<Rightarrow> document option) \<Rightarrow> applied \<Rightarrow> document option" where
  "current x decode applied =
     (case unhex x (ap_payload applied) of None \<Rightarrow> None | Some payload \<Rightarrow> decode payload)"

definition start_documents ::
  "crypto \<Rightarrow> (octet list \<Rightarrow> document option) \<Rightarrow> applied option option \<Rightarrow> agent_documents" where
  "start_documents x decode file =
     (let applied = read_applied file
      in \<lparr>ad_applied = applied, ad_kept = (case file of None \<Rightarrow> None | Some f \<Rightarrow> f),
          ad_desired = current x decode applied\<rparr>)"

text \<open>\<open>write_applied\<close> renames a file it wrote beside; \<open>writes\<close> is whether that works.\<close>

definition take_document ::
  "crypto \<Rightarrow> (octet list \<Rightarrow> document option) \<Rightarrow> machine_record \<Rightarrow> octet list option \<Rightarrow> bool \<Rightarrow>
   signed_document \<Rightarrow> agent_documents \<Rightarrow> (string + string option) \<times> agent_documents" where
  "take_document x decode rec trust writes s st =
     (case (case trust of None \<Rightarrow> Inl NoTrustKey
                        | Some key \<Rightarrow> verify_document x decode rec key s (ad_applied st)) of
        Inr d \<Rightarrow>
          (let applied = \<lparr>ap_generation = do_generation d, ap_payload = hexed x (sgn_payload s)\<rparr>;
               st = st\<lparr>ad_applied := applied\<rparr>
           in if writes
              then (Inr None, st\<lparr>ad_kept := Some applied, ad_desired := Some d\<rparr>)
              else (Inl ''write the applied desired state'', st))
      | Inl Same \<Rightarrow> (Inr None, st)
      | Inl r \<Rightarrow> (Inr (Some (refusal_text r)), st))"

fun take_documents ::
  "crypto \<Rightarrow> (octet list \<Rightarrow> document option) \<Rightarrow> machine_record \<Rightarrow> octet list option \<Rightarrow>
   (signed_document \<times> bool) list \<Rightarrow> agent_documents \<Rightarrow> agent_documents" where
  "take_documents x decode rec trust [] st = st"
| "take_documents x decode rec trust ((s, writes) # more_documents) st =
     take_documents x decode rec trust more_documents (snd (take_document x decode rec trust writes s st))"

section \<open>The owner's policy\<close>

record policy =
  po_apps :: bool
  po_max_replica_memory_mib :: nat
  po_max_replica_cpu_millis :: nat
  po_volume_roots :: "string list"

definition policy_default :: policy where
  "policy_default =
     \<lparr>po_apps = True, po_max_replica_memory_mib = 0, po_max_replica_cpu_millis = 0, po_volume_roots = []\<rparr>"

definition has_nul :: "string \<Rightarrow> bool" where
  "has_nul s \<longleftrightarrow> CHR 0x00 \<in> set s"

definition bad_variable :: "string \<Rightarrow> bool" where
  "bad_variable name \<longleftrightarrow> name = [] \<or> CHR ''='' \<in> set name \<or> has_nul name"

definition malformed_process :: "replica_message \<Rightarrow> bool" where
  "malformed_process r \<longleftrightarrow>
     list_ex has_nul (rm_command r) \<or>
     list_ex (\<lambda>e. bad_variable (ev_name e) \<or> has_nul (ev_value e)) (rm_env r) \<or>
     list_ex (\<lambda>e. bad_variable (se_env e)) (rm_secret_env r)"

definition unnamed_secret :: "replica_message \<Rightarrow> bool" where
  "unnamed_secret r \<longleftrightarrow>
     list_ex (\<lambda>e. \<not> list_ex (\<lambda>s. sr_name s = se_secret e) (rm_secrets r)) (rm_secret_env r)"

definition owner_off :: string where
  "owner_off = ''this machine'' @ [CHR 0x27] @ ''s owner turned apps off''"

definition policy_refuses :: "policy \<Rightarrow> replica_message \<Rightarrow> string option" where
  "policy_refuses p r =
     (let digest = (case rm_image r of None \<Rightarrow> [] | Some i \<Rightarrow> im_digest i);
          reference = (case rm_image r of None \<Rightarrow> [] | Some i \<Rightarrow> im_reference i)
      in if \<not> po_apps p then Some owner_off
         else if \<not> is_digest digest then Some ''the image is not pinned by sha256 digest''
         else if (case image_parse reference of Inl e \<Rightarrow> True | Inr i \<Rightarrow> False)
         then Some ''the image reference does not parse''
         else if 0 < po_max_replica_memory_mib p \<and> po_max_replica_memory_mib p < rm_memory_mib r
         then Some (''it asks for '' @ show_nat (rm_memory_mib r) @ '' MiB of memory; this machine allows '' @
                    show_nat (po_max_replica_memory_mib p) @ '' MiB per copy'')
         else if 0 < po_max_replica_cpu_millis p \<and> po_max_replica_cpu_millis p < rm_cpu_millis r
         then Some (''it asks for '' @ show_nat (rm_cpu_millis r) @ '' thousandths of a CPU; this machine allows '' @
                    show_nat (po_max_replica_cpu_millis p) @ '' per copy'')
         else if rm_memory_mib r = 0 \<or> rm_cpu_millis r = 0 then Some ''it asks for no memory or no CPU''
         else if malformed_process r then Some ''its command or environment is malformed''
         else if unnamed_secret r then Some ''it hands the app a secret its release does not name''
         else None)"

end
