(* ===== verification/Agent_Document_Props.thy ===== *)
theory Agent_Document_Props
  imports Agent_Document
begin

text \<open>
  What the agent's documents rest on: whatever is offered in whatever order, the document in force is
  vouched for by the pinned key of the organisation and its generation only grows; a document never
  relies on a feature it does not name; and what the owner's policy lets run is pinned and within
  the limits. One path loses a document: a file that cannot be written.
\<close>

section \<open>Accepted documents\<close>

definition vouched ::
  "crypto \<Rightarrow> (octet list \<Rightarrow> document option) \<Rightarrow> machine_record \<Rightarrow> signed_document \<Rightarrow> document \<Rightarrow> bool" where
  "vouched x decode rec s d \<longleftrightarrow>
     is_some_and (trust_key x rec) (\<lambda>key. signed_by x key (DOCUMENT_PREFIX @ sgn_payload s) (sgn_signature s)) \<and>
     sgn_key_id s = pk_key_id (mr_trust_key rec) \<and> length (sgn_payload s) \<le> MAX_DOCUMENT_BYTES \<and>
     decode (sgn_payload s) = Some d \<and> do_machine_id d = mr_machine_id rec \<and>
     do_organisation_id d = mr_organisation_id rec \<and> check_features d = Inr ()"

lemma verify_document_Inr:
  assumes "verify_document x decode rec key s applied = Inr d" "trust_key x rec = Some key"
  shows "vouched x decode rec s d"
    and "ap_generation applied \<le> do_generation d"
    and "ap_generation applied = do_generation d \<Longrightarrow> do_generation d = 0"
  using assms by (auto simp: verify_document_def vouched_def and_then_Inr split: if_splits option.splits)

lemma take_document_cases:
  obtains (taken) d key where "trust_key x rec = Some key"
      "verify_document x decode rec key s (ad_applied st) = Inr d"
      "ad_applied (snd (take_document x decode rec (trust_key x rec) writes s st)) =
        \<lparr>ap_generation = do_generation d, ap_payload = hexed x (sgn_payload s)\<rparr>"
      "ad_desired (snd (take_document x decode rec (trust_key x rec) writes s st)) =
        (if writes then Some d else ad_desired st)"
      "ad_kept (snd (take_document x decode rec (trust_key x rec) writes s st)) =
        (if writes then Some \<lparr>ap_generation = do_generation d, ap_payload = hexed x (sgn_payload s)\<rparr>
         else ad_kept st)"
  | (left) "snd (take_document x decode rec (trust_key x rec) writes s st) = st"
proof (cases "trust_key x rec")
  case None
  then show ?thesis using left by (simp add: take_document_def)
next
  case (Some key)
  show ?thesis
  proof (cases "verify_document x decode rec key s (ad_applied st)")
    case (Inl r)
    then show ?thesis using left Some by (cases r) (simp_all add: take_document_def)
  next
    case (Inr d)
    show ?thesis by (rule taken[OF Some Inr]) (simp_all add: take_document_def Some Inr Let_def)
  qed
qed

lemma take_document_forward:
  assumes "st' = snd (take_document x decode rec (trust_key x rec) writes s st)"
  shows "ap_generation (ad_applied st) \<le> ap_generation (ad_applied st')"
    and "ad_desired st' = ad_desired st \<or>
      (\<exists>d. ad_desired st' = Some d \<and> vouched x decode rec s d \<and> ap_generation (ad_applied st) \<le> do_generation d)"
  unfolding assms
  by (cases rule: take_document_cases[of x rec decode s st writes];
      use verify_document_Inr in \<open>fastforce split: if_splits\<close>)+

text \<open>Documents are checked for what they rely on before they are taken.\<close>

lemma lacks_iff: "lacks d uses f \<longleftrightarrow> (\<exists>r\<in>set (do_replicas d). uses r) \<and> f \<notin> set (do_required_features d)"
  by (auto simp: lacks_def list_ex_iff)

lemma features_declared:
  assumes "check_features d = Inr ()" "r \<in> set (do_replicas d)"
  shows "set (do_required_features d) \<subseteq> set KNOWN_FEATURES"
    and "uses_block r \<Longrightarrow> ''block-volumes'' \<in> set (do_required_features d)"
    and "uses_stack r \<Longrightarrow> ''stack-services'' \<in> set (do_required_features d)"
    and "uses_process r \<Longrightarrow> ''process-overrides'' \<in> set (do_required_features d)"
    and "rm_restart r \<noteq> None \<Longrightarrow> ''restart-policy'' \<in> set (do_required_features d)"
    and "uses_exec_check r \<Longrightarrow> ''exec-checks'' \<in> set (do_required_features d)"
    and "uses_copy_up r \<Longrightarrow> ''volume-copy-up'' \<in> set (do_required_features d)"
  using assms
  by (auto simp: check_features_def lacks_iff find_None_iff split: option.splits if_splits)

section \<open>What runs and what is reported\<close>

text \<open>The document in force is the one reported as applied, and the one kept for the next start.\<close>

definition in_step :: "crypto \<Rightarrow> (octet list \<Rightarrow> document option) \<Rightarrow> agent_documents \<Rightarrow> bool" where
  "in_step x decode st \<longleftrightarrow>
     ad_desired st = current x decode (ad_applied st) \<and>
     ad_applied st = unwrap_or (ad_kept st) applied_default"

lemma take_document_in_step:
  assumes "\<And>bytes. unhex x (hexed x bytes) = Some bytes" "in_step x decode st"
  shows "in_step x decode (snd (take_document x decode rec (trust_key x rec) True s st))"
proof (cases rule: take_document_cases[of x rec decode s st True])
  case (taken d key)
  then show ?thesis
    using verify_document_Inr(1)[OF taken(2,1)] assms(1) by (simp add: in_step_def current_def vouched_def)
next
  case left
  then show ?thesis using assms(2) by simp
qed

lemma take_documents_in_step:
  assumes "\<And>bytes. unhex x (hexed x bytes) = Some bytes"
  shows "list_all snd ds \<Longrightarrow> in_step x decode st \<Longrightarrow>
    in_step x decode (take_documents x decode rec (trust_key x rec) ds st)"
proof (induction ds arbitrary: st)
  case (Cons a ds)
  then show ?case using take_document_in_step[OF assms] by (cases a) auto
qed simp

text \<open>Where \<open>applied.json\<close> cannot be written, the memory is already ahead: the generation is the new one,
  the loop of the apps keeps the old document, and the same document offered again is dropped as
  the one applied, with nothing to report.\<close>

lemma unwritten_document_is_lost:
  assumes "unhex x (hexed x (sgn_payload s)) = Some (sgn_payload s)" "trust_key x rec = Some key"
    and "verify_document x decode rec key s (ad_applied st) = Inr d" "0 < do_generation d"
    and "st' = snd (take_document x decode rec (trust_key x rec) False s st)"
  shows "ap_generation (ad_applied st') = do_generation d" "ad_desired st' = ad_desired st"
    and "take_document x decode rec (trust_key x rec) writes s st' = (Inr None, st')"
proof -
  have st': "st' = st\<lparr>ad_applied := \<lparr>ap_generation = do_generation d, ap_payload = hexed x (sgn_payload s)\<rparr>\<rparr>"
    using assms by (simp add: take_document_def Let_def)
  then show "ap_generation (ad_applied st') = do_generation d" "ad_desired st' = ad_desired st" by simp_all
  have "verify_document x decode rec key s (ad_applied st') = Inl Same"
    using assms(1,3,4) verify_document_Inr(1)[OF assms(3,2)] assms(2)
    by (auto simp: verify_document_def same_payload_def st' vouched_def)
  then show "take_document x decode rec (trust_key x rec) writes s st' = (Inr None, st')"
    by (simp add: take_document_def assms(2))
qed

section \<open>The owner's policy\<close>

lemma policy_lets_run:
  assumes "policy_refuses p r = None"
  shows "po_apps p"
    and "\<exists>i ref. rm_image r = Some i \<and> is_digest (im_digest i) \<and> image_parse (im_reference i) = Inr ref"
    and "0 < rm_memory_mib r" "po_max_replica_memory_mib p = 0 \<or> rm_memory_mib r \<le> po_max_replica_memory_mib p"
    and "0 < rm_cpu_millis r" "po_max_replica_cpu_millis p = 0 \<or> rm_cpu_millis r \<le> po_max_replica_cpu_millis p"
    and "\<not> malformed_process r"
    and "\<And>e. e \<in> set (rm_secret_env r) \<Longrightarrow> \<exists>s\<in>set (rm_secrets r). sr_name s = se_secret e"
proof -
  have no_digest: "\<not> is_digest []" by code_simp
  note d = assms[unfolded policy_refuses_def Let_def]
  show "po_apps p"
    "0 < rm_memory_mib r" "po_max_replica_memory_mib p = 0 \<or> rm_memory_mib r \<le> po_max_replica_memory_mib p"
    "0 < rm_cpu_millis r" "po_max_replica_cpu_millis p = 0 \<or> rm_cpu_millis r \<le> po_max_replica_cpu_millis p"
    "\<not> malformed_process r"
    using d by (auto simp: not_less split: if_splits)
  show "\<exists>i ref. rm_image r = Some i \<and> is_digest (im_digest i) \<and> image_parse (im_reference i) = Inr ref"
    using d no_digest by (cases "rm_image r") (auto split: if_splits sum.splits)
  show "\<exists>s\<in>set (rm_secrets r). sr_name s = se_secret e" if "e \<in> set (rm_secret_env r)" for e
    using d that by (auto simp: unnamed_secret_def list_ex_iff split: if_splits)
qed

section \<open>Properties\<close>

text \<open>C33: Whatever documents the instance or anyone offers, and whether or not the files can be written,
  the generation applied never falls, and the document in force is the one there was or one that is
  offered under the pinned key of the organisation: for this machine and organisation, signed,
  within the size, requiring only features the agent knows, and not older than what was applied.\<close>

theorem documents_move_forward:
  "ap_generation (ad_applied st) \<le>
     ap_generation (ad_applied (take_documents x decode rec (trust_key x rec) ds st)) \<and>
   (ad_desired (take_documents x decode rec (trust_key x rec) ds st) = ad_desired st \<or>
    (\<exists>s \<in> set (map fst ds). \<exists>d.
       ad_desired (take_documents x decode rec (trust_key x rec) ds st) = Some d \<and>
       vouched x decode rec s d \<and> ap_generation (ad_applied st) \<le> do_generation d))"
proof (induction ds arbitrary: st)
  case Nil
  then show ?case by simp
next
  case (Cons a ds)
  obtain s writes where a: "a = (s, writes)" by (cases a)
  let ?st = "snd (take_document x decode rec (trust_key x rec) writes s st)"
  note step = take_document_forward[of ?st x decode rec writes s st, OF refl]
  let ?e = "take_documents x decode rec (trust_key x rec) ds ?st"
  have e: "take_documents x decode rec (trust_key x rec) (a # ds) st = ?e" by (simp add: a)
  have "\<exists>s' \<in> set (map fst (a # ds)). \<exists>d. ad_desired ?e = Some d \<and> vouched x decode rec s' d \<and>
      ap_generation (ad_applied st) \<le> do_generation d" if "ad_desired ?e \<noteq> ad_desired st"
  proof (cases "ad_desired ?e = ad_desired ?st")
    case True
    then show ?thesis using that step(2) by (auto simp: a)
  next
    case False
    then show ?thesis using Cons.IH[of ?st] step(1) order_trans by fastforce
  qed
  then show ?case unfolding e using Cons.IH[of ?st] step(1) by (auto intro: order_trans)
qed

end
