(* ===== verification/Crash.thy ===== *)
theory Crash
  imports Prelude
begin

text \<open>
  Programs that keep what they do on disk and may be stopped at any point. A program works on a
  disk and asks the outside: every file operation, clock reading, call and command takes the next
  answer of a list, and where the answers are used up the process has died there, leaving the disk
  as it was. A run with fewer answers is the run cut short, so what holds of the disk after every
  run holds after every crash. \<open>wp m Q C d\<close> states that the program \<open>m\<close>, started on the disk \<open>d\<close>,
  leaves \<open>Q\<close> of what it returns and the disk where it returns, and \<open>C\<close> of the disk where it fails or
  dies, whatever the answers.
\<close>

section \<open>Programs\<close>

datatype ('d, 'e, 'a) outcome =
  Died 'd
| Failed string 'd "'e list"
| Done 'a 'd "'e list"

type_synonym ('d, 'e, 'a) act = "'d \<Rightarrow> 'e list \<Rightarrow> ('d, 'e, 'a) outcome"

fun left_on_disk :: "('d, 'e, 'a) outcome \<Rightarrow> 'd" where
  "left_on_disk (Died d) = d"
| "left_on_disk (Failed why d es) = d"
| "left_on_disk (Done a d es) = d"

definition ret :: "'a \<Rightarrow> ('d, 'e, 'a) act" where
  "ret a d es = Done a d es"

definition bail :: "string \<Rightarrow> ('d, 'e, 'a) act" where
  "bail why d es = Failed why d es"

definition ensure :: "bool \<Rightarrow> string \<Rightarrow> ('d, 'e, unit) act" where
  "ensure b why = (if b then ret () else bail why)"

text \<open>The operator \<open>?\<close>: an error ends the program.\<close>

definition andthen :: "('d, 'e, 'a) act \<Rightarrow> ('a \<Rightarrow> ('d, 'e, 'b) act) \<Rightarrow> ('d, 'e, 'b) act" where
  "andthen m k d es =
     (case m d es of
        Died d' \<Rightarrow> Died d'
      | Failed why d' es' \<Rightarrow> Failed why d' es'
      | Done a d' es' \<Rightarrow> k a d' es')"

text \<open>The error taken as a value, as \<open>.ok()\<close>, \<open>is_err\<close> and \<open>let _ =\<close> take it.\<close>

definition attempt :: "('d, 'e, 'a) act \<Rightarrow> ('d, 'e, string + 'a) act" where
  "attempt m d es =
     (case m d es of
        Died d' \<Rightarrow> Died d'
      | Failed why d' es' \<Rightarrow> Done (Inl why) d' es'
      | Done a d' es' \<Rightarrow> Done (Inr a) d' es')"

text \<open>The next answer, where it is one of the kind asked for; a list that answers something else is
  no run of the program and ends it.\<close>

definition ask :: "('e \<Rightarrow> 'a option) \<Rightarrow> ('d, 'e, 'a) act" where
  "ask kind d es =
     (case es of
        [] \<Rightarrow> Died d
      | e # es' \<Rightarrow> (case kind e of None \<Rightarrow> Died d | Some a \<Rightarrow> Done a d es'))"

definition look :: "('d \<Rightarrow> 'a) \<Rightarrow> ('d, 'e, 'a) act" where
  "look f d es = Done (f d) d es"

definition change :: "('d \<Rightarrow> 'd) \<Rightarrow> ('d, 'e, unit) act" where
  "change f d es = Done () (f d) es"

definition from_sum :: "string + 'a \<Rightarrow> ('d, 'e, 'a) act" where
  "from_sum r = (case r of Inl why \<Rightarrow> bail why | Inr a \<Rightarrow> ret a)"

section \<open>What a program keeps\<close>

fun leaves :: "('a \<Rightarrow> 'd \<Rightarrow> bool) \<Rightarrow> ('d \<Rightarrow> bool) \<Rightarrow> ('d, 'e, 'a) outcome \<Rightarrow> bool" where
  "leaves Q C (Died d) = C d"
| "leaves Q C (Failed why d es) = C d"
| "leaves Q C (Done a d es) = Q a d"

definition wp :: "('d, 'e, 'a) act \<Rightarrow> ('a \<Rightarrow> 'd \<Rightarrow> bool) \<Rightarrow> ('d \<Rightarrow> bool) \<Rightarrow> 'd \<Rightarrow> bool" where
  "wp m Q C d \<longleftrightarrow> (\<forall>es. leaves Q C (m d es))"

lemma leaves_mono:
  "leaves Q C r \<Longrightarrow> (\<And>a d. Q a d \<Longrightarrow> Q' a d) \<Longrightarrow> (\<And>d. C d \<Longrightarrow> C' d) \<Longrightarrow> leaves Q' C' r"
  by (cases r) simp_all

lemma wp_conseq:
  assumes "wp m Q C d" "\<And>a d. Q a d \<Longrightarrow> Q' a d" "\<And>d. C d \<Longrightarrow> C' d"
  shows "wp m Q' C' d"
  unfolding wp_def
proof
  fix es
  have "leaves Q C (m d es)" using assms(1) by (simp add: wp_def)
  then show "leaves Q' C' (m d es)" by (rule leaves_mono) (rule assms(2,3), assumption)+
qed

lemma wp_post: "wp m Q C d \<Longrightarrow> (\<And>a d. Q a d \<Longrightarrow> Q' a d) \<Longrightarrow> wp m Q' C d"
  by (erule wp_conseq) simp_all

lemma wp_ret [intro!]: "Q a d \<Longrightarrow> wp (ret a) Q C d"
  by (simp add: wp_def ret_def)

lemma wp_bail [intro!]: "C d \<Longrightarrow> wp (bail why) Q C d"
  by (simp add: wp_def bail_def)

lemma wp_ensure [intro!]: "C d \<Longrightarrow> (b \<Longrightarrow> Q () d) \<Longrightarrow> wp (ensure b why) Q C d"
  by (auto simp: ensure_def)

lemma wp_andthen [intro!]:
  assumes "wp m (\<lambda>a. wp (k a) Q C) C d"
  shows "wp (andthen m k) Q C d"
  unfolding wp_def
proof
  fix es
  have r: "leaves (\<lambda>a. wp (k a) Q C) C (m d es)" using assms by (simp add: wp_def)
  show "leaves Q C (andthen m k d es)"
    by (cases "m d es") (use r in \<open>simp_all add: andthen_def wp_def\<close>)
qed

lemma wp_attempt [intro!]:
  assumes "wp m (\<lambda>a. Q (Inr a)) (\<lambda>d. C d \<and> (\<forall>why. Q (Inl why) d)) d"
  shows "wp (attempt m) Q C d"
  unfolding wp_def
proof
  fix es
  have r: "leaves (\<lambda>a. Q (Inr a)) (\<lambda>d. C d \<and> (\<forall>why. Q (Inl why) d)) (m d es)"
    using assms by (simp add: wp_def)
  show "leaves Q C (attempt m d es)"
    by (cases "m d es") (use r in \<open>simp_all add: attempt_def\<close>)
qed

lemma wp_ask [intro!]: "C d \<Longrightarrow> (\<And>e a. kind e = Some a \<Longrightarrow> Q a d) \<Longrightarrow> wp (ask kind) Q C d"
  by (auto simp: wp_def ask_def split: list.split option.split)

lemma wp_look [intro!]: "Q (f d) d \<Longrightarrow> wp (look f) Q C d"
  by (simp add: wp_def look_def)

lemma wp_change [intro!]: "Q () (f d) \<Longrightarrow> wp (change f) Q C d"
  by (simp add: wp_def change_def)

lemma wp_from_sum [intro!]: "C d \<Longrightarrow> (\<And>a. r = Inr a \<Longrightarrow> Q a d) \<Longrightarrow> wp (from_sum r) Q C d"
  by (auto simp: from_sum_def split: sum.split)

lemma wp_left: "wp m (\<lambda>a. C) C d \<Longrightarrow> C (left_on_disk (m d es))"
proof -
  assume "wp m (\<lambda>a. C) C d"
  then have "leaves (\<lambda>a. C) C (m d es)" by (simp add: wp_def)
  then show ?thesis by (cases "m d es") simp_all
qed


section \<open>What a program can do\<close>

text \<open>\<open>works m d a e\<close>: with the right answers the program returns \<open>a\<close> and leaves \<open>e\<close>.\<close>

definition works :: "('d, 'e, 'a) act \<Rightarrow> 'd \<Rightarrow> 'a \<Rightarrow> 'd \<Rightarrow> bool" where
  "works m d a e \<longleftrightarrow> (\<exists>es. \<forall>rest. m d (es @ rest) = Done a e rest)"

lemma worksI: "(\<And>rest. m d (es @ rest) = Done a e rest) \<Longrightarrow> works m d a e"
  by (auto simp: works_def)

lemma works_left: "works m d a e \<Longrightarrow> \<exists>es. left_on_disk (m d es) = e"
proof -
  assume "works m d a e"
  then obtain es where "\<And>rest. m d (es @ rest) = Done a e rest" by (auto simp: works_def)
  from this[of "[]"] show ?thesis by (intro exI[of _ es]) simp
qed

lemma works_ret: "works (ret a) d a d"
  by (rule worksI[of _ _ "[]"]) (simp add: ret_def)

lemma works_ensure: "b \<Longrightarrow> works (ensure b why) d () d"
  by (simp add: ensure_def works_ret)

lemma works_ask: "kind e = Some a \<Longrightarrow> works (ask kind) d a d"
  by (rule worksI[of _ _ "[e]"]) (simp add: ask_def)

lemma works_look: "works (look f) d (f d) d"
  by (rule worksI[of _ _ "[]"]) (simp add: look_def)

lemma works_change: "works (change f) d () (f d)"
  by (rule worksI[of _ _ "[]"]) (simp add: change_def)

lemma works_andthen:
  assumes "works m d a e" "works (k a) e b f"
  shows "works (andthen m k) d b f"
proof -
  obtain es fs where es: "\<And>rest. m d (es @ rest) = Done a e rest"
    and fs: "\<And>rest. k a e (fs @ rest) = Done b f rest"
    using assms by (auto simp: works_def)
  show ?thesis by (rule worksI[of _ _ "es @ fs"]) (simp add: andthen_def es fs)
qed

lemma works_attempt:
  assumes "works m d a e"
  shows "works (attempt m) d (Inr a) e"
proof -
  obtain es where "\<And>rest. m d (es @ rest) = Done a e rest" using assms by (auto simp: works_def)
  then show ?thesis by (intro worksI[of _ _ es]) (simp add: attempt_def)
qed

end
