(* ===== verification/Agent_Lease.thy ===== *)
theory Agent_Lease
  imports Agent_Record Crash
begin

text \<open>
  The lease of a management machine (\<open>grund-agent/src/lease.rs\<close>): a grant signed by the management
  key makes the machine one of the lessee's organisation until another answer of the instance. The
  kept lease is a file, and so are what the agent applied and the secrets it cached; starting takes
  the instance's answer, and is a program of \<open>Crash\<close>.
\<close>

section \<open>Grants\<close>

record lease =
  le_lease_id :: string
  le_organisation_id :: string
  le_organisation_key :: pinned_key
  le_network :: "network_record option"

record lease_grant =
  lg_lease_id :: string
  lg_machine_id :: string
  lg_organisation_id :: string
  lg_organisation_key :: "public_key option"
  lg_network :: "network_message option"

record signed_grant =
  sg_key_id :: string
  sg_payload :: "octet list"
  sg_signature :: "octet list"

definition applied_to :: "lease \<Rightarrow> machine_record \<Rightarrow> machine_record" where
  "applied_to l registered =
     registered\<lparr>mr_organisation_id := le_organisation_id l, mr_trust_key := le_organisation_key l,
                mr_network := le_network l\<rparr>"

definition GRANT_PREFIX :: "octet list" where
  "GRANT_PREFIX = byte_literal (''grund-lease-grant-v1'' @ [CHR 0x0A])"

definition granted_lease :: "crypto \<Rightarrow> machine_record \<Rightarrow> lease_grant \<Rightarrow> string + lease" where
  "granted_lease x registered payload =
     (if lg_machine_id payload \<noteq> mr_machine_id registered then Inl ''the grant is for another machine''
      else and_then (pinned x (lg_organisation_key payload)) (\<lambda>key.
        if pk_purpose key \<noteq> ''organisation'' then Inl (''a lessee'' @ [CHR 0x27] @ ''s key is an organisation key'')
        else if lg_lease_id payload = [] \<or> lg_organisation_id payload = []
        then Inl ''the grant names no lease or organisation''
        else and_then (transpose_map (kept_network x) (lg_network payload)) (\<lambda>network.
          Inr \<lparr>le_lease_id = lg_lease_id payload, le_organisation_id = lg_organisation_id payload,
               le_organisation_key = key, le_network = network\<rparr>)))"

text \<open>\<open>decode\<close> is the decoder of a \<open>LeaseGrant\<close>.\<close>

definition verify_grant ::
  "crypto \<Rightarrow> (octet list \<Rightarrow> lease_grant option) \<Rightarrow> machine_record \<Rightarrow> signed_grant \<Rightarrow> string + lease" where
  "verify_grant x decode registered grant =
     (let pin = mr_trust_key registered
      in if mr_pool registered \<noteq> ''management'' \<or> pk_purpose pin \<noteq> ''management''
         then Inl ''only a machine of the management pool is leased''
         else if sg_key_id grant \<noteq> pk_key_id pin
         then Inl ''the grant is signed by a key this machine did not pin''
         else case pinned_bytes x pin of
           None \<Rightarrow> Inl ''the pinned management key is not 32 bytes''
         | Some key \<Rightarrow>
             if \<not> signed_by x key (GRANT_PREFIX @ sg_payload grant) (sg_signature grant)
             then Inl (''the grant'' @ [CHR 0x27] @ ''s signature does not verify'')
             else (case decode (sg_payload grant) of
                     None \<Rightarrow> Inl ''the grant does not decode''
                   | Some payload \<Rightarrow> granted_lease x registered payload))"

section \<open>The files\<close>

text \<open>\<open>lease.json\<close>, and \<open>applied.json\<close> and the cache of secrets, of which only the lease under which
  each was written matters here: \<open>Some l\<close> is a file written under the lease of the id \<open>l\<close>, or under
  none for \<open>Some None\<close>.\<close>

record lease_files =
  lf_lease :: "lease option"
  lf_applied :: "string option option"
  lf_secrets :: "string option option"

text \<open>The answers: whether a file operation worked, and the instance's answer to \<open>GetLease\<close>, or none
  where it could not be asked.\<close>

datatype lease_answer = Worked bool | Asked "signed_grant option option"

fun worked_answer where "worked_answer (Worked b) = Some b" | "worked_answer _ = None"
fun asked_answer where "asked_answer (Asked r) = Some r" | "asked_answer _ = None"

type_synonym 'a lease_act = "(lease_files, lease_answer, 'a) act"

definition file_works :: "unit lease_act" where
  "file_works = andthen (ask worked_answer) (\<lambda>ok. ensure ok ''file operation'')"

definition remove_file :: "(lease_files \<Rightarrow> lease_files) \<Rightarrow> unit lease_act" where
  "remove_file clear = andthen file_works (\<lambda>_. change clear)"

text \<open>\<open>replace_file\<close>: written beside, renamed, the directory synced.\<close>

definition replace_file :: "(lease_files \<Rightarrow> lease_files) \<Rightarrow> unit lease_act" where
  "replace_file put = andthen file_works (\<lambda>_. andthen (change put) (\<lambda>_. file_works))"

section \<open>Keeping a lease\<close>

definition keep_lease :: "lease option \<Rightarrow> lease option \<Rightarrow> unit lease_act" where
  "keep_lease kept l =
     (if kept = l then ret ()
      else andthen (if map_option le_lease_id kept \<noteq> map_option le_lease_id l
                    then andthen (remove_file (lf_applied_update (\<lambda>_. None))) (\<lambda>_.
                           remove_file (lf_secrets_update (\<lambda>_. None)))
                    else ret ()) (\<lambda>_.
        case l of
          Some new \<Rightarrow> replace_file (lf_lease_update (\<lambda>_. Some new))
        | None \<Rightarrow> remove_file (lf_lease_update (\<lambda>_. None))))"

definition fetch_lease ::
  "crypto \<Rightarrow> (octet list \<Rightarrow> lease_grant option) \<Rightarrow> machine_record \<Rightarrow> lease option lease_act" where
  "fetch_lease x decode registered =
     andthen (ask asked_answer) (\<lambda>r.
       case r of
         None \<Rightarrow> bail ''the instance cannot be asked''
       | Some grant \<Rightarrow> from_sum (transpose_map (verify_grant x decode registered) grant))"

definition at_start ::
  "crypto \<Rightarrow> (octet list \<Rightarrow> lease_grant option) \<Rightarrow> machine_record \<Rightarrow> lease option lease_act" where
  "at_start x decode registered =
     andthen file_works (\<lambda>_.
     andthen (look lf_lease) (\<lambda>kept.
     andthen (attempt (fetch_lease x decode registered)) (\<lambda>r.
       case r of
         Inr l \<Rightarrow> andthen (keep_lease kept l) (\<lambda>_. ret l)
       | Inl why \<Rightarrow> ret kept)))"

text \<open>\<open>changed\<close> ends the process at the first answer, of those it gets, that is another lease.\<close>

fun lease_changed :: "lease option \<Rightarrow> (string + lease option) list \<Rightarrow> bool" where
  "lease_changed current [] = False"
| "lease_changed current (r # rs) =
     (case r of
        Inr l \<Rightarrow> l \<noteq> current \<or> lease_changed current rs
      | Inl why \<Rightarrow> lease_changed current rs)"

section \<open>The life of the machine\<close>

text \<open>The agent of a machine of the management pool: not running, or running under a lease or under
  none. While it runs it writes what it applies and the secrets it caches.\<close>

record leased_machine =
  lm_files :: lease_files
  lm_running :: "lease option option"

definition start_machine ::
  "crypto \<Rightarrow> (octet list \<Rightarrow> lease_grant option) \<Rightarrow> machine_record \<Rightarrow> lease_answer list \<Rightarrow>
   leased_machine \<Rightarrow> leased_machine" where
  "start_machine x decode registered answers m =
     (case at_start x decode registered (lm_files m) answers of
        Done l files rest \<Rightarrow> \<lparr>lm_files = files, lm_running = Some l\<rparr>
      | Failed why files rest \<Rightarrow> \<lparr>lm_files = files, lm_running = None\<rparr>
      | Died files \<Rightarrow> \<lparr>lm_files = files, lm_running = None\<rparr>)"

inductive leased ::
  "crypto \<Rightarrow> (octet list \<Rightarrow> lease_grant option) \<Rightarrow> machine_record \<Rightarrow> leased_machine \<Rightarrow> bool"
  for x decode registered where
  joined: "leased x decode registered
     \<lparr>lm_files = \<lparr>lf_lease = None, lf_applied = None, lf_secrets = None\<rparr>, lm_running = None\<rparr>"
| started: "leased x decode registered m \<Longrightarrow>
     leased x decode registered (start_machine x decode registered answers m)"
| stopped: "leased x decode registered m \<Longrightarrow> leased x decode registered (m\<lparr>lm_running := None\<rparr>)"
| applied: "leased x decode registered m \<Longrightarrow> lm_running m = Some l \<Longrightarrow>
     leased x decode registered
       (m\<lparr>lm_files := (lm_files m)\<lparr>lf_applied := Some (map_option le_lease_id l)\<rparr>\<rparr>)"
| cached: "leased x decode registered m \<Longrightarrow> lm_running m = Some l \<Longrightarrow>
     leased x decode registered
       (m\<lparr>lm_files := (lm_files m)\<lparr>lf_secrets := Some (map_option le_lease_id l)\<rparr>\<rparr>)"

section \<open>What a lease rests on\<close>

definition grant_proves ::
  "crypto \<Rightarrow> (octet list \<Rightarrow> lease_grant option) \<Rightarrow> machine_record \<Rightarrow> signed_grant \<Rightarrow> lease \<Rightarrow> bool" where
  "grant_proves x decode registered grant l \<longleftrightarrow>
     mr_pool registered = ''management'' \<and> pk_purpose (mr_trust_key registered) = ''management'' \<and>
     is_some_and (pinned_bytes x (mr_trust_key registered)) (\<lambda>key.
       signed_by x key (GRANT_PREFIX @ sg_payload grant) (sg_signature grant)) \<and>
     is_some_and (decode (sg_payload grant)) (\<lambda>payload.
       lg_machine_id payload = mr_machine_id registered \<and> lg_lease_id payload = le_lease_id l \<and>
       lg_organisation_id payload = le_organisation_id l) \<and>
     pk_purpose (le_organisation_key l) = ''organisation''"

lemma verify_grant_proves:
  assumes "verify_grant x decode registered grant = Inr l"
  shows "grant_proves x decode registered grant l"
  using assms
  by (auto simp: verify_grant_def granted_lease_def grant_proves_def Let_def and_then_Inr
      split: if_splits option.splits)

definition lease_proved ::
  "crypto \<Rightarrow> (octet list \<Rightarrow> lease_grant option) \<Rightarrow> machine_record \<Rightarrow> lease option \<Rightarrow> bool" where
  "lease_proved x decode registered l \<longleftrightarrow>
     (\<forall>k. l = Some k \<longrightarrow> (\<exists>grant. grant_proves x decode registered grant k))"

text \<open>What is on disk is of the kept lease.\<close>

definition files_ok ::
  "crypto \<Rightarrow> (octet list \<Rightarrow> lease_grant option) \<Rightarrow> machine_record \<Rightarrow> lease_files \<Rightarrow> bool" where
  "files_ok x decode registered f \<longleftrightarrow>
     lease_proved x decode registered (lf_lease f) \<and>
     is_none_or (lf_applied f) (\<lambda>t. t = map_option le_lease_id (lf_lease f)) \<and>
     is_none_or (lf_secrets f) (\<lambda>t. t = map_option le_lease_id (lf_lease f))"

lemma wp_file_works [intro!]: "C d \<Longrightarrow> Q () d \<Longrightarrow> wp file_works Q C d"
  unfolding file_works_def by auto

lemma wp_remove_file [intro!]: "C d \<Longrightarrow> Q () (clear d) \<Longrightarrow> wp (remove_file clear) Q C d"
  unfolding remove_file_def by auto

lemma wp_replace_file [intro!]: "C d \<Longrightarrow> C (put d) \<Longrightarrow> Q () (put d) \<Longrightarrow> wp (replace_file put) Q C d"
  unfolding replace_file_def by auto

lemma wp_keep_lease:
  assumes "files_ok x decode registered f" "lf_lease f = kept" "lease_proved x decode registered l"
  shows "wp (keep_lease kept l) (\<lambda>a f'. files_ok x decode registered f' \<and> lf_lease f' = l)
    (files_ok x decode registered) f"
  unfolding keep_lease_def
  using assms by (auto simp: files_ok_def is_none_or_iff lease_proved_def split: option.split)

lemma wp_fetch_lease:
  assumes "C f" "\<And>l. lease_proved x decode registered l \<Longrightarrow> Q l f"
  shows "wp (fetch_lease x decode registered) Q C f"
proof -
  have proved: "lease_proved x decode registered l"
    if "transpose_map (verify_grant x decode registered) grant = Inr l" for grant l
    using that by (auto simp: transpose_map_Inr lease_proved_def dest!: verify_grant_proves)
  show ?thesis
    unfolding fetch_lease_def using assms(1) by (auto intro!: assms(2) proved split: option.split)
qed

lemma wp_at_start:
  assumes "files_ok x decode registered f"
  shows "wp (at_start x decode registered) (\<lambda>l f'. files_ok x decode registered f' \<and> lf_lease f' = l)
    (files_ok x decode registered) f"
proof -
  have kept: "wp (case r of Inr l \<Rightarrow> andthen (keep_lease (lf_lease f) l) (\<lambda>_. ret l) | Inl why \<Rightarrow> ret (lf_lease f))
      (\<lambda>l f'. files_ok x decode registered f' \<and> lf_lease f' = l) (files_ok x decode registered) f"
    if "\<And>l. r = Inr l \<Longrightarrow> lease_proved x decode registered l" for r
  proof (cases r)
    case (Inl why)
    then show ?thesis using assms by auto
  next
    case (Inr l)
    show ?thesis
      unfolding Inr sum.case by (intro wp_andthen wp_post[OF wp_keep_lease[OF assms refl that[OF Inr]]] wp_ret)
  qed
  show ?thesis
    unfolding at_start_def
    by (intro wp_andthen wp_file_works wp_look wp_attempt wp_fetch_lease kept conjI allI) (use assms in simp_all)
qed

end
