(* ===== verification/Agent_Lease_Props.thy ===== *)
theory Agent_Lease_Props
  imports Agent_Lease
begin

text \<open>
  A leased machine serves one lessee at a time: what one lease left is gone before another begins,
  through every crash, and a machine runs under a lease only on a grant of the management key.
\<close>

lemma left_of_at_start:
  assumes "files_ok x decode registered f"
  shows "leaves (\<lambda>l f'. files_ok x decode registered f' \<and> lf_lease f' = l) (files_ok x decode registered)
    (at_start x decode registered f answers)"
  using wp_at_start[OF assms] by (simp add: wp_def)

lemma leased_ok:
  assumes "leased x decode registered m"
  shows "files_ok x decode registered (lm_files m) \<and>
    is_none_or (lm_running m) (\<lambda>l. l = lf_lease (lm_files m))"
  using assms
proof induction
  case joined
  then show ?case by (simp add: files_ok_def lease_proved_def)
next
  case (started m answers)
  then have "files_ok x decode registered (lm_files m)" by simp
  from left_of_at_start[OF this, of answers] show ?case
    by (cases "at_start x decode registered (lm_files m) answers") (simp_all add: start_machine_def)
next
  case (stopped m)
  then show ?case by simp
next
  case (applied m l)
  then show ?case by (simp add: files_ok_def)
next
  case (cached m l)
  then show ?case by (simp add: files_ok_def)
qed

lemma files_written:
  assumes "files_ok x decode registered f"
  shows "lf_applied f \<in> {None, Some (map_option le_lease_id (lf_lease f))}"
    and "lf_secrets f \<in> {None, Some (map_option le_lease_id (lf_lease f))}"
  using assms by (cases "lf_applied f"; cases "lf_secrets f"; simp add: files_ok_def)+

section \<open>Properties\<close>

text \<open>C34: A machine of the management pool that runs under a lease has a grant for it: for this machine,
  naming the lease and its organisation, signed by the management key that was pinned. And what it
  keeps of applied documents and of secrets was written under the lease it runs under, or under none
  where it runs under none: nothing of a former lessee is left, whatever crashed between.\<close>

theorem nothing_of_a_former_lessee:
  assumes "leased x decode registered m" "lm_running m = Some l"
  shows "(case l of
      None \<Rightarrow> lf_applied (lm_files m) \<in> {None, Some None} \<and> lf_secrets (lm_files m) \<in> {None, Some None}
    | Some k \<Rightarrow>
        (\<exists>(grant :: signed_grant) payload key. pinned_bytes x (mr_trust_key registered) = Some key \<and>
           pk_purpose (mr_trust_key registered) = ''management'' \<and>
           verify_strict x key (GRANT_PREFIX @ sg_payload grant) (sg_signature grant) \<and>
           decode (sg_payload grant) = Some payload \<and> lg_machine_id payload = mr_machine_id registered \<and>
           lg_lease_id payload = le_lease_id k \<and> lg_organisation_id payload = le_organisation_id k) \<and>
        lf_applied (lm_files m) \<in> {None, Some (Some (le_lease_id k))} \<and>
        lf_secrets (lm_files m) \<in> {None, Some (Some (le_lease_id k))})"
proof -
  have ok: "files_ok x decode registered (lm_files m)" "lf_lease (lm_files m) = l"
    using leased_ok[OF assms(1)] assms(2) by simp_all
  show ?thesis
  proof (cases l)
    case None
    then show ?thesis using files_written[OF ok(1)] ok(2) by simp
  next
    case (Some k)
    then obtain grant where g: "grant_proves x decode registered grant k"
      using ok by (auto simp: files_ok_def lease_proved_def)
    have "\<exists>(grant :: signed_grant) payload key. pinned_bytes x (mr_trust_key registered) = Some key \<and>
           pk_purpose (mr_trust_key registered) = ''management'' \<and>
           verify_strict x key (GRANT_PREFIX @ sg_payload grant) (sg_signature grant) \<and>
           decode (sg_payload grant) = Some payload \<and> lg_machine_id payload = mr_machine_id registered \<and>
           lg_lease_id payload = le_lease_id k \<and> lg_organisation_id payload = le_organisation_id k"
      using g by (intro exI[of _ grant]) (auto simp: grant_proves_def signed_by_def is_some_and_iff)
    moreover have "lf_applied (lm_files m) \<in> {None, Some (Some (le_lease_id k))}"
      "lf_secrets (lm_files m) \<in> {None, Some (Some (le_lease_id k))}"
      using files_written[OF ok(1)] ok(2) Some by simp_all
    ultimately show ?thesis by (simp add: Some)
  qed
qed

text \<open>A machine is leased, applies a document, is leased to another, and crashes once on the way.\<close>

definition lease_crypto :: crypto where
  "lease_crypto =
     \<lparr>unhex = (\<lambda>s. Some (replicate 32 0)), hexed = (\<lambda>b. ''00''), sha256 = (\<lambda>b. b),
      key_parses = (\<lambda>b. True), signature_parses = (\<lambda>b. True), verify_strict = (\<lambda>key message sig. True)\<rparr>"

definition managed_record :: machine_record where
  "managed_record =
     \<lparr>mr_machine_id = ''m'', mr_name = ''m'', mr_pool = ''management'', mr_organisation_id = '''',
      mr_instance_url = ''https://h'',
      mr_instance_key = \<lparr>pk_key_id = ''i'', pk_public_key = ''00'', pk_purpose = ''instance''\<rparr>,
      mr_trust_key = \<lparr>pk_key_id = ''mk'', pk_public_key = ''00'', pk_purpose = ''management''\<rparr>,
      mr_heartbeat_interval_seconds = 5, mr_registered_at_unix = 0, mr_network = None\<rparr>"

definition lease_decode :: "octet list \<Rightarrow> lease_grant option" where
  "lease_decode payload =
     Some \<lparr>lg_lease_id = (if payload = [1] then ''l1'' else ''l2''), lg_machine_id = ''m'',
       lg_organisation_id = ''o'',
       lg_organisation_key = Some \<lparr>pub_key_id = ''k'', pub_public_key = replicate 32 9,
         pub_purpose = Some KP_Organisation\<rparr>, lg_network = None\<rparr>"

definition lease_answer_of :: "octet \<Rightarrow> lease_answer" where
  "lease_answer_of b = Asked (Some (Some \<lparr>sg_key_id = ''mk'', sg_payload = [b], sg_signature = []\<rparr>))"

definition leased_once :: leased_machine where
  "leased_once =
     (let m = start_machine lease_crypto lease_decode managed_record
                [Worked True, lease_answer_of 1, Worked True, Worked True, Worked True, Worked True]
                \<lparr>lm_files = \<lparr>lf_lease = None, lf_applied = None, lf_secrets = None\<rparr>, lm_running = None\<rparr>
      in m\<lparr>lm_files := (lm_files m)\<lparr>lf_applied := Some (Some ''l1'')\<rparr>\<rparr>)"

definition leased_again :: leased_machine where
  "leased_again =
     start_machine lease_crypto lease_decode managed_record
       [Worked True, lease_answer_of 2, Worked True, Worked True, Worked True, Worked True]
       (start_machine lease_crypto lease_decode managed_record [Worked True, lease_answer_of 2, Worked True]
          leased_once)"

lemma leased_once_leased: "leased lease_crypto lease_decode managed_record leased_once"
proof -
  let ?m = "start_machine lease_crypto lease_decode managed_record
    [Worked True, lease_answer_of 1, Worked True, Worked True, Worked True, Worked True]
    \<lparr>lm_files = \<lparr>lf_lease = None, lf_applied = None, lf_secrets = None\<rparr>, lm_running = None\<rparr>"
  have r: "map_option (map_option le_lease_id) (lm_running ?m) = Some (Some ''l1'')" by code_simp
  then obtain l where l: "lm_running ?m = Some l" "map_option le_lease_id l = Some ''l1''" by auto
  show ?thesis
    using leased.applied[OF leased.started[OF leased.joined] l(1)] by (simp add: leased_once_def Let_def l(2))
qed

theorem nothing_of_a_former_lessee_witness:
  "\<exists>k. lm_running leased_again = Some (Some k) \<and> le_lease_id k = ''l2'' \<and>
     lf_applied (lm_files leased_again) \<in> {None, Some (Some (le_lease_id k))}"
proof -
  have "leased lease_crypto lease_decode managed_record leased_again"
    unfolding leased_again_def by (intro leased.started leased_once_leased)
  moreover have "map_option (map_option le_lease_id) (lm_running leased_again) = Some (Some ''l2'')"
    by code_simp
  then obtain k where "lm_running leased_again = Some (Some k)" "le_lease_id k = ''l2''" by auto
  ultimately show ?thesis using nothing_of_a_former_lessee by fastforce
qed

end
