(* ===== verification/Agent_Volume.thy ===== *)
theory Agent_Volume
  imports Agent_Document
begin

text \<open>
  Which directories a container gets (\<open>prepare\<close>, \<open>overlaps\<close> and \<open>valid_id\<close> of
  \<open>grund-agent/src/volume.rs\<close>), over paths as the standard library takes them apart. What touches the
  file system (making a managed directory, mounting a block device, opening a host directory) is a
  parameter.
\<close>

section \<open>Paths\<close>

text \<open>\<open>std::path::Component\<close>, and \<open>Path::components\<close> of a path of Unix: repeated and trailing
  separators and the dots within a path are dropped. Paths are equal where their components are.\<close>

datatype component = RootDir | CurDir | ParentDir | Normal string

definition part_component :: "string \<Rightarrow> component" where
  "part_component p = (if p = ''..'' then ParentDir else Normal p)"

definition normal_parts :: "string list \<Rightarrow> component list" where
  "normal_parts ps = map part_component (filter (\<lambda>p. p \<noteq> [] \<and> p \<noteq> ''.'') ps)"

definition components :: "string \<Rightarrow> component list" where
  "components s =
     (if starts_with ''/'' s then RootDir # normal_parts (split CHR ''/'' s)
      else let ps = split CHR ''/'' s
           in (if hd ps = ''.'' then [CurDir] else []) @ normal_parts ps)"

definition is_absolute :: "string \<Rightarrow> bool" where
  "is_absolute s \<longleftrightarrow> starts_with ''/'' s"

definition path_starts_with :: "string \<Rightarrow> string \<Rightarrow> bool" where
  "path_starts_with a b \<longleftrightarrow> take (length (components b)) (components a) = components b"

definition overlaps :: "string \<Rightarrow> string \<Rightarrow> bool" where
  "overlaps a b \<longleftrightarrow> path_starts_with a b \<or> path_starts_with b a"

fun plain_component :: "component \<Rightarrow> bool" where
  "plain_component RootDir = True"
| "plain_component (Normal s) = True"
| "plain_component _ = False"

definition plain_absolute :: "string \<Rightarrow> bool" where
  "plain_absolute s \<longleftrightarrow> is_absolute s \<and> list_all plain_component (components s)"

section \<open>Volumes\<close>

record volume_bind =
  vb_volume_id :: string
  vb_app_id :: string
  vb_name :: string
  vb_path :: string
  vb_source :: string
  vb_managed :: bool
  vb_block_device :: bool
  vb_copy_up :: bool

text \<open>The text of a UUID in lowercase.\<close>

definition valid_id :: "string \<Rightarrow> bool" where
  "valid_id i \<longleftrightarrow>
     length i = 36 \<and>
     list_all (\<lambda>(n, b). if n \<in> {8, 13, 18, 23} then b = CHR ''-'' else hex_digit b) (enumerate 0 i)"

record volume_io =
  vi_provision :: "string \<Rightarrow> string \<Rightarrow> string + string"
  vi_block_source :: "string \<Rightarrow> string \<Rightarrow> string \<Rightarrow> string + string"
  vi_host_directory :: "string \<Rightarrow> string + unit"

definition SYSTEM_MOUNTS :: "string list" where
  "SYSTEM_MOUNTS = [''/proc'', ''/dev'', ''/sys'', ''/etc/resolv.conf'']"

definition must :: "bool \<Rightarrow> string \<Rightarrow> (unit \<Rightarrow> string + 'a) \<Rightarrow> string + 'a" where
  "must b why k = (if b then k () else Inl why)"

definition host_source :: "volume_io \<Rightarrow> string \<Rightarrow> string list \<Rightarrow> volume_mount \<Rightarrow> string + string" where
  "host_source io data_dir roots m =
     (let source = vm_source m
      in must (plain_absolute source) (''volume '' @ vm_name m @ '' has an unsafe host path'') (\<lambda>_.
         must (list_ex (\<lambda>root. path_starts_with source root \<and> components source \<noteq> components root) roots)
           (''volume '' @ vm_name m @ '' host path is not within an allowlisted root'') (\<lambda>_.
         must (\<not> overlaps source data_dir)
           (''volume '' @ vm_name m @ '' host path overlaps the storage of the agent'') (\<lambda>_.
         and_then (vi_host_directory io source) (\<lambda>_. Inr source)))))"

definition mount_source :: "volume_io \<Rightarrow> string \<Rightarrow> string list \<Rightarrow> string \<Rightarrow> volume_mount \<Rightarrow> string + string" where
  "mount_source io data_dir roots app m =
     (if vm_block_device m
      then must (vm_source m = []) ''block volume cannot name a host path'' (\<lambda>_.
             vi_block_source io app (vm_name m) (vm_volume_id m))
      else if vm_source m = [] then vi_provision io app (vm_volume_id m)
      else host_source io data_dir roots m)"

definition prepare_mount ::
  "volume_io \<Rightarrow> string \<Rightarrow> string list \<Rightarrow> string \<Rightarrow> volume_bind list \<Rightarrow> volume_mount \<Rightarrow> string + volume_bind" where
  "prepare_mount io data_dir roots app binds m =
     must (app \<noteq> [] \<and> valid_id (vm_volume_id m)) ''invalid volume or app ID'' (\<lambda>_.
     must (plain_absolute (vm_path m) \<and> components (vm_path m) \<noteq> components ''/'')
       (''volume '' @ vm_name m @ '' has an unsafe container path'') (\<lambda>_.
     must (\<not> list_ex (path_starts_with (vm_path m)) SYSTEM_MOUNTS)
       (''volume '' @ vm_name m @ '' overlaps a container system mount'') (\<lambda>_.
     must (\<not> list_ex (\<lambda>v. overlaps (vb_path v) (vm_path m)) binds)
       ''overlapping writable container volume paths'' (\<lambda>_.
     and_then (mount_source io data_dir roots app m) (\<lambda>source.
     must (\<not> list_ex (\<lambda>v. overlaps (vb_source v) source) binds)
       ''overlapping writable host directories'' (\<lambda>_.
       let managed = vm_source m = [] \<and> \<not> vm_block_device m
       in must (\<not> vm_copy_up m \<or> managed)
            (''volume '' @ vm_name m @ '' asks for a copy-up but is not a grund-managed directory'') (\<lambda>_.
            Inr \<lparr>vb_volume_id = vm_volume_id m, vb_app_id = app, vb_name = vm_name m, vb_path = vm_path m,
                 vb_source = source, vb_managed = managed, vb_block_device = vm_block_device m,
                 vb_copy_up = vm_copy_up m\<rparr>)))))))"

fun prepare_from ::
  "volume_io \<Rightarrow> string \<Rightarrow> string list \<Rightarrow> string \<Rightarrow> volume_bind list \<Rightarrow> volume_mount list \<Rightarrow>
   string + volume_bind list" where
  "prepare_from io data_dir roots app binds [] = Inr binds"
| "prepare_from io data_dir roots app binds (m # ms) =
     and_then (prepare_mount io data_dir roots app binds m) (\<lambda>b.
       prepare_from io data_dir roots app (binds @ [b]) ms)"

definition prepare_volumes ::
  "volume_io \<Rightarrow> string \<Rightarrow> string list \<Rightarrow> string \<Rightarrow> volume_mount list \<Rightarrow> string + volume_bind list" where
  "prepare_volumes io data_dir roots app mounts = prepare_from io data_dir roots app [] mounts"

section \<open>What is bound\<close>

lemma must_Inr: "must b why k = Inr a \<longleftrightarrow> b \<and> k () = Inr a"
  by (simp add: must_def)

lemma overlaps_sym: "overlaps a b = overlaps b a"
  by (auto simp: overlaps_def)

text \<open>What a bind rests on: it is that of its mount, and a host path lies within a root of the owner and
  away from the agent's own files.\<close>

definition bind_ok :: "string \<Rightarrow> string list \<Rightarrow> string \<Rightarrow> volume_mount \<Rightarrow> volume_bind \<Rightarrow> bool" where
  "bind_ok data_dir roots app m b \<longleftrightarrow>
     vb_volume_id b = vm_volume_id m \<and> vb_app_id b = app \<and> vb_path b = vm_path m \<and>
     plain_absolute (vm_path m) \<and> \<not> list_ex (path_starts_with (vm_path m)) SYSTEM_MOUNTS \<and>
     (vm_copy_up m \<longrightarrow> vm_source m = [] \<and> \<not> vm_block_device m) \<and>
     (vm_source m \<noteq> [] \<longrightarrow>
        vb_source b = vm_source m \<and> plain_absolute (vm_source m) \<and> \<not> overlaps (vm_source m) data_dir \<and>
        list_ex (\<lambda>root. path_starts_with (vm_source m) root \<and> components (vm_source m) \<noteq> components root) roots)"

lemma prepare_mount_ok:
  assumes "prepare_mount io data_dir roots app binds m = Inr b"
  shows "bind_ok data_dir roots app m b"
    and "\<forall>v\<in>set binds. \<not> overlaps (vb_path v) (vb_path b) \<and> \<not> overlaps (vb_source v) (vb_source b)"
proof -
  obtain source where s: "mount_source io data_dir roots app m = Inr source"
    and b: "vb_volume_id b = vm_volume_id m" "vb_app_id b = app" "vb_path b = vm_path m" "vb_source b = source"
    and c: "plain_absolute (vm_path m)" "\<not> list_ex (path_starts_with (vm_path m)) SYSTEM_MOUNTS"
      "\<not> list_ex (\<lambda>v. overlaps (vb_path v) (vm_path m)) binds"
      "\<not> list_ex (\<lambda>v. overlaps (vb_source v) source) binds"
      "vm_copy_up m \<longrightarrow> vm_source m = [] \<and> \<not> vm_block_device m"
    using assms by (auto simp: prepare_mount_def must_Inr and_then_Inr Let_def)
  have "vm_source m \<noteq> [] \<Longrightarrow> source = vm_source m \<and> plain_absolute (vm_source m) \<and>
      \<not> overlaps (vm_source m) data_dir \<and>
      list_ex (\<lambda>root. path_starts_with (vm_source m) root \<and> components (vm_source m) \<noteq> components root) roots"
    using s by (auto simp: mount_source_def host_source_def must_Inr and_then_Inr Let_def split: if_splits)
  then show "bind_ok data_dir roots app m b" using b c by (simp add: bind_ok_def)
  show "\<forall>v\<in>set binds. \<not> overlaps (vb_path v) (vb_path b) \<and> \<not> overlaps (vb_source v) (vb_source b)"
    using b c by (auto simp: list_ex_iff)
qed

text \<open>No two directories lie within one another, in the container or on the host.\<close>

definition apart :: "volume_bind list \<Rightarrow> bool" where
  "apart binds \<longleftrightarrow>
     sorted_wrt (\<lambda>v b. \<not> overlaps (vb_path v) (vb_path b) \<and> \<not> overlaps (vb_source v) (vb_source b)) binds"

lemma prepare_from_ok:
  assumes "prepare_from io data_dir roots app binds mounts = Inr result" "apart binds"
  shows "apart result \<and>
    (\<exists>added. result = binds @ added \<and> list_all2 (bind_ok data_dir roots app) mounts added)"
  using assms
proof (induction mounts arbitrary: binds)
  case Nil
  then show ?case by simp
next
  case (Cons m ms)
  then obtain b where b: "prepare_mount io data_dir roots app binds m = Inr b"
      "prepare_from io data_dir roots app (binds @ [b]) ms = Inr result"
    by (auto simp: and_then_Inr)
  have "apart (binds @ [b])"
    using Cons.prems(2) prepare_mount_ok(2)[OF b(1)] by (auto simp: apart_def sorted_wrt_append)
  from Cons.IH[OF b(2) this] prepare_mount_ok(1)[OF b(1)] show ?case by auto
qed

lemma prepare_volumes_ok:
  assumes "prepare_volumes io data_dir roots app mounts = Inr binds"
  shows "apart binds" "list_all2 (bind_ok data_dir roots app) mounts binds"
  using prepare_from_ok[OF assms[unfolded prepare_volumes_def]] by (auto simp: apart_def)

end
