(* ===== verification/Agent_Apps.thy ===== *)
theory Agent_Apps
  imports Agent_Volume "HOL-Library.AList"
begin

text \<open>
  The loop of the apps (\<open>grund-agent/src/apps.rs\<close>): a pass looks at what the document wants and what
  the runtime has, decides for every replica what to do, and reports it. The clock, the container
  runtime, the file system and the instance are answers of the outside; giving a replica its address
  and forwarding it, telemetry and the erasing of volumes are left out.
\<close>

section \<open>Back-off, checks and restarts\<close>

definition FAILURES_BEFORE_UNREADY :: nat where "FAILURES_BEFORE_UNREADY = 3"
definition BACKOFF_RESET :: duration where "BACKOFF_RESET = seconds 600"
definition BACKOFF_CAP :: duration where "BACKOFF_CAP = seconds 300"
definition RETRY_FAILED :: duration where "RETRY_FAILED = seconds 10"

definition backoff :: "nat \<Rightarrow> duration" where
  "backoff exits =
     (if exits \<le> 1 then 0 else min (seconds (10 * 2 ^ min (exits - 2) 16)) BACKOFF_CAP)"

definition failures_before_unready :: "replica_message \<Rightarrow> nat" where
  "failures_before_unready r =
     (case rm_check r of
        Some c \<Rightarrow> if 0 < rk_retries c then rk_retries c else FAILURES_BEFORE_UNREADY
      | None \<Rightarrow> FAILURES_BEFORE_UNREADY)"

definition keeps_exited :: "replica_message \<Rightarrow> int \<Rightarrow> nat \<Rightarrow> bool" where
  "keeps_exited r code restarts =
     (case rm_restart r of
        None \<Rightarrow> False
      | Some p \<Rightarrow>
          (case rp_mode p of
             Some Restart_Never \<Rightarrow> True
           | Some Restart_On_Failure \<Rightarrow>
               code = 0 \<or> (0 < rp_max_retries p \<and> rp_max_retries p \<le> restarts)
           | _ \<Rightarrow> False))"

datatype probe = Probe_Http nat string | Probe_Tcp nat | Probe_Exec "string list"

definition millis :: "nat \<Rightarrow> duration" where
  "millis n = int n * 1000000"

text \<open>The port of a check is a \<open>u16\<close> above zero.\<close>

definition probe_port :: "nat \<Rightarrow> nat option" where
  "probe_port n = (if 0 < n \<and> n \<le> 65535 then Some n else None)"

definition probe_of :: "replica_message \<Rightarrow> (probe \<times> duration \<times> duration) option" where
  "probe_of r =
     (case rm_check r of
        None \<Rightarrow> None
      | Some c \<Rightarrow>
          map_option (\<lambda>p. (p, millis (max (rk_interval_ms c) 500), millis (min (max (rk_timeout_ms c) 100) 30000)))
            (case rk_kind c of
               Some (Http_Path path) \<Rightarrow> map_option (\<lambda>port. Probe_Http port path) (probe_port (rk_port c))
             | Some (Tcp_Check b) \<Rightarrow> map_option Probe_Tcp (probe_port (rk_port c))
             | Some (Exec_Check args) \<Rightarrow> if args \<noteq> [] then Some (Probe_Exec args) else None
             | None \<Rightarrow> None))"

section \<open>What makes a container this container\<close>

fun le_bytes :: "nat \<Rightarrow> nat \<Rightarrow> octet list" where
  "le_bytes 0 n = []"
| "le_bytes (Suc k) n = word_of_nat (n mod 256) # le_bytes k (n div 256)"

definition hash_part :: "string \<Rightarrow> octet list \<Rightarrow> octet list" where
  "hash_part label_text value = byte_literal label_text @ le_bytes 8 (length value) @ value"

definition text_part :: "string \<Rightarrow> string \<Rightarrow> octet list" where
  "text_part label_text s = hash_part label_text (byte_literal s)"

definition argv_parts :: "string \<Rightarrow> string list option \<Rightarrow> octet list" where
  "argv_parts label_text args =
     (case args of
        None \<Rightarrow> []
      | Some a \<Rightarrow> hash_part label_text (le_bytes 8 (length a)) @ concat (map (text_part (label_text @ ''-arg'')) a))"

definition optional_part :: "string \<Rightarrow> string option \<Rightarrow> octet list" where
  "optional_part label_text s = (case s of None \<Rightarrow> [] | Some t \<Rightarrow> text_part label_text t)"

definition volume_parts :: "volume_mount \<Rightarrow> octet list" where
  "volume_parts v =
     text_part ''volume-id'' (vm_volume_id v) @ text_part ''volume-name'' (vm_name v) @
     text_part ''volume-path'' (vm_path v) @ text_part ''volume-source'' (vm_source v) @
     (if vm_block_device v then hash_part ''volume-block-device'' [1] else [])"

definition spec_bytes :: "replica_message \<Rightarrow> octet list" where
  "spec_bytes r =
     text_part ''digest'' (case rm_image r of None \<Rightarrow> [] | Some i \<Rightarrow> im_digest i) @
     concat (map (text_part ''arg'') (rm_command r)) @
     concat (map (\<lambda>e. text_part ''env'' (ev_name e) @ text_part ''value'' (ev_value e)) (rm_env r)) @
     concat (map (\<lambda>s. text_part ''secret'' (sr_name s) @ hash_part ''version'' (le_bytes 4 (sr_version s)))
       (rm_secrets r)) @
     concat (map (\<lambda>e. text_part ''secret-env'' (se_env e) @ text_part ''secret-of'' (se_secret e))
       (rm_secret_env r)) @
     hash_part ''memory'' (le_bytes 8 (rm_memory_mib r)) @ hash_part ''cpu'' (le_bytes 4 (rm_cpu_millis r)) @
     text_part ''signal'' (case rm_stop r of None \<Rightarrow> [] | Some s \<Rightarrow> rs_signal s) @
     hash_part ''grace'' (le_bytes 4 (case rm_stop r of None \<Rightarrow> 30 | Some s \<Rightarrow> rs_grace_seconds s)) @
     concat (map volume_parts (rm_volumes r)) @
     argv_parts ''entrypoint'' (rm_entrypoint r) @ argv_parts ''cmd'' (rm_cmd r) @
     optional_part ''working-dir'' (rm_working_dir r) @ optional_part ''user'' (rm_user r)"

definition spec_hash :: "crypto \<Rightarrow> replica_message \<Rightarrow> string" where
  "spec_hash x r = hexed x (sha256 x (spec_bytes r))"

text \<open>The resolver is an address in its text.\<close>

definition container_hash :: "crypto \<Rightarrow> replica_message \<Rightarrow> string option \<Rightarrow> string" where
  "container_hash x r resolver =
     (case resolver of
        None \<Rightarrow> spec_hash x r
      | Some a \<Rightarrow>
          hexed x (sha256 x (byte_literal (spec_hash x r) @
            byte_literal ([CHR 0x0A] @ ''network-v1 '') @ byte_literal a @
            (if rm_stack_search r \<noteq> [] then byte_literal ([CHR 0x0A] @ ''search '' @ rm_stack_search r)
             else []))))"

text \<open>Why no container can be made of a replica: what \<open>spec\<close> refuses, given the names of the secrets
  whose values are here.\<close>

definition stack_search_ok :: "string \<Rightarrow> bool" where
  "stack_search_ok s \<longleftrightarrow>
     s = [] \<or> (case strip_suffix ''.grund.internal'' s of
                 None \<Rightarrow> False
               | Some name \<Rightarrow> (case app_name_parse name of Inl e \<Rightarrow> False | Inr n \<Rightarrow> True))"

definition spec_refuses :: "replica_message \<Rightarrow> string list \<Rightarrow> string option" where
  "spec_refuses r here =
     (if \<not> stack_search_ok (rm_stack_search r) then Some ''invalid stack DNS search suffix''
      else case rm_image r of
        None \<Rightarrow> Some ''no image''
      | Some i \<Rightarrow>
          (case image_parse (im_reference i) of
             Inl e \<Rightarrow> Some ''the image reference does not parse''
           | Inr ref \<Rightarrow>
               (case List.find (\<lambda>e. se_secret e \<notin> set here) (rm_secret_env r) of
                  Some e \<Rightarrow> Some (''the value of secret '' @ se_secret e @ '' is not here'')
                | None \<Rightarrow>
                    if rm_command r \<noteq> [] \<and> (rm_entrypoint r \<noteq> None \<or> rm_cmd r \<noteq> None)
                    then Some ''it sets command together with entrypoint or cmd''
                    else if (case rm_working_dir r of None \<Rightarrow> False | Some d \<Rightarrow> \<not> starts_with ''/'' d)
                    then Some ''its working directory is not absolute''
                    else None)))"

section \<open>What the loop keeps\<close>

record readiness =
  rd_ready :: bool
  rd_since :: "time option"
  rd_failures :: nat
  rd_last_probe :: "time option"
  rd_reason :: string

definition readiness_default :: readiness where
  "readiness_default =
     \<lparr>rd_ready = False, rd_since = None, rd_failures = 0, rd_last_probe = None, rd_reason = []\<rparr>"

record tracked =
  tr_restarts :: nat
  tr_exits_since_reset :: nat
  tr_start_failures :: nat
  tr_draining_since :: "time option"
  tr_recreate_at :: "time option"
  tr_start_failure :: string
  tr_started :: "time option"
  tr_restart_at :: "time option"
  tr_last_exit_code :: int
  tr_failed :: "(string \<times> time) option"
  tr_readiness :: readiness
  tr_stays_exited :: bool

definition tracked_default :: tracked where
  "tracked_default =
     \<lparr>tr_restarts = 0, tr_exits_since_reset = 0, tr_start_failures = 0, tr_draining_since = None,
      tr_recreate_at = None, tr_start_failure = [], tr_started = None, tr_restart_at = None,
      tr_last_exit_code = 0, tr_failed = None, tr_readiness = readiness_default, tr_stays_exited = False\<rparr>"

datatype task_state = Task_Unknown | Task_Created | Task_Running | Task_Exited int

record container_status =
  ct_id :: string
  ct_app_id :: string
  ct_spec_hash :: string
  ct_state :: task_state
  ct_network_resolver :: "string option"

record pending_stop =
  pe_app_id :: string
  pe_finished :: bool

datatype observed_state =
  Obs_Unspecified | Obs_Pulling | Obs_Starting | Obs_Running | Obs_Stopping | Obs_Exited | Obs_Failed | Obs_Refused

record replica_observed =
  ro_replica_id :: string
  ro_state :: observed_state
  ro_reason :: string
  ro_ready :: bool
  ro_ready_for :: duration
  ro_restarts :: nat
  ro_last_exit_code :: int
  ro_applied_generation :: nat
  ro_operation_id :: string

definition observed_default :: replica_observed where
  "observed_default =
     \<lparr>ro_replica_id = [], ro_state = Obs_Unspecified, ro_reason = [], ro_ready = False, ro_ready_for = 0,
      ro_restarts = 0, ro_last_exit_code = 0, ro_applied_generation = 0, ro_operation_id = []\<rparr>"

text \<open>\<open>chars().take(n)\<close> of UTF-8: a byte that continues a character goes with it.\<close>

fun take_chars :: "nat \<Rightarrow> string \<Rightarrow> string" where
  "take_chars n [] = []"
| "take_chars n (c # s) =
     (if 0x80 \<le> byte c \<and> byte c < 0xC0 then c # take_chars n s
      else case n of 0 \<Rightarrow> [] | Suc m \<Rightarrow> c # take_chars m s)"

definition observed :: "replica_message \<Rightarrow> observed_state \<Rightarrow> string \<Rightarrow> replica_observed" where
  "observed r state reason =
     observed_default\<lparr>ro_replica_id := rm_replica_id r, ro_state := state, ro_reason := take_chars 500 reason\<rparr>"

definition start_failed :: "replica_message \<Rightarrow> tracked \<Rightarrow> replica_observed" where
  "start_failed r t =
     observed r (if 2 \<le> tr_start_failures t \<or> tr_failed t \<noteq> None then Obs_Failed else Obs_Starting)
       (tr_start_failure t)"

text \<open>What a pass does to the runtime, in order.\<close>

datatype action = Stop_Container string | Create_Container string | Restart_Container string

record apps =
  aa_tracked :: "(string \<times> tracked) list"
  aa_stops :: "(string \<times> pending_stop) list"
  aa_pulls :: "string list"
  aa_pull_failed :: "(string \<times> (string \<times> time)) list"
  aa_actions :: "action list"
  aa_probes :: "(string \<times> probe) list"
  aa_refusals :: "string list"
  aa_runtime_ready :: bool

definition tracked_of :: "string \<Rightarrow> apps \<Rightarrow> tracked" where
  "tracked_of i a = unwrap_or (map_of (aa_tracked a) i) tracked_default"

definition track :: "string \<Rightarrow> (tracked \<Rightarrow> tracked) \<Rightarrow> apps \<Rightarrow> apps" where
  "track i f a = a\<lparr>aa_tracked := AList.update i (f (tracked_of i a)) (aa_tracked a)\<rparr>"

definition act_on :: "action \<Rightarrow> apps \<Rightarrow> apps" where
  "act_on x a = a\<lparr>aa_actions := aa_actions a @ [x]\<rparr>"

definition is_stopping :: "string \<Rightarrow> apps \<Rightarrow> bool" where
  "is_stopping i a \<longleftrightarrow> is_some_and (map_of (aa_stops a) i) (\<lambda>s. \<not> pe_finished s)"

definition stop_container :: "container_status \<Rightarrow> apps \<Rightarrow> apps" where
  "stop_container c a =
     (if is_stopping (ct_id c) a then a
      else act_on (Stop_Container (ct_id c))
        (a\<lparr>aa_stops := AList.update (ct_id c) \<lparr>pe_app_id = ct_app_id c, pe_finished = False\<rparr> (aa_stops a)\<rparr>))"

definition stop_current :: "container_status option \<Rightarrow> apps \<Rightarrow> apps" where
  "stop_current c a = (case c of None \<Rightarrow> a | Some c \<Rightarrow> stop_container c a)"

end
