(* ===== verification/Agent_Pass.thy ===== *)
theory Agent_Pass
  imports Agent_Apps
begin

text \<open>
  One pass of the loop of the apps (\<open>pass_with_network\<close> and \<open>start\<close> of
  \<open>grund-agent/src/apps.rs\<close>): what it decides for each replica in turn, in the order of the code, and
  the readiness its checks lead to. The tasks that stop containers end on their own, so each replica
  is looked at with the stops that have finished by then.
\<close>

section \<open>What a pass sees\<close>

text \<open>For one replica: whether the gate holds it idle, which stops have finished, the file system, and
  what the runtime, the instance and the pull of its image answer where they are asked.\<close>

record seen =
  en_idle :: bool
  en_finished :: "string list"
  en_volumes :: volume_io
  en_secrets :: "string + string list"
  en_pull :: "(string + unit) option"
  en_has_image :: bool
  en_attach :: "string + bool"
  en_create :: "string + unit"
  en_restart :: "string + unit"
  en_removed :: "string + bool"

text \<open>For all of them: the time, the owner's policy, the directory of the agent, the document (its
  replicas, and whether it names volumes to delete), what the runtime lists, the volumes it holds mounted with the container that holds each, and the resolver
  of the private network, where the machine is on one.\<close>

record pass_view =
  pv_crypto :: crypto
  pv_now :: time
  pv_policy :: policy
  pv_data_dir :: string
  pv_generation :: nat
  pv_wanted :: "replica_message list"
  pv_deletions :: bool
  pv_containers :: "container_status list"
  pv_mounted :: "(string \<times> volume_bind) list"
  pv_resolver :: "string option"

type_synonym decided = "apps \<times> replica_observed"

definition wanted_ids :: "pass_view \<Rightarrow> string set" where
  "wanted_ids v = rm_replica_id ` set (pv_wanted v)"

definition container_of :: "pass_view \<Rightarrow> string \<Rightarrow> container_status option" where
  "container_of v i = List.find (\<lambda>c. ct_id c = i) (pv_containers v)"

definition finish_stops :: "string list \<Rightarrow> apps \<Rightarrow> apps" where
  "finish_stops ids a =
     a\<lparr>aa_stops := map (\<lambda>(i, s). (i, if i \<in> set ids then s\<lparr>pe_finished := True\<rparr> else s)) (aa_stops a)\<rparr>"

section \<open>Starting a container\<close>

text \<open>The pull of an image that was started: still running, or finished with its result.\<close>

definition settle_pull :: "seen \<Rightarrow> string \<Rightarrow> time \<Rightarrow> apps \<Rightarrow> apps option" where
  "settle_pull e digest now a =
     (if digest \<notin> set (aa_pulls a) then Some a
      else case en_pull e of
        None \<Rightarrow> None
      | Some r \<Rightarrow>
          (let a = a\<lparr>aa_pulls := filter (\<lambda>d. d \<noteq> digest) (aa_pulls a)\<rparr>
           in Some (case r of
                Inr u \<Rightarrow> a
              | Inl why \<Rightarrow> a\<lparr>aa_pull_failed := AList.update digest (why, now) (aa_pull_failed a)\<rparr>)))"

definition create_container :: "pass_view \<Rightarrow> seen \<Rightarrow> replica_message \<Rightarrow> apps \<Rightarrow> decided" where
  "create_container v e r a =
     (let i = rm_replica_id r;
          a = act_on (Create_Container i) a
      in case en_create e of
           Inr u \<Rightarrow> (track i (\<lambda>t. t\<lparr>tr_started := Some (pv_now v), tr_failed := None\<rparr>) a, observed r Obs_Starting [])
         | Inl error \<Rightarrow>
             (let reason = ''could not start it: '' @ error
              in (track i (\<lambda>t. t\<lparr>tr_failed := Some (reason, pv_now v)\<rparr>) a, observed r Obs_Failed reason)))"

definition attach_and_create :: "pass_view \<Rightarrow> seen \<Rightarrow> replica_message \<Rightarrow> apps \<Rightarrow> decided" where
  "attach_and_create v e r a =
     (case (if pv_resolver v = None then Inr False else en_attach e) of
        Inl reason \<Rightarrow>
          (track (rm_replica_id r) (\<lambda>t. t\<lparr>tr_failed := Some (reason, pv_now v)\<rparr>) a, observed r Obs_Failed reason)
      | Inr attached \<Rightarrow> create_container v e r a)"

definition fetch_and_create :: "pass_view \<Rightarrow> seen \<Rightarrow> replica_message \<Rightarrow> string \<Rightarrow> apps \<Rightarrow> decided" where
  "fetch_and_create v e r digest a =
     (case settle_pull e digest (pv_now v) a of
        None \<Rightarrow> (a, observed r Obs_Pulling [])
      | Some a \<Rightarrow>
          (case map_of (aa_pull_failed a) digest of
             Some (reason, at) \<Rightarrow>
               if pv_now v - at < RETRY_FAILED
               then (a, observed r Obs_Pulling (''could not fetch its image: '' @ reason))
               else (let a = a\<lparr>aa_pull_failed := AList.delete digest (aa_pull_failed a)\<rparr>
                     in if en_has_image e then attach_and_create v e r a
                        else (a\<lparr>aa_pulls := digest # aa_pulls a\<rparr>, observed r Obs_Pulling []))
           | None \<Rightarrow>
               if en_has_image e then attach_and_create v e r a
               else (a\<lparr>aa_pulls := digest # aa_pulls a\<rparr>, observed r Obs_Pulling [])))"

definition secrets_and_create :: "pass_view \<Rightarrow> seen \<Rightarrow> replica_message \<Rightarrow> string \<Rightarrow> apps \<Rightarrow> decided" where
  "secrets_and_create v e r digest a =
     (case en_secrets e of
        Inl reason \<Rightarrow>
          (track (rm_replica_id r) (\<lambda>t. t\<lparr>tr_failed := Some (reason, pv_now v)\<rparr>) a, observed r Obs_Failed reason)
      | Inr here \<Rightarrow>
          (case spec_refuses r here of
             Some reason \<Rightarrow> (a, observed r Obs_Refused reason)
           | None \<Rightarrow> fetch_and_create v e r digest a))"

definition start_replica :: "pass_view \<Rightarrow> seen \<Rightarrow> replica_message \<Rightarrow> apps \<Rightarrow> decided" where
  "start_replica v e r a =
     (case rm_image r of
        None \<Rightarrow> (a, observed r Obs_Failed ''no image'')
      | Some img \<Rightarrow>
          (case Option.bind (map_of (aa_tracked a) (rm_replica_id r)) tr_failed of
             Some (reason, at) \<Rightarrow>
               if pv_now v - at < RETRY_FAILED then (a, observed r Obs_Failed reason)
               else secrets_and_create v e r (im_digest img) a
           | None \<Rightarrow> secrets_and_create v e r (im_digest img) a))"

section \<open>One replica\<close>

definition stateful :: "replica_message \<Rightarrow> bool" where
  "stateful r \<longleftrightarrow> rm_volumes r \<noteq> [] \<or> rm_exclusive r \<or> rm_stopping r"

text \<open>A stateful replica that drains or stops: its container goes once the gate holds it idle or its
  drain is over, and is not made again.\<close>

definition drain_replica :: "pass_view \<Rightarrow> seen \<Rightarrow> replica_message \<Rightarrow> apps \<Rightarrow> decided" where
  "drain_replica v e r a =
     (let i = rm_replica_id r;
          since = unwrap_or (tr_draining_since (tracked_of i a)) (pv_now v);
          a = track i (\<lambda>t. t\<lparr>tr_draining_since := Some since\<rparr>) a
      in case container_of v i of
           Some c \<Rightarrow>
             if en_idle e \<or> seconds (unwrap_or (rm_drain_seconds r) 30) \<le> pv_now v - since
             then (stop_container c a, observed r Obs_Stopping [])
             else (a, observed r Obs_Running ''finishing in-flight requests before stopping'')
         | None \<Rightarrow> (a, observed r (if is_stopping i a then Obs_Stopping else Obs_Exited) []))"

text \<open>Another copy of the app of an exclusive replica is wanted, listed, or still stopping.\<close>

definition exclusive_blocked :: "pass_view \<Rightarrow> replica_message \<Rightarrow> apps \<Rightarrow> bool" where
  "exclusive_blocked v r a \<longleftrightarrow>
     list_ex (\<lambda>other. rm_replica_id other \<noteq> rm_replica_id r \<and> rm_app_id other = rm_app_id r) (pv_wanted v) \<or>
     list_ex (\<lambda>c. ct_app_id c = rm_app_id r \<and> ct_id c \<notin> wanted_ids v) (pv_containers v) \<or>
     list_ex (\<lambda>(other, s). other \<noteq> rm_replica_id r \<and> pe_app_id s = rm_app_id r \<and> \<not> pe_finished s) (aa_stops a)"

definition stopping_or :: "container_status option \<Rightarrow> string \<Rightarrow> observed_state \<Rightarrow> apps \<Rightarrow> observed_state" where
  "stopping_or c i other a = (if c \<noteq> None \<or> is_stopping i a then Obs_Stopping else other)"

definition refused_text :: "replica_message \<Rightarrow> string \<Rightarrow> string" where
  "refused_text r reason = ''replica '' @ rm_replica_id r @ '' of '' @ rm_app r @ '': '' @ reason"

definition refuse_replica :: "pass_view \<Rightarrow> replica_message \<Rightarrow> bool \<Rightarrow> string \<Rightarrow> apps \<Rightarrow> decided" where
  "refuse_replica v r waits reason a =
     (let c = container_of v (rm_replica_id r);
          a = stop_current c (a\<lparr>aa_refusals := aa_refusals a @ [refused_text r reason]\<rparr>)
      in (a, observed r (if waits then stopping_or c (rm_replica_id r) Obs_Refused a else Obs_Refused) reason))"

definition shared_writer :: "pass_view \<Rightarrow> replica_message \<Rightarrow> volume_bind list \<Rightarrow> bool" where
  "shared_writer v r binds \<longleftrightarrow>
     list_ex (\<lambda>b. list_ex (\<lambda>other. rm_replica_id other \<noteq> rm_replica_id r \<and>
         list_ex (\<lambda>m. vm_volume_id m = vb_volume_id b \<or>
             (vm_source m \<noteq> [] \<and> overlaps (vm_source m) (vb_source b))) (rm_volumes other))
       (pv_wanted v)) binds"

definition held_elsewhere :: "pass_view \<Rightarrow> replica_message \<Rightarrow> volume_bind list \<Rightarrow> bool" where
  "held_elsewhere v r binds \<longleftrightarrow>
     list_ex (\<lambda>b. list_ex (\<lambda>(owner, held). owner \<noteq> rm_replica_id r \<and>
         (vb_volume_id b = vb_volume_id held \<or> overlaps (vb_source b) (vb_source held)))
       (pv_mounted v)) binds"

text \<open>A container without a process: it is started, or removed where its process cannot start.\<close>

definition recover_created :: "pass_view \<Rightarrow> seen \<Rightarrow> replica_message \<Rightarrow> apps \<Rightarrow> decided" where
  "recover_created v e r a =
     (let i = rm_replica_id r
      in if is_some_and (tr_recreate_at (tracked_of i a)) (\<lambda>at. pv_now v < at)
         then (a, start_failed r (tracked_of i a))
         else (let a = act_on (Restart_Container i) (track i (\<lambda>t. t\<lparr>tr_started := Some (pv_now v)\<rparr>) a)
               in case en_restart e of
                    Inr u \<Rightarrow> (a, observed r Obs_Starting [])
                  | Inl error \<Rightarrow>
                      (case en_removed e of
                         Inr True \<Rightarrow>
                           (let a = track i (\<lambda>t. let n = tr_start_failures t + 1
                                in t\<lparr>tr_start_failures := n, tr_recreate_at := Some (pv_now v + backoff n),
                                     tr_start_failure := ''its process could not start: '' @ error\<rparr>) a
                            in (a, start_failed r (tracked_of i a)))
                       | _ \<Rightarrow>
                           (a\<lparr>aa_runtime_ready := False\<rparr>,
                            observed r Obs_Starting
                              ''runtime process recovery is uncertain; waiting to observe it''))))"

text \<open>A running container: a long run forgets the back-off, and its check is made where it is due.\<close>

definition observe_running :: "pass_view \<Rightarrow> replica_message \<Rightarrow> apps \<Rightarrow> apps" where
  "observe_running v r a =
     (let i = rm_replica_id r; now = pv_now v;
          a = track i (\<lambda>t. let started = unwrap_or (tr_started t) now;
                              t = t\<lparr>tr_started := Some started, tr_restart_at := None, tr_stays_exited := False\<rparr>
                          in if BACKOFF_RESET \<le> now - started
                             then t\<lparr>tr_exits_since_reset := 0, tr_start_failures := 0\<rparr> else t) a
      in case probe_of r of
           None \<Rightarrow>
             if rd_ready (tr_readiness (tracked_of i a)) then a
             else track i (\<lambda>t. t\<lparr>tr_readiness := readiness_default\<lparr>rd_ready := True, rd_since := Some now\<rparr>\<rparr>) a
         | Some (p, interval, timeout) \<Rightarrow>
             if is_none_or (rd_last_probe (tr_readiness (tracked_of i a))) (\<lambda>at. interval \<le> now - at)
             then (track i (\<lambda>t. t\<lparr>tr_readiness := (tr_readiness t)\<lparr>rd_last_probe := Some now\<rparr>\<rparr>) a)
                    \<lparr>aa_probes := aa_probes a @ [(i, p)]\<rparr>
             else a)"

text \<open>The process of a container ended: its exit is counted once, and it is restarted after its
  back-off unless its policy keeps it exited.\<close>

definition note_exit :: "pass_view \<Rightarrow> replica_message \<Rightarrow> int \<Rightarrow> tracked \<Rightarrow> tracked" where
  "note_exit v r code t =
     (if tr_restart_at t = None \<and> \<not> tr_stays_exited t
      then (let t = t\<lparr>tr_exits_since_reset := tr_exits_since_reset t + 1, tr_last_exit_code := code,
                      tr_readiness := readiness_default
                        \<lparr>rd_reason := ''its process exited with code '' @ show_int code\<rparr>\<rparr>
            in if keeps_exited r code (tr_restarts t) then t\<lparr>tr_stays_exited := True\<rparr>
               else t\<lparr>tr_restart_at := Some (pv_now v + backoff (tr_exits_since_reset t))\<rparr>)
      else t)"

definition recover_exited :: "pass_view \<Rightarrow> seen \<Rightarrow> replica_message \<Rightarrow> int \<Rightarrow> apps \<Rightarrow> decided" where
  "recover_exited v e r code a =
     (let i = rm_replica_id r;
          a = track i (note_exit v r code) a;
          a = (if is_some_and (tr_restart_at (tracked_of i a)) (\<lambda>at. at \<le> pv_now v)
               then (let a = act_on (Restart_Container i) a
                     in case en_restart e of
                          Inr u \<Rightarrow> track i (\<lambda>t. t\<lparr>tr_restarts := tr_restarts t + 1, tr_restart_at := None,
                                                 tr_started := Some (pv_now v)\<rparr>) a
                        | Inl error \<Rightarrow> a)
               else a)
      in (a, observed r Obs_Exited []))"

text \<open>What the runtime has of the replica, once nothing stands against running it.\<close>

definition recover_replica :: "pass_view \<Rightarrow> seen \<Rightarrow> replica_message \<Rightarrow> apps \<Rightarrow> decided" where
  "recover_replica v e r a =
     (let i = rm_replica_id r
      in case map_option ct_state (container_of v i) of
           None \<Rightarrow>
             (case map_of (aa_tracked a) i of
                Some t \<Rightarrow>
                  if is_some_and (tr_recreate_at t) (\<lambda>at. pv_now v < at) then (a, start_failed r t)
                  else start_replica v e r a
              | None \<Rightarrow> start_replica v e r a)
         | Some Task_Unknown \<Rightarrow> (a, observed_default)
         | Some Task_Created \<Rightarrow> recover_created v e r a
         | Some Task_Running \<Rightarrow> (observe_running v r a, observed_default)
         | Some (Task_Exited code) \<Rightarrow> recover_exited v e r code a)"

definition resolver_for :: "pass_view \<Rightarrow> container_status option \<Rightarrow> string option" where
  "resolver_for v c =
     or_else (pv_resolver v)
       (case c of Some s \<Rightarrow> if ct_state s = Task_Running then ct_network_resolver s else None | None \<Rightarrow> None)"

definition run_replica :: "pass_view \<Rightarrow> seen \<Rightarrow> replica_message \<Rightarrow> volume_bind list \<Rightarrow> apps \<Rightarrow> decided" where
  "run_replica v e r binds a =
     (let i = rm_replica_id r; c = container_of v i
      in if shared_writer v r binds
         then (let a = stop_current c a
               in (a, observed r (stopping_or c i Obs_Refused a) ''another desired replica holds this writable volume''))
         else if held_elsewhere v r binds
         then (a, observed r Obs_Starting ''waiting for the previous volume writer to stop'')
         else if is_stopping i a then (a, observed r Obs_Stopping [])
         else if is_some_and c (\<lambda>s. ct_state s = Task_Unknown)
         then (track i (\<lambda>t. t\<lparr>tr_readiness := readiness_default\<rparr>) (a\<lparr>aa_runtime_ready := False\<rparr>),
               observed r Obs_Starting ''runtime task state unavailable; waiting to observe its process'')
         else (case c of
                 Some s \<Rightarrow>
                   if ct_spec_hash s \<noteq> container_hash (pv_crypto v) r (resolver_for v c)
                   then (stop_container s a, observed r Obs_Starting [])
                   else recover_replica v e r a
               | None \<Rightarrow> recover_replica v e r a))"

definition decide_replica :: "pass_view \<Rightarrow> seen \<Rightarrow> replica_message \<Rightarrow> apps \<Rightarrow> decided" where
  "decide_replica v e r a =
     (let i = rm_replica_id r; a = finish_stops (en_finished e) a
      in if stateful r \<and> (rm_stopping r \<or> rm_draining r) then drain_replica v e r a
         else (let a = track i (\<lambda>t. t\<lparr>tr_draining_since := None\<rparr>) a
               in if rm_exclusive r \<and> exclusive_blocked v r a
                  then (let c = container_of v i; a = stop_current c a
                        in (a, observed r (stopping_or c i Obs_Starting a)
                              ''waiting for the previous exclusive copy to stop''))
                  else case policy_refuses (pv_policy v) r of
                    Some reason \<Rightarrow> refuse_replica v r (rm_volumes r \<noteq> [] \<or> rm_exclusive r) reason a
                  | None \<Rightarrow>
                      (case prepare_volumes (en_volumes e) (pv_data_dir v) (po_volume_roots (pv_policy v))
                              (rm_app_id r) (rm_volumes r) of
                         Inl error \<Rightarrow> refuse_replica v r True (''volume access refused: '' @ error) a
                       | Inr binds \<Rightarrow> run_replica v e r binds a)))"

section \<open>The pass\<close>

text \<open>Reports are kept by the id of their replica, the last one standing; the order in which the map is
  read is not modelled.\<close>

definition put_report :: "replica_observed \<Rightarrow> string \<Rightarrow> (string \<times> replica_observed) list \<Rightarrow>
  (string \<times> replica_observed) list" where
  "put_report o' i reports = AList.update i o' reports"

fun decide_all ::
  "pass_view \<Rightarrow> (replica_message \<times> seen) list \<Rightarrow> apps \<Rightarrow> (string \<times> replica_observed) list \<Rightarrow>
   apps \<times> (string \<times> replica_observed) list" where
  "decide_all v [] a reports = (a, reports)"
| "decide_all v ((r, e) # rest) a reports =
     (let (a, o') = decide_replica v e r a
      in decide_all v rest a (put_report o' (rm_replica_id r) reports))"

text \<open>Containers nobody wants are stopped first, and what is kept of replicas that are gone is
  forgotten.\<close>

definition unwanted :: "pass_view \<Rightarrow> container_status list" where
  "unwanted v = filter (\<lambda>c. ct_id c \<notin> wanted_ids v) (pv_containers v)"

definition begin_pass :: "pass_view \<Rightarrow> apps \<Rightarrow> apps" where
  "begin_pass v a =
     (let a = fold stop_container (unwanted v)
                (a\<lparr>aa_stops := filter (\<lambda>(i, s). \<not> pe_finished s) (aa_stops a), aa_actions := [],
                   aa_probes := [], aa_refusals := [], aa_runtime_ready := True\<rparr>)
      in a\<lparr>aa_tracked := filter (\<lambda>(i, t). i \<in> wanted_ids v) (aa_tracked a)\<rparr>)"

text \<open>The result of a check.\<close>

definition checked :: "nat \<Rightarrow> time \<Rightarrow> string + unit \<Rightarrow> readiness \<Rightarrow> readiness" where
  "checked threshold at result rd =
     (case result of
        Inr u \<Rightarrow>
          (let rd = rd\<lparr>rd_failures := 0, rd_reason := []\<rparr>
           in if rd_ready rd then rd else rd\<lparr>rd_ready := True, rd_since := Some at\<rparr>)
      | Inl reason \<Rightarrow>
          (let rd = rd\<lparr>rd_failures := rd_failures rd + 1, rd_reason := reason\<rparr>
           in if threshold \<le> rd_failures rd \<or> \<not> rd_ready rd
              then rd\<lparr>rd_ready := False, rd_since := None\<rparr> else rd))"

definition threshold_of :: "pass_view \<Rightarrow> string \<Rightarrow> nat" where
  "threshold_of v i =
     (case List.find (\<lambda>r. rm_replica_id r = i) (pv_wanted v) of
        None \<Rightarrow> FAILURES_BEFORE_UNREADY
      | Some r \<Rightarrow> failures_before_unready r)"

fun take_checks :: "pass_view \<Rightarrow> time \<Rightarrow> (string \<times> (string + unit)) list \<Rightarrow> apps \<Rightarrow> apps" where
  "take_checks v at [] a = a"
| "take_checks v at ((i, result) # rest) a =
     take_checks v at rest
       (track i (\<lambda>t. t\<lparr>tr_readiness := checked (threshold_of v i) at result (tr_readiness t)\<rparr>) a)"

text \<open>What is reported of a replica at the end of the pass.\<close>

definition complete_report :: "pass_view \<Rightarrow> time \<Rightarrow> apps \<Rightarrow> replica_message \<Rightarrow> replica_observed \<Rightarrow> replica_observed" where
  "complete_report v at a r ob =
     (let t = map_of (aa_tracked a) (rm_replica_id r);
          ob = (if ro_replica_id ob = []
                then (let run = observed r Obs_Running []
                      in case t of
                           None \<Rightarrow> run
                         | Some k \<Rightarrow> run\<lparr>ro_ready := rd_ready (tr_readiness k),
                             ro_ready_for := (case rd_since (tr_readiness k) of None \<Rightarrow> 0 | Some s \<Rightarrow> at - s),
                             ro_reason := rd_reason (tr_readiness k)\<rparr>)
                else ob);
          ob = ob\<lparr>ro_applied_generation := pv_generation v, ro_operation_id := rm_operation_id r\<rparr>
      in case t of
           None \<Rightarrow> ob
         | Some k \<Rightarrow>
             (let ob = ob\<lparr>ro_restarts := tr_restarts k, ro_last_exit_code := tr_last_exit_code k\<rparr>
              in if ro_state ob = Obs_Exited \<and> ro_reason ob = []
                 then ob\<lparr>ro_reason := rd_reason (tr_readiness k)\<rparr> else ob))"

definition stopping_report :: "container_status \<Rightarrow> string \<times> replica_observed" where
  "stopping_report c = (ct_id c, observed_default\<lparr>ro_replica_id := ct_id c, ro_state := Obs_Stopping\<rparr>)"

definition complete_all ::
  "pass_view \<Rightarrow> time \<Rightarrow> apps \<Rightarrow> (string \<times> replica_observed) list \<Rightarrow> (string \<times> replica_observed) list" where
  "complete_all v at a reports =
     fold (\<lambda>r rs. case map_of rs (rm_replica_id r) of
             None \<Rightarrow> rs
           | Some ob \<Rightarrow> put_report (complete_report v at a r ob) (rm_replica_id r) rs) (pv_wanted v) reports"

text \<open>A pass whose runtime answers: \<open>sights\<close> is what it sees of each replica wanted, \<open>results\<close> gives the
  result of each check it makes.\<close>

definition full_pass ::
  "pass_view \<Rightarrow> seen list \<Rightarrow> (string \<Rightarrow> probe \<Rightarrow> string + unit) \<Rightarrow> time \<Rightarrow> apps \<Rightarrow>
   apps \<times> (string \<times> replica_observed) list" where
  "full_pass v sights results at a =
     (let (a, reports) = decide_all v (zip (pv_wanted v) sights) (begin_pass v a) (map stopping_report (unwanted v));
          a = take_checks v at (map (\<lambda>(i, p). (i, results i p)) (aa_probes a)) a
      in (a, complete_all v at a reports))"

text \<open>A pass whose runtime is not ready changes nothing.\<close>

definition failed_pass :: "pass_view \<Rightarrow> string \<Rightarrow> apps \<Rightarrow> apps \<times> (string \<times> replica_observed) list" where
  "failed_pass v error a =
     (a\<lparr>aa_stops := filter (\<lambda>(i, s). \<not> pe_finished s) (aa_stops a), aa_actions := [], aa_probes := [],
        aa_refusals := [], aa_runtime_ready := False\<rparr>,
      fold (\<lambda>r rs. put_report (observed r Obs_Failed (''the container runtime is not ready: '' @ error))
               (rm_replica_id r) rs) (pv_wanted v) [])"

text \<open>With nothing wanted, kept or to be deleted, the runtime is not prepared: what it lists is stopped
  and nothing reported.\<close>

definition nothing_to_do :: "pass_view \<Rightarrow> apps \<Rightarrow> bool" where
  "nothing_to_do v a \<longleftrightarrow> pv_wanted v = [] \<and> aa_tracked a = [] \<and> \<not> pv_deletions v"

definition apps_pass ::
  "pass_view \<Rightarrow> string + unit \<Rightarrow> seen list \<Rightarrow> (string \<Rightarrow> probe \<Rightarrow> string + unit) \<Rightarrow> time \<Rightarrow> apps \<Rightarrow>
   apps \<times> (string \<times> replica_observed) list" where
  "apps_pass v prepared sights results at a =
     (if nothing_to_do v a then (begin_pass v a, [])
      else case prepared of
        Inl error \<Rightarrow> failed_pass v error a
      | Inr u \<Rightarrow> full_pass v sights results at a)"

end
