(* ===== verification/Agent_Pass_Props.thy ===== *)
theory Agent_Pass_Props
  imports Agent_Pass
begin

text \<open>
  What a pass of the loop of the apps keeps: a container is created or started only for a replica that
  the document wants, the owner's policy allows and nothing stands against; a check has to fail as
  often as it says before a ready replica counts as not ready; and the wait before a restart grows
  to its bound.
\<close>

section \<open>Back-off\<close>

lemma backoff_bounds: "0 \<le> backoff n" "backoff n \<le> seconds 300"
  by (simp_all add: backoff_def BACKOFF_CAP_def)

lemma backoff_mono: "m \<le> n \<Longrightarrow> backoff m \<le> backoff n"
proof -
  assume mn: "m \<le> n"
  have "(2 :: nat) ^ min (m - 2) 16 \<le> 2 ^ min (n - 2) 16"
    using mn by (intro power_increasing) auto
  then have "seconds (10 * 2 ^ min (m - 2) 16) \<le> seconds (10 * 2 ^ min (n - 2) 16)"
    by (intro seconds_mono) simp
  then show ?thesis using mn by (auto simp: backoff_def BACKOFF_CAP_def)
qed

lemma backoff_steps:
  "map backoff [0, 1, 2, 3, 4, 5, 6, 7, 8] = map seconds [0, 0, 10, 20, 40, 80, 160, 300, 300]"
  by code_simp

section \<open>Readiness\<close>

text \<open>A ready replica whose last check passed stays ready while it fails less often than its threshold,
  and is not ready once it fails as often.\<close>

definition all_checked :: "nat \<Rightarrow> (time \<times> (string + unit)) list \<Rightarrow> readiness \<Rightarrow> readiness" where
  "all_checked threshold rs rd = fold (\<lambda>(at, r). checked threshold at r) rs rd"

lemma failing_checks:
  assumes "\<forall>(at, r) \<in> set rs. \<exists>why. r = Inl why" "rd_ready rd" "rd_failures rd + length rs < threshold"
  shows "rd_ready (all_checked threshold rs rd) \<and>
    rd_failures (all_checked threshold rs rd) = rd_failures rd + length rs"
  using assms
proof (induction rs arbitrary: rd)
  case Nil
  then show ?case by (simp add: all_checked_def)
next
  case (Cons x rs)
  obtain at why where x: "x = (at, Inl why)" using Cons.prems(1) by (cases x) auto
  let ?rd = "checked threshold at (Inl why) rd"
  have rd: "rd_ready ?rd" "rd_failures ?rd = rd_failures rd + 1"
    using Cons.prems by (auto simp: checked_def Let_def)
  have "rd_ready (all_checked threshold rs ?rd) \<and>
      rd_failures (all_checked threshold rs ?rd) = rd_failures ?rd + length rs"
    by (rule Cons.IH) (use Cons.prems rd in auto)
  then show ?case using rd by (simp add: all_checked_def x)
qed

lemma enough_failing_checks:
  assumes "\<forall>(at, r) \<in> set rs. \<exists>why. r = Inl why" "rd_ready rd" "rd_failures rd + length rs + 1 = threshold"
  shows "\<not> rd_ready (all_checked threshold (rs @ [(at, Inl why)]) rd)"
proof -
  have "rd_failures (all_checked threshold rs rd) + 1 = threshold"
    using failing_checks[OF assms(1,2), of threshold] assms(3) by simp
  then show ?thesis by (simp add: all_checked_def checked_def Let_def)
qed

section \<open>What a step does to the runtime\<close>

definition adds :: "(action \<Rightarrow> bool) \<Rightarrow> apps \<Rightarrow> apps \<Rightarrow> bool" where
  "adds P a b \<longleftrightarrow> (\<exists>new. aa_actions b = aa_actions a @ new \<and> list_all P new)"

lemma adds_refl [simp]: "adds P a a"
  by (simp add: adds_def)

lemma adds_same [simp]:
  "adds P a (b\<lparr>aa_tracked := t\<rparr>) = adds P a b" "adds P a (b\<lparr>aa_stops := s\<rparr>) = adds P a b"
  "adds P a (b\<lparr>aa_pulls := p\<rparr>) = adds P a b" "adds P a (b\<lparr>aa_pull_failed := q\<rparr>) = adds P a b"
  "adds P a (b\<lparr>aa_probes := r\<rparr>) = adds P a b" "adds P a (b\<lparr>aa_refusals := u\<rparr>) = adds P a b"
  "adds P a (b\<lparr>aa_runtime_ready := w\<rparr>) = adds P a b" "adds P a (track i f b) = adds P a b"
  "adds P a (finish_stops ids b) = adds P a b"
  by (simp_all add: adds_def track_def finish_stops_def)

lemma adds_act [simp]: "adds P a b \<Longrightarrow> P x \<Longrightarrow> adds P a (act_on x b)"
  unfolding adds_def act_on_def by force

lemma adds_stop [simp]:
  "adds P a b \<Longrightarrow> P (Stop_Container (ct_id c)) \<Longrightarrow> adds P a (stop_container c b)"
  by (simp add: stop_container_def)

lemma adds_stop_current [simp]:
  "adds P a b \<Longrightarrow> (\<And>i. P (Stop_Container i)) \<Longrightarrow> adds P a (stop_current c b)"
  by (simp add: stop_current_def split: option.split)

lemma adds_trans: "adds P a b \<Longrightarrow> adds P b c \<Longrightarrow> adds P a c"
  unfolding adds_def by force

lemma adds_mono: "adds P a b \<Longrightarrow> (\<And>x. P x \<Longrightarrow> Q x) \<Longrightarrow> adds Q a b"
  unfolding adds_def by (metis list_all_mono)

lemma adds_from:
  "aa_actions a' = aa_actions a \<Longrightarrow> adds P a' b = adds P a b"
  by (simp add: adds_def)

text \<open>A stop is always fine; a container is made or started again only of the replica itself, where
  \<open>new\<close> or \<open>again\<close> holds.\<close>

definition only_starts :: "bool \<Rightarrow> bool \<Rightarrow> string \<Rightarrow> action \<Rightarrow> bool" where
  "only_starts new again i x =
     (case x of Stop_Container j \<Rightarrow> True | Create_Container j \<Rightarrow> new \<and> j = i | Restart_Container j \<Rightarrow> again \<and> j = i)"

lemma only_starts_simps [simp]:
  "only_starts new again i (Stop_Container j)" "only_starts True again i (Create_Container i)"
  "only_starts new True i (Restart_Container i)"
  by (simp_all add: only_starts_def)

lemma settle_pull_actions: "settle_pull e digest now a = Some b \<Longrightarrow> aa_actions b = aa_actions a"
  by (auto simp: settle_pull_def Let_def split: if_splits option.splits sum.splits)

lemma create_adds: "adds (only_starts True again (rm_replica_id r)) a (fst (create_container v e r a))"
  by (simp add: create_container_def Let_def split: sum.split)

lemma attach_adds: "adds (only_starts True again (rm_replica_id r)) a (fst (attach_and_create v e r a))"
  by (simp add: attach_and_create_def create_adds split: sum.split)

lemma attach_adds_from:
  "aa_actions b = aa_actions a \<Longrightarrow> adds (only_starts True again (rm_replica_id r)) a (fst (attach_and_create v e r b))"
  using attach_adds[of again r b v e] by (simp add: adds_def)

lemma fetch_adds: "adds (only_starts True again (rm_replica_id r)) a (fst (fetch_and_create v e r digest a))"
proof (cases "settle_pull e digest (pv_now v) a")
  case None
  then show ?thesis by (simp add: fetch_and_create_def)
next
  case (Some b)
  let ?P = "only_starts True again (rm_replica_id r)"
  note b = settle_pull_actions[OF Some]
  have here: "adds ?P a b" by (simp add: adds_def b)
  have made: "adds ?P a (fst (attach_and_create v e r b))" by (rule attach_adds_from[OF b])
  have retried: "adds ?P a (fst (attach_and_create v e r (b\<lparr>aa_pull_failed := q\<rparr>)))" for q
    by (rule attach_adds_from) (simp add: b)
  show ?thesis
  proof (cases "map_of (aa_pull_failed b) digest")
    case None
    show ?thesis
      unfolding fetch_and_create_def Some None option.case
      by (cases "en_has_image e") (simp_all only: if_True if_False made fst_conv adds_same here)
  next
    case (Some x)
    note failed = Some
    obtain reason at where x: "x = (reason, at)" by (cases x)
    show ?thesis
      unfolding fetch_and_create_def \<open>settle_pull e digest (pv_now v) a = Some b\<close> failed x option.case prod.case Let_def
      by (cases "en_has_image e"; cases "pv_now v - at < RETRY_FAILED")
        (simp_all only: if_True if_False retried fst_conv adds_same here)
  qed
qed

lemma start_adds: "adds (only_starts True again (rm_replica_id r)) a (fst (start_replica v e r a))"
  by (auto simp: start_replica_def secrets_and_create_def fetch_adds split: option.split sum.split)

lemma recover_created_adds: "adds (only_starts new True (rm_replica_id r)) a (fst (recover_created v e r a))"
  by (simp add: recover_created_def Let_def split: sum.split bool.split)

lemma recover_exited_adds: "adds (only_starts new True (rm_replica_id r)) a (fst (recover_exited v e r code a))"
  by (simp add: recover_exited_def Let_def split: sum.split)

lemma observe_running_adds: "adds P a (observe_running v r a)"
  by (simp add: observe_running_def Let_def split: option.split)

text \<open>A container can be started again: it holds no process, or its process ended.\<close>

definition may_restart :: "task_state \<Rightarrow> bool" where
  "may_restart s \<longleftrightarrow> (case s of Task_Created \<Rightarrow> True | Task_Exited code \<Rightarrow> True | _ \<Rightarrow> False)"

lemma recover_adds:
  assumes "container_of v (rm_replica_id r) = None \<Longrightarrow> new"
    "\<And>c. container_of v (rm_replica_id r) = Some c \<Longrightarrow> may_restart (ct_state c) \<Longrightarrow> again"
  shows "adds (only_starts new again (rm_replica_id r)) a (fst (recover_replica v e r a))"
proof (cases "container_of v (rm_replica_id r)")
  case None
  with assms(1) have new by simp
  then have "adds (only_starts new again (rm_replica_id r)) b (fst (start_replica v e r b))" for b
    using start_adds[of again r b v e] by simp
  then show ?thesis by (simp add: recover_replica_def Let_def None split: option.split)
next
  case (Some c)
  have "again" if "may_restart (ct_state c)" using assms(2) Some that by simp
  then show ?thesis
    using recover_created_adds[of new r a v e] recover_exited_adds[of new r a v e]
    by (auto simp: recover_replica_def Some observe_running_adds may_restart_def split: task_state.split)
qed

text \<open>What has to hold for a replica to be started, and for the container of it that is started.\<close>

definition may_start :: "pass_view \<Rightarrow> seen \<Rightarrow> replica_message \<Rightarrow> bool" where
  "may_start v e r \<longleftrightarrow>
     \<not> (stateful r \<and> (rm_stopping r \<or> rm_draining r)) \<and> policy_refuses (pv_policy v) r = None \<and>
     (rm_exclusive r \<longrightarrow>
        \<not> list_ex (\<lambda>o'. rm_replica_id o' \<noteq> rm_replica_id r \<and> rm_app_id o' = rm_app_id r) (pv_wanted v) \<and>
        \<not> list_ex (\<lambda>c. ct_app_id c = rm_app_id r \<and> ct_id c \<notin> wanted_ids v) (pv_containers v)) \<and>
     (case prepare_volumes (en_volumes e) (pv_data_dir v) (po_volume_roots (pv_policy v)) (rm_app_id r) (rm_volumes r) of
        Inl why \<Rightarrow> False
      | Inr binds \<Rightarrow> \<not> shared_writer v r binds \<and> \<not> held_elsewhere v r binds)"

definition made_for :: "pass_view \<Rightarrow> replica_message \<Rightarrow> container_status \<Rightarrow> bool" where
  "made_for v r c \<longleftrightarrow> may_restart (ct_state c) \<and> ct_spec_hash c = container_hash (pv_crypto v) r (resolver_for v (Some c))"

lemma run_adds:
  assumes "\<not> shared_writer v r binds \<Longrightarrow> \<not> held_elsewhere v r binds \<Longrightarrow> ok"
  shows "adds (only_starts (ok \<and> container_of v (rm_replica_id r) = None)
      (ok \<and> is_some_and (container_of v (rm_replica_id r)) (made_for v r)) (rm_replica_id r)) a
    (fst (run_replica v e r binds a))"
    (is "adds ?P _ _")
proof (cases "shared_writer v r binds \<or> held_elsewhere v r binds")
  case True
  then show ?thesis by (auto simp: run_replica_def Let_def)
next
  case False
  with assms have ok by blast
  have fresh: "adds ?P a (fst (recover_replica v e r a))" if "container_of v (rm_replica_id r) = None"
    using recover_adds[of v r True False a e] that \<open>ok\<close> by simp
  have old: "adds ?P a (fst (recover_replica v e r a))"
    if c: "container_of v (rm_replica_id r) = Some c"
      and h: "ct_spec_hash c = container_hash (pv_crypto v) r (resolver_for v (Some c))" for c
  proof (rule recover_adds)
    show "ok \<and> is_some_and (container_of v (rm_replica_id r)) (made_for v r)"
      if "container_of v (rm_replica_id r) = Some d" "may_restart (ct_state d)" for d
      using that c h \<open>ok\<close> by (simp add: made_for_def)
  qed (use c in simp)
  show ?thesis
  proof (cases "container_of v (rm_replica_id r)")
    case None
    then show ?thesis using False fresh by (simp add: run_replica_def Let_def)
  next
    case (Some c)
    then show ?thesis using False old[OF Some] by (auto simp: run_replica_def Let_def)
  qed
qed

lemma refuse_adds: "aa_actions b = aa_actions a \<Longrightarrow> adds (only_starts n g i) a (fst (refuse_replica v r waits reason b))"
proof -
  assume "aa_actions b = aa_actions a"
  then have "adds (only_starts n g i) a (b\<lparr>aa_refusals := aa_refusals b @ [refused_text r reason]\<rparr>)"
    by (simp add: adds_def)
  then show ?thesis unfolding refuse_replica_def Let_def fst_conv by (rule adds_stop_current) simp
qed

lemma decide_adds:
  "adds (only_starts (may_start v e r \<and> container_of v (rm_replica_id r) = None)
      (may_start v e r \<and> is_some_and (container_of v (rm_replica_id r)) (made_for v r)) (rm_replica_id r)) a
    (fst (decide_replica v e r a))"
    (is "adds ?P _ _")
proof -
  define b where "b = track (rm_replica_id r) (\<lambda>t. t\<lparr>tr_draining_since := None\<rparr>) (finish_stops (en_finished e) a)"
  have b: "aa_actions b = aa_actions a" by (simp add: b_def track_def finish_stops_def)
  note whole = decide_replica_def Let_def b_def[symmetric]
  show ?thesis
  proof (cases "stateful r \<and> (rm_stopping r \<or> rm_draining r)")
    case True
    have "adds ?P a (fst (drain_replica v e r (finish_stops (en_finished e) a)))"
      by (simp add: drain_replica_def Let_def split: option.split)
    then show ?thesis unfolding whole if_P[OF True] .
  next
    case drains: False
    show ?thesis
    proof (cases "rm_exclusive r \<and> exclusive_blocked v r b")
      case True
      have "adds ?P a (stop_current (container_of v (rm_replica_id r)) b)"
        by (rule adds_stop_current) (simp_all add: adds_def b)
      then show ?thesis unfolding whole if_not_P[OF drains] if_P[OF True] fst_conv .
    next
      case free: False
      show ?thesis
      proof (cases "policy_refuses (pv_policy v) r")
        case (Some reason)
        show ?thesis
          unfolding whole if_not_P[OF drains] if_not_P[OF free] Some option.case by (rule refuse_adds[OF b])
      next
        case allowed: None
        show ?thesis
        proof (cases "prepare_volumes (en_volumes e) (pv_data_dir v) (po_volume_roots (pv_policy v)) (rm_app_id r) (rm_volumes r)")
          case (Inl error)
          show ?thesis
            unfolding whole if_not_P[OF drains] if_not_P[OF free] allowed Inl option.case sum.case
            by (rule refuse_adds[OF b])
        next
          case (Inr binds)
          have "may_start v e r" if "\<not> shared_writer v r binds" "\<not> held_elsewhere v r binds"
            using drains free allowed that unfolding may_start_def exclusive_blocked_def Inr sum.case by blast
          then have "adds ?P b (fst (run_replica v e r binds b))" by (rule run_adds)
          then show ?thesis
            unfolding whole if_not_P[OF drains] if_not_P[OF free] allowed Inr option.case sum.case adds_from[OF b] .
        qed
      qed
    qed
  qed
qed

definition started_rightly :: "pass_view \<Rightarrow> (replica_message \<times> seen) list \<Rightarrow> action \<Rightarrow> bool" where
  "started_rightly v rs x =
     (case x of
        Stop_Container i \<Rightarrow> True
      | Create_Container i \<Rightarrow>
          list_ex (\<lambda>(r, e). rm_replica_id r = i \<and> may_start v e r \<and> container_of v i = None) rs
      | Restart_Container i \<Rightarrow>
          list_ex (\<lambda>(r, e). rm_replica_id r = i \<and> may_start v e r \<and> is_some_and (container_of v i) (made_for v r)) rs)"

lemma decide_all_adds:
  "set rs \<subseteq> set all \<Longrightarrow> adds (started_rightly v all) a (fst (decide_all v rs a reports))"
proof (induction rs arbitrary: a reports)
  case Nil
  then show ?case by simp
next
  case (Cons x rs)
  obtain r e where x: "x = (r, e)" by (cases x)
  obtain b ob where d: "decide_replica v e r a = (b, ob)" by (cases "decide_replica v e r a")
  have "adds (started_rightly v all) a (fst (decide_replica v e r a))"
  proof (rule adds_mono[OF decide_adds])
    fix y
    assume "only_starts (may_start v e r \<and> container_of v (rm_replica_id r) = None)
      (may_start v e r \<and> is_some_and (container_of v (rm_replica_id r)) (made_for v r)) (rm_replica_id r) y"
    moreover have "(r, e) \<in> set all" using Cons.prems x by simp
    ultimately show "started_rightly v all y"
      by (cases y) (auto simp: only_starts_def started_rightly_def list_ex_iff)
  qed
  moreover have "adds (started_rightly v all) b (fst (decide_all v rs b (put_report ob (rm_replica_id r) reports)))"
    by (rule Cons.IH) (use Cons.prems in simp)
  ultimately show ?case by (auto simp: x d intro: adds_trans)
qed

lemma stops_adds: "adds (started_rightly v rs) b (fold stop_container cs b)"
proof (induction cs arbitrary: b)
  case (Cons c cs)
  have "adds (started_rightly v rs) b (stop_container c b)" by (simp add: started_rightly_def)
  with Cons[of "stop_container c b"] show ?case by (auto intro: adds_trans)
qed simp

lemma begin_pass_adds: "list_all (started_rightly v rs) (aa_actions (begin_pass v a))"
proof -
  define b where "b = a\<lparr>aa_stops := filter (\<lambda>(i, s). \<not> pe_finished s) (aa_stops a), aa_actions := [],
    aa_probes := [], aa_refusals := [], aa_runtime_ready := True\<rparr>"
  obtain new where "aa_actions (fold stop_container (unwanted v) b) = aa_actions b @ new" "list_all (started_rightly v rs) new"
    using stops_adds[of v rs b "unwanted v"] unfolding adds_def by blast
  then show ?thesis by (simp add: begin_pass_def Let_def b_def)
qed

lemma take_checks_actions: "aa_actions (take_checks v at rs a) = aa_actions a"
proof (induction rs arbitrary: a)
  case (Cons x rs)
  then show ?case by (cases x) (simp add: track_def)
qed simp

lemma full_pass_actions:
  "list_all (started_rightly v (zip (pv_wanted v) sights)) (aa_actions (fst (full_pass v sights results at a)))"
proof -
  let ?rs = "zip (pv_wanted v) sights"
  obtain b reports where d: "decide_all v ?rs (begin_pass v a) (map stopping_report (unwanted v)) = (b, reports)"
    by (cases "decide_all v ?rs (begin_pass v a) (map stopping_report (unwanted v))")
  have "adds (started_rightly v ?rs) (begin_pass v a) b"
    using decide_all_adds[of ?rs ?rs v "begin_pass v a" "map stopping_report (unwanted v)"] d by simp
  then have "list_all (started_rightly v ?rs) (aa_actions b)"
    using begin_pass_adds[of v ?rs a] by (auto simp: adds_def)
  then show ?thesis by (simp add: full_pass_def d Let_def take_checks_actions)
qed

lemma apps_pass_actions:
  "list_all (started_rightly v (zip (pv_wanted v) sights)) (aa_actions (fst (apps_pass v prepared sights results at a)))"
  using full_pass_actions begin_pass_adds by (simp add: apps_pass_def failed_pass_def split: sum.split)

section \<open>Starting\<close>

text \<open>C38: a pass makes a container only for a replica that the document wants and that has none, and
  starts again only a container without a process that was made of exactly this specification. In
  both cases the owner's policy allows the replica, its volumes were prepared, no other replica wants or
  holds what one of them writes to, and where it is exclusive no other copy of its app is wanted or
  still listed. A stateful replica (one with volumes, exclusive, or stopping) is not started while it
  drains or stops; one without any of these may still be given its container while it drains.\<close>

theorem containers_start_rightly:
  fixes sights :: "seen list"
  assumes "x \<in> set (aa_actions (fst (apps_pass v prepared sights results at a)))"
    "x = Create_Container i \<or> x = Restart_Container i"
  shows "\<exists>(r, e) \<in> set (zip (pv_wanted v) sights). rm_replica_id r = i \<and>
    \<not> (stateful r \<and> (rm_stopping r \<or> rm_draining r)) \<and> policy_refuses (pv_policy v) r = None \<and>
    (rm_exclusive r \<longrightarrow>
       \<not> list_ex (\<lambda>o'. rm_replica_id o' \<noteq> i \<and> rm_app_id o' = rm_app_id r) (pv_wanted v) \<and>
       \<not> list_ex (\<lambda>c. ct_app_id c = rm_app_id r \<and> ct_id c \<notin> wanted_ids v) (pv_containers v)) \<and>
    (\<exists>binds. prepare_volumes (en_volumes e) (pv_data_dir v) (po_volume_roots (pv_policy v)) (rm_app_id r)
         (rm_volumes r) = Inr binds \<and>
       \<not> shared_writer v r binds \<and> \<not> held_elsewhere v r binds) \<and>
    (case x of
       Create_Container j \<Rightarrow> container_of v i = None
     | _ \<Rightarrow> (\<exists>c. container_of v i = Some c \<and> may_restart (ct_state c) \<and>
              ct_spec_hash c = container_hash (pv_crypto v) r (resolver_for v (Some c))))"
proof -
  have right: "started_rightly v (zip (pv_wanted v) sights) x"
    using apps_pass_actions[of v sights prepared results at a] assms(1) by (simp add: list_all_iff)
  then obtain r e where re: "(r, e) \<in> set (zip (pv_wanted v) sights)" "rm_replica_id r = i" "may_start v e r"
    and x: "case x of Create_Container j \<Rightarrow> container_of v i = None
      | _ \<Rightarrow> is_some_and (container_of v i) (made_for v r)"
    using assms(2) by (auto simp: started_rightly_def list_ex_iff)
  obtain binds where binds: "prepare_volumes (en_volumes e) (pv_data_dir v) (po_volume_roots (pv_policy v)) (rm_app_id r)
       (rm_volumes r) = Inr binds" "\<not> shared_writer v r binds" "\<not> held_elsewhere v r binds"
    using re(3) by (auto simp: may_start_def split: sum.splits)
  have "case x of Create_Container j \<Rightarrow> container_of v i = None
     | _ \<Rightarrow> (\<exists>c. container_of v i = Some c \<and> may_restart (ct_state c) \<and>
              ct_spec_hash c = container_hash (pv_crypto v) r (resolver_for v (Some c)))"
    using x assms(2) by (auto simp: made_for_def is_some_and_iff)
  with binds re show ?thesis by (intro bexI[OF _ re(1)]) (auto simp: may_start_def)
qed

text \<open>A machine with one exclusive replica wanted and a container of its app that nobody wants: the
  container is stopped first, and the replica is started once nothing of its app is listed.\<close>

definition sample_replica :: replica_message where
  "sample_replica =
     \<lparr>rm_replica_id = ''r1'', rm_app = ''web'', rm_app_id = ''a1'',
      rm_image = Some \<lparr>im_reference = ''docker.io/library/nginx:1.27'', im_digest = ''sha256:'' @ replicate 64 CHR ''a''\<rparr>,
      rm_command = [], rm_env = [], rm_memory_mib = 128, rm_cpu_millis = 250, rm_draining = False,
      rm_secrets = [], rm_check = None, rm_stop = None, rm_secret_env = [], rm_volumes = [], rm_exclusive = True,
      rm_stopping = False, rm_drain_seconds = None, rm_operation_id = [], rm_stack_search = [],
      rm_entrypoint = None, rm_cmd = None, rm_working_dir = None, rm_user = None, rm_restart = None\<rparr>"

definition sample_old :: container_status where
  "sample_old =
     \<lparr>ct_id = ''r0'', ct_app_id = ''a1'', ct_spec_hash = [], ct_state = Task_Running, ct_network_resolver = None\<rparr>"

definition sample_view :: "container_status list \<Rightarrow> pass_view" where
  "sample_view cs =
     \<lparr>pv_crypto = \<lparr>unhex = (\<lambda>s. None), hexed = (\<lambda>b. []), sha256 = (\<lambda>b. b), key_parses = (\<lambda>b. True),
        signature_parses = (\<lambda>b. True), verify_strict = (\<lambda>k m s. True)\<rparr>,
      pv_now = 0, pv_policy = policy_default, pv_data_dir = ''/var/lib/grund'', pv_generation = 1,
      pv_wanted = [sample_replica], pv_deletions = False, pv_containers = cs, pv_mounted = [], pv_resolver = None\<rparr>"

definition sample_seen :: seen where
  "sample_seen =
     \<lparr>en_idle = True, en_finished = [],
      en_volumes = \<lparr>vi_provision = (\<lambda>a b. Inl []), vi_block_source = (\<lambda>a b c. Inl []), vi_host_directory = (\<lambda>s. Inl [])\<rparr>,
      en_secrets = Inr [], en_pull = None, en_has_image = True, en_attach = Inr True, en_create = Inr (),
      en_restart = Inr (), en_removed = Inr True\<rparr>"

definition sample_apps :: apps where
  "sample_apps =
     \<lparr>aa_tracked = [], aa_stops = [], aa_pulls = [], aa_pull_failed = [], aa_actions = [], aa_probes = [],
      aa_refusals = [], aa_runtime_ready = False\<rparr>"

definition sample_pass :: "container_status list \<Rightarrow> apps" where
  "sample_pass cs = fst (apps_pass (sample_view cs) (Inr ()) [sample_seen] (\<lambda>i p. Inr ()) 0 sample_apps)"

lemma sample_pass_stops: "aa_actions (sample_pass [sample_old]) = [Stop_Container ''r0'']"
  by code_simp

lemma sample_pass_starts: "aa_actions (sample_pass []) = [Create_Container ''r1'']"
  by code_simp

theorem containers_start_rightly_witness:
  "aa_actions (sample_pass []) = [Create_Container ''r1''] \<and>
   policy_refuses policy_default sample_replica = None \<and> container_of (sample_view []) ''r1'' = None"
  using containers_start_rightly[of "Create_Container ''r1''" "sample_view []" "Inr ()" "[sample_seen]" "\<lambda>i p. Inr ()" 0
      sample_apps "''r1''"] sample_pass_starts
  by (auto simp: sample_pass_def sample_view_def)

end
