(* ===== verification/Supervisor_Files.thy ===== *)
theory Supervisor_Files
  imports Agent_Record Crash Public_Build
begin

text \<open>
  What the supervisor of the agent's own updates works with (\<open>grund-agent/src/supervisor.rs\<close>): its
  files, which are the state of \<open>Crash\<close>, the answers of the outside (file operations, the clock, the
  calls of the instance, the service manager, the download), the signed offers and permits, and the
  health of the agent. The crates for signatures and for JSON are parameters.
\<close>

section \<open>The files\<close>

record follow_policy =
  fp_enabled :: bool
  fp_paused :: bool

definition follow_policy_default :: follow_policy where
  "follow_policy_default = \<lparr>fp_enabled = False, fp_paused = False\<rparr>"

record health =
  he_machine_id :: string
  he_registration_key :: string
  he_boot_id :: uuid
  he_revision :: string
  he_ready :: bool
  he_observed_at_unix :: int

record offer =
  of_kind :: string
  of_attempt_id :: uuid
  of_machine_id :: uuid
  of_registration_key :: string
  of_generation :: nat
  of_previous_revision :: string
  of_target :: public_build
  of_expires_at_unix :: int
  of_boot_id :: "uuid option"
  of_permit :: bool

datatype sup_phase = Authorizing | Authorized | Candidate | Committed | RollingBack | RolledBack

record kept_permit =
  kp_payload :: "octet list"
  kp_signature :: "octet list"
  kp_key_id :: string

record journal =
  j_offer :: offer
  j_phase :: sup_phase
  j_previous_sha256 :: string
  j_candidate_sha256 :: string
  j_previous_boot_id :: uuid
  j_candidate_boot_id :: "uuid option"
  j_rollback_boot_id :: "uuid option"
  j_started_at_unix :: int
  j_failure_code :: string
  j_restart_completed :: bool
  j_finalize :: "kept_permit option"

record follow_status =
  fs_state :: string
  fs_target_revision :: "string option"
  fs_failure_code :: "string option"
  fs_observed_at_unix :: int

text \<open>\<open>follow.json\<close>, \<open>follow-status.json\<close> and \<open>update-journal.json\<close> of the data directory; \<open>grund\<close>,
  \<open>update-previous\<close> and \<open>update-candidate\<close> of the runtime directory, each with its bytes.
  \<open>update-health.json\<close> is the agent's, which writes it at any time, so what is read of it is an
  answer. \<open>sd_reports\<close> is no file: it keeps what the instance was told by \<open>ReportUpdate\<close>.\<close>

record update_report =
  ur_attempt_id :: uuid
  ur_generation :: nat
  ur_phase :: string
  ur_boot_id :: uuid
  ur_revision :: string
  ur_failure_code :: string

record sup_disk =
  sd_follow :: "follow_policy option"
  sd_status :: "follow_status option"
  sd_journal :: "journal option"
  sd_runtime :: "octet list option"
  sd_previous :: "octet list option"
  sd_candidate :: "octet list option"
  sd_reports :: "update_report list"

section \<open>Answers\<close>

record signed_update =
  su_payload :: "octet list"
  su_signature :: "octet list"
  su_key_id :: string

text \<open>One answer per operation: of a file operation whether it worked, of the clock the time, of a
  read of \<open>update-health.json\<close> what it held, of the service manager whether the agent restarted, of
  an executable the revision it names, of the calls the message answered, or none where the call
  failed, of a small file fetched its bytes, of the download the length announced and the chunks
  received, with whether the stream ended well; \<open>Lock\<close> is whether the lock was free.\<close>

datatype sup_answer =
  Io bool
| Clock int
| ReadHealth "health option"
| Restarted bool
| Identity "string option"
| Polled "signed_update option option"
| Begun "bool option"
| Reported "(bool \<times> signed_update option) option"
| Small "octet list option"
| Download "(nat option \<times> octet list list \<times> bool) option"
| Lock bool

type_synonym 'a sup = "(sup_disk, sup_answer, 'a) act"

fun io_answer where "io_answer (Io b) = Some b" | "io_answer _ = None"
fun clock_answer where "clock_answer (Clock t) = Some t" | "clock_answer _ = None"
fun health_answer where "health_answer (ReadHealth h) = Some h" | "health_answer _ = None"
fun restart_answer where "restart_answer (Restarted b) = Some b" | "restart_answer _ = None"
fun identity_answer where "identity_answer (Identity r) = Some r" | "identity_answer _ = None"
fun poll_answer where "poll_answer (Polled r) = Some r" | "poll_answer _ = None"
fun begin_answer where "begin_answer (Begun r) = Some r" | "begin_answer _ = None"
fun report_answer where "report_answer (Reported r) = Some r" | "report_answer _ = None"
fun small_answer where "small_answer (Small r) = Some r" | "small_answer _ = None"
fun download_answer where "download_answer (Download r) = Some r" | "download_answer _ = None"
fun lock_answer where "lock_answer (Lock b) = Some b" | "lock_answer _ = None"

definition io :: "unit sup" where
  "io = andthen (ask io_answer) (\<lambda>ok. ensure ok ''file operation'')"

definition now :: "int sup" where
  "now = ask clock_answer"

text \<open>A call answers, or its error ends the pass.\<close>

definition answered :: "'a option \<Rightarrow> 'a sup" where
  "answered r = (case r of None \<Rightarrow> bail ''call'' | Some a \<Rightarrow> ret a)"

section \<open>Files\<close>

text \<open>\<open>read_json\<close>: a missing file is \<open>None\<close>.\<close>

definition read_json :: "(sup_disk \<Rightarrow> 'a option) \<Rightarrow> 'a option sup" where
  "read_json f = andthen io (\<lambda>_. look f)"

text \<open>\<open>atomic_json\<close>: the value is written beside the file, renamed over it, and the directory synced;
  a failure after the rename leaves the new file.\<close>

definition atomic_json :: "(sup_disk \<Rightarrow> sup_disk) \<Rightarrow> unit sup" where
  "atomic_json put = andthen io (\<lambda>_. andthen (change put) (\<lambda>_. io))"

definition put_journal :: "journal \<Rightarrow> unit sup" where
  "put_journal j = atomic_json (sd_journal_update (\<lambda>_. Some j))"

definition sync_parent :: "unit sup" where
  "sync_parent = io"

definition remove_regular :: "(sup_disk \<Rightarrow> 'a option) \<Rightarrow> (sup_disk \<Rightarrow> sup_disk) \<Rightarrow> unit sup" where
  "remove_regular f clear =
     andthen io (\<lambda>_. andthen (look f) (\<lambda>x. case x of None \<Rightarrow> ret () | Some y \<Rightarrow> change clear))"

definition file_sha256 :: "crypto \<Rightarrow> octet list \<Rightarrow> string" where
  "file_sha256 x bytes = hexed x (sha256 x bytes)"

definition hash_file :: "crypto \<Rightarrow> (sup_disk \<Rightarrow> octet list option) \<Rightarrow> string sup" where
  "hash_file x f =
     andthen io (\<lambda>_. andthen (look f) (\<lambda>bytes.
       case bytes of None \<Rightarrow> bail ''no such file'' | Some b \<Rightarrow> ret (file_sha256 x b)))"

text \<open>\<open>hash_file(..).ok()\<close>.\<close>

definition hash_ok :: "crypto \<Rightarrow> (sup_disk \<Rightarrow> octet list option) \<Rightarrow> string option sup" where
  "hash_ok x f =
     andthen (attempt (hash_file x f)) (\<lambda>r. ret (case r of Inl why \<Rightarrow> None | Inr h \<Rightarrow> Some h))"

definition read_follow :: "follow_policy sup" where
  "read_follow = andthen (read_json sd_follow) (\<lambda>p. ret (unwrap_or p follow_policy_default))"

definition set_status :: "string \<Rightarrow> string option \<Rightarrow> string option \<Rightarrow> unit sup" where
  "set_status state target failure =
     andthen now (\<lambda>t.
       atomic_json (sd_status_update (\<lambda>_. Some
         \<lparr>fs_state = state, fs_target_revision = target, fs_failure_code = failure,
          fs_observed_at_unix = t\<rparr>)))"

section \<open>Signed offers and permits\<close>

definition SIGNATURE_PREFIX :: "octet list" where
  "SIGNATURE_PREFIX = byte_literal (''grund-machine-update-v1'' @ [CHR 0x0A])"

definition HEALTH_SECONDS :: int where "HEALTH_SECONDS = 120"

text \<open>\<open>parse\<close> is \<open>serde_json::from_slice\<close> of an \<open>Offer\<close>.\<close>

definition verify_envelope ::
  "crypto \<Rightarrow> (octet list \<Rightarrow> offer option) \<Rightarrow> machine_record \<Rightarrow> signed_update \<Rightarrow> string + offer" where
  "verify_envelope x parse rec envelope =
     (if 8192 < length (su_payload envelope) \<or> su_key_id envelope \<noteq> pk_key_id (mr_trust_key rec)
      then Inl ''invalid update signing key or payload''
      else case pinned_bytes x (mr_trust_key rec) of
        None \<Rightarrow> Inl ''invalid pinned key''
      | Some key \<Rightarrow>
          if \<not> signed_by x key (SIGNATURE_PREFIX @ su_payload envelope) (su_signature envelope)
          then Inl ''update signature did not verify''
          else case parse (su_payload envelope) of
            None \<Rightarrow> Inl ''update does not parse''
          | Some o' \<Rightarrow>
              (case build_new (pb_revision (of_target o')) (pb_package (of_target o')) of
                 Inl e \<Rightarrow> Inl ''invalid public build''
               | Inr b \<Rightarrow> Inr o'))"

definition permit_binds :: "offer \<Rightarrow> offer \<Rightarrow> uuid \<Rightarrow> bool" where
  "permit_binds permit off boot \<longleftrightarrow>
     of_kind permit = ''finalize'' \<and> of_permit permit \<and> of_boot_id permit = Some boot \<and>
     of_attempt_id permit = of_attempt_id off \<and> of_machine_id permit = of_machine_id off \<and>
     of_registration_key permit = of_registration_key off \<and>
     of_generation permit = of_generation off \<and>
     of_previous_revision permit = of_previous_revision off \<and> of_target permit = of_target off"

definition verify_finalize :: "int \<Rightarrow> offer \<Rightarrow> offer \<Rightarrow> uuid \<Rightarrow> string + unit" where
  "verify_finalize t permit off boot =
     (if t < of_expires_at_unix permit \<and> permit_binds permit off boot then Inr ()
      else Inl ''finalize permit does not bind this candidate boot and attempt'')"

section \<open>Health\<close>

definition healthy :: "int \<Rightarrow> health \<Rightarrow> string \<Rightarrow> string \<Rightarrow> string \<Rightarrow> bool" where
  "healthy t h machine registration revision \<longleftrightarrow>
     he_ready h \<and> he_machine_id h = machine \<and> he_registration_key h = registration \<and>
     he_revision h = revision \<and> 0 \<le> t - he_observed_at_unix h \<and> t - he_observed_at_unix h \<le> 30"

text \<open>\<open>Uuid::to_string\<close> is a parameter.\<close>

definition matching_health :: "(uuid \<Rightarrow> string) \<Rightarrow> journal \<Rightarrow> bool \<Rightarrow> health option sup" where
  "matching_health show_uuid j rollback =
     andthen io (\<lambda>_. andthen (ask health_answer) (\<lambda>r.
       case r of
         None \<Rightarrow> ret None
       | Some h \<Rightarrow>
           andthen now (\<lambda>t.
             let revision = if rollback then of_previous_revision (j_offer j)
                            else pb_revision (of_target (j_offer j))
             in ret (if healthy t h (show_uuid (of_machine_id (j_offer j)))
                          (of_registration_key (j_offer j)) revision \<and>
                        he_boot_id h \<noteq> j_previous_boot_id j \<and>
                        (\<not> rollback \<or> Some (he_boot_id h) \<noteq> j_candidate_boot_id j)
                     then Some h else None))))"

end
