(* ===== verification/Supervisor_Fetch.thy ===== *)
theory Supervisor_Fetch
  imports Supervisor_Files
begin

text \<open>
  The download of a candidate (\<open>download_candidate\<close>, \<open>checksum\<close> and \<open>validate_digest\<close> of
  \<open>grund-agent/src/supervisor.rs\<close>): the published digest is read first, the bytes are written under a
  bound while they are hashed, and the file counts only when the digest and the revision the
  executable names are those of the offer.
\<close>

section \<open>Text\<close>

text \<open>\<open>str::from_utf8\<close>: the well-formed byte sequences of UTF-8.\<close>

definition continuation :: "octet \<Rightarrow> bool" where
  "continuation b \<longleftrightarrow> 0x80 \<le> b \<and> b \<le> 0xBF"

definition second_of_three :: "octet \<Rightarrow> octet \<Rightarrow> bool" where
  "second_of_three a b \<longleftrightarrow>
     (if a = 0xE0 then 0xA0 \<le> b \<and> b \<le> 0xBF else if a = 0xED then 0x80 \<le> b \<and> b \<le> 0x9F
      else 0xE1 \<le> a \<and> a \<le> 0xEF \<and> continuation b)"

definition second_of_four :: "octet \<Rightarrow> octet \<Rightarrow> bool" where
  "second_of_four a b \<longleftrightarrow>
     (if a = 0xF0 then 0x90 \<le> b \<and> b \<le> 0xBF else if a = 0xF4 then 0x80 \<le> b \<and> b \<le> 0x8F
      else 0xF1 \<le> a \<and> a \<le> 0xF3 \<and> continuation b)"

fun valid_utf8 :: "octet list \<Rightarrow> bool" where
  "valid_utf8 [] = True"
| "valid_utf8 (a # s) =
     (if a \<le> 0x7F then valid_utf8 s
      else case s of
        b # t \<Rightarrow>
          if 0xC2 \<le> a \<and> a \<le> 0xDF then continuation b \<and> valid_utf8 t
          else (case t of
            c # u \<Rightarrow>
              if second_of_three a b then continuation c \<and> valid_utf8 u
              else (case u of
                d # v \<Rightarrow> second_of_four a b \<and> continuation c \<and> continuation d \<and> valid_utf8 v
              | [] \<Rightarrow> False)
          | [] \<Rightarrow> False)
      | [] \<Rightarrow> False)"

definition from_utf8 :: "octet list \<Rightarrow> string option" where
  "from_utf8 bytes = (if valid_utf8 bytes then Some (map (\<lambda>b. char_of (unat b)) bytes) else None)"

text \<open>\<open>str::lines\<close>: the text between line feeds, without a carriage return before the feed, and no
  line after the last feed.\<close>

definition strip_return :: "string \<Rightarrow> string" where
  "strip_return l = (case strip_suffix [CHR 0x0D] l of None \<Rightarrow> l | Some l' \<Rightarrow> l')"

definition text_lines :: "string \<Rightarrow> string list" where
  "text_lines s =
     (let ls = split CHR 0x0A s
      in map strip_return (butlast ls) @ (if last ls = [] then [] else [last ls]))"

text \<open>\<open>str::split_whitespace\<close>: the runs of characters that are not white space.\<close>

function split_whitespace :: "string \<Rightarrow> string \<Rightarrow> string list" where
  "split_whitespace word s =
     (case s of
        [] \<Rightarrow> if word = [] then [] else [rev word]
      | c # s' \<Rightarrow>
          (case List.find (\<lambda>w. w \<noteq> [] \<and> starts_with w s) white_space of
             None \<Rightarrow> split_whitespace (c # word) s'
           | Some w \<Rightarrow>
               (if word = [] then [] else [rev word]) @ split_whitespace [] (drop (length w) s)))"
  by pat_completeness auto
termination
proof (relation "measure (\<lambda>(word, s). length s)", goal_cases)
  case (3 word s c s' w)
  then have "w \<noteq> []" by (auto dest: find_SomeD)
  with 3 show ?case by (cases w) auto
qed auto

declare split_whitespace.simps [simp del]

section \<open>Checksums\<close>

definition digest_valid :: "string \<Rightarrow> bool" where
  "digest_valid digest \<longleftrightarrow> length digest = 64 \<and> list_all lower_hex digest"

text \<open>\<open>strip_prefix('*').unwrap_or(file)\<close>.\<close>

definition listed_name :: "string \<Rightarrow> string" where
  "listed_name name = unwrap_or (strip_prefix ''*'' name) name"

fun checksum_lines :: "string \<Rightarrow> string option \<Rightarrow> string list \<Rightarrow> string + string option" where
  "checksum_lines name result [] = Inr result"
| "checksum_lines name result (l # ls) =
     (case split_whitespace [] l of
        digest # listed # rest \<Rightarrow>
          if listed_name listed = name then
            if result \<noteq> None \<or> rest \<noteq> [] then Inl ''ambiguous public checksum entry''
            else if \<not> digest_valid digest then Inl ''invalid public checksum''
            else checksum_lines name (Some digest) ls
          else checksum_lines name result ls
      | _ \<Rightarrow> checksum_lines name result ls)"

definition checksum :: "string \<Rightarrow> string \<Rightarrow> string + string" where
  "checksum sums name =
     and_then (checksum_lines name None (text_lines sums)) (\<lambda>r.
       case r of None \<Rightarrow> Inl ''public checksum entry missing'' | Some digest \<Rightarrow> Inr digest)"

section \<open>The download\<close>

definition MAX_BINARY_BYTES :: nat where "MAX_BINARY_BYTES = 256 * 1024 * 1024"

definition fetch_small :: "octet list sup" where
  "fetch_small =
     andthen (ask small_answer) (\<lambda>r.
       case r of
         None \<Rightarrow> bail ''public metadata unavailable''
       | Some bytes \<Rightarrow>
           andthen (ensure (length bytes \<le> 1024 * 1024) ''public metadata exceeded size bound'')
             (\<lambda>_. ret bytes))"

definition utf8 :: "octet list \<Rightarrow> string sup" where
  "utf8 bytes = (case from_utf8 bytes of None \<Rightarrow> bail ''invalid utf-8'' | Some s \<Rightarrow> ret s)"

text \<open>The file of the package and the digest published for it.\<close>

definition published :: "crypto \<Rightarrow> string \<Rightarrow> public_build \<Rightarrow> (string \<times> string) sup" where
  "published x arch build =
     (if starts_with ''main-'' (pb_package build) then
        andthen (ensure (arch = ''x86_64'') ''public main packages do not support this architecture'') (\<lambda>_.
        andthen fetch_small (\<lambda>bytes.
        andthen (utf8 bytes) (\<lambda>digest.
        andthen (ensure (digest_valid (trim digest)) ''invalid public checksum'') (\<lambda>_.
          ret (''grund'', trim digest)))))
      else
        andthen fetch_small (\<lambda>sums_bytes.
        andthen (utf8 sums_bytes) (\<lambda>sums.
        andthen fetch_small (\<lambda>revision.
        andthen (from_sum (checksum sums ''release.txt'')) (\<lambda>listed.
        andthen (ensure (file_sha256 x revision = listed) ''release identity checksum mismatch'') (\<lambda>_.
        andthen (utf8 revision) (\<lambda>named.
        andthen (ensure (named = pb_revision build @ [CHR 0x0A])
          ''public release names another revision'') (\<lambda>_.
        andthen (if arch = ''x86_64'' then ret ''amd64'' else if arch = ''aarch64'' then ret ''arm64''
                 else bail ''unsupported architecture'') (\<lambda>a.
        andthen (from_sum (checksum sums (''grund-linux-'' @ a))) (\<lambda>digest.
          ret (''grund-linux-'' @ a, digest)))))))))))"

text \<open>Every chunk is counted, then written.\<close>

fun write_chunks :: "octet list \<Rightarrow> octet list list \<Rightarrow> octet list sup" where
  "write_chunks got [] = ret got"
| "write_chunks got (c # cs) =
     (let got' = got @ c
      in andthen (ensure (length got' \<le> MAX_BINARY_BYTES) ''public binary exceeded size bound'') (\<lambda>_.
         andthen io (\<lambda>_.
         andthen (change (sd_candidate_update (\<lambda>_. Some got'))) (\<lambda>_. write_chunks got' cs))))"

text \<open>\<open>binary_revision\<close> asks the executable, within a deadline.\<close>

definition binary_revision :: "string sup" where
  "binary_revision =
     andthen (ask identity_answer) (\<lambda>r.
       case r of None \<Rightarrow> bail ''candidate has no exact public revision'' | Some v \<Rightarrow> ret v)"

definition download_candidate :: "crypto \<Rightarrow> string \<Rightarrow> public_build \<Rightarrow> string sup" where
  "download_candidate x arch build =
     (case build_new (pb_revision build) (pb_package build) of
        Inl e \<Rightarrow> bail ''invalid public build''
      | Inr b \<Rightarrow>
          andthen (published x arch build) (\<lambda>(name, digest).
          andthen (remove_regular sd_candidate (sd_candidate_update (\<lambda>_. None))) (\<lambda>_.
          andthen io (\<lambda>_.
          andthen (change (sd_candidate_update (\<lambda>_. Some []))) (\<lambda>_.
          andthen (ask download_answer) (\<lambda>answer.
            case answer of
              None \<Rightarrow> bail ''public package refused''
            | Some (announced, chunks, ended) \<Rightarrow>
                andthen (ensure (is_none_or announced (\<lambda>n. n \<le> MAX_BINARY_BYTES))
                  ''public binary is too large'') (\<lambda>_.
                andthen (write_chunks [] chunks) (\<lambda>got.
                andthen (ensure ended ''response ended early'') (\<lambda>_.
                andthen (ensure (0 < length got \<and> file_sha256 x got = digest)
                  ''public binary checksum mismatch'') (\<lambda>_.
                andthen io (\<lambda>_.
                andthen binary_revision (\<lambda>revision.
                andthen (ensure (revision = pb_revision build)
                  ''candidate reports another public revision'') (\<lambda>_.
                andthen io (\<lambda>_.
                andthen io (\<lambda>_.
                andthen sync_parent (\<lambda>_. ret digest))))))))))))))))"

end
