(* ===== verification/Supervisor.thy ===== *)
theory Supervisor
  imports Supervisor_Fetch
begin

text \<open>
  The passes of the supervisor (\<open>pass\<close>, \<open>advance\<close> and what they call in
  \<open>grund-agent/src/supervisor.rs\<close>). A pass takes up the journal it finds on disk, or an offer where
  there is none, and moves it on as far as it can; a journal is written before what it announces is
  done, so the next pass continues after a failure or a crash. The local commands that pause and
  resume following are here as well.
\<close>

section \<open>Telling the instance\<close>

definition report :: "journal \<Rightarrow> string \<Rightarrow> uuid \<Rightarrow> string \<Rightarrow> (bool \<times> signed_update option) sup" where
  "report j phase boot revision =
     andthen (change (sd_reports_update (\<lambda>rs. rs @
       [\<lparr>ur_attempt_id = of_attempt_id (j_offer j), ur_generation = of_generation (j_offer j),
         ur_phase = phase, ur_boot_id = boot, ur_revision = revision,
         ur_failure_code = j_failure_code j\<rparr>]))) (\<lambda>_.
     andthen (ask report_answer) answered)"

definition report_failure :: "journal \<Rightarrow> unit sup" where
  "report_failure j =
     andthen now (\<lambda>t.
     andthen (attempt (report j ''failed'' (unwrap_or (j_candidate_boot_id j) (j_previous_boot_id j))
       (pb_revision (of_target (j_offer j))))) (\<lambda>_. ret ()))"

section \<open>The service and the executables\<close>

definition restart_agent :: "unit sup" where
  "restart_agent = andthen (ask restart_answer) (\<lambda>ok. ensure ok ''agent restart failed'')"

text \<open>A link of the previous executable, renamed over the running one.\<close>

definition restore_previous :: "crypto \<Rightarrow> journal \<Rightarrow> unit sup" where
  "restore_previous x j =
     andthen (hash_file x sd_previous) (\<lambda>h.
     andthen (ensure (h = j_previous_sha256 j) ''previous executable does not match durable journal'') (\<lambda>_.
     andthen (hash_ok x sd_runtime) (\<lambda>r.
       if r = Some (j_previous_sha256 j) then ret ()
       else andthen io (\<lambda>_.
            andthen io (\<lambda>_.
            andthen io (\<lambda>_.
            andthen (change (\<lambda>d. d\<lparr>sd_runtime := sd_previous d\<rparr>)) (\<lambda>_. sync_parent)))))))"

section \<open>Ends\<close>

definition target_revision :: "journal \<Rightarrow> string" where
  "target_revision j = pb_revision (of_target (j_offer j))"

definition finish :: "journal \<Rightarrow> string \<Rightarrow> unit sup" where
  "finish j state =
     andthen (set_status state (Some (target_revision j))
       (if j_failure_code j = [] then None else Some (j_failure_code j))) (\<lambda>_.
     andthen (remove_regular sd_journal (sd_journal_update (\<lambda>_. None))) (\<lambda>_.
     andthen sync_parent (\<lambda>_.
     andthen (remove_regular sd_previous (sd_previous_update (\<lambda>_. None))) (\<lambda>_.
     andthen (remove_regular sd_candidate (sd_candidate_update (\<lambda>_. None))) (\<lambda>_. sync_parent)))))"

definition begin_rollback :: "crypto \<Rightarrow> journal \<Rightarrow> string \<Rightarrow> unit sup" where
  "begin_rollback x j failure =
     (let j = j\<lparr>j_phase := RollingBack, j_failure_code := failure, j_restart_completed := False\<rparr>
      in andthen (put_journal j) (\<lambda>_.
         andthen read_follow (\<lambda>p.
         andthen (atomic_json (sd_follow_update (\<lambda>_. Some (p\<lparr>fp_paused := True\<rparr>)))) (\<lambda>_.
         andthen (report_failure j) (\<lambda>_.
         andthen (restore_previous x j) (\<lambda>_.
         andthen restart_agent (\<lambda>_.
         andthen (put_journal (j\<lparr>j_restart_completed := True\<rparr>)) (\<lambda>_.
           set_status ''rolling_back'' (Some (target_revision j)) (Some failure)))))))))"

section \<open>Moving a journal on\<close>

text \<open>The parts of \<open>advance\<close>, one for each phase it looks at. Each gives the journal as the part
  leaves it, or \<open>None\<close> where \<open>advance\<close> returns there.\<close>

definition returning :: "unit sup \<Rightarrow> journal option sup" where
  "returning m = andthen m (\<lambda>_. ret None)"

definition going_on :: "journal \<Rightarrow> journal option sup" where
  "going_on j = ret (Some j)"

definition advance_authorizing :: "journal \<Rightarrow> journal option sup" where
  "advance_authorizing j =
     (if j_phase j \<noteq> Authorizing then going_on j
      else andthen read_follow (\<lambda>p.
        if \<not> fp_enabled p \<or> fp_paused p
        then returning (set_status ''paused'' (Some (target_revision j)) None)
        else andthen (andthen (ask begin_answer) answered) (\<lambda>authorized.
          if \<not> authorized then returning (finish j ''offer_cancelled'')
          else andthen now (\<lambda>t.
            let j' = j\<lparr>j_phase := Authorized, j_started_at_unix := t\<rparr>
            in andthen (put_journal j') (\<lambda>_. going_on j')))))"

text \<open>\<open>fs::rename\<close> of the candidate over the running executable.\<close>

definition install_candidate :: "unit sup" where
  "install_candidate =
     andthen io (\<lambda>_. andthen (look sd_candidate) (\<lambda>c.
       case c of
         None \<Rightarrow> bail ''no such file''
       | Some bytes \<Rightarrow>
           andthen (change (\<lambda>d. d\<lparr>sd_runtime := Some bytes, sd_candidate := None\<rparr>)) (\<lambda>_. sync_parent)))"

definition candidate_journal :: "journal \<Rightarrow> journal" where
  "candidate_journal j = j\<lparr>j_phase := Candidate, j_restart_completed := False\<rparr>"

definition become_candidate :: "journal \<Rightarrow> journal option sup" where
  "become_candidate j =
     andthen (put_journal (candidate_journal j)) (\<lambda>_. going_on (candidate_journal j))"

definition advance_authorized :: "crypto \<Rightarrow> journal \<Rightarrow> journal option sup" where
  "advance_authorized x j =
     (if j_phase j \<noteq> Authorized then going_on j
      else andthen (hash_ok x sd_runtime) (\<lambda>actual.
        if actual = Some (j_previous_sha256 j) then
          andthen (hash_ok x sd_candidate) (\<lambda>c.
            if c \<noteq> Some (j_candidate_sha256 j) then returning (begin_rollback x j ''verification'')
            else andthen install_candidate (\<lambda>_. become_candidate j))
        else if actual \<noteq> Some (j_candidate_sha256 j) then returning (begin_rollback x j ''local_state'')
        else become_candidate j))"

text \<open>What the instance answered to the health of the candidate: a permit that verifies and binds
  this boot commits.\<close>

definition take_permit ::
  "crypto \<Rightarrow> (octet list \<Rightarrow> offer option) \<Rightarrow> machine_record \<Rightarrow> journal \<Rightarrow> uuid \<Rightarrow> signed_update \<Rightarrow> journal sup" where
  "take_permit x parse rec j boot envelope =
     andthen now (\<lambda>t.
       case and_then (verify_envelope x parse rec envelope) (\<lambda>permit. verify_finalize t permit (j_offer j) boot) of
         Inr u \<Rightarrow>
           (let j' = j\<lparr>j_phase := Committed,
                        j_finalize := Some \<lparr>kp_payload = su_payload envelope,
                          kp_signature = su_signature envelope, kp_key_id = su_key_id envelope\<rparr>\<rparr>
            in andthen (put_journal j') (\<lambda>_. ret j'))
       | Inl why \<Rightarrow>
           andthen (set_status ''candidate'' (Some (target_revision j)) (Some ''verification'')) (\<lambda>_. ret j))"

definition answered_health ::
  "crypto \<Rightarrow> (octet list \<Rightarrow> offer option) \<Rightarrow> machine_record \<Rightarrow> journal \<Rightarrow> uuid \<Rightarrow>
   string + bool \<times> signed_update option \<Rightarrow> journal sup" where
  "answered_health x parse rec j boot r =
     (case r of
        Inr (accepted, finalize) \<Rightarrow>
          (case finalize of
             Some envelope \<Rightarrow> if accepted then take_permit x parse rec j boot envelope else ret j
           | None \<Rightarrow> ret j)
      | Inl why \<Rightarrow> ret j)"

definition candidate_health ::
  "crypto \<Rightarrow> (octet list \<Rightarrow> offer option) \<Rightarrow> (uuid \<Rightarrow> string) \<Rightarrow> machine_record \<Rightarrow> journal \<Rightarrow> journal sup" where
  "candidate_health x parse show_uuid rec j =
     andthen (matching_health show_uuid j False) (\<lambda>h.
       case h of
         None \<Rightarrow> ret j
       | Some health \<Rightarrow>
           (let j' = j\<lparr>j_candidate_boot_id := Some (he_boot_id health)\<rparr>
            in andthen (put_journal j') (\<lambda>_.
               andthen (attempt (report j' ''candidate_health'' (he_boot_id health) (he_revision health)))
                 (answered_health x parse rec j' (he_boot_id health)))))"

definition restarted_candidate :: "crypto \<Rightarrow> journal \<Rightarrow> journal option sup" where
  "restarted_candidate x j =
     (if j_restart_completed j then going_on j
      else andthen (attempt restart_agent) (\<lambda>r.
        case r of
          Inl why \<Rightarrow> returning (begin_rollback x j ''restart'')
        | Inr u \<Rightarrow>
            (let j' = j\<lparr>j_restart_completed := True\<rparr>
             in andthen (put_journal j') (\<lambda>_. going_on j'))))"

definition overdue :: "crypto \<Rightarrow> journal \<Rightarrow> journal option sup" where
  "overdue x j =
     (if j_phase j \<noteq> Candidate then going_on j
      else andthen now (\<lambda>t.
        if HEALTH_SECONDS \<le> t - j_started_at_unix j then returning (begin_rollback x j ''health'')
        else going_on j))"

text \<open>The next part runs on the journal of the one before, unless that returned.\<close>

definition unless_returned :: "journal option sup \<Rightarrow> (journal \<Rightarrow> journal option sup) \<Rightarrow> journal option sup" where
  "unless_returned m k = andthen m (\<lambda>r. case r of None \<Rightarrow> ret None | Some j \<Rightarrow> k j)"

definition advance_candidate ::
  "crypto \<Rightarrow> (octet list \<Rightarrow> offer option) \<Rightarrow> (uuid \<Rightarrow> string) \<Rightarrow> machine_record \<Rightarrow> journal \<Rightarrow> journal option sup" where
  "advance_candidate x parse show_uuid rec j =
     (if j_phase j \<noteq> Candidate then going_on j
      else unless_returned (restarted_candidate x j) (\<lambda>j.
           andthen (candidate_health x parse show_uuid rec j) (overdue x)))"

definition report_end :: "journal \<Rightarrow> uuid option \<Rightarrow> string \<Rightarrow> string \<Rightarrow> unit sup" where
  "report_end j boot revision phase =
     (case boot of
        None \<Rightarrow> bail ''no bound boot''
      | Some b \<Rightarrow>
          andthen now (\<lambda>t.
          andthen (report j phase b revision) (\<lambda>(accepted, finalize).
          andthen (ensure accepted ''durable report was not accepted'') (\<lambda>_. finish j phase))))"

definition advance_rolling_back :: "crypto \<Rightarrow> (uuid \<Rightarrow> string) \<Rightarrow> journal \<Rightarrow> journal sup" where
  "advance_rolling_back x show_uuid j =
     andthen (restore_previous x j) (\<lambda>_.
     andthen (if j_restart_completed j then ret j
              else andthen restart_agent (\<lambda>_.
                let j' = j\<lparr>j_restart_completed := True\<rparr>
                in andthen (put_journal j') (\<lambda>_. ret j'))) (\<lambda>j.
     andthen (matching_health show_uuid j True) (\<lambda>h.
       case h of
         None \<Rightarrow> andthen (report_failure j) (\<lambda>_. ret j)
       | Some health \<Rightarrow>
           (let j' = j\<lparr>j_rollback_boot_id := Some (he_boot_id health), j_phase := RolledBack\<rparr>
            in andthen (put_journal j') (\<lambda>_. ret j')))))"

definition advance_ends :: "crypto \<Rightarrow> (uuid \<Rightarrow> string) \<Rightarrow> journal \<Rightarrow> unit sup" where
  "advance_ends x show_uuid j =
     andthen (if j_phase j = Committed then
                andthen (report_end j (j_candidate_boot_id j) (target_revision j) ''committed'') (\<lambda>_. ret j)
              else if j_phase j = RollingBack then advance_rolling_back x show_uuid j
              else ret j) (\<lambda>j.
       if j_phase j = RolledBack
       then report_end j (j_rollback_boot_id j) (of_previous_revision (j_offer j)) ''rolled_back''
       else ret ())"

definition advance ::
  "crypto \<Rightarrow> (octet list \<Rightarrow> offer option) \<Rightarrow> (uuid \<Rightarrow> string) \<Rightarrow> machine_record \<Rightarrow> journal \<Rightarrow> unit sup" where
  "advance x parse show_uuid rec j =
     andthen (unless_returned (unless_returned (advance_authorizing j) (advance_authorized x))
               (advance_candidate x parse show_uuid rec)) (\<lambda>r.
       case r of None \<Rightarrow> ret () | Some j \<Rightarrow> advance_ends x show_uuid j)"

section \<open>A pass\<close>

definition offer_fits :: "(uuid \<Rightarrow> string) \<Rightarrow> machine_record \<Rightarrow> string \<Rightarrow> health \<Rightarrow> offer \<Rightarrow> bool" where
  "offer_fits show_uuid rec registration health off \<longleftrightarrow>
     show_uuid (of_machine_id off) = mr_machine_id rec \<and>
     of_registration_key off = registration \<and> of_previous_revision off = he_revision health"

text \<open>The previous executable is kept, then the journal written.\<close>

definition retain_previous :: "unit sup" where
  "retain_previous =
     andthen (remove_regular sd_previous (sd_previous_update (\<lambda>_. None))) (\<lambda>_.
     andthen io (\<lambda>_.
     andthen (look sd_runtime) (\<lambda>r.
       case r of
         None \<Rightarrow> bail ''no such file''
       | Some bytes \<Rightarrow>
           andthen (change (sd_previous_update (\<lambda>_. Some bytes))) (\<lambda>_.
           andthen io (\<lambda>_. sync_parent)))))"

definition start_attempt ::
  "crypto \<Rightarrow> (octet list \<Rightarrow> offer option) \<Rightarrow> (uuid \<Rightarrow> string) \<Rightarrow> machine_record \<Rightarrow> health \<Rightarrow> offer \<Rightarrow> string \<Rightarrow> unit sup" where
  "start_attempt x parse show_uuid rec health off candidate_sha256 =
     andthen retain_previous (\<lambda>_.
     andthen (hash_file x sd_previous) (\<lambda>previous_sha256.
     andthen now (\<lambda>t.
       let j = \<lparr>j_offer = off, j_phase = Authorizing, j_previous_sha256 = previous_sha256,
                j_candidate_sha256 = candidate_sha256, j_previous_boot_id = he_boot_id health,
                j_candidate_boot_id = None, j_rollback_boot_id = None, j_started_at_unix = t,
                j_failure_code = [], j_restart_completed = False, j_finalize = None\<rparr>
       in andthen (put_journal j) (\<lambda>_. advance x parse show_uuid rec j))))"

definition take_offer ::
  "crypto \<Rightarrow> (octet list \<Rightarrow> offer option) \<Rightarrow> (uuid \<Rightarrow> string) \<Rightarrow> string \<Rightarrow> machine_record \<Rightarrow> string \<Rightarrow>
   health \<Rightarrow> signed_update \<Rightarrow> unit sup" where
  "take_offer x parse show_uuid arch rec registration health envelope =
     andthen (from_sum (verify_envelope x parse rec envelope)) (\<lambda>off.
     andthen now (\<lambda>t.
     andthen (ensure (of_kind off = ''offer'' \<and> \<not> of_permit off \<and> t < of_expires_at_unix off)
       ''expired or invalid update offer'') (\<lambda>_.
     andthen (ensure (offer_fits show_uuid rec registration health off)
       ''offer does not match this registration and running revision'') (\<lambda>_.
     andthen binary_revision (\<lambda>running.
     andthen (ensure (running = he_revision health)
       ''running boot and previous executable identities differ'') (\<lambda>_.
     andthen (attempt (download_candidate x arch (of_target off))) (\<lambda>r.
       case r of
         Inr candidate_sha256 \<Rightarrow> start_attempt x parse show_uuid rec health off candidate_sha256
       | Inl why \<Rightarrow>
           andthen (remove_regular sd_candidate (sd_candidate_update (\<lambda>_. None))) (\<lambda>_.
             set_status ''unavailable'' (Some (pb_revision (of_target off)))
               (Some ''artifact_unavailable'')))))))))"

definition poll ::
  "crypto \<Rightarrow> (octet list \<Rightarrow> offer option) \<Rightarrow> (uuid \<Rightarrow> string) \<Rightarrow> string \<Rightarrow> machine_record \<Rightarrow> string \<Rightarrow> unit sup" where
  "poll x parse show_uuid arch rec registration =
     andthen read_follow (\<lambda>p.
       if \<not> fp_enabled p \<or> fp_paused p then ret ()
       else andthen io (\<lambda>_. andthen (ask health_answer) (\<lambda>h.
         case h of
           None \<Rightarrow> ret ()
         | Some health \<Rightarrow>
             andthen now (\<lambda>t.
             andthen (ensure (healthy t health (mr_machine_id rec) registration (he_revision health))
               ''no fresh healthy agent boot'') (\<lambda>_.
             andthen (andthen (ask poll_answer) answered) (\<lambda>offered.
               case offered of
                 None \<Rightarrow> set_status ''waiting'' None None
               | Some envelope \<Rightarrow>
                   take_offer x parse show_uuid arch rec registration health envelope))))))"

text \<open>\<open>pass\<close>, of the record and the public machine key in hexadecimal as they are read from disk.\<close>

definition sup_pass ::
  "crypto \<Rightarrow> (octet list \<Rightarrow> offer option) \<Rightarrow> (uuid \<Rightarrow> string) \<Rightarrow> string \<Rightarrow> machine_record option \<Rightarrow> string \<Rightarrow> unit sup" where
  "sup_pass x parse show_uuid arch kept registration =
     andthen (ask lock_answer) (\<lambda>free.
       if \<not> free then ret ()
       else andthen io (\<lambda>_.
         case kept of
           None \<Rightarrow> ret ()
         | Some rec \<Rightarrow>
             andthen io (\<lambda>_.
             andthen io (\<lambda>_.
             andthen (read_json sd_journal) (\<lambda>found.
               case found of
                 Some j \<Rightarrow>
                   andthen (ensure (show_uuid (of_machine_id (j_offer j)) = mr_machine_id rec \<and>
                       of_registration_key (j_offer j) = registration)
                     ''registration changed during an unresolved update; manual recovery required'') (\<lambda>_.
                     advance x parse show_uuid rec j)
               | None \<Rightarrow> poll x parse show_uuid arch rec registration)))))"

section \<open>The local commands\<close>

datatype follow_command = Status_Command | Pause | Resume

definition follow_command :: "follow_command \<Rightarrow> unit sup" where
  "follow_command c =
     (if c = Status_Command then andthen read_follow (\<lambda>p. ret ())
      else andthen (andthen (ask lock_answer) (\<lambda>free. ensure free ''another holds the local lock'')) (\<lambda>_.
        andthen read_follow (\<lambda>p.
        andthen (ensure (fp_enabled p) ''following is not bootstrapped'') (\<lambda>_.
          atomic_json (sd_follow_update (\<lambda>_. Some (p\<lparr>fp_paused := (c = Pause)\<rparr>)))))))"

end
