(* ===== verification/Supervisor_Inv.thy ===== *)
theory Supervisor_Inv
  imports Supervisor
begin

text \<open>
  What holds of the files of the supervisor after every operation, failure and crash: while a journal
  stands, the previous executable is kept and it or the candidate runs, as the phase has it; an end
  is reported and entered only on the evidence it needs; and an executable becomes the one to return
  to only by a commit the instance signed.
\<close>

section \<open>The invariant\<close>

definition has_hash :: "crypto \<Rightarrow> octet list option \<Rightarrow> string \<Rightarrow> bool" where
  "has_hash x file h \<longleftrightarrow> map_option (file_sha256 x) file = Some h"

text \<open>The journal keeps a permit that verifies under the pinned key and binds the offer and the boot
  of the candidate.\<close>

definition commit_proved ::
  "crypto \<Rightarrow> (octet list \<Rightarrow> offer option) \<Rightarrow> machine_record \<Rightarrow> journal \<Rightarrow> bool" where
  "commit_proved x parse rec j =
     (case (j_candidate_boot_id j, j_finalize j) of
        (Some b, Some k) \<Rightarrow>
          (case verify_envelope x parse rec
             \<lparr>su_payload = kp_payload k, su_signature = kp_signature k, su_key_id = kp_key_id k\<rparr> of
             Inr permit \<Rightarrow> permit_binds permit (j_offer j) b
           | Inl why \<Rightarrow> False)
      | _ \<Rightarrow> False)"

text \<open>The hashes an update may start from and come back to: that of the first executable, and those
  of candidates the instance let commit.\<close>

definition accepted :: "crypto \<Rightarrow> (octet list \<Rightarrow> offer option) \<Rightarrow> machine_record \<Rightarrow> string \<Rightarrow> string \<Rightarrow> bool" where
  "accepted x parse rec first h \<longleftrightarrow>
     h = first \<or> (\<exists>j. j_candidate_sha256 j = h \<and> commit_proved x parse rec j)"

definition rollback_proved :: "journal \<Rightarrow> bool" where
  "rollback_proved j =
     (case j_rollback_boot_id j of
        Some b \<Rightarrow> b \<noteq> j_previous_boot_id j \<and> Some b \<noteq> j_candidate_boot_id j
      | None \<Rightarrow> False)"

definition phase_ok ::
  "crypto \<Rightarrow> (octet list \<Rightarrow> offer option) \<Rightarrow> machine_record \<Rightarrow> journal \<Rightarrow> octet list option \<Rightarrow> bool" where
  "phase_ok x parse rec j runtime =
     (case j_phase j of
        Authorizing \<Rightarrow> has_hash x runtime (j_previous_sha256 j)
      | Authorized \<Rightarrow> has_hash x runtime (j_previous_sha256 j) \<or> has_hash x runtime (j_candidate_sha256 j)
      | Candidate \<Rightarrow> has_hash x runtime (j_candidate_sha256 j)
      | Committed \<Rightarrow> has_hash x runtime (j_candidate_sha256 j) \<and> commit_proved x parse rec j
      | RollingBack \<Rightarrow> has_hash x runtime (j_previous_sha256 j) \<or> has_hash x runtime (j_candidate_sha256 j)
      | RolledBack \<Rightarrow> has_hash x runtime (j_previous_sha256 j) \<and> rollback_proved j)"

text \<open>A commit is told of only with a journal that proves it, of the attempt and the boot told.\<close>

definition report_ok :: "crypto \<Rightarrow> (octet list \<Rightarrow> offer option) \<Rightarrow> machine_record \<Rightarrow> update_report \<Rightarrow> bool" where
  "report_ok x parse rec r \<longleftrightarrow>
     (ur_phase r = ''committed'' \<longrightarrow>
        (\<exists>j. commit_proved x parse rec j \<and> of_attempt_id (j_offer j) = ur_attempt_id r \<and>
             j_candidate_boot_id j = Some (ur_boot_id r) \<and> target_revision j = ur_revision r))"

definition sup_ok ::
  "crypto \<Rightarrow> (octet list \<Rightarrow> offer option) \<Rightarrow> machine_record \<Rightarrow> string \<Rightarrow> sup_disk \<Rightarrow> bool" where
  "sup_ok x parse rec first d \<longleftrightarrow>
     list_all (report_ok x parse rec) (sd_reports d) \<and>
     (case sd_journal d of
        None \<Rightarrow> (\<exists>h. has_hash x (sd_runtime d) h \<and> accepted x parse rec first h)
      | Some j \<Rightarrow>
          accepted x parse rec first (j_previous_sha256 j) \<and>
          has_hash x (sd_previous d) (j_previous_sha256 j) \<and> phase_ok x parse rec j (sd_runtime d))"

text \<open>What is needed to go back: the previous executable, to which an update may come back, is kept,
  and it or the candidate runs.\<close>

definition way_back ::
  "crypto \<Rightarrow> (octet list \<Rightarrow> offer option) \<Rightarrow> machine_record \<Rightarrow> string \<Rightarrow> journal \<Rightarrow> sup_disk \<Rightarrow> bool" where
  "way_back x parse rec first j d \<longleftrightarrow>
     list_all (report_ok x parse rec) (sd_reports d) \<and>
     accepted x parse rec first (j_previous_sha256 j) \<and>
     has_hash x (sd_previous d) (j_previous_sha256 j) \<and>
     (has_hash x (sd_runtime d) (j_previous_sha256 j) \<or> has_hash x (sd_runtime d) (j_candidate_sha256 j))"

lemma has_hash_unique: "has_hash x f h \<Longrightarrow> has_hash x f h' \<Longrightarrow> h = h'"
  by (auto simp: has_hash_def)

lemma has_hash_Some [simp]: "has_hash x (Some b) h \<longleftrightarrow> file_sha256 x b = h"
  by (auto simp: has_hash_def)

lemma has_hash_None [simp]: "\<not> has_hash x None h"
  by (auto simp: has_hash_def)

section \<open>The operations on files\<close>

lemma wp_io [intro!]: "C d \<Longrightarrow> Q () d \<Longrightarrow> wp io Q C d"
  unfolding io_def by auto

lemma wp_now [intro!]: "C d \<Longrightarrow> (\<And>t. Q t d) \<Longrightarrow> wp now Q C d"
  unfolding now_def by auto

lemma wp_answered [intro!]: "C d \<Longrightarrow> (\<And>a. r = Some a \<Longrightarrow> Q a d) \<Longrightarrow> wp (answered r) Q C d"
  unfolding answered_def by (auto split: option.split)

lemma wp_sync_parent [intro!]: "C d \<Longrightarrow> Q () d \<Longrightarrow> wp sync_parent Q C d"
  unfolding sync_parent_def by auto

lemma wp_read_json [intro!]: "C d \<Longrightarrow> Q (f d) d \<Longrightarrow> wp (read_json f) Q C d"
  unfolding read_json_def by auto

lemma wp_atomic_json [intro!]: "C d \<Longrightarrow> C (put d) \<Longrightarrow> Q () (put d) \<Longrightarrow> wp (atomic_json put) Q C d"
  unfolding atomic_json_def by auto

lemma wp_put_journal [intro!]:
  "C d \<Longrightarrow> C (d\<lparr>sd_journal := Some j\<rparr>) \<Longrightarrow> Q () (d\<lparr>sd_journal := Some j\<rparr>) \<Longrightarrow> wp (put_journal j) Q C d"
  unfolding put_journal_def by auto

lemma wp_remove_regular [intro!]:
  "C d \<Longrightarrow> (f d = None \<Longrightarrow> Q () d) \<Longrightarrow> Q () (clear d) \<Longrightarrow> wp (remove_regular f clear) Q C d"
  unfolding remove_regular_def by (auto split: option.split)

lemma wp_hash_file [intro!]:
  "C d \<Longrightarrow> (\<And>h. has_hash x (f d) h \<Longrightarrow> Q h d) \<Longrightarrow> wp (hash_file x f) Q C d"
  unfolding hash_file_def by (auto simp: has_hash_def split: option.split)

lemma wp_hash_ok [intro!]:
  "C d \<Longrightarrow> Q None d \<Longrightarrow> (\<And>h. has_hash x (f d) h \<Longrightarrow> Q (Some h) d) \<Longrightarrow> wp (hash_ok x f) Q C d"
  unfolding hash_ok_def by auto

lemma wp_read_follow [intro!]: "C d \<Longrightarrow> (\<And>p. Q p d) \<Longrightarrow> wp read_follow Q C d"
  unfolding read_follow_def by auto

lemma wp_set_status [intro!]:
  "C d \<Longrightarrow> (\<And>s. C (d\<lparr>sd_status := Some s\<rparr>)) \<Longrightarrow> (\<And>s. Q () (d\<lparr>sd_status := Some s\<rparr>)) \<Longrightarrow>
   wp (set_status state target failure) Q C d"
  unfolding set_status_def by auto

lemma wp_restart_agent [intro!]: "C d \<Longrightarrow> Q () d \<Longrightarrow> wp restart_agent Q C d"
  unfolding restart_agent_def by auto

lemma wp_matching_health [intro!]:
  "C d \<Longrightarrow> Q None d \<Longrightarrow>
   (\<And>h. he_boot_id h \<noteq> j_previous_boot_id j \<Longrightarrow>
         (rollback \<longrightarrow> Some (he_boot_id h) \<noteq> j_candidate_boot_id j) \<Longrightarrow> Q (Some h) d) \<Longrightarrow>
   wp (matching_health show_uuid j rollback) Q C d"
  unfolding matching_health_def by (auto simp: Let_def split: option.split)

section \<open>Files the invariant does not read\<close>

lemma sup_ok_status [simp]: "sup_ok x parse rec first (d\<lparr>sd_status := s\<rparr>) = sup_ok x parse rec first d"
  by (simp add: sup_ok_def split: option.split)

lemma sup_ok_follow [simp]: "sup_ok x parse rec first (d\<lparr>sd_follow := s\<rparr>) = sup_ok x parse rec first d"
  by (simp add: sup_ok_def split: option.split)

lemma sup_ok_candidate [simp]: "sup_ok x parse rec first (d\<lparr>sd_candidate := c\<rparr>) = sup_ok x parse rec first d"
  by (simp add: sup_ok_def split: option.split)

lemma way_back_frame [simp]:
  "way_back x parse rec first j (d\<lparr>sd_status := s\<rparr>) = way_back x parse rec first j d"
  "way_back x parse rec first j (d\<lparr>sd_follow := p\<rparr>) = way_back x parse rec first j d"
  "way_back x parse rec first j (d\<lparr>sd_journal := k\<rparr>) = way_back x parse rec first j d"
  "way_back x parse rec first j (d\<lparr>sd_candidate := c\<rparr>) = way_back x parse rec first j d"
  by (simp_all add: way_back_def)

lemma way_back_of:
  assumes "sup_ok x parse rec first d" "sd_journal d = Some j"
  shows "way_back x parse rec first j d"
  using assms by (auto simp: sup_ok_def way_back_def phase_ok_def split: sup_phase.splits)

text \<open>Where there is a way back, a journal that rolls back may be written.\<close>

lemma rolling_back_ok:
  assumes "way_back x parse rec first j d"
    and "j_phase j' = RollingBack" "j_previous_sha256 j' = j_previous_sha256 j"
    and "j_candidate_sha256 j' = j_candidate_sha256 j"
  shows "sup_ok x parse rec first (d\<lparr>sd_journal := Some j'\<rparr>)"
  using assms by (simp add: sup_ok_def way_back_def phase_ok_def)


section \<open>Reports\<close>

lemma sup_ok_report:
  "sup_ok x parse rec first d \<Longrightarrow> report_ok x parse rec r \<Longrightarrow>
   sup_ok x parse rec first (sd_reports_update (\<lambda>rs. rs @ [r]) d)"
  by (auto simp: sup_ok_def split: option.split)

lemma way_back_report:
  "way_back x parse rec first j d \<Longrightarrow> report_ok x parse rec r \<Longrightarrow>
   way_back x parse rec first j (sd_reports_update (\<lambda>rs. rs @ [r]) d)"
  by (simp add: way_back_def)

lemma report_ok_other: "ur_phase r \<noteq> ''committed'' \<Longrightarrow> report_ok x parse rec r"
  by (simp add: report_ok_def)

text \<open>A report changes only what was told, and what is told of need not be a commit.\<close>

lemma wp_report:
  assumes "\<And>r. ur_phase r = phase \<Longrightarrow> ur_attempt_id r = of_attempt_id (j_offer j) \<Longrightarrow> ur_boot_id r = boot \<Longrightarrow>
      ur_revision r = revision \<Longrightarrow>
      C (sd_reports_update (\<lambda>rs. rs @ [r]) d) \<and> (\<forall>a. Q a (sd_reports_update (\<lambda>rs. rs @ [r]) d))"
  shows "wp (report j phase boot revision) Q C d"
proof -
  define r where "r = \<lparr>ur_attempt_id = of_attempt_id (j_offer j), ur_generation = of_generation (j_offer j),
    ur_phase = phase, ur_boot_id = boot, ur_revision = revision, ur_failure_code = j_failure_code j\<rparr>"
  have c: "C (sd_reports_update (\<lambda>rs. rs @ [r]) d)"
    by (rule assms[THEN conjunct1]) (simp_all add: r_def)
  have q: "Q a (sd_reports_update (\<lambda>rs. rs @ [r]) d)" for a
    by (rule assms[THEN conjunct2, THEN spec]) (simp_all add: r_def)
  show ?thesis
    unfolding report_def r_def[symmetric] by (intro wp_andthen wp_change wp_ask wp_answered c q)
qed

lemma wp_report_failure:
  assumes "C d" "\<And>r. ur_phase r = ''failed'' \<Longrightarrow>
      C (sd_reports_update (\<lambda>rs. rs @ [r]) d) \<and> Q () (sd_reports_update (\<lambda>rs. rs @ [r]) d)"
  shows "wp (report_failure j) Q C d"
  unfolding report_failure_def
  by (intro wp_andthen wp_now wp_attempt wp_report wp_ret conjI allI assms(1)) (use assms(2) in auto)

section \<open>Going back\<close>

lemma wp_restore_previous:
  assumes "way_back x parse rec first j d" "C d"
    and "\<And>b. file_sha256 x b = j_previous_sha256 j \<Longrightarrow>
      C (d\<lparr>sd_runtime := Some b\<rparr>) \<and> Q () (d\<lparr>sd_runtime := Some b\<rparr>)"
    and "has_hash x (sd_runtime d) (j_previous_sha256 j) \<Longrightarrow> Q () d"
  shows "wp (restore_previous x j) Q C d"
proof -
  obtain b where b: "sd_previous d = Some b" "file_sha256 x b = j_previous_sha256 j"
    using assms(1) by (auto simp: way_back_def has_hash_def)
  show ?thesis
    unfolding restore_previous_def using assms(2-) b by auto
qed

text \<open>What a journal that rolls back leaves, whatever the previous journal on disk.\<close>

lemma rolling_back_runs:
  assumes "way_back x parse rec first j d" "file_sha256 x b = j_previous_sha256 j"
    and "sd_journal d = Some j'" "j_phase j' = RollingBack" "j_previous_sha256 j' = j_previous_sha256 j"
  shows "sup_ok x parse rec first (d\<lparr>sd_runtime := Some b\<rparr>)"
    and "way_back x parse rec first j (d\<lparr>sd_runtime := Some b\<rparr>)"
  using assms by (simp_all add: sup_ok_def way_back_def phase_ok_def)

lemma wp_begin_rollback:
  assumes w: "way_back x parse rec first j d" and ok: "sup_ok x parse rec first d"
  shows "wp (begin_rollback x j failure) (\<lambda>a. sup_ok x parse rec first) (sup_ok x parse rec first) d"
proof -
  define j' where "j' = j\<lparr>j_phase := RollingBack, j_failure_code := failure, j_restart_completed := False\<rparr>"
  have j': "j_phase j' = RollingBack" "j_previous_sha256 j' = j_previous_sha256 j"
    "j_candidate_sha256 j' = j_candidate_sha256 j"
    by (simp_all add: j'_def)
  have again: "sup_ok x parse rec first (e\<lparr>sd_journal := Some (j'\<lparr>j_restart_completed := c\<rparr>)\<rparr>)"
    if "way_back x parse rec first j' e" for e c
    by (rule rolling_back_ok[OF that]) (simp_all add: j')
  have w': "way_back x parse rec first j' d" using w by (simp add: way_back_def j')
  have ok': "sup_ok x parse rec first (d\<lparr>sd_journal := Some j'\<rparr>)"
    by (rule rolling_back_ok[OF w']) (simp_all add: j')
  have restore: "wp (restore_previous x j') (\<lambda>a e. sup_ok x parse rec first e \<and> way_back x parse rec first j' e)
      (sup_ok x parse rec first) e"
    if "way_back x parse rec first j' e" "sup_ok x parse rec first e" "sd_journal e = Some j'" for e
    using that rolling_back_runs[OF that(1) _ that(3) j'(1) refl]
    by (intro wp_restore_previous[OF that(1)]) auto
  let ?after = "andthen restart_agent (\<lambda>_. andthen (put_journal (j'\<lparr>j_restart_completed := True\<rparr>)) (\<lambda>_.
        set_status ''rolling_back'' (Some (target_revision j')) (Some failure)))"
  have after: "wp ?after (\<lambda>a. sup_ok x parse rec first) (sup_ok x parse rec first) e"
    if "sup_ok x parse rec first e \<and> way_back x parse rec first j' e" for e
    using that again by auto
  have rest: "wp (andthen (report_failure j') (\<lambda>_. andthen (restore_previous x j') (\<lambda>_. ?after)))
      (\<lambda>a. sup_ok x parse rec first) (sup_ok x parse rec first) e"
    if e: "way_back x parse rec first j' e" "sup_ok x parse rec first e" "sd_journal e = Some j'" for e
    by (intro wp_andthen wp_report_failure conjI wp_post[OF restore] after)
      (use e in \<open>simp_all add: way_back_report sup_ok_report report_ok_other\<close>)
  show ?thesis
    unfolding begin_rollback_def Let_def j'_def[symmetric]
    using ok ok' w' by (intro wp_andthen wp_put_journal wp_read_follow wp_atomic_json rest) simp_all
qed

end
