(* ===== verification/Supervisor_Steps.thy ===== *)
theory Supervisor_Steps
  imports Supervisor_Inv
begin

text \<open>
  Every part of a pass of the supervisor keeps the invariant of \<open>Supervisor_Inv\<close>, and hands the next
  part the journal that is on disk.
\<close>

text \<open>What a part of \<open>advance\<close> leaves: the invariant, and the journal it gives is the one on disk and
  has the phase the next part looks for.\<close>

definition moved ::
  "crypto \<Rightarrow> (octet list \<Rightarrow> offer option) \<Rightarrow> machine_record \<Rightarrow> string \<Rightarrow> (journal \<Rightarrow> bool) \<Rightarrow>
   journal option \<Rightarrow> sup_disk \<Rightarrow> bool" where
  "moved x parse rec first P r d \<longleftrightarrow>
     sup_ok x parse rec first d \<and> (\<forall>j. r = Some j \<longrightarrow> sd_journal d = Some j \<and> P j)"

definition holding ::
  "crypto \<Rightarrow> (octet list \<Rightarrow> offer option) \<Rightarrow> machine_record \<Rightarrow> string \<Rightarrow> journal \<Rightarrow> sup_disk \<Rightarrow> bool" where
  "holding x parse rec first j d \<longleftrightarrow> sup_ok x parse rec first d \<and> sd_journal d = Some j"

lemma holding_iff:
  "holding x parse rec first j d \<longleftrightarrow>
     sd_journal d = Some j \<and> list_all (report_ok x parse rec) (sd_reports d) \<and>
     accepted x parse rec first (j_previous_sha256 j) \<and>
     has_hash x (sd_previous d) (j_previous_sha256 j) \<and> phase_ok x parse rec j (sd_runtime d)"
  by (auto simp: holding_def sup_ok_def)

lemma holdingD:
  assumes "holding x parse rec first j d"
  shows "sup_ok x parse rec first d" "sd_journal d = Some j" "way_back x parse rec first j d"
    "phase_ok x parse rec j (sd_runtime d)" "accepted x parse rec first (j_previous_sha256 j)"
    "has_hash x (sd_previous d) (j_previous_sha256 j)"
  using assms way_back_of by (auto simp: holding_def sup_ok_def)

text \<open>Another journal of the same executables may be written where its phase fits what runs.\<close>

lemma put_holding:
  assumes "holding x parse rec first j d"
    and "j_previous_sha256 j' = j_previous_sha256 j" "phase_ok x parse rec j' (sd_runtime d)"
  shows "holding x parse rec first j' (d\<lparr>sd_journal := Some j'\<rparr>)"
  using assms by (simp add: holding_iff)

lemma wp_put:
  assumes "holding x parse rec first j d"
    and "j_previous_sha256 j' = j_previous_sha256 j" "phase_ok x parse rec j' (sd_runtime d)"
    and "\<And>e. holding x parse rec first j' e \<Longrightarrow> sd_runtime e = sd_runtime d \<Longrightarrow> Q () e"
  shows "wp (put_journal j') Q (sup_ok x parse rec first) d"
  using put_holding[OF assms(1-3)] assms(4)[of "d\<lparr>sd_journal := Some j'\<rparr>"] holdingD(1)[OF assms(1)]
  by (intro wp_put_journal) (simp_all add: holding_def)

lemma wp_returning:
  assumes "wp m (\<lambda>a. sup_ok x parse rec first) (sup_ok x parse rec first) d"
  shows "wp (returning m) (moved x parse rec first P) (sup_ok x parse rec first) d"
  unfolding returning_def by (intro wp_andthen wp_post[OF assms] wp_ret) (simp add: moved_def)

lemma wp_going_on:
  "holding x parse rec first j d \<Longrightarrow> P j \<Longrightarrow> wp (going_on j) (moved x parse rec first P) (sup_ok x parse rec first) d"
  unfolding going_on_def by (intro wp_ret) (simp add: moved_def holding_def)

lemma wp_unless_returned:
  assumes "wp m (moved x parse rec first P) (sup_ok x parse rec first) d"
    and "\<And>j e. holding x parse rec first j e \<Longrightarrow> P j \<Longrightarrow>
      wp (k j) (moved x parse rec first R) (sup_ok x parse rec first) e"
  shows "wp (unless_returned m k) (moved x parse rec first R) (sup_ok x parse rec first) d"
  unfolding unless_returned_def
proof (intro wp_andthen wp_post[OF assms(1)])
  fix r e
  assume "moved x parse rec first P r e"
  then show "wp (case r of None \<Rightarrow> ret None | Some j \<Rightarrow> k j) (moved x parse rec first R)
      (sup_ok x parse rec first) e"
    using assms(2) by (auto simp: moved_def holding_def split: option.split)
qed

section \<open>Ends\<close>

lemma no_journal_ok:
  assumes "sup_ok x parse rec first d" "has_hash x (sd_runtime d) h" "accepted x parse rec first h"
  shows "sup_ok x parse rec first (d\<lparr>sd_journal := None\<rparr>)"
  using assms by (auto simp: sup_ok_def)

lemma no_journal_previous:
  "sup_ok x parse rec first d \<Longrightarrow> sd_journal d = None \<Longrightarrow> sup_ok x parse rec first (d\<lparr>sd_previous := p\<rparr>)"
  by (simp add: sup_ok_def)

lemma wp_finish:
  assumes "sup_ok x parse rec first d" "has_hash x (sd_runtime d) h" "accepted x parse rec first h"
    and "sd_journal d \<noteq> None"
  shows "wp (finish j state) (\<lambda>a. sup_ok x parse rec first) (sup_ok x parse rec first) d"
proof -
  have gone: "sup_ok x parse rec first (d\<lparr>sd_status := s, sd_journal := None\<rparr>)" for s
    using no_journal_ok[of x parse rec first "d\<lparr>sd_status := s\<rparr>" h] assms(1-3) by simp
  have cleared: "sup_ok x parse rec first (d\<lparr>sd_status := s, sd_journal := None, sd_previous := p\<rparr>)" for s p
    by (rule no_journal_previous[OF gone]) simp
  show ?thesis
    unfolding finish_def using assms(1,4) gone cleared by auto
qed

text \<open>The executable that runs is accepted at the start and at both ends of an update.\<close>

lemma end_accepted:
  assumes "holding x parse rec first j d" "j_phase j \<in> {Authorizing, Committed, RolledBack}"
  shows "\<exists>h. has_hash x (sd_runtime d) h \<and> accepted x parse rec first h"
  using holdingD(4,5)[OF assms(1)] assms(2) by (auto simp: phase_ok_def accepted_def)

lemma wp_finish_holding:
  assumes "holding x parse rec first j d" "j_phase j \<in> {Authorizing, Committed, RolledBack}"
  shows "wp (finish j state) (\<lambda>a. sup_ok x parse rec first) (sup_ok x parse rec first) d"
  using end_accepted[OF assms] holdingD(1,2)[OF assms(1)] by (auto intro: wp_finish)

lemma wp_rollback_returning:
  "holding x parse rec first j d \<Longrightarrow>
   wp (returning (begin_rollback x j failure)) (moved x parse rec first P) (sup_ok x parse rec first) d"
  by (intro wp_returning wp_begin_rollback) (simp_all add: holdingD)

section \<open>Authorisation\<close>

lemma wp_advance_authorizing:
  assumes h: "holding x parse rec first j d"
  shows "wp (advance_authorizing j) (moved x parse rec first (\<lambda>j. True)) (sup_ok x parse rec first) d"
proof (cases "j_phase j = Authorizing")
  case True
  have ok: "sup_ok x parse rec first d" by (rule holdingD(1)[OF h])
  have paused: "wp (returning (set_status s t f)) (moved x parse rec first (\<lambda>j. True)) (sup_ok x parse rec first) d" for s t f
    by (intro wp_returning wp_set_status) (simp_all add: ok)
  have cancelled: "wp (returning (finish j s)) (moved x parse rec first (\<lambda>j. True)) (sup_ok x parse rec first) d" for s
    by (intro wp_returning wp_finish_holding[OF h]) (simp add: True)
  have authorized: "wp (let j' = j\<lparr>j_phase := Authorized, j_started_at_unix := t\<rparr>
        in andthen (put_journal j') (\<lambda>_. going_on j')) (moved x parse rec first (\<lambda>j. True)) (sup_ok x parse rec first) d" for t
    using holdingD(4)[OF h] True unfolding Let_def
    by (intro wp_andthen wp_put[OF h] wp_going_on) (simp_all add: phase_ok_def)
  show ?thesis
    unfolding advance_authorizing_def using True ok paused cancelled authorized
    by (auto intro!: wp_answered)
next
  case False
  then show ?thesis unfolding advance_authorizing_def using wp_going_on[OF h] by simp
qed

text \<open>While the candidate is put in place either executable may run.\<close>

lemma wp_install:
  assumes h: "holding x parse rec first j d" "j_phase j = Authorized"
    and c: "has_hash x (sd_candidate d) (j_candidate_sha256 j)"
    and Q: "\<And>e. holding x parse rec first j e \<Longrightarrow> has_hash x (sd_runtime e) (j_candidate_sha256 j) \<Longrightarrow> Q () e"
  shows "wp install_candidate Q (sup_ok x parse rec first) d"
proof -
  obtain b where b: "sd_candidate d = Some b" "file_sha256 x b = j_candidate_sha256 j"
    using c by (auto simp: has_hash_def)
  let ?e = "d\<lparr>sd_runtime := Some b, sd_candidate := None\<rparr>"
  have e: "holding x parse rec first j ?e"
    using h b(2) by (simp add: holding_iff phase_ok_def)
  have "Q () ?e" by (rule Q[OF e]) (simp add: b(2))
  then show ?thesis
    unfolding install_candidate_def using holdingD(1)[OF h(1)] holdingD(1)[OF e] b by auto
qed

lemma wp_candidate_journal:
  assumes h: "holding x parse rec first j d" and c: "has_hash x (sd_runtime d) (j_candidate_sha256 j)"
  shows "wp (become_candidate j) (moved x parse rec first (\<lambda>j. True)) (sup_ok x parse rec first) d"
  unfolding become_candidate_def by (intro wp_andthen wp_put[OF h] wp_going_on) (simp_all add: candidate_journal_def phase_ok_def c)

lemma wp_advance_authorized:
  assumes h: "holding x parse rec first j d"
  shows "wp (advance_authorized x j) (moved x parse rec first (\<lambda>j. True)) (sup_ok x parse rec first) d"
proof (cases "j_phase j = Authorized")
  case True
  note back' = wp_rollback_returning[OF h]
  have install: "wp install_candidate
      (\<lambda>a. wp (become_candidate j) (moved x parse rec first (\<lambda>j. True)) (sup_ok x parse rec first))
      (sup_ok x parse rec first) d"
    if "has_hash x (sd_candidate d) (j_candidate_sha256 j)"
    by (rule wp_install[OF h True that], rule wp_candidate_journal)
  show ?thesis
    unfolding advance_authorized_def
    using True holdingD(1)[OF h] back' install wp_candidate_journal[OF h] by auto
next
  case False
  then show ?thesis unfolding advance_authorized_def using wp_going_on[OF h] by simp
qed


section \<open>The candidate\<close>

lemma wp_restarted_candidate:
  assumes h: "holding x parse rec first j d" and c: "j_phase j = Candidate"
  shows "wp (restarted_candidate x j) (moved x parse rec first (\<lambda>j. j_phase j = Candidate)) (sup_ok x parse rec first) d"
proof -
  note rollback = wp_rollback_returning[OF h]
  have put: "wp (let j' = j\<lparr>j_restart_completed := True\<rparr> in andthen (put_journal j') (\<lambda>_. going_on j'))
      (moved x parse rec first (\<lambda>j. j_phase j = Candidate)) (sup_ok x parse rec first) d"
    using holdingD(4)[OF h] c unfolding Let_def
    by (intro wp_andthen wp_put[OF h] wp_going_on) (simp_all add: phase_ok_def)
  show ?thesis
    unfolding restarted_candidate_def
    using holdingD(1)[OF h] rollback put wp_going_on[OF h] c by (auto split: sum.split)
qed

lemma holding_status:
  "holding x parse rec first j d \<Longrightarrow> holding x parse rec first j (d\<lparr>sd_status := s\<rparr>)"
  by (simp add: holding_def)

lemma holding_report:
  "holding x parse rec first j d \<Longrightarrow> report_ok x parse rec r \<Longrightarrow>
   holding x parse rec first j (sd_reports_update (\<lambda>rs. rs @ [r]) d)"
  by (simp add: holding_def sup_ok_report)

lemma wp_take_permit:
  assumes h: "holding x parse rec first j d" and c: "j_phase j = Candidate"
    and b: "j_candidate_boot_id j = Some boot"
  shows "wp (take_permit x parse rec j boot envelope) (\<lambda>j'. holding x parse rec first j')
    (sup_ok x parse rec first) d"
proof -
  let ?j = "j\<lparr>j_phase := Committed, j_finalize := Some \<lparr>kp_payload = su_payload envelope,
    kp_signature = su_signature envelope, kp_key_id = su_key_id envelope\<rparr>\<rparr>"
  have commit: "wp (let j' = ?j in andthen (put_journal j') (\<lambda>_. ret j'))
      (\<lambda>j'. holding x parse rec first j') (sup_ok x parse rec first) d"
    if "and_then (verify_envelope x parse rec envelope) (\<lambda>permit. verify_finalize t permit (j_offer j) boot) = Inr u"
    for t u
  proof -
    have "commit_proved x parse rec ?j"
      using that b
      by (cases envelope) (auto simp: commit_proved_def and_then_Inr verify_finalize_def split: if_splits)
    then show ?thesis
      using holdingD(4)[OF h] c unfolding Let_def
      by (intro wp_andthen wp_put[OF h] wp_ret) (simp_all add: phase_ok_def)
  qed
  show ?thesis
    unfolding take_permit_def
    using holdingD(1)[OF h] holding_status[OF h] commit by (auto split: sum.split)
qed

lemma wp_candidate_health:
  assumes h: "holding x parse rec first j d" and c: "j_phase j = Candidate"
  shows "wp (candidate_health x parse show_uuid rec j) (\<lambda>j'. holding x parse rec first j')
    (sup_ok x parse rec first) d"
proof -
  have told: "wp (let j' = j\<lparr>j_candidate_boot_id := Some (he_boot_id health)\<rparr>
       in andthen (put_journal j') (\<lambda>_.
          andthen (attempt (report j' ''candidate_health'' (he_boot_id health) (he_revision health)))
            (answered_health x parse rec j' (he_boot_id health))))
      (\<lambda>j'. holding x parse rec first j') (sup_ok x parse rec first) d" for health
  proof -
    let ?j = "j\<lparr>j_candidate_boot_id := Some (he_boot_id health)\<rparr>"
    have taken: "wp (answered_health x parse rec ?j (he_boot_id health) r)
        (\<lambda>j'. holding x parse rec first j') (sup_ok x parse rec first) e"
      if "holding x parse rec first ?j e" for r e
      unfolding answered_health_def using that c
      by (auto intro!: wp_take_permit split: sum.split option.split)
    have reported: "wp (attempt (report ?j ''candidate_health'' (he_boot_id health) (he_revision health)))
        (\<lambda>r. wp (answered_health x parse rec ?j (he_boot_id health) r)
          (\<lambda>j'. holding x parse rec first j') (sup_ok x parse rec first)) (sup_ok x parse rec first) e"
      if e: "holding x parse rec first ?j e" for e
      by (intro wp_attempt wp_report conjI allI taken holdingD(1)[where j = ?j] holding_report[OF e] report_ok_other) simp_all
    show ?thesis
      using holdingD(4)[OF h] c unfolding Let_def
      by (intro wp_andthen wp_put[OF h] reported) (simp_all add: phase_ok_def)
  qed
  show ?thesis
    unfolding candidate_health_def
    using holdingD(1)[OF h] told h by (auto split: option.split)
qed

lemma wp_overdue:
  assumes "holding x parse rec first j d"
  shows "wp (overdue x j) (moved x parse rec first (\<lambda>j. True)) (sup_ok x parse rec first) d"
  unfolding overdue_def using wp_going_on[OF assms] wp_rollback_returning[OF assms] holdingD(1)[OF assms]
  by auto


lemma wp_advance_candidate:
  assumes h: "holding x parse rec first j d"
  shows "wp (advance_candidate x parse show_uuid rec j) (moved x parse rec first (\<lambda>j. True))
    (sup_ok x parse rec first) d"
proof (cases "j_phase j = Candidate")
  case True
  have "wp (andthen (candidate_health x parse show_uuid rec k) (overdue x))
      (moved x parse rec first (\<lambda>j. True)) (sup_ok x parse rec first) e"
    if "holding x parse rec first k e" "j_phase k = Candidate" for k e
    by (intro wp_andthen wp_post[OF wp_candidate_health[OF that]] wp_overdue)
  then show ?thesis
    unfolding advance_candidate_def using True wp_unless_returned[OF wp_restarted_candidate[OF h True]] by simp
next
  case False
  then show ?thesis unfolding advance_candidate_def using wp_going_on[OF h] by simp
qed

section \<open>Telling the end\<close>

lemma wp_report_end:
  assumes h: "holding x parse rec first j d"
    and e: "(j_phase j = Committed \<and> phase = ''committed'' \<and> boot = j_candidate_boot_id j \<and> revision = target_revision j) \<or>
      (j_phase j = RolledBack \<and> phase = ''rolled_back'')"
  shows "wp (report_end j boot revision phase) (\<lambda>a. sup_ok x parse rec first) (sup_ok x parse rec first) d"
proof -
  have ok: "report_ok x parse rec r"
    if "ur_phase r = phase" "ur_attempt_id r = of_attempt_id (j_offer j)" "boot = Some (ur_boot_id r)"
      "ur_revision r = revision" for r
    using e that holdingD(4)[OF h] by (auto simp: report_ok_def phase_ok_def)
  have told: "holding x parse rec first j (sd_reports_update (\<lambda>rs. rs @ [r]) d)"
    if "ur_phase r = phase" "ur_attempt_id r = of_attempt_id (j_offer j)" "boot = Some (ur_boot_id r)"
      "ur_revision r = revision" for r
    by (rule holding_report[OF h ok[OF that]])
  have finished: "wp (case a of (taken, finalize) \<Rightarrow>
        andthen (ensure taken ''durable report was not accepted'') (\<lambda>_. finish j phase))
      (\<lambda>a. sup_ok x parse rec first) (sup_ok x parse rec first) (sd_reports_update (\<lambda>rs. rs @ [r]) d)"
    if "ur_phase r = phase" "ur_attempt_id r = of_attempt_id (j_offer j)" "boot = Some (ur_boot_id r)"
      "ur_revision r = revision" for a r
    using told[OF that] e by (cases a) (auto intro!: wp_finish_holding holdingD(1))
  show ?thesis
  proof (cases boot)
    case None
    then show ?thesis unfolding report_end_def using holdingD(1)[OF h] by auto
  next
    case (Some b)
    show ?thesis
      unfolding report_end_def Some option.case
      by (intro wp_andthen wp_now wp_report conjI allI finished holdingD(1)[where j = j] told holdingD(1)[OF h])
        (simp_all add: Some)
  qed
qed

lemma wp_advance_rolling_back:
  assumes h: "holding x parse rec first j d" and r: "j_phase j = RollingBack"
  shows "wp (advance_rolling_back x show_uuid j) (\<lambda>j'. holding x parse rec first j') (sup_ok x parse rec first) d"
proof -
  let ?ran = "\<lambda>k e. holding x parse rec first k e \<and> j_phase k = RollingBack \<and>
    has_hash x (sd_runtime e) (j_previous_sha256 k)"
  have restore: "wp (restore_previous x j) (\<lambda>a e. ?ran j e) (sup_ok x parse rec first) d"
    by (rule wp_restore_previous[OF holdingD(3)[OF h]])
      (use h r in \<open>auto simp: holding_iff sup_ok_def phase_ok_def\<close>)
  have restart: "wp (if j_restart_completed j then ret j
              else andthen restart_agent (\<lambda>_.
                let j' = j\<lparr>j_restart_completed := True\<rparr>
                in andthen (put_journal j') (\<lambda>_. ret j'))) ?ran (sup_ok x parse rec first) e"
    if "?ran j e" for e
  proof -
    have "wp (put_journal (j\<lparr>j_restart_completed := True\<rparr>)) (\<lambda>a. ?ran (j\<lparr>j_restart_completed := True\<rparr>))
        (sup_ok x parse rec first) e"
      using that by (intro wp_put[of _ _ _ _ j]) (simp_all add: phase_ok_def)
    then show ?thesis
      using that holdingD(1)[of x parse rec first j e] unfolding Let_def
      by (auto intro!: wp_restart_agent del: wp_put_journal elim!: wp_post)
  qed
  have health: "wp (andthen (matching_health show_uuid k True) (\<lambda>h.
       case h of
         None \<Rightarrow> andthen (report_failure k) (\<lambda>_. ret k)
       | Some health \<Rightarrow>
           (let j' = k\<lparr>j_rollback_boot_id := Some (he_boot_id health), j_phase := RolledBack\<rparr>
            in andthen (put_journal j') (\<lambda>_. ret j')))) (\<lambda>j'. holding x parse rec first j')
      (sup_ok x parse rec first) e"
    if k: "?ran k e" for k e
  proof -
    have failed: "wp (andthen (report_failure k) (\<lambda>_. ret k)) (\<lambda>j'. holding x parse rec first j')
        (sup_ok x parse rec first) e"
      by (intro wp_andthen wp_report_failure conjI wp_ret)
        (use k in \<open>simp_all add: holding_def sup_ok_report report_ok_other\<close>)
    have written: "holding x parse rec first (k\<lparr>j_rollback_boot_id := Some (he_boot_id health), j_phase := RolledBack\<rparr>)
        (e\<lparr>sd_journal := Some (k\<lparr>j_rollback_boot_id := Some (he_boot_id health), j_phase := RolledBack\<rparr>)\<rparr>)"
      if "he_boot_id health \<noteq> j_previous_boot_id k" "Some (he_boot_id health) \<noteq> j_candidate_boot_id k" for health
      using k that by (intro put_holding[of _ _ _ _ k]) (simp_all add: phase_ok_def rollback_proved_def)
    show ?thesis
      unfolding Let_def
      by (intro wp_andthen wp_matching_health) (use k failed written holdingD(1)[OF written] holdingD(1) in auto)
  qed
  show ?thesis
    unfolding advance_rolling_back_def
    by (rule wp_andthen, rule wp_post[OF restore], rule wp_andthen, rule wp_post[OF restart], assumption, rule health)
qed


lemma wp_advance_ends:
  assumes h: "holding x parse rec first j d"
  shows "wp (advance_ends x show_uuid j) (\<lambda>a. sup_ok x parse rec first) (sup_ok x parse rec first) d"
proof -
  let ?last = "\<lambda>k. if j_phase k = RolledBack
       then report_end k (j_rollback_boot_id k) (of_previous_revision (j_offer k)) ''rolled_back'' else ret ()"
  have last: "wp (?last k) (\<lambda>a. sup_ok x parse rec first) (sup_ok x parse rec first) e"
    if "holding x parse rec first k e" for k e
    using wp_report_end[OF that] holdingD(1)[OF that] by auto
  have committed: "wp (andthen (report_end j (j_candidate_boot_id j) (target_revision j) ''committed'') (\<lambda>_. ret j))
      (\<lambda>k. wp (?last k) (\<lambda>a. sup_ok x parse rec first) (sup_ok x parse rec first)) (sup_ok x parse rec first) d"
    if "j_phase j = Committed"
    by (intro wp_andthen wp_post[OF wp_report_end[OF h]] wp_ret) (use that in auto)
  show ?thesis
    unfolding advance_ends_def
    using committed wp_post[OF wp_advance_rolling_back[OF h] last] last[OF h]
    by (intro wp_andthen) (simp add: wp_ret)
qed

lemma wp_advance:
  assumes "holding x parse rec first j d"
  shows "wp (advance x parse show_uuid rec j) (\<lambda>a. sup_ok x parse rec first) (sup_ok x parse rec first) d"
proof -
  have "wp (unless_returned (unless_returned (advance_authorizing j) (advance_authorized x))
      (advance_candidate x parse show_uuid rec)) (moved x parse rec first (\<lambda>j. True)) (sup_ok x parse rec first) d"
    by (intro wp_unless_returned[where P = "\<lambda>j. True"] wp_advance_candidate wp_advance_authorized
        wp_advance_authorizing assms)
  then show ?thesis
    unfolding advance_def
    by (intro wp_andthen, elim wp_post)
      (auto simp: moved_def holding_def intro!: wp_advance_ends split: option.split)
qed

section \<open>Taking an offer\<close>

text \<open>A download writes nothing but the candidate.\<close>

definition but_candidate :: "sup_disk \<Rightarrow> sup_disk \<Rightarrow> bool" where
  "but_candidate d e \<longleftrightarrow> e\<lparr>sd_candidate := None\<rparr> = d\<lparr>sd_candidate := None\<rparr>"

lemma but_candidate_simps [simp]:
  "but_candidate d d" "but_candidate d (e\<lparr>sd_candidate := c\<rparr>) = but_candidate d e"
  by (simp_all add: but_candidate_def)

lemma but_candidateD:
  assumes "but_candidate d e"
  shows "sd_journal e = sd_journal d" "sd_runtime e = sd_runtime d" "sd_previous e = sd_previous d"
    "sd_reports e = sd_reports d"
  using assms by (cases d; cases e; simp add: but_candidate_def)+

lemma but_candidate_ok: "but_candidate d e \<Longrightarrow> sup_ok x parse rec first e = sup_ok x parse rec first d"
  by (simp add: sup_ok_def but_candidateD cong: option.case_cong)

lemma wp_write_chunks:
  "but_candidate d e \<Longrightarrow> wp (write_chunks got cs) (\<lambda>r. but_candidate d) (but_candidate d) e"
  by (induction cs arbitrary: got e) (auto simp: Let_def)

lemma wp_fetch_small: "but_candidate d e \<Longrightarrow> wp fetch_small (\<lambda>r. but_candidate d) (but_candidate d) e"
  unfolding fetch_small_def by (auto split: option.split)

lemma wp_utf8: "but_candidate d e \<Longrightarrow> wp (utf8 bytes) (\<lambda>r. but_candidate d) (but_candidate d) e"
  unfolding utf8_def by (auto split: option.split)

lemma wp_published: "but_candidate d e \<Longrightarrow> wp (published x arch build) (\<lambda>r. but_candidate d) (but_candidate d) e"
  unfolding published_def by (auto intro!: wp_post[OF wp_fetch_small] wp_post[OF wp_utf8])

lemma wp_binary_revision: "C e \<Longrightarrow> (\<And>r. Q r e) \<Longrightarrow> wp binary_revision Q C e"
  unfolding binary_revision_def by (auto split: option.split)

lemma wp_download:
  "wp (download_candidate x arch build) (\<lambda>r. but_candidate d) (but_candidate d) d"
  unfolding download_candidate_def
  by (auto intro!: wp_post[OF wp_published] wp_post[OF wp_write_chunks] wp_binary_revision
    split: sum.split option.split)


text \<open>The executable that runs is kept as the previous one.\<close>

lemma wp_retain_previous:
  assumes "sup_ok x parse rec first d" "sd_journal d = None"
  shows "wp retain_previous
    (\<lambda>a e. sup_ok x parse rec first e \<and> sd_journal e = None \<and> sd_previous e = sd_runtime e)
    (sup_ok x parse rec first) d"
  unfolding retain_previous_def using assms no_journal_previous[OF assms]
  by (auto intro!: no_journal_previous split: option.split)

lemma wp_start_attempt:
  assumes "sup_ok x parse rec first d" "sd_journal d = None"
  shows "wp (start_attempt x parse show_uuid rec health off candidate_sha256)
    (\<lambda>a. sup_ok x parse rec first) (sup_ok x parse rec first) d"
proof -
  have first_journal: "holding x parse rec first j (e\<lparr>sd_journal := Some j\<rparr>)"
    if "sup_ok x parse rec first e" "sd_journal e = None" "sd_previous e = sd_runtime e"
      and "has_hash x (sd_previous e) (j_previous_sha256 j)" "j_phase j = Authorizing" for j e
    using that has_hash_unique by (fastforce simp: holding_iff sup_ok_def phase_ok_def)
  have rest: "wp (andthen (hash_file x sd_previous) (\<lambda>previous_sha256. andthen now (\<lambda>t.
       let j = \<lparr>j_offer = off, j_phase = Authorizing, j_previous_sha256 = previous_sha256,
                j_candidate_sha256 = candidate_sha256, j_previous_boot_id = he_boot_id health,
                j_candidate_boot_id = None, j_rollback_boot_id = None, j_started_at_unix = t,
                j_failure_code = [], j_restart_completed = False, j_finalize = None\<rparr>
       in andthen (put_journal j) (\<lambda>_. advance x parse show_uuid rec j))))
      (\<lambda>a. sup_ok x parse rec first) (sup_ok x parse rec first) e"
    if "sup_ok x parse rec first e \<and> sd_journal e = None \<and> sd_previous e = sd_runtime e" for e
    unfolding Let_def
    by (intro wp_andthen wp_hash_file wp_now wp_put_journal wp_advance holdingD(1)[OF first_journal] first_journal)
      (use that in simp_all)
  show ?thesis
    unfolding start_attempt_def by (rule wp_andthen, rule wp_post[OF wp_retain_previous[OF assms]], rule rest)
qed

lemma wp_take_offer:
  assumes "sup_ok x parse rec first d" "sd_journal d = None"
  shows "wp (take_offer x parse show_uuid arch rec registration health envelope)
    (\<lambda>a. sup_ok x parse rec first) (sup_ok x parse rec first) d"
proof -
  have ok: "sup_ok x parse rec first e \<and> sd_journal e = None" if "but_candidate d e" for e
    using assms but_candidate_ok[OF that] but_candidateD(1)[OF that] by simp
  have downloaded: "wp (case r of
         Inr candidate_sha256 \<Rightarrow> start_attempt x parse show_uuid rec health off candidate_sha256
       | Inl why \<Rightarrow>
           andthen (remove_regular sd_candidate (sd_candidate_update (\<lambda>_. None))) (\<lambda>_.
             set_status ''unavailable'' (Some (pb_revision (of_target off))) (Some ''artifact_unavailable'')))
      (\<lambda>a. sup_ok x parse rec first) (sup_ok x parse rec first) e"
    if "but_candidate d e" for off r e
    using ok[OF that] by (auto intro!: wp_start_attempt split: sum.split)
  show ?thesis
    unfolding take_offer_def
    by (intro wp_andthen wp_from_sum wp_now wp_ensure wp_binary_revision wp_attempt assms(1)
        wp_conseq[OF wp_download] conjI allI downloaded) (simp_all add: ok)
qed

lemma wp_poll:
  assumes "sup_ok x parse rec first d" "sd_journal d = None"
  shows "wp (poll x parse show_uuid arch rec registration)
    (\<lambda>a. sup_ok x parse rec first) (sup_ok x parse rec first) d"
  unfolding poll_def using assms wp_take_offer[OF assms]
  by (auto intro!: wp_answered split: option.split)

lemma wp_sup_pass:
  assumes "sup_ok x parse rec first d"
  shows "wp (sup_pass x parse show_uuid arch (Some rec) registration)
    (\<lambda>a. sup_ok x parse rec first) (sup_ok x parse rec first) d"
proof -
  have found: "wp (case sd_journal d of
                 Some j \<Rightarrow>
                   andthen (ensure (show_uuid (of_machine_id (j_offer j)) = mr_machine_id rec \<and>
                       of_registration_key (j_offer j) = registration)
                     ''registration changed during an unresolved update; manual recovery required'') (\<lambda>_.
                     advance x parse show_uuid rec j)
               | None \<Rightarrow> poll x parse show_uuid arch rec registration)
      (\<lambda>a. sup_ok x parse rec first) (sup_ok x parse rec first) d"
    using assms by (auto intro!: wp_poll wp_advance simp: holding_def split: option.split)
  show ?thesis
    unfolding sup_pass_def using assms found by (auto intro!: wp_ret wp_io)
qed

lemma wp_follow_command:
  "sup_ok x parse rec first d \<Longrightarrow>
   wp (follow_command c) (\<lambda>a. sup_ok x parse rec first) (sup_ok x parse rec first) d"
  unfolding follow_command_def by auto

end
