(* ===== verification/Supervisor_Props.thy ===== *)
theory Supervisor_Props
  imports Supervisor_Steps
begin

text \<open>
  What the supervisor promises of every run of its passes and of the local commands under one
  registration, each cut short at any point: the executable to return to is kept while an update
  stands, and a commit is told of only with a permit of the instance for the boot that is told.
\<close>

section \<open>Runs\<close>

text \<open>The files a series of passes and commands leads to. The answers of each are any list, so each
  may fail or die anywhere.\<close>

inductive supervised ::
  "crypto \<Rightarrow> (octet list \<Rightarrow> offer option) \<Rightarrow> (uuid \<Rightarrow> string) \<Rightarrow> string \<Rightarrow> machine_record \<Rightarrow> string \<Rightarrow>
   sup_disk \<Rightarrow> sup_disk \<Rightarrow> bool"
  for x parse show_uuid arch rec registration d where
  start: "supervised x parse show_uuid arch rec registration d d"
| passed: "supervised x parse show_uuid arch rec registration d e \<Longrightarrow>
     supervised x parse show_uuid arch rec registration d
       (left_on_disk (sup_pass x parse show_uuid arch (Some rec) registration e answers))"
| commanded: "supervised x parse show_uuid arch rec registration d e \<Longrightarrow>
     supervised x parse show_uuid arch rec registration d (left_on_disk (follow_command c e answers))"

text \<open>Where a registration starts: no update stands, and nothing was told.\<close>

definition fresh :: "crypto \<Rightarrow> string \<Rightarrow> sup_disk \<Rightarrow> bool" where
  "fresh x first d \<longleftrightarrow> sd_journal d = None \<and> sd_reports d = [] \<and> has_hash x (sd_runtime d) first"

lemma supervised_ok:
  assumes "supervised x parse show_uuid arch rec registration d e" "fresh x first d"
  shows "sup_ok x parse rec first e"
  using assms(1)
proof induction
  case start
  then show ?case using assms(2) by (auto simp: sup_ok_def fresh_def accepted_def)
next
  case (passed e answers)
  then show ?case by (intro wp_left[OF wp_sup_pass])
next
  case (commanded e c answers)
  then show ?case by (intro wp_left[OF wp_follow_command])
qed

lemma verify_envelope_signed:
  assumes "verify_envelope x parse rec envelope = Inr permit"
  shows "\<exists>key. pinned_bytes x (mr_trust_key rec) = Some key \<and>
    signed_by x key (SIGNATURE_PREFIX @ su_payload envelope) (su_signature envelope) \<and>
    su_key_id envelope = pk_key_id (mr_trust_key rec) \<and> parse (su_payload envelope) = Some permit"
  using assms by (auto simp: verify_envelope_def split: if_splits option.splits sum.splits)

section \<open>A rollback can be finished\<close>

lemma works_io: "works io d () d"
  unfolding io_def by (intro works_andthen[OF works_ask[of _ "Io True"]] works_ensure) simp_all

lemma works_now: "works now d t d"
  unfolding now_def by (rule works_ask[of _ "Clock t"]) simp

lemma works_read_json: "works (read_json f) d (f d) d"
  unfolding read_json_def by (intro works_andthen[OF works_io] works_look)

lemma works_atomic_json: "works (atomic_json put) d () (put d)"
  unfolding atomic_json_def
  by (intro works_andthen[OF works_io] works_andthen[OF works_change] works_io)

lemma works_put_journal: "works (put_journal j) d () (d\<lparr>sd_journal := Some j\<rparr>)"
  unfolding put_journal_def using works_atomic_json[of "sd_journal_update (\<lambda>_. Some j)" d] by simp

lemma works_hash_file: "has_hash x (f d) h \<Longrightarrow> works (hash_file x f) d h d"
  unfolding hash_file_def has_hash_def
  by (rule works_andthen[OF works_io], rule works_andthen[OF works_look]) (auto intro: works_ret)

lemma works_hash_ok: "has_hash x (f d) h \<Longrightarrow> works (hash_ok x f) d (Some h) d"
  unfolding hash_ok_def
  by (rule works_andthen[OF works_attempt[OF works_hash_file]], assumption) (simp, rule works_ret)

lemma works_restart: "works restart_agent d () d"
  unfolding restart_agent_def by (intro works_andthen[OF works_ask[of _ "Restarted True"]] works_ensure) simp_all

lemma works_set_status: "\<exists>s. works (set_status state target failure) d () (d\<lparr>sd_status := Some s\<rparr>)"
  unfolding set_status_def using works_andthen[OF works_now works_atomic_json] by fastforce

lemma works_remove:
  assumes "f d = None \<Longrightarrow> clear d = d"
  shows "works (remove_regular f clear) d () (clear d)"
proof -
  have "works (case f d of None \<Rightarrow> ret () | Some y \<Rightarrow> change clear) d () (clear d)"
    using assms works_ret works_change[of clear d] by (cases "f d") auto
  then show ?thesis
    unfolding remove_regular_def by (intro works_andthen[OF works_io] works_andthen[OF works_look])
qed

lemma works_finish:
  "\<exists>e. works (finish j state) d () e \<and> sd_journal e = None \<and> sd_runtime e = sd_runtime d"
proof -
  obtain s where s: "works (set_status state (Some (target_revision j))
      (if j_failure_code j = [] then None else Some (j_failure_code j))) d () (d\<lparr>sd_status := Some s\<rparr>)"
    using works_set_status by blast
  have "works (finish j state) d ()
      (d\<lparr>sd_status := Some s, sd_journal := None, sd_previous := None, sd_candidate := None\<rparr>)"
    unfolding finish_def sync_parent_def
    by (rule works_andthen[OF s], rule works_andthen[OF works_remove], simp, rule works_andthen[OF works_io],
        rule works_andthen[OF works_remove], simp, rule works_andthen[OF works_remove], simp) (simp add: works_io)
  then show ?thesis
    by (intro exI[of _ "d\<lparr>sd_status := Some s, sd_journal := None, sd_previous := None, sd_candidate := None\<rparr>"]
        conjI) simp_all
qed

lemma works_restore:
  assumes "has_hash x (sd_previous d) (j_previous_sha256 j)" "sd_runtime d = Some r"
  shows "\<exists>b. works (restore_previous x j) d () (d\<lparr>sd_runtime := b\<rparr>) \<and> has_hash x b (j_previous_sha256 j)"
proof (cases "file_sha256 x r = j_previous_sha256 j")
  case True
  have "works (restore_previous x j) d () d"
    unfolding restore_previous_def
    by (intro works_andthen[OF works_hash_file[of x sd_previous d, OF assms(1)]] works_andthen[OF works_ensure]
        works_andthen[OF works_hash_ok[of x sd_runtime d "file_sha256 x r"]])
      (simp_all add: assms(2) True works_ret)
  then have "works (restore_previous x j) d () (d\<lparr>sd_runtime := sd_runtime d\<rparr>)" by simp
  then show ?thesis using True assms(2) by (intro exI[of _ "sd_runtime d"] conjI) simp_all
next
  case False
  have "works (restore_previous x j) d () (d\<lparr>sd_runtime := sd_previous d\<rparr>)"
    unfolding restore_previous_def sync_parent_def
    by (intro works_andthen[OF works_hash_file[of x sd_previous d, OF assms(1)]] works_andthen[OF works_ensure]
        works_andthen[OF works_hash_ok[of x sd_runtime d "file_sha256 x r"]])
      (simp_all add: assms(2) False works_andthen[OF works_io] works_andthen[OF works_change] works_io)
  then show ?thesis using assms(1) by blast
qed

text \<open>The agent came up at the previous revision, at a boot of its own.\<close>

definition restored_health :: "(uuid \<Rightarrow> string) \<Rightarrow> journal \<Rightarrow> int \<Rightarrow> health \<Rightarrow> bool" where
  "restored_health show_uuid j t h \<longleftrightarrow>
     healthy t h (show_uuid (of_machine_id (j_offer j))) (of_registration_key (j_offer j))
       (of_previous_revision (j_offer j)) \<and>
     he_boot_id h \<noteq> j_previous_boot_id j \<and> Some (he_boot_id h) \<noteq> j_candidate_boot_id j"

lemma works_matching_health:
  "restored_health show_uuid j t h \<Longrightarrow> works (matching_health show_uuid j True) d (Some h) d"
  unfolding matching_health_def restored_health_def
  by (rule works_andthen[OF works_io], rule works_andthen[OF works_ask[of _ "ReadHealth (Some h)"]])
    (auto intro!: works_andthen[OF works_now[of _ t]] simp: Let_def works_ret)

lemma works_report:
  "\<exists>r. works (report j phase boot revision) d (True, None) (sd_reports_update (\<lambda>rs. rs @ [r]) d)"
proof
  show "works (report j phase boot revision) d (True, None) (sd_reports_update (\<lambda>rs. rs @
      [\<lparr>ur_attempt_id = of_attempt_id (j_offer j), ur_generation = of_generation (j_offer j),
        ur_phase = phase, ur_boot_id = boot, ur_revision = revision,
        ur_failure_code = j_failure_code j\<rparr>]) d)"
    unfolding report_def
    by (intro works_andthen[OF works_change] works_andthen[OF works_ask[of _ "Reported (Some (True, None))"]])
      (simp, simp add: answered_def, rule works_ret)
qed

lemma works_report_end:
  "\<exists>e. works (report_end j (Some b) revision phase) d () e \<and> sd_journal e = None \<and> sd_runtime e = sd_runtime d"
proof -
  obtain r where r: "works (report j phase b revision) d (True, None) (sd_reports_update (\<lambda>rs. rs @ [r]) d)"
    using works_report by blast
  obtain e where e: "works (finish j phase) (sd_reports_update (\<lambda>rs. rs @ [r]) d) () e"
      "sd_journal e = None" "sd_runtime e = sd_runtime d"
    using works_finish[of j phase "sd_reports_update (\<lambda>rs. rs @ [r]) d"] by auto
  have "works (report_end j (Some b) revision phase) d () e"
    unfolding report_end_def option.case
    by (intro works_andthen[OF works_now] works_andthen[OF r]) (simp add: works_andthen[OF works_ensure e(1)])
  with e(2,3) show ?thesis by blast
qed

lemma works_rolling_back:
  assumes "has_hash x (sd_previous d) (j_previous_sha256 j)" "sd_runtime d = Some r"
    and "restored_health show_uuid j t h"
  shows "\<exists>k e. works (advance_rolling_back x show_uuid j) d k e \<and> j_phase k = RolledBack \<and>
    j_rollback_boot_id k = Some (he_boot_id h) \<and> has_hash x (sd_runtime e) (j_previous_sha256 j)"
proof -
  obtain b where b: "works (restore_previous x j) d () (d\<lparr>sd_runtime := b\<rparr>)"
      "has_hash x b (j_previous_sha256 j)"
    using works_restore[OF assms(1,2)] by blast
  obtain k e where k: "works (if j_restart_completed j then ret j
      else andthen restart_agent (\<lambda>_. let j' = j\<lparr>j_restart_completed := True\<rparr>
        in andthen (put_journal j') (\<lambda>_. ret j'))) (d\<lparr>sd_runtime := b\<rparr>) k e"
      "restored_health show_uuid k t h" "sd_runtime e = b"
  proof (cases "j_restart_completed j")
    case True
    then show ?thesis by (intro that[of j "d\<lparr>sd_runtime := b\<rparr>"]) (simp_all add: assms(3) works_ret)
  next
    case False
    have "works (andthen restart_agent (\<lambda>_. andthen (put_journal (j\<lparr>j_restart_completed := True\<rparr>))
        (\<lambda>_. ret (j\<lparr>j_restart_completed := True\<rparr>)))) (d\<lparr>sd_runtime := b\<rparr>) (j\<lparr>j_restart_completed := True\<rparr>)
        (d\<lparr>sd_runtime := b, sd_journal := Some (j\<lparr>j_restart_completed := True\<rparr>)\<rparr>)"
      by (rule works_andthen[OF works_restart], rule works_andthen[OF works_put_journal], rule works_ret)
    then show ?thesis
      by (intro that[of "j\<lparr>j_restart_completed := True\<rparr>"
            "d\<lparr>sd_runtime := b, sd_journal := Some (j\<lparr>j_restart_completed := True\<rparr>)\<rparr>"])
        (use False assms(3) in \<open>simp_all add: Let_def restored_health_def\<close>)
  qed
  let ?k = "k\<lparr>j_rollback_boot_id := Some (he_boot_id h), j_phase := RolledBack\<rparr>"
  have "works (advance_rolling_back x show_uuid j) d ?k (e\<lparr>sd_journal := Some ?k\<rparr>)"
    unfolding advance_rolling_back_def
    by (rule works_andthen[OF b(1)], rule works_andthen[OF k(1)],
        rule works_andthen[OF works_matching_health[OF k(2)]])
      (simp add: Let_def, rule works_andthen[OF works_put_journal works_ret])
  then show ?thesis
    by (intro exI[of _ ?k] exI[of _ "e\<lparr>sd_journal := Some ?k\<rparr>"] conjI) (simp_all add: k(3) b(2))
qed

lemma works_advance:
  assumes "j_phase j = RollingBack" "has_hash x (sd_previous d) (j_previous_sha256 j)" "sd_runtime d = Some r"
    and "restored_health show_uuid j t h"
  shows "\<exists>e. works (advance x parse show_uuid rec j) d () e \<and> sd_journal e = None \<and>
    has_hash x (sd_runtime e) (j_previous_sha256 j)"
proof -
  obtain k e where k: "works (advance_rolling_back x show_uuid j) d k e" "j_phase k = RolledBack"
      "j_rollback_boot_id k = Some (he_boot_id h)" "has_hash x (sd_runtime e) (j_previous_sha256 j)"
    using works_rolling_back[OF assms(2-)] by blast
  obtain f where f: "works (report_end k (Some (he_boot_id h)) (of_previous_revision (j_offer k)) ''rolled_back'')
      e () f" "sd_journal f = None" "sd_runtime f = sd_runtime e"
    using works_report_end by blast
  have "works (advance_ends x show_uuid j) d () f"
    unfolding advance_ends_def by (rule works_andthen[of _ _ k e]) (simp_all add: assms(1) k f(1))
  moreover have "works (unless_returned (unless_returned (advance_authorizing j) (advance_authorized x))
      (advance_candidate x parse show_uuid rec)) d (Some j) d"
    unfolding unless_returned_def advance_authorizing_def advance_authorized_def advance_candidate_def going_on_def
    by (rule works_andthen[of _ _ "Some j" d], rule works_andthen[of _ _ "Some j" d])
      (simp_all add: assms(1) works_ret)
  ultimately have "works (advance x parse show_uuid rec j) d () f"
    unfolding advance_def by (intro works_andthen[of _ d "Some j" d]) simp_all
  with f(2,3) k(4) show ?thesis by (intro exI[of _ f]) simp
qed

lemma works_pass:
  assumes "sd_journal d = Some j" "works (advance x parse show_uuid rec j) d () e"
    and "show_uuid (of_machine_id (j_offer j)) = mr_machine_id rec"
    and "of_registration_key (j_offer j) = registration"
  shows "works (sup_pass x parse show_uuid arch (Some rec) registration) d () e"
proof -
  have "works (andthen (ensure (show_uuid (of_machine_id (j_offer j)) = mr_machine_id rec \<and>
        of_registration_key (j_offer j) = registration)
      ''registration changed during an unresolved update; manual recovery required'') (\<lambda>_.
      advance x parse show_uuid rec j)) d () e"
    by (rule works_andthen[OF works_ensure assms(2)]) (simp add: assms(3,4))
  then show ?thesis
    unfolding sup_pass_def
    by (intro works_andthen[OF works_ask[of lock_answer "Lock True" True]])
      (simp, simp only: not_True_eq_False if_False option.case, intro works_andthen[OF works_io],
        rule works_andthen[OF works_read_json], simp only: assms(1) option.case)
qed

section \<open>A run\<close>

definition sample_crypto :: crypto where
  "sample_crypto =
     \<lparr>unhex = (\<lambda>s. Some (replicate 32 0)),
      hexed = (\<lambda>b. replicate 64 (if b = [1] then CHR ''a'' else CHR ''b'')),
      sha256 = (\<lambda>b. b), key_parses = (\<lambda>b. True), signature_parses = (\<lambda>b. True),
      verify_strict = (\<lambda>key message sig. True)\<rparr>"

definition sample_key :: pinned_key where
  "sample_key = \<lparr>pk_key_id = ''k'', pk_public_key = ''00'', pk_purpose = ''organisation''\<rparr>"

definition sample_record :: machine_record where
  "sample_record =
     \<lparr>mr_machine_id = ''m'', mr_name = ''m'', mr_pool = ''organisation'', mr_organisation_id = ''o'',
      mr_instance_url = ''https://h'', mr_instance_key = sample_key, mr_trust_key = sample_key,
      mr_heartbeat_interval_seconds = 5, mr_registered_at_unix = 0, mr_network = None\<rparr>"

definition sample_offer :: offer where
  "sample_offer =
     \<lparr>of_kind = ''offer'', of_attempt_id = 7, of_machine_id = 1, of_registration_key = ''r'',
      of_generation = 3, of_previous_revision = replicate 40 CHR ''c'',
      of_target = \<lparr>pb_revision = replicate 40 CHR ''d'', pb_package = ''main-'' @ replicate 40 CHR ''d''\<rparr>,
      of_expires_at_unix = 1000, of_boot_id = None, of_permit = False\<rparr>"

definition sample_parse :: "octet list \<Rightarrow> offer option" where
  "sample_parse payload =
     (if payload = [0] then Some sample_offer
      else if payload = [1]
      then Some (sample_offer\<lparr>of_kind := ''finalize'', of_boot_id := Some 5, of_permit := True\<rparr>)
      else None)"

definition sample_envelope :: "octet \<Rightarrow> signed_update" where
  "sample_envelope b = \<lparr>su_payload = [b], su_signature = [], su_key_id = ''k''\<rparr>"

definition sample_health :: "uuid \<Rightarrow> string \<Rightarrow> health" where
  "sample_health boot revision =
     \<lparr>he_machine_id = ''m'', he_registration_key = ''r'', he_boot_id = boot, he_revision = revision,
      he_ready = True, he_observed_at_unix = 100\<rparr>"

definition sample_start :: sup_disk where
  "sample_start =
     \<lparr>sd_follow = Some \<lparr>fp_enabled = True, fp_paused = False\<rparr>, sd_status = None, sd_journal = None,
      sd_runtime = Some [1], sd_previous = None, sd_candidate = None, sd_reports = []\<rparr>"

text \<open>An offer is taken and downloaded, then authorised and installed.\<close>

definition sample_taken :: "sup_answer list" where
  "sample_taken =
     [Lock True, Io True, Io True, Io True, Io True, Io True, Io True,
      ReadHealth (Some (sample_health 4 (replicate 40 CHR ''c''))), Clock 100,
      Polled (Some (Some (sample_envelope 0))), Clock 100, Identity (Some (replicate 40 CHR ''c'')),
      Small (Some (replicate 64 0x62)), Io True, Io True, Download (Some (Some 1, [[2]], True)), Io True,
      Io True, Identity (Some (replicate 40 CHR ''d'')), Io True, Io True, Io True,
      Io True, Io True, Io True, Io True, Io True, Clock 100, Io True, Io True]"

definition sample_authorised :: "sup_answer list" where
  "sample_authorised =
     [Io True, Begun (Some True), Clock 100, Io True, Io True,
      Io True, Io True, Io True, Io True, Io True, Io True, Restarted True, Io True, Io True]"

text \<open>The candidate is healthy at its boot, the instance permits it, and the end is told.\<close>

definition sample_committed :: "sup_answer list" where
  "sample_committed =
     [Io True, ReadHealth (Some (sample_health 5 (replicate 40 CHR ''d''))), Clock 100, Io True, Io True,
      Reported (Some (True, Some (sample_envelope 1))), Clock 100, Io True, Io True,
      Clock 100, Reported (Some (True, None)), Clock 100, Io True, Io True, Io True, Io True, Io True,
      Io True, Io True]"

definition sample_run :: "sup_answer list \<Rightarrow> sup_disk" where
  "sample_run answers =
     left_on_disk (sup_pass sample_crypto sample_parse (\<lambda>n. ''m'') ''x86_64'' (Some sample_record) ''r''
       sample_start answers)"

lemmas sample_defs = sample_run_def sample_crypto_def sample_key_def sample_record_def sample_offer_def
  sample_parse_def sample_envelope_def sample_health_def sample_start_def sample_taken_def
  sample_authorised_def sample_committed_def

lemma sample_supervised:
  "supervised sample_crypto sample_parse (\<lambda>n. ''m'') ''x86_64'' sample_record ''r'' sample_start
     (sample_run answers)"
  unfolding sample_run_def by (rule supervised.passed[OF supervised.start])

lemma sample_start_fresh: "fresh sample_crypto (replicate 64 CHR ''a'') sample_start"
  by (simp add: fresh_def sample_start_def file_sha256_def sample_crypto_def)

lemma sample_run_installed:
  "map_option j_phase (sd_journal (sample_run (sample_taken @ sample_authorised))) = Some Candidate \<and>
   sd_runtime (sample_run (sample_taken @ sample_authorised)) = Some [2]"
  by code_simp

lemma sample_run_previous:
  "map_option j_previous_sha256 (sd_journal (sample_run (sample_taken @ sample_authorised))) =
     Some (replicate 64 CHR ''a'')"
  by code_simp

lemma sample_run_ends:
  "map ur_phase (sd_reports (sample_run (sample_taken @ sample_authorised @ sample_committed))) =
     [''candidate_health'', ''committed'']"
  by code_simp

text \<open>The candidate is not healthy in time.\<close>

definition sample_failed :: "sup_answer list" where
  "sample_failed = [Io True, ReadHealth None, Clock 220, Io True, Io True, Io False]"

lemma sample_run_fails:
  "\<exists>j. sd_journal (sample_run (sample_taken @ sample_authorised @ sample_failed)) = Some j \<and>
     j_phase j = RollingBack \<and> of_machine_id (j_offer j) = 1 \<and> of_registration_key (j_offer j) = ''r'' \<and>
     of_previous_revision (j_offer j) = replicate 40 CHR ''c'' \<and> j_previous_boot_id j = 4 \<and>
     j_candidate_boot_id j = None"
proof -
  have "map_option (\<lambda>j. (j_phase j, of_machine_id (j_offer j), of_registration_key (j_offer j),
        of_previous_revision (j_offer j), j_previous_boot_id j, j_candidate_boot_id j))
      (sd_journal (sample_run (sample_taken @ sample_authorised @ sample_failed))) =
    Some (RollingBack, 1, ''r'', replicate 40 CHR ''c'', 4, None)"
    by code_simp
  then show ?thesis by auto
qed

text \<open>That pass ended between the two writes of \<open>begin_rollback\<close>: the journal says that the update is
  being undone, and following was not paused yet. The passes that finish the rollback do not pause it
  either, while a rollback whose first pass goes through does.\<close>

definition sample_undone :: "sup_answer list" where
  "sample_undone =
     [Lock True, Io True, Io True, Io True, Io True,
      Io True, Io True, Io True, Io True, Io True, Io True, Restarted True, Io True, Io True,
      Io True, ReadHealth (Some (sample_health 6 (replicate 40 CHR ''c''))), Clock 100, Io True, Io True,
      Clock 100, Reported (Some (True, None)), Clock 100, Io True, Io True, Io True, Io True, Io True, Io True, Io True]"

definition sample_failed_through :: "sup_answer list" where
  "sample_failed_through =
     [Io True, ReadHealth None, Clock 220, Io True, Io True, Io True, Io True, Io True]"

definition sample_after_crash :: sup_disk where
  "sample_after_crash =
     left_on_disk (sup_pass sample_crypto sample_parse (\<lambda>n. ''m'') ''x86_64'' (Some sample_record) ''r''
       (sample_run (sample_taken @ sample_authorised @ sample_failed)) sample_undone)"

lemma crash_leaves_following:
  "sd_follow sample_after_crash = Some \<lparr>fp_enabled = True, fp_paused = False\<rparr> \<and>
   map ur_phase (sd_reports sample_after_crash) = [''rolled_back'']"
  by code_simp

lemma rollback_pauses_following:
  "sd_follow (sample_run (sample_taken @ sample_authorised @ sample_failed_through)) =
     Some \<lparr>fp_enabled = True, fp_paused = True\<rparr>"
  by code_simp

section \<open>Properties\<close>

text \<open>C35: While an update stands, the executable it started from is kept and it or the candidate runs,
  as the phase has it; where none stands, what runs is the first executable or a candidate that the
  instance let commit. This holds after every operation of every pass, and so after every crash.\<close>

theorem previous_executable_is_kept:
  assumes "supervised x parse show_uuid arch rec registration d e" "fresh x first d"
  shows "case sd_journal e of
      None \<Rightarrow> \<exists>h. has_hash x (sd_runtime e) h \<and> accepted x parse rec first h
    | Some j \<Rightarrow>
        accepted x parse rec first (j_previous_sha256 j) \<and>
        has_hash x (sd_previous e) (j_previous_sha256 j) \<and>
        (has_hash x (sd_runtime e) (j_previous_sha256 j) \<or> has_hash x (sd_runtime e) (j_candidate_sha256 j)) \<and>
        (j_phase j \<in> {Authorizing, RolledBack} \<longrightarrow> has_hash x (sd_runtime e) (j_previous_sha256 j)) \<and>
        (j_phase j \<in> {Candidate, Committed} \<longrightarrow> has_hash x (sd_runtime e) (j_candidate_sha256 j))"
  using supervised_ok[OF assms] way_back_of[OF supervised_ok[OF assms]]
  by (auto simp: sup_ok_def way_back_def phase_ok_def split: option.splits)

theorem previous_executable_is_kept_witness:
  "map_option j_phase (sd_journal (sample_run (sample_taken @ sample_authorised))) = Some Candidate \<and>
   has_hash sample_crypto (sd_previous (sample_run (sample_taken @ sample_authorised))) (replicate 64 CHR ''a'')"
proof -
  let ?e = "sample_run (sample_taken @ sample_authorised)"
  obtain j where j: "sd_journal ?e = Some j" "j_phase j = Candidate"
    using sample_run_installed by auto
  have "j_previous_sha256 j = replicate 64 CHR ''a''"
    using j(1) sample_run_previous by simp
  then show ?thesis
    using previous_executable_is_kept[OF sample_supervised sample_start_fresh, of "sample_taken @ sample_authorised"] j
    by simp
qed

text \<open>C36: The instance is told of a commit only with a permit it signed: the pinned key verifies the
  kept payload, and the payload names the attempt, the boot and the revision that are told.\<close>

theorem commits_are_permitted:
  assumes "supervised x parse show_uuid arch rec registration d e" "fresh x first d"
    and "r \<in> set (sd_reports e)" "ur_phase r = ''committed''"
  shows "\<exists>key payload sig permit.
    pinned_bytes x (mr_trust_key rec) = Some key \<and>
    verify_strict x key (SIGNATURE_PREFIX @ payload) sig \<and> parse payload = Some permit \<and>
    of_kind permit = ''finalize'' \<and> of_permit permit \<and> of_attempt_id permit = ur_attempt_id r \<and>
    of_boot_id permit = Some (ur_boot_id r) \<and> pb_revision (of_target permit) = ur_revision r"
proof -
  have "report_ok x parse rec r"
    using supervised_ok[OF assms(1,2)] assms(3) by (auto simp: sup_ok_def list_all_iff)
  then obtain j where j: "commit_proved x parse rec j" "of_attempt_id (j_offer j) = ur_attempt_id r"
      "j_candidate_boot_id j = Some (ur_boot_id r)" "target_revision j = ur_revision r"
    using assms(4) by (auto simp: report_ok_def)
  then obtain k :: kept_permit and permit where p: "permit_binds permit (j_offer j) (ur_boot_id r)"
      "verify_envelope x parse rec
         \<lparr>su_payload = kp_payload k, su_signature = kp_signature k, su_key_id = kp_key_id k\<rparr> = Inr permit"
    by (auto simp: commit_proved_def split: option.splits sum.splits)
  obtain key where "pinned_bytes x (mr_trust_key rec) = Some key"
      "verify_strict x key (SIGNATURE_PREFIX @ kp_payload k) (kp_signature k)" "parse (kp_payload k) = Some permit"
    using verify_envelope_signed[OF p(2)] by (auto simp: signed_by_def)
  then show ?thesis
    using p(1) j(2,4)
    by (intro exI[of _ key] exI[of _ "kp_payload k"] exI[of _ "kp_signature k"] exI[of _ permit])
      (simp add: permit_binds_def target_revision_def)
qed

theorem commits_are_permitted_witness:
  "\<exists>r \<in> set (sd_reports (sample_run (sample_taken @ sample_authorised @ sample_committed))).
     ur_phase r = ''committed'' \<and>
     (\<exists>payload permit. sample_parse payload = Some permit \<and> of_boot_id permit = Some (ur_boot_id r))"
proof -
  let ?rs = "sd_reports (sample_run (sample_taken @ sample_authorised @ sample_committed))"
  have "''committed'' \<in> set (map ur_phase ?rs)" using sample_run_ends by simp
  then obtain r where "r \<in> set ?rs" "ur_phase r = ''committed''" by auto
  then show ?thesis
    using commits_are_permitted[OF sample_supervised sample_start_fresh] by blast
qed

text \<open>C37: An update that is being undone can always be finished: whatever crashed before, there are
  answers of the outside (files that work, an agent that restarts and is healthy at the previous
  revision on a boot of its own, an instance that accepts) with which the next pass ends with the
  previous executable running and no update standing.\<close>

theorem rollback_can_be_finished:
  assumes "supervised x parse show_uuid arch rec registration d e" "fresh x first d"
    and "sd_journal e = Some j" "j_phase j = RollingBack"
    and "show_uuid (of_machine_id (j_offer j)) = mr_machine_id rec" "of_registration_key (j_offer j) = registration"
    and "restored_health show_uuid j t h"
  shows "\<exists>answers.
    sd_journal (left_on_disk (sup_pass x parse show_uuid arch (Some rec) registration e answers)) = None \<and>
    has_hash x (sd_runtime (left_on_disk (sup_pass x parse show_uuid arch (Some rec) registration e answers)))
      (j_previous_sha256 j)"
proof -
  have w: "way_back x parse rec first j e" by (rule way_back_of[OF supervised_ok[OF assms(1,2)] assms(3)])
  then obtain r where r: "sd_runtime e = Some r" by (auto simp: way_back_def has_hash_def)
  obtain f where f: "works (advance x parse show_uuid rec j) e () f" "sd_journal f = None"
      "has_hash x (sd_runtime f) (j_previous_sha256 j)"
    using works_advance[where x = x and parse = parse and rec = rec, OF assms(4) _ r assms(7)] w by (auto simp: way_back_def)
  obtain answers where "left_on_disk (sup_pass x parse show_uuid arch (Some rec) registration e answers) = f"
    using works_left[OF works_pass[OF assms(3) f(1) assms(5,6)]] by blast
  with f(2,3) show ?thesis by blast
qed

theorem rollback_can_be_finished_witness:
  "\<exists>answers.
     sd_journal (left_on_disk (sup_pass sample_crypto sample_parse (\<lambda>n. ''m'') ''x86_64'' (Some sample_record) ''r''
       (sample_run (sample_taken @ sample_authorised @ sample_failed)) answers)) = None"
proof -
  let ?e = "sample_run (sample_taken @ sample_authorised @ sample_failed)"
  obtain j where j: "sd_journal ?e = Some j" "j_phase j = RollingBack" "of_machine_id (j_offer j) = 1"
      "of_registration_key (j_offer j) = ''r''" "of_previous_revision (j_offer j) = replicate 40 CHR ''c''"
      "j_previous_boot_id j = 4" "j_candidate_boot_id j = None"
    using sample_run_fails by auto
  have "restored_health (\<lambda>n. ''m'') j 100 (sample_health 6 (replicate 40 CHR ''c''))"
    using j by (simp add: restored_health_def healthy_def sample_health_def)
  from rollback_can_be_finished[OF sample_supervised sample_start_fresh j(1,2) _ j(4) this] show ?thesis
    by (auto simp: sample_record_def)
qed

end
