(* ===== verification/Vm_Execution.thy ===== *)
theory Vm_Execution
  imports Crash Net_Bytes Public_Build
begin

text \<open>
  The requests that replace the root of a virtual machine, and the fences that let one begin or go on
  (\<open>grund-vm/src/replacement.rs\<close>, with the messages of \<open>grund-agent/src/vm.rs\<close>): a request is checked
  for itself, against the clock, and against the journal of the execution it belongs to.
\<close>

section \<open>Requests and journals\<close>

record artifact =
  ar_url :: string
  ar_sha256 :: string

record replace_image =
  ri_kernel :: artifact
  ri_rootfs :: artifact

datatype replace_action = Prepare | Quiesce | StartCandidate | Commit | Rollback | ReleaseOld

datatype replace_phase =
  Preparing | Prepared | Quiescing | Quiesced | Installing | Starting | CandidateRunning | Committed
| RollingBack | RolledBack | Releasing | Released | Uncertain

record vmm_process =
  vp_pid :: nat
  vp_start_time_ticks :: nat
  vp_boot_id :: string
  vp_uid :: nat

record replace_request =
  rq_attempt_id :: string
  rq_sequence :: nat
  rq_document_generation :: nat
  rq_action :: replace_action
  rq_image :: replace_image
  rq_guest_machine_id :: string
  rq_registration_key :: "octet list"
  rq_launch_nonce :: string
  rq_deadline_unix_ms :: int

record replace_status =
  rs_id :: string
  rs_attempt_id :: string
  rs_sequence :: nat
  rs_document_generation :: nat
  rs_phase :: replace_phase
  rs_requested_image :: replace_image
  rs_observed_image :: "replace_image option"
  rs_launch_nonce :: string
  rs_previous_process :: "vmm_process option"
  rs_running_process :: "vmm_process option"
  rs_old_root_fenced :: bool
  rs_rollback_available :: bool
  rs_reason :: "string option"

record vm_shape =
  sh_vcpus :: nat
  sh_memory_mib :: nat
  sh_disk_gib :: nat
  sh_kernel_sha256 :: string
  sh_rootfs_sha256 :: string

text \<open>Of the metadata of a VM only what is checked: its \<open>vm.id\<close> where it is text, and whether \<open>grund\<close> is an
  object.\<close>

record replace_spec =
  sp_id :: string
  sp_vcpus :: nat
  sp_memory_mib :: nat
  sp_disk_gib :: nat
  sp_image :: replace_image
  sp_mmds_id :: "string option"
  sp_mmds_grund :: bool

record disk =
  dk_device :: nat
  dk_inode :: nat

record exec_journal =
  xj_version :: nat
  xj_request :: replace_request
  xj_status :: replace_status
  xj_base_shape :: vm_shape
  xj_old_image :: replace_image
  xj_old_disk :: disk
  xj_candidate_disk :: "disk option"
  xj_old_process :: "vmm_process option"
  xj_candidate_process :: "vmm_process option"
  xj_used_nonces :: "string list"
  xj_launch_pending :: bool
  xj_rollback_launch :: bool
  xj_launch_boot_id :: string
  xj_pending_predecessor :: "vmm_process option"
  xj_committed :: bool
  xj_committed_restart_nonce :: "string option"
  xj_release_accepted_running :: bool
  xj_operation_generation :: nat
  xj_operation_nonces :: "string list"

abbreviation xj_phase :: "exec_journal \<Rightarrow> replace_phase" where
  "xj_phase j \<equiv> rs_phase (xj_status j)"

definition shape_of :: "replace_spec \<Rightarrow> vm_shape" where
  "shape_of spec =
     \<lparr>sh_vcpus = sp_vcpus spec, sh_memory_mib = sp_memory_mib spec, sh_disk_gib = sp_disk_gib spec,
      sh_kernel_sha256 = to_ascii_lowercase (ar_sha256 (ri_kernel (sp_image spec))),
      sh_rootfs_sha256 = to_ascii_lowercase (ar_sha256 (ri_rootfs (sp_image spec)))\<rparr>"

section \<open>A request for itself\<close>

definition RETAINED_KERNEL :: string where
  "RETAINED_KERNEL = ''9204218e8bcca6ac23848d74f45df2eb19d7f31e8277840a7d145a0df8b078d2''"

definition JOURNAL_VERSION :: nat where "JOURNAL_VERSION = 1"
definition MAX_OPERATION_NONCES :: nat where "MAX_OPERATION_NONCES = 24"
definition MAX_LAUNCHES :: nat where "MAX_LAUNCHES = 8"

definition vm_id_valid :: "string \<Rightarrow> bool" where
  "vm_id_valid i \<longleftrightarrow>
     1 \<le> length i \<and> length i \<le> 63 \<and>
     list_all (\<lambda>b. is_ascii_lowercase b \<or> is_ascii_digit b \<or> b = CHR ''-'') i \<and>
     \<not> starts_with ''-'' i \<and> \<not> ends_with ''-'' i"

text \<open>\<open>char::is_control\<close> over UTF-8: the controls of ASCII, and U+0080 to U+009F.\<close>

fun has_control :: "string \<Rightarrow> bool" where
  "has_control [] = False"
| "has_control [c] = is_ascii_control c"
| "has_control (c # d # s) =
     (is_ascii_control c \<or> (byte c = 0xC2 \<and> 0x80 \<le> byte d \<and> byte d \<le> 0x9F) \<or> has_control (d # s))"

definition bounded_identifier :: "string \<Rightarrow> bool" where
  "bounded_identifier v \<longleftrightarrow> v \<noteq> [] \<and> length v \<le> 256 \<and> \<not> has_control v"

definition url_bounded :: "artifact \<Rightarrow> bool" where
  "url_bounded a \<longleftrightarrow> ar_url a \<noteq> [] \<and> length (ar_url a) \<le> 4096"

text \<open>\<open>strong\<close> is the crate's answer whether the bytes are a public key, and not a weak one.\<close>

definition validate_request ::
  "(octet list \<Rightarrow> string + unit) \<Rightarrow> replace_spec \<Rightarrow> replace_request \<Rightarrow> string + unit" where
  "validate_request strong spec rq =
     (if \<not> vm_id_valid (sp_id spec) then Inl ''invalid VM id''
      else if sp_mmds_id spec \<noteq> Some (sp_id spec) \<or> \<not> sp_mmds_grund spec
      then Inl ''replacement requires canonical VM metadata''
      else if \<not> list_all bounded_identifier [rq_guest_machine_id rq, rq_attempt_id rq, rq_launch_nonce rq]
      then Inl ''invalid bounded replacement identifier''
      else if rq_sequence rq = 0 \<or> rq_document_generation rq = 0
      then Inl ''replacement fences must be nonzero''
      else if ar_sha256 (ri_kernel (rq_image rq)) \<noteq> RETAINED_KERNEL \<or>
              ar_sha256 (ri_kernel (sp_image spec)) \<noteq> RETAINED_KERNEL
      then Inl ''replacement requires the retained x86_64 kernel''
      else if length (ar_sha256 (ri_rootfs (rq_image rq))) \<noteq> 64 \<or>
              \<not> list_all lower_hex (ar_sha256 (ri_rootfs (rq_image rq)))
      then Inl ''invalid replacement image digest''
      else if \<not> list_all url_bounded
                [ri_kernel (sp_image spec), ri_rootfs (sp_image spec), ri_kernel (rq_image rq), ri_rootfs (rq_image rq)]
      then Inl ''artifact URL exceeds journal boundary''
      else strong (rq_registration_key rq))"

section \<open>A request against its journal\<close>

definition same_operation :: "replace_request \<Rightarrow> replace_request \<Rightarrow> bool" where
  "same_operation l r \<longleftrightarrow>
     rq_attempt_id l = rq_attempt_id r \<and> rq_sequence l = rq_sequence r \<and> rq_action l = rq_action r \<and>
     rq_image l = rq_image r \<and> rq_guest_machine_id l = rq_guest_machine_id r \<and>
     rq_registration_key l = rq_registration_key r \<and> rq_launch_nonce l = rq_launch_nonce r \<and>
     rq_deadline_unix_ms l = rq_deadline_unix_ms r"

definition initial_operation :: "replace_request \<Rightarrow> bool" where
  "initial_operation rq \<longleftrightarrow>
     (rq_action rq = Prepare \<and> rq_sequence rq = 1) \<or> (rq_action rq = Rollback \<and> rq_sequence rq = 2)"

definition terminal :: "exec_journal \<Rightarrow> bool" where
  "terminal j \<longleftrightarrow>
     (xj_phase j = RolledBack \<and> \<not> xj_committed j) \<or> (xj_phase j = Released \<and> xj_release_accepted_running j)"

definition work_completed :: "replace_action \<Rightarrow> replace_phase \<Rightarrow> bool" where
  "work_completed a p \<longleftrightarrow>
     (a, p) \<in> {(Prepare, Prepared), (Quiesce, Quiesced), (StartCandidate, CandidateRunning),
               (Rollback, RolledBack), (ReleaseOld, Released)}"

definition authorize_time :: "int \<Rightarrow> exec_journal option \<Rightarrow> replace_request \<Rightarrow> string + unit" where
  "authorize_time now_ms prior rq =
     (if now_ms < rq_deadline_unix_ms rq then Inr ()
      else case prior of
        None \<Rightarrow> Inl ''replacement authorization expired before execution began''
      | Some j \<Rightarrow>
          if rq_attempt_id (xj_request j) \<noteq> rq_attempt_id rq
          then Inl ''replacement authorization expired for this attempt''
          else if xj_committed j \<and> (rq_action rq = Commit \<or> rq_action rq = ReleaseOld) then Inr ()
          else if \<not> same_operation (xj_request j) rq
          then Inl ''expired authorization cannot begin a new operation''
          else if \<not> work_completed (rq_action rq) (xj_phase j)
          then Inl ''expired authorization cannot resume incomplete physical work''
          else Inr ())"

definition fresh_transition :: "exec_journal \<Rightarrow> replace_action \<Rightarrow> bool" where
  "fresh_transition j a \<longleftrightarrow>
     (\<not> xj_committed j \<and> a = Quiesce \<and> xj_phase j = Prepared) \<or>
     (a = StartCandidate \<and>
        (xj_committed j \<or> xj_phase j = Quiesced \<or>
         ((xj_phase j = Starting \<or> xj_phase j = Uncertain) \<and> \<not> xj_rollback_launch j))) \<or>
     (\<not> xj_committed j \<and> a = Rollback)"

definition takes_nonce :: "replace_action \<Rightarrow> bool" where
  "takes_nonce a \<longleftrightarrow> a = Quiesce \<or> a = StartCandidate \<or> a = Rollback"

definition add_nonce :: "string \<Rightarrow> string list \<Rightarrow> string list" where
  "add_nonce n ns = (if n \<in> set ns then ns else ns @ [n])"

text \<open>The request of a new operation, written into the journal.\<close>

definition begin_operation :: "exec_journal \<Rightarrow> replace_request \<Rightarrow> exec_journal" where
  "begin_operation j rq =
     j\<lparr>xj_operation_nonces := add_nonce (rq_launch_nonce rq) (xj_operation_nonces j),
       xj_operation_generation := rq_document_generation rq, xj_request := rq,
       xj_status := (xj_status j)
         \<lparr>rs_launch_nonce := (if rq_action rq = Quiesce then rq_launch_nonce rq else rs_launch_nonce (xj_status j)),
          rs_requested_image := rq_image rq, rs_sequence := rq_sequence rq,
          rs_document_generation := rq_document_generation rq\<rparr>\<rparr>"

definition accept_new :: "exec_journal \<Rightarrow> replace_request \<Rightarrow> string + exec_journal" where
  "accept_new j rq =
     (if rq_document_generation rq \<le> rq_document_generation (xj_request j)
      then Inl ''new operation requires a new document generation''
      else if xj_phase j = RolledBack then Inl ''replacement already rolled back''
      else if xj_phase j = Released \<and> \<not> (xj_committed j \<and> rq_action rq = StartCandidate) \<and>
              \<not> (xj_committed j \<and> \<not> xj_release_accepted_running j \<and> rq_action rq = ReleaseOld)
      then Inl ''replacement already terminal''
      else if takes_nonce (rq_action rq) \<and>
              (\<not> fresh_transition j (rq_action rq) \<or> rq_launch_nonce rq = rs_launch_nonce (xj_status j))
      then Inl ''operation requires its ordered fresh nonce transition''
      else if takes_nonce (rq_action rq) \<and>
              (rq_launch_nonce rq \<in> set (xj_operation_nonces j) \<or> rq_launch_nonce rq \<in> set (xj_used_nonces j))
      then Inl ''operation nonce was already authorized or launched''
      else if \<not> takes_nonce (rq_action rq) \<and> rq_launch_nonce rq \<noteq> rs_launch_nonce (xj_status j)
      then Inl ''unrelated operation nonce changed''
      else if rq_launch_nonce rq \<notin> set (xj_operation_nonces j) \<and>
              MAX_OPERATION_NONCES \<le> length (xj_operation_nonces j)
      then Inl ''operation nonce history bound exceeded''
      else Inr (begin_operation j rq))"

definition replayed :: "exec_journal \<Rightarrow> replace_request \<Rightarrow> exec_journal" where
  "replayed j rq =
     j\<lparr>xj_request := (xj_request j)\<lparr>rq_document_generation := rq_document_generation rq\<rparr>,
       xj_status := (xj_status j)\<lparr>rs_document_generation := rq_document_generation rq\<rparr>\<rparr>"

definition accept_request :: "exec_journal \<Rightarrow> replace_request \<Rightarrow> string + exec_journal" where
  "accept_request j rq =
     (let old = xj_request j
      in if rq_attempt_id old \<noteq> rq_attempt_id rq then Inl ''replacement attempt already owns this VM''
         else if rq_document_generation rq < rq_document_generation old \<or> rq_sequence rq < rq_sequence old
         then Inl ''stale replacement fence''
         else if ar_sha256 (ri_kernel (rq_image old)) \<noteq> ar_sha256 (ri_kernel (rq_image rq)) \<or>
                 ar_sha256 (ri_rootfs (rq_image old)) \<noteq> ar_sha256 (ri_rootfs (rq_image rq)) \<or>
                 rq_guest_machine_id old \<noteq> rq_guest_machine_id rq \<or>
                 rq_registration_key old \<noteq> rq_registration_key rq
         then Inl ''replacement identity or immutable image changed''
         else if rq_sequence rq = rq_sequence old
         then (if same_operation rq old then Inr (replayed j rq) else Inl ''contradictory replacement replay'')
         else accept_new j rq)"

section \<open>The journal as it is read\<close>

definition read_committed :: "exec_journal \<Rightarrow> bool" where
  "read_committed j \<longleftrightarrow>
     xj_committed j \<or> xj_committed_restart_nonce j \<noteq> None \<or>
     xj_phase j = Committed \<or> xj_phase j = Releasing \<or> xj_phase j = Released"

definition read_nonces :: "exec_journal \<Rightarrow> string list" where
  "read_nonces j =
     (if xj_operation_nonces j = []
      then fold add_nonce (xj_used_nonces j @ [rq_launch_nonce (xj_request j), rs_launch_nonce (xj_status j)]) []
      else xj_operation_nonces j)"

definition loaded :: "string \<Rightarrow> exec_journal \<Rightarrow> string + exec_journal" where
  "loaded i j =
     (if xj_version j \<noteq> JOURNAL_VERSION \<or> rs_id (xj_status j) \<noteq> i
      then Inl ''unknown or mismatched execution journal''
      else let j = j\<lparr>xj_committed := read_committed j\<rparr>
      in if xj_committed j \<and> xj_phase j = RolledBack
         then Inl ''committed execution has contradictory rollback state''
         else let j = j\<lparr>xj_operation_generation :=
                          (if xj_operation_generation j = 0 then rq_document_generation (xj_request j)
                           else xj_operation_generation j),
                        xj_operation_nonces := read_nonces j\<rparr>
         in if MAX_OPERATION_NONCES < length (xj_operation_nonces j)
            then Inl ''operation nonce history exceeds the execution journal bound''
            else Inr j)"

definition set_phase :: "replace_phase \<Rightarrow> exec_journal \<Rightarrow> exec_journal" where
  "set_phase p j = j\<lparr>xj_status := (xj_status j)\<lparr>rs_phase := p, rs_reason := None\<rparr>\<rparr>"

text \<open>The image of a VM never changes but to that of a committed replacement.\<close>

definition base_spec_ok :: "replace_spec \<Rightarrow> exec_journal \<Rightarrow> string + unit" where
  "base_spec_ok spec j =
     (let same = (\<lambda>img.
        to_ascii_lowercase (ar_sha256 (ri_kernel img)) = to_ascii_lowercase (ar_sha256 (ri_kernel (sp_image spec))) \<and>
        to_ascii_lowercase (ar_sha256 (ri_rootfs img)) = to_ascii_lowercase (ar_sha256 (ri_rootfs (sp_image spec))))
      in if sp_id spec \<noteq> rs_id (xj_status j) \<or> sh_vcpus (xj_base_shape j) \<noteq> sp_vcpus spec \<or>
            sh_memory_mib (xj_base_shape j) \<noteq> sp_memory_mib spec \<or> sh_disk_gib (xj_base_shape j) \<noteq> sp_disk_gib spec
         then Inl ''replacement cannot change VM identity or resources''
         else if \<not> same (xj_old_image j) \<and> \<not> (xj_committed j \<and> same (rq_image (xj_request j)))
         then Inl ''VM image changed outside committed pin confirmation''
         else Inr ())"

text \<open>
  The execution of a replacement on the host (\<open>execute\<close>, \<open>run\<close>, \<open>launch\<close> and what they call in
  \<open>grund-vm/src/replacement.rs\<close>, with \<open>Firecracker::launch\<close> of \<open>lib.rs\<close>) as a program of \<open>Crash\<close> over
  the files of the VM and the processes that run it. Processes end on their own whenever they are
  looked at; images, the jail, the tools that copy the guest's identity and the API of Firecracker
  answer whether they worked. That the processes of the VM's user are those of the VM, and that
  the execution lock keeps other executions out, is what the code rests on. A launch that ends early also
  signals its process to end, which is one of the processes that end on their own.
\<close>

section \<open>The host\<close>

text \<open>The files of the VM: the journal, the shape, the disks named \<open>rootfs.ext4\<close>, \<open>replacement.ext4\<close> and
  \<open>previous.ext4\<close>, and \<open>process.json\<close>, \<open>firecracker.pid\<close> and \<open>launch.intent\<close>; the processes of the VM's user that run, each with the disk it
  opened as its root; and the journal in memory, which a crash loses.\<close>

record vm_world =
  vw_journal :: "exec_journal option"
  vw_shape :: "vm_shape option"
  vw_root :: "disk option"
  vw_staged :: "disk option"
  vw_previous :: "disk option"
  vw_process :: "vmm_process option"
  vw_pid :: "nat option"
  vw_intent :: "(string \<times> vmm_process option) option"
  vw_live :: "(vmm_process \<times> disk) list"
  vw_memory :: exec_journal

text \<open>Answers: whether an operation worked, the clock, the processes that ended before an observation and
  whether it could be made, the process a launch made, the id of the host's boot, the disk an image was
  copied to, and the process of before \<open>process.json\<close> that was found to be the VM's.\<close>

datatype vm_answer =
  Op bool
| Time "int option"
| Seen "vmm_process list" bool
| Spawned "vmm_process option"
| Boot "string option"
| Copied "disk option"
| Adopted "vmm_process option"

fun op_answer where "op_answer (Op b) = Some b" | "op_answer _ = None"
fun time_answer where "time_answer (Time t) = Some t" | "time_answer _ = None"
fun seen_answer where "seen_answer (Seen ps ok) = Some (ps, ok)" | "seen_answer _ = None"
fun spawned_answer where "spawned_answer (Spawned p) = Some p" | "spawned_answer _ = None"
fun boot_answer where "boot_answer (Boot b) = Some b" | "boot_answer _ = None"
fun adopted_answer where "adopted_answer (Adopted p) = Some p" | "adopted_answer _ = None"
fun copied_answer where "copied_answer (Copied d) = Some d" | "copied_answer _ = None"

type_synonym 'a exec = "(vm_world, vm_answer, 'a) act"

definition works_op :: "string \<Rightarrow> unit exec" where
  "works_op why = andthen (ask op_answer) (\<lambda>ok. ensure ok why)"

definition given :: "string \<Rightarrow> 'a option \<Rightarrow> 'a exec" where
  "given why x = (case x of None \<Rightarrow> bail why | Some a \<Rightarrow> ret a)"

definition now_ms :: "int exec" where
  "now_ms = andthen (ask time_answer) (given ''clock'')"

definition boot_id :: "string exec" where
  "boot_id = andthen (ask boot_answer) (given ''boot_id'')"

section \<open>The journal\<close>

definition in_memory :: "exec_journal exec" where
  "in_memory = look vw_memory"

definition modify :: "(exec_journal \<Rightarrow> exec_journal) \<Rightarrow> unit exec" where
  "modify f = change (vw_memory_update f)"

definition modify_status :: "(replace_status \<Rightarrow> replace_status) \<Rightarrow> unit exec" where
  "modify_status f = modify (xj_status_update f)"

definition transition :: "replace_phase \<Rightarrow> unit exec" where
  "transition p = modify (set_phase p)"

text \<open>Written beside, renamed over, and the directory synced.\<close>

definition save :: "unit exec" where
  "save = andthen (works_op ''journal'') (\<lambda>_.
          andthen (change (\<lambda>w. w\<lparr>vw_journal := Some (vw_memory w)\<rparr>)) (\<lambda>_. works_op ''sync''))"

definition uncertain :: "string \<Rightarrow> unit exec" where
  "uncertain why =
     andthen (transition Uncertain) (\<lambda>_.
     andthen (modify_status (rs_reason_update (\<lambda>_. Some why))) (\<lambda>_. save))"

section \<open>Disks\<close>

text \<open>\<open>DiskIdentity::matches\<close>: the file is a regular one and has this device and inode.\<close>

definition matches :: "(vm_world \<Rightarrow> disk option) \<Rightarrow> disk \<Rightarrow> bool exec" where
  "matches f d = andthen (ask op_answer) (\<lambda>regular. andthen (look f) (\<lambda>x. ret (regular \<and> x = Some d)))"

definition matches_some :: "(vm_world \<Rightarrow> disk option) \<Rightarrow> disk option \<Rightarrow> bool exec" where
  "matches_some f d = (case d of None \<Rightarrow> ret False | Some e \<Rightarrow> matches f e)"

definition must_match :: "(vm_world \<Rightarrow> disk option) \<Rightarrow> disk option \<Rightarrow> string \<Rightarrow> unit exec" where
  "must_match f d why = andthen (matches_some f d) (\<lambda>b. ensure b why)"

definition disk_of :: "(vm_world \<Rightarrow> disk option) \<Rightarrow> disk exec" where
  "disk_of f =
     andthen (works_op ''replacement disk is not a bounded regular file'') (\<lambda>_.
     andthen (look f) (\<lambda>x. case x of None \<Rightarrow> bail ''no such file'' | Some d \<Rightarrow> ret d))"

definition path_exists :: "(vm_world \<Rightarrow> disk option) \<Rightarrow> bool exec" where
  "path_exists f = andthen (ask op_answer) (\<lambda>ok. andthen (look f) (\<lambda>x. ret (ok \<and> x \<noteq> None)))"

definition unlink_disk :: "(vm_world \<Rightarrow> vm_world) \<Rightarrow> unit exec" where
  "unlink_disk clear = andthen (works_op ''remove'') (\<lambda>_. change clear)"

section \<open>Processes\<close>

definition ended :: "vmm_process list \<Rightarrow> vm_world \<Rightarrow> vm_world" where
  "ended ps w = w\<lparr>vw_live := filter (\<lambda>(p, d). p \<notin> set ps) (vw_live w)\<rparr>"

definition look_live :: "(vmm_process \<times> disk) list exec" where
  "look_live =
     andthen (ask seen_answer) (\<lambda>(ps, ok).
     andthen (change (ended ps)) (\<lambda>_.
     andthen (ensure ok ''cannot observe a process'') (\<lambda>_. look vw_live)))"

definition alive :: "vmm_process \<Rightarrow> bool exec" where
  "alive p = andthen look_live (\<lambda>l. ret (p \<in> set (map fst l)))"

text \<open>\<open>fence_pidfd\<close> kills and waits until the process was seen to exit.\<close>

definition fence_pidfd :: "vmm_process \<Rightarrow> unit exec" where
  "fence_pidfd p =
     andthen (ask seen_answer) (\<lambda>(ps, exited).
     andthen (change (ended ps)) (\<lambda>_.
     andthen (ensure exited ''VMM did not exit; replacement refused'') (\<lambda>_. change (ended [p]))))"

definition fence_identity :: "vmm_process \<Rightarrow> unit exec" where
  "fence_identity p = andthen (alive p) (\<lambda>b. if b then fence_pidfd p else ret ())"

definition fence_optional :: "vmm_process option \<Rightarrow> unit exec" where
  "fence_optional p = (case p of None \<Rightarrow> ret () | Some q \<Rightarrow> fence_identity q)"

text \<open>No process of the VM's user but the one expected.\<close>

definition sole_vm_process :: "nat option \<Rightarrow> unit exec" where
  "sole_vm_process expected =
     andthen look_live (\<lambda>l.
       ensure (list_all (\<lambda>(p, d). Some (vp_pid p) = expected) l) ''multiple processes use the uid of this VM'')"

text \<open>The receipt of a launch that may have been cut short: it stands until the launch is known to be
  over, because the host restarted or because a process was recorded since.\<close>

definition remove_intent :: "unit exec" where
  "remove_intent =
     andthen (works_op ''launch.intent'') (\<lambda>_.
     andthen (change (vw_intent_update (\<lambda>_. None))) (\<lambda>_. works_op ''sync''))"

definition check_launch_intent :: "unit exec" where
  "check_launch_intent =
     andthen (works_op ''launch.intent'') (\<lambda>_.
     andthen (look vw_intent) (\<lambda>x.
       case x of
         None \<Rightarrow> ret ()
       | Some (b, previous) \<Rightarrow>
           andthen boot_id (\<lambda>now.
           andthen (works_op ''process.json'') (\<lambda>_.
           andthen (look vw_process) (\<lambda>current.
           andthen (ensure (now \<noteq> b \<or> (current \<noteq> None \<and> current \<noteq> previous))
                      ''unidentified VMM launch may still exist'') (\<lambda>_. remove_intent))))))"

definition write_launch_intent :: "unit exec" where
  "write_launch_intent =
     andthen boot_id (\<lambda>b.
     andthen (works_op ''process.json'') (\<lambda>_.
     andthen (look vw_process) (\<lambda>previous.
     andthen (works_op ''launch.intent'') (\<lambda>_.
     andthen (change (vw_intent_update (\<lambda>_. Some (b, previous)))) (\<lambda>_. works_op ''sync'')))))"

definition validate_process_owner :: "unit exec" where
  "validate_process_owner = works_op ''VMM process does not belong to this VM''"

definition recorded_process :: "vmm_process option exec" where
  "recorded_process =
     andthen check_launch_intent (\<lambda>_.
     andthen (works_op ''process.json'') (\<lambda>_.
     andthen (look vw_process) (\<lambda>x.
     andthen (look vw_pid) (\<lambda>pid.
     andthen (case x of
         Some p \<Rightarrow>
           andthen (alive p) (\<lambda>b.
             if b then validate_process_owner
             else if pid \<noteq> None then works_op ''PID ownership changed; refusing uncertainty'' else ret ())
       | None \<Rightarrow>
           if pid \<noteq> None then works_op ''live legacy VMM has no durable process identity''
           else bail ''VM has no durable launch identity; refusing uncertain offline state'') (\<lambda>_.
     ret x)))))"

text \<open>A process of before \<open>process.json\<close> is taken over where it is found to be the VM's in every respect;
  how that is found (its user, jail, executable, arguments, disk, cgroup and socket) is outside.\<close>

definition adopt_or_recorded :: "vmm_process option exec" where
  "adopt_or_recorded =
     andthen check_launch_intent (\<lambda>_.
     andthen (works_op ''process.json'') (\<lambda>_.
     andthen (look vw_process) (\<lambda>x.
       if x \<noteq> None then recorded_process
       else andthen (ask adopted_answer) (\<lambda>found.
            andthen (given ''legacy VMM cannot be adopted'' found) (\<lambda>p.
            andthen (works_op ''process.json'') (\<lambda>_.
            andthen (change (vw_process_update (\<lambda>_. Some p))) (\<lambda>_.
            andthen (works_op ''sync'') (\<lambda>_. ret (Some p)))))))))"

definition verify_running :: "bool \<Rightarrow> unit exec" where
  "verify_running old =
     andthen in_memory (\<lambda>j.
       case (if old then xj_old_process j else xj_candidate_process j) of
         None \<Rightarrow> bail ''missing observed VMM identity''
       | Some p \<Rightarrow> andthen (alive p) (\<lambda>b. ensure b ''observed VMM no longer runs''))"

definition fence_old :: "unit exec" where
  "fence_old =
     andthen in_memory (\<lambda>j.
     andthen (case xj_old_process j of
                None \<Rightarrow> ret ()
              | Some p \<Rightarrow>
                  andthen (alive p) (\<lambda>b.
                  andthen (if b then validate_process_owner else ret ()) (\<lambda>_. fence_identity p))) (\<lambda>_.
     andthen (works_op ''VM address missing'') (\<lambda>_. sole_vm_process None)))"

section \<open>Launching\<close>

text \<open>\<open>Firecracker::launch\<close>: the intent is written, the process started on the disk that is the root then,
  and its identity recorded. A process that could not be pinned is waited for; one that was pinned is
  fenced where the rest fails.\<close>

definition start_process :: "vmm_process exec" where
  "start_process =
     andthen (change (vw_pid_update (\<lambda>_. None))) (\<lambda>_.
     andthen (ask spawned_answer) (\<lambda>r.
     andthen (look vw_root) (\<lambda>root.
       case (r, root) of
         (Some p, Some d) \<Rightarrow> andthen (change (vw_live_update (\<lambda>l. (p, d) # l))) (\<lambda>_. ret p)
       | _ \<Rightarrow> bail ''cannot start firecracker'')))"

definition spawn_prepared :: "vmm_process exec" where
  "spawn_prepared =
     andthen check_launch_intent (\<lambda>_.
     andthen (attempt (andthen write_launch_intent (\<lambda>_. start_process))) (\<lambda>r.
       case r of
         Inr p \<Rightarrow> ret p
       | Inl why \<Rightarrow> andthen remove_intent (\<lambda>_. bail why)))"

definition record_process :: "vmm_process \<Rightarrow> unit exec" where
  "record_process p =
     andthen (alive p) (\<lambda>b.
     andthen (ensure b ''VMM exited before its identity was recorded'') (\<lambda>_.
     andthen validate_process_owner (\<lambda>_.
     andthen (works_op ''process.json'') (\<lambda>_.
     andthen (change (vw_process_update (\<lambda>_. Some p))) (\<lambda>_.
     andthen (works_op ''sync'') (\<lambda>_. remove_intent))))))"

definition open_socket :: "vmm_process \<Rightarrow> unit exec" where
  "open_socket p =
     andthen (works_op ''pid file'') (\<lambda>_.
     andthen (change (vw_pid_update (\<lambda>_. Some (vp_pid p)))) (\<lambda>_.
     andthen (works_op ''firecracker did not open its API socket'') (\<lambda>_. record_process p)))"

definition spawn :: "vmm_process exec" where
  "spawn =
     andthen spawn_prepared (\<lambda>p.
     andthen (ask op_answer) (\<lambda>pinned.
       if \<not> pinned
       then andthen (ask seen_answer) (\<lambda>(ps, exited).
            andthen (change (ended ps)) (\<lambda>_.
            andthen (ensure exited ''cannot pin VMM; child exit remains uncertain'') (\<lambda>_.
            andthen (change (ended [p])) (\<lambda>_.
            andthen remove_intent (\<lambda>_. bail ''cannot pin VMM'')))))
       else andthen (attempt (open_socket p)) (\<lambda>r.
            case r of
              Inr u \<Rightarrow> ret p
            | Inl why \<Rightarrow> andthen (fence_pidfd p) (\<lambda>_. andthen remove_intent (\<lambda>_. bail why)))))"

text \<open>The journal that says a launch may be under way.\<close>

definition pending_launch :: "bool \<Rightarrow> exec_journal \<Rightarrow> exec_journal" where
  "pending_launch rollback j =
     (let j = j\<lparr>xj_used_nonces := xj_used_nonces j @ [rq_launch_nonce (xj_request j)],
                xj_launch_pending := True, xj_rollback_launch := rollback\<rparr>
      in if rollback then j\<lparr>xj_status := (xj_status j)\<lparr>rs_old_root_fenced := False\<rparr>\<rparr> else j)"

definition launched :: "bool \<Rightarrow> vmm_process \<Rightarrow> exec_journal \<Rightarrow> exec_journal" where
  "launched rollback p j =
     (let j = (if rollback then j\<lparr>xj_old_process := Some p\<rparr> else j\<lparr>xj_candidate_process := Some p\<rparr>)
      in j\<lparr>xj_launch_pending := False,
           xj_status := (xj_status j)\<lparr>rs_running_process := Some p,
             rs_launch_nonce := rq_launch_nonce (xj_request j)\<rparr>\<rparr>)"

definition booted :: "bool \<Rightarrow> replace_image \<Rightarrow> exec_journal \<Rightarrow> exec_journal" where
  "booted rollback img j =
     set_phase (if rollback then RolledBack else CandidateRunning)
       (j\<lparr>xj_launch_pending := False,
          xj_status := (xj_status j)\<lparr>rs_observed_image := Some img, rs_old_root_fenced := \<not> rollback\<rparr>\<rparr>)"

definition not_running :: "replace_status \<Rightarrow> replace_status" where
  "not_running s = s\<lparr>rs_running_process := None, rs_observed_image := None\<rparr>"

text \<open>Before the process: the nonce is taken, and the journal says so on disk.\<close>

definition prepare_launch :: "replace_spec \<Rightarrow> bool \<Rightarrow> unit exec" where
  "prepare_launch spec rollback =
     andthen in_memory (\<lambda>j.
     andthen now_ms (\<lambda>t.
     andthen (ensure (t < rq_deadline_unix_ms (xj_request j)) ''launch authorization expired'') (\<lambda>_.
     andthen (ensure (rq_launch_nonce (xj_request j) \<notin> set (xj_used_nonces j)) ''nonce already consumed'') (\<lambda>_.
     andthen (works_op ''image'') (\<lambda>_.
     andthen (works_op ''spec.json'') (\<lambda>_.
     andthen (change (vw_shape_update (\<lambda>_. Some (shape_of spec)))) (\<lambda>_.
     andthen (works_op ''sync'') (\<lambda>_.
     andthen (works_op ''jail'') (\<lambda>_.
     andthen now_ms (\<lambda>t.
     andthen (ensure (t < rq_deadline_unix_ms (xj_request j)) ''launch authorization expired during preparation'') (\<lambda>_.
     andthen (modify_status not_running) (\<lambda>_.
     andthen (ensure (length (xj_used_nonces j) < MAX_LAUNCHES) ''physical launch bound exceeded'') (\<lambda>_.
     andthen (modify (pending_launch rollback)) (\<lambda>_.
     andthen boot_id (\<lambda>b.
     andthen (modify (xj_launch_boot_id_update (\<lambda>_. b))) (\<lambda>_.
     andthen (works_op ''process.json'') (\<lambda>_.
     andthen (look vw_process) (\<lambda>predecessor.
     andthen (modify (xj_pending_predecessor_update (\<lambda>_. predecessor))) (\<lambda>_.
     andthen (if rollback then ret () else transition Starting) (\<lambda>_. save))))))))))))))))))))"

text \<open>After it: the VM is configured and started before the deadline, or the process is fenced.\<close>

definition configure :: "replace_spec \<Rightarrow> bool \<Rightarrow> vmm_process \<Rightarrow> unit exec" where
  "configure spec rollback p =
     andthen (works_op ''missing canonical grund metadata'') (\<lambda>_.
     andthen in_memory (\<lambda>j.
     andthen now_ms (\<lambda>t.
       if rq_deadline_unix_ms (xj_request j) - t \<le> 0
       then uncertain ''launch authorization expired before InstanceStart; nonce consumed''
       else andthen (ask op_answer) (\<lambda>fits_clock.
         if \<not> fits_clock
         then uncertain ''authorization deadline exceeds the local execution clock; nonce consumed''
         else andthen (ask op_answer) (\<lambda>configured.
           if \<not> configured
           then andthen (fence_pidfd p) (\<lambda>_. uncertain ''InstanceStart result is uncertain; nonce consumed'')
           else modify (booted rollback (sp_image spec)))))))"

definition run_process :: "replace_spec \<Rightarrow> bool \<Rightarrow> vmm_process \<Rightarrow> unit exec" where
  "run_process spec rollback p =
     andthen (alive p) (\<lambda>b.
     andthen (ensure b ''VMM exited before configuration'') (\<lambda>_.
     andthen validate_process_owner (\<lambda>_.
     andthen (modify (launched rollback p)) (\<lambda>_.
     andthen save (\<lambda>_. configure spec rollback p)))))"

definition launch :: "replace_spec \<Rightarrow> bool \<Rightarrow> unit exec" where
  "launch spec rollback =
     andthen (prepare_launch spec rollback) (\<lambda>_.
     andthen (attempt spawn) (\<lambda>r.
       case r of
         Inl why \<Rightarrow> uncertain ''VMM launch failed or ambiguous; physical launch nonce consumed''
       | Inr p \<Rightarrow> run_process spec rollback p))"

end
