(* ===== verification/Vm_Run.thy ===== *)
theory Vm_Run
  imports Vm_Execution
begin

text \<open>
  The actions of a replacement and the execution of one request (\<open>run\<close>, \<open>restart_committed\<close>,
  \<open>finalize_committed\<close>, \<open>recover_launch\<close>, \<open>refresh_running\<close> and \<open>execute\<close> of
  \<open>grund-vm/src/replacement.rs\<close>).
\<close>

section \<open>The disks of an action\<close>

definition remove_staged :: "unit exec" where
  "remove_staged = unlink_disk (vw_staged_update (\<lambda>_. None))"

definition remove_previous :: "unit exec" where
  "remove_previous = unlink_disk (vw_previous_update (\<lambda>_. None))"

definition sync_dir :: "unit exec" where
  "sync_dir = works_op ''sync''"

text \<open>\<open>rename\<close> does nothing where both names are the same file.\<close>

definition install_staged :: "vm_world \<Rightarrow> vm_world" where
  "install_staged w =
     (if vw_staged w = vw_root w then w else w\<lparr>vw_root := vw_staged w, vw_staged := None\<rparr>)"

definition reinstall_previous :: "vm_world \<Rightarrow> vm_world" where
  "reinstall_previous w =
     (if vw_previous w = vw_root w then w else w\<lparr>vw_root := vw_previous w, vw_previous := None\<rparr>)"

definition link_previous :: "unit exec" where
  "link_previous =
     andthen (works_op ''hard link'') (\<lambda>_. change (\<lambda>w. w\<lparr>vw_previous := vw_root w\<rparr>))"

section \<open>Prepare and Quiesce\<close>

definition run_prepare :: "unit exec" where
  "run_prepare =
     andthen in_memory (\<lambda>j.
       if xj_phase j = Prepared then ret ()
       else
         andthen (ensure (xj_phase j = Preparing) ''Prepare is not valid in this phase'') (\<lambda>_.
         andthen now_ms (\<lambda>t.
         andthen (ensure (t \<le> rq_deadline_unix_ms (xj_request j)) ''negative timeout'') (\<lambda>_.
         andthen (works_op ''authorization deadline exceeds runtime clock'') (\<lambda>_.
         andthen (works_op ''verified artifacts'') (\<lambda>_.
         andthen (path_exists vw_staged) (\<lambda>there.
         andthen (if there then remove_staged else ret ()) (\<lambda>_.
         andthen (ask copied_answer) (\<lambda>d.
         andthen (change (vw_staged_update (\<lambda>_. d))) (\<lambda>_.
         andthen (works_op ''copy'') (\<lambda>_.
         andthen sync_dir (\<lambda>_.
         andthen (disk_of vw_staged) (\<lambda>d.
         andthen (modify (xj_candidate_disk_update (\<lambda>_. Some d))) (\<lambda>_.
           transition Prepared))))))))))))))"

definition stop_old :: "vmm_process option \<Rightarrow> unit exec" where
  "stop_old old =
     andthen recorded_process (\<lambda>current.
     andthen (ensure (current = old) ''old VMM identity changed'') (\<lambda>_.
     andthen (fence_optional current) (\<lambda>_.
     andthen (works_op ''VM address missing'') (\<lambda>_.
     andthen (sole_vm_process None) (\<lambda>_.
     andthen (case current of
                None \<Rightarrow> ret ()
              | Some p \<Rightarrow> andthen (alive p) (\<lambda>b. ensure (\<not> b) ''old VMM still runs'')) (\<lambda>_.
       works_op ''rootfs.ext4''))))))"

definition fenced :: "replace_status \<Rightarrow> replace_status" where
  "fenced s = (not_running s)\<lparr>rs_old_root_fenced := True\<rparr>"

definition quiesce_old :: "vmm_process option \<Rightarrow> unit exec" where
  "quiesce_old old =
     andthen (stop_old old) (\<lambda>_. andthen (modify_status fenced) (\<lambda>_. transition Quiesced))"

definition run_quiesce :: "unit exec" where
  "run_quiesce =
     andthen in_memory (\<lambda>j.
       if xj_phase j = Quiesced then ret ()
       else
         andthen (ensure (xj_phase j = Prepared \<or> xj_phase j = Quiescing) ''Quiesce is not valid in this phase'') (\<lambda>_.
         andthen (must_match vw_root (Some (xj_old_disk j)) ''root identity changed'') (\<lambda>_.
         andthen (must_match vw_staged (xj_candidate_disk j) ''root identity changed'') (\<lambda>_.
         andthen (transition Quiescing) (\<lambda>_.
         andthen save (\<lambda>_. quiesce_old (xj_old_process j)))))))"

section \<open>Committed executions\<close>

definition committed_shape :: "exec_journal \<Rightarrow> vm_shape" where
  "committed_shape j =
     (xj_base_shape j)
       \<lparr>sh_kernel_sha256 := ar_sha256 (ri_kernel (rq_image (xj_request j))),
        sh_rootfs_sha256 := ar_sha256 (ri_rootfs (rq_image (xj_request j)))\<rparr>"

definition finalized :: "vmm_process option \<Rightarrow> exec_journal \<Rightarrow> exec_journal" where
  "finalized running j =
     j\<lparr>xj_status := (xj_status j)
         \<lparr>rs_observed_image := map_option (\<lambda>_. rq_image (xj_request j)) running,
          rs_running_process := running, rs_old_root_fenced := True, rs_rollback_available := False\<rparr>\<rparr>"

text \<open>Where the committed process has ended, its pid file goes.\<close>

definition forget_pid :: "unit exec" where
  "forget_pid =
     andthen (works_op ''firecracker.pid'') (\<lambda>_.
     andthen (change (vw_pid_update (\<lambda>_. None))) (\<lambda>_. sync_dir))"

definition finalize_running :: "vmm_process \<Rightarrow> disk \<Rightarrow> bool \<Rightarrow> unit exec" where
  "finalize_running recorded candidate running =
     (if running
      then andthen validate_process_owner (\<lambda>_.
           andthen look_live (\<lambda>l.
           andthen (ensure ((recorded, candidate) \<in> set l) ''committed VMM does not hold the confirmed root'') (\<lambda>_.
             sole_vm_process (Some (vp_pid recorded)))))
      else andthen (works_op ''committed VMM still has live threads'') (\<lambda>_.
           andthen (sole_vm_process None) (\<lambda>_. forget_pid)))"

text \<open>\<open>uid\<close> is the user of the VM's processes. The confirmed root and shape are checked, the process of
  before is fenced, and the confirmed one found to run or to have ended.\<close>

definition confirmed_process :: "nat \<Rightarrow> exec_journal \<Rightarrow> vmm_process option exec" where
  "confirmed_process uid j =
     andthen (ensure (\<not> xj_launch_pending j) ''an unidentified launch prevents finalization'') (\<lambda>_.
     andthen check_launch_intent (\<lambda>_.
     andthen (given ''committed root identity missing'' (xj_candidate_disk j)) (\<lambda>candidate.
     andthen (ensure (candidate \<noteq> xj_old_disk j) ''confirmed root changed'') (\<lambda>_.
     andthen (must_match vw_root (Some candidate) ''confirmed root changed'') (\<lambda>_.
     andthen (look vw_shape) (\<lambda>shape.
     andthen (ensure (shape = Some (committed_shape j)) ''committed shape changed'') (\<lambda>_.
     andthen (works_op ''committed VM address missing'') (\<lambda>_.
     andthen (given ''committed process witness missing'' (xj_candidate_process j)) (\<lambda>recorded.
     andthen (ensure (vp_uid recorded = uid) ''committed VMM ownership changed'') (\<lambda>_.
     andthen (given ''baseline process witness missing'' (xj_old_process j)) (\<lambda>previous.
     andthen (ensure (vp_uid previous = uid \<and> previous \<noteq> recorded)
                ''baseline and committed process witnesses conflict'') (\<lambda>_.
     andthen (fence_identity previous) (\<lambda>_.
     andthen (alive recorded) (\<lambda>running.
     andthen (finalize_running recorded candidate running) (\<lambda>_.
       ret (if running then Some recorded else None))))))))))))))))"

definition confirm_process :: "nat \<Rightarrow> exec_journal \<Rightarrow> unit exec" where
  "confirm_process uid j = andthen (confirmed_process uid j) (\<lambda>running. modify (finalized running))"

definition finalize_committed :: "nat \<Rightarrow> unit exec" where
  "finalize_committed uid =
     andthen in_memory (\<lambda>j.
     andthen (ensure (xj_committed j) ''execution has not irreversibly committed'') (\<lambda>_.
       confirm_process uid j))"

definition reserve_restart :: "exec_journal \<Rightarrow> exec_journal" where
  "reserve_restart j =
     set_phase Starting
       (j\<lparr>xj_committed_restart_nonce := Some (rq_launch_nonce (xj_request j)),
          xj_release_accepted_running := False\<rparr>)"

definition with_image :: "replace_spec \<Rightarrow> replace_image \<Rightarrow> replace_spec" where
  "with_image spec img = spec\<lparr>sp_image := img\<rparr>"

definition restart_phase :: "replace_phase \<Rightarrow> bool" where
  "restart_phase p \<longleftrightarrow> p \<in> {Committed, Releasing, Released, Starting, Uncertain, CandidateRunning}"

definition relaunch :: "replace_spec \<Rightarrow> unit exec" where
  "relaunch spec =
     andthen in_memory (\<lambda>j.
     andthen (must_match vw_root (xj_candidate_disk j) ''committed root changed before restart'') (\<lambda>_.
     andthen (modify_status fenced) (\<lambda>_.
       launch (with_image spec (rq_image (xj_request j))) False)))"

definition fence_and_relaunch :: "replace_spec \<Rightarrow> unit exec" where
  "fence_and_relaunch spec =
     andthen in_memory (\<lambda>j.
     andthen (fence_optional (xj_candidate_process j)) (\<lambda>_.
     andthen (works_op ''committed VM address missing'') (\<lambda>_.
     andthen (sole_vm_process None) (\<lambda>_. relaunch spec))))"

definition restart_now :: "nat \<Rightarrow> replace_spec \<Rightarrow> unit exec" where
  "restart_now uid spec =
     andthen (finalize_committed uid) (\<lambda>_.
     andthen (modify reserve_restart) (\<lambda>_.
     andthen save (\<lambda>_. fence_and_relaunch spec)))"

definition restart_committed_root :: "nat \<Rightarrow> replace_spec \<Rightarrow> unit exec" where
  "restart_committed_root uid spec =
     andthen in_memory (\<lambda>j.
       let nonce = rq_launch_nonce (xj_request j)
       in if xj_phase j = CandidateRunning \<and> nonce = rs_launch_nonce (xj_status j) \<and> \<not> xj_launch_pending j
          then verify_running False
          else
            andthen (ensure (xj_committed j \<and> restart_phase (xj_phase j))
                       ''committed restart is not valid in this phase'') (\<lambda>_.
              if xj_launch_pending j \<or> nonce \<in> set (xj_used_nonces j)
              then uncertain ''committed restart launch is ambiguous or its nonce was consumed; recovery stays paused''
              else
                andthen (ensure (nonce \<noteq> rs_launch_nonce (xj_status j))
                           ''committed restart requires a fresh authorized nonce'') (\<lambda>_.
                andthen (case xj_committed_restart_nonce j of
                           None \<Rightarrow> ret ()
                         | Some reserved \<Rightarrow>
                             ensure (reserved = nonce) ''the bounded committed restart was already reserved'') (\<lambda>_.
                  restart_now uid spec))))"

section \<open>StartCandidate\<close>

definition resume_installing :: "unit exec" where
  "resume_installing =
     andthen in_memory (\<lambda>j.
     andthen (fence_optional (xj_candidate_process j)) (\<lambda>_.
     andthen (must_match vw_root (xj_candidate_disk j) ''candidate root identity changed'') (\<lambda>_.
     andthen (transition Installing) (\<lambda>_. save))))"

definition begin_installing :: "unit exec" where
  "begin_installing =
     andthen (modify_status (rs_rollback_available_update (\<lambda>_. True))) (\<lambda>_.
     andthen (transition Installing) (\<lambda>_. save))"

text \<open>The old root gets its second name before the journal says that the candidate is being installed.\<close>

definition keep_baseline :: "unit exec" where
  "keep_baseline =
     andthen in_memory (\<lambda>j.
     andthen (must_match vw_root (Some (xj_old_disk j)) ''old root changed'') (\<lambda>_.
     andthen (must_match vw_staged (xj_candidate_disk j) ''staged root changed'') (\<lambda>_.
     andthen (works_op ''identity of the guest'') (\<lambda>_.
     andthen (path_exists vw_previous) (\<lambda>there.
     andthen (if there then must_match vw_previous (Some (xj_old_disk j)) ''unexpected previous root''
              else andthen link_previous (\<lambda>_. sync_dir)) (\<lambda>_. begin_installing))))))"

definition install_root :: "unit exec" where
  "install_root =
     andthen in_memory (\<lambda>j.
     andthen (given ''candidate identity missing'' (xj_candidate_disk j)) (\<lambda>candidate.
     andthen (matches vw_root candidate) (\<lambda>there.
       if there then ret ()
       else
         andthen (must_match vw_root (Some (xj_old_disk j)) ''ambiguous root installation'') (\<lambda>_.
         andthen (must_match vw_staged (Some candidate) ''ambiguous root installation'') (\<lambda>_.
         andthen (must_match vw_previous (Some (xj_old_disk j)) ''ambiguous root installation'') (\<lambda>_.
         andthen (works_op ''rename'') (\<lambda>_.
         andthen (change install_staged) (\<lambda>_. sync_dir))))))))"

definition install_and_launch :: "replace_spec \<Rightarrow> unit exec" where
  "install_and_launch spec =
     andthen in_memory (\<lambda>j.
     andthen (if xj_phase j = Quiesced then keep_baseline else ret ()) (\<lambda>_.
     andthen install_root (\<lambda>_.
       launch (with_image spec (rq_image (xj_request j))) False)))"

definition start_uncommitted :: "replace_spec \<Rightarrow> unit exec" where
  "start_uncommitted spec =
     andthen in_memory (\<lambda>j.
     andthen (ensure (xj_phase j = Quiesced \<or> xj_phase j = Installing)
                ''StartCandidate is not valid in this phase'') (\<lambda>_.
     andthen fence_old (\<lambda>_. install_and_launch spec)))"

definition run_start :: "nat \<Rightarrow> replace_spec \<Rightarrow> unit exec" where
  "run_start uid spec =
     andthen in_memory (\<lambda>j.
       if xj_committed j then restart_committed_root uid spec
       else if xj_phase j = CandidateRunning then verify_running False
       else if xj_launch_pending j
       then uncertain ''unidentified candidate launch may still exist; refusing another root''
       else if xj_phase j = Starting \<or> xj_phase j = Uncertain
       then
         andthen (ensure (\<not> xj_rollback_launch j) ''rollback cannot resume candidate execution'') (\<lambda>_.
           if rq_launch_nonce (xj_request j) \<in> set (xj_used_nonces j)
           then uncertain ''candidate launch nonce consumed; a fresh authorized nonce is required''
           else andthen resume_installing (\<lambda>_. start_uncommitted spec))
       else start_uncommitted spec)"

section \<open>Commit, ReleaseOld and Rollback\<close>

definition commit_candidate :: "exec_journal \<Rightarrow> exec_journal" where
  "commit_candidate j =
     set_phase Committed
       (j\<lparr>xj_committed := True, xj_status := (xj_status j)\<lparr>rs_rollback_available := False\<rparr>\<rparr>)"

definition confirm_commit :: "unit exec" where
  "confirm_commit = andthen (verify_running False) (\<lambda>_. modify commit_candidate)"

definition run_commit :: "nat \<Rightarrow> unit exec" where
  "run_commit uid =
     andthen in_memory (\<lambda>j.
       if xj_phase j = Committed then finalize_committed uid
       else
         andthen (ensure (xj_phase j = CandidateRunning) ''Commit requires a running candidate'') (\<lambda>_.
           confirm_commit))"

definition release_phase :: "replace_phase \<Rightarrow> bool" where
  "release_phase p \<longleftrightarrow> p \<in> {Committed, Releasing, Released, CandidateRunning}"

definition released :: "exec_journal \<Rightarrow> exec_journal" where
  "released j =
     set_phase Released
       (j\<lparr>xj_release_accepted_running := rs_running_process (xj_status j) \<noteq> None,
          xj_status := (xj_status j)\<lparr>rs_rollback_available := False\<rparr>\<rparr>)"

definition drop_previous :: "exec_journal \<Rightarrow> unit exec" where
  "drop_previous j =
     andthen (path_exists vw_previous) (\<lambda>there.
       if there
       then andthen (must_match vw_previous (Some (xj_old_disk j)) ''previous root identity changed'') (\<lambda>_.
            andthen remove_previous (\<lambda>_. sync_dir))
       else ret ())"

definition release_old_root :: "exec_journal \<Rightarrow> unit exec" where
  "release_old_root j =
     andthen (transition Releasing) (\<lambda>_.
     andthen save (\<lambda>_.
     andthen (drop_previous j) (\<lambda>_. modify released)))"

definition run_release :: "nat \<Rightarrow> unit exec" where
  "run_release uid =
     andthen in_memory (\<lambda>j.
       if xj_phase j = Released \<and> xj_release_accepted_running j then ret ()
       else
         andthen (ensure (xj_committed j \<and> release_phase (xj_phase j))
                    ''ReleaseOld requires matching committed execution'') (\<lambda>_.
         andthen (finalize_committed uid) (\<lambda>_. release_old_root j)))"

definition back_untouched :: "exec_journal \<Rightarrow> exec_journal" where
  "back_untouched j =
     set_phase RolledBack
       (j\<lparr>xj_status := (xj_status j)
            \<lparr>rs_running_process := xj_old_process j, rs_observed_image := Some (xj_old_image j),
             rs_launch_nonce := rq_launch_nonce (xj_request j), rs_old_root_fenced := False,
             rs_rollback_available := False\<rparr>\<rparr>)"

text \<open>Nothing was stopped yet: the staged disk goes, and the VM runs as it did.\<close>

definition clear_prepared :: "exec_journal \<Rightarrow> unit exec" where
  "clear_prepared j =
     andthen (if xj_phase j = Prepared
              then must_match vw_staged (xj_candidate_disk j) ''prepared root identity changed'' else ret ()) (\<lambda>_.
     andthen (verify_running True) (\<lambda>_.
     andthen (path_exists vw_staged) (\<lambda>there.
     andthen (if there then remove_staged else ret ()) (\<lambda>_.
     andthen (works_op ''replacement.partial'') (\<lambda>_. sync_dir)))))"

definition rollback_untouched :: "unit exec" where
  "rollback_untouched =
     andthen in_memory (\<lambda>j.
     andthen (must_match vw_root (Some (xj_old_disk j)) ''baseline root changed before quiesce'') (\<lambda>_.
     andthen (clear_prepared j) (\<lambda>_. modify back_untouched)))"

definition rename_back :: "exec_journal \<Rightarrow> unit exec" where
  "rename_back j =
     andthen (must_match vw_previous (Some (xj_old_disk j)) ''rollback root missing'') (\<lambda>_.
     andthen (works_op ''rename'') (\<lambda>_.
     andthen (change reinstall_previous) (\<lambda>_. sync_dir)))"

definition clear_previous :: "exec_journal \<Rightarrow> unit exec" where
  "clear_previous j =
     andthen (path_exists vw_previous) (\<lambda>there.
       if there
       then andthen (must_match vw_previous (Some (xj_old_disk j)) ''unexpected rollback root'') (\<lambda>_. remove_previous)
       else ret ())"

definition clear_staged :: "exec_journal \<Rightarrow> unit exec" where
  "clear_staged j =
     andthen (path_exists vw_staged) (\<lambda>there.
       if there
       then andthen (must_match vw_staged (xj_candidate_disk j) ''unexpected staged disk'') (\<lambda>_. remove_staged)
       else ret ())"

definition restore_root :: "unit exec" where
  "restore_root =
     andthen in_memory (\<lambda>j.
     andthen (matches vw_root (xj_old_disk j)) (\<lambda>there.
     andthen (if there then ret () else rename_back j) (\<lambda>_.
     andthen (clear_previous j) (\<lambda>_.
     andthen (modify_status (rs_old_root_fenced_update (\<lambda>_. True))) (\<lambda>_.
     andthen (clear_staged j) (\<lambda>_. sync_dir))))))"

definition launch_old :: "replace_spec \<Rightarrow> unit exec" where
  "launch_old spec =
     andthen (modify_status (rs_rollback_available_update (\<lambda>_. False))) (\<lambda>_.
     andthen in_memory (\<lambda>j.
     andthen (launch (with_image spec (xj_old_image j)) True) (\<lambda>_.
       modify_status (rs_rollback_available_update (\<lambda>_. False)))))"

definition rollback_now :: "replace_spec \<Rightarrow> unit exec" where
  "rollback_now spec =
     andthen (transition RollingBack) (\<lambda>_.
     andthen save (\<lambda>_.
     andthen in_memory (\<lambda>j.
     andthen (fence_optional (xj_candidate_process j)) (\<lambda>_.
     andthen fence_old (\<lambda>_.
     andthen (modify_status not_running) (\<lambda>_.
     andthen restore_root (\<lambda>_. launch_old spec)))))))"

definition rollback_phase :: "replace_phase \<Rightarrow> bool" where
  "rollback_phase p \<longleftrightarrow>
     p \<in> {Prepared, Quiescing, Quiesced, Installing, Starting, CandidateRunning, RollingBack, Uncertain}"

definition run_rollback :: "replace_spec \<Rightarrow> unit exec" where
  "run_rollback spec =
     andthen in_memory (\<lambda>j.
     andthen (ensure (\<not> xj_committed j) ''committed target cannot be rolled back'') (\<lambda>_.
       if xj_phase j = RolledBack then ret ()
       else
         andthen (ensure (xj_phase j \<notin> {Committed, Releasing, Released})
                    ''confirmed candidate cannot be rolled back'') (\<lambda>_.
           if xj_phase j = Preparing \<or> xj_phase j = Prepared then rollback_untouched
           else
             andthen (ensure (rq_launch_nonce (xj_request j) \<notin> set (xj_used_nonces j) \<and>
                              rq_launch_nonce (xj_request j) \<noteq> rs_launch_nonce (xj_status j))
                        ''rollback requires a fresh authorized launch nonce'') (\<lambda>_.
             andthen (ensure (\<not> xj_launch_pending j) ''unidentified rollback launch may still exist'') (\<lambda>_.
             andthen (ensure (rollback_phase (xj_phase j)) ''Rollback is not valid in this phase'') (\<lambda>_.
               rollback_now spec))))))"

definition run :: "nat \<Rightarrow> replace_spec \<Rightarrow> unit exec" where
  "run uid spec =
     andthen in_memory (\<lambda>j.
       case rq_action (xj_request j) of
         Prepare \<Rightarrow> run_prepare
       | Quiesce \<Rightarrow> run_quiesce
       | StartCandidate \<Rightarrow> run_start uid spec
       | Commit \<Rightarrow> run_commit uid
       | ReleaseOld \<Rightarrow> run_release uid
       | Rollback \<Rightarrow> run_rollback spec)"

section \<open>One request\<close>

definition rebooted :: "exec_journal \<Rightarrow> exec_journal" where
  "rebooted j =
     (let j = set_phase Uncertain (j\<lparr>xj_launch_pending := False, xj_status := fenced (xj_status j)\<rparr>)
      in j\<lparr>xj_status := (xj_status j)\<lparr>rs_reason :=
             Some ''host reboot fenced the interrupted launch; a fresh authorized nonce is required''\<rparr>\<rparr>)"

definition identified :: "vmm_process \<Rightarrow> bool \<Rightarrow> exec_journal \<Rightarrow> exec_journal" where
  "identified p running j =
     (let j = (if xj_rollback_launch j then j\<lparr>xj_old_process := Some p\<rparr> else j\<lparr>xj_candidate_process := Some p\<rparr>);
          j = j\<lparr>xj_status := (xj_status j)
                 \<lparr>rs_running_process := (if running then Some p else None),
                  rs_old_root_fenced := \<not> xj_rollback_launch j, rs_observed_image := None\<rparr>,
                xj_launch_pending := False\<rparr>;
          j = set_phase Uncertain j
      in j\<lparr>xj_status := (xj_status j)\<lparr>rs_reason :=
             Some ''interrupted launch identified; a fresh authorized nonce is required''\<rparr>\<rparr>)"

definition identify :: "vmm_process \<Rightarrow> unit exec" where
  "identify p =
     andthen (alive p) (\<lambda>b.
     andthen (if b then validate_process_owner else ret ()) (\<lambda>_.
     andthen (alive p) (\<lambda>running. modify (identified p running))))"

definition recover_launch :: "unit exec" where
  "recover_launch =
     andthen in_memory (\<lambda>j.
       if \<not> xj_launch_pending j then ret ()
       else
         andthen boot_id (\<lambda>b.
           if b \<noteq> xj_launch_boot_id j then modify rebooted
           else
             andthen (works_op ''process.json'') (\<lambda>_.
             andthen (look vw_process) (\<lambda>x.
               case x of
                 None \<Rightarrow> ret ()
               | Some p \<Rightarrow> if Some p = xj_pending_predecessor j then ret () else identify p))))"

definition gone :: "exec_journal \<Rightarrow> exec_journal" where
  "gone j =
     (let j = j\<lparr>xj_status := not_running (xj_status j)\<rparr>;
          j = (if xj_phase j = CandidateRunning then set_phase Uncertain j else j);
          j = (if xj_phase j = Released then j\<lparr>xj_release_accepted_running := False\<rparr> else j)
      in j\<lparr>xj_status := (xj_status j)\<lparr>rs_reason :=
             Some ''the observed VMM no longer runs with its recorded identity''\<rparr>\<rparr>)"

definition refresh_running :: "unit exec" where
  "refresh_running =
     andthen in_memory (\<lambda>j.
       case rs_running_process (xj_status j) of
         None \<Rightarrow> ret ()
       | Some p \<Rightarrow> andthen (alive p) (\<lambda>b. if b then ret () else modify gone))"

definition new_journal ::
  "replace_spec \<Rightarrow> replace_request \<Rightarrow> vm_shape \<Rightarrow> vmm_process option \<Rightarrow> vmm_process option \<Rightarrow> disk \<Rightarrow>
   exec_journal" where
  "new_journal spec rq shape old running root =
     \<lparr>xj_version = JOURNAL_VERSION, xj_request = rq,
      xj_status =
        \<lparr>rs_id = sp_id spec, rs_attempt_id = rq_attempt_id rq, rs_sequence = rq_sequence rq,
         rs_document_generation = rq_document_generation rq, rs_phase = Preparing,
         rs_requested_image = rq_image rq,
         rs_observed_image = map_option (\<lambda>_. sp_image spec) running,
         rs_launch_nonce = rq_launch_nonce rq, rs_previous_process = old, rs_running_process = running,
         rs_old_root_fenced = False, rs_rollback_available = False, rs_reason = None\<rparr>,
      xj_base_shape = shape, xj_old_image = sp_image spec, xj_old_disk = root, xj_candidate_disk = None,
      xj_old_process = old, xj_candidate_process = None, xj_used_nonces = [], xj_launch_pending = False,
      xj_rollback_launch = False, xj_launch_boot_id = [], xj_pending_predecessor = None,
      xj_committed = False, xj_committed_restart_nonce = None, xj_release_accepted_running = False,
      xj_operation_generation = rq_document_generation rq, xj_operation_nonces = [rq_launch_nonce rq]\<rparr>"

definition supersedes :: "replace_request \<Rightarrow> exec_journal option \<Rightarrow> string + unit" where
  "supersedes rq prior =
     (case prior of
        None \<Rightarrow> Inr ()
      | Some j \<Rightarrow>
          if \<not> (terminal j \<and> rq_document_generation (xj_request j) < rq_document_generation rq)
          then Inl ''stale attempt or active replacement''
          else if rq_launch_nonce rq \<in> set (xj_used_nonces j) then Inl ''launch nonce was already used''
          else Inr ())"

definition open_journal ::
  "replace_spec \<Rightarrow> replace_request \<Rightarrow> vm_shape \<Rightarrow> vmm_process option \<Rightarrow> exec_journal exec" where
  "open_journal spec rq shape old =
     andthen (case old of
                None \<Rightarrow> ret None
              | Some p \<Rightarrow> andthen (alive p) (\<lambda>b. ret (if b then Some p else None))) (\<lambda>running.
     andthen (disk_of vw_root) (\<lambda>root.
       ret (new_journal spec rq shape old running root)))"

definition begin_attempt :: "replace_spec \<Rightarrow> replace_request \<Rightarrow> exec_journal option \<Rightarrow> exec_journal exec" where
  "begin_attempt spec rq prior =
     andthen (from_sum (supersedes rq prior)) (\<lambda>_.
     andthen (ensure (initial_operation rq) ''new execution requires Prepare1 or pre-authorization Rollback2'') (\<lambda>_.
     andthen (look vw_shape) (\<lambda>shape.
     andthen (given ''VM has no recorded shape'' shape) (\<lambda>shape.
     andthen (ensure (shape = shape_of spec) ''base spec does not match the existing VM'') (\<lambda>_.
     andthen adopt_or_recorded (open_journal spec rq shape))))))"

definition prior_journal :: "string \<Rightarrow> exec_journal option exec" where
  "prior_journal i =
     andthen (works_op ''execution journal'') (\<lambda>_.
     andthen (look vw_journal) (\<lambda>x.
       case x of None \<Rightarrow> ret None | Some j \<Rightarrow> andthen (from_sum (loaded i j)) (\<lambda>j. ret (Some j))))"

definition admitted_journal :: "replace_spec \<Rightarrow> replace_request \<Rightarrow> exec_journal option \<Rightarrow> exec_journal exec" where
  "admitted_journal spec rq prior =
     (case prior of
        Some j \<Rightarrow> if rq_attempt_id (xj_request j) = rq_attempt_id rq then from_sum (accept_request j rq)
                  else begin_attempt spec rq prior
      | None \<Rightarrow> begin_attempt spec rq prior)"

definition run_and_save :: "nat \<Rightarrow> replace_spec \<Rightarrow> unit exec" where
  "run_and_save uid spec =
     andthen (attempt (run uid spec)) (\<lambda>r.
       case r of
         Inl why \<Rightarrow>
           andthen (modify_status (rs_reason_update (\<lambda>_. Some (take 1024 why)))) (\<lambda>_.
           andthen save (\<lambda>_. bail why))
       | Inr u \<Rightarrow> andthen refresh_running (\<lambda>_. save))"

definition carry_out :: "nat \<Rightarrow> replace_spec \<Rightarrow> exec_journal \<Rightarrow> replace_status exec" where
  "carry_out uid spec j =
     andthen (modify (\<lambda>_. j)) (\<lambda>_.
     andthen recover_launch (\<lambda>_.
     andthen in_memory (\<lambda>j.
     andthen (from_sum (base_spec_ok spec j)) (\<lambda>_.
     andthen save (\<lambda>_.
     andthen (run_and_save uid spec) (\<lambda>_.
     andthen in_memory (\<lambda>j. ret (xj_status j))))))))"

definition execute ::
  "(octet list \<Rightarrow> string + unit) \<Rightarrow> nat \<Rightarrow> replace_spec \<Rightarrow> replace_request \<Rightarrow> replace_status exec" where
  "execute strong uid spec rq =
     andthen (works_op ''replacement version0: root x86_64 jailed runtime, pidfd and trusted debugfs required'') (\<lambda>_.
     andthen (from_sum (validate_request strong spec rq)) (\<lambda>_.
     andthen (works_op ''execution lock'') (\<lambda>_.
     andthen (works_op ''directories'') (\<lambda>_.
     andthen (prior_journal (sp_id spec)) (\<lambda>prior.
     andthen now_ms (\<lambda>t.
     andthen (from_sum (authorize_time t prior rq)) (\<lambda>_.
     andthen (admitted_journal spec rq prior) (carry_out uid spec))))))))"

section \<open>The life of a VM\<close>

text \<open>Between requests processes end (all of them where the host restarts), and the ordinary runtime
  starts the VM where it does not run and no replacement owns it.\<close>

definition owned :: "string \<Rightarrow> vm_world \<Rightarrow> bool" where
  "owned i w \<longleftrightarrow>
     (case vw_journal w of
        None \<Rightarrow> False
      | Some j \<Rightarrow> (case loaded i j of Inl why \<Rightarrow> True | Inr k \<Rightarrow> \<not> terminal k))"

inductive replaced :: "(octet list \<Rightarrow> string + unit) \<Rightarrow> nat \<Rightarrow> string \<Rightarrow> vm_world \<Rightarrow> vm_world \<Rightarrow> bool"
  for strong :: "octet list \<Rightarrow> string + unit" and uid :: nat and i :: string and w0 :: vm_world where
  begins: "replaced strong uid i w0 w0"
| executed: "replaced strong uid i w0 w \<Longrightarrow> sp_id spec = i \<Longrightarrow>
    replaced strong uid i w0 (left_on_disk (execute strong uid spec rq w answers))"
| processes_end: "replaced strong uid i w0 w \<Longrightarrow> replaced strong uid i w0 (ended ps w)"
| started: "replaced strong uid i w0 w \<Longrightarrow> \<not> owned i w \<Longrightarrow> vw_live w = [] \<Longrightarrow>
    replaced strong uid i w0 (left_on_disk (spawn w answers))"

end
