(* ===== verification/Vm_Run_Inv.thy ===== *)
theory Vm_Run_Inv
  imports Vm_Run
begin

text \<open>
  What holds of a VM after every operation, failure and crash of a replacement: at most one process
  runs it, on the disk that is the root; the disk of before is the root or kept until the commit, and
  the confirmed disk is the root from then on.
\<close>

section \<open>The invariant\<close>

text \<open>The phases in which the root is the disk of before, those before the commit, and those after it.\<close>

definition baseline_phase :: "replace_phase \<Rightarrow> bool" where
  "baseline_phase q \<longleftrightarrow> q \<in> {Preparing, Prepared, Quiescing, Quiesced, RolledBack}"

definition uncommitted_phase :: "replace_phase \<Rightarrow> bool" where
  "uncommitted_phase q \<longleftrightarrow> baseline_phase q \<or> q = Installing \<or> q = RollingBack"

definition committed_phase :: "replace_phase \<Rightarrow> bool" where
  "committed_phase q \<longleftrightarrow> q \<in> {Committed, Releasing, Released}"

lemma baseline_phase_simps [simp]:
  "baseline_phase Preparing"
  "baseline_phase Prepared"
  "baseline_phase Quiescing"
  "baseline_phase Quiesced"
  "\<not> baseline_phase Installing"
  "\<not> baseline_phase Starting"
  "\<not> baseline_phase CandidateRunning"
  "\<not> baseline_phase Committed"
  "\<not> baseline_phase RollingBack"
  "baseline_phase RolledBack"
  "\<not> baseline_phase Releasing"
  "\<not> baseline_phase Released"
  "\<not> baseline_phase Uncertain"
  by (simp_all add: baseline_phase_def)

lemma uncommitted_phase_simps [simp]:
  "uncommitted_phase Preparing"
  "uncommitted_phase Prepared"
  "uncommitted_phase Quiescing"
  "uncommitted_phase Quiesced"
  "uncommitted_phase Installing"
  "\<not> uncommitted_phase Starting"
  "\<not> uncommitted_phase CandidateRunning"
  "\<not> uncommitted_phase Committed"
  "uncommitted_phase RollingBack"
  "uncommitted_phase RolledBack"
  "\<not> uncommitted_phase Releasing"
  "\<not> uncommitted_phase Released"
  "\<not> uncommitted_phase Uncertain"
  by (simp_all add: uncommitted_phase_def)

lemma committed_phase_simps [simp]:
  "\<not> committed_phase Preparing"
  "\<not> committed_phase Prepared"
  "\<not> committed_phase Quiescing"
  "\<not> committed_phase Quiesced"
  "\<not> committed_phase Installing"
  "\<not> committed_phase Starting"
  "\<not> committed_phase CandidateRunning"
  "committed_phase Committed"
  "\<not> committed_phase RollingBack"
  "\<not> committed_phase RolledBack"
  "committed_phase Releasing"
  "committed_phase Released"
  "\<not> committed_phase Uncertain"
  by (simp_all add: committed_phase_def)

text \<open>What a journal says of the root and of the disk kept as the previous one.\<close>

definition on_candidate :: "exec_journal \<Rightarrow> disk option \<Rightarrow> bool" where
  "on_candidate j root \<longleftrightarrow> xj_candidate_disk j \<noteq> None \<and> root = xj_candidate_disk j"

definition fitting :: "exec_journal \<Rightarrow> disk option \<Rightarrow> disk option \<Rightarrow> bool" where
  "fitting j root previous \<longleftrightarrow>
     (xj_committed j \<longrightarrow> on_candidate j root) \<and>
     (xj_committed j \<or> root = Some (xj_old_disk j) \<or> previous = Some (xj_old_disk j)) \<and>
     (xj_phase j = CandidateRunning \<longrightarrow> on_candidate j root) \<and>
     (baseline_phase (xj_phase j) \<longrightarrow> root = Some (xj_old_disk j)) \<and>
     (uncommitted_phase (xj_phase j) \<longrightarrow> \<not> xj_committed j) \<and>
     (committed_phase (xj_phase j) \<or> xj_committed_restart_nonce j \<noteq> None \<longrightarrow> xj_committed j) \<and>
     distinct (xj_used_nonces j) \<and> length (xj_used_nonces j) \<le> MAX_LAUNCHES"

definition live_ok :: "vm_world \<Rightarrow> bool" where
  "live_ok w \<longleftrightarrow> length (vw_live w) \<le> 1 \<and> (\<forall>(p, d)\<in>set (vw_live w). vw_root w = Some d)"

definition vm_ok :: "vm_world \<Rightarrow> bool" where
  "vm_ok w \<longleftrightarrow> live_ok w \<and> (\<forall>j. vw_journal w = Some j \<longrightarrow> fitting j (vw_root w) (vw_previous w))"

definition working :: "vm_world \<Rightarrow> bool" where
  "working w \<longleftrightarrow> vm_ok w \<and> fitting (vw_memory w) (vw_root w) (vw_previous w)"

text \<open>The journal on disk says the same as the one in memory.\<close>

definition stored :: "vm_world \<Rightarrow> bool" where
  "stored w \<longleftrightarrow> working w \<and> vw_journal w = Some (vw_memory w)"

definition baseline_kept :: "vm_world \<Rightarrow> bool" where
  "baseline_kept w \<longleftrightarrow>
     (\<forall>j. vw_journal w = Some j \<longrightarrow>
        (if xj_committed j then on_candidate j (vw_root w)
         else vw_root w = Some (xj_old_disk j) \<or> vw_previous w = Some (xj_old_disk j)))"

section \<open>Programs that change neither disks nor journal\<close>

definition quiet :: "vm_world \<Rightarrow> vm_world \<Rightarrow> bool" where
  "quiet w v \<longleftrightarrow>
     vw_root v = vw_root w \<and> vw_previous v = vw_previous w \<and> vw_journal v = vw_journal w \<and>
     vw_memory v = vw_memory w \<and> set (vw_live v) \<subseteq> set (vw_live w) \<and> length (vw_live v) \<le> length (vw_live w)"

lemma quiet_refl [simp]: "quiet w w"
  by (simp add: quiet_def)

lemma quiet_trans: "quiet w v \<Longrightarrow> quiet v u \<Longrightarrow> quiet w u"
  by (auto simp: quiet_def)

lemma quiet_same:
  "quiet w v \<Longrightarrow> vw_root v = vw_root w \<and> vw_previous v = vw_previous w \<and> vw_journal v = vw_journal w \<and>
     vw_memory v = vw_memory w"
  by (simp add: quiet_def)

lemma quiet_nil: "quiet w v \<Longrightarrow> vw_live w = [] \<Longrightarrow> vw_live v = []"
  by (simp add: quiet_def)

lemma quiet_live: "quiet w v \<Longrightarrow> live_ok w \<Longrightarrow> live_ok v"
  by (auto simp: quiet_def live_ok_def)

lemma quiet_working: "quiet w v \<Longrightarrow> working w \<Longrightarrow> working v"
  using quiet_live quiet_same by (auto simp: working_def vm_ok_def)

lemma quiet_vm_ok: "quiet w v \<Longrightarrow> vm_ok w \<Longrightarrow> vm_ok v"
  using quiet_live quiet_same by (auto simp: vm_ok_def)

lemma quiet_stored: "quiet w v \<Longrightarrow> stored w \<Longrightarrow> stored v"
  using quiet_working quiet_same by (auto simp: stored_def)

lemma quiet_ended [simp]: "quiet w (ended ps w)"
  by (auto simp: quiet_def ended_def)

definition leaves_alone :: "'a exec \<Rightarrow> bool" where
  "leaves_alone m \<longleftrightarrow> (\<forall>w. wp m (\<lambda>a. quiet w) (quiet w) w)"

lemma wp_keeps:
  assumes "leaves_alone m" "\<And>a v. quiet w v \<Longrightarrow> Q a v" "\<And>v. quiet w v \<Longrightarrow> C v"
  shows "wp m Q C w"
  by (rule wp_conseq[where Q = "\<lambda>a. quiet w" and C = "quiet w"]) (use assms in \<open>auto simp: leaves_alone_def\<close>)

named_theorems keeping

lemma keeps_andthen [keeping]:
  assumes "leaves_alone m" "\<And>a. leaves_alone (k a)"
  shows "leaves_alone (andthen m k)"
  unfolding leaves_alone_def
proof
  fix w
  show "wp (andthen m k) (\<lambda>a. quiet w) (quiet w) w"
  proof (rule wp_andthen, rule wp_keeps[OF assms(1)])
    fix a v
    assume v: "quiet w v"
    show "wp (k a) (\<lambda>a. quiet w) (quiet w) v"
      by (rule wp_keeps[OF assms(2)]) (rule quiet_trans[OF v], assumption)+
  qed
qed

lemma keeps_look [keeping]: "leaves_alone (look f)"
  and keeps_ret [keeping]: "leaves_alone (ret a)"
  and keeps_bail [keeping]: "leaves_alone (bail why)"
  and keeps_ask [keeping]: "leaves_alone (ask kind)"
  and keeps_ensure [keeping]: "leaves_alone (ensure b why)"
  and keeps_from_sum [keeping]: "leaves_alone (from_sum r)"
  by (auto simp: leaves_alone_def)

lemma keeps_change: "(\<And>w. quiet w (f w)) \<Longrightarrow> leaves_alone (change f)"
  by (auto simp: leaves_alone_def)

lemma keeps_ended [keeping]: "leaves_alone (change (ended ps))"
  by (rule keeps_change) simp

lemma keeps_files [keeping]:
  "leaves_alone (change (vw_intent_update f))" "leaves_alone (change (vw_process_update g))" "leaves_alone (change (vw_pid_update h))"
  "leaves_alone (change (vw_staged_update k))" "leaves_alone (change (vw_shape_update l))"
  by (rule keeps_change, simp add: quiet_def)+

lemma keeps_attempt [keeping]: "leaves_alone m \<Longrightarrow> leaves_alone (attempt m)"
  unfolding leaves_alone_def by (intro allI wp_attempt) (auto elim: wp_conseq)

lemma keeps_if [keeping]: "(b \<Longrightarrow> leaves_alone m) \<Longrightarrow> (\<not> b \<Longrightarrow> leaves_alone n) \<Longrightarrow> leaves_alone (if b then m else n)"
  by simp

lemma keeps_option [keeping]:
  "leaves_alone m \<Longrightarrow> (\<And>a. leaves_alone (k a)) \<Longrightarrow> leaves_alone (case x of None \<Rightarrow> m | Some a \<Rightarrow> k a)"
  by (simp split: option.split)

lemma keeps_pair [keeping]: "(\<And>a b. leaves_alone (k a b)) \<Longrightarrow> leaves_alone (case x of (a, b) \<Rightarrow> k a b)"
  by (simp split: prod.split)

lemma keeps_sum [keeping]:
  "(\<And>a. leaves_alone (m a)) \<Longrightarrow> (\<And>a. leaves_alone (k a)) \<Longrightarrow> leaves_alone (case x of Inl a \<Rightarrow> m a | Inr a \<Rightarrow> k a)"
  by (simp split: sum.split)

lemma keeps_given [keeping]: "leaves_alone (given why x)"
  by (cases x) (simp_all add: given_def keeping)

lemma keeps_works_op [keeping]: "leaves_alone (works_op why)"
  unfolding works_op_def by (intro keeping)

lemma keeps_now_ms [keeping]: "leaves_alone now_ms"
  unfolding now_ms_def by (intro keeping)

lemma keeps_boot_id [keeping]: "leaves_alone boot_id"
  unfolding boot_id_def by (intro keeping)

lemma keeps_memory [keeping]: "leaves_alone in_memory"
  unfolding in_memory_def by (intro keeping)

lemma keeps_look_live [keeping]: "leaves_alone look_live"
  unfolding look_live_def by (intro keeping)

lemma keeps_alive [keeping]: "leaves_alone (alive p)"
  unfolding alive_def by (intro keeping)

lemma keeps_fence_pidfd [keeping]: "leaves_alone (fence_pidfd p)"
  unfolding fence_pidfd_def by (intro keeping)

lemma keeps_fence_identity [keeping]: "leaves_alone (fence_identity p)"
  unfolding fence_identity_def by (intro keeping)

lemma keeps_fence_optional [keeping]: "leaves_alone (fence_optional p)"
  unfolding fence_optional_def by (intro keeping)

lemma keeps_sole [keeping]: "leaves_alone (sole_vm_process x)"
  unfolding sole_vm_process_def by (intro keeping)

lemma keeps_remove_intent [keeping]: "leaves_alone remove_intent"
  unfolding remove_intent_def by (intro keeping)

lemma keeps_check_intent [keeping]: "leaves_alone check_launch_intent"
  unfolding check_launch_intent_def by (intro keeping)

lemma keeps_write_intent [keeping]: "leaves_alone write_launch_intent"
  unfolding write_launch_intent_def by (intro keeping)

lemma keeps_owner [keeping]: "leaves_alone validate_process_owner"
  unfolding validate_process_owner_def by (intro keeping)

lemma keeps_recorded [keeping]: "leaves_alone recorded_process"
  unfolding recorded_process_def by (intro keeping)

lemma keeps_adopt [keeping]: "leaves_alone adopt_or_recorded"
  unfolding adopt_or_recorded_def by (intro keeping)

lemma keeps_verify [keeping]: "leaves_alone (verify_running old)"
  unfolding verify_running_def by (intro keeping)

lemma keeps_fence_old [keeping]: "leaves_alone fence_old"
  unfolding fence_old_def by (intro keeping)

lemma keeps_record_process [keeping]: "leaves_alone (record_process p)"
  unfolding record_process_def by (intro keeping)

lemma keeps_open_socket [keeping]: "leaves_alone (open_socket p)"
  unfolding open_socket_def by (intro keeping)

lemma keeps_matches [keeping]: "leaves_alone (matches f d)"
  unfolding matches_def by (intro keeping)

lemma keeps_must_match [keeping]: "leaves_alone (must_match f d why)"
  unfolding must_match_def matches_some_def by (intro keeping)

lemma keeps_disk_of [keeping]: "leaves_alone (disk_of f)"
  unfolding disk_of_def by (intro keeping)

lemma keeps_path_exists [keeping]: "leaves_alone (path_exists f)"
  unfolding path_exists_def by (intro keeping)

lemma keeps_sync_dir [keeping]: "leaves_alone sync_dir"
  unfolding sync_dir_def by (intro keeping)

lemma keeps_remove_staged [keeping]: "leaves_alone remove_staged"
  unfolding remove_staged_def unlink_disk_def by (intro keeping)

lemma keeps_forget_pid [keeping]: "leaves_alone forget_pid"
  unfolding forget_pid_def by (intro keeping)

lemma keeps_finalize_running [keeping]: "leaves_alone (finalize_running p d b)"
  unfolding finalize_running_def by (intro keeping)

section \<open>Where no process is left\<close>

lemma wp_sole_none:
  assumes "\<And>v. quiet w v \<Longrightarrow> vw_live v = [] \<Longrightarrow> Q () v" "\<And>v. quiet w v \<Longrightarrow> C v"
  shows "wp (sole_vm_process None) Q C w"
proof -
  have nil: "xs = []" if "list_all (\<lambda>(p, d). False) xs" for xs :: "(vmm_process \<times> disk) list"
    using that by (cases xs) auto
  show ?thesis
    unfolding sole_vm_process_def look_live_def
    by (auto intro!: assms dest!: nil split: prod.splits)
qed

lemma wp_fence_old:
  assumes "\<And>v. quiet w v \<Longrightarrow> vw_live v = [] \<Longrightarrow> Q () v" "\<And>v. quiet w v \<Longrightarrow> C v"
  shows "wp fence_old Q C w"
  unfolding fence_old_def
proof (rule wp_andthen, rule wp_keeps[OF keeps_memory])
  fix j v
  assume v: "quiet w v"
  show "wp (andthen (case xj_old_process j of None \<Rightarrow> ret ()
            | Some p \<Rightarrow> andthen (alive p) (\<lambda>b.
                  andthen (if b then validate_process_owner else ret ()) (\<lambda>_. fence_identity p))) (\<lambda>_.
     andthen (works_op ''VM address missing'') (\<lambda>_. sole_vm_process None))) Q C v"
  proof (rule wp_andthen, rule wp_keeps)
    show "leaves_alone (case xj_old_process j of None \<Rightarrow> ret ()
            | Some p \<Rightarrow> andthen (alive p) (\<lambda>b.
                  andthen (if b then validate_process_owner else ret ()) (\<lambda>_. fence_identity p)))"
      by (intro keeping)
    fix u
    assume u: "quiet v u"
    show "wp (andthen (works_op ''VM address missing'') (\<lambda>_. sole_vm_process None)) Q C u"
      by (rule wp_andthen, rule wp_keeps[OF keeps_works_op])
        (auto intro!: wp_sole_none intro: assms quiet_trans[OF quiet_trans[OF v u]] quiet_trans)
    show "C u" by (blast intro: assms quiet_trans v u)
  qed
next
  fix v
  assume "quiet w v"
  then show "C v" by (rule assms(2))
qed

section \<open>Reading and saving\<close>

lemma wp_works_op [intro!]: "C w \<Longrightarrow> Q () w \<Longrightarrow> wp (works_op why) Q C w"
  unfolding works_op_def by auto

lemma wp_now_ms [intro!]: "C w \<Longrightarrow> (\<And>t. Q t w) \<Longrightarrow> wp now_ms Q C w"
  unfolding now_ms_def given_def by (auto split: option.splits)

lemma wp_boot_id [intro!]: "C w \<Longrightarrow> (\<And>t. Q t w) \<Longrightarrow> wp boot_id Q C w"
  unfolding boot_id_def given_def by (auto split: option.splits)

lemma wp_given [intro!]: "C w \<Longrightarrow> (\<And>a. x = Some a \<Longrightarrow> Q a w) \<Longrightarrow> wp (given why x) Q C w"
  unfolding given_def by (auto split: option.splits)

lemma wp_memory [intro!]: "Q (vw_memory w) w \<Longrightarrow> wp in_memory Q C w"
  unfolding in_memory_def by auto

lemma wp_modify [intro!]: "Q () (vw_memory_update f w) \<Longrightarrow> wp (modify f) Q C w"
  unfolding modify_def by auto

lemma wp_modify_status [intro!]: "Q () (vw_memory_update (xj_status_update f) w) \<Longrightarrow> wp (modify_status f) Q C w"
  unfolding modify_status_def by auto

lemma wp_transition [intro!]: "Q () (vw_memory_update (set_phase p) w) \<Longrightarrow> wp (transition p) Q C w"
  unfolding transition_def by auto

lemma wp_matches [intro!]: "C w \<Longrightarrow> (\<And>b. (b \<Longrightarrow> f w = Some d) \<Longrightarrow> Q b w) \<Longrightarrow> wp (matches f d) Q C w"
  unfolding matches_def by auto

lemma wp_must_match [intro!]:
  "C w \<Longrightarrow> (\<And>e. d = Some e \<Longrightarrow> f w = Some e \<Longrightarrow> Q () w) \<Longrightarrow> wp (must_match f d why) Q C w"
  unfolding must_match_def matches_some_def by (cases d) auto

lemma wp_path_exists [intro!]: "C w \<Longrightarrow> (\<And>b. Q b w) \<Longrightarrow> wp (path_exists f) Q C w"
  unfolding path_exists_def by auto

lemma wp_disk_of [intro!]: "C w \<Longrightarrow> (\<And>d. f w = Some d \<Longrightarrow> Q d w) \<Longrightarrow> wp (disk_of f) Q C w"
  unfolding disk_of_def by (auto split: option.splits)

lemma wp_sync_dir [intro!]: "C w \<Longrightarrow> Q () w \<Longrightarrow> wp sync_dir Q C w"
  unfolding sync_dir_def by auto

lemma wp_save:
  assumes "C w" "C (w\<lparr>vw_journal := Some (vw_memory w)\<rparr>)" "Q () (w\<lparr>vw_journal := Some (vw_memory w)\<rparr>)"
  shows "wp save Q C w"
  unfolding save_def using assms by auto

lemma working_save: "working w \<Longrightarrow> stored (w\<lparr>vw_journal := Some (vw_memory w)\<rparr>)"
  by (auto simp: stored_def working_def vm_ok_def live_ok_def)

lemma stored_working: "stored w \<Longrightarrow> working w"
  by (simp add: stored_def)

lemma wp_saved:
  assumes "working w"
    "stored (w\<lparr>vw_journal := Some (vw_memory w)\<rparr>) \<Longrightarrow> Q () (w\<lparr>vw_journal := Some (vw_memory w)\<rparr>)"
  shows "wp save Q working w"
  by (rule wp_save) (use assms working_save stored_working in blast)+

lemma working_memory:
  "working (vw_memory_update f w) \<longleftrightarrow> vm_ok w \<and> fitting (f (vw_memory w)) (vw_root w) (vw_previous w)"
  by (simp add: working_def vm_ok_def live_ok_def)

lemma working_memoryI:
  "working w \<Longrightarrow> fitting (f (vw_memory w)) (vw_root w) (vw_previous w) \<Longrightarrow> working (vw_memory_update f w)"
  unfolding working_memory by (simp add: working_def)

lemma working_fits: "working w \<Longrightarrow> fitting (vw_memory w) (vw_root w) (vw_previous w)"
  by (simp add: working_def)

section \<open>What a program may do to it\<close>

text \<open>
  Every action of a replacement keeps the invariant of above, wherever it fails or the host
  crashes: a process is started only where none is left, and a root is renamed away only while the
  journal on disk names the disk that stays.
\<close>

section \<open>Journals\<close>

lemma fitting_status:
  "(\<And>s. rs_phase (f s) = rs_phase s) \<Longrightarrow> fitting (xj_status_update f j) r p = fitting j r p"
  by (simp add: fitting_def on_candidate_def)

lemma fitting_not_running [simp]: "fitting (xj_status_update not_running j) r p = fitting j r p"
  by (rule fitting_status) (simp add: not_running_def)

lemma fitting_fenced [simp]: "fitting (xj_status_update fenced j) r p = fitting j r p"
  by (rule fitting_status) (simp add: fenced_def not_running_def)

lemma fitting_marks [simp]:
  "fitting (xj_status_update (rs_reason_update a) j) r p = fitting j r p"
  "fitting (xj_status_update (rs_rollback_available_update b) j) r p = fitting j r p"
  "fitting (xj_status_update (rs_old_root_fenced_update b) j) r p = fitting j r p"
  "fitting (xj_launch_boot_id_update c j) r p = fitting j r p"
  "fitting (xj_pending_predecessor_update d j) r p = fitting j r p"
  "fitting (finalized e j) r p = fitting j r p"
  "fitting (launched rollback q j) r p = fitting j r p"
  by (simp_all add: fitting_def on_candidate_def finalized_def launched_def Let_def)

lemma fitting_uncertain: "fitting j r p \<Longrightarrow> fitting (set_phase Uncertain j) r p"
  by (simp add: fitting_def on_candidate_def set_phase_def)

lemma fitting_starting: "fitting j r p \<Longrightarrow> fitting (set_phase Starting j) r p"
  by (simp add: fitting_def on_candidate_def set_phase_def)

lemma fitting_uncommitted:
  "fitting j r p \<Longrightarrow> \<not> xj_committed j \<Longrightarrow> q = Installing \<or> q = RollingBack \<Longrightarrow> fitting (set_phase q j) r p"
  by (auto simp: fitting_def on_candidate_def set_phase_def)

lemma fitting_baseline:
  "fitting j r p \<Longrightarrow> \<not> xj_committed j \<Longrightarrow> r = Some (xj_old_disk j) \<Longrightarrow>
   baseline_phase q \<Longrightarrow> fitting (set_phase q j) r p"
  by (cases q) (auto simp: fitting_def on_candidate_def set_phase_def)

lemma fitting_committed:
  "fitting j r p \<Longrightarrow> xj_committed j \<Longrightarrow> committed_phase q \<Longrightarrow> fitting (set_phase q j) r p"
  by (cases q) (auto simp: fitting_def on_candidate_def set_phase_def)

lemma fitting_booted:
  "fitting j r p \<Longrightarrow> (if rollback then \<not> xj_committed j \<and> r = Some (xj_old_disk j)
     else on_candidate j r) \<Longrightarrow> fitting (booted rollback img j) r p"
  by (cases rollback) (auto simp: fitting_def on_candidate_def booted_def set_phase_def)

lemma fitting_pending:
  "fitting j r p \<Longrightarrow> rq_launch_nonce (xj_request j) \<notin> set (xj_used_nonces j) \<Longrightarrow>
   length (xj_used_nonces j) < MAX_LAUNCHES \<Longrightarrow> fitting (pending_launch rollback j) r p"
  by (auto simp: fitting_def on_candidate_def pending_launch_def Let_def)

lemma fitting_commits:
  "fitting j r p \<Longrightarrow> xj_phase j = CandidateRunning \<Longrightarrow> fitting (commit_candidate j) r p"
  by (auto simp: fitting_def on_candidate_def commit_candidate_def set_phase_def)

lemma fitting_reserves: "fitting j r p \<Longrightarrow> xj_committed j \<Longrightarrow> fitting (reserve_restart j) r p"
  by (auto simp: fitting_def on_candidate_def reserve_restart_def set_phase_def)

lemma fitting_released: "fitting j r p \<Longrightarrow> xj_committed j \<Longrightarrow> fitting (released j) r p"
  by (auto simp: fitting_def on_candidate_def released_def set_phase_def)

lemma fitting_back:
  "fitting j r p \<Longrightarrow> \<not> xj_committed j \<Longrightarrow> r = Some (xj_old_disk j) \<Longrightarrow> fitting (back_untouched j) r p"
  by (auto simp: fitting_def on_candidate_def back_untouched_def set_phase_def)

lemma fitting_rebooted: "fitting j r p \<Longrightarrow> fitting (rebooted j) r p"
  by (auto simp: fitting_def on_candidate_def rebooted_def set_phase_def Let_def)

lemma fitting_identified: "fitting j r p \<Longrightarrow> fitting (identified q b j) r p"
  by (auto simp: fitting_def on_candidate_def identified_def set_phase_def Let_def)

lemma fitting_gone: "fitting j r p \<Longrightarrow> fitting (gone j) r p"
  by (auto simp: fitting_def on_candidate_def gone_def set_phase_def not_running_def Let_def)

lemma kept_fields [simp]:
  "xj_committed (set_phase q j) = xj_committed j" "xj_old_disk (set_phase q j) = xj_old_disk j"
  "xj_candidate_disk (set_phase q j) = xj_candidate_disk j" "xj_phase (set_phase q j) = q"
  "xj_committed (pending_launch b j) = xj_committed j" "xj_old_disk (pending_launch b j) = xj_old_disk j"
  "xj_candidate_disk (pending_launch b j) = xj_candidate_disk j"
  "xj_committed (launched b v j) = xj_committed j" "xj_old_disk (launched b v j) = xj_old_disk j"
  "xj_candidate_disk (launched b v j) = xj_candidate_disk j"
  "xj_committed (reserve_restart j) = xj_committed j" "xj_old_disk (reserve_restart j) = xj_old_disk j"
  "xj_candidate_disk (reserve_restart j) = xj_candidate_disk j"
  "xj_committed (finalized x j) = xj_committed j" "xj_old_disk (finalized x j) = xj_old_disk j"
  "xj_candidate_disk (finalized x j) = xj_candidate_disk j"
  by (simp_all add: set_phase_def pending_launch_def launched_def reserve_restart_def finalized_def Let_def)

lemma vm_ok_memory [simp]: "vm_ok (vw_memory_update f w) = vm_ok w"
  by (simp add: vm_ok_def live_ok_def)

lemma working_files [simp]:
  "working (vw_shape_update f w) = working w" "working (vw_process_update g w) = working w"
  "working (vw_pid_update h w) = working w" "working (vw_intent_update k w) = working w"
  "working (vw_staged_update l w) = working w"
  by (simp_all add: working_def vm_ok_def live_ok_def)

section \<open>Launching\<close>

text \<open>The disk that a launch is to run.\<close>

definition launch_target :: "bool \<Rightarrow> vm_world \<Rightarrow> bool" where
  "launch_target rollback w \<longleftrightarrow>
     (if rollback then \<not> xj_committed (vw_memory w) \<and> vw_root w = Some (xj_old_disk (vw_memory w))
      else on_candidate (vw_memory w) (vw_root w))"

definition launch_idle :: "bool \<Rightarrow> vm_world \<Rightarrow> bool" where
  "launch_idle rollback w \<longleftrightarrow> working w \<and> vw_live w = [] \<and> launch_target rollback w"

lemma idle_shape [simp]: "launch_idle rollback (vw_shape_update f w) = launch_idle rollback w"
  by (simp add: launch_idle_def launch_target_def)

lemma idle_memory:
  assumes "launch_idle rollback w" "fitting (f (vw_memory w)) (vw_root w) (vw_previous w)"
    "xj_committed (f (vw_memory w)) = xj_committed (vw_memory w)"
    "xj_old_disk (f (vw_memory w)) = xj_old_disk (vw_memory w)"
    "xj_candidate_disk (f (vw_memory w)) = xj_candidate_disk (vw_memory w)"
  shows "launch_idle rollback (vw_memory_update f w)"
  using assms by (auto simp: launch_idle_def launch_target_def on_candidate_def working_memory working_def)

lemma idle_saved: "launch_idle rollback w \<Longrightarrow> launch_idle rollback (w\<lparr>vw_journal := Some (vw_memory w)\<rparr>)"
  using working_save stored_working by (auto simp: launch_idle_def launch_target_def)

lemma idle_working: "launch_idle rollback w \<Longrightarrow> working w"
  by (simp add: launch_idle_def)

lemma idle_quiet: "quiet w v \<Longrightarrow> launch_idle rollback w \<Longrightarrow> launch_idle rollback v"
  using quiet_working quiet_nil quiet_same by (auto simp: launch_idle_def launch_target_def)

lemma idle_fits: "launch_idle rollback w \<Longrightarrow> fitting (vw_memory w) (vw_root w) (vw_previous w)"
  by (simp add: launch_idle_def working_def)

lemma wp_save_idle:
  "launch_idle rollback w \<Longrightarrow> wp save (\<lambda>_. launch_idle rollback) working w"
  by (rule wp_save) (auto dest: idle_saved idle_working)

lemma prepare_launch_idle:
  assumes "launch_idle rollback w"
  shows "wp (prepare_launch spec rollback) (\<lambda>_. launch_idle rollback) working w"
  unfolding prepare_launch_def
  using assms idle_fits[OF assms] idle_working[OF assms]
  by (auto intro!: wp_save_idle idle_memory working_memoryI fitting_starting fitting_pending)

text \<open>What a launch of a process leaves as it was.\<close>

definition calm :: "vm_world \<Rightarrow> vm_world \<Rightarrow> bool" where
  "calm w v \<longleftrightarrow>
     vw_root v = vw_root w \<and> vw_previous v = vw_previous w \<and> vw_journal v = vw_journal w \<and>
     vw_memory v = vw_memory w \<and> live_ok v"

lemma calm_quiet: "quiet w v \<Longrightarrow> calm u w \<Longrightarrow> calm u v"
  using quiet_live quiet_same by (auto simp: calm_def)

lemma calm_refl: "live_ok w \<Longrightarrow> calm w w"
  by (simp add: calm_def)

lemma calm_working: "calm w v \<Longrightarrow> working w \<Longrightarrow> working v"
  by (simp add: calm_def working_def vm_ok_def)

lemma calm_vm_ok: "calm w v \<Longrightarrow> vm_ok w \<Longrightarrow> vm_ok v"
  by (simp add: calm_def vm_ok_def)

lemma calm_target: "calm w v \<Longrightarrow> launch_target b w \<Longrightarrow> launch_target b v"
  by (simp add: calm_def launch_target_def)

lemma nil_live_ok: "vw_live w = [] \<Longrightarrow> live_ok w"
  by (simp add: live_ok_def)

lemma wp_keeps_calm:
  assumes "leaves_alone m" "calm u w"
  shows "wp m (\<lambda>_. calm u) (calm u) w"
  by (rule wp_keeps[OF assms(1)]) (rule calm_quiet[OF _ assms(2)], assumption)+

lemma start_process_calm:
  assumes "vw_live v = []"
  shows "wp start_process (\<lambda>_. calm v) (calm v) v"
proof -
  have "calm v (vw_live_update (\<lambda>l. (p, d) # l) (vw_pid_update f v))" if "vw_root v = Some d" for p d f
    using assms that by (simp add: calm_def live_ok_def)
  moreover have "calm v (vw_pid_update f v)" for f
    using assms by (simp add: calm_def live_ok_def)
  ultimately show ?thesis
    unfolding start_process_def
    using calm_refl[OF nil_live_ok[OF assms]] by (auto split: option.split)
qed

lemma calm_trans: "calm w v \<Longrightarrow> calm v u \<Longrightarrow> calm w u"
  by (simp add: calm_def)

lemma spawn_prepared_calm:
  assumes "vw_live w = []"
  shows "wp spawn_prepared (\<lambda>_. calm w) (calm w) w"
  unfolding spawn_prepared_def
proof (rule wp_andthen, rule wp_keeps[OF keeps_check_intent])
  fix v
  assume v: "quiet w v"
  have nil: "vw_live v = []" and c: "calm w v"
    using quiet_nil[OF v assms] calm_quiet[OF v calm_refl[OF nil_live_ok[OF assms]]] .
  have cleared: "wp (case r of Inl why \<Rightarrow> andthen remove_intent (\<lambda>_. bail why) | Inr p \<Rightarrow> ret p)
      (\<lambda>_. calm w) (calm w) u" if "calm w u" for r :: "string + vmm_process" and u
    by (rule wp_keeps_calm[OF _ that]) (intro keeping)
  have started: "wp start_process (\<lambda>_. calm w) (calm w) u" if u: "quiet v u" for u
    by (rule wp_conseq[OF start_process_calm[OF quiet_nil[OF u nil]]])
      (rule calm_trans[OF calm_quiet[OF u c]], assumption)+
  have opened: "wp (andthen write_launch_intent (\<lambda>_. start_process)) (\<lambda>_. calm w) (calm w) v"
    by (rule wp_andthen, rule wp_keeps[OF keeps_write_intent]) (erule started, erule calm_quiet[OF _ c])
  show "wp (andthen (attempt (andthen write_launch_intent (\<lambda>_. start_process))) (\<lambda>r.
       case r of Inl why \<Rightarrow> andthen remove_intent (\<lambda>_. bail why) | Inr p \<Rightarrow> ret p))
     (\<lambda>_. calm w) (calm w) v"
  proof (rule wp_andthen, rule wp_attempt, rule wp_conseq[OF opened])
    show "wp (case Inr a of Inl why \<Rightarrow> andthen remove_intent (\<lambda>_. bail why) | Inr p \<Rightarrow> ret p)
        (\<lambda>_. calm w) (calm w) d" if "calm w d" for a :: vmm_process and d
      by (rule cleared[OF that])
    show "calm w d \<and> (\<forall>why. wp (case (Inl why :: string + vmm_process) of Inl why \<Rightarrow> andthen remove_intent (\<lambda>_. bail why) | Inr p \<Rightarrow> ret p)
        (\<lambda>_. calm w) (calm w) d)" if "calm w d" for d
      using that cleared[OF that] by blast
  qed
next
  fix v
  assume "quiet w v"
  then show "calm w v" using calm_quiet calm_refl nil_live_ok assms by blast
qed

lemma spawn_calm:
  assumes "vw_live w = []"
  shows "wp spawn (\<lambda>_. calm w) (calm w) w"
  unfolding spawn_def
  by (rule wp_andthen, rule wp_post[OF spawn_prepared_calm[OF assms]])
    (rule wp_keeps_calm, (intro keeping), assumption)

lemma uncertain_working:
  assumes "working w"
  shows "wp (uncertain why) (\<lambda>_. working) working w"
  unfolding uncertain_def using assms working_fits[OF assms]
  by (auto intro!: wp_saved working_memoryI fitting_uncertain dest: stored_working)

lemma configure_working:
  assumes "working w" "launch_target rollback w"
  shows "wp (configure spec rollback p) (\<lambda>_. working) working w"
proof -
  have fence: "wp (andthen (fence_pidfd p) (\<lambda>_. uncertain why)) (\<lambda>_. working) working w" for why
    by (rule wp_andthen, rule wp_keeps[OF keeps_fence_pidfd])
      (auto intro!: uncertain_working quiet_working[OF _ assms(1)])
  have fit: "fitting (booted rollback (sp_image spec) (vw_memory w)) (vw_root w) (vw_previous w)"
    using assms by (intro fitting_booted working_fits) (auto simp: launch_target_def)
  show ?thesis
    unfolding configure_def
    using assms(1) fit by (auto intro!: fence uncertain_working working_memoryI)
qed

lemma run_process_working:
  assumes "working w" "launch_target rollback w"
  shows "wp (run_process spec rollback p) (\<lambda>_. working) working w"
  unfolding run_process_def
proof (rule wp_andthen, rule wp_keeps[OF keeps_alive])
  fix b u
  assume u: "quiet w u"
  have w: "working u" and t: "launch_target rollback u"
    using quiet_working[OF u assms(1)] assms(2) quiet_same[OF u] by (simp_all add: launch_target_def)
  let ?u = "vw_memory_update (launched rollback p) u"
  have l: "working ?u" by (rule working_memoryI[OF w]) (simp add: working_fits[OF w])
  have t': "launch_target rollback (?u\<lparr>vw_journal := Some (vw_memory ?u)\<rparr>)"
    using t by (cases rollback) (auto simp: launch_target_def on_candidate_def)
  have "wp (andthen save (\<lambda>_. configure spec rollback p)) (\<lambda>_. working) working ?u"
    by (rule wp_andthen, rule wp_saved[OF l], rule configure_working) (erule stored_working, rule t')
  then show "wp (andthen (ensure b ''VMM exited before configuration'') (\<lambda>_.
           andthen validate_process_owner (\<lambda>_.
           andthen (modify (launched rollback p)) (\<lambda>_.
           andthen save (\<lambda>_. configure spec rollback p))))) (\<lambda>_. working) working u"
    unfolding validate_process_owner_def using w by (auto simp del: vm_world.simps)
qed (rule quiet_working[OF _ assms(1)])

lemma launch_working:
  assumes "launch_idle rollback w"
  shows "wp (launch spec rollback) (\<lambda>_. working) working w"
  unfolding launch_def
proof (rule wp_andthen, rule wp_post[OF prepare_launch_idle[OF assms]])
  fix u v
  assume v: "launch_idle rollback v"
  then have nil: "vw_live v = []" by (simp add: launch_idle_def)
  have *: "working x" "launch_target rollback x" if "calm v x" for x
    using v calm_working[OF that] calm_target[OF that] by (simp_all add: launch_idle_def)
  show "wp (andthen (attempt spawn) (\<lambda>r.
       case r of
         Inl why \<Rightarrow> uncertain ''VMM launch failed or ambiguous; physical launch nonce consumed''
       | Inr p \<Rightarrow> run_process spec rollback p)) (\<lambda>_. working) working v"
    by (rule wp_andthen, rule wp_attempt, rule wp_conseq[OF spawn_calm[OF nil]])
      (auto intro!: run_process_working uncertain_working *)
qed

end
