(* ===== verification/Vm_Run_Actions.thy ===== *)
theory Vm_Run_Actions
  imports Vm_Run_Inv
begin

text \<open>
  The actions of a replacement keep the invariant, one by one, and so does the execution of a request.
\<close>

section \<open>Composition\<close>

lemma wp_kept:
  assumes "leaves_alone m" "working w" "\<And>a v. quiet w v \<Longrightarrow> working v \<Longrightarrow> Q a v"
  shows "wp m Q working w"
  by (rule wp_keeps[OF assms(1)]) (blast intro: assms quiet_working)+

lemma wp_kept_stored:
  assumes "leaves_alone m" "stored w" "\<And>a v. quiet w v \<Longrightarrow> stored v \<Longrightarrow> Q a v"
  shows "wp m Q working w"
  by (rule wp_keeps[OF assms(1)]) (blast intro: assms quiet_stored stored_working)+

lemma wp_working: "leaves_alone m \<Longrightarrow> working w \<Longrightarrow> wp m (\<lambda>_. working) working w"
  by (rule wp_kept)

lemma stored_fits: "stored w \<Longrightarrow> fitting (vw_memory w) (vw_root w) (vw_previous w)"
  by (simp add: stored_def working_def)

lemma fitting_candidate:
  "fitting j r p \<Longrightarrow> uncommitted_phase (xj_phase j) \<Longrightarrow> fitting (xj_candidate_disk_update f j) r p"
  by (cases "xj_phase j") (auto simp: fitting_def)

lemma baseline_uncommitted: "fitting j r p \<Longrightarrow> uncommitted_phase (xj_phase j) \<Longrightarrow> \<not> xj_committed j"
  and baseline_root: "fitting j r p \<Longrightarrow> baseline_phase (xj_phase j) \<Longrightarrow> r = Some (xj_old_disk j)"
  by (simp_all add: fitting_def)

section \<open>Prepare, Quiesce and Commit\<close>

lemma prepared_fitting:
  assumes "fitting j r p" "xj_phase j = Preparing"
  shows "fitting (xj_candidate_disk_update f j) r p" "fitting (set_phase Prepared (xj_candidate_disk_update f j)) r p"
proof -
  show *: "fitting (xj_candidate_disk_update f j) r p"
    by (rule fitting_candidate[OF assms(1)]) (simp add: assms(2))
  show "fitting (set_phase Prepared (xj_candidate_disk_update f j)) r p"
    by (rule fitting_baseline[OF *])
      (use baseline_uncommitted[OF assms(1)] baseline_root[OF assms(1)] assms(2) in simp_all)
qed

lemma run_prepare_working:
  assumes "working w"
  shows "wp run_prepare (\<lambda>_. working) working w"
  unfolding run_prepare_def remove_staged_def unlink_disk_def
  using assms prepared_fitting[OF working_fits[OF assms]]
  by (auto intro!: working_memoryI)

lemma keeps_stop_old [keeping]: "leaves_alone (stop_old p)"
  unfolding stop_old_def by (intro keeping)

lemma quiet_memory: "quiet w v \<Longrightarrow> vw_memory v = vw_memory w"
  and quiet_root: "quiet w v \<Longrightarrow> vw_root v = vw_root w"
  and quiet_previous: "quiet w v \<Longrightarrow> vw_previous v = vw_previous w"
  by (simp_all add: quiet_def)

lemma quiesced_working:
  assumes "working w" "xj_phase (vw_memory w) = Quiescing"
  shows "working (vw_memory_update (set_phase Quiesced \<circ> xj_status_update fenced) w)"
  using baseline_uncommitted[OF working_fits[OF assms(1)]] baseline_root[OF working_fits[OF assms(1)]]
    assms(2) working_fits[OF assms(1)]
  by (intro working_memoryI[OF assms(1)]) (auto intro!: fitting_baseline)

lemma fenced_working: "working w \<Longrightarrow> working (vw_memory_update (xj_status_update fenced) w)"
  by (rule working_memoryI) (simp_all add: working_fits)

lemma quiesce_old_working:
  assumes "working w" "xj_phase (vw_memory w) = Quiescing"
  shows "wp (quiesce_old p) (\<lambda>_. working) working w"
  unfolding quiesce_old_def
proof (rule wp_andthen, rule wp_kept[OF keeps_stop_old assms(1)])
  fix a u
  assume u: "quiet w u" "working u"
  show "wp (andthen (modify_status fenced) (\<lambda>_. transition Quiesced)) (\<lambda>_. working) working u"
    using quiesced_working[OF u(2)] fenced_working[OF u(2)] quiet_memory[OF u(1)] assms(2) by auto
qed

lemma run_quiesce_working:
  assumes "working w"
  shows "wp run_quiesce (\<lambda>_. working) working w"
proof -
  let ?j = "vw_memory w"
  have "fitting (set_phase Quiescing ?j) (vw_root w) (vw_previous w)"
    if "xj_phase ?j = Prepared \<or> xj_phase ?j = Quiescing" "vw_root w = Some (xj_old_disk ?j)"
    using that baseline_uncommitted[OF working_fits[OF assms]]
    by (intro fitting_baseline working_fits assms) auto
  then show ?thesis
    unfolding run_quiesce_def
    using assms by (auto intro!: wp_saved quiesce_old_working working_memoryI dest: stored_working)
qed

lemma confirm_commit_working:
  assumes "working w" "xj_phase (vw_memory w) = CandidateRunning"
  shows "wp confirm_commit (\<lambda>_. working) working w"
  unfolding confirm_commit_def
proof (rule wp_andthen, rule wp_kept[OF keeps_verify assms(1)])
  fix a u
  assume u: "quiet w u" "working u"
  have "fitting (commit_candidate (vw_memory u)) (vw_root u) (vw_previous u)"
    using quiet_memory[OF u(1)] assms(2) by (intro fitting_commits working_fits u(2)) simp
  then show "wp (modify commit_candidate) (\<lambda>_. working) working u"
    using working_memoryI[OF u(2)] by auto
qed

section \<open>Committed executions\<close>

lemma keeps_confirmed [keeping]: "leaves_alone (confirmed_process uid j)"
  unfolding confirmed_process_def by (intro keeping)

definition committed_here :: "vm_world \<Rightarrow> bool" where
  "committed_here w \<longleftrightarrow> working w \<and> xj_committed (vw_memory w)"

lemma committed_memory:
  "committed_here w \<Longrightarrow> fitting (f (vw_memory w)) (vw_root w) (vw_previous w) \<Longrightarrow>
   xj_committed (f (vw_memory w)) \<Longrightarrow> committed_here (vw_memory_update f w)"
  by (simp add: committed_here_def working_memoryI)

lemma committed_fits: "committed_here w \<Longrightarrow> fitting (vw_memory w) (vw_root w) (vw_previous w)"
  by (simp add: committed_here_def working_fits)

lemma committed_working: "committed_here w \<Longrightarrow> working w"
  by (simp add: committed_here_def)

lemma confirm_process_working:
  assumes "committed_here w"
  shows "wp (confirm_process uid j) (\<lambda>_. committed_here) working w"
  unfolding confirm_process_def
proof (rule wp_andthen, rule wp_kept[OF keeps_confirmed committed_working[OF assms]])
  fix a u
  assume u: "quiet w u" "working u"
  then have "committed_here u" using assms quiet_memory[OF u(1)] by (simp add: committed_here_def)
  then have "committed_here (vw_memory_update (finalized a) u)"
    by (intro committed_memory) (simp_all add: committed_fits, simp add: committed_here_def)
  then show "wp (modify (finalized a)) (\<lambda>_. committed_here) working u" by auto
qed

lemma finalize_working:
  assumes "working w"
  shows "wp (finalize_committed uid) (\<lambda>_. committed_here) working w"
  unfolding finalize_committed_def
  using assms by (auto intro!: confirm_process_working simp: committed_here_def)

lemma run_commit_working:
  assumes "working w"
  shows "wp (run_commit uid) (\<lambda>_. working) working w"
  unfolding run_commit_def
  using assms confirm_commit_working[OF assms] wp_post[OF finalize_working[OF assms] committed_working] by auto

lemma drop_previous_working:
  assumes "stored w" "xj_committed (vw_memory w)"
  shows "wp (drop_previous j) (\<lambda>_. committed_here) working w"
proof -
  have "fitting (vw_memory w) (vw_root w) q" for q
    using stored_fits[OF assms(1)] assms(2) by (auto simp: fitting_def)
  then have here: "committed_here (vw_previous_update (\<lambda>_. None) w)"
    using assms by (auto simp: committed_here_def stored_def working_def vm_ok_def live_ok_def)
  have "committed_here w" using assms by (simp add: committed_here_def stored_def)
  then show ?thesis
    unfolding drop_previous_def remove_previous_def unlink_disk_def
    using committed_working[OF here] here committed_working[OF \<open>committed_here w\<close>] by auto
qed

lemma released_working:
  assumes "committed_here v"
  shows "wp (modify released) (\<lambda>_. working) working v"
  by (rule wp_modify, rule working_memoryI[OF committed_working[OF assms]])
    (use assms in \<open>simp add: fitting_released committed_fits committed_here_def working_fits\<close>)

lemma release_old_working:
  assumes "committed_here w"
  shows "wp (release_old_root j) (\<lambda>_. working) working w"
  unfolding release_old_root_def
proof (intro wp_andthen wp_transition wp_saved)
  show "working (vw_memory_update (set_phase Releasing) w)"
    by (rule working_memoryI[OF committed_working[OF assms]])
      (use assms in \<open>simp add: fitting_committed committed_fits committed_here_def working_fits\<close>)
  let ?v = "vw_memory_update (set_phase Releasing) w"
  assume "stored (?v\<lparr>vw_journal := Some (vw_memory ?v)\<rparr>)"
  then show "wp (drop_previous j) (\<lambda>_. wp (modify released) (\<lambda>_. working) working) working
      (?v\<lparr>vw_journal := Some (vw_memory ?v)\<rparr>)"
    by (rule wp_post[OF drop_previous_working])
      (use assms in \<open>simp add: committed_here_def\<close>, erule released_working)
qed

lemma run_release_working:
  assumes "working w"
  shows "wp (run_release uid) (\<lambda>_. working) working w"
  unfolding run_release_def
  using assms by (auto intro!: wp_post[OF finalize_working] release_old_working)

lemma relaunch_working:
  assumes "working w" "vw_live w = []"
  shows "wp (relaunch spec) (\<lambda>_. working) working w"
proof -
  have "launch_idle False (vw_memory_update (xj_status_update fenced) w)"
    if "xj_candidate_disk (vw_memory w) = Some d" "vw_root w = Some d" for d
  proof (rule idle_memory)
    show "launch_idle False w" using assms that by (simp add: launch_idle_def launch_target_def on_candidate_def)
  qed (simp_all add: working_fits assms(1))
  then show ?thesis
    unfolding relaunch_def using assms(1) by (auto intro!: launch_working)
qed

lemma fence_and_relaunch_working:
  assumes "working w"
  shows "wp (fence_and_relaunch spec) (\<lambda>_. working) working w"
  unfolding fence_and_relaunch_def
  by (auto intro!: wp_kept[OF keeps_fence_optional assms] wp_sole_none relaunch_working
      dest: quiet_working)

lemma restart_now_working:
  assumes "working w"
  shows "wp (restart_now uid spec) (\<lambda>_. working) working w"
  unfolding restart_now_def
proof (rule wp_andthen, rule wp_post[OF finalize_working[OF assms]], intro wp_andthen wp_modify wp_saved)
  fix v
  assume v: "committed_here v"
  show "working (vw_memory_update reserve_restart v)"
    by (rule working_memoryI[OF committed_working[OF v]])
      (use v in \<open>simp add: fitting_reserves committed_here_def working_fits\<close>)
  let ?v = "vw_memory_update reserve_restart v"
  assume "stored (?v\<lparr>vw_journal := Some (vw_memory ?v)\<rparr>)"
  then show "wp (fence_and_relaunch spec) (\<lambda>_. working) working (?v\<lparr>vw_journal := Some (vw_memory ?v)\<rparr>)"
    by (rule fence_and_relaunch_working[OF stored_working])
qed

lemma restart_committed_working:
  assumes "working w"
  shows "wp (restart_committed_root uid spec) (\<lambda>_. working) working w"
  unfolding restart_committed_root_def
  using assms
  by (auto simp: Let_def intro!: wp_working[OF keeps_verify] uncertain_working restart_now_working
      split: option.split)

section \<open>StartCandidate\<close>

definition installing :: "vm_world \<Rightarrow> bool" where
  "installing w \<longleftrightarrow> stored w \<and> vw_live w = [] \<and> \<not> xj_committed (vw_memory w) \<and> xj_phase (vw_memory w) = Installing"

lemma installing_parts:
  "installing w \<Longrightarrow> vw_live w = [] \<and> \<not> xj_committed (vw_memory w) \<and> xj_phase (vw_memory w) = Installing \<and>
     vw_journal w = Some (vw_memory w) \<and> working w"
  by (simp add: installing_def stored_def)

lemma idle_candidate:
  "working w \<Longrightarrow> vw_live w = [] \<Longrightarrow> xj_candidate_disk (vw_memory w) = Some d \<Longrightarrow> vw_root w = Some d \<Longrightarrow>
   launch_idle False w"
  by (simp add: launch_idle_def launch_target_def on_candidate_def)

lemma fitting_installing:
  "fitting j r p \<Longrightarrow> xj_phase j = Installing \<Longrightarrow> p = Some (xj_old_disk j) \<Longrightarrow> fitting j s p"
  by (auto simp: fitting_def)

lemma install_staged_idle:
  assumes "installing w" "xj_candidate_disk (vw_memory w) = Some d" "vw_staged w = Some d"
    "vw_previous w = Some (xj_old_disk (vw_memory w))"
  shows "launch_idle False (install_staged w)"
proof (cases "vw_staged w = vw_root w")
  case True
  then show ?thesis
    using assms(2,3) installing_parts[OF assms(1)]
    by (intro idle_candidate[of _ d]) (simp_all add: install_staged_def)
next
  case False
  let ?v = "w\<lparr>vw_root := vw_staged w, vw_staged := None\<rparr>"
  have "fitting (vw_memory w) (vw_staged w) (vw_previous w)"
    using fitting_installing[OF working_fits] installing_parts[OF assms(1)] assms(4) by blast
  then have "working ?v"
    using installing_parts[OF assms(1)] by (simp add: working_def vm_ok_def live_ok_def)
  then show ?thesis
    using False assms(2,3) installing_parts[OF assms(1)]
    by (intro idle_candidate[of _ d]) (simp_all add: install_staged_def)
qed

lemma installing_working: "installing w \<Longrightarrow> working w"
  by (simp add: installing_def stored_def)

lemma install_root_idle:
  assumes "installing w"
  shows "wp install_root (\<lambda>_. launch_idle False) working w"
proof -
  have there: "launch_idle False w" if "xj_candidate_disk (vw_memory w) = Some d" "vw_root w = Some d" for d
    using installing_parts[OF assms] that by (intro idle_candidate[of _ d]) simp_all
  note inst = install_staged_idle[OF assms]
  show ?thesis
    unfolding install_root_def
    using installing_working[OF assms]
    by (auto intro!: there inst intro: idle_working[OF inst])
qed

lemma begin_installing_ends:
  assumes "stored w" "vw_live w = []" "xj_phase (vw_memory w) = Quiesced"
  shows "wp begin_installing (\<lambda>_. installing) working w"
  unfolding begin_installing_def
proof (intro wp_andthen wp_modify_status wp_transition wp_saved)
  let ?u = "vw_memory_update (xj_status_update (rs_rollback_available_update (\<lambda>_. True))) w"
  let ?m = "vw_memory_update (set_phase Installing) ?u"
  have unc: "\<not> xj_committed (vw_memory w)"
    using baseline_uncommitted[OF stored_fits[OF assms(1)]] assms(3) by simp
  have "working ?u"
    by (rule working_memoryI[OF stored_working[OF assms(1)]]) (simp add: stored_fits[OF assms(1)])
  then show "working ?m"
    by (rule working_memoryI) (use unc in \<open>simp add: fitting_uncommitted stored_fits[OF assms(1)]\<close>)
  assume "stored (?m\<lparr>vw_journal := Some (vw_memory ?m)\<rparr>)"
  then show "installing (?m\<lparr>vw_journal := Some (vw_memory ?m)\<rparr>)"
    using assms(2) unc by (simp add: installing_def)
qed

lemma stored_linked:
  assumes "stored w" "vw_root w = Some (xj_old_disk (vw_memory w))"
  shows "stored (w\<lparr>vw_previous := vw_root w\<rparr>)"
proof -
  have "fitting (vw_memory w) (vw_root w) (vw_root w)"
    using stored_fits[OF assms(1)] assms(2) by (simp add: fitting_def)
  then show ?thesis
    using assms(1) by (simp add: stored_def working_def vm_ok_def live_ok_def)
qed

lemma keep_baseline_installing:
  assumes "stored w" "vw_live w = []" "xj_phase (vw_memory w) = Quiesced"
  shows "wp keep_baseline (\<lambda>_. installing) working w"
proof -
  let ?l = "w\<lparr>vw_previous := vw_root w\<rparr>"
  have linked: "wp begin_installing (\<lambda>_. installing) working ?l" "working ?l"
    if "vw_root w = Some (xj_old_disk (vw_memory w))"
    using begin_installing_ends[OF stored_linked[OF assms(1) that]] assms(2,3)
      stored_working[OF stored_linked[OF assms(1) that]] by simp_all
  show ?thesis
    unfolding keep_baseline_def link_previous_def
    using stored_working[OF assms(1)] linked begin_installing_ends[OF assms] by auto
qed

lemma install_and_launch_working:
  assumes "stored w" "vw_live w = []" "xj_phase (vw_memory w) = Quiesced \<or> xj_phase (vw_memory w) = Installing"
  shows "wp (install_and_launch spec) (\<lambda>_. working) working w"
proof -
  have root: "wp install_root (\<lambda>_. wp (launch spec' False) (\<lambda>_. working) working) working v"
    if "installing v" for spec' v
    by (rule wp_post[OF install_root_idle[OF that]]) (rule launch_working)
  have "installing w" if "xj_phase (vw_memory w) = Installing"
    using assms that baseline_uncommitted[OF stored_fits[OF assms(1)]] by (simp add: installing_def)
  then show ?thesis
    unfolding install_and_launch_def
    using assms(3) by (auto intro!: root wp_post[OF keep_baseline_installing[OF assms(1,2)]])
qed

lemma start_uncommitted_working:
  assumes "stored w"
  shows "wp (start_uncommitted spec) (\<lambda>_. working) working w"
proof -
  have "wp fence_old (\<lambda>_. wp (install_and_launch spec) (\<lambda>_. working) working) working w"
    if "xj_phase (vw_memory w) = Quiesced \<or> xj_phase (vw_memory w) = Installing"
  proof (rule wp_fence_old)
    fix v
    assume v: "quiet w v" "vw_live v = []"
    show "wp (install_and_launch spec) (\<lambda>_. working) working v"
      by (rule install_and_launch_working[OF quiet_stored[OF v(1) assms] v(2)])
        (use that quiet_memory[OF v(1)] in simp)
  qed (rule quiet_working[OF _ stored_working[OF assms]])
  then show ?thesis
    unfolding start_uncommitted_def using stored_working[OF assms] by auto
qed

lemma resume_installing_stored:
  assumes "working w" "\<not> xj_committed (vw_memory w)"
  shows "wp resume_installing (\<lambda>_. stored) working w"
  unfolding resume_installing_def
proof (rule wp_andthen, rule wp_memory, rule wp_andthen, rule wp_kept[OF keeps_fence_optional assms(1)])
  fix a v
  assume v: "quiet w v" "working v"
  have "working (vw_memory_update (set_phase Installing) v)"
    by (rule working_memoryI[OF v(2)], rule fitting_uncommitted[OF working_fits[OF v(2)]])
      (use assms(2) quiet_memory[OF v(1)] in simp_all)
  then show "wp (andthen (must_match vw_root (xj_candidate_disk (vw_memory w)) ''candidate root identity changed'')
      (\<lambda>_. andthen (transition Installing) (\<lambda>_. save))) (\<lambda>_. stored) working v"
    using v(2) by (auto intro!: wp_saved)
qed

lemma run_start_working:
  assumes "stored w"
  shows "wp (run_start uid spec) (\<lambda>_. working) working w"
  unfolding run_start_def
  using stored_working[OF assms]
  by (auto intro!: restart_committed_working wp_working[OF keeps_verify] uncertain_working
      wp_post[OF resume_installing_stored] start_uncommitted_working assms)

section \<open>Rollback\<close>

definition rolling :: "vm_world \<Rightarrow> bool" where
  "rolling w \<longleftrightarrow>
     working w \<and> \<not> xj_committed (vw_memory w) \<and> xj_phase (vw_memory w) = RollingBack \<and> vw_live w = [] \<and>
     (\<exists>k. vw_journal w = Some k \<and> \<not> xj_committed k \<and> xj_phase k = RollingBack \<and>
        xj_old_disk k = xj_old_disk (vw_memory w))"

lemma fitting_rolling:
  "fitting j r p \<Longrightarrow> xj_phase j = RollingBack \<Longrightarrow> s = Some (xj_old_disk j) \<Longrightarrow> fitting j s q"
  by (auto simp: fitting_def)

lemma rolling_disks:
  assumes "rolling w" "vw_root v = Some (xj_old_disk (vw_memory w))"
    "vw_memory v = vw_memory w" "vw_journal v = vw_journal w" "vw_live v = vw_live w"
  shows "rolling v"
proof -
  obtain k where k: "vw_journal w = Some k" "\<not> xj_committed k" "xj_phase k = RollingBack"
      "xj_old_disk k = xj_old_disk (vw_memory w)"
    using assms(1) by (auto simp: rolling_def)
  have m: "fitting (vw_memory w) (vw_root w) (vw_previous w)" "fitting k (vw_root w) (vw_previous w)"
    using assms(1) k(1) by (simp_all add: rolling_def working_def vm_ok_def)
  have "fitting (vw_memory w) (vw_root v) (vw_previous v)" "fitting k (vw_root v) (vw_previous v)"
    using fitting_rolling[OF m(1)] fitting_rolling[OF m(2) k(3)] assms(1,2) k(4) by (simp_all add: rolling_def)
  then show ?thesis
    using assms k by (simp add: rolling_def working_def vm_ok_def live_ok_def)
qed

definition restored :: "vm_world \<Rightarrow> bool" where
  "restored w \<longleftrightarrow> rolling w \<and> vw_root w = Some (xj_old_disk (vw_memory w))"

lemma restored_working: "restored w \<Longrightarrow> working w"
  by (simp add: restored_def rolling_def)

lemma restored_idle: "restored w \<Longrightarrow> launch_idle True w"
  by (simp add: restored_def rolling_def launch_idle_def launch_target_def)

lemma restored_without [simp]:
  "restored w \<Longrightarrow> restored (vw_previous_update f w)"
  "restored w \<Longrightarrow> restored (vw_staged_update g w)"
  by (auto simp: restored_def intro: rolling_disks)

lemma restored_status:
  assumes "restored w" "\<And>s. rs_phase (f s) = rs_phase s"
  shows "restored (vw_memory_update (xj_status_update f) w)"
proof -
  have "fitting (vw_memory w) (vw_root w) (vw_previous w)"
    by (rule working_fits[OF restored_working[OF assms(1)]])
  then have "working (vw_memory_update (xj_status_update f) w)"
    by (intro working_memoryI[OF restored_working[OF assms(1)]]) (simp add: fitting_status assms(2))
  then show ?thesis using assms by (auto simp: restored_def rolling_def)
qed

lemma rename_back_restored:
  assumes "rolling w"
  shows "wp (rename_back (vw_memory w)) (\<lambda>_. restored) working w"
proof -
  have "restored (reinstall_previous w)" if "vw_previous w = Some (xj_old_disk (vw_memory w))"
    using that assms rolling_disks[OF assms, of "reinstall_previous w"]
    by (auto simp: restored_def reinstall_previous_def split: if_splits)
  moreover have "working w" using assms by (simp add: rolling_def)
  ultimately show ?thesis
    unfolding rename_back_def by (auto intro: restored_working)
qed

lemma clear_previous_restored: "restored w \<Longrightarrow> wp (clear_previous j) (\<lambda>_. restored) working w"
  and clear_staged_restored: "restored w \<Longrightarrow> wp (clear_staged j) (\<lambda>_. restored) working w"
  unfolding clear_previous_def clear_staged_def remove_previous_def remove_staged_def unlink_disk_def
  by (auto intro: restored_working)

lemma restore_root_restored:
  assumes "rolling w"
  shows "wp restore_root (\<lambda>_. restored) working w"
proof -
  have "restored w" if "vw_root w = Some (xj_old_disk (vw_memory w))"
    using assms that by (simp add: restored_def)
  moreover have "working w" using assms by (simp add: rolling_def)
  ultimately show ?thesis
    unfolding restore_root_def
    by (auto intro!: wp_post[OF rename_back_restored[OF assms]] wp_post[OF clear_previous_restored]
        wp_post[OF clear_staged_restored] restored_status intro: restored_working)
qed

lemma launch_old_working:
  assumes "restored w"
  shows "wp (launch_old spec) (\<lambda>_. working) working w"
proof -
  have "working (vw_memory_update (xj_status_update (rs_rollback_available_update f)) v)" if "working v" for f v
    by (rule working_memoryI[OF that]) (simp add: working_fits[OF that])
  then show ?thesis
    unfolding launch_old_def
    by (auto intro!: wp_post[OF launch_working] restored_idle restored_status assms)
qed

lemma quiet_rolling:
  assumes "stored w" "\<not> xj_committed (vw_memory w)" "xj_phase (vw_memory w) = RollingBack"
    "quiet w v" "vw_live v = []"
  shows "rolling v"
  using quiet_stored[OF assms(4,1)] assms(2,3,5) quiet_memory[OF assms(4)] by (simp add: rolling_def stored_def)

lemma rolling_not_running:
  assumes "rolling w"
  shows "rolling (vw_memory_update (xj_status_update not_running) w)"
proof -
  have "working w" using assms by (simp add: rolling_def)
  then have "working (vw_memory_update (xj_status_update not_running) w)"
    by (intro working_memoryI) (simp_all add: working_fits)
  then show ?thesis using assms by (auto simp: rolling_def not_running_def)
qed

lemma rollback_now_working:
  assumes "working w" "\<not> xj_committed (vw_memory w)"
  shows "wp (rollback_now spec) (\<lambda>_. working) working w"
  unfolding rollback_now_def
proof (intro wp_andthen wp_transition wp_saved)
  let ?v = "vw_memory_update (set_phase RollingBack) w"
  show "working ?v"
    by (rule working_memoryI[OF assms(1)], rule fitting_uncommitted[OF working_fits[OF assms(1)] assms(2)]) simp
  assume s: "stored (?v\<lparr>vw_journal := Some (vw_memory ?v)\<rparr>)"
  have goes_back: "wp (andthen restore_root (\<lambda>_. launch_old spec)) (\<lambda>_. working) working
      (vw_memory_update (xj_status_update not_running) u)" if "rolling u" for u
    by (rule wp_andthen, rule wp_post[OF restore_root_restored[OF rolling_not_running[OF that]]])
      (rule launch_old_working)
  have fence: "wp (andthen fence_old (\<lambda>_. andthen (modify_status not_running) (\<lambda>_.
      andthen restore_root (\<lambda>_. launch_old spec)))) (\<lambda>_. working) working u"
    if u: "stored u" "\<not> xj_committed (vw_memory u)" "xj_phase (vw_memory u) = RollingBack" for u
  proof (rule wp_andthen, rule wp_fence_old)
    fix v
    assume v: "quiet u v" "vw_live v = []"
    show "wp (andthen (modify_status not_running) (\<lambda>_. andthen restore_root (\<lambda>_. launch_old spec)))
        (\<lambda>_. working) working v"
      by (rule wp_andthen, rule wp_modify_status, rule goes_back[OF quiet_rolling[OF u v]])
  qed (rule quiet_working[OF _ stored_working[OF u(1)]])
  show "wp in_memory (\<lambda>j. wp (andthen (fence_optional (xj_candidate_process j)) (\<lambda>_.
      andthen fence_old (\<lambda>_. andthen (modify_status not_running) (\<lambda>_.
      andthen restore_root (\<lambda>_. launch_old spec))))) (\<lambda>_. working) working) working
      (?v\<lparr>vw_journal := Some (vw_memory ?v)\<rparr>)"
  proof (rule wp_memory, rule wp_andthen, rule wp_kept_stored[OF keeps_fence_optional s])
    fix a u
    assume u: "quiet (?v\<lparr>vw_journal := Some (vw_memory ?v)\<rparr>) u" "stored u"
    show "wp (andthen fence_old (\<lambda>_. andthen (modify_status not_running) (\<lambda>_.
      andthen restore_root (\<lambda>_. launch_old spec)))) (\<lambda>_. working) working u"
      by (rule fence[OF u(2)]) (use quiet_memory[OF u(1)] assms(2) in simp_all)
  qed
qed

lemma keeps_clear_prepared: "leaves_alone (clear_prepared j)"
  unfolding clear_prepared_def by (intro keeping)

lemma rollback_untouched_working:
  assumes "working w" "\<not> xj_committed (vw_memory w)"
  shows "wp rollback_untouched (\<lambda>_. working) working w"
proof -
  have last: "wp (clear_prepared j) (\<lambda>_. wp (modify back_untouched) (\<lambda>_. working) working) working w"
    if r: "vw_root w = Some (xj_old_disk (vw_memory w))" for j
  proof (rule wp_kept[OF keeps_clear_prepared assms(1)])
    fix a v
    assume v: "quiet w v" "working v"
    have "fitting (back_untouched (vw_memory v)) (vw_root v) (vw_previous v)"
      by (rule fitting_back[OF working_fits[OF v(2)]])
        (use r assms(2) quiet_memory[OF v(1)] quiet_root[OF v(1)] in simp_all)
    then show "wp (modify back_untouched) (\<lambda>_. working) working v"
      by (intro wp_modify working_memoryI[OF v(2)])
  qed
  show ?thesis
    unfolding rollback_untouched_def using assms(1) last by auto
qed

lemma run_rollback_working:
  assumes "working w"
  shows "wp (run_rollback spec) (\<lambda>_. working) working w"
  unfolding run_rollback_def
  using assms by (auto intro!: rollback_untouched_working rollback_now_working)

section \<open>One request\<close>

lemma run_working:
  assumes "stored w"
  shows "wp (run uid spec) (\<lambda>_. working) working w"
  unfolding run_def
  by (rule wp_andthen, rule wp_memory)
    (auto simp: assms stored_working[OF assms] split: replace_action.split
      intro: run_prepare_working run_quiesce_working run_start_working run_commit_working
        run_release_working run_rollback_working)

lemma recover_launch_working:
  assumes "working w"
  shows "wp recover_launch (\<lambda>_. working) working w"
proof -
  have known: "wp (modify (identified p b)) (\<lambda>_. working) working v" if "working v" for v p b
    using that by (auto intro!: working_memoryI fitting_identified working_fits)
  have "wp (identify p) (\<lambda>_. working) working w" for p
    unfolding identify_def
    by (intro wp_andthen wp_kept[OF keeps_alive] wp_kept[OF keeps_if[OF keeps_owner keeps_ret]] known assms)
  moreover have "working (vw_memory_update rebooted w)"
    by (rule working_memoryI[OF assms], rule fitting_rebooted[OF working_fits[OF assms]])
  ultimately show ?thesis
    unfolding recover_launch_def
    using assms by (auto split: option.split)
qed

lemma refresh_running_working:
  assumes "working w"
  shows "wp refresh_running (\<lambda>_. working) working w"
proof -
  have "wp (andthen (alive p) (\<lambda>b. if b then ret () else modify gone)) (\<lambda>_. working) working w" for p
  proof (rule wp_andthen, rule wp_kept[OF keeps_alive assms])
    fix b v
    assume v: "quiet w v" "working v"
    have "working (vw_memory_update gone v)"
      by (rule working_memoryI[OF v(2)], rule fitting_gone[OF working_fits[OF v(2)]])
    then show "wp (if b then ret () else modify gone) (\<lambda>_. working) working v" using v(2) by auto
  qed
  then show ?thesis
    unfolding refresh_running_def
    by (intro wp_andthen wp_memory) (auto simp: assms split: option.split simp del: wp_andthen)
qed

lemma run_and_save_working:
  assumes "stored w"
  shows "wp (run_and_save uid spec) (\<lambda>_. working) working w"
proof -
  have save: "wp save (\<lambda>_. working) working v" if "working v" for v
    by (rule wp_saved[OF that]) (rule stored_working)
  have failed: "wp (andthen (modify_status (rs_reason_update f)) (\<lambda>_. andthen save (\<lambda>_. bail why)))
      (\<lambda>_. working) working v" if "working v" for f why and v
  proof (intro wp_andthen wp_modify_status wp_saved wp_bail)
    show "working (vw_memory_update (xj_status_update (rs_reason_update f)) v)"
      by (rule working_memoryI[OF that]) (simp add: working_fits[OF that])
  qed (rule stored_working)
  have worked: "wp (andthen refresh_running (\<lambda>_. save)) (\<lambda>_. working) working v" if "working v" for v
    by (rule wp_andthen, rule wp_post[OF refresh_running_working[OF that]]) (rule save)
  show ?thesis
    unfolding run_and_save_def
    by (rule wp_andthen, rule wp_attempt, rule wp_conseq[OF run_working[OF assms]])
      (simp_all add: failed worked)
qed

section \<open>The journal a request begins with\<close>

lemma fitting_same:
  assumes "xj_committed k = xj_committed j" "xj_phase k = xj_phase j" "xj_old_disk k = xj_old_disk j"
    "xj_candidate_disk k = xj_candidate_disk j" "xj_committed_restart_nonce k = xj_committed_restart_nonce j"
    "xj_used_nonces k = xj_used_nonces j"
  shows "fitting k r p = fitting j r p"
  by (simp add: fitting_def on_candidate_def assms)

lemma loaded_fitting:
  assumes "loaded i j = Inr k" "fitting j r p"
  shows "fitting k r p"
proof -
  have c: "read_committed j = xj_committed j"
    using assms(2) by (auto simp: read_committed_def fitting_def committed_phase_def)
  have "fitting k r p = fitting j r p"
    using assms(1) by (intro fitting_same) (auto simp: loaded_def Let_def c split: if_splits)
  then show ?thesis using assms(2) by simp
qed

lemma accept_fitting:
  assumes "accept_request j rq = Inr k" "fitting j r p"
  shows "fitting k r p"
proof -
  have b: "fitting (begin_operation j rq) r p = fitting j r p" "fitting (replayed j rq) r p = fitting j r p"
    by (rule fitting_same; simp add: begin_operation_def replayed_def)+
  then show ?thesis
    using assms by (auto simp: accept_request_def accept_new_def Let_def split: if_splits)
qed

lemma new_journal_fitting: "fitting (new_journal spec rq shape old running d) (Some d) p"
  by (simp add: fitting_def new_journal_def)

definition opens :: "exec_journal \<Rightarrow> vm_world \<Rightarrow> bool" where
  "opens j w \<longleftrightarrow> vm_ok w \<and> fitting j (vw_root w) (vw_previous w)"

lemma wp_ok:
  assumes "leaves_alone m" "vm_ok w" "\<And>a v. quiet w v \<Longrightarrow> vm_ok v \<Longrightarrow> Q a v"
  shows "wp m Q vm_ok w"
  by (rule wp_keeps[OF assms(1)]) (blast intro: assms quiet_vm_ok)+

lemma open_journal_opens:
  assumes "vm_ok w"
  shows "wp (open_journal spec rq shape old) opens vm_ok w"
  unfolding open_journal_def
proof (rule wp_andthen, rule wp_ok[OF _ assms])
  show "leaves_alone (case old of
                None \<Rightarrow> ret None
              | Some p \<Rightarrow> andthen (alive p) (\<lambda>b. ret (if b then Some p else None)))"
    by (intro keeping)
  show "wp (andthen (disk_of vw_root) (\<lambda>root. ret (new_journal spec rq shape old running root))) opens vm_ok u"
    if "vm_ok u" for running u
    using that by (auto simp: opens_def new_journal_fitting)
qed

lemma begin_attempt_opens:
  assumes "vm_ok w"
  shows "wp (begin_attempt spec rq prior) opens vm_ok w"
  unfolding begin_attempt_def
  using assms by (auto intro!: wp_ok[OF keeps_adopt] open_journal_opens)

lemma admitted_opens:
  assumes "vm_ok w" "\<And>j. prior = Some j \<Longrightarrow> fitting j (vw_root w) (vw_previous w)"
  shows "wp (admitted_journal spec rq prior) opens vm_ok w"
proof (cases prior)
  case None
  then show ?thesis using begin_attempt_opens[OF assms(1)] by (simp add: admitted_journal_def)
next
  case (Some j)
  have "opens k w" if "accept_request j rq = Inr k" for k
    using accept_fitting[OF that assms(2)[OF Some]] assms(1) by (simp add: opens_def)
  then show ?thesis
    using Some begin_attempt_opens[OF assms(1)] assms(1) by (auto simp: admitted_journal_def)
qed

definition known :: "exec_journal option \<Rightarrow> vm_world \<Rightarrow> bool" where
  "known prior w \<longleftrightarrow> vm_ok w \<and> (\<forall>j. prior = Some j \<longrightarrow> fitting j (vw_root w) (vw_previous w))"

lemma prior_journal_known:
  assumes "vm_ok w"
  shows "wp (prior_journal i) known vm_ok w"
proof -
  have "known (Some k) w" if "vw_journal w = Some j" "loaded i j = Inr k" for j k
    using loaded_fitting[OF that(2)] assms that(1) by (simp add: known_def vm_ok_def)
  then show ?thesis
    unfolding prior_journal_def
    using assms by (auto split: option.split simp: known_def)
qed

lemma working_ok: "working w \<Longrightarrow> vm_ok w"
  by (simp add: working_def)

lemma carry_out_working:
  assumes "opens j w"
  shows "wp (carry_out uid spec j) (\<lambda>_. working) working w"
proof -
  have begun: "working (vw_memory_update (\<lambda>_. j) w)"
    using assms by (simp add: opens_def working_memory)
  have go: "wp save (\<lambda>_. wp (andthen (run_and_save uid spec) (\<lambda>_. andthen in_memory (\<lambda>j. ret (xj_status j))))
      (\<lambda>_. working) working) working v" if "working v" for v
    using that by (auto intro!: wp_saved wp_post[OF run_and_save_working])
  show ?thesis
    unfolding carry_out_def
    by (intro wp_andthen wp_modify wp_post[OF recover_launch_working[OF begun]] wp_memory wp_from_sum) (assumption, erule go[THEN wp_post])
qed

lemma execute_ok:
  assumes "vm_ok w"
  shows "wp (execute strong uid spec rq) (\<lambda>_. vm_ok) vm_ok w"
proof -
  have admit: "wp (admitted_journal spec rq prior) (\<lambda>j. wp (carry_out uid spec j) (\<lambda>_. vm_ok) vm_ok) vm_ok v"
    if "known prior v" for prior v
    by (rule wp_post[OF admitted_opens])
      (use that in \<open>auto simp: known_def intro: wp_conseq[OF carry_out_working] working_ok\<close>)
  have ok: "vm_ok v" if "known prior v" for prior v using that by (simp add: known_def)
  show ?thesis
    unfolding execute_def
    using assms by (auto intro!: wp_post[OF prior_journal_known] admit dest: ok)
qed

end
