(* ===== verification/Vm_Run_Props.thy ===== *)
theory Vm_Run_Props
  imports Vm_Run_Actions
begin

text \<open>
  What the replacement of a VM's root promises of every sequence of requests, each cut short at any
  point: one process at most runs the VM, on its root; the root of before is there until the commit;
  no nonce is used twice within an attempt; and after the commit the confirmed root stays.
\<close>

section \<open>Every history\<close>

lemma live_ok_nil_spawn:
  assumes "vm_ok w" "vw_live w = []"
  shows "vm_ok (left_on_disk (spawn w answers))"
proof -
  have "calm w (left_on_disk (spawn w answers))" by (rule wp_left[OF spawn_calm[OF assms(2)]])
  then show ?thesis using assms(1) by (rule calm_vm_ok)
qed

lemma replaced_ok:
  assumes "replaced strong uid i w0 w" "vw_journal w0 = None" "live_ok w0"
  shows "vm_ok w"
  using assms
proof (induction rule: replaced.induct)
  case begins
  then show ?case by (simp add: vm_ok_def)
next
  case (executed w spec rq answers)
  then show ?case using wp_left[OF execute_ok] by blast
next
  case (processes_end w ps)
  then show ?case using quiet_vm_ok[OF quiet_ended] by blast
next
  case (started w answers)
  then show ?case using live_ok_nil_spawn by blast
qed

section \<open>Programs that keep a commit\<close>

text \<open>The journal in memory and the one on disk are committed to the disk \<open>d\<close>, which is the root.\<close>

definition anchored :: "disk \<Rightarrow> vm_world \<Rightarrow> bool" where
  "anchored d w \<longleftrightarrow>
     vw_root w = Some d \<and> xj_committed (vw_memory w) \<and> xj_candidate_disk (vw_memory w) = Some d \<and>
     (\<exists>k. vw_journal w = Some k \<and> xj_committed k \<and> xj_candidate_disk k = Some d)"

definition holds :: "disk \<Rightarrow> 'a exec \<Rightarrow> bool" where
  "holds d m \<longleftrightarrow> (\<forall>w. anchored d w \<longrightarrow> wp m (\<lambda>_. anchored d) (anchored d) w)"

named_theorems holding

lemma anchored_quiet: "quiet w v \<Longrightarrow> anchored d w \<Longrightarrow> anchored d v"
  by (simp add: quiet_def anchored_def)

lemma holds_keeps: "leaves_alone m \<Longrightarrow> holds d m"
  unfolding holds_def by (blast intro: wp_keeps anchored_quiet)

lemma holds_andthen [holding]: "holds d m \<Longrightarrow> (\<And>a. holds d (k a)) \<Longrightarrow> holds d (andthen m k)"
  unfolding holds_def by (blast intro: wp_andthen wp_post)

lemma holds_attempt [holding]:
  assumes "holds d m"
  shows "holds d (attempt m)"
  unfolding holds_def
proof (intro allI impI wp_attempt)
  fix w
  assume "anchored d w"
  then have "wp m (\<lambda>_. anchored d) (anchored d) w" using assms by (simp add: holds_def)
  then show "wp m (\<lambda>a. anchored d) (\<lambda>v. anchored d v \<and> (\<forall>why. anchored d v)) w" by simp
qed

lemma holds_if [holding]: "(b \<Longrightarrow> holds d m) \<Longrightarrow> (\<not> b \<Longrightarrow> holds d n) \<Longrightarrow> holds d (if b then m else n)"
  by simp

lemma holds_option [holding]:
  "holds d m \<Longrightarrow> (\<And>a. holds d (k a)) \<Longrightarrow> holds d (case x of None \<Rightarrow> m | Some a \<Rightarrow> k a)"
  by (simp split: option.split)

lemma holds_sum [holding]:
  "(\<And>a. holds d (m a)) \<Longrightarrow> (\<And>a. holds d (k a)) \<Longrightarrow> holds d (case x of Inl a \<Rightarrow> m a | Inr a \<Rightarrow> k a)"
  by (simp split: sum.split)

lemma holds_basic [holding]:
  "holds d (ret a)" "holds d (bail why)" "holds d (ask kind)" "holds d (look f)" "holds d (ensure b why)"
  "holds d (given why y)" "holds d (works_op why)" "holds d now_ms" "holds d boot_id" "holds d in_memory"
  "holds d (alive p)" "holds d (fence_pidfd p)" "holds d (fence_optional q)" "holds d validate_process_owner"
  "holds d (sole_vm_process n)" "holds d (must_match g e why)" "holds d (path_exists h)" "holds d sync_dir"
  "holds d (verify_running b)" "holds d (confirmed_process uid j)" "holds d look_live"
  by (intro holds_keeps keeping)+

lemma holds_modify:
  assumes "\<And>j. xj_committed j \<Longrightarrow> xj_committed (f j)" "\<And>j. xj_candidate_disk (f j) = xj_candidate_disk j"
  shows "holds d (modify f)"
  using assms unfolding holds_def by (auto simp: anchored_def intro!: wp_modify)

lemma holds_status [holding]: "holds d (modify_status f)"
  unfolding modify_status_def by (rule holds_modify) simp_all

lemma holds_transition [holding]: "holds d (transition p)"
  unfolding transition_def by (rule holds_modify) simp_all

lemma holds_save [holding]: "holds d save"
  unfolding holds_def by (auto simp: anchored_def intro!: wp_save)

lemma holds_modifies [holding]:
  "holds d (modify (finalized x))" "holds d (modify reserve_restart)" "holds d (modify commit_candidate)"
  "holds d (modify released)" "holds d (modify (pending_launch b))" "holds d (modify (launched b p))"
  "holds d (modify (booted b img))" "holds d (modify (xj_launch_boot_id_update c))"
  "holds d (modify (xj_pending_predecessor_update e))" "holds d (modify gone)" "holds d (modify rebooted)"
  "holds d (modify (identified p r))"
  by (rule holds_modify;
      simp add: commit_candidate_def released_def booted_def gone_def rebooted_def identified_def set_phase_def Let_def)+

lemma holds_change [holding]:
  "holds d (change (vw_shape_update f))" "holds d (change (vw_previous_update g))"
  by (auto simp: holds_def anchored_def)

lemma holds_uncertain [holding]: "holds d (uncertain why)"
  unfolding uncertain_def by (intro holding)

lemma holds_start_process: "holds d start_process"
  by (auto simp: holds_def anchored_def start_process_def split: option.split)

lemma holds_spawn [holding]: "holds d spawn"
  unfolding spawn_def spawn_prepared_def
  by (intro holding holds_start_process holds_keeps[OF keeps_check_intent] holds_keeps[OF keeps_write_intent]
      holds_keeps[OF keeps_remove_intent] holds_keeps[OF keeps_open_socket])
    (rule holds_keeps, intro keeping)

lemma holds_launch [holding]: "holds d (launch spec b)"
  unfolding launch_def prepare_launch_def run_process_def configure_def by (intro holding)

lemma holds_finalize [holding]: "holds d (finalize_committed uid)"
  unfolding finalize_committed_def confirm_process_def by (intro holding)

lemma holds_restart [holding]: "holds d (restart_committed_root uid spec)"
  unfolding restart_committed_root_def restart_now_def fence_and_relaunch_def relaunch_def Let_def
  by (intro holding)

lemma holds_commit [holding]: "holds d (run_commit uid)"
  unfolding run_commit_def confirm_commit_def by (intro holding)

lemma holds_release [holding]: "holds d (run_release uid)"
  unfolding run_release_def release_old_root_def drop_previous_def remove_previous_def unlink_disk_def
  by (intro holding)

lemma holds_refresh [holding]: "holds d refresh_running"
  unfolding refresh_running_def by (intro holding)

lemma holds_recover [holding]: "holds d recover_launch"
  unfolding recover_launch_def identify_def by (intro holding)

text \<open>The actions of before the commit end without doing anything.\<close>

lemma run_anchored:
  assumes "anchored d w" "\<not> uncommitted_phase (xj_phase (vw_memory w))"
  shows "wp (run uid spec) (\<lambda>_. anchored d) (anchored d) w"
proof -
  have c: "xj_committed (vw_memory w)" using assms(1) by (simp add: anchored_def)
  have p: "xj_phase (vw_memory w) \<noteq> Prepared" "xj_phase (vw_memory w) \<noteq> Preparing"
      "xj_phase (vw_memory w) \<noteq> Quiesced" "xj_phase (vw_memory w) \<noteq> Quiescing"
    using assms(2) by auto
  have "wp run_prepare (\<lambda>_. anchored d) (anchored d) w" "wp run_quiesce (\<lambda>_. anchored d) (anchored d) w"
       "wp (run_rollback spec) (\<lambda>_. anchored d) (anchored d) w"
    unfolding run_prepare_def run_quiesce_def run_rollback_def
    using assms(1) p c by (auto simp: ensure_def)
  moreover have "wp (run_start uid spec) (\<lambda>_. anchored d) (anchored d) w"
    unfolding run_start_def using holds_restart assms(1) c by (auto simp: holds_def)
  moreover have "wp (run_commit uid) (\<lambda>_. anchored d) (anchored d) w"
      "wp (run_release uid) (\<lambda>_. anchored d) (anchored d) w"
    using holds_commit holds_release assms(1) by (simp_all add: holds_def)
  ultimately show ?thesis
    unfolding run_def by (auto split: replace_action.split)
qed

lemma wp_conj:
  assumes "wp m Q C w" "wp m R D w"
  shows "wp m (\<lambda>a v. Q a v \<and> R a v) (\<lambda>v. C v \<and> D v) w"
  unfolding wp_def
proof
  fix es
  have "leaves Q C (m w es)" "leaves R D (m w es)" using assms by (simp_all add: wp_def)
  then show "leaves (\<lambda>a v. Q a v \<and> R a v) (\<lambda>v. C v \<and> D v) (m w es)" by (cases "m w es") simp_all
qed

lemma run_and_save_anchored:
  assumes "anchored d w" "stored w"
  shows "wp (run_and_save uid spec) (\<lambda>_. anchored d) (anchored d) w"
proof -
  have "\<not> uncommitted_phase (xj_phase (vw_memory w))"
    using baseline_uncommitted[OF stored_fits[OF assms(2)]] assms(1) by (auto simp: anchored_def)
  then have run: "wp (run uid spec) (\<lambda>_. anchored d) (anchored d) w" by (rule run_anchored[OF assms(1)])
  have rest: "wp (case r of
         Inl why \<Rightarrow>
           andthen (modify_status (rs_reason_update (\<lambda>_. Some (take 1024 why)))) (\<lambda>_.
           andthen save (\<lambda>_. bail why))
       | Inr u \<Rightarrow> andthen refresh_running (\<lambda>_. save)) (\<lambda>_. anchored d) (anchored d) v"
    if "anchored d v" for r :: "string + unit" and v
  proof -
    have "holds d (case r of
         Inl why \<Rightarrow>
           andthen (modify_status (rs_reason_update (\<lambda>_. Some (take 1024 why)))) (\<lambda>_.
           andthen save (\<lambda>_. bail why))
       | Inr u \<Rightarrow> andthen refresh_running (\<lambda>_. save))"
      by (intro holding)
    then show ?thesis using that by (simp add: holds_def)
  qed
  show ?thesis
    unfolding run_and_save_def
    by (rule wp_andthen, rule wp_attempt, rule wp_conseq[OF run])
      (erule rest, intro conjI allI, assumption, erule rest)
qed

text \<open>The journal on disk is committed to the disk that is the root.\<close>

definition confirmed :: "disk \<Rightarrow> vm_world \<Rightarrow> bool" where
  "confirmed d w \<longleftrightarrow>
     vw_root w = Some d \<and> (\<exists>k. vw_journal w = Some k \<and> xj_committed k \<and> xj_candidate_disk k = Some d)"

lemma anchored_confirmed: "anchored d w \<Longrightarrow> confirmed d w"
  by (simp add: anchored_def confirmed_def)

lemma quiet_confirmed: "quiet w v \<Longrightarrow> confirmed d w \<Longrightarrow> confirmed d v"
  by (simp add: quiet_def confirmed_def)

lemma carry_out_confirmed:
  assumes "opens j w" "confirmed d w" "xj_committed j" "xj_candidate_disk j = Some d"
  shows "wp (carry_out uid spec j) (\<lambda>_. confirmed d) (confirmed d) w"
proof -
  have begun: "working (vw_memory_update (\<lambda>_. j) w)" "anchored d (vw_memory_update (\<lambda>_. j) w)"
    using assms by (simp_all add: opens_def working_memory anchored_def confirmed_def)
  have go: "wp save (\<lambda>_. wp (andthen (run_and_save uid spec) (\<lambda>_. andthen in_memory (\<lambda>j. ret (xj_status j))))
      (\<lambda>_. anchored d) (anchored d)) (anchored d) v" if v: "working v" "anchored d v" for v
  proof (rule wp_conseq[OF wp_conj[OF wp_saved[OF v(1)] holds_save[unfolded holds_def, rule_format, OF v(2)]]])
    show "stored x \<Longrightarrow> stored x" for x .
    show "wp (andthen (run_and_save uid spec) (\<lambda>_. andthen in_memory (\<lambda>j. ret (xj_status j))))
        (\<lambda>_. anchored d) (anchored d) x" if "stored x \<and> anchored d x" for x
      using that by (auto intro!: wp_post[OF run_and_save_anchored])
  qed simp
  have rec: "wp recover_launch (\<lambda>_ v. working v \<and> anchored d v) (\<lambda>v. working v \<and> anchored d v)
      (vw_memory_update (\<lambda>_. j) w)"
    by (rule wp_conj[OF recover_launch_working[OF begun(1)] holds_recover[unfolded holds_def, rule_format, OF begun(2)]])
  have rest: "wp (andthen in_memory (\<lambda>j. andthen (from_sum (base_spec_ok spec j)) (\<lambda>_.
       andthen save (\<lambda>_. andthen (run_and_save uid spec) (\<lambda>_. andthen in_memory (\<lambda>j. ret (xj_status j)))))))
      (\<lambda>_. anchored d) (anchored d) v" if "working v" "anchored d v" for v
    by (rule wp_andthen, rule wp_memory, rule wp_andthen, rule wp_from_sum, rule that(2), rule wp_andthen,
        rule go[OF that])
  have ends: "wp (andthen in_memory (\<lambda>j. andthen (from_sum (base_spec_ok spec j)) (\<lambda>_.
       andthen save (\<lambda>_. andthen (run_and_save uid spec) (\<lambda>_. andthen in_memory (\<lambda>j. ret (xj_status j)))))))
      (\<lambda>_. confirmed d) (confirmed d) v" if "working v \<and> anchored d v" for v
    by (rule wp_conseq[OF rest]) (use that anchored_confirmed in blast)+
  show ?thesis
    unfolding carry_out_def
    by (rule wp_andthen, rule wp_modify, rule wp_andthen, rule wp_conseq[OF rec])
      (erule ends, blast intro: anchored_confirmed)
qed

text \<open>The attempt goes on, or the commit is not final yet: another attempt cannot begin.\<close>

lemma admitted_confirmed:
  assumes "known (Some j) w" "confirmed d w" "xj_committed j" "xj_candidate_disk j = Some d"
    "rq_attempt_id (xj_request j) = rq_attempt_id rq \<or> \<not> terminal j"
  shows "wp (admitted_journal spec rq (Some j)) (\<lambda>k. wp (carry_out uid spec k) (\<lambda>_. confirmed d) (confirmed d)) (confirmed d) w"
proof (cases "rq_attempt_id (xj_request j) = rq_attempt_id rq")
  case True
  have "wp (carry_out uid spec k) (\<lambda>_. confirmed d) (confirmed d) w" if k: "accept_request j rq = Inr k" for k
  proof (rule carry_out_confirmed[OF _ assms(2)])
    show "opens k w" using accept_fitting[OF k] assms(1) by (simp add: opens_def known_def)
    show "xj_committed k" "xj_candidate_disk k = Some d"
      using k assms(3,4)
      by (auto simp: accept_request_def accept_new_def begin_operation_def replayed_def Let_def split: if_splits)
  qed
  then show ?thesis using True assms(2) by (simp add: admitted_journal_def wp_from_sum)
next
  case False
  then have "supersedes rq (Some j) = Inl ''stale attempt or active replacement''"
    using assms(5) by (simp add: supersedes_def)
  then show ?thesis
    using False assms(2) by (auto simp: admitted_journal_def begin_attempt_def)
qed

lemma loaded_same:
  assumes "loaded i j = Inr k" "fitting j r p"
  shows "xj_committed k = xj_committed j" "xj_candidate_disk k = xj_candidate_disk j"
    "xj_request k = xj_request j" "terminal k = terminal j"
proof -
  have c: "read_committed j = xj_committed j"
    using assms(2) by (auto simp: read_committed_def fitting_def committed_phase_def)
  then show "xj_committed k = xj_committed j" "xj_candidate_disk k = xj_candidate_disk j"
    "xj_request k = xj_request j" "terminal k = terminal j"
    using assms(1) by (auto simp: loaded_def Let_def terminal_def split: if_splits)
qed

lemma execute_confirmed:
  assumes "vm_ok w" "confirmed d w" "vw_journal w = Some j" "rq_attempt_id (xj_request j) = rq_attempt_id rq \<or> \<not> terminal j"
  shows "wp (execute strong uid spec rq) (\<lambda>_. confirmed d) (confirmed d) w"
proof -
  have fit: "fitting j (vw_root w) (vw_previous w)" using assms(1,3) by (simp add: vm_ok_def)
  have c: "xj_committed j" "xj_candidate_disk j = Some d" using assms(2,3) by (simp_all add: confirmed_def)
  have admit: "wp (admitted_journal spec rq (Some k)) (\<lambda>k. wp (carry_out uid spec k) (\<lambda>_. confirmed d) (confirmed d)) (confirmed d) w"
    if k: "loaded (sp_id spec) j = Inr k" for k
    using loaded_same[OF k fit] loaded_fitting[OF k fit] assms c
    by (intro admitted_confirmed) (simp_all add: known_def)
  show ?thesis
    unfolding execute_def prior_journal_def
    using assms(2,3) by (auto intro!: admit split: option.split)
qed

section \<open>A replacement from beginning to end\<close>

text \<open>A VM that runs on a first disk, and the requests of one attempt with the answers that let each end well.\<close>

definition sample_image :: "char \<Rightarrow> replace_image" where
  "sample_image c =
     \<lparr>ri_kernel = \<lparr>ar_url = ''https://images/kernel'', ar_sha256 = RETAINED_KERNEL\<rparr>,
      ri_rootfs = \<lparr>ar_url = ''https://images/root'', ar_sha256 = replicate 64 c\<rparr>\<rparr>"

definition vm_sample_spec :: replace_spec where
  "vm_sample_spec =
     \<lparr>sp_id = ''vm'', sp_vcpus = 1, sp_memory_mib = 512, sp_disk_gib = 4, sp_image = sample_image (CHR ''a''),
      sp_mmds_id = Some ''vm'', sp_mmds_grund = True\<rparr>"

definition vm_sample_request :: "nat \<Rightarrow> replace_action \<Rightarrow> string \<Rightarrow> replace_request" where
  "vm_sample_request n a nonce =
     \<lparr>rq_attempt_id = ''attempt'', rq_sequence = n, rq_document_generation = n, rq_action = a,
      rq_image = sample_image (CHR ''b''), rq_guest_machine_id = ''guest'', rq_registration_key = [],
      rq_launch_nonce = nonce, rq_deadline_unix_ms = 100\<rparr>"

definition first_process :: vmm_process where
  "first_process = \<lparr>vp_pid = 10, vp_start_time_ticks = 1, vp_boot_id = ''boot'', vp_uid = 7\<rparr>"

definition second_process :: vmm_process where
  "second_process = \<lparr>vp_pid = 11, vp_start_time_ticks = 2, vp_boot_id = ''boot'', vp_uid = 7\<rparr>"

definition first_disk :: disk where "first_disk = \<lparr>dk_device = 1, dk_inode = 1\<rparr>"
definition second_disk :: disk where "second_disk = \<lparr>dk_device = 1, dk_inode = 2\<rparr>"

definition sample_vm :: vm_world where
  "sample_vm =
     \<lparr>vw_journal = None, vw_shape = Some (shape_of vm_sample_spec), vw_root = Some first_disk, vw_staged = None,
      vw_previous = None, vw_process = Some first_process, vw_pid = Some 10, vw_intent = None,
      vw_live = [(first_process, first_disk)],
      vw_memory = new_journal vm_sample_spec (vm_sample_request 1 Prepare []) (shape_of vm_sample_spec) None None first_disk\<rparr>"

definition vm_sample_run :: "replace_request \<Rightarrow> vm_answer list \<Rightarrow> vm_world \<Rightarrow> vm_world" where
  "vm_sample_run rq answers w = left_on_disk (execute (\<lambda>_. Inr ()) 7 vm_sample_spec rq w answers)"

definition fine :: "nat \<Rightarrow> vm_answer list" where "fine n = replicate n (Op True)"
definition on_time :: "vm_answer list" where "on_time = [Time (Some 5)]"
definition all_seen :: "nat \<Rightarrow> vm_answer list" where "all_seen n = replicate n (Seen [] True)"

definition prepared_vm :: vm_world where
  "prepared_vm = vm_sample_run (vm_sample_request 1 Prepare ''n1'')
     (fine 4 @ on_time @ fine 4 @ all_seen 1 @ fine 1 @ all_seen 1 @ fine 3 @ on_time @ fine 3 @
      [Copied (Some second_disk)] @ fine 3 @ all_seen 1 @ fine 2) sample_vm"

definition quiesced_vm :: vm_world where
  "quiesced_vm = vm_sample_run (vm_sample_request 2 Quiesce ''n2'')
     (fine 4 @ on_time @ fine 8 @ all_seen 1 @ fine 1 @ all_seen 2 @ fine 1 @ all_seen 2 @ fine 3) prepared_vm"

definition running_vm :: vm_world where
  "running_vm = vm_sample_run (vm_sample_request 3 StartCandidate ''n3'')
     (fine 4 @ on_time @ fine 2 @ all_seen 2 @ fine 1 @ all_seen 1 @ fine 14 @ on_time @ fine 4 @ on_time @
      [Boot (Some ''boot'')] @ fine 4 @ [Boot (Some ''boot'')] @ fine 3 @ [Spawned (Some second_process)] @
      fine 3 @ all_seen 1 @ fine 5 @ all_seen 1 @ fine 4 @ on_time @ fine 2 @ all_seen 1 @ fine 2) quiesced_vm"

definition committed_vm :: vm_world where
  "committed_vm = vm_sample_run (vm_sample_request 4 Commit ''n3'')
     (fine 4 @ on_time @ fine 2 @ all_seen 2 @ fine 2) running_vm"

lemma sample_steps:
  "replaced (\<lambda>_. Inr ()) 7 ''vm'' sample_vm prepared_vm"
  "replaced (\<lambda>_. Inr ()) 7 ''vm'' sample_vm quiesced_vm"
  "replaced (\<lambda>_. Inr ()) 7 ''vm'' sample_vm running_vm"
  "replaced (\<lambda>_. Inr ()) 7 ''vm'' sample_vm committed_vm"
proof -
  have i: "sp_id vm_sample_spec = ''vm''" by (simp add: vm_sample_spec_def)
  show *: "replaced (\<lambda>_. Inr ()) 7 ''vm'' sample_vm prepared_vm"
    unfolding prepared_vm_def vm_sample_run_def by (rule replaced.executed[OF replaced.begins i])
  show *: "replaced (\<lambda>_. Inr ()) 7 ''vm'' sample_vm quiesced_vm"
    unfolding quiesced_vm_def vm_sample_run_def by (rule replaced.executed[OF * i])
  show *: "replaced (\<lambda>_. Inr ()) 7 ''vm'' sample_vm running_vm"
    unfolding running_vm_def vm_sample_run_def by (rule replaced.executed[OF * i])
  show "replaced (\<lambda>_. Inr ()) 7 ''vm'' sample_vm committed_vm"
    unfolding committed_vm_def vm_sample_run_def by (rule replaced.executed[OF * i])
qed

lemma sample_begins: "vw_journal sample_vm = None" "live_ok sample_vm"
  by (simp_all add: sample_vm_def live_ok_def)

definition shown :: "vm_world \<Rightarrow> (replace_phase \<times> bool) option \<times> (vmm_process \<times> disk) list \<times> disk option" where
  "shown w = (map_option (\<lambda>j. (xj_phase j, xj_committed j)) (vw_journal w), vw_live w, vw_previous w)"

lemma running_shown:
  "shown running_vm = (Some (CandidateRunning, False), [(second_process, second_disk)], Some first_disk)"
  by code_simp

lemma committed_shown:
  "shown committed_vm = (Some (Committed, True), [(second_process, second_disk)], Some first_disk)"
  by code_simp

section \<open>The properties\<close>

text \<open>C39: whatever requests a VM gets, and wherever they fail or the host crashes, at most one
  process runs it and holds its root; the root of before is its root or kept until a commit, from the
  commit on the candidate is its root; and the nonces that the journal in force records as used are
  distinct and at most eight. (The record is the attempt's own: another attempt begins another journal
  with an empty record, so a nonce of a former attempt may be used again.)\<close>

theorem one_root_one_process:
  assumes "replaced strong uid i w0 w" "vw_journal w0 = None" "live_ok w0"
  shows "length (vw_live w) \<le> 1 \<and> (\<forall>(p, d)\<in>set (vw_live w). vw_root w = Some d) \<and> baseline_kept w \<and>
    (\<forall>j. vw_journal w = Some j \<longrightarrow> distinct (xj_used_nonces j) \<and> length (xj_used_nonces j) \<le> 8)"
proof -
  have "vm_ok w" by (rule replaced_ok[OF assms])
  then show ?thesis
    by (auto simp: vm_ok_def live_ok_def baseline_kept_def fitting_def MAX_LAUNCHES_def)
qed

theorem one_root_one_process_witness:
  "vw_live running_vm = [(second_process, second_disk)] \<and> vw_previous running_vm = Some first_disk \<and>
   vw_root running_vm = Some second_disk \<and> baseline_kept running_vm"
  using one_root_one_process[OF sample_steps(3) sample_begins] running_shown by (simp add: shown_def)

text \<open>C40: a committed replacement stays: until its attempt has ended and another begins, every
  request leaves the journal committed and the confirmed disk as the root, wherever it fails.\<close>

theorem commit_is_kept:
  assumes "replaced strong uid i w0 w" "vw_journal w0 = None" "live_ok w0"
    and "vw_journal w = Some j" "xj_committed j"
    and "rq_attempt_id (xj_request j) = rq_attempt_id rq \<or> \<not> terminal j"
  shows "\<exists>k d. vw_journal (left_on_disk (execute strong uid spec rq w answers)) = Some k \<and> xj_committed k \<and>
    xj_candidate_disk k = Some d \<and> vw_root w = Some d \<and>
    vw_root (left_on_disk (execute strong uid spec rq w answers)) = Some d"
proof -
  have ok: "vm_ok w" by (rule replaced_ok[OF assms(1-3)])
  then obtain d where d: "xj_candidate_disk j = Some d" "vw_root w = Some d"
    using assms(4,5) by (auto simp: vm_ok_def fitting_def on_candidate_def)
  then have "confirmed d w" using assms(4,5) by (simp add: confirmed_def)
  then have "confirmed d (left_on_disk (execute strong uid spec rq w answers))"
    by (intro wp_left[where C = "confirmed d"] execute_confirmed[OF ok _ assms(4,6)])
  then show ?thesis using d(2) by (auto simp: confirmed_def)
qed

theorem commit_is_kept_witness:
  "\<exists>k d. vw_journal (vm_sample_run (vm_sample_request 5 Rollback ''n4'') (fine 4 @ on_time @ fine 2) committed_vm) = Some k \<and>
    xj_committed k \<and> xj_candidate_disk k = Some d \<and> vw_root committed_vm = Some d \<and>
    vw_root (vm_sample_run (vm_sample_request 5 Rollback ''n4'') (fine 4 @ on_time @ fine 2) committed_vm) = Some d"
proof -
  obtain j where j: "vw_journal committed_vm = Some j" "xj_phase j = Committed" "xj_committed j"
    using committed_shown by (auto simp: shown_def)
  moreover have "\<not> terminal j" using j(2) by (simp add: terminal_def)
  ultimately show ?thesis
    using commit_is_kept[OF sample_steps(4) sample_begins j(1,3)] by (simp add: vm_sample_run_def)
qed

end
