(* ===== verification/Spec2Isabelle.thy ===== *)
theory Spec2Isabelle
  imports App_Props Reconcile_Props Volume_Props Spec_Check Settings Custom_Domain Organisation_Props
    Machine_Props Account Stack Updates_Props Grund_File Catalogue Net_Frame Net_Mesh_Props Net_Egress Gate_Props
    Agent_Document_Props Agent_Lease_Props Agent_Pass_Props Supervisor_Props Vm_Run_Props
begin

text \<open>
  A model of the core of Grund, a platform that runs a customer's apps on machines of their own. One
  instance (the server) decides, every machine runs an agent, and what passes between them is signed.
  The state of the instance is event-sourced: an aggregate is folded from its stream of events, and a
  command reads the folded state and answers with new events or an error. The reconciler compares
  what an app should run with what its machines report and appends the events that bring the two one
  step closer. Every machine takes its desired state from the instance as a signed document, makes its
  containers match it, carries their packets over the private network of the organisation, lets
  requests in through the gate and keeps itself up to date. The development follows that path, from
  the file a user writes to the container that runs.

  Every function of the code is one definition, in the order of the code and mostly under its name;
  structs are records, enums are datatypes, and \<open>Result\<close> is a sum with the error on the left.
  Arithmetic that may wrap, saturate or overflow is written out, or is on words of the width of the
  code. What the repository does not contain (crates for signatures, digests, JSON and protocol buffers, the operating
  system, containerd, iroh, hyper) is an argument of the definitions that use it.

  \<^bold>\<open>Shared theories.\<close> \<open>Prelude\<close> holds the types and the iterator operations that all components
  use, and the locales \<open>event_sourced\<close> (apply, handle and an invariant that every event kept by a
  command preserves) and \<open>event_sourced_stable\<close> (what, once true, no command makes untrue); every aggregate
  below is an interpretation of the first. \<open>Names\<close> holds the locale \<open>normaliser\<close> of the parsers that
  accept their own output, interpreted for each kind of name; \<open>Placement\<close> the locale \<open>placer\<close> of
  what the reconciler expects of a placement. \<open>Text\<close> is Rust's \<open>str\<close> over UTF-8 bytes, \<open>Maps\<close>
  its maps, \<open>F64\<close> the floating-point arithmetic that decides something, \<open>Crash\<close> the programs
  that may die between any two operations, with their weakest preconditions.

  \<^bold>\<open>What a user writes\<close> (\<open>crates/grund-config\<close>).
  \<^item> \<open>App_Spec\<close>, \<open>Spec_Check\<close>, \<open>Settings\<close>, \<open>Image\<close>, \<open>Names\<close>, \<open>Labels\<close>: the specification of an app,
    its validation, its settings and placement rules, image references, names and machine labels
    (\<open>app/spec.rs\<close>, \<open>names.rs\<close>, \<open>labels.rs\<close>). A validated spec is within every limit and is its own
    validation; scaling keeps or refuses settings exactly as stated.
  \<^item> \<open>App_File\<close>, \<open>App_File_Props\<close>: an app in \<open>grund.yaml\<close> (\<open>app/file.rs\<close>) and the round trip through it.
  \<^item> \<open>Stack_Service\<close>, \<open>Stack_File\<close>, \<open>Stack_File_Props\<close>, \<open>Grund_File\<close>: stack files (\<open>stack.rs\<close>,
    \<open>yaml.rs\<close>): the check of dependencies returns and accepts exactly the graphs with a start order, and
    services expand to valid apps.

  \<^bold>\<open>What the instance decides\<close> (\<open>crates/grund-domain\<close>).
  \<^item> \<open>App\<close>, \<open>App_Inv\<close>, \<open>App_Commands\<close>, \<open>App_Stream\<close>, \<open>App_Props\<close>: the app aggregate (\<open>app/mod.rs\<close>), its
    invariant, what each command does, and the stream with its four writers interleaved in any order.
  \<^item> \<open>Placement\<close>: where a replica may run, and the best of those places (\<open>app/placement.rs\<close>).
  \<^item> \<open>Reconcile\<close>: a pass of the reconciler (\<open>app/reconcile.rs\<close>). \<open>Reconcile_Steps\<close> shows that a pass is
    a sequence of guarded steps (a simulation); \<open>Reconcile_Safety\<close> and \<open>Reconcile_Avail\<close> prove by
    induction over the steps what a pass keeps, and \<open>Reconcile_Props\<close> states it of the code's pass.
  \<^item> \<open>Volume\<close>, \<open>Volume_Props\<close>, \<open>Custom_Domain\<close>, \<open>Domain_Name\<close>, \<open>Organisation\<close>, \<open>Organisation_Props\<close>,
    \<open>Account\<close>, \<open>Machine\<close>, \<open>Machine_Props\<close>, \<open>Stack\<close>: one aggregate per file (\<open>volume.rs\<close>,
    \<open>custom_domain.rs\<close>, \<open>organisation.rs\<close>, \<open>account.rs\<close>, \<open>machine.rs\<close>, \<open>stack.rs\<close>), its events and
    commands, its invariant, and what follows: fenced block slots, immutable revisions, verified
    domains, keys that never serve two lessees, and that every change of an organisation (its roles,
    invitations, name and deletion) was made by somebody entitled to it.
  \<^item> \<open>Public_Build\<close>, \<open>Vm_Attempt\<close>, \<open>Agent_Updates\<close>, \<open>Vm_Commands\<close>, \<open>Updates_Inv\<close>, \<open>Updates_Run\<close>,
    \<open>Updates_Props\<close>: the rollout of agents and the replacement of virtual machines (\<open>agent_updates.rs\<close>,
    \<open>agent_updates/vm.rs\<close>). The events of every run refine an abstract rollout with one slot, and what
    a replacement ended with is traced back to the reports, proofs and drains of the run.
  \<^item> \<open>Catalogue\<close>: the premade apps and the updates of images (\<open>app/templates.rs\<close>, \<open>app/updates.rs\<close>).

  \<^bold>\<open>The private network\<close> (\<open>crates/grund-net\<close>).
  \<^item> \<open>Net_Bytes\<close>, \<open>Net_Filter\<close>, \<open>Net_Frame\<close>: bytes and addresses, the inbound filter with its flow table
    (\<open>filter.rs\<close>), packets in datagrams and their reassembly (\<open>frame.rs\<close>).
  \<^item> \<open>Net_Membership\<close>, \<open>Net_Dns\<close>: the signed list of members and the resolver that answers from it
    (\<open>membership.rs\<close>, \<open>dns.rs\<close>).
  \<^item> \<open>Net_Mesh\<close>, \<open>Net_Mesh_Props\<close>, \<open>Net_Egress\<close>: a machine's side of the mesh as handlers of its inputs
    (\<open>mesh.rs\<close>) and the way out to the internet (\<open>egress.rs\<close>). The properties hold of every sequence of
    inputs: the list only moves forward, and only members reach the machine.

  \<^bold>\<open>The machine's agent\<close> (\<open>crates/grund-agent\<close>, \<open>crates/grund-entry\<close>).
  \<^item> \<open>Agent_Record\<close>: what registration leaves on a machine (\<open>join.rs\<close>).
  \<^item> \<open>Agent_Document\<close>, \<open>Agent_Document_Props\<close>: the signed desired state and the owner's policy (\<open>agent.rs\<close>,
    \<open>policy.rs\<close>).
  \<^item> \<open>Agent_Lease\<close>, \<open>Agent_Lease_Props\<close>: the lease of a management machine (\<open>lease.rs\<close>), through crashes.
  \<^item> \<open>Agent_Volume\<close>, \<open>Agent_Apps\<close>, \<open>Agent_Pass\<close>, \<open>Agent_Pass_Props\<close>: the directories of a container
    (\<open>volume.rs\<close>) and the loop that makes the containers match the document (\<open>apps.rs\<close>).
  \<^item> \<open>Supervisor_Files\<close>, \<open>Supervisor_Fetch\<close>, \<open>Supervisor\<close>, \<open>Supervisor_Inv\<close>, \<open>Supervisor_Steps\<close>,
    \<open>Supervisor_Props\<close>: the agent's own updates (\<open>supervisor.rs\<close>) as programs over files that may die
    between any two operations.
  \<^item> \<open>Entry_Wire\<close>, \<open>Gate_Routes\<close>, \<open>Gate_Budget\<close>, \<open>Gate\<close>, \<open>Gate_Props\<close>: the header of an entry stream, the
    routes, the retry budget and the gate itself (\<open>grund-entry/src/lib.rs\<close>, \<open>gate/routes.rs\<close>,
    \<open>gate/budget.rs\<close>, \<open>gate/mod.rs\<close>, \<open>gate/entry.rs\<close>).

  \<^bold>\<open>The host of virtual machines\<close> (\<open>crates/grund-vm\<close>).
  \<^item> \<open>Vm_Execution\<close>, \<open>Vm_Run\<close>, \<open>Vm_Run_Inv\<close>, \<open>Vm_Run_Actions\<close>,
    \<open>Vm_Run_Props\<close>: the execution of a replacement (\<open>replacement.rs\<close>, with the launch of \<open>lib.rs\<close>) as
    programs over the disks, the journal and the processes of a VM. Whatever fails, one process at most
    runs the VM, on its root, and the root of before is kept until the commit, which is final. The
    sample at the end of \<open>Vm_Run_Props\<close> runs one replacement from Prepare to Commit.

  \<^bold>\<open>How the parts meet.\<close> \<open>App_File\<close> and \<open>Stack_File\<close> give the specs that the commands of \<open>App\<close> and
  \<open>Stack\<close> take; \<open>Reconcile\<close> reads an \<open>App\<close>, the machines and \<open>Placement\<close>, and its events go back to
  \<open>App_Stream\<close>. The rollout of \<open>Updates_Props\<close> decides on the instance what \<open>Supervisor\<close> carries out on a
  machine and \<open>Vm_Run\<close> on the host of a virtual one.
  \<open>Agent_Pass\<close> runs the replicas of \<open>Agent_Document\<close> over \<open>Agent_Volume\<close>; its readiness is what
  \<open>Gate_Routes\<close> picks from; \<open>Net_Mesh\<close> works on \<open>Net_Membership\<close>, \<open>Net_Filter\<close>
  and \<open>Net_Frame\<close>.

  \<^bold>\<open>Bounds and loops.\<close> Loops over lists are structural recursion. The others are \<open>function\<close> with a
  measure (the leases left, the bytes left, the attempts left) and so return; the one loop whose end is
  not evident, over the services of a stack that are ready to start, is \<open>partial_function (option)\<close>,
  and that it returns is a theorem. No fuel is used. Numbers from protocol buffers and times saturate or
  wrap where the code does; a \<open>usize\<close> that counts what is in memory is a natural number. The
  floating-point numbers of \<open>F64\<close> have 53 bits and an unbounded exponent, which the code does not
  tell apart because it only compares them and rounds them to integers.

  \<^bold>\<open>Concurrency and failure.\<close> Writers of one stream take turns (the store appends under a version), so
  a stream is a sequence of commands, passes and writes in any order. The tasks of the mesh and of the gate are
  handlers of one input each, and properties hold for every list of inputs; what happens while a
  request waits is such a list. Programs that write files are cut short at any operation.

  \<^bold>\<open>Not modelled.\<close> The store and the services of the server are asynchronous calls between SQL, the
  network and the aggregates, and keep no state that the aggregates do not hold; the API, the web
  pages, the edge and the command line are input and output around them. Of the agent, telemetry,
  backups, enrollment over the network, the tasks that move bytes and the diagnostics are left out; of
  the network, the set-up of iroh, the devices and the namespaces, which are system calls. The
  container runtime is an answer of the outside, and of virtual machines the jail, the network, the
  images and the API of Firecracker are. Cryptography is a parameter:
  a theorem concludes that a signature was checked, and with which key, not who made it.

  \<^bold>\<open>What modelling showed.\<close> An app that replaces its only copies in place cannot be scaled to one
  (\<open>Settings\<close>); a reply of the resolver may exceed the 512 bytes it is documented to fit
  (\<open>Net_Dns\<close>); a document whose generation could not be written is not applied until a later one
  (\<open>Agent_Document_Props\<close>); a crash in the middle of a rollback leaves following on
  (\<open>Supervisor_Props\<close>); a share of a processor may be printed with a bare point (\<open>Placement\<close>); and
  a second pass of the reconciler over the same observations may decide more (\<open>Reconcile_Props\<close>).
\<close>

end
